(* ===== verification/Kal_Prelude.thy ===== *)
theory Kal_Prelude
  imports Main "HOL-Library.Word" "HOL-Library.AList" "HOL-Library.Multiset" "HOL-Library.Sublist"
    "HOL-Library.Char_ord" "HOL-Library.List_Lexorder"
begin

text \<open>
  The vocabulary every component theory shares: the widths of Rust's integers, strings as UTF-8
  bytes, \<open>HashMap\<close> as an association list with distinct keys, results with a state, wall-clock
  time, stable sorting and decimal formatting, together with the collections of facts the
  component proofs draw on.
\<close>

section \<open>Collections\<close>

named_theorems hm_simps \<open>lookups after hash-map updates\<close>
named_theorems wal_simps \<open>computation rules of the write-ahead log\<close>

section \<open>Machine types\<close>

text \<open>
  A Rust \<open>String\<close> or \<open>Vec<u8>\<close> of file contents is a \<^typ>\<open>string\<close>: Isabelle's \<^typ>\<open>char\<close> is an
  8-bit byte, so the list is the UTF-8 byte sequence and \<^const>\<open>length\<close> is Rust's \<open>len()\<close>.
  Payload bytes on which the code computes are \<^typ>\<open>8 word\<close>.
\<close>

type_synonym u8 = "8 word"
type_synonym u64 = "64 word"
type_synonym i32 = "32 word"
type_synonym tenant_id = string

abbreviation newline :: char where
  "newline \<equiv> CHR 0x0A"

section \<open>Wall-clock time\<close>

text \<open>
  \<open>SystemTime\<close> is a count of nanoseconds relative to the Unix epoch (earlier instants are
  negative), \<open>Duration\<close> a natural number of nanoseconds. \<open>duration_since\<close> fails, with the
  distance as the error, when the argument lies in the future.
\<close>

type_synonym system_time = int
type_synonym duration = nat

definition duration_since :: "system_time \<Rightarrow> system_time \<Rightarrow> duration + duration" where
  "duration_since now earlier =
     (if earlier \<le> now then Inr (nat (now - earlier)) else Inl (nat (earlier - now)))"

definition duration_since_or_zero :: "system_time \<Rightarrow> system_time \<Rightarrow> duration" where
  "duration_since_or_zero now earlier =
     (case duration_since now earlier of Inl _ \<Rightarrow> 0 | Inr d \<Rightarrow> d)"

section \<open>Hash maps\<close>

text \<open>
  A \<open>HashMap\<close> is an association list; its order stands for the iteration order, which Rust leaves
  unspecified. Lookups go through \<^const>\<open>map_of\<close>. Every key occurs at most once
  (\<open>hm_wf\<close>), which insertion and removal keep.
\<close>

type_synonym ('k, 'v) hash_map = "('k \<times> 'v) list"

abbreviation hm_get :: "('k, 'v) hash_map \<Rightarrow> 'k \<Rightarrow> 'v option" where
  "hm_get \<equiv> map_of"

abbreviation hm_insert :: "'k \<Rightarrow> 'v \<Rightarrow> ('k, 'v) hash_map \<Rightarrow> ('k, 'v) hash_map" where
  "hm_insert \<equiv> AList.update"

abbreviation hm_remove :: "'k \<Rightarrow> ('k, 'v) hash_map \<Rightarrow> ('k, 'v) hash_map" where
  "hm_remove \<equiv> AList.delete"

definition hm_wf :: "('k, 'v) hash_map \<Rightarrow> bool" where
  "hm_wf m = distinct (map fst m)"

definition hm_get_or :: "'v \<Rightarrow> ('k, 'v) hash_map \<Rightarrow> 'k \<Rightarrow> 'v" where
  "hm_get_or d m k = (case hm_get m k of None \<Rightarrow> d | Some v \<Rightarrow> v)"

definition hm_contains :: "('k, 'v) hash_map \<Rightarrow> 'k \<Rightarrow> bool" where
  "hm_contains m k = (hm_get m k \<noteq> None)"

lemma hm_get_insert [hm_simps, simp]:
  "hm_get (hm_insert k v m) = (hm_get m)(k \<mapsto> v)"
  by (simp add: update_conv')

lemma hm_get_remove [hm_simps, simp]:
  "hm_get (hm_remove k m) = (hm_get m)(k := None)"
  by (simp add: delete_conv')

lemma hm_get_or_insert [hm_simps, simp]:
  "hm_get_or d (hm_insert k v m) k' = (if k' = k then v else hm_get_or d m k')"
  by (simp add: hm_get_or_def)

lemma hm_get_or_remove [hm_simps, simp]:
  "hm_get_or d (hm_remove k m) k' = (if k' = k then d else hm_get_or d m k')"
  by (simp add: hm_get_or_def)

lemma hm_get_or_Nil [simp]: "hm_get_or d [] k = d"
  by (simp add: hm_get_or_def)

lemma hm_wf_Nil [simp]: "hm_wf []"
  by (simp add: hm_wf_def)

lemma hm_wf_insert [simp, intro]: "hm_wf m \<Longrightarrow> hm_wf (hm_insert k v m)"
  by (simp add: hm_wf_def distinct_update)

lemma hm_wf_remove [simp, intro]: "hm_wf m \<Longrightarrow> hm_wf (hm_remove k m)"
  by (simp add: hm_wf_def distinct_delete)

lemma hm_wf_get: "hm_wf m \<Longrightarrow> (k, v) \<in> set m \<longleftrightarrow> hm_get m k = Some v"
  by (simp add: hm_wf_def map_of_eq_Some_iff)

lemma hm_wf_map_entries:
  "hm_wf m \<Longrightarrow> hm_wf (map (\<lambda>(k, v). (k, f k v)) m)"
  by (simp add: hm_wf_def split_def comp_def)

lemma hm_get_map_entries:
  "hm_get (map (\<lambda>(k, v). (k, f k v)) m) k = map_option (f k) (hm_get m k)"
  by (induction m) auto

lemma hm_wf_ConsD: "hm_wf ((k, v) # m) \<Longrightarrow> hm_wf m \<and> hm_get m k = None"
  by (auto simp: hm_wf_def map_of_eq_None_iff)

lemma fold_insert_get:
  "hm_wf snap \<Longrightarrow> hm_get (fold (\<lambda>(k, v) m. hm_insert k v m) snap m) k =
     (case hm_get snap k of None \<Rightarrow> hm_get m k | Some v \<Rightarrow> Some v)"
proof (induction snap arbitrary: m)
  case (Cons kv snap)
  then show ?case
    by (cases kv) (auto simp: hm_wf_def split: option.splits dest: map_of_SomeD intro: rev_image_eqI)
qed simp

section \<open>Ordered maps\<close>

text \<open>
  A \<open>BTreeMap\<close> is an association list in ascending key order; strings compare by their bytes, as
  in Rust.
\<close>

type_synonym ('k, 'v) btree_map = "('k \<times> 'v) list"

fun bt_insert :: "'k::linorder \<Rightarrow> 'v \<Rightarrow> ('k, 'v) btree_map \<Rightarrow> ('k, 'v) btree_map" where
  "bt_insert k v [] = [(k, v)]"
| "bt_insert k v ((k', v') # m) =
     (if k < k' then (k, v) # (k', v') # m
      else if k = k' then (k, v) # m
      else (k', v') # bt_insert k v m)"

definition bt_wf :: "('k::linorder, 'v) btree_map \<Rightarrow> bool" where
  "bt_wf m = sorted_wrt (<) (map fst m)"

lemma bt_insert_keys [simp]: "fst ` set (bt_insert k v m) = insert k (fst ` set m)"
  by (induction k v m rule: bt_insert.induct) (simp_all add: insert_commute)

lemma bt_wf_distinct: "bt_wf m \<Longrightarrow> distinct (map fst m)"
  unfolding bt_wf_def by (rule strict_sorted_iff [THEN iffD1, THEN conjunct2])

lemma bt_wf_Nil [simp]: "bt_wf []"
  by (simp add: bt_wf_def)

lemma bt_wf_insert [simp, intro]: "bt_wf m \<Longrightarrow> bt_wf (bt_insert k v m)"
proof (induction m)
  case (Cons kv m)
  obtain k' v' where kv: "kv = (k', v')"
    by (cases kv)
  have "\<forall>x \<in> fst ` set (bt_insert k v m). k' < x" if "k' < k"
    using Cons.prems that by (auto simp: bt_wf_def kv)
  moreover have "bt_wf (bt_insert k v m)"
    using Cons by (simp add: bt_wf_def)
  ultimately show ?case
    using Cons.prems by (auto simp: bt_wf_def kv)
qed (simp add: bt_wf_def)

lemma bt_get_insert [simp]: "bt_wf m \<Longrightarrow> map_of (bt_insert k v m) = (map_of m)(k \<mapsto> v)"
  by (induction m) (auto simp: fun_eq_iff bt_wf_def)

section \<open>Stable sorting\<close>

text \<open>
  \<open>Vec::sort_by_key\<close> is a stable sort, as \<^const>\<open>sort_key\<close> is. The stores sort after every ingest,
  recovery sorts once at the end; the two agree.
\<close>

lemma sort_key_append_sorted_left:
  "sort_key f (sort_key f xs @ ys) = sort_key f (xs @ ys)"
proof (rule properties_for_sort_key)
  show "mset (sort_key f (xs @ ys)) = mset (sort_key f xs @ ys)"
    by simp
  show "sorted (map f (sort_key f (xs @ ys)))"
    by simp
  fix k
  assume "k \<in> set (sort_key f (xs @ ys))"
  show "filter (\<lambda>x. f k = f x) (sort_key f (xs @ ys)) = filter (\<lambda>x. f k = f x) (sort_key f xs @ ys)"
    using sort_key_stable [of f "f k" "xs @ ys"] sort_key_stable [of f "f k" xs]
    by (simp add: eq_commute [of "f k"])
qed

lemma sort_key_append_sorted_right:
  "sort_key f (xs @ sort_key f ys) = sort_key f (xs @ ys)"
proof (rule properties_for_sort_key)
  show "mset (sort_key f (xs @ ys)) = mset (xs @ sort_key f ys)"
    by simp
  show "sorted (map f (sort_key f (xs @ ys)))"
    by simp
  fix k
  assume "k \<in> set (sort_key f (xs @ ys))"
  show "filter (\<lambda>x. f k = f x) (sort_key f (xs @ ys)) = filter (\<lambda>x. f k = f x) (xs @ sort_key f ys)"
    using sort_key_stable [of f "f k" "xs @ ys"] sort_key_stable [of f "f k" ys]
    by (simp add: eq_commute [of "f k"])
qed

section \<open>Prefixes\<close>

lemma prefix_full: "prefix xs ys \<Longrightarrow> length ys \<le> length xs \<Longrightarrow> xs = ys"
  by (auto simp: prefix_def)

lemma prefix_past:
  assumes "prefix zs (xs @ ys)" and "length xs \<le> length zs"
  obtains t where "zs = xs @ t" "prefix t ys"
proof -
  consider "prefix zs xs" | t where "zs = xs @ t" "prefix t ys"
    using assms(1) by (auto simp: prefix_append)
  then show thesis
  proof cases
    case 1
    then show thesis
      using prefix_full [OF 1 assms(2)] that [of "[]"] by simp
  qed (rule that)
qed

section \<open>Decimal formatting\<close>

fun nat_str :: "nat \<Rightarrow> string" where
  "nat_str n = (if n < 10 then [char_of (48 + n)] else nat_str (n div 10) @ [char_of (48 + n mod 10)])"

declare nat_str.simps [simp del]

text \<open>\<open>join\<close> of a slice of strings.\<close>

fun str_join :: "string \<Rightarrow> string list \<Rightarrow> string" where
  "str_join sep [] = []"
| "str_join sep [s] = s"
| "str_join sep (s # t # ss) = s @ sep @ str_join sep (t # ss)"

end
