(* ===== verification/Wal_Utf8.thy ===== *)
theory Wal_Utf8
  imports Kal_Prelude
begin

text \<open>
  The text primitives of the Rust standard library that log recovery rests on:
  \<open>String::from_utf8_lossy\<close>, \<open>str::split('\<newline>')\<close> and \<open>BufRead::lines\<close>. The main facts: lossy
  decoding never creates, moves or removes a line feed, so it commutes with splitting a log into
  lines, and it is the identity on well-formed UTF-8.
\<close>

section \<open>Lossy UTF-8 decoding\<close>

definition byte_at :: "string \<Rightarrow> nat \<Rightarrow> nat" where
  "byte_at s i = (if i < length s then of_char (s ! i) else 0)"

definition utf8_cont :: "nat \<Rightarrow> bool" where
  "utf8_cont b = (128 \<le> b \<and> b < 192)"

definition utf8_second3 :: "nat \<Rightarrow> nat \<Rightarrow> bool" where
  "utf8_second3 b c =
     (if b = 224 then 160 \<le> c \<and> c \<le> 191
      else if b = 237 then 128 \<le> c \<and> c \<le> 159
      else 128 \<le> c \<and> c \<le> 191)"

definition utf8_second4 :: "nat \<Rightarrow> nat \<Rightarrow> bool" where
  "utf8_second4 b c =
     (if b = 240 then 144 \<le> c \<and> c \<le> 191
      else if b = 244 then 128 \<le> c \<and> c \<le> 143
      else 128 \<le> c \<and> c \<le> 191)"

text \<open>
  One step over a non-empty sequence: whether a whole scalar value stands at the front, and how
  many bytes it (or the maximal ill-formed subpart) takes.
\<close>

definition utf8_step :: "string \<Rightarrow> bool \<times> nat" where
  "utf8_step s =
     (let b = byte_at s 0 in
      if b < 128 then (True, 1)
      else if 194 \<le> b \<and> b \<le> 223 then
        (if utf8_cont (byte_at s 1) then (True, 2) else (False, 1))
      else if 224 \<le> b \<and> b \<le> 239 then
        (if \<not> utf8_second3 b (byte_at s 1) then (False, 1)
         else if utf8_cont (byte_at s 2) then (True, 3) else (False, 2))
      else if 240 \<le> b \<and> b \<le> 244 then
        (if \<not> utf8_second4 b (byte_at s 1) then (False, 1)
         else if \<not> utf8_cont (byte_at s 2) then (False, 2)
         else if utf8_cont (byte_at s 3) then (True, 4) else (False, 3))
      else (False, 1))"

lemma utf8_step_pos: "0 < snd (utf8_step s)"
  by (simp add: utf8_step_def Let_def)

definition replacement_character :: string where
  "replacement_character = [CHR 0xEF, CHR 0xBF, CHR 0xBD]"

function from_utf8_lossy :: "string \<Rightarrow> string" where
  "from_utf8_lossy [] = []"
| "from_utf8_lossy (c # cs) =
     (let (ok, n) = utf8_step (c # cs) in
      (if ok then take n (c # cs) else replacement_character) @ from_utf8_lossy (drop n (c # cs)))"
  by pat_completeness auto
termination
  by (relation "measure length") (use utf8_step_pos in \<open>auto simp: prod_eq_iff\<close>)

function utf8_valid :: "string \<Rightarrow> bool" where
  "utf8_valid [] = True"
| "utf8_valid (c # cs) =
     (let (ok, n) = utf8_step (c # cs) in ok \<and> utf8_valid (drop n (c # cs)))"
  by pat_completeness auto
termination
  by (relation "measure length") (use utf8_step_pos in \<open>auto simp: prod_eq_iff\<close>)

declare from_utf8_lossy.simps(2) [simp del] utf8_valid.simps(2) [simp del]

section \<open>Splitting into lines\<close>

fun split_newline :: "string \<Rightarrow> string list" where
  "split_newline [] = [[]]"
| "split_newline (c # cs) =
     (if c = newline then [] # split_newline cs
      else (c # hd (split_newline cs)) # tl (split_newline cs))"

text \<open>\<open>BufRead::lines\<close>: no empty piece after a final line feed, and a trailing CR is stripped.\<close>

definition strip_cr :: "string \<Rightarrow> string" where
  "strip_cr l = (if l \<noteq> [] \<and> last l = CHR 0x0D then butlast l else l)"

definition buf_read_lines :: "string \<Rightarrow> string list" where
  "buf_read_lines s =
     (let ps = split_newline s in
      map strip_cr (butlast ps) @ (if last ps = [] then [] else [last ps]))"

section \<open>Facts\<close>

lemma byte_at_append:
  "byte_at (xs @ ys) i = (if i < length xs then byte_at xs i else byte_at ys (i - length xs))"
  by (auto simp: byte_at_def nth_append)

lemma byte_at_ge: "length xs \<le> i \<Longrightarrow> byte_at xs i = 0"
  by (simp add: byte_at_def)

text \<open>A line feed after the end of a sequence stops a scalar exactly where the end itself would.\<close>

lemma utf8_tests_fail [simp]:
  "\<not> utf8_cont 0" "\<not> utf8_cont 10"
  "\<not> utf8_second3 b 0" "\<not> utf8_second3 b 10"
  "\<not> utf8_second4 b 0" "\<not> utf8_second4 b 10"
  by (auto simp: utf8_cont_def utf8_second3_def utf8_second4_def)

lemma utf8_step_before_newline:
  assumes "xs \<noteq> []"
  shows "utf8_step (xs @ newline # ys) = utf8_step xs"
proof -
  have nl: "byte_at (xs @ newline # ys) (length xs) = 10"
    by (simp add: byte_at_def)
  have lt: "i < length xs \<Longrightarrow> byte_at (xs @ newline # ys) i = byte_at xs i" for i
    by (simp add: byte_at_append)
  have hd: "byte_at (xs @ newline # ys) 0 = byte_at xs 0"
    using assms by (intro lt) simp
  consider "length xs = 1" | "length xs = 2" | "length xs = 3" | "4 \<le> length xs"
    using assms by (cases "length xs") (auto, linarith)
  then show ?thesis
    by cases (use nl hd lt [of 1] lt [of 2] lt [of 3] in
        \<open>simp_all add: utf8_step_def Let_def byte_at_ge\<close>)
qed

lemma utf8_step_le_length:
  assumes "xs \<noteq> []"
  shows "snd (utf8_step xs) \<le> length xs"
proof -
  consider "length xs = 1" | "length xs = 2" | "length xs = 3" | "4 \<le> length xs"
    using assms by (cases "length xs") (auto, linarith)
  then show ?thesis
    by cases (simp_all add: utf8_step_def Let_def byte_at_ge)
qed

theorem from_utf8_lossy_newline:
  "from_utf8_lossy (xs @ newline # ys) = from_utf8_lossy xs @ newline # from_utf8_lossy ys"
proof (induction xs rule: from_utf8_lossy.induct)
  case 1
  have "utf8_step (newline # ys) = (True, 1)"
    by (simp add: utf8_step_def byte_at_def)
  then show ?case
    by (simp add: from_utf8_lossy.simps(2))
next
  case (2 c cs)
  obtain ok n where st: "utf8_step (c # cs) = (ok, n)"
    by (metis surj_pair)
  have st': "utf8_step (c # cs @ newline # ys) = (ok, n)"
    using utf8_step_before_newline [of "c # cs" ys] st by simp
  have n: "n \<le> length (c # cs)"
    using utf8_step_le_length [of "c # cs"] st by simp
  have "from_utf8_lossy (drop n (c # cs) @ newline # ys) =
      from_utf8_lossy (drop n (c # cs)) @ newline # from_utf8_lossy ys"
    using 2 [OF st [symmetric] refl] .
  moreover have "drop n (c # cs @ newline # ys) = drop n (c # cs) @ newline # ys"
    and "take n (c # cs @ newline # ys) = take n (c # cs)"
    using n by (simp_all flip: append_Cons)
  ultimately show ?case
    using st st' by (simp add: from_utf8_lossy.simps(2) [of c])
qed

lemma from_utf8_lossy_valid: "utf8_valid s \<Longrightarrow> from_utf8_lossy s = s"
proof (induction s rule: utf8_valid.induct)
  case (2 c cs)
  obtain ok n where st: "utf8_step (c # cs) = (ok, n)"
    by (metis surj_pair)
  with 2 have "ok" and "from_utf8_lossy (drop n (c # cs)) = drop n (c # cs)"
    by (simp_all add: utf8_valid.simps(2))
  with st show ?case
    by (simp add: from_utf8_lossy.simps(2))
qed simp

lemma utf8_valid_newline: "utf8_valid (xs @ newline # ys) \<longleftrightarrow> utf8_valid xs \<and> utf8_valid ys"
proof (induction xs rule: utf8_valid.induct)
  case 1
  have "utf8_step (newline # ys) = (True, 1)"
    by (simp add: utf8_step_def byte_at_def)
  then show ?case
    by (simp add: utf8_valid.simps(2))
next
  case (2 c cs)
  obtain ok n where st: "utf8_step (c # cs) = (ok, n)"
    by (metis surj_pair)
  have st': "utf8_step (c # cs @ newline # ys) = (ok, n)"
    using utf8_step_before_newline [of "c # cs" ys] st by simp
  have "n \<le> length (c # cs)"
    using utf8_step_le_length [of "c # cs"] st by simp
  then have "drop n (c # cs @ newline # ys) = drop n (c # cs) @ newline # ys"
    by (simp flip: append_Cons)
  with st st' 2 [OF st [symmetric] refl] show ?case
    by (simp add: utf8_valid.simps(2) [of c])
qed

lemma utf8_valid_ascii: "\<forall>c\<in>set s. of_char c < (128 :: nat) \<Longrightarrow> utf8_valid s"
proof (induction s)
  case (Cons c s)
  then have "utf8_step (c # s) = (True, 1)"
    by (simp add: utf8_step_def byte_at_def)
  with Cons show ?case
    by (simp add: utf8_valid.simps(2))
qed simp

lemma split_newline_ne [simp]: "split_newline s \<noteq> []"
  by (cases s) auto

lemma split_newline_append:
  "split_newline (xs @ newline # ys) = split_newline xs @ split_newline ys"
  by (induction xs) (auto simp: hd_append tl_append split: list.splits)

lemma split_newline_free: "newline \<notin> set s \<Longrightarrow> split_newline s = [s]"
  by (induction s) auto

lemma split_newline_pieces: "l \<in> set (split_newline s) \<Longrightarrow> newline \<notin> set l"
proof (induction s arbitrary: l)
  case (Cons c s)
  have "hd (split_newline s) \<in> set (split_newline s)"
    by simp
  with Cons show ?case
    by (auto split: if_splits dest: list.set_sel(2) [rotated])
qed simp

lemma split_newline_single: "tl (split_newline s) = [] \<Longrightarrow> split_newline s = [s]"
proof (induction s)
  case (Cons c s)
  then show ?case
    by (cases "c = newline") auto
qed simp

lemma split_newline_last: "last (split_newline s) = [] \<longleftrightarrow> s = [] \<or> last s = newline"
proof (induction s)
  case (Cons c s)
  show ?case
  proof (cases "tl (split_newline s) = []")
    case True
    then show ?thesis
      using Cons split_newline_single [OF True] by (auto split: if_splits)
  next
    case False
    then have "s \<noteq> []"
      by (cases s) auto
    with Cons False show ?thesis
      by (auto simp: last_tl)
  qed
qed simp

end
