(* ===== verification/Wal_Recovery.thy ===== *)
theory Wal_Recovery
  imports Wal_Utf8
begin

text \<open>
  Replay of an append-only NDJSON log, \<open>crates/wal-recovery/src/lib.rs\<close>. The JSON deserialiser
  (\<open>serde_json::from_str\<close>) is a parameter \<open>from_str\<close>; the closures \<open>apply\<close> and \<open>on_parse_error\<close> are
  arguments, \<open>apply\<close> threading the state it captures. The theorems say what a replay does with an
  intact log, with a torn last line, and with any other damage.
\<close>

section \<open>Replay\<close>

datatype wal_warning =
  TornTailDropped (warn_pillar: string) (warn_line: nat) (warn_dropped_bytes: nat)

fun replay_lines ::
  "(string \<Rightarrow> 'j + 'r) \<Rightarrow> string \<Rightarrow> ('r \<Rightarrow> 's \<Rightarrow> ('e + unit) \<times> 's) \<Rightarrow> (nat \<Rightarrow> 'j \<Rightarrow> 'e) \<Rightarrow>
   nat \<Rightarrow> bool \<Rightarrow> nat \<Rightarrow> string list \<Rightarrow> 's \<Rightarrow> ('e + unit) \<times> 's \<times> wal_warning list" where
  "replay_lines from_str pillar apply on_parse_error last_index ends_with_newline index [] s =
     (Inr (), s, [])"
| "replay_lines from_str pillar apply on_parse_error last_index ends_with_newline index (line # rest) s =
     (if line = [] then
        replay_lines from_str pillar apply on_parse_error last_index ends_with_newline (Suc index) rest s
      else
        let line_number = index + 1 in
        case from_str line of
          Inr record \<Rightarrow>
            (case apply record s of
               (Inl e, s') \<Rightarrow> (Inl e, s', [])
             | (Inr _, s') \<Rightarrow>
                 replay_lines from_str pillar apply on_parse_error last_index ends_with_newline
                   (Suc index) rest s')
        | Inl err \<Rightarrow>
            (if index = last_index \<and> \<not> ends_with_newline
             then (Inr (), s, [TornTailDropped pillar line_number (length line)])
             else (Inl (on_parse_error line_number err), s, [])))"

definition replay_wal_tolerating_torn_tail ::
  "(string \<Rightarrow> 'j + 'r) \<Rightarrow> string \<Rightarrow> ('r \<Rightarrow> 's \<Rightarrow> ('e + unit) \<times> 's) \<Rightarrow> (nat \<Rightarrow> 'j \<Rightarrow> 'e) \<Rightarrow>
   string \<Rightarrow> 's \<Rightarrow> ('e + unit) \<times> 's \<times> wal_warning list" where
  "replay_wal_tolerating_torn_tail from_str pillar apply on_parse_error wal_bytes s =
     (if wal_bytes = [] then (Inr (), s, [])
      else
        let ends_with_newline = (last wal_bytes = newline);
            text = from_utf8_lossy wal_bytes;
            parts = split_newline text;
            last_index = length parts - 1
        in replay_lines from_str pillar apply on_parse_error last_index ends_with_newline 0 parts s)"

section \<open>What a log is\<close>

text \<open>
  The image of a sequence of records on disk, and what the code relies on of the serialiser for
  the records it writes: the encoding is a non-empty well-formed UTF-8 line with no line feed in
  it, and decodes to the record it came from.
\<close>

definition wal_image :: "('r \<Rightarrow> string) \<Rightarrow> 'r list \<Rightarrow> string" where
  "wal_image to_string rs = concat (map (\<lambda>r. to_string r @ [newline]) rs)"

definition codec_ok :: "('r \<Rightarrow> string) \<Rightarrow> (string \<Rightarrow> 'j + 'r) \<Rightarrow> 'r list \<Rightarrow> bool" where
  "codec_ok to_string from_str rs =
     (\<forall>r\<in>set rs. to_string r \<noteq> [] \<and> newline \<notin> set (to_string r) \<and> utf8_valid (to_string r) \<and>
        from_str (to_string r) = Inr r)"

text \<open>Applying records one after the other, stopping at the first error.\<close>

fun apply_all :: "('r \<Rightarrow> 's \<Rightarrow> ('e + unit) \<times> 's) \<Rightarrow> 'r list \<Rightarrow> 's \<Rightarrow> ('e + unit) \<times> 's" where
  "apply_all apply [] s = (Inr (), s)"
| "apply_all apply (r # rs) s =
     (case apply r s of (Inl e, s') \<Rightarrow> (Inl e, s') | (Inr _, s') \<Rightarrow> apply_all apply rs s')"

abbreviation total_apply :: "('r \<Rightarrow> 's \<Rightarrow> 's) \<Rightarrow> 'r \<Rightarrow> 's \<Rightarrow> ('e + unit) \<times> 's" where
  "total_apply f \<equiv> \<lambda>r s. (Inr (), f r s)"

lemma apply_all_total [simp]: "apply_all (total_apply f) rs s = (Inr (), fold f rs s)"
  by (induction rs arbitrary: s) auto

lemma apply_all_append [simp]:
  "apply_all ap (rs @ qs) s = (case apply_all ap rs s of (Inl e, s') \<Rightarrow> (Inl e, s') | (Inr _, s') \<Rightarrow> apply_all ap qs s')"
  by (induction rs arbitrary: s) (auto split: prod.splits sum.splits)

lemma wal_image_simps [simp]:
  "wal_image ts [] = []"
  "wal_image ts (r # rs) = ts r @ newline # wal_image ts rs"
  by (simp_all add: wal_image_def)

lemma wal_image_append [simp]: "wal_image ts (rs @ qs) = wal_image ts rs @ wal_image ts qs"
  by (simp add: wal_image_def)

lemma wal_image_last: "rs \<noteq> [] \<Longrightarrow> wal_image ts rs \<noteq> [] \<and> last (wal_image ts rs) = newline"
proof (induction rs)
  case (Cons r rs)
  then show ?case
    by (cases "rs = []") auto
qed simp

lemma codec_ok_simps [simp]:
  "codec_ok ts fs []"
  "codec_ok ts fs (r # rs) \<longleftrightarrow>
     ts r \<noteq> [] \<and> newline \<notin> set (ts r) \<and> utf8_valid (ts r) \<and> fs (ts r) = Inr r \<and> codec_ok ts fs rs"
  "codec_ok ts fs (rs @ qs) \<longleftrightarrow> codec_ok ts fs rs \<and> codec_ok ts fs qs"
  by (auto simp: codec_ok_def)

text \<open>Decoding and splitting a log gives back the encoded lines, whatever follows them.\<close>

lemma split_wal_image:
  "codec_ok ts fs rs \<Longrightarrow>
   split_newline (from_utf8_lossy (wal_image ts rs @ tail)) = map ts rs @ split_newline (from_utf8_lossy tail)"
  by (induction rs) (simp_all add: from_utf8_lossy_newline from_utf8_lossy_valid
      split_newline_append split_newline_free)

lemma replay_lines_records:
  "codec_ok ts fs rs \<Longrightarrow>
   replay_lines fs p ap pe li ew idx (map ts rs @ rest) s =
     (case apply_all ap rs s of
        (Inl e, s') \<Rightarrow> (Inl e, s', [])
      | (Inr _, s') \<Rightarrow> replay_lines fs p ap pe li ew (idx + length rs) rest s')"
  by (induction rs arbitrary: idx s) (auto split: prod.splits sum.splits)

lemma from_utf8_lossy_newline_free:
  "newline \<notin> set s \<Longrightarrow> newline \<notin> set (from_utf8_lossy s)"
proof (induction s rule: from_utf8_lossy.induct)
  case (2 c cs)
  obtain ok n where st: "utf8_step (c # cs) = (ok, n)"
    by (metis surj_pair)
  have "newline \<notin> set (take n (c # cs))" and "newline \<notin> set (drop n (c # cs))"
    using 2(2) by (meson in_set_takeD in_set_dropD)+
  with 2(1) [OF st [symmetric] refl] st show ?case
    by (simp add: from_utf8_lossy.simps(2) replacement_character_def)
qed simp

lemma from_utf8_lossy_Nil_iff [simp]: "from_utf8_lossy s = [] \<longleftrightarrow> s = []"
proof (cases s)
  case (Cons c cs)
  obtain ok n where st: "utf8_step (c # cs) = (ok, n)"
    by (metis surj_pair)
  then have "take n (c # cs) \<noteq> []"
    using utf8_step_pos [of "c # cs"] by simp
  with st Cons show ?thesis
    by (simp add: from_utf8_lossy.simps(2) replacement_character_def)
qed simp

section \<open>Correctness of the replay\<close>

lemma replay_wal_image_gen:
  assumes "codec_ok ts fs rs" and "wal_image ts rs @ tail \<noteq> []"
  shows "replay_wal_tolerating_torn_tail fs p ap pe (wal_image ts rs @ tail) s =
    (case apply_all ap rs s of
       (Inl e, s') \<Rightarrow> (Inl e, s', [])
     | (Inr _, s') \<Rightarrow>
         replay_lines fs p ap pe (length rs + length (split_newline (from_utf8_lossy tail)) - 1)
           (last (wal_image ts rs @ tail) = newline) (length rs) (split_newline (from_utf8_lossy tail)) s')"
proof -
  have "replay_wal_tolerating_torn_tail fs p ap pe (wal_image ts rs @ tail) s =
      replay_lines fs p ap pe (length rs + length (split_newline (from_utf8_lossy tail)) - 1)
        (last (wal_image ts rs @ tail) = newline) 0 (map ts rs @ split_newline (from_utf8_lossy tail)) s"
    using assms(2) split_wal_image [OF assms(1)]
    unfolding replay_wal_tolerating_torn_tail_def by (simp only: Let_def length_append length_map if_False)
  then show ?thesis
    by (simp only: replay_lines_records [OF assms(1)] add_0)
qed

theorem replay_intact_log:
  assumes "codec_ok ts fs rs"
  shows "replay_wal_tolerating_torn_tail fs p ap pe (wal_image ts rs) s =
    (case apply_all ap rs s of (res, s') \<Rightarrow> (res, s', []))"
proof (cases "rs = []")
  case True
  then show ?thesis
    by (simp add: replay_wal_tolerating_torn_tail_def)
next
  case False
  then have "wal_image ts rs @ [] \<noteq> []"
    using wal_image_last [of rs ts] by simp
  from replay_wal_image_gen [OF assms this, of p ap pe s] show ?thesis
    by (simp split: prod.splits sum.splits)
qed

theorem replay_torn_tail:
  assumes "codec_ok ts fs rs" and "apply_all ap rs s = (Inr (), s')"
    and "tail \<noteq> []" and "newline \<notin> set tail" and "fs (from_utf8_lossy tail) = Inl j"
  shows "replay_wal_tolerating_torn_tail fs p ap pe (wal_image ts rs @ tail) s =
    (Inr (), s', [TornTailDropped p (length rs + 1) (length (from_utf8_lossy tail))])"
proof -
  have ne: "wal_image ts rs @ tail \<noteq> []"
    using assms(3) by simp
  have sp: "split_newline (from_utf8_lossy tail) = [from_utf8_lossy tail]"
    by (rule split_newline_free [OF from_utf8_lossy_newline_free [OF assms(4)]])
  have "last (wal_image ts rs @ tail) \<noteq> newline"
    using assms(3,4) last_in_set by fastforce
  with replay_wal_image_gen [OF assms(1) ne, of p ap pe s] assms(2,3,5) show ?thesis
    by (simp add: sp)
qed

theorem replay_corruption_refused:
  assumes "codec_ok ts fs rs" and "apply_all ap rs s = (Inr (), s')"
    and "bad \<noteq> []" and "newline \<notin> set bad" and "fs (from_utf8_lossy bad) = Inl j"
  shows "replay_wal_tolerating_torn_tail fs p ap pe (wal_image ts rs @ bad @ newline # rest) s =
    (Inl (pe (length rs + 1) j), s', [])"
proof -
  have ne: "wal_image ts rs @ bad @ newline # rest \<noteq> []"
    by simp
  have sp: "split_newline (from_utf8_lossy (bad @ newline # rest)) =
      from_utf8_lossy bad # split_newline (from_utf8_lossy rest)"
    using split_newline_free [OF from_utf8_lossy_newline_free [OF assms(4)]]
    by (simp add: from_utf8_lossy_newline split_newline_append)
  have "length rs < length rs + length (split_newline (from_utf8_lossy rest))"
    by simp
  with replay_wal_image_gen [OF assms(1) ne, of p ap pe s] assms(2,3,5) show ?thesis
    by (simp add: sp)
qed

text \<open>Nothing else is ever tolerated.\<close>

lemma replay_lines_warning:
  assumes "replay_lines fs p ap pe li ew idx ls s = (res, s', ws)" and "ws \<noteq> []"
    and "li + 1 = idx + length ls"
  shows "res = Inr () \<and> \<not> ew \<and> ls \<noteq> [] \<and> (\<exists>j. fs (last ls) = Inl j) \<and>
    (\<forall>l\<in>set (butlast ls). l \<noteq> [] \<longrightarrow> (\<exists>r. fs l = Inr r)) \<and>
    ws = [TornTailDropped p (li + 1) (length (last ls))]"
  using assms
proof (induction ls arbitrary: idx s)
  case (Cons l ls)
  show ?case
  proof (cases "\<exists>r. l = [] \<or> fs l = Inr r")
    case True
    then obtain s1 where "replay_lines fs p ap pe li ew (Suc idx) ls s1 = (res, s', ws)"
      using Cons.prems(1,2) by (auto split: if_splits prod.splits sum.splits)
    from Cons.IH [OF this] Cons.prems(2,3) True show ?thesis
      by auto
  next
    case False
    then obtain j where "l \<noteq> []" "fs l = Inl j"
      by (metis sum.exhaust)
    with Cons.prems show ?thesis
      by (auto split: if_splits)
  qed
qed simp

theorem replay_warning_only_torn_tail:
  assumes "replay_wal_tolerating_torn_tail fs p ap pe wal s = (res, s', ws)" and "ws \<noteq> []"
  shows "res = Inr () \<and> last wal \<noteq> newline \<and>
    (\<exists>j. fs (last (split_newline (from_utf8_lossy wal))) = Inl j) \<and>
    (\<forall>l\<in>set (butlast (split_newline (from_utf8_lossy wal))). l \<noteq> [] \<longrightarrow> (\<exists>r. fs l = Inr r)) \<and>
    ws = [TornTailDropped p (length (split_newline (from_utf8_lossy wal)))
            (length (last (split_newline (from_utf8_lossy wal))))]"
proof -
  let ?ps = "split_newline (from_utf8_lossy wal)"
  have "replay_lines fs p ap pe (length ?ps - 1) (last wal = newline) 0 ?ps s = (res, s', ws)"
    using assms by (auto simp: replay_wal_tolerating_torn_tail_def Let_def split: if_splits)
  note w = replay_lines_warning [OF this assms(2)]
  have len: "length ?ps - 1 + 1 = length ?ps"
    by (simp add: Suc_leI)
  then have "res = Inr () \<and> \<not> last wal = newline \<and> ?ps \<noteq> [] \<and> (\<exists>j. fs (last ?ps) = Inl j) \<and>
    (\<forall>l\<in>set (butlast ?ps). l \<noteq> [] \<longrightarrow> (\<exists>r. fs l = Inr r)) \<and>
    ws = [TornTailDropped p (length ?ps - 1 + 1) (length (last ?ps))]"
    by (intro w) simp
  then show ?thesis
    unfolding len by blast
qed

end
