(* ===== verification/Wal_Append.thy ===== *)
theory Wal_Append
  imports Wal_Recovery
begin

text \<open>
  The write side of a log: a file on a device that may run out of room, behind the
  \<open>BufWriter\<close> every store holds, and the \<open>append_wal\<close> routine that each file-backed store carries
  an identical copy of (serialise, write, write the line feed, flush, \<open>fsync\<close>). A crash keeps the
  synced prefix of the file and any part of what was written after it. The main facts: an
  acknowledged append is whole on disk after any crash; a failed one leaves a prefix of its line
  in the file or still in the buffer.
\<close>

section \<open>File and buffer\<close>

record wal_writer =
  wr_file :: string
  wr_buf :: string
  wr_synced :: nat

text \<open>\<open>BufWriter::new\<close> has a capacity of 8 KiB.\<close>

definition buf_capacity :: nat where
  "buf_capacity = 8192"

definition open_writer :: "string \<Rightarrow> nat \<Rightarrow> wal_writer" where
  "open_writer bytes synced = \<lparr>wr_file = bytes, wr_buf = [], wr_synced = synced\<rparr>"

text \<open>
  \<open>File::write_all\<close> onto a device with \<open>room\<close> bytes left: everything, or as much as fits and an
  error. The room is threaded through the calls of one append.
\<close>

definition file_write_all :: "string \<Rightarrow> nat \<times> wal_writer \<Rightarrow> bool \<times> nat \<times> wal_writer" where
  "file_write_all data = (\<lambda>(room, w).
     if length data \<le> room then (True, room - length data, w\<lparr>wr_file := wr_file w @ data\<rparr>)
     else (False, 0, w\<lparr>wr_file := wr_file w @ take room data\<rparr>))"

text \<open>On failure the bytes not yet written stay in the buffer.\<close>

definition flush_buf :: "nat \<times> wal_writer \<Rightarrow> bool \<times> nat \<times> wal_writer" where
  "flush_buf = (\<lambda>(room, w).
     case file_write_all (wr_buf w) (room, w) of
       (ok, room', w') \<Rightarrow> (ok, room', w'\<lparr>wr_buf := (if ok then [] else drop room (wr_buf w))\<rparr>))"

definition buf_write_all :: "string \<Rightarrow> nat \<times> wal_writer \<Rightarrow> bool \<times> nat \<times> wal_writer" where
  "buf_write_all data = (\<lambda>(room, w).
     if length data < buf_capacity - length (wr_buf w)
     then (True, room, w\<lparr>wr_buf := wr_buf w @ data\<rparr>)
     else
       (case (if length data > buf_capacity - length (wr_buf w)
              then flush_buf (room, w) else (True, room, w)) of
          (ok, room', w') \<Rightarrow>
            if \<not> ok then (False, room', w')
            else if length data \<ge> buf_capacity then file_write_all data (room', w')
            else (True, room', w'\<lparr>wr_buf := wr_buf w' @ data\<rparr>)))"

section \<open>Appending a record\<close>

text \<open>What the environment does to one append: the room on the device, the text of a write error,
  and the error of the final \<open>fsync\<close>, if any.\<close>

record append_io =
  io_room :: nat
  io_write_error :: string
  io_fsync_error :: "string option"

definition append_wal ::
  "('r \<Rightarrow> 'j + string) \<Rightarrow> ('j \<Rightarrow> 'e) \<Rightarrow> (string \<Rightarrow> 'e) \<Rightarrow> append_io \<Rightarrow> 'r \<Rightarrow> wal_writer \<Rightarrow>
   ('e + unit) \<times> wal_writer" where
  "append_wal to_string parse io env record wal =
     (case to_string record of
        Inl j \<Rightarrow> (Inl (parse j), wal)
      | Inr line \<Rightarrow>
          (case buf_write_all line (io_room env, wal) of
             (ok1, room1, w1) \<Rightarrow>
               if \<not> ok1 then (Inl (io (io_write_error env)), w1)
               else
                 (case buf_write_all [newline] (room1, w1) of
                    (ok2, room2, w2) \<Rightarrow>
                      if \<not> ok2 then (Inl (io (io_write_error env)), w2)
                      else
                        (case flush_buf (room2, w2) of
                           (ok3, room3, w3) \<Rightarrow>
                             if \<not> ok3 then (Inl (io (io_write_error env)), w3)
                             else
                               (case io_fsync_error env of
                                  Some e \<Rightarrow> (Inl (io e), w3)
                                | None \<Rightarrow> (Inr (), w3\<lparr>wr_synced := length (wr_file w3)\<rparr>))))))"

section \<open>Crashes\<close>

text \<open>
  What a crash can leave of the log: all that is synced and any part of what was appended since. A log
  that was cut is taken as cut: the sync of the truncation, which only Pulse makes, is not represented.
\<close>

definition crash_image :: "wal_writer \<Rightarrow> string \<Rightarrow> bool" where
  "crash_image w f = (prefix f (wr_file w) \<and> wr_synced w \<le> length f)"

section \<open>Correctness of the write path\<close>

text \<open>All bytes handed to the writer so far and not lost: the file and then the buffer.\<close>

definition wr_stream :: "wal_writer \<Rightarrow> string" where
  "wr_stream w = wr_file w @ wr_buf w"

text \<open>What a write puts into the stream: a prefix of its data, all of it when it succeeds.\<close>

definition puts :: "bool \<Rightarrow> string \<Rightarrow> wal_writer \<Rightarrow> wal_writer \<Rightarrow> bool" where
  "puts ok data w w' = ((\<exists>p. prefix p data \<and> (ok \<longrightarrow> p = data) \<and> wr_stream w' = wr_stream w @ p) \<and>
     prefix (wr_file w) (wr_file w') \<and> wr_synced w' = wr_synced w)"

lemma puts_seq: "puts True d w w' \<Longrightarrow> puts ok e w' w'' \<Longrightarrow> puts ok (d @ e) w w''"
  by (fastforce simp: puts_def intro: prefix_order.trans)

lemma puts_weaken: "puts False d w w' \<Longrightarrow> puts False (d @ e) w w'"
  by (auto simp: puts_def)

lemma file_write_all_puts:
  "wr_buf w = [] \<Longrightarrow> file_write_all data (room, w) = (ok, room', w') \<Longrightarrow> puts ok data w w'"
  by (auto simp: file_write_all_def puts_def wr_stream_def take_is_prefix split: if_splits)

lemma flush_buf_puts:
  "flush_buf (room, w) = (ok, room', w') \<Longrightarrow> puts ok [] w w' \<and> (ok \<longrightarrow> wr_buf w' = [])"
  by (auto simp: flush_buf_def file_write_all_def wr_stream_def puts_def split: if_splits)

lemma buf_write_all_puts:
  assumes "buf_write_all data (room, w) = (ok, room', w')"
  shows "puts ok data w w'"
proof (cases "length data < buf_capacity - length (wr_buf w)")
  case True
  with assms show ?thesis
    by (auto simp: buf_write_all_def wr_stream_def puts_def)
next
  case False
  define pre where "pre = (if length data > buf_capacity - length (wr_buf w)
    then flush_buf (room, w) else (True, room, w))"
  obtain ok1 room1 w1 where pre: "pre = (ok1, room1, w1)"
    by (metis prod_cases3)
  have b: "wr_buf w = []" if "buf_capacity \<le> length data" "length data \<le> buf_capacity - length (wr_buf w)"
    using that by (cases "wr_buf w") (auto simp: buf_capacity_def)
  have s1: "puts ok1 [] w w1" and b1: "ok1 \<Longrightarrow> length data \<ge> buf_capacity \<Longrightarrow> wr_buf w1 = []"
    using pre b flush_buf_puts [of room w ok1 room1 w1]
    by (auto simp: pre_def puts_def not_less split: if_splits)
  have "(if \<not> ok1 then (False, room1, w1) else if length data \<ge> buf_capacity
      then file_write_all data (room1, w1)
      else (True, room1, w1\<lparr>wr_buf := wr_buf w1 @ data\<rparr>)) = (ok, room', w')"
    using assms False pre by (simp add: buf_write_all_def pre_def)
  with s1 b1 have "\<exists>ok2 d. puts ok2 d w1 w' \<and> ok1 \<and> ok2 = ok \<and> d = data \<or> \<not> ok1 \<and> \<not> ok \<and> w' = w1"
    by (auto simp: puts_def wr_stream_def split: if_splits dest!: file_write_all_puts [rotated])
  with s1 show ?thesis
    using puts_seq [of "[]" w w1 ok data w'] puts_weaken [of "[]" w w1 data] by auto
qed

lemma append_wal_acked:
  assumes "append_wal ts parse io env r w = (Inr (), w')"
  shows "\<exists>line. ts r = Inr line \<and> wr_file w' = wr_stream w @ line @ [newline] \<and> wr_buf w' = [] \<and>
    wr_synced w' = length (wr_file w')"
proof -
  from assms obtain line room1 w1 room2 w2 room3 w3 where
    l: "ts r = Inr line" and 1: "buf_write_all line (io_room env, w) = (True, room1, w1)"
    and 2: "buf_write_all [newline] (room1, w1) = (True, room2, w2)"
    and 3: "flush_buf (room2, w2) = (True, room3, w3)"
    and w': "w' = w3\<lparr>wr_synced := length (wr_file w3)\<rparr>"
    by (auto simp: append_wal_def split: sum.splits prod.splits if_splits option.splits)
  from puts_seq [OF buf_write_all_puts [OF 1] buf_write_all_puts [OF 2]] flush_buf_puts [OF 3]
  have "wr_stream w3 = wr_stream w @ line @ [newline]" "wr_buf w3 = []"
    by (auto simp: puts_def)
  with l w' show ?thesis
    by (simp add: wr_stream_def)
qed

lemma append_wal_refused:
  assumes "append_wal ts parse io env r w = (Inl e, w')"
  shows "(\<exists>j. ts r = Inl j \<and> w' = w) \<or> (\<exists>line. ts r = Inr line \<and> puts False (line @ [newline]) w w')"
proof (cases "ts r")
  case (Inl j)
  with assms show ?thesis
    by (simp add: append_wal_def)
next
  case (Inr line)
  obtain ok1 room1 w1 where 1: "buf_write_all line (io_room env, w) = (ok1, room1, w1)"
    by (metis prod_cases3)
  obtain ok2 room2 w2 where 2: "buf_write_all [newline] (room1, w1) = (ok2, room2, w2)"
    by (metis prod_cases3)
  obtain ok3 room3 w3 where 3: "flush_buf (room2, w2) = (ok3, room3, w3)"
    by (metis prod_cases3)
  note p1 = buf_write_all_puts [OF 1] and p2 = buf_write_all_puts [OF 2] and p3 = flush_buf_puts [OF 3]
  have w': "w' = (if \<not> ok1 then w1 else if \<not> ok2 then w2 else w3)"
    using assms Inr 1 2 3 by (auto simp: append_wal_def split: if_splits option.splits)
  have "puts False (line @ [newline]) w w'"
  proof (cases "ok1 \<and> ok2")
    case True
    with p1 p2 p3 have "puts ok3 ((line @ [newline]) @ []) w w3"
      by (intro puts_seq [of "line @ [newline]"] puts_seq [of line]) auto
    with True w' show ?thesis
      by (auto simp: puts_def)
  next
    case False
    with p1 p2 w' puts_weaken puts_seq [of line w w1 ok2 "[newline]" w2] show ?thesis
      by (auto split: if_splits)
  qed
  with Inr show ?thesis
    by blast
qed

lemma append_wal_prefix:
  "append_wal ts parse io env r w = (res, w') \<Longrightarrow> prefix (wr_file w) (wr_file w')"
  using append_wal_refused [of ts parse io env r w _ w'] append_wal_acked [of ts parse io env r w w']
  by (cases res) (auto simp: puts_def wr_stream_def)

text \<open>With room to spare and an honest device an append is acknowledged.\<close>

lemma append_wal_succeeds:
  assumes "ts r = Inr line" and "wr_buf w = []" and "length line < io_room env"
    and "io_fsync_error env = None"
  shows "append_wal ts parse io env r w =
    (Inr (), \<lparr>wr_file = wr_file w @ line @ [newline], wr_buf = [],
       wr_synced = length (wr_file w) + length line + 1, \<dots> = wal_writer.more w\<rparr>)"
  using assms
  by (auto simp: append_wal_def buf_write_all_def flush_buf_def file_write_all_def buf_capacity_def
      split: if_splits)

lemma append_wal_fsync_failed:
  assumes "ts r = Inr line" and "wr_buf w = []" and "length line < io_room env"
    and "io_fsync_error env = Some e"
  shows "append_wal ts parse io env r w =
    (Inl (io e), \<lparr>wr_file = wr_file w @ line @ [newline], wr_buf = [],
       wr_synced = wr_synced w, \<dots> = wal_writer.more w\<rparr>)"
  using assms
  by (auto simp: append_wal_def buf_write_all_def flush_buf_def file_write_all_def buf_capacity_def
      split: if_splits)

theorem acked_append_survives_crash:
  assumes "append_wal ts parse io env r w = (Inr (), w')" and "crash_image w' f"
  shows "\<exists>line. ts r = Inr line \<and> f = wr_file w @ wr_buf w @ line @ [newline]"
proof -
  from append_wal_acked [OF assms(1)] obtain line where
    "ts r = Inr line" "wr_file w' = wr_stream w @ line @ [newline]" "wr_synced w' = length (wr_file w')"
    by blast
  moreover from this assms(2) have "f = wr_file w'"
    by (auto simp: crash_image_def intro: prefix_full)
  ultimately show ?thesis
    by (simp add: wr_stream_def)
qed

text \<open>What a crash can leave of an append that starts with an empty buffer.\<close>

lemma append_wal_crash:
  assumes "append_wal ts parse io env r w = (res, w')" and "wr_buf w = []" and "crash_image w' f"
    and "ts r = Inr line" and "wr_synced w = length (wr_file w)"
  shows "length (wr_file w) \<le> length f \<and> prefix f (wr_file w @ line @ [newline]) \<and>
    (res = Inr () \<longrightarrow> f = wr_file w @ line @ [newline])"
proof (cases res)
  case (Inl e)
  from append_wal_refused [OF assms(1) [unfolded Inl]] assms(4)
  have "puts False (line @ [newline]) w w'"
    by auto
  then obtain q where q: "prefix q (line @ [newline])" "wr_stream w' = wr_file w @ q"
    "wr_synced w' = wr_synced w"
    using assms(2) by (auto simp: puts_def wr_stream_def)
  have "prefix f (wr_stream w')"
    using assms(3) by (auto simp: crash_image_def wr_stream_def)
  also have "prefix (wr_stream w') (wr_file w @ line @ [newline])"
    using q by simp
  finally show ?thesis
    using Inl assms(3,5) q(3) by (simp add: crash_image_def)
next
  case (Inr u)
  then show ?thesis
    using acked_append_survives_crash [of ts parse io env r w w' f] assms by auto
qed

end
