(* ===== verification/Wal_Fsync.thy ===== *)
theory Wal_Fsync
  imports Wal_Append
begin

text \<open>
  The durability seam of \<open>crates/wal-recovery/src/lib.rs\<close>: the \<open>FsyncBackend\<close> implementations, the
  start-up probe that refuses a substrate which lies about \<open>fsync\<close>, and the atomic replacement of a
  snapshot file. The trait is the locale \<open>honest_fsync\<close>, whose law (a synced file reads back as
  written) the real and the counting back end satisfy and the lying one does not.
\<close>

unbundle bit_operations_syntax

section \<open>Back ends\<close>

text \<open>
  \<open>fsync_file\<close> takes the bytes of the file and gives the bytes a fresh handle then reads, or an I/O
  error. The error of the platform's \<open>sync_all\<close>, if any, is an argument.
\<close>

type_synonym fsync_fn = "string \<Rightarrow> string + string"

definition real_fsync_file :: "string option \<Rightarrow> fsync_fn" where
  "real_fsync_file sync_error file = (case sync_error of None \<Rightarrow> Inr file | Some e \<Rightarrow> Inl e)"

datatype lying_mode = NoOp | Truncating | ByteFlipping

definition flip_byte :: "char \<Rightarrow> char" where
  "flip_byte c = char_of (of_char c XOR (255 :: nat))"

fun lying_fsync_file :: "lying_mode \<Rightarrow> fsync_fn" where
  "lying_fsync_file NoOp file = Inr []"
| "lying_fsync_file Truncating file = Inr (if length file > 0 then take (length file - 1) file else file)"
| "lying_fsync_file ByteFlipping file =
     Inr (case file of [] \<Rightarrow> [] | c # cs \<Rightarrow> flip_byte c # cs)"

record counting_fsync_backend =
  file_fsyncs :: nat
  dir_fsyncs :: nat

definition counting_fsync_new :: counting_fsync_backend where
  "counting_fsync_new = \<lparr>file_fsyncs = 0, dir_fsyncs = 0\<rparr>"

definition counting_fsync_file ::
  "string option \<Rightarrow> string \<Rightarrow> counting_fsync_backend \<Rightarrow> (string + string) \<times> counting_fsync_backend" where
  "counting_fsync_file sync_error file c =
     (real_fsync_file sync_error file, c\<lparr>file_fsyncs := file_fsyncs c + 1\<rparr>)"

definition counting_fsync_dir ::
  "string option \<Rightarrow> counting_fsync_backend \<Rightarrow> (string + unit) \<times> counting_fsync_backend" where
  "counting_fsync_dir dir_error c =
     (case dir_error of None \<Rightarrow> Inr () | Some e \<Rightarrow> Inl e, c\<lparr>dir_fsyncs := dir_fsyncs c + 1\<rparr>)"

section \<open>The probe\<close>

datatype fsync_probe_error = FsyncIgnored | BytesLost | BytesMismatch | ProbeIo string

fun substrate_descriptor :: "fsync_probe_error \<Rightarrow> string" where
  "substrate_descriptor FsyncIgnored = ''fsync-noop''"
| "substrate_descriptor BytesLost = ''fsync-truncating''"
| "substrate_descriptor BytesMismatch = ''fsync-corrupting''"
| "substrate_descriptor (ProbeIo _) = ''fsync-io''"

definition sentinel_bytes :: string where
  "sentinel_bytes =
     ''kaleidoscope-fsync-probe-sentinel-v0-do-not-edit-or-remove-XXXX'' @ [newline]"

definition classify_roundtrip :: "string \<Rightarrow> string \<Rightarrow> fsync_probe_error + unit" where
  "classify_roundtrip read_back expected =
     (if read_back = [] then Inl FsyncIgnored
      else if length read_back < length expected then Inl BytesLost
      else if read_back \<noteq> expected then Inl BytesMismatch
      else Inr ())"

record probe_fs =
  root_exists :: bool
  sentinel :: "string option"

text \<open>The I/O errors of the steps that can fail, each \<^const>\<open>None\<close> when the step works.\<close>

record probe_io =
  mkdir_error :: "string option"
  create_error :: "string option"
  write_error :: "string option"
  reopen_error :: "string option"
  read_error :: "string option"
  remove_error :: "string option"

definition fsync_probe ::
  "probe_io \<Rightarrow> fsync_fn \<Rightarrow> probe_fs \<Rightarrow> (fsync_probe_error + unit) \<times> probe_fs" where
  "fsync_probe env fsync_file fs =
     (case (if root_exists fs then None else mkdir_error env) of
        Some e \<Rightarrow> (Inl (ProbeIo e), fs)
      | None \<Rightarrow>
        let fs1 = fs\<lparr>root_exists := True\<rparr> in
        case create_error env of
          Some e \<Rightarrow> (Inl (ProbeIo e), fs1)
        | None \<Rightarrow>
          let fs2 = fs1\<lparr>sentinel := Some []\<rparr> in
          case write_error env of
            Some e \<Rightarrow> (Inl (ProbeIo e), fs2)
          | None \<Rightarrow>
            case fsync_file sentinel_bytes of
              Inl e \<Rightarrow> (Inl (ProbeIo e), fs2\<lparr>sentinel := Some sentinel_bytes\<rparr>)
            | Inr bytes \<Rightarrow>
              let fs3 = fs2\<lparr>sentinel := Some bytes\<rparr> in
              case reopen_error env of
                Some e \<Rightarrow> (Inl (ProbeIo e), fs3)
              | None \<Rightarrow>
                case read_error env of
                  Some e \<Rightarrow> (Inl (ProbeIo e), fs3)
                | None \<Rightarrow>
                  let outcome = classify_roundtrip bytes sentinel_bytes in
                  (outcome, if remove_error env = None then fs3\<lparr>sentinel := None\<rparr> else fs3))"

section \<open>Atomic snapshots\<close>

text \<open>
  A file with its durable prefix; a directory holding the snapshot and the temporary file. A
  rename is undone by a crash until the directory is synced: \<open>sf_undo\<close> then holds what the
  canonical name pointed to before.
\<close>

record disk_file =
  df_bytes :: string
  df_synced :: nat

record snap_fs =
  sf_canonical :: "disk_file option"
  sf_tmp :: "disk_file option"
  sf_undo :: "disk_file option option"

record snap_io =
  sn_open_error :: "string option"
  sn_room :: nat
  sn_write_error :: string
  sn_rename_error :: "string option"
  sn_dir_error :: "string option"

text \<open>
  The closure \<open>write\<close> either produces the whole serialisation, or fails after some of it. The result
  carries every state the directory goes through, the last one included.
\<close>

definition atomic_write_snapshot ::
  "snap_io \<Rightarrow> fsync_fn \<Rightarrow> (string \<times> string) + string \<Rightarrow> snap_fs \<Rightarrow> (string + unit) \<times> snap_fs list" where
  "atomic_write_snapshot env fsync_file write s0 =
     (case sn_open_error env of
        Some e \<Rightarrow> (Inl e, [s0])
      | None \<Rightarrow>
        let s1 = s0\<lparr>sf_tmp := Some \<lparr>df_bytes = [], df_synced = 0\<rparr>\<rparr> in
        case write of
          Inl (e, partial) \<Rightarrow>
            (Inl e, [s0, s1, s1\<lparr>sf_tmp := Some \<lparr>df_bytes = take (sn_room env) partial, df_synced = 0\<rparr>\<rparr>])
        | Inr data \<Rightarrow>
          let s2 = s1\<lparr>sf_tmp := Some \<lparr>df_bytes = take (sn_room env) data, df_synced = 0\<rparr>\<rparr> in
          if sn_room env < length data then (Inl (sn_write_error env), [s0, s1, s2])
          else
            case fsync_file data of
              Inl e \<Rightarrow> (Inl e, [s0, s1, s2])
            | Inr bytes \<Rightarrow>
              let tmp = \<lparr>df_bytes = bytes, df_synced = length bytes\<rparr>;
                  s3 = s2\<lparr>sf_tmp := Some tmp\<rparr> in
              case sn_rename_error env of
                Some e \<Rightarrow> (Inl e, [s0, s1, s2, s3])
              | None \<Rightarrow>
                let s4 = s3\<lparr>sf_canonical := Some tmp, sf_tmp := None, sf_undo := Some (sf_canonical s3)\<rparr> in
                case sn_dir_error env of
                  Some e \<Rightarrow> (Inl e, [s0, s1, s2, s3, s4])
                | None \<Rightarrow> (Inr (), [s0, s1, s2, s3, s4, s4\<lparr>sf_undo := None\<rparr>]))"

text \<open>What the canonical path can hold after a crash.\<close>

definition file_survives :: "disk_file option \<Rightarrow> string option \<Rightarrow> bool" where
  "file_survives f c =
     (case f of
        None \<Rightarrow> c = None
      | Some df \<Rightarrow> (\<exists>b. c = Some b \<and> prefix b (df_bytes df) \<and> df_synced df \<le> length b))"

inductive crash_canonical :: "snap_fs \<Rightarrow> string option \<Rightarrow> bool" where
  current: "file_survives (sf_canonical s) c \<Longrightarrow> crash_canonical s c"
| undone: "sf_undo s = Some old \<Longrightarrow> file_survives old c \<Longrightarrow> crash_canonical s c"

inductive_simps crash_canonical_iff: "crash_canonical s c"

lemma file_survives_synced [simp]:
  "file_survives (Some \<lparr>df_bytes = d, df_synced = length d\<rparr>) c \<longleftrightarrow> c = Some d"
  by (auto simp: file_survives_def dest: prefix_full)

lemma crash_canonical_tmp [simp]:
  "crash_canonical (s\<lparr>sf_tmp := t\<rparr>) c \<longleftrightarrow> crash_canonical s c"
  by (simp add: crash_canonical_iff)

section \<open>Honest back ends\<close>

locale honest_fsync =
  fixes fsync_file :: fsync_fn
  assumes honest: "fsync_file f = Inr f"
begin

lemma probe_passes:
  assumes "mkdir_error env = None" "create_error env = None" "write_error env = None"
    "reopen_error env = None" "read_error env = None" "remove_error env = None"
  shows "fsync_probe env fsync_file fs = (Inr (), \<lparr>root_exists = True, sentinel = None, \<dots> = probe_fs.more fs\<rparr>)"
  using assms
  by (simp add: fsync_probe_def honest classify_roundtrip_def sentinel_bytes_def Let_def)

lemma snapshot_whole_or_previous:
  assumes "atomic_write_snapshot env fsync_file w s0 = (res, ss)" and "s \<in> set ss"
    and "sf_undo s0 = None" and "crash_canonical s c"
  shows "crash_canonical s0 c \<or> (\<exists>data. w = Inr data \<and> c = Some data)"
  using assms
  by (auto simp: atomic_write_snapshot_def honest Let_def
      split: option.splits if_splits sum.splits) (auto simp: crash_canonical_iff)

lemma snapshot_durable:
  assumes "atomic_write_snapshot env fsync_file w s0 = (Inr (), ss)"
    and "crash_canonical (last ss) c"
  shows "\<exists>data. w = Inr data \<and> c = Some data"
  using assms
  by (auto simp: atomic_write_snapshot_def honest Let_def crash_canonical_iff
      split: option.splits if_splits sum.splits)

end

interpretation real_fsync: honest_fsync "real_fsync_file None"
  by unfold_locales (simp add: real_fsync_file_def)

interpretation counting_fsync: honest_fsync "\<lambda>f. fst (counting_fsync_file None f c)" for c
  by unfold_locales (simp add: counting_fsync_file_def real_fsync_file_def)

section \<open>What the probe establishes\<close>

lemma even_mod_256: "even (n mod 256 :: nat) \<longleftrightarrow> even n"
  by (rule dvd_mod_iff) simp

lemma flip_byte_neq: "flip_byte c \<noteq> c"
proof
  assume "flip_byte c = c"
  then have "of_char (flip_byte c) = (of_char c :: nat)"
    by (rule arg_cong)
  moreover have "of_char (flip_byte c) = (of_char c XOR 255) mod (256 :: nat)"
    unfolding flip_byte_def by (rule of_char_of)
  ultimately have "even (of_char c XOR (255 :: nat)) \<longleftrightarrow> even (of_char c :: nat)"
    using even_mod_256 [of "of_char c XOR 255"] by argo
  then show False
    unfolding even_xor_iff by simp
qed

lemma classify_roundtrip_ok: "classify_roundtrip r e = Inr () \<longleftrightarrow> r = e \<and> e \<noteq> []"
  by (auto simp: classify_roundtrip_def)

text \<open>The probe accepts a back end only if the sentinel read back is the sentinel written.\<close>

theorem fsync_probe_sound:
  assumes "fsync_probe env fsync_file fs = (Inr (), fs')"
  shows "fsync_file sentinel_bytes = Inr sentinel_bytes"
  using assms
  by (auto simp: fsync_probe_def Let_def classify_roundtrip_ok split: option.splits if_splits sum.splits)

theorem fsync_probe_refuses_liars:
  assumes "mkdir_error env = None" "create_error env = None" "write_error env = None"
    "reopen_error env = None" "read_error env = None"
  shows "fst (fsync_probe env (lying_fsync_file mode) fs) =
    Inl (case mode of NoOp \<Rightarrow> FsyncIgnored | Truncating \<Rightarrow> BytesLost | ByteFlipping \<Rightarrow> BytesMismatch)"
  using assms
  by (cases mode) (simp_all add: fsync_probe_def classify_roundtrip_def sentinel_bytes_def Let_def flip_byte_neq)

end
