(* ===== verification/Wal_Pillar.thy ===== *)
theory Wal_Pillar
  imports Wal_Fsync
begin

text \<open>
  What the file-backed stores have in common: a base path with a \<open>.wal\<close> and a \<open>.snapshot\<close> file, an
  open that loads the one and replays the other, and mutations that append before they touch
  memory. The locale \<open>wal_pillar\<close> is the contract between a store's replay closure and its live
  mutation; from it follow recovery of an intact log and recovery after a crash in the middle of
  an append.
\<close>

section \<open>Files of a store\<close>

datatype path_state = Absent | Unreadable string | Present disk_file

record store_disk =
  sd_snapshot :: path_state
  sd_wal :: path_state
  sd_append_error :: "string option"

fun read_path :: "path_state \<Rightarrow> string + string option" where
  "read_path Absent = Inr None"
| "read_path (Unreadable e) = Inl e"
| "read_path (Present f) = Inr (Some (df_bytes f))"

text \<open>\<open>OpenOptions::new().create(true).append(true).open(..)\<close>: existing bytes are kept as they are.\<close>

fun open_for_append :: "path_state \<Rightarrow> string option \<Rightarrow> string + wal_writer" where
  "open_for_append p (Some e) = Inl e"
| "open_for_append (Present f) None = Inr (open_writer (df_bytes f) (df_synced f))"
| "open_for_append (Unreadable e) None = Inl e"
| "open_for_append Absent None = Inr (open_writer [] 0)"

definition snap_fs_of :: "path_state \<Rightarrow> snap_fs" where
  "snap_fs_of p =
     \<lparr>sf_canonical = (case p of Present f \<Rightarrow> Some f | _ \<Rightarrow> None), sf_tmp = None, sf_undo = None\<rparr>"

text \<open>The files a store leaves behind when its process ends without a crash of the machine.\<close>

definition disk_of :: "snap_fs \<Rightarrow> wal_writer \<Rightarrow> store_disk" where
  "disk_of sf w =
     \<lparr>sd_snapshot = (case sf_canonical sf of None \<Rightarrow> Absent | Some f \<Rightarrow> Present f),
      sd_wal = Present \<lparr>df_bytes = wr_file w, df_synced = wr_synced w\<rparr>,
      sd_append_error = None\<rparr>"

definition wal_path_of :: "string \<Rightarrow> string" where
  "wal_path_of base = base @ ''.wal''"

definition snapshot_path_of :: "string \<Rightarrow> string" where
  "snapshot_path_of base = base @ ''.snapshot''"

definition wal_parse_reason :: "nat \<Rightarrow> string \<Rightarrow> string" where
  "wal_parse_reason line error = ''WAL parse error at line '' @ nat_str line @ '': '' @ error"

section \<open>Opening a store\<close>

text \<open>
  The shape all stores share: load the snapshot if there is one, replay the log if there is one,
  finish the recovered state, open the log for appending. \<open>replay\<close> is the store's own replay of the
  bytes of its log; \<open>load\<close> may refuse a snapshot.
\<close>

definition pillar_open ::
  "(string \<Rightarrow> 'e) \<Rightarrow> (string \<Rightarrow> 'e) \<Rightarrow> (string \<Rightarrow> string + 'd) \<Rightarrow> ('d \<Rightarrow> 'e + 's) \<Rightarrow> 's \<Rightarrow>
   (string \<Rightarrow> 's \<Rightarrow> ('e + unit) \<times> 's \<times> wal_warning list) \<Rightarrow> ('s \<Rightarrow> 's) \<Rightarrow> store_disk \<Rightarrow>
   ('e + 's \<times> wal_writer \<times> snap_fs) \<times> wal_warning list" where
  "pillar_open io parse from_reader load s0 replay finish disk =
     (case read_path (sd_snapshot disk) of
        Inl e \<Rightarrow> (Inl (io e), [])
      | Inr snap_bytes \<Rightarrow>
        (case (case snap_bytes of
                 None \<Rightarrow> Inr s0
               | Some bytes \<Rightarrow> (case from_reader bytes of Inl e \<Rightarrow> Inl (parse e) | Inr d \<Rightarrow> load d)) of
           Inl e \<Rightarrow> (Inl e, [])
         | Inr loaded \<Rightarrow>
           (case read_path (sd_wal disk) of
              Inl e \<Rightarrow> (Inl (io e), [])
            | Inr wal_bytes \<Rightarrow>
              (case (case wal_bytes of None \<Rightarrow> (Inr (), loaded, []) | Some bytes \<Rightarrow> replay bytes loaded) of
                 (Inl e, _, ws) \<Rightarrow> (Inl e, ws)
               | (Inr _, replayed, ws) \<Rightarrow>
                 (case open_for_append (sd_wal disk) (sd_append_error disk) of
                    Inl e \<Rightarrow> (Inl (io e), ws)
                  | Inr wal \<Rightarrow> (Inr (finish replayed, wal, snap_fs_of (sd_snapshot disk)), ws))))))"

text \<open>
  Sluice and Strata read their log with \<open>BufReader::lines\<close> and tolerate no damage at all.
\<close>

fun replay_buf_lines ::
  "(string \<Rightarrow> string + 'r) \<Rightarrow> ('r \<Rightarrow> 's \<Rightarrow> ('e + unit) \<times> 's) \<Rightarrow> (nat \<Rightarrow> string \<Rightarrow> string \<Rightarrow> 'e) \<Rightarrow> (string \<Rightarrow> 'e) \<Rightarrow>
   nat \<Rightarrow> string list \<Rightarrow> 's \<Rightarrow> ('e + unit) \<times> 's" where
  "replay_buf_lines from_str apply on_parse_error io idx [] s = (Inr (), s)"
| "replay_buf_lines from_str apply on_parse_error io idx (line # rest) s =
     (if \<not> utf8_valid line then (Inl (io ''stream did not contain valid UTF-8''), s)
      else if line = [] then replay_buf_lines from_str apply on_parse_error io (Suc idx) rest s
      else
        case from_str line of
          Inl e \<Rightarrow> (Inl (on_parse_error (idx + 1) e line), s)
        | Inr r \<Rightarrow>
            (case apply r s of
               (Inl e, s') \<Rightarrow> (Inl e, s')
             | (Inr _, s') \<Rightarrow> replay_buf_lines from_str apply on_parse_error io (Suc idx) rest s'))"

text \<open>A log of whole records, none of which ends in a carriage return, is read back line by line.\<close>

definition no_cr :: "('r \<Rightarrow> string) \<Rightarrow> 'r list \<Rightarrow> bool" where
  "no_cr to_string rs = list_all (\<lambda>r. to_string r = [] \<or> last (to_string r) \<noteq> CHR 0x0D) rs"

lemma split_newline_image:
  "codec_ok ts fs rs \<Longrightarrow> split_newline (wal_image ts rs @ tail) = map ts rs @ split_newline tail"
  by (induction rs) (simp_all add: split_newline_append split_newline_free)

lemma buf_read_lines_image:
  assumes "codec_ok ts fs rs" and "no_cr ts rs"
  shows "buf_read_lines (wal_image ts rs) = map ts rs"
proof -
  have "map (strip_cr \<circ> ts) rs = map ts rs"
    using assms(2) by (auto simp: no_cr_def list_all_iff strip_cr_def)
  then show ?thesis
    using split_newline_image [OF assms(1), of "[]"] by (simp add: buf_read_lines_def Let_def butlast_append)
qed

lemma buf_read_lines_torn:
  assumes "codec_ok ts fs rs" and "no_cr ts rs" and "torn \<noteq> []" and "newline \<notin> set torn"
  shows "buf_read_lines (wal_image ts rs @ torn) = map ts rs @ [torn]"
proof -
  have "map (strip_cr \<circ> ts) rs = map ts rs"
    using assms(2) by (auto simp: no_cr_def list_all_iff strip_cr_def)
  then show ?thesis
    using split_newline_image [OF assms(1), of torn] assms(3)
    by (simp add: buf_read_lines_def Let_def butlast_append split_newline_free [OF assms(4)])
qed

lemma replay_buf_lines_append:
  "codec_ok ts fs rs \<Longrightarrow> replay_buf_lines fs ap pe io idx (map ts rs @ ls) s =
     (case apply_all ap rs s of (Inl e, s') \<Rightarrow> (Inl e, s')
      | (Inr _, s') \<Rightarrow> replay_buf_lines fs ap pe io (idx + length rs) ls s')"
  by (induction rs arbitrary: idx s) (auto split: prod.splits sum.splits)

lemma replay_buf_lines_image:
  "codec_ok ts fs rs \<Longrightarrow> replay_buf_lines fs ap pe io idx (map ts rs) s = apply_all ap rs s"
  using replay_buf_lines_append [of ts fs rs ap pe io idx "[]" s] by (auto split: prod.splits sum.splits)

section \<open>Taking a snapshot\<close>

record snapshot_io =
  si_flush_room :: nat
  si_flush_error :: string
  si_snap :: snap_io
  si_truncate_error :: "string option"

text \<open>
  Flush the log, replace the snapshot atomically, reopen the log truncated. The second component
  is the sequence of states the two files go through.
\<close>

definition pillar_snapshot ::
  "snapshot_io \<Rightarrow> fsync_fn \<Rightarrow> (string \<times> string) + string \<Rightarrow> snap_fs \<Rightarrow> wal_writer \<Rightarrow>
   (string + unit) \<times> (snap_fs \<times> wal_writer) list" where
  "pillar_snapshot env fsync_file write dir wal =
     (case flush_buf (si_flush_room env, wal) of
        (ok, _, w1) \<Rightarrow>
          if \<not> ok then (Inl (si_flush_error env), [(dir, wal), (dir, w1)])
          else
            (case atomic_write_snapshot (si_snap env) fsync_file write dir of
               (Inl e, ds) \<Rightarrow> (Inl e, (dir, wal) # map (\<lambda>d. (d, w1)) ds)
             | (Inr _, ds) \<Rightarrow>
                 (case si_truncate_error env of
                    Some e \<Rightarrow> (Inl e, (dir, wal) # map (\<lambda>d. (d, w1)) ds)
                  | None \<Rightarrow>
                      (Inr (), (dir, wal) # map (\<lambda>d. (d, w1)) ds @ [(last ds, open_writer [] 0)]))))"

section \<open>What the serialiser must do for a record\<close>

definition line_of :: "('r \<Rightarrow> string + string) \<Rightarrow> 'r \<Rightarrow> string" where
  "line_of to_string r = (case to_string r of Inl _ \<Rightarrow> [] | Inr l \<Rightarrow> l)"

definition serde_ok :: "('r \<Rightarrow> string + string) \<Rightarrow> (string \<Rightarrow> string + 'r) \<Rightarrow> 'r \<Rightarrow> bool" where
  "serde_ok to_string from_str r = codec_ok (line_of to_string) from_str [r]"

lemma serde_ok_line: "serde_ok ts fs r \<Longrightarrow> ts r = Inr (line_of ts r)"
  by (auto simp: serde_ok_def line_of_def split: sum.splits)

lemma serde_ok_all: "list_all (serde_ok ts fs) rs \<longleftrightarrow> codec_ok (line_of ts) fs rs"
  by (induction rs) (auto simp: serde_ok_def)

text \<open>
  The stores that read with \<open>lines\<close> need more: no line may end in a carriage return. That is to say that
  the line is read back by a reader that refuses such lines.
\<close>

definition serde_line :: "('r \<Rightarrow> string + string) \<Rightarrow> (string \<Rightarrow> string + 'r) \<Rightarrow> 'r \<Rightarrow> bool" where
  "serde_line ts fs r = (serde_ok ts fs r \<and> no_cr (line_of ts) [r])"

lemma serde_line_all: "list_all (serde_line ts fs) rs \<longleftrightarrow> codec_ok (line_of ts) fs rs \<and> no_cr (line_of ts) rs"
  by (induction rs) (auto simp: serde_line_def serde_ok_def no_cr_def)

definition refusing_cr :: "(string \<Rightarrow> string + 'r) \<Rightarrow> string \<Rightarrow> string + 'r" where
  "refusing_cr from_str l = (if l \<noteq> [] \<and> last l = CHR 0x0D then Inl [] else from_str l)"

lemma serde_line_iff: "serde_line ts fs r \<longleftrightarrow> serde_ok ts (refusing_cr fs) r"
  by (auto simp: serde_line_def serde_ok_def no_cr_def refusing_cr_def)

lemma serde_ok_refusing: "serde_ok ts (refusing_cr fs) = serde_line ts fs"
  by (simp add: serde_line_iff fun_eq_iff)

text \<open>
  The files of a store hold a given state: the snapshot loads, the log is a sequence of whole
  records on top of it, nothing waits in the buffer, and everything is synced.
\<close>

definition snapshot_base ::
  "(string \<Rightarrow> string + 'd) \<Rightarrow> ('d \<Rightarrow> 'e + 's) \<Rightarrow> 's \<Rightarrow> disk_file option \<Rightarrow> 's \<Rightarrow> bool" where
  "snapshot_base from_reader load s0 f base =
     (case f of
        None \<Rightarrow> base = s0
      | Some df \<Rightarrow> (\<exists>d. from_reader (df_bytes df) = Inr d \<and> load d = Inr base))"

definition durable_as ::
  "('r \<Rightarrow> string + string) \<Rightarrow> (string \<Rightarrow> string + 'r) \<Rightarrow> (string \<Rightarrow> string + 'd) \<Rightarrow> ('d \<Rightarrow> 'e + 's) \<Rightarrow> 's \<Rightarrow>
   ('r \<Rightarrow> 's \<Rightarrow> 's) \<Rightarrow> ('s \<Rightarrow> 's) \<Rightarrow> ('s \<Rightarrow> 'v) \<Rightarrow> snap_fs \<Rightarrow> wal_writer \<Rightarrow> 'v \<Rightarrow> bool" where
  "durable_as to_string from_str from_reader load s0 live finish view dir w v =
     (wr_buf w = [] \<and> wr_synced w = length (wr_file w) \<and>
      (\<exists>base rs. snapshot_base from_reader load s0 (sf_canonical dir) base \<and>
         list_all (serde_ok to_string from_str) rs \<and> wr_file w = wal_image (line_of to_string) rs \<and>
         view (fold live rs (finish base)) = v))"

text \<open>A property that loading and replaying keep holds of whatever an open returns.\<close>

lemma replay_lines_inv:
  assumes "\<And>r s. P s \<Longrightarrow> P (snd (ap r s))"
  shows "P s \<Longrightarrow> P (fst (snd (replay_lines fs p ap pe li ew idx ls s)))"
proof (induction ls arbitrary: idx s)
  case (Cons l ls)
  show ?case
  proof (cases "fs l")
    case (Inr r)
    obtain res s1 where "ap r s = (res, s1)" "P s1"
      using assms [of s r] Cons.prems by (metis eq_snd_iff)
    with Inr Cons show ?thesis
      by (auto split: sum.splits)
  qed (use Cons in auto)
qed simp

lemma replay_inv:
  assumes "\<And>r s. P s \<Longrightarrow> P (snd (ap r s))" and "P s"
  shows "P (fst (snd (replay_wal_tolerating_torn_tail fs p ap pe b s)))"
  using replay_lines_inv [of P ap s fs p pe] assms
  by (auto simp: replay_wal_tolerating_torn_tail_def Let_def)

lemma pillar_open_inv:
  assumes "pillar_open io parse from_reader load s0 replay finish disk = (Inr (s, w, dir), ws)"
    and "P s0" and "\<And>d s. load d = Inr s \<Longrightarrow> P s" and "\<And>b s. P s \<Longrightarrow> P (fst (snd (replay b s)))"
    and "\<And>s. P s \<Longrightarrow> R (finish s)"
  shows "R s"
proof -
  obtain loaded where l: "P loaded" and "s = finish loaded \<or> (\<exists>b. s = finish (fst (snd (replay b loaded))))"
    using assms(1-3) unfolding pillar_open_def
    by (auto split: sum.splits option.splits prod.splits) (metis fst_conv snd_conv)+
  then show ?thesis
    using assms(4,5) by blast
qed

section \<open>Torn lines\<close>

text \<open>A proper part of an encoded record does not parse; neither does a record glued onto one.\<close>

definition torn_unparsable :: "('r \<Rightarrow> string) \<Rightarrow> (string \<Rightarrow> 'j + 'r) \<Rightarrow> 'r \<Rightarrow> bool" where
  "torn_unparsable to_string from_str r =
     list_all (\<lambda>p. p = [] \<or> p = to_string r \<or> isl (from_str (from_utf8_lossy p))) (prefixes (to_string r))"

lemma torn_unparsableD:
  "torn_unparsable ts fs r \<Longrightarrow> prefix p (ts r) \<Longrightarrow> p \<noteq> [] \<Longrightarrow> p \<noteq> ts r \<Longrightarrow> \<exists>j. fs (from_utf8_lossy p) = Inl j"
  by (auto simp: torn_unparsable_def list_all_iff isl_def)

lemma prefix_line_cases:
  assumes "prefix t (l @ [newline])"
  obtains "t = []" | "t = l @ [newline]" | "t = l" | "prefix t l" "t \<noteq> []" "t \<noteq> l"
  using assms by (auto simp: prefix_append prefix_Cons)

text \<open>A crash leaves the acknowledged records and some part of the line being written.\<close>

lemma replay_crash_image:
  fixes f :: "'r \<Rightarrow> 's \<Rightarrow> 's"
  assumes ok: "codec_ok ts fs (rs @ [r])" and torn: "torn_unparsable ts fs r"
    and pre: "prefix b (wal_image ts (rs @ [r]))" and len: "length (wal_image ts rs) \<le> length b"
  shows "\<exists>ws. replay_wal_tolerating_torn_tail fs p (total_apply f) pe b s = (Inr (), fold f rs s, ws)
       \<or> replay_wal_tolerating_torn_tail fs p (total_apply f) pe b s = (Inr (), fold f (rs @ [r]) s, ws)"
proof -
  have okr: "codec_ok ts fs rs" and nl: "newline \<notin> set (ts r)" and ne: "ts r \<noteq> []"
    and v: "utf8_valid (ts r)" and dec: "fs (ts r) = Inr r"
    using ok by auto
  obtain t where b: "b = wal_image ts rs @ t" and t: "prefix t (ts r @ [newline])"
    using prefix_past [OF _ len, of "ts r @ [newline]"] pre by auto
  show ?thesis
  proof (cases rule: prefix_line_cases [OF t])
    case 1
    with b replay_intact_log [OF okr, of p "total_apply f" pe s] show ?thesis
      by auto
  next
    case 2
    with b replay_intact_log [OF ok, of p "total_apply f" pe s] show ?thesis
      by auto
  next
    case 3
    then have "wal_image ts rs @ t \<noteq> []"
      using ne by simp
    from replay_wal_image_gen [OF okr this, of p "total_apply f" pe s] show ?thesis
      using b 3 ne dec by (auto simp: from_utf8_lossy_valid [OF v] split_newline_free [OF nl])
  next
    case 4
    then obtain j where "fs (from_utf8_lossy t) = Inl j"
      using torn_unparsableD [OF torn] by blast
    moreover have "newline \<notin> set t"
      using nl 4(1) by (auto dest: set_mono_prefix)
    ultimately show ?thesis
      using replay_torn_tail [OF okr _ 4(2), of "total_apply f" s "fold f rs s" j p pe] b by auto
  qed
qed

lemma wal_open_disk_of:
  fixes load :: "'d \<Rightarrow> 'e + 's"
  assumes "snapshot_base from_reader load s0 (sf_canonical dir) base"
    and "replay (wr_file w) base = (Inr (), s', ws)"
  shows "pillar_open io parse from_reader load s0 replay finish (disk_of dir w) =
    (Inr (finish s', open_writer (wr_file w) (wr_synced w),
       \<lparr>sf_canonical = sf_canonical dir, sf_tmp = None, sf_undo = None\<rparr>), ws)"
  using assms
  by (auto simp: pillar_open_def disk_of_def snapshot_base_def snap_fs_of_def split: option.splits)

section \<open>The contract of a store\<close>

locale wal_pillar =
  fixes replay_rec :: "'r \<Rightarrow> 's \<Rightarrow> 's"
    and live_rec :: "'r \<Rightarrow> 's \<Rightarrow> 's"
    and finish :: "'s \<Rightarrow> 's"
    and view :: "'s \<Rightarrow> 'v"
  assumes finish_replay: "view (finish (replay_rec r s)) = view (live_rec r (finish s))"
    and live_cong: "view s = view t \<Longrightarrow> view (live_rec r s) = view (live_rec r t)"
begin

lemma fold_live_cong: "view s = view t \<Longrightarrow> view (fold live_rec rs s) = view (fold live_rec rs t)"
proof (induction rs arbitrary: s t)
  case (Cons r rs)
  from Cons.IH [OF live_cong [OF Cons.prems]] show ?case
    by simp
qed simp

lemma recover_fold: "view (finish (fold replay_rec rs s)) = view (fold live_rec rs (finish s))"
proof (induction rs arbitrary: s)
  case (Cons r rs)
  have "view (finish (fold replay_rec (r # rs) s)) = view (fold live_rec rs (finish (replay_rec r s)))"
    by (simp add: Cons)
  also have "\<dots> = view (fold live_rec rs (live_rec r (finish s)))"
    by (rule fold_live_cong) (rule finish_replay)
  finally show ?case
    by simp
qed simp

lemma recover_intact:
  assumes "codec_ok ts fs rs"
  shows "\<exists>s'. replay_wal_tolerating_torn_tail fs p (total_apply replay_rec) pe (wal_image ts rs) s = (Inr (), s', [])
    \<and> view (finish s') = view (fold live_rec rs (finish s))"
  using replay_intact_log [OF assms, of p "total_apply replay_rec" pe s] recover_fold by auto

lemma recover_crash:
  assumes "codec_ok ts fs (rs @ [r])" "torn_unparsable ts fs r"
    and "prefix b (wal_image ts (rs @ [r]))" "length (wal_image ts rs) \<le> length b"
  shows "\<exists>s' ws. replay_wal_tolerating_torn_tail fs p (total_apply replay_rec) pe b s = (Inr (), s', ws) \<and>
    (view (finish s') = view (fold live_rec rs (finish s)) \<or>
     view (finish s') = view (fold live_rec (rs @ [r]) (finish s)))"
  using replay_crash_image [OF assms, of p replay_rec pe s] recover_fold [of rs s]
    recover_fold [of "rs @ [r]" s] by auto

lemma durable_append:
  assumes "durable_as to_string from_str from_reader load s0 live_rec finish view dir w (view s)"
    and "append_wal to_string parse io env r w = (Inr (), w')" and "serde_ok to_string from_str r"
  shows "durable_as to_string from_str from_reader load s0 live_rec finish view dir w' (view (live_rec r s))"
proof -
  from assms(1) obtain base rs where b: "snapshot_base from_reader load s0 (sf_canonical dir) base"
    and rs: "list_all (serde_ok to_string from_str) rs" "wr_file w = wal_image (line_of to_string) rs"
    and v: "view (fold live_rec rs (finish base)) = view s" and buf: "wr_buf w = []"
    by (auto simp: durable_as_def)
  have "wr_file w' = wal_image (line_of to_string) (rs @ [r])" "wr_buf w' = []"
    "wr_synced w' = length (wr_file w')"
    using append_wal_acked [OF assms(2)] serde_ok_line [OF assms(3)] rs buf
    by (auto simp: wr_stream_def)
  moreover have "view (fold live_rec (rs @ [r]) (finish base)) = view (live_rec r s)"
    using live_cong [OF v] by simp
  ultimately show ?thesis
    using b rs(1) assms(3) unfolding durable_as_def
    by (intro conjI exI [of _ base] exI [of _ "rs @ [r]"]) auto
qed

text \<open>Reopening reads the bytes only, whether or not they are synced.\<close>

lemma durable_reopen_bytes:
  assumes "durable_as to_string from_str from_reader load s0 live_rec finish view dir w v"
    and "wr_file w' = wr_file w"
  shows "\<exists>s w1 dir'. pillar_open io parse from_reader load s0
      (replay_wal_tolerating_torn_tail from_str p (total_apply replay_rec) pe) finish (disk_of dir w') =
      (Inr (s, w1, dir'), []) \<and> view s = v"
proof -
  from assms obtain base rs where b: "snapshot_base from_reader load s0 (sf_canonical dir) base"
    and rs: "list_all (serde_ok to_string from_str) rs" "wr_file w' = wal_image (line_of to_string) rs"
    and v: "view (fold live_rec rs (finish base)) = v"
    by (auto simp: durable_as_def)
  obtain s' where "replay_wal_tolerating_torn_tail from_str p (total_apply replay_rec) pe (wr_file w') base
      = (Inr (), s', [])" "view (finish s') = v"
    using recover_intact [OF rs(1) [unfolded serde_ok_all], of p pe base] rs(2) v by auto
  with wal_open_disk_of [OF b, of "replay_wal_tolerating_torn_tail from_str p (total_apply replay_rec) pe"
      w' s' "[]" io parse] show ?thesis
    by auto
qed

text \<open>Reopening gives back the state, and the files hold it still.\<close>

lemma durable_reopen:
  assumes "durable_as to_string from_str from_reader load s0 live_rec finish view dir w v"
  shows "\<exists>s dir'. pillar_open io parse from_reader load s0
      (replay_wal_tolerating_torn_tail from_str p (total_apply replay_rec) pe) finish (disk_of dir w) =
      (Inr (s, w, dir'), []) \<and> view s = v \<and>
      durable_as to_string from_str from_reader load s0 live_rec finish view dir' w (view s)"
proof -
  from assms obtain base rs where b: "snapshot_base from_reader load s0 (sf_canonical dir) base"
    and rs: "list_all (serde_ok to_string from_str) rs" "wr_file w = wal_image (line_of to_string) rs"
    and v: "view (fold live_rec rs (finish base)) = v"
    and w: "wr_buf w = []" "wr_synced w = length (wr_file w)"
    by (auto simp: durable_as_def)
  obtain s' where s': "replay_wal_tolerating_torn_tail from_str p (total_apply replay_rec) pe (wr_file w) base
      = (Inr (), s', [])" "view (finish s') = v"
    using recover_intact [OF rs(1) [unfolded serde_ok_all], of p pe base] rs(2) v by auto
  have "open_writer (wr_file w) (wr_synced w) = w"
    using w by (simp add: open_writer_def)
  with wal_open_disk_of [OF b, of "replay_wal_tolerating_torn_tail from_str p (total_apply replay_rec) pe"
      w s' "[]" io parse] s' v b rs w show ?thesis
    unfolding durable_as_def by (auto intro!: exI [of _ base] exI [of _ rs])
qed

text \<open>
  A crash during or after an append: reopening succeeds, with the state before the append or the
  state after it, and with the latter when the append was acknowledged.
\<close>

lemma durable_crash:
  fixes load :: "'d \<Rightarrow> 'e + 's"
  assumes d: "durable_as to_string from_str from_reader load s0 live_rec finish view dir w (view s)"
    and a: "append_wal to_string parse' io' env r w = (res, w')" and c: "crash_image w' f"
    and ok: "serde_ok to_string from_str r" and torn: "torn_unparsable (line_of to_string) from_str r"
  shows "\<exists>t w1 dir' ws. pillar_open io parse from_reader load s0
      (replay_wal_tolerating_torn_tail from_str p (total_apply replay_rec) pe) finish
      (disk_of dir (open_writer f (length f))) = (Inr (t, w1, dir'), ws) \<and>
      (view t = view s \<or> view t = view (live_rec r s)) \<and>
      (res = Inr () \<longrightarrow> view t = view (live_rec r s) \<and> ws = [])"
proof -
  from d obtain base rs where b: "snapshot_base from_reader load s0 (sf_canonical dir) base"
    and rs: "list_all (serde_ok to_string from_str) rs" "wr_file w = wal_image (line_of to_string) rs"
    and v: "view (fold live_rec rs (finish base)) = view s"
    and w: "wr_buf w = []" "wr_synced w = length (wr_file w)"
    by (auto simp: durable_as_def)
  let ?img = "wal_image (line_of to_string)"
  have okr: "codec_ok (line_of to_string) from_str (rs @ [r])"
    using rs(1) ok by (simp only: serde_ok_all [symmetric] list_all_append list.pred_inject simp_thms)
  have v': "view (fold live_rec (rs @ [r]) (finish base)) = view (live_rec r s)"
    using live_cong [OF v] by simp
  have len: "length (?img rs) \<le> length f" and pre: "prefix f (?img (rs @ [r]))"
    and acked: "res = Inr () \<Longrightarrow> f = ?img (rs @ [r])"
    using append_wal_crash [OF a w(1) c serde_ok_line [OF ok] w(2)] rs(2)
    by auto
  show ?thesis
  proof (cases "res = Inr ()")
    case True
    then obtain s' where "replay_wal_tolerating_torn_tail from_str p (total_apply replay_rec) pe f base
        = (Inr (), s', [])" "view (finish s') = view (live_rec r s)"
      using recover_intact [OF okr, of p pe base] acked v' by auto
    with wal_open_disk_of [of from_reader load s0 dir base _ "open_writer f (length f)" s' "[]" io parse] b
    show ?thesis
      by (auto simp: open_writer_def)
  next
    case False
    obtain s' ws where "replay_wal_tolerating_torn_tail from_str p (total_apply replay_rec) pe f base
        = (Inr (), s', ws)" "view (finish s') = view s \<or> view (finish s') = view (live_rec r s)"
      using recover_crash [OF okr torn pre len, of p pe base] v v' by auto
    with False wal_open_disk_of [of from_reader load s0 dir base _ "open_writer f (length f)" s' ws io parse] b
    show ?thesis
      by (auto simp: open_writer_def)
  qed
qed

end

text \<open>
  The store writes its snapshot from the state in memory; loading what was written gives a state
  that shows the same.
\<close>

locale snapshotting_pillar = wal_pillar replay_rec live_rec finish view
  for replay_rec :: "'r \<Rightarrow> 's \<Rightarrow> 's" and live_rec finish and view :: "'s \<Rightarrow> 'v" +
  fixes inv :: "'s \<Rightarrow> bool"
    and load :: "'d \<Rightarrow> 'e + 's"
    and dump :: "'s \<Rightarrow> 'd"
  assumes load_dump: "inv s \<Longrightarrow> \<exists>s'. load (dump s) = Inr s' \<and> view (finish s') = view s"
begin

text \<open>A successful snapshot leaves an empty log and files that still hold the state.\<close>

lemma durable_snapshot:
  assumes h: "\<And>b. fsync_file b = Inr b"
    and snap: "pillar_snapshot env fsync_file (Inr data) dir w = (Inr (), trace)"
    and data: "from_reader data = Inr (dump s)" and inv: "inv s"
  shows "durable_as to_string from_str from_reader load s0 live_rec finish view
    (fst (last trace)) (snd (last trace)) (view s)"
proof -
  obtain s' where s': "load (dump s) = Inr s'" "view (finish s') = view s"
    using load_dump [OF inv] by blast
  have "sf_canonical (fst (last trace)) = Some \<lparr>df_bytes = data, df_synced = length data\<rparr>"
    and "snd (last trace) = open_writer [] 0"
    using snap h
    by (auto simp: pillar_snapshot_def atomic_write_snapshot_def Let_def
        split: prod.splits if_splits option.splits sum.splits)
  with s' data show ?thesis
    unfolding durable_as_def by (auto simp: open_writer_def snapshot_base_def intro!: exI [of _ "[]"])
qed

text \<open>A log that was not truncated is replayed on top of the snapshot that already contains it.\<close>

lemma reopen_untruncated:
  assumes "inv s" and "from_reader data = Inr (dump s)" and "sf_canonical dir = Some f" and "df_bytes f = data"
    and "list_all (serde_ok to_string from_str) rs" and "wr_file w = wal_image (line_of to_string) rs"
  shows "\<exists>t w' dir'. pillar_open io parse from_reader load s0
      (replay_wal_tolerating_torn_tail from_str p (total_apply replay_rec) pe) finish (disk_of dir w) =
      (Inr (t, w', dir'), []) \<and> view t = view (fold live_rec rs s)"
proof -
  obtain s' where s': "load (dump s) = Inr s'" "view (finish s') = view s"
    using load_dump [OF assms(1)] by blast
  obtain t where "replay_wal_tolerating_torn_tail from_str p (total_apply replay_rec) pe (wr_file w) s' = (Inr (), t, [])"
    "view (finish t) = view (fold live_rec rs s)"
    using recover_intact [OF assms(5) [unfolded serde_ok_all], of p pe s'] fold_live_cong [OF s'(2)] assms(6) by auto
  moreover have "snapshot_base from_reader load s0 (sf_canonical dir) s'"
    using assms(2-4) s'(1) by (simp add: snapshot_base_def)
  ultimately show ?thesis
    using wal_open_disk_of [of from_reader load s0 dir s'
        "replay_wal_tolerating_torn_tail from_str p (total_apply replay_rec) pe" w t "[]" io parse]
    by auto
qed

end

lemma pillar_snapshot_untruncated:
  assumes "pillar_snapshot env fsync_file (Inr data) dir w = (Inl e, trace)" and "\<And>b. fsync_file b = Inr b"
    and "sf_canonical dir = None" and "sf_canonical (fst (last trace)) \<noteq> None" and "wr_buf w = []"
  shows "\<exists>f. sf_canonical (fst (last trace)) = Some f \<and> df_bytes f = data \<and> wr_file (snd (last trace)) = wr_file w"
  using assms
  by (auto simp: pillar_snapshot_def atomic_write_snapshot_def flush_buf_def file_write_all_def Let_def
      split: prod.splits if_splits option.splits sum.splits)

end
