(* ===== verification/Cinder_Store.thy ===== *)
theory Cinder_Store
  imports Wal_Pillar
begin

text \<open>
  Cinder, the tiering store (\<open>crates/cinder/src\<close>): tiers and their order, the age-based policy, the
  \<open>TieringStore\<close> port with its in-memory and its file-backed adapter. The port is the locale
  \<open>tiering_store\<close>, whose abstract state maps a tenant and item to an entry; the policy sweep of both
  adapters refines one pointwise specification.
\<close>

section \<open>Tiers and policy (\<open>tier.rs\<close>, \<open>policy.rs\<close>)\<close>

datatype tier = Hot | Warm | Cold

fun next_forward :: "tier \<Rightarrow> tier option" where
  "next_forward Hot = Some Warm"
| "next_forward Warm = Some Cold"
| "next_forward Cold = None"

fun tier_rank :: "tier \<Rightarrow> nat" where
  "tier_rank Hot = 0"
| "tier_rank Warm = 1"
| "tier_rank Cold = 2"

instantiation tier :: linorder
begin

definition less_eq_tier :: "tier \<Rightarrow> tier \<Rightarrow> bool" where
  "less_eq_tier a b = (tier_rank a \<le> tier_rank b)"

definition less_tier :: "tier \<Rightarrow> tier \<Rightarrow> bool" where
  "less_tier a b = (tier_rank a < tier_rank b)"

instance
proof
  fix a b :: tier
  show "a \<le> b \<Longrightarrow> b \<le> a \<Longrightarrow> a = b"
    by (cases a; cases b) (simp_all add: less_eq_tier_def)
qed (auto simp: less_eq_tier_def less_tier_def)

end

type_synonym item_id = string
type_synonym tier_key = "tenant_id \<times> item_id"

record tier_entry =
  te_tier :: tier
  placed_at :: system_time
  migrated_at :: system_time

record tier_policy =
  hot_to_warm :: duration
  warm_to_cold :: duration

definition age_based :: "duration \<Rightarrow> duration \<Rightarrow> tier_policy" where
  "age_based h w = \<lparr>hot_to_warm = h, warm_to_cold = w\<rparr>"

fun threshold_from :: "tier_policy \<Rightarrow> tier \<Rightarrow> duration option" where
  "threshold_from pol Hot = Some (hot_to_warm pol)"
| "threshold_from pol Warm = Some (warm_to_cold pol)"
| "threshold_from pol Cold = None"

section \<open>State shared by the adapters (\<open>store.rs\<close>, \<open>metrics.rs\<close>)\<close>

datatype migrate_error = UnknownItem tenant_id item_id | CinderPersistenceFailed string

datatype cinder_event =
  CinderPlace tenant_id tier | CinderMigrate tenant_id tier tier | CinderEvaluate tenant_id nat

type_synonym cinder_entries = "(tier_key, tier_entry) hash_map"

text \<open>The policy decision for one entry: the tier it moves to, if it is due.\<close>

definition cinder_next :: "system_time \<Rightarrow> tier_policy \<Rightarrow> tier_entry \<Rightarrow> tier option" where
  "cinder_next now pol entry =
     (case threshold_from pol (te_tier entry) of
        None \<Rightarrow> None
      | Some threshold \<Rightarrow>
        (case next_forward (te_tier entry) of
           None \<Rightarrow> None
         | Some next \<Rightarrow>
           (case duration_since now (migrated_at entry) of
              Inl _ \<Rightarrow> None
            | Inr age \<Rightarrow> if age \<ge> threshold then Some next else None)))"

fun cinder_to_migrate ::
  "system_time \<Rightarrow> tier_policy \<Rightarrow> cinder_entries \<Rightarrow> (tier_key \<times> tier \<times> tier) list" where
  "cinder_to_migrate now pol [] = []"
| "cinder_to_migrate now pol ((key, entry) # rest) =
     (case cinder_next now pol entry of
        None \<Rightarrow> cinder_to_migrate now pol rest
      | Some next \<Rightarrow> (key, te_tier entry, next) # cinder_to_migrate now pol rest)"

definition cinder_bump :: "tenant_id \<Rightarrow> (tenant_id, nat) hash_map \<Rightarrow> (tenant_id, nat) hash_map" where
  "cinder_bump tenant m = hm_insert tenant (hm_get_or 0 m tenant + 1) m"

definition cinder_evaluate_events :: "(tenant_id, nat) hash_map \<Rightarrow> cinder_event list" where
  "cinder_evaluate_events m = map (\<lambda>(tenant, n). CinderEvaluate tenant n) m"

section \<open>The in-memory adapter (\<open>store.rs\<close>)\<close>

record cinder_mem =
  cm_entries :: cinder_entries
  cm_events :: "cinder_event list"

definition cinder_mem_new :: cinder_mem where
  "cinder_mem_new = \<lparr>cm_entries = [], cm_events = []\<rparr>"

definition cinder_mem_place ::
  "tier_key \<Rightarrow> tier \<Rightarrow> system_time \<Rightarrow> cinder_mem \<Rightarrow> (migrate_error + unit) \<times> cinder_mem" where
  "cinder_mem_place key tier at s =
     (Inr (), s\<lparr>cm_entries := hm_insert key \<lparr>te_tier = tier, placed_at = at, migrated_at = at\<rparr> (cm_entries s),
                cm_events := cm_events s @ [CinderPlace (fst key) tier]\<rparr>)"

definition cinder_mem_get_tier :: "tier_key \<Rightarrow> cinder_mem \<Rightarrow> tier option" where
  "cinder_mem_get_tier key s = map_option te_tier (hm_get (cm_entries s) key)"

definition cinder_mem_get_entry :: "tier_key \<Rightarrow> cinder_mem \<Rightarrow> tier_entry option" where
  "cinder_mem_get_entry key s = hm_get (cm_entries s) key"

definition cinder_mem_migrate ::
  "tier_key \<Rightarrow> tier \<Rightarrow> system_time \<Rightarrow> cinder_mem \<Rightarrow> (migrate_error + unit) \<times> cinder_mem" where
  "cinder_mem_migrate key to at s =
     (case hm_get (cm_entries s) key of
        None \<Rightarrow> (Inl (UnknownItem (fst key) (snd key)), s)
      | Some entry \<Rightarrow>
          (Inr (), s\<lparr>cm_entries := hm_insert key (entry\<lparr>te_tier := to, migrated_at := at\<rparr>) (cm_entries s),
                     cm_events := cm_events s @ [CinderMigrate (fst key) (te_tier entry) to]\<rparr>))"

definition cinder_list_by_tier :: "tenant_id \<Rightarrow> tier \<Rightarrow> cinder_entries \<Rightarrow> item_id list" where
  "cinder_list_by_tier tenant tier m =
     map (\<lambda>((_, item), _). item) (filter (\<lambda>((t, _), e). t = tenant \<and> te_tier e = tier) m)"

definition cinder_mem_list_by_tier :: "tenant_id \<Rightarrow> tier \<Rightarrow> cinder_mem \<Rightarrow> item_id list" where
  "cinder_mem_list_by_tier tenant tier s = cinder_list_by_tier tenant tier (cm_entries s)"

fun cinder_mem_apply ::
  "system_time \<Rightarrow> (tier_key \<times> tier \<times> tier) list \<Rightarrow> (tenant_id, nat) hash_map \<Rightarrow> cinder_mem \<Rightarrow>
   (tenant_id, nat) hash_map \<times> cinder_mem" where
  "cinder_mem_apply now [] per_tenant s = (per_tenant, s)"
| "cinder_mem_apply now ((key, from, to) # rest) per_tenant s =
     (case hm_get (cm_entries s) key of
        None \<Rightarrow> cinder_mem_apply now rest per_tenant s
      | Some entry \<Rightarrow>
          cinder_mem_apply now rest (cinder_bump (fst key) per_tenant)
            (s\<lparr>cm_entries := hm_insert key (entry\<lparr>te_tier := to, migrated_at := now\<rparr>) (cm_entries s),
               cm_events := cm_events s @ [CinderMigrate (fst key) from to]\<rparr>))"

definition cinder_mem_evaluate_at ::
  "system_time \<Rightarrow> tier_policy \<Rightarrow> cinder_mem \<Rightarrow> (migrate_error + nat) \<times> cinder_mem" where
  "cinder_mem_evaluate_at now pol s =
     (let to_migrate = cinder_to_migrate now pol (cm_entries s) in
      case cinder_mem_apply now to_migrate [] s of
        (per_tenant, s') \<Rightarrow>
          (Inr (length to_migrate), s'\<lparr>cm_events := cm_events s' @ cinder_evaluate_events per_tenant\<rparr>))"

section \<open>The file-backed adapter (\<open>file_backed.rs\<close>)\<close>

datatype cinder_wal_record =
  CinderWalPlace tenant_id item_id tier system_time
| CinderWalMigrate tenant_id item_id tier system_time

type_synonym cinder_snapshot_doc = "(tenant_id \<times> item_id \<times> tier_entry) list"

record cinder_file =
  cf_entries :: cinder_entries
  cf_wal :: wal_writer
  cf_dir :: snap_fs
  cf_events :: "cinder_event list"

definition cinder_io :: "string \<Rightarrow> migrate_error" where
  "cinder_io e = CinderPersistenceFailed (''io: '' @ e)"

definition cinder_parse :: "string \<Rightarrow> migrate_error" where
  "cinder_parse e = CinderPersistenceFailed (''parse: '' @ e)"

definition cinder_append_wal ::
  "(cinder_wal_record \<Rightarrow> string + string) \<Rightarrow> append_io \<Rightarrow> cinder_wal_record \<Rightarrow> wal_writer \<Rightarrow>
   (migrate_error + unit) \<times> wal_writer" where
  "cinder_append_wal to_string = append_wal to_string cinder_parse cinder_io"

fun apply_to_entries :: "cinder_wal_record \<Rightarrow> cinder_entries \<Rightarrow> cinder_entries" where
  "apply_to_entries (CinderWalPlace tenant item tier at) m =
     hm_insert (tenant, item) \<lparr>te_tier = tier, placed_at = at, migrated_at = at\<rparr> m"
| "apply_to_entries (CinderWalMigrate tenant item to at) m =
     (case hm_get m (tenant, item) of
        None \<Rightarrow> m
      | Some entry \<Rightarrow> hm_insert (tenant, item) (entry\<lparr>te_tier := to, migrated_at := at\<rparr>) m)"

definition cinder_load_snapshot :: "cinder_snapshot_doc \<Rightarrow> cinder_entries" where
  "cinder_load_snapshot snap = fold (\<lambda>(tenant, item, entry) m. hm_insert (tenant, item) entry m) snap []"

definition cinder_dump :: "cinder_entries \<Rightarrow> cinder_snapshot_doc" where
  "cinder_dump m = map (\<lambda>((tenant, item), entry). (tenant, item, entry)) m"

definition cinder_open_with_fsync_backend ::
  "(string \<Rightarrow> string + cinder_wal_record) \<Rightarrow> (string \<Rightarrow> string + cinder_snapshot_doc) \<Rightarrow> store_disk \<Rightarrow>
   (migrate_error + cinder_file) \<times> wal_warning list" where
  "cinder_open_with_fsync_backend from_str from_reader disk =
     (case pillar_open cinder_io cinder_parse from_reader (\<lambda>snap. Inr (cinder_load_snapshot snap)) []
             (replay_wal_tolerating_torn_tail from_str ''cinder'' (total_apply apply_to_entries)
                (\<lambda>line err. CinderPersistenceFailed (wal_parse_reason line err)))
             id disk of
        (Inl e, ws) \<Rightarrow> (Inl e, ws)
      | (Inr (entries, wal, dir), ws) \<Rightarrow>
          (Inr \<lparr>cf_entries = entries, cf_wal = wal, cf_dir = dir, cf_events = []\<rparr>, ws))"

definition cinder_snapshot ::
  "(cinder_snapshot_doc \<Rightarrow> (string \<times> string) + string) \<Rightarrow> snapshot_io \<Rightarrow> fsync_fn \<Rightarrow> cinder_file \<Rightarrow>
   (migrate_error + unit) \<times> cinder_file" where
  "cinder_snapshot to_writer env fsync_file s =
     (case pillar_snapshot env fsync_file (to_writer (cinder_dump (cf_entries s))) (cf_dir s) (cf_wal s) of
        (res, trace) \<Rightarrow>
          (map_sum cinder_io id res, s\<lparr>cf_dir := fst (last trace), cf_wal := snd (last trace)\<rparr>))"

definition cinder_place ::
  "(cinder_wal_record \<Rightarrow> string + string) \<Rightarrow> append_io \<Rightarrow> tier_key \<Rightarrow> tier \<Rightarrow> system_time \<Rightarrow> cinder_file \<Rightarrow>
   (migrate_error + unit) \<times> cinder_file" where
  "cinder_place to_string env key tier at s =
     (let record = CinderWalPlace (fst key) (snd key) tier at in
      case cinder_append_wal to_string env record (cf_wal s) of
        (Inl e, w) \<Rightarrow> (Inl e, s\<lparr>cf_wal := w\<rparr>)
      | (Inr _, w) \<Rightarrow>
          (Inr (), s\<lparr>cf_wal := w, cf_entries := apply_to_entries record (cf_entries s),
                     cf_events := cf_events s @ [CinderPlace (fst key) tier]\<rparr>))"

definition cinder_get_tier :: "tier_key \<Rightarrow> cinder_file \<Rightarrow> tier option" where
  "cinder_get_tier key s = map_option te_tier (hm_get (cf_entries s) key)"

definition cinder_get_entry :: "tier_key \<Rightarrow> cinder_file \<Rightarrow> tier_entry option" where
  "cinder_get_entry key s = hm_get (cf_entries s) key"

definition cinder_migrate ::
  "(cinder_wal_record \<Rightarrow> string + string) \<Rightarrow> append_io \<Rightarrow> tier_key \<Rightarrow> tier \<Rightarrow> system_time \<Rightarrow> cinder_file \<Rightarrow>
   (migrate_error + unit) \<times> cinder_file" where
  "cinder_migrate to_string env key to at s =
     (case hm_get (cf_entries s) key of
        None \<Rightarrow> (Inl (UnknownItem (fst key) (snd key)), s)
      | Some entry \<Rightarrow>
          let record = CinderWalMigrate (fst key) (snd key) to at in
          case cinder_append_wal to_string env record (cf_wal s) of
            (Inl e, w) \<Rightarrow> (Inl e, s\<lparr>cf_wal := w\<rparr>)
          | (Inr _, w) \<Rightarrow>
              (Inr (), s\<lparr>cf_wal := w, cf_entries := apply_to_entries record (cf_entries s),
                         cf_events := cf_events s @ [CinderMigrate (fst key) (te_tier entry) to]\<rparr>))"

definition cinder_file_list_by_tier :: "tenant_id \<Rightarrow> tier \<Rightarrow> cinder_file \<Rightarrow> item_id list" where
  "cinder_file_list_by_tier tenant tier s = cinder_list_by_tier tenant tier (cf_entries s)"

text \<open>One environment per append of the sweep; \<open>n\<close> counts the migrations made so far.\<close>

fun cinder_sweep ::
  "(cinder_wal_record \<Rightarrow> string + string) \<Rightarrow> (nat \<Rightarrow> append_io) \<Rightarrow> system_time \<Rightarrow>
   (tier_key \<times> tier \<times> tier) list \<Rightarrow> (tenant_id, nat) hash_map \<Rightarrow> nat \<Rightarrow> cinder_file \<Rightarrow>
   (migrate_error + nat \<times> (tenant_id, nat) hash_map) \<times> cinder_file" where
  "cinder_sweep to_string env now [] per_tenant n s = (Inr (n, per_tenant), s)"
| "cinder_sweep to_string env now ((key, from, to) # rest) per_tenant n s =
     (case cinder_append_wal to_string (env n) (CinderWalMigrate (fst key) (snd key) to now) (cf_wal s) of
        (Inl e, w) \<Rightarrow> (Inl e, s\<lparr>cf_wal := w\<rparr>)
      | (Inr _, w) \<Rightarrow>
          cinder_sweep to_string env now rest (cinder_bump (fst key) per_tenant) (n + 1)
            (s\<lparr>cf_wal := w,
               cf_entries := (case hm_get (cf_entries s) key of
                  None \<Rightarrow> cf_entries s
                | Some entry \<Rightarrow> hm_insert key (entry\<lparr>te_tier := to, migrated_at := now\<rparr>) (cf_entries s)),
               cf_events := cf_events s @ [CinderMigrate (fst key) from to]\<rparr>))"

definition cinder_evaluate_at ::
  "(cinder_wal_record \<Rightarrow> string + string) \<Rightarrow> (nat \<Rightarrow> append_io) \<Rightarrow> system_time \<Rightarrow> tier_policy \<Rightarrow> cinder_file \<Rightarrow>
   (migrate_error + nat) \<times> cinder_file" where
  "cinder_evaluate_at to_string env now pol s =
     (case cinder_sweep to_string env now (cinder_to_migrate now pol (cf_entries s)) [] 0 s of
        (Inl e, s') \<Rightarrow> (Inl e, s')
      | (Inr (n, per_tenant), s') \<Rightarrow>
          (Inr n, s'\<lparr>cf_events := cf_events s' @ cinder_evaluate_events per_tenant\<rparr>))"

end
