(* ===== verification/Cinder_Theorems.thy ===== *)
theory Cinder_Theorems
  imports Cinder_Store
begin

text \<open>
  Correctness of Cinder. The port \<open>TieringStore\<close> as a locale over an abstract map of entries, both
  adapters as interpretations, what follows for the policy sweep (forward only, exact count,
  idempotence and its limit), and durability of the file-backed adapter.
\<close>

section \<open>The sweep, pointwise\<close>

definition cinder_advance :: "system_time \<Rightarrow> tier_policy \<Rightarrow> tier_entry \<Rightarrow> tier_entry" where
  "cinder_advance now pol e =
     (case cinder_next now pol e of None \<Rightarrow> e | Some t \<Rightarrow> e\<lparr>te_tier := t, migrated_at := now\<rparr>)"

definition sweep_spec ::
  "system_time \<Rightarrow> tier_policy \<Rightarrow> (tier_key \<rightharpoonup> tier_entry) \<Rightarrow> (tier_key \<rightharpoonup> tier_entry)" where
  "sweep_spec now pol m = (\<lambda>k. map_option (cinder_advance now pol) (m k))"

definition due_keys :: "system_time \<Rightarrow> tier_policy \<Rightarrow> (tier_key \<rightharpoonup> tier_entry) \<Rightarrow> tier_key set" where
  "due_keys now pol m = {k. \<exists>e. m k = Some e \<and> cinder_next now pol e \<noteq> None}"

text \<open>An entry is due exactly when it has a successor tier and has reached the age of its tier.\<close>

lemma cinder_next_iff:
  "cinder_next now pol e = Some t \<longleftrightarrow> next_forward (te_tier e) = Some t \<and> migrated_at e \<le> now \<and>
     int (the (threshold_from pol (te_tier e))) \<le> now - migrated_at e"
  by (cases "te_tier e") (auto simp: cinder_next_def duration_since_def split: if_splits)

lemma next_forward_less: "next_forward a = Some b \<Longrightarrow> a < b"
  by (cases a) (auto simp: less_tier_def)

lemma cinder_advance_forward: "te_tier e \<le> te_tier (cinder_advance now pol e)"
  using next_forward_less [of "te_tier e"]
  by (auto simp: cinder_advance_def cinder_next_iff less_imp_le split: option.splits)

lemma cinder_advance_conv:
  "Some (cinder_advance now pol e) = (if te_tier e \<noteq> Cold \<and> migrated_at e \<le> now \<and>
       int (the (threshold_from pol (te_tier e))) \<le> now - migrated_at e
     then Some (e\<lparr>te_tier := the (next_forward (te_tier e)), migrated_at := now\<rparr>) else Some e)"
  by (cases "te_tier e") (auto simp: cinder_advance_def cinder_next_def duration_since_def)

lemma cinder_advance_same: "cinder_advance now pol e = e \<longleftrightarrow> cinder_next now pol e = None"
proof (cases "cinder_next now pol e")
  case (Some t)
  then have "te_tier (cinder_advance now pol e) \<noteq> te_tier e"
    using next_forward_less [of "te_tier e" t] cinder_next_iff [of now pol e t] by (auto simp: cinder_advance_def)
  with Some show ?thesis
    by auto
qed (simp add: cinder_advance_def)

lemma cinder_advance_keeps [simp]: "placed_at (cinder_advance now pol e) = placed_at e"
  by (simp add: cinder_advance_def split: option.splits)

lemma cinder_next_after:
  assumes "0 < hot_to_warm pol" "0 < warm_to_cold pol"
  shows "cinder_next now pol (cinder_advance now pol e) = None"
proof (cases "cinder_next now pol e")
  case None
  then show ?thesis
    by (simp add: cinder_advance_def)
next
  case (Some t)
  have "0 < the (threshold_from pol t)" if "t \<noteq> Cold"
    using assms that by (cases t) auto
  with Some show ?thesis
    by (cases t) (auto simp: cinder_advance_def cinder_next_def duration_since_def)
qed

lemma cinder_to_migrate_keys:
  "fst ` set (cinder_to_migrate now pol m) \<subseteq> fst ` set m"
  by (induction now pol m rule: cinder_to_migrate.induct) (auto split: option.splits)

lemma cinder_to_migrate_distinct:
  "hm_wf m \<Longrightarrow> hm_wf (cinder_to_migrate now pol m)"
proof (induction now pol m rule: cinder_to_migrate.induct)
  case (2 now pol key entry rest)
  then show ?case
    using cinder_to_migrate_keys [of now pol rest] by (auto simp: hm_wf_def split: option.splits)
qed simp

lemma cinder_to_migrate_get:
  "hm_wf m \<Longrightarrow> hm_get (cinder_to_migrate now pol m) k =
     (case hm_get m k of None \<Rightarrow> None
      | Some e \<Rightarrow> map_option (\<lambda>t. (te_tier e, t)) (cinder_next now pol e))"
proof (induction now pol m rule: cinder_to_migrate.induct)
  case (2 now pol key entry rest)
  then have "hm_get rest key = None"
    by (auto simp: hm_wf_def map_of_eq_None_iff)
  with 2 show ?case
    by (auto simp: hm_wf_def split: option.splits)
qed simp

lemma cinder_to_migrate_count:
  assumes "hm_wf m"
  shows "length (cinder_to_migrate now pol m) = card (due_keys now pol (hm_get m))"
proof -
  let ?d = "cinder_to_migrate now pol m"
  have "due_keys now pol (hm_get m) = fst ` set ?d"
    using cinder_to_migrate_get [OF assms, of now pol]
    by (force simp: due_keys_def dom_map_of_conv_image_fst [symmetric] dom_def split: option.splits)
  moreover have "card (fst ` set ?d) = length ?d"
    using cinder_to_migrate_distinct [OF assms, of now pol] distinct_card [of "map fst ?d"]
    by (simp add: hm_wf_def)
  ultimately show ?thesis
    by simp
qed

text \<open>What applying a list of migrations with distinct keys does to a lookup.\<close>

definition migrated :: "system_time \<Rightarrow> (tier_key \<times> tier \<times> tier) list \<Rightarrow> (tier_key \<rightharpoonup> tier_entry) \<Rightarrow>
    (tier_key \<rightharpoonup> tier_entry)" where
  "migrated now ds m = (\<lambda>k. case hm_get ds k of
     None \<Rightarrow> m k | Some (_, to) \<Rightarrow> map_option (\<lambda>e. e\<lparr>te_tier := to, migrated_at := now\<rparr>) (m k))"

lemma migrated_Nil [simp]: "migrated now [] m = m"
  by (simp add: migrated_def)

lemma migrated_Cons:
  "hm_get ds key = None \<Longrightarrow> migrated now ((key, from, to) # ds) m =
   migrated now ds (case m key of None \<Rightarrow> m
     | Some e \<Rightarrow> m(key \<mapsto> e\<lparr>te_tier := to, migrated_at := now\<rparr>))"
  by (auto simp: migrated_def fun_eq_iff split: option.splits)

lemma migrated_due:
  "hm_wf m \<Longrightarrow> migrated now (cinder_to_migrate now pol m) (hm_get m) = sweep_spec now pol (hm_get m)"
  by (auto simp: migrated_def sweep_spec_def cinder_to_migrate_get cinder_advance_def fun_eq_iff split: option.splits)

lemma cinder_mem_apply_entries:
  "hm_wf ds \<Longrightarrow> cinder_mem_apply now ds pt s = (pt', s') \<Longrightarrow> hm_wf (cm_entries s) \<Longrightarrow>
   hm_wf (cm_entries s') \<and> hm_get (cm_entries s') = migrated now ds (hm_get (cm_entries s))"
proof (induction now ds pt s rule: cinder_mem_apply.induct)
  case (2 now key frm to rest pt s)
  show ?case
    using 2 hm_wf_ConsD [OF 2(3)]
    by (cases "hm_get (cm_entries s) key") (auto simp: migrated_Cons fun_upd_def)
qed simp

section \<open>The port\<close>

locale tiering_store =
  fixes place :: "'env \<Rightarrow> tier_key \<Rightarrow> tier \<Rightarrow> system_time \<Rightarrow> 's \<Rightarrow> (migrate_error + unit) \<times> 's"
    and migrate :: "'env \<Rightarrow> tier_key \<Rightarrow> tier \<Rightarrow> system_time \<Rightarrow> 's \<Rightarrow> (migrate_error + unit) \<times> 's"
    and evaluate :: "(nat \<Rightarrow> 'env) \<Rightarrow> system_time \<Rightarrow> tier_policy \<Rightarrow> 's \<Rightarrow> (migrate_error + nat) \<times> 's"
    and entries :: "'s \<Rightarrow> (tier_key \<rightharpoonup> tier_entry)"
    and ok :: "'s \<Rightarrow> bool"
  assumes place_ok: "ok s \<Longrightarrow> place env k t at s = (Inr (), s') \<Longrightarrow>
      ok s' \<and> entries s' = (entries s)(k \<mapsto> \<lparr>te_tier = t, placed_at = at, migrated_at = at\<rparr>)"
    and place_err: "ok s \<Longrightarrow> place env k t at s = (Inl e, s') \<Longrightarrow> ok s' \<and> entries s' = entries s"
    and migrate_ok: "ok s \<Longrightarrow> migrate env k t at s = (Inr (), s') \<Longrightarrow>
      ok s' \<and> (\<exists>e. entries s k = Some e \<and> entries s' = (entries s)(k \<mapsto> e\<lparr>te_tier := t, migrated_at := at\<rparr>))"
    and migrate_err: "ok s \<Longrightarrow> migrate env k t at s = (Inl e, s') \<Longrightarrow>
      ok s' \<and> entries s' = entries s \<and> (entries s k = None \<longleftrightarrow> e = UnknownItem (fst k) (snd k))"
    and evaluate_ok: "ok s \<Longrightarrow> evaluate envs now pol s = (Inr n, s') \<Longrightarrow>
      ok s' \<and> entries s' = sweep_spec now pol (entries s) \<and> n = card (due_keys now pol (entries s))"
begin

lemma evaluate_forward:
  assumes "ok s" "evaluate envs now pol s = (Inr n, s')" "entries s k = Some e"
  shows "\<exists>e'. entries s' k = Some e' \<and> te_tier e \<le> te_tier e' \<and> placed_at e' = placed_at e \<and>
    (e' = e \<or> migrated_at e' = now \<and> migrated_at e \<le> now \<and> next_forward (te_tier e) = Some (te_tier e'))"
  using evaluate_ok [OF assms(1,2)] assms(3) cinder_advance_forward [of e now pol]
  by (auto simp: sweep_spec_def cinder_advance_def cinder_next_iff split: option.splits)

lemma evaluate_idempotent:
  assumes "ok s" "evaluate envs now pol s = (Inr n, s1)" "evaluate envs' now pol s1 = (Inr n', s2)"
    and "0 < hot_to_warm pol" "0 < warm_to_cold pol"
  shows "n' = 0 \<and> entries s2 = entries s1"
proof -
  have 1: "ok s1" "entries s1 = sweep_spec now pol (entries s)"
    using evaluate_ok [OF assms(1,2)] by auto
  have "due_keys now pol (entries s1) = {}"
    using cinder_next_after [OF assms(4,5)] by (auto simp: due_keys_def 1(2) sweep_spec_def)
  moreover have "sweep_spec now pol (entries s1) = entries s1"
    using cinder_next_after [OF assms(4,5), of now]
    by (auto simp: 1(2) sweep_spec_def cinder_advance_def [of now pol "cinder_advance now pol _"] fun_eq_iff
        option.map_comp comp_def)
  ultimately show ?thesis
    using evaluate_ok [OF 1(1) assms(3)] by simp
qed

end

interpretation cinder_mem: tiering_store "\<lambda>(_ :: unit). cinder_mem_place" "\<lambda>_. cinder_mem_migrate"
  "\<lambda>_. cinder_mem_evaluate_at" "\<lambda>s k. cinder_mem_get_entry k s" "\<lambda>s. hm_wf (cm_entries s)"
proof unfold_locales
  fix s now pol n s'
  assume ok: "hm_wf (cm_entries s)" and "cinder_mem_evaluate_at now pol s = (Inr n, s')"
  then obtain pt s1 where "cinder_mem_apply now (cinder_to_migrate now pol (cm_entries s)) [] s = (pt, s1)"
    "cm_entries s' = cm_entries s1" "n = length (cinder_to_migrate now pol (cm_entries s))"
    by (auto simp: cinder_mem_evaluate_at_def Let_def split: prod.splits)
  with cinder_mem_apply_entries [OF cinder_to_migrate_distinct [OF ok]] ok
  show "hm_wf (cm_entries s') \<and> (\<lambda>k. cinder_mem_get_entry k s') = sweep_spec now pol (\<lambda>k. cinder_mem_get_entry k s) \<and>
      n = card (due_keys now pol (\<lambda>k. cinder_mem_get_entry k s))"
    by (simp add: cinder_mem_get_entry_def migrated_due cinder_to_migrate_count)
qed (auto simp: cinder_mem_place_def cinder_mem_migrate_def cinder_mem_get_entry_def split: option.splits)

section \<open>The file-backed adapter\<close>

lemma hm_wf_apply_to_entries [simp, intro]: "hm_wf m \<Longrightarrow> hm_wf (apply_to_entries r m)"
  by (cases r) (auto split: option.splits)

lemma apply_migrate_get:
  "hm_get (case hm_get m k of None \<Rightarrow> m | Some e \<Rightarrow> hm_insert k (f e) m) =
   (case hm_get m k of None \<Rightarrow> hm_get m | Some e \<Rightarrow> (hm_get m)(k \<mapsto> f e))"
  by (simp split: option.splits)

lemma cinder_sweep_ok:
  "hm_wf ds \<Longrightarrow> cinder_sweep ts env now ds pt n s = (Inr (n', pt'), s') \<Longrightarrow> hm_wf (cf_entries s) \<Longrightarrow>
   hm_wf (cf_entries s') \<and> hm_get (cf_entries s') = migrated now ds (hm_get (cf_entries s)) \<and> n' = n + length ds"
proof (induction ts env now ds pt n s rule: cinder_sweep.induct)
  case (2 ts env now key frm to rest pt n s)
  obtain res w where a: "cinder_append_wal ts (env n) (CinderWalMigrate (fst key) (snd key) to now) (cf_wal s) = (res, w)"
    by fastforce
  with 2(3) obtain u where "res = Inr u"
    by (cases res) auto
  with 2 a hm_wf_ConsD [OF 2(2)] show ?case
    by (cases "hm_get (cf_entries s) key") (auto simp: migrated_Cons fun_upd_def)
qed simp

interpretation cinder_file: tiering_store "\<lambda>(ts, env). cinder_place ts env" "\<lambda>(ts, env). cinder_migrate ts env"
  "\<lambda>envs. cinder_evaluate_at (fst (envs 0)) (\<lambda>i. snd (envs i))" "\<lambda>s k. cinder_get_entry k s"
  "\<lambda>s. hm_wf (cf_entries s)"
proof unfold_locales
  fix s now pol n s' and envs :: "nat \<Rightarrow> (cinder_wal_record \<Rightarrow> string + string) \<times> append_io"
  assume ok: "hm_wf (cf_entries s)"
    and "cinder_evaluate_at (fst (envs 0)) (\<lambda>i. snd (envs i)) now pol s = (Inr n, s')"
  then obtain pt s1 where "cinder_sweep (fst (envs 0)) (\<lambda>i. snd (envs i)) now
      (cinder_to_migrate now pol (cf_entries s)) [] 0 s = (Inr (n, pt), s1)" "cf_entries s' = cf_entries s1"
    by (auto simp: cinder_evaluate_at_def split: prod.splits sum.splits)
  with cinder_sweep_ok [OF cinder_to_migrate_distinct [OF ok] this(1) ok] ok
  show "hm_wf (cf_entries s') \<and> (\<lambda>k. cinder_get_entry k s') = sweep_spec now pol (\<lambda>k. cinder_get_entry k s) \<and>
      n = card (due_keys now pol (\<lambda>k. cinder_get_entry k s))"
    by (simp add: cinder_get_entry_def migrated_due cinder_to_migrate_count)
next
  fix s k t at e s' and env :: "(cinder_wal_record \<Rightarrow> string + string) \<times> append_io"
  assume "hm_wf (cf_entries s)" "(case env of (ts, env) \<Rightarrow> cinder_migrate ts env) k t at s = (Inl e, s')"
  then show "hm_wf (cf_entries s') \<and> (\<lambda>k. cinder_get_entry k s') = (\<lambda>k. cinder_get_entry k s) \<and>
      (cinder_get_entry k s = None \<longleftrightarrow> e = UnknownItem (fst k) (snd k))"
    by (auto simp: cinder_migrate_def cinder_get_entry_def cinder_append_wal_def append_wal_def cinder_io_def
        cinder_parse_def Let_def split: option.splits sum.splits prod.splits if_splits)
qed (auto simp: cinder_place_def cinder_migrate_def cinder_get_entry_def Let_def
    split: option.splits sum.splits prod.splits)

section \<open>Durability\<close>

lemma cinder_load_dump: "cinder_load_snapshot (cinder_dump m) = fold (\<lambda>(k, v) m. hm_insert k v m) m []"
  by (simp add: cinder_load_snapshot_def cinder_dump_def fold_map comp_def split_def)

interpretation cinder_pillar: snapshotting_pillar apply_to_entries apply_to_entries id hm_get hm_wf
  "\<lambda>snap. Inr (cinder_load_snapshot snap)" cinder_dump
proof unfold_locales
  fix r and s t :: cinder_entries
  assume "hm_get s = hm_get t"
  then show "hm_get (apply_to_entries r s) = hm_get (apply_to_entries r t)"
    by (cases r) (auto split: option.splits)
next
  fix m :: cinder_entries
  assume "hm_wf m"
  then show "\<exists>s'. Inr (cinder_load_snapshot (cinder_dump m)) = Inr s' \<and> hm_get (id s') = hm_get m"
    by (auto simp: cinder_load_dump fold_insert_get fun_eq_iff split: option.splits)
qed simp

definition cinder_durable ::
  "(cinder_wal_record \<Rightarrow> string + string) \<Rightarrow> (string \<Rightarrow> string + cinder_wal_record) \<Rightarrow>
   (string \<Rightarrow> string + cinder_snapshot_doc) \<Rightarrow> cinder_file \<Rightarrow> bool" where
  "cinder_durable to_string from_str from_reader s =
     (hm_wf (cf_entries s) \<and>
      durable_as to_string from_str from_reader (\<lambda>snap. Inr (cinder_load_snapshot snap) :: migrate_error + _) []
        apply_to_entries id hm_get (cf_dir s) (cf_wal s) (hm_get (cf_entries s)))"

abbreviation cinder_pillar_open ::
  "(string \<Rightarrow> string + cinder_wal_record) \<Rightarrow> (string \<Rightarrow> string + cinder_snapshot_doc) \<Rightarrow> store_disk \<Rightarrow>
   (migrate_error + cinder_entries \<times> wal_writer \<times> snap_fs) \<times> wal_warning list" where
  "cinder_pillar_open fs fr \<equiv> pillar_open cinder_io cinder_parse fr (\<lambda>snap. Inr (cinder_load_snapshot snap)) []
     (replay_wal_tolerating_torn_tail fs ''cinder'' (total_apply apply_to_entries)
        (\<lambda>line err. CinderPersistenceFailed (wal_parse_reason line err))) id"

lemma cinder_open_Inr:
  "cinder_pillar_open fs fr disk = (Inr (m, w, dir), ws) \<Longrightarrow>
   cinder_open_with_fsync_backend fs fr disk =
     (Inr \<lparr>cf_entries = m, cf_wal = w, cf_dir = dir, cf_events = []\<rparr>, ws)"
  by (simp add: cinder_open_with_fsync_backend_def)

lemma hm_wf_cinder_load: "hm_wf (cinder_load_snapshot snap)"
proof -
  have "hm_wf m \<Longrightarrow> hm_wf (fold (\<lambda>(tenant, item, entry) m. hm_insert (tenant, item) entry m) snap m)" for m
    by (induction snap arbitrary: m) auto
  then show ?thesis
    by (simp add: cinder_load_snapshot_def)
qed

lemma cinder_pillar_open_wf: "cinder_pillar_open fs fr disk = (Inr (m, w, dir), ws) \<Longrightarrow> hm_wf m"
  by (erule pillar_open_inv [where P = hm_wf])
    (auto simp: hm_wf_cinder_load intro: replay_inv [of hm_wf "total_apply apply_to_entries", simplified])

lemma cinder_reopen:
  assumes "cinder_durable ts fs fr s"
  shows "\<exists>s'. cinder_open_with_fsync_backend fs fr (disk_of (cf_dir s) (cf_wal s)) = (Inr s', []) \<and>
    cinder_durable ts fs fr s' \<and> hm_get (cf_entries s') = hm_get (cf_entries s)"
proof -
  have "durable_as ts fs fr (\<lambda>snap. Inr (cinder_load_snapshot snap) :: migrate_error + _) []
        apply_to_entries id hm_get (cf_dir s) (cf_wal s) (hm_get (cf_entries s))"
    using assms by (simp add: cinder_durable_def)
  from cinder_pillar.durable_reopen [OF this, of cinder_io cinder_parse "''cinder''"
      "\<lambda>line err. CinderPersistenceFailed (wal_parse_reason line err)"]
  obtain m dir' where "cinder_pillar_open fs fr (disk_of (cf_dir s) (cf_wal s)) = (Inr (m, cf_wal s, dir'), [])"
    "hm_get m = hm_get (cf_entries s)"
    "durable_as ts fs fr (\<lambda>snap. Inr (cinder_load_snapshot snap) :: migrate_error + _) []
        apply_to_entries id hm_get dir' (cf_wal s) (hm_get m)"
    by blast
  with cinder_open_Inr cinder_pillar_open_wf show ?thesis
    by (fastforce simp: cinder_durable_def)
qed

lemma cinder_reopen_bytes:
  assumes "cinder_durable ts fs fr s" and "wr_file w = wr_file (cf_wal s)"
  shows "\<exists>s'. cinder_open_with_fsync_backend fs fr (disk_of (cf_dir s) w) = (Inr s', []) \<and>
    hm_get (cf_entries s') = hm_get (cf_entries s)"
  using cinder_pillar.durable_reopen_bytes [OF conjunct2 [OF assms(1) [unfolded cinder_durable_def]] assms(2),
      of cinder_io cinder_parse "''cinder''" "\<lambda>line err. CinderPersistenceFailed (wal_parse_reason line err)"]
    cinder_open_Inr by fastforce

lemma cinder_durable_append:
  assumes "cinder_durable ts fs fr s" and "cinder_append_wal ts env r (cf_wal s) = (Inr (), w)" and "serde_ok ts fs r"
    and "hm_get (cf_entries s') = hm_get (apply_to_entries r (cf_entries s))" "hm_wf (cf_entries s')"
    and "cf_wal s' = w" "cf_dir s' = cf_dir s"
  shows "cinder_durable ts fs fr s'"
  using cinder_pillar.durable_append [OF conjunct2 [OF assms(1) [unfolded cinder_durable_def]]
      assms(2) [unfolded cinder_append_wal_def] assms(3)] assms(4-)
  by (simp add: cinder_durable_def)

lemma cinder_crash:
  assumes "cinder_durable ts fs fr s" and "cinder_append_wal ts env r (cf_wal s) = (res, w)" and "serde_ok ts fs r"
    and "torn_unparsable (line_of ts) fs r" and "crash_image w f"
  shows "\<exists>s' ws. cinder_open_with_fsync_backend fs fr (disk_of (cf_dir s) (open_writer f (length f))) = (Inr s', ws) \<and>
    (hm_get (cf_entries s') = hm_get (cf_entries s) \<and> isl res \<or>
     hm_get (cf_entries s') = hm_get (apply_to_entries r (cf_entries s)))"
proof -
  have "durable_as ts fs fr (\<lambda>snap. Inr (cinder_load_snapshot snap) :: migrate_error + _) []
        apply_to_entries id hm_get (cf_dir s) (cf_wal s) (hm_get (cf_entries s))"
    using assms by (simp add: cinder_durable_def)
  from cinder_pillar.durable_crash [OF this assms(2) [unfolded cinder_append_wal_def] assms(5,3,4), of cinder_io
      cinder_parse "''cinder''" "\<lambda>line err. CinderPersistenceFailed (wal_parse_reason line err)"]
  obtain m w1 dir' ws where "cinder_pillar_open fs fr (disk_of (cf_dir s) (open_writer f (length f))) = (Inr (m, w1, dir'), ws)"
    "hm_get m = hm_get (cf_entries s) \<or> hm_get m = hm_get (apply_to_entries r (cf_entries s))"
    "res = Inr () \<longrightarrow> hm_get m = hm_get (apply_to_entries r (cf_entries s))"
    by blast
  then show ?thesis
    using cinder_open_Inr by (cases res) fastforce+
qed

text \<open>A sweep applies some first part of its list; where it stops, one append is left pending.\<close>

definition cinder_pending ::
  "(cinder_wal_record \<Rightarrow> string + string) \<Rightarrow> (string \<Rightarrow> string + cinder_wal_record) \<Rightarrow>
   (string \<Rightarrow> string + cinder_snapshot_doc) \<Rightarrow> cinder_wal_record \<Rightarrow> cinder_file \<Rightarrow> bool" where
  "cinder_pending ts fs fr r s =
     (\<exists>sd env e. cinder_durable ts fs fr sd \<and> cf_entries sd = cf_entries s \<and> cf_dir sd = cf_dir s \<and>
        cinder_append_wal ts env r (cf_wal sd) = (Inl e, cf_wal s))"

definition migrate_record :: "system_time \<Rightarrow> tier_key \<times> tier \<times> tier \<Rightarrow> cinder_wal_record" where
  "migrate_record now d = (case d of (key, _, to) \<Rightarrow> CinderWalMigrate (fst key) (snd key) to now)"

lemma cinder_sweep_Cons:
  assumes "cinder_durable ts fs fr s" and "serde_ok ts fs (migrate_record now d)"
    and "cinder_sweep ts env now (d # ds) pt n s = (res, s')" and "hm_get ds (fst d) = None"
  obtains (stopped) "isl res" "cf_entries s' = cf_entries s" "cf_dir s' = cf_dir s"
      "cinder_pending ts fs fr (migrate_record now d) s'"
  | (on) s1 where "cinder_durable ts fs fr s1" "cf_dir s1 = cf_dir s"
      "cinder_sweep ts env now ds (cinder_bump (fst (fst d)) pt) (n + 1) s1 = (res, s')"
      "\<And>i. migrated now (take i ds) (hm_get (cf_entries s1)) = migrated now (take (Suc i) (d # ds)) (hm_get (cf_entries s))"
proof -
  obtain key frm to where d: "d = (key, frm, to)"
    by (cases d)
  let ?r = "CinderWalMigrate (fst key) (snd key) to now"
  obtain ares w where a: "cinder_append_wal ts (env n) ?r (cf_wal s) = (ares, w)"
    by fastforce
  show thesis
  proof (cases ares)
    case (Inl e)
    have "cinder_append_wal ts (env n) ?r (cf_wal s) = (Inl e, cf_wal s')"
      "isl res" "cf_entries s' = cf_entries s" "cf_dir s' = cf_dir s"
      using assms(3) a Inl d by auto
    with assms(1) d show thesis
      by (intro stopped) (auto simp: cinder_pending_def migrate_record_def)
  next
    case (Inr u)
    define s1 where "s1 = s\<lparr>cf_wal := w,
       cf_entries := (case hm_get (cf_entries s) key of None \<Rightarrow> cf_entries s
          | Some entry \<Rightarrow> hm_insert key (entry\<lparr>te_tier := to, migrated_at := now\<rparr>) (cf_entries s)),
       cf_events := cf_events s @ [CinderMigrate (fst key) frm to]\<rparr>"
    have "cinder_durable ts fs fr s1"
    proof (rule cinder_durable_append [OF assms(1)])
      show "cinder_append_wal ts (env n) ?r (cf_wal s) = (Inr (), w)"
        using a Inr by simp
      show "serde_ok ts fs ?r"
        using assms(2) d by (simp add: migrate_record_def)
      show "hm_get (cf_entries s1) = hm_get (apply_to_entries ?r (cf_entries s))"
        by (simp add: s1_def split: option.splits)
      show "hm_wf (cf_entries s1)"
        using assms(1) by (auto simp: s1_def cinder_durable_def split: option.splits)
    qed (simp_all add: s1_def)
    moreover have "migrated now (take i ds) (hm_get (cf_entries s1)) =
        migrated now (take (Suc i) (d # ds)) (hm_get (cf_entries s))" for i
    proof -
      have "hm_get (take i ds) key = None"
        using assms(4) d by (auto simp: map_of_eq_None_iff dest!: in_set_takeD)
      then show ?thesis
        by (simp add: d migrated_Cons s1_def apply_migrate_get)
    qed
    ultimately show thesis
      using assms(3) a Inr d by (intro on [of s1]) (simp_all add: s1_def)
  qed
qed

lemma cinder_sweep_stages:
  assumes "hm_wf ds" and "cinder_durable ts fs fr s" and "list_all (\<lambda>d. serde_ok ts fs (migrate_record now d)) ds"
    and "cinder_sweep ts env now ds pt n s = (res, s')"
  shows "\<exists>i \<le> length ds. hm_get (cf_entries s') = migrated now (take i ds) (hm_get (cf_entries s)) \<and>
     cf_dir s' = cf_dir s \<and>
     (if isl res then i < length ds \<and> cinder_pending ts fs fr (migrate_record now (ds ! i)) s'
      else i = length ds \<and> cinder_durable ts fs fr s')"
  using assms
proof (induction ds arbitrary: pt n s)
  case (Cons d ds)
  have wf: "hm_wf ds" "hm_get ds (fst d) = None" and ok: "serde_ok ts fs (migrate_record now d)"
    and oks: "list_all (\<lambda>d. serde_ok ts fs (migrate_record now d)) ds"
    using Cons.prems(1,3) hm_wf_ConsD [of "fst d" "snd d" ds] by auto
  show ?case
  proof (cases rule: cinder_sweep_Cons [OF Cons.prems(2) ok Cons.prems(4) wf(2)])
    case 1
    then show ?thesis
      by (intro exI [of _ 0]) simp
  next
    case (2 s1)
    from Cons.IH [OF wf(1) 2(1) oks 2(3)] obtain i where "i \<le> length ds"
      "hm_get (cf_entries s') = migrated now (take i ds) (hm_get (cf_entries s1))" "cf_dir s' = cf_dir s1"
      "if isl res then i < length ds \<and> cinder_pending ts fs fr (migrate_record now (ds ! i)) s'
       else i = length ds \<and> cinder_durable ts fs fr s'"
      by blast
    then show ?thesis
      unfolding 2(2,4) by (intro exI [of _ "Suc i"]) (simp split: if_splits)
  qed
qed auto

text \<open>
  A store from an empty directory on: operations that were acknowledged, snapshots with the real
  \<open>fsync\<close>, and restarts.
\<close>

inductive cinder_history ::
  "(cinder_wal_record \<Rightarrow> string + string) \<Rightarrow> (string \<Rightarrow> string + cinder_wal_record) \<Rightarrow>
   (cinder_snapshot_doc \<Rightarrow> (string \<times> string) + string) \<Rightarrow> (string \<Rightarrow> string + cinder_snapshot_doc) \<Rightarrow> cinder_file \<Rightarrow> bool"
  for ts fs tw fr where
  created: "cinder_open_with_fsync_backend fs fr \<lparr>sd_snapshot = Absent, sd_wal = Absent, sd_append_error = None\<rparr> = (Inr s, ws) \<Longrightarrow>
    cinder_history ts fs tw fr s"
| placed: "cinder_history ts fs tw fr s \<Longrightarrow> serde_ok ts fs (CinderWalPlace (fst k) (snd k) t at) \<Longrightarrow>
    cinder_place ts env k t at s = (Inr (), s') \<Longrightarrow> cinder_history ts fs tw fr s'"
| migrated_one: "cinder_history ts fs tw fr s \<Longrightarrow> serde_ok ts fs (CinderWalMigrate (fst k) (snd k) t at) \<Longrightarrow>
    cinder_migrate ts env k t at s = (Inr (), s') \<Longrightarrow> cinder_history ts fs tw fr s'"
| swept: "cinder_history ts fs tw fr s \<Longrightarrow>
    list_all (\<lambda>d. serde_ok ts fs (migrate_record now d)) (cinder_to_migrate now pol (cf_entries s)) \<Longrightarrow>
    cinder_evaluate_at ts envs now pol s = (Inr n, s') \<Longrightarrow> cinder_history ts fs tw fr s'"
| snapshotted: "cinder_history ts fs tw fr s \<Longrightarrow> cinder_snapshot tw env (real_fsync_file None) s = (Inr (), s') \<Longrightarrow>
    tw (cinder_dump (cf_entries s)) = Inr data \<Longrightarrow> fr data = Inr (cinder_dump (cf_entries s)) \<Longrightarrow> cinder_history ts fs tw fr s'"
| restarted: "cinder_history ts fs tw fr s \<Longrightarrow>
    cinder_open_with_fsync_backend fs fr (disk_of (cf_dir s) (cf_wal s)) = (Inr s', ws) \<Longrightarrow> cinder_history ts fs tw fr s'"

lemma cinder_durable_snapshot:
  assumes "cinder_durable ts fs fr s" and "cinder_snapshot tw env (real_fsync_file None) s = (Inr (), s')"
    and "tw (cinder_dump (cf_entries s)) = Inr data" and "fr data = Inr (cinder_dump (cf_entries s))"
  shows "cinder_durable ts fs fr s'"
proof -
  obtain res trace where t: "pillar_snapshot env (real_fsync_file None) (Inr data) (cf_dir s) (cf_wal s) = (res, trace)"
    by fastforce
  with assms(2,3) have "res = Inr ()" "s' = s\<lparr>cf_dir := fst (last trace), cf_wal := snd (last trace)\<rparr>"
    by (cases res; simp add: cinder_snapshot_def)+
  with t cinder_pillar.durable_snapshot [OF real_fsync.honest, of env data "cf_dir s" "cf_wal s" trace fr "cf_entries s"] assms(1,4)
  show ?thesis
    by (simp add: cinder_durable_def)
qed

lemma cinder_history_durable: "cinder_history ts fs tw fr s \<Longrightarrow> cinder_durable ts fs fr s"
proof (induction rule: cinder_history.induct)
  case (created s ws)
  then show ?case
    by (auto simp: cinder_open_with_fsync_backend_def pillar_open_def cinder_durable_def durable_as_def snap_fs_of_def
        open_writer_def snapshot_base_def hm_wf_def intro!: exI [of _ "[]"])
next
  case (placed s k t at env s')
  then obtain w where w: "cinder_append_wal ts env (CinderWalPlace (fst k) (snd k) t at) (cf_wal s) = (Inr (), w)"
    and "s' = s\<lparr>cf_wal := w, cf_entries := apply_to_entries (CinderWalPlace (fst k) (snd k) t at) (cf_entries s),
       cf_events := cf_events s @ [CinderPlace (fst k) t]\<rparr>"
    by (auto simp: cinder_place_def Let_def split: prod.splits sum.splits)
  moreover have "hm_wf (cf_entries s)"
    using placed.IH by (simp add: cinder_durable_def)
  ultimately show ?case
    by (intro cinder_durable_append [OF placed.IH w placed.hyps(2)]) simp_all
next
  case (migrated_one s k t at env s')
  then obtain w where w: "cinder_append_wal ts env (CinderWalMigrate (fst k) (snd k) t at) (cf_wal s) = (Inr (), w)"
    and "cf_wal s' = w" "cf_dir s' = cf_dir s" "cf_entries s' = apply_to_entries (CinderWalMigrate (fst k) (snd k) t at) (cf_entries s)"
    by (auto simp: cinder_migrate_def Let_def split: prod.splits sum.splits option.splits)
  moreover have "hm_wf (cf_entries s)"
    using migrated_one.IH by (simp add: cinder_durable_def)
  ultimately show ?case
    by (intro cinder_durable_append [OF migrated_one.IH w migrated_one.hyps(2)]) (simp_all add: hm_wf_apply_to_entries del: apply_to_entries.simps)
next
  case (swept s now pol envs n s')
  then obtain pt s2 where sw: "cinder_sweep ts envs now (cinder_to_migrate now pol (cf_entries s)) [] 0 s = (Inr (n, pt), s2)"
    and s': "cf_entries s' = cf_entries s2" "cf_wal s' = cf_wal s2" "cf_dir s' = cf_dir s2"
    by (auto simp: cinder_evaluate_at_def split: prod.splits sum.splits)
  have "hm_wf (cinder_to_migrate now pol (cf_entries s))"
    using swept.IH by (simp add: cinder_durable_def cinder_to_migrate_distinct)
  from cinder_sweep_stages [OF this swept.IH swept.hyps(2) sw] s' show ?case
    by (auto simp: cinder_durable_def)
next
  case (snapshotted s env s' data)
  then show ?case
    by (intro cinder_durable_snapshot [OF snapshotted.IH])
next
  case (restarted s s' ws)
  then show ?case
    using cinder_reopen [of ts fs fr s] by auto
qed

lemma migrated_append:
  assumes "hm_wf (ds @ [d])" and "hm_get m' = migrated now ds (hm_get m)"
  shows "migrated now (ds @ [d]) (hm_get m) = hm_get (apply_to_entries (migrate_record now d) m')"
proof -
  obtain key frm to where d: "d = (key, frm, to)"
    by (cases d)
  have "hm_get ds key = None"
    using assms(1) d by (auto simp: hm_wf_def map_of_eq_None_iff)
  then have "hm_get m' key = hm_get m key" and g: "\<And>k. hm_get m' k = migrated now ds (hm_get m) k"
    using assms(2) by (simp_all add: migrated_def)
  show ?thesis
  proof
    fix k
    show "migrated now (ds @ [d]) (hm_get m) k = hm_get (apply_to_entries (migrate_record now d) m') k"
      using \<open>hm_get m' key = hm_get m key\<close> g [of k] \<open>hm_get ds key = None\<close>
      by (cases "k = key") (auto simp: d migrate_record_def migrated_def map_add_def split: option.splits)
  qed
qed

section \<open>Replaying a log twice\<close>

text \<open>
  The effect of a log on one key is to set it, to move whatever is there, or nothing; each of these
  does no more when it is done twice.
\<close>

definition key_effect :: "tier_key \<Rightarrow> cinder_wal_record \<Rightarrow> tier_entry option \<Rightarrow> tier_entry option" where
  "key_effect k r x = (case r of
     CinderWalPlace tenant item tier at \<Rightarrow>
       if k = (tenant, item) then Some \<lparr>te_tier = tier, placed_at = at, migrated_at = at\<rparr> else x
   | CinderWalMigrate tenant item to at \<Rightarrow>
       if k = (tenant, item) then map_option (\<lambda>e. e\<lparr>te_tier := to, migrated_at := at\<rparr>) x else x)"

lemma fold_apply_get: "hm_get (fold apply_to_entries rs m) k = fold (key_effect k) rs (hm_get m k)"
proof (induction rs arbitrary: m)
  case (Cons r rs)
  have "hm_get (apply_to_entries r m) k = key_effect k r (hm_get m k)"
    by (cases r) (auto simp: key_effect_def split: option.splits)
  with Cons show ?case
    by simp
qed simp

lemma fold_key_effect:
  "(\<exists>c. \<forall>x. fold (key_effect k) rs x = c) \<or> (\<forall>x. fold (key_effect k) rs x = x) \<or>
   (\<exists>to at. \<forall>x. fold (key_effect k) rs x = map_option (\<lambda>e. e\<lparr>te_tier := to, migrated_at := at\<rparr>) x)"
proof (induction rs rule: rev_induct)
  case (snoc r rs)
  then show ?case
    by (cases r) (auto simp: key_effect_def option.map_comp comp_def; metis)+
qed simp

lemma fold_apply_twice:
  "hm_get (fold apply_to_entries rs (fold apply_to_entries rs m)) = hm_get (fold apply_to_entries rs m)"
proof
  fix k
  show "hm_get (fold apply_to_entries rs (fold apply_to_entries rs m)) k = hm_get (fold apply_to_entries rs m) k"
    unfolding fold_apply_get using fold_key_effect [of k rs]
    by (auto simp: option.map_comp comp_def)
qed

section \<open>Properties\<close>

text \<open>
  C6. A completed policy sweep of the durable store is the pointwise specification: exactly the
  entries that have a successor tier, are not from the future and have reached their tier's age
  move one tier forward and are stamped with the time of the sweep; every other entry is
  untouched; the count returned is the number of entries moved.
\<close>

theorem cinder_evaluate_refines:
  assumes "hm_wf (cf_entries s)" and "cinder_evaluate_at ts env now pol s = (Inr n, s')"
  shows "(\<forall>k. cinder_get_entry k s' = (case cinder_get_entry k s of
      None \<Rightarrow> None
    | Some e \<Rightarrow> if te_tier e \<noteq> Cold \<and> migrated_at e \<le> now \<and>
          int (the (threshold_from pol (te_tier e))) \<le> now - migrated_at e
        then Some (e\<lparr>te_tier := the (next_forward (te_tier e)), migrated_at := now\<rparr>) else Some e)) \<and>
    n = card {k. cinder_get_entry k s' \<noteq> cinder_get_entry k s}"
proof -
  have e: "(\<lambda>k. cinder_get_entry k s') = sweep_spec now pol (\<lambda>k. cinder_get_entry k s)"
    "n = card (due_keys now pol (\<lambda>k. cinder_get_entry k s))"
    using cinder_file.evaluate_ok [of s "\<lambda>i. (ts, env i)" now pol n s'] assms by auto
  have g: "cinder_get_entry k s' = map_option (cinder_advance now pol) (cinder_get_entry k s)" for k
    using fun_cong [OF e(1), of k] by (simp add: sweep_spec_def)
  have "{k. cinder_get_entry k s' \<noteq> cinder_get_entry k s} = due_keys now pol (\<lambda>k. cinder_get_entry k s)"
    by (auto simp: due_keys_def g map_option_case cinder_advance_same split: option.splits)
  with e(2) show ?thesis
    unfolding cinder_advance_conv [symmetric] by (simp add: g map_option_case)
qed

text \<open>
  Repeating a sweep at the same time under the same policy moves nothing more, provided both
  thresholds are positive.
\<close>

theorem cinder_evaluate_idempotent:
  assumes "hm_wf (cf_entries s)" and "cinder_evaluate_at ts env now pol s = (Inr n, s1)"
    and "cinder_evaluate_at ts env' now pol s1 = (Inr n', s2)" and "0 < hot_to_warm pol" "0 < warm_to_cold pol"
  shows "n' = 0 \<and> (\<forall>k. cinder_get_entry k s2 = cinder_get_entry k s1)"
  using cinder_file.evaluate_idempotent [of s "\<lambda>i. (ts, env i)" now pol n s1 "\<lambda>i. (ts, env' i)" n' s2] assms
  by (auto dest: fun_cong)

text \<open>
  With a zero threshold the sweep is not idempotent: one hot item moves to warm, and the same
  sweep at the same time moves it on to cold.
\<close>

theorem cinder_evaluate_zero_threshold:
  "let s0 = snd (cinder_mem_place (''t'', ''i'') Hot 0 cinder_mem_new);
       (r1, s1) = cinder_mem_evaluate_at 5 (age_based 5 0) s0;
       (r2, s2) = cinder_mem_evaluate_at 5 (age_based 5 0) s1
   in r1 = Inr 1 \<and> cinder_mem_get_tier (''t'', ''i'') s1 = Some Warm \<and>
      r2 = Inr 1 \<and> cinder_mem_get_tier (''t'', ''i'') s2 = Some Cold"
  by code_simp

text \<open>
  C7. A crash at any point of a sweep over a store that, from an empty directory on, has only seen
  operations that were acknowledged, snapshots and restarts: reopening succeeds and finds the first
  migrations of the sweep made and the rest not, at most one more than the process had applied in memory;
  after a completed sweep it finds all of them. A store opened over a torn tail is not among these: its
  next line is glued to the tail. The truncation of the log by a snapshot counts as on the disk, although
  the store does not sync it.
\<close>

theorem cinder_sweep_crash:
  assumes "cinder_history ts fs tw fr s" and "ds = cinder_to_migrate now pol (cf_entries s)"
    and "list_all (\<lambda>d. serde_ok ts fs (migrate_record now d) \<and> torn_unparsable (line_of ts) fs (migrate_record now d)) ds"
    and "cinder_evaluate_at ts env now pol s = (res, s1)" and "crash_image (cf_wal s1) f"
  shows "\<exists>s' ws i j. cinder_open_with_fsync_backend fs fr (disk_of (cf_dir s1) (open_writer f (length f))) = (Inr s', ws) \<and>
    hm_get (cf_entries s1) = migrated now (take i ds) (hm_get (cf_entries s)) \<and>
    hm_get (cf_entries s') = migrated now (take j ds) (hm_get (cf_entries s)) \<and>
    i \<le> j \<and> j \<le> Suc i \<and> j \<le> length ds \<and> (\<not> isl res \<longrightarrow> i = length ds)"
proof -
  note durable = cinder_history_durable [OF assms(1)]
  obtain sres s2 where sw: "cinder_sweep ts env now ds [] 0 s = (sres, s2)"
    by fastforce
  with assms(2,4) have s1: "cf_entries s1 = cf_entries s2" "cf_wal s1 = cf_wal s2" "cf_dir s1 = cf_dir s2"
    and r: "isl res = isl sres"
    by (auto simp: cinder_evaluate_at_def split: sum.splits)
  have wf: "hm_wf ds"
    using durable assms(2) by (simp add: cinder_durable_def cinder_to_migrate_distinct)
  have "list_all (\<lambda>d. serde_ok ts fs (migrate_record now d)) ds"
    using assms(3) by (simp add: list_all_iff)
  from cinder_sweep_stages [OF wf durable this sw] obtain i
    where i: "i \<le> length ds" "hm_get (cf_entries s2) = migrated now (take i ds) (hm_get (cf_entries s))"
    and c: "if isl sres then i < length ds \<and> cinder_pending ts fs fr (migrate_record now (ds ! i)) s2
       else i = length ds \<and> cinder_durable ts fs fr s2"
    by blast
  show ?thesis
  proof (cases "isl sres")
    case True
    with c assms(3) have il: "i < length ds" and ok: "serde_ok ts fs (migrate_record now (ds ! i))"
      "torn_unparsable (line_of ts) fs (migrate_record now (ds ! i))"
      by (auto simp: list_all_length)
    from True c obtain sd env' e where sd: "cinder_durable ts fs fr sd" "cf_entries sd = cf_entries s2"
      "cf_dir sd = cf_dir s2" "cinder_append_wal ts env' (migrate_record now (ds ! i)) (cf_wal sd) = (Inl e, cf_wal s2)"
      by (auto simp: cinder_pending_def)
    have tk: "take (Suc i) ds = take i ds @ [ds ! i]"
      using il by (rule take_Suc_conv_app_nth)
    have "hm_wf (take (Suc i) ds)"
      using wf by (simp add: hm_wf_def take_map [symmetric])
    from migrated_append [OF this [unfolded tk] i(2)]
    have "hm_get (apply_to_entries (migrate_record now (ds ! i)) (cf_entries sd)) =
        migrated now (take (Suc i) ds) (hm_get (cf_entries s))"
      by (simp add: tk sd(2))
    with cinder_crash [OF sd(1,4) ok, of f] assms(5) s1 i sd(2,3) il True r show ?thesis
      by (metis Suc_leI le_refl lessI less_imp_le)
  next
    case False
    with c have il: "i = length ds" and d: "cinder_durable ts fs fr s2"
      by auto
    have "crash_image (cf_wal s2) f \<Longrightarrow> f = wr_file (cf_wal s2)" "wr_buf (cf_wal s2) = []"
      "wr_synced (cf_wal s2) = length (wr_file (cf_wal s2))"
      using d by (auto simp: cinder_durable_def durable_as_def crash_image_def dest: prefix_full)
    then have "open_writer f (length f) = cf_wal s2"
      using assms(5) s1 by (simp add: open_writer_def)
    with cinder_reopen [OF d] i il s1 show ?thesis
      by (metis le_refl le_SucI order_refl)
  qed
qed

text \<open>
  Unlike an append-only store, Cinder recovers exactly when the log survives the snapshot it
  is contained in: reopening after a snapshot whose truncation did not happen gives back the state
  the snapshot was taken of.
\<close>

theorem cinder_untruncated_snapshot_harmless:
  assumes "cinder_durable ts fs fr s" and "sf_canonical (cf_dir s) = None"
    and "tw (cinder_dump (cf_entries s)) = Inr data" and "fr data = Inr (cinder_dump (cf_entries s))"
    and "cinder_snapshot tw env (real_fsync_file None) s = (Inl e, s1)" and "sf_canonical (cf_dir s1) \<noteq> None"
  shows "\<exists>s'. cinder_open_with_fsync_backend fs fr (disk_of (cf_dir s1) (cf_wal s1)) = (Inr s', []) \<and>
    (\<forall>k. cinder_get_entry k s' = cinder_get_entry k s)"
proof -
  from assms(1,2) obtain rs where rs: "list_all (serde_ok ts fs) rs" "wr_file (cf_wal s) = wal_image (line_of ts) rs"
    "hm_get (fold apply_to_entries rs []) = hm_get (cf_entries s)" and buf: "wr_buf (cf_wal s) = []"
    and wf: "hm_wf (cf_entries s)"
    by (auto simp: cinder_durable_def durable_as_def snapshot_base_def)
  obtain e' trace where t: "pillar_snapshot env (real_fsync_file None) (Inr data) (cf_dir s) (cf_wal s) = (Inl e', trace)"
    and s1: "cf_dir s1 = fst (last trace)" "cf_wal s1 = snd (last trace)"
    using assms(3,5)
    by (cases "fst (pillar_snapshot env (real_fsync_file None) (Inr data) (cf_dir s) (cf_wal s))")
      (auto simp: cinder_snapshot_def split: prod.splits)
  then obtain f where f: "sf_canonical (cf_dir s1) = Some f" "df_bytes f = data" "wr_file (cf_wal s1) = wr_file (cf_wal s)"
    using pillar_snapshot_untruncated [OF t real_fsync.honest assms(2) _ buf] assms(6) by auto
  from cinder_pillar.reopen_untruncated [where from_reader = fr and data = data, OF wf assms(4) f(1,2) rs(1)
      f(3) [unfolded rs(2)], of cinder_io cinder_parse "[]" "''cinder''"
      "\<lambda>line err. CinderPersistenceFailed (wal_parse_reason line err)"]
  obtain m w d where o: "cinder_pillar_open fs fr (disk_of (cf_dir s1) (cf_wal s1)) = (Inr (m, w, d), [])"
    and "hm_get m = hm_get (fold apply_to_entries rs (cf_entries s))"
    by blast
  then have "hm_get m = hm_get (cf_entries s)"
    using cinder_pillar.fold_live_cong [OF rs(3), of rs] fold_apply_twice [of rs "[]"] rs(3) by simp
  with cinder_open_Inr [OF o] show ?thesis
    by (auto simp: cinder_get_entry_def)
qed

text \<open>
  A placement refused because the final fsync failed leaves memory as it was, but its line is
  already in the log: the next open shows the placement that was refused.
\<close>

theorem cinder_refused_place_reappears:
  assumes "cinder_durable ts fs fr s" and "serde_ok ts fs (CinderWalPlace (fst k) (snd k) tier at)"
    and "io_fsync_error env = Some e" and "length (line_of ts (CinderWalPlace (fst k) (snd k) tier at)) < io_room env"
  shows "\<exists>s1 s'. cinder_place ts env k tier at s = (Inl (cinder_io e), s1) \<and>
    (\<forall>k'. cinder_get_entry k' s1 = cinder_get_entry k' s) \<and>
    cinder_open_with_fsync_backend fs fr (disk_of (cf_dir s1) (cf_wal s1)) = (Inr s', []) \<and>
    cinder_get_entry k s' = Some \<lparr>te_tier = tier, placed_at = at, migrated_at = at\<rparr>"
proof -
  let ?r = "CinderWalPlace (fst k) (snd k) tier at"
  have line: "ts ?r = Inr (line_of ts ?r)"
    by (rule serde_ok_line [OF assms(2)])
  have buf: "wr_buf (cf_wal s) = []"
    using assms(1) by (simp add: cinder_durable_def durable_as_def)
  obtain w where a: "cinder_append_wal ts env ?r (cf_wal s) = (Inl (cinder_io e), w)"
    and w: "wr_file w = wr_file (cf_wal s) @ line_of ts ?r @ [newline]" "wr_buf w = []"
    using append_wal_fsync_failed [where ts = ts and r = ?r, OF line buf assms(4,3), of cinder_parse cinder_io]
    by (auto simp: cinder_append_wal_def)
  define s1 where "s1 = s\<lparr>cf_wal := w\<rparr>"
  have p: "cinder_place ts env k tier at s = (Inl (cinder_io e), s1)"
    using a by (simp add: cinder_place_def s1_def)
  have a': "append_wal ts cinder_parse cinder_io (env\<lparr>io_fsync_error := None\<rparr>) ?r (cf_wal s) =
      (Inr (), w\<lparr>wr_synced := length (wr_file w)\<rparr>)"
    using append_wal_succeeds [where ts = ts and r = ?r, OF line buf, of "env\<lparr>io_fsync_error := None\<rparr>" cinder_parse cinder_io] assms(4) w
    by simp
  define sd where "sd = s1\<lparr>cf_wal := w\<lparr>wr_synced := length (wr_file w)\<rparr>, cf_entries := apply_to_entries ?r (cf_entries s)\<rparr>"
  have "cinder_durable ts fs fr sd"
    by (rule cinder_durable_append [OF assms(1) a' [folded cinder_append_wal_def] assms(2)])
      (use assms(1) in \<open>auto simp: sd_def s1_def cinder_durable_def\<close>)
  from cinder_reopen_bytes [OF this, of w] obtain s' where
    "cinder_open_with_fsync_backend fs fr (disk_of (cf_dir sd) w) = (Inr s', [])"
    "hm_get (cf_entries s') = hm_get (cf_entries sd)"
    by (auto simp: sd_def)
  with p show ?thesis
    by (auto simp: cinder_get_entry_def sd_def s1_def)
qed

section \<open>A concrete store\<close>

definition cx_place :: cinder_wal_record where "cx_place = CinderWalPlace ''t'' ''i'' Hot 0"

definition cx_migrate :: cinder_wal_record where "cx_migrate = CinderWalMigrate ''t'' ''i'' Warm 5"

definition cx_to_string :: "cinder_wal_record \<Rightarrow> string + string" where
  "cx_to_string r = (if r = cx_place then Inr ''pl'' else if r = cx_migrate then Inr ''mi'' else Inl ''unsupported'')"

definition cx_from_str :: "string \<Rightarrow> string + cinder_wal_record" where
  "cx_from_str l = (if l = ''pl'' then Inr cx_place else if l = ''mi'' then Inr cx_migrate else Inl ''expected value'')"

definition cx_entry :: tier_entry where
  "cx_entry = \<lparr>te_tier = Hot, placed_at = 0, migrated_at = 0\<rparr>"

definition cx_to_writer :: "cinder_snapshot_doc \<Rightarrow> (string \<times> string) + string" where
  "cx_to_writer doc = (if doc = [(''t'', ''i'', cx_entry)] then Inr ''s'' else Inl (''unsupported'', []))"

definition cx_from_reader :: "string \<Rightarrow> string + cinder_snapshot_doc" where
  "cx_from_reader b = (if b = ''s'' then Inr [(''t'', ''i'', cx_entry)] else Inl ''expected value'')"

definition cx_io :: append_io where
  "cx_io = \<lparr>io_room = 100, io_write_error = [], io_fsync_error = None\<rparr>"

definition cx_empty :: cinder_file where
  "cx_empty = \<lparr>cf_entries = [], cf_wal = \<lparr>wr_file = [], wr_buf = [], wr_synced = 0\<rparr>,
     cf_dir = \<lparr>sf_canonical = None, sf_tmp = None, sf_undo = None\<rparr>, cf_events = []\<rparr>"

definition cx_store :: cinder_file where
  "cx_store = \<lparr>cf_entries = [((''t'', ''i''), cx_entry)],
     cf_wal = \<lparr>wr_file = ''pl'' @ [newline], wr_buf = [], wr_synced = 3\<rparr>,
     cf_dir = \<lparr>sf_canonical = None, sf_tmp = None, sf_undo = None\<rparr>, cf_events = []\<rparr>"

definition cx_snapshot_io :: snapshot_io where
  "cx_snapshot_io = \<lparr>si_flush_room = 100, si_flush_error = [], si_snap = \<lparr>sn_open_error = None, sn_room = 100,
     sn_write_error = [], sn_rename_error = None, sn_dir_error = None\<rparr>, si_truncate_error = Some ''Permission denied''\<rparr>"

lemmas cx_defs = cx_place_def cx_migrate_def cx_to_string_def cx_from_str_def cx_to_writer_def cx_from_reader_def
  cx_io_def cx_empty_def cx_store_def cx_snapshot_io_def cx_entry_def

lemma cx_serde:
  "serde_ok cx_to_string cx_from_str cx_place" "serde_ok cx_to_string cx_from_str cx_migrate"
  "torn_unparsable (line_of cx_to_string) cx_from_str cx_migrate"
  by code_simp+

lemma cx_durable: "cinder_durable cx_to_string cx_from_str cx_from_reader cx_empty"
    "cinder_durable cx_to_string cx_from_str cx_from_reader cx_store"
proof -
  show "cinder_durable cx_to_string cx_from_str cx_from_reader cx_empty"
    unfolding cinder_durable_def durable_as_def
    by (auto simp: cx_empty_def snapshot_base_def intro!: exI [of _ "[]"])
  have "line_of cx_to_string cx_place = ''pl''"
    by (simp add: line_of_def cx_to_string_def)
  then show "cinder_durable cx_to_string cx_from_str cx_from_reader cx_store"
    using cx_serde(1) unfolding cinder_durable_def durable_as_def
    by (auto simp: cx_store_def snapshot_base_def hm_wf_def cx_place_def cx_entry_def intro!: exI [of _ "[cx_place]"])
qed

lemma cx_store_wf: "hm_wf (cf_entries cx_store)"
  by (simp add: cx_store_def hm_wf_def)

lemma cx_sweep:
  "cinder_evaluate_at cx_to_string (\<lambda>_. cx_io) 5 (age_based 5 5) cx_store = (Inr 1,
     \<lparr>cf_entries = [((''t'', ''i''), \<lparr>te_tier = Warm, placed_at = 0, migrated_at = 5\<rparr>)],
      cf_wal = \<lparr>wr_file = ''pl\<newline>mi\<newline>'', wr_buf = [], wr_synced = 6\<rparr>,
      cf_dir = \<lparr>sf_canonical = None, sf_tmp = None, sf_undo = None\<rparr>,
      cf_events = [CinderMigrate ''t'' Hot Warm, CinderEvaluate ''t'' 1]\<rparr>)"
  by code_simp

lemma cx_sweep_again:
  "cinder_evaluate_at cx_to_string (\<lambda>_. cx_io) 5 (age_based 5 5)
     (snd (cinder_evaluate_at cx_to_string (\<lambda>_. cx_io) 5 (age_based 5 5) cx_store)) =
   (Inr 0, \<lparr>cf_entries = [((''t'', ''i''), \<lparr>te_tier = Warm, placed_at = 0, migrated_at = 5\<rparr>)],
      cf_wal = \<lparr>wr_file = ''pl\<newline>mi\<newline>'', wr_buf = [], wr_synced = 6\<rparr>,
      cf_dir = \<lparr>sf_canonical = None, sf_tmp = None, sf_undo = None\<rparr>,
      cf_events = [CinderMigrate ''t'' Hot Warm, CinderEvaluate ''t'' 1]\<rparr>)"
  by code_simp

theorem cinder_evaluate_refines_witness:
  "fst (cinder_evaluate_at cx_to_string (\<lambda>_. cx_io) 5 (age_based 5 5) cx_store) = Inr 1 \<and>
   1 = card {k. cinder_get_entry k (snd (cinder_evaluate_at cx_to_string (\<lambda>_. cx_io) 5 (age_based 5 5) cx_store))
     \<noteq> cinder_get_entry k cx_store}"
  unfolding cx_sweep using cinder_evaluate_refines [OF cx_store_wf cx_sweep] by simp

theorem cinder_evaluate_idempotent_witness:
  "cinder_get_tier (''t'', ''i'') (snd (cinder_evaluate_at cx_to_string (\<lambda>_. cx_io) 5 (age_based 5 5)
     (snd (cinder_evaluate_at cx_to_string (\<lambda>_. cx_io) 5 (age_based 5 5) cx_store)))) = Some Warm"
  using cinder_evaluate_idempotent [OF cx_store_wf cx_sweep cx_sweep_again [unfolded cx_sweep snd_conv]]
  unfolding cx_sweep_again by (simp add: age_based_def cinder_get_tier_def cinder_get_entry_def)

lemma cx_history: "cinder_history cx_to_string cx_from_str cx_to_writer cx_from_reader (cx_store\<lparr>cf_events := [CinderPlace ''t'' Hot]\<rparr>)"
proof (rule placed [OF created])
  show "cinder_open_with_fsync_backend cx_from_str cx_from_reader \<lparr>sd_snapshot = Absent, sd_wal = Absent, sd_append_error = None\<rparr> =
      (Inr cx_empty, [])"
    by (simp add: cinder_open_with_fsync_backend_def pillar_open_def open_writer_def snap_fs_of_def cx_empty_def)
  show "cinder_place cx_to_string cx_io (''t'', ''i'') Hot 0 cx_empty = (Inr (), cx_store\<lparr>cf_events := [CinderPlace ''t'' Hot]\<rparr>)"
    by code_simp
qed (use cx_serde(1) in \<open>simp add: cx_place_def\<close>)

lemma cx_sweep_placed:
  "cinder_evaluate_at cx_to_string (\<lambda>_. cx_io) 5 (age_based 5 5) (cx_store\<lparr>cf_events := [CinderPlace ''t'' Hot]\<rparr>) = (Inr 1,
     \<lparr>cf_entries = [((''t'', ''i''), \<lparr>te_tier = Warm, placed_at = 0, migrated_at = 5\<rparr>)],
      cf_wal = \<lparr>wr_file = ''pl\<newline>mi\<newline>'', wr_buf = [], wr_synced = 6\<rparr>,
      cf_dir = \<lparr>sf_canonical = None, sf_tmp = None, sf_undo = None\<rparr>,
      cf_events = [CinderPlace ''t'' Hot, CinderMigrate ''t'' Hot Warm, CinderEvaluate ''t'' 1]\<rparr>)"
  by code_simp

theorem cinder_sweep_crash_witness:
  "\<exists>s' ws j. cinder_open_with_fsync_backend cx_from_str cx_from_reader
      (disk_of \<lparr>sf_canonical = None, sf_tmp = None, sf_undo = None\<rparr> (open_writer ''pl\<newline>mi\<newline>'' 6)) = (Inr s', ws) \<and>
    hm_get (cf_entries s') = migrated 5 (take j [((''t'', ''i''), Hot, Warm)]) (hm_get (cf_entries cx_store)) \<and> j = 1"
proof -
  have ds: "[((''t'', ''i''), Hot, Warm)] =
      cinder_to_migrate 5 (age_based 5 5) (cf_entries (cx_store\<lparr>cf_events := [CinderPlace ''t'' Hot]\<rparr>))"
    by code_simp
  have "crash_image \<lparr>wr_file = ''pl\<newline>mi\<newline>'', wr_buf = [], wr_synced = 6\<rparr> ''pl\<newline>mi\<newline>''"
    by (simp add: crash_image_def)
  then show ?thesis
    using cinder_sweep_crash [OF cx_history ds _ cx_sweep_placed, of "''pl\<newline>mi\<newline>''"] cx_serde(2,3)
    by (auto simp: migrate_record_def cx_migrate_def eval_nat_numeral)
qed

theorem cinder_untruncated_snapshot_harmless_witness:
  "\<exists>s'. cinder_open_with_fsync_backend cx_from_str cx_from_reader
      (disk_of \<lparr>sf_canonical = Some \<lparr>df_bytes = ''s'', df_synced = 1\<rparr>, sf_tmp = None, sf_undo = None\<rparr>
         (cf_wal cx_store)) = (Inr s', []) \<and>
    cinder_get_entry (''t'', ''i'') s' = Some cx_entry"
proof -
  have "cinder_snapshot cx_to_writer cx_snapshot_io (real_fsync_file None) cx_store =
    (Inl (cinder_io ''Permission denied''), cx_store
       \<lparr>cf_dir := \<lparr>sf_canonical = Some \<lparr>df_bytes = ''s'', df_synced = 1\<rparr>, sf_tmp = None, sf_undo = None\<rparr>\<rparr>)"
    by (simp add: cinder_snapshot_def pillar_snapshot_def atomic_write_snapshot_def flush_buf_def file_write_all_def
        real_fsync_file_def cinder_dump_def cx_defs Let_def)
  from cinder_untruncated_snapshot_harmless [where data = "''s''", OF cx_durable(2) _ _ _ this] show ?thesis
    by (auto simp: cx_defs cinder_dump_def cinder_get_entry_def)
qed

theorem cinder_refused_place_reappears_witness:
  "\<exists>s1 s'. cinder_place cx_to_string (cx_io\<lparr>io_fsync_error := Some ''EIO''\<rparr>) (''t'', ''i'') Hot 0 cx_empty =
      (Inl (cinder_io ''EIO''), s1) \<and> cinder_get_entry (''t'', ''i'') s1 = None \<and>
    cinder_open_with_fsync_backend cx_from_str cx_from_reader (disk_of (cf_dir s1) (cf_wal s1)) = (Inr s', []) \<and>
    cinder_get_entry (''t'', ''i'') s' = Some cx_entry"
proof -
  have "cinder_get_entry k cx_empty = None" for k
    by (simp add: cinder_get_entry_def cx_empty_def)
  then show ?thesis
    using cinder_refused_place_reappears [OF cx_durable(1), of "(''t'', ''i'')" Hot 0
        "cx_io\<lparr>io_fsync_error := Some ''EIO''\<rparr>" "''EIO''"] cx_serde(1)
    by (auto simp: cx_place_def cx_entry_def cx_io_def line_of_def cx_to_string_def)
qed

end
