(* ===== verification/Sluice_Queue.thy ===== *)
theory Sluice_Queue
  imports Wal_Pillar
begin

text \<open>
  Sluice, the durable queue (\<open>crates/sluice/src\<close>): messages, the in-memory adapter, the hex codec of
  the log and the file-backed adapter with its strict replay. A formatted error reason is the
  datatype \<open>sluice_reason\<close> of what the code formats into it.
\<close>

section \<open>Messages and state (\<open>queue.rs\<close>)\<close>

type_synonym message_id = u64

record message =
  msg_id :: message_id
  msg_tenant :: tenant_id
  msg_payload :: "u8 list"

datatype sluice_reason =
  SluiceIo string | SluiceParse string | SluiceWalParse nat string string | OddHexLength nat | BadHexDigit u8

datatype enqueue_error = Full tenant_id nat | SluicePersistenceFailed sluice_reason

datatype sluice_event =
  SluiceEnqueue tenant_id bool | SluiceDequeue tenant_id | SluiceAck tenant_id | SluiceNack tenant_id

record sluice_state =
  next_id :: u64
  pending :: "(tenant_id, message list) hash_map"
  in_flight :: "(message_id, message) hash_map"
  total :: nat

definition sluice_state_default :: sluice_state where
  "sluice_state_default = \<lparr>next_id = 0, pending = [], in_flight = [], total = 0\<rparr>"

text \<open>\<open>pending.entry(tenant).or_default()\<close>.\<close>

definition sluice_entry :: "tenant_id \<Rightarrow> sluice_state \<Rightarrow> sluice_state" where
  "sluice_entry tenant s = s\<lparr>pending := hm_insert tenant (hm_get_or [] (pending s) tenant) (pending s)\<rparr>"

definition sluice_push_back :: "message \<Rightarrow> sluice_state \<Rightarrow> sluice_state" where
  "sluice_push_back m s =
     s\<lparr>pending := hm_insert (msg_tenant m) (hm_get_or [] (pending s) (msg_tenant m) @ [m]) (pending s)\<rparr>"

definition sluice_push_front :: "message \<Rightarrow> sluice_state \<Rightarrow> sluice_state" where
  "sluice_push_front m s =
     s\<lparr>pending := hm_insert (msg_tenant m) (m # hm_get_or [] (pending s) (msg_tenant m)) (pending s)\<rparr>"

text \<open>\<open>pop_front\<close> of a tenant's non-empty queue, dropping the queue when it becomes empty.\<close>

definition sluice_pop_front :: "tenant_id \<Rightarrow> sluice_state \<Rightarrow> sluice_state" where
  "sluice_pop_front tenant s =
     (let q = tl (hm_get_or [] (pending s) tenant) in
      s\<lparr>pending := (if q = [] then hm_remove tenant (pending s) else hm_insert tenant q (pending s))\<rparr>)"

section \<open>The in-memory adapter (\<open>queue.rs\<close>)\<close>

record sluice_mem =
  sm_cap :: nat
  sm_state :: sluice_state
  sm_events :: "sluice_event list"

definition sluice_mem_new :: "nat \<Rightarrow> sluice_mem" where
  "sluice_mem_new cap = \<lparr>sm_cap = cap, sm_state = sluice_state_default, sm_events = []\<rparr>"

definition sluice_mem_enqueue ::
  "tenant_id \<Rightarrow> u8 list \<Rightarrow> sluice_mem \<Rightarrow> (enqueue_error + message_id) \<times> sluice_mem" where
  "sluice_mem_enqueue tenant payload q =
     (let st = sluice_entry tenant (sm_state q) in
      if length (hm_get_or [] (pending st) tenant) \<ge> sm_cap q then
        (Inl (Full tenant (sm_cap q)),
         q\<lparr>sm_state := st, sm_events := sm_events q @ [SluiceEnqueue tenant False]\<rparr>)
      else
        let mid = next_id st + 1;
            st1 = sluice_push_back \<lparr>msg_id = mid, msg_tenant = tenant, msg_payload = payload\<rparr> (st\<lparr>next_id := mid\<rparr>)
        in (Inr mid, q\<lparr>sm_state := st1\<lparr>total := total st1 + 1\<rparr>,
                      sm_events := sm_events q @ [SluiceEnqueue tenant True]\<rparr>))"

definition sluice_mem_dequeue ::
  "tenant_id \<Rightarrow> sluice_mem \<Rightarrow> (enqueue_error + message option) \<times> sluice_mem" where
  "sluice_mem_dequeue tenant q =
     (case hm_get (pending (sm_state q)) tenant of
        None \<Rightarrow> (Inr None, q)
      | Some [] \<Rightarrow> (Inr None, q)
      | Some (m # _) \<Rightarrow>
          let st = sluice_pop_front tenant (sm_state q) in
          (Inr (Some m),
           q\<lparr>sm_state := st\<lparr>total := total st - 1, in_flight := hm_insert (msg_id m) m (in_flight st)\<rparr>,
             sm_events := sm_events q @ [SluiceDequeue tenant]\<rparr>))"

definition sluice_mem_ack :: "message_id \<Rightarrow> sluice_mem \<Rightarrow> (enqueue_error + unit) \<times> sluice_mem" where
  "sluice_mem_ack mid q =
     (case hm_get (in_flight (sm_state q)) mid of
        None \<Rightarrow> (Inr (), q)
      | Some m \<Rightarrow>
          (Inr (), q\<lparr>sm_state := (sm_state q)\<lparr>in_flight := hm_remove mid (in_flight (sm_state q))\<rparr>,
                     sm_events := sm_events q @ [SluiceAck (msg_tenant m)]\<rparr>))"

definition sluice_mem_nack :: "message_id \<Rightarrow> sluice_mem \<Rightarrow> (enqueue_error + unit) \<times> sluice_mem" where
  "sluice_mem_nack mid q =
     (case hm_get (in_flight (sm_state q)) mid of
        None \<Rightarrow> (Inr (), q)
      | Some m \<Rightarrow>
          let st = sluice_push_front m ((sm_state q)\<lparr>in_flight := hm_remove mid (in_flight (sm_state q))\<rparr>) in
          (Inr (), q\<lparr>sm_state := st\<lparr>total := total st + 1\<rparr>,
                     sm_events := sm_events q @ [SluiceNack (msg_tenant m)]\<rparr>))"

definition sluice_state_depth :: "tenant_id \<Rightarrow> sluice_state \<Rightarrow> nat" where
  "sluice_state_depth tenant s = (case hm_get (pending s) tenant of None \<Rightarrow> 0 | Some q \<Rightarrow> length q)"

definition sluice_mem_depth :: "tenant_id \<Rightarrow> sluice_mem \<Rightarrow> nat" where
  "sluice_mem_depth tenant q = sluice_state_depth tenant (sm_state q)"

definition sluice_mem_total_depth :: "sluice_mem \<Rightarrow> nat" where
  "sluice_mem_total_depth q = total (sm_state q)"

section \<open>The hex codec (\<open>file_backed.rs\<close>)\<close>

definition hex_char :: "u8 \<Rightarrow> char" where
  "hex_char nibble = (if nibble \<le> 9 then char_of (unat (48 + nibble)) else char_of (unat (97 + nibble - 10)))"

fun encode_hex :: "u8 list \<Rightarrow> string" where
  "encode_hex [] = []"
| "encode_hex (b # bs) =
     hex_char (and (drop_bit 4 b) 15) # hex_char (and b 15) # encode_hex bs"

definition hex_value :: "u8 \<Rightarrow> enqueue_error + u8" where
  "hex_value b =
     (if 48 \<le> b \<and> b \<le> 57 then Inr (b - 48)
      else if 97 \<le> b \<and> b \<le> 102 then Inr (b - 97 + 10)
      else if 65 \<le> b \<and> b \<le> 70 then Inr (b - 65 + 10)
      else Inl (SluicePersistenceFailed (BadHexDigit b)))"

fun decode_hex_pairs :: "string \<Rightarrow> enqueue_error + u8 list" where
  "decode_hex_pairs (h # l # rest) =
     (case hex_value (of_char h) of
        Inl e \<Rightarrow> Inl e
      | Inr hi \<Rightarrow>
        (case hex_value (of_char l) of
           Inl e \<Rightarrow> Inl e
         | Inr lo \<Rightarrow> map_sum id (\<lambda>out. or (push_bit 4 hi) lo # out) (decode_hex_pairs rest)))"
| "decode_hex_pairs _ = Inr []"

definition decode_hex :: "string \<Rightarrow> enqueue_error + u8 list" where
  "decode_hex s =
     (if length s mod 2 \<noteq> 0 then Inl (SluicePersistenceFailed (OddHexLength (length s)))
      else decode_hex_pairs s)"

section \<open>The file-backed adapter (\<open>file_backed.rs\<close>)\<close>

datatype sluice_wal_record =
  SluiceWalEnqueue u64 tenant_id string | SluiceWalDequeue u64 | SluiceWalAck u64 | SluiceWalNack u64

record message_snapshot =
  ms_id :: u64
  ms_tenant :: tenant_id
  ms_payload_hex :: string

record sluice_snapshot_doc =
  sd_next_id :: u64
  sd_pending :: "(tenant_id \<times> message_snapshot list) list"
  sd_in_flight :: "message_snapshot list"

record sluice_file =
  sq_cap :: nat
  sq_state :: sluice_state
  sq_wal :: wal_writer
  sq_dir :: snap_fs
  sq_events :: "sluice_event list"

definition sluice_io :: "string \<Rightarrow> enqueue_error" where
  "sluice_io e = SluicePersistenceFailed (SluiceIo e)"

definition sluice_parse :: "string \<Rightarrow> enqueue_error" where
  "sluice_parse e = SluicePersistenceFailed (SluiceParse e)"

definition sluice_append_wal ::
  "(sluice_wal_record \<Rightarrow> string + string) \<Rightarrow> append_io \<Rightarrow> sluice_wal_record \<Rightarrow> wal_writer \<Rightarrow>
   (enqueue_error + unit) \<times> wal_writer" where
  "sluice_append_wal to_string = append_wal to_string sluice_parse sluice_io"

text \<open>\<open>q.iter().position(..)\<close> and \<open>q.remove(pos)\<close>: the first message with the id, and the rest.\<close>

fun sluice_remove_id :: "message_id \<Rightarrow> message list \<Rightarrow> (message \<times> message list) option" where
  "sluice_remove_id mid [] = None"
| "sluice_remove_id mid (m # q) =
     (if msg_id m = mid then Some (m, q)
      else map_option (\<lambda>(found, rest). (found, m # rest)) (sluice_remove_id mid q))"

text \<open>The scan over all tenants: the first queue with the id, and the map with it shortened.\<close>

fun sluice_find_pending ::
  "message_id \<Rightarrow> (tenant_id, message list) hash_map \<Rightarrow>
   (tenant_id \<times> message \<times> (tenant_id, message list) hash_map) option" where
  "sluice_find_pending mid [] = None"
| "sluice_find_pending mid ((tenant, q) # rest) =
     (case sluice_remove_id mid q of
        Some (m, q') \<Rightarrow> Some (tenant, m, (tenant, q') # rest)
      | None \<Rightarrow> map_option (\<lambda>(t, m, rest'). (t, m, (tenant, q) # rest')) (sluice_find_pending mid rest))"

fun sluice_apply_record :: "sluice_wal_record \<Rightarrow> sluice_state \<Rightarrow> (enqueue_error + unit) \<times> sluice_state" where
  "sluice_apply_record (SluiceWalEnqueue mid tenant payload_hex) s =
     (let s1 = (if next_id s < mid then s\<lparr>next_id := mid\<rparr> else s) in
      case decode_hex payload_hex of
        Inl e \<Rightarrow> (Inl e, s1)
      | Inr payload \<Rightarrow> (Inr (), sluice_push_back \<lparr>msg_id = mid, msg_tenant = tenant, msg_payload = payload\<rparr> s1))"
| "sluice_apply_record (SluiceWalDequeue mid) s =
     (case sluice_find_pending mid (pending s) of
        None \<Rightarrow> (Inr (), s)
      | Some (tenant, m, pending') \<Rightarrow>
          (Inr (), s\<lparr>pending := (if hm_get pending' tenant = Some [] then hm_remove tenant pending' else pending'),
                     in_flight := hm_insert mid m (in_flight s)\<rparr>))"
| "sluice_apply_record (SluiceWalAck mid) s = (Inr (), s\<lparr>in_flight := hm_remove mid (in_flight s)\<rparr>)"
| "sluice_apply_record (SluiceWalNack mid) s =
     (case hm_get (in_flight s) mid of
        None \<Rightarrow> (Inr (), s)
      | Some m \<Rightarrow> (Inr (), sluice_push_front m (s\<lparr>in_flight := hm_remove mid (in_flight s)\<rparr>)))"

definition sluice_snap_message :: "message \<Rightarrow> message_snapshot" where
  "sluice_snap_message m =
     \<lparr>ms_id = msg_id m, ms_tenant = msg_tenant m, ms_payload_hex = encode_hex (msg_payload m)\<rparr>"

definition sluice_load_message :: "message_snapshot \<Rightarrow> enqueue_error + message" where
  "sluice_load_message m =
     map_sum id (\<lambda>payload. \<lparr>msg_id = ms_id m, msg_tenant = ms_tenant m, msg_payload = payload\<rparr>)
       (decode_hex (ms_payload_hex m))"

fun sluice_load_messages :: "message_snapshot list \<Rightarrow> enqueue_error + message list" where
  "sluice_load_messages [] = Inr []"
| "sluice_load_messages (m # ms) =
     (case sluice_load_message m of
        Inl e \<Rightarrow> Inl e
      | Inr msg \<Rightarrow> map_sum id (\<lambda>rest. msg # rest) (sluice_load_messages ms))"

fun sluice_load_pending ::
  "(tenant_id \<times> message_snapshot list) list \<Rightarrow> (tenant_id, message list) hash_map \<Rightarrow>
   enqueue_error + (tenant_id, message list) hash_map" where
  "sluice_load_pending [] m = Inr m"
| "sluice_load_pending ((tenant, ms) # rest) m =
     (case sluice_load_messages ms of
        Inl e \<Rightarrow> Inl e
      | Inr q \<Rightarrow> sluice_load_pending rest (hm_insert tenant q m))"

definition sluice_load_snapshot :: "sluice_snapshot_doc \<Rightarrow> enqueue_error + sluice_state" where
  "sluice_load_snapshot snap =
     (case sluice_load_pending (sd_pending snap) [] of
        Inl e \<Rightarrow> Inl e
      | Inr p \<Rightarrow>
        (case sluice_load_messages (sd_in_flight snap) of
           Inl e \<Rightarrow> Inl e
         | Inr ms \<Rightarrow>
           Inr \<lparr>next_id = sd_next_id snap, pending = p,
                in_flight = fold (\<lambda>m f. hm_insert (msg_id m) m f) ms [], total = 0\<rparr>))"

definition sluice_dump :: "sluice_state \<Rightarrow> sluice_snapshot_doc" where
  "sluice_dump s =
     \<lparr>sd_next_id = next_id s,
      sd_pending = map (\<lambda>(tenant, q). (tenant, map sluice_snap_message q)) (pending s),
      sd_in_flight = map (\<lambda>(_, m). sluice_snap_message m) (in_flight s)\<rparr>"

definition sluice_count :: "sluice_state \<Rightarrow> sluice_state" where
  "sluice_count s = s\<lparr>total := sum_list (map (\<lambda>(_, q). length q) (pending s))\<rparr>"

definition sluice_replay ::
  "(string \<Rightarrow> string + sluice_wal_record) \<Rightarrow> string \<Rightarrow> sluice_state \<Rightarrow>
   (enqueue_error + unit) \<times> sluice_state \<times> wal_warning list" where
  "sluice_replay from_str bytes s =
     (case replay_buf_lines from_str sluice_apply_record
             (\<lambda>line e raw. SluicePersistenceFailed (SluiceWalParse line e raw)) sluice_io 0
             (buf_read_lines bytes) s of
        (res, s') \<Rightarrow> (res, s', []))"

definition sluice_open_with_fsync_backend ::
  "(string \<Rightarrow> string + sluice_wal_record) \<Rightarrow> (string \<Rightarrow> string + sluice_snapshot_doc) \<Rightarrow> nat \<Rightarrow> store_disk \<Rightarrow>
   enqueue_error + sluice_file" where
  "sluice_open_with_fsync_backend from_str from_reader cap disk =
     (case fst (pillar_open sluice_io sluice_parse from_reader sluice_load_snapshot sluice_state_default
             (sluice_replay from_str) sluice_count disk) of
        Inl e \<Rightarrow> Inl e
      | Inr (st, wal, dir) \<Rightarrow>
          Inr \<lparr>sq_cap = cap, sq_state = st, sq_wal = wal, sq_dir = dir, sq_events = []\<rparr>)"

definition sluice_snapshot ::
  "(sluice_snapshot_doc \<Rightarrow> (string \<times> string) + string) \<Rightarrow> snapshot_io \<Rightarrow> fsync_fn \<Rightarrow> sluice_file \<Rightarrow>
   (enqueue_error + unit) \<times> sluice_file" where
  "sluice_snapshot to_writer env fsync_file q =
     (case pillar_snapshot env fsync_file (to_writer (sluice_dump (sq_state q))) (sq_dir q) (sq_wal q) of
        (res, trace) \<Rightarrow>
          (map_sum sluice_io id res, q\<lparr>sq_dir := fst (last trace), sq_wal := snd (last trace)\<rparr>))"

definition sluice_enqueue ::
  "(sluice_wal_record \<Rightarrow> string + string) \<Rightarrow> append_io \<Rightarrow> tenant_id \<Rightarrow> u8 list \<Rightarrow> sluice_file \<Rightarrow>
   (enqueue_error + message_id) \<times> sluice_file" where
  "sluice_enqueue to_string env tenant payload q =
     (let st = sluice_entry tenant (sq_state q) in
      if length (hm_get_or [] (pending st) tenant) \<ge> sq_cap q then
        (Inl (Full tenant (sq_cap q)),
         q\<lparr>sq_state := st, sq_events := sq_events q @ [SluiceEnqueue tenant False]\<rparr>)
      else
        let mid = next_id st + 1;
            st1 = st\<lparr>next_id := mid\<rparr> in
        case sluice_append_wal to_string env (SluiceWalEnqueue mid tenant (encode_hex payload)) (sq_wal q) of
          (Inl e, w) \<Rightarrow> (Inl e, q\<lparr>sq_state := st1, sq_wal := w\<rparr>)
        | (Inr _, w) \<Rightarrow>
            let st2 = sluice_push_back \<lparr>msg_id = mid, msg_tenant = tenant, msg_payload = payload\<rparr> st1 in
            (Inr mid, q\<lparr>sq_state := st2\<lparr>total := total st2 + 1\<rparr>, sq_wal := w,
                       sq_events := sq_events q @ [SluiceEnqueue tenant True]\<rparr>))"

definition sluice_dequeue ::
  "(sluice_wal_record \<Rightarrow> string + string) \<Rightarrow> append_io \<Rightarrow> tenant_id \<Rightarrow> sluice_file \<Rightarrow>
   (enqueue_error + message option) \<times> sluice_file" where
  "sluice_dequeue to_string env tenant q =
     (case hm_get (pending (sq_state q)) tenant of
        None \<Rightarrow> (Inr None, q)
      | Some [] \<Rightarrow> (Inr None, q)
      | Some (m # _) \<Rightarrow>
          (case sluice_append_wal to_string env (SluiceWalDequeue (msg_id m)) (sq_wal q) of
             (Inl e, w) \<Rightarrow> (Inl e, q\<lparr>sq_wal := w\<rparr>)
           | (Inr _, w) \<Rightarrow>
               let st = sluice_pop_front tenant (sq_state q) in
               (Inr (Some m),
                q\<lparr>sq_state := st\<lparr>total := total st - 1, in_flight := hm_insert (msg_id m) m (in_flight st)\<rparr>,
                  sq_wal := w, sq_events := sq_events q @ [SluiceDequeue tenant]\<rparr>)))"

definition sluice_ack ::
  "(sluice_wal_record \<Rightarrow> string + string) \<Rightarrow> append_io \<Rightarrow> message_id \<Rightarrow> sluice_file \<Rightarrow>
   (enqueue_error + unit) \<times> sluice_file" where
  "sluice_ack to_string env mid q =
     (case hm_get (in_flight (sq_state q)) mid of
        None \<Rightarrow> (Inr (), q)
      | Some m \<Rightarrow>
          (case sluice_append_wal to_string env (SluiceWalAck mid) (sq_wal q) of
             (Inl e, w) \<Rightarrow> (Inl e, q\<lparr>sq_wal := w\<rparr>)
           | (Inr _, w) \<Rightarrow>
               (Inr (), q\<lparr>sq_state := (sq_state q)\<lparr>in_flight := hm_remove mid (in_flight (sq_state q))\<rparr>,
                          sq_wal := w, sq_events := sq_events q @ [SluiceAck (msg_tenant m)]\<rparr>)))"

definition sluice_nack ::
  "(sluice_wal_record \<Rightarrow> string + string) \<Rightarrow> append_io \<Rightarrow> message_id \<Rightarrow> sluice_file \<Rightarrow>
   (enqueue_error + unit) \<times> sluice_file" where
  "sluice_nack to_string env mid q =
     (case hm_get (in_flight (sq_state q)) mid of
        None \<Rightarrow> (Inr (), q)
      | Some m \<Rightarrow>
          (case sluice_append_wal to_string env (SluiceWalNack mid) (sq_wal q) of
             (Inl e, w) \<Rightarrow> (Inl e, q\<lparr>sq_wal := w\<rparr>)
           | (Inr _, w) \<Rightarrow>
               let st = sluice_push_front m ((sq_state q)\<lparr>in_flight := hm_remove mid (in_flight (sq_state q))\<rparr>) in
               (Inr (), q\<lparr>sq_state := st\<lparr>total := total st + 1\<rparr>,
                          sq_wal := w, sq_events := sq_events q @ [SluiceNack (msg_tenant m)]\<rparr>)))"

definition sluice_depth :: "tenant_id \<Rightarrow> sluice_file \<Rightarrow> nat" where
  "sluice_depth tenant q = sluice_state_depth tenant (sq_state q)"

definition sluice_total_depth :: "sluice_file \<Rightarrow> nat" where
  "sluice_total_depth q = total (sq_state q)"

end
