(* ===== verification/Sluice_Theorems.thy ===== *)
theory Sluice_Theorems
  imports Sluice_Queue
begin

text \<open>
  Correctness of Sluice: the hex codec round trip; the \<open>Queue\<close> port as a locale over the pending
  lists and the in-flight map, from which follow conservation of messages and first-in-first-out
  order for any sequence of operations; both adapters as interpretations; the depth counter; and
  what a restart gives back.
\<close>

section \<open>The hex codec\<close>

lemma of_char_char_of: "n < 256 \<Longrightarrow> (of_char (char_of (n :: nat)) :: u8) = word_of_nat n"
  by (metis of_char_of of_nat_of_char mod_less)

lemma hex_nibble:
  assumes "n \<le> 15"
  shows "hex_value (of_char (hex_char n)) = Inr n"
proof (cases "n \<le> 9")
  case True
  have u: "unat (48 + n) = 48 + unat n"
    using True by (simp add: unat_word_ariths word_le_nat_alt)
  have "of_char (hex_char n) = 48 + n"
    using True by (simp add: hex_char_def of_char_char_of word_le_nat_alt u)
  with True show ?thesis
    by (simp add: hex_value_def word_le_nat_alt u)
next
  case False
  have u: "unat (87 + n) = 87 + unat n"
    using assms by (simp add: unat_word_ariths word_le_nat_alt)
  have e: "97 + n - 10 = 87 + n"
    by (simp add: algebra_simps)
  have "of_char (hex_char n) = 87 + n"
    using False assms by (simp add: hex_char_def e of_char_char_of word_le_nat_alt u)
  with False assms show ?thesis
    by (simp add: hex_value_def word_le_nat_alt u)
qed

lemma nibbles_join:
  fixes b :: u8
  shows "or (push_bit 4 (and (drop_bit 4 b) 15)) (and b 15) = b"
proof -
  have m: "(15 :: u8) = mask 4"
    by (simp add: mask_eq_exp_minus_1)
  show ?thesis
    unfolding m by (rule bit_word_eqI) (auto simp: bit_simps)
qed

lemmas nibbles_join_simp = nibbles_join [simplified]

lemma nibble_le: "and (b :: u8) 15 \<le> 15"
  by (simp add: word_and_le1)

lemma encode_hex_length [simp]: "length (encode_hex bs) = 2 * length bs"
  by (induction bs) auto

lemma decode_hex_pairs_encode: "decode_hex_pairs (encode_hex bs) = Inr bs"
  by (induction bs) (simp_all add: hex_nibble nibble_le nibbles_join_simp)

text \<open>C10. Decoding the hex form of a payload gives the payload back.\<close>

theorem hex_roundtrip: "decode_hex (encode_hex payload) = Inr payload"
  by (simp add: decode_hex_def decode_hex_pairs_encode)

section \<open>The port\<close>

datatype 'env queue_op =
  QEnqueue 'env tenant_id "u8 list" | QDequeue 'env tenant_id | QAck 'env message_id | QNack 'env message_id

text \<open>What a sequence of operations reports to its caller, in order.\<close>

datatype queue_report = Accepted message | Delivered message | Settled message_id | Returned message_id

fun accepted :: "queue_report list \<Rightarrow> message list" where
  "accepted [] = []"
| "accepted (Accepted m # rs) = m # accepted rs"
| "accepted (_ # rs) = accepted rs"

fun delivered :: "tenant_id \<Rightarrow> queue_report list \<Rightarrow> message list" where
  "delivered t [] = []"
| "delivered t (Delivered m # rs) = (if msg_tenant m = t then m # delivered t rs else delivered t rs)"
| "delivered t (_ # rs) = delivered t rs"

fun settled :: "queue_report list \<Rightarrow> message_id list" where
  "settled [] = []"
| "settled (Settled i # rs) = i # settled rs"
| "settled (_ # rs) = settled rs"

definition accepted_by :: "tenant_id \<Rightarrow> queue_report list \<Rightarrow> message list" where
  "accepted_by t rs = filter (\<lambda>m. msg_tenant m = t) (accepted rs)"

definition no_returns :: "queue_report list \<Rightarrow> bool" where
  "no_returns rs = list_all (\<lambda>r. \<not> (\<exists>i. r = Returned i)) rs"

lemma reports_append [simp]:
  "accepted (xs @ ys) = accepted xs @ accepted ys"
  "delivered t (xs @ ys) = delivered t xs @ delivered t ys"
  "settled (xs @ ys) = settled xs @ settled ys"
  "accepted_by t (xs @ ys) = accepted_by t xs @ accepted_by t ys"
  "no_returns (xs @ ys) \<longleftrightarrow> no_returns xs \<and> no_returns ys"
proof -
  show 1: "accepted (xs @ ys) = accepted xs @ accepted ys"
    by (induction xs rule: accepted.induct) auto
  show "delivered t (xs @ ys) = delivered t xs @ delivered t ys"
    by (induction t xs rule: delivered.induct) auto
  show "settled (xs @ ys) = settled xs @ settled ys"
    by (induction xs rule: settled.induct) auto
  show "accepted_by t (xs @ ys) = accepted_by t xs @ accepted_by t ys"
    by (simp add: accepted_by_def 1)
qed (simp add: no_returns_def)

text \<open>
  Well-formed queue contents: a message waits under its own tenant, no identifier occurs twice,
  waiting or in flight, and identifiers come from the counter.
\<close>

definition queue_ok :: "(tenant_id \<Rightarrow> message list) \<Rightarrow> (message_id \<rightharpoonup> message) \<Rightarrow> u64 \<Rightarrow> bool" where
  "queue_ok pend flight nxt =
     ((\<forall>t. \<forall>m\<in>set (pend t). msg_tenant m = t \<and> msg_id m \<le> nxt \<and> flight (msg_id m) = None) \<and>
      (\<forall>t. distinct (map msg_id (pend t))) \<and>
      (\<forall>t t'. \<forall>m\<in>set (pend t). \<forall>m'\<in>set (pend t'). msg_id m = msg_id m' \<longrightarrow> t = t') \<and>
      (\<forall>i m. flight i = Some m \<longrightarrow> msg_id m = i \<and> i \<le> nxt))"

lemma word_not_max: "unat (n :: u64) < 2 ^ 64 - 1 \<Longrightarrow> n \<noteq> - 1"
  by (auto simp: unsigned_minus_1_eq_mask mask_eq_exp_minus_1)

lemma word_less_Suc: "(n :: u64) \<noteq> - 1 \<Longrightarrow> n < n + 1"
proof -
  assume "n \<noteq> - 1"
  then have "n + 1 \<noteq> 0"
    by (metis add.commute add_diff_cancel_left' diff_0)
  then have "unat (n + 1) = Suc (unat n)"
    by (simp add: unatSuc add.commute)
  then show "n < n + 1"
    by (simp add: word_less_nat_alt)
qed

lemma queue_okI:
  assumes "\<And>t m. m \<in> set (pend t) \<Longrightarrow> msg_tenant m = t \<and> msg_id m \<le> nxt \<and> flight (msg_id m) = None"
    and "\<And>t. distinct (map msg_id (pend t))"
    and "\<And>i m. flight i = Some m \<Longrightarrow> msg_id m = i \<and> i \<le> nxt"
    and "\<And>t t' m m'. m \<in> set (pend t) \<Longrightarrow> m' \<in> set (pend t') \<Longrightarrow> msg_id m = msg_id m' \<Longrightarrow> t = t'"
  shows "queue_ok pend flight nxt"
  using assms unfolding queue_ok_def by blast

lemma queue_okD:
  assumes "queue_ok pend flight nxt"
  shows "m \<in> set (pend t) \<Longrightarrow> msg_tenant m = t \<and> msg_id m \<le> nxt \<and> flight (msg_id m) = None"
    and "distinct (map msg_id (pend t))"
    and "flight i = Some m \<Longrightarrow> msg_id m = i \<and> i \<le> nxt"
    and "m \<in> set (pend t) \<Longrightarrow> m' \<in> set (pend t') \<Longrightarrow> msg_id m = msg_id m' \<Longrightarrow> t = t'"
  using assms unfolding queue_ok_def by blast+

lemma queue_ok_mono: "queue_ok pend flight nxt \<Longrightarrow> nxt \<le> nxt' \<Longrightarrow> queue_ok pend flight nxt'"
  unfolding queue_ok_def by (meson order_trans)

lemma not_image: "(\<And>x t. x \<in> set (f t) \<Longrightarrow> g x \<noteq> y) \<Longrightarrow> y \<notin> g ` set (f t)"
  by blast

lemma insert_UN_upd:
  assumes "f t = m # q"
  shows "insert m (\<Union>t'. set ((f(t := q)) t')) = (\<Union>t'. set (f t'))"
proof -
  have "x \<in> set (f t') \<longleftrightarrow> x \<in> set ((f(t := q)) t') \<or> x = m \<and> t' = t" for x t'
    using assms by auto
  then show ?thesis
    by blast
qed

text \<open>Enqueueing a message under a fresh identifier.\<close>

lemma queue_ok_enqueue:
  assumes ok: "queue_ok pend flight nxt" and "nxt \<noteq> - 1"
  shows "queue_ok (pend(t := pend t @ [\<lparr>msg_id = nxt + 1, msg_tenant = t, msg_payload = p\<rparr>])) flight (nxt + 1)"
proof -
  note d = queue_okD [OF ok]
  have lt: "nxt < nxt + 1"
    by (rule word_less_Suc [OF assms(2)])
  then have le: "i \<le> nxt \<Longrightarrow> i \<le> nxt + 1 \<and> i \<noteq> nxt + 1" for i
    by auto
  have f: "flight (nxt + 1) = None"
    using d(3) lt by (cases "flight (nxt + 1)") (auto simp: leD)
  have fresh: "m \<in> set (pend t') \<Longrightarrow> msg_id m \<noteq> nxt + 1" for m t'
    using d(1) le by blast
  show ?thesis
  proof (rule queue_okI)
    fix t' m
    assume "m \<in> set ((pend(t := pend t @ [\<lparr>msg_id = nxt + 1, msg_tenant = t, msg_payload = p\<rparr>])) t')"
    then show "msg_tenant m = t' \<and> msg_id m \<le> nxt + 1 \<and> flight (msg_id m) = None"
      using d(1) [of m t'] le f by (auto split: if_splits)
  next
    fix t'
    show "distinct (map msg_id ((pend(t := pend t @ [\<lparr>msg_id = nxt + 1, msg_tenant = t, msg_payload = p\<rparr>])) t'))"
      using d(2) [of t'] not_image [of pend msg_id "nxt + 1" t', OF fresh] by auto
  next
    fix i m
    assume "flight i = Some m"
    then show "msg_id m = i \<and> i \<le> nxt + 1"
      using d(3) le by blast
  next
    fix t1 t2 m1 m2
    assume "m1 \<in> set ((pend(t := pend t @ [\<lparr>msg_id = nxt + 1, msg_tenant = t, msg_payload = p\<rparr>])) t1)"
      "m2 \<in> set ((pend(t := pend t @ [\<lparr>msg_id = nxt + 1, msg_tenant = t, msg_payload = p\<rparr>])) t2)"
      "msg_id m1 = msg_id m2"
    then show "t1 = t2"
      using d(4) [of m1 t1 m2 t2] fresh [of m1 t1] fresh [of m2 t2] by (auto split: if_splits)
  qed
qed

text \<open>Moving the front message into flight, settling one, and returning one to the front.\<close>

lemma queue_ok_dequeue:
  assumes ok: "queue_ok pend flight nxt" and "pend t = m # q"
  shows "queue_ok (pend(t := q)) (flight(msg_id m \<mapsto> m)) nxt"
proof -
  note d = queue_okD [OF ok]
  have m: "msg_tenant m = t" "msg_id m \<le> nxt" "msg_id m \<notin> msg_id ` set q" "distinct (map msg_id q)"
    using d(1) [of m t] d(2) [of t] assms(2) by auto
  have rest: "m' \<in> set ((pend(t := q)) t') \<Longrightarrow> msg_id m' \<noteq> msg_id m \<and> m' \<in> set (pend t')" for m' t'
    using d(4) [of m t m' t'] m(3) assms(2) by (auto split: if_splits) (metis image_eqI)
  show ?thesis
  proof (rule queue_okI)
    fix t' m'
    assume "m' \<in> set ((pend(t := q)) t')"
    then show "msg_tenant m' = t' \<and> msg_id m' \<le> nxt \<and> (flight(msg_id m \<mapsto> m)) (msg_id m') = None"
      using rest [of m' t'] d(1) [of m' t'] by simp
  next
    fix t1 t2 m1 m2
    assume "m1 \<in> set ((pend(t := q)) t1)" "m2 \<in> set ((pend(t := q)) t2)" "msg_id m1 = msg_id m2"
    then show "t1 = t2"
      using rest d(4) by blast
  qed (use d(2,3) m in \<open>auto split: if_splits\<close>)
qed

lemma queue_ok_settle: "queue_ok pend flight nxt \<Longrightarrow> queue_ok pend (flight(i := None)) nxt"
  using queue_okD [of pend flight nxt] by (intro queue_okI) (auto split: if_splits)

lemma queue_ok_return:
  assumes ok: "queue_ok pend flight nxt" and "flight i = Some m"
  shows "queue_ok (pend(msg_tenant m := m # pend (msg_tenant m))) (flight(i := None)) nxt"
proof -
  note d = queue_okD [OF ok]
  have m: "msg_id m = i" "i \<le> nxt"
    using d(3) [OF assms(2)] by auto
  have new: "m' \<in> set (pend t') \<Longrightarrow> msg_id m' \<noteq> i" for m' t'
    using d(1) assms(2) by fastforce
  show ?thesis
  proof (rule queue_okI)
    fix t1 t2 m1 m2
    assume "m1 \<in> set ((pend(msg_tenant m := m # pend (msg_tenant m))) t1)"
      "m2 \<in> set ((pend(msg_tenant m := m # pend (msg_tenant m))) t2)" "msg_id m1 = msg_id m2"
    then show "t1 = t2"
      using d(4) [of m1 t1 m2 t2] new [of m1 t1] new [of m2 t2] m by (auto split: if_splits)
  next
    fix t'
    show "distinct (map msg_id ((pend(msg_tenant m := m # pend (msg_tenant m))) t'))"
      using d(2) [of t'] not_image [of pend msg_id i t', OF new] m by auto
  qed (use d m new in \<open>auto split: if_splits\<close>)
qed

text \<open>One operation and what it reports; the reports of a sequence.\<close>

definition queue_exec ::
  "('env \<Rightarrow> tenant_id \<Rightarrow> u8 list \<Rightarrow> 's \<Rightarrow> (enqueue_error + message_id) \<times> 's) \<Rightarrow>
   ('env \<Rightarrow> tenant_id \<Rightarrow> 's \<Rightarrow> (enqueue_error + message option) \<times> 's) \<Rightarrow>
   ('env \<Rightarrow> message_id \<Rightarrow> 's \<Rightarrow> (enqueue_error + unit) \<times> 's) \<Rightarrow>
   ('env \<Rightarrow> message_id \<Rightarrow> 's \<Rightarrow> (enqueue_error + unit) \<times> 's) \<Rightarrow>
   ('s \<Rightarrow> message_id \<rightharpoonup> message) \<Rightarrow> 'env queue_op \<Rightarrow> 's \<Rightarrow> queue_report list \<times> 's" where
  "queue_exec enqueue dequeue ack nack flight op s = (case op of
     QEnqueue e t p \<Rightarrow> (case enqueue e t p s of
         (Inl _, s') \<Rightarrow> ([], s')
       | (Inr i, s') \<Rightarrow> ([Accepted \<lparr>msg_id = i, msg_tenant = t, msg_payload = p\<rparr>], s'))
   | QDequeue e t \<Rightarrow> (case dequeue e t s of
         (Inr (Some m), s') \<Rightarrow> ([Delivered m], s') | (_, s') \<Rightarrow> ([], s'))
   | QAck e i \<Rightarrow> (case ack e i s of
         (Inr _, s') \<Rightarrow> (if flight s i = None then [] else [Settled i], s') | (Inl _, s') \<Rightarrow> ([], s'))
   | QNack e i \<Rightarrow> (case nack e i s of
         (Inr _, s') \<Rightarrow> (if flight s i = None then [] else [Returned i], s') | (Inl _, s') \<Rightarrow> ([], s')))"

fun queue_run ::
  "('env queue_op \<Rightarrow> 's \<Rightarrow> queue_report list \<times> 's) \<Rightarrow> 'env queue_op list \<Rightarrow> 's \<Rightarrow> queue_report list \<times> 's" where
  "queue_run exec [] s = ([], s)"
| "queue_run exec (op # ops) s =
     (case exec op s of (rs, s') \<Rightarrow> case queue_run exec ops s' of (rs', s'') \<Rightarrow> (rs @ rs', s''))"

locale message_queue =
  fixes enqueue :: "'env \<Rightarrow> tenant_id \<Rightarrow> u8 list \<Rightarrow> 's \<Rightarrow> (enqueue_error + message_id) \<times> 's"
    and dequeue :: "'env \<Rightarrow> tenant_id \<Rightarrow> 's \<Rightarrow> (enqueue_error + message option) \<times> 's"
    and ack :: "'env \<Rightarrow> message_id \<Rightarrow> 's \<Rightarrow> (enqueue_error + unit) \<times> 's"
    and nack :: "'env \<Rightarrow> message_id \<Rightarrow> 's \<Rightarrow> (enqueue_error + unit) \<times> 's"
    and pend :: "'s \<Rightarrow> tenant_id \<Rightarrow> message list"
    and flight :: "'s \<Rightarrow> message_id \<rightharpoonup> message"
    and counter :: "'s \<Rightarrow> u64"
    and wf :: "'s \<Rightarrow> bool"
  assumes enqueue_ok: "wf s \<Longrightarrow> enqueue e t p s = (Inr i, s') \<Longrightarrow> wf s' \<and> i = counter s + 1 \<and> counter s' = i \<and>
      pend s' = (pend s)(t := pend s t @ [\<lparr>msg_id = i, msg_tenant = t, msg_payload = p\<rparr>]) \<and> flight s' = flight s"
    and enqueue_err: "wf s \<Longrightarrow> enqueue e t p s = (Inl er, s') \<Longrightarrow> wf s' \<and>
      (counter s' = counter s \<or> counter s' = counter s + 1) \<and> pend s' = pend s \<and> flight s' = flight s"
    and dequeue_some: "wf s \<Longrightarrow> dequeue e t s = (Inr (Some m), s') \<Longrightarrow> wf s' \<and> counter s' = counter s \<and>
      (\<exists>q. pend s t = m # q \<and> pend s' = (pend s)(t := q)) \<and> flight s' = (flight s)(msg_id m \<mapsto> m)"
    and dequeue_none: "wf s \<Longrightarrow> dequeue e t s = (Inr None, s') \<Longrightarrow> s' = s \<and> pend s t = []"
    and dequeue_err: "wf s \<Longrightarrow> dequeue e t s = (Inl er, s') \<Longrightarrow> wf s' \<and> counter s' = counter s \<and>
      pend s' = pend s \<and> flight s' = flight s"
    and ack_ok: "wf s \<Longrightarrow> ack e i s = (Inr (), s') \<Longrightarrow> wf s' \<and> counter s' = counter s \<and>
      pend s' = pend s \<and> flight s' = (flight s)(i := None)"
    and ack_err: "wf s \<Longrightarrow> ack e i s = (Inl er, s') \<Longrightarrow> wf s' \<and> counter s' = counter s \<and>
      pend s' = pend s \<and> flight s' = flight s"
    and nack_ok: "wf s \<Longrightarrow> nack e i s = (Inr (), s') \<Longrightarrow> wf s' \<and> counter s' = counter s \<and>
      flight s' = (flight s)(i := None) \<and>
      pend s' = (case flight s i of None \<Rightarrow> pend s
        | Some m \<Rightarrow> (pend s)(msg_tenant m := m # pend s (msg_tenant m)))"
    and nack_err: "wf s \<Longrightarrow> nack e i s = (Inl er, s') \<Longrightarrow> wf s' \<and> counter s' = counter s \<and>
      pend s' = pend s \<and> flight s' = flight s"
begin

abbreviation exec :: "'env queue_op \<Rightarrow> 's \<Rightarrow> queue_report list \<times> 's" where
  "exec \<equiv> queue_exec enqueue dequeue ack nack flight"

abbreviation run :: "'env queue_op list \<Rightarrow> 's \<Rightarrow> queue_report list \<times> 's" where
  "run \<equiv> queue_run (queue_exec enqueue dequeue ack nack flight)"

text \<open>The four ways an operation can change what is queued.\<close>

lemma exec_cases:
  assumes "wf s" and "exec op s = (rs, s')"
  obtains (same) "rs = []" "pend s' = pend s" "flight s' = flight s"
      "counter s' = counter s \<or> counter s' = counter s + 1"
  | (enq) t p m where "m = \<lparr>msg_id = counter s + 1, msg_tenant = t, msg_payload = p\<rparr>" "rs = [Accepted m]"
      "pend s' = (pend s)(t := pend s t @ [m])" "flight s' = flight s" "counter s' = counter s + 1"
  | (deq) t m q where "rs = [Delivered m]" "pend s t = m # q" "pend s' = (pend s)(t := q)"
      "flight s' = (flight s)(msg_id m \<mapsto> m)" "counter s' = counter s"
  | (settle) i m where "rs = [Settled i]" "flight s i = Some m" "pend s' = pend s"
      "flight s' = (flight s)(i := None)" "counter s' = counter s"
  | (return) i m where "rs = [Returned i]" "flight s i = Some m" "flight s' = (flight s)(i := None)"
      "pend s' = (pend s)(msg_tenant m := m # pend s (msg_tenant m))" "counter s' = counter s"
proof (cases op)
  case (QEnqueue e t p)
  then show thesis
    using assms enqueue_ok [OF assms(1), of e t p _ s'] enqueue_err [OF assms(1), of e t p _ s']
    by (auto simp: queue_exec_def split: prod.splits sum.splits intro: same enq)
next
  case (QDequeue e t)
  then show thesis
    using assms dequeue_some [OF assms(1), of e t _ s'] dequeue_none [OF assms(1), of e t s']
      dequeue_err [OF assms(1), of e t _ s']
    by (auto simp: queue_exec_def split: prod.splits sum.splits option.splits intro: same deq)
next
  case (QAck e i)
  then show thesis
    using assms ack_ok [OF assms(1), of e i s'] ack_err [OF assms(1), of e i _ s']
    by (auto simp: queue_exec_def fun_upd_idem split: prod.splits sum.splits if_splits intro: same settle)
next
  case (QNack e i)
  then show thesis
    using assms nack_ok [OF assms(1), of e i s'] nack_err [OF assms(1), of e i _ s']
    by (auto simp: queue_exec_def fun_upd_idem split: prod.splits sum.splits if_splits option.splits intro: same return)
qed

lemma exec_wf:
  assumes "wf s" and "exec op s = (rs, s')"
  shows "wf s'"
proof (cases op)
  case (QEnqueue e t p)
  then show ?thesis
    using assms enqueue_ok [OF assms(1), of e t p _ s'] enqueue_err [OF assms(1), of e t p _ s']
    by (auto simp: queue_exec_def split: prod.splits sum.splits)
next
  case (QDequeue e t)
  then show ?thesis
    using assms dequeue_some [OF assms(1), of e t _ s'] dequeue_none [OF assms(1), of e t s']
      dequeue_err [OF assms(1), of e t _ s']
    by (auto simp: queue_exec_def split: prod.splits sum.splits option.splits)
next
  case (QAck e i)
  then show ?thesis
    using assms ack_ok [OF assms(1), of e i s'] ack_err [OF assms(1), of e i _ s']
    by (auto simp: queue_exec_def split: prod.splits sum.splits)
next
  case (QNack e i)
  then show ?thesis
    using assms nack_ok [OF assms(1), of e i s'] nack_err [OF assms(1), of e i _ s']
    by (auto simp: queue_exec_def split: prod.splits sum.splits)
qed

text \<open>What is queued stays well formed as long as the counter does not wrap around.\<close>

lemma exec_queue_ok:
  assumes "wf s" "exec op s = (rs, s')" "queue_ok (pend s) (flight s) (counter s)" "counter s \<noteq> - 1"
  shows "queue_ok (pend s') (flight s') (counter s')"
  using assms(1,2)
proof (cases rule: exec_cases)
  case same
  then show ?thesis
    using assms(3) queue_ok_mono [OF assms(3), of "counter s + 1"] word_less_Suc [OF assms(4)]
    by (auto simp: less_imp_le)
qed (use assms(3,4) in \<open>simp_all add: queue_ok_enqueue queue_ok_dequeue queue_ok_settle queue_ok_return\<close>)

text \<open>Every accepted message is waiting, in flight or settled, and nothing else is.\<close>

definition held :: "'s \<Rightarrow> message set" where
  "held s = (\<Union>t. set (pend s t)) \<union> ran (flight s)"

lemma held_iff: "m \<in> held s \<longleftrightarrow> (\<exists>t. m \<in> set (pend s t)) \<or> (\<exists>i. flight s i = Some m)"
  by (auto simp: held_def ran_def)

lemma exec_conserves:
  assumes "wf s" "exec op s = (rs, s')" "queue_ok (pend s) (flight s) (counter s)"
  shows "held s' = (held s \<union> set (accepted rs)) - {m. msg_id m \<in> set (settled rs)}"
  using assms(1,2)
proof (cases rule: exec_cases)
  case same
  then show ?thesis
    by (simp add: held_def)
next
  case (enq t p m)
  then show ?thesis
    by (auto simp: held_iff set_eq_iff split: if_splits)
next
  case (deq t m q)
  then have "flight s (msg_id m) = None"
    using queue_okD(1) [OF assms(3), of m t] by simp
  then have "held s' = insert m (\<Union>t'. set (((pend s)(t := q)) t')) \<union> ran (flight s)"
    using deq by (simp add: held_def ran_map_upd)
  also have "\<dots> = held s"
    unfolding insert_UN_upd [of "pend s" t m q, OF deq(2)] by (simp add: held_def)
  finally show ?thesis
    using deq(1) by simp
next
  case (settle i m)
  have "m' \<in> set (pend s t) \<Longrightarrow> msg_id m' \<noteq> i" for m' t
    using queue_okD(1) [OF assms(3)] settle(2) by fastforce
  moreover have "flight s i' = Some m' \<Longrightarrow> msg_id m' = i'" for m' i'
    using queue_okD(3) [OF assms(3)] by blast
  ultimately show ?thesis
    using settle by (auto simp: held_iff set_eq_iff split: if_splits)
next
  case (return i m)
  then show ?thesis
    by (auto simp: held_iff set_eq_iff split: if_splits) (metis option.inject)+
qed

lemma run_snoc:
  "run (ops @ [op]) s = (case run ops s of (rs, s') \<Rightarrow> case exec op s' of (rs', s'') \<Rightarrow> (rs @ rs', s''))"
  by (induction ops arbitrary: s) (auto split: prod.splits)

lemma run_invariant:
  assumes "wf s" "queue_ok (pend s) (flight s) (counter s)" "unat (counter s) + length ops < 2 ^ 64"
    and "run ops s = (rs, s')"
  shows "wf s' \<and> queue_ok (pend s') (flight s') (counter s') \<and> counter s \<le> counter s' \<and>
    unat (counter s') \<le> unat (counter s) + length ops"
  using assms(3,4)
proof (induction ops arbitrary: rs s' rule: rev_induct)
  case Nil
  then show ?case
    using assms(1,2) by simp
next
  case (snoc op ops)
  obtain rs1 s1 where 1: "run ops s = (rs1, s1)"
    by fastforce
  with snoc.prems obtain rs2 where 2: "exec op s1 = (rs2, s')"
    by (auto simp: run_snoc split: prod.splits)
  have IH: "wf s1" "queue_ok (pend s1) (flight s1) (counter s1)" "counter s \<le> counter s1"
    "unat (counter s1) \<le> unat (counter s) + length ops"
    using snoc.IH [OF _ 1] snoc.prems(1) by auto
  then have "unat (counter s1) < 2 ^ 64 - 1"
    using snoc.prems(1) by simp
  then have nw: "counter s1 \<noteq> - 1"
    by (rule word_not_max)
  have "counter s' = counter s1 \<or> counter s' = counter s1 + 1"
    using exec_cases [OF IH(1) 2] by blast
  moreover have "unat (counter s1 + 1) = Suc (unat (counter s1))"
    using nw by (metis add.commute unatSuc add_eq_0_iff)
  ultimately show ?case
    using exec_wf [OF IH(1) 2] exec_queue_ok [OF IH(1) 2 IH(2) nw] IH(3,4) word_less_Suc [OF nw] by auto
qed

text \<open>
  Conservation: starting from an empty queue, the accepted messages are exactly those waiting, in
  flight or settled; a settled one is neither waiting nor in flight.
\<close>

lemma run_conserves:
  assumes "wf s" "pend s = (\<lambda>_. [])" "flight s = (\<lambda>_. None)" "counter s = 0" "length ops < 2 ^ 64"
    and "run ops s = (rs, s')"
  shows "held s' = set (accepted rs) - {m. msg_id m \<in> set (settled rs)} \<and>
    distinct (map msg_id (accepted rs)) \<and> (\<forall>m \<in> set (accepted rs). msg_id m \<le> counter s') \<and>
    (\<forall>i \<in> set (settled rs). i \<le> counter s')"
  using assms(5,6)
proof (induction ops arbitrary: rs s' rule: rev_induct)
  case Nil
  then show ?case
    using assms(2,3) by (auto simp: held_def ran_def)
next
  case (snoc op ops)
  obtain rs1 s1 where 1: "run ops s = (rs1, s1)"
    by fastforce
  with snoc.prems obtain rs2 where 2: "exec op s1 = (rs2, s')" and rs: "rs = rs1 @ rs2"
    by (auto simp: run_snoc split: prod.splits)
  have IH: "held s1 = set (accepted rs1) - {m. msg_id m \<in> set (settled rs1)}"
    "distinct (map msg_id (accepted rs1))" "\<forall>m \<in> set (accepted rs1). msg_id m \<le> counter s1"
    "\<forall>i \<in> set (settled rs1). i \<le> counter s1"
    using snoc.IH [OF _ 1] snoc.prems(1) by auto
  have ok: "queue_ok (pend s) (flight s) (counter s)"
    using assms(2,3) by (simp add: queue_ok_def)
  have inv: "wf s1" "queue_ok (pend s1) (flight s1) (counter s1)" "unat (counter s1) \<le> length ops"
    using run_invariant [OF assms(1) ok _ 1] snoc.prems(1) assms(4) by auto
  then have "unat (counter s1) < 2 ^ 64 - 1"
    using snoc.prems(1) by simp
  then have lt: "counter s1 < counter s1 + 1"
    by (intro word_less_Suc word_not_max)
  have new: "x \<le> counter s1 \<Longrightarrow> x \<noteq> counter s1 + 1 \<and> x \<le> counter s1 + 1" for x
    using lt by auto
  note cons = exec_conserves [OF inv(1) 2 inv(2)]
  show ?case
    using inv(1) 2
  proof (cases rule: exec_cases)
    case (enq t p m)
    have f: "counter s1 + 1 \<notin> set (settled rs1)" "counter s1 + 1 \<notin> msg_id ` set (accepted rs1)"
      using IH(3,4) leD [of "counter s1 + 1" "counter s1"] lt by (blast, force)
    with enq show ?thesis
      using cons IH new by (auto simp: rs)
  next
    case (settle i m)
    then have "i \<le> counter s1"
      using queue_okD(3) [OF inv(2)] by blast
    with settle show ?thesis
      using cons IH by (auto simp: rs)
  qed (use cons IH new in \<open>auto simp: rs\<close>)
qed

text \<open>
  Order: as long as nothing is returned, what a tenant has been delivered, followed by what it has
  waiting, is what was waiting at first followed by what was accepted.
\<close>

lemma run_fifo:
  assumes "wf s" "queue_ok (pend s) (flight s) (counter s)" "unat (counter s) + length ops < 2 ^ 64"
    and "run ops s = (rs, s')" "no_returns rs"
  shows "delivered t rs @ pend s' t = pend s t @ accepted_by t rs"
  using assms(3-5)
proof (induction ops arbitrary: rs s' rule: rev_induct)
  case (snoc op ops)
  obtain rs1 s1 where 1: "run ops s = (rs1, s1)"
    by fastforce
  with snoc.prems obtain rs2 where 2: "exec op s1 = (rs2, s')" and rs: "rs = rs1 @ rs2"
    by (auto simp: run_snoc split: prod.splits)
  have IH: "delivered t rs1 @ pend s1 t = pend s t @ accepted_by t rs1"
    using snoc.IH [OF _ 1] snoc.prems rs by auto
  have inv: "wf s1" "queue_ok (pend s1) (flight s1) (counter s1)"
    using run_invariant [OF assms(1,2) _ 1] snoc.prems(1) by auto
  show ?case
    using inv(1) 2
  proof (cases rule: exec_cases)
    case (deq t' m q)
    then have "msg_tenant m = t'"
      using queue_okD(1) [OF inv(2), of m t'] by simp
    with deq IH show ?thesis
      by (auto simp: rs accepted_by_def)
  next
    case (return i m)
    with snoc.prems(3) show ?thesis
      by (simp add: rs no_returns_def)
  qed (use IH in \<open>auto simp: rs accepted_by_def\<close>)
qed (simp add: accepted_by_def)

end

section \<open>Both adapters implement the port\<close>

definition depth_sum :: "(tenant_id, message list) hash_map \<Rightarrow> nat" where
  "depth_sum m = sum_list (map (\<lambda>(_, q). length q) m)"

definition sluice_wf :: "sluice_state \<Rightarrow> bool" where
  "sluice_wf s = (hm_wf (pending s) \<and> total s = depth_sum (pending s))"

lemma depth_sum_insert:
  "hm_wf m \<Longrightarrow> depth_sum (hm_insert k q m) + length (hm_get_or [] m k) = depth_sum m + length q"
proof (induction m)
  case (Cons kv m)
  then show ?case
    using hm_wf_ConsD [of "fst kv" "snd kv" m] by (cases kv) (auto simp: depth_sum_def hm_get_or_def)
qed (simp add: depth_sum_def)

lemma depth_sum_remove:
  "hm_wf m \<Longrightarrow> depth_sum (hm_remove k m) + length (hm_get_or [] m k) = depth_sum m"
proof (induction m)
  case (Cons kv m)
  have "hm_remove (fst kv) m = m"
    using hm_wf_ConsD [of "fst kv" "snd kv" m] Cons.prems
    by (intro delete_id) (auto simp: map_of_eq_None_iff)
  then show ?case
    using Cons hm_wf_ConsD [of "fst kv" "snd kv" m]
    by (cases kv) (auto simp: depth_sum_def hm_get_or_def)
qed (simp add: depth_sum_def)

lemma sluice_entry_facts [simp]:
  "hm_get_or [] (pending (sluice_entry t s)) = hm_get_or [] (pending s)"
  "next_id (sluice_entry t s) = next_id s" "in_flight (sluice_entry t s) = in_flight s"
  "sluice_wf s \<Longrightarrow> sluice_wf (sluice_entry t s)"
  using depth_sum_insert [of "pending s" t "hm_get_or [] (pending s) t"]
  by (auto simp: sluice_entry_def sluice_wf_def)

lemma sluice_push_back_facts [simp]:
  "hm_get_or [] (pending (sluice_push_back m s)) =
     (hm_get_or [] (pending s))(msg_tenant m := hm_get_or [] (pending s) (msg_tenant m) @ [m])"
  "next_id (sluice_push_back m s) = next_id s" "in_flight (sluice_push_back m s) = in_flight s"
  "sluice_wf s \<Longrightarrow> sluice_wf ((sluice_push_back m s)\<lparr>total := Suc (total (sluice_push_back m s))\<rparr>)"
  using depth_sum_insert [of "pending s" "msg_tenant m" "hm_get_or [] (pending s) (msg_tenant m) @ [m]"]
  by (auto simp: sluice_push_back_def sluice_wf_def)

lemma sluice_push_front_facts [simp]:
  "hm_get_or [] (pending (sluice_push_front m s)) =
     (hm_get_or [] (pending s))(msg_tenant m := m # hm_get_or [] (pending s) (msg_tenant m))"
  "next_id (sluice_push_front m s) = next_id s" "in_flight (sluice_push_front m s) = in_flight s"
  "sluice_wf s \<Longrightarrow> sluice_wf ((sluice_push_front m s)\<lparr>total := Suc (total (sluice_push_front m s))\<rparr>)"
  using depth_sum_insert [of "pending s" "msg_tenant m" "m # hm_get_or [] (pending s) (msg_tenant m)"]
  by (auto simp: sluice_push_front_def sluice_wf_def)

lemma sluice_pop_front_facts [simp]:
  "hm_get_or [] (pending (sluice_pop_front t s)) = (hm_get_or [] (pending s))(t := tl (hm_get_or [] (pending s) t))"
  "next_id (sluice_pop_front t s) = next_id s" "in_flight (sluice_pop_front t s) = in_flight s"
  "sluice_wf s \<Longrightarrow> hm_get_or [] (pending s) t \<noteq> [] \<Longrightarrow>
     sluice_wf ((sluice_pop_front t s)\<lparr>total := total (sluice_pop_front t s) - Suc 0\<rparr>)"
  using depth_sum_insert [of "pending s" t "tl (hm_get_or [] (pending s) t)"] depth_sum_remove [of "pending s" t]
  by (auto simp: sluice_pop_front_def sluice_wf_def Let_def neq_Nil_conv)

lemma sluice_wf_irrelevant [simp]:
  "sluice_wf (s\<lparr>next_id := n\<rparr>) = sluice_wf s" "sluice_wf (s\<lparr>in_flight := f\<rparr>) = sluice_wf s"
  "sluice_wf (s\<lparr>total := k, in_flight := f\<rparr>) = sluice_wf (s\<lparr>total := k\<rparr>)"
  by (simp_all add: sluice_wf_def)

lemma hm_get_or_SomeD: "hm_get m k = Some v \<Longrightarrow> hm_get_or d m k = v"
  by (simp add: hm_get_or_def)

lemma hm_get_or_NoneD: "hm_get m k = None \<Longrightarrow> hm_get_or d m k = d"
  by (simp add: hm_get_or_def)

lemmas sluice_lookup = hm_get_or_SomeD [where d = "[]"] hm_get_or_NoneD [where d = "[]"]

interpretation sluice_mem: message_queue "\<lambda>(_ :: unit). sluice_mem_enqueue" "\<lambda>_. sluice_mem_dequeue"
  "\<lambda>_. sluice_mem_ack" "\<lambda>_. sluice_mem_nack" "\<lambda>q. hm_get_or [] (pending (sm_state q))"
  "\<lambda>q. hm_get (in_flight (sm_state q))" "\<lambda>q. next_id (sm_state q)" "\<lambda>q. sluice_wf (sm_state q)"
proof unfold_locales
  fix t m s s'
  assume "sluice_wf (sm_state s)" "sluice_mem_dequeue t s = (Inr (Some m), s')"
  then show "sluice_wf (sm_state s') \<and> next_id (sm_state s') = next_id (sm_state s) \<and>
     (\<exists>q. hm_get_or [] (pending (sm_state s)) t = m # q \<and>
        hm_get_or [] (pending (sm_state s')) = (hm_get_or [] (pending (sm_state s)))(t := q)) \<and>
     hm_get (in_flight (sm_state s')) = (hm_get (in_flight (sm_state s)))(msg_id m \<mapsto> m)"
    by (auto simp: sluice_mem_dequeue_def Let_def split: option.splits list.splits dest!: sluice_lookup)
next
  fix t s s'
  assume "sluice_mem_dequeue t s = (Inr None, s')"
  then show "s' = s \<and> hm_get_or [] (pending (sm_state s)) t = []"
    by (auto simp: sluice_mem_dequeue_def Let_def split: option.splits list.splits dest!: sluice_lookup)
qed (auto simp: sluice_mem_enqueue_def sluice_mem_dequeue_def sluice_mem_ack_def sluice_mem_nack_def Let_def
    fun_upd_idem split: if_splits option.splits list.splits)

interpretation sluice_file: message_queue "\<lambda>(ts, env). sluice_enqueue ts env" "\<lambda>(ts, env). sluice_dequeue ts env"
  "\<lambda>(ts, env). sluice_ack ts env" "\<lambda>(ts, env). sluice_nack ts env" "\<lambda>q. hm_get_or [] (pending (sq_state q))"
  "\<lambda>q. hm_get (in_flight (sq_state q))" "\<lambda>q. next_id (sq_state q)" "\<lambda>q. sluice_wf (sq_state q)"
proof unfold_locales
  fix t m s s' and e :: "(sluice_wal_record \<Rightarrow> string + string) \<times> append_io"
  assume "sluice_wf (sq_state s)" "(case e of (ts, env) \<Rightarrow> sluice_dequeue ts env) t s = (Inr (Some m), s')"
  then show "sluice_wf (sq_state s') \<and> next_id (sq_state s') = next_id (sq_state s) \<and>
     (\<exists>q. hm_get_or [] (pending (sq_state s)) t = m # q \<and>
        hm_get_or [] (pending (sq_state s')) = (hm_get_or [] (pending (sq_state s)))(t := q)) \<and>
     hm_get (in_flight (sq_state s')) = (hm_get (in_flight (sq_state s)))(msg_id m \<mapsto> m)"
    by (auto simp: sluice_dequeue_def Let_def split: option.splits list.splits prod.splits sum.splits dest!: sluice_lookup)
next
  fix t s s' and e :: "(sluice_wal_record \<Rightarrow> string + string) \<times> append_io"
  assume "(case e of (ts, env) \<Rightarrow> sluice_dequeue ts env) t s = (Inr None, s')"
  then show "s' = s \<and> hm_get_or [] (pending (sq_state s)) t = []"
    by (auto simp: sluice_dequeue_def Let_def split: option.splits list.splits prod.splits sum.splits dest!: sluice_lookup)
qed (auto simp: sluice_enqueue_def sluice_dequeue_def sluice_ack_def sluice_nack_def Let_def
    fun_upd_idem split: if_splits option.splits list.splits prod.splits sum.splits)

section \<open>Properties\<close>

definition sluice_run ::
  "((sluice_wal_record \<Rightarrow> string + string) \<times> append_io) queue_op list \<Rightarrow> sluice_file \<Rightarrow>
   queue_report list \<times> sluice_file" where
  "sluice_run =
     queue_run (queue_exec (\<lambda>(ts, env). sluice_enqueue ts env) (\<lambda>(ts, env). sluice_dequeue ts env)
       (\<lambda>(ts, env). sluice_ack ts env) (\<lambda>(ts, env). sluice_nack ts env) (\<lambda>q. hm_get (in_flight (sq_state q))))"

definition sluice_holds :: "sluice_file \<Rightarrow> message \<Rightarrow> bool" where
  "sluice_holds q m =
     ((\<exists>t. m \<in> set (hm_get_or [] (pending (sq_state q)) t)) \<or> hm_get (in_flight (sq_state q)) (msg_id m) = Some m)"

definition sluice_fresh :: "sluice_file \<Rightarrow> bool" where
  "sluice_fresh q = (sq_state q = sluice_state_default)"

lemma sluice_fresh_facts:
  assumes "sluice_fresh q"
  shows "sluice_wf (sq_state q)" "hm_get_or [] (pending (sq_state q)) = (\<lambda>_. [])"
    "hm_get (in_flight (sq_state q)) = (\<lambda>_. None)" "next_id (sq_state q) = 0"
    "queue_ok (hm_get_or [] (pending (sq_state q))) (hm_get (in_flight (sq_state q))) (next_id (sq_state q))"
  using assms
  by (auto simp: sluice_fresh_def sluice_state_default_def sluice_wf_def depth_sum_def queue_ok_def)

text \<open>
  C4. No message is lost and none is invented or duplicated: whatever sequence of enqueues,
  dequeues, acks and nacks runs against a new file-backed queue, failing appends included, a
  message is waiting or in flight exactly when its enqueue was accepted and it has not been
  settled by an ack; and no two accepted messages share an identifier.
\<close>

theorem sluice_conservation:
  assumes "sluice_fresh q" and "sluice_run ops q = (rs, q')" and "length ops < 2 ^ 64"
  shows "(\<forall>m. sluice_holds q' m \<longleftrightarrow> m \<in> set (accepted rs) \<and> msg_id m \<notin> set (settled rs)) \<and>
    distinct (map msg_id (accepted rs))"
proof -
  note r = assms(2) [unfolded sluice_run_def] and f = sluice_fresh_facts [OF assms(1)]
  have ok: "queue_ok (hm_get_or [] (pending (sq_state q'))) (hm_get (in_flight (sq_state q'))) (next_id (sq_state q'))"
    using sluice_file.run_invariant [OF f(1,5) _ r] f(4) assms(3) by simp
  have "sluice_holds q' m \<longleftrightarrow> m \<in> sluice_file.held q'" for m
    using queue_okD(3) [OF ok] by (auto simp: sluice_holds_def sluice_file.held_iff)
  then show ?thesis
    using sluice_file.run_conserves [OF f(1-4) assms(3) r] by auto
qed

text \<open>
  First in, first out: as long as nothing is returned by a nack, the messages delivered to a
  tenant followed by those still waiting are the accepted messages of that tenant in the order of
  their acceptance; another tenant's traffic does not show.
\<close>

theorem sluice_fifo:
  assumes "sluice_fresh q" and "sluice_run ops q = (rs, q')" and "length ops < 2 ^ 64" and "no_returns rs"
  shows "delivered t rs @ hm_get_or [] (pending (sq_state q')) t = accepted_by t rs"
  using sluice_file.run_fifo [OF sluice_fresh_facts(1,5) [OF assms(1)] _ assms(2) [unfolded sluice_run_def] assms(4), of t]
    sluice_fresh_facts(2,4) [OF assms(1)] assms(3) by simp

text \<open>
  The depth counter never drifts: after any sequence of operations it is the sum of the
  tenants' queue lengths.
\<close>

theorem sluice_total_exact:
  assumes "sluice_fresh q" and "sluice_run ops q = (rs, q')" and "length ops < 2 ^ 64"
  shows "sluice_total_depth q' = (\<Sum>(t, _) \<leftarrow> pending (sq_state q'). sluice_depth t q')"
proof -
  note f = sluice_fresh_facts [OF assms(1)]
  have wf: "sluice_wf (sq_state q')"
    using sluice_file.run_invariant [OF f(1,5) _ assms(2) [unfolded sluice_run_def]] f(4) assms(3) by simp
  then have "map (\<lambda>(t, _). sluice_depth t q') (pending (sq_state q')) = map (\<lambda>(_, q). length q) (pending (sq_state q'))"
    by (auto simp: sluice_wf_def hm_wf_def sluice_depth_def sluice_state_depth_def)
  moreover have "sluice_total_depth q' = sum_list (map (\<lambda>(_, q). length q) (pending (sq_state q')))"
    using wf by (simp add: sluice_total_depth_def sluice_wf_def depth_sum_def)
  ultimately show ?thesis
    by metis
qed

section \<open>Restart\<close>

text \<open>
  Two states show the same queue: the same messages wait in the same order, the same are in flight,
  the counter is the same.
\<close>

definition sluice_same :: "sluice_state \<Rightarrow> sluice_state \<Rightarrow> bool" where
  "sluice_same s s' = (hm_get_or [] (pending s) = hm_get_or [] (pending s') \<and>
     hm_get (in_flight s) = hm_get (in_flight s') \<and> next_id s = next_id s')"

lemma sluice_remove_id_other: "mid \<notin> msg_id ` set q \<Longrightarrow> sluice_remove_id mid q = None"
  by (induction q) auto

lemma sluice_find_pending_front:
  assumes "hm_wf p" and "hm_get p t = Some (m # q)"
    and "\<And>t' q'. hm_get p t' = Some q' \<Longrightarrow> t' \<noteq> t \<Longrightarrow> msg_id m \<notin> msg_id ` set q'"
  shows "sluice_find_pending (msg_id m) p = Some (t, m, hm_insert t q p)"
  using assms
proof (induction p)
  case (Cons kv p)
  obtain k v where kv: "kv = (k, v)"
    by (cases kv)
  have wf: "hm_wf p" "hm_get p k = None"
    using hm_wf_ConsD [of k v p] Cons.prems(1) kv by simp_all
  show ?case
  proof (cases "k = t")
    case True
    with Cons.prems(2) kv show ?thesis
      by simp
  next
    case False
    have "sluice_remove_id (msg_id m) v = None"
      using Cons.prems(3) [of k v] False kv by (simp add: sluice_remove_id_other)
    moreover have "sluice_find_pending (msg_id m) p = Some (t, m, hm_insert t q p)"
    proof (rule Cons.IH [OF wf(1)])
      show "hm_get p t = Some (m # q)"
        using Cons.prems(2) False kv by simp
      fix t' q'
      assume "hm_get p t' = Some q'" "t' \<noteq> t"
      then show "msg_id m \<notin> msg_id ` set q'"
        using Cons.prems(3) [of t' q'] wf(2) kv by (cases "t' = k") auto
    qed
    ultimately show ?thesis
      using False kv by simp
  qed
qed simp

text \<open>Replaying a record does to the recovered state what the operation did to the live one.\<close>

lemma replay_enqueue:
  assumes "sluice_same s r" and "hm_wf (pending r)" and "next_id s \<noteq> - 1"
    and "m = \<lparr>msg_id = next_id s + 1, msg_tenant = t, msg_payload = p\<rparr>"
  shows "\<exists>r'. sluice_apply_record (SluiceWalEnqueue (next_id s + 1) t (encode_hex p)) r = (Inr (), r') \<and>
    hm_wf (pending r') \<and>
    hm_get_or [] (pending r') = (hm_get_or [] (pending s))(t := hm_get_or [] (pending s) t @ [m]) \<and>
    hm_get (in_flight r') = hm_get (in_flight s) \<and> next_id r' = next_id s + 1"
  using assms word_less_Suc [OF assms(3)]
  by (auto simp: sluice_same_def hex_roundtrip Let_def) (simp add: sluice_push_back_def)

lemma replay_dequeue:
  assumes "sluice_same s r" and "hm_wf (pending r)" and "hm_get_or [] (pending s) t = m # q"
    and ok: "queue_ok (hm_get_or [] (pending s)) (hm_get (in_flight s)) (next_id s)"
  shows "\<exists>r'. sluice_apply_record (SluiceWalDequeue (msg_id m)) r = (Inr (), r') \<and> hm_wf (pending r') \<and>
    hm_get_or [] (pending r') = (hm_get_or [] (pending s))(t := q) \<and>
    hm_get (in_flight r') = (hm_get (in_flight s))(msg_id m \<mapsto> m) \<and> next_id r' = next_id s"
proof -
  have g: "hm_get_or [] (pending r) = hm_get_or [] (pending s)"
    using assms(1) by (simp add: sluice_same_def)
  have "hm_get_or [] (pending r) t = m # q"
    using assms(3) g by simp
  then have "hm_get (pending r) t = Some (m # q)"
    by (cases "hm_get (pending r) t") (auto simp: hm_get_or_def)
  moreover have "msg_id m \<notin> msg_id ` set q'" if "hm_get (pending r) t' = Some q'" "t' \<noteq> t" for t' q'
  proof
    assume "msg_id m \<in> msg_id ` set q'"
    then obtain m' where m': "m' \<in> set q'" "msg_id m = msg_id m'"
      by blast
    have "hm_get_or [] (pending s) t' = q'"
      using that(1) g by (metis hm_get_or_SomeD)
    then show False
      using queue_okD(4) [OF ok, of m t m' t'] m' that(2) assms(3) by simp
  qed
  ultimately have f: "sluice_find_pending (msg_id m) (pending r) = Some (t, m, hm_insert t q (pending r))"
    using sluice_find_pending_front [OF assms(2)] by blast
  show ?thesis
    using assms(1,2) f by (auto simp: sluice_same_def g fun_eq_iff)
qed

lemma replay_ack:
  "sluice_same s r \<Longrightarrow> hm_wf (pending r) \<Longrightarrow>
   \<exists>r'. sluice_apply_record (SluiceWalAck i) r = (Inr (), r') \<and> hm_wf (pending r') \<and>
     hm_get_or [] (pending r') = hm_get_or [] (pending s) \<and>
     hm_get (in_flight r') = (hm_get (in_flight s))(i := None) \<and> next_id r' = next_id s"
  by (simp add: sluice_same_def)

lemma replay_nack:
  assumes "sluice_same s r" and "hm_wf (pending r)" and "hm_get (in_flight s) i = Some m"
  shows "\<exists>r'. sluice_apply_record (SluiceWalNack i) r = (Inr (), r') \<and> hm_wf (pending r') \<and>
     hm_get_or [] (pending r') = (hm_get_or [] (pending s))(msg_tenant m := m # hm_get_or [] (pending s) (msg_tenant m)) \<and>
     hm_get (in_flight r') = (hm_get (in_flight s))(i := None) \<and> next_id r' = next_id s"
  using assms by (auto simp: sluice_same_def) (simp add: sluice_push_front_def)

text \<open>The files of a queue hold its state.\<close>

definition sluice_durable ::
  "(sluice_wal_record \<Rightarrow> string + string) \<Rightarrow> (string \<Rightarrow> string + sluice_wal_record) \<Rightarrow>
   (string \<Rightarrow> string + sluice_snapshot_doc) \<Rightarrow> sluice_file \<Rightarrow> bool" where
  "sluice_durable ts fs fr q =
     (wr_buf (sq_wal q) = [] \<and> wr_synced (sq_wal q) = length (wr_file (sq_wal q)) \<and> sluice_wf (sq_state q) \<and>
      hm_wf (in_flight (sq_state q)) \<and>
      queue_ok (hm_get_or [] (pending (sq_state q))) (hm_get (in_flight (sq_state q))) (next_id (sq_state q)) \<and>
      (\<exists>base rs r. snapshot_base fr sluice_load_snapshot sluice_state_default (sf_canonical (sq_dir q)) base \<and>
         list_all (serde_line ts fs) rs \<and> wr_file (sq_wal q) = wal_image (line_of ts) rs \<and>
         apply_all sluice_apply_record rs base = (Inr (), r) \<and> hm_wf (pending r) \<and> sluice_same (sq_state q) r))"

lemma sluice_durable_cong:
  "sluice_durable ts fs fr q \<Longrightarrow> sq_wal q' = sq_wal q \<Longrightarrow> sq_dir q' = sq_dir q \<Longrightarrow>
   sluice_same (sq_state q') (sq_state q) \<Longrightarrow> sluice_wf (sq_state q') \<Longrightarrow>
   hm_wf (in_flight (sq_state q')) \<Longrightarrow> sluice_durable ts fs fr q'"
  by (simp add: sluice_durable_def sluice_same_def)

lemma sluice_durable_step:
  assumes d: "sluice_durable ts fs fr q" and a: "sluice_append_wal ts env rec (sq_wal q) = (Inr (), sq_wal q')"
    and ok: "serde_line ts fs rec" and dir: "sq_dir q' = sq_dir q" and wf: "sluice_wf (sq_state q')"
    and fwf: "hm_wf (in_flight (sq_state q'))"
    and qok: "queue_ok (hm_get_or [] (pending (sq_state q'))) (hm_get (in_flight (sq_state q'))) (next_id (sq_state q'))"
    and step: "\<And>r. sluice_same (sq_state q) r \<Longrightarrow> hm_wf (pending r) \<Longrightarrow>
      \<exists>r'. sluice_apply_record rec r = (Inr (), r') \<and> hm_wf (pending r') \<and>
        hm_get_or [] (pending r') = hm_get_or [] (pending (sq_state q')) \<and>
        hm_get (in_flight r') = hm_get (in_flight (sq_state q')) \<and> next_id r' = next_id (sq_state q')"
  shows "sluice_durable ts fs fr q'"
proof -
  from d obtain base rs r where b: "snapshot_base fr sluice_load_snapshot sluice_state_default (sf_canonical (sq_dir q)) base"
    and rs: "list_all (serde_line ts fs) rs" "wr_file (sq_wal q) = wal_image (line_of ts) rs"
    and r: "apply_all sluice_apply_record rs base = (Inr (), r)" "hm_wf (pending r)" "sluice_same (sq_state q) r"
    and buf: "wr_buf (sq_wal q) = []"
    by (auto simp: sluice_durable_def)
  from step [OF r(3,2)] obtain r' where r': "sluice_apply_record rec r = (Inr (), r')" "hm_wf (pending r')"
    "sluice_same (sq_state q') r'"
    by (auto simp: sluice_same_def)
  have w: "wr_file (sq_wal q') = wal_image (line_of ts) (rs @ [rec])" "wr_buf (sq_wal q') = []"
    "wr_synced (sq_wal q') = length (wr_file (sq_wal q'))"
    using append_wal_acked [OF a [unfolded sluice_append_wal_def]] serde_ok_line [of ts fs rec] ok buf rs(2)
    by (auto simp: wr_stream_def serde_line_def)
  have "apply_all sluice_apply_record (rs @ [rec]) base = (Inr (), r')"
    using r(1) r'(1) by simp
  then show ?thesis
    using b rs(1) ok r'(2,3) w wf fwf qok dir unfolding sluice_durable_def
    by (intro conjI exI [of _ base] exI [of _ "rs @ [rec]"] exI [of _ r']) auto
qed

lemma sluice_durable_enqueue:
  assumes d: "sluice_durable ts fs fr q" and e: "sluice_enqueue ts env t p q = (Inr i, q')"
    and "next_id (sq_state q) \<noteq> - 1" and "serde_line ts fs (SluiceWalEnqueue (next_id (sq_state q) + 1) t (encode_hex p))"
  shows "sluice_durable ts fs fr q'"
proof -
  have wf: "sluice_wf (sq_state q)"
    and ok: "queue_ok (hm_get_or [] (pending (sq_state q))) (hm_get (in_flight (sq_state q))) (next_id (sq_state q))"
    using d by (auto simp: sluice_durable_def)
  have f: "sluice_wf (sq_state q')" "next_id (sq_state q') = next_id (sq_state q) + 1"
    "hm_get_or [] (pending (sq_state q')) = (hm_get_or [] (pending (sq_state q)))(t := hm_get_or [] (pending (sq_state q)) t @
       [\<lparr>msg_id = next_id (sq_state q) + 1, msg_tenant = t, msg_payload = p\<rparr>])"
    "hm_get (in_flight (sq_state q')) = hm_get (in_flight (sq_state q))"
    using sluice_file.enqueue_ok [OF wf, of "(ts, env)" t p i q'] e by auto
  have a: "sluice_append_wal ts env (SluiceWalEnqueue (next_id (sq_state q) + 1) t (encode_hex p)) (sq_wal q) =
      (Inr (), sq_wal q')" and dir: "sq_dir q' = sq_dir q"
    using e by (auto simp: sluice_enqueue_def Let_def split: if_splits prod.splits sum.splits)
  have fw: "hm_wf (in_flight (sq_state q'))"
    using d e by (auto simp: sluice_enqueue_def sluice_durable_def Let_def split: if_splits prod.splits sum.splits)
  show ?thesis
    by (rule sluice_durable_step [OF d a assms(4) dir f(1) fw])
      (use queue_ok_enqueue [OF ok assms(3)] replay_enqueue [OF _ _ assms(3) refl, of _ t p]
       in \<open>simp_all only: f\<close>)
qed

lemma sluice_durable_dequeue:
  assumes d: "sluice_durable ts fs fr q" and e: "sluice_dequeue ts env t q = (Inr (Some m), q')"
    and "serde_line ts fs (SluiceWalDequeue (msg_id m))"
  shows "sluice_durable ts fs fr q'"
proof -
  have wf: "sluice_wf (sq_state q)"
    and ok: "queue_ok (hm_get_or [] (pending (sq_state q))) (hm_get (in_flight (sq_state q))) (next_id (sq_state q))"
    using d by (auto simp: sluice_durable_def)
  obtain rest where f: "sluice_wf (sq_state q')" "next_id (sq_state q') = next_id (sq_state q)"
    "hm_get_or [] (pending (sq_state q)) t = m # rest"
    "hm_get_or [] (pending (sq_state q')) = (hm_get_or [] (pending (sq_state q)))(t := rest)"
    "hm_get (in_flight (sq_state q')) = (hm_get (in_flight (sq_state q)))(msg_id m \<mapsto> m)"
    using sluice_file.dequeue_some [OF wf, of "(ts, env)" t m q'] e by auto
  have a: "sluice_append_wal ts env (SluiceWalDequeue (msg_id m)) (sq_wal q) = (Inr (), sq_wal q')"
    and dir: "sq_dir q' = sq_dir q"
    using e by (auto simp: sluice_dequeue_def Let_def split: option.splits list.splits prod.splits sum.splits)
  have fw: "hm_wf (in_flight (sq_state q'))"
    using d e by (auto simp: sluice_dequeue_def sluice_durable_def Let_def split: option.splits list.splits prod.splits sum.splits)
  show ?thesis
    by (rule sluice_durable_step [OF d a assms(3) dir f(1) fw])
      (use queue_ok_dequeue [OF ok f(3)] replay_dequeue [OF _ _ f(3) ok] in \<open>simp_all add: f\<close>)
qed

lemma sluice_durable_ack:
  assumes d: "sluice_durable ts fs fr q" and e: "sluice_ack ts env i q = (Inr (), q')"
    and "serde_line ts fs (SluiceWalAck i)"
  shows "sluice_durable ts fs fr q'"
proof (cases "hm_get (in_flight (sq_state q)) i")
  case None
  then show ?thesis
    using d e by (simp add: sluice_ack_def)
next
  case (Some m)
  have wf: "sluice_wf (sq_state q)"
    and ok: "queue_ok (hm_get_or [] (pending (sq_state q))) (hm_get (in_flight (sq_state q))) (next_id (sq_state q))"
    using d by (auto simp: sluice_durable_def)
  have f: "sluice_wf (sq_state q')" "next_id (sq_state q') = next_id (sq_state q)"
    "hm_get_or [] (pending (sq_state q')) = hm_get_or [] (pending (sq_state q))"
    "hm_get (in_flight (sq_state q')) = (hm_get (in_flight (sq_state q)))(i := None)"
    using sluice_file.ack_ok [OF wf, of "(ts, env)" i q'] e by auto
  have a: "sluice_append_wal ts env (SluiceWalAck i) (sq_wal q) = (Inr (), sq_wal q')"
    and dir: "sq_dir q' = sq_dir q"
    using e Some by (auto simp: sluice_ack_def Let_def split: prod.splits sum.splits)
  have fw: "hm_wf (in_flight (sq_state q'))"
    using d e Some by (auto simp: sluice_ack_def sluice_durable_def Let_def split: prod.splits sum.splits)
  show ?thesis
    by (rule sluice_durable_step [OF d a assms(3) dir f(1) fw])
      (use queue_ok_settle [OF ok] replay_ack [of "sq_state q" _ i] in \<open>simp_all add: f\<close>)
qed

lemma sluice_durable_nack:
  assumes d: "sluice_durable ts fs fr q" and e: "sluice_nack ts env i q = (Inr (), q')"
    and "serde_line ts fs (SluiceWalNack i)"
  shows "sluice_durable ts fs fr q'"
proof (cases "hm_get (in_flight (sq_state q)) i")
  case None
  then show ?thesis
    using d e by (simp add: sluice_nack_def)
next
  case (Some m)
  have wf: "sluice_wf (sq_state q)"
    and ok: "queue_ok (hm_get_or [] (pending (sq_state q))) (hm_get (in_flight (sq_state q))) (next_id (sq_state q))"
    using d by (auto simp: sluice_durable_def)
  have f: "sluice_wf (sq_state q')" "next_id (sq_state q') = next_id (sq_state q)"
    "hm_get_or [] (pending (sq_state q')) = (hm_get_or [] (pending (sq_state q)))
       (msg_tenant m := m # hm_get_or [] (pending (sq_state q)) (msg_tenant m))"
    "hm_get (in_flight (sq_state q')) = (hm_get (in_flight (sq_state q)))(i := None)"
    using sluice_file.nack_ok [OF wf, of "(ts, env)" i q'] e Some by auto
  have a: "sluice_append_wal ts env (SluiceWalNack i) (sq_wal q) = (Inr (), sq_wal q')"
    and dir: "sq_dir q' = sq_dir q"
    using e Some by (auto simp: sluice_nack_def Let_def split: prod.splits sum.splits)
  have fw: "hm_wf (in_flight (sq_state q'))"
    using d e Some by (auto simp: sluice_nack_def sluice_durable_def Let_def split: prod.splits sum.splits)
  show ?thesis
    by (rule sluice_durable_step [OF d a assms(3) dir f(1) fw])
      (use queue_ok_return [OF ok Some] replay_nack [OF _ _ Some] in \<open>simp_all add: f\<close>)
qed

lemma sluice_load_messages_snap: "sluice_load_messages (map sluice_snap_message ms) = Inr ms"
  by (induction ms) (simp_all add: sluice_load_message_def sluice_snap_message_def hex_roundtrip)

lemma sluice_load_pending_snap:
  "sluice_load_pending (map (\<lambda>(t, q). (t, map sluice_snap_message q)) p) m = Inr (fold (\<lambda>(k, v) m. hm_insert k v m) p m)"
  by (induction p arbitrary: m) (auto simp: sluice_load_messages_snap)

lemma fold_in_flight:
  "list_all (\<lambda>(i, m). msg_id m = i) f \<Longrightarrow>
   fold (\<lambda>m. hm_insert (msg_id m) m) (map snd f) g = fold (\<lambda>(k, v) m. hm_insert k v m) f g"
  by (induction f arbitrary: g) auto

lemma sluice_load_dump:
  assumes "sluice_wf s" and "hm_wf (in_flight s)"
    and ok: "queue_ok (hm_get_or [] (pending s)) (hm_get (in_flight s)) (next_id s)"
  shows "\<exists>s'. sluice_load_snapshot (sluice_dump s) = Inr s' \<and> hm_wf (pending s') \<and> sluice_same s s'"
proof -
  have keys: "list_all (\<lambda>(i, m). msg_id m = i) (in_flight s)"
    using queue_okD(3) [OF ok] hm_wf_get [OF assms(2)] by (simp add: list_all_iff split_paired_all)
  have wf: "hm_wf m \<Longrightarrow> hm_wf (fold (\<lambda>(k, v) m. hm_insert k v m) p m)"
    for p m :: "(tenant_id, message list) hash_map"
    by (induction p arbitrary: m) auto
  let ?ins = "\<lambda>(k, v) m. hm_insert k v m"
  have "map (\<lambda>(_, m). sluice_snap_message m) (in_flight s) = map sluice_snap_message (map snd (in_flight s))"
    by (simp add: split_def)
  then have "sluice_load_messages (sd_in_flight (sluice_dump s)) = Inr (map snd (in_flight s))"
    by (simp only: sluice_dump_def sluice_snapshot_doc.simps sluice_load_messages_snap)
  then have load: "sluice_load_snapshot (sluice_dump s) = Inr \<lparr>next_id = next_id s, pending = fold ?ins (pending s) [],
      in_flight = fold ?ins (in_flight s) [], total = 0\<rparr>"
    using fold_in_flight [OF keys, of "[]"]
    by (simp add: sluice_load_snapshot_def sluice_dump_def sluice_load_pending_snap)
  have "hm_get (fold ?ins (pending s) []) = hm_get (pending s)" "hm_get (fold ?ins (in_flight s) []) = hm_get (in_flight s)"
    using assms(1,2) by (auto simp: fold_insert_get sluice_wf_def fun_eq_iff split: option.splits)
  then have "sluice_same s \<lparr>next_id = next_id s, pending = fold ?ins (pending s) [],
      in_flight = fold ?ins (in_flight s) [], total = 0\<rparr>"
    by (simp add: sluice_same_def hm_get_or_def fun_eq_iff)
  then show ?thesis
    unfolding load using wf [of "[]" "pending s"] by auto
qed

lemma sluice_durable_snapshot:
  assumes d: "sluice_durable ts fs fr q" and e: "sluice_snapshot tw env fsync_file q = (Inr (), q')"
    and data: "tw (sluice_dump (sq_state q)) = Inr data" "fr data = Inr (sluice_dump (sq_state q))"
    and honest: "\<And>b. fsync_file b = Inr b"
  shows "sluice_durable ts fs fr q'"
proof -
  obtain res trace where
    t: "pillar_snapshot env fsync_file (Inr data) (sq_dir q) (sq_wal q) = (res, trace)"
    by fastforce
  with e data have r: "res = Inr ()" and q': "q' = q\<lparr>sq_dir := fst (last trace), sq_wal := snd (last trace)\<rparr>"
    by (cases res; simp add: sluice_snapshot_def)+
  have "sf_canonical (sq_dir q') = Some \<lparr>df_bytes = data, df_synced = length data\<rparr>" "sq_wal q' = open_writer [] 0"
    using t r honest unfolding q'
    by (auto simp: pillar_snapshot_def atomic_write_snapshot_def Let_def
        split: prod.splits if_splits option.splits sum.splits)
  moreover obtain base where "sluice_load_snapshot (sluice_dump (sq_state q)) = Inr base" "hm_wf (pending base)"
    "sluice_same (sq_state q) base"
    using sluice_load_dump [of "sq_state q"] d by (auto simp: sluice_durable_def)
  ultimately show ?thesis
    using d data(2) unfolding sluice_durable_def
    by (auto simp: q' open_writer_def snapshot_base_def intro!: exI [of _ "[]"])
qed

lemma sluice_reopen:
  assumes "sluice_durable ts fs fr q"
  shows "\<exists>q'. sluice_open_with_fsync_backend fs fr cap (disk_of (sq_dir q) (sq_wal q)) = Inr q' \<and>
    sluice_same (sq_state q) (sq_state q') \<and> sluice_wf (sq_state q') \<and> sq_wal q' = sq_wal q \<and>
    sf_canonical (sq_dir q') = sf_canonical (sq_dir q)"
proof -
  from assms obtain base rs r where
    b: "snapshot_base fr sluice_load_snapshot sluice_state_default (sf_canonical (sq_dir q)) base"
    and rs: "codec_ok (line_of ts) fs rs" "no_cr (line_of ts) rs" "wr_file (sq_wal q) = wal_image (line_of ts) rs"
    and r: "apply_all sluice_apply_record rs base = (Inr (), r)" "hm_wf (pending r)" "sluice_same (sq_state q) r"
    and w: "wr_buf (sq_wal q) = []" "wr_synced (sq_wal q) = length (wr_file (sq_wal q))"
    by (auto simp: sluice_durable_def serde_line_all)
  have rep: "sluice_replay fs (wr_file (sq_wal q)) base = (Inr (), r, [])"
    using buf_read_lines_image [OF rs(1,2)] replay_buf_lines_image [OF rs(1), of sluice_apply_record] r(1) rs(3)
    by (simp add: sluice_replay_def)
  have ow: "open_writer (wr_file (sq_wal q)) (wr_synced (sq_wal q)) = sq_wal q"
    using w by (simp add: open_writer_def)
  have "sluice_open_with_fsync_backend fs fr cap (disk_of (sq_dir q) (sq_wal q)) =
      Inr \<lparr>sq_cap = cap, sq_state = sluice_count r, sq_wal = sq_wal q,
        sq_dir = \<lparr>sf_canonical = sf_canonical (sq_dir q), sf_tmp = None, sf_undo = None\<rparr>, sq_events = []\<rparr>"
    using wal_open_disk_of [OF b, of "sluice_replay fs" "sq_wal q" r "[]" sluice_io sluice_parse sluice_count] rep ow
    by (simp add: sluice_open_with_fsync_backend_def)
  then show ?thesis
    using r(2,3) by (auto simp: sluice_same_def sluice_wf_def sluice_count_def depth_sum_def)
qed

lemma depth_sum_lookup:
  assumes "hm_wf m"
  shows "depth_sum m = (\<Sum>t\<in>fst ` set m. length (hm_get_or [] m t))"
proof -
  have "depth_sum m = sum_list (map (\<lambda>t. length (hm_get_or [] m t)) (map fst m))"
    using assms unfolding depth_sum_def
    by (auto simp: hm_wf_def hm_get_or_def intro!: arg_cong [where f = sum_list])
  also have "\<dots> = (\<Sum>t\<in>set (map fst m). length (hm_get_or [] m t))"
    using assms by (intro sum_list_distinct_conv_sum_set) (simp add: hm_wf_def)
  finally show ?thesis
    by simp
qed

lemma depth_sum_cong:
  assumes "hm_wf m" "hm_wf m'" "hm_get_or [] m = hm_get_or [] m'"
  shows "depth_sum m = depth_sum m'"
proof -
  let ?K = "fst ` set m \<union> fst ` set m'"
  have zero: "hm_get_or [] m t = []" if "t \<notin> fst ` set m" for t and m :: "(tenant_id, message list) hash_map"
    using that by (simp add: hm_get_or_def map_of_eq_None_iff [THEN iffD2])
  have "depth_sum m = (\<Sum>t\<in>?K. length (hm_get_or [] m t))"
    unfolding depth_sum_lookup [OF assms(1)] by (rule sum.mono_neutral_left) (auto simp: zero)
  moreover have "depth_sum m' = (\<Sum>t\<in>?K. length (hm_get_or [] m' t))"
    unfolding depth_sum_lookup [OF assms(2)] by (rule sum.mono_neutral_left) (auto simp: zero)
  ultimately show ?thesis
    by (simp add: assms(3))
qed

inductive sluice_history ::
  "(sluice_wal_record \<Rightarrow> string + string) \<Rightarrow> (string \<Rightarrow> string + sluice_wal_record) \<Rightarrow>
   (sluice_snapshot_doc \<Rightarrow> (string \<times> string) + string) \<Rightarrow> (string \<Rightarrow> string + sluice_snapshot_doc) \<Rightarrow>
   sluice_file \<Rightarrow> bool"
  for ts fs tw fr where
  created: "sluice_open_with_fsync_backend fs fr cap
      \<lparr>sd_snapshot = Absent, sd_wal = Absent, sd_append_error = None\<rparr> = Inr q \<Longrightarrow> sluice_history ts fs tw fr q"
| enqueued: "sluice_history ts fs tw fr q \<Longrightarrow> sluice_enqueue ts env t p q = (Inr i, q') \<Longrightarrow>
    next_id (sq_state q) \<noteq> - 1 \<Longrightarrow>
    serde_line ts fs (SluiceWalEnqueue (next_id (sq_state q) + 1) t (encode_hex p)) \<Longrightarrow> sluice_history ts fs tw fr q'"
| full: "sluice_history ts fs tw fr q \<Longrightarrow> sluice_enqueue ts env t p q = (Inl (Full t c), q') \<Longrightarrow>
    sluice_history ts fs tw fr q'"
| dequeued: "sluice_history ts fs tw fr q \<Longrightarrow> sluice_dequeue ts env t q = (Inr (Some m), q') \<Longrightarrow>
    serde_line ts fs (SluiceWalDequeue (msg_id m)) \<Longrightarrow> sluice_history ts fs tw fr q'"
| acked: "sluice_history ts fs tw fr q \<Longrightarrow> sluice_ack ts env i q = (Inr (), q') \<Longrightarrow>
    serde_line ts fs (SluiceWalAck i) \<Longrightarrow> sluice_history ts fs tw fr q'"
| nacked: "sluice_history ts fs tw fr q \<Longrightarrow> sluice_nack ts env i q = (Inr (), q') \<Longrightarrow>
    serde_line ts fs (SluiceWalNack i) \<Longrightarrow> sluice_history ts fs tw fr q'"
| snapshotted: "sluice_history ts fs tw fr q \<Longrightarrow> sluice_snapshot tw env (real_fsync_file None) q = (Inr (), q') \<Longrightarrow>
    tw (sluice_dump (sq_state q)) = Inr data \<Longrightarrow> fr data = Inr (sluice_dump (sq_state q)) \<Longrightarrow>
    sluice_history ts fs tw fr q'"

lemma sluice_history_durable: "sluice_history ts fs tw fr q \<Longrightarrow> sluice_durable ts fs fr q"
proof (induction rule: sluice_history.induct)
  case (created cap q)
  then show ?case
    by (auto simp: sluice_open_with_fsync_backend_def pillar_open_def sluice_durable_def open_writer_def snap_fs_of_def
        snapshot_base_def sluice_count_def sluice_state_default_def sluice_wf_def depth_sum_def queue_ok_def
        sluice_same_def intro!: exI [of _ "[]"])
next
  case (full q env t p c q')
  then have "q' = q\<lparr>sq_state := sluice_entry t (sq_state q), sq_events := sq_events q @ [SluiceEnqueue t False]\<rparr>"
    by (auto simp: sluice_enqueue_def sluice_append_wal_def append_wal_def sluice_parse_def sluice_io_def Let_def
        split: if_splits prod.splits sum.splits option.splits)
  then show ?case
    using full.IH sluice_durable_cong [OF full.IH, of q']
    by (auto simp: sluice_same_def sluice_durable_def)
qed (auto intro: sluice_durable_enqueue sluice_durable_dequeue sluice_durable_ack sluice_durable_nack
    sluice_durable_snapshot [OF _ _ _ _ real_fsync.honest])

text \<open>
  C5. A restart gives back the queue: after any history of acknowledged operations, refusals for
  lack of room and snapshots, reopening succeeds and finds for every tenant the same messages
  waiting in the same order, the same messages in flight, the same depth and the same counter.
\<close>

theorem sluice_restart_exact:
  assumes "sluice_history ts fs tw fr q"
  shows "\<exists>q'. sluice_open_with_fsync_backend fs fr cap (disk_of (sq_dir q) (sq_wal q)) = Inr q' \<and>
    (\<forall>t. hm_get_or [] (pending (sq_state q')) t = hm_get_or [] (pending (sq_state q)) t) \<and>
    (\<forall>i. hm_get (in_flight (sq_state q')) i = hm_get (in_flight (sq_state q)) i) \<and>
    next_id (sq_state q') = next_id (sq_state q) \<and> sluice_total_depth q' = sluice_total_depth q"
proof -
  note d = sluice_history_durable [OF assms]
  from sluice_reopen [OF d, of cap] obtain q' where
    o: "sluice_open_with_fsync_backend fs fr cap (disk_of (sq_dir q) (sq_wal q)) = Inr q'"
    and same: "sluice_same (sq_state q) (sq_state q')" and wf: "sluice_wf (sq_state q')"
    by blast
  have "sluice_total_depth q' = sluice_total_depth q"
    using depth_sum_cong [of "pending (sq_state q')" "pending (sq_state q)"] wf d same
    by (simp add: sluice_total_depth_def sluice_wf_def sluice_durable_def sluice_same_def)
  with o same show ?thesis
    by (auto simp: sluice_same_def)
qed

text \<open>
  Sluice replays strictly: a crash in the middle of an append leaves a torn last line, and the
  next open refuses the queue with all the intact records before it.
\<close>

theorem sluice_torn_tail_refused:
  assumes "sluice_history ts fs tw fr q" and "torn \<noteq> []" and "newline \<notin> set torn" and "utf8_valid torn"
    and "fs torn = Inl j"
  shows "\<exists>n. sluice_open_with_fsync_backend fs fr cap
      (disk_of (sq_dir q) (open_writer (wr_file (sq_wal q) @ torn) k)) =
      Inl (SluicePersistenceFailed (SluiceWalParse n j torn))"
proof -
  from sluice_history_durable [OF assms(1)] obtain base rs r where
    b: "snapshot_base fr sluice_load_snapshot sluice_state_default (sf_canonical (sq_dir q)) base"
    and rs: "codec_ok (line_of ts) fs rs" "no_cr (line_of ts) rs" "wr_file (sq_wal q) = wal_image (line_of ts) rs"
    and r: "apply_all sluice_apply_record rs base = (Inr (), r)"
    by (auto simp: sluice_durable_def serde_line_all)
  have "sluice_replay fs (wr_file (sq_wal q) @ torn) base =
      (Inl (SluicePersistenceFailed (SluiceWalParse (length rs + 1) j torn)), r, [])"
    using buf_read_lines_torn [OF rs(1,2) assms(2,3)] replay_buf_lines_append [OF rs(1), of sluice_apply_record] r rs(3)
      assms(2,4,5)
    by (simp add: sluice_replay_def)
  then show ?thesis
    using b
    by (auto simp: sluice_open_with_fsync_backend_def pillar_open_def disk_of_def snapshot_base_def open_writer_def
        split: option.splits)
qed

section \<open>A concrete queue\<close>

definition sx_enqueue :: sluice_wal_record where "sx_enqueue = SluiceWalEnqueue 1 ''t'' ''2a''"

definition sx_to_string :: "sluice_wal_record \<Rightarrow> string + string" where
  "sx_to_string r = (if r = sx_enqueue then Inr ''e1'' else if r = SluiceWalDequeue 1 then Inr ''d1'' else Inl ''unsupported'')"

definition sx_from_str :: "string \<Rightarrow> string + sluice_wal_record" where
  "sx_from_str l = (if l = ''e1'' then Inr sx_enqueue else if l = ''d1'' then Inr (SluiceWalDequeue 1) else Inl ''expected value'')"

definition sx_io :: append_io where
  "sx_io = \<lparr>io_room = 100, io_write_error = [], io_fsync_error = None\<rparr>"

definition sx_file :: "string \<Rightarrow> sluice_state \<Rightarrow> sluice_event list \<Rightarrow> sluice_file" where
  "sx_file f st ev = \<lparr>sq_cap = 2, sq_state = st, sq_wal = \<lparr>wr_file = f, wr_buf = [], wr_synced = length f\<rparr>,
     sq_dir = \<lparr>sf_canonical = None, sf_tmp = None, sf_undo = None\<rparr>, sq_events = ev\<rparr>"

definition sx_message :: message where
  "sx_message = \<lparr>msg_id = 1, msg_tenant = ''t'', msg_payload = [42]\<rparr>"

lemma sx_hex: "encode_hex [42] = ''2a''"
  by (simp add: hex_char_def) code_simp

lemma sx_enqueued:
  "sluice_enqueue sx_to_string sx_io ''t'' [42] (sx_file [] sluice_state_default []) =
   (Inr 1, sx_file ''e1\<newline>'' \<lparr>next_id = 1, pending = [(''t'', [sx_message])], in_flight = [], total = 1\<rparr>
      [SluiceEnqueue ''t'' True])"
  by (simp add: sluice_enqueue_def sx_file_def sluice_state_default_def sluice_entry_def sluice_push_back_def
      sluice_append_wal_def sx_hex append_wal_succeeds [of _ _ "''e1''"] sx_to_string_def sx_enqueue_def sx_io_def
      sx_message_def Let_def hm_get_or_def del: encode_hex.simps)

lemma sx_dequeued:
  "sluice_dequeue sx_to_string sx_io ''t'' (sx_file ''e1\<newline>''
     \<lparr>next_id = 1, pending = [(''t'', [sx_message])], in_flight = [], total = 1\<rparr> [SluiceEnqueue ''t'' True]) =
   (Inr (Some sx_message), sx_file ''e1\<newline>d1\<newline>''
     \<lparr>next_id = 1, pending = [], in_flight = [(1, sx_message)], total = 0\<rparr> [SluiceEnqueue ''t'' True, SluiceDequeue ''t''])"
  by (simp add: sluice_dequeue_def sx_file_def sluice_pop_front_def sluice_append_wal_def
      append_wal_succeeds [of _ _ "''d1''"] sx_to_string_def sx_enqueue_def sx_io_def sx_message_def Let_def hm_get_or_def)

lemma sx_run:
  "sluice_run [QEnqueue (sx_to_string, sx_io) ''t'' [42], QDequeue (sx_to_string, sx_io) ''t''] (sx_file [] sluice_state_default [])
   = ([Accepted sx_message, Delivered sx_message], sx_file ''e1\<newline>d1\<newline>''
     \<lparr>next_id = 1, pending = [], in_flight = [(1, sx_message)], total = 0\<rparr> [SluiceEnqueue ''t'' True, SluiceDequeue ''t''])"
  by (simp add: sluice_run_def queue_exec_def sx_enqueued sx_dequeued [unfolded One_nat_def] sx_message_def [symmetric])

lemma sx_fresh: "sluice_fresh (sx_file [] sluice_state_default [])"
  by (simp add: sluice_fresh_def sx_file_def)

lemma sx_serde: "serde_line sx_to_string sx_from_str sx_enqueue" "serde_line sx_to_string sx_from_str (SluiceWalDequeue 1)"
  by (simp_all add: serde_line_def serde_ok_def no_cr_def line_of_def sx_to_string_def sx_from_str_def sx_enqueue_def
      utf8_valid_ascii)

theorem sluice_conservation_witness:
  "sluice_holds (snd (sluice_run [QEnqueue (sx_to_string, sx_io) ''t'' [42], QDequeue (sx_to_string, sx_io) ''t'']
     (sx_file [] sluice_state_default []))) sx_message"
  using sluice_conservation [OF sx_fresh sx_run] by (simp add: sx_run)

theorem sluice_fifo_witness:
  "delivered ''t'' (fst (sluice_run [QEnqueue (sx_to_string, sx_io) ''t'' [42], QDequeue (sx_to_string, sx_io) ''t'']
     (sx_file [] sluice_state_default []))) @ [] = accepted_by ''t'' [Accepted sx_message]"
  using sluice_fifo [OF sx_fresh sx_run, of "''t''"] unfolding sx_run
  by (simp add: sx_file_def no_returns_def accepted_by_def)

theorem sluice_total_exact_witness:
  "sluice_total_depth (snd (sluice_run [QEnqueue (sx_to_string, sx_io) ''t'' [42], QDequeue (sx_to_string, sx_io) ''t'']
     (sx_file [] sluice_state_default []))) = 0"
  using sluice_total_exact [OF sx_fresh sx_run] unfolding sx_run by (simp add: sx_file_def)

lemma sx_history:
  "sluice_history sx_to_string sx_from_str (\<lambda>_. Inl ([], [])) (\<lambda>_. Inl [])
     (sx_file ''e1\<newline>'' \<lparr>next_id = 1, pending = [(''t'', [sx_message])], in_flight = [], total = 1\<rparr>
      [SluiceEnqueue ''t'' True])"
proof (rule sluice_history.enqueued [OF _ sx_enqueued])
  show "sluice_history sx_to_string sx_from_str (\<lambda>_. Inl ([], [])) (\<lambda>_. Inl []) (sx_file [] sluice_state_default [])"
    by (rule sluice_history.created [of _ _ 2])
      (simp add: sluice_open_with_fsync_backend_def pillar_open_def open_writer_def snap_fs_of_def sluice_count_def
        sluice_state_default_def sx_file_def)
qed (use sx_serde(1) in \<open>simp_all add: sx_file_def sluice_state_default_def sx_enqueue_def sx_hex del: encode_hex.simps\<close>)

theorem sluice_restart_exact_witness:
  "\<exists>q'. sluice_open_with_fsync_backend sx_from_str (\<lambda>_. Inl []) 2
      (disk_of \<lparr>sf_canonical = None, sf_tmp = None, sf_undo = None\<rparr>
        \<lparr>wr_file = ''e1\<newline>'', wr_buf = [], wr_synced = 3\<rparr>) = Inr q' \<and>
    hm_get_or [] (pending (sq_state q')) ''t'' = [sx_message] \<and> sluice_total_depth q' = 1"
  using sluice_restart_exact [OF sx_history, of 2]
  by (auto simp: sx_file_def hm_get_or_def sluice_total_depth_def numeral_3_eq_3)

theorem sluice_torn_tail_refused_witness:
  "\<exists>n. sluice_open_with_fsync_backend sx_from_str (\<lambda>_. Inl []) 2
      (disk_of \<lparr>sf_canonical = None, sf_tmp = None, sf_undo = None\<rparr> (open_writer ''e1\<newline>d'' 3)) =
    Inl (SluicePersistenceFailed (SluiceWalParse n ''expected value'' ''d''))"
  using sluice_torn_tail_refused [OF sx_history, of "''d''" "''expected value''" 2 3]
  by (simp add: sx_file_def sx_from_str_def utf8_valid_ascii)

end
