(* ===== verification/Beacon_Rules.thy ===== *)
theory Beacon_Rules
  imports Kal_Prelude
begin

text \<open>
  Beacon's pure core (\<open>crates/beacon/src\<close>): rules and incidents (\<open>types.rs\<close>), the per-rule
  state machine (\<open>state_machine.rs\<close>), the cross-rule inhibition resolver (\<open>inhibition.rs\<close>) and the
  synthesis of burn-rate rules from an SLO (\<open>slo.rs\<close>).
\<close>

section \<open>Rules and incidents (\<open>types.rs\<close>)\<close>

datatype severity = Info | Warning | Critical

record sink_config =
  sc_kind :: string
  sc_url :: "string option"
  sc_channel :: "string option"
  sc_topic :: "string option"
  sc_auth_token_env :: "string option"

record rule =
  r_name :: string
  r_query :: string
  r_for_duration :: duration
  r_interval :: duration
  r_severity :: severity
  r_labels :: "(string, string) btree_map"
  r_sinks :: "sink_config list"
  r_inhibits :: "string list"

record incident =
  i_name :: string
  i_query :: string
  i_severity :: severity
  i_labels :: "(string, string) btree_map"
  i_started_at :: system_time
  i_resolved_at :: "system_time option"

definition incident_firing :: "rule \<Rightarrow> system_time \<Rightarrow> incident" where
  "incident_firing rule started_at =
     \<lparr>i_name = r_name rule, i_query = r_query rule, i_severity = r_severity rule,
      i_labels = r_labels rule, i_started_at = started_at, i_resolved_at = None\<rparr>"

definition incident_resolved :: "rule \<Rightarrow> system_time \<Rightarrow> system_time \<Rightarrow> incident" where
  "incident_resolved rule started_at resolved_at =
     \<lparr>i_name = r_name rule, i_query = r_query rule, i_severity = r_severity rule,
      i_labels = r_labels rule, i_started_at = started_at, i_resolved_at = Some resolved_at\<rparr>"

lemma incident_firing_sel [simp]:
  "i_name (incident_firing rule t) = r_name rule" "i_started_at (incident_firing rule t) = t"
  "i_resolved_at (incident_firing rule t) = None"
  by (simp_all add: incident_firing_def)

lemma incident_resolved_sel [simp]:
  "i_name (incident_resolved rule t u) = r_name rule" "i_started_at (incident_resolved rule t u) = t"
  "i_resolved_at (incident_resolved rule t u) = Some u"
  by (simp_all add: incident_resolved_def)

section \<open>The state machine of a rule (\<open>state_machine.rs\<close>)\<close>

datatype query_outcome = OutcomeActive | OutcomeInactive

datatype rule_state = RsInactive | RsPending system_time | RsFiring system_time

datatype emission = EmFiring incident | EmResolved incident

fun transition ::
  "rule_state \<Rightarrow> query_outcome \<Rightarrow> rule \<Rightarrow> system_time \<Rightarrow> rule_state \<times> emission option" where
  "transition RsInactive OutcomeInactive rule now = (RsInactive, None)"
| "transition RsInactive OutcomeActive rule now = (RsPending now, None)"
| "transition (RsPending since) OutcomeInactive rule now = (RsInactive, None)"
| "transition (RsPending since) OutcomeActive rule now =
     (let dwell = duration_since_or_zero now since in
      if dwell \<ge> r_for_duration rule
      then (RsFiring now, Some (EmFiring (incident_firing rule now)))
      else (RsPending since, None))"
| "transition (RsFiring since) OutcomeActive rule now = (RsFiring since, None)"
| "transition (RsFiring since) OutcomeInactive rule now =
     (RsInactive, Some (EmResolved (incident_resolved rule since now)))"

fun em_incident :: "emission \<Rightarrow> incident" where
  "em_incident (EmFiring i) = i"
| "em_incident (EmResolved i) = i"

abbreviation em_name :: "emission \<Rightarrow> string" where
  "em_name e \<equiv> i_name (em_incident e)"

section \<open>Inhibition (\<open>inhibition.rs\<close>)\<close>

record resolver =
  rv_inhibits :: "(string, string list) hash_map"
  rv_firing :: "(string, bool) hash_map"
  rv_pending :: "(string, incident) hash_map"

record carryover_state =
  co_firing :: "(string, bool) hash_map"
  co_pending :: "(string, incident) hash_map"

definition resolver_new :: "rule list \<Rightarrow> resolver" where
  "resolver_new rules =
     \<lparr>rv_inhibits = fold (\<lambda>rule m. hm_insert (r_name rule) (r_inhibits rule) m) rules [],
      rv_firing = fold (\<lambda>rule m. hm_insert (r_name rule) False m) rules [],
      rv_pending = []\<rparr>"

definition carryover :: "resolver \<Rightarrow> carryover_state" where
  "carryover rv = \<lparr>co_firing = rv_firing rv, co_pending = rv_pending rv\<rparr>"

definition has_surviving_inhibitor_of :: "resolver \<Rightarrow> string \<Rightarrow> bool" where
  "has_surviving_inhibitor_of rv target_name =
     list_ex (\<lambda>(candidate, inhibited). candidate \<noteq> target_name \<and> target_name \<in> set inhibited) (rv_inhibits rv)"

definition rebuild_firing :: "string \<times> bool \<Rightarrow> resolver \<Rightarrow> resolver" where
  "rebuild_firing = (\<lambda>(name, on) rv.
     if hm_contains (rv_firing rv) name then rv\<lparr>rv_firing := hm_insert name on (rv_firing rv)\<rparr> else rv)"

definition rebuild_pending :: "string \<times> incident \<Rightarrow> resolver \<Rightarrow> resolver" where
  "rebuild_pending = (\<lambda>(inhibited_name, incident) rv.
     if \<not> hm_contains (rv_firing rv) inhibited_name then rv
     else if \<not> has_surviving_inhibitor_of rv inhibited_name then rv
     else rv\<lparr>rv_pending := hm_insert inhibited_name incident (rv_pending rv)\<rparr>)"

definition rebuild_from :: "rule list \<Rightarrow> carryover_state \<Rightarrow> resolver" where
  "rebuild_from new_rules carried =
     fold rebuild_pending (co_pending carried) (fold rebuild_firing (co_firing carried) (resolver_new new_rules))"

definition has_active_inhibitor_of :: "resolver \<Rightarrow> string \<Rightarrow> bool" where
  "has_active_inhibitor_of rv target_name =
     list_ex (\<lambda>(candidate, inhibited).
        candidate \<noteq> target_name \<and> target_name \<in> set inhibited \<and> hm_get (rv_firing rv) candidate = Some True)
       (rv_inhibits rv)"

text \<open>The loop over the rules the resolved rule inhibits.\<close>

fun release_downstream :: "string list \<Rightarrow> resolver \<Rightarrow> resolver \<times> emission list" where
  "release_downstream [] rv = (rv, [])"
| "release_downstream (inhibited_name # rest) rv =
     (if has_active_inhibitor_of rv inhibited_name then release_downstream rest rv
      else case hm_get (rv_pending rv) inhibited_name of
             None \<Rightarrow> release_downstream rest rv
           | Some incident \<Rightarrow>
               (case release_downstream rest (rv\<lparr>rv_pending := hm_remove inhibited_name (rv_pending rv)\<rparr>) of
                  (rv', out) \<Rightarrow> (rv', EmFiring incident # out)))"

fun observe :: "string \<Rightarrow> emission option \<Rightarrow> resolver \<Rightarrow> resolver \<times> emission list" where
  "observe rule_name (Some (EmFiring incident)) rv =
     (let rv1 = rv\<lparr>rv_firing := hm_insert rule_name True (rv_firing rv)\<rparr> in
      if has_active_inhibitor_of rv1 rule_name
      then (rv1\<lparr>rv_pending := hm_insert rule_name incident (rv_pending rv1)\<rparr>, [])
      else (rv1, [EmFiring incident]))"
| "observe rule_name (Some (EmResolved incident)) rv =
     (let rv1 = rv\<lparr>rv_firing := hm_insert rule_name False (rv_firing rv)\<rparr>;
          out = (case hm_get (rv_pending rv1) rule_name of Some _ \<Rightarrow> [] | None \<Rightarrow> [EmResolved incident]);
          rv2 = rv1\<lparr>rv_pending := hm_remove rule_name (rv_pending rv1)\<rparr>;
          downstream = hm_get_or [] (rv_inhibits rv2) rule_name
      in case release_downstream downstream rv2 of (rv3, released) \<Rightarrow> (rv3, out @ released))"
| "observe rule_name None rv = (rv, [])"

declare observe.simps(1,2) [simp del]

definition firing_now :: "resolver \<Rightarrow> string set" where
  "firing_now rv = set (map fst (filter snd (rv_firing rv)))"

definition pending_count :: "resolver \<Rightarrow> nat" where
  "pending_count rv = length (rv_pending rv)"

section \<open>Burn-rate rules of an SLO (\<open>slo.rs\<close>)\<close>

text \<open>
  \<open>f64\<close> arithmetic and the formatting directives \<open>{}\<close> and \<open>{:.10}\<close> are the platform's: the synthesis takes them
  as a record and is generic in the type of floats.
\<close>

record 'f float_ops =
  fl_zero :: 'f
  fl_one :: 'f
  fl_less :: "'f \<Rightarrow> 'f \<Rightarrow> bool"
  fl_sub :: "'f \<Rightarrow> 'f \<Rightarrow> 'f"
  fl_mul :: "'f \<Rightarrow> 'f \<Rightarrow> 'f"
  fl_fmt10 :: "'f \<Rightarrow> string"
  fl_display :: "'f \<Rightarrow> string"
  fl_of_tenths :: "nat \<Rightarrow> 'f"

record 'f slo =
  slo_service :: string
  slo_good_events :: string
  slo_total_events :: string
  slo_target_availability :: 'f
  slo_error_budget_period :: duration
  slo_sinks :: "sink_config list"
  slo_source_path :: "string option"

record mwmbr_row =
  mw_severity :: severity
  mw_page_or_ticket :: string
  mw_threshold_tenths :: nat
  mw_long_window :: string
  mw_short_window :: string

definition mwmbr_table :: "mwmbr_row list" where
  "mwmbr_table =
     [\<lparr>mw_severity = Critical, mw_page_or_ticket = ''page'', mw_threshold_tenths = 144,
       mw_long_window = ''1h'', mw_short_window = ''5m''\<rparr>,
      \<lparr>mw_severity = Critical, mw_page_or_ticket = ''page'', mw_threshold_tenths = 60,
       mw_long_window = ''6h'', mw_short_window = ''30m''\<rparr>,
      \<lparr>mw_severity = Warning, mw_page_or_ticket = ''ticket'', mw_threshold_tenths = 30,
       mw_long_window = ''1d'', mw_short_window = ''2h''\<rparr>,
      \<lparr>mw_severity = Warning, mw_page_or_ticket = ''ticket'', mw_threshold_tenths = 10,
       mw_long_window = ''3d'', mw_short_window = ''6h''\<rparr>]"

definition trim_end_matches :: "char \<Rightarrow> string \<Rightarrow> string" where
  "trim_end_matches c s = rev (dropWhile ((=) c) (rev s))"

definition format_threshold :: "('f, 'b) float_ops_scheme \<Rightarrow> 'f \<Rightarrow> string" where
  "format_threshold fl value =
     (let raw = fl_fmt10 fl value;
          trimmed = trim_end_matches CHR ''.'' (trim_end_matches CHR ''0'' raw)
      in if trimmed = [] then ''0'' else trimmed)"

definition window_ratio :: "string \<Rightarrow> string \<Rightarrow> string \<Rightarrow> string \<Rightarrow> string" where
  "window_ratio good total_ev window limit =
     ''((sum(rate('' @ total_ev @ ''['' @ window @ ''])) - sum(rate('' @ good @ ''['' @ window @
     '']))) / sum(rate('' @ total_ev @ ''['' @ window @ ''])) > '' @ limit @ '')''"

definition build_query ::
  "('f, 'b) float_ops_scheme \<Rightarrow> string \<Rightarrow> string \<Rightarrow> 'f \<Rightarrow> 'f \<Rightarrow> string \<Rightarrow> string \<Rightarrow> string" where
  "build_query fl good total_ev budget threshold long_window short_window =
     (let limit = format_threshold fl (fl_mul fl budget threshold) in
      window_ratio good total_ev long_window limit @ '' and '' @ window_ratio good total_ev short_window limit)"

definition nanos_per_sec :: nat where
  "nanos_per_sec = 1000000000"

definition synthesise_row :: "('f, 'b) float_ops_scheme \<Rightarrow> 'f slo \<Rightarrow> mwmbr_row \<Rightarrow> rule" where
  "synthesise_row fl slo row =
     (let budget = fl_sub fl (fl_one fl) (slo_target_availability slo);
          query = build_query fl (slo_good_events slo) (slo_total_events slo) budget
                    (fl_of_tenths fl (mw_threshold_tenths row)) (mw_long_window row) (mw_short_window row);
          labels = bt_insert ''slo_window'' (mw_long_window row @ ''/'' @ mw_short_window row)
                     (bt_insert ''slo_service'' (slo_service slo) []);
          labels = (case slo_source_path slo of
                      None \<Rightarrow> labels | Some source \<Rightarrow> bt_insert ''slo_source'' source labels)
      in \<lparr>r_name = slo_service slo @ ''_slo_'' @ mw_page_or_ticket row @ ''_'' @ mw_long_window row @ ''_'' @
                    mw_short_window row,
          r_query = query, r_for_duration = 0, r_interval = 30 * nanos_per_sec,
          r_severity = mw_severity row, r_labels = labels, r_sinks = slo_sinks slo, r_inhibits = []\<rparr>)"

definition synthesise_slo :: "('f, 'b) float_ops_scheme \<Rightarrow> 'f slo \<Rightarrow> rule list" where
  "synthesise_slo fl slo = map (synthesise_row fl slo) mwmbr_table"

end
