(* ===== verification/Beacon_Alerts.thy ===== *)
theory Beacon_Alerts
  imports Beacon_Rules
begin

text \<open>
  What the pure core of Beacon guarantees: a rule's emissions alternate and refer to each other, the
  state of a rule is a function of its last unbroken run of active observations, and the
  inhibition resolver holds back a Firing exactly while one of its inhibitors fires.
\<close>

section \<open>Runs of one rule\<close>

fun rule_run ::
  "rule \<Rightarrow> (query_outcome \<times> system_time) list \<Rightarrow> rule_state \<Rightarrow> rule_state \<times> emission list" where
  "rule_run rule [] s = (s, [])"
| "rule_run rule ((outcome, now) # obs) s =
     (case transition s outcome rule now of
        (s1, em) \<Rightarrow> (case rule_run rule obs s1 of
          (s2, ems) \<Rightarrow> (s2, (case em of None \<Rightarrow> [] | Some e \<Rightarrow> [e]) @ ems)))"

text \<open>
  Emissions in matched pairs; the first argument is the start of the incident that is open.
\<close>

fun well_paired :: "system_time option \<Rightarrow> emission list \<Rightarrow> bool" where
  "well_paired _ [] = True"
| "well_paired None (EmFiring i # es) = (i_resolved_at i = None \<and> well_paired (Some (i_started_at i)) es)"
| "well_paired (Some t) (EmResolved i # es) =
     (i_started_at i = t \<and> i_resolved_at i \<noteq> None \<and> well_paired None es)"
| "well_paired _ _ = False"

fun firing_since :: "rule_state \<Rightarrow> system_time option" where
  "firing_since (RsFiring t) = Some t"
| "firing_since _ = None"

lemma transition_paired:
  "transition s outcome rule now = (s', em) \<Longrightarrow> well_paired (firing_since s') es \<Longrightarrow>
   well_paired (firing_since s) ((case em of None \<Rightarrow> [] | Some e \<Rightarrow> [e]) @ es)"
  by (cases "(s, outcome, rule, now)" rule: transition.cases) (auto simp: Let_def split: if_splits)

text \<open>
  Whatever the backend answers and whatever the clock does, the emissions of a rule alternate
  between Firing and Resolved, starting with a Firing unless an incident is already open, and every
  Resolved carries the start time of the Firing it closes.
\<close>

theorem beacon_emissions_paired: "well_paired (firing_since s) (snd (rule_run rule obs s))"
proof (induction obs arbitrary: s)
  case (Cons o1 obs)
  obtain outcome now where o1: "o1 = (outcome, now)"
    by (cases o1)
  obtain s1 em where t: "transition s outcome rule now = (s1, em)"
    by (cases "transition s outcome rule now")
  with transition_paired [OF t Cons.IH [of s1]] o1 show ?case
    by (auto split: prod.splits)
qed simp

section \<open>The dwell time\<close>

text \<open>The times of the last unbroken run of active observations.\<close>

definition active_streak :: "(query_outcome \<times> system_time) list \<Rightarrow> system_time list" where
  "active_streak obs = rev (map snd (takeWhile (\<lambda>(outcome, _). outcome = OutcomeActive) (rev obs)))"

text \<open>
  Reference: pending since the first observation of the streak, firing since the first later one
  that is at least \<open>for_duration\<close> after it.
\<close>

definition streak_state :: "rule \<Rightarrow> system_time list \<Rightarrow> rule_state" where
  "streak_state rule ts =
     (case ts of
        [] \<Rightarrow> RsInactive
      | t0 # rest \<Rightarrow>
          (case find (\<lambda>t. r_for_duration rule \<le> duration_since_or_zero t t0) rest of
             None \<Rightarrow> RsPending t0
           | Some t \<Rightarrow> RsFiring t))"

lemma active_streak_snoc:
  "active_streak (obs @ [(OutcomeActive, t)]) = active_streak obs @ [t]"
  "active_streak (obs @ [(OutcomeInactive, t)]) = []"
  by (simp_all add: active_streak_def)

lemma find_snoc: "find P (xs @ [x]) = (case find P xs of None \<Rightarrow> if P x then Some x else None | Some y \<Rightarrow> Some y)"
  by (induction xs) auto

lemma streak_state_snoc: "fst (transition (streak_state rule ts) OutcomeActive rule t) = streak_state rule (ts @ [t])"
  by (cases ts) (auto simp: streak_state_def find_snoc Let_def split: option.splits)

lemma rule_run_snoc:
  "fst (rule_run rule (obs @ [(outcome, t)]) s) = fst (transition (fst (rule_run rule obs s)) outcome rule t)"
  by (induction rule obs s rule: rule_run.induct) (auto split: prod.splits)

lemma rule_run_streak: "fst (rule_run rule obs RsInactive) = streak_state rule (active_streak obs)"
proof (induction obs rule: rev_induct)
  case Nil
  show ?case
    by (simp add: streak_state_def active_streak_def)
next
  case (snoc o1 obs)
  obtain outcome t where o1: "o1 = (outcome, t)"
    by (cases o1)
  have "fst (transition s OutcomeInactive rule t) = RsInactive" for s
    by (cases s) auto
  then show ?case
    using snoc streak_state_snoc [of rule "active_streak obs" t]
    by (cases outcome) (simp_all add: o1 rule_run_snoc active_streak_snoc streak_state_def)
qed

text \<open>
  C35. The state machine against its reference: after any sequence of observations a rule that
  started inactive is firing exactly if, within the last unbroken run of active observations, some
  observation came at least \<open>for_duration\<close> after the first one, and then it is firing since the
  first such observation; it is pending since the first observation of the run otherwise, and
  inactive if the last observation was inactive.
\<close>

theorem beacon_state_of_streak: "fst (rule_run rule obs RsInactive) = streak_state rule (active_streak obs)"
  by (rule rule_run_streak)

text \<open>
  C36. An alert is not lost: when the condition is observed at a time \<open>t0\<close> and at every later
  observation up to one that is at least \<open>for_duration\<close> later, the rule is firing.
\<close>

theorem beacon_sustained_condition_fires:
  assumes "\<forall>(outcome, _) \<in> set rest. outcome = OutcomeActive" and "(OutcomeActive, t1) \<in> set rest"
    and "t0 + int (r_for_duration rule) \<le> t1"
  shows "\<exists>t. fst (rule_run rule (earlier @ [(OutcomeInactive, tb), (OutcomeActive, t0)] @ rest) RsInactive) = RsFiring t"
proof -
  let ?due = "\<lambda>t. r_for_duration rule \<le> duration_since_or_zero t t0"
  have "takeWhile (\<lambda>(outcome, _). outcome = OutcomeActive) (rev rest @ [(OutcomeActive, t0)] @ (OutcomeInactive, tb) # rev earlier) =
      rev rest @ [(OutcomeActive, t0)]"
    using assms(1) by (auto simp: takeWhile_append split: prod.splits)
  then have streak: "active_streak (earlier @ [(OutcomeInactive, tb), (OutcomeActive, t0)] @ rest) = t0 # map snd rest"
    by (simp add: active_streak_def rev_map [symmetric])
  have "?due t1" "t1 \<in> set (map snd rest)"
    using assms(2,3) by (force simp: duration_since_or_zero_def duration_since_def)+
  then have "find ?due (map snd rest) \<noteq> None"
    by (metis find_None_iff)
  then show ?thesis
    by (auto simp only: rule_run_streak streak) (auto simp: streak_state_def)
qed

theorem beacon_sustained_condition_fires_witness:
  "\<exists>t. fst (rule_run \<lparr>r_name = ''disk'', r_query = ''up == 0'', r_for_duration = 60, r_interval = 30,
       r_severity = Critical, r_labels = [], r_sinks = [], r_inhibits = []\<rparr>
     [(OutcomeInactive, 0), (OutcomeActive, 10), (OutcomeActive, 40), (OutcomeActive, 70)] RsInactive) = RsFiring t"
  using beacon_sustained_condition_fires [of "[(OutcomeActive, 40), (OutcomeActive, 70)]" 70 10
      "\<lparr>r_name = ''disk'', r_query = ''up == 0'', r_for_duration = 60, r_interval = 30,
       r_severity = Critical, r_labels = [], r_sinks = [], r_inhibits = []\<rparr>" "[]" 0]
  by (simp only: append_Nil append_Cons) simp

section \<open>The resolver\<close>

text \<open>Lookups instead of iteration.\<close>

lemma has_active_inhibitor_iff:
  "hm_wf (rv_inhibits rv) \<Longrightarrow> has_active_inhibitor_of rv target \<longleftrightarrow>
   (\<exists>c ds. hm_get (rv_inhibits rv) c = Some ds \<and> c \<noteq> target \<and> target \<in> set ds \<and> hm_get (rv_firing rv) c = Some True)"
  by (auto simp: has_active_inhibitor_of_def list_ex_iff split_def hm_wf_get [symmetric]) force+

lemma has_active_inhibitor_cong:
  "rv_inhibits rv = rv_inhibits rv' \<Longrightarrow> rv_firing rv = rv_firing rv' \<Longrightarrow>
   has_active_inhibitor_of rv = has_active_inhibitor_of rv'"
  by (simp add: has_active_inhibitor_of_def fun_eq_iff)

lemma has_active_inhibitor_pending [simp]:
  "has_active_inhibitor_of (rv\<lparr>rv_pending := p\<rparr>) = has_active_inhibitor_of rv"
  by (rule has_active_inhibitor_cong) simp_all

definition resolver_wf :: "resolver \<Rightarrow> bool" where
  "resolver_wf rv = (hm_wf (rv_inhibits rv) \<and> hm_wf (rv_firing rv) \<and> hm_wf (rv_pending rv) \<and>
     (\<forall>n i. hm_get (rv_pending rv) n = Some i \<longrightarrow> i_name i = n \<and> hm_get (rv_firing rv) n = Some True))"

text \<open>A suppressed Firing is held only while some inhibitor of its rule fires.\<close>

definition no_stuck_pending :: "resolver \<Rightarrow> bool" where
  "no_stuck_pending rv = (\<forall>n. hm_get (rv_pending rv) n \<noteq> None \<longrightarrow> has_active_inhibitor_of rv n)"

lemma release_skip:
  "has_active_inhibitor_of rv d \<or> hm_get (rv_pending rv) d = None \<Longrightarrow>
   release_downstream (d # ds) rv = release_downstream ds rv"
  by (cases "hm_get (rv_pending rv) d") simp_all

lemma release_take:
  "\<not> has_active_inhibitor_of rv d \<Longrightarrow> hm_get (rv_pending rv) d = Some i \<Longrightarrow>
   release_downstream (d # ds) rv =
     (let r = release_downstream ds (rv\<lparr>rv_pending := hm_remove d (rv_pending rv)\<rparr>) in (fst r, EmFiring i # snd r))"
  by (simp add: split_def Let_def)

lemma release_induct [case_names Nil skip take]:
  assumes "\<And>rv. P [] rv"
    and "\<And>d ds rv. has_active_inhibitor_of rv d \<or> hm_get (rv_pending rv) d = None \<Longrightarrow> P ds rv \<Longrightarrow> P (d # ds) rv"
    and "\<And>d ds rv i. \<not> has_active_inhibitor_of rv d \<Longrightarrow> hm_get (rv_pending rv) d = Some i \<Longrightarrow>
      P ds (rv\<lparr>rv_pending := hm_remove d (rv_pending rv)\<rparr>) \<Longrightarrow> P (d # ds) rv"
  shows "P ds rv"
proof (induction ds arbitrary: rv)
  case (Cons d ds)
  then show ?case
    using assms(2) [of rv d ds] assms(3) [of rv d _ ds]
    by (cases "has_active_inhibitor_of rv d \<or> hm_get (rv_pending rv) d = None") blast+
qed (rule assms(1))

lemma release_downstream_frame:
  "rv_inhibits (fst (release_downstream ds rv)) = rv_inhibits rv"
  "rv_firing (fst (release_downstream ds rv)) = rv_firing rv"
  "hm_wf (rv_pending rv) \<Longrightarrow> hm_wf (rv_pending (fst (release_downstream ds rv)))"
  by (induction ds rv rule: release_induct)
    (simp_all del: release_downstream.simps(2) add: release_skip release_take Let_def)

lemma release_downstream_pending:
  "hm_get (rv_pending (fst (release_downstream ds rv))) n =
     (if n \<in> set ds \<and> \<not> has_active_inhibitor_of rv n then None else hm_get (rv_pending rv) n)"
proof (induction ds rv rule: release_induct)
  case (skip d ds rv)
  then show ?case
    by (auto simp del: release_downstream.simps(2) simp add: release_skip)
next
  case (take d ds rv i)
  then show ?case
    by (auto simp del: release_downstream.simps(2) simp add: release_take Let_def)
qed simp

text \<open>The emissions that concern one rule.\<close>

definition about_rule :: "string \<Rightarrow> emission list \<Rightarrow> emission list" where
  "about_rule n es = filter (\<lambda>e. em_name e = n) es"

lemma about_rule_simps [simp]:
  "about_rule n [] = []" "about_rule n (e # es) = (if em_name e = n then e # about_rule n es else about_rule n es)"
  "about_rule n (es @ es') = about_rule n es @ about_rule n es'"
  by (simp_all add: about_rule_def)

lemma release_downstream_out:
  "(\<And>n i. hm_get (rv_pending rv) n = Some i \<Longrightarrow> i_name i = n) \<Longrightarrow>
   about_rule n (snd (release_downstream ds rv)) =
    (if n \<in> set ds \<and> \<not> has_active_inhibitor_of rv n
     then (case hm_get (rv_pending rv) n of None \<Rightarrow> [] | Some i \<Rightarrow> [EmFiring i]) else [])"
proof (induction ds rv rule: release_induct)
  case (skip d ds rv)
  from skip.IH [OF skip.prems] skip.hyps show ?case
    by (auto simp del: release_downstream.simps(2) simp add: release_skip)
next
  case (take d ds rv i)
  have "i_name i = d"
    by (rule take.prems [OF take.hyps(2)])
  moreover have "about_rule n (snd (release_downstream ds (rv\<lparr>rv_pending := hm_remove d (rv_pending rv)\<rparr>))) =
    (if n \<in> set ds \<and> \<not> has_active_inhibitor_of rv n
     then (case ((hm_get (rv_pending rv))(d := None)) n of None \<Rightarrow> [] | Some i \<Rightarrow> [EmFiring i]) else [])"
  proof -
    have "i_name i' = m" if "hm_get (rv_pending (rv\<lparr>rv_pending := hm_remove d (rv_pending rv)\<rparr>)) m = Some i'" for m i'
      using that take.prems [of m i'] by (simp split: if_splits)
    from take.IH [OF this] show ?thesis
      by simp
  qed
  ultimately show ?case
    using take.hyps by (auto simp del: release_downstream.simps(2) simp add: release_take Let_def)
qed simp

section \<open>Observing one transition\<close>

lemma has_active_inhibitor_self [simp]:
  "has_active_inhibitor_of (rv\<lparr>rv_firing := hm_insert n b (rv_firing rv)\<rparr>) n = has_active_inhibitor_of rv n"
  by (auto simp: has_active_inhibitor_of_def list_ex_iff)

lemma observe_Firing:
  "fst (observe n (Some (EmFiring i)) rv) = rv\<lparr>rv_firing := hm_insert n True (rv_firing rv),
     rv_pending := (if has_active_inhibitor_of rv n then hm_insert n i (rv_pending rv) else rv_pending rv)\<rparr>"
  "snd (observe n (Some (EmFiring i)) rv) = (if has_active_inhibitor_of rv n then [] else [EmFiring i])"
  by (simp_all add: observe.simps Let_def)

lemma observe_Resolved_frame:
  "rv_inhibits (fst (observe n (Some (EmResolved i)) rv)) = rv_inhibits rv"
  "rv_firing (fst (observe n (Some (EmResolved i)) rv)) = hm_insert n False (rv_firing rv)"
  "hm_wf (rv_pending rv) \<Longrightarrow> hm_wf (rv_pending (fst (observe n (Some (EmResolved i)) rv)))"
  by (simp_all add: observe.simps Let_def split_def release_downstream_frame)

abbreviation after_resolve :: "string \<Rightarrow> resolver \<Rightarrow> resolver" where
  "after_resolve n rv \<equiv> rv\<lparr>rv_firing := hm_insert n False (rv_firing rv)\<rparr>"

definition released :: "string \<Rightarrow> resolver \<Rightarrow> string \<Rightarrow> bool" where
  "released n rv m = (m \<in> set (hm_get_or [] (rv_inhibits rv) n) \<and> \<not> has_active_inhibitor_of (after_resolve n rv) m)"

lemma observe_Resolved_pending:
  "hm_get (rv_pending (fst (observe n (Some (EmResolved i)) rv))) m =
     (if m = n \<or> released n rv m then None else hm_get (rv_pending rv) m)"
  by (simp add: observe.simps Let_def split_def release_downstream_pending released_def)

lemma observe_Resolved_out:
  assumes "\<And>k i. hm_get (rv_pending rv) k = Some i \<Longrightarrow> i_name i = k" and "i_name i = n"
  shows "about_rule m (snd (observe n (Some (EmResolved i)) rv)) =
    (if m = n then (if hm_get (rv_pending rv) n = None then [EmResolved i] else [])
     else if released n rv m then (case hm_get (rv_pending rv) m of None \<Rightarrow> [] | Some i \<Rightarrow> [EmFiring i]) else [])"
proof -
  let ?rv2 = "(after_resolve n rv)\<lparr>rv_pending := hm_remove n (rv_pending rv)\<rparr>"
  have "i_name i' = k" if "hm_get (rv_pending ?rv2) k = Some i'" for k i'
    using that assms(1) [of k i'] by (simp split: if_splits)
  from release_downstream_out [where rv = ?rv2 and n = m and ds = "hm_get_or [] (rv_inhibits rv) n", OF this]
  have "about_rule m (snd (release_downstream (hm_get_or [] (rv_inhibits rv) n) ?rv2)) =
    (if released n rv m then (case (if m = n then None else hm_get (rv_pending rv) m) of None \<Rightarrow> [] | Some i \<Rightarrow> [EmFiring i]) else [])"
    by (simp add: released_def)
  then show ?thesis
    using assms(2) by (auto simp: observe.simps Let_def split_def split: option.splits)
qed

text \<open>The inhibition relation is not touched, so what one rule fires decides who is held back.\<close>

lemma has_active_after_fire:
  "hm_wf (rv_inhibits rv) \<Longrightarrow> has_active_inhibitor_of rv m \<Longrightarrow>
   has_active_inhibitor_of (rv\<lparr>rv_firing := hm_insert n True (rv_firing rv), rv_pending := p\<rparr>) m"
  by (auto simp: has_active_inhibitor_iff)

lemma has_active_after_resolve:
  "hm_wf (rv_inhibits rv) \<Longrightarrow> has_active_inhibitor_of rv m \<Longrightarrow> m \<notin> set (hm_get_or [] (rv_inhibits rv) n) \<Longrightarrow>
   has_active_inhibitor_of (after_resolve n rv) m"
proof -
  assume wf: "hm_wf (rv_inhibits rv)" and a: "has_active_inhibitor_of rv m"
    and m: "m \<notin> set (hm_get_or [] (rv_inhibits rv) n)"
  from a wf obtain c ds where c: "hm_get (rv_inhibits rv) c = Some ds" "c \<noteq> m" "m \<in> set ds"
    "hm_get (rv_firing rv) c = Some True"
    by (auto simp: has_active_inhibitor_iff)
  moreover have "c \<noteq> n"
    using m c(1,3) by (auto simp: hm_get_or_def)
  ultimately show ?thesis
    using wf by (auto simp: has_active_inhibitor_iff)
qed

lemma em_cases [case_names fire resolve none]:
  fixes em :: "emission option"
  obtains i where "em = Some (EmFiring i)" | i where "em = Some (EmResolved i)" | "em = None"
  by (cases em; cases "the em") auto

lemma observe_wf:
  assumes "resolver_wf rv" and "\<And>e. em = Some e \<Longrightarrow> em_name e = n"
  shows "resolver_wf (fst (observe n em rv))"
proof (cases rule: em_cases [of em])
  case (fire i)
  with assms show ?thesis
    by (auto simp: resolver_wf_def observe_Firing split: if_splits)
next
  case (resolve i)
  with assms show ?thesis
    by (auto simp: resolver_wf_def observe_Resolved_frame observe_Resolved_pending split: if_splits)
qed (use assms in simp)

lemma observe_no_stuck:
  assumes "hm_wf (rv_inhibits rv)" and "no_stuck_pending rv"
  shows "no_stuck_pending (fst (observe n em rv))"
proof (cases rule: em_cases [of em])
  case (fire i)
  show ?thesis
    unfolding no_stuck_pending_def
  proof (intro allI impI)
    fix m
    assume "hm_get (rv_pending (fst (observe n em rv))) m \<noteq> None"
    then have "has_active_inhibitor_of rv m"
      using assms(2) by (auto simp: fire observe_Firing no_stuck_pending_def split: if_splits)
    from has_active_after_fire [OF assms(1) this] show "has_active_inhibitor_of (fst (observe n em rv)) m"
      by (simp only: fire observe_Firing)
  qed
next
  case (resolve i)
  let ?rv' = "fst (observe n em rv)"
  have "has_active_inhibitor_of ?rv' = has_active_inhibitor_of (after_resolve n rv)"
    by (rule has_active_inhibitor_cong) (simp_all add: resolve observe_Resolved_frame)
  moreover have "has_active_inhibitor_of (after_resolve n rv) m" if "hm_get (rv_pending ?rv') m \<noteq> None" for m
  proof -
    have "m \<noteq> n" "\<not> released n rv m" "has_active_inhibitor_of rv m"
      using that assms(2) by (auto simp: resolve observe_Resolved_pending no_stuck_pending_def split: if_splits)
    with has_active_after_resolve [OF assms(1)] show ?thesis
      by (auto simp: released_def)
  qed
  ultimately show ?thesis
    by (simp add: no_stuck_pending_def)
qed (use assms in simp)

section \<open>Many rules\<close>

text \<open>
  The rules together, seen from outside: \<open>phi\<close> gives for every rule since when it fires. The resolver
  agrees with it, and holds a Firing back only for a rule that fires and has a firing inhibitor.
\<close>

definition alert_inv :: "(string \<Rightarrow> system_time option) \<Rightarrow> resolver \<Rightarrow> bool" where
  "alert_inv phi rv =
     (resolver_wf rv \<and> no_stuck_pending rv \<and>
      (\<forall>n. hm_get (rv_firing rv) n = Some True \<longleftrightarrow> phi n \<noteq> None) \<and>
      (\<forall>n i. hm_get (rv_pending rv) n = Some i \<longrightarrow> phi n = Some (i_started_at i) \<and> i_resolved_at i = None))"

text \<open>The incident of a rule the operator has been told of and that is not over.\<close>

definition open_incident :: "(string \<Rightarrow> system_time option) \<Rightarrow> resolver \<Rightarrow> string \<Rightarrow> system_time option" where
  "open_incident phi rv n = (if hm_get (rv_pending rv) n = None then phi n else None)"

fun open_after :: "system_time option \<Rightarrow> emission list \<Rightarrow> system_time option" where
  "open_after t [] = t"
| "open_after t (EmFiring i # es) = open_after (Some (i_started_at i)) es"
| "open_after t (EmResolved i # es) = open_after None es"

lemma open_after_append: "open_after t (es @ es') = open_after (open_after t es) es'"
  by (induction t es rule: open_after.induct) auto

lemma well_paired_append:
  "well_paired t (es @ es') \<longleftrightarrow> well_paired t es \<and> well_paired (open_after t es) es'"
  by (induction t es rule: well_paired.induct) auto

text \<open>What a transition says about the rule that made it.\<close>

lemma transition_None: "transition s outcome rule now = (s', None) \<Longrightarrow> firing_since s' = firing_since s"
  by (cases "(s, outcome, rule, now)" rule: transition.cases) (auto simp: Let_def split: if_splits)

lemma transition_Firing:
  "transition s outcome rule now = (s', Some (EmFiring i)) \<Longrightarrow>
   firing_since s = None \<and> firing_since s' = Some (i_started_at i) \<and> i_name i = r_name rule \<and> i_resolved_at i = None"
  by (cases "(s, outcome, rule, now)" rule: transition.cases) (auto simp: Let_def split: if_splits)

lemma transition_Resolved:
  "transition s outcome rule now = (s', Some (EmResolved i)) \<Longrightarrow>
   firing_since s = Some (i_started_at i) \<and> firing_since s' = None \<and> i_name i = r_name rule \<and> i_resolved_at i \<noteq> None"
  by (cases "(s, outcome, rule, now)" rule: transition.cases) (auto simp: Let_def split: if_splits)

lemma alert_invD:
  assumes "alert_inv phi rv"
  shows "resolver_wf rv" "no_stuck_pending rv" "hm_wf (rv_inhibits rv)"
    "hm_get (rv_firing rv) n = Some True \<longleftrightarrow> phi n \<noteq> None"
    "hm_get (rv_pending rv) n = Some i \<Longrightarrow> phi n = Some (i_started_at i) \<and> i_resolved_at i = None \<and> i_name i = n"
  using assms by (auto simp: alert_inv_def resolver_wf_def)

lemma alert_step_Firing:
  assumes inv: "alert_inv phi rv" and "phi n = None" and i: "i_name i = n" "i_resolved_at i = None"
  defines "rv' \<equiv> fst (observe n (Some (EmFiring i)) rv)" and "out \<equiv> snd (observe n (Some (EmFiring i)) rv)"
    and "phi' \<equiv> phi(n \<mapsto> i_started_at i)"
  shows "alert_inv phi' rv'"
    and "well_paired (open_incident phi rv m) (about_rule m out)"
    and "open_incident phi' rv' m = open_after (open_incident phi rv m) (about_rule m out)"
    and "EmFiring j \<in> set out \<Longrightarrow> \<not> has_active_inhibitor_of rv' (i_name j)"
proof -
  have pn: "hm_get (rv_pending rv) n = None"
    using alert_invD(5) [OF inv, of n] assms(2) by (cases "hm_get (rv_pending rv) n") auto
  have "resolver_wf rv'" "no_stuck_pending rv'"
    unfolding rv'_def by (rule observe_wf observe_no_stuck; use alert_invD [OF inv] i in auto)+
  moreover have "hm_get (rv_firing rv') k = Some True \<longleftrightarrow> phi' k \<noteq> None" for k
    using alert_invD(4) [OF inv, of k] by (simp add: rv'_def phi'_def observe_Firing)
  moreover have "phi' k = Some (i_started_at x) \<and> i_resolved_at x = None" if "hm_get (rv_pending rv') k = Some x" for k x
    using that alert_invD(5) [OF inv, of k x] i assms(2) pn
    by (auto simp: rv'_def phi'_def observe_Firing split: if_splits)
  ultimately show "alert_inv phi' rv'"
    by (simp add: alert_inv_def)
  show "well_paired (open_incident phi rv m) (about_rule m out)"
    using assms(2) i by (auto simp: out_def observe_Firing open_incident_def)
  show "open_incident phi' rv' m = open_after (open_incident phi rv m) (about_rule m out)"
    using assms(2) i pn by (auto simp: out_def rv'_def phi'_def observe_Firing open_incident_def)
  show "EmFiring j \<in> set out \<Longrightarrow> \<not> has_active_inhibitor_of rv' (i_name j)"
    using i by (simp add: out_def rv'_def observe_Firing split: if_splits)
qed

lemma about_rule_mem: "e \<in> set es \<Longrightarrow> e \<in> set (about_rule (em_name e) es)"
  by (simp add: about_rule_def)

lemma alert_step_Resolved:
  assumes inv: "alert_inv phi rv" and pn: "phi n = Some (i_started_at i)" and i: "i_name i = n" "i_resolved_at i \<noteq> None"
  defines "rv' \<equiv> fst (observe n (Some (EmResolved i)) rv)" and "out \<equiv> snd (observe n (Some (EmResolved i)) rv)"
    and "phi' \<equiv> phi(n := None)"
  shows "alert_inv phi' rv'"
    and "well_paired (open_incident phi rv m) (about_rule m out)"
    and "open_incident phi' rv' m = open_after (open_incident phi rv m) (about_rule m out)"
    and "EmFiring j \<in> set out \<Longrightarrow> \<not> has_active_inhibitor_of rv' (i_name j)"
proof -
  have "resolver_wf rv'" "no_stuck_pending rv'"
    unfolding rv'_def by (rule observe_wf observe_no_stuck; use alert_invD [OF inv] i in auto)+
  moreover have "hm_get (rv_firing rv') k = Some True \<longleftrightarrow> phi' k \<noteq> None" for k
    using alert_invD(4) [OF inv, of k] by (simp add: rv'_def phi'_def observe_Resolved_frame)
  moreover have "phi' k = Some (i_started_at x) \<and> i_resolved_at x = None" if "hm_get (rv_pending rv') k = Some x" for k x
    using that alert_invD(5) [OF inv, of k x] by (auto simp: rv'_def phi'_def observe_Resolved_pending split: if_splits)
  ultimately show "alert_inv phi' rv'"
    by (simp add: alert_inv_def)
  have out: "about_rule k out = (if k = n then (if hm_get (rv_pending rv) n = None then [EmResolved i] else [])
     else if released n rv k then (case hm_get (rv_pending rv) k of None \<Rightarrow> [] | Some i \<Rightarrow> [EmFiring i]) else [])" for k
    unfolding out_def using alert_invD(5) [OF inv] i(1) by (intro observe_Resolved_out) blast+
  show "well_paired (open_incident phi rv m) (about_rule m out)"
    using pn i alert_invD(5) [OF inv, of m] by (cases "m = n") (auto simp: out open_incident_def split: option.splits)
  show "open_incident phi' rv' m = open_after (open_incident phi rv m) (about_rule m out)"
    using pn i alert_invD(5) [OF inv, of m]
    by (auto simp: out rv'_def phi'_def open_incident_def observe_Resolved_pending split: option.splits)
  have "has_active_inhibitor_of rv' = has_active_inhibitor_of (after_resolve n rv)"
    unfolding rv'_def by (rule has_active_inhibitor_cong) (simp_all add: observe_Resolved_frame)
  moreover have "released n rv (i_name j)" if "EmFiring j \<in> set out"
  proof (rule ccontr)
    assume "\<not> released n rv (i_name j)"
    then have "about_rule (i_name j) out \<in> {[], [EmResolved i]}"
      using out [of "i_name j"] by (simp split: if_splits)
    with about_rule_mem [OF that] show False
      by auto
  qed
  ultimately show "EmFiring j \<in> set out \<Longrightarrow> \<not> has_active_inhibitor_of rv' (i_name j)"
    unfolding released_def by metis
qed

text \<open>One evaluation of one rule, transition and resolver together.\<close>

lemma alert_step:
  assumes inv: "alert_inv phi rv" and s: "phi (r_name rule) = firing_since s"
    and t: "transition s outcome rule now = (s', em)" and o: "observe (r_name rule) em rv = (rv', out)"
  defines "phi' \<equiv> phi(r_name rule := firing_since s')"
  shows "alert_inv phi' rv' \<and> well_paired (open_incident phi rv m) (about_rule m out) \<and>
    open_incident phi' rv' m = open_after (open_incident phi rv m) (about_rule m out) \<and>
    (\<forall>j. EmFiring j \<in> set out \<longrightarrow> \<not> has_active_inhibitor_of rv' (i_name j))"
proof (cases rule: em_cases [of em])
  case (fire i)
  have "phi (r_name rule) = None" "i_name i = r_name rule" "i_resolved_at i = None" "firing_since s' = Some (i_started_at i)"
    using transition_Firing t fire s by auto
  with alert_step_Firing [OF inv this(1-3)] show ?thesis
    using o by (auto simp: fire phi'_def)
next
  case (resolve i)
  have "phi (r_name rule) = Some (i_started_at i)" "i_name i = r_name rule" "i_resolved_at i \<noteq> None" "firing_since s' = None"
    using transition_Resolved t resolve s by auto
  with alert_step_Resolved [OF inv this(1-3)] show ?thesis
    using o by (auto simp: resolve phi'_def)
next
  case none
  then have "phi' = phi"
    using transition_None t s by (auto simp: phi'_def fun_eq_iff)
  with none o inv show ?thesis
    by auto
qed

end
