(* ===== verification/Edit_Distance.thy ===== *)
theory Edit_Distance
  imports Kal_Prelude
begin

text \<open>
  The Levenshtein distance with two rows, which Codex (\<open>crates/codex/src/fuzzy.rs\<close>) and Beacon's
  loader (\<open>crates/beacon/src/loader.rs\<close>) both carry, and its specification as the least cost of an
  alignment.
\<close>

section \<open>The two-row algorithm\<close>

text \<open>
  \<open>str::chars\<close> of a valid UTF-8 string: a character is represented by its bytes, the leading byte
  and the continuation bytes that follow it.
\<close>

definition utf8_continuation :: "char \<Rightarrow> bool" where
  "utf8_continuation c = (of_char c div 64 = (2 :: nat))"

function utf8_chars :: "string \<Rightarrow> string list" where
  "utf8_chars [] = []"
| "utf8_chars (c # cs) =
     (c # takeWhile utf8_continuation cs) # utf8_chars (dropWhile utf8_continuation cs)"
  by pat_completeness auto
termination
  by (relation "measure length") (auto simp: le_imp_less_Suc length_dropWhile_le)

definition lev_cell :: "'a list \<Rightarrow> 'a list \<Rightarrow> nat \<Rightarrow> nat list \<Rightarrow> nat \<Rightarrow> nat list \<Rightarrow> nat list" where
  "lev_cell a b i prev j cur =
     (let cost = (if a ! (i - 1) = b ! (j - 1) then 0 else 1) in
      cur[j := min (min (prev ! j + 1) (cur ! (j - 1) + 1)) (prev ! (j - 1) + cost)])"

definition lev_row :: "'a list \<Rightarrow> 'a list \<Rightarrow> nat \<Rightarrow> nat list \<times> nat list \<Rightarrow> nat list \<times> nat list" where
  "lev_row a b i = (\<lambda>(prev, cur).
     (fold (lev_cell a b i prev) [1..<length b + 1] (cur[0 := i]), prev))"

definition lev_chars :: "'a list \<Rightarrow> 'a list \<Rightarrow> nat" where
  "lev_chars a b =
     (if length a = 0 then length b
      else if length b = 0 then length a
      else fst (fold (lev_row a b) [1..<length a + 1]
             ([0..<length b + 1], replicate (length b + 1) 0)) ! length b)"

definition levenshtein :: "string \<Rightarrow> string \<Rightarrow> nat" where
  "levenshtein a b = lev_chars (utf8_chars a) (utf8_chars b)"

section \<open>Alignments\<close>

text \<open>
  \<open>alignment n xs ys\<close>: \<open>xs\<close> becomes \<open>ys\<close> by keeping characters for free and inserting, deleting or
  substituting single characters at a cost of one each, for \<open>n\<close> in total.
\<close>

inductive alignment :: "nat \<Rightarrow> 'a list \<Rightarrow> 'a list \<Rightarrow> bool" where
  alignment_Nil: "alignment 0 [] []"
| alignment_keep: "alignment n xs ys \<Longrightarrow> alignment n (x # xs) (x # ys)"
| alignment_subst: "alignment n xs ys \<Longrightarrow> alignment (Suc n) (x # xs) (y # ys)"
| alignment_delete: "alignment n xs ys \<Longrightarrow> alignment (Suc n) (x # xs) ys"
| alignment_insert: "alignment n xs ys \<Longrightarrow> alignment (Suc n) xs (y # ys)"

inductive_cases alignment_ConsE: "alignment n (x # xs) (y # ys)"
inductive_cases alignment_NilE: "alignment n [] ys"

lemma alignment_append:
  "alignment n xs ys \<Longrightarrow> alignment m us vs \<Longrightarrow> alignment (n + m) (xs @ us) (ys @ vs)"
  by (induction rule: alignment.induct) (auto intro: alignment.intros)

lemma alignment_singles:
  "alignment 0 [x] [x]" "alignment (Suc 0) [x] [y]" "alignment (Suc 0) [x] []" "alignment (Suc 0) [] [y]"
  by (auto intro: alignment.intros)

lemma alignment_rev: "alignment n xs ys \<Longrightarrow> alignment n (rev xs) (rev ys)"
proof (induction rule: alignment.induct)
  case (alignment_keep n xs ys x)
  then show ?case
    using alignment_append [OF alignment_keep.IH alignment_singles(1) [of x]] by simp
next
  case (alignment_subst n xs ys x y)
  then show ?case
    using alignment_append [OF alignment_subst.IH alignment_singles(2) [of x y]] by simp
next
  case (alignment_delete n xs ys x)
  then show ?case
    using alignment_append [OF alignment_delete.IH alignment_singles(3) [of x]] by simp
next
  case (alignment_insert n xs ys y)
  then show ?case
    using alignment_append [OF alignment_insert.IH alignment_singles(4) [of y]] by simp
qed (simp add: alignment_Nil)

lemma alignment_sym: "alignment n xs ys \<Longrightarrow> alignment n ys xs"
  by (induction rule: alignment.induct) (auto intro: alignment.intros)

lemma alignment_delete_all: "alignment (length xs) xs []"
  by (induction xs) (auto intro: alignment.intros)

text \<open>The recursion the table of the algorithm tabulates.\<close>

fun edit_cost :: "'a list \<Rightarrow> 'a list \<Rightarrow> nat" where
  "edit_cost [] ys = length ys"
| "edit_cost (x # xs) [] = Suc (length xs)"
| "edit_cost (x # xs) (y # ys) =
     min (min (edit_cost xs (y # ys) + 1) (edit_cost (x # xs) ys + 1))
         (edit_cost xs ys + (if x = y then 0 else 1))"

lemma edit_cost_alignment: "alignment (edit_cost xs ys) xs ys"
proof (induction xs ys rule: edit_cost.induct)
  case (1 ys)
  then show ?case
    using alignment_sym [OF alignment_delete_all [of ys]] by simp
next
  case (2 x xs)
  then show ?case
    using alignment_delete_all [of "x # xs"] by simp
next
  case (3 x xs y ys)
  then show ?case
    by (auto simp: min_def intro: alignment.intros)
qed

lemma edit_cost_Nil2 [simp]: "edit_cost xs [] = length xs"
  by (cases xs) auto

lemma edit_cost_Cons_le:
  "edit_cost xs (y # ys) \<le> Suc (edit_cost xs ys)" "edit_cost (x # xs) ys \<le> Suc (edit_cost xs ys)"
  by (cases xs; simp) (cases ys; simp)

lemma edit_cost_Cons_Cons_le:
  "edit_cost (x # xs) (y # ys) \<le> edit_cost xs ys + (if x = y then 0 else 1)"
  by simp

lemma edit_cost_least: "alignment n xs ys \<Longrightarrow> edit_cost xs ys \<le> n"
proof (induction rule: alignment.induct)
  case (alignment_delete n xs ys x)
  then show ?case
    using edit_cost_Cons_le(2) [of x xs ys] by linarith
next
  case (alignment_insert n xs ys y)
  then show ?case
    using edit_cost_Cons_le(1) [of xs y ys] by linarith
next
  case (alignment_keep n xs ys x)
  then show ?case
    using order_trans [OF edit_cost_Cons_Cons_le [of x xs x ys]] by (simp del: edit_cost.simps)
next
  case (alignment_subst n xs ys x y)
  then show ?case
    using order_trans [OF edit_cost_Cons_Cons_le [of x xs y ys]] by (simp del: edit_cost.simps)
qed simp

lemma edit_cost_rev: "edit_cost (rev xs) (rev ys) = edit_cost xs ys"
proof (rule antisym)
  show "edit_cost (rev xs) (rev ys) \<le> edit_cost xs ys"
    by (intro edit_cost_least alignment_rev edit_cost_alignment)
  show "edit_cost xs ys \<le> edit_cost (rev xs) (rev ys)"
    using alignment_rev [OF edit_cost_alignment [of "rev xs" "rev ys"]] by (intro edit_cost_least) simp
qed

lemma edit_cost_sym: "edit_cost xs ys = edit_cost ys xs"
  by (rule antisym; rule edit_cost_least; rule alignment_sym; rule edit_cost_alignment)

lemma edit_cost_zero: "edit_cost xs ys = 0 \<longleftrightarrow> xs = ys"
proof
  assume "edit_cost xs ys = 0"
  moreover have "alignment n xs ys \<Longrightarrow> n = 0 \<Longrightarrow> xs = ys" for n
    by (induction rule: alignment.induct) auto
  ultimately show "xs = ys"
    using edit_cost_alignment [of xs ys] by metis
next
  have "alignment 0 ys ys"
    by (induction ys) (auto intro: alignment.intros)
  then show "edit_cost xs ys = 0" if "xs = ys"
    using that edit_cost_least [of 0 ys ys] by simp
qed

section \<open>The algorithm computes the least cost\<close>

definition prefix_cost :: "'a list \<Rightarrow> 'a list \<Rightarrow> nat \<Rightarrow> nat \<Rightarrow> nat" where
  "prefix_cost a b i j = edit_cost (take i a) (take j b)"

lemma prefix_cost_0 [simp]: "j \<le> length b \<Longrightarrow> prefix_cost a b 0 j = j"
  by (simp add: prefix_cost_def)

lemma prefix_cost_0_right [simp]: "i \<le> length a \<Longrightarrow> prefix_cost a b i 0 = i"
  by (simp add: prefix_cost_def)

lemma prefix_cost_Suc:
  assumes "i < length a" "j < length b"
  shows "prefix_cost a b (Suc i) (Suc j) =
    min (min (prefix_cost a b i (Suc j) + 1) (prefix_cost a b (Suc i) j + 1))
        (prefix_cost a b i j + (if a ! i = b ! j then 0 else 1))"
proof -
  have "prefix_cost a b k l = edit_cost (rev (take k a)) (rev (take l b))" for k l
    by (simp add: prefix_cost_def edit_cost_rev)
  with assms show ?thesis
    by (simp add: take_Suc_conv_app_nth)
qed

definition row_upto :: "'a list \<Rightarrow> 'a list \<Rightarrow> nat \<Rightarrow> nat \<Rightarrow> nat list \<Rightarrow> bool" where
  "row_upto a b i k row = (length row = length b + 1 \<and> (\<forall>j \<le> k. row ! j = prefix_cost a b i j))"

lemma lev_cell_row:
  assumes "row_upto a b i (length b) prev" and "row_upto a b (Suc i) j cur"
    and "i < length a" "j < length b"
  shows "row_upto a b (Suc i) (Suc j) (lev_cell a b (Suc i) prev (Suc j) cur)"
  using assms prefix_cost_Suc [OF assms(3,4)]
  by (auto simp: row_upto_def lev_cell_def nth_list_update le_Suc_eq)

lemma lev_cells_row:
  assumes "row_upto a b i (length b) prev" and "row_upto a b (Suc i) 0 cur" and "i < length a"
  shows "j \<le> length b \<Longrightarrow> row_upto a b (Suc i) j (fold (lev_cell a b (Suc i) prev) [1..<j + 1] cur)"
proof (induction j)
  case (Suc j)
  then show ?case
    using lev_cell_row [OF assms(1) _ assms(3), of j] by simp
qed (use assms(2) in simp)

lemma lev_row_row:
  assumes "row_upto a b i (length b) prev" and "length cur = length b + 1" and "i < length a"
    and "lev_row a b (Suc i) (prev, cur) = (prev', cur')"
  shows "row_upto a b (Suc i) (length b) prev'" "length cur' = length b + 1"
proof -
  have "row_upto a b (Suc i) 0 (cur[0 := Suc i])"
    using assms(2,3) by (simp add: row_upto_def)
  from lev_cells_row [OF assms(1) this assms(3) order_refl]
  show "row_upto a b (Suc i) (length b) prev'" "length cur' = length b + 1"
    using assms(1,4) by (auto simp: lev_row_def row_upto_def)
qed

lemma lev_rows_row:
  assumes "i \<le> length a"
    and "fold (lev_row a b) [1..<i + 1] ([0..<length b + 1], replicate (length b + 1) 0) = (prev, cur)"
  shows "row_upto a b i (length b) prev \<and> length cur = length b + 1"
  using assms
proof (induction i arbitrary: prev cur)
  case 0
  have "[0..<Suc (length b)] ! j = j" if "j \<le> length b" for j
    using that nth_upt [of 0 j "Suc (length b)"] by simp
  with 0 show ?case
    by (auto simp: row_upto_def)
next
  case (Suc i)
  obtain prev0 curr0 where
    f: "fold (lev_row a b) [1..<i + 1] ([0..<length b + 1], replicate (length b + 1) 0) = (prev0, curr0)"
    by (cases "fold (lev_row a b) [1..<i + 1] ([0..<length b + 1], replicate (length b + 1) 0)")
  have "lev_row a b (Suc i) (prev0, curr0) = (prev, cur)"
    using Suc.prems(2) f by simp
  then show ?case
    using Suc.IH [OF _ f] Suc.prems(1) lev_row_row [of a b i prev0 curr0 prev cur] by simp
qed

lemma lev_chars_edit_cost: "lev_chars a b = edit_cost a b"
proof (cases "a = [] \<or> b = []")
  case False
  obtain prev cur where
    f: "fold (lev_row a b) [1..<length a + 1] ([0..<length b + 1], replicate (length b + 1) 0) = (prev, cur)"
    by (cases "fold (lev_row a b) [1..<length a + 1] ([0..<length b + 1], replicate (length b + 1) 0)")
  with lev_rows_row [OF order_refl f] False show ?thesis
    by (simp add: lev_chars_def row_upto_def prefix_cost_def)
qed (auto simp: lev_chars_def)

text \<open>
  C39. The two-row Levenshtein routine computes the least cost of an alignment: some alignment of
  the two character sequences has the returned cost and none is cheaper.
\<close>

theorem levenshtein_optimal:
  "levenshtein a b = (LEAST n. alignment n (utf8_chars a) (utf8_chars b))"
  unfolding levenshtein_def lev_chars_edit_cost
  by (rule Least_equality [symmetric]) (auto intro: edit_cost_alignment edit_cost_least)

lemma levenshtein_least: "alignment n (utf8_chars a) (utf8_chars b) \<Longrightarrow> levenshtein a b \<le> n"
  by (simp add: levenshtein_def lev_chars_edit_cost edit_cost_least)

lemma levenshtein_sym: "levenshtein a b = levenshtein b a"
  by (simp add: levenshtein_def lev_chars_edit_cost edit_cost_sym)

lemma utf8_chars_concat: "concat (utf8_chars s) = s"
  by (induction s rule: utf8_chars.induct) simp_all

lemma levenshtein_zero: "levenshtein a b = 0 \<longleftrightarrow> a = b"
  using arg_cong [where f = concat, of "utf8_chars a" "utf8_chars b"]
  unfolding levenshtein_def lev_chars_edit_cost edit_cost_zero utf8_chars_concat by blast

end
