(* ===== verification/Beacon_Loader.thy ===== *)
theory Beacon_Loader
  imports Beacon_Rules Edit_Distance
begin

text \<open>
  Beacon's rule loader (\<open>crates/beacon/src/loader.rs\<close>): the walk over a directory tree, parsing one
  file, validation of rules, sinks and SLOs, the refusal of duplicate names and the suggestion for
  a misspelt field. \<open>toml::from_str\<close> and \<open>humantime::parse_duration\<close> are parameters.
\<close>

section \<open>Results\<close>

text \<open>A path is the list of its components, which is how Rust orders paths.\<close>

type_synonym fpath = "string list"

record loader_diagnostic =
  ld_file :: fpath
  ld_message :: string
  ld_suggestion :: "string option"

record load_outcome =
  lo_rules :: "rule list"
  lo_diagnostics :: "loader_diagnostic list"

datatype loader_error = DirectoryNotReadable fpath string

definition has_any_rules :: "load_outcome \<Rightarrow> bool" where
  "has_any_rules outcome = (lo_rules outcome \<noteq> [])"

definition has_diagnostics :: "load_outcome \<Rightarrow> bool" where
  "has_diagnostics outcome = (lo_diagnostics outcome \<noteq> [])"

fun path_display :: "fpath \<Rightarrow> string" where
  "path_display [] = []"
| "path_display [c] = c"
| "path_display (c # cs) = c @ ''/'' @ path_display cs"

definition quoted :: "string \<Rightarrow> string" where
  "quoted s = [CHR 0x22] @ s @ [CHR 0x22]"

definition diagnostic_display :: "loader_diagnostic \<Rightarrow> string" where
  "diagnostic_display d =
     (let base = path_display (ld_file d) @ '': '' @ ld_message d in
      case ld_suggestion d of
        Some suggestion \<Rightarrow> base @ [newline] @ ''    did you mean '' @ quoted suggestion @ ''?''
      | None \<Rightarrow> base)"

section \<open>Suggestions for misspelt fields\<close>

definition blessed_fields :: "string list" where
  "blessed_fields =
     [''name'', ''query'', ''for_duration'', ''interval'', ''severity'', ''labels'', ''sinks'', ''kind'',
      ''url'', ''inhibits'', ''channel'', ''topic'', ''auth_token_env'', ''service'', ''good_events_query'',
      ''total_events_query'', ''target_availability'', ''error_budget_period'']"

definition loader_levenshtein :: "string \<Rightarrow> string \<Rightarrow> nat" where
  "loader_levenshtein a b = lev_chars (utf8_chars a) (utf8_chars b)"

definition blessed_step :: "string \<Rightarrow> string \<Rightarrow> (string \<times> nat) option \<Rightarrow> (string \<times> nat) option" where
  "blessed_step bad candidate best =
     (let distance = loader_levenshtein bad candidate in
      if distance > 3 then best
      else case best of
             None \<Rightarrow> Some (candidate, distance)
           | Some (s, d) \<Rightarrow> if distance < d then Some (candidate, distance) else best)"

definition nearest_blessed_field :: "string \<Rightarrow> string option" where
  "nearest_blessed_field bad = map_option fst (fold (blessed_step bad) blessed_fields None)"

text \<open>\<open>str::find\<close>: what follows the first occurrence of the needle.\<close>

fun after_first :: "string \<Rightarrow> string \<Rightarrow> string option" where
  "after_first needle s =
     (if prefix needle s then Some (drop (length needle) s)
      else case s of [] \<Rightarrow> None | _ # cs \<Rightarrow> after_first needle cs)"

definition unknown_field_needle :: string where
  "unknown_field_needle = ''unknown field '' @ [CHR 0x60]"

definition sniff_unknown_field_suggestion :: "string \<Rightarrow> string option" where
  "sniff_unknown_field_suggestion message =
     (case after_first unknown_field_needle message of
        None \<Rightarrow> None
      | Some after \<Rightarrow>
          if CHR 0x60 \<in> set after
          then nearest_blessed_field (takeWhile (\<lambda>c. c \<noteq> CHR 0x60) after)
          else None)"

section \<open>Wire shapes and their validation\<close>

record raw_sink =
  rs_kind :: string
  rs_url :: "string option"
  rs_channel :: "string option"
  rs_topic :: "string option"
  rs_auth_token_env :: "string option"

record raw_rule =
  rr_name :: string
  rr_query :: string
  rr_for_duration :: string
  rr_interval :: string
  rr_severity :: severity
  rr_labels :: "(string, string) btree_map"
  rr_sinks :: "raw_sink list"
  rr_inhibits :: "string list"

record 'f raw_slo =
  rl_service :: string
  rl_good_events_query :: string
  rl_total_events_query :: string
  rl_target_availability :: 'f
  rl_error_budget_period :: string
  rl_sinks :: "raw_sink list"

record 'f file_shape =
  fs_rules :: "raw_rule list"
  fs_slo :: "'f raw_slo list"

type_synonym duration_parser = "string \<Rightarrow> string + duration"

definition parse_duration :: "duration_parser \<Rightarrow> string \<Rightarrow> string \<Rightarrow> string + duration" where
  "parse_duration humantime raw field =
     map_sum (\<lambda>err. ''invalid '' @ field @ '' value '' @ quoted raw @ '': '' @ err @ '' (expected e.g. '' @
                quoted ''30s'' @ '', '' @ quoted ''5m'' @ '', '' @ quoted ''1h'' @ '')'') id (humantime raw)"

definition supported_sinks :: "string list" where
  "supported_sinks = [''webhook'', ''mattermost'', ''zulip'', ''oncall'']"

definition convert_sink :: "string \<Rightarrow> raw_sink \<Rightarrow> string + sink_config" where
  "convert_sink sink_owner sink =
     (if rs_kind sink \<notin> set supported_sinks then
        Inl (''unsupported sink kind '' @ quoted (rs_kind sink) @
             '' (slice 04 supports: webhook, mattermost, zulip, oncall)'')
      else if rs_url sink = None then
        Inl (''sink kind '' @ quoted (rs_kind sink) @ '' requires '' @ quoted ''url'' @ '' ('' @ sink_owner @ '')'')
      else if rs_kind sink = ''zulip'' \<and> rs_topic sink = None then
        Inl (''sink kind '' @ quoted ''zulip'' @ '' requires '' @ quoted ''topic'' @ '' ('' @ sink_owner @ '')'')
      else Inr \<lparr>sc_kind = rs_kind sink, sc_url = rs_url sink, sc_channel = rs_channel sink,
                sc_topic = rs_topic sink, sc_auth_token_env = rs_auth_token_env sink\<rparr>)"

text \<open>A loop that pushes results and returns at the first error.\<close>

fun try_map :: "('a \<Rightarrow> 'e + 'b) \<Rightarrow> 'a list \<Rightarrow> 'e + 'b list" where
  "try_map f [] = Inr []"
| "try_map f (x # xs) =
     (case f x of Inl e \<Rightarrow> Inl e | Inr y \<Rightarrow> map_sum id (\<lambda>ys. y # ys) (try_map f xs))"

definition convert_sinks :: "raw_sink list \<Rightarrow> string \<Rightarrow> string + sink_config list" where
  "convert_sinks raw_sinks sink_owner = try_map (convert_sink sink_owner) raw_sinks"

definition into_rule :: "duration_parser \<Rightarrow> raw_rule \<Rightarrow> string + rule" where
  "into_rule humantime raw =
     (case parse_duration humantime (rr_for_duration raw) ''for_duration'' of
        Inl e \<Rightarrow> Inl e
      | Inr for_duration \<Rightarrow>
        (case parse_duration humantime (rr_interval raw) ''interval'' of
           Inl e \<Rightarrow> Inl e
         | Inr interval \<Rightarrow>
           (case convert_sinks (rr_sinks raw) (''rule '' @ quoted (rr_name raw)) of
              Inl e \<Rightarrow> Inl e
            | Inr sinks \<Rightarrow>
                Inr \<lparr>r_name = rr_name raw, r_query = rr_query raw, r_for_duration = for_duration,
                     r_interval = interval, r_severity = rr_severity raw, r_labels = rr_labels raw,
                     r_sinks = sinks, r_inhibits = rr_inhibits raw\<rparr>)))"

definition supported_budget_period :: duration where
  "supported_budget_period = 30 * 24 * 3600 * nanos_per_sec"

definition into_slo ::
  "('f, 'b) float_ops_scheme \<Rightarrow> duration_parser \<Rightarrow> 'f raw_slo \<Rightarrow> string \<Rightarrow> string + 'f slo" where
  "into_slo fl humantime raw source_path =
     (let target = rl_target_availability raw in
      if \<not> (fl_less fl (fl_zero fl) target \<and> fl_less fl target (fl_one fl)) then
        Inl (''invalid target_availability '' @ fl_display fl target @
             '' (must be strictly greater than 0 and strictly less than 1) in SLO '' @ quoted (rl_service raw))
      else
        case parse_duration humantime (rl_error_budget_period raw) ''error_budget_period'' of
          Inl e \<Rightarrow> Inl e
        | Inr budget \<Rightarrow>
            if budget \<noteq> supported_budget_period then
              Inl (''unsupported error_budget_period '' @ quoted (rl_error_budget_period raw) @ '' (only '' @
                   quoted ''30d'' @ '' is supported at v0) in SLO '' @ quoted (rl_service raw))
            else
              case convert_sinks (rl_sinks raw) (''SLO '' @ quoted (rl_service raw)) of
                Inl e \<Rightarrow> Inl e
              | Inr sinks \<Rightarrow>
                  Inr \<lparr>slo_service = rl_service raw, slo_good_events = rl_good_events_query raw,
                       slo_total_events = rl_total_events_query raw, slo_target_availability = target,
                       slo_error_budget_period = budget, slo_sinks = sinks, slo_source_path = Some source_path\<rparr>)"

section \<open>Files and directories\<close>

text \<open>
  A directory tree as the walk sees it: the entries \<open>read_dir\<close> yields without an error, and for each
  file what reading it gives.
\<close>

datatype fs_node = FileNode string "string + string" | DirNode string "string + fs_node list"

definition extension_toml :: "string \<Rightarrow> bool" where
  "extension_toml file_name = (suffix ''.toml'' file_name \<and> length file_name > 5)"

fun collect_toml_files :: "fpath \<Rightarrow> fs_node list \<Rightarrow> loader_error + (fpath \<times> (string + string)) list"
  and collect_toml_node :: "fpath \<Rightarrow> fs_node \<Rightarrow> loader_error + (fpath \<times> (string + string)) list" where
  "collect_toml_files dir [] = Inr []"
| "collect_toml_files dir (entry # entries) =
     (case collect_toml_node dir entry of
        Inl e \<Rightarrow> Inl e
      | Inr out \<Rightarrow> map_sum id (\<lambda>rest. out @ rest) (collect_toml_files dir entries))"
| "collect_toml_node dir (DirNode name (Inl err)) = Inl (DirectoryNotReadable (dir @ [name]) err)"
| "collect_toml_node dir (DirNode name (Inr sub)) = collect_toml_files (dir @ [name]) sub"
| "collect_toml_node dir (FileNode name contents) =
     Inr (if extension_toml name then [(dir @ [name], contents)] else [])"

definition parse_file ::
  "('f, 'b) float_ops_scheme \<Rightarrow> duration_parser \<Rightarrow> (string \<Rightarrow> string + 'f file_shape) \<Rightarrow>
   fpath \<times> (string + string) \<Rightarrow> loader_diagnostic + rule list" where
  "parse_file fl humantime from_str = (\<lambda>(path, contents).
     case contents of
       Inl err \<Rightarrow> Inl \<lparr>ld_file = path, ld_message = ''read failed: '' @ err, ld_suggestion = None\<rparr>
     | Inr txt \<Rightarrow>
       (case from_str txt of
          Inl raw \<Rightarrow>
            Inl \<lparr>ld_file = path, ld_message = raw, ld_suggestion = sniff_unknown_field_suggestion raw\<rparr>
        | Inr parsed \<Rightarrow>
          (case try_map (into_rule humantime) (fs_rules parsed) of
             Inl message \<Rightarrow> Inl \<lparr>ld_file = path, ld_message = message, ld_suggestion = None\<rparr>
           | Inr rules \<Rightarrow>
             (case try_map (\<lambda>raw. into_slo fl humantime raw (path_display path)) (fs_slo parsed) of
                Inl message \<Rightarrow> Inl \<lparr>ld_file = path, ld_message = message, ld_suggestion = None\<rparr>
              | Inr slos \<Rightarrow> Inr (rules @ concat (map (synthesise_slo fl) slos))))))"

section \<open>Loading a directory\<close>

definition duplicate_message :: "string \<Rightarrow> string" where
  "duplicate_message name =
     ''duplicate rule name '' @ quoted name @ '': the merged catalogue holds more than one rule named '' @
     quoted name @ '' (a synthesised SLO rule and a hand-authored rule, or two SLOs, collide); rename one so neither is silently shadowed''"

definition name_counts :: "rule list \<Rightarrow> (string, nat) btree_map" where
  "name_counts rules =
     fold (\<lambda>rule m. bt_insert (r_name rule) (hm_get_or 0 m (r_name rule) + 1) m) rules []"

definition duplicate_names :: "rule list \<Rightarrow> string list" where
  "duplicate_names rules = map fst (filter (\<lambda>(_, count). count > 1) (name_counts rules))"

definition drop_duplicate :: "(string, fpath) btree_map \<Rightarrow> string \<Rightarrow> load_outcome \<Rightarrow> load_outcome" where
  "drop_duplicate origin name outcome =
     \<lparr>lo_rules = filter (\<lambda>rule. r_name rule \<noteq> name) (lo_rules outcome),
      lo_diagnostics = lo_diagnostics outcome @
        [\<lparr>ld_file = hm_get_or [] origin name, ld_message = duplicate_message name, ld_suggestion = None\<rparr>]\<rparr>"

definition detect_duplicate_names :: "(string, fpath) btree_map \<Rightarrow> load_outcome \<Rightarrow> load_outcome" where
  "detect_duplicate_names origin outcome =
     fold (drop_duplicate origin) (duplicate_names (lo_rules outcome)) outcome"

definition or_insert :: "string \<Rightarrow> fpath \<Rightarrow> (string, fpath) btree_map \<Rightarrow> (string, fpath) btree_map" where
  "or_insert name path origin = (if hm_contains origin name then origin else bt_insert name path origin)"

definition load_step ::
  "(fpath \<times> (string + string) \<Rightarrow> loader_diagnostic + rule list) \<Rightarrow> fpath \<times> (string + string) \<Rightarrow>
   load_outcome \<times> (string, fpath) btree_map \<Rightarrow> load_outcome \<times> (string, fpath) btree_map" where
  "load_step parse file = (\<lambda>(outcome, origin).
     case parse file of
       Inr rules \<Rightarrow>
         (outcome\<lparr>lo_rules := lo_rules outcome @ rules\<rparr>,
          fold (\<lambda>rule. or_insert (r_name rule) (fst file)) rules origin)
     | Inl diag \<Rightarrow> (outcome\<lparr>lo_diagnostics := lo_diagnostics outcome @ [diag]\<rparr>, origin))"

definition load_rules ::
  "('f, 'b) float_ops_scheme \<Rightarrow> duration_parser \<Rightarrow> (string \<Rightarrow> string + 'f file_shape) \<Rightarrow>
   fpath \<Rightarrow> string + fs_node list \<Rightarrow> loader_error + load_outcome" where
  "load_rules fl humantime from_str dir entries =
     (case entries of
        Inl err \<Rightarrow> Inl (DirectoryNotReadable dir err)
      | Inr nodes \<Rightarrow>
        (case collect_toml_files dir nodes of
           Inl e \<Rightarrow> Inl e
         | Inr paths \<Rightarrow>
             let (outcome, origin) =
               fold (load_step (parse_file fl humantime from_str)) (sort_key fst paths)
                 (\<lparr>lo_rules = [], lo_diagnostics = []\<rparr>, [])
             in Inr (detect_duplicate_names origin outcome)))"

section \<open>The suggestion is the nearest field\<close>

declare after_first.simps [simp del]

definition nearest_of :: "('a \<Rightarrow> nat) \<Rightarrow> nat \<Rightarrow> 'a list \<Rightarrow> ('a \<times> nat) option \<Rightarrow> bool" where
  "nearest_of dist limit cs best =
     (case best of
        None \<Rightarrow> \<forall>c \<in> set cs. limit < dist c
      | Some (s, d) \<Rightarrow> s \<in> set cs \<and> d = dist s \<and> d \<le> limit \<and> (\<forall>c \<in> set cs. d \<le> dist c))"

lemma loader_levenshtein_eq [simp]: "loader_levenshtein = levenshtein"
  by (simp add: fun_eq_iff loader_levenshtein_def levenshtein_def)

lemma blessed_step_nearest:
  "nearest_of (levenshtein bad) 3 cs best \<Longrightarrow>
   nearest_of (levenshtein bad) 3 (cs @ [c]) (blessed_step bad c best)"
  by (force simp: nearest_of_def blessed_step_def Let_def split: option.splits)

lemma blessed_fold_nearest: "nearest_of (levenshtein bad) 3 cs (fold (blessed_step bad) cs None)"
proof (induction cs rule: rev_induct)
  case (snoc c cs)
  then show ?case
    using blessed_step_nearest by simp
qed (simp add: nearest_of_def)

text \<open>
  The suggestion for a misspelt field is a field of the schema at Levenshtein distance at most
  three, and no field of the schema is nearer; there is no suggestion only when every field is
  farther away than that.
\<close>

theorem loader_suggestion_nearest:
  "case nearest_blessed_field bad of
     None \<Rightarrow> \<forall>c \<in> set blessed_fields. 3 < levenshtein bad c
   | Some s \<Rightarrow> s \<in> set blessed_fields \<and> levenshtein bad s \<le> 3 \<and>
       (\<forall>c \<in> set blessed_fields. levenshtein bad s \<le> levenshtein bad c)"
  using blessed_fold_nearest [of bad blessed_fields]
  by (auto simp: nearest_blessed_field_def nearest_of_def split: option.splits)

section \<open>Duplicate names\<close>

lemma name_counts_snoc:
  "name_counts (rules @ [r]) =
     bt_insert (r_name r) (hm_get_or 0 (name_counts rules) (r_name r) + 1) (name_counts rules)"
  by (simp add: name_counts_def)

lemma bt_wf_name_counts: "bt_wf (name_counts rules)"
  by (induction rules rule: rev_induct) (auto simp: name_counts_snoc, simp add: name_counts_def)

lemma name_counts_get:
  "hm_get (name_counts rules) n =
     (if n \<in> r_name ` set rules then Some (count_list (map r_name rules) n) else None)"
proof (induction rules arbitrary: n rule: rev_induct)
  case (snoc r rules)
  have "hm_get_or 0 (name_counts rules) (r_name r) = count_list (map r_name rules) (r_name r)"
    using snoc.IH [of "r_name r"] count_notin [of "r_name r" "map r_name rules"] by (simp add: hm_get_or_def)
  with snoc.IH [of n] show ?case
    by (auto simp: name_counts_snoc bt_wf_name_counts count_notin)
qed (simp add: name_counts_def)

lemma duplicate_names_set: "set (duplicate_names rules) = {n. 1 < count_list (map r_name rules) n}"
proof -
  have "(n, c) \<in> set (name_counts rules) \<longleftrightarrow> hm_get (name_counts rules) n = Some c" for n c
    using bt_wf_distinct [OF bt_wf_name_counts] by (simp add: map_of_eq_Some_iff)
  then show ?thesis
    using count_notin [of _ "map r_name rules"]
    by (force simp: duplicate_names_def name_counts_get split: if_splits)
qed

lemma fold_drop_duplicate:
  "lo_rules (fold (drop_duplicate origin) names outcome) =
     filter (\<lambda>r. r_name r \<notin> set names) (lo_rules outcome)"
  "lo_diagnostics (fold (drop_duplicate origin) names outcome) =
     lo_diagnostics outcome @ map (\<lambda>n. \<lparr>ld_file = hm_get_or [] origin n, ld_message = duplicate_message n,
       ld_suggestion = None\<rparr>) names"
  by (induction names arbitrary: outcome)
    (auto simp: drop_duplicate_def intro!: filter_cong)

lemma count_list_filter_names:
  "count_list (map r_name (filter P rules)) n \<le> count_list (map r_name rules) n"
  by (induction rules) auto

lemma distinct_count_list: "\<forall>n. count_list xs n \<le> 1 \<Longrightarrow> distinct xs"
proof (induction xs)
  case (Cons x xs)
  have "count_list xs n \<le> 1" for n
    using Cons.prems [rule_format, of n] by (simp split: if_splits)
  moreover have "count_list xs x = 0"
    using Cons.prems [rule_format, of x] by simp
  ultimately show ?case
    using Cons.IH by (simp add: count_list_0_iff)
qed simp

lemma distinct_singletons:
  "distinct (map r_name (filter (\<lambda>r. count_list (map r_name rules) (r_name r) = 1) rules))"
proof (rule distinct_count_list, rule allI)
  fix n
  let ?xs = "map r_name (filter (\<lambda>r. count_list (map r_name rules) (r_name r) = 1) rules)"
  show "count_list ?xs n \<le> 1"
  proof (cases "n \<in> set ?xs")
    case True
    then show ?thesis
      using count_list_filter_names [of "\<lambda>r. count_list (map r_name rules) (r_name r) = 1" rules n] by auto
  qed (simp add: count_notin)
qed

section \<open>What a load yields\<close>

text \<open>The rules of the files that parse, in path order, and the diagnostics of the files that do not.\<close>

definition parsed_rules :: "('x \<Rightarrow> 'd + rule list) \<Rightarrow> 'x list \<Rightarrow> rule list" where
  "parsed_rules parse files = concat (map (\<lambda>f. case parse f of Inr rs \<Rightarrow> rs | Inl _ \<Rightarrow> []) files)"

lemma parsed_rules_snoc:
  "parsed_rules parse (files @ [f]) = parsed_rules parse files @ (case parse f of Inr rs \<Rightarrow> rs | Inl _ \<Rightarrow> [])"
  by (simp add: parsed_rules_def)

lemma load_step_fold:
  "\<exists>diags origin. fold (load_step parse) files (\<lparr>lo_rules = [], lo_diagnostics = []\<rparr>, []) =
     (\<lparr>lo_rules = parsed_rules parse files, lo_diagnostics = diags\<rparr>, origin) \<and>
     set diags = {d. \<exists>f \<in> set files. parse f = Inl d}"
proof (induction files rule: rev_induct)
  case (snoc f files)
  then show ?case
    by (cases "parse f") (auto simp: load_step_def parsed_rules_snoc)
qed (simp add: parsed_rules_def)

lemma load_rulesE:
  assumes "load_rules fl humantime from_str dir entries = Inr outcome"
  obtains nodes files diags origin where "entries = Inr nodes" "collect_toml_files dir nodes = Inr files"
    "outcome = detect_duplicate_names origin
       \<lparr>lo_rules = parsed_rules (parse_file fl humantime from_str) (sort_key fst files), lo_diagnostics = diags\<rparr>"
    "set diags = {d. \<exists>f \<in> set files. parse_file fl humantime from_str f = Inl d}"
proof -
  obtain nodes files where e: "entries = Inr nodes" and c: "collect_toml_files dir nodes = Inr files"
    using assms by (auto simp: load_rules_def split: sum.splits)
  obtain diags origin where "fold (load_step (parse_file fl humantime from_str)) (sort_key fst files)
      (\<lparr>lo_rules = [], lo_diagnostics = []\<rparr>, []) =
     (\<lparr>lo_rules = parsed_rules (parse_file fl humantime from_str) (sort_key fst files), lo_diagnostics = diags\<rparr>, origin)"
    "set diags = {d. \<exists>f \<in> set files. parse_file fl humantime from_str f = Inl d}"
    using load_step_fold [of "parse_file fl humantime from_str" "sort_key fst files"] by auto
  with that [OF e c] assms e c show thesis
    by (auto simp: load_rules_def)
qed

lemma detect_duplicate_rules:
  "lo_rules (detect_duplicate_names origin \<lparr>lo_rules = rules, lo_diagnostics = diags\<rparr>) =
     filter (\<lambda>r. count_list (map r_name rules) (r_name r) = 1) rules"
proof -
  have "1 \<le> count_list (map r_name rules) (r_name r)" if "r \<in> set rules" for r
    using that count_list_0_iff [of "map r_name rules" "r_name r"] by (cases "count_list (map r_name rules) (r_name r)") auto
  then show ?thesis
    by (force simp: detect_duplicate_names_def fold_drop_duplicate duplicate_names_set intro!: filter_cong)
qed

text \<open>
  C36. No rule is silently shadowed or lost: after a load the names in the catalogue are distinct;
  the catalogue is the sequence of the rules of all parsable files in path order, less those whose
  name occurs more than once; every rule left out and every file that failed has its diagnostic.
\<close>

theorem loader_no_silent_loss:
  assumes "load_rules fl humantime from_str dir (Inr nodes) = Inr outcome"
    and "collect_toml_files dir nodes = Inr files"
  defines "parse \<equiv> parse_file fl humantime from_str"
  defines "parsed \<equiv> parsed_rules (parse_file fl humantime from_str) (sort_key fst files)"
  shows "distinct (map r_name (lo_rules outcome)) \<and>
    lo_rules outcome = filter (\<lambda>r. count_list (map r_name parsed) (r_name r) = 1) parsed \<and>
    (\<forall>r \<in> set parsed. r \<notin> set (lo_rules outcome) \<longrightarrow>
       duplicate_message (r_name r) \<in> ld_message ` set (lo_diagnostics outcome)) \<and>
    (\<forall>f \<in> set files. \<forall>d. parse f = Inl d \<longrightarrow> d \<in> set (lo_diagnostics outcome))"
proof (intro conjI ballI allI impI)
  obtain diags origin where o: "outcome = detect_duplicate_names origin \<lparr>lo_rules = parsed, lo_diagnostics = diags\<rparr>"
    and d: "set diags = {d. \<exists>f \<in> set files. parse f = Inl d}"
    by (rule load_rulesE [OF assms(1)]) (auto simp: parse_def parsed_def assms(2))
  show rules: "lo_rules outcome = filter (\<lambda>r. count_list (map r_name parsed) (r_name r) = 1) parsed"
    by (simp only: o detect_duplicate_rules)
  then show "distinct (map r_name (lo_rules outcome))"
    by (simp only: distinct_singletons)
  have diag: "lo_diagnostics outcome = diags @ map (\<lambda>n. \<lparr>ld_file = hm_get_or [] origin n,
      ld_message = duplicate_message n, ld_suggestion = None\<rparr>) (duplicate_names parsed)"
    by (simp add: o detect_duplicate_names_def fold_drop_duplicate)
  fix r
  assume "r \<in> set parsed" "r \<notin> set (lo_rules outcome)"
  then have "count_list (map r_name parsed) (r_name r) \<noteq> 0" "count_list (map r_name parsed) (r_name r) \<noteq> 1"
    by (auto simp: rules count_list_0_iff)
  then have "r_name r \<in> set (duplicate_names parsed)"
    by (simp add: duplicate_names_set)
  then show "duplicate_message (r_name r) \<in> ld_message ` set (lo_diagnostics outcome)"
    by (force simp: diag)
next
  fix f d
  assume "f \<in> set files" "parse f = Inl d"
  then show "d \<in> set (lo_diagnostics outcome)"
    using assms(2)
    by - (rule load_rulesE [OF assms(1)], auto simp: parse_def detect_duplicate_names_def fold_drop_duplicate)
qed

text \<open>A directory with a colliding pair of rules, a rule of its own and an unreadable file.\<close>

definition sample_raw_rule :: "string \<Rightarrow> raw_rule" where
  "sample_raw_rule name =
     \<lparr>rr_name = name, rr_query = ''up == 0'', rr_for_duration = ''1m'', rr_interval = ''30s'',
      rr_severity = Critical, rr_labels = [], rr_sinks = [], rr_inhibits = []\<rparr>"

definition sample_float_ops :: "int float_ops" where
  "sample_float_ops =
     \<lparr>fl_zero = 0, fl_one = 1, fl_less = (<), fl_sub = (-), fl_mul = (*), fl_fmt10 = (\<lambda>_. ''0.0''),
      fl_display = (\<lambda>_. ''0''), fl_of_tenths = (\<lambda>n. int n)\<rparr>"

definition sample_from_str :: "string \<Rightarrow> string + int file_shape" where
  "sample_from_str body = Inr \<lparr>fs_rules = [sample_raw_rule ''dup'', sample_raw_rule body], fs_slo = []\<rparr>"

definition sample_nodes :: "fs_node list" where
  "sample_nodes = [FileNode ''b.toml'' (Inr ''disk''), FileNode ''a.toml'' (Inr ''dup''),
     DirNode ''sub'' (Inr [FileNode ''c.toml'' (Inl ''denied''), FileNode ''.toml'' (Inr ''x'')])]"

lemma sample_files:
  "collect_toml_files [''rules''] sample_nodes =
     Inr [([''rules'', ''b.toml''], Inr ''disk''), ([''rules'', ''a.toml''], Inr ''dup''),
          ([''rules'', ''sub'', ''c.toml''], Inl ''denied'')]"
  by code_simp

lemma sample_load:
  "load_rules sample_float_ops (\<lambda>_. Inr 60) sample_from_str [''rules''] (Inr sample_nodes) =
     Inr \<lparr>lo_rules = [\<lparr>r_name = ''disk'', r_query = ''up == 0'', r_for_duration = 60, r_interval = 60,
            r_severity = Critical, r_labels = [], r_sinks = [], r_inhibits = []\<rparr>],
          lo_diagnostics = [\<lparr>ld_file = [''rules'', ''sub'', ''c.toml''], ld_message = ''read failed: denied'',
            ld_suggestion = None\<rparr>,
           \<lparr>ld_file = [''rules'', ''a.toml''], ld_message = duplicate_message ''dup'', ld_suggestion = None\<rparr>]\<rparr>"
  by code_simp

theorem loader_no_silent_loss_witness:
  "\<exists>outcome. load_rules sample_float_ops (\<lambda>_. Inr 60) sample_from_str [''rules''] (Inr sample_nodes) = Inr outcome \<and>
     map r_name (lo_rules outcome) = [''disk''] \<and> distinct (map r_name (lo_rules outcome))"
  by (rule exI, intro conjI, rule sample_load, simp,
      rule loader_no_silent_loss [OF sample_load sample_files, THEN conjunct1])

lemma levenshtein_urls: "levenshtein ''urls'' ''url'' \<le> 1"
proof (rule levenshtein_least)
  have "utf8_chars ''urls'' = [''u'', ''r'', ''l'', ''s'']" "utf8_chars ''url'' = [''u'', ''r'', ''l'']"
    by (simp_all add: utf8_continuation_def)
  then show "alignment 1 (utf8_chars ''urls'') (utf8_chars ''url'')"
    by (auto intro!: alignment_keep intro: alignment_singles)
qed

theorem loader_suggestion_nearest_witness:
  "\<exists>s \<in> set blessed_fields. nearest_blessed_field ''urls'' = Some s \<and> levenshtein ''urls'' s \<le> 1"
proof -
  have url: "''url'' \<in> set blessed_fields"
    by (simp add: blessed_fields_def)
  show ?thesis
  proof (cases "nearest_blessed_field ''urls''")
    case None
    then have "3 < levenshtein ''urls'' ''url''"
      using loader_suggestion_nearest [of "''urls''"] url by simp
    with levenshtein_urls show ?thesis
      by simp
  next
    case (Some s)
    then have "s \<in> set blessed_fields" "levenshtein ''urls'' s \<le> levenshtein ''urls'' ''url''"
      using loader_suggestion_nearest [of "''urls''"] url by simp_all
    with Some order_trans [OF _ levenshtein_urls] show ?thesis
      by blast
  qed
qed

section \<open>Loaded sinks\<close>

definition sink_ok :: "sink_config \<Rightarrow> bool" where
  "sink_ok cfg = (sc_kind cfg \<in> set supported_sinks \<and> sc_url cfg \<noteq> None \<and>
     (sc_kind cfg = ''zulip'' \<longrightarrow> sc_topic cfg \<noteq> None))"

lemma convert_sink_ok: "convert_sink sink_owner s = Inr cfg \<Longrightarrow> sink_ok cfg"
  by (auto simp: convert_sink_def sink_ok_def split: if_splits)

lemma try_map_all:
  "try_map f xs = Inr ys \<Longrightarrow> (\<And>x y. x \<in> set xs \<Longrightarrow> f x = Inr y \<Longrightarrow> P y) \<Longrightarrow> list_all P ys"
proof (induction xs arbitrary: ys)
  case (Cons x xs)
  obtain y zs where y: "f x = Inr y" and zs: "try_map f xs = Inr zs" and ys: "ys = y # zs"
    using Cons.prems(1) by (cases "try_map f xs") (auto split: sum.splits)
  have "list_all P zs"
    by (rule Cons.IH [OF zs]) (auto intro: Cons.prems(2))
  with Cons.prems(2) [of x y] y ys show ?case
    by simp
qed simp

lemma convert_sinks_ok: "convert_sinks ss sink_owner = Inr cfgs \<Longrightarrow> list_all sink_ok cfgs"
  unfolding convert_sinks_def by (rule try_map_all) (auto intro: convert_sink_ok)

lemma into_rule_sinks: "into_rule humantime raw = Inr r \<Longrightarrow> list_all sink_ok (r_sinks r)"
  by (auto simp: into_rule_def split: sum.splits dest: convert_sinks_ok)

lemma into_slo_sinks: "into_slo fl humantime raw path = Inr s \<Longrightarrow> list_all sink_ok (slo_sinks s)"
  by (auto simp: into_slo_def Let_def split: sum.splits if_splits dest: convert_sinks_ok)

lemma synthesise_slo_sinks: "r \<in> set (synthesise_slo fl s) \<Longrightarrow> r_sinks r = slo_sinks s"
  by (auto simp: synthesise_slo_def synthesise_row_def Let_def)

lemma parse_file_sinks:
  assumes "parse_file fl humantime from_str f = Inr rules" and "r \<in> set rules"
  shows "list_all sink_ok (r_sinks r)"
proof -
  obtain path body parsed byhand slos where "f = (path, Inr body)" "from_str body = Inr parsed"
    and h: "try_map (into_rule humantime) (fs_rules parsed) = Inr byhand"
    and s: "try_map (\<lambda>raw. into_slo fl humantime raw (path_display path)) (fs_slo parsed) = Inr slos"
    and r: "rules = byhand @ concat (map (synthesise_slo fl) slos)"
    using assms(1) by (auto simp: parse_file_def split: prod.splits sum.splits)
  have "list_all (\<lambda>r. list_all sink_ok (r_sinks r)) byhand"
    using h by (rule try_map_all) (rule into_rule_sinks)
  moreover have "list_all (\<lambda>s. list_all sink_ok (slo_sinks s)) slos"
    using s by (rule try_map_all) (rule into_slo_sinks)
  ultimately show ?thesis
    using assms(2) r synthesise_slo_sinks [of r fl] by (auto simp: list_all_iff)
qed

lemma load_rules_sinks:
  assumes "load_rules fl humantime from_str dir entries = Inr outcome" and "r \<in> set (lo_rules outcome)"
  shows "list_all sink_ok (r_sinks r)"
  using assms(1)
proof (rule load_rulesE)
  fix nodes files diags origin
  assume o: "outcome = detect_duplicate_names origin
       \<lparr>lo_rules = parsed_rules (parse_file fl humantime from_str) (sort_key fst files), lo_diagnostics = diags\<rparr>"
  then have "r \<in> set (parsed_rules (parse_file fl humantime from_str) (sort_key fst files))"
    using assms(2) by (simp only: o detect_duplicate_rules) simp
  then obtain f where "r \<in> set (case parse_file fl humantime from_str f of Inr rs \<Rightarrow> rs | Inl _ \<Rightarrow> [])"
    by (auto simp: parsed_rules_def)
  then obtain rules where "parse_file fl humantime from_str f = Inr rules" "r \<in> set rules"
    by (cases "parse_file fl humantime from_str f") auto
  then show ?thesis
    by (rule parse_file_sinks)
qed

end
