(* ===== verification/Beacon_Sinks.thy ===== *)
theory Beacon_Sinks
  imports Beacon_Rules
begin

text \<open>
  Beacon's sinks (\<open>crates/beacon/src/sinks.rs\<close>): the four adapters, the request each one posts for
  an incident and how the answer of the remote end is classified. The HTTP exchange itself belongs
  to \<open>reqwest\<close>: it is a function from a request to a transport error or a status code. JSON bodies
  are kept as the structures that are serialised.
\<close>

datatype sink_kind = Webhook | Mattermost | Zulip | OnCall

fun sink_kind_display :: "sink_kind \<Rightarrow> string" where
  "sink_kind_display Webhook = ''webhook''"
| "sink_kind_display Mattermost = ''mattermost''"
| "sink_kind_display Zulip = ''zulip''"
| "sink_kind_display OnCall = ''oncall''"

text \<open>The formatted messages of \<open>SinkError\<close>: what they say, with the parts they are formatted from.\<close>

datatype sink_message =
  ClientBuildFailed string string | PostFailed string string | ReturnedHttp string nat

datatype sink_error = Transient duration sink_message | Permanent sink_message

datatype sink =
  WebhookSink string
| MattermostSink string "string option"
| ZulipSink string string
| OnCallSink string "string option"

datatype payload =
  IncidentBody incident
| MattermostPayload string "string option"
| ZulipPayload string string
| OnCallPayload string string string string

record request =
  rq_url :: string
  rq_body :: payload
  rq_bearer :: "string option"

type_synonym http = "request \<Rightarrow> string + nat"

fun kind_of_sink :: "sink \<Rightarrow> sink_kind" where
  "kind_of_sink (WebhookSink _) = Webhook"
| "kind_of_sink (MattermostSink _ _) = Mattermost"
| "kind_of_sink (ZulipSink _ _) = Zulip"
| "kind_of_sink (OnCallSink _ _) = OnCall"

section \<open>Construction\<close>

text \<open>\<open>reqwest::Client::builder().build()\<close>: \<open>Some e\<close> when no client can be built.\<close>

definition build_client :: "string option \<Rightarrow> string \<Rightarrow> sink_error + unit" where
  "build_client client kind =
     (case client of None \<Rightarrow> Inr () | Some err \<Rightarrow> Inl (Permanent (ClientBuildFailed kind err)))"

definition webhook_new :: "string option \<Rightarrow> string \<Rightarrow> sink_error + sink" where
  "webhook_new client url =
     (case client of None \<Rightarrow> Inr (WebhookSink url)
      | Some err \<Rightarrow> Inl (Permanent (ClientBuildFailed ''webhook'' err)))"

definition mattermost_new :: "string option \<Rightarrow> string \<Rightarrow> string option \<Rightarrow> sink_error + sink" where
  "mattermost_new client url channel = map_sum id (\<lambda>_. MattermostSink url channel) (build_client client ''mattermost'')"

definition zulip_new :: "string option \<Rightarrow> string \<Rightarrow> string \<Rightarrow> sink_error + sink" where
  "zulip_new client url topic = map_sum id (\<lambda>_. ZulipSink url topic) (build_client client ''zulip'')"

definition oncall_new :: "string option \<Rightarrow> string \<Rightarrow> string option \<Rightarrow> sink_error + sink" where
  "oncall_new client url bearer_token = map_sum id (\<lambda>_. OnCallSink url bearer_token) (build_client client ''oncall'')"

section \<open>Messages\<close>

fun severity_str :: "severity \<Rightarrow> string" where
  "severity_str Info = ''info''"
| "severity_str Warning = ''warning''"
| "severity_str Critical = ''critical''"

definition resolved_suffix :: "incident \<Rightarrow> string" where
  "resolved_suffix incident = (case i_resolved_at incident of None \<Rightarrow> '''' | Some _ \<Rightarrow> '' (resolved)'')"

definition em_dash :: string where
  "em_dash = [CHR 0xE2, CHR 0x80, CHR 0x94]"

definition code_fence :: string where
  "code_fence = replicate 3 CHR 0x60"

definition format_markdown :: "incident \<Rightarrow> string" where
  "format_markdown incident =
     ''**'' @ i_name incident @ ''**'' @ resolved_suffix incident @ '' '' @ em_dash @ '' severity '' @
     [CHR 0x60] @ severity_str (i_severity incident) @ [CHR 0x60, newline] @ code_fence @ [newline] @
     i_query incident @ [newline] @ code_fence"

definition format_plain :: "incident \<Rightarrow> string" where
  "format_plain incident =
     i_name incident @ resolved_suffix incident @ '' severity='' @ severity_str (i_severity incident) @
     '' query='' @ i_query incident"

section \<open>Emission\<close>

definition is_success :: "nat \<Rightarrow> bool" where
  "is_success status = (200 \<le> status \<and> status < 300)"

definition is_server_error :: "nat \<Rightarrow> bool" where
  "is_server_error status = (500 \<le> status \<and> status < 600)"

definition classify_response :: "nat \<Rightarrow> string \<Rightarrow> sink_error + unit" where
  "classify_response status kind =
     (if is_success status then Inr ()
      else if is_server_error status then Inl (Transient nanos_per_sec (ReturnedHttp kind status))
      else Inl (Permanent (ReturnedHttp kind status)))"

definition send :: "http \<Rightarrow> request \<Rightarrow> string \<Rightarrow> sink_error + unit" where
  "send http req kind =
     (case http req of
        Inl err \<Rightarrow> Inl (Transient nanos_per_sec (PostFailed kind err))
      | Inr status \<Rightarrow> classify_response status kind)"

definition post_json :: "http \<Rightarrow> string \<Rightarrow> payload \<Rightarrow> string \<Rightarrow> sink_error + unit" where
  "post_json http url body kind = send http \<lparr>rq_url = url, rq_body = body, rq_bearer = None\<rparr> kind"

definition webhook_emit :: "http \<Rightarrow> string \<Rightarrow> incident \<Rightarrow> sink_error + unit" where
  "webhook_emit http url incident =
     (case http \<lparr>rq_url = url, rq_body = IncidentBody incident, rq_bearer = None\<rparr> of
        Inl err \<Rightarrow> Inl (Transient nanos_per_sec (PostFailed ''webhook'' err))
      | Inr status \<Rightarrow>
          if is_success status then Inr ()
          else if is_server_error status then Inl (Transient nanos_per_sec (ReturnedHttp ''webhook'' status))
          else Inl (Permanent (ReturnedHttp ''webhook'' status)))"

definition mattermost_emit :: "http \<Rightarrow> string \<Rightarrow> string option \<Rightarrow> incident \<Rightarrow> sink_error + unit" where
  "mattermost_emit http url channel incident =
     post_json http url (MattermostPayload (format_markdown incident) channel) ''mattermost''"

definition zulip_emit :: "http \<Rightarrow> string \<Rightarrow> string \<Rightarrow> incident \<Rightarrow> sink_error + unit" where
  "zulip_emit http url topic incident = post_json http url (ZulipPayload topic (format_plain incident)) ''zulip''"

definition oncall_body :: "incident \<Rightarrow> payload" where
  "oncall_body incident =
     OnCallPayload (i_name incident) (i_name incident)
       (if i_resolved_at incident \<noteq> None then ''ok'' else ''alerting'')
       (''severity='' @ severity_str (i_severity incident) @ '' query='' @ i_query incident)"

definition oncall_emit :: "http \<Rightarrow> string \<Rightarrow> string option \<Rightarrow> incident \<Rightarrow> sink_error + unit" where
  "oncall_emit http url bearer_token incident =
     send http \<lparr>rq_url = url, rq_body = oncall_body incident, rq_bearer = bearer_token\<rparr> ''oncall''"

fun sink_emit :: "http \<Rightarrow> sink \<Rightarrow> incident \<Rightarrow> sink_error + unit" where
  "sink_emit http (WebhookSink url) = webhook_emit http url"
| "sink_emit http (MattermostSink url channel) = mattermost_emit http url channel"
| "sink_emit http (ZulipSink url topic) = zulip_emit http url topic"
| "sink_emit http (OnCallSink url bearer_token) = oncall_emit http url bearer_token"

section \<open>One contract for the four adapters\<close>

text \<open>The request an adapter posts.\<close>

fun sink_request :: "sink \<Rightarrow> incident \<Rightarrow> request" where
  "sink_request (WebhookSink url) i = \<lparr>rq_url = url, rq_body = IncidentBody i, rq_bearer = None\<rparr>"
| "sink_request (MattermostSink url channel) i =
     \<lparr>rq_url = url, rq_body = MattermostPayload (format_markdown i) channel, rq_bearer = None\<rparr>"
| "sink_request (ZulipSink url topic) i =
     \<lparr>rq_url = url, rq_body = ZulipPayload topic (format_plain i), rq_bearer = None\<rparr>"
| "sink_request (OnCallSink url token) i = \<lparr>rq_url = url, rq_body = oncall_body i, rq_bearer = token\<rparr>"

locale http_adapter =
  fixes emit :: "http \<Rightarrow> incident \<Rightarrow> sink_error + unit"
    and req_of :: "incident \<Rightarrow> request"
    and kind :: string
  assumes emit_transport: "http (req_of i) = Inl err \<Longrightarrow>
      emit http i = Inl (Transient nanos_per_sec (PostFailed kind err))"
    and emit_status: "http (req_of i) = Inr status \<Longrightarrow> emit http i = classify_response status kind"
begin

lemma emit_ok_iff: "emit http i = Inr () \<longleftrightarrow> (\<exists>status. http (req_of i) = Inr status \<and> is_success status)"
  by (cases "http (req_of i)") (auto simp: emit_transport emit_status classify_response_def)

lemma emit_transient_iff:
  "(\<exists>d m. emit http i = Inl (Transient d m)) \<longleftrightarrow>
   (\<exists>err. http (req_of i) = Inl err) \<or> (\<exists>status. http (req_of i) = Inr status \<and> is_server_error status)"
  by (cases "http (req_of i)")
    (auto simp: emit_transport emit_status classify_response_def is_success_def is_server_error_def)

end

interpretation adapter: http_adapter "\<lambda>http. sink_emit http s" "sink_request s" "sink_kind_display (kind_of_sink s)"
  for s
proof
  fix http i err status
  show "http (sink_request s i) = Inl err \<Longrightarrow>
      sink_emit http s i = Inl (Transient nanos_per_sec (PostFailed (sink_kind_display (kind_of_sink s)) err))"
    by (cases s) (auto simp: webhook_emit_def mattermost_emit_def zulip_emit_def oncall_emit_def post_json_def send_def)
  show "http (sink_request s i) = Inr status \<Longrightarrow>
      sink_emit http s i = classify_response status (sink_kind_display (kind_of_sink s))"
    by (cases s) (auto simp: webhook_emit_def mattermost_emit_def zulip_emit_def oncall_emit_def post_json_def
        send_def classify_response_def)
qed

text \<open>
  All four adapters classify the outcome of their one request in the same way: delivery is
  reported exactly for a 2xx status, a failure is transient exactly for a transport error or a 5xx
  status, and every other status is a permanent failure.
\<close>

theorem sink_emit_classified:
  "sink_emit http s i =
     (case http (sink_request s i) of
        Inl err \<Rightarrow> Inl (Transient nanos_per_sec (PostFailed (sink_kind_display (kind_of_sink s)) err))
      | Inr status \<Rightarrow>
          if is_success status then Inr ()
          else if is_server_error status
          then Inl (Transient nanos_per_sec (ReturnedHttp (sink_kind_display (kind_of_sink s)) status))
          else Inl (Permanent (ReturnedHttp (sink_kind_display (kind_of_sink s)) status)))"
  by (cases "http (sink_request s i)") (simp_all add: adapter.emit_transport adapter.emit_status classify_response_def)

end
