(* ===== verification/Beacon_State.thy ===== *)
theory Beacon_State
  imports Wal_Pillar Beacon_Rules
begin

text \<open>
  Beacon's durable rule states (\<open>crates/beacon/src/state_store.rs\<close>): the \<open>RuleStateStore\<close> port as a
  locale, its in-memory adapter and the file-backed adapter with keyed-latest-wins replay, with
  recovery, crash and snapshot theorems from the contract of a file-backed store.
\<close>

section \<open>The adapters\<close>

datatype rule_state_store_error = RsPersistenceFailed string

type_synonym rule_states = "(string, rule_state) hash_map"

record state_mem =
  ss_states :: rule_states

definition state_mem_new :: state_mem where
  "state_mem_new = \<lparr>ss_states = []\<rparr>"

definition state_mem_load_all :: "state_mem \<Rightarrow> rule_state_store_error + rule_states" where
  "state_mem_load_all s = Inr (ss_states s)"

definition state_mem_put ::
  "string \<Rightarrow> rule_state \<Rightarrow> state_mem \<Rightarrow> (rule_state_store_error + unit) \<times> state_mem" where
  "state_mem_put rule_name state s = (Inr (), s\<lparr>ss_states := hm_insert rule_name state (ss_states s)\<rparr>)"

datatype beacon_wal_record = BeaconPut string rule_state

record beacon_snapshot_doc =
  bs_rules :: rule_states

record state_file =
  sf_rules :: rule_states
  sf_wal :: wal_writer
  sf_dir :: snap_fs

definition beacon_io :: "string \<Rightarrow> rule_state_store_error" where
  "beacon_io e = RsPersistenceFailed (''io: '' @ e)"

definition beacon_parse :: "string \<Rightarrow> rule_state_store_error" where
  "beacon_parse e = RsPersistenceFailed (''parse: '' @ e)"

definition beacon_append_wal ::
  "(beacon_wal_record \<Rightarrow> string + string) \<Rightarrow> append_io \<Rightarrow> beacon_wal_record \<Rightarrow> wal_writer \<Rightarrow>
   (rule_state_store_error + unit) \<times> wal_writer" where
  "beacon_append_wal to_string = append_wal to_string beacon_parse beacon_io"

fun beacon_apply :: "beacon_wal_record \<Rightarrow> rule_states \<Rightarrow> rule_states" where
  "beacon_apply (BeaconPut rule_name state) rules = hm_insert rule_name state rules"

definition state_file_open ::
  "(string \<Rightarrow> string + beacon_wal_record) \<Rightarrow> (string \<Rightarrow> string + beacon_snapshot_doc) \<Rightarrow> store_disk \<Rightarrow>
   (rule_state_store_error + state_file) \<times> wal_warning list" where
  "state_file_open from_str from_reader disk =
     (case pillar_open beacon_io beacon_parse from_reader (\<lambda>snap. Inr (bs_rules snap)) []
             (replay_wal_tolerating_torn_tail from_str ''beacon'' (total_apply beacon_apply)
                (\<lambda>line err. RsPersistenceFailed (wal_parse_reason line err)))
             id disk of
        (Inl e, ws) \<Rightarrow> (Inl e, ws)
      | (Inr (rules, wal, dir), ws) \<Rightarrow> (Inr \<lparr>sf_rules = rules, sf_wal = wal, sf_dir = dir\<rparr>, ws))"

definition state_file_snapshot ::
  "(beacon_snapshot_doc \<Rightarrow> (string \<times> string) + string) \<Rightarrow> snapshot_io \<Rightarrow> fsync_fn \<Rightarrow> state_file \<Rightarrow>
   (rule_state_store_error + unit) \<times> state_file" where
  "state_file_snapshot to_writer env fsync_file s =
     (case pillar_snapshot env fsync_file (to_writer \<lparr>bs_rules = sf_rules s\<rparr>) (sf_dir s) (sf_wal s) of
        (res, trace) \<Rightarrow>
          (map_sum beacon_io id res, s\<lparr>sf_dir := fst (last trace), sf_wal := snd (last trace)\<rparr>))"

definition state_file_load_all :: "state_file \<Rightarrow> rule_state_store_error + rule_states" where
  "state_file_load_all s = Inr (sf_rules s)"

definition state_file_put ::
  "(beacon_wal_record \<Rightarrow> string + string) \<Rightarrow> append_io \<Rightarrow> string \<Rightarrow> rule_state \<Rightarrow> state_file \<Rightarrow>
   (rule_state_store_error + unit) \<times> state_file" where
  "state_file_put to_string env rule_name state s =
     (case beacon_append_wal to_string env (BeaconPut rule_name state) (sf_wal s) of
        (Inl e, w) \<Rightarrow> (Inl e, s\<lparr>sf_wal := w\<rparr>)
      | (Inr _, w) \<Rightarrow> (Inr (), s\<lparr>sf_wal := w, sf_rules := hm_insert rule_name state (sf_rules s)\<rparr>))"

section \<open>The port\<close>

text \<open>
  \<open>put\<close> either fails and changes nothing the store shows, or sets the state of one rule; \<open>load_all\<close>
  shows the latest state of every rule.
\<close>

locale rule_state_store =
  fixes put :: "'env \<Rightarrow> string \<Rightarrow> rule_state \<Rightarrow> 's \<Rightarrow> (rule_state_store_error + unit) \<times> 's"
    and load_all :: "'s \<Rightarrow> rule_state_store_error + rule_states"
  assumes load_total: "\<exists>m. load_all s = Inr m"
    and put_ok: "put env n st s = (Inr (), s') \<Longrightarrow> load_all s = Inr m \<Longrightarrow>
      \<exists>m'. load_all s' = Inr m' \<and> hm_get m' = (hm_get m)(n \<mapsto> st)"
    and put_err: "put env n st s = (Inl e, s') \<Longrightarrow> load_all s' = load_all s"
begin

definition stored :: "'s \<Rightarrow> string \<Rightarrow> rule_state option" where
  "stored s n = (case load_all s of Inr m \<Rightarrow> hm_get m n | Inl _ \<Rightarrow> None)"

lemma stored_put: "put env n st s = (Inr (), s') \<Longrightarrow> stored s' = (stored s)(n \<mapsto> st)"
  using load_total [of s] put_ok [of env n st s s'] by (fastforce simp: stored_def fun_eq_iff)

lemma stored_put_err: "put env n st s = (Inl e, s') \<Longrightarrow> stored s' = stored s"
  by (simp add: put_err stored_def fun_eq_iff)

lemma stored_other: "put env n st s = (res, s') \<Longrightarrow> k \<noteq> n \<Longrightarrow> stored s' k = stored s k"
  by (cases res) (simp_all add: stored_put stored_put_err)

text \<open>Latest wins: after a run of acknowledged puts a rule has the state of its last one.\<close>

fun put_run :: "('env \<times> string \<times> rule_state) list \<Rightarrow> 's \<Rightarrow> 's" where
  "put_run [] s = s"
| "put_run ((env, n, st) # ps) s = put_run ps (snd (put env n st s))"

lemma put_run_latest:
  assumes "\<And>env n st s. fst (put env n st s) = Inr ()"
  shows "stored (put_run ps s) n = (case hm_get (rev (map snd ps)) n of None \<Rightarrow> stored s n | Some st \<Rightarrow> Some st)"
proof (induction ps arbitrary: s)
  case (Cons p ps)
  obtain env k st where p: "p = (env, k, st)"
    by (cases p)
  have "put env k st s = (Inr (), snd (put env k st s))"
    using assms [of env k st s] by (metis prod.collapse)
  from stored_put [OF this] Cons.IH [of "snd (put env k st s)"] show ?case
    by (auto simp: p map_add_def split: option.splits)
qed simp

end

interpretation state_mem: rule_state_store "\<lambda>(_ :: unit). state_mem_put" state_mem_load_all
  by unfold_locales (auto simp: state_mem_put_def state_mem_load_all_def)

interpretation state_file: rule_state_store "\<lambda>(ts, env). state_file_put ts env" state_file_load_all
  by unfold_locales (auto simp: state_file_put_def state_file_load_all_def split: prod.splits sum.splits)

section \<open>Durability\<close>

interpretation beacon_pillar: snapshotting_pillar beacon_apply beacon_apply id hm_get "\<lambda>_. True"
  "\<lambda>snap. Inr (bs_rules snap)" "\<lambda>rules. \<lparr>bs_rules = rules\<rparr>"
proof unfold_locales
  fix r and s t :: rule_states
  assume "hm_get s = hm_get t"
  then show "hm_get (beacon_apply r s) = hm_get (beacon_apply r t)"
    by (cases r) simp
qed auto

definition state_durable ::
  "(beacon_wal_record \<Rightarrow> string + string) \<Rightarrow> (string \<Rightarrow> string + beacon_wal_record) \<Rightarrow>
   (string \<Rightarrow> string + beacon_snapshot_doc) \<Rightarrow> state_file \<Rightarrow> bool" where
  "state_durable to_string from_str from_reader s =
     durable_as to_string from_str from_reader (\<lambda>snap. Inr (bs_rules snap) :: rule_state_store_error + _) []
        beacon_apply id hm_get (sf_dir s) (sf_wal s) (hm_get (sf_rules s))"

abbreviation beacon_pillar_open ::
  "(string \<Rightarrow> string + beacon_wal_record) \<Rightarrow> (string \<Rightarrow> string + beacon_snapshot_doc) \<Rightarrow> store_disk \<Rightarrow>
   (rule_state_store_error + rule_states \<times> wal_writer \<times> snap_fs) \<times> wal_warning list" where
  "beacon_pillar_open fs fr \<equiv> pillar_open beacon_io beacon_parse fr (\<lambda>snap. Inr (bs_rules snap)) []
     (replay_wal_tolerating_torn_tail fs ''beacon'' (total_apply beacon_apply)
        (\<lambda>line err. RsPersistenceFailed (wal_parse_reason line err))) id"

lemma state_open_Inr:
  "beacon_pillar_open fs fr disk = (Inr (m, w, d), ws) \<Longrightarrow>
   state_file_open fs fr disk = (Inr \<lparr>sf_rules = m, sf_wal = w, sf_dir = d\<rparr>, ws)"
  by (simp add: state_file_open_def)

lemma state_reopen:
  assumes "state_durable ts fs fr s"
  shows "\<exists>s'. state_file_open fs fr (disk_of (sf_dir s) (sf_wal s)) = (Inr s', []) \<and>
    state_durable ts fs fr s' \<and> hm_get (sf_rules s') = hm_get (sf_rules s)"
  using beacon_pillar.durable_reopen [OF assms [unfolded state_durable_def], of beacon_io beacon_parse "''beacon''"
      "\<lambda>line err. RsPersistenceFailed (wal_parse_reason line err)"] state_open_Inr
  by (fastforce simp: state_durable_def)

lemma state_put_durable:
  assumes "state_durable ts fs fr s" and "serde_ok ts fs (BeaconPut n st)"
    and "state_file_put ts env n st s = (Inr (), s')"
  shows "state_durable ts fs fr s'"
proof -
  obtain w where a: "append_wal ts beacon_parse beacon_io env (BeaconPut n st) (sf_wal s) = (Inr (), w)"
    and s': "s' = s\<lparr>sf_wal := w, sf_rules := hm_insert n st (sf_rules s)\<rparr>"
    using assms(3) by (auto simp: state_file_put_def beacon_append_wal_def split: prod.splits sum.splits)
  from beacon_pillar.durable_append [OF assms(1) [unfolded state_durable_def] a assms(2)] show ?thesis
    by (simp add: state_durable_def s')
qed

text \<open>
  C37. A crash at any point of a \<open>put\<close>: reopening succeeds and shows the rule states before the put
  or after it, and certainly the new state once the put was acknowledged; the states of all other
  rules are as they were.
\<close>

theorem beacon_put_crash:
  assumes "state_durable ts fs fr s" and "state_file_put ts env n st s = (res, s1)"
    and "serde_ok ts fs (BeaconPut n st)" and "torn_unparsable (line_of ts) fs (BeaconPut n st)"
    and "crash_image (sf_wal s1) f"
  shows "\<exists>s' ws. state_file_open fs fr (disk_of (sf_dir s1) (open_writer f (length f))) = (Inr s', ws) \<and>
    hm_get (sf_rules s') \<in> {hm_get (sf_rules s), (hm_get (sf_rules s))(n \<mapsto> st)} \<and>
    (res = Inr () \<longrightarrow> hm_get (sf_rules s') n = Some st) \<and>
    (\<forall>k. k \<noteq> n \<longrightarrow> hm_get (sf_rules s') k = hm_get (sf_rules s) k)"
proof -
  obtain r w where a: "append_wal ts beacon_parse beacon_io env (BeaconPut n st) (sf_wal s) = (r, w)"
    and s1: "sf_wal s1 = w" "sf_dir s1 = sf_dir s" and r: "r = Inr () \<longleftrightarrow> res = Inr ()"
    using assms(2) by (auto simp: state_file_put_def beacon_append_wal_def split: prod.splits sum.splits)
  from beacon_pillar.durable_crash [OF assms(1) [unfolded state_durable_def] a _ assms(3,4), of f beacon_io beacon_parse
      "''beacon''" "\<lambda>line err. RsPersistenceFailed (wal_parse_reason line err)"] assms(5) s1
  obtain m w1 d ws where o: "beacon_pillar_open fs fr (disk_of (sf_dir s1) (open_writer f (length f))) = (Inr (m, w1, d), ws)"
    and m: "hm_get m = hm_get (sf_rules s) \<or> hm_get m = (hm_get (sf_rules s))(n \<mapsto> st)"
      "res = Inr () \<longrightarrow> hm_get m = (hm_get (sf_rules s))(n \<mapsto> st)"
    using r by auto
  show ?thesis
    by (intro exI conjI, rule state_open_Inr [OF o]) (use m in auto)
qed

lemma fold_put_twice: "hm_get (fold beacon_apply rs (fold beacon_apply rs m)) = hm_get (fold beacon_apply rs m)"
proof -
  have get: "hm_get (fold beacon_apply rs m) k =
      (case hm_get (rev (map (\<lambda>r. case r of BeaconPut n st \<Rightarrow> (n, st)) rs)) k of None \<Rightarrow> hm_get m k | Some st \<Rightarrow> Some st)"
    for m k
    by (induction rs arbitrary: m) (auto simp: map_add_def split: option.splits beacon_wal_record.splits)
  show ?thesis
    by (auto simp: get fun_eq_iff split: option.splits)
qed

text \<open>
  Replay is keyed latest-wins, so a log that survives the snapshot containing it does no harm:
  reopening after a snapshot whose truncation of the log did not happen shows the same state for
  every rule.
\<close>

theorem beacon_untruncated_snapshot_harmless:
  assumes "state_durable ts fs fr s" and "sf_canonical (sf_dir s) = None"
    and "tw \<lparr>bs_rules = sf_rules s\<rparr> = Inr data" and "fr data = Inr \<lparr>bs_rules = sf_rules s\<rparr>"
    and "state_file_snapshot tw env (real_fsync_file None) s = (Inl e, s1)" and "sf_canonical (sf_dir s1) \<noteq> None"
  shows "\<exists>s'. state_file_open fs fr (disk_of (sf_dir s1) (sf_wal s1)) = (Inr s', []) \<and>
    hm_get (sf_rules s') = hm_get (sf_rules s)"
proof -
  from assms(1,2) obtain rs where rs: "list_all (serde_ok ts fs) rs" "wr_file (sf_wal s) = wal_image (line_of ts) rs"
    "hm_get (fold beacon_apply rs []) = hm_get (sf_rules s)" and buf: "wr_buf (sf_wal s) = []"
    by (auto simp: state_durable_def durable_as_def snapshot_base_def)
  obtain e' trace where t: "pillar_snapshot env (real_fsync_file None) (Inr data) (sf_dir s) (sf_wal s) = (Inl e', trace)"
    and s1: "sf_dir s1 = fst (last trace)" "sf_wal s1 = snd (last trace)"
    using assms(3,5)
    by (cases "fst (pillar_snapshot env (real_fsync_file None) (Inr data) (sf_dir s) (sf_wal s))")
      (auto simp: state_file_snapshot_def split: prod.splits)
  then obtain f where f: "sf_canonical (sf_dir s1) = Some f" "df_bytes f = data" "wr_file (sf_wal s1) = wr_file (sf_wal s)"
    using pillar_snapshot_untruncated [OF t real_fsync.honest assms(2) _ buf] assms(6) by auto
  from beacon_pillar.reopen_untruncated [where from_reader = fr and data = data, OF TrueI assms(4) f(1,2) rs(1)
      f(3) [unfolded rs(2)], of beacon_io beacon_parse "[]" "''beacon''"
      "\<lambda>line err. RsPersistenceFailed (wal_parse_reason line err)"]
  obtain m w d where o: "beacon_pillar_open fs fr (disk_of (sf_dir s1) (sf_wal s1)) = (Inr (m, w, d), [])"
    and "hm_get m = hm_get (fold beacon_apply rs (sf_rules s))"
    by blast
  then have "hm_get m = hm_get (sf_rules s)"
    using beacon_pillar.fold_live_cong [OF rs(3), of rs] fold_put_twice [of rs "[]"] rs(3) by simp
  with state_open_Inr [OF o] show ?thesis
    by auto
qed

text \<open>A snapshot that is present but does not parse is refused; the error names the parser's reason.\<close>

lemma state_open_corrupt_snapshot:
  assumes "sd_snapshot disk = Present f" and "fr (df_bytes f) = Inl e"
  shows "fst (state_file_open fs fr disk) = Inl (RsPersistenceFailed (''parse: '' @ e))"
  using assms by (simp add: state_file_open_def pillar_open_def beacon_parse_def)

section \<open>A concrete store\<close>

definition bx_put :: beacon_wal_record where "bx_put = BeaconPut ''disk'' (RsPending 7)"

definition bx_to_string :: "beacon_wal_record \<Rightarrow> string + string" where
  "bx_to_string r = (if r = bx_put then Inr ''pu'' else Inl ''unsupported'')"

definition bx_from_str :: "string \<Rightarrow> string + beacon_wal_record" where
  "bx_from_str l = (if l = ''pu'' then Inr bx_put else Inl ''expected value'')"

definition bx_doc :: beacon_snapshot_doc where
  "bx_doc = \<lparr>bs_rules = [(''disk'', RsPending 7)]\<rparr>"

definition bx_to_writer :: "beacon_snapshot_doc \<Rightarrow> (string \<times> string) + string" where
  "bx_to_writer doc = (if doc = bx_doc then Inr ''s'' else Inl (''unsupported'', []))"

definition bx_from_reader :: "string \<Rightarrow> string + beacon_snapshot_doc" where
  "bx_from_reader b = (if b = ''s'' then Inr bx_doc else Inl ''expected value'')"

definition bx_io :: append_io where
  "bx_io = \<lparr>io_room = 100, io_write_error = [], io_fsync_error = None\<rparr>"

definition bx_store :: "string \<Rightarrow> rule_states \<Rightarrow> state_file" where
  "bx_store bytes m = \<lparr>sf_rules = m, sf_wal = \<lparr>wr_file = bytes, wr_buf = [], wr_synced = length bytes\<rparr>,
     sf_dir = \<lparr>sf_canonical = None, sf_tmp = None, sf_undo = None\<rparr>\<rparr>"

definition bx_snapshot_io :: snapshot_io where
  "bx_snapshot_io = \<lparr>si_flush_room = 100, si_flush_error = [], si_snap = \<lparr>sn_open_error = None, sn_room = 100,
     sn_write_error = [], sn_rename_error = None, sn_dir_error = None\<rparr>, si_truncate_error = Some ''Permission denied''\<rparr>"

lemmas bx_defs = bx_put_def bx_to_string_def bx_from_str_def bx_doc_def bx_to_writer_def bx_from_reader_def
  bx_io_def bx_store_def bx_snapshot_io_def

lemma bx_serde:
  "serde_ok bx_to_string bx_from_str bx_put" "torn_unparsable (line_of bx_to_string) bx_from_str bx_put"
  by code_simp+

lemma bx_durable: "state_durable bx_to_string bx_from_str bx_from_reader (bx_store [] [])"
    "state_durable bx_to_string bx_from_str bx_from_reader (bx_store (''pu'' @ [newline]) [(''disk'', RsPending 7)])"
proof -
  show "state_durable bx_to_string bx_from_str bx_from_reader (bx_store [] [])"
    unfolding state_durable_def durable_as_def
    by (auto simp: bx_store_def snapshot_base_def intro!: exI [of _ "[]"])
  have "line_of bx_to_string bx_put = ''pu''"
    by (simp add: line_of_def bx_to_string_def)
  then show "state_durable bx_to_string bx_from_str bx_from_reader (bx_store (''pu'' @ [newline]) [(''disk'', RsPending 7)])"
    using bx_serde(1) unfolding state_durable_def durable_as_def
    by (auto simp: bx_store_def snapshot_base_def bx_put_def intro!: exI [of _ "[bx_put]"])
qed

lemma bx_put_run:
  "state_file_put bx_to_string bx_io ''disk'' (RsPending 7) (bx_store [] []) =
     (Inr (), bx_store (''pu'' @ [newline]) [(''disk'', RsPending 7)])"
  by code_simp

theorem beacon_put_crash_witness:
  "\<exists>s' ws. state_file_open bx_from_str bx_from_reader
      (disk_of \<lparr>sf_canonical = None, sf_tmp = None, sf_undo = None\<rparr> (open_writer (''pu'' @ [newline]) 3)) = (Inr s', ws) \<and>
    hm_get (sf_rules s') ''disk'' = Some (RsPending 7)"
proof -
  have "crash_image \<lparr>wr_file = ''pu'' @ [newline], wr_buf = [], wr_synced = 3\<rparr> (''pu'' @ [newline])"
    by (simp add: crash_image_def)
  then show ?thesis
    using beacon_put_crash [OF bx_durable(1) bx_put_run bx_serde [unfolded bx_put_def], of "''pu'' @ [newline]"]
    by (auto simp: bx_store_def eval_nat_numeral)
qed

theorem beacon_untruncated_snapshot_harmless_witness:
  "\<exists>s'. state_file_open bx_from_str bx_from_reader
      (disk_of \<lparr>sf_canonical = Some \<lparr>df_bytes = ''s'', df_synced = 1\<rparr>, sf_tmp = None, sf_undo = None\<rparr>
         \<lparr>wr_file = ''pu'' @ [newline], wr_buf = [], wr_synced = 3\<rparr>) = (Inr s', []) \<and>
    hm_get (sf_rules s') ''disk'' = Some (RsPending 7)"
proof -
  let ?s = "bx_store (''pu'' @ [newline]) [(''disk'', RsPending 7)]"
  have "state_file_snapshot bx_to_writer bx_snapshot_io (real_fsync_file None) ?s =
    (Inl (beacon_io ''Permission denied''), ?s
       \<lparr>sf_dir := \<lparr>sf_canonical = Some \<lparr>df_bytes = ''s'', df_synced = 1\<rparr>, sf_tmp = None, sf_undo = None\<rparr>\<rparr>)"
    by (simp add: state_file_snapshot_def pillar_snapshot_def atomic_write_snapshot_def flush_buf_def file_write_all_def
        real_fsync_file_def bx_defs Let_def)
  from beacon_untruncated_snapshot_harmless [where data = "''s''", OF bx_durable(2) _ _ _ this] show ?thesis
    by (auto simp: bx_defs eval_nat_numeral)
qed

end
