(* ===== verification/Beacon_Server.thy ===== *)
theory Beacon_Server
  imports Beacon_Alerts Beacon_Loader Beacon_Sinks Beacon_State
begin

text \<open>
  The orchestrator (\<open>crates/beacon-server/src\<close>): sink construction and query classification
  (\<open>lib.rs\<close>), startup, the per-rule loop and the reload on SIGHUP (\<open>main.rs\<close>). A round
  of a rule's loop takes several steps, which end where the code awaits: the evaluation with its
  \<open>put\<close>, the resolver under its mutex, and each call of a sink. The steps of different tasks
  interleave arbitrarily, so what two tasks post is not in the order in which the resolver let it out. A reload
  is one step that ends the tasks of the old generation wherever they are. The store is the port
  \<open>RuleStateStore\<close>, so the server is generic in the store's state, its \<open>put\<close> and its
  \<open>load_all\<close>.
\<close>

section \<open>Sinks of a rule (\<open>lib.rs\<close>)\<close>

datatype sink_refusal =
  MissingUrl string | ConstructionFailed string sink_error | MissingTopic string | UnsupportedKind string string

definition adapter_from_config ::
  "string option \<Rightarrow> (string \<Rightarrow> string option) \<Rightarrow> sink_config \<Rightarrow> string \<Rightarrow> sink_refusal + sink" where
  "adapter_from_config client env_var cfg rule_name =
     (case sc_url cfg of
        None \<Rightarrow> Inl (MissingUrl rule_name)
      | Some url \<Rightarrow>
          if sc_kind cfg = ''webhook'' then map_sum (ConstructionFailed ''webhook'') id (webhook_new client url)
          else if sc_kind cfg = ''mattermost'' then
            map_sum (ConstructionFailed ''mattermost'') id (mattermost_new client url (sc_channel cfg))
          else if sc_kind cfg = ''zulip'' then
            (case sc_topic cfg of
               None \<Rightarrow> Inl (MissingTopic rule_name)
             | Some topic \<Rightarrow> map_sum (ConstructionFailed ''zulip'') id (zulip_new client url topic))
          else if sc_kind cfg = ''oncall'' then
            (let token = Option.bind (sc_auth_token_env cfg) env_var in
             map_sum (ConstructionFailed ''oncall'') id (oncall_new client url token))
          else Inl (UnsupportedKind (sc_kind cfg) rule_name))"

definition build_sinks ::
  "string option \<Rightarrow> (string \<Rightarrow> string option) \<Rightarrow> rule \<Rightarrow> sink_refusal + sink list" where
  "build_sinks client env_var rule = try_map (\<lambda>cfg. adapter_from_config client env_var cfg (r_name rule)) (r_sinks rule)"

section \<open>Asking the backend (\<open>lib.rs\<close>)\<close>

datatype fetch_error = FetchNetwork string | FetchHttpStatus nat | FetchInvalidJson string | FetchPromError string

record 'v prom_response =
  pr_status :: string
  pr_result :: "'v list"
  pr_error :: "string option"

text \<open>The GET of \<open>reqwest\<close>: a network error, or a status and the outcome of decoding the body.\<close>

type_synonym 'v http_get = "string \<Rightarrow> string \<Rightarrow> string + nat \<times> (string + 'v prom_response)"

definition fetch_query :: "'v http_get \<Rightarrow> string \<Rightarrow> string \<Rightarrow> fetch_error + query_outcome" where
  "fetch_query get backend query =
     (let url = trim_end_matches CHR ''/'' backend @ ''/query'' in
      case get url query of
        Inl err \<Rightarrow> Inl (FetchNetwork err)
      | Inr (status, body) \<Rightarrow>
          if \<not> is_success status then Inl (FetchHttpStatus status)
          else case body of
                 Inl err \<Rightarrow> Inl (FetchInvalidJson err)
               | Inr resp \<Rightarrow>
                   if pr_status resp \<noteq> ''success'' then
                     Inl (FetchPromError (case pr_error resp of None \<Rightarrow> ''unknown'' | Some e \<Rightarrow> e))
                   else Inr (if pr_result resp = [] then OutcomeInactive else OutcomeActive))"

definition evaluate_once ::
  "rule \<Rightarrow> rule_state \<Rightarrow> query_outcome \<Rightarrow> system_time \<Rightarrow> rule_state \<times> emission option" where
  "evaluate_once rule state outcome now = transition state outcome rule now"

section \<open>A round of a rule (\<open>run_rule\<close> of \<open>main.rs\<close>)\<close>

text \<open>Where the loop is: at its ticker, before the resolver with an emission, or with calls of sinks to make.\<close>

datatype task_stage = Ticking | Observing "emission option" | Posting "(sink \<times> incident) list"

record task =
  tk_rule :: rule
  tk_sinks :: "sink list"
  tk_state :: rule_state
  tk_stage :: task_stage

record 'st server =
  sv_tasks :: "task list"
  sv_resolver :: resolver
  sv_live_names :: "string list"
  sv_store :: 'st

type_synonym 'st put_fn = "string \<Rightarrow> rule_state \<Rightarrow> 'st \<Rightarrow> (rule_state_store_error + unit) \<times> 'st"

definition effective_outcome :: "fetch_error + query_outcome \<Rightarrow> query_outcome" where
  "effective_outcome fetched = (case fetched of Inr outcome \<Rightarrow> outcome | Inl _ \<Rightarrow> OutcomeInactive)"

definition evaluate_step ::
  "'st put_fn \<Rightarrow> fetch_error + query_outcome \<Rightarrow> system_time \<Rightarrow> task \<Rightarrow> 'st \<Rightarrow> task \<times> 'st" where
  "evaluate_step put fetched now task store =
     (let rule = tk_rule task; state = tk_state task;
          (next, emission) = evaluate_once rule state (effective_outcome fetched) now;
          store' = (if state \<noteq> next then snd (put (r_name rule) next store) else store)
      in (task\<lparr>tk_state := next, tk_stage := Observing emission\<rparr>, store'))"

text \<open>The calls of \<open>emit\<close> for what the resolver lets out, in order.\<close>

definition posts_for :: "sink list \<Rightarrow> emission list \<Rightarrow> (sink \<times> incident) list" where
  "posts_for sinks to_emit = concat (map (\<lambda>ev. map (\<lambda>sink. (sink, em_incident ev)) sinks) to_emit)"

definition next_stage :: "(sink \<times> incident) list \<Rightarrow> task_stage" where
  "next_stage posts = (if posts = [] then Ticking else Posting posts)"

definition observe_step :: "emission option \<Rightarrow> task \<Rightarrow> resolver \<Rightarrow> task \<times> resolver \<times> emission list" where
  "observe_step emission task rv =
     (case observe (r_name (tk_rule task)) emission rv of
        (rv', to_emit) \<Rightarrow> (task\<lparr>tk_stage := next_stage (posts_for (tk_sinks task) to_emit)\<rparr>, rv', to_emit))"

text \<open>One step, with what the resolver lets out and the call of a sink's \<open>emit\<close>, if any.\<close>

definition run_rule_step ::
  "'st put_fn \<Rightarrow> fetch_error + query_outcome \<Rightarrow> system_time \<Rightarrow> task \<Rightarrow> resolver \<Rightarrow> 'st \<Rightarrow>
   task \<times> resolver \<times> 'st \<times> emission list \<times> (sink \<times> incident) list" where
  "run_rule_step put fetched now task rv store =
     (case tk_stage task of
        Ticking \<Rightarrow> (case evaluate_step put fetched now task store of (task', store') \<Rightarrow> (task', rv, store', [], []))
      | Observing emission \<Rightarrow> (case observe_step emission task rv of (task', rv', to_emit) \<Rightarrow> (task', rv', store, to_emit, []))
      | Posting [] \<Rightarrow> (task\<lparr>tk_stage := Ticking\<rparr>, rv, store, [], [])
      | Posting (post # posts) \<Rightarrow> (task\<lparr>tk_stage := next_stage posts\<rparr>, rv, store, [], [post]))"

text \<open>A step of the server is a step of a task; what it does is labelled with the task.\<close>

definition server_step ::
  "'st put_fn \<Rightarrow> nat \<Rightarrow> fetch_error + query_outcome \<Rightarrow> system_time \<Rightarrow> 'st server \<Rightarrow>
   'st server \<times> (nat \<times> emission) list \<times> (nat \<times> sink \<times> incident) list" where
  "server_step put i fetched now sv =
     (if i < length (sv_tasks sv) then
        (case run_rule_step put fetched now (sv_tasks sv ! i) (sv_resolver sv) (sv_store sv) of
           (task, rv, store, to_emit, sent) \<Rightarrow>
             (sv\<lparr>sv_tasks := (sv_tasks sv)[i := task], sv_resolver := rv, sv_store := store\<rparr>,
              map (Pair i) to_emit, map (Pair i) sent))
      else (sv, [], []))"

section \<open>Generations, startup and reload (\<open>main.rs\<close>)\<close>

text \<open>
  A task whose sinks cannot be built returns at once: its rule is disabled. So it is when its interval is zero, where
  \<open>tokio::time::interval\<close> panics.
\<close>

fun spawn_generation ::
  "(rule \<Rightarrow> sink_refusal + sink list) \<Rightarrow> rule list \<Rightarrow> rule_states \<Rightarrow> task list" where
  "spawn_generation build [] seed = []"
| "spawn_generation build (rule # rules) seed =
     (let seeded = hm_get_or RsInactive seed (r_name rule);
          rest = spawn_generation build rules (hm_remove (r_name rule) seed)
      in case build rule of
           Inl _ \<Rightarrow> rest
         | Inr sinks \<Rightarrow>
             if r_interval rule = 0 then rest
             else \<lparr>tk_rule = rule, tk_sinks = sinks, tk_state = seeded, tk_stage = Ticking\<rparr> # rest)"

datatype startup_error =
  RulesUnreadable loader_error | NoRules | NoHttpClient string | NoStateDir string
| StateRefused rule_state_store_error

definition exit_code :: "startup_error \<Rightarrow> nat" where
  "exit_code e = (case e of RulesUnreadable _ \<Rightarrow> 2 | NoRules \<Rightarrow> 1 | NoHttpClient _ \<Rightarrow> 3
     | NoStateDir _ \<Rightarrow> 5 | StateRefused _ \<Rightarrow> 5)"

text \<open>\<open>client\<close> and \<open>state_dir\<close> are the errors of building the HTTP client and of creating the directory.\<close>

definition startup ::
  "(rule \<Rightarrow> sink_refusal + sink list) \<Rightarrow> ('st \<Rightarrow> rule_state_store_error + rule_states) \<Rightarrow>
   string option \<Rightarrow> string option \<Rightarrow> loader_error + load_outcome \<Rightarrow> rule_state_store_error + 'st \<Rightarrow>
   startup_error + 'st server" where
  "startup build load_all client state_dir loaded opened =
     (case loaded of
        Inl err \<Rightarrow> Inl (RulesUnreadable err)
      | Inr outcome \<Rightarrow>
          if \<not> has_any_rules outcome then Inl NoRules
          else if client \<noteq> None then Inl (NoHttpClient (the client))
          else if state_dir \<noteq> None then Inl (NoStateDir (the state_dir))
          else case opened of
                 Inl err \<Rightarrow> Inl (StateRefused err)
               | Inr store \<Rightarrow>
                 (case load_all store of
                    Inl err \<Rightarrow> Inl (StateRefused err)
                  | Inr recovered \<Rightarrow>
                      Inr \<lparr>sv_tasks = spawn_generation build (lo_rules outcome) recovered,
                           sv_resolver = resolver_new (lo_rules outcome),
                           sv_live_names = map r_name (lo_rules outcome),
                           sv_store = store\<rparr>))"

datatype reload_event =
  ReloadRefused fpath string
| ReloadRefusedUnreadable fpath loader_error
| ReloadRefusedStore fpath rule_state_store_error
| ReloadSucceeded nat nat nat nat

text \<open>\<open>a.difference(b).count()\<close> of two hash sets, given by their elements.\<close>

definition difference_count :: "string list \<Rightarrow> string list \<Rightarrow> nat" where
  "difference_count a b = length (filter (\<lambda>n. n \<notin> set b) (remdups a))"

definition reload ::
  "(rule \<Rightarrow> sink_refusal + sink list) \<Rightarrow> ('st \<Rightarrow> rule_state_store_error + rule_states) \<Rightarrow> fpath \<Rightarrow>
   loader_error + load_outcome \<Rightarrow> 'st server \<Rightarrow> reload_event \<times> 'st server" where
  "reload build load_all rules_dir loaded sv =
     (case loaded of
        Inl err \<Rightarrow> (ReloadRefusedUnreadable rules_dir err, sv)
      | Inr outcome \<Rightarrow>
          let new_names = map r_name (lo_rules outcome);
              added_count = difference_count new_names (sv_live_names sv);
              no_rules = \<not> has_any_rules outcome;
              broken_edit_added_nothing = has_diagnostics outcome \<and> added_count = 0
          in if no_rules \<or> broken_edit_added_nothing then
               (case lo_diagnostics outcome of
                  [] \<Rightarrow> (ReloadRefused rules_dir ''rules directory yielded no rules'', sv)
                | d # _ \<Rightarrow> (ReloadRefused (ld_file d) (diagnostic_display d), sv))
             else case load_all (sv_store sv) of
                    Inl err \<Rightarrow> (ReloadRefusedStore rules_dir err, sv)
                  | Inr recovered \<Rightarrow>
                      let carried = carryover (sv_resolver sv);
                          new_resolver = rebuild_from (lo_rules outcome) carried
                      in (ReloadSucceeded (length (lo_rules outcome)) added_count
                            (difference_count (sv_live_names sv) new_names) (length (lo_diagnostics outcome)),
                          sv\<lparr>sv_tasks := spawn_generation build (lo_rules outcome) recovered,
                             sv_resolver := new_resolver, sv_live_names := new_names\<rparr>))"

text \<open>Any interleaving of steps: whose, and, where it is an evaluation, what the backend said and when.\<close>

fun server_run ::
  "'st put_fn \<Rightarrow> (nat \<times> (fetch_error + query_outcome) \<times> system_time) list \<Rightarrow> 'st server \<Rightarrow>
   'st server \<times> (nat \<times> emission) list \<times> (nat \<times> sink \<times> incident) list" where
  "server_run put [] sv = (sv, [], [])"
| "server_run put ((i, fetched, now) # steps) sv =
     (case server_step put i fetched now sv of
        (sv1, ems1, sent1) \<Rightarrow>
          (case server_run put steps sv1 of (sv2, ems2, sent2) \<Rightarrow> (sv2, ems1 @ ems2, sent1 @ sent2)))"

end
