(* ===== verification/Beacon_Delivery.thy ===== *)
theory Beacon_Delivery
  imports Beacon_Server
begin

text \<open>
  What Beacon as a whole guarantees about the alerts it lets out and posts, from the loader to the
  calls of the sinks: pairing, an exact account of the posts, suppression while an inhibitor fires and only then, and
  resumption from the durable state.
\<close>

section \<open>The server's invariant\<close>

abbreviation task_name :: "task \<Rightarrow> string" where
  "task_name t \<equiv> r_name (tk_rule t)"

definition task_states :: "task list \<Rightarrow> string \<Rightarrow> rule_state option" where
  "task_states tasks = map_of (map (\<lambda>t. (task_name t, tk_state t)) tasks)"

text \<open>
  What the resolver has been told: an evaluation whose emission it has not yet observed does not count.
\<close>

fun observed_since :: "task_stage \<Rightarrow> rule_state \<Rightarrow> system_time option" where
  "observed_since (Observing (Some (EmFiring i))) st = None"
| "observed_since (Observing (Some (EmResolved i))) st = Some (i_started_at i)"
| "observed_since _ st = firing_since st"

abbreviation task_since :: "task \<Rightarrow> system_time option" where
  "task_since t \<equiv> observed_since (tk_stage t) (tk_state t)"

definition firing_map :: "task list \<Rightarrow> string \<Rightarrow> system_time option" where
  "firing_map tasks n = Option.bind (map_of (map (\<lambda>t. (task_name t, task_since t)) tasks) n) id"

text \<open>An emission on its way to the resolver says what the state says.\<close>

fun stage_ok :: "string \<Rightarrow> task_stage \<Rightarrow> rule_state \<Rightarrow> bool" where
  "stage_ok n (Observing (Some (EmFiring i))) st =
     (firing_since st = Some (i_started_at i) \<and> i_name i = n \<and> i_resolved_at i = None)"
| "stage_ok n (Observing (Some (EmResolved i))) st = (firing_since st = None \<and> i_name i = n \<and> i_resolved_at i \<noteq> None)"
| "stage_ok n _ st = True"

definition task_ok :: "resolver \<Rightarrow> task \<Rightarrow> bool" where
  "task_ok rv t \<longleftrightarrow> stage_ok (task_name t) (tk_stage t) (tk_state t) \<and>
     hm_get (rv_inhibits rv) (task_name t) = Some (r_inhibits (tk_rule t))"

definition server_inv :: "'st server \<Rightarrow> bool" where
  "server_inv sv =
     (distinct (map task_name (sv_tasks sv)) \<and> alert_inv (firing_map (sv_tasks sv)) (sv_resolver sv) \<and>
      (\<forall>t \<in> set (sv_tasks sv). task_ok (sv_resolver sv) t))"

lemma task_list_update:
  assumes "i < length tasks" and "tk_rule t = tk_rule (tasks ! i)"
  shows "map task_name (tasks[i := t]) = map task_name tasks" "map tk_rule (tasks[i := t]) = map tk_rule tasks"
    "tk_sinks t = tk_sinks (tasks ! i) \<Longrightarrow> map tk_sinks (tasks[i := t]) = map tk_sinks tasks"
  using assms by (simp_all add: map_update) (metis length_map list_update_id nth_map)+

lemma map_of_tasks:
  "distinct (map task_name tasks) \<Longrightarrow> t \<in> set tasks \<Longrightarrow> map_of (map (\<lambda>t. (task_name t, f t)) tasks) (task_name t) = Some (f t)"
  by (rule map_of_is_SomeI) (auto simp: comp_def)

lemma map_of_tasks_update:
  assumes "distinct (map task_name tasks)" and "i < length tasks" and "task_name t = task_name (tasks ! i)"
  shows "map_of (map (\<lambda>t. (task_name t, f t)) (tasks[i := t])) =
    (map_of (map (\<lambda>t. (task_name t, f t)) tasks))(task_name t \<mapsto> f t)"
  using assms
proof (induction tasks arbitrary: i)
  case (Cons u tasks)
  show ?case
  proof (cases i)
    case (Suc j)
    have "\<forall>v \<in> set tasks. task_name u \<noteq> task_name v" and "tasks ! j \<in> set tasks"
      using Cons.prems Suc by auto
    then have "task_name u \<noteq> task_name (tasks ! j)"
      by (rule bspec)
    with Suc Cons show ?thesis
      by (auto simp: fun_eq_iff)
  qed (use Cons.prems in \<open>simp add: fun_eq_iff\<close>)
qed simp

lemma task_states_mem:
  "distinct (map task_name tasks) \<Longrightarrow> t \<in> set tasks \<Longrightarrow> task_states tasks (task_name t) = Some (tk_state t)"
  unfolding task_states_def by (rule map_of_tasks)

lemma firing_map_mem:
  "distinct (map task_name tasks) \<Longrightarrow> t \<in> set tasks \<Longrightarrow> firing_map tasks (task_name t) = task_since t"
  by (simp add: firing_map_def map_of_tasks)

lemma firing_map_update:
  "distinct (map task_name tasks) \<Longrightarrow> i < length tasks \<Longrightarrow> task_name t = task_name (tasks ! i) \<Longrightarrow>
   firing_map (tasks[i := t]) = (firing_map tasks)(task_name t := task_since t)"
  by (auto simp: firing_map_def map_of_tasks_update fun_eq_iff)

lemma firing_map_SomeE:
  assumes "firing_map tasks n = Some t"
  obtains u where "u \<in> set tasks" "task_name u = n" "task_since u = Some t"
  using assms by (auto simp: firing_map_def bind_eq_Some_conv dest!: map_of_SomeD)

lemma observe_inhibits: "rv_inhibits (fst (observe n em rv)) = rv_inhibits rv"
  by (cases rule: em_cases [of em]) (simp_all add: observe_Firing observe_Resolved_frame)

abbreviation server_open :: "'st server \<Rightarrow> string \<Rightarrow> system_time option" where
  "server_open sv \<equiv> open_incident (firing_map (sv_tasks sv)) (sv_resolver sv)"

text \<open>The steps of a task, one by one.\<close>

lemma run_rule_step_cases [consumes 1, case_names evaluate observe post]:
  assumes "run_rule_step put fetched now t rv store = (t', rv', store', ems, sent)"
  obtains st em where "tk_stage t = Ticking" "transition (tk_state t) (effective_outcome fetched) (tk_rule t) now = (st, em)"
      "t' = t\<lparr>tk_state := st, tk_stage := Observing em\<rparr>" "rv' = rv" "ems = []" "sent = []"
      "store' = (if tk_state t \<noteq> st then snd (put (task_name t) st store) else store)"
  | em where "tk_stage t = Observing em" "observe (task_name t) em rv = (rv', ems)" "store' = store" "sent = []"
      "t' = t\<lparr>tk_stage := next_stage (posts_for (tk_sinks t) ems)\<rparr>"
  | posts where "tk_stage t = Posting (sent @ posts)" "t' = t\<lparr>tk_stage := next_stage posts\<rparr>" "rv' = rv" "store' = store" "ems = []"
proof (cases "tk_stage t")
  case Ticking
  with assms that(1) show ?thesis
    by (auto simp: run_rule_step_def evaluate_step_def evaluate_once_def Let_def split: prod.splits)
next
  case (Observing em)
  with assms that(2) show ?thesis
    by (auto simp: run_rule_step_def observe_step_def split: prod.splits)
next
  case (Posting posts)
  with assms that(3) [of posts] that(3) [of "tl posts"] show ?thesis
    by (cases posts) (auto simp: run_rule_step_def next_stage_def)
qed

lemma observed_next_stage [simp]: "observed_since (next_stage posts) st = firing_since st" "stage_ok n (next_stage posts) st"
  by (simp_all add: next_stage_def)

text \<open>What a step does to the resolver's view, and that it keeps the task in order.\<close>

lemma run_rule_step_alerts:
  assumes "run_rule_step put fetched now t rv store = (t', rv', store', ems, sent)"
    and inv: "alert_inv phi rv" and phi: "phi (task_name t) = task_since t" and ok: "task_ok rv t"
  shows "tk_rule t' = tk_rule t \<and> tk_sinks t' = tk_sinks t \<and> task_ok rv' t' \<and> rv_inhibits rv' = rv_inhibits rv \<and>
    alert_inv (phi(task_name t := task_since t')) rv' \<and> well_paired (open_incident phi rv n) (about_rule n ems) \<and>
    open_incident (phi(task_name t := task_since t')) rv' n = open_after (open_incident phi rv n) (about_rule n ems) \<and>
    (\<forall>j. EmFiring j \<in> set ems \<longrightarrow> \<not> has_active_inhibitor_of rv' (i_name j))"
  using assms(1)
proof (cases rule: run_rule_step_cases)
  case (evaluate st em)
  have "task_since t' = task_since t" "stage_ok (task_name t) (Observing em) st"
    using evaluate transition_None transition_Firing transition_Resolved
    by (cases rule: em_cases [of em]; force)+
  with evaluate ok phi inv show ?thesis
    by (auto simp: task_ok_def fun_upd_idem)
next
  case (observe em)
  note inh = observe_inhibits [of "task_name t" em rv, unfolded observe(2) fst_conv]
  show ?thesis
  proof (cases rule: em_cases [of em])
    case (fire i)
    with observe(1) ok phi have "phi (task_name t) = None" "i_name i = task_name t" "i_resolved_at i = None"
      "firing_since (tk_state t) = Some (i_started_at i)"
      by (auto simp: task_ok_def)
    with alert_step_Firing [OF inv this(1-3)] fire observe inh ok show ?thesis
      by (auto simp: task_ok_def)
  next
    case (resolve i)
    with observe(1) ok phi have "phi (task_name t) = Some (i_started_at i)" "i_name i = task_name t" "i_resolved_at i \<noteq> None"
      "firing_since (tk_state t) = None"
      by (auto simp: task_ok_def)
    with alert_step_Resolved [OF inv this(1-3)] resolve observe inh ok show ?thesis
      by (auto simp: task_ok_def)
  next
    case none
    with observe inh ok phi inv show ?thesis
      by (auto simp: task_ok_def fun_upd_idem)
  qed
next
  case (post posts)
  with ok phi inv show ?thesis
    by (auto simp: task_ok_def fun_upd_idem)
qed

lemma server_step_frame:
  assumes "server_step put i fetched now sv = (sv', ems, sent)"
  obtains "sv' = sv" "ems = []" "sent = []"
  | t ems1 sent1 where "i < length (sv_tasks sv)" "ems = map (Pair i) ems1" "sent = map (Pair i) sent1"
    "run_rule_step put fetched now (sv_tasks sv ! i) (sv_resolver sv) (sv_store sv) = (t, sv_resolver sv', sv_store sv', ems1, sent1)"
    "sv_tasks sv' = (sv_tasks sv)[i := t]"
  using assms by (auto simp: server_step_def split: if_splits prod.splits)

lemma server_step_inv:
  assumes "server_inv sv" and "server_step put i fetched now sv = (sv', ems, sent)"
  shows "server_inv sv' \<and> well_paired (server_open sv n) (about_rule n (map snd ems)) \<and>
    server_open sv' n = open_after (server_open sv n) (about_rule n (map snd ems)) \<and>
    (\<forall>j k. (k, EmFiring j) \<in> set ems \<longrightarrow> \<not> has_active_inhibitor_of (sv_resolver sv') (i_name j))"
  using assms(2)
proof (cases rule: server_step_frame)
  case 1
  with assms(1) show ?thesis
    by simp
next
  case (2 t ems1 sent1)
  let ?t = "sv_tasks sv ! i"
  have d: "distinct (map task_name (sv_tasks sv))" and mem: "?t \<in> set (sv_tasks sv)"
    and inv: "alert_inv (firing_map (sv_tasks sv)) (sv_resolver sv)"
    using assms(1) 2(1) by (simp_all add: server_inv_def)
  from run_rule_step_alerts [OF 2(4) inv firing_map_mem [OF d mem], of n]
  have s: "tk_rule t = tk_rule ?t" "task_ok (sv_resolver sv') t" "rv_inhibits (sv_resolver sv') = rv_inhibits (sv_resolver sv)"
    "alert_inv ((firing_map (sv_tasks sv))(task_name t := task_since t)) (sv_resolver sv')"
    "well_paired (server_open sv n) (about_rule n ems1)"
    "open_incident ((firing_map (sv_tasks sv))(task_name t := task_since t)) (sv_resolver sv') n =
       open_after (server_open sv n) (about_rule n ems1)"
    "\<forall>j. EmFiring j \<in> set ems1 \<longrightarrow> \<not> has_active_inhibitor_of (sv_resolver sv') (i_name j)"
    using assms(1) mem by (auto simp: server_inv_def)
  have "task_ok (sv_resolver sv') u" if "u \<in> set (sv_tasks sv')" for u
    using that set_update_subset_insert [of "sv_tasks sv" i t] s(2,3) assms(1) unfolding 2(5)
    by (auto simp: server_inv_def task_ok_def)
  moreover have "firing_map (sv_tasks sv') = (firing_map (sv_tasks sv))(task_name t := task_since t)"
    unfolding 2(5) using s(1) by (intro firing_map_update [OF d 2(1)]) simp
  moreover have "map task_name (sv_tasks sv') = map task_name (sv_tasks sv)"
    unfolding 2(5) by (rule task_list_update [OF 2(1) s(1)])
  ultimately show ?thesis
    using s d 2(2) by (auto simp: server_inv_def comp_def)
qed

lemma server_run_inv:
  "server_inv sv \<Longrightarrow> server_run put steps sv = (sv', ems, sent) \<Longrightarrow>
   server_inv sv' \<and> well_paired (server_open sv n) (about_rule n (map snd ems)) \<and>
   server_open sv' n = open_after (server_open sv n) (about_rule n (map snd ems))"
proof (induction steps arbitrary: sv ems sent)
  case (Cons step steps)
  obtain i fetched now where step: "step = (i, fetched, now)"
    by (cases step)
  obtain sv1 ems1 sent1 where t: "server_step put i fetched now sv = (sv1, ems1, sent1)"
    using prod_cases3 by blast
  obtain ems2 sent2 where r: "server_run put steps sv1 = (sv', ems2, sent2)" and ems: "ems = ems1 @ ems2"
    using Cons.prems(2) t step by (auto split: prod.splits)
  from server_step_inv [OF Cons.prems(1) t, of n] Cons.IH [OF _ r] show ?case
    by (auto simp: ems well_paired_append open_after_append)
qed simp

section \<open>The account of the posts\<close>

definition of_task :: "nat \<Rightarrow> (nat \<times> 'a) list \<Rightarrow> 'a list" where
  "of_task i xs = map snd (filter (\<lambda>x. fst x = i) xs)"

fun posts_left :: "task_stage \<Rightarrow> (sink \<times> incident) list" where
  "posts_left (Posting posts) = posts"
| "posts_left _ = []"

lemma of_task_simps [simp]:
  "of_task i [] = []" "of_task i (xs @ ys) = of_task i xs @ of_task i ys"
  "of_task i (map (Pair j) zs) = (if i = j then zs else [])"
  by (simp_all add: of_task_def filter_map comp_def)

lemma posts_for_append [simp]: "posts_for sinks (es @ es') = posts_for sinks es @ posts_for sinks es'" "posts_for sinks [] = []"
  by (simp_all add: posts_for_def)

lemma posts_left_next [simp]: "posts_left (next_stage posts) = posts"
  by (simp add: next_stage_def)

text \<open>What a task has posted and has left to post is what it was given to post.\<close>

lemma server_step_posts:
  assumes "server_step put i fetched now sv = (sv', ems, sent)" and "k < length (sv_tasks sv)"
  shows "of_task k sent @ posts_left (tk_stage (sv_tasks sv' ! k)) =
    posts_left (tk_stage (sv_tasks sv ! k)) @ posts_for (tk_sinks (sv_tasks sv ! k)) (of_task k ems) \<and>
    tk_sinks (sv_tasks sv' ! k) = tk_sinks (sv_tasks sv ! k) \<and> length (sv_tasks sv') = length (sv_tasks sv)"
  using assms(1)
proof (cases rule: server_step_frame)
  case (2 t ems1 sent1)
  from 2(4) have "of_task k sent @ posts_left (tk_stage (sv_tasks sv' ! k)) =
      posts_left (tk_stage (sv_tasks sv ! k)) @ posts_for (tk_sinks (sv_tasks sv ! k)) (of_task k ems) \<and>
      tk_sinks (sv_tasks sv' ! k) = tk_sinks (sv_tasks sv ! k)"
    by (cases rule: run_rule_step_cases) (use 2 assms(2) in \<open>auto simp: nth_list_update\<close>)
  then show ?thesis
    by (simp add: 2(5))
qed simp

lemma server_run_posts:
  "server_run put steps sv = (sv', ems, sent) \<Longrightarrow> k < length (sv_tasks sv) \<Longrightarrow>
   of_task k sent @ posts_left (tk_stage (sv_tasks sv' ! k)) =
     posts_left (tk_stage (sv_tasks sv ! k)) @ posts_for (tk_sinks (sv_tasks sv ! k)) (of_task k ems) \<and>
   tk_sinks (sv_tasks sv' ! k) = tk_sinks (sv_tasks sv ! k) \<and> length (sv_tasks sv') = length (sv_tasks sv)"
proof (induction steps arbitrary: sv ems sent)
  case (Cons step steps)
  obtain i fetched now where step: "step = (i, fetched, now)"
    by (cases step)
  obtain sv1 ems1 sent1 where t: "server_step put i fetched now sv = (sv1, ems1, sent1)"
    using prod_cases3 by blast
  obtain ems2 sent2 where r: "server_run put steps sv1 = (sv', ems2, sent2)"
    and es: "ems = ems1 @ ems2" "sent = sent1 @ sent2"
    using Cons.prems(1) t step by (auto split: prod.splits)
  from server_step_posts [OF t Cons.prems(2)] Cons.IH [OF r] Cons.prems(2) show ?case
    unfolding es of_task_simps posts_for_append by (metis append.assoc)
qed simp

lemma server_run_frame:
  "server_run put steps sv = (sv', ems, sent) \<Longrightarrow>
   length (sv_tasks sv') = length (sv_tasks sv) \<and> (\<forall>(k, e) \<in> set ems. k < length (sv_tasks sv))"
proof (induction steps arbitrary: sv ems sent)
  case (Cons step steps)
  obtain i fetched now where step: "step = (i, fetched, now)"
    by (cases step)
  obtain sv1 ems1 sent1 where t: "server_step put i fetched now sv = (sv1, ems1, sent1)"
    using prod_cases3 by blast
  obtain ems2 sent2 where r: "server_run put steps sv1 = (sv', ems2, sent2)" and es: "ems = ems1 @ ems2"
    using Cons.prems t step by (auto split: prod.splits)
  from t have "length (sv_tasks sv1) = length (sv_tasks sv) \<and> (\<forall>(k, e) \<in> set ems1. k < length (sv_tasks sv))"
    by (cases rule: server_step_frame) auto
  with Cons.IH [OF r] es show ?case
    by auto
qed simp

lemma open_after_Firing:
  "open_after None es = Some since \<Longrightarrow> \<exists>i. EmFiring i \<in> set es \<and> i_started_at i = since"
proof (induction es rule: rev_induct)
  case (snoc e es)
  then show ?case
    by (cases e) (auto simp: open_after_append)
qed simp

section \<open>A fresh generation\<close>

lemma fold_insert_names:
  "distinct (map r_name rules) \<Longrightarrow>
   hm_get (fold (\<lambda>rule m. hm_insert (r_name rule) (f rule) m) rules m) n =
     (case find (\<lambda>r. r_name r = n) rules of None \<Rightarrow> hm_get m n | Some r \<Rightarrow> Some (f r))"
proof (induction rules arbitrary: m)
  case (Cons r rules)
  have "find (\<lambda>x. r_name x = r_name r) rules = None"
    using Cons.prems by (auto simp: find_None_iff image_iff)
  with Cons show ?case
    by (auto split: option.splits)
qed simp

lemma find_distinct_name:
  "distinct (map r_name rules) \<Longrightarrow> r \<in> set rules \<Longrightarrow> find (\<lambda>x. r_name x = r_name r) rules = Some r"
  by (induction rules) auto

lemma fold_insert_wf: "hm_wf m \<Longrightarrow> hm_wf (fold (\<lambda>rule m. hm_insert (k rule) (f rule) m) rules m)"
  by (induction rules arbitrary: m) auto

lemma resolver_new_fresh:
  assumes "distinct (map r_name rules)"
  shows "alert_inv (\<lambda>_. None) (resolver_new rules)"
    and "r \<in> set rules \<Longrightarrow> hm_get (rv_inhibits (resolver_new rules)) (r_name r) = Some (r_inhibits r)"
proof -
  show "alert_inv (\<lambda>_. None) (resolver_new rules)"
    by (auto simp: alert_inv_def resolver_wf_def no_stuck_pending_def resolver_new_def fold_insert_wf
        fold_insert_names [OF assms] split: option.splits)
  show "r \<in> set rules \<Longrightarrow> hm_get (rv_inhibits (resolver_new rules)) (r_name r) = Some (r_inhibits r)"
    by (simp add: resolver_new_def fold_insert_names [OF assms] find_distinct_name [OF assms])
qed

lemma spawn_rules: "t \<in> set (spawn_generation build rules seed) \<Longrightarrow> tk_rule t \<in> set rules"
  by (induction rules arbitrary: seed) (auto simp: Let_def split: sum.splits if_splits)

lemma spawn_distinct:
  "distinct (map r_name rules) \<Longrightarrow> distinct (map task_name (spawn_generation build rules seed))"
proof (induction rules arbitrary: seed)
  case (Cons r rules)
  then have "r_name r \<notin> set (map task_name (spawn_generation build rules (hm_remove (r_name r) seed)))"
    using spawn_rules by fastforce
  with Cons show ?case
    by (auto simp: Let_def split: sum.splits)
qed simp

lemma spawn_states:
  "distinct (map r_name rules) \<Longrightarrow> t \<in> set (spawn_generation build rules seed) \<Longrightarrow>
   tk_state t = hm_get_or RsInactive seed (task_name t)"
proof (induction rules arbitrary: seed)
  case (Cons r rules)
  show ?case
  proof (cases "t \<in> set (spawn_generation build rules (hm_remove (r_name r) seed))")
    case True
    then have "task_name t \<noteq> r_name r"
      using imageI [OF spawn_rules [OF True], of r_name] Cons.prems(1) by auto
    with Cons.IH [OF _ True] Cons.prems(1) show ?thesis
      by simp
  next
    case False
    with Cons.prems(2) show ?thesis
      by (auto simp: Let_def split: sum.splits if_splits)
  qed
qed simp

lemma startupD:
  assumes "startup build load_all None None (Inr outcome) (Inr store) = Inr sv" and "load_all store = Inr seed"
  shows "sv = \<lparr>sv_tasks = spawn_generation build (lo_rules outcome) seed, sv_resolver = resolver_new (lo_rules outcome),
    sv_live_names = map r_name (lo_rules outcome), sv_store = store\<rparr>"
  using assms by (auto simp: startup_def split: if_splits)

lemma spawn_ticking: "t \<in> set (spawn_generation build rules seed) \<Longrightarrow> tk_stage t = Ticking"
  by (induction rules arbitrary: seed) (auto simp: Let_def split: sum.splits if_splits)

lemma firing_map_inactive:
  assumes "\<And>t. t \<in> set tasks \<Longrightarrow> tk_state t = RsInactive \<and> tk_stage t = Ticking"
  shows "firing_map tasks = (\<lambda>_. None)"
proof
  fix n
  show "firing_map tasks n = None"
    using assms by (cases "firing_map tasks n") (auto elim!: firing_map_SomeE)
qed

lemma startup_fresh_inv:
  assumes "distinct (map r_name (lo_rules outcome))"
    and "startup build load_all None None (Inr outcome) (Inr store) = Inr sv" and "load_all store = Inr []"
  shows "server_inv sv" and "server_open sv n = None"
proof -
  note sv = startupD [OF assms(2,3)]
  have "firing_map (sv_tasks sv) = (\<lambda>_. None)"
    by (rule firing_map_inactive) (use spawn_states [OF assms(1)] spawn_ticking in \<open>auto simp: sv\<close>)
  moreover have "task_ok (sv_resolver sv) t" if "t \<in> set (sv_tasks sv)" for t
    using that spawn_ticking [of t] spawn_rules [of t] resolver_new_fresh(2) [OF assms(1)] by (auto simp: sv task_ok_def)
  ultimately show "server_inv sv"
    using resolver_new_fresh(1) [OF assms(1)] spawn_distinct [OF assms(1)] by (simp add: server_inv_def sv)
  show "server_open sv n = None"
    using \<open>firing_map (sv_tasks sv) = _\<close> by (simp add: open_incident_def)
qed

section \<open>From the loader to the sink\<close>

lemma load_rules_distinct:
  assumes "load_rules fl humantime from_str dir entries = Inr outcome"
  shows "distinct (map r_name (lo_rules outcome))"
  using assms by (rule load_rulesE) (simp only: detect_duplicate_rules distinct_singletons)

text \<open>
  C31. From a first start until the next reload, for every catalogue the loader accepts and every interleaving
  of the tasks: what the resolver lets out about a rule alternates between Firing and Resolved, starting with a
  Firing, and every Resolved carries the start of the Firing before it, so that no Resolved is let out whose
  Firing was held back; and what a task has posted is, in order, what it was given to post, each incident once
  to each of its sinks, but for the posts it has yet to make. Between tasks the posts have no order.
\<close>

theorem beacon_alerts_paired_and_posted:
  assumes "load_rules fl humantime from_str dir entries = Inr outcome"
    and "startup build load_all None None (Inr outcome) (Inr store) = Inr sv" and "load_all store = Inr []"
    and "server_run put steps sv = (sv', ems, sent)"
  shows "well_paired None (about_rule n (map snd ems)) \<and>
    (\<forall>k t. k < length (sv_tasks sv') \<and> t = sv_tasks sv' ! k \<longrightarrow>
       of_task k sent @ posts_left (tk_stage t) = posts_for (tk_sinks t) (of_task k ems))"
proof (intro conjI allI impI; (elim conjE)?)
  note fresh = startup_fresh_inv [OF load_rules_distinct [OF assms(1)] assms(2,3)]
  show "well_paired None (about_rule n (map snd ems))"
    using server_run_inv [OF fresh(1) assms(4), of n] fresh(2) [of n] by simp
  fix k t
  assume k: "k < length (sv_tasks sv')" "t = sv_tasks sv' ! k"
  have len: "length (sv_tasks sv') = length (sv_tasks sv)"
    using server_run_frame [OF assms(4)] by simp
  then have "posts_left (tk_stage (sv_tasks sv ! k)) = []"
    using spawn_ticking [of "sv_tasks sv ! k"] k startupD [OF assms(2,3)] by (metis nth_mem posts_left.simps(2) server.select_convs(1))
  with server_run_posts [OF assms(4), of k] len k
  show "of_task k sent @ posts_left (tk_stage t) = posts_for (tk_sinks t) (of_task k ems)"
    by simp
qed

text \<open>A rule that another inhibits, and whose firing the resolver has been told of.\<close>

definition firing_inhibitor :: "task list \<Rightarrow> string \<Rightarrow> bool" where
  "firing_inhibitor tasks n =
     list_ex (\<lambda>u. task_since u \<noteq> None \<and> task_name u \<noteq> n \<and> n \<in> set (r_inhibits (tk_rule u))) tasks"

lemma server_active_inhibitor:
  assumes "server_inv sv"
  shows "has_active_inhibitor_of (sv_resolver sv) n \<longleftrightarrow> firing_inhibitor (sv_tasks sv) n"
proof
  have inv: "alert_inv (firing_map (sv_tasks sv)) (sv_resolver sv)" and d: "distinct (map task_name (sv_tasks sv))"
    using assms by (auto simp: server_inv_def)
  note iff = has_active_inhibitor_iff [OF alert_invD(3) [OF inv]]
  show "firing_inhibitor (sv_tasks sv) n" if a: "has_active_inhibitor_of (sv_resolver sv) n"
  proof -
    obtain c ds where c: "hm_get (rv_inhibits (sv_resolver sv)) c = Some ds" "c \<noteq> n" "n \<in> set ds"
      "hm_get (rv_firing (sv_resolver sv)) c = Some True"
      using a by (auto simp: iff)
    then obtain t where "firing_map (sv_tasks sv) c = Some t"
      using alert_invD(4) [OF inv, of c] by auto
    then obtain u where "u \<in> set (sv_tasks sv)" "task_name u = c" "task_since u = Some t"
      by (rule firing_map_SomeE)
    with c assms show ?thesis
      by (auto simp: firing_inhibitor_def list_ex_iff server_inv_def task_ok_def)
  qed
  show "has_active_inhibitor_of (sv_resolver sv) n" if f: "firing_inhibitor (sv_tasks sv) n"
  proof -
    obtain u where u: "u \<in> set (sv_tasks sv)" "task_since u \<noteq> None" "task_name u \<noteq> n"
      "n \<in> set (r_inhibits (tk_rule u))"
      using f by (auto simp: firing_inhibitor_def list_ex_iff)
    then have "hm_get (rv_firing (sv_resolver sv)) (task_name u) = Some True"
      using alert_invD(4) [OF inv, of "task_name u"] firing_map_mem [OF d u(1)] by simp
    with u assms show ?thesis
      by (auto simp: iff server_inv_def task_ok_def)
  qed
qed

text \<open>
  C32. From a first start until the next reload there is no page during a storm: whenever the resolver lets a
  Firing of a rule out, no other rule that inhibits it is firing as far as the resolver has been told. After a
  restart this does not hold, since the resolver then takes every inhibitor for quiet.
\<close>

theorem beacon_no_page_while_inhibited:
  assumes "load_rules fl humantime from_str dir entries = Inr outcome"
    and "startup build load_all None None (Inr outcome) (Inr store) = Inr sv" and "load_all store = Inr []"
    and "server_run put steps sv = (sv1, ems, sent)" and "server_step put i fetched now sv1 = (sv2, ems2, sent2)"
    and "(k, EmFiring incident) \<in> set ems2"
  shows "\<not> firing_inhibitor (sv_tasks sv2) (i_name incident)"
proof -
  have "server_inv sv1"
    using server_run_inv [OF startup_fresh_inv(1) [OF load_rules_distinct [OF assms(1)] assms(2,3)] assms(4)] by blast
  with server_step_inv [OF this assms(5)] assms(6) show ?thesis
    using server_active_inhibitor [of sv2] by blast
qed

text \<open>
  C33. From a first start until the next reload no alert is held back for good: at any moment, for every rule
  whose firing the resolver has been told of and that no other rule inhibits whose firing it has been told of,
  the last thing let out about it is the Firing of this very incident, and some task has posted it, or has it
  left to post, to its sinks. The task may be that of the inhibitor, a task may have no sinks, and a post that
  fails is not repeated.
\<close>

theorem beacon_uninhibited_alert_let_out:
  assumes "load_rules fl humantime from_str dir entries = Inr outcome"
    and "startup build load_all None None (Inr outcome) (Inr store) = Inr sv" and "load_all store = Inr []"
    and "server_run put steps sv = (sv', ems, sent)"
    and "t \<in> set (sv_tasks sv')" and "task_since t = Some since" and "\<not> firing_inhibitor (sv_tasks sv') (task_name t)"
  shows "open_after None (about_rule (task_name t) (map snd ems)) = Some since \<and>
    (\<exists>k incident. i_name incident = task_name t \<and> i_started_at incident = since \<and> (k, EmFiring incident) \<in> set ems \<and>
       k < length (sv_tasks sv') \<and>
       (\<forall>sink \<in> set (tk_sinks (sv_tasks sv' ! k)).
          (sink, incident) \<in> set (of_task k sent) \<union> set (posts_left (tk_stage (sv_tasks sv' ! k)))))"
proof -
  note fresh = startup_fresh_inv [OF load_rules_distinct [OF assms(1)] assms(2,3)]
  from server_run_inv [OF fresh(1) assms(4), of "task_name t"]
  have inv: "server_inv sv'" and o: "server_open sv' (task_name t) = open_after None (about_rule (task_name t) (map snd ems))"
    by (auto simp: fresh(2))
  have "no_stuck_pending (sv_resolver sv')" "distinct (map task_name (sv_tasks sv'))"
    using inv by (auto simp: server_inv_def alert_inv_def)
  moreover have "\<not> has_active_inhibitor_of (sv_resolver sv') (task_name t)"
    using server_active_inhibitor [OF inv] assms(7) by simp
  ultimately have open1: "open_after None (about_rule (task_name t) (map snd ems)) = Some since"
    using firing_map_mem [OF _ assms(5)] assms(6) o by (cases "hm_get (rv_pending (sv_resolver sv')) (task_name t)") (auto simp: open_incident_def no_stuck_pending_def)
  from open_after_Firing [OF this] obtain k incident where i: "i_started_at incident = since" "i_name incident = task_name t"
    "(k, EmFiring incident) \<in> set ems"
    by (auto simp: about_rule_def)
  have k: "k < length (sv_tasks sv')"
    using server_run_frame [OF assms(4)] i(3) by auto
  then have "posts_left (tk_stage (sv_tasks sv ! k)) = []"
    using spawn_ticking [of "sv_tasks sv ! k"] startupD [OF assms(2,3)] server_run_frame [OF assms(4)]
    by (metis nth_mem posts_left.simps(2) server.select_convs(1))
  with server_run_posts [OF assms(4), of k] k server_run_frame [OF assms(4)]
  have p: "of_task k sent @ posts_left (tk_stage (sv_tasks sv' ! k)) = posts_for (tk_sinks (sv_tasks sv' ! k)) (of_task k ems)"
    by simp
  have "(sink, incident) \<in> set (posts_for (tk_sinks (sv_tasks sv' ! k)) (of_task k ems))"
    if "sink \<in> set (tk_sinks (sv_tasks sv' ! k))" for sink
    using that i(3) by (force simp: posts_for_def of_task_def)
  with open1 i k show ?thesis
    unfolding p [symmetric] set_append by blast
qed

section \<open>Loaded rules run\<close>

lemma adapter_total:
  assumes "sink_ok cfg"
  shows "\<exists>s. adapter_from_config None env_var cfg name = Inr s"
  using assms
  by (auto simp: sink_ok_def supported_sinks_def adapter_from_config_def webhook_new_def mattermost_new_def
      zulip_new_def oncall_new_def build_client_def Let_def)

lemma try_map_total: "list_all (\<lambda>x. \<exists>y. f x = Inr y) xs \<Longrightarrow> \<exists>ys. try_map f xs = Inr ys"
  by (induction xs) auto

lemma spawn_all:
  "list_all (\<lambda>r. r_interval r \<noteq> 0 \<and> (\<exists>ss. build r = Inr ss)) rules \<Longrightarrow> map tk_rule (spawn_generation build rules seed) = rules"
  by (induction rules arbitrary: seed) (auto simp: Let_def)

text \<open>
  What the loader accepts the orchestrator can run, but for an interval of zero, which the loader accepts: as
  long as HTTP clients can be built at all, no other rule of a loaded catalogue is disabled because of its
  sinks, so every such rule has its task.
\<close>

theorem beacon_loaded_rules_run:
  assumes "load_rules fl humantime from_str dir entries = Inr outcome" and "list_all (\<lambda>r. r_interval r \<noteq> 0) (lo_rules outcome)"
  shows "map tk_rule (spawn_generation (build_sinks None env_var) (lo_rules outcome) seed) = lo_rules outcome"
proof (rule spawn_all)
  have "\<exists>ss. build_sinks None env_var r = Inr ss" if "r \<in> set (lo_rules outcome)" for r
    unfolding build_sinks_def
    by (rule try_map_total) (use load_rules_sinks [OF assms(1) that] adapter_total in \<open>auto simp: list_all_iff\<close>)
  then show "list_all (\<lambda>r. r_interval r \<noteq> 0 \<and> (\<exists>ss. build_sinks None env_var r = Inr ss)) (lo_rules outcome)"
    using assms(2) by (simp add: list_all_iff)
qed

section \<open>Restarting from the durable states\<close>

text \<open>The outcome of the put a step makes, if it makes one.\<close>

definition step_put ::
  "'st put_fn \<Rightarrow> nat \<Rightarrow> fetch_error + query_outcome \<Rightarrow> system_time \<Rightarrow> 'st server \<Rightarrow>
   (string \<times> rule_state \<times> (rule_state_store_error + unit)) option" where
  "step_put put i fetched now sv =
     (let t = sv_tasks sv ! i;
          next = fst (transition (tk_state t) (effective_outcome fetched) (tk_rule t) now)
      in if i < length (sv_tasks sv) \<and> tk_stage t = Ticking \<and> tk_state t \<noteq> next
         then Some (task_name t, next, fst (put (task_name t) next (sv_store sv))) else None)"

text \<open>The step's put, if any, is acknowledged, and its record is one that the codec \<open>ok\<close> reads back.\<close>

definition step_persisted ::
  "'st put_fn \<Rightarrow> (string \<Rightarrow> rule_state \<Rightarrow> bool) \<Rightarrow> nat \<Rightarrow> fetch_error + query_outcome \<Rightarrow> system_time \<Rightarrow> 'st server \<Rightarrow> bool" where
  "step_persisted put ok i fetched now sv \<longleftrightarrow>
     (case step_put put i fetched now sv of None \<Rightarrow> True | Some (n, st, res) \<Rightarrow> res = Inr () \<and> ok n st)"

text \<open>
  The server over its file from an empty directory on: a first start, steps whose puts are acknowledged, and starts
  again from the files, always with the same catalogue.
\<close>

inductive server_history ::
  "(beacon_wal_record \<Rightarrow> string + string) \<Rightarrow> (string \<Rightarrow> string + beacon_wal_record) \<Rightarrow> (string \<Rightarrow> string + beacon_snapshot_doc) \<Rightarrow>
   (rule \<Rightarrow> sink_refusal + sink list) \<Rightarrow> load_outcome \<Rightarrow> state_file server \<Rightarrow> bool"
  for ts fs fr build outcome where
  first_started: "state_file_open fs fr \<lparr>sd_snapshot = Absent, sd_wal = Absent, sd_append_error = None\<rparr> = (Inr store, ws) \<Longrightarrow>
    startup build state_file_load_all None None (Inr outcome) (Inr store) = Inr sv \<Longrightarrow> server_history ts fs fr build outcome sv"
| stepped: "server_history ts fs fr build outcome sv \<Longrightarrow> server_step (state_file_put ts env) i fetched now sv = (sv', ems, sent) \<Longrightarrow>
    step_persisted (state_file_put ts env) (\<lambda>n st. serde_ok ts fs (BeaconPut n st)) i fetched now sv \<Longrightarrow>
    server_history ts fs fr build outcome sv'"
| started_again: "server_history ts fs fr build outcome sv \<Longrightarrow>
    state_file_open fs fr (disk_of (sf_dir (sv_store sv)) (sf_wal (sv_store sv))) = (Inr store, ws) \<Longrightarrow>
    startup build state_file_load_all None None (Inr outcome) (Inr store) = Inr sv' \<Longrightarrow> server_history ts fs fr build outcome sv'"

lemma server_step_persisted:
  assumes "server_step put i fetched now sv = (sv', ems, sent)" and "step_persisted put ok i fetched now sv"
  obtains "sv_tasks sv' = sv_tasks sv" "sv_store sv' = sv_store sv"
  | t where "i < length (sv_tasks sv)" "sv_tasks sv' = (sv_tasks sv)[i := t]" "tk_rule t = tk_rule (sv_tasks sv ! i)"
    "tk_sinks t = tk_sinks (sv_tasks sv ! i)"
    "tk_state t = tk_state (sv_tasks sv ! i) \<and> sv_store sv' = sv_store sv \<or>
     put (task_name t) (tk_state t) (sv_store sv) = (Inr (), sv_store sv') \<and> ok (task_name t) (tk_state t)"
  using assms(1)
proof (cases rule: server_step_frame)
  case 1
  then show ?thesis
    using that(1) by simp
next
  case (2 t ems1 sent1)
  from 2(4) show ?thesis
  proof (cases rule: run_rule_step_cases)
    case (evaluate st em)
    with assms(2) 2 show ?thesis
      by (intro that(2) [of t])
        (auto simp: step_persisted_def step_put_def Let_def prod_eq_iff split: if_splits)
  qed (use 2 in \<open>auto intro!: that(2) [of t]\<close>)
qed

context rule_state_store
begin

definition resumable :: "'s server \<Rightarrow> bool" where
  "resumable sv = (\<forall>n s. task_states (sv_tasks sv) n = Some s \<longrightarrow>
     s = (case stored (sv_store sv) n of None \<Rightarrow> RsInactive | Some st \<Rightarrow> st))"

lemma step_resumable:
  assumes "server_step (put env) i fetched now sv = (sv', ems, sent)" and "step_persisted (put env) ok i fetched now sv"
    and "distinct (map task_name (sv_tasks sv))" and "resumable sv"
  shows "resumable sv' \<and> map tk_rule (sv_tasks sv') = map tk_rule (sv_tasks sv) \<and> map tk_sinks (sv_tasks sv') = map tk_sinks (sv_tasks sv)"
  using assms(1,2)
proof (cases rule: server_step_persisted)
  case 1
  with assms(4) show ?thesis
    by (simp add: resumable_def)
next
  case (2 t)
  have states: "task_states (sv_tasks sv') = (task_states (sv_tasks sv))(task_name t \<mapsto> tk_state t)"
    unfolding 2(2) task_states_def using 2(3) by (intro map_of_tasks_update [OF assms(3) 2(1)]) simp
  have old: "task_states (sv_tasks sv) (task_name t) = Some (tk_state (sv_tasks sv ! i))"
    using task_states_mem [OF assms(3), of "sv_tasks sv ! i"] 2(1,3) by simp
  from 2(5) have "resumable sv'"
  proof (elim disjE conjE)
    assume "tk_state t = tk_state (sv_tasks sv ! i)" "sv_store sv' = sv_store sv"
    then show ?thesis
      using assms(4) old unfolding resumable_def states by auto
  next
    assume p: "put env (task_name t) (tk_state t) (sv_store sv) = (Inr (), sv_store sv')"
    show ?thesis
      using assms(4) unfolding resumable_def states stored_put [OF p] by auto
  qed
  then show ?thesis
    using task_list_update(2,3) [OF 2(1,3)] 2(2,4) by simp
qed

end

lemma spawn_seed:
  "map tk_rule (spawn_generation build rules s1) = map tk_rule (spawn_generation build rules s2)"
  "map tk_sinks (spawn_generation build rules s1) = map tk_sinks (spawn_generation build rules s2)"
  by (induction rules arbitrary: s1 s2) (auto simp: Let_def split: sum.splits)

lemma task_states_mono:
  assumes "distinct (map r_name rules)"
  shows "task_states (spawn_generation build rules seed) n = Some s \<Longrightarrow> s = hm_get_or RsInactive seed n"
  using spawn_states [OF assms] by (auto simp: task_states_def dest!: map_of_SomeD)

lemma tasks_eqI:
  assumes "map tk_rule ts = map tk_rule us" and "map tk_sinks ts = map tk_sinks us" and "map tk_stage ts = map tk_stage us"
    and "distinct (map task_name us)"
    and "\<And>n s. task_states ts n = Some s \<Longrightarrow> s = f n" and "\<And>n s. task_states us n = Some s \<Longrightarrow> s = f n"
  shows "ts = us"
proof (rule nth_equalityI)
  have names: "map task_name ts = map task_name us"
    using arg_cong [OF assms(1), of "map r_name"] by (simp add: comp_def)
  show len: "length ts = length us"
    using map_eq_imp_length_eq [OF assms(1)] .
  fix i
  assume i: "i < length ts"
  have "tk_state (ts ! i) = f (task_name (ts ! i))" "tk_state (us ! i) = f (task_name (us ! i))"
    using task_states_mem [of ts "ts ! i"] task_states_mem [of us "us ! i"] assms(4-6) names i len by auto
  moreover have "tk_rule (ts ! i) = tk_rule (us ! i)" "tk_sinks (ts ! i) = tk_sinks (us ! i)" "tk_stage (ts ! i) = tk_stage (us ! i)"
    using i len assms(1-3) by (metis nth_map)+
  ultimately show "ts ! i = us ! i"
    by simp
qed

definition history_inv ::
  "(beacon_wal_record \<Rightarrow> string + string) \<Rightarrow> (string \<Rightarrow> string + beacon_wal_record) \<Rightarrow> (string \<Rightarrow> string + beacon_snapshot_doc) \<Rightarrow>
   (rule \<Rightarrow> sink_refusal + sink list) \<Rightarrow> load_outcome \<Rightarrow> state_file server \<Rightarrow> bool" where
  "history_inv ts fs fr build outcome sv \<longleftrightarrow>
     has_any_rules outcome \<and> state_durable ts fs fr (sv_store sv) \<and> state_file.resumable sv \<and>
     map tk_rule (sv_tasks sv) = map tk_rule (spawn_generation build (lo_rules outcome) []) \<and>
     map tk_sinks (sv_tasks sv) = map tk_sinks (spawn_generation build (lo_rules outcome) [])"

lemma stored_rules: "state_file.stored s = hm_get (sf_rules s)"
  by (auto simp: state_file.stored_def state_file_load_all_def)

lemma started_inv:
  assumes "distinct (map r_name (lo_rules outcome))" and "startup build state_file_load_all None None (Inr outcome) (Inr store) = Inr sv"
    and "state_durable ts fs fr store"
  shows "history_inv ts fs fr build outcome sv"
proof -
  have sv: "sv_tasks sv = spawn_generation build (lo_rules outcome) (sf_rules store)" "sv_store sv = store"
    using startupD [OF assms(2)] by (auto simp: state_file_load_all_def)
  moreover have "state_file.resumable sv"
    using task_states_mono [OF assms(1)] by (auto simp: state_file.resumable_def stored_rules sv hm_get_or_def)
  moreover have "has_any_rules outcome"
    using assms(2) by (auto simp: startup_def split: if_splits)
  ultimately show ?thesis
    using assms(3) spawn_seed [of build "lo_rules outcome" "sf_rules store" "[]"] by (simp add: history_inv_def)
qed

lemma history_names:
  assumes "distinct (map r_name (lo_rules outcome))" and "history_inv ts fs fr build outcome sv"
  shows "distinct (map task_name (sv_tasks sv))"
  using spawn_distinct [OF assms(1), of build "[]"] arg_cong [of _ _ "map r_name"] assms(2)
  by (metis (no_types, lifting) history_inv_def list.map_comp comp_def map_eq_conv)

lemma state_opened_empty:
  assumes "state_file_open fs fr \<lparr>sd_snapshot = Absent, sd_wal = Absent, sd_append_error = None\<rparr> = (Inr store, ws)"
  shows "state_durable ts fs fr store"
  using assms
  by (auto simp: state_file_open_def pillar_open_def state_durable_def durable_as_def snap_fs_of_def open_writer_def snapshot_base_def
      intro!: exI [of _ "[]"])

lemma server_history_inv:
  assumes d: "distinct (map r_name (lo_rules outcome))" and "server_history ts fs fr build outcome sv"
  shows "history_inv ts fs fr build outcome sv"
  using assms(2)
proof (induction rule: server_history.induct)
  case (first_started store ws sv)
  then show ?case
    using started_inv [OF d] state_opened_empty by blast
next
  case (stepped sv env i fetched now sv' ems sent)
  note st = state_file.step_resumable [of "(ts, env)", simplified, OF stepped.hyps(2,3) history_names [OF d stepped.IH]]
  from stepped.hyps(2,3) have "state_durable ts fs fr (sv_store sv')"
  proof (cases rule: server_step_persisted)
    case (2 t)
    with stepped.IH show ?thesis
      by (auto simp: history_inv_def intro: state_put_durable)
  qed (use stepped.IH in \<open>simp add: history_inv_def\<close>)
  with st stepped.IH show ?case
    by (simp add: history_inv_def)
next
  case (started_again sv store ws sv')
  then have "state_durable ts fs fr store"
    using state_reopen [of ts fs fr "sv_store sv"] by (auto simp: history_inv_def)
  with started_again show ?case
    using started_inv [OF d] by blast
qed

text \<open>
  C34. A restart resumes every rule where it was: from a first start in an empty directory on, after any steps
  whose puts were acknowledged and any restarts with the same catalogue, opening the store again succeeds
  without a warning and starting gives the same tasks in the same states, each at its ticker, so an alert that
  was firing keeps its start time and is not announced again. What a task had still to tell the resolver or to
  post is lost with the process.
\<close>

theorem beacon_restart_resumes:
  assumes "load_rules fl humantime from_str dir entries = Inr outcome" and "server_history ts fs fr build outcome sv"
  shows "\<exists>store' sv'. state_file_open fs fr (disk_of (sf_dir (sv_store sv)) (sf_wal (sv_store sv))) = (Inr store', []) \<and>
    startup build state_file_load_all None None (Inr outcome) (Inr store') = Inr sv' \<and>
    sv_tasks sv' = map (\<lambda>t. t\<lparr>tk_stage := Ticking\<rparr>) (sv_tasks sv)"
proof -
  let ?rules = "lo_rules outcome"
  note d = load_rules_distinct [OF assms(1)]
  note inv = server_history_inv [OF d assms(2)]
  obtain store' where st: "state_file_open fs fr (disk_of (sf_dir (sv_store sv)) (sf_wal (sv_store sv))) = (Inr store', [])"
    "hm_get (sf_rules store') = hm_get (sf_rules (sv_store sv))"
    using state_reopen [of ts fs fr "sv_store sv"] inv by (auto simp: history_inv_def)
  define sv' where "sv' = \<lparr>sv_tasks = spawn_generation build ?rules (sf_rules store'), sv_resolver = resolver_new ?rules,
    sv_live_names = map r_name ?rules, sv_store = store'\<rparr>"
  have "startup build state_file_load_all None None (Inr outcome) (Inr store') = Inr sv'"
    using inv by (auto simp: startup_def state_file_load_all_def sv'_def history_inv_def)
  moreover have "sv_tasks sv' = map (\<lambda>t. t\<lparr>tk_stage := Ticking\<rparr>) (sv_tasks sv)"
  proof (rule tasks_eqI [where f = "hm_get_or RsInactive (sf_rules store')"])
    show "map tk_rule (sv_tasks sv') = map tk_rule (map (\<lambda>t. t\<lparr>tk_stage := Ticking\<rparr>) (sv_tasks sv))"
      "map tk_sinks (sv_tasks sv') = map tk_sinks (map (\<lambda>t. t\<lparr>tk_stage := Ticking\<rparr>) (sv_tasks sv))"
      using inv spawn_seed [of build ?rules "sf_rules store'" "[]"] by (simp_all add: sv'_def history_inv_def comp_def)
    then have "length (sv_tasks sv') = length (sv_tasks sv)"
      by (auto dest: map_eq_imp_length_eq)
    then show "map tk_stage (sv_tasks sv') = map tk_stage (map (\<lambda>t. t\<lparr>tk_stage := Ticking\<rparr>) (sv_tasks sv))"
      using spawn_ticking [OF nth_mem] by (auto simp: list_eq_iff_nth_eq sv'_def)
    show "distinct (map task_name (map (\<lambda>t. t\<lparr>tk_stage := Ticking\<rparr>) (sv_tasks sv)))"
      using history_names [OF d inv] by (simp add: comp_def)
    show "task_states (sv_tasks sv') n = Some s \<Longrightarrow> s = hm_get_or RsInactive (sf_rules store') n" for n s
      using task_states_mono [OF d] by (simp add: sv'_def)
    show "task_states (map (\<lambda>t. t\<lparr>tk_stage := Ticking\<rparr>) (sv_tasks sv)) n = Some s \<Longrightarrow> s = hm_get_or RsInactive (sf_rules store') n" for n s
      using inv by (auto simp: history_inv_def state_file.resumable_def stored_rules st(2) hm_get_or_def task_states_def comp_def)
  qed
  ultimately show ?thesis
    using st(1) by blast
qed

end
