(* ===== verification/Beacon_Scenarios.thy ===== *)
theory Beacon_Scenarios
  imports Beacon_Delivery
begin

text \<open>
  One catalogue, evaluated: \<open>db\<close> inhibits \<open>api\<close>, each rule with a webhook of its own.
  The witnesses of the delivery theorems run it, and so do the scenarios in which a release, a restart, a reload
  or the order of two posts does less than the code's documentation says.
\<close>

definition bz_raw :: "string \<Rightarrow> string list \<Rightarrow> raw_rule" where
  "bz_raw name inh =
     \<lparr>rr_name = name, rr_query = name, rr_for_duration = ''0s'', rr_interval = ''30s'', rr_severity = Critical,
      rr_labels = [], rr_sinks = [\<lparr>rs_kind = ''webhook'', rs_url = Some name, rs_channel = None, rs_topic = None,
        rs_auth_token_env = None\<rparr>], rr_inhibits = inh\<rparr>"

definition bz_rule :: "string \<Rightarrow> string list \<Rightarrow> rule" where
  "bz_rule name inh =
     \<lparr>r_name = name, r_query = name, r_for_duration = 0, r_interval = 30, r_severity = Critical, r_labels = [],
      r_sinks = [\<lparr>sc_kind = ''webhook'', sc_url = Some name, sc_channel = None, sc_topic = None,
        sc_auth_token_env = None\<rparr>], r_inhibits = inh\<rparr>"

text \<open>The three catalogues: with the inhibition, without it, and with it moved to another rule.\<close>

definition bz_from_str :: "string \<Rightarrow> string + int file_shape" where
  "bz_from_str body =
     (if body = ''a'' then Inr \<lparr>fs_rules = [bz_raw ''db'' [''api''], bz_raw ''api'' []], fs_slo = []\<rparr>
      else if body = ''b'' then Inr \<lparr>fs_rules = [bz_raw ''db'' [], bz_raw ''api'' []], fs_slo = []\<rparr>
      else Inr \<lparr>fs_rules = [bz_raw ''lb'' [''api''], bz_raw ''api'' []], fs_slo = []\<rparr>)"

definition bz_nodes :: "string \<Rightarrow> fs_node list" where
  "bz_nodes body = [FileNode ''r.toml'' (Inr body)]"

definition bz_humantime :: "string \<Rightarrow> string + nat" where
  "bz_humantime text = Inr (if text = ''0s'' then 0 else 30)"

abbreviation bz_load :: "string \<Rightarrow> loader_error + load_outcome" where
  "bz_load body \<equiv> load_rules sample_float_ops bz_humantime bz_from_str [''rules''] (Inr (bz_nodes body))"

definition bz_outcome :: "rule list \<Rightarrow> load_outcome" where
  "bz_outcome rules = \<lparr>lo_rules = rules, lo_diagnostics = []\<rparr>"

lemma bz_loaded:
  "bz_load ''a'' = Inr (bz_outcome [bz_rule ''db'' [''api''], bz_rule ''api'' []])"
  "bz_load ''b'' = Inr (bz_outcome [bz_rule ''db'' [], bz_rule ''api'' []])"
  "bz_load ''c'' = Inr (bz_outcome [bz_rule ''lb'' [''api''], bz_rule ''api'' []])"
  by code_simp+

text \<open>A store that keeps its map and never fails.\<close>

definition bz_put :: "rule_states put_fn" where
  "bz_put n st m = (Inr (), hm_insert n st m)"

definition bz_load_all :: "rule_states \<Rightarrow> rule_state_store_error + rule_states" where
  "bz_load_all m = Inr m"

definition bz_build :: "rule \<Rightarrow> sink_refusal + sink list" where
  "bz_build = build_sinks None (\<lambda>_. None)"

definition bz_task :: "string \<Rightarrow> string list \<Rightarrow> rule_state \<Rightarrow> task_stage \<Rightarrow> task" where
  "bz_task name inh st stage = \<lparr>tk_rule = bz_rule name inh, tk_sinks = [WebhookSink name], tk_state = st, tk_stage = stage\<rparr>"

definition bz_server ::
  "rule_state \<times> task_stage \<Rightarrow> rule_state \<times> task_stage \<Rightarrow> (string, bool) hash_map \<Rightarrow> (string, incident) hash_map \<Rightarrow>
   rule_states \<Rightarrow> rule_states server" where
  "bz_server db api firing pending store =
     \<lparr>sv_tasks = [bz_task ''db'' [''api''] (fst db) (snd db), bz_task ''api'' [] (fst api) (snd api)],
      sv_resolver = \<lparr>rv_inhibits = [(''db'', [''api'']), (''api'', [])], rv_firing = firing, rv_pending = pending\<rparr>,
      sv_live_names = [''db'', ''api''], sv_store = store\<rparr>"

abbreviation bz_fresh :: "rule_states server" where
  "bz_fresh \<equiv> bz_server (RsInactive, Ticking) (RsInactive, Ticking) [(''db'', False), (''api'', False)] [] []"

lemma bz_startup:
  "startup bz_build bz_load_all None None (Inr (bz_outcome [bz_rule ''db'' [''api''], bz_rule ''api'' []])) (Inr []) = Inr bz_fresh"
  by code_simp

text \<open>An evaluation and what the resolver is told of it, and a number of posts.\<close>

type_synonym bz_step = "nat \<times> (fetch_error + query_outcome) \<times> system_time"

definition bz_eval :: "nat \<Rightarrow> query_outcome \<Rightarrow> int \<Rightarrow> bz_step" where
  "bz_eval i outcome t = (i, Inr outcome, t)"

definition bz_on :: "nat \<Rightarrow> int \<Rightarrow> bz_step list" where
  "bz_on i t = [bz_eval i OutcomeActive t, bz_eval i OutcomeActive t]"

definition bz_off :: "nat \<Rightarrow> int \<Rightarrow> bz_step list" where
  "bz_off i t = [bz_eval i OutcomeInactive t, bz_eval i OutcomeInactive t]"

definition bz_posts :: "nat \<Rightarrow> nat \<Rightarrow> bz_step list" where
  "bz_posts i n = replicate n (bz_eval i OutcomeInactive 0)"

text \<open>\<open>db\<close> fires at 2, then \<open>api\<close> at 4, whose Firing is held back, and at 5 \<open>db\<close> is found to be over.\<close>

definition bz_storm :: "bz_step list" where
  "bz_storm = bz_on 0 1 @ bz_on 0 2 @ bz_posts 0 1 @ bz_on 1 3 @ bz_on 1 4"

abbreviation bz_db_firing :: incident where
  "bz_db_firing \<equiv> incident_firing (bz_rule ''db'' [''api'']) 2"

abbreviation bz_api_firing :: incident where
  "bz_api_firing \<equiv> incident_firing (bz_rule ''api'' []) 4"

abbreviation bz_db_resolved :: incident where
  "bz_db_resolved \<equiv> incident_resolved (bz_rule ''db'' [''api'']) 2 5"

abbreviation bz_api_resolved :: incident where
  "bz_api_resolved \<equiv> incident_resolved (bz_rule ''api'' []) 4 6"

abbreviation bz_stormy :: "rule_states server" where
  "bz_stormy \<equiv> bz_server (RsFiring 2, Ticking) (RsFiring 4, Ticking) [(''db'', True), (''api'', True)] [(''api'', bz_api_firing)]
     [(''db'', RsFiring 2), (''api'', RsFiring 4)]"

lemma bz_storm_run:
  "server_run bz_put bz_storm bz_fresh = (bz_stormy, [(0, EmFiring bz_db_firing)], [(0, WebhookSink ''db'', bz_db_firing)])"
  by code_simp

abbreviation bz_over :: "rule_states server" where
  "bz_over \<equiv> bz_server (RsInactive, Observing (Some (EmResolved bz_db_resolved))) (RsFiring 4, Ticking)
     [(''db'', True), (''api'', True)] [(''api'', bz_api_firing)] [(''db'', RsInactive), (''api'', RsFiring 4)]"

lemma bz_over_run:
  "server_run bz_put (bz_storm @ [bz_eval 0 OutcomeInactive 5]) bz_fresh =
     (bz_over, [(0, EmFiring bz_db_firing)], [(0, WebhookSink ''db'', bz_db_firing)])"
  by code_simp

abbreviation bz_calm :: "task_stage \<Rightarrow> rule_states server" where
  "bz_calm stage \<equiv> bz_server (RsInactive, stage) (RsFiring 4, Ticking) [(''db'', False), (''api'', True)] []
     [(''db'', RsInactive), (''api'', RsFiring 4)]"

lemma bz_release:
  "server_step bz_put 0 (Inr OutcomeInactive) 5 bz_over =
     (bz_calm (Posting [(WebhookSink ''db'', bz_db_resolved), (WebhookSink ''db'', bz_api_firing)]),
      [(0, EmResolved bz_db_resolved), (0, EmFiring bz_api_firing)], [])"
  by code_simp

abbreviation bz_let_out :: "(nat \<times> emission) list" where
  "bz_let_out \<equiv> [(0, EmFiring bz_db_firing), (0, EmResolved bz_db_resolved), (0, EmFiring bz_api_firing)]"

lemma bz_full_run:
  "server_run bz_put (bz_storm @ bz_off 0 5 @ bz_posts 0 1) bz_fresh =
     (bz_calm (Posting [(WebhookSink ''db'', bz_api_firing)]), bz_let_out,
      [(0, WebhookSink ''db'', bz_db_firing), (0, WebhookSink ''db'', bz_db_resolved)])"
  by code_simp

section \<open>Witnesses\<close>

theorem beacon_alerts_paired_and_posted_witness:
  "well_paired None (about_rule ''api'' (map snd bz_let_out)) \<and>
   [(WebhookSink ''db'', bz_db_firing), (WebhookSink ''db'', bz_db_resolved)] @ [(WebhookSink ''db'', bz_api_firing)] =
     posts_for [WebhookSink ''db''] (of_task 0 bz_let_out)"
  using beacon_alerts_paired_and_posted [OF bz_loaded(1) bz_startup bz_load_all_def bz_full_run, of "''api''"]
  by (auto simp: bz_server_def bz_task_def of_task_def)

theorem beacon_no_page_while_inhibited_witness:
  "firing_inhibitor (sv_tasks bz_stormy) ''api'' \<and>
   \<not> firing_inhibitor (sv_tasks (bz_calm (Posting [(WebhookSink ''db'', bz_db_resolved), (WebhookSink ''db'', bz_api_firing)]))) ''api''"
proof
  show "firing_inhibitor (sv_tasks bz_stormy) ''api''"
    by code_simp
  have "(0, EmFiring bz_api_firing) \<in> set [(0, EmResolved bz_db_resolved), (0, EmFiring bz_api_firing)]"
    by simp
  from beacon_no_page_while_inhibited [OF bz_loaded(1) bz_startup bz_load_all_def bz_over_run bz_release this]
  show "\<not> firing_inhibitor (sv_tasks (bz_calm (Posting [(WebhookSink ''db'', bz_db_resolved), (WebhookSink ''db'', bz_api_firing)]))) ''api''"
    by (simp add: bz_rule_def)
qed

theorem beacon_uninhibited_alert_let_out_witness:
  "open_after None (about_rule ''api'' (map snd bz_let_out)) = Some 4"
proof -
  let ?sv = "bz_calm (Posting [(WebhookSink ''db'', bz_api_firing)])"
  have "bz_task ''api'' [] (RsFiring 4) Ticking \<in> set (sv_tasks ?sv)"
    by (simp add: bz_server_def)
  moreover have "\<not> firing_inhibitor (sv_tasks ?sv) ''api''"
    by code_simp
  ultimately show ?thesis
    using beacon_uninhibited_alert_let_out [OF bz_loaded(1) bz_startup bz_load_all_def bz_full_run,
        of "bz_task ''api'' [] (RsFiring 4) Ticking" 4]
    by (simp add: bz_task_def bz_rule_def)
qed

theorem beacon_loaded_rules_run_witness:
  "map tk_rule (spawn_generation (build_sinks None (\<lambda>_. None)) [bz_rule ''db'' [''api''], bz_rule ''api'' []] []) =
     [bz_rule ''db'' [''api''], bz_rule ''api'' []]"
  using beacon_loaded_rules_run [OF bz_loaded(1), of "\<lambda>_. None" "[]"] by (simp add: bz_outcome_def bz_rule_def)

text \<open>The file-backed store: \<open>disk\<close> becomes pending at 7, the process ends, the next one finds it so.\<close>

definition bd_rule :: rule where
  "bd_rule = \<lparr>r_name = ''disk'', r_query = ''disk'', r_for_duration = 60, r_interval = 60, r_severity = Critical,
     r_labels = [], r_sinks = [], r_inhibits = []\<rparr>"

definition bd_from_str :: "string \<Rightarrow> string + int file_shape" where
  "bd_from_str body = Inr \<lparr>fs_rules = [\<lparr>rr_name = body, rr_query = body, rr_for_duration = ''1m'', rr_interval = ''1m'',
     rr_severity = Critical, rr_labels = [], rr_sinks = [], rr_inhibits = []\<rparr>], fs_slo = []\<rparr>"

lemma bd_loaded:
  "load_rules sample_float_ops (\<lambda>_. Inr 60) bd_from_str [''rules''] (Inr (bz_nodes ''disk'')) = Inr (bz_outcome [bd_rule])"
  by code_simp

definition bd_server :: "rule_state \<Rightarrow> task_stage \<Rightarrow> state_file \<Rightarrow> state_file server" where
  "bd_server st stage store =
     \<lparr>sv_tasks = [\<lparr>tk_rule = bd_rule, tk_sinks = [], tk_state = st, tk_stage = stage\<rparr>],
      sv_resolver = \<lparr>rv_inhibits = [(''disk'', [])], rv_firing = [(''disk'', False)], rv_pending = []\<rparr>,
      sv_live_names = [''disk''], sv_store = store\<rparr>"

abbreviation bd_stored :: state_file where
  "bd_stored \<equiv> bx_store (''pu'' @ [newline]) [(''disk'', RsPending 7)]"

lemma bd_startup:
  "state_file_open bx_from_str bx_from_reader \<lparr>sd_snapshot = Absent, sd_wal = Absent, sd_append_error = None\<rparr> = (Inr (bx_store [] []), [])"
  "startup bz_build state_file_load_all None None (Inr (bz_outcome [bd_rule])) (Inr (bx_store [] [])) =
     Inr (bd_server RsInactive Ticking (bx_store [] []))"
  by (simp add: state_file_open_def pillar_open_def bx_store_def open_writer_def snap_fs_of_def) code_simp

lemma bd_tick:
  "server_step (state_file_put bx_to_string bx_io) 0 (Inr OutcomeActive) 7 (bd_server RsInactive Ticking (bx_store [] [])) =
     (bd_server (RsPending 7) (Observing None) bd_stored, [], [])"
  "step_put (state_file_put bx_to_string bx_io) 0 (Inr OutcomeActive) 7 (bd_server RsInactive Ticking (bx_store [] [])) =
     Some (''disk'', RsPending 7, Inr ())"
  by code_simp+

theorem beacon_restart_resumes_witness:
  "\<exists>store' sv'. state_file_open bx_from_str bx_from_reader (disk_of (sf_dir bd_stored) (sf_wal bd_stored)) = (Inr store', []) \<and>
    startup bz_build state_file_load_all None None (Inr (bz_outcome [bd_rule])) (Inr store') = Inr sv' \<and>
    sv_tasks sv' = [\<lparr>tk_rule = bd_rule, tk_sinks = [], tk_state = RsPending 7, tk_stage = Ticking\<rparr>]"
proof -
  have p: "step_persisted (state_file_put bx_to_string bx_io) (\<lambda>n st. serde_ok bx_to_string bx_from_str (BeaconPut n st)) 0
      (Inr OutcomeActive) 7 (bd_server RsInactive Ticking (bx_store [] []))"
    by (simp only: step_persisted_def bd_tick(2) option.case prod.case bx_serde(1) [unfolded bx_put_def] simp_thms)
  have "server_history bx_to_string bx_from_str bx_from_reader bz_build (bz_outcome [bd_rule])
      (bd_server (RsPending 7) (Observing None) bd_stored)"
    by (rule stepped [OF first_started [OF bd_startup] bd_tick(1) p])
  from beacon_restart_resumes [OF bd_loaded this] show ?thesis
    by (simp add: bd_server_def)
qed

section \<open>Where delivery falls short\<close>

text \<open>
  A Firing that was held back and is released when its inhibitor resolves is posted by the
  inhibitor's task to the inhibitor's sinks: the sink configured for the released rule never
  receives it.
\<close>

theorem beacon_released_firing_to_wrong_sinks:
  "case server_run bz_put (bz_storm @ bz_off 0 5 @ bz_posts 0 2) bz_fresh of
     (sv, ems, sent) \<Rightarrow>
       (0, EmFiring bz_api_firing) \<in> set ems \<and> (0, WebhookSink ''db'', bz_api_firing) \<in> set sent \<and>
       map tk_sinks (filter (\<lambda>t. task_name t = ''api'') (sv_tasks sv)) = [[WebhookSink ''api'']] \<and>
       list_all (\<lambda>(_, sink, _). sink \<noteq> WebhookSink ''api'') sent"
  by code_simp

text \<open>
  The resolver is released before the sinks are called. While the task of \<open>db\<close> is at its first post, \<open>api\<close>
  recovers and its own task posts the Resolved; the Firing of \<open>api\<close> that was released to the task of \<open>db\<close> follows: the last the operator hears
  of \<open>api\<close> is that it fires, and it does not.
\<close>

theorem beacon_posts_overtake:
  "case server_run bz_put (bz_storm @ bz_off 0 5 @ bz_off 1 6 @ bz_posts 1 1 @ bz_posts 0 2) bz_fresh of
     (sv, ems, sent) \<Rightarrow>
       map snd ems = map snd bz_let_out @ [EmResolved bz_api_resolved] \<and> task_states (sv_tasks sv) ''api'' = Some RsInactive \<and>
       filter (\<lambda>i. i_name i = ''api'') (map (snd \<circ> snd) sent) = [bz_api_resolved, bz_api_firing]"
  by code_simp

text \<open>
  The state is made durable before the incident is posted. A process that ends in between has stored that the rule
  fires and told nobody; started again, it says nothing while the rule goes on firing, and then posts a Resolved
  without a Firing.
\<close>

theorem beacon_restart_loses_unposted_firing:
  "case server_run bz_put (bz_on 0 1 @ bz_on 0 2) bz_fresh of
     (sv, ems, sent) \<Rightarrow> sent = [] \<and> sv_store sv = [(''db'', RsFiring 2)] \<and>
       (case startup bz_build bz_load_all None None (bz_load ''a'') (Inr (sv_store sv)) of
          Inr sv' \<Rightarrow> snd (server_run bz_put (bz_on 0 3 @ bz_off 0 5 @ bz_posts 0 1) sv') =
            ([(0, EmResolved bz_db_resolved)], [(0, WebhookSink ''db'', bz_db_resolved)])
        | Inl _ \<Rightarrow> False)"
  unfolding bz_loaded by code_simp

text \<open>The loader accepts an interval of zero, and the rule's task ends in a panic of the timer.\<close>

theorem beacon_zero_interval_disabled:
  "case load_rules sample_float_ops (\<lambda>_. Inr 0) bz_from_str [''rules''] (Inr (bz_nodes ''a'')) of
     Inr outcome \<Rightarrow> map r_name (lo_rules outcome) = [''db'', ''api''] \<and> lo_diagnostics outcome = [] \<and>
       spawn_generation bz_build (lo_rules outcome) [] = []
   | Inl _ \<Rightarrow> False"
  by code_simp

text \<open>
  The resolver is not part of the durable state: started again in the middle of the storm, the
  server takes every inhibitor for inactive. The alert that was held back is never announced, and
  when it ends the operator receives a Resolved without a Firing.
\<close>

theorem beacon_restart_loses_suppressed_firing:
  "case startup bz_build bz_load_all None None (bz_load ''a'') (Inr (sv_store bz_stormy)) of
     Inr sv \<Rightarrow>
       sv_tasks sv = sv_tasks bz_stormy \<and> firing_inhibitor (sv_tasks sv) ''api'' \<and> pending_count (sv_resolver sv) = 0 \<and>
       (case server_run bz_put (bz_off 0 5 @ bz_posts 0 1 @ bz_off 1 6) sv of
          (_, ems, _) \<Rightarrow> about_rule ''api'' ([EmFiring bz_db_firing] @ map snd ems) = [EmResolved bz_api_resolved])
   | Inl _ \<Rightarrow> False"
  unfolding bz_loaded by code_simp

text \<open>
  A reload in the middle of the storm can strand the alert that is held back: when the new
  catalogue no longer contains the inhibition, the held Firing is dropped although its rule goes on
  firing; when the firing inhibitor is removed but another, quiet rule inhibits the same rule, it
  stays held with no inhibitor firing.
\<close>

theorem beacon_reload_strands_alert:
  "(case reload bz_build bz_load_all [''rules''] (bz_load ''b'') bz_stormy of
      (ev, sv) \<Rightarrow> ev = ReloadSucceeded 2 0 0 0 \<and> task_states (sv_tasks sv) ''api'' = Some (RsFiring 4) \<and>
        \<not> firing_inhibitor (sv_tasks sv) ''api'' \<and> pending_count (sv_resolver sv) = 0 \<and>
        map snd (fst (snd (server_run bz_put (bz_on 1 5 @ bz_off 1 6) sv))) = [EmResolved bz_api_resolved]) \<and>
   (case reload bz_build bz_load_all [''rules''] (bz_load ''c'') bz_stormy of
      (ev, sv) \<Rightarrow> ev = ReloadSucceeded 2 1 1 0 \<and> task_states (sv_tasks sv) ''api'' = Some (RsFiring 4) \<and>
        \<not> firing_inhibitor (sv_tasks sv) ''api'' \<and> rv_pending (sv_resolver sv) = [(''api'', bz_api_firing)] \<and>
        fst (snd (server_run bz_put (bz_on 1 5 @ bz_off 0 5 @ bz_off 1 6) sv)) = [])"
  unfolding bz_loaded by code_simp

end
