(* ===== verification/Pulse_Store.thy ===== *)
theory Pulse_Store
  imports Wal_Pillar
begin

text \<open>
  Pulse, the metric store (\<open>crates/pulse/src\<close>): metrics and points, the query predicate, the
  \<open>MetricStore\<close> port with its in-memory and its file-backed adapter, and the limit on the number of
  series of a tenant. The limit is an argument of the definitions; the program's value is
  \<open>max_series_per_tenant\<close>. An \<open>f64\<close> is its 64 bits: the store never computes with values.
\<close>

section \<open>Metrics (\<open>metric.rs\<close>)\<close>

type_synonym metric_name = string

datatype metric_kind = Gauge | SumKind

record metric_point =
  mp_time_unix_nano :: u64
  mp_start_time_unix_nano :: u64
  mp_attributes :: "(string, string) btree_map"
  mp_value :: u64

record metric =
  mt_name :: metric_name
  mt_description :: string
  mt_unit :: string
  mt_kind :: metric_kind
  mt_points :: "metric_point list"
  mt_resource_attributes :: "(string, string) btree_map"

type_synonym series_key = "metric_name \<times> (string, string) btree_map"

definition series_key_of :: "metric \<Rightarrow> series_key" where
  "series_key_of metric = (mt_name metric, mt_resource_attributes metric)"

record metric_range =
  mr_start_unix_nano :: u64
  mr_end_unix_nano :: u64

definition metric_range_contains :: "metric_range \<Rightarrow> u64 \<Rightarrow> bool" where
  "metric_range_contains rng t = (t \<ge> mr_start_unix_nano rng \<and> t < mr_end_unix_nano rng)"

definition metric_range_all :: metric_range where
  "metric_range_all = \<lparr>mr_start_unix_nano = 0, mr_end_unix_nano = - 1\<rparr>"

definition total_points :: "metric list \<Rightarrow> nat" where
  "total_points metrics = sum_list (map (\<lambda>m. length (mt_points m)) metrics)"

section \<open>Predicates (\<open>predicate.rs\<close>)\<close>

record pulse_predicate =
  pp_service :: "string option"
  pp_label_eq :: "(string, string) btree_map"

definition pulse_predicate_new :: pulse_predicate where
  "pulse_predicate_new = \<lparr>pp_service = None, pp_label_eq = []\<rparr>"

definition pulse_predicate_service :: "string \<Rightarrow> pulse_predicate \<Rightarrow> pulse_predicate" where
  "pulse_predicate_service name pred = pred\<lparr>pp_service := Some name\<rparr>"

definition pulse_predicate_label_eq :: "string \<Rightarrow> string \<Rightarrow> pulse_predicate \<Rightarrow> pulse_predicate" where
  "pulse_predicate_label_eq key v pred = pred\<lparr>pp_label_eq := bt_insert key v (pp_label_eq pred)\<rparr>"

definition pulse_matches :: "pulse_predicate \<Rightarrow> metric \<Rightarrow> metric_point \<Rightarrow> bool" where
  "pulse_matches pred metric point =
     ((case pp_service pred of
         None \<Rightarrow> True
       | Some target \<Rightarrow>
           (case map_of (mt_resource_attributes metric) ''service.name'' of
              Some name \<Rightarrow> name = target | None \<Rightarrow> False)) \<and>
      list_all (\<lambda>(key, v). case map_of (mp_attributes point) key of
                             Some actual \<Rightarrow> actual = v | None \<Rightarrow> False) (pp_label_eq pred))"

definition pulse_predicate_is_empty :: "pulse_predicate \<Rightarrow> bool" where
  "pulse_predicate_is_empty pred = (pp_service pred = None \<and> pp_label_eq pred = [])"

section \<open>The series index\<close>

record series_entry =
  se_metric :: metric
  se_points :: "metric_point list"

type_synonym series_map = "(tenant_id \<times> series_key, series_entry) hash_map"

record pulse_index =
  px_series :: series_map
  px_tenant_counts :: "(tenant_id, nat) hash_map"

definition max_series_per_tenant :: nat where
  "max_series_per_tenant = 10000"

record metric_receipt =
  rc_count :: nat
  rc_series_refused :: nat

datatype metric_store_error = PulsePersistenceFailed string

datatype pulse_event = PulseIngest tenant_id nat | PulseQuery tenant_id nat | PulseSeriesRefused tenant_id nat

definition pulse_bump :: "tenant_id \<Rightarrow> (tenant_id, nat) hash_map \<Rightarrow> (tenant_id, nat) hash_map" where
  "pulse_bump tenant counts = hm_insert tenant (hm_get_or 0 counts tenant + 1) counts"

text \<open>
  \<open>entry(key).or_insert_with(..)\<close>, the refresh of description, unit and kind, and the extension of the
  points.
\<close>

definition pulse_merge :: "metric \<Rightarrow> series_entry option \<Rightarrow> series_entry" where
  "pulse_merge metric e =
     (let entry = (case e of None \<Rightarrow> \<lparr>se_metric = metric\<lparr>mt_points := []\<rparr>, se_points = []\<rparr> | Some entry \<Rightarrow> entry) in
      \<lparr>se_metric = (se_metric entry)\<lparr>mt_description := mt_description metric, mt_unit := mt_unit metric,
                                    mt_kind := mt_kind metric\<rparr>,
       se_points = se_points entry @ mt_points metric\<rparr>)"

definition sort_entry :: "series_entry \<Rightarrow> series_entry" where
  "sort_entry e = e\<lparr>se_points := sort_key mp_time_unix_nano (se_points e)\<rparr>"

section \<open>The in-memory adapter (\<open>store.rs\<close>)\<close>

record pulse_mem =
  pm_index :: pulse_index
  pm_events :: "pulse_event list"

definition pulse_mem_new :: pulse_mem where
  "pulse_mem_new = \<lparr>pm_index = \<lparr>px_series = [], px_tenant_counts = []\<rparr>, pm_events = []\<rparr>"

fun pulse_mem_apply ::
  "nat \<Rightarrow> tenant_id \<Rightarrow> metric list \<Rightarrow> pulse_index \<Rightarrow> pulse_index \<times> nat \<times> nat" where
  "pulse_mem_apply cap tenant [] ix = (ix, 0, 0)"
| "pulse_mem_apply cap tenant (metric # rest) ix =
     (let key = (tenant, series_key_of metric);
          is_existing = hm_contains (px_series ix) key in
      if \<not> is_existing \<and> hm_get_or 0 (px_tenant_counts ix) tenant \<ge> cap then
        (case pulse_mem_apply cap tenant rest ix of (ix', n, refused) \<Rightarrow> (ix', n, refused + 1))
      else
        let counts = (if is_existing then px_tenant_counts ix else pulse_bump tenant (px_tenant_counts ix));
            entry = sort_entry (pulse_merge metric (hm_get (px_series ix) key))
        in case pulse_mem_apply cap tenant rest
                  (ix\<lparr>px_series := hm_insert key entry (px_series ix), px_tenant_counts := counts\<rparr>) of
             (ix', n, refused) \<Rightarrow> (ix', length (mt_points metric) + n, refused))"

definition pulse_ingest_events :: "tenant_id \<Rightarrow> nat \<Rightarrow> nat \<Rightarrow> pulse_event list" where
  "pulse_ingest_events tenant n refused =
     PulseIngest tenant n # (if refused > 0 then [PulseSeriesRefused tenant refused] else [])"

definition pulse_mem_ingest ::
  "nat \<Rightarrow> tenant_id \<Rightarrow> metric list \<Rightarrow> pulse_mem \<Rightarrow> (metric_store_error + metric_receipt) \<times> pulse_mem" where
  "pulse_mem_ingest cap tenant metrics s =
     (case pulse_mem_apply cap tenant metrics (pm_index s) of
        (ix, n, refused) \<Rightarrow>
          (Inr \<lparr>rc_count = n, rc_series_refused = refused\<rparr>,
           s\<lparr>pm_index := ix, pm_events := pm_events s @ pulse_ingest_events tenant n refused\<rparr>))"

text \<open>The fan-out over the series of one name, with a condition on the rows.\<close>

definition pulse_rows ::
  "tenant_id \<Rightarrow> metric_name \<Rightarrow> (metric \<Rightarrow> metric_point \<Rightarrow> bool) \<Rightarrow> series_map \<Rightarrow> (metric \<times> metric_point) list" where
  "pulse_rows tenant name cond series =
     concat (map (\<lambda>(_, entry). map (\<lambda>p. (se_metric entry, p)) (filter (cond (se_metric entry)) (se_points entry)))
       (filter (\<lambda>((entry_tenant, key), _). entry_tenant = tenant \<and> fst key = name) series))"

definition pulse_mem_query ::
  "tenant_id \<Rightarrow> metric_name \<Rightarrow> metric_range \<Rightarrow> pulse_mem \<Rightarrow>
   (metric_store_error + (metric \<times> metric_point) list) \<times> pulse_mem" where
  "pulse_mem_query tenant name rng s =
     (let matches = pulse_rows tenant name (\<lambda>_ p. metric_range_contains rng (mp_time_unix_nano p)) (px_series (pm_index s)) in
      (Inr matches, s\<lparr>pm_events := pm_events s @ [PulseQuery tenant (length matches)]\<rparr>))"

definition pulse_mem_query_with ::
  "tenant_id \<Rightarrow> metric_name \<Rightarrow> metric_range \<Rightarrow> pulse_predicate \<Rightarrow> pulse_mem \<Rightarrow>
   (metric_store_error + (metric \<times> metric_point) list) \<times> pulse_mem" where
  "pulse_mem_query_with tenant name rng pred s =
     (let matches = pulse_rows tenant name
            (\<lambda>m p. metric_range_contains rng (mp_time_unix_nano p) \<and> pulse_matches pred m p) (px_series (pm_index s)) in
      (Inr matches, s\<lparr>pm_events := pm_events s @ [PulseQuery tenant (length matches)]\<rparr>))"

section \<open>The file-backed adapter (\<open>file_backed.rs\<close>)\<close>

datatype pulse_wal_record = PulseWalIngest tenant_id "metric list"

record series_bucket =
  sb_tenant :: tenant_id
  sb_metric :: metric
  sb_points :: "metric_point list"

type_synonym pulse_snapshot_doc = "series_bucket list"

record pulse_file =
  pf_index :: pulse_index
  pf_wal :: wal_writer
  pf_dir :: snap_fs
  pf_events :: "pulse_event list"

definition pulse_io :: "string \<Rightarrow> metric_store_error" where
  "pulse_io e = PulsePersistenceFailed (''io: '' @ e)"

definition pulse_parse :: "string \<Rightarrow> metric_store_error" where
  "pulse_parse e = PulsePersistenceFailed (''parse: '' @ e)"

definition pulse_append_wal ::
  "(pulse_wal_record \<Rightarrow> string + string) \<Rightarrow> append_io \<Rightarrow> pulse_wal_record \<Rightarrow> wal_writer \<Rightarrow>
   (metric_store_error + unit) \<times> wal_writer" where
  "pulse_append_wal to_string = append_wal to_string pulse_parse pulse_io"

fun apply_ingest ::
  "nat \<Rightarrow> tenant_id \<Rightarrow> metric list \<Rightarrow> bool \<Rightarrow> pulse_index \<Rightarrow> pulse_index \<times> nat \<times> nat" where
  "apply_ingest cap tenant [] enforce_cap ix = (ix, 0, 0)"
| "apply_ingest cap tenant (metric # rest) enforce_cap ix =
     (let key = (tenant, series_key_of metric);
          is_existing = hm_contains (px_series ix) key in
      if \<not> is_existing \<and> enforce_cap \<and> hm_get_or 0 (px_tenant_counts ix) tenant \<ge> cap then
        (case apply_ingest cap tenant rest enforce_cap ix of (ix', n, refused) \<Rightarrow> (ix', n, refused + 1))
      else
        let counts = (if is_existing then px_tenant_counts ix else pulse_bump tenant (px_tenant_counts ix));
            entry = pulse_merge metric (hm_get (px_series ix) key)
        in case apply_ingest cap tenant rest enforce_cap
                  (ix\<lparr>px_series := hm_insert key entry (px_series ix), px_tenant_counts := counts\<rparr>) of
             (ix', n, refused) \<Rightarrow> (ix', length (mt_points metric) + n, refused))"

definition pulse_resort :: "series_map \<Rightarrow> series_map" where
  "pulse_resort series = map (\<lambda>(key, entry). (key, sort_entry entry)) series"

definition pulse_load_bucket :: "series_bucket \<Rightarrow> pulse_index \<Rightarrow> pulse_index" where
  "pulse_load_bucket b ix =
     (let key = (sb_tenant b, series_key_of (sb_metric b)) in
      \<lparr>px_series = hm_insert key \<lparr>se_metric = sb_metric b, se_points = sb_points b\<rparr> (px_series ix),
       px_tenant_counts = (if hm_contains (px_series ix) key then px_tenant_counts ix
                           else pulse_bump (sb_tenant b) (px_tenant_counts ix))\<rparr>)"

definition pulse_load_snapshot :: "pulse_snapshot_doc \<Rightarrow> pulse_index" where
  "pulse_load_snapshot snap = fold pulse_load_bucket snap \<lparr>px_series = [], px_tenant_counts = []\<rparr>"

definition pulse_rebuild_counts :: "series_map \<Rightarrow> (tenant_id, nat) hash_map" where
  "pulse_rebuild_counts series = fold (\<lambda>((tenant, _), _). pulse_bump tenant) series []"

definition pulse_finish :: "pulse_index \<Rightarrow> pulse_index" where
  "pulse_finish ix =
     (let series = pulse_resort (px_series ix) in
      \<lparr>px_series = series, px_tenant_counts = pulse_rebuild_counts series\<rparr>)"

fun pulse_replay_record :: "nat \<Rightarrow> pulse_wal_record \<Rightarrow> pulse_index \<Rightarrow> pulse_index" where
  "pulse_replay_record cap (PulseWalIngest tenant metrics) ix = fst (apply_ingest cap tenant metrics False ix)"

definition pulse_open_with_fsync_backend ::
  "nat \<Rightarrow> (string \<Rightarrow> string + pulse_wal_record) \<Rightarrow> (string \<Rightarrow> string + pulse_snapshot_doc) \<Rightarrow> store_disk \<Rightarrow>
   (metric_store_error + pulse_file) \<times> wal_warning list" where
  "pulse_open_with_fsync_backend cap from_str from_reader disk =
     (case pillar_open pulse_io pulse_parse from_reader (\<lambda>snap. Inr (pulse_load_snapshot snap))
             \<lparr>px_series = [], px_tenant_counts = []\<rparr>
             (replay_wal_tolerating_torn_tail from_str ''pulse'' (total_apply (pulse_replay_record cap))
                (\<lambda>line err. PulsePersistenceFailed (wal_parse_reason line err)))
             pulse_finish disk of
        (Inl e, ws) \<Rightarrow> (Inl e, ws)
      | (Inr (ix, wal, dir), ws) \<Rightarrow> (Inr \<lparr>pf_index = ix, pf_wal = wal, pf_dir = dir, pf_events = []\<rparr>, ws))"

definition pulse_dump :: "pulse_index \<Rightarrow> pulse_snapshot_doc" where
  "pulse_dump ix =
     map (\<lambda>((tenant, _), entry). \<lparr>sb_tenant = tenant, sb_metric = se_metric entry, sb_points = se_points entry\<rparr>)
       (px_series ix)"

text \<open>After the truncation of the log the directory is synced once more; \<open>dir_sync\<close> is its error.\<close>

definition pulse_snapshot ::
  "(pulse_snapshot_doc \<Rightarrow> (string \<times> string) + string) \<Rightarrow> snapshot_io \<Rightarrow> string option \<Rightarrow> fsync_fn \<Rightarrow> pulse_file \<Rightarrow>
   (metric_store_error + unit) \<times> pulse_file" where
  "pulse_snapshot to_writer env dir_sync fsync_file s =
     (case pillar_snapshot env fsync_file (to_writer (pulse_dump (pf_index s))) (pf_dir s) (pf_wal s) of
        (res, trace) \<Rightarrow>
          (case map_sum pulse_io id res of
             Inl e \<Rightarrow> Inl e
           | Inr _ \<Rightarrow> (case dir_sync of None \<Rightarrow> Inr () | Some e \<Rightarrow> Inl (pulse_io e)),
           s\<lparr>pf_dir := fst (last trace), pf_wal := snd (last trace)\<rparr>))"

definition pulse_ingest ::
  "nat \<Rightarrow> (pulse_wal_record \<Rightarrow> string + string) \<Rightarrow> append_io \<Rightarrow> tenant_id \<Rightarrow> metric list \<Rightarrow> pulse_file \<Rightarrow>
   (metric_store_error + metric_receipt) \<times> pulse_file" where
  "pulse_ingest cap to_string env tenant metrics s =
     (if metrics = [] then
        (Inr \<lparr>rc_count = 0, rc_series_refused = 0\<rparr>, s\<lparr>pf_events := pf_events s @ [PulseIngest tenant 0]\<rparr>)
      else
        case pulse_append_wal to_string env (PulseWalIngest tenant metrics) (pf_wal s) of
          (Inl e, w) \<Rightarrow> (Inl e, s\<lparr>pf_wal := w\<rparr>)
        | (Inr _, w) \<Rightarrow>
            (case apply_ingest cap tenant metrics True (pf_index s) of
               (ix, n, refused) \<Rightarrow>
                 (Inr \<lparr>rc_count = n, rc_series_refused = refused\<rparr>,
                  s\<lparr>pf_wal := w, pf_index := ix\<lparr>px_series := pulse_resort (px_series ix)\<rparr>,
                    pf_events := pf_events s @ pulse_ingest_events tenant n refused\<rparr>)))"

definition pulse_query ::
  "tenant_id \<Rightarrow> metric_name \<Rightarrow> metric_range \<Rightarrow> pulse_file \<Rightarrow>
   (metric_store_error + (metric \<times> metric_point) list) \<times> pulse_file" where
  "pulse_query tenant name rng s =
     (let matches = pulse_rows tenant name (\<lambda>_ p. metric_range_contains rng (mp_time_unix_nano p)) (px_series (pf_index s)) in
      (Inr matches, s\<lparr>pf_events := pf_events s @ [PulseQuery tenant (length matches)]\<rparr>))"

definition pulse_query_with ::
  "tenant_id \<Rightarrow> metric_name \<Rightarrow> metric_range \<Rightarrow> pulse_predicate \<Rightarrow> pulse_file \<Rightarrow>
   (metric_store_error + (metric \<times> metric_point) list) \<times> pulse_file" where
  "pulse_query_with tenant name rng pred s =
     (let matches = pulse_rows tenant name
            (\<lambda>m p. metric_range_contains rng (mp_time_unix_nano p) \<and> pulse_matches pred m p) (px_series (pf_index s)) in
      (Inr matches, s\<lparr>pf_events := pf_events s @ [PulseQuery tenant (length matches)]\<rparr>))"

end
