(* ===== verification/Pulse_Theorems.thy ===== *)
theory Pulse_Theorems
  imports Pulse_Store
begin

text \<open>
  The \<open>MetricStore\<close> port as a locale over a reference ingest on maps, both adapters as
  interpretations, the limit on series, durability of the file-backed adapter, and what replaying
  without the limit does to series that were refused.
\<close>

section \<open>The reference\<close>

type_synonym series_contents = "tenant_id \<times> series_key \<Rightarrow> series_entry option"

definition tenant_series :: "series_contents \<Rightarrow> tenant_id \<Rightarrow> series_key set" where
  "tenant_series A t = {k. A (t, k) \<noteq> None}"

text \<open>\<open>limit\<close> is \<open>None\<close> when no limit is enforced.\<close>

fun ingest_spec ::
  "nat option \<Rightarrow> tenant_id \<Rightarrow> metric list \<Rightarrow> series_contents \<Rightarrow> series_contents \<times> nat \<times> nat" where
  "ingest_spec limit t [] A = (A, 0, 0)"
| "ingest_spec limit t (m # ms) A =
     (let key = (t, series_key_of m) in
      if A key = None \<and> (case limit of None \<Rightarrow> False | Some cap \<Rightarrow> cap \<le> card (tenant_series A t)) then
        (case ingest_spec limit t ms A of (A', n, refused) \<Rightarrow> (A', n, refused + 1))
      else
        (case ingest_spec limit t ms (A(key \<mapsto> sort_entry (pulse_merge m (A key)))) of
           (A', n, refused) \<Rightarrow> (A', length (mt_points m) + n, refused)))"

definition contents_of :: "series_map \<Rightarrow> series_contents" where
  "contents_of series k = map_option sort_entry (hm_get series k)"

definition pulse_ok :: "pulse_index \<Rightarrow> bool" where
  "pulse_ok ix =
     (hm_wf (px_series ix) \<and>
      (\<forall>t. hm_get_or 0 (px_tenant_counts ix) t = card (tenant_series (hm_get (px_series ix)) t)) \<and>
      (\<forall>key e. hm_get (px_series ix) key = Some e \<longrightarrow> series_key_of (se_metric e) = snd key))"

lemma sort_entry_idem [simp]: "sort_entry (sort_entry e) = sort_entry e"
  using sort_key_append_sorted_left [of mp_time_unix_nano "se_points e" "[]"] by (simp add: sort_entry_def)

lemma sort_merge [simp]:
  "sort_entry (pulse_merge m (map_option sort_entry e)) = sort_entry (pulse_merge m e)"
  by (cases e) (simp_all add: sort_entry_def pulse_merge_def Let_def sort_key_append_sorted_left)

lemma series_key_merge:
  "(case e of None \<Rightarrow> True | Some x \<Rightarrow> series_key_of (se_metric x) = series_key_of m) \<Longrightarrow>
   series_key_of (se_metric (pulse_merge m e)) = series_key_of m"
  by (cases e) (simp_all add: pulse_merge_def series_key_of_def Let_def)

lemma series_key_sort [simp]: "se_metric (sort_entry e) = se_metric e"
  by (simp add: sort_entry_def)

lemma tenant_series_contents [simp]: "tenant_series (contents_of series) = tenant_series (hm_get series)"
  by (simp add: tenant_series_def contents_of_def fun_eq_iff)

lemma contents_of_insert [simp]: "contents_of (hm_insert k e series) = (contents_of series)(k \<mapsto> sort_entry e)"
  by (auto simp: contents_of_def fun_eq_iff)

lemma contents_of_merge:
  "contents_of (hm_insert k (pulse_merge m (hm_get series k)) series) =
     (contents_of series)(k \<mapsto> sort_entry (pulse_merge m (contents_of series k)))"
  unfolding contents_of_insert contents_of_def [of series k] sort_merge ..

lemma contents_of_merge_sorted:
  "contents_of (hm_insert k (sort_entry (pulse_merge m (hm_get series k))) series) =
     (contents_of series)(k \<mapsto> sort_entry (pulse_merge m (contents_of series k)))"
  unfolding contents_of_insert contents_of_def [of series k] sort_merge sort_entry_idem ..

lemma contents_of_None [simp]: "contents_of series k = None \<longleftrightarrow> hm_get series k = None"
  by (simp add: contents_of_def)

lemma finite_tenant_series [simp]: "finite (tenant_series (hm_get series) t)"
proof (rule finite_subset)
  show "tenant_series (hm_get series) t \<subseteq> (\<lambda>x. snd (fst x)) ` set series"
    by (force simp: tenant_series_def dest: map_of_SomeD)
qed simp

lemma tenant_series_upd:
  "tenant_series (A((t, k) \<mapsto> e)) t' = (if t' = t then insert k (tenant_series A t) else tenant_series A t')"
  by (auto simp: tenant_series_def)

section \<open>Both loops refine the reference\<close>

lemma pulse_ok_insert:
  assumes "pulse_ok ix" and "series_key_of (se_metric e) = k"
    and "counts = (if hm_contains (px_series ix) (t, k) then px_tenant_counts ix else pulse_bump t (px_tenant_counts ix))"
  shows "pulse_ok (ix\<lparr>px_series := hm_insert (t, k) e (px_series ix), px_tenant_counts := counts\<rparr>)"
proof -
  have "k \<in> tenant_series (hm_get (px_series ix)) t \<longleftrightarrow> hm_contains (px_series ix) (t, k)"
    by (simp add: tenant_series_def hm_contains_def)
  then have "hm_get_or 0 counts t' = card (tenant_series ((hm_get (px_series ix))((t, k) \<mapsto> e)) t')" for t'
    using assms(1) by (auto simp: assms(3) pulse_ok_def pulse_bump_def tenant_series_upd insert_absorb)
  with assms(1,2) show ?thesis
    by (auto simp: pulse_ok_def)
qed

lemma pulse_ok_key:
  assumes "pulse_ok ix"
  shows "series_key_of (se_metric (pulse_merge m (hm_get (px_series ix) (t, series_key_of m)))) = series_key_of m"
proof (rule series_key_merge)
  have "series_key_of (se_metric x) = series_key_of m" if "hm_get (px_series ix) (t, series_key_of m) = Some x" for x
    using assms that unfolding pulse_ok_def by (metis snd_conv)
  then show "case hm_get (px_series ix) (t, series_key_of m) of None \<Rightarrow> True
      | Some x \<Rightarrow> series_key_of (se_metric x) = series_key_of m"
    by (simp split: option.split)
qed

lemma apply_ingest_refines:
  "pulse_ok ix \<Longrightarrow> apply_ingest cap t ms enforce ix = (ix', n, refused) \<Longrightarrow>
   pulse_ok ix' \<and> ingest_spec (if enforce then Some cap else None) t ms (contents_of (px_series ix)) =
     (contents_of (px_series ix'), n, refused)"
proof (induction ms arbitrary: ix ix' n refused)
  case (Cons m ms)
  let ?k = "(t, series_key_of m)"
  let ?new = "\<not> hm_contains (px_series ix) ?k"
  have cnt: "hm_get_or 0 (px_tenant_counts ix) t = card (tenant_series (hm_get (px_series ix)) t)"
    using Cons.prems(1) by (simp add: pulse_ok_def)
  show ?case
  proof (cases "?new \<and> enforce \<and> cap \<le> hm_get_or 0 (px_tenant_counts ix) t")
    case True
    obtain ix1 n1 r1 where a: "apply_ingest cap t ms enforce ix = (ix1, n1, r1)"
      by (cases "apply_ingest cap t ms enforce ix")
    from Cons.IH [OF Cons.prems(1) a] Cons.prems(2) a True cnt show ?thesis
      by (auto simp: hm_contains_def)
  next
    case False
    let ?ix = "ix\<lparr>px_series := hm_insert ?k (pulse_merge m (hm_get (px_series ix) ?k)) (px_series ix),
      px_tenant_counts := (if hm_contains (px_series ix) ?k then px_tenant_counts ix else pulse_bump t (px_tenant_counts ix))\<rparr>"
    obtain ix1 n1 r1 where a: "apply_ingest cap t ms enforce ?ix = (ix1, n1, r1)"
      by (cases "apply_ingest cap t ms enforce ?ix")
    have "pulse_ok ?ix"
      by (rule pulse_ok_insert [OF Cons.prems(1) pulse_ok_key [OF Cons.prems(1)] refl])
    moreover have c: "contents_of (px_series ?ix) =
        (contents_of (px_series ix))(?k \<mapsto> sort_entry (pulse_merge m (contents_of (px_series ix) ?k)))"
      using contents_of_merge [of ?k m "px_series ix"] by simp
    ultimately have r: "pulse_ok ix1" "ingest_spec (if enforce then Some cap else None) t ms
        ((contents_of (px_series ix))(?k \<mapsto> sort_entry (pulse_merge m (contents_of (px_series ix) ?k)))) =
        (contents_of (px_series ix1), n1, r1)"
      using Cons.IH [OF _ a] unfolding c by blast+
    have p: "ix' = ix1" "n = length (mt_points m) + n1" "refused = r1"
      using Cons.prems(2) a False by (auto simp: Let_def)
    have nospec: "\<not> (contents_of (px_series ix) ?k = None \<and>
        (case if enforce then Some cap else None of None \<Rightarrow> False
         | Some cap \<Rightarrow> cap \<le> card (tenant_series (contents_of (px_series ix)) t)))"
      using False cnt by (auto simp: hm_contains_def)
    show ?thesis
      using r(1) by (simp only: ingest_spec.simps Let_def if_not_P [OF nospec] r(2) p prod.case)
  qed
qed simp

lemma pulse_mem_apply_refines:
  "pulse_ok ix \<Longrightarrow> pulse_mem_apply cap t ms ix = (ix', n, refused) \<Longrightarrow>
   pulse_ok ix' \<and> ingest_spec (Some cap) t ms (contents_of (px_series ix)) = (contents_of (px_series ix'), n, refused)"
proof (induction ms arbitrary: ix ix' n refused)
  case (Cons m ms)
  let ?k = "(t, series_key_of m)"
  let ?new = "\<not> hm_contains (px_series ix) ?k"
  have cnt: "hm_get_or 0 (px_tenant_counts ix) t = card (tenant_series (hm_get (px_series ix)) t)"
    using Cons.prems(1) by (simp add: pulse_ok_def)
  show ?case
  proof (cases "?new \<and> cap \<le> hm_get_or 0 (px_tenant_counts ix) t")
    case True
    obtain ix1 n1 r1 where a: "pulse_mem_apply cap t ms ix = (ix1, n1, r1)"
      by (cases "pulse_mem_apply cap t ms ix")
    from Cons.IH [OF Cons.prems(1) a] Cons.prems(2) a True cnt show ?thesis
      by (auto simp: hm_contains_def)
  next
    case False
    let ?ix = "ix\<lparr>px_series := hm_insert ?k (sort_entry (pulse_merge m (hm_get (px_series ix) ?k))) (px_series ix),
      px_tenant_counts := (if hm_contains (px_series ix) ?k then px_tenant_counts ix else pulse_bump t (px_tenant_counts ix))\<rparr>"
    obtain ix1 n1 r1 where a: "pulse_mem_apply cap t ms ?ix = (ix1, n1, r1)"
      by (cases "pulse_mem_apply cap t ms ?ix")
    have "pulse_ok ?ix"
      using pulse_ok_key [OF Cons.prems(1)] by (intro pulse_ok_insert [OF Cons.prems(1) _ refl]) simp
    moreover have c: "contents_of (px_series ?ix) =
        (contents_of (px_series ix))(?k \<mapsto> sort_entry (pulse_merge m (contents_of (px_series ix) ?k)))"
      using contents_of_merge_sorted [of ?k m "px_series ix"] by simp
    ultimately have r: "pulse_ok ix1" "ingest_spec (Some cap) t ms
        ((contents_of (px_series ix))(?k \<mapsto> sort_entry (pulse_merge m (contents_of (px_series ix) ?k)))) =
        (contents_of (px_series ix1), n1, r1)"
      using Cons.IH [OF _ a] unfolding c by blast+
    have p: "ix' = ix1" "n = length (mt_points m) + n1" "refused = r1"
      using Cons.prems(2) a False by (auto simp: Let_def)
    have nospec: "\<not> (contents_of (px_series ix) ?k = None \<and>
        (case Some cap of None \<Rightarrow> False | Some cap \<Rightarrow> cap \<le> card (tenant_series (contents_of (px_series ix)) t)))"
      using False cnt by (auto simp: hm_contains_def)
    show ?thesis
      using r(1) by (simp only: ingest_spec.simps Let_def if_not_P [OF nospec] r(2) p prod.case)
  qed
qed simp

lemma contents_of_resort [simp]: "contents_of (pulse_resort series) = contents_of series"
  by (rule ext) (simp add: contents_of_def pulse_resort_def hm_get_map_entries option.map_comp comp_def)

lemma pulse_get_resort: "hm_get (pulse_resort series) k = map_option sort_entry (hm_get series k)"
  by (simp add: pulse_resort_def hm_get_map_entries)

lemma pulse_ok_resort: "pulse_ok ix \<Longrightarrow> pulse_ok (ix\<lparr>px_series := pulse_resort (px_series ix)\<rparr>)"
  by (auto simp: pulse_ok_def pulse_get_resort tenant_series_def pulse_resort_def [of "px_series ix"] hm_wf_map_entries
      hm_get_map_entries)

section \<open>The port\<close>

text \<open>
  A store answers for every series apart; the order of series in an answer is the hash map's.
\<close>

definition series_rows ::
  "(metric \<Rightarrow> metric_point \<Rightarrow> bool) \<Rightarrow> series_entry option \<Rightarrow> (metric \<times> metric_point) list" where
  "series_rows cond e =
     (case e of None \<Rightarrow> []
      | Some e \<Rightarrow> map (\<lambda>p. (se_metric e, p)) (filter (cond (se_metric e)) (se_points e)))"

fun metric_run ::
  "('env \<Rightarrow> tenant_id \<Rightarrow> metric list \<Rightarrow> 's \<Rightarrow> (metric_store_error + metric_receipt) \<times> 's) \<Rightarrow>
   ('env \<times> tenant_id \<times> metric list) list \<Rightarrow> 's \<Rightarrow> (metric_store_error + metric_receipt) list \<times> 's" where
  "metric_run ingest [] s = ([], s)"
| "metric_run ingest ((env, t, ms) # ops) s =
     (case ingest env t ms s of (r, s1) \<Rightarrow> (case metric_run ingest ops s1 of (rs, s2) \<Rightarrow> (r # rs, s2)))"

text \<open>The reference for a run whose ingests are all acknowledged.\<close>

fun run_spec ::
  "nat \<Rightarrow> (tenant_id \<times> metric list) list \<Rightarrow> series_contents \<Rightarrow> metric_receipt list \<times> series_contents" where
  "run_spec cap [] A = ([], A)"
| "run_spec cap ((t, ms) # ops) A =
     (case ingest_spec (Some cap) t ms A of (A1, n, refused) \<Rightarrow>
        (case run_spec cap ops A1 of (rs, A2) \<Rightarrow> (\<lparr>rc_count = n, rc_series_refused = refused\<rparr> # rs, A2)))"

definition within_cap :: "nat \<Rightarrow> series_contents \<Rightarrow> bool" where
  "within_cap cap A = (\<forall>t. finite (tenant_series A t) \<and> card (tenant_series A t) \<le> cap)"

lemma ingest_spec_within_cap:
  "within_cap cap A \<Longrightarrow> ingest_spec (Some cap) t ms A = (A', n, refused) \<Longrightarrow> within_cap cap A'"
proof (induction ms arbitrary: A n refused)
  case (Cons m ms)
  let ?k = "series_key_of m"
  let ?A = "A((t, ?k) \<mapsto> sort_entry (pulse_merge m (A (t, ?k))))"
  show ?case
  proof (cases "A (t, ?k) = None \<and> cap \<le> card (tenant_series A t)")
    case True
    then obtain n' r' where "ingest_spec (Some cap) t ms A = (A', n', r')"
      using Cons.prems(2) by (auto simp: Let_def split: prod.splits)
    with Cons.IH Cons.prems(1) show ?thesis
      by blast
  next
    case False
    then have "card (tenant_series ?A t') \<le> cap \<and> finite (tenant_series ?A t')" for t'
      using Cons.prems(1)
      by (auto simp: within_cap_def tenant_series_upd card_insert_if) (auto simp: tenant_series_def)
    then have "within_cap cap ?A"
      by (simp add: within_cap_def)
    moreover obtain n' r' where "ingest_spec (Some cap) t ms ?A = (A', n', r')"
      using Cons.prems(2) False by (auto simp: Let_def split: prod.splits)
    ultimately show ?thesis
      using Cons.IH by blast
  qed
qed simp

locale metric_store =
  fixes ingest :: "'env \<Rightarrow> tenant_id \<Rightarrow> metric list \<Rightarrow> 's \<Rightarrow> (metric_store_error + metric_receipt) \<times> 's"
    and query_with :: "tenant_id \<Rightarrow> metric_name \<Rightarrow> metric_range \<Rightarrow> pulse_predicate \<Rightarrow> 's \<Rightarrow>
      (metric_store_error + (metric \<times> metric_point) list) \<times> 's"
    and contents :: "'s \<Rightarrow> series_contents"
    and ok :: "'s \<Rightarrow> bool"
    and cap :: nat
  assumes ingest_acked: "ok s \<Longrightarrow> ingest env t ms s = (Inr rc, s') \<Longrightarrow>
      ok s' \<and> ingest_spec (Some cap) t ms (contents s) = (contents s', rc_count rc, rc_series_refused rc)"
    and ingest_failed: "ok s \<Longrightarrow> ingest env t ms s = (Inl e, s') \<Longrightarrow> ok s' \<and> contents s' = contents s"
    and query_rows: "ok s \<Longrightarrow> \<exists>rows s'. query_with t name rng pred s = (Inr rows, s') \<and> ok s' \<and> contents s' = contents s \<and>
      (\<forall>attrs. filter (\<lambda>(m, _). mt_resource_attributes m = attrs) rows =
         series_rows (\<lambda>m p. metric_range_contains rng (mp_time_unix_nano p) \<and> pulse_matches pred m p)
           (contents s (t, name, attrs)))"
begin

lemma run_within_cap:
  "ok s \<Longrightarrow> within_cap cap (contents s) \<Longrightarrow> metric_run ingest ops s = (rs, s') \<Longrightarrow> ok s' \<and> within_cap cap (contents s')"
proof (induction ops arbitrary: s rs)
  case (Cons op ops)
  obtain env t ms where op: "op = (env, t, ms)"
    by (cases op)
  obtain r s1 where i: "ingest env t ms s = (r, s1)"
    by fastforce
  then obtain rs' where r: "metric_run ingest ops s1 = (rs', s')"
    using Cons.prems(3) op by (auto split: prod.splits)
  have "ok s1 \<and> within_cap cap (contents s1)"
  proof (cases r)
    case (Inl e)
    with ingest_failed [OF Cons.prems(1)] i Cons.prems(2) show ?thesis
      by simp
  next
    case (Inr rc)
    with ingest_acked [OF Cons.prems(1)] i ingest_spec_within_cap [OF Cons.prems(2)] show ?thesis
      by blast
  qed
  with Cons.IH r show ?case
    by blast
qed simp

lemma run_refines:
  "ok s \<Longrightarrow> metric_run ingest ops s = (map Inr rcs, s') \<Longrightarrow> ok s' \<and> run_spec cap (map snd ops) (contents s) = (rcs, contents s')"
proof (induction ops arbitrary: s rcs)
  case (Cons op ops)
  obtain env t ms where op: "op = (env, t, ms)"
    by (cases op)
  obtain r s1 where i: "ingest env t ms s = (r, s1)"
    by fastforce
  then obtain rs' where rs': "metric_run ingest ops s1 = (rs', s')" "map Inr rcs = r # rs'"
    using Cons.prems(2) op by (auto split: prod.splits)
  then obtain rc rcs' where rc: "rcs = rc # rcs'" "r = Inr rc" "rs' = map Inr rcs'"
    by auto
  from ingest_acked [OF Cons.prems(1) i [unfolded rc(2)]] Cons.IH [of s1 rcs'] rs'(1) show ?case
    by (auto simp: op rc)
qed simp

end

section \<open>The adapters\<close>

definition pulse_sorted :: "series_map \<Rightarrow> bool" where
  "pulse_sorted series = (\<forall>key e. hm_get series key = Some e \<longrightarrow> sort_entry e = e)"

lemma pulse_sorted_contents: "pulse_sorted series \<Longrightarrow> contents_of series = hm_get series"
  by (rule ext) (auto simp: pulse_sorted_def contents_of_def map_option_case split: option.split)

lemma pulse_sorted_resort: "pulse_sorted (pulse_resort series)"
  by (auto simp: pulse_sorted_def pulse_get_resort)

lemma pulse_mem_apply_sorted:
  "pulse_sorted (px_series ix) \<Longrightarrow> pulse_sorted (px_series (fst (pulse_mem_apply cap t ms ix)))"
proof (induction ms arbitrary: ix)
  case (Cons m ms)
  have "pulse_sorted (px_series (ix\<lparr>px_series := hm_insert k (sort_entry e) (px_series ix), px_tenant_counts := c\<rparr>))" for k e c
    using Cons.prems by (auto simp: pulse_sorted_def)
  from Cons.IH [OF this] Cons.IH [OF Cons.prems] show ?case
    unfolding pulse_mem_apply.simps Let_def split_def by (simp only: fst_conv simp_thms split: if_split)
qed simp

lemma pulse_rows_Cons:
  "pulse_rows t name cond (((t', k), e) # series) =
     (if t' = t \<and> fst k = name then map (\<lambda>p. (se_metric e, p)) (filter (cond (se_metric e)) (se_points e)) else []) @
     pulse_rows t name cond series"
  by (simp add: pulse_rows_def)

lemma pulse_rows_series:
  assumes "hm_wf series" and "\<And>key e. (key, e) \<in> set series \<Longrightarrow> series_key_of (se_metric e) = snd key"
  shows "filter (\<lambda>(m, _). mt_resource_attributes m = attrs) (pulse_rows t name cond series) =
    series_rows cond (hm_get series (t, name, attrs))"
  using assms
proof (induction series)
  case Nil
  show ?case
    by (simp add: pulse_rows_def series_rows_def)
next
  case (Cons x series)
  obtain t' k e where x: "x = ((t', k), e)"
    by (cases x) auto
  have wf: "hm_wf series" and new: "hm_get series (t', k) = None"
    using hm_wf_ConsD [OF Cons.prems(1) [unfolded x]] by simp_all
  have attrs: "mt_resource_attributes (se_metric e) = snd k"
    using Cons.prems(2) [of "(t', k)" e] by (auto simp: x series_key_of_def)
  have IH: "filter (\<lambda>(m, _). mt_resource_attributes m = attrs) (pulse_rows t name cond series) =
    series_rows cond (hm_get series (t, name, attrs))"
    using Cons.IH [OF wf] Cons.prems(2) by simp
  show ?case
  proof (cases "t' = t \<and> k = (name, attrs)")
    case True
    with new IH have "filter (\<lambda>(m, _). mt_resource_attributes m = attrs) (pulse_rows t name cond series) = []"
      by (simp add: series_rows_def)
    with True attrs show ?thesis
      by (simp add: x pulse_rows_Cons series_rows_def comp_def)
  next
    case False
    then have "hm_get (((t', k), e) # series) (t, name, attrs) = hm_get series (t, name, attrs)"
      by auto
    with False attrs IH show ?thesis
      by (auto simp: x pulse_rows_Cons comp_def prod_eq_iff)
  qed
qed

lemma pulse_ok_keys: "pulse_ok ix \<Longrightarrow> (key, e) \<in> set (px_series ix) \<Longrightarrow> series_key_of (se_metric e) = snd key"
  unfolding pulse_ok_def by (metis hm_wf_get)

lemma pulse_rows_ok:
  assumes "pulse_ok ix" and "pulse_sorted (px_series ix)"
  shows "filter (\<lambda>(m, _). mt_resource_attributes m = attrs) (pulse_rows t name cond (px_series ix)) =
    series_rows cond (contents_of (px_series ix) (t, name, attrs))"
proof -
  have "hm_wf (px_series ix)"
    using assms(1) by (simp add: pulse_ok_def)
  from pulse_rows_series [OF this pulse_ok_keys [OF assms(1)], of attrs t name cond] show ?thesis
    by (simp only: pulse_sorted_contents [OF assms(2)])
qed

definition pulse_mem_ok :: "pulse_mem \<Rightarrow> bool" where
  "pulse_mem_ok s = (pulse_ok (pm_index s) \<and> pulse_sorted (px_series (pm_index s)))"

definition pulse_file_ok :: "pulse_file \<Rightarrow> bool" where
  "pulse_file_ok s = (pulse_ok (pf_index s) \<and> pulse_sorted (px_series (pf_index s)))"

abbreviation mem_contents :: "pulse_mem \<Rightarrow> series_contents" where
  "mem_contents s \<equiv> contents_of (px_series (pm_index s))"

abbreviation file_contents :: "pulse_file \<Rightarrow> series_contents" where
  "file_contents s \<equiv> contents_of (px_series (pf_index s))"

interpretation pulse_mem: metric_store "\<lambda>(_ :: unit). pulse_mem_ingest cap" pulse_mem_query_with mem_contents pulse_mem_ok cap
  for cap
proof
  fix env :: unit and s t ms rc s'
  assume ok: "pulse_mem_ok s" and i: "pulse_mem_ingest cap t ms s = (Inr rc, s')"
  obtain ix n r where a: "pulse_mem_apply cap t ms (pm_index s) = (ix, n, r)"
    by (cases "pulse_mem_apply cap t ms (pm_index s)")
  with i have s': "pm_index s' = ix" "rc_count rc = n" "rc_series_refused rc = r"
    by (auto simp: pulse_mem_ingest_def)
  have "pulse_sorted (px_series ix)"
    using pulse_mem_apply_sorted [of "pm_index s" cap t ms] ok a by (simp add: pulse_mem_ok_def)
  with pulse_mem_apply_refines [OF _ a] ok s'
  show "pulse_mem_ok s' \<and> ingest_spec (Some cap) t ms (mem_contents s) = (mem_contents s', rc_count rc, rc_series_refused rc)"
    by (simp add: pulse_mem_ok_def)
next
  fix env :: unit and s t ms e s'
  assume "pulse_mem_ok s" and "pulse_mem_ingest cap t ms s = (Inl e, s')"
  then show "pulse_mem_ok s' \<and> mem_contents s' = mem_contents s"
    by (simp add: pulse_mem_ingest_def split: prod.splits)
next
  fix s t name rng pred
  assume "pulse_mem_ok s"
  then show "\<exists>rows s'. pulse_mem_query_with t name rng pred s = (Inr rows, s') \<and> pulse_mem_ok s' \<and> mem_contents s' = mem_contents s \<and>
      (\<forall>attrs. filter (\<lambda>(m, _). mt_resource_attributes m = attrs) rows =
         series_rows (\<lambda>m p. metric_range_contains rng (mp_time_unix_nano p) \<and> pulse_matches pred m p)
           (mem_contents s (t, name, attrs)))"
    unfolding pulse_mem_query_with_def Let_def
    by (simp add: pulse_mem_ok_def pulse_rows_ok)
qed

lemma pulse_ingest_acked:
  assumes "pulse_ingest cap ts env t ms s = (Inr rc, s')"
  shows "ms = [] \<and> s' = s\<lparr>pf_events := pf_events s @ [PulseIngest t 0]\<rparr> \<and> rc = \<lparr>rc_count = 0, rc_series_refused = 0\<rparr> \<or>
    (\<exists>ix. ms \<noteq> [] \<and> apply_ingest cap t ms True (pf_index s) = (ix, rc_count rc, rc_series_refused rc) \<and>
       pf_index s' = ix\<lparr>px_series := pulse_resort (px_series ix)\<rparr> \<and> pf_dir s' = pf_dir s \<and>
       pulse_append_wal ts env (PulseWalIngest t ms) (pf_wal s) = (Inr (), pf_wal s'))"
  using assms by (auto simp: pulse_ingest_def split: if_splits prod.splits sum.splits)

interpretation pulse_file: metric_store "\<lambda>(ts, env). pulse_ingest cap ts env" pulse_query_with file_contents pulse_file_ok cap
  for cap
proof
  fix env :: "(pulse_wal_record \<Rightarrow> string + string) \<times> append_io" and s t ms rc s'
  assume ok: "pulse_file_ok s" and i: "(case env of (ts, env) \<Rightarrow> pulse_ingest cap ts env) t ms s = (Inr rc, s')"
  from i have "pulse_ingest cap (fst env) (snd env) t ms s = (Inr rc, s')"
    by (simp add: split_def)
  from pulse_ingest_acked [OF this]
  show "pulse_file_ok s' \<and> ingest_spec (Some cap) t ms (file_contents s) = (file_contents s', rc_count rc, rc_series_refused rc)"
  proof
    assume "ms = [] \<and> s' = s\<lparr>pf_events := pf_events s @ [PulseIngest t 0]\<rparr> \<and> rc = \<lparr>rc_count = 0, rc_series_refused = 0\<rparr>"
    with ok show ?thesis
      by (simp add: pulse_file_ok_def)
  next
    assume "\<exists>ix. ms \<noteq> [] \<and> apply_ingest cap t ms True (pf_index s) = (ix, rc_count rc, rc_series_refused rc) \<and>
       pf_index s' = ix\<lparr>px_series := pulse_resort (px_series ix)\<rparr> \<and> pf_dir s' = pf_dir s \<and>
       pulse_append_wal (fst env) (snd env) (PulseWalIngest t ms) (pf_wal s) = (Inr (), pf_wal s')"
    then obtain ix where a: "apply_ingest cap t ms True (pf_index s) = (ix, rc_count rc, rc_series_refused rc)"
      and s': "pf_index s' = ix\<lparr>px_series := pulse_resort (px_series ix)\<rparr>"
      by blast
    from apply_ingest_refines [OF _ a] ok show ?thesis
      by (simp add: pulse_file_ok_def s' pulse_sorted_resort pulse_ok_resort)
  qed
next
  fix env :: "(pulse_wal_record \<Rightarrow> string + string) \<times> append_io" and s t ms e s'
  assume "pulse_file_ok s" and "(case env of (ts, env) \<Rightarrow> pulse_ingest cap ts env) t ms s = (Inl e, s')"
  then show "pulse_file_ok s' \<and> file_contents s' = file_contents s"
    by (auto simp: pulse_ingest_def pulse_file_ok_def split_def split: if_splits sum.splits)
next
  fix s t name rng pred
  assume "pulse_file_ok s"
  then show "\<exists>rows s'. pulse_query_with t name rng pred s = (Inr rows, s') \<and> pulse_file_ok s' \<and> file_contents s' = file_contents s \<and>
      (\<forall>attrs. filter (\<lambda>(m, _). mt_resource_attributes m = attrs) rows =
         series_rows (\<lambda>m p. metric_range_contains rng (mp_time_unix_nano p) \<and> pulse_matches pred m p)
           (file_contents s (t, name, attrs)))"
    unfolding pulse_query_with_def Let_def
    by (simp add: pulse_file_ok_def pulse_rows_ok)
qed

end
