(* ===== verification/Pulse_Durable.thy ===== *)
theory Pulse_Durable
  imports Pulse_Theorems
begin

text \<open>
  Durability of Pulse's file-backed adapter. Replay applies the logged batches without the limit on
  series, so the files stand for the reference ingest without a limit; a batch none of whose series
  was refused is recovered exactly, and one that was refused in part comes back whole.
\<close>

section \<open>The contract of a file-backed store\<close>

abbreviation empty_index :: pulse_index where
  "empty_index \<equiv> \<lparr>px_series = [], px_tenant_counts = []\<rparr>"

abbreviation index_contents :: "pulse_index \<Rightarrow> series_contents" where
  "index_contents ix \<equiv> contents_of (px_series ix)"

lemma apply_uncapped_contents:
  "index_contents (fst (apply_ingest cap t ms False ix)) = fst (ingest_spec None t ms (index_contents ix))"
proof (induction ms arbitrary: ix)
  case (Cons m ms)
  let ?k = "(t, series_key_of m)"
  show ?case
    using Cons.IH contents_of_merge [of ?k m "px_series ix"] by (simp add: Let_def split_def fun_upd_def)
qed simp

lemma index_contents_finish [simp]: "index_contents (pulse_finish ix) = index_contents ix"
  by (simp add: pulse_finish_def Let_def)

lemma replay_contents:
  "index_contents (pulse_replay_record cap (PulseWalIngest t ms) ix) = fst (ingest_spec None t ms (index_contents ix))"
  by (simp add: apply_uncapped_contents)

lemma load_bucket_get:
  "hm_get (px_series (fold pulse_load_bucket snap ix)) =
   hm_get (fold (\<lambda>(k, e) m. hm_insert k e m)
     (map (\<lambda>b. ((sb_tenant b, series_key_of (sb_metric b)), \<lparr>se_metric = sb_metric b, se_points = sb_points b\<rparr>)) snap)
     (px_series ix))"
  by (induction snap arbitrary: ix) (simp_all add: pulse_load_bucket_def Let_def)

lemma dump_entries:
  assumes "pulse_ok ix"
  shows "map (\<lambda>b. ((sb_tenant b, series_key_of (sb_metric b)), \<lparr>se_metric = sb_metric b, se_points = sb_points b\<rparr>)) (pulse_dump ix) =
    px_series ix"
proof -
  have "((fst (fst x), series_key_of (se_metric (snd x))), \<lparr>se_metric = se_metric (snd x), se_points = se_points (snd x)\<rparr>) = x"
    if "x \<in> set (px_series ix)" for x
    using pulse_ok_keys [OF assms, of "fst x" "snd x"] that by (simp add: prod_eq_iff)
  then show ?thesis
    by (auto simp: pulse_dump_def split_def comp_def intro!: map_idI)
qed

lemma load_dump_contents:
  assumes "pulse_ok ix"
  shows "index_contents (pulse_load_snapshot (pulse_dump ix)) = index_contents ix"
proof -
  have "hm_get (px_series (pulse_load_snapshot (pulse_dump ix))) = hm_get (px_series ix)"
    using assms
    by (auto simp: pulse_load_snapshot_def load_bucket_get dump_entries [OF assms] pulse_ok_def fold_insert_get
        fun_eq_iff split: option.split)
  then show ?thesis
    by (simp add: contents_of_def fun_eq_iff)
qed

interpretation pulse_pillar: snapshotting_pillar "pulse_replay_record cap" "pulse_replay_record cap" pulse_finish
  index_contents pulse_ok "\<lambda>snap. Inr (pulse_load_snapshot snap)" pulse_dump
  for cap
proof
  fix r and s t :: pulse_index
  show "index_contents (pulse_finish (pulse_replay_record cap r s)) = index_contents (pulse_replay_record cap r (pulse_finish s))"
    by (cases r) (simp del: pulse_replay_record.simps add: replay_contents)
  show "index_contents s = index_contents t \<Longrightarrow>
      index_contents (pulse_replay_record cap r s) = index_contents (pulse_replay_record cap r t)"
    by (cases r) (simp del: pulse_replay_record.simps add: replay_contents)
  show "pulse_ok s \<Longrightarrow> \<exists>s'. Inr (pulse_load_snapshot (pulse_dump s)) = Inr s' \<and> index_contents (pulse_finish s') = index_contents s"
    by (simp add: load_dump_contents)
qed

section \<open>What a reopened store shows\<close>

lemma hm_wf_load: "hm_wf (px_series (pulse_load_snapshot snap))"
  unfolding pulse_load_snapshot_def
proof -
  have "hm_wf (px_series ix) \<Longrightarrow> hm_wf (px_series (fold pulse_load_bucket snap ix))" for ix
    by (induction snap arbitrary: ix) (simp_all add: pulse_load_bucket_def Let_def)
  then show "hm_wf (px_series (fold pulse_load_bucket snap empty_index))"
    by simp
qed

definition keys_ok :: "series_map \<Rightarrow> bool" where
  "keys_ok series = (hm_wf series \<and> (\<forall>key e. hm_get series key = Some e \<longrightarrow> series_key_of (se_metric e) = snd key))"

lemma keys_ok_insert: "keys_ok series \<Longrightarrow> series_key_of (se_metric e) = snd key \<Longrightarrow> keys_ok (hm_insert key e series)"
  by (auto simp: keys_ok_def)

lemma keys_ok_load: "keys_ok (px_series (pulse_load_snapshot snap))"
proof -
  have "keys_ok (px_series ix) \<Longrightarrow> keys_ok (px_series (fold pulse_load_bucket snap ix))" for ix
    by (induction snap arbitrary: ix) (simp_all add: pulse_load_bucket_def Let_def keys_ok_insert)
  from this [of empty_index] show ?thesis
    unfolding pulse_load_snapshot_def by (simp add: keys_ok_def)
qed

lemma keys_ok_apply: "keys_ok (px_series ix) \<Longrightarrow> keys_ok (px_series (fst (apply_ingest cap t ms False ix)))"
proof (induction ms arbitrary: ix)
  case (Cons m ms)
  have "series_key_of (se_metric (pulse_merge m (hm_get (px_series ix) (t, series_key_of m)))) = series_key_of m"
  proof (rule series_key_merge)
    have "series_key_of (se_metric x) = series_key_of m" if "hm_get (px_series ix) (t, series_key_of m) = Some x" for x
      using Cons.prems that unfolding keys_ok_def by (metis snd_conv)
    then show "case hm_get (px_series ix) (t, series_key_of m) of None \<Rightarrow> True
        | Some x \<Rightarrow> series_key_of (se_metric x) = series_key_of m"
      by (simp split: option.split)
  qed
  then have "keys_ok (hm_insert (t, series_key_of m) (pulse_merge m (hm_get (px_series ix) (t, series_key_of m))) (px_series ix))"
    by (intro keys_ok_insert [OF Cons.prems]) simp
  then show ?case
    using Cons.IH by (simp add: Let_def split_def)
qed simp

lemma rebuild_counts_exact:
  assumes "hm_wf series"
  shows "hm_get_or 0 (pulse_rebuild_counts series) t = card (tenant_series (hm_get series) t)"
proof -
  have "hm_get_or 0 (fold (\<lambda>((tenant, _), _). pulse_bump tenant) xs c) t =
      hm_get_or 0 c t + card (tenant_series (hm_get xs) t)" if "hm_wf xs" for xs :: series_map and c
    using that
  proof (induction xs arbitrary: c)
    case (Cons x xs)
    obtain t' k e where x: "x = ((t', k), e)"
      by (cases x) auto
    have "hm_wf xs" "k \<notin> tenant_series (hm_get xs) t'"
      using hm_wf_ConsD [OF Cons.prems [unfolded x]] by (simp_all add: tenant_series_def)
    moreover have "hm_get (x # xs) = (hm_get xs)((t', k) \<mapsto> e)"
      by (simp add: x)
    ultimately show ?case
      using Cons.IH by (simp add: x tenant_series_upd [unfolded fun_upd_def] pulse_bump_def)
  qed (simp add: tenant_series_def)
  from this [OF assms, of "[]"] show ?thesis
    by (simp add: pulse_rebuild_counts_def)
qed

lemma pulse_finish_ok: "keys_ok (px_series ix) \<Longrightarrow> pulse_ok (pulse_finish ix) \<and> pulse_sorted (px_series (pulse_finish ix))"
proof -
  assume k: "keys_ok (px_series ix)"
  have "hm_wf (pulse_resort (px_series ix))"
    using k by (simp add: pulse_resort_def hm_wf_map_entries keys_ok_def)
  with k show ?thesis
    by (auto simp: pulse_ok_def pulse_finish_def Let_def rebuild_counts_exact pulse_sorted_resort pulse_get_resort keys_ok_def)
qed

lemma replay_keys_ok:
  "keys_ok (px_series s) \<Longrightarrow> keys_ok (px_series (fst (snd (replay_wal_tolerating_torn_tail fs p (total_apply (pulse_replay_record cap)) pe b s))))"
proof (rule replay_inv)
  fix r and s :: pulse_index
  assume "keys_ok (px_series s)"
  then show "keys_ok (px_series (snd (total_apply (pulse_replay_record cap) r s)))"
    by (cases r) (simp add: keys_ok_apply)
qed

lemma pulse_open_ok:
  assumes "pulse_open_with_fsync_backend cap fs fr disk = (Inr s, ws)"
  shows "pulse_file_ok s"
proof -
  obtain w dir where o: "pillar_open pulse_io pulse_parse fr (\<lambda>snap. Inr (pulse_load_snapshot snap)) empty_index
      (replay_wal_tolerating_torn_tail fs ''pulse'' (total_apply (pulse_replay_record cap))
         (\<lambda>line err. PulsePersistenceFailed (wal_parse_reason line err)))
      pulse_finish disk = (Inr (pf_index s, w, dir), ws)"
    using assms by (auto simp: pulse_open_with_fsync_backend_def split: prod.splits sum.splits)
  have "pulse_ok (pf_index s) \<and> pulse_sorted (px_series (pf_index s))"
    by (rule pillar_open_inv [OF o, where P = "\<lambda>ix. keys_ok (px_series ix)" and R = "\<lambda>ix. pulse_ok ix \<and> pulse_sorted (px_series ix)"])
      (auto simp: keys_ok_load replay_keys_ok pulse_finish_ok, simp add: keys_ok_def)
  then show ?thesis
    by (simp add: pulse_file_ok_def)
qed

section \<open>The files and the memory\<close>

text \<open>The files of a store stand for the contents \<open>A\<close>.\<close>

definition pulse_logged ::
  "(pulse_wal_record \<Rightarrow> string + string) \<Rightarrow> (string \<Rightarrow> string + pulse_wal_record) \<Rightarrow>
   (string \<Rightarrow> string + pulse_snapshot_doc) \<Rightarrow> pulse_file \<Rightarrow> series_contents \<Rightarrow> bool" where
  "pulse_logged to_string from_str from_reader s A =
     durable_as to_string from_str from_reader (\<lambda>snap. Inr (pulse_load_snapshot snap) :: metric_store_error + _) empty_index
        (pulse_replay_record 0) pulse_finish index_contents (pf_dir s) (pf_wal s) A"

lemma apply_uncapped_any: "apply_ingest cap t ms False ix = apply_ingest cap' t ms False ix"
  by (induction ms arbitrary: ix) (simp_all add: Let_def split_def)

lemma replay_record_any: "pulse_replay_record cap = pulse_replay_record 0"
proof (intro ext)
  fix r ix
  show "pulse_replay_record cap r ix = pulse_replay_record 0 r ix"
    by (cases r) (simp add: apply_uncapped_any [of cap _ _ _ 0])
qed

abbreviation pulse_pillar_open ::
  "(string \<Rightarrow> string + pulse_wal_record) \<Rightarrow> (string \<Rightarrow> string + pulse_snapshot_doc) \<Rightarrow> store_disk \<Rightarrow>
   (metric_store_error + pulse_index \<times> wal_writer \<times> snap_fs) \<times> wal_warning list" where
  "pulse_pillar_open fs fr \<equiv> pillar_open pulse_io pulse_parse fr (\<lambda>snap. Inr (pulse_load_snapshot snap)) empty_index
     (replay_wal_tolerating_torn_tail fs ''pulse'' (total_apply (pulse_replay_record 0))
        (\<lambda>line err. PulsePersistenceFailed (wal_parse_reason line err))) pulse_finish"

lemma pulse_open_Inr:
  "pulse_pillar_open fs fr disk = (Inr (ix, w, d), ws) \<Longrightarrow>
   pulse_open_with_fsync_backend cap fs fr disk = (Inr \<lparr>pf_index = ix, pf_wal = w, pf_dir = d, pf_events = []\<rparr>, ws)"
  by (simp add: pulse_open_with_fsync_backend_def replay_record_any [of cap])

lemma pulse_reopen:
  assumes "pulse_logged ts fs fr s A"
  shows "\<exists>s'. pulse_open_with_fsync_backend cap fs fr (disk_of (pf_dir s) (pf_wal s)) = (Inr s', []) \<and>
    pulse_file_ok s' \<and> pulse_logged ts fs fr s' A \<and> file_contents s' = A"
proof -
  from pulse_pillar.durable_reopen [OF assms [unfolded pulse_logged_def], of pulse_io pulse_parse "''pulse''"
      "\<lambda>line err. PulsePersistenceFailed (wal_parse_reason line err)"]
  obtain ix w d where o: "pulse_pillar_open fs fr (disk_of (pf_dir s) (pf_wal s)) = (Inr (ix, w, d), [])"
    and "index_contents ix = A"
    and "durable_as ts fs fr (\<lambda>snap. Inr (pulse_load_snapshot snap) :: metric_store_error + _) empty_index
        (pulse_replay_record 0) pulse_finish index_contents d w A"
    by auto
  with pulse_open_Inr [OF o, of cap] pulse_open_ok [OF pulse_open_Inr [OF o, of cap]] show ?thesis
    by (simp add: pulse_logged_def)
qed

lemma pulse_ingest_append:
  assumes "pulse_ingest cap ts env t ms s = (res, s1)" and "ms \<noteq> []"
  shows "\<exists>r. append_wal ts pulse_parse pulse_io env (PulseWalIngest t ms) (pf_wal s) = (r, pf_wal s1) \<and>
    pf_dir s1 = pf_dir s \<and> (r = Inr () \<longleftrightarrow> \<not> isl res)"
  using assms by (auto simp: pulse_ingest_def pulse_append_wal_def split: prod.splits sum.splits)

lemma pulse_logged_index:
  assumes "pulse_logged ts fs fr s A"
  obtains ix where "index_contents ix = A"
  using assms by (auto simp: pulse_logged_def durable_as_def)

lemma pulse_logged_ingest:
  assumes "pulse_logged ts fs fr s A" and "ms \<noteq> []" and "serde_ok ts fs (PulseWalIngest t ms)"
    and "pulse_ingest cap ts env t ms s = (Inr rc, s1)"
  shows "pulse_logged ts fs fr s1 (fst (ingest_spec None t ms A))"
proof -
  obtain ix where ix: "index_contents ix = A"
    using pulse_logged_index [OF assms(1)] .
  from pulse_ingest_append [OF assms(4,2)]
  have a: "append_wal ts pulse_parse pulse_io env (PulseWalIngest t ms) (pf_wal s) = (Inr (), pf_wal s1)"
    and d: "pf_dir s1 = pf_dir s"
    by auto
  from pulse_pillar.durable_append [OF assms(1) [unfolded pulse_logged_def, folded ix] a assms(3)] show ?thesis
    unfolding pulse_logged_def d replay_contents ix .
qed

lemma pulse_logged_crash:
  assumes "pulse_logged ts fs fr s A" and "pulse_ingest cap ts env t ms s = (res, s1)" and "ms \<noteq> []"
    and "serde_ok ts fs (PulseWalIngest t ms)" and "torn_unparsable (line_of ts) fs (PulseWalIngest t ms)"
    and "crash_image (pf_wal s1) f"
  shows "\<exists>s' ws. pulse_open_with_fsync_backend cap fs fr (disk_of (pf_dir s1) (open_writer f (length f))) = (Inr s', ws) \<and>
    pulse_file_ok s' \<and> (file_contents s' = A \<and> isl res \<or> file_contents s' = fst (ingest_spec None t ms A))"
proof -
  obtain ix where ix: "index_contents ix = A"
    using pulse_logged_index [OF assms(1)] .
  obtain r where a: "append_wal ts pulse_parse pulse_io env (PulseWalIngest t ms) (pf_wal s) = (r, pf_wal s1)"
    and d: "pf_dir s1 = pf_dir s" and r: "r = Inr () \<longleftrightarrow> \<not> isl res"
    using pulse_ingest_append [OF assms(2,3)] by blast
  from pulse_pillar.durable_crash [OF assms(1) [unfolded pulse_logged_def, folded ix] a assms(6,4,5), of pulse_io pulse_parse
      "''pulse''" "\<lambda>line err. PulsePersistenceFailed (wal_parse_reason line err)"]
  obtain ix' w1 d' ws where o: "pulse_pillar_open fs fr (disk_of (pf_dir s1) (open_writer f (length f))) = (Inr (ix', w1, d'), ws)"
    and v: "index_contents ix' = A \<or> index_contents ix' = fst (ingest_spec None t ms A)"
      "\<not> isl res \<longrightarrow> index_contents ix' = fst (ingest_spec None t ms A)"
    unfolding d replay_contents ix r by blast
  from pulse_open_Inr [OF o, of cap] pulse_open_ok [OF pulse_open_Inr [OF o, of cap]] v show ?thesis
    by (intro exI conjI) auto
qed

text \<open>A batch none of whose series is refused is the same with and without the limit.\<close>

lemma ingest_spec_unrefused: "ingest_spec (Some cap) t ms A = (A', n, 0) \<Longrightarrow> ingest_spec None t ms A = (A', n, 0)"
proof (induction ms arbitrary: A n)
  case (Cons m ms)
  then show ?case
    by (auto simp: Let_def split: prod.splits if_splits)
qed simp

inductive pulse_history ::
  "nat \<Rightarrow> (pulse_wal_record \<Rightarrow> string + string) \<Rightarrow> (string \<Rightarrow> string + pulse_wal_record) \<Rightarrow>
   (pulse_snapshot_doc \<Rightarrow> (string \<times> string) + string) \<Rightarrow> (string \<Rightarrow> string + pulse_snapshot_doc) \<Rightarrow> pulse_file \<Rightarrow> bool"
  for cap ts fs tw fr where
  created: "pulse_open_with_fsync_backend cap fs fr
      \<lparr>sd_snapshot = Absent, sd_wal = Absent, sd_append_error = None\<rparr> = (Inr s, ws) \<Longrightarrow> pulse_history cap ts fs tw fr s"
| ingested: "pulse_history cap ts fs tw fr s \<Longrightarrow> pulse_ingest cap ts env t ms s = (Inr rc, s') \<Longrightarrow>
    rc_series_refused rc = 0 \<Longrightarrow> (ms \<noteq> [] \<Longrightarrow> serde_ok ts fs (PulseWalIngest t ms)) \<Longrightarrow> pulse_history cap ts fs tw fr s'"
| queried: "pulse_history cap ts fs tw fr s \<Longrightarrow> pulse_history cap ts fs tw fr (snd (pulse_query t name rng s))"
| queried_with: "pulse_history cap ts fs tw fr s \<Longrightarrow> pulse_history cap ts fs tw fr (snd (pulse_query_with t name rng p s))"
| snapshotted: "pulse_history cap ts fs tw fr s \<Longrightarrow>
    pulse_snapshot tw env dir_sync (real_fsync_file None) s = (Inr (), s') \<Longrightarrow>
    tw (pulse_dump (pf_index s)) = Inr data \<Longrightarrow> fr data = Inr (pulse_dump (pf_index s)) \<Longrightarrow> pulse_history cap ts fs tw fr s'"
| restarted: "pulse_history cap ts fs tw fr s \<Longrightarrow>
    pulse_open_with_fsync_backend cap fs fr (disk_of (pf_dir s) (pf_wal s)) = (Inr s', ws) \<Longrightarrow> pulse_history cap ts fs tw fr s'"

lemma pulse_logged_snapshot:
  assumes "pulse_ok (pf_index s)" and "pulse_snapshot tw env ds (real_fsync_file None) s = (Inr (), s')"
    and "tw (pulse_dump (pf_index s)) = Inr data" and "fr data = Inr (pulse_dump (pf_index s))"
  shows "pulse_logged ts fs fr s' (file_contents s) \<and> pf_index s' = pf_index s"
proof -
  obtain res trace where
    t: "pillar_snapshot env (real_fsync_file None) (Inr data) (pf_dir s) (pf_wal s) = (res, trace)"
    by fastforce
  with assms(2,3) have "res = Inr ()" "s' = s\<lparr>pf_dir := fst (last trace), pf_wal := snd (last trace)\<rparr>"
    by (cases res; simp add: pulse_snapshot_def)+
  with t pulse_pillar.durable_snapshot [OF real_fsync.honest, of env data "pf_dir s" "pf_wal s" trace fr "pf_index s"]
    assms(1,4) show ?thesis
    by (simp add: pulse_logged_def)
qed

lemma pulse_history_inv:
  "pulse_history cap ts fs tw fr s \<Longrightarrow> pulse_file_ok s \<and> pulse_logged ts fs fr s (file_contents s)"
proof (induction rule: pulse_history.induct)
  case (created s ws)
  from pulse_open_ok [OF created] created show ?case
    by (auto simp: pulse_open_with_fsync_backend_def pillar_open_def pulse_logged_def durable_as_def snap_fs_of_def
        open_writer_def snapshot_base_def pulse_finish_def Let_def intro!: exI [of _ "[]"])
next
  case (ingested s env t ms rc s')
  have "(case (ts, env) of (ts, env) \<Rightarrow> pulse_ingest cap ts env) t ms s = (Inr rc, s')"
    using ingested.hyps by simp
  from pulse_file.ingest_acked [OF _ this] ingested
  have ok: "pulse_file_ok s'" and sp: "ingest_spec (Some cap) t ms (file_contents s) = (file_contents s', rc_count rc, 0)"
    by simp_all
  show ?case
  proof (cases "ms = []")
    case True
    with ingested.hyps(2) have "s' = s\<lparr>pf_events := pf_events s @ [PulseIngest t 0]\<rparr>"
      by (simp add: pulse_ingest_def)
    with ingested.IH show ?thesis
      by (simp add: pulse_logged_def pulse_file_ok_def)
  next
    case False
    with pulse_logged_ingest [OF conjunct2 [OF ingested.IH] False ingested.hyps(4) ingested.hyps(2)] ok
      ingest_spec_unrefused [OF sp] show ?thesis
      by simp
  qed
next
  case (snapshotted s env ds s' data)
  then show ?case
    using pulse_logged_snapshot [of s tw env ds s' data fr ts fs] by (simp add: pulse_file_ok_def)
next
  case (restarted s s' ws)
  then show ?case
    using pulse_reopen [of ts fs fr s "file_contents s" cap] by auto
qed (simp_all add: pulse_query_def pulse_query_with_def Let_def pulse_logged_def pulse_file_ok_def)

section \<open>Properties\<close>

text \<open>
  The limit on series holds: from a fresh store, whatever batches of whatever tenants are
  ingested, with whatever failures of the log in between, no tenant ever has more series than the
  limit, and the counter the check reads is exactly the number of the tenant's series.
\<close>

theorem pulse_series_bounded:
  assumes "pulse_open_with_fsync_backend cap fs fr \<lparr>sd_snapshot = Absent, sd_wal = Absent, sd_append_error = None\<rparr> = (Inr s, ws)"
    and "metric_run (\<lambda>(ts, env). pulse_ingest cap ts env) ops s = (rs, s')"
  shows "card (tenant_series (hm_get (px_series (pf_index s'))) t) \<le> cap \<and>
    hm_get_or 0 (px_tenant_counts (pf_index s')) t = card (tenant_series (hm_get (px_series (pf_index s'))) t)"
proof -
  have "file_contents s = Map.empty"
    using assms(1) by (auto simp: pulse_open_with_fsync_backend_def pillar_open_def pulse_finish_def pulse_resort_def
        contents_of_def Let_def)
  then have "within_cap cap (file_contents s)"
    by (simp add: within_cap_def tenant_series_def)
  from pulse_file.run_within_cap [OF pulse_open_ok [OF assms(1)] this assms(2)] show ?thesis
    by (simp add: within_cap_def pulse_file_ok_def pulse_ok_def)
qed

text \<open>
  The two adapters agree: the same batches, when the file-backed store acknowledges them all,
  get the same receipts from the in-memory store, and every query is then answered by both with
  the same points, series by series and in the same order within a series.
\<close>

theorem pulse_adapters_agree:
  assumes "pulse_open_with_fsync_backend cap fs fr \<lparr>sd_snapshot = Absent, sd_wal = Absent, sd_append_error = None\<rparr> = (Inr s, ws)"
    and "metric_run (\<lambda>(ts, env). pulse_ingest cap ts env) ops s = (map Inr rcs, s')"
  shows "\<exists>m'. metric_run (\<lambda>_. pulse_mem_ingest cap) (map (\<lambda>(_, t, ms). ((), t, ms)) ops) pulse_mem_new = (map Inr rcs, m') \<and>
    (\<forall>t name rng pred. \<exists>rows rows'. fst (pulse_query_with t name rng pred s') = Inr rows \<and>
       fst (pulse_mem_query_with t name rng pred m') = Inr rows' \<and>
       (\<forall>attrs. filter (\<lambda>(m, _). mt_resource_attributes m = attrs) rows =
          filter (\<lambda>(m, _). mt_resource_attributes m = attrs) rows'))"
proof -
  let ?ops = "map (\<lambda>(_, t, ms). ((), t, ms)) ops"
  have total: "\<exists>rcs' m'. metric_run (\<lambda>(_ :: unit). pulse_mem_ingest cap) ops' m = (map Inr rcs', m')" for ops' m
  proof (induction ops' arbitrary: m)
    case (Cons op ops')
    obtain rc m1 where "pulse_mem_ingest cap (fst (snd op)) (snd (snd op)) m = (Inr rc, m1)"
      by (simp add: pulse_mem_ingest_def split_def)
    moreover obtain rcs' m' where "metric_run (\<lambda>(_ :: unit). pulse_mem_ingest cap) ops' m1 = (map Inr rcs', m')"
      using Cons.IH by blast
    ultimately show ?case
      by (intro exI [of _ "rc # rcs'"] exI [of _ m']) (cases op; simp)
  qed simp
  obtain rcs' m' where m': "metric_run (\<lambda>(_ :: unit). pulse_mem_ingest cap) ?ops pulse_mem_new = (map Inr rcs', m')"
    using total by blast
  have "file_contents s = mem_contents pulse_mem_new"
    using assms(1) by (auto simp: pulse_open_with_fsync_backend_def pillar_open_def pulse_finish_def pulse_resort_def
        contents_of_def Let_def pulse_mem_new_def)
  moreover have "pulse_mem_ok pulse_mem_new"
    by (auto simp: pulse_mem_ok_def pulse_mem_new_def pulse_ok_def pulse_sorted_def tenant_series_def)
  moreover have "map snd ?ops = map snd ops"
    by (simp add: split_def)
  ultimately have same: "rcs' = rcs" "file_contents s' = mem_contents m'" and ok: "pulse_mem_ok m'" "pulse_file_ok s'"
    using pulse_mem.run_refines [OF _ m'] pulse_file.run_refines [OF pulse_open_ok [OF assms(1)] assms(2)]
    by (simp_all del: map_map map_eq_conv)
  have "\<exists>rows rows'. fst (pulse_query_with t name rng pred s') = Inr rows \<and>
       fst (pulse_mem_query_with t name rng pred m') = Inr rows' \<and>
       (\<forall>attrs. filter (\<lambda>(m, _). mt_resource_attributes m = attrs) rows =
          filter (\<lambda>(m, _). mt_resource_attributes m = attrs) rows')" for t name rng pred
    using pulse_mem.query_rows [OF ok(1), of t name rng pred] pulse_file.query_rows [OF ok(2), of t name rng pred] same(2)
    by fastforce
  with m' same(1) show ?thesis
    by blast
qed

text \<open>
  C15. A crash in the middle of an ingest, after earlier ingests none of which had a series refused:
  whatever part of the unsynced bytes reached the disk, reopening succeeds and shows the series as
  before the batch or with the whole batch merged in; once the batch was acknowledged with no series
  refused it shows exactly what the store showed before the crash. The records are ones the JSON codec
  gives back as they were, which excludes NaN and the infinities; a truncation by a snapshot counts as
  on the disk; the store syncs the directory after it.
\<close>

theorem pulse_crash_atomic:
  assumes "pulse_history cap ts fs tw fr s" and "pulse_ingest cap ts env t ms s = (res, s1)" and "ms \<noteq> []"
    and "serde_ok ts fs (PulseWalIngest t ms)" and "torn_unparsable (line_of ts) fs (PulseWalIngest t ms)"
    and "crash_image (pf_wal s1) f"
  shows "\<exists>s' ws. pulse_open_with_fsync_backend cap fs fr (disk_of (pf_dir s1) (open_writer f (length f))) = (Inr s', ws) \<and>
    pulse_file_ok s' \<and>
    (file_contents s' = file_contents s \<and> isl res \<or> file_contents s' = fst (ingest_spec None t ms (file_contents s))) \<and>
    (\<forall>rc. res = Inr rc \<and> rc_series_refused rc = 0 \<longrightarrow> file_contents s' = file_contents s1)"
proof -
  have ok: "pulse_file_ok s" and log: "pulse_logged ts fs fr s (file_contents s)"
    using pulse_history_inv [OF assms(1)] by auto
  have "fst (ingest_spec None t ms (file_contents s)) = file_contents s1" if "res = Inr rc" "rc_series_refused rc = 0" for rc
  proof -
    have "(case (ts, env) of (ts, env) \<Rightarrow> pulse_ingest cap ts env) t ms s = (Inr rc, s1)"
      using assms(2) that by simp
    from pulse_file.ingest_acked [OF ok this] that have "ingest_spec (Some cap) t ms (file_contents s) = (file_contents s1, rc_count rc, 0)"
      by simp
    from ingest_spec_unrefused [OF this] show ?thesis
      by simp
  qed
  with pulse_logged_crash [OF log assms(2-6)] show ?thesis
    by fastforce
qed

text \<open>Once a tenant has as many series as the limit allows, it gets no new one.\<close>

lemma ingest_spec_full:
  "ingest_spec (Some cap) t ms A = (A', n, refused) \<Longrightarrow> cap \<le> card (tenant_series A t) \<Longrightarrow>
   tenant_series A' t = tenant_series A t \<and> (A (t, k) = None \<longrightarrow> A' (t, k) = None)"
proof (induction ms arbitrary: A n refused)
  case (Cons m ms)
  let ?k = "(t, series_key_of m)"
  let ?A = "A(?k \<mapsto> sort_entry (pulse_merge m (A ?k)))"
  show ?case
  proof (cases "A ?k")
    case None
    then obtain n' r where "ingest_spec (Some cap) t ms A = (A', n', r)"
      using Cons.prems by (auto simp: Let_def split: prod.splits)
    from Cons.IH [OF this Cons.prems(2)] show ?thesis .
  next
    case (Some e)
    then have same: "tenant_series ?A t = tenant_series A t"
      by (auto simp: tenant_series_def)
    obtain n' where "ingest_spec (Some cap) t ms ?A = (A', n', refused)"
      using Cons.prems Some by (auto simp: Let_def split: prod.splits)
    from Cons.IH [OF this, unfolded same, OF Cons.prems(2)]
    have "tenant_series A' t = tenant_series A t" "?A (t, k) = None \<longrightarrow> A' (t, k) = None"
      by blast+
    moreover have "A (t, k) = None \<longrightarrow> ?A (t, k) = None"
      using Some by simp
    ultimately show ?thesis
      by argo
  qed
qed simp

lemma ingest_spec_refuses:
  "ingest_spec (Some cap) t ms A = (A', n, refused) \<Longrightarrow> 0 < refused \<Longrightarrow>
   \<exists>m\<in>set ms. A' (t, series_key_of m) = None \<and> cap \<le> card (tenant_series A' t)"
proof (induction ms arbitrary: A n refused)
  case (Cons m ms)
  let ?k = "(t, series_key_of m)"
  let ?A = "A(?k \<mapsto> sort_entry (pulse_merge m (A ?k)))"
  show ?case
  proof (cases "A ?k = None \<and> cap \<le> card (tenant_series A t)")
    case True
    then obtain n' r where "ingest_spec (Some cap) t ms A = (A', n', r)"
      using Cons.prems(1) by (auto simp: Let_def split: prod.splits)
    from ingest_spec_full [OF this] True show ?thesis
      by auto
  next
    case False
    then obtain n' where "ingest_spec (Some cap) t ms ?A = (A', n', refused)"
      using Cons.prems(1) by (auto simp: Let_def split: prod.splits)
    from Cons.IH [OF this Cons.prems(2)] show ?thesis
      by auto
  qed
qed simp

lemma ingest_uncapped_dom:
  "dom (fst (ingest_spec None t ms A)) = dom A \<union> (\<lambda>m. (t, series_key_of m)) ` set ms"
  by (induction ms arbitrary: A) (auto simp: Let_def split_def)

lemma ingest_capped_dom:
  "dom (fst (ingest_spec (Some cap) t ms A)) \<subseteq> dom A \<union> (\<lambda>m. (t, series_key_of m)) ` set ms"
proof (induction ms arbitrary: A)
  case (Cons m ms)
  show ?case
    using Cons.IH [of A] Cons.IH [of "A((t, series_key_of m) \<mapsto> sort_entry (pulse_merge m (A (t, series_key_of m))))"]
    by (auto simp: Let_def split_def simp del: fun_upd_apply)
qed simp

text \<open>
  A refused series is refused only until the next restart: the log records the whole batch
  before the limit is applied, and replay applies it without the limit. A series that the receipt
  counts as refused and that the running store does not have is there after a reopen, with its
  points, and the tenant is then above the limit.
\<close>

theorem pulse_refused_series_reappears:
  assumes "pulse_history cap ts fs tw fr s" and "pulse_ingest cap ts env t ms s = (Inr rc, s1)"
    and "0 < rc_series_refused rc" and "serde_ok ts fs (PulseWalIngest t ms)"
  shows "\<exists>s' m. m \<in> set ms \<and>
    pulse_open_with_fsync_backend cap fs fr (disk_of (pf_dir s1) (pf_wal s1)) = (Inr s', []) \<and>
    hm_get (px_series (pf_index s1)) (t, series_key_of m) = None \<and>
    hm_get (px_series (pf_index s')) (t, series_key_of m) \<noteq> None \<and>
    cap < card (tenant_series (hm_get (px_series (pf_index s'))) t)"
proof -
  let ?A = "file_contents s" and ?B = "fst (ingest_spec None t ms (file_contents s))"
  have ok: "pulse_file_ok s" and log: "pulse_logged ts fs fr s ?A"
    using pulse_history_inv [OF assms(1)] by auto
  have "(case (ts, env) of (ts, env) \<Rightarrow> pulse_ingest cap ts env) t ms s = (Inr rc, s1)"
    using assms(2) by simp
  from pulse_file.ingest_acked [OF ok this]
  have sp: "ingest_spec (Some cap) t ms ?A = (file_contents s1, rc_count rc, rc_series_refused rc)"
    by simp
  then have ne: "ms \<noteq> []"
    using assms(3) by auto
  from ingest_spec_refuses [OF sp assms(3)] obtain m where m: "m \<in> set ms" "file_contents s1 (t, series_key_of m) = None"
    and full: "cap \<le> card (tenant_series (file_contents s1) t)"
    by auto
  obtain s' where o: "pulse_open_with_fsync_backend cap fs fr (disk_of (pf_dir s1) (pf_wal s1)) = (Inr s', [])"
    and B: "file_contents s' = ?B"
    using pulse_reopen [OF pulse_logged_ingest [OF log ne assms(4,2)], of cap] by blast
  have "insert (series_key_of m) (tenant_series (file_contents s1) t) \<subseteq> tenant_series ?B t"
    using ingest_capped_dom [of cap t ms ?A] ingest_uncapped_dom [of t ms ?A] m(1) sp
    unfolding tenant_series_def by (auto simp del: contents_of_None) blast+
  moreover have "finite (tenant_series ?B t)"
    unfolding B [symmetric] by simp
  ultimately have "card (insert (series_key_of m) (tenant_series (file_contents s1) t)) \<le> card (tenant_series ?B t)"
    by (rule card_mono [rotated])
  moreover have "card (insert (series_key_of m) (tenant_series (file_contents s1) t)) = Suc (card (tenant_series (file_contents s1) t))"
    using m(2) by (subst card_insert_disjoint) (simp, simp add: tenant_series_def, rule refl)
  ultimately have "cap < card (tenant_series (file_contents s') t)"
    using full by (simp only: B)
  moreover have "?B (t, series_key_of m) \<noteq> None"
    using ingest_uncapped_dom [of t ms ?A] m(1) by (auto simp: dom_def)
  ultimately show ?thesis
    using o m unfolding B [symmetric] by (intro exI [of _ s'] exI [of _ m]) simp
qed

text \<open>
  A batch that the codec writes and does not read back, such as one with a NaN value, which the JSON
  writer makes a \<open>null\<close>, is acknowledged, and the store does not open again.
\<close>

theorem pulse_unreadable_batch_blocks_open:
  assumes "pulse_history cap ts fs tw fr s" and "pulse_ingest cap ts env t ms s = (Inr rc, s1)" and "ms \<noteq> []"
    and "ts (PulseWalIngest t ms) = Inr line" and "line \<noteq> []" and "newline \<notin> set line" and "fs (from_utf8_lossy line) = Inl j"
  shows "\<exists>n. pulse_open_with_fsync_backend cap fs fr (disk_of (pf_dir s1) (pf_wal s1)) =
    (Inl (PulsePersistenceFailed (wal_parse_reason n j)), [])"
proof -
  from pulse_history_inv [OF assms(1)] obtain base rs where
    b: "snapshot_base fr (\<lambda>snap. Inr (pulse_load_snapshot snap) :: metric_store_error + _) empty_index (sf_canonical (pf_dir s)) base"
    and rs: "list_all (serde_ok ts fs) rs" "wr_file (pf_wal s) = wal_image (line_of ts) rs" and buf: "wr_buf (pf_wal s) = []"
    by (auto simp: pulse_logged_def durable_as_def)
  from pulse_ingest_append [OF assms(2,3)]
  have a: "append_wal ts pulse_parse pulse_io env (PulseWalIngest t ms) (pf_wal s) = (Inr (), pf_wal s1)"
    and d: "pf_dir s1 = pf_dir s"
    by auto
  have w: "wr_file (pf_wal s1) = wal_image (line_of ts) rs @ line @ newline # []"
    using append_wal_acked [OF a] assms(4) rs(2) buf by (simp add: wr_stream_def)
  have "replay_wal_tolerating_torn_tail fs ''pulse'' (total_apply (pulse_replay_record cap))
      (\<lambda>line err. PulsePersistenceFailed (wal_parse_reason line err)) (wr_file (pf_wal s1)) base =
      (Inl (PulsePersistenceFailed (wal_parse_reason (length rs + 1) j)), fold (pulse_replay_record cap) rs base, [])"
    unfolding w by (rule replay_corruption_refused [where fs = fs, OF _ _ assms(5,6,7)]) (use rs(1) in \<open>simp_all add: serde_ok_all\<close>)
  with b show ?thesis
    unfolding pulse_open_with_fsync_backend_def d
    by (auto simp: pillar_open_def disk_of_def snapshot_base_def split: option.splits)
qed

section \<open>A concrete store\<close>

definition mx_metric :: "string \<Rightarrow> metric" where
  "mx_metric name = \<lparr>mt_name = name, mt_description = [], mt_unit = [], mt_kind = Gauge,
     mt_points = [\<lparr>mp_time_unix_nano = 5, mp_start_time_unix_nano = 0, mp_attributes = [], mp_value = 1\<rparr>],
     mt_resource_attributes = []\<rparr>"

definition mx_one :: "metric list" where "mx_one = [mx_metric ''a'']"

definition mx_two :: "metric list" where "mx_two = [mx_metric ''a'', mx_metric ''b'']"

definition mx_to_string :: "pulse_wal_record \<Rightarrow> string + string" where
  "mx_to_string r = (if r = PulseWalIngest ''t'' mx_one then Inr ''on'' else
     if r = PulseWalIngest ''t'' mx_two then Inr ''tw'' else Inl ''unsupported'')"

definition mx_from_str :: "string \<Rightarrow> string + pulse_wal_record" where
  "mx_from_str l = (if l = ''on'' then Inr (PulseWalIngest ''t'' mx_one) else
     if l = ''tw'' then Inr (PulseWalIngest ''t'' mx_two) else Inl ''expected value'')"

definition mx_to_writer :: "pulse_snapshot_doc \<Rightarrow> (string \<times> string) + string" where
  "mx_to_writer doc = Inl (''unsupported'', [])"

definition mx_from_reader :: "string \<Rightarrow> string + pulse_snapshot_doc" where
  "mx_from_reader b = Inl ''expected value''"

definition mx_io :: append_io where
  "mx_io = \<lparr>io_room = 100, io_write_error = [], io_fsync_error = None\<rparr>"

definition mx_fresh :: pulse_file where
  "mx_fresh = \<lparr>pf_index = empty_index, pf_wal = \<lparr>wr_file = [], wr_buf = [], wr_synced = 0\<rparr>,
     pf_dir = \<lparr>sf_canonical = None, sf_tmp = None, sf_undo = None\<rparr>, pf_events = []\<rparr>"

definition mx_after :: "metric list \<Rightarrow> pulse_file" where
  "mx_after ms = snd (pulse_ingest 1 mx_to_string mx_io ''t'' ms mx_fresh)"

lemma mx_open:
  "pulse_open_with_fsync_backend 1 mx_from_str mx_from_reader
     \<lparr>sd_snapshot = Absent, sd_wal = Absent, sd_append_error = None\<rparr> = (Inr mx_fresh, [])"
  by code_simp

lemma mx_serde:
  "serde_ok mx_to_string mx_from_str (PulseWalIngest ''t'' mx_one)"
  "serde_ok mx_to_string mx_from_str (PulseWalIngest ''t'' mx_two)"
  "torn_unparsable (line_of mx_to_string) mx_from_str (PulseWalIngest ''t'' mx_one)"
  by code_simp+

lemma mx_ingest:
  "pulse_ingest 1 mx_to_string mx_io ''t'' mx_one mx_fresh = (Inr \<lparr>rc_count = 1, rc_series_refused = 0\<rparr>, mx_after mx_one)"
  "pulse_ingest 1 mx_to_string mx_io ''t'' mx_two mx_fresh = (Inr \<lparr>rc_count = 1, rc_series_refused = 1\<rparr>, mx_after mx_two)"
  by code_simp+

lemma mx_history: "pulse_history 1 mx_to_string mx_from_str mx_to_writer mx_from_reader mx_fresh"
  by (rule pulse_history.created [OF mx_open])

theorem pulse_series_bounded_witness:
  "card (tenant_series (hm_get (px_series (pf_index (mx_after mx_two)))) ''t'') \<le> 1"
proof -
  have "metric_run (\<lambda>(ts, env). pulse_ingest 1 ts env) [((mx_to_string, mx_io), ''t'', mx_two)] mx_fresh =
    ([Inr \<lparr>rc_count = 1, rc_series_refused = 1\<rparr>], mx_after mx_two)"
    using mx_ingest(2) by simp
  from pulse_series_bounded [OF mx_open this, of "''t''"] show ?thesis
    by blast
qed

theorem pulse_adapters_agree_witness:
  "\<exists>m' rows. metric_run (\<lambda>_. pulse_mem_ingest 1) [((), ''t'', mx_two)] pulse_mem_new =
       ([Inr \<lparr>rc_count = 1, rc_series_refused = 1\<rparr>], m') \<and>
     fst (pulse_mem_query_with ''t'' ''a'' \<lparr>mr_start_unix_nano = 0, mr_end_unix_nano = 9\<rparr>
       \<lparr>pp_service = None, pp_label_eq = []\<rparr> m') = Inr rows"
proof -
  have "metric_run (\<lambda>(ts, env). pulse_ingest 1 ts env) [((mx_to_string, mx_io), ''t'', mx_two)] mx_fresh =
    (map Inr [\<lparr>rc_count = 1, rc_series_refused = 1\<rparr>], mx_after mx_two)"
    using mx_ingest(2) by simp
  from pulse_adapters_agree [OF mx_open this] show ?thesis
    by (simp only: list.map prod.case) blast
qed

theorem pulse_crash_atomic_witness:
  "\<exists>s' ws. pulse_open_with_fsync_backend 1 mx_from_str mx_from_reader
      (disk_of (pf_dir (mx_after mx_one)) (open_writer (''on'' @ [newline]) 3)) = (Inr s', ws) \<and>
    file_contents s' = file_contents (mx_after mx_one)"
proof -
  have "crash_image (pf_wal (mx_after mx_one)) (''on'' @ [newline])"
    by code_simp
  moreover have "mx_one \<noteq> []"
    by (simp add: mx_one_def)
  ultimately show ?thesis
    using pulse_crash_atomic [OF mx_history mx_ingest(1) _ mx_serde(1,3), of "''on'' @ [newline]"]
    by (auto simp: eval_nat_numeral)
qed

theorem pulse_refused_series_reappears_witness:
  "\<exists>s'. pulse_open_with_fsync_backend 1 mx_from_str mx_from_reader
      (disk_of (pf_dir (mx_after mx_two)) (pf_wal (mx_after mx_two))) = (Inr s', []) \<and>
    1 < card (tenant_series (hm_get (px_series (pf_index s'))) ''t'')"
  using pulse_refused_series_reappears [OF mx_history mx_ingest(2) _ mx_serde(2)] by auto

theorem pulse_unreadable_batch_blocks_open_witness:
  "\<exists>n. pulse_open_with_fsync_backend 1 (\<lambda>_. Inl ''null'') mx_from_reader
      (disk_of (pf_dir (mx_after mx_one)) (pf_wal (mx_after mx_one))) = (Inl (PulsePersistenceFailed (wal_parse_reason n ''null'')), [])"
proof -
  have "pulse_open_with_fsync_backend 1 (\<lambda>_. Inl ''null'') mx_from_reader
     \<lparr>sd_snapshot = Absent, sd_wal = Absent, sd_append_error = None\<rparr> = (Inr mx_fresh, [])"
    by code_simp
  then have h: "pulse_history 1 mx_to_string (\<lambda>_. Inl ''null'') mx_to_writer mx_from_reader mx_fresh"
    by (rule pulse_history.created)
  show ?thesis
    by (rule pulse_unreadable_batch_blocks_open [OF h mx_ingest(1), of "''on''"]) (simp_all add: mx_one_def mx_to_string_def)
qed

end
