(* ===== verification/Rust_Text.thy ===== *)
theory Rust_Text
  imports Edit_Distance "HOL-Library.Log_Nat"
begin

text \<open>
  What the program uses of Rust's text handling beyond bytes: the trimming of Unicode white space,
  the ASCII character classes, and the reading of a decimal as an \<open>f64\<close> and of an \<open>f64\<close> as a
  \<open>u64\<close>. Strings are UTF-8 bytes; an \<open>f64\<close> is its 64 bits.
\<close>

section \<open>White space and ASCII classes\<close>

text \<open>The characters with the Unicode property \<open>White_Space\<close>, as UTF-8.\<close>

definition unicode_whitespace :: "string list" where
  "unicode_whitespace =
     map (\<lambda>n. [char_of n]) [0x09 :: nat, 0x0A, 0x0B, 0x0C, 0x0D, 0x20] @
     map (\<lambda>n. [CHR 0xC2, char_of n]) [0x85 :: nat, 0xA0] @
     [[CHR 0xE1, CHR 0x9A, CHR 0x80]] @
     map (\<lambda>n. [CHR 0xE2, CHR 0x80, char_of n]) ([0x80 :: nat ..< 0x8B] @ [0xA8, 0xA9, 0xAF]) @
     [[CHR 0xE2, CHR 0x81, CHR 0x9F], [CHR 0xE3, CHR 0x80, CHR 0x80]]"

text \<open>\<open>str::trim\<close>.\<close>

definition rust_trim :: "string \<Rightarrow> string" where
  "rust_trim s =
     (let ws = (\<lambda>c. List.member unicode_whitespace c) in
      concat (rev (dropWhile ws (rev (dropWhile ws (utf8_chars s))))))"

definition is_ascii_whitespace :: "char \<Rightarrow> bool" where
  "is_ascii_whitespace c = List.member [CHR 0x09, CHR 0x0A, CHR 0x0C, CHR 0x0D, CHR 0x20] c"

definition byte_in :: "nat \<Rightarrow> nat \<Rightarrow> char \<Rightarrow> bool" where
  "byte_in lo hi c = (lo \<le> of_char c \<and> of_char c \<le> hi)"

definition is_ascii_digit :: "char \<Rightarrow> bool" where
  "is_ascii_digit c = byte_in 48 57 c"

definition is_ascii_alphabetic :: "char \<Rightarrow> bool" where
  "is_ascii_alphabetic c = (byte_in 65 90 c \<or> byte_in 97 122 c)"

definition is_ascii_alphanumeric :: "char \<Rightarrow> bool" where
  "is_ascii_alphanumeric c = (is_ascii_alphabetic c \<or> is_ascii_digit c)"

definition to_ascii_lowercase :: "char \<Rightarrow> char" where
  "to_ascii_lowercase c = (if byte_in 65 90 c then char_of (of_char c + 32 :: nat) else c)"

definition eq_ignore_ascii_case :: "string \<Rightarrow> string \<Rightarrow> bool" where
  "eq_ignore_ascii_case a b = (map to_ascii_lowercase a = map to_ascii_lowercase b)"

text \<open>A text of visible ASCII characters is its own trimming.\<close>

lemma utf8_chars_ascii_Cons:
  "cs = [] \<or> \<not> utf8_continuation (hd cs) \<Longrightarrow> utf8_chars (c # cs) = [c] # utf8_chars cs"
  by (cases cs) auto

lemma ascii_not_continuation: "of_char c < (128 :: nat) \<Longrightarrow> \<not> utf8_continuation c"
  by (simp add: utf8_continuation_def)

lemma utf8_chars_ascii: "list_all (\<lambda>c. of_char c < (128 :: nat)) s \<Longrightarrow> utf8_chars s = map (\<lambda>c. [c]) s"
proof (induction s)
  case (Cons c s)
  then have "s = [] \<or> \<not> utf8_continuation (hd s)"
    by (cases s) (simp_all add: ascii_not_continuation)
  with utf8_chars_ascii_Cons Cons show ?case
    by simp
qed simp

lemma visible_not_whitespace: "byte_in 33 126 c \<Longrightarrow> [c] \<notin> set unicode_whitespace"
  by (auto simp: unicode_whitespace_def byte_in_def)

lemma rust_trim_visible:
  assumes "list_all (byte_in 33 126) s"
  shows "rust_trim s = s"
proof -
  have chars: "utf8_chars s = map (\<lambda>c. [c]) s"
    using assms by (intro utf8_chars_ascii) (auto simp: list_all_iff byte_in_def)
  have "dropWhile (\<lambda>c. List.member unicode_whitespace c) (map (\<lambda>c. [c]) t) = map (\<lambda>c. [c]) t"
    if "list_all (byte_in 33 126) t" for t
    using that by (cases t) (simp_all add: visible_not_whitespace)
  from this [OF assms] this [of "rev s"] assms show ?thesis
    by (simp add: rust_trim_def chars rev_map [symmetric] concat_map_singleton)
qed

section \<open>Saturating arithmetic\<close>

text \<open>\<open>u64::saturating_sub\<close> and \<open>u64::saturating_mul\<close>.\<close>

definition saturating_sub :: "u64 \<Rightarrow> u64 \<Rightarrow> u64" where
  "saturating_sub a b = (if b \<le> a then a - b else 0)"

definition saturating_mul :: "u64 \<Rightarrow> u64 \<Rightarrow> u64" where
  "saturating_mul a b = (if uint a * uint b < 2 ^ 64 then a * b else - 1)"

section \<open>Reading an \<open>f64\<close>\<close>

definition f64_exponent :: "u64 \<Rightarrow> nat" where
  "f64_exponent x = unat x div 2 ^ 52 mod 2 ^ 11"

definition f64_fraction :: "u64 \<Rightarrow> nat" where
  "f64_fraction x = unat x mod 2 ^ 52"

definition f64_sign_negative :: "u64 \<Rightarrow> bool" where
  "f64_sign_negative x = (2 ^ 63 \<le> unat x)"

definition f64_is_finite :: "u64 \<Rightarrow> bool" where
  "f64_is_finite x = (f64_exponent x \<noteq> 2047)"

definition f64_is_nan :: "u64 \<Rightarrow> bool" where
  "f64_is_nan x = (f64_exponent x = 2047 \<and> f64_fraction x \<noteq> 0)"

definition f64_is_infinite :: "u64 \<Rightarrow> bool" where
  "f64_is_infinite x = (f64_exponent x = 2047 \<and> f64_fraction x = 0)"

definition f64_is_zero :: "u64 \<Rightarrow> bool" where
  "f64_is_zero x = (f64_exponent x = 0 \<and> f64_fraction x = 0)"

text \<open>\<open>x >= 0.0\<close>: true of both zeros, false of every NaN.\<close>

definition f64_ge_zero :: "u64 \<Rightarrow> bool" where
  "f64_ge_zero x = (\<not> f64_is_nan x \<and> (\<not> f64_sign_negative x \<or> f64_is_zero x))"

text \<open>\<open>x as u64\<close>: truncation toward zero, saturating at both ends, zero for NaN.\<close>

definition f64_as_u64 :: "u64 \<Rightarrow> u64" where
  "f64_as_u64 x =
     (if f64_is_nan x \<or> f64_sign_negative x then 0
      else if f64_is_infinite x then - 1
      else
        let e = f64_exponent x;
            m = (if e = 0 then f64_fraction x else 2 ^ 52 + f64_fraction x);
            n = (if 1075 \<le> e then m * 2 ^ (e - 1075) else m div 2 ^ (1075 - max e 1))
        in word_of_nat (min n (2 ^ 64 - 1)))"

section \<open>Parsing an \<open>f64\<close>\<close>

text \<open>The \<open>f64\<close> nearest to \<open>n / d\<close>, ties to even; a value beyond the largest is infinite.\<close>

definition round_half_even :: "nat \<Rightarrow> nat \<Rightarrow> nat" where
  "round_half_even a b =
     (let q = a div b; r = a mod b in if b < 2 * r \<or> (2 * r = b \<and> odd q) then q + 1 else q)"

definition ratio_ge_pow2 :: "nat \<Rightarrow> nat \<Rightarrow> int \<Rightarrow> bool" where
  "ratio_ge_pow2 n d e = (if 0 \<le> e then d * 2 ^ nat e \<le> n else d \<le> n * 2 ^ nat (- e))"

definition ratio_exponent :: "nat \<Rightarrow> nat \<Rightarrow> int" where
  "ratio_exponent n d =
     (let e = int (floorlog 2 n) - int (floorlog 2 d) in if ratio_ge_pow2 n d e then e else e - 1)"

definition f64_of_ratio :: "nat \<Rightarrow> nat \<Rightarrow> u64" where
  "f64_of_ratio n d =
     (if n = 0 then 0
      else
        let q = max (ratio_exponent n d - 52) (- 1074);
            m = (if 0 \<le> q then round_half_even n (d * 2 ^ nat q) else round_half_even (n * 2 ^ nat (- q)) d)
        in word_of_nat (min (nat (q + 1074) * 2 ^ 52 + m) (2047 * 2 ^ 52)))"

definition digits_value :: "string \<Rightarrow> nat" where
  "digits_value ds = fold (\<lambda>c n. 10 * n + (of_char c - 48)) ds 0"

definition strip_sign :: "string \<Rightarrow> bool \<times> string" where
  "strip_sign s =
     (case s of [] \<Rightarrow> (False, [])
      | c # rest \<Rightarrow> if c = CHR ''-'' then (True, rest) else if c = CHR ''+'' then (False, rest) else (False, s))"

text \<open>The exponent part: nothing, or \<open>e\<close>, a sign and digits.\<close>

definition parse_f64_exponent :: "string \<Rightarrow> int option" where
  "parse_f64_exponent s =
     (case s of
        [] \<Rightarrow> Some 0
      | c # rest \<Rightarrow>
          if to_ascii_lowercase c \<noteq> CHR ''e'' then None
          else
            let (neg, ds) = strip_sign rest
            in if ds = [] \<or> \<not> list_all is_ascii_digit ds then None
               else Some (if neg then - int (digits_value ds) else int (digits_value ds)))"

definition parse_f64_number :: "string \<Rightarrow> u64 option" where
  "parse_f64_number s =
     (let whole = takeWhile is_ascii_digit s;
          rest = dropWhile is_ascii_digit s;
          (frac, rest) = (if rest \<noteq> [] \<and> hd rest = CHR ''.''
             then (takeWhile is_ascii_digit (tl rest), dropWhile is_ascii_digit (tl rest)) else ([], rest))
      in if whole = [] \<and> frac = [] then None
         else
           case parse_f64_exponent rest of
             None \<Rightarrow> None
           | Some e \<Rightarrow>
               let n = digits_value (whole @ frac); e' = e - int (length frac) in
               Some (if 0 \<le> e' then f64_of_ratio (n * 10 ^ nat e') 1 else f64_of_ratio n (10 ^ nat (- e'))))"

definition parse_f64_unsigned :: "string \<Rightarrow> u64 option" where
  "parse_f64_unsigned s =
     (if eq_ignore_ascii_case s ''inf'' \<or> eq_ignore_ascii_case s ''infinity'' then Some (word_of_nat (2047 * 2 ^ 52))
      else if eq_ignore_ascii_case s ''nan'' then Some (word_of_nat (2047 * 2 ^ 52 + 2 ^ 51))
      else parse_f64_number s)"

text \<open>\<open>str::parse::<f64>\<close>.\<close>

definition parse_f64 :: "string \<Rightarrow> u64 option" where
  "parse_f64 s =
     (case strip_sign s of (neg, rest) \<Rightarrow>
        map_option (\<lambda>x. if neg then x + word_of_nat (2 ^ 63) else x) (parse_f64_unsigned rest))"

text \<open>\<open>u64::from_str\<close>: an optional plus sign and at least one digit, within 64 bits.\<close>

definition parse_u64 :: "string \<Rightarrow> nat option" where
  "parse_u64 s =
     (let ds = (if s \<noteq> [] \<and> hd s = CHR ''+'' then tl s else s) in
      if ds \<noteq> [] \<and> list_all is_ascii_digit ds \<and> digits_value ds < 2 ^ 64 then Some (digits_value ds) else None)"

section \<open>Whole numbers are read exactly\<close>

lemma ratio_exponent_eq:
  assumes "2 ^ e * d \<le> n" and "n < 2 ^ Suc e * d"
  shows "ratio_exponent n d = int e"
proof -
  have d: "0 < d"
    using assms by (intro Nat.gr0I) simp
  have n: "0 < n"
    using assms(1) d by (intro Nat.gr0I) simp
  let ?ln = "floorlog 2 n" and ?ld = "floorlog 2 d"
  have ln: "2 ^ (?ln - 1) \<le> n" "n < 2 ^ ?ln" "0 < ?ln" and ld: "2 ^ (?ld - 1) \<le> d" "d < 2 ^ ?ld" "0 < ?ld"
    using floorlog_bounds [of n 2] floorlog_bounds [of d 2] n d by (auto simp: floorlog_def)
  have "(2 :: nat) ^ (e + (?ld - 1)) < 2 ^ ?ln"
    using assms(1) ld(1) ln(2) by (simp add: power_add) (meson le_trans less_le_trans mult_le_mono2 not_less)
  then have lo: "e + ?ld \<le> ?ln"
    using ld(3) by (simp add: power_strict_increasing_iff)
  have "(2 :: nat) ^ (?ln - 1) < 2 ^ Suc e * 2 ^ ?ld"
    using assms(2) ld(2) ln(1) by (meson le_less_trans less_imp_le_nat mult_le_mono2 order_less_le_trans)
  then have "(2 :: nat) ^ (?ln - 1) < 2 ^ (Suc e + ?ld)"
    by (simp only: power_add)
  from power_less_imp_less_exp [OF _ this] have hi: "?ln \<le> e + ?ld + 1"
    by simp
  consider "?ln = e + ?ld" | "?ln = e + ?ld + 1"
    using lo hi by linarith
  then show ?thesis
  proof cases
    case 1
    then have "int ?ln - int ?ld = int e"
      by simp
    then show ?thesis
      using assms(1) by (simp add: ratio_exponent_def ratio_ge_pow2_def Let_def mult.commute)
  next
    case 2
    then have "int ?ln - int ?ld = int (Suc e)"
      by simp
    then show ?thesis
      using assms(2) by (simp add: ratio_exponent_def ratio_ge_pow2_def Let_def mult.commute nat_add_distrib)
  qed
qed

lemma round_half_even_exact: "0 < b \<Longrightarrow> round_half_even (a * b) b = a"
  by (simp add: round_half_even_def)

lemma binary_range:
  fixes n :: nat
  assumes "0 < n" and "n < 2 ^ 53"
  obtains e where "e \<le> 52" and "2 ^ e \<le> n" and "n < 2 ^ Suc e"
proof -
  have b: "2 ^ (floorlog 2 n - 1) \<le> n" "n < 2 ^ floorlog 2 n" and pos: "0 < floorlog 2 n"
    using floorlog_bounds [of n 2] assms(1) by (auto simp: floorlog_def)
  have "(2 :: nat) ^ (floorlog 2 n - 1) < 2 ^ 53"
    using b(1) assms(2) by (rule le_less_trans)
  from power_less_imp_less_exp [OF _ this] have "floorlog 2 n - 1 \<le> 52"
    by simp
  with b pos that [of "floorlog 2 n - 1"] show thesis
    by simp
qed

lemma f64_of_ratio_whole:
  assumes "e \<le> 52" and "2 ^ e \<le> n" and "n < 2 ^ Suc e" and "0 < d"
  shows "f64_of_ratio (n * d) d = word_of_nat ((e + 1022) * 2 ^ 52 + n * 2 ^ (52 - e))"
proof -
  have r: "ratio_exponent (n * d) d = int e"
    using assms by (intro ratio_exponent_eq) simp_all
  have m: "(if 0 \<le> int e - 52 then round_half_even (n * d) (d * 2 ^ nat (int e - 52))
      else round_half_even (n * d * 2 ^ nat (- (int e - 52))) d) = n * 2 ^ (52 - e)"
  proof (cases "e = 52")
    case True
    with assms(4) show ?thesis
      by (simp add: round_half_even_exact)
  next
    case False
    then have "nat (- (int e - 52)) = 52 - e" "\<not> 0 \<le> int e - 52"
      using assms(1) by auto
    then show ?thesis
      using round_half_even_exact [OF assms(4), of "n * 2 ^ (52 - e)"] by (simp add: ac_simps)
  qed
  have "n * 2 ^ (52 - e) < 2 ^ Suc e * 2 ^ (52 - e)"
    using assms(3) by simp
  also have "\<dots> = 2 ^ 53"
    using assms(1) by (simp flip: power_add)
  finally have "(e + 1022) * 2 ^ 52 + n * 2 ^ (52 - e) \<le> 2047 * 2 ^ 52"
    using assms(1) by simp
  moreover have "max (int e - 52) (- 1074) = int e - 52" "nat (int e - 52 + 1074) = e + 1022"
    by auto
  ultimately show ?thesis
    using assms(2,4) unfolding f64_of_ratio_def Let_def r by (simp only: m) (auto simp: min_def)
qed

lemma f64_whole_bits:
  assumes "e \<le> 52" and "2 ^ e \<le> n" and "n < 2 ^ Suc e"
  defines "x \<equiv> word_of_nat ((e + 1022) * 2 ^ 52 + n * 2 ^ (52 - e)) :: u64"
  shows "f64_exponent x = e + 1023" and "2 ^ 52 + f64_fraction x = n * 2 ^ (52 - e)" and "\<not> f64_sign_negative x"
proof -
  let ?m = "n * 2 ^ (52 - e)" and ?P = "2 ^ 52 :: nat"
  have split: "2 ^ e * 2 ^ (52 - e) = ?P" "2 ^ Suc e * 2 ^ (52 - e) = 2 * ?P"
    using assms(1) by (simp_all flip: power_add)
  have "2 ^ e * 2 ^ (52 - e) \<le> ?m" "?m < 2 ^ Suc e * 2 ^ (52 - e)"
    using assms(2,3) by simp_all
  then have m: "?P \<le> ?m" "?m < 2 * ?P"
    unfolding split by simp_all
  define f where "f = ?m - ?P"
  have f: "?m = ?P + f" "f < ?P"
    using m by (simp_all add: f_def)
  have sum: "(e + 1022) * ?P + ?m = (e + 1023) * ?P + f"
    unfolding f(1) by simp
  have small: "(e + 1023) * ?P + f < 2 ^ 63"
    using assms(1) f(2) by simp
  then have w: "unat x = (e + 1023) * ?P + f"
    unfolding x_def sum unat_of_nat by (intro mod_less) simp
  show "f64_exponent x = e + 1023"
    using assms(1) f(2) unfolding f64_exponent_def w by simp
  show "2 ^ 52 + f64_fraction x = ?m"
    using f(2) unfolding f64_fraction_def w f(1) by (simp only: mod_mult_self3 mod_less)
  show "\<not> f64_sign_negative x"
    using small unfolding f64_sign_negative_def w by simp
qed

lemma f64_as_u64_bits:
  assumes "f64_exponent x = e + 1023" and "2 ^ 52 + f64_fraction x = n * 2 ^ (52 - e)" and "\<not> f64_sign_negative x"
    and "e \<le> 52" and "n < 2 ^ 53"
  shows "f64_as_u64 x = word_of_nat n"
proof -
  have "(if 1075 \<le> e + 1023 then n * 2 ^ (52 - e) * 2 ^ (e + 1023 - 1075)
      else n * 2 ^ (52 - e) div 2 ^ (1075 - max (e + 1023) 1)) = n"
  proof (cases "e = 52")
    case False
    then have "\<not> 1075 \<le> e + 1023" "1075 - max (e + 1023) 1 = 52 - e"
      using assms(4) by auto
    then show ?thesis
      by simp
  qed simp
  then have "f64_as_u64 x = word_of_nat (min n (2 ^ 64 - 1))"
    using assms(3,4) unfolding f64_as_u64_def f64_is_nan_def f64_is_infinite_def assms(1) Let_def
    by (simp only: assms(2)) simp
  moreover have "min n (2 ^ 64 - 1) = n"
    using assms(5) by simp
  ultimately show ?thesis
    by (simp only:)
qed

lemma f64_of_ratio_exact:
  assumes "n < 2 ^ 53" and "0 < d"
  shows "f64_as_u64 (f64_of_ratio (n * d) d) = word_of_nat n"
    and "f64_is_finite (f64_of_ratio (n * d) d)" and "f64_ge_zero (f64_of_ratio (n * d) d)"
proof -
  let ?x = "f64_of_ratio (n * d) d"
  have "f64_as_u64 ?x = word_of_nat n \<and> f64_is_finite ?x \<and> f64_ge_zero ?x"
  proof (cases "n = 0")
    case True
    have "f64_of_ratio 0 d = 0"
      by (simp add: f64_of_ratio_def)
    with True show ?thesis
      by (simp add: f64_as_u64_def f64_is_nan_def f64_is_infinite_def f64_exponent_def f64_fraction_def f64_sign_negative_def
          f64_is_finite_def f64_ge_zero_def)
  next
    case False
    then obtain e where e: "e \<le> 52" "2 ^ e \<le> n" "n < 2 ^ Suc e"
      using binary_range [of n] assms(1) by auto
    note bits = f64_whole_bits [OF e, folded f64_of_ratio_whole [OF e assms(2)]]
    from f64_as_u64_bits [OF bits e(1) assms(1)] bits(1,3) e(1) show ?thesis
      by (simp add: f64_is_finite_def f64_ge_zero_def f64_is_nan_def)
  qed
  then show "f64_as_u64 ?x = word_of_nat n" "f64_is_finite ?x" "f64_ge_zero ?x"
    by blast+
qed

lemma nat_str_digits: "list_all is_ascii_digit (nat_str n) \<and> nat_str n \<noteq> []"
proof (induction n rule: nat_str.induct)
  case (1 n)
  have "is_ascii_digit (char_of (48 + k))" if "k < 10" for k :: nat
    using that by (simp add: is_ascii_digit_def byte_in_def)
  with 1 show ?case
    by (subst (1 2) nat_str.simps) simp
qed

lemma digits_value_snoc: "digits_value (ds @ [c]) = 10 * digits_value ds + (of_char c - 48)"
  by (simp add: digits_value_def)

lemma digits_value_nat_str: "digits_value (nat_str n) = n"
proof (induction n rule: nat_str.induct)
  case (1 n)
  show ?case
  proof (cases "n < 10")
    case True
    then show ?thesis
      by (subst nat_str.simps) (simp add: digits_value_def)
  next
    case False
    with 1 show ?thesis
      by (subst nat_str.simps) (simp add: digits_value_snoc)
  qed
qed

lemma digit_not:
  assumes "is_ascii_digit c"
  shows "c \<noteq> CHR ''-''" "c \<noteq> CHR ''+''" "to_ascii_lowercase c = c" "c \<noteq> CHR ''i''" "c \<noteq> CHR ''n''" "byte_in 33 126 c"
  using assms by (auto simp: is_ascii_digit_def byte_in_def to_ascii_lowercase_def)

lemma parse_f64_digit_Cons:
  assumes "is_ascii_digit c"
  shows "parse_f64 (c # cs) = parse_f64_number (c # cs)"
proof -
  have "to_ascii_lowercase CHR ''i'' = CHR ''i''" "to_ascii_lowercase CHR ''n'' = CHR ''n''"
    by (simp_all add: to_ascii_lowercase_def byte_in_def)
  with digit_not [OF assms] show ?thesis
    by (simp add: parse_f64_def strip_sign_def parse_f64_unsigned_def eq_ignore_ascii_case_def option.map_id0 id_def [symmetric])
qed

lemma parse_f64_number_digits:
  assumes "list_all is_ascii_digit ds" and "ds \<noteq> []"
  shows "parse_f64_number ds = Some (f64_of_ratio (digits_value ds) 1)"
    and "parse_f64_number (ds @ ''.0'') = Some (f64_of_ratio (digits_value ds * 10) 10)"
proof -
  have t: "takeWhile is_ascii_digit ds = ds" "dropWhile is_ascii_digit ds = []"
    using assms(1) by (simp_all add: list_all_iff takeWhile_eq_all_conv dropWhile_eq_Nil_conv)
  have d: "is_ascii_digit CHR ''0''" "\<not> is_ascii_digit CHR ''.''"
    by (simp_all add: is_ascii_digit_def byte_in_def)
  show "parse_f64_number ds = Some (f64_of_ratio (digits_value ds) 1)"
    using assms(2) unfolding parse_f64_number_def t Let_def by (simp add: parse_f64_exponent_def)
  have "takeWhile is_ascii_digit (ds @ ''.0'') = ds" "dropWhile is_ascii_digit (ds @ ''.0'') = ''.0''"
    using assms(1) d(2) by (simp_all add: list_all_iff takeWhile_append2 dropWhile_append2)
  then show "parse_f64_number (ds @ ''.0'') = Some (f64_of_ratio (digits_value ds * 10) 10)"
    using assms(2) d(1) by (simp add: parse_f64_number_def parse_f64_exponent_def digits_value_snoc mult.commute)
qed

lemma parse_f64_nat_str:
  "parse_f64 (nat_str n) = Some (f64_of_ratio n 1)"
  "parse_f64 (nat_str n @ ''.0'') = Some (f64_of_ratio (n * 10) 10)"
proof -
  obtain c cs where c: "nat_str n = c # cs" "is_ascii_digit c"
    using nat_str_digits [of n] by (cases "nat_str n") auto
  from parse_f64_number_digits [of "nat_str n"] nat_str_digits [of n] parse_f64_digit_Cons [OF c(2)]
  show "parse_f64 (nat_str n) = Some (f64_of_ratio n 1)"
    "parse_f64 (nat_str n @ ''.0'') = Some (f64_of_ratio (n * 10) 10)"
    using digits_value_nat_str [of n] by (simp_all add: c(1))
qed

lemma rust_trim_nat_str: "rust_trim (nat_str n) = nat_str n" "rust_trim (nat_str n @ ''.0'') = nat_str n @ ''.0''"
  using nat_str_digits [of n] digit_not(6) by (intro rust_trim_visible; auto simp: list_all_iff byte_in_def)+

section \<open>Whole numbers as doubles\<close>

lemma round_half_even_range:
  assumes "0 < b" and "k * b \<le> a" and "a \<le> l * b"
  shows "k \<le> round_half_even a b" and "round_half_even a b \<le> l"
proof -
  show "k \<le> round_half_even a b"
    using assms(1,2) by (auto simp: round_half_even_def Let_def less_eq_div_iff_mult_less_eq intro: le_SucI)
  have "a div b < l \<or> a = l * b"
    using assms(1,3) by (metis div_less_iff_less_mult le_neq_implies_less)
  then show "round_half_even a b \<le> l"
    using assms(1) by (auto simp: round_half_even_def Let_def)
qed

text \<open>The significand of a whole number as an \<open>f64\<close>, by its binary exponent.\<close>

definition int_significand :: "nat \<Rightarrow> nat \<Rightarrow> nat" where
  "int_significand e n = (if 52 \<le> e then round_half_even n (2 ^ (e - 52)) else n * 2 ^ (52 - e))"

lemma int_significand_range:
  assumes "2 ^ e \<le> n" and "n < 2 ^ Suc e"
  shows "2 ^ 52 \<le> int_significand e n" and "int_significand e n \<le> 2 ^ 53"
proof -
  have p: "(2 :: nat) ^ 52 * 2 ^ (e - 52) = 2 ^ e" "(2 :: nat) ^ 53 * 2 ^ (e - 52) = 2 ^ Suc e" if "52 \<le> e"
  proof -
    have "52 + (e - 52) = e" "53 + (e - 52) = Suc e"
      using that by simp_all
    then show "(2 :: nat) ^ 52 * 2 ^ (e - 52) = 2 ^ e" "(2 :: nat) ^ 53 * 2 ^ (e - 52) = 2 ^ Suc e"
      by (simp_all only: power_add [symmetric])
  qed
  have q: "(2 :: nat) ^ e * 2 ^ (52 - e) = 2 ^ 52" "(2 :: nat) ^ Suc e * 2 ^ (52 - e) = 2 ^ 53" if "\<not> 52 \<le> e"
    using that by (simp_all flip: power_add)
  have "2 ^ 52 \<le> int_significand e n \<and> int_significand e n \<le> 2 ^ 53"
  proof (cases "52 \<le> e")
    case True
    with round_half_even_range [of "2 ^ (e - 52)" "2 ^ 52" n "2 ^ 53", unfolded p [OF True]] assms show ?thesis
      by (simp add: int_significand_def)
  next
    case False
    with mult_le_mono1 [OF assms(1), of "2 ^ (52 - e)", unfolded q [OF False]]
      mult_le_mono1 [OF less_imp_le [OF assms(2)], of "2 ^ (52 - e)", unfolded q [OF False]] show ?thesis
      by (simp add: int_significand_def)
  qed
  then show "2 ^ 52 \<le> int_significand e n" "int_significand e n \<le> 2 ^ 53"
    by simp_all
qed

lemma int_as_f64:
  assumes "2 ^ e \<le> n" and "n < 2 ^ Suc e" and "e \<le> 63"
  shows "f64_of_ratio n 1 = word_of_nat ((e + 1022) * 2 ^ 52 + int_significand e n)"
proof -
  have r: "ratio_exponent n 1 = int e"
    using assms by (intro ratio_exponent_eq) simp_all
  have "max (int e - 52) (- 1074) = int e - 52" "nat (int e - 52 + 1074) = e + 1022"
    by auto
  moreover have "(if 0 \<le> int e - 52 then round_half_even n (1 * 2 ^ nat (int e - 52))
      else round_half_even (n * 2 ^ nat (- (int e - 52))) 1) = int_significand e n"
    using round_half_even_exact [of 1 "n * 2 ^ (52 - e)"] by (simp add: int_significand_def nat_diff_distrib)
  moreover have "(e + 1022) * 2 ^ 52 + int_significand e n \<le> 2047 * 2 ^ 52"
    using int_significand_range(2) [OF assms(1,2)] assms(3) by simp
  ultimately show ?thesis
    using assms(1) unfolding f64_of_ratio_def Let_def r by (simp only:) (auto simp: min_def)
qed

lemma f64_of_ratio_unsigned: "unat (f64_of_ratio n d) < 2 ^ 63"
proof -
  have "unat (word_of_nat (min x (2047 * 2 ^ 52)) :: u64) < 2 ^ 63" for x
  proof -
    have "min x (2047 * 2 ^ 52) < 2 ^ 63" "(2 :: nat) ^ 63 < 2 ^ LENGTH(64)"
      by (auto simp: min_def)
    then show ?thesis
      by (simp add: unat_of_nat take_bit_nat_eq_self)
  qed
  then show ?thesis
    by (simp add: f64_of_ratio_def Let_def)
qed

end
