(* ===== verification/Aegis_Tenancy.thy ===== *)
theory Aegis_Tenancy
  imports Kal_Prelude
begin

text \<open>
  Aegis (\<open>crates/aegis/src\<close>): the tenant catalogue and the validation of a JWT. The decoding of a
  token and the check of its signature are \<open>jsonwebtoken\<close>'s, the parameter \<open>decode\<close>; TOML is the
  parameter \<open>from_str\<close>. The audit trail is a list of events.
\<close>

section \<open>The catalogue (\<open>catalogue.rs\<close>)\<close>

record tenant_record =
  tr_id :: tenant_id
  tr_display_name :: "string option"
  tr_notes :: "string option"

type_synonym tenant_catalogue = "(tenant_id, tenant_record) hash_map"

datatype catalogue_error = CatalogueRead string string | CatalogueParse string string | DuplicateTenant tenant_id

fun catalogue_error_display :: "catalogue_error \<Rightarrow> string" where
  "catalogue_error_display (CatalogueRead path message) = ''cannot read tenant catalogue '' @ path @ '': '' @ message"
| "catalogue_error_display (CatalogueParse path message) = path @ '': '' @ message"
| "catalogue_error_display (DuplicateTenant i) = ''duplicate tenant id: '' @ i"

fun catalogue_insert_all ::
  "tenant_record list \<Rightarrow> tenant_id list \<Rightarrow> tenant_catalogue \<Rightarrow> catalogue_error + tenant_catalogue" where
  "catalogue_insert_all [] seen by_id = Inr by_id"
| "catalogue_insert_all (r # rs) seen by_id =
     (if List.member seen (tr_id r) then Inl (DuplicateTenant (tr_id r))
      else catalogue_insert_all rs (tr_id r # seen) (hm_insert (tr_id r) r by_id))"

definition catalogue_from_records :: "tenant_record list \<Rightarrow> catalogue_error + tenant_catalogue" where
  "catalogue_from_records records = catalogue_insert_all records [] []"

definition catalogue_contains :: "tenant_catalogue \<Rightarrow> tenant_id \<Rightarrow> bool" where
  "catalogue_contains cat t = hm_contains cat t"

definition catalogue_get :: "tenant_catalogue \<Rightarrow> tenant_id \<Rightarrow> tenant_record option" where
  "catalogue_get cat t = hm_get cat t"

record raw_tenant =
  rt_id :: string
  rt_display_name :: "string option"
  rt_notes :: "string option"

text \<open>\<open>file\<close> is what \<open>fs::read_to_string\<close> returns for the path.\<close>

definition load_catalogue ::
  "(string \<Rightarrow> string + raw_tenant list) \<Rightarrow> string \<Rightarrow> string + string \<Rightarrow> catalogue_error + tenant_catalogue" where
  "load_catalogue from_str path file =
     (case file of
        Inl e \<Rightarrow> Inl (CatalogueRead path e)
      | Inr text \<Rightarrow>
          (case from_str text of
             Inl e \<Rightarrow> Inl (CatalogueParse path e)
           | Inr tenants \<Rightarrow> catalogue_from_records (map (\<lambda>t.
               \<lparr>tr_id = rt_id t, tr_display_name = rt_display_name t, tr_notes = rt_notes t\<rparr>) tenants)))"

section \<open>The validator (\<open>validator.rs\<close>)\<close>

datatype role = Viewer | Operator

fun role_str :: "role \<Rightarrow> string" where
  "role_str Viewer = ''viewer''"
| "role_str Operator = ''operator''"

record tenant_context =
  tc_tenant_id :: tenant_id
  tc_role :: role

datatype validation_error =
  InvalidSignature | Expired | WrongIssuer | WrongAudience | MissingClaim string | UnknownTenant | UnknownRole | Malformed

fun validation_reason :: "validation_error \<Rightarrow> string" where
  "validation_reason InvalidSignature = ''invalid_signature''"
| "validation_reason Expired = ''expired''"
| "validation_reason WrongIssuer = ''wrong_issuer''"
| "validation_reason WrongAudience = ''wrong_audience''"
| "validation_reason (MissingClaim _) = ''missing_claim''"
| "validation_reason UnknownTenant = ''unknown_tenant''"
| "validation_reason UnknownRole = ''unknown_role''"
| "validation_reason Malformed = ''malformed''"

record validator =
  va_issuer :: string
  va_audience :: string
  va_key :: string
  va_catalogue :: tenant_catalogue

record raw_claims =
  cl_iss :: "string option"
  cl_aud :: "string option"
  cl_exp :: "64 word option"
  cl_tenant_id :: "string option"
  cl_kaleidoscope_role :: "string option"

datatype jwt_error_kind =
  JwtInvalidSignature | JwtInvalidToken | JwtInvalidKeyFormat | JwtBase64 | JwtJson | JwtUtf8 | JwtOther

fun map_jwt_err :: "jwt_error_kind \<Rightarrow> validation_error" where
  "map_jwt_err JwtInvalidSignature = InvalidSignature"
| "map_jwt_err _ = Malformed"

text \<open>Whole seconds since the epoch as an \<open>i64\<close>; zero before the epoch.\<close>

definition now_secs :: "system_time \<Rightarrow> 64 word" where
  "now_secs now = (case duration_since now 0 of Inl _ \<Rightarrow> 0 | Inr d \<Rightarrow> word_of_nat (d div 1000000000))"

definition validate_inner ::
  "(string \<Rightarrow> string \<Rightarrow> jwt_error_kind + raw_claims) \<Rightarrow> validator \<Rightarrow> string \<Rightarrow> system_time \<Rightarrow>
   validation_error + tenant_context" where
  "validate_inner decode v token now =
     (case decode (va_key v) token of
        Inl e \<Rightarrow> Inl (map_jwt_err e)
      | Inr claims \<Rightarrow>
        if cl_iss claims \<noteq> Some (va_issuer v) then Inl WrongIssuer
        else if cl_aud claims \<noteq> Some (va_audience v) then Inl WrongAudience
        else case cl_exp claims of
          None \<Rightarrow> Inl (MissingClaim ''exp'')
        | Some ex \<Rightarrow>
          if sint ex \<le> sint (now_secs now) then Inl Expired
          else case cl_tenant_id claims of
            None \<Rightarrow> Inl (MissingClaim ''tenant_id'')
          | Some tenant \<Rightarrow>
            if \<not> catalogue_contains (va_catalogue v) tenant then Inl UnknownTenant
            else case cl_kaleidoscope_role claims of
              None \<Rightarrow> Inl (MissingClaim ''kaleidoscope_role'')
            | Some r \<Rightarrow>
              if r = ''viewer'' then Inr \<lparr>tc_tenant_id = tenant, tc_role = Viewer\<rparr>
              else if r = ''operator'' then Inr \<lparr>tc_tenant_id = tenant, tc_role = Operator\<rparr>
              else Inl UnknownRole)"

record audit_event =
  ae_tenant_id :: string
  ae_role :: string
  ae_allow :: bool
  ae_subject :: string
  ae_reason :: string

definition audit_deny :: "string \<Rightarrow> string \<Rightarrow> audit_event" where
  "audit_deny subject reason =
     \<lparr>ae_tenant_id = [], ae_role = [], ae_allow = False, ae_subject = subject, ae_reason = reason\<rparr>"

definition validate_with_subject ::
  "(string \<Rightarrow> string \<Rightarrow> jwt_error_kind + raw_claims) \<Rightarrow> validator \<Rightarrow> string \<Rightarrow> system_time \<Rightarrow> string \<Rightarrow>
   (validation_error + tenant_context) \<times> audit_event list" where
  "validate_with_subject decode v token now subject =
     (let result = validate_inner decode v token now in
      (result,
       [case result of
          Inr ctx \<Rightarrow> \<lparr>ae_tenant_id = tc_tenant_id ctx, ae_role = role_str (tc_role ctx), ae_allow = True,
                      ae_subject = subject, ae_reason = ''allow''\<rparr>
        | Inl err \<Rightarrow> audit_deny subject (validation_reason err)]))"

definition validate ::
  "(string \<Rightarrow> string \<Rightarrow> jwt_error_kind + raw_claims) \<Rightarrow> validator \<Rightarrow> string \<Rightarrow> system_time \<Rightarrow>
   (validation_error + tenant_context) \<times> audit_event list" where
  "validate decode v token now = validate_with_subject decode v token now ''validate''"

section \<open>What validation promises\<close>

text \<open>The claims a token must carry to be accepted as a given context.\<close>

definition claims_grant :: "validator \<Rightarrow> system_time \<Rightarrow> raw_claims \<Rightarrow> tenant_context \<Rightarrow> bool" where
  "claims_grant v now claims ctx =
     (cl_iss claims = Some (va_issuer v) \<and> cl_aud claims = Some (va_audience v) \<and>
      (\<exists>ex. cl_exp claims = Some ex \<and> sint (now_secs now) < sint ex) \<and>
      cl_tenant_id claims = Some (tc_tenant_id ctx) \<and> catalogue_contains (va_catalogue v) (tc_tenant_id ctx) \<and>
      cl_kaleidoscope_role claims = Some (role_str (tc_role ctx)))"

lemma role_str_inj: "role_str a = role_str b \<longleftrightarrow> a = b"
  by (cases a; cases b) simp_all

text \<open>Validation succeeds exactly on the tokens that decode to claims granting the context.\<close>

lemma validate_inner_iff:
  "validate_inner decode v token now = Inr ctx \<longleftrightarrow>
   (\<exists>claims. decode (va_key v) token = Inr claims \<and> claims_grant v now claims ctx)"
proof
  assume "validate_inner decode v token now = Inr ctx"
  then show "\<exists>claims. decode (va_key v) token = Inr claims \<and> claims_grant v now claims ctx"
    by (auto simp: validate_inner_def claims_grant_def not_le split: sum.splits option.splits if_splits)
next
  assume "\<exists>claims. decode (va_key v) token = Inr claims \<and> claims_grant v now claims ctx"
  then obtain claims where "decode (va_key v) token = Inr claims" "claims_grant v now claims ctx"
    by blast
  then show "validate_inner decode v token now = Inr ctx"
    by (cases "tc_role ctx") (auto simp: validate_inner_def claims_grant_def)
qed

text \<open>A catalogue that loads has one record per tenant, and exactly the tenants of the file.\<close>

lemma catalogue_insert_all_ok:
  "catalogue_insert_all rs seen m = Inr cat \<Longrightarrow>
   distinct (map tr_id rs) \<and> set (map tr_id rs) \<inter> set seen = {} \<and>
   (\<forall>t. t \<notin> tr_id ` set rs \<longrightarrow> hm_get cat t = hm_get m t) \<and> (\<forall>r\<in>set rs. hm_get cat (tr_id r) = Some r)"
proof (induction rs arbitrary: seen m)
  case (Cons r rs)
  then have r: "tr_id r \<notin> set seen" and "catalogue_insert_all rs (tr_id r # seen) (hm_insert (tr_id r) r m) = Inr cat"
    by (auto split: if_splits)
  from Cons.IH [OF this(2)] r show ?case
    by auto
qed simp

lemma catalogue_insert_all_duplicate:
  "catalogue_insert_all rs seen m = Inl e \<Longrightarrow>
   \<exists>t. e = DuplicateTenant t \<and> (\<not> distinct (map tr_id rs) \<or> set (map tr_id rs) \<inter> set seen \<noteq> {})"
proof (induction rs arbitrary: seen m)
  case (Cons r rs)
  show ?case
  proof (cases "tr_id r \<in> set seen")
    case False
    with Cons.prems Cons.IH [of "tr_id r # seen" "hm_insert (tr_id r) r m"] show ?thesis
      by (auto split: if_splits)
  qed (use Cons.prems in auto)
qed simp

lemma catalogue_from_records_iff:
  "(\<exists>cat. catalogue_from_records rs = Inr cat) \<longleftrightarrow> distinct (map tr_id rs)"
  using catalogue_insert_all_ok [of rs "[]" "[]"] catalogue_insert_all_duplicate [of rs "[]" "[]"]
  by (cases "catalogue_from_records rs") (auto simp: catalogue_from_records_def)

lemma catalogue_from_records_get:
  assumes "catalogue_from_records rs = Inr cat"
  shows "catalogue_get cat t = Some r \<longleftrightarrow> r \<in> set rs \<and> tr_id r = t"
proof -
  note ok = catalogue_insert_all_ok [OF assms [unfolded catalogue_from_records_def]]
  show ?thesis
  proof (cases "t \<in> tr_id ` set rs")
    case True
    then obtain r' where "r' \<in> set rs" "tr_id r' = t"
      by auto
    moreover from this ok have "catalogue_get cat t = Some r'"
      by (auto simp: catalogue_get_def)
    ultimately show ?thesis
      using ok by (auto simp: distinct_map inj_on_def)
  next
    case False
    with ok show ?thesis
      by (auto simp: catalogue_get_def)
  qed
qed

end
