(* ===== verification/Query_Common.thy ===== *)
theory Query_Common
  imports Rust_Text Aegis_Tenancy
begin

text \<open>
  The scaffold the three read APIs share (\<open>crates/query-http-common/src/lib.rs\<close>): limits and
  reasons, the parsing of a time window, the error envelope, and the resolution of the tenant of a
  request. The \<open>http\<close> crate's reading and building of header values and the \<open>time\<close> crate's
  RFC 3339 parser are parameters.
\<close>

section \<open>Limits, reasons and responses\<close>

definition MAX_WINDOW_SECONDS :: u64 where
  "MAX_WINDOW_SECONDS = 86400"

definition MAX_RESULT_ROWS :: nat where
  "MAX_RESULT_ROWS = 100000"

definition REASON_INVALID_TIME_RANGE :: string where
  "REASON_INVALID_TIME_RANGE = ''invalid time bounds: end is earlier than start''"

definition REASON_WINDOW_TOO_LARGE :: string where
  "REASON_WINDOW_TOO_LARGE = ''window exceeds 86400 seconds''"

definition REASON_TOO_MANY_ROWS :: string where
  "REASON_TOO_MANY_ROWS = ''result exceeds 100000 rows''"

definition REASON_MISSING_TENANT :: string where
  "REASON_MISSING_TENANT = ''no tenant resolvable: ''"

text \<open>A JSON body: the error envelope, or an API's own data.\<close>

datatype 'b json_body = ErrorBody string | DataBody 'b

record 'b http_response =
  hr_status :: nat
  hr_www_authenticate :: "string option"
  hr_body :: "'b json_body"

definition error_response :: "nat \<Rightarrow> string \<Rightarrow> 'b http_response" where
  "error_response status reason = \<lparr>hr_status = status, hr_www_authenticate = None, hr_body = ErrorBody reason\<rparr>"

definition ok_response :: "'b \<Rightarrow> 'b http_response" where
  "ok_response b = \<lparr>hr_status = 200, hr_www_authenticate = None, hr_body = DataBody b\<rparr>"

section \<open>Time windows\<close>

record secs_range =
  sr_start_secs :: u64
  sr_end_secs :: u64

datatype epoch_field = StartField | EndField

fun unparseable_reason :: "epoch_field \<Rightarrow> string" where
  "unparseable_reason StartField =
     ''invalid time bounds: start must be RFC3339 (e.g. 2026-06-14T17:00:00Z) or unix seconds''"
| "unparseable_reason EndField =
     ''invalid time bounds: end must be RFC3339 (e.g. 2026-06-14T17:00:00Z) or unix seconds''"

text \<open>\<open>rfc3339\<close> gives the Unix timestamp of a text, an \<open>i64\<close>, if it parses.\<close>

definition parse_epoch_seconds :: "(string \<Rightarrow> 64 word option) \<Rightarrow> string \<Rightarrow> epoch_field \<Rightarrow> string + u64" where
  "parse_epoch_seconds rfc3339 raw field =
     (let trimmed = rust_trim raw in
      case parse_f64 trimmed of
        Some parsed \<Rightarrow>
          if f64_is_finite parsed \<and> f64_ge_zero parsed then Inr (f64_as_u64 parsed)
          else Inl (unparseable_reason field)
      | None \<Rightarrow>
          (case rfc3339 trimmed of
             Some seconds \<Rightarrow> if 0 \<le> sint seconds then Inr seconds else Inl (unparseable_reason field)
           | None \<Rightarrow> Inl (unparseable_reason field)))"

definition parse_time_range :: "(string \<Rightarrow> 64 word option) \<Rightarrow> string \<Rightarrow> string \<Rightarrow> string + secs_range" where
  "parse_time_range rfc3339 start end' =
     (case parse_epoch_seconds rfc3339 start StartField of
        Inl e \<Rightarrow> Inl e
      | Inr start_secs \<Rightarrow>
        (case parse_epoch_seconds rfc3339 end' EndField of
           Inl e \<Rightarrow> Inl e
         | Inr end_secs \<Rightarrow>
           if end_secs < start_secs then Inl REASON_INVALID_TIME_RANGE
           else Inr \<lparr>sr_start_secs = start_secs, sr_end_secs = end_secs\<rparr>))"

section \<open>The tenant of a request\<close>

text \<open>\<open>http\<close>: a header value as text if it is, and whether a text can be a header value.\<close>

record http_lib =
  hl_to_str :: "string \<Rightarrow> string option"
  hl_header_value :: "string \<Rightarrow> bool"

definition resolve_tenant_or_refuse :: "tenant_id option \<Rightarrow> string \<Rightarrow> 'b http_response + tenant_id" where
  "resolve_tenant_or_refuse tenant service_label =
     (case tenant of
        Some t \<Rightarrow> Inr t
      | None \<Rightarrow> Inl (error_response 401 (REASON_MISSING_TENANT @ service_label @ '' service refuses unscoped requests'')))"

definition split_once :: "char \<Rightarrow> string \<Rightarrow> (string \<times> string) option" where
  "split_once c s =
     (case dropWhile (\<lambda>x. x \<noteq> c) s of [] \<Rightarrow> None | _ # rest \<Rightarrow> Some (takeWhile (\<lambda>x. x \<noteq> c) s, rest))"

definition bearer_token :: "string option \<Rightarrow> string option" where
  "bearer_token raw =
     (case raw of
        None \<Rightarrow> None
      | Some raw \<Rightarrow>
        (case (if prefix ''Bearer '' raw then Some (drop 7 raw)
               else case split_once CHR '' '' raw of
                      None \<Rightarrow> None
                    | Some (scheme, rest) \<Rightarrow> if eq_ignore_ascii_case scheme ''bearer'' then Some rest else None) of
           None \<Rightarrow> None
         | Some rest \<Rightarrow> (let token = rust_trim rest in if token = [] then None else Some token)))"

text \<open>\<open>authorization\<close> is the raw value of the \<open>Authorization\<close> header.\<close>

definition http_authorization :: "http_lib \<Rightarrow> string option \<Rightarrow> string option" where
  "http_authorization lib authorization =
     (case authorization of None \<Rightarrow> None | Some v \<Rightarrow> hl_to_str lib v)"

definition bearer_challenge :: "string \<Rightarrow> string" where
  "bearer_challenge reason =
     ''Bearer error='' @ [CHR 0x22] @ ''invalid_token'' @ [CHR 0x22] @ '', error_description='' @ [CHR 0x22] @ reason @ [CHR 0x22]"

definition reject_unauthorized :: "http_lib \<Rightarrow> string \<Rightarrow> 'b http_response" where
  "reject_unauthorized lib reason =
     (error_response 401 reason)
       \<lparr>hr_www_authenticate := Some (if hl_header_value lib (bearer_challenge reason) then bearer_challenge reason else ''Bearer'')\<rparr>"

definition resolve_request_tenant_or_refuse ::
  "http_lib \<Rightarrow> (string \<Rightarrow> string \<Rightarrow> jwt_error_kind + raw_claims) \<Rightarrow> validator option \<Rightarrow> string option \<Rightarrow> tenant_id option \<Rightarrow>
   string \<Rightarrow> string \<Rightarrow> system_time \<Rightarrow> ('b http_response + tenant_id) \<times> audit_event list" where
  "resolve_request_tenant_or_refuse lib decode auth authorization env_tenant service_label subject now =
     (case auth of
        None \<Rightarrow> (resolve_tenant_or_refuse env_tenant service_label, [])
      | Some v \<Rightarrow>
        (case bearer_token (http_authorization lib authorization) of
           None \<Rightarrow> (Inl (reject_unauthorized lib ''missing_claim''), [audit_deny subject ''missing_claim''])
         | Some token \<Rightarrow>
           (case validate_with_subject decode v token now subject of
              (Inr ctx, evs) \<Rightarrow> (Inr (tc_tenant_id ctx), evs)
            | (Inl e, evs) \<Rightarrow> (Inl (reject_unauthorized lib (validation_reason e)), evs))))"

lemma resolve_refusal_status:
  "resolve_request_tenant_or_refuse lib decode auth authorization env_tenant label subject now = (Inl resp, evs) \<Longrightarrow>
   hr_status resp = 401"
  by (auto simp: resolve_request_tenant_or_refuse_def resolve_tenant_or_refuse_def reject_unauthorized_def error_response_def
      split: option.splits prod.splits sum.splits)

section \<open>Properties\<close>

text \<open>
  C18. The bearer token is the only authority on the tenant when authentication is configured: a
  request is served for a tenant only if its token decodes under the configured key to claims with
  the configured issuer and audience, an expiry in the future, a tenant of the catalogue and a
  known role, and then for that tenant; every other request is refused with a 401 and a challenge.
  The tenant of the environment never matters, and exactly one decision is recorded, the one taken.
\<close>

theorem no_bearer_bypass:
  assumes "resolve_request_tenant_or_refuse lib decode (Some v) authorization env_tenant label subject now = (res, evs)"
  shows "(\<forall>env'. resolve_request_tenant_or_refuse lib decode (Some v) authorization env' label subject now = (res, evs)) \<and>
    (\<exists>ev. evs = [ev] \<and> ae_subject ev = subject \<and> ae_allow ev = (\<not> isl res)) \<and>
    (case res of
       Inr t \<Rightarrow> \<exists>token claims r. bearer_token (http_authorization lib authorization) = Some token \<and>
         decode (va_key v) token = Inr claims \<and> claims_grant v now claims \<lparr>tc_tenant_id = t, tc_role = r\<rparr>
     | Inl resp \<Rightarrow> hr_status resp = 401 \<and> hr_www_authenticate resp \<noteq> None)"
proof (cases "bearer_token (http_authorization lib authorization)")
  case None
  with assms show ?thesis
    by (auto simp: resolve_request_tenant_or_refuse_def reject_unauthorized_def error_response_def audit_deny_def)
next
  case (Some token)
  show ?thesis
  proof (cases "validate_inner decode v token now")
    case (Inl e)
    with Some assms show ?thesis
      by (auto simp: resolve_request_tenant_or_refuse_def validate_with_subject_def reject_unauthorized_def
          error_response_def audit_deny_def)
  next
    case (Inr ctx)
    obtain claims where c: "decode (va_key v) token = Inr claims" "claims_grant v now claims ctx"
      using Inr unfolding validate_inner_iff by blast
    have "\<exists>r. claims_grant v now claims \<lparr>tc_tenant_id = tc_tenant_id ctx, tc_role = r\<rparr>"
      using c(2) by (intro exI [of _ "tc_role ctx"]) (simp add: claims_grant_def)
    with Some Inr assms c(1) show ?thesis
      by (auto simp: resolve_request_tenant_or_refuse_def validate_with_subject_def)
  qed
qed

lemma parse_epoch_seconds_nat:
  assumes "n < 2 ^ 53" and "s \<in> {nat_str n, nat_str n @ ''.0''}"
  shows "parse_epoch_seconds rfc3339 s f = Inr (word_of_nat n)"
  using assms f64_of_ratio_exact [of n 1] f64_of_ratio_exact [of n 10]
  by (auto simp: parse_epoch_seconds_def rust_trim_nat_str parse_f64_nat_str)

text \<open>
  C24. A bound given in Unix seconds, plain or in the \<open>.0\<close> form the front end sends, is read
  exactly although it goes through a floating-point number, for every instant below \<open>2 ^ 53\<close>
  seconds; a window is refused exactly when its end is before its start.
\<close>

theorem parse_time_range_exact:
  assumes "a < 2 ^ 53" and "b < 2 ^ 53"
    and "start \<in> {nat_str a, nat_str a @ ''.0''}" and "end' \<in> {nat_str b, nat_str b @ ''.0''}"
  shows "parse_time_range rfc3339 start end' =
    (if b < a then Inl REASON_INVALID_TIME_RANGE
     else Inr \<lparr>sr_start_secs = word_of_nat a, sr_end_secs = word_of_nat b\<rparr>)"
proof -
  have "(word_of_nat b :: u64) < word_of_nat a \<longleftrightarrow> b < a"
    using assms(1,2) by (simp add: word_less_nat_alt unat_of_nat)
  with parse_epoch_seconds_nat [OF assms(1,3)] parse_epoch_seconds_nat [OF assms(2,4)] show ?thesis
    by (simp add: parse_time_range_def)
qed

section \<open>A concrete configuration\<close>

definition qx_lib :: http_lib where
  "qx_lib = \<lparr>hl_to_str = Some, hl_header_value = (\<lambda>_. True)\<rparr>"

definition qx_validator :: validator where
  "qx_validator = \<lparr>va_issuer = ''idp'', va_audience = ''kaleidoscope-query'', va_key = ''k'',
     va_catalogue = [(''acme'', \<lparr>tr_id = ''acme'', tr_display_name = None, tr_notes = None\<rparr>)]\<rparr>"

definition qx_decode :: "string \<Rightarrow> string \<Rightarrow> jwt_error_kind + raw_claims" where
  "qx_decode key token =
     (if key = ''k'' \<and> token = ''tok'' then
        Inr \<lparr>cl_iss = Some ''idp'', cl_aud = Some ''kaleidoscope-query'', cl_exp = Some 100,
             cl_tenant_id = Some ''acme'', cl_kaleidoscope_role = Some ''viewer''\<rparr>
      else Inl JwtInvalidSignature)"

lemma qx_bearer: "bearer_token (http_authorization qx_lib (Some ''Bearer tok'')) = Some ''tok''"
proof -
  have "rust_trim ''tok'' = ''tok''"
    by (rule rust_trim_visible) (simp add: byte_in_def)
  then show ?thesis
    by (simp add: bearer_token_def http_authorization_def qx_lib_def)
qed

lemma qx_resolve:
  "resolve_request_tenant_or_refuse qx_lib qx_decode (Some qx_validator) (Some ''Bearer tok'') None label subject 5000000000 =
     (Inr ''acme'', [\<lparr>ae_tenant_id = ''acme'', ae_role = ''viewer'', ae_allow = True, ae_subject = subject, ae_reason = ''allow''\<rparr>])"
  unfolding resolve_request_tenant_or_refuse_def option.case qx_bearer
  by (simp add: validate_with_subject_def validate_inner_def qx_decode_def qx_validator_def now_secs_def duration_since_def
      catalogue_contains_def hm_contains_def Let_def)

theorem no_bearer_bypass_witness:
  "\<exists>claims r. qx_decode (va_key qx_validator) ''tok'' = Inr claims \<and>
     claims_grant qx_validator 5000000000 claims \<lparr>tc_tenant_id = ''acme'', tc_role = r\<rparr>"
  using no_bearer_bypass [OF qx_resolve [of "''the query''" "''query_range''"]] unfolding qx_bearer by auto

theorem parse_time_range_exact_witness:
  "parse_time_range (\<lambda>_. None) (nat_str 60) (nat_str 3600 @ ''.0'') = Inr \<lparr>sr_start_secs = 60, sr_end_secs = 3600\<rparr>"
  using parse_time_range_exact [of 60 3600 "nat_str 60" "nat_str 3600 @ ''.0''"] by (simp del: nat_str.simps)

end
