(* ===== verification/Query_Selector.thy ===== *)
theory Query_Selector
  imports Rust_Text
begin

text \<open>
  The PromQL boundary of the metric query API (\<open>crates/query-api/src/selector.rs\<close>): the parser of a
  selector, the grammar it is written for as inductive relations, and that the two agree. The
  parser compares characters with ASCII characters only, so that running it over UTF-8 bytes gives
  what running it over \<open>char\<close>s gives.
\<close>

section \<open>The parser\<close>

datatype match_op = OpEqual | OpNotEqual | OpMatches | OpNotMatches

record label_matcher =
  lm_name :: string
  lm_op :: match_op
  lm_value :: string

record selector =
  sl_name :: string
  sl_matchers :: "label_matcher list"

abbreviation quote_char :: char where "quote_char \<equiv> CHR 0x22"
abbreviation backslash :: char where "backslash \<equiv> CHR 0x5C"
abbreviation open_brace :: char where "open_brace \<equiv> CHR 0x7B"
abbreviation close_brace :: char where "close_brace \<equiv> CHR 0x7D"
abbreviation tilde :: char where "tilde \<equiv> CHR 0x7E"
abbreviation bang :: char where "bang \<equiv> CHR 0x21"
abbreviation equals_sign :: char where "equals_sign \<equiv> CHR 0x3D"
abbreviation comma :: char where "comma \<equiv> CHR 0x2C"

definition err_syntax :: string where
  "err_syntax = ''malformed query: unrecognised label matcher syntax''"

definition unsupported_reason :: string where
  "unsupported_reason =
     ''unsupported query: only a bare metric name with optional = / != label matchers is supported at v0 (range vectors, functions, aggregations, and operators are not yet supported)''"

definition is_name_start :: "char \<Rightarrow> bool" where
  "is_name_start c = (is_ascii_alphabetic c \<or> c = CHR ''_'' \<or> c = CHR '':'')"

definition is_name_continue :: "char \<Rightarrow> bool" where
  "is_name_continue c = (is_ascii_alphanumeric c \<or> c = CHR ''_'' \<or> c = CHR '':'')"

definition is_label_name_continue :: "char \<Rightarrow> bool" where
  "is_label_name_continue c = (is_name_continue c \<or> c = CHR ''.'')"

definition is_bare_metric_name :: "string \<Rightarrow> bool" where
  "is_bare_metric_name name =
     (case name of [] \<Rightarrow> False | c # rest \<Rightarrow> is_name_start c \<and> list_all is_name_continue rest)"

definition skip_whitespace :: "string \<Rightarrow> string" where
  "skip_whitespace chars = dropWhile is_ascii_whitespace chars"

fun read_label_name :: "string \<Rightarrow> string + string \<times> string" where
  "read_label_name [] = Inl ''malformed query: a matcher is missing its label name''"
| "read_label_name (c # rest) =
     (if is_name_start c then Inr (c # takeWhile is_label_name_continue rest, dropWhile is_label_name_continue rest)
      else Inl ''malformed query: a matcher is missing its label name'')"

definition starts_with :: "char \<Rightarrow> string \<Rightarrow> bool" where
  "starts_with c s = (s \<noteq> [] \<and> hd s = c)"

definition read_operator :: "string \<Rightarrow> string + match_op \<times> string" where
  "read_operator chars =
     (case chars of
        [] \<Rightarrow> Inl err_syntax
      | c # rest \<Rightarrow>
          if c = equals_sign then
            (if starts_with tilde rest then Inr (OpMatches, tl rest) else Inr (OpEqual, rest))
          else if c = bang then
            (case rest of
               [] \<Rightarrow> Inl err_syntax
             | d # rest' \<Rightarrow>
                 if d = tilde then Inr (OpNotMatches, rest')
                 else if d = equals_sign then
                   (if starts_with tilde rest' then Inl err_syntax else Inr (OpNotEqual, rest'))
                 else Inl err_syntax)
          else Inl err_syntax)"

definition unescape :: "char \<Rightarrow> char option" where
  "unescape d =
     (if d = quote_char then Some quote_char
      else if d = backslash then Some backslash
      else if d = CHR ''n'' then Some CHR 0x0A
      else if d = CHR ''t'' then Some CHR 0x09
      else None)"

fun read_literal_chars :: "string \<Rightarrow> string \<Rightarrow> string + string \<times> string" where
  "read_literal_chars v [] = Inl ''malformed query: a matcher string literal is not closed''"
| "read_literal_chars v (c # rest) =
     (if c = quote_char then Inr (v, rest)
      else if c = backslash then
        (case rest of
           [] \<Rightarrow> Inl ''malformed query: unrecognised string escape in a matcher value''
         | d # rest' \<Rightarrow>
             (case unescape d of
                None \<Rightarrow> Inl ''malformed query: unrecognised string escape in a matcher value''
              | Some u \<Rightarrow> read_literal_chars (v @ [u]) rest'))
      else read_literal_chars (v @ [c]) rest)"

definition read_string_literal :: "string \<Rightarrow> string + string \<times> string" where
  "read_string_literal chars =
     (if starts_with quote_char chars then read_literal_chars [] (tl chars)
      else Inl ''malformed query: matcher values must be double-quoted'')"

definition parse_matcher :: "string \<Rightarrow> string + label_matcher \<times> string" where
  "parse_matcher chars =
     (case read_label_name chars of
        Inl e \<Rightarrow> Inl e
      | Inr (name, chars1) \<Rightarrow>
        (case read_operator (skip_whitespace chars1) of
           Inl e \<Rightarrow> Inl e
         | Inr (op, chars2) \<Rightarrow>
           (case read_string_literal (skip_whitespace chars2) of
              Inl e \<Rightarrow> Inl e
            | Inr (v, chars3) \<Rightarrow> Inr (\<lparr>lm_name = name, lm_op = op, lm_value = v\<rparr>, chars3))))"

lemma read_label_name_length: "read_label_name s = Inr (n, r) \<Longrightarrow> length r < length s"
  by (cases s) (auto split: if_splits simp: le_imp_less_Suc length_dropWhile_le)

lemma read_operator_length: "read_operator s = Inr (op, r) \<Longrightarrow> length r < length s"
  by (auto simp: read_operator_def starts_with_def split: list.splits if_splits)

lemma read_literal_length: "read_literal_chars v s = Inr (v', r) \<Longrightarrow> length r < length s"
  by (induction v s rule: read_literal_chars.induct)
    (auto split: if_splits list.splits option.splits simp: less_SucI)

lemma skip_whitespace_length: "length (skip_whitespace s) \<le> length s"
  by (simp add: skip_whitespace_def length_dropWhile_le)

lemma parse_matcher_length:
  assumes "parse_matcher s = Inr (m, r)"
  shows "length r < length s"
proof -
  obtain n c1 op c2 v where "read_label_name s = Inr (n, c1)" "read_operator (skip_whitespace c1) = Inr (op, c2)"
    "read_string_literal (skip_whitespace c2) = Inr (v, r)"
    using assms by (auto simp: parse_matcher_def split: sum.splits)
  moreover from this(3) have "length r < length (skip_whitespace c2)"
    using read_literal_length [of "[]" "tl (skip_whitespace c2)" v r]
    by (auto simp: read_string_literal_def split: if_splits)
  ultimately show ?thesis
    using read_label_name_length [of s n c1] read_operator_length [of "skip_whitespace c1" op c2]
      skip_whitespace_length [of c1] skip_whitespace_length [of c2] by linarith
qed

function parse_matchers :: "label_matcher list \<Rightarrow> string \<Rightarrow> string + label_matcher list" where
  "parse_matchers matchers chars =
     (let chars1 = skip_whitespace chars in
      if chars1 = [] then Inr matchers
      else
        case parse_matcher chars1 of
          Inl e \<Rightarrow> Inl e
        | Inr (m, chars2) \<Rightarrow>
            (case skip_whitespace chars2 of
               [] \<Rightarrow> Inr (matchers @ [m])
             | c # chars3 \<Rightarrow>
                 if c = comma then parse_matchers (matchers @ [m]) chars3 else Inl err_syntax))"
  by pat_completeness auto
termination
proof (relation "measure (\<lambda>(_, chars). length chars)", simp)
  fix matchers chars and chars1 and p :: "label_matcher \<times> string" and m chars2 c chars3
  assume "chars1 = skip_whitespace chars" "parse_matcher chars1 = Inr p" "(m, chars2) = p"
    "skip_whitespace chars2 = c # chars3"
  then show "((matchers @ [m], chars3), (matchers, chars)) \<in> measure (\<lambda>(_, chars). length chars)"
    using parse_matcher_length [of chars1 m chars2] skip_whitespace_length [of chars] skip_whitespace_length [of chars2]
    by simp
qed

declare parse_matchers.simps [simp del]

definition parse_matcher_list :: "string \<Rightarrow> string + label_matcher list" where
  "parse_matcher_list inner = parse_matchers [] inner"

definition split_at_brace :: "string \<Rightarrow> string + string \<times> string option" where
  "split_at_brace trimmed =
     (if \<not> List.member trimmed open_brace then Inr (trimmed, None)
      else if last trimmed \<noteq> close_brace then Inl ''malformed query: the label matcher section is not closed''
      else Inr (takeWhile (\<lambda>c. c \<noteq> open_brace) trimmed,
                Some (butlast (tl (dropWhile (\<lambda>c. c \<noteq> open_brace) trimmed)))))"

definition parse_selector :: "string \<Rightarrow> string + selector" where
  "parse_selector raw =
     (let trimmed = rust_trim raw in
      if trimmed = [] then Inl ''unsupported query: expected a bare metric name''
      else
        case split_at_brace trimmed of
          Inl e \<Rightarrow> Inl e
        | Inr (name_part, brace_part) \<Rightarrow>
            if \<not> is_bare_metric_name name_part then Inl unsupported_reason
            else
              (case brace_part of
                 None \<Rightarrow> Inr \<lparr>sl_name = name_part, sl_matchers = []\<rparr>
               | Some inner \<Rightarrow>
                   (case parse_matcher_list inner of
                      Inl e \<Rightarrow> Inl e
                    | Inr matchers \<Rightarrow> Inr \<lparr>sl_name = name_part, sl_matchers = matchers\<rparr>)))"

section \<open>The grammar\<close>

definition ws :: "string \<Rightarrow> bool" where
  "ws w = list_all is_ascii_whitespace w"

definition label_name_text :: "string \<Rightarrow> bool" where
  "label_name_text n = (n \<noteq> [] \<and> is_name_start (hd n) \<and> list_all is_label_name_continue (tl n))"

fun op_text :: "match_op \<Rightarrow> string" where
  "op_text OpEqual = [equals_sign]"
| "op_text OpNotEqual = [bang, equals_sign]"
| "op_text OpMatches = [equals_sign, tilde]"
| "op_text OpNotMatches = [bang, tilde]"

inductive literal_text :: "string \<Rightarrow> string \<Rightarrow> bool" where
  literal_end: "literal_text [] []"
| literal_plain: "literal_text v t \<Longrightarrow> c \<noteq> quote_char \<Longrightarrow> c \<noteq> backslash \<Longrightarrow> literal_text (c # v) (c # t)"
| literal_escape: "literal_text v t \<Longrightarrow> unescape d = Some u \<Longrightarrow> literal_text (u # v) (backslash # d # t)"

inductive matcher_text :: "label_matcher \<Rightarrow> string \<Rightarrow> bool" where
  matcher: "label_name_text n \<Longrightarrow> ws w1 \<Longrightarrow> ws w2 \<Longrightarrow> literal_text v t \<Longrightarrow>
    matcher_text \<lparr>lm_name = n, lm_op = op, lm_value = v\<rparr> (n @ w1 @ op_text op @ w2 @ quote_char # t @ [quote_char])"

inductive matcher_list_text :: "label_matcher list \<Rightarrow> string \<Rightarrow> bool" where
  list_none: "ws w \<Longrightarrow> matcher_list_text [] w"
| list_last: "ws w1 \<Longrightarrow> matcher_text m t \<Longrightarrow> ws w2 \<Longrightarrow> matcher_list_text [m] (w1 @ t @ w2)"
| list_more: "ws w1 \<Longrightarrow> matcher_text m t \<Longrightarrow> ws w2 \<Longrightarrow> matcher_list_text ms r \<Longrightarrow>
    matcher_list_text (m # ms) (w1 @ t @ w2 @ comma # r)"

inductive selector_text :: "selector \<Rightarrow> string \<Rightarrow> bool" where
  bare: "is_bare_metric_name n \<Longrightarrow> selector_text \<lparr>sl_name = n, sl_matchers = []\<rparr> n"
| braced: "is_bare_metric_name n \<Longrightarrow> matcher_list_text ms inner \<Longrightarrow>
    selector_text \<lparr>sl_name = n, sl_matchers = ms\<rparr> (n @ open_brace # inner @ [close_brace])"

section \<open>The parser accepts the grammar and nothing else\<close>

lemma skip_ws_append: "ws w \<Longrightarrow> s = [] \<or> \<not> is_ascii_whitespace (hd s) \<Longrightarrow> skip_whitespace (w @ s) = s"
  by (cases s) (auto simp: skip_whitespace_def ws_def list_all_iff dropWhile_append2)

lemma skip_ws_split:
  obtains w where "ws w" and "s = w @ skip_whitespace s"
    and "skip_whitespace s = [] \<or> \<not> is_ascii_whitespace (hd (skip_whitespace s))"
proof
  show "ws (takeWhile is_ascii_whitespace s)"
    by (auto simp: ws_def list_all_iff dest: set_takeWhileD)
  show "s = takeWhile is_ascii_whitespace s @ skip_whitespace s"
    by (simp add: skip_whitespace_def)
  show "skip_whitespace s = [] \<or> \<not> is_ascii_whitespace (hd (skip_whitespace s))"
    by (metis hd_dropWhile skip_whitespace_def)
qed

lemma read_label_name_iff:
  "read_label_name s = Inr (n, r) \<longleftrightarrow>
   label_name_text n \<and> s = n @ r \<and> (r = [] \<or> \<not> is_label_name_continue (hd r))"
proof
  assume "read_label_name s = Inr (n, r)"
  then show "label_name_text n \<and> s = n @ r \<and> (r = [] \<or> \<not> is_label_name_continue (hd r))"
    by (cases s) (auto simp: label_name_text_def list_all_iff hd_dropWhile split: if_splits dest: set_takeWhileD)
next
  assume a: "label_name_text n \<and> s = n @ r \<and> (r = [] \<or> \<not> is_label_name_continue (hd r))"
  then obtain c cs where n: "n = c # cs" "is_name_start c" "\<forall>x\<in>set cs. is_label_name_continue x"
    by (cases n) (auto simp: label_name_text_def list_all_iff)
  from a have "takeWhile is_label_name_continue r = []" "dropWhile is_label_name_continue r = r"
    by (cases r; simp)+
  with a n show "read_label_name s = Inr (n, r)"
    by (simp add: takeWhile_append2 dropWhile_append2)
qed

lemma read_operator_iff:
  "read_operator s = Inr (op, r) \<longleftrightarrow>
   s = op_text op @ r \<and> (op \<in> {OpEqual, OpNotEqual} \<longrightarrow> \<not> starts_with tilde r)"
  by (cases op) (auto simp: read_operator_def starts_with_def split: list.splits if_splits)

lemma read_literal_chars_iff:
  "read_literal_chars acc s = Inr (v, r) \<longleftrightarrow>
   (\<exists>v' t. literal_text v' t \<and> s = t @ quote_char # r \<and> v = acc @ v')"
proof
  show "read_literal_chars acc s = Inr (v, r) \<Longrightarrow> \<exists>v' t. literal_text v' t \<and> s = t @ quote_char # r \<and> v = acc @ v'"
  proof (induction acc s rule: read_literal_chars.induct)
    case (2 acc c rest)
    consider "c = quote_char" | "c = backslash" | "c \<noteq> quote_char" "c \<noteq> backslash"
      by blast
    then show ?case
    proof cases
      case 1
      with "2.prems" show ?thesis
        by (auto intro!: exI [of _ "[]"] literal_end)
    next
      case 2
      then obtain d rest' u where d: "rest = d # rest'" "unescape d = Some u"
        and "read_literal_chars (acc @ [u]) rest' = Inr (v, r)"
        using "2.prems" by (auto split: list.splits option.splits)
      with "2.IH"(1) 2 obtain v' t where "literal_text v' t" "rest' = t @ quote_char # r" "v = acc @ u # v'"
        by fastforce
      with d 2 literal_escape show ?thesis
        by fastforce
    next
      case 3
      with "2.IH"(2) "2.prems" obtain v' t where "literal_text v' t" "rest = t @ quote_char # r" "v = acc @ c # v'"
        by fastforce
      with 3 literal_plain show ?thesis
        by fastforce
    qed
  qed simp
  have "literal_text v' t \<Longrightarrow> read_literal_chars acc (t @ quote_char # r) = Inr (acc @ v', r)" for v' t
    by (induction v' t arbitrary: acc rule: literal_text.induct) (auto)
  then show "\<exists>v' t. literal_text v' t \<and> s = t @ quote_char # r \<and> v = acc @ v' \<Longrightarrow> read_literal_chars acc s = Inr (v, r)"
    by auto
qed

lemma read_string_literal_iff:
  "read_string_literal s = Inr (v, r) \<longleftrightarrow> (\<exists>t. literal_text v t \<and> s = quote_char # t @ quote_char # r)"
  by (cases s) (auto simp: read_string_literal_def starts_with_def read_literal_chars_iff)

lemma class_facts:
  "\<not> is_ascii_whitespace quote_char" "\<not> is_ascii_whitespace equals_sign" "\<not> is_ascii_whitespace bang"
  "\<not> is_ascii_whitespace comma"
  "\<not> is_label_name_continue equals_sign" "\<not> is_label_name_continue bang"
  "is_ascii_whitespace c \<Longrightarrow> \<not> is_label_name_continue c" "is_ascii_whitespace c \<Longrightarrow> c \<noteq> tilde"
  "is_name_start c \<Longrightarrow> \<not> is_ascii_whitespace c"
  by (auto simp: is_ascii_whitespace_def is_label_name_continue_def is_name_continue_def is_name_start_def
      is_ascii_alphanumeric_def is_ascii_alphabetic_def is_ascii_digit_def byte_in_def)

lemma hd_op_text: "hd (op_text op @ r) \<in> {equals_sign, bang}"
  by (cases op) auto

lemma parse_matcher_iff: "parse_matcher s = Inr (m, r) \<longleftrightarrow> (\<exists>t. matcher_text m t \<and> s = t @ r)"
proof
  assume "parse_matcher s = Inr (m, r)"
  then obtain n c1 op c2 v where n: "read_label_name s = Inr (n, c1)" and o: "read_operator (skip_whitespace c1) = Inr (op, c2)"
    and v: "read_string_literal (skip_whitespace c2) = Inr (v, r)" and m: "m = \<lparr>lm_name = n, lm_op = op, lm_value = v\<rparr>"
    by (auto simp: parse_matcher_def split: sum.splits)
  obtain w1 w2 where w: "ws w1" "c1 = w1 @ skip_whitespace c1" "ws w2" "c2 = w2 @ skip_whitespace c2"
    by (metis skip_ws_split)
  obtain t where t: "literal_text v t" "skip_whitespace c2 = quote_char # t @ quote_char # r"
    using v unfolding read_string_literal_iff by blast
  have "s = (n @ w1 @ op_text op @ w2 @ quote_char # t @ [quote_char]) @ r"
    using n o w t by (simp add: read_label_name_iff read_operator_iff)
  moreover have "label_name_text n"
    using n by (simp add: read_label_name_iff)
  ultimately show "\<exists>t. matcher_text m t \<and> s = t @ r"
    using matcher_text.matcher [OF _ w(1,3) t(1)] m by blast
next
  assume "\<exists>t. matcher_text m t \<and> s = t @ r"
  then obtain n w1 w2 v t op where m: "m = \<lparr>lm_name = n, lm_op = op, lm_value = v\<rparr>"
    and g: "label_name_text n" "ws w1" "ws w2" "literal_text v t"
    and s: "s = n @ w1 @ op_text op @ w2 @ quote_char # t @ quote_char # r"
    by (auto elim!: matcher_text.cases)
  let ?q = "quote_char # t @ quote_char # r"
  have "\<not> is_label_name_continue (hd (w1 @ op_text op @ w2 @ ?q))"
    using g(2) hd_op_text [of op "w2 @ ?q"] class_facts by (cases w1) (auto simp: ws_def)
  with g(1) s have n: "read_label_name s = Inr (n, w1 @ op_text op @ w2 @ ?q)"
    by (simp add: read_label_name_iff)
  have o1: "skip_whitespace (w1 @ op_text op @ w2 @ ?q) = op_text op @ w2 @ ?q"
    using hd_op_text [of op "w2 @ ?q"] class_facts by (intro skip_ws_append [OF g(2)]) auto
  have "\<not> starts_with tilde (w2 @ ?q)"
    using g(3) class_facts by (cases w2) (auto simp: starts_with_def ws_def)
  then have o: "read_operator (op_text op @ w2 @ ?q) = Inr (op, w2 @ ?q)"
    by (simp add: read_operator_iff)
  have "skip_whitespace (w2 @ ?q) = ?q"
    using class_facts by (intro skip_ws_append [OF g(3)]) auto
  moreover have "read_string_literal ?q = Inr (v, r)"
    using g(4) by (auto simp: read_string_literal_iff)
  ultimately show "parse_matcher s = Inr (m, r)"
    by (simp add: parse_matcher_def n o1 o m)
qed

lemma matcher_text_start: "matcher_text m t \<Longrightarrow> t \<noteq> [] \<and> \<not> is_ascii_whitespace (hd (t @ r))"
  by (auto elim!: matcher_text.cases simp: label_name_text_def class_facts)

lemma parse_matchers_sound:
  "parse_matchers acc s = Inr ms \<Longrightarrow> \<exists>ms'. matcher_list_text ms' s \<and> ms = acc @ ms'"
proof (induction acc s rule: parse_matchers.induct)
  case (1 acc s)
  obtain w1 where w1: "ws w1" "s = w1 @ skip_whitespace s"
    by (metis skip_ws_split)
  show ?case
  proof (cases "skip_whitespace s = []")
    case True
    with "1.prems" have "ms = acc"
      by (subst (asm) parse_matchers.simps) simp
    with w1 True list_none [of s] show ?thesis
      by auto
  next
    case False
    then obtain m c2 where p: "parse_matcher (skip_whitespace s) = Inr (m, c2)"
      using "1.prems" by (subst (asm) parse_matchers.simps) (auto split: sum.splits)
    then obtain t where t: "matcher_text m t" "skip_whitespace s = t @ c2"
      unfolding parse_matcher_iff by blast
    obtain w2 where w2: "ws w2" "c2 = w2 @ skip_whitespace c2"
      by (metis skip_ws_split)
    show ?thesis
    proof (cases "skip_whitespace c2")
      case Nil
      with "1.prems" False p have "ms = acc @ [m]"
        by (subst (asm) parse_matchers.simps) simp
      moreover have "s = w1 @ t @ w2"
        using w1(2) w2(2) t(2) Nil by simp
      ultimately show ?thesis
        using list_last [OF w1(1) t(1) w2(1)] by blast
    next
      case (Cons c c3)
      with "1.prems" False p have c: "c = comma" and "parse_matchers (acc @ [m]) c3 = Inr ms"
        by (subst (asm) parse_matchers.simps, simp split: if_splits)+
      with "1.IH" False p Cons obtain ms' where "matcher_list_text ms' c3" "ms = acc @ m # ms'"
        by fastforce
      moreover have "s = w1 @ t @ w2 @ comma # c3"
        using w1(2) w2(2) t(2) Cons c by simp
      ultimately show ?thesis
        using list_more [OF w1(1) t(1) w2(1)] by blast
    qed
  qed
qed

lemma parse_matchers_step:
  assumes "ws w1" and "matcher_text m t" and "ws w2" and "r = [] \<or> \<not> is_ascii_whitespace (hd r)"
  shows "parse_matchers acc (w1 @ t @ w2 @ r) =
    (case r of [] \<Rightarrow> Inr (acc @ [m]) | c # r' \<Rightarrow> if c = comma then parse_matchers (acc @ [m]) r' else Inl err_syntax)"
proof -
  have s: "skip_whitespace (w1 @ t @ w2 @ r) = t @ w2 @ r"
    using matcher_text_start [OF assms(2), of "[]"] by (intro skip_ws_append [OF assms(1)]) simp
  have p: "parse_matcher (t @ w2 @ r) = Inr (m, w2 @ r)"
    unfolding parse_matcher_iff using assms(2) by blast
  have "t @ w2 @ r \<noteq> []"
    using matcher_text_start [OF assms(2)] by simp
  then show ?thesis
    by (subst parse_matchers.simps) (simp add: s p skip_ws_append [OF assms(3,4)])
qed

lemma parse_matchers_complete: "matcher_list_text ms s \<Longrightarrow> parse_matchers acc s = Inr (acc @ ms)"
proof (induction ms s arbitrary: acc rule: matcher_list_text.induct)
  case (list_none w)
  then have "skip_whitespace w = []"
    using skip_ws_append [of w "[]"] by simp
  then show ?case
    by (subst parse_matchers.simps) simp
next
  case (list_last w1 m t w2)
  then show ?case
    using parse_matchers_step [of w1 m t w2 "[]"] by simp
next
  case (list_more w1 m t w2 ms r)
  then show ?case
    using parse_matchers_step [of w1 m t w2 "comma # r"] class_facts(4) by simp
qed

lemma parse_matcher_list_iff: "parse_matcher_list s = Inr ms \<longleftrightarrow> matcher_list_text ms s"
  using parse_matchers_sound [of "[]" s ms] parse_matchers_complete [of ms s "[]"] by (auto simp: parse_matcher_list_def)

lemma metric_name_no_brace: "is_bare_metric_name n \<Longrightarrow> open_brace \<notin> set n"
  by (auto simp: is_bare_metric_name_def list_all_iff is_name_start_def is_name_continue_def is_ascii_alphanumeric_def
      is_ascii_alphabetic_def is_ascii_digit_def byte_in_def split: list.splits)

lemma brace_split:
  "open_brace \<notin> set n \<Longrightarrow> takeWhile (\<lambda>c. c \<noteq> open_brace) (n @ open_brace # q) = n"
  "open_brace \<notin> set n \<Longrightarrow> dropWhile (\<lambda>c. c \<noteq> open_brace) (n @ open_brace # q) = open_brace # q"
  by (induction n) auto

lemma split_at_brace_iff:
  "split_at_brace s = Inr (n, b) \<longleftrightarrow> open_brace \<notin> set n \<and>
   (case b of None \<Rightarrow> s = n | Some inner \<Rightarrow> s = n @ open_brace # inner @ [close_brace])"
proof
  assume a: "split_at_brace s = Inr (n, b)"
  show "open_brace \<notin> set n \<and> (case b of None \<Rightarrow> s = n | Some inner \<Rightarrow> s = n @ open_brace # inner @ [close_brace])"
  proof (cases "open_brace \<in> set s")
    case True
    then obtain p q where s: "s = p @ open_brace # q" "open_brace \<notin> set p"
      by (metis split_list_first)
    then have "takeWhile (\<lambda>c. c \<noteq> open_brace) s = p" "dropWhile (\<lambda>c. c \<noteq> open_brace) s = open_brace # q"
      by (simp_all add: brace_split)
    with a True have n: "n = p" "b = Some (butlast q)" and l: "last s = close_brace"
      by (auto simp: split_at_brace_def split: if_splits)
    have "q \<noteq> [] \<and> last q = close_brace"
      using l s(1) by (cases q) auto
    then have "q = butlast q @ [close_brace]"
      by (metis append_butlast_last_id)
    with n s show ?thesis
      by simp
  qed (use a in \<open>auto simp: split_at_brace_def\<close>)
next
  assume "open_brace \<notin> set n \<and> (case b of None \<Rightarrow> s = n | Some inner \<Rightarrow> s = n @ open_brace # inner @ [close_brace])"
  then show "split_at_brace s = Inr (n, b)"
    by (cases b) (auto simp: split_at_brace_def brace_split)
qed

text \<open>
  C20. The selector parser accepts exactly the selectors of its grammar (a metric name, optionally
  followed by braces around a comma-separated list of matchers with an optional trailing comma,
  white space around matchers, names and operators, and the escapes of string literals) after the
  trimming of the query, and returns the selector the text denotes; nothing outside the grammar is
  degraded to a shorter or less restrictive selector. The parser ends on every input.
\<close>

theorem selector_parser_exact: "parse_selector raw = Inr sel \<longleftrightarrow> selector_text sel (rust_trim raw)"
proof
  assume "parse_selector raw = Inr sel"
  then show "selector_text sel (rust_trim raw)"
    by (auto simp: parse_selector_def Let_def split_at_brace_iff parse_matcher_list_iff
        split: if_splits sum.splits option.splits intro: bare braced)
next
  assume "selector_text sel (rust_trim raw)"
  then show "parse_selector raw = Inr sel"
  proof cases
    case bare
    then have "rust_trim raw \<noteq> []"
      by (auto simp: is_bare_metric_name_def)
    moreover have "split_at_brace (rust_trim raw) = Inr (rust_trim raw, None)"
      using bare metric_name_no_brace by (auto simp: split_at_brace_iff)
    ultimately show ?thesis
      using bare by (simp add: parse_selector_def)
  next
    case (braced n ms inner)
    then have "split_at_brace (rust_trim raw) = Inr (n, Some inner)"
      using metric_name_no_brace by (auto simp: split_at_brace_iff)
    moreover have "parse_matcher_list inner = Inr ms"
      using braced by (simp add: parse_matcher_list_iff)
    ultimately show ?thesis
      using braced by (simp add: parse_selector_def)
  qed
qed

end
