(* ===== verification/Query_Matrix.thy ===== *)
theory Query_Matrix
  imports Pulse_Store Query_Selector "HOL-Library.Product_Lexorder"
begin

text \<open>
  The translation of Pulse rows into a Prometheus matrix (\<open>crates/query-api/src/matrix.rs\<close>): the
  derived label set of a row, the filter built from the matchers of a selector, and the grouping of
  rows. The compilation of a regular expression is the parameter \<open>regex_new\<close>, the decimal rendering
  of a finite \<open>f64\<close> the parameter \<open>display\<close>. A panic is \<open>None\<close>.
\<close>

section \<open>Rows, labels and filters\<close>

type_synonym row = "metric \<times> metric_point"
type_synonym label_set = "(string, string) btree_map"

record prom_entry =
  pe_metric :: label_set
  pe_values :: "(u64 \<times> string) list"

definition insert_all :: "(string, string) btree_map \<Rightarrow> label_set \<Rightarrow> label_set" where
  "insert_all attrs labels = fold (\<lambda>(k, v). bt_insert k v) attrs labels"

definition merge_labels :: "metric \<Rightarrow> metric_point \<Rightarrow> label_set" where
  "merge_labels metric point =
     bt_insert ''__name__'' (mt_name metric)
       (insert_all (mp_attributes point) (insert_all (mt_resource_attributes metric) []))"

record compiled_matcher =
  cm_name :: string
  cm_op :: match_op
  cm_value :: string
  cm_regex :: "(string \<Rightarrow> bool) option"

definition compile_anchored :: "(string \<Rightarrow> (string \<Rightarrow> bool) option) \<Rightarrow> string \<Rightarrow> (string \<Rightarrow> bool) option" where
  "compile_anchored regex_new pattern = regex_new (''^(?:'' @ pattern @ '')$'')"

definition compile_matcher ::
  "(string \<Rightarrow> (string \<Rightarrow> bool) option) \<Rightarrow> label_matcher \<Rightarrow> string + compiled_matcher" where
  "compile_matcher regex_new m =
     (let mk = (\<lambda>re. \<lparr>cm_name = lm_name m, cm_op = lm_op m, cm_value = lm_value m, cm_regex = re\<rparr>) in
      if lm_op m = OpMatches \<or> lm_op m = OpNotMatches then
        (case compile_anchored regex_new (lm_value m) of
           None \<Rightarrow> Inl ''invalid regex matcher''
         | Some re \<Rightarrow> Inr (mk (Some re)))
      else Inr (mk None))"

fun build_filter ::
  "(string \<Rightarrow> (string \<Rightarrow> bool) option) \<Rightarrow> label_matcher list \<Rightarrow> string + compiled_matcher list" where
  "build_filter regex_new [] = Inr []"
| "build_filter regex_new (m # ms) =
     (case compile_matcher regex_new m of
        Inl e \<Rightarrow> Inl e
      | Inr c \<Rightarrow> (case build_filter regex_new ms of Inl e \<Rightarrow> Inl e | Inr cs \<Rightarrow> Inr (c # cs)))"

definition regex_matches :: "compiled_matcher \<Rightarrow> string \<Rightarrow> bool option" where
  "regex_matches m actual = (case cm_regex m of None \<Rightarrow> None | Some re \<Rightarrow> Some (re actual))"

definition label_or_empty :: "label_set \<Rightarrow> string \<Rightarrow> string" where
  "label_or_empty labels name = (case map_of labels name of None \<Rightarrow> [] | Some v \<Rightarrow> v)"

definition matcher_matches :: "label_set \<Rightarrow> compiled_matcher \<Rightarrow> bool option" where
  "matcher_matches labels m =
     (let actual = label_or_empty labels (cm_name m) in
      case cm_op m of
        OpEqual \<Rightarrow> Some (actual = cm_value m)
      | OpNotEqual \<Rightarrow> Some (actual \<noteq> cm_value m)
      | OpMatches \<Rightarrow> regex_matches m actual
      | OpNotMatches \<Rightarrow> map_option Not (regex_matches m actual))"

fun all_match :: "label_set \<Rightarrow> compiled_matcher list \<Rightarrow> bool option" where
  "all_match labels [] = Some True"
| "all_match labels (m # ms) =
     (case matcher_matches labels m of
        None \<Rightarrow> None
      | Some b \<Rightarrow> if b then all_match labels ms else Some False)"

definition keep_row :: "compiled_matcher list \<Rightarrow> row \<Rightarrow> bool option" where
  "keep_row fltr r = all_match (merge_labels (fst r) (snd r)) fltr"

text \<open>\<open>Vec::retain\<close> with a condition that may panic.\<close>

fun retain :: "('a \<Rightarrow> bool option) \<Rightarrow> 'a list \<Rightarrow> 'a list option" where
  "retain p [] = Some []"
| "retain p (x # xs) =
     (case p x of
        None \<Rightarrow> None
      | Some b \<Rightarrow> map_option (\<lambda>ys. if b then x # ys else ys) (retain p xs))"

section \<open>The matrix\<close>

definition nanos_to_seconds :: "u64 \<Rightarrow> u64" where
  "nanos_to_seconds t = t div 1000000000"

definition format_value :: "(u64 \<Rightarrow> string) \<Rightarrow> u64 \<Rightarrow> string" where
  "format_value display x =
     (if f64_is_nan x then ''NaN''
      else if f64_is_infinite x then (if f64_sign_negative x then ''-Inf'' else ''+Inf'')
      else display x)"

definition row_labels :: "row \<Rightarrow> label_set" where
  "row_labels r = merge_labels (fst r) (snd r)"

definition row_value :: "(u64 \<Rightarrow> string) \<Rightarrow> row \<Rightarrow> u64 \<times> string" where
  "row_value display r = (nanos_to_seconds (mp_time_unix_nano (snd r)), format_value display (mp_value (snd r)))"

definition group_row ::
  "(u64 \<Rightarrow> string) \<Rightarrow> row \<Rightarrow> (label_set, (u64 \<times> string) list) btree_map \<Rightarrow> (label_set, (u64 \<times> string) list) btree_map" where
  "group_row display r grouped =
     bt_insert (row_labels r)
       ((case map_of grouped (row_labels r) of None \<Rightarrow> [] | Some vs \<Rightarrow> vs) @ [row_value display r]) grouped"

definition to_matrix :: "(u64 \<Rightarrow> string) \<Rightarrow> row list \<Rightarrow> prom_entry list" where
  "to_matrix display rows =
     map (\<lambda>(labels, vs). \<lparr>pe_metric = labels, pe_values = vs\<rparr>) (fold (group_row display) rows [])"

section \<open>Filters never panic and mean what they say\<close>

text \<open>The meaning of a matcher: an absent label is the empty string.\<close>

definition matcher_holds :: "(string \<Rightarrow> (string \<Rightarrow> bool) option) \<Rightarrow> label_set \<Rightarrow> label_matcher \<Rightarrow> bool" where
  "matcher_holds regex_new labels m =
     (let actual = label_or_empty labels (lm_name m);
          re = (case compile_anchored regex_new (lm_value m) of None \<Rightarrow> (\<lambda>_. False) | Some re \<Rightarrow> re) in
      case lm_op m of
        OpEqual \<Rightarrow> actual = lm_value m
      | OpNotEqual \<Rightarrow> actual \<noteq> lm_value m
      | OpMatches \<Rightarrow> re actual
      | OpNotMatches \<Rightarrow> \<not> re actual)"

lemma compile_matcher_holds:
  "compile_matcher regex_new m = Inr c \<Longrightarrow> matcher_matches labels c = Some (matcher_holds regex_new labels m)"
  by (cases "lm_op m")
    (auto simp: compile_matcher_def matcher_matches_def matcher_holds_def regex_matches_def Let_def split: option.splits)

lemma build_filter_holds:
  "build_filter regex_new ms = Inr cs \<Longrightarrow> all_match labels cs = Some (list_all (matcher_holds regex_new labels) ms)"
  by (induction ms arbitrary: cs) (auto simp: compile_matcher_holds split: sum.splits)

lemma retain_total: "(\<And>x. p x = Some (q x)) \<Longrightarrow> retain p xs = Some (filter q xs)"
  by (induction xs) auto

text \<open>A filter is built unless a regular expression does not compile.\<close>

lemma build_filter_refuses:
  "build_filter regex_new ms = Inl e \<longleftrightarrow> e = ''invalid regex matcher'' \<and>
   (\<exists>m\<in>set ms. lm_op m \<in> {OpMatches, OpNotMatches} \<and> compile_anchored regex_new (lm_value m) = None)"
  by (induction ms) (auto simp: compile_matcher_def Let_def split: sum.splits option.splits if_splits)

section \<open>What the matrix holds\<close>

lemma bt_get_group_row:
  "bt_wf g \<Longrightarrow> map_of (group_row display r g) labels =
     (if labels = row_labels r then Some ((case map_of g labels of None \<Rightarrow> [] | Some vs \<Rightarrow> vs) @ [row_value display r])
      else map_of g labels)"
  by (simp add: group_row_def bt_get_insert)

lemma bt_wf_group: "bt_wf g \<Longrightarrow> bt_wf (fold (group_row display) rows g)"
  by (induction rows arbitrary: g) (simp_all add: group_row_def)

lemma group_get:
  "bt_wf g \<Longrightarrow> map_of (fold (group_row display) rows g) labels =
     (let vs = map (row_value display) (filter (\<lambda>r. row_labels r = labels) rows) in
      case map_of g labels of
        None \<Rightarrow> if vs = [] then None else Some vs
      | Some us \<Rightarrow> Some (us @ vs))"
proof (induction rows arbitrary: g)
  case (Cons r rows)
  have "bt_wf (group_row display r g)"
    using Cons.prems by (simp add: group_row_def)
  from Cons.IH [OF this] Cons.prems show ?case
    by (auto simp: bt_get_group_row Let_def split: option.splits)
qed (simp split: option.split)

lemma to_matrix_labels: "map pe_metric (to_matrix display rows) = map fst (fold (group_row display) rows [])"
  by (simp add: to_matrix_def split_def comp_def)

lemma to_matrix_sorted: "sorted_wrt (<) (map pe_metric (to_matrix display rows))"
  using bt_wf_group [of "[]" display rows] by (simp add: to_matrix_labels bt_wf_def)

lemma to_matrix_entry:
  "e \<in> set (to_matrix display rows) \<longleftrightarrow>
   pe_values e = map (row_value display) (filter (\<lambda>r. row_labels r = pe_metric e) rows) \<and> pe_values e \<noteq> []"
proof -
  let ?g = "fold (group_row display) rows []"
  have "distinct (map fst ?g)"
    using bt_wf_group [of "[]" display rows] by (simp add: bt_wf_distinct)
  then have "(pe_metric e, pe_values e) \<in> set ?g \<longleftrightarrow> map_of ?g (pe_metric e) = Some (pe_values e)"
    by (metis map_of_eq_Some_iff)
  moreover have "e \<in> set (to_matrix display rows) \<longleftrightarrow> (pe_metric e, pe_values e) \<in> set ?g"
    by (force simp: to_matrix_def image_iff)
  ultimately show ?thesis
    by (auto simp: group_get Let_def)
qed

lemma to_matrix_metrics: "set (map pe_metric (to_matrix display rows)) = row_labels ` set rows"
proof -
  have "L \<in> pe_metric ` set (to_matrix display rows) \<longleftrightarrow> L \<in> row_labels ` set rows" for L
  proof
    assume "L \<in> pe_metric ` set (to_matrix display rows)"
    then obtain e where "e \<in> set (to_matrix display rows)" "pe_metric e = L"
      by blast
    then have "filter (\<lambda>r. row_labels r = L) rows \<noteq> []"
      unfolding to_matrix_entry by auto
    then show "L \<in> row_labels ` set rows"
      by (auto simp: filter_empty_conv)
  next
    assume "L \<in> row_labels ` set rows"
    then have "filter (\<lambda>r. row_labels r = L) rows \<noteq> []"
      by (auto simp: filter_empty_conv)
    then have "\<lparr>pe_metric = L, pe_values = map (row_value display) (filter (\<lambda>r. row_labels r = L) rows)\<rparr> \<in> set (to_matrix display rows)"
      unfolding to_matrix_entry by simp
    then show "L \<in> pe_metric ` set (to_matrix display rows)"
      by (force simp: image_iff)
  qed
  then show ?thesis
    by auto
qed

end
