(* ===== verification/Query_Api.thy ===== *)
theory Query_Api
  imports Query_Common Query_Matrix Pulse_Theorems
begin

text \<open>
  The metric query API (\<open>crates/query-api/src/lib.rs\<close>): the handler of \<open>GET /api/v1/query_range\<close>
  over a \<open>MetricStore\<close>. The libraries the handler calls are the record \<open>api_env\<close>; a panic is
  \<open>None\<close>. The locale \<open>metric_reader\<close> is what the handler relies on in a store; both Pulse adapters
  are interpretations.
\<close>

section \<open>The handler\<close>

record api_env =
  en_http :: http_lib
  en_decode :: "string \<Rightarrow> string \<Rightarrow> jwt_error_kind + raw_claims"
  en_rfc3339 :: "string \<Rightarrow> 64 word option"
  en_regex_new :: "string \<Rightarrow> (string \<Rightarrow> bool) option"
  en_display :: "u64 \<Rightarrow> string"

record api_config =
  ac_tenant :: "tenant_id option"
  ac_auth :: "validator option"

record api_request =
  rq_authorization :: "string option"
  rq_query :: string
  rq_start :: string
  rq_end :: string
  rq_now :: system_time

definition seconds_to_nanos :: "u64 \<Rightarrow> u64" where
  "seconds_to_nanos seconds = saturating_mul seconds 1000000000"

definition window_range :: "secs_range \<Rightarrow> metric_range" where
  "window_range tr =
     \<lparr>mr_start_unix_nano = seconds_to_nanos (sr_start_secs tr), mr_end_unix_nano = seconds_to_nanos (sr_end_secs tr)\<rparr>"

definition matrix_response :: "prom_entry list \<Rightarrow> prom_entry list http_response" where
  "matrix_response result =
     (if length result > MAX_RESULT_ROWS then error_response 400 REASON_TOO_MANY_ROWS else ok_response result)"

definition resolve_metric_tenant ::
  "api_env \<Rightarrow> api_config \<Rightarrow> api_request \<Rightarrow> (prom_entry list http_response + tenant_id) \<times> audit_event list" where
  "resolve_metric_tenant env cfg req =
     resolve_request_tenant_or_refuse (en_http env) (en_decode env) (ac_auth cfg) (rq_authorization req) (ac_tenant cfg)
       ''the query'' ''query_range'' (rq_now req)"

definition handle_query_range ::
  "api_env \<Rightarrow> api_config \<Rightarrow>
   (tenant_id \<Rightarrow> metric_name \<Rightarrow> metric_range \<Rightarrow> 's \<Rightarrow> (metric_store_error + row list) \<times> 's) \<Rightarrow> api_request \<Rightarrow> 's \<Rightarrow>
   prom_entry list http_response option \<times> 's \<times> audit_event list" where
  "handle_query_range env cfg query req s =
     (case resolve_metric_tenant env cfg req of
        (Inl resp, evs) \<Rightarrow> (Some resp, s, evs)
      | (Inr tenant, evs) \<Rightarrow>
        (case parse_time_range (en_rfc3339 env) (rq_start req) (rq_end req) of
           Inl reason \<Rightarrow> (Some (error_response 400 reason), s, evs)
         | Inr tr \<Rightarrow>
           if saturating_sub (sr_end_secs tr) (sr_start_secs tr) > MAX_WINDOW_SECONDS
           then (Some (error_response 400 REASON_WINDOW_TOO_LARGE), s, evs)
           else
             case parse_selector (rq_query req) of
               Inl reason \<Rightarrow> (Some (error_response 400 reason), s, evs)
             | Inr sel \<Rightarrow>
               (case build_filter (en_regex_new env) (sl_matchers sel) of
                  Inl reason \<Rightarrow> (Some (error_response 400 reason), s, evs)
                | Inr fltr \<Rightarrow>
                  (case query tenant (sl_name sel) (window_range tr) s of
                     (Inl _, s') \<Rightarrow>
                       (Some (error_response 500 ''the backing metric store could not be read''), s', evs)
                   | (Inr rows, s') \<Rightarrow>
                       (map_option (\<lambda>kept. matrix_response (to_matrix (en_display env) kept)) (retain (keep_row fltr) rows),
                        s', evs)))))"

section \<open>What a request asks for\<close>

text \<open>The tenant, window and selector of a request that passes every check before the store.\<close>

definition admitted ::
  "api_env \<Rightarrow> api_config \<Rightarrow> api_request \<Rightarrow> tenant_id \<Rightarrow> secs_range \<Rightarrow> selector \<Rightarrow> bool" where
  "admitted env cfg req t tr sel =
     (fst (resolve_metric_tenant env cfg req) = Inr t \<and>
      parse_time_range (en_rfc3339 env) (rq_start req) (rq_end req) = Inr tr \<and>
      saturating_sub (sr_end_secs tr) (sr_start_secs tr) \<le> MAX_WINDOW_SECONDS \<and>
      parse_selector (rq_query req) = Inr sel \<and>
      (\<forall>m\<in>set (sl_matchers sel). lm_op m \<in> {OpMatches, OpNotMatches} \<longrightarrow>
         compile_anchored (en_regex_new env) (lm_value m) \<noteq> None))"

definition row_wanted :: "api_env \<Rightarrow> secs_range \<Rightarrow> selector \<Rightarrow> metric \<Rightarrow> metric_point \<Rightarrow> bool" where
  "row_wanted env tr sel m p =
     (metric_range_contains (window_range tr) (mp_time_unix_nano p) \<and>
      list_all (matcher_holds (en_regex_new env) (merge_labels m p)) (sl_matchers sel))"

text \<open>The rows of an answer, series by series, as the contents of a store have them.\<close>

definition answer_rows ::
  "api_env \<Rightarrow> series_contents \<Rightarrow> tenant_id \<Rightarrow> secs_range \<Rightarrow> selector \<Rightarrow> row list \<Rightarrow> bool" where
  "answer_rows env A t tr sel rows =
     (\<forall>attrs. filter (\<lambda>r. mt_resource_attributes (fst r) = attrs) rows =
        series_rows (row_wanted env tr sel) (A (t, sl_name sel, attrs)))"

lemma admitted_filter:
  assumes "admitted env cfg req t tr sel"
  obtains fltr where "build_filter (en_regex_new env) (sl_matchers sel) = Inr fltr"
proof (cases "build_filter (en_regex_new env) (sl_matchers sel)")
  case (Inl e)
  then have False
    using assms unfolding build_filter_refuses admitted_def by blast
  then show thesis ..
qed (rule that)

lemma handle_admitted:
  assumes "admitted env cfg req t tr sel" and "query t (sl_name sel) (window_range tr) s = (Inr rows, s')"
  shows "handle_query_range env cfg query req s =
    (Some (matrix_response (to_matrix (en_display env)
       (filter (\<lambda>r. list_all (matcher_holds (en_regex_new env) (row_labels r)) (sl_matchers sel)) rows))),
     s', snd (resolve_metric_tenant env cfg req))"
proof -
  obtain fltr where f: "build_filter (en_regex_new env) (sl_matchers sel) = Inr fltr"
    using admitted_filter [OF assms(1)] .
  have "retain (keep_row fltr) rows =
      Some (filter (\<lambda>r. list_all (matcher_holds (en_regex_new env) (row_labels r)) (sl_matchers sel)) rows)"
    by (rule retain_total) (simp add: keep_row_def build_filter_holds [OF f] row_labels_def)
  moreover obtain evs where r: "resolve_metric_tenant env cfg req = (Inr t, evs)"
    using assms(1) by (cases "resolve_metric_tenant env cfg req") (simp add: admitted_def)
  moreover have "parse_time_range (en_rfc3339 env) (rq_start req) (rq_end req) = Inr tr"
    "\<not> saturating_sub (sr_end_secs tr) (sr_start_secs tr) > MAX_WINDOW_SECONDS" "parse_selector (rq_query req) = Inr sel"
    using assms(1) unfolding admitted_def not_less by blast+
  ultimately show ?thesis
    unfolding handle_query_range_def by (simp add: f assms(2))
qed

lemma handle_store_failed:
  assumes "admitted env cfg req t tr sel" and "query t (sl_name sel) (window_range tr) s = (Inl e, s')"
  shows "handle_query_range env cfg query req s =
    (Some (error_response 500 ''the backing metric store could not be read''), s', snd (resolve_metric_tenant env cfg req))"
proof -
  obtain fltr where f: "build_filter (en_regex_new env) (sl_matchers sel) = Inr fltr"
    using admitted_filter [OF assms(1)] .
  moreover obtain evs where r: "resolve_metric_tenant env cfg req = (Inr t, evs)"
    using assms(1) by (cases "resolve_metric_tenant env cfg req") (simp add: admitted_def)
  moreover have "parse_time_range (en_rfc3339 env) (rq_start req) (rq_end req) = Inr tr"
    "\<not> saturating_sub (sr_end_secs tr) (sr_start_secs tr) > MAX_WINDOW_SECONDS" "parse_selector (rq_query req) = Inr sel"
    using assms(1) unfolding admitted_def not_less by blast+
  ultimately show ?thesis
    unfolding handle_query_range_def by (simp add: f assms(2))
qed

lemma handle_refused:
  assumes "\<nexists>t tr sel. admitted env cfg req t tr sel"
  shows "\<exists>r evs. handle_query_range env cfg query req s = (Some r, s, evs) \<and> hr_status r \<in> {400, 401}"
proof (cases "resolve_metric_tenant env cfg req")
  case (Pair res evs)
  show ?thesis
  proof (cases res)
    case (Inl resp)
    with Pair have "hr_status resp = 401"
      unfolding resolve_metric_tenant_def by (intro resolve_refusal_status) simp
    with Inl Pair show ?thesis
      by (simp add: handle_query_range_def)
  next
    case (Inr t)
    then have t: "fst (resolve_metric_tenant env cfg req) = Inr t"
      using Pair by simp
    have bad: "hr_status (error_response 400 e :: prom_entry list http_response) = 400" for e
      by (simp add: error_response_def)
    consider e where "parse_time_range (en_rfc3339 env) (rq_start req) (rq_end req) = Inl e"
      | tr where "parse_time_range (en_rfc3339 env) (rq_start req) (rq_end req) = Inr tr"
        "saturating_sub (sr_end_secs tr) (sr_start_secs tr) > MAX_WINDOW_SECONDS"
      | tr e where "parse_time_range (en_rfc3339 env) (rq_start req) (rq_end req) = Inr tr"
        "\<not> saturating_sub (sr_end_secs tr) (sr_start_secs tr) > MAX_WINDOW_SECONDS" "parse_selector (rq_query req) = Inl e"
      | tr sel where "parse_time_range (en_rfc3339 env) (rq_start req) (rq_end req) = Inr tr"
        "\<not> saturating_sub (sr_end_secs tr) (sr_start_secs tr) > MAX_WINDOW_SECONDS" "parse_selector (rq_query req) = Inr sel"
      by (meson sumE)
    then show ?thesis
    proof cases
      case (4 tr sel)
      have "\<exists>m\<in>set (sl_matchers sel). lm_op m \<in> {OpMatches, OpNotMatches} \<and> compile_anchored (en_regex_new env) (lm_value m) = None"
      proof (rule ccontr)
        assume "\<not> ?thesis"
        then have "admitted env cfg req t tr sel"
          using 4 t by (auto simp: admitted_def not_less)
        with assms show False
          by blast
      qed
      then have "build_filter (en_regex_new env) (sl_matchers sel) = Inl ''invalid regex matcher''"
        by (simp only: build_filter_refuses)
      with 4 Pair Inr bad show ?thesis
        by (simp add: handle_query_range_def)
    qed (use Pair Inr bad in \<open>simp_all add: handle_query_range_def\<close>)
  qed
qed

lemma series_rows_filter:
  "filter (\<lambda>r. P (fst r) (snd r)) (series_rows cond e) = series_rows (\<lambda>m p. cond m p \<and> P m p) e"
  by (auto simp: series_rows_def filter_map comp_def filter_filter conj_commute split: option.split)

text \<open>Row lists with the same rows per series have the same rows.\<close>

lemma mset_by_series:
  assumes "\<And>attrs. filter (\<lambda>r. mt_resource_attributes (fst r) = attrs) rows =
    filter (\<lambda>r. mt_resource_attributes (fst r) = attrs) rows'"
  shows "mset rows = mset (rows' :: row list)"
proof (rule multiset_eqI)
  fix r :: row
  have "count (mset xs) r = count (mset (filter (\<lambda>x. mt_resource_attributes (fst x) = mt_resource_attributes (fst r)) xs)) r"
    for xs :: "row list"
    by simp
  then show "count (mset rows) r = count (mset rows') r"
    using assms by metis
qed

section \<open>The interface to the store\<close>

locale metric_reader =
  fixes query :: "tenant_id \<Rightarrow> metric_name \<Rightarrow> metric_range \<Rightarrow> 's \<Rightarrow> (metric_store_error + row list) \<times> 's"
    and contents :: "'s \<Rightarrow> series_contents"
    and ok :: "'s \<Rightarrow> bool"
  assumes read_rows: "ok s \<Longrightarrow> \<exists>rows s'. query t name rng s = (Inr rows, s') \<and> ok s' \<and> contents s' = contents s \<and>
      (\<forall>attrs. filter (\<lambda>r. mt_resource_attributes (fst r) = attrs) rows =
         series_rows (\<lambda>m p. metric_range_contains rng (mp_time_unix_nano p)) (contents s (t, name, attrs)))"
begin

lemma handle_answers:
  assumes "ok s" and "admitted env cfg req t tr sel"
  shows "\<exists>rows s'. answer_rows env (contents s) t tr sel rows \<and> ok s' \<and> contents s' = contents s \<and>
    handle_query_range env cfg query req s =
      (Some (matrix_response (to_matrix (en_display env) rows)), s', snd (resolve_metric_tenant env cfg req))"
proof -
  obtain rows s' where q: "query t (sl_name sel) (window_range tr) s = (Inr rows, s')" and s': "ok s'" "contents s' = contents s"
    and rows: "\<And>attrs. filter (\<lambda>r. mt_resource_attributes (fst r) = attrs) rows =
      series_rows (\<lambda>m p. metric_range_contains (window_range tr) (mp_time_unix_nano p)) (contents s (t, sl_name sel, attrs))"
    using read_rows [OF assms(1)] by metis
  let ?keep = "\<lambda>r. list_all (matcher_holds (en_regex_new env) (row_labels r)) (sl_matchers sel)"
  have "filter (\<lambda>r. mt_resource_attributes (fst r) = attrs) (filter ?keep rows) =
      series_rows (row_wanted env tr sel) (contents s (t, sl_name sel, attrs))" for attrs
  proof -
    have "filter (\<lambda>r. mt_resource_attributes (fst r) = attrs) (filter ?keep rows) =
        filter ?keep (filter (\<lambda>r. mt_resource_attributes (fst r) = attrs) rows)"
      by (simp add: conj_commute)
    also have "\<dots> = series_rows (row_wanted env tr sel) (contents s (t, sl_name sel, attrs))"
      unfolding rows row_labels_def
      using series_rows_filter [of "\<lambda>m p. list_all (matcher_holds (en_regex_new env) (merge_labels m p)) (sl_matchers sel)"]
      by (simp add: row_wanted_def [abs_def])
    finally show ?thesis .
  qed
  then have "answer_rows env (contents s) t tr sel (filter ?keep rows)"
    by (simp only: answer_rows_def) blast
  with handle_admitted [where query = query, OF assms(2) q] s' show ?thesis
    by blast
qed

end

interpretation file_reader: metric_reader pulse_query file_contents pulse_file_ok
proof
  fix s t name rng
  assume "pulse_file_ok s"
  then show "\<exists>rows s'. pulse_query t name rng s = (Inr rows, s') \<and> pulse_file_ok s' \<and> file_contents s' = file_contents s \<and>
      (\<forall>attrs. filter (\<lambda>r. mt_resource_attributes (fst r) = attrs) rows =
         series_rows (\<lambda>m p. metric_range_contains rng (mp_time_unix_nano p)) (file_contents s (t, name, attrs)))"
    unfolding pulse_query_def Let_def
    using pulse_rows_ok [of "pf_index s" _ t name "\<lambda>_ p. metric_range_contains rng (mp_time_unix_nano p)"]
    by (simp add: pulse_file_ok_def split_def)
qed

interpretation mem_reader: metric_reader pulse_mem_query mem_contents pulse_mem_ok
proof
  fix s t name rng
  assume "pulse_mem_ok s"
  then show "\<exists>rows s'. pulse_mem_query t name rng s = (Inr rows, s') \<and> pulse_mem_ok s' \<and> mem_contents s' = mem_contents s \<and>
      (\<forall>attrs. filter (\<lambda>r. mt_resource_attributes (fst r) = attrs) rows =
         series_rows (\<lambda>m p. metric_range_contains rng (mp_time_unix_nano p)) (mem_contents s (t, name, attrs)))"
    unfolding pulse_mem_query_def Let_def
    using pulse_rows_ok [of "pm_index s" _ t name "\<lambda>_ p. metric_range_contains rng (mp_time_unix_nano p)"]
    by (simp add: pulse_mem_ok_def split_def)
qed

section \<open>Properties\<close>

text \<open>
  C19. The answer to a metric query is the matrix of the contents of the store: for an admitted
  request the handler succeeds, except that a matrix of too many entries is refused with a 400; the rows it is built
  from are, series by series and in the order of the series, the points of the tenant and the
  metric inside the window whose label set satisfies every matcher; the entries are in the order of
  their label sets, one for every label set of a row, and hold exactly the rows with that label set.
\<close>

theorem metric_query_answer:
  assumes "pulse_file_ok s" and "admitted env cfg req t tr sel"
  shows "\<exists>rows M s'. answer_rows env (file_contents s) t tr sel rows \<and>
    handle_query_range env cfg pulse_query req s =
      (Some (if MAX_RESULT_ROWS < length M then error_response 400 REASON_TOO_MANY_ROWS else ok_response M), s',
       snd (resolve_metric_tenant env cfg req)) \<and>
    file_contents s' = file_contents s \<and>
    sorted_wrt (<) (map pe_metric M) \<and> set (map pe_metric M) = row_labels ` set rows \<and>
    (\<forall>e\<in>set M. pe_values e = map (row_value (en_display env)) (filter (\<lambda>r. row_labels r = pe_metric e) rows))"
proof -
  obtain rows s' where r: "answer_rows env (file_contents s) t tr sel rows" "file_contents s' = file_contents s"
    "handle_query_range env cfg pulse_query req s =
      (Some (matrix_response (to_matrix (en_display env) rows)), s', snd (resolve_metric_tenant env cfg req))"
    using file_reader.handle_answers [OF assms] by blast
  show ?thesis
    by (intro exI [of _ rows] exI [of _ "to_matrix (en_display env) rows"] exI [of _ s'] conjI)
      (use r in \<open>simp_all only: matrix_response_def to_matrix_sorted to_matrix_metrics\<close>, use to_matrix_entry in blast)
qed

text \<open>Two matrices that differ at most in the order of the values of an entry.\<close>

definition same_entry :: "prom_entry \<Rightarrow> prom_entry \<Rightarrow> bool" where
  "same_entry e e' = (pe_metric e = pe_metric e' \<and> mset (pe_values e) = mset (pe_values e'))"

definition same_answer :: "prom_entry list http_response \<Rightarrow> prom_entry list http_response \<Rightarrow> bool" where
  "same_answer r r' =
     (hr_status r = hr_status r' \<and> hr_www_authenticate r = hr_www_authenticate r' \<and>
      (case hr_body r of
         ErrorBody e \<Rightarrow> hr_body r' = ErrorBody e
       | DataBody M \<Rightarrow> (\<exists>M'. hr_body r' = DataBody M' \<and> list_all2 same_entry M M')))"

lemma to_matrix_same:
  assumes "mset rows = mset rows'"
  shows "list_all2 same_entry (to_matrix display rows) (to_matrix display rows')"
proof -
  let ?M = "to_matrix display rows" and ?M' = "to_matrix display rows'"
  have "set rows = set rows'"
    using assms by (rule mset_eq_setD)
  then have labels: "map pe_metric ?M = map pe_metric ?M'"
    using to_matrix_sorted [of display rows] to_matrix_sorted [of display rows']
      to_matrix_metrics [of display rows] to_matrix_metrics [of display rows']
    by (intro strict_sorted_equal) simp_all
  then have len: "length ?M = length ?M'"
    by (metis length_map)
  show ?thesis
  proof (rule list_all2_all_nthI [OF len])
    fix i
    assume i: "i < length ?M"
    then have l: "pe_metric (?M ! i) = pe_metric (?M' ! i)"
      using labels len by (metis nth_map)
    have "pe_values (?M ! i) = map (row_value display) (filter (\<lambda>r. row_labels r = pe_metric (?M ! i)) rows)"
      "pe_values (?M' ! i) = map (row_value display) (filter (\<lambda>r. row_labels r = pe_metric (?M' ! i)) rows')"
      using i len to_matrix_entry nth_mem by metis+
    then show "same_entry (?M ! i) (?M' ! i)"
      using assms by (simp add: same_entry_def l mset_filter)
  qed
qed

lemma same_answer_matrix:
  assumes "mset rows = mset rows'"
  shows "same_answer (matrix_response (to_matrix display rows)) (matrix_response (to_matrix display rows'))"
  using to_matrix_same [OF assms, of display] list_all2_lengthD [OF to_matrix_same [OF assms, of display]]
  by (simp add: same_answer_def matrix_response_def error_response_def ok_response_def)

text \<open>
  Tenants are isolated: the answer to a request depends on nothing in the store but the series
  of the request's own tenant. Two stores that agree on them, and may differ arbitrarily in what
  they hold for others, give the same answer, up to the order in which a hash map lists the series
  whose points share a label set.
\<close>

theorem metric_query_isolation:
  assumes "pulse_file_ok s1" and "pulse_file_ok s2" and "admitted env cfg req t tr sel"
    and "\<forall>k. file_contents s1 (t, k) = file_contents s2 (t, k)"
  shows "\<exists>r1 r2 s1' s2' evs. handle_query_range env cfg pulse_query req s1 = (Some r1, s1', evs) \<and>
    handle_query_range env cfg pulse_query req s2 = (Some r2, s2', evs) \<and> same_answer r1 r2"
proof -
  obtain rows1 rows2 s1' s2' where a: "answer_rows env (file_contents s1) t tr sel rows1" "answer_rows env (file_contents s2) t tr sel rows2"
    and h: "handle_query_range env cfg pulse_query req s1 =
      (Some (matrix_response (to_matrix (en_display env) rows1)), s1', snd (resolve_metric_tenant env cfg req))"
    "handle_query_range env cfg pulse_query req s2 =
      (Some (matrix_response (to_matrix (en_display env) rows2)), s2', snd (resolve_metric_tenant env cfg req))"
    using file_reader.handle_answers [OF assms(1,3)] file_reader.handle_answers [OF assms(2,3)] by blast
  have "mset rows1 = mset rows2"
    using a assms(4) by (intro mset_by_series) (simp add: answer_rows_def)
  from same_answer_matrix [OF this] h show ?thesis
    by blast
qed

text \<open>
  The handler never panics, and it touches the store only for a request that passed every
  check: whatever the store does and whatever the request is, there is a response, and unless
  tenant, window, selector and regular expressions are all valid it is a 400 or a 401 and the store
  has not been queried.
\<close>

theorem metric_query_guarded:
  "\<exists>r s' evs. handle_query_range env cfg query req s = (Some r, s', evs) \<and>
     ((\<exists>t tr sel. admitted env cfg req t tr sel) \<or> s' = s \<and> hr_status r \<in> {400, 401})"
proof (cases "\<exists>t tr sel. admitted env cfg req t tr sel")
  case True
  then obtain t tr sel where a: "admitted env cfg req t tr sel"
    by blast
  show ?thesis
  proof (cases "query t (sl_name sel) (window_range tr) s")
    case (Pair res s')
    show ?thesis
    proof (cases res)
      case (Inl e)
      with Pair handle_store_failed [where query = query, OF a] a show ?thesis
        by blast
    next
      case (Inr rows)
      with Pair handle_admitted [where query = query, OF a] a show ?thesis
        by blast
    qed
  qed
next
  case False
  then show ?thesis
    using handle_refused [of env cfg req query s] by blast
qed

end
