(* ===== verification/Query_Order.thy ===== *)
theory Query_Order
  imports Query_Api
begin

text \<open>
  The order of the values of a matrix entry. The store keeps every series in time order, and an
  entry whose points come from one series inherits it; an entry whose points come from two series,
  which a point attribute overriding a resource attribute makes possible, does not.
\<close>

section \<open>Entries of one series\<close>

text \<open>No two series of the answer have points with the same derived label set.\<close>

definition labels_separate ::
  "api_env \<Rightarrow> series_contents \<Rightarrow> tenant_id \<Rightarrow> secs_range \<Rightarrow> selector \<Rightarrow> bool" where
  "labels_separate env A t tr sel =
     (\<forall>attrs attrs' r r'. r \<in> set (series_rows (row_wanted env tr sel) (A (t, sl_name sel, attrs))) \<longrightarrow>
        r' \<in> set (series_rows (row_wanted env tr sel) (A (t, sl_name sel, attrs'))) \<longrightarrow>
        row_labels r = row_labels r' \<longrightarrow> attrs = attrs')"

lemma nanos_to_seconds_mono: "a \<le> b \<Longrightarrow> nanos_to_seconds a \<le> nanos_to_seconds b"
  by (simp add: nanos_to_seconds_def word_le_nat_alt unat_div div_le_mono)

lemma series_rows_sorted:
  "sorted (map (\<lambda>r. mp_time_unix_nano (snd r)) (series_rows cond (contents_of series k)))"
proof (cases "contents_of series k")
  case (Some e)
  then have "sorted (map mp_time_unix_nano (se_points e))"
    by (auto simp: contents_of_def sort_entry_def)
  then have "sorted (map mp_time_unix_nano (filter P (se_points e)))" for P
    by (rule sorted_filter)
  with Some show ?thesis
    by (simp add: series_rows_def comp_def)
qed (simp add: series_rows_def contents_of_def)

lemma answer_rows_member:
  assumes "answer_rows env A t tr sel rows" and "r \<in> set rows"
  shows "r \<in> set (series_rows (row_wanted env tr sel) (A (t, sl_name sel, mt_resource_attributes (fst r))))"
proof -
  have "r \<in> set (filter (\<lambda>x. mt_resource_attributes (fst x) = mt_resource_attributes (fst r)) rows)"
    using assms(2) by simp
  then show ?thesis
    using assms(1) by (simp only: answer_rows_def)
qed

lemma separate_values_sorted:
  assumes "answer_rows env (contents_of series) t tr sel rows" and "labels_separate env (contents_of series) t tr sel"
  shows "sorted (map fst (map (row_value display) (filter (\<lambda>r. row_labels r = L) rows)))"
proof (cases "filter (\<lambda>r. row_labels r = L) rows")
  case (Cons r0 rest)
  then have r0: "r0 \<in> set rows" "row_labels r0 = L"
    by (auto simp: filter_eq_Cons_iff)
  let ?a = "mt_resource_attributes (fst r0)"
  have one: "mt_resource_attributes (fst r) = ?a" if "r \<in> set rows" "row_labels r = L" for r
    using assms(2) answer_rows_member [OF assms(1) that(1)] answer_rows_member [OF assms(1) r0(1)] that(2) r0(2)
    unfolding labels_separate_def by metis
  then have "filter (\<lambda>r. row_labels r = L) rows =
      filter (\<lambda>r. row_labels r = L) (filter (\<lambda>r. mt_resource_attributes (fst r) = ?a) rows)"
    by (auto intro!: filter_cong)
  also have "\<dots> = filter (\<lambda>r. row_labels r = L) (series_rows (row_wanted env tr sel) (contents_of series (t, sl_name sel, ?a)))"
    using assms(1) by (simp only: answer_rows_def)
  finally have "sorted (map (\<lambda>r. mp_time_unix_nano (snd r)) (filter (\<lambda>r. row_labels r = L) rows))"
    using sorted_filter [OF series_rows_sorted] by simp
  then show ?thesis
    by (induction "filter (\<lambda>r. row_labels r = L) rows" arbitrary: rows)
      (auto simp: sorted_map sorted_wrt_map row_value_def nanos_to_seconds_mono elim: sorted_wrt_mono_rel [rotated])
qed simp

text \<open>
  The values of an entry are in time order whenever no two series of the metric have points
  with the same derived label set: the timestamps of every entry of the answer are ascending.
\<close>

theorem metric_values_in_time_order:
  assumes "pulse_file_ok s" and "admitted env cfg req t tr sel" and "labels_separate env (file_contents s) t tr sel"
    and "handle_query_range env cfg pulse_query req s = (Some r, s', evs)" and "hr_body r = DataBody M" and "e \<in> set M"
  shows "sorted (map fst (pe_values e))"
proof -
  obtain rows where a: "answer_rows env (file_contents s) t tr sel rows"
    and r: "r = matrix_response (to_matrix (en_display env) rows)"
    using file_reader.handle_answers [OF assms(1,2)] assms(4) by auto
  then have "M = to_matrix (en_display env) rows"
    using assms(5) by (simp add: matrix_response_def error_response_def ok_response_def split: if_splits)
  then have "pe_values e = map (row_value (en_display env)) (filter (\<lambda>r. row_labels r = pe_metric e) rows)"
    using assms(6) to_matrix_entry by blast
  with separate_values_sorted [OF a assms(3)] show ?thesis
    by simp
qed

section \<open>A concrete store\<close>

definition ux_point :: "u64 \<Rightarrow> metric_point" where
  "ux_point t = \<lparr>mp_time_unix_nano = t, mp_start_time_unix_nano = 0, mp_attributes = [(''region'', ''x'')], mp_value = 0\<rparr>"

definition ux_metric :: "string \<Rightarrow> metric_point list \<Rightarrow> metric" where
  "ux_metric region ps = \<lparr>mt_name = ''m'', mt_description = [], mt_unit = [], mt_kind = Gauge, mt_points = ps,
     mt_resource_attributes = [(''region'', region)]\<rparr>"

definition ux_env :: api_env where
  "ux_env = \<lparr>en_http = qx_lib, en_decode = qx_decode, en_rfc3339 = (\<lambda>_. None), en_regex_new = (\<lambda>_. None),
     en_display = (\<lambda>_. ''0'')\<rparr>"

definition ux_cfg :: api_config where
  "ux_cfg = \<lparr>ac_tenant = Some ''t'', ac_auth = None\<rparr>"

definition ux_request :: api_request where
  "ux_request = \<lparr>rq_authorization = None, rq_query = ''m'', rq_start = nat_str 0, rq_end = nat_str 60, rq_now = 0\<rparr>"

definition ux_window :: secs_range where
  "ux_window = \<lparr>sr_start_secs = 0, sr_end_secs = 60\<rparr>"

definition ux_selector :: selector where
  "ux_selector = \<lparr>sl_name = ''m'', sl_matchers = []\<rparr>"

lemma ux_admitted: "admitted ux_env ux_cfg ux_request ''t'' ux_window ux_selector"
proof -
  have "fst (resolve_metric_tenant ux_env ux_cfg ux_request) = Inr ''t''"
    by (simp add: resolve_metric_tenant_def resolve_request_tenant_or_refuse_def resolve_tenant_or_refuse_def ux_cfg_def)
  moreover have "parse_time_range (en_rfc3339 ux_env) (rq_start ux_request) (rq_end ux_request) = Inr ux_window"
    using parse_epoch_seconds_nat [of 0 "nat_str 0"] parse_epoch_seconds_nat [of 60 "nat_str 60"]
    by (simp add: parse_time_range_def ux_request_def ux_window_def del: nat_str.simps)
  moreover have "rust_trim ''m'' = ''m''"
    by (rule rust_trim_visible) (simp add: byte_in_def)
  then have "parse_selector (rq_query ux_request) = Inr ux_selector"
    by (simp add: parse_selector_def split_at_brace_def is_bare_metric_name_def is_name_start_def is_ascii_alphabetic_def
        byte_in_def ux_request_def ux_selector_def)
  ultimately show ?thesis
    by (simp add: admitted_def ux_window_def ux_selector_def saturating_sub_def MAX_WINDOW_SECONDS_def)
qed

definition ux_both :: "metric list" where
  "ux_both = [ux_metric ''a'' [ux_point 10000000000, ux_point 30000000000], ux_metric ''b'' [ux_point 20000000000]]"

definition ux_one :: "metric list" where
  "ux_one = [ux_metric ''a'' [ux_point 10000000000, ux_point 30000000000]]"

definition ux_mem :: "metric list \<Rightarrow> pulse_mem" where
  "ux_mem ms = snd (pulse_mem_ingest 10 ''t'' ms pulse_mem_new)"

definition ux_other_order :: pulse_mem where
  "ux_other_order = (ux_mem ux_both)\<lparr>pm_index := (pm_index (ux_mem ux_both))\<lparr>px_series := rev (px_series (pm_index (ux_mem ux_both)))\<rparr>\<rparr>"

definition ux_rows :: "pulse_mem \<Rightarrow> row list" where
  "ux_rows s = pulse_rows ''t'' ''m'' (\<lambda>_ p. metric_range_contains (window_range ux_window) (mp_time_unix_nano p)) (px_series (pm_index s))"

lemma ux_handle:
  "fst (handle_query_range ux_env ux_cfg pulse_mem_query ux_request s) = Some (matrix_response (to_matrix (\<lambda>_. ''0'') (ux_rows s)))"
proof -
  have "pulse_mem_query ''t'' (sl_name ux_selector) (window_range ux_window) s =
    (Inr (ux_rows s), s\<lparr>pm_events := pm_events s @ [PulseQuery ''t'' (length (ux_rows s))]\<rparr>)"
    by (simp add: pulse_mem_query_def ux_selector_def ux_rows_def Let_def)
  from handle_admitted [where query = pulse_mem_query, OF ux_admitted this] show ?thesis
    by (simp add: ux_selector_def ux_env_def)
qed

lemma to_matrix_one_label:
  assumes "rows \<noteq> []" and "list_all (\<lambda>r. row_labels r = L) rows"
  shows "to_matrix display rows = [\<lparr>pe_metric = L, pe_values = map (row_value display) rows\<rparr>]"
proof -
  have all: "filter (\<lambda>r. row_labels r = L) rows = rows"
    using assms(2) by (simp add: list_all_iff filter_id_conv)
  have "set (map pe_metric (to_matrix display rows)) = set [L]"
    unfolding to_matrix_metrics using assms by (cases rows) (auto simp: list_all_iff)
  then have "map pe_metric (to_matrix display rows) = [L]"
    using to_matrix_sorted [of display rows] by (intro strict_sorted_equal) simp_all
  then obtain e where e: "to_matrix display rows = [e]" "pe_metric e = L"
    by auto
  then have "pe_values e = map (row_value display) rows"
    using to_matrix_entry [of e display rows] all by simp
  with e show ?thesis
    by simp
qed

definition ux_labels :: label_set where
  "ux_labels = [(''__name__'', ''m''), (''region'', ''x'')]"

definition row_seconds :: "row \<Rightarrow> u64" where
  "row_seconds r = nanos_to_seconds (mp_time_unix_nano (snd r))"

lemma ux_rows_seconds:
  "list_all (\<lambda>r. row_labels r = ux_labels) (ux_rows (ux_mem ux_both)) \<and>
   List.member [[10, 30, 20], [20, 10, 30]] (map row_seconds (ux_rows (ux_mem ux_both)))"
  "list_all (\<lambda>r. row_labels r = ux_labels) (ux_rows ux_other_order) \<and>
   List.member [[10, 30, 20], [20, 10, 30]] (map row_seconds (ux_rows ux_other_order))"
  "list_all (\<lambda>r. row_labels r = ux_labels) (ux_rows (ux_mem ux_one)) \<and>
   map row_seconds (ux_rows (ux_mem ux_one)) = [10, 30]"
  by code_simp+

text \<open>
  Two series of one metric whose points carry an attribute that overrides the resource
  attribute the series differ in are merged into one entry, and its values are then not in time
  order, in whatever order the hash map lists the two series.
\<close>

theorem metric_values_out_of_order:
  "\<exists>e e'. fst (handle_query_range ux_env ux_cfg pulse_mem_query ux_request (ux_mem ux_both)) = Some (ok_response [e]) \<and>
     fst (handle_query_range ux_env ux_cfg pulse_mem_query ux_request ux_other_order) = Some (ok_response [e']) \<and>
     \<not> sorted (map fst (pe_values e)) \<and> \<not> sorted (map fst (pe_values e'))"
proof -
  have one: "\<exists>e. matrix_response (to_matrix (\<lambda>_. ''0'') rows) = ok_response [e] \<and> \<not> sorted (map fst (pe_values e))"
    if a: "list_all (\<lambda>r. row_labels r = ux_labels) rows \<and> List.member [[10, 30, 20], [20, 10, 30]] (map row_seconds rows)" for rows
  proof -
    have "rows \<noteq> []"
      using a by auto
    moreover have "fst \<circ> row_value (\<lambda>_. ''0'') = row_seconds"
      by (simp add: fun_eq_iff row_value_def row_seconds_def)
    moreover have "\<not> sorted (map row_seconds rows)"
      using a by auto
    ultimately show ?thesis
      using a to_matrix_one_label [of rows ux_labels "\<lambda>_. ''0''"]
      by (intro exI [of _ "\<lparr>pe_metric = ux_labels, pe_values = map (row_value (\<lambda>_. ''0'')) rows\<rparr>"])
        (simp add: matrix_response_def MAX_RESULT_ROWS_def)
  qed
  from one [OF ux_rows_seconds(1)] one [OF ux_rows_seconds(2)] show ?thesis
    by (auto simp: ux_handle)
qed

section \<open>Witnesses\<close>

definition ux_file :: "metric list \<Rightarrow> pulse_file" where
  "ux_file ms = \<lparr>pf_index = pm_index (ux_mem ms), pf_wal = \<lparr>wr_file = [], wr_buf = [], wr_synced = 0\<rparr>,
     pf_dir = \<lparr>sf_canonical = None, sf_tmp = None, sf_undo = None\<rparr>, pf_events = []\<rparr>"

lemma ux_file_ok: "pulse_file_ok (ux_file ms)"
proof -
  obtain rc where "pulse_mem_ingest 10 ''t'' ms pulse_mem_new = (Inr rc, ux_mem ms)"
    by (cases "pulse_mem_ingest 10 ''t'' ms pulse_mem_new") (auto simp: pulse_mem_ingest_def ux_mem_def split: prod.splits)
  moreover have "pulse_mem_ok pulse_mem_new"
    by (auto simp: pulse_mem_ok_def pulse_mem_new_def pulse_ok_def pulse_sorted_def tenant_series_def)
  ultimately have "pulse_mem_ok (ux_mem ms)"
    using pulse_mem.ingest_acked by blast
  then show ?thesis
    by (simp add: pulse_file_ok_def pulse_mem_ok_def ux_file_def)
qed

theorem metric_query_answer_witness:
  "\<exists>rows M s'. answer_rows ux_env (file_contents (ux_file ux_both)) ''t'' ux_window ux_selector rows \<and>
    handle_query_range ux_env ux_cfg pulse_query ux_request (ux_file ux_both) =
      (Some (if MAX_RESULT_ROWS < length M then error_response 400 REASON_TOO_MANY_ROWS else ok_response M), s',
       snd (resolve_metric_tenant ux_env ux_cfg ux_request))"
  using metric_query_answer [OF ux_file_ok ux_admitted, of ux_both] by blast

lemma ingest_other_tenant: "u \<noteq> t \<Longrightarrow> fst (ingest_spec limit u ms A) (t, k) = A (t, k)"
  by (induction ms arbitrary: A) (simp_all add: Let_def split_def)

definition ux_shared :: pulse_file where
  "ux_shared = (ux_file ux_both)\<lparr>pf_index := pm_index (snd (pulse_mem_ingest 10 ''u'' ux_one (ux_mem ux_both)))\<rparr>"

lemma ux_shared_facts:
  "pulse_file_ok ux_shared" "file_contents ux_shared (''t'', k) = file_contents (ux_file ux_both) (''t'', k)"
proof -
  let ?m = "snd (pulse_mem_ingest 10 ''u'' ux_one (ux_mem ux_both))"
  obtain rc where "pulse_mem_ingest 10 ''u'' ux_one (ux_mem ux_both) = (Inr rc, ?m)"
    by (cases "pulse_mem_ingest 10 ''u'' ux_one (ux_mem ux_both)") (auto simp: pulse_mem_ingest_def split: prod.splits)
  moreover have "pulse_mem_ok (ux_mem ux_both)"
    using ux_file_ok [of ux_both] by (simp add: pulse_file_ok_def pulse_mem_ok_def ux_file_def)
  ultimately have i: "pulse_mem_ok ?m" "mem_contents ?m = fst (ingest_spec (Some 10) ''u'' ux_one (mem_contents (ux_mem ux_both)))"
    using pulse_mem.ingest_acked by fastforce+
  then show "pulse_file_ok ux_shared"
    by (simp add: pulse_file_ok_def pulse_mem_ok_def ux_shared_def)
  show "file_contents ux_shared (''t'', k) = file_contents (ux_file ux_both) (''t'', k)"
    using i(2) ingest_other_tenant [of "''u''" "''t''"] by (simp add: ux_shared_def ux_file_def)
qed

theorem metric_query_isolation_witness:
  "\<exists>r1 r2 s1' s2' evs. handle_query_range ux_env ux_cfg pulse_query ux_request ux_shared = (Some r1, s1', evs) \<and>
    handle_query_range ux_env ux_cfg pulse_query ux_request (ux_file ux_both) = (Some r2, s2', evs) \<and> same_answer r1 r2"
  using metric_query_isolation [OF ux_shared_facts(1) ux_file_ok ux_admitted, of ux_both] ux_shared_facts(2) by blast

lemma ux_one_series: "map fst (px_series (pm_index (ux_mem ux_one))) = [(''t'', ''m'', [(''region'', ''a'')])]"
  by code_simp

lemma ux_one_separate: "labels_separate ux_env (file_contents (ux_file ux_one)) ''t'' ux_window ux_selector"
proof -
  have none: "file_contents (ux_file ux_one) (''t'', n, attrs) = None" if "attrs \<noteq> [(''region'', ''a'')]" for n attrs
  proof -
    have "(''t'', n, attrs) \<notin> set (map fst (px_series (pm_index (ux_mem ux_one))))"
      using that unfolding ux_one_series by simp
    then show ?thesis
      by (simp add: contents_of_def ux_file_def map_of_eq_None_iff)
  qed
  have "attrs = [(''region'', ''a'')]"
    if "r \<in> set (series_rows c (file_contents (ux_file ux_one) (''t'', n, attrs)))" for r c n attrs
    using that none [of attrs n] by (cases "attrs = [(''region'', ''a'')]") (simp_all add: series_rows_def)
  then show ?thesis
    unfolding labels_separate_def by metis
qed

theorem metric_values_in_time_order_witness:
  "\<exists>r s' evs e. handle_query_range ux_env ux_cfg pulse_query ux_request (ux_file ux_one) = (Some r, s', evs) \<and>
     hr_body r = DataBody [e] \<and> sorted (map fst (pe_values e))"
proof -
  let ?e = "\<lparr>pe_metric = ux_labels, pe_values = map (row_value (\<lambda>_. ''0'')) (ux_rows (ux_mem ux_one))\<rparr>"
  have "\<exists>s'. pulse_query ''t'' (sl_name ux_selector) (window_range ux_window) (ux_file ux_one) = (Inr (ux_rows (ux_mem ux_one)), s')"
    by (simp add: pulse_query_def ux_selector_def ux_rows_def ux_file_def Let_def)
  then obtain s' where "pulse_query ''t'' (sl_name ux_selector) (window_range ux_window) (ux_file ux_one) = (Inr (ux_rows (ux_mem ux_one)), s')"
    by blast
  from handle_admitted [where query = pulse_query, OF ux_admitted this]
  have h: "handle_query_range ux_env ux_cfg pulse_query ux_request (ux_file ux_one) =
      (Some (matrix_response (to_matrix (\<lambda>_. ''0'') (ux_rows (ux_mem ux_one)))), s', snd (resolve_metric_tenant ux_env ux_cfg ux_request))"
    by (simp add: ux_selector_def ux_env_def)
  have "ux_rows (ux_mem ux_one) \<noteq> []"
    using ux_rows_seconds(3) by auto
  with to_matrix_one_label [of "ux_rows (ux_mem ux_one)" ux_labels "\<lambda>_. ''0''"] ux_rows_seconds(3)
  have b: "hr_body (matrix_response (to_matrix (\<lambda>_. ''0'') (ux_rows (ux_mem ux_one)))) = DataBody [?e]"
    by (simp add: matrix_response_def MAX_RESULT_ROWS_def ok_response_def)
  from metric_values_in_time_order [OF ux_file_ok ux_admitted ux_one_separate h b, of ?e] h b show ?thesis
    by auto
qed

end
