(* ===== verification/Lumen_Store.thy ===== *)
theory Lumen_Store
  imports Wal_Pillar
begin

text \<open>
  Lumen, the log store (\<open>crates/lumen/src\<close>): OTLP-shaped records, the query predicate, the
  \<open>LogStore\<close> port with its in-memory adapter, and the file-backed adapter with its log and
  snapshot. The port is the locale \<open>log_store\<close>; both adapters are interpretations of it. Serialised
  records and snapshots go through \<open>serde_json\<close>, whose functions are arguments.
\<close>

section \<open>Records (\<open>record.rs\<close>)\<close>

type_synonym severity_number = int

definition SEV_UNSPECIFIED :: severity_number where "SEV_UNSPECIFIED = 0"
definition SEV_INFO :: severity_number where "SEV_INFO = 9"
definition SEV_ERROR :: severity_number where "SEV_ERROR = 17"

record log_record =
  observed_time_unix_nano :: u64
  severity_number :: severity_number
  severity_text :: string
  body :: string
  attributes :: "(string \<times> string) list"
  resource_attributes :: "(string \<times> string) list"
  trace_id :: "u8 list option"
  span_id :: "u8 list option"

record log_batch =
  records :: "log_record list"

record time_range =
  start_unix_nano :: u64
  end_unix_nano :: u64

definition time_range_all :: time_range where
  "time_range_all = \<lparr>start_unix_nano = 0, end_unix_nano = - 1\<rparr>"

definition range_contains :: "time_range \<Rightarrow> u64 \<Rightarrow> bool" where
  "range_contains rng t = (start_unix_nano rng \<le> t \<and> t < end_unix_nano rng)"

section \<open>Predicates (\<open>predicate.rs\<close>)\<close>

text \<open>A compiled \<open>regex::Regex\<close> is its \<open>is_match\<close> function.\<close>

record lumen_predicate =
  p_service :: "string option"
  p_min_severity :: "severity_number option"
  p_body_contains :: "string option"
  p_body_regex :: "(string \<Rightarrow> bool) option"

definition lumen_predicate_new :: lumen_predicate where
  "lumen_predicate_new =
     \<lparr>p_service = None, p_min_severity = None, p_body_contains = None, p_body_regex = None\<rparr>"

definition lumen_predicate_service :: "string \<Rightarrow> lumen_predicate \<Rightarrow> lumen_predicate" where
  "lumen_predicate_service name p = p\<lparr>p_service := Some name\<rparr>"

definition lumen_predicate_min_severity :: "severity_number \<Rightarrow> lumen_predicate \<Rightarrow> lumen_predicate" where
  "lumen_predicate_min_severity sev p = p\<lparr>p_min_severity := Some sev\<rparr>"

definition lumen_predicate_body_contains :: "string \<Rightarrow> lumen_predicate \<Rightarrow> lumen_predicate" where
  "lumen_predicate_body_contains s p = p\<lparr>p_body_contains := Some s\<rparr>"

definition lumen_predicate_body_regex :: "(string \<Rightarrow> bool) \<Rightarrow> lumen_predicate \<Rightarrow> lumen_predicate" where
  "lumen_predicate_body_regex re p = p\<lparr>p_body_regex := Some re\<rparr>"

fun str_contains :: "string \<Rightarrow> string \<Rightarrow> bool" where
  "str_contains [] pat = (pat = [])"
| "str_contains (c # cs) pat = (prefix pat (c # cs) \<or> str_contains cs pat)"

definition lumen_matches :: "lumen_predicate \<Rightarrow> log_record \<Rightarrow> bool" where
  "lumen_matches p r =
     ((case p_service p of
         None \<Rightarrow> True
       | Some target \<Rightarrow>
           (case map_of (resource_attributes r) ''service.name'' of
              Some name \<Rightarrow> name = target | None \<Rightarrow> False)) \<and>
      (case p_min_severity p of None \<Rightarrow> True | Some floor \<Rightarrow> \<not> severity_number r < floor) \<and>
      (case p_body_contains p of None \<Rightarrow> True | Some target \<Rightarrow> str_contains (body r) target) \<and>
      (case p_body_regex p of None \<Rightarrow> True | Some is_match \<Rightarrow> is_match (body r)))"

definition lumen_predicate_is_empty :: "lumen_predicate \<Rightarrow> bool" where
  "lumen_predicate_is_empty p =
     (p_service p = None \<and> p_min_severity p = None \<and> p_body_contains p = None \<and> p_body_regex p = None)"

section \<open>The in-memory adapter (\<open>store.rs\<close>)\<close>

datatype log_store_error = LumenPersistenceFailed string

fun log_store_error_display :: "log_store_error \<Rightarrow> string" where
  "log_store_error_display (LumenPersistenceFailed reason) = ''persistence failed: '' @ reason"

record ingest_receipt =
  count :: nat

datatype lumen_event = LumenIngest tenant_id nat | LumenQuery tenant_id nat

type_synonym lumen_buckets = "(tenant_id, log_record list) hash_map"

record lumen_mem =
  lm_per_tenant :: lumen_buckets
  lm_events :: "lumen_event list"

definition lumen_mem_new :: lumen_mem where
  "lumen_mem_new = \<lparr>lm_per_tenant = [], lm_events = []\<rparr>"

definition lumen_extend :: "tenant_id \<Rightarrow> log_record list \<Rightarrow> lumen_buckets \<Rightarrow> lumen_buckets" where
  "lumen_extend tenant rs m = hm_insert tenant (hm_get_or [] m tenant @ rs) m"

definition lumen_extend_sorted :: "tenant_id \<Rightarrow> log_record list \<Rightarrow> lumen_buckets \<Rightarrow> lumen_buckets" where
  "lumen_extend_sorted tenant rs m =
     hm_insert tenant (sort_key observed_time_unix_nano (hm_get_or [] m tenant @ rs)) m"

definition lumen_mem_ingest ::
  "tenant_id \<Rightarrow> log_batch \<Rightarrow> lumen_mem \<Rightarrow> (log_store_error + ingest_receipt) \<times> lumen_mem" where
  "lumen_mem_ingest tenant batch s =
     (let n = length (records batch) in
      (Inr \<lparr>count = n\<rparr>,
       s\<lparr>lm_per_tenant := lumen_extend_sorted tenant (records batch) (lm_per_tenant s),
         lm_events := lm_events s @ [LumenIngest tenant n]\<rparr>))"

definition lumen_mem_query ::
  "tenant_id \<Rightarrow> time_range \<Rightarrow> lumen_mem \<Rightarrow> (log_store_error + log_record list) \<times> lumen_mem" where
  "lumen_mem_query tenant rng s =
     (case hm_get (lm_per_tenant s) tenant of
        None \<Rightarrow> (Inr [], s\<lparr>lm_events := lm_events s @ [LumenQuery tenant 0]\<rparr>)
      | Some bucket \<Rightarrow>
          let matches = filter (\<lambda>r. range_contains rng (observed_time_unix_nano r)) bucket in
          (Inr matches, s\<lparr>lm_events := lm_events s @ [LumenQuery tenant (length matches)]\<rparr>))"

definition lumen_mem_query_with ::
  "tenant_id \<Rightarrow> time_range \<Rightarrow> lumen_predicate \<Rightarrow> lumen_mem \<Rightarrow>
   (log_store_error + log_record list) \<times> lumen_mem" where
  "lumen_mem_query_with tenant rng pred s =
     (case hm_get (lm_per_tenant s) tenant of
        None \<Rightarrow> (Inr [], s\<lparr>lm_events := lm_events s @ [LumenQuery tenant 0]\<rparr>)
      | Some bucket \<Rightarrow>
          let matches = filter (\<lambda>r. range_contains rng (observed_time_unix_nano r) \<and> lumen_matches pred r)
                          bucket in
          (Inr matches, s\<lparr>lm_events := lm_events s @ [LumenQuery tenant (length matches)]\<rparr>))"

section \<open>The file-backed adapter (\<open>file_backed.rs\<close>)\<close>

datatype lumen_wal_record = LumenWalIngest tenant_id "log_record list"

type_synonym lumen_snapshot_doc = "(tenant_id \<times> log_record list) list"

record lumen_file =
  lf_per_tenant :: lumen_buckets
  lf_wal :: wal_writer
  lf_dir :: snap_fs
  lf_events :: "lumen_event list"

definition lumen_io :: "string \<Rightarrow> log_store_error" where
  "lumen_io e = LumenPersistenceFailed (''io: '' @ e)"

definition lumen_parse :: "string \<Rightarrow> log_store_error" where
  "lumen_parse e = LumenPersistenceFailed (''parse: '' @ e)"

definition lumen_append_wal ::
  "(lumen_wal_record \<Rightarrow> string + string) \<Rightarrow> append_io \<Rightarrow> lumen_wal_record \<Rightarrow> wal_writer \<Rightarrow>
   (log_store_error + unit) \<times> wal_writer" where
  "lumen_append_wal to_string = append_wal to_string lumen_parse lumen_io"

fun lumen_replay_record :: "lumen_wal_record \<Rightarrow> lumen_buckets \<Rightarrow> lumen_buckets" where
  "lumen_replay_record (LumenWalIngest tenant rs) m = lumen_extend tenant rs m"

definition lumen_load_snapshot :: "lumen_snapshot_doc \<Rightarrow> lumen_buckets" where
  "lumen_load_snapshot snap = fold (\<lambda>(tenant, rs) m. hm_insert tenant rs m) snap []"

definition lumen_resort :: "lumen_buckets \<Rightarrow> lumen_buckets" where
  "lumen_resort m = map (\<lambda>(tenant, b). (tenant, sort_key observed_time_unix_nano b)) m"

definition lumen_open_with_fsync_backend ::
  "(string \<Rightarrow> string + lumen_wal_record) \<Rightarrow> (string \<Rightarrow> string + lumen_snapshot_doc) \<Rightarrow> store_disk \<Rightarrow>
   (log_store_error + lumen_file) \<times> wal_warning list" where
  "lumen_open_with_fsync_backend from_str from_reader disk =
     (case pillar_open lumen_io lumen_parse from_reader (\<lambda>snap. Inr (lumen_load_snapshot snap)) []
             (replay_wal_tolerating_torn_tail from_str ''lumen'' (total_apply lumen_replay_record)
                (\<lambda>line err. LumenPersistenceFailed (wal_parse_reason line err)))
             lumen_resort disk of
        (Inl e, ws) \<Rightarrow> (Inl e, ws)
      | (Inr (per_tenant, wal, dir), ws) \<Rightarrow>
          (Inr \<lparr>lf_per_tenant = per_tenant, lf_wal = wal, lf_dir = dir, lf_events = []\<rparr>, ws))"

definition lumen_snapshot ::
  "(lumen_snapshot_doc \<Rightarrow> (string \<times> string) + string) \<Rightarrow> snapshot_io \<Rightarrow> fsync_fn \<Rightarrow> lumen_file \<Rightarrow>
   (log_store_error + unit) \<times> lumen_file" where
  "lumen_snapshot to_writer env fsync_file s =
     (case pillar_snapshot env fsync_file (to_writer (lf_per_tenant s)) (lf_dir s) (lf_wal s) of
        (res, trace) \<Rightarrow>
          (map_sum lumen_io id res, s\<lparr>lf_dir := fst (last trace), lf_wal := snd (last trace)\<rparr>))"

definition lumen_ingest ::
  "(lumen_wal_record \<Rightarrow> string + string) \<Rightarrow> append_io \<Rightarrow> tenant_id \<Rightarrow> log_batch \<Rightarrow> lumen_file \<Rightarrow>
   (log_store_error + ingest_receipt) \<times> lumen_file" where
  "lumen_ingest to_string env tenant batch s =
     (if records batch = [] then
        (Inr \<lparr>count = 0\<rparr>, s\<lparr>lf_events := lf_events s @ [LumenIngest tenant 0]\<rparr>)
      else
        let n = length (records batch) in
        case lumen_append_wal to_string env (LumenWalIngest tenant (records batch)) (lf_wal s) of
          (Inl e, w) \<Rightarrow> (Inl e, s\<lparr>lf_wal := w\<rparr>)
        | (Inr _, w) \<Rightarrow>
            (Inr \<lparr>count = n\<rparr>,
             s\<lparr>lf_wal := w,
               lf_per_tenant := lumen_extend_sorted tenant (records batch) (lf_per_tenant s),
               lf_events := lf_events s @ [LumenIngest tenant n]\<rparr>))"

definition lumen_query ::
  "tenant_id \<Rightarrow> time_range \<Rightarrow> lumen_file \<Rightarrow> (log_store_error + log_record list) \<times> lumen_file" where
  "lumen_query tenant rng s =
     (case hm_get (lf_per_tenant s) tenant of
        None \<Rightarrow> (Inr [], s\<lparr>lf_events := lf_events s @ [LumenQuery tenant 0]\<rparr>)
      | Some bucket \<Rightarrow>
          let matches = filter (\<lambda>r. range_contains rng (observed_time_unix_nano r)) bucket in
          (Inr matches, s\<lparr>lf_events := lf_events s @ [LumenQuery tenant (length matches)]\<rparr>))"

definition lumen_query_with ::
  "tenant_id \<Rightarrow> time_range \<Rightarrow> lumen_predicate \<Rightarrow> lumen_file \<Rightarrow>
   (log_store_error + log_record list) \<times> lumen_file" where
  "lumen_query_with tenant rng pred s =
     (case hm_get (lf_per_tenant s) tenant of
        None \<Rightarrow> (Inr [], s\<lparr>lf_events := lf_events s @ [LumenQuery tenant 0]\<rparr>)
      | Some bucket \<Rightarrow>
          let matches = filter (\<lambda>r. range_contains rng (observed_time_unix_nano r) \<and> lumen_matches pred r)
                          bucket in
          (Inr matches, s\<lparr>lf_events := lf_events s @ [LumenQuery tenant (length matches)]\<rparr>))"

section \<open>The port\<close>

text \<open>
  What a client of \<open>LogStore\<close> relies on. \<open>contents\<close> is the bucket of a tenant; the receipt counts the
  batch; a refused ingest changes nothing; a query filters the bucket and changes nothing.
\<close>

fun log_run ::
  "('env \<Rightarrow> tenant_id \<Rightarrow> log_batch \<Rightarrow> 's \<Rightarrow> (log_store_error + ingest_receipt) \<times> 's) \<Rightarrow>
   ('env \<times> tenant_id \<times> log_batch) list \<Rightarrow> 's \<Rightarrow> (tenant_id \<times> log_record list) list \<times> 's" where
  "log_run ingest [] s = ([], s)"
| "log_run ingest ((env, tenant, batch) # ops) s =
     (case ingest env tenant batch s of
        (Inl _, s') \<Rightarrow> log_run ingest ops s'
      | (Inr _, s') \<Rightarrow>
          (case log_run ingest ops s' of (acked, s'') \<Rightarrow> ((tenant, records batch) # acked, s'')))"

definition records_of :: "tenant_id \<Rightarrow> (tenant_id \<times> log_record list) list \<Rightarrow> log_record list" where
  "records_of tenant acked = concat (map snd (filter (\<lambda>(t, _). t = tenant) acked))"

lemma records_of_simps [simp]:
  "records_of t [] = []"
  "records_of t ((t', rs) # acked) = (if t' = t then rs else []) @ records_of t acked"
  by (simp_all add: records_of_def)

locale log_store =
  fixes ingest :: "'env \<Rightarrow> tenant_id \<Rightarrow> log_batch \<Rightarrow> 's \<Rightarrow> (log_store_error + ingest_receipt) \<times> 's"
    and query :: "tenant_id \<Rightarrow> time_range \<Rightarrow> 's \<Rightarrow> (log_store_error + log_record list) \<times> 's"
    and query_with ::
      "tenant_id \<Rightarrow> time_range \<Rightarrow> lumen_predicate \<Rightarrow> 's \<Rightarrow> (log_store_error + log_record list) \<times> 's"
    and contents :: "'s \<Rightarrow> tenant_id \<Rightarrow> log_record list"
    and ordered :: "'s \<Rightarrow> bool"
  assumes contents_sorted: "ordered s \<Longrightarrow> sorted (map observed_time_unix_nano (contents s t))"
    and ingest_acked: "ordered s \<Longrightarrow> ingest env t b s = (Inr rc, s') \<Longrightarrow>
      ordered s' \<and> count rc = length (records b) \<and>
      contents s' = (contents s)(t := sort_key observed_time_unix_nano (contents s t @ records b))"
    and ingest_refused: "ordered s \<Longrightarrow> ingest env t b s = (Inl e, s') \<Longrightarrow> ordered s' \<and> contents s' = contents s"
    and query_result: "\<exists>s'. query t rng s =
      (Inr (filter (\<lambda>r. range_contains rng (observed_time_unix_nano r)) (contents s t)), s') \<and>
      contents s' = contents s \<and> (ordered s \<longrightarrow> ordered s')"
    and query_with_result: "\<exists>s'. query_with t rng p s =
      (Inr (filter (\<lambda>r. range_contains rng (observed_time_unix_nano r) \<and> lumen_matches p r) (contents s t)), s') \<and>
      contents s' = contents s \<and> (ordered s \<longrightarrow> ordered s')"
begin

lemma log_run_contents:
  "ordered s \<Longrightarrow> log_run ingest ops s = (acked, s') \<Longrightarrow>
   ordered s' \<and> contents s' t = sort_key observed_time_unix_nano (contents s t @ records_of t acked)"
proof (induction ops arbitrary: s acked)
  case Nil
  then show ?case
    using contents_sorted [of s t] by (auto simp: sort_key_id_if_sorted)
next
  case (Cons op ops)
  obtain env tenant batch where op: "op = (env, tenant, batch)"
    by (cases op)
  obtain res s1 where i: "ingest env tenant batch s = (res, s1)"
    by (cases "ingest env tenant batch s")
  show ?case
  proof (cases res)
    case (Inl e)
    with Cons.prems Cons.IH [of s1 acked] ingest_refused [OF Cons.prems(1), of env tenant batch e s1] i op
    show ?thesis
      by simp
  next
    case (Inr rc)
    then obtain acked' where r: "log_run ingest ops s1 = (acked', s')" "acked = (tenant, records batch) # acked'"
      using Cons.prems(2) i op by (auto split: prod.splits)
    from Inr i have i: "ingest env tenant batch s = (Inr rc, s1)"
      by simp
    from ingest_acked [OF Cons.prems(1) i] Cons.IH [OF _ r(1)] r(2) show ?thesis
      by (simp add: sort_key_append_sorted_left)
  qed
qed

text \<open>A query returns the acknowledged records of its tenant, those in range, in time order.\<close>

lemma query_after_run:
  assumes "ordered s" "log_run ingest ops s = (acked, s')"
  shows "fst (query t rng s') = Inr (filter (\<lambda>r. range_contains rng (observed_time_unix_nano r))
      (sort_key observed_time_unix_nano (contents s t @ records_of t acked)))"
    and "fst (query_with t rng p s') =
      Inr (filter (\<lambda>r. range_contains rng (observed_time_unix_nano r) \<and> lumen_matches p r)
      (sort_key observed_time_unix_nano (contents s t @ records_of t acked)))"
  using query_result [of t rng s'] query_with_result [of t rng p s'] log_run_contents [OF assms, of t]
  by auto

end

section \<open>Both adapters implement the port\<close>

definition buckets_sorted :: "lumen_buckets \<Rightarrow> bool" where
  "buckets_sorted m = list_all (\<lambda>(_, b). sorted (map observed_time_unix_nano b)) m"

definition lumen_mem_ordered :: "lumen_mem \<Rightarrow> bool" where
  "lumen_mem_ordered s = (hm_wf (lm_per_tenant s) \<and> buckets_sorted (lm_per_tenant s))"

definition lumen_ordered :: "lumen_file \<Rightarrow> bool" where
  "lumen_ordered s = (hm_wf (lf_per_tenant s) \<and> buckets_sorted (lf_per_tenant s))"

lemma buckets_sorted_get:
  "buckets_sorted m \<Longrightarrow> sorted (map observed_time_unix_nano (hm_get_or [] m t))"
  by (auto simp: buckets_sorted_def hm_get_or_def list_all_iff split: option.splits dest: map_of_SomeD)

lemma set_update_subset: "set (AList.update k v m) \<subseteq> insert (k, v) (set m)"
  by (induction m) auto

lemma buckets_sorted_extend [simp, intro]:
  "buckets_sorted m \<Longrightarrow> buckets_sorted (lumen_extend_sorted t rs m)"
  using set_update_subset [of t "sort_key observed_time_unix_nano (hm_get_or [] m t @ rs)" m]
  by (fastforce simp: buckets_sorted_def lumen_extend_sorted_def list_all_iff)

lemma hm_get_or_extend_sorted [hm_simps]:
  "hm_get_or [] (lumen_extend_sorted t rs m) =
     (hm_get_or [] m)(t := sort_key observed_time_unix_nano (hm_get_or [] m t @ rs))"
  by (auto simp: lumen_extend_sorted_def)

lemma hm_wf_extend [simp, intro]:
  "hm_wf m \<Longrightarrow> hm_wf (lumen_extend_sorted t rs m)" "hm_wf m \<Longrightarrow> hm_wf (lumen_extend t rs m)"
  by (auto simp: lumen_extend_sorted_def lumen_extend_def)

interpretation lumen_mem: log_store "\<lambda>(_ :: unit). lumen_mem_ingest" lumen_mem_query lumen_mem_query_with
  "\<lambda>s. hm_get_or [] (lm_per_tenant s)" lumen_mem_ordered
proof unfold_locales
  fix s t rng p
  show "\<exists>s'. lumen_mem_query t rng s =
      (Inr (filter (\<lambda>r. range_contains rng (observed_time_unix_nano r)) (hm_get_or [] (lm_per_tenant s) t)), s') \<and>
      hm_get_or [] (lm_per_tenant s') = hm_get_or [] (lm_per_tenant s) \<and> (lumen_mem_ordered s \<longrightarrow> lumen_mem_ordered s')"
    by (simp add: lumen_mem_query_def lumen_mem_ordered_def hm_get_or_def Let_def split: option.splits)
  show "\<exists>s'. lumen_mem_query_with t rng p s =
      (Inr (filter (\<lambda>r. range_contains rng (observed_time_unix_nano r) \<and> lumen_matches p r)
        (hm_get_or [] (lm_per_tenant s) t)), s') \<and>
      hm_get_or [] (lm_per_tenant s') = hm_get_or [] (lm_per_tenant s) \<and> (lumen_mem_ordered s \<longrightarrow> lumen_mem_ordered s')"
    by (simp add: lumen_mem_query_with_def lumen_mem_ordered_def hm_get_or_def Let_def split: option.splits)
qed (auto simp: lumen_mem_ordered_def buckets_sorted_get lumen_mem_ingest_def Let_def hm_simps)

lemma lumen_ingest_refused:
  "lumen_ingest ts env t b s = (Inl e, s') \<Longrightarrow>
   lf_per_tenant s' = lf_per_tenant s \<and> lf_events s' = lf_events s \<and> lf_dir s' = lf_dir s"
  by (auto simp: lumen_ingest_def Let_def split: if_splits prod.splits sum.splits)

lemma lumen_ingest_acked:
  "lumen_ingest ts env t b s = (Inr rc, s') \<Longrightarrow> count rc = length (records b) \<and> lf_dir s' = lf_dir s \<and>
   lf_events s' = lf_events s @ [LumenIngest t (length (records b))] \<and>
   (if records b = [] then lf_per_tenant s' = lf_per_tenant s \<and> lf_wal s' = lf_wal s
    else lf_per_tenant s' = lumen_extend_sorted t (records b) (lf_per_tenant s) \<and>
      lumen_append_wal ts env (LumenWalIngest t (records b)) (lf_wal s) = (Inr (), lf_wal s'))"
  by (auto simp: lumen_ingest_def Let_def split: if_splits prod.splits sum.splits)

interpretation lumen_file: log_store "\<lambda>(ts, env). lumen_ingest ts env" lumen_query lumen_query_with
  "\<lambda>s. hm_get_or [] (lf_per_tenant s)" lumen_ordered
proof unfold_locales
  fix s t rng p
  show "\<exists>s'. lumen_query t rng s =
      (Inr (filter (\<lambda>r. range_contains rng (observed_time_unix_nano r)) (hm_get_or [] (lf_per_tenant s) t)), s') \<and>
      hm_get_or [] (lf_per_tenant s') = hm_get_or [] (lf_per_tenant s) \<and> (lumen_ordered s \<longrightarrow> lumen_ordered s')"
    by (simp add: lumen_query_def lumen_ordered_def hm_get_or_def Let_def split: option.splits)
  show "\<exists>s'. lumen_query_with t rng p s =
      (Inr (filter (\<lambda>r. range_contains rng (observed_time_unix_nano r) \<and> lumen_matches p r)
        (hm_get_or [] (lf_per_tenant s) t)), s') \<and>
      hm_get_or [] (lf_per_tenant s') = hm_get_or [] (lf_per_tenant s) \<and> (lumen_ordered s \<longrightarrow> lumen_ordered s')"
    by (simp add: lumen_query_with_def lumen_ordered_def hm_get_or_def Let_def split: option.splits)
next
  fix s t b e s' and env :: "(lumen_wal_record \<Rightarrow> string + string) \<times> append_io"
  assume "lumen_ordered s" "(case env of (ts, env) \<Rightarrow> lumen_ingest ts env) t b s = (Inl e, s')"
  then show "lumen_ordered s' \<and> hm_get_or [] (lf_per_tenant s') = hm_get_or [] (lf_per_tenant s)"
    by (cases env) (auto simp: lumen_ordered_def dest!: lumen_ingest_refused)
next
  fix s t b rc s' and env :: "(lumen_wal_record \<Rightarrow> string + string) \<times> append_io"
  assume o: "lumen_ordered s" and "(case env of (ts, env) \<Rightarrow> lumen_ingest ts env) t b s = (Inr rc, s')"
  then obtain ts e where i: "lumen_ingest ts e t b s = (Inr rc, s')"
    by (cases env) auto
  have "sort_key observed_time_unix_nano (hm_get_or [] (lf_per_tenant s) t) = hm_get_or [] (lf_per_tenant s) t"
    using o by (simp add: lumen_ordered_def sort_key_id_if_sorted buckets_sorted_get)
  with lumen_ingest_acked [OF i] o show "lumen_ordered s' \<and> count rc = length (records b) \<and>
      hm_get_or [] (lf_per_tenant s') = (hm_get_or [] (lf_per_tenant s))
        (t := sort_key observed_time_unix_nano (hm_get_or [] (lf_per_tenant s) t @ records b))"
    by (auto simp: lumen_ordered_def hm_simps split: if_splits)
qed (auto simp: lumen_ordered_def buckets_sorted_get)

section \<open>The file-backed adapter is durable\<close>

fun lumen_live_record :: "lumen_wal_record \<Rightarrow> lumen_buckets \<Rightarrow> lumen_buckets" where
  "lumen_live_record (LumenWalIngest tenant rs) m = lumen_extend_sorted tenant rs m"

lemma hm_get_resort: "hm_get (lumen_resort m) t = map_option (sort_key observed_time_unix_nano) (hm_get m t)"
  by (simp add: lumen_resort_def hm_get_map_entries)

lemma hm_get_or_resort: "hm_get_or [] (lumen_resort m) t = sort_key observed_time_unix_nano (hm_get_or [] m t)"
  by (simp add: hm_get_or_def hm_get_resort split: option.splits)

interpretation lumen_pillar: snapshotting_pillar lumen_replay_record lumen_live_record lumen_resort hm_get
  "\<lambda>m. hm_wf m \<and> buckets_sorted m" "\<lambda>snap. Inr (lumen_load_snapshot snap)" "\<lambda>m. m"
proof unfold_locales
  fix r s
  show "hm_get (lumen_resort (lumen_replay_record r s)) = hm_get (lumen_live_record r (lumen_resort s))"
    by (cases r) (auto simp: hm_get_resort hm_get_or_resort lumen_extend_def lumen_extend_sorted_def
        sort_key_append_sorted_left)
next
  fix r and s t :: lumen_buckets
  assume "hm_get s = hm_get t"
  then show "hm_get (lumen_live_record r s) = hm_get (lumen_live_record r t)"
    by (cases r) (auto simp: lumen_extend_sorted_def hm_get_or_def)
next
  fix m :: lumen_buckets
  assume "hm_wf m \<and> buckets_sorted m"
  then have "hm_get (lumen_resort (lumen_load_snapshot m)) t = hm_get m t" for t
    using buckets_sorted_get [of m t]
    by (auto simp: lumen_load_snapshot_def hm_get_resort fold_insert_get hm_get_or_def sort_key_id_if_sorted
        split: option.splits)
  then show "\<exists>s'. Inr (lumen_load_snapshot m) = Inr s' \<and> hm_get (lumen_resort s') = hm_get m"
    by auto
qed

end
