(* ===== verification/Rust_Hex.thy ===== *)
theory Rust_Hex
  imports Rust_Text
begin

text \<open>
  Identifiers in hexadecimal, as the trace store and the read APIs write and read them: the standard
  library's \<open>char::from_digit\<close> and \<open>char::to_digit\<close> at radix 16, the loops over the bytes of an
  identifier, and the theorem that reading is exactly the inverse of writing up to letter case.
\<close>

unbundle bit_operations_syntax

section \<open>Digits\<close>

definition char_from_digit16 :: "nat \<Rightarrow> char option" where
  "char_from_digit16 d =
     (if d < 10 then Some (char_of (48 + d)) else if d < 16 then Some (char_of (87 + d)) else None)"

definition char_to_digit16 :: "char \<Rightarrow> nat option" where
  "char_to_digit16 c =
     (if byte_in 48 57 c then Some (of_char c - 48)
      else if byte_in 97 102 c then Some (of_char c - 87)
      else if byte_in 65 70 c then Some (of_char c - 55)
      else None)"

text \<open>The two digits of a byte; \<open>from_digit\<close> of a nibble is never \<open>None\<close> (\<open>from_digit_nibble\<close>).\<close>

fun hex_encode :: "u8 list \<Rightarrow> string" where
  "hex_encode [] = []"
| "hex_encode (b # bs) =
     the (char_from_digit16 (unat (drop_bit 4 b))) # the (char_from_digit16 (unat (b AND 15))) # hex_encode bs"

text \<open>The loop over the pairs of a text; the position of the first character that is not a digit otherwise.\<close>

fun hex_pairs :: "nat \<Rightarrow> string \<Rightarrow> nat + u8 list" where
  "hex_pairs i (h # l # rest) =
     (case char_to_digit16 h of
        None \<Rightarrow> Inl i
      | Some hi \<Rightarrow>
        (case char_to_digit16 l of
           None \<Rightarrow> Inl (i + 1)
         | Some lo \<Rightarrow>
           (case hex_pairs (i + 2) rest of
              Inl j \<Rightarrow> Inl j
            | Inr bytes \<Rightarrow> Inr (word_of_nat (push_bit 4 hi OR lo) # bytes))))"
| "hex_pairs i _ = Inr []"

section \<open>Reading inverts writing\<close>

lemma from_digit_nibble: "d < 16 \<Longrightarrow> \<exists>c. char_from_digit16 d = Some c"
  by (simp add: char_from_digit16_def)

lemma digit_cases: "d < 16 \<Longrightarrow> d \<in> {0, 1, 2, 3, 4, 5, 6, 7, 8, 9, 10, 11, 12, 13, 14, (15 :: nat)}"
  by (simp; presburger)

lemma to_from_digit: "d < 16 \<Longrightarrow> char_to_digit16 (the (char_from_digit16 d)) = Some d"
  using of_char_of [where ?'a = nat, of "48 + d"] of_char_of [where ?'a = nat, of "87 + d"]
  by (auto simp: char_from_digit16_def char_to_digit16_def byte_in_def)

lemma to_digit_less: "char_to_digit16 c = Some d \<Longrightarrow> d < 16"
  by (auto simp: char_to_digit16_def byte_in_def split: if_splits)

lemma from_to_digit: "char_to_digit16 c = Some d \<Longrightarrow> the (char_from_digit16 d) = to_ascii_lowercase c"
  by (auto simp: char_from_digit16_def char_to_digit16_def byte_in_def to_ascii_lowercase_def split: if_splits)

lemma join_value:
  assumes "lo < 16"
  shows "push_bit 4 hi OR lo = 16 * hi + (lo :: nat)"
proof -
  have "take_bit 4 lo = lo"
    using assms by (simp add: take_bit_nat_eq_self)
  then have "push_bit 4 hi AND lo = 0"
    by (intro bit_eqI) (metis bit_and_iff bit_push_bit_iff bit_take_bit_iff bit_0_eq bot_apply bot_bool_def not_le)
  then show ?thesis
    using disjunctive_add_eq_or [of "push_bit 4 hi" lo] by (simp add: push_bit_nat_def)
qed

lemma nibbles_of_join:
  assumes "hi < 16" "lo < 16"
  shows "unat (drop_bit 4 (word_of_nat (push_bit 4 hi OR lo) :: u8)) = hi"
    and "unat ((word_of_nat (push_bit 4 hi OR lo) :: u8) AND 15) = lo"
proof -
  have u: "unat (word_of_nat (push_bit 4 hi OR lo) :: u8) = 16 * hi + lo"
    unfolding join_value [OF assms(2)] unat_of_nat using assms by simp
  then show "unat (drop_bit 4 (word_of_nat (push_bit 4 hi OR lo) :: u8)) = hi"
    using assms by (simp add: unat_drop_bit_eq drop_bit_nat_def)
  have "w AND 15 = take_bit 4 w" for w :: u8
    by (simp add: take_bit_eq_mask mask_eq_exp_minus_1)
  then show "unat ((word_of_nat (push_bit 4 hi OR lo) :: u8) AND 15) = lo"
    using u assms by (simp add: unsigned_take_bit_eq take_bit_nat_def)
qed

lemma join_nibbles: "word_of_nat (push_bit 4 (unat (drop_bit 4 b)) OR unat (b AND 15)) = (b :: u8)"
proof (rule bit_word_eqI)
  fix n
  assume "n < LENGTH(8)"
  then show "bit (word_of_nat (push_bit 4 (unat (drop_bit 4 b)) OR unat (b AND 15)) :: u8) n = bit b n"
    using bit_mask_iff [of 4 n, where ?'a = u8]
    by (auto simp: bit_simps mask_eq_exp_minus_1)
qed

lemma nibble_bounds: "unat (drop_bit 4 (b :: u8)) < 16" "unat ((b :: u8) AND 15) < 16"
proof -
  show "unat (drop_bit 4 b) < 16"
    using unsigned_less [of b, where ?'a = nat] by (simp add: unat_drop_bit_eq drop_bit_nat_def)
  show "unat (b AND 15) < 16"
    using word_and_le1 [of b 15] by (simp add: word_le_nat_alt)
qed

lemma hex_encode_length [simp]: "length (hex_encode bs) = 2 * length bs"
  by (induction bs) auto

lemma hex_encode_lowercase: "map to_ascii_lowercase (hex_encode bs) = hex_encode bs"
  using from_to_digit [OF to_from_digit] by (induction bs) (simp_all add: nibble_bounds)

lemma hex_pairs_encode: "hex_pairs i (hex_encode bs) = Inr bs"
  by (induction bs arbitrary: i) (simp_all add: to_from_digit nibble_bounds join_nibbles)

lemma hex_encode_pairs:
  "hex_pairs i s = Inr bs \<Longrightarrow> even (length s) \<Longrightarrow> hex_encode bs = map to_ascii_lowercase s"
  by (induction i s arbitrary: bs rule: hex_pairs.induct)
    (auto split: option.splits sum.splits simp: nibbles_of_join [OF to_digit_less to_digit_less] from_to_digit)

lemma hex_pairs_length: "hex_pairs i s = Inr bs \<Longrightarrow> length bs = length s div 2"
  by (induction i s arbitrary: bs rule: hex_pairs.induct) (auto split: option.splits sum.splits)

lemma to_digit_lowercase [simp]: "char_to_digit16 (to_ascii_lowercase c) = char_to_digit16 c"
  by (auto simp: char_to_digit16_def byte_in_def to_ascii_lowercase_def)

lemma hex_pairs_lowercase: "hex_pairs i (map to_ascii_lowercase s) = hex_pairs i s"
  by (induction i s rule: hex_pairs.induct) (auto split: option.splits)

text \<open>A text is read as the bytes whose hexadecimal form it is in either letter case.\<close>

lemma hex_pairs_iff:
  "even (length s) \<Longrightarrow> hex_pairs i s = Inr bs \<longleftrightarrow> map to_ascii_lowercase s = hex_encode bs"
  using hex_encode_pairs [of i s bs] hex_pairs_encode [of i bs] hex_pairs_lowercase [of i s] by metis

end
