(* ===== verification/Ray_Store.thy ===== *)
theory Ray_Store
  imports Wal_Pillar Rust_Hex
begin

text \<open>
  Ray, the trace store (\<open>crates/ray/src\<close>): OTLP-shaped spans and their hexadecimal identifiers, the
  query predicate, the \<open>TraceStore\<close> port with its in-memory adapter, and the file-backed adapter,
  which keeps every span in two indices, by trace and by service, and saves only the first in its
  snapshots. Serialised records and snapshots go through \<open>serde_json\<close>, whose functions are arguments.
\<close>

section \<open>Spans (\<open>span.rs\<close>)\<close>

text \<open>\<open>hex::decode\<close> for identifiers of \<open>n\<close> bytes; \<open>hex::encode\<close> is \<open>hex_encode\<close>.\<close>

definition ray_hex_decode :: "nat \<Rightarrow> string \<Rightarrow> string + u8 list" where
  "ray_hex_decode n s =
     (if length s \<noteq> n * 2 then Inl (''expected '' @ nat_str (n * 2) @ '' hex chars, got '' @ nat_str (length s))
      else case hex_pairs 0 s of
             Inl i \<Rightarrow> Inl (''non-hex char at position '' @ nat_str i)
           | Inr bytes \<Rightarrow> Inr bytes)"

type_synonym ray_trace_id = "u8 list"
type_synonym ray_span_id = "u8 list"
type_synonym service_name = string

datatype span_kind = KindUnspecified | KindInternal | KindServer | KindClient | KindProducer | KindConsumer

datatype status_code = StatusUnset | StatusOk | StatusError

record span_status =
  ss_code :: status_code
  ss_message :: string

record span_event =
  se_time_unix_nano :: u64
  se_name :: string
  se_attributes :: "(string \<times> string) list"

record span_link =
  lk_trace_id :: ray_trace_id
  lk_span_id :: ray_span_id
  lk_attributes :: "(string \<times> string) list"

record span =
  sp_trace_id :: ray_trace_id
  sp_span_id :: ray_span_id
  sp_parent_span_id :: "ray_span_id option"
  sp_name :: string
  sp_kind :: span_kind
  sp_start_time_unix_nano :: u64
  sp_end_time_unix_nano :: u64
  sp_status :: span_status
  sp_attributes :: "(string \<times> string) list"
  sp_resource_attributes :: "(string \<times> string) list"
  sp_events :: "span_event list"
  sp_links :: "span_link list"

definition span_service_name :: "span \<Rightarrow> service_name" where
  "span_service_name s = (case map_of (sp_resource_attributes s) ''service.name'' of Some n \<Rightarrow> n | None \<Rightarrow> [])"

record span_batch =
  sb_spans :: "span list"

record ray_time_range =
  rr_start_unix_nano :: u64
  rr_end_unix_nano :: u64

definition ray_range_all :: ray_time_range where
  "ray_range_all = \<lparr>rr_start_unix_nano = 0, rr_end_unix_nano = - 1\<rparr>"

definition ray_range_contains :: "ray_time_range \<Rightarrow> u64 \<Rightarrow> bool" where
  "ray_range_contains rng t = (rr_start_unix_nano rng \<le> t \<and> t < rr_end_unix_nano rng)"

section \<open>Predicates (\<open>predicate.rs\<close>)\<close>

record ray_predicate =
  rp_span_name :: "string option"
  rp_kind :: "span_kind option"
  rp_status :: "status_code option"

definition ray_predicate_new :: ray_predicate where
  "ray_predicate_new = \<lparr>rp_span_name = None, rp_kind = None, rp_status = None\<rparr>"

definition ray_predicate_span_name :: "string \<Rightarrow> ray_predicate \<Rightarrow> ray_predicate" where
  "ray_predicate_span_name name p = p\<lparr>rp_span_name := Some name\<rparr>"

definition ray_predicate_kind :: "span_kind \<Rightarrow> ray_predicate \<Rightarrow> ray_predicate" where
  "ray_predicate_kind k p = p\<lparr>rp_kind := Some k\<rparr>"

definition ray_predicate_status :: "status_code \<Rightarrow> ray_predicate \<Rightarrow> ray_predicate" where
  "ray_predicate_status code p = p\<lparr>rp_status := Some code\<rparr>"

definition ray_matches :: "ray_predicate \<Rightarrow> span \<Rightarrow> bool" where
  "ray_matches p s =
     (if (case rp_span_name p of None \<Rightarrow> False | Some target \<Rightarrow> sp_name s \<noteq> target) then False
      else if (case rp_kind p of None \<Rightarrow> False | Some k \<Rightarrow> sp_kind s \<noteq> k) then False
      else if (case rp_status p of None \<Rightarrow> False | Some c \<Rightarrow> ss_code (sp_status s) \<noteq> c) then False
      else True)"

definition ray_predicate_is_empty :: "ray_predicate \<Rightarrow> bool" where
  "ray_predicate_is_empty p = (rp_span_name p = None \<and> rp_kind p = None \<and> rp_status p = None)"

section \<open>The two indices (\<open>file_backed.rs\<close>, \<open>store.rs\<close>)\<close>

type_synonym ray_trace_index = "(tenant_id \<times> ray_trace_id, span list) hash_map"
type_synonym ray_service_index = "(tenant_id \<times> service_name, span list) hash_map"

record ray_indices =
  ri_by_trace :: ray_trace_index
  ri_by_service :: ray_service_index

definition ray_indices_default :: ray_indices where
  "ray_indices_default = \<lparr>ri_by_trace = [], ri_by_service = []\<rparr>"

text \<open>The traces and services an ingest touched; the sets are lists without repetition.\<close>

record ray_touched =
  rt_traces :: "ray_trace_id list"
  rt_services :: "service_name list"

text \<open>\<open>entry(key).or_default().push(x)\<close>, and \<open>get_mut(key)\<close> followed by \<open>sort_by_key\<close>.\<close>

definition bucket_push :: "'k \<Rightarrow> span \<Rightarrow> ('k, span list) hash_map \<Rightarrow> ('k, span list) hash_map" where
  "bucket_push k s m = hm_insert k (hm_get_or [] m k @ [s]) m"

definition bucket_sort :: "'k \<Rightarrow> ('k, span list) hash_map \<Rightarrow> ('k, span list) hash_map" where
  "bucket_sort k m =
     (case hm_get m k of None \<Rightarrow> m | Some b \<Rightarrow> hm_insert k (sort_key sp_start_time_unix_nano b) m)"

definition ray_apply_span :: "tenant_id \<Rightarrow> span \<Rightarrow> ray_indices \<times> ray_touched \<Rightarrow> ray_indices \<times> ray_touched" where
  "ray_apply_span tenant s = (\<lambda>(idx, touched).
     let idx = idx\<lparr>ri_by_trace := bucket_push (tenant, sp_trace_id s) s (ri_by_trace idx)\<rparr>;
         touched = touched\<lparr>rt_traces := List.insert (sp_trace_id s) (rt_traces touched)\<rparr> in
     if span_service_name s \<noteq> [] then
       (idx\<lparr>ri_by_service := bucket_push (tenant, span_service_name s) s (ri_by_service idx)\<rparr>,
        touched\<lparr>rt_services := List.insert (span_service_name s) (rt_services touched)\<rparr>)
     else (idx, touched))"

definition ray_apply_ingest :: "tenant_id \<Rightarrow> span list \<Rightarrow> ray_indices \<Rightarrow> ray_indices \<times> ray_touched" where
  "ray_apply_ingest tenant spans idx = fold (ray_apply_span tenant) spans (idx, \<lparr>rt_traces = [], rt_services = []\<rparr>)"

definition ray_sort_touched :: "tenant_id \<Rightarrow> ray_touched \<Rightarrow> ray_indices \<Rightarrow> ray_indices" where
  "ray_sort_touched tenant touched idx =
     idx\<lparr>ri_by_trace := fold (\<lambda>tid. bucket_sort (tenant, tid)) (rt_traces touched) (ri_by_trace idx),
         ri_by_service := fold (\<lambda>svc. bucket_sort (tenant, svc)) (rt_services touched) (ri_by_service idx)\<rparr>"

definition buckets_sort_all :: "('k, span list) hash_map \<Rightarrow> ('k, span list) hash_map" where
  "buckets_sort_all m = map (\<lambda>(k, b). (k, sort_key sp_start_time_unix_nano b)) m"

definition ray_sort_all :: "ray_indices \<Rightarrow> ray_indices" where
  "ray_sort_all idx =
     \<lparr>ri_by_trace = buckets_sort_all (ri_by_trace idx), ri_by_service = buckets_sort_all (ri_by_service idx)\<rparr>"

definition ray_ingest_indices :: "tenant_id \<Rightarrow> span list \<Rightarrow> ray_indices \<Rightarrow> ray_indices" where
  "ray_ingest_indices tenant spans idx =
     (case ray_apply_ingest tenant spans idx of (idx', touched) \<Rightarrow> ray_sort_touched tenant touched idx')"

section \<open>The in-memory adapter (\<open>store.rs\<close>)\<close>

datatype trace_store_error = RayPersistenceFailed string

record ray_receipt =
  rc_count :: nat

datatype ray_event = RayIngest tenant_id nat | RayQuery tenant_id nat

record ray_mem =
  rm_indices :: ray_indices
  rm_events :: "ray_event list"

definition ray_mem_new :: ray_mem where
  "ray_mem_new = \<lparr>rm_indices = ray_indices_default, rm_events = []\<rparr>"

definition ray_mem_ingest :: "tenant_id \<Rightarrow> span_batch \<Rightarrow> ray_mem \<Rightarrow> (trace_store_error + ray_receipt) \<times> ray_mem" where
  "ray_mem_ingest tenant batch s =
     (let n = length (sb_spans batch) in
      (Inr \<lparr>rc_count = n\<rparr>,
       s\<lparr>rm_indices := ray_ingest_indices tenant (sb_spans batch) (rm_indices s),
         rm_events := rm_events s @ [RayIngest tenant n]\<rparr>))"

definition ray_lookup_trace :: "tenant_id \<Rightarrow> ray_trace_id \<Rightarrow> ray_indices \<Rightarrow> span list" where
  "ray_lookup_trace tenant tid idx =
     (case hm_get (ri_by_trace idx) (tenant, tid) of Some spans \<Rightarrow> spans | None \<Rightarrow> [])"

definition ray_mem_get_trace :: "tenant_id \<Rightarrow> ray_trace_id \<Rightarrow> ray_mem \<Rightarrow> (trace_store_error + span list) \<times> ray_mem" where
  "ray_mem_get_trace tenant tid s =
     (let spans = ray_lookup_trace tenant tid (rm_indices s) in
      (Inr spans, s\<lparr>rm_events := rm_events s @ [RayQuery tenant (length spans)]\<rparr>))"

definition ray_mem_query ::
  "tenant_id \<Rightarrow> service_name \<Rightarrow> ray_time_range \<Rightarrow> ray_mem \<Rightarrow> (trace_store_error + span list) \<times> ray_mem" where
  "ray_mem_query tenant service rng s =
     (case hm_get (ri_by_service (rm_indices s)) (tenant, service) of
        None \<Rightarrow> (Inr [], s\<lparr>rm_events := rm_events s @ [RayQuery tenant 0]\<rparr>)
      | Some bucket \<Rightarrow>
          let matches = filter (\<lambda>s. ray_range_contains rng (sp_start_time_unix_nano s)) bucket in
          (Inr matches, s\<lparr>rm_events := rm_events s @ [RayQuery tenant (length matches)]\<rparr>))"

definition ray_mem_query_with ::
  "tenant_id \<Rightarrow> service_name \<Rightarrow> ray_time_range \<Rightarrow> ray_predicate \<Rightarrow> ray_mem \<Rightarrow>
   (trace_store_error + span list) \<times> ray_mem" where
  "ray_mem_query_with tenant service rng pred s =
     (case hm_get (ri_by_service (rm_indices s)) (tenant, service) of
        None \<Rightarrow> (Inr [], s\<lparr>rm_events := rm_events s @ [RayQuery tenant 0]\<rparr>)
      | Some bucket \<Rightarrow>
          let matches = filter (\<lambda>s. ray_range_contains rng (sp_start_time_unix_nano s) \<and> ray_matches pred s) bucket in
          (Inr matches, s\<lparr>rm_events := rm_events s @ [RayQuery tenant (length matches)]\<rparr>))"

section \<open>The file-backed adapter (\<open>file_backed.rs\<close>)\<close>

datatype ray_wal_record = RayWalIngest tenant_id "span list"

record trace_bucket =
  tb_tenant :: tenant_id
  tb_trace_id :: ray_trace_id
  tb_spans :: "span list"

type_synonym ray_snapshot_doc = "trace_bucket list"

record ray_file =
  rf_indices :: ray_indices
  rf_wal :: wal_writer
  rf_dir :: snap_fs
  rf_events :: "ray_event list"

definition ray_io :: "string \<Rightarrow> trace_store_error" where
  "ray_io e = RayPersistenceFailed (''io: '' @ e)"

definition ray_parse :: "string \<Rightarrow> trace_store_error" where
  "ray_parse e = RayPersistenceFailed (''parse: '' @ e)"

definition ray_append_wal ::
  "(ray_wal_record \<Rightarrow> string + string) \<Rightarrow> append_io \<Rightarrow> ray_wal_record \<Rightarrow> wal_writer \<Rightarrow>
   (trace_store_error + unit) \<times> wal_writer" where
  "ray_append_wal to_string = append_wal to_string ray_parse ray_io"

fun ray_replay_record :: "ray_wal_record \<Rightarrow> ray_indices \<Rightarrow> ray_indices" where
  "ray_replay_record (RayWalIngest tenant spans) idx = fst (ray_apply_ingest tenant spans idx)"

definition ray_load_snapshot :: "ray_snapshot_doc \<Rightarrow> ray_indices" where
  "ray_load_snapshot snap = fold (\<lambda>b idx. fst (ray_apply_ingest (tb_tenant b) (tb_spans b) idx)) snap ray_indices_default"

definition ray_dump :: "ray_indices \<Rightarrow> ray_snapshot_doc" where
  "ray_dump idx =
     map (\<lambda>((tenant, tid), spans). \<lparr>tb_tenant = tenant, tb_trace_id = tid, tb_spans = spans\<rparr>) (ri_by_trace idx)"

definition ray_open_with_fsync_backend ::
  "(string \<Rightarrow> string + ray_wal_record) \<Rightarrow> (string \<Rightarrow> string + ray_snapshot_doc) \<Rightarrow> store_disk \<Rightarrow>
   (trace_store_error + ray_file) \<times> wal_warning list" where
  "ray_open_with_fsync_backend from_str from_reader disk =
     (case pillar_open ray_io ray_parse from_reader (\<lambda>snap. Inr (ray_load_snapshot snap)) ray_indices_default
             (replay_wal_tolerating_torn_tail from_str ''ray'' (total_apply ray_replay_record)
                (\<lambda>line err. RayPersistenceFailed (wal_parse_reason line err)))
             ray_sort_all disk of
        (Inl e, ws) \<Rightarrow> (Inl e, ws)
      | (Inr (idx, wal, dir), ws) \<Rightarrow> (Inr \<lparr>rf_indices = idx, rf_wal = wal, rf_dir = dir, rf_events = []\<rparr>, ws))"

definition ray_snapshot ::
  "(ray_snapshot_doc \<Rightarrow> (string \<times> string) + string) \<Rightarrow> snapshot_io \<Rightarrow> fsync_fn \<Rightarrow> ray_file \<Rightarrow>
   (trace_store_error + unit) \<times> ray_file" where
  "ray_snapshot to_writer env fsync_file s =
     (case pillar_snapshot env fsync_file (to_writer (ray_dump (rf_indices s))) (rf_dir s) (rf_wal s) of
        (res, trace) \<Rightarrow> (map_sum ray_io id res, s\<lparr>rf_dir := fst (last trace), rf_wal := snd (last trace)\<rparr>))"

definition ray_ingest ::
  "(ray_wal_record \<Rightarrow> string + string) \<Rightarrow> append_io \<Rightarrow> tenant_id \<Rightarrow> span_batch \<Rightarrow> ray_file \<Rightarrow>
   (trace_store_error + ray_receipt) \<times> ray_file" where
  "ray_ingest to_string env tenant batch s =
     (if sb_spans batch = [] then
        (Inr \<lparr>rc_count = 0\<rparr>, s\<lparr>rf_events := rf_events s @ [RayIngest tenant 0]\<rparr>)
      else
        let n = length (sb_spans batch) in
        case ray_append_wal to_string env (RayWalIngest tenant (sb_spans batch)) (rf_wal s) of
          (Inl e, w) \<Rightarrow> (Inl e, s\<lparr>rf_wal := w\<rparr>)
        | (Inr _, w) \<Rightarrow>
            (Inr \<lparr>rc_count = n\<rparr>,
             s\<lparr>rf_wal := w, rf_indices := ray_ingest_indices tenant (sb_spans batch) (rf_indices s),
               rf_events := rf_events s @ [RayIngest tenant n]\<rparr>))"

definition ray_get_trace :: "tenant_id \<Rightarrow> ray_trace_id \<Rightarrow> ray_file \<Rightarrow> (trace_store_error + span list) \<times> ray_file" where
  "ray_get_trace tenant tid s =
     (let spans = ray_lookup_trace tenant tid (rf_indices s) in
      (Inr spans, s\<lparr>rf_events := rf_events s @ [RayQuery tenant (length spans)]\<rparr>))"

definition ray_query ::
  "tenant_id \<Rightarrow> service_name \<Rightarrow> ray_time_range \<Rightarrow> ray_file \<Rightarrow> (trace_store_error + span list) \<times> ray_file" where
  "ray_query tenant service rng s =
     (case hm_get (ri_by_service (rf_indices s)) (tenant, service) of
        None \<Rightarrow> (Inr [], s\<lparr>rf_events := rf_events s @ [RayQuery tenant 0]\<rparr>)
      | Some bucket \<Rightarrow>
          let matches = filter (\<lambda>s. ray_range_contains rng (sp_start_time_unix_nano s)) bucket in
          (Inr matches, s\<lparr>rf_events := rf_events s @ [RayQuery tenant (length matches)]\<rparr>))"

definition ray_query_with ::
  "tenant_id \<Rightarrow> service_name \<Rightarrow> ray_time_range \<Rightarrow> ray_predicate \<Rightarrow> ray_file \<Rightarrow>
   (trace_store_error + span list) \<times> ray_file" where
  "ray_query_with tenant service rng pred s =
     (case hm_get (ri_by_service (rf_indices s)) (tenant, service) of
        None \<Rightarrow> (Inr [], s\<lparr>rf_events := rf_events s @ [RayQuery tenant 0]\<rparr>)
      | Some bucket \<Rightarrow>
          let matches = filter (\<lambda>s. ray_range_contains rng (sp_start_time_unix_nano s) \<and> ray_matches pred s) bucket in
          (Inr matches, s\<lparr>rf_events := rf_events s @ [RayQuery tenant (length matches)]\<rparr>))"

end
