(* ===== verification/Otlp_Translate.thy ===== *)
theory Otlp_Translate
  imports Lumen_Store Ray_Store Pulse_Store Rust_Hex
begin

text \<open>
  The translation of OTLP exports into the records of the stores
  (\<open>crates/aperture-storage-sink/src/translate.rs\<close>): tenants from resource attributes, attributes
  folded into ordered maps, values rendered as text, identifiers of exact length, and the metric
  points of the supported kinds. The protobuf messages are generated from the OTLP schema; they are
  records of the fields the translation reads. The decimal rendering of an \<open>f64\<close> is an argument.
\<close>

type_synonym i64 = "64 word"

section \<open>Messages\<close>

datatype any_value = AnyValue "any_value_kind option"
and any_value_kind =
  StringValue string | BoolValue bool | IntValue i64 | DoubleValue u64 | BytesValue "u8 list" |
  ArrayValue "any_value list" | KvlistValue "key_value list"
and key_value = KeyValue (kv_key: string) (kv_value: "any_value option")

record otlp_resource =
  res_attributes :: "key_value list"

record proto_log =
  pl_time_unix_nano :: u64
  pl_observed_time_unix_nano :: u64
  pl_severity_number :: severity_number
  pl_severity_text :: string
  pl_body :: "any_value option"
  pl_attributes :: "key_value list"
  pl_trace_id :: "u8 list"
  pl_span_id :: "u8 list"

record proto_resource_logs =
  rl_resource :: "otlp_resource option"
  rl_scope_logs :: "proto_log list list"

type_synonym export_logs = "proto_resource_logs list"

record proto_status =
  st_code :: i32
  st_message :: string

record proto_event =
  ev_time_unix_nano :: u64
  ev_name :: string
  ev_attributes :: "key_value list"

record proto_link =
  li_trace_id :: "u8 list"
  li_span_id :: "u8 list"
  li_attributes :: "key_value list"

record proto_span =
  ps_trace_id :: "u8 list"
  ps_span_id :: "u8 list"
  ps_parent_span_id :: "u8 list"
  ps_name :: string
  ps_kind :: i32
  ps_start_time_unix_nano :: u64
  ps_end_time_unix_nano :: u64
  ps_status :: "proto_status option"
  ps_attributes :: "key_value list"
  ps_events :: "proto_event list"
  ps_links :: "proto_link list"

record proto_resource_spans =
  rs_resource :: "otlp_resource option"
  rs_scope_spans :: "proto_span list list"

type_synonym export_traces = "proto_resource_spans list"

datatype number_value = AsDouble u64 | AsInt i64

record number_point =
  np_time_unix_nano :: u64
  np_start_time_unix_nano :: u64
  np_attributes :: "key_value list"
  np_value :: "number_value option"

text \<open>The points of the kinds that are not stored are only counted.\<close>

datatype metric_data =
  GaugeData "number_point list" | SumData "number_point list" | HistogramData nat | ExponentialHistogramData nat | SummaryData nat

record proto_metric =
  pm_name :: string
  pm_description :: string
  pm_unit :: string
  pm_data :: "metric_data option"

record proto_resource_metrics =
  rm_resource :: "otlp_resource option"
  rm_scope_metrics :: "proto_metric list list"

type_synonym export_metrics = "proto_resource_metrics list"

section \<open>Values as text\<close>

definition int_str :: "int \<Rightarrow> string" where
  "int_str i = (if i < 0 then CHR ''-'' # nat_str (nat (- i)) else nat_str (nat i))"

lemma kv_value_size:
  assumes "kv \<in> set kvs" and "kv_value kv = Some v"
  shows "size v < size_list size kvs"
proof -
  have "size v < size kv"
    using assms(2) by (cases kv) simp
  also have "size kv \<le> size_list size kvs"
    using assms(1) by (rule size_list_estimation') simp
  finally show ?thesis .
qed

function any_value_render :: "(u64 \<Rightarrow> string) \<Rightarrow> any_value \<Rightarrow> string" where
  "any_value_render fd (AnyValue None) = []"
| "any_value_render fd (AnyValue (Some (StringValue s))) = s"
| "any_value_render fd (AnyValue (Some (BoolValue b))) = (if b then ''true'' else ''false'')"
| "any_value_render fd (AnyValue (Some (IntValue i))) = int_str (sint i)"
| "any_value_render fd (AnyValue (Some (DoubleValue d))) = fd d"
| "any_value_render fd (AnyValue (Some (BytesValue bytes))) = hex_encode bytes"
| "any_value_render fd (AnyValue (Some (ArrayValue values))) =
     ''['' @ str_join '','' (map (any_value_render fd) values) @ '']''"
| "any_value_render fd (AnyValue (Some (KvlistValue values))) =
     ''{'' @ str_join '','' (map (\<lambda>kv. kv_key kv @ ''='' @
        (case kv_value kv of None \<Rightarrow> [] | Some v \<Rightarrow> any_value_render fd v)) values) @ ''}''"
  by pat_completeness auto
termination
  by (relation "measure (\<lambda>(_, v). size v)") (auto dest: kv_value_size simp: less_Suc_eq_le intro: le_SucI size_list_estimation')

definition any_value_to_string :: "(u64 \<Rightarrow> string) \<Rightarrow> any_value option \<Rightarrow> string" where
  "any_value_to_string fd v = (case v of None \<Rightarrow> [] | Some a \<Rightarrow> any_value_render fd a)"

definition fold_attributes :: "(u64 \<Rightarrow> string) \<Rightarrow> key_value list \<Rightarrow> (string, string) btree_map" where
  "fold_attributes fd kvs = fold (\<lambda>kv. bt_insert (kv_key kv) (any_value_to_string fd (kv_value kv))) kvs []"

section \<open>Tenants\<close>

definition TENANT_ID_ATTRIBUTE :: string where
  "TENANT_ID_ATTRIBUTE = ''tenant.id''"

text \<open>The loop over the attributes of the first resource.\<close>

definition tenant_attribute :: "(u64 \<Rightarrow> string) \<Rightarrow> otlp_resource option \<Rightarrow> string option" where
  "tenant_attribute fd r =
     (case r of
        None \<Rightarrow> None
      | Some resource \<Rightarrow>
          map_option (\<lambda>kv. any_value_to_string fd (kv_value kv))
            (List.find (\<lambda>kv. kv_key kv = TENANT_ID_ATTRIBUTE) (res_attributes resource)))"

definition resolve_tenant_id :: "(u64 \<Rightarrow> string) \<Rightarrow> export_logs \<Rightarrow> string option" where
  "resolve_tenant_id fd request = (case request of [] \<Rightarrow> None | rl # _ \<Rightarrow> tenant_attribute fd (rl_resource rl))"

definition resolve_trace_tenant_id :: "(u64 \<Rightarrow> string) \<Rightarrow> export_traces \<Rightarrow> string option" where
  "resolve_trace_tenant_id fd request = (case request of [] \<Rightarrow> None | rs # _ \<Rightarrow> tenant_attribute fd (rs_resource rs))"

definition resolve_metric_tenant_id :: "(u64 \<Rightarrow> string) \<Rightarrow> export_metrics \<Rightarrow> string option" where
  "resolve_metric_tenant_id fd request = (case request of [] \<Rightarrow> None | rm # _ \<Rightarrow> tenant_attribute fd (rm_resource rm))"

section \<open>Identifiers\<close>

datatype translation_error = MalformedByteId string nat nat

fun translation_error_display :: "translation_error \<Rightarrow> string" where
  "translation_error_display (MalformedByteId field expected actual) =
     ''malformed '' @ field @ '': expected '' @ nat_str expected @ '' bytes, got '' @ nat_str actual"

definition byte_id :: "nat \<Rightarrow> u8 list \<Rightarrow> string \<Rightarrow> translation_error + u8 list option" where
  "byte_id n bytes field =
     (if bytes = [] then Inr None
      else if length bytes = n then Inr (Some bytes)
      else Inl (MalformedByteId field n (length bytes)))"

definition byte_id_16 :: "u8 list \<Rightarrow> string \<Rightarrow> translation_error + u8 list option" where
  "byte_id_16 = byte_id 16"

definition byte_id_8 :: "u8 list \<Rightarrow> string \<Rightarrow> translation_error + u8 list option" where
  "byte_id_8 = byte_id 8"

definition require_trace_id :: "u8 list \<Rightarrow> string \<Rightarrow> translation_error + ray_trace_id" where
  "require_trace_id bytes field =
     (case byte_id_16 bytes field of
        Inl e \<Rightarrow> Inl e
      | Inr (Some array) \<Rightarrow> Inr array
      | Inr None \<Rightarrow> Inl (MalformedByteId field 16 0))"

definition require_span_id :: "u8 list \<Rightarrow> string \<Rightarrow> translation_error + ray_span_id" where
  "require_span_id bytes field =
     (case byte_id_8 bytes field of
        Inl e \<Rightarrow> Inl e
      | Inr (Some array) \<Rightarrow> Inr array
      | Inr None \<Rightarrow> Inl (MalformedByteId field 8 0))"

text \<open>A loop that pushes \<open>f(x)?\<close>: the first refusal ends it.\<close>

fun collect :: "('e + 'a) list \<Rightarrow> 'e + 'a list" where
  "collect [] = Inr []"
| "collect (Inl e # xs) = Inl e"
| "collect (Inr a # xs) = map_sum id (\<lambda>as. a # as) (collect xs)"

section \<open>Logs\<close>

definition observed_time :: "proto_log \<Rightarrow> u64" where
  "observed_time proto =
     (if pl_observed_time_unix_nano proto \<noteq> 0 then pl_observed_time_unix_nano proto else pl_time_unix_nano proto)"

definition fold_resource_attributes :: "(u64 \<Rightarrow> string) \<Rightarrow> proto_resource_logs \<Rightarrow> (string, string) btree_map" where
  "fold_resource_attributes fd rl =
     (case rl_resource rl of Some resource \<Rightarrow> fold_attributes fd (res_attributes resource) | None \<Rightarrow> [])"

definition translate_record ::
  "(u64 \<Rightarrow> string) \<Rightarrow> (string, string) btree_map \<Rightarrow> proto_log \<Rightarrow> translation_error + log_record" where
  "translate_record fd ra proto =
     (case byte_id_16 (pl_trace_id proto) ''trace_id'' of
        Inl e \<Rightarrow> Inl e
      | Inr tid \<Rightarrow>
        (case byte_id_8 (pl_span_id proto) ''span_id'' of
           Inl e \<Rightarrow> Inl e
         | Inr sid \<Rightarrow>
             Inr \<lparr>observed_time_unix_nano = observed_time proto,
                  severity_number = pl_severity_number proto,
                  severity_text = pl_severity_text proto,
                  body = any_value_to_string fd (pl_body proto),
                  attributes = fold_attributes fd (pl_attributes proto),
                  resource_attributes = ra,
                  trace_id = tid, span_id = sid\<rparr>))"

definition translate_logs :: "(u64 \<Rightarrow> string) \<Rightarrow> export_logs \<Rightarrow> translation_error + log_record list" where
  "translate_logs fd request =
     collect (concat (map (\<lambda>rl. let ra = fold_resource_attributes fd rl in
        concat (map (map (translate_record fd ra)) (rl_scope_logs rl))) request))"

section \<open>Traces\<close>

text \<open>The OTLP discriminants: 0 is unspecified, then internal, server, client, producer, consumer.\<close>

definition span_kind_from_i32 :: "i32 \<Rightarrow> span_kind" where
  "span_kind_from_i32 k =
     (if k = 1 then KindInternal else if k = 2 then KindServer else if k = 3 then KindClient
      else if k = 4 then KindProducer else if k = 5 then KindConsumer else KindUnspecified)"

definition status_code_from_i32 :: "i32 \<Rightarrow> status_code" where
  "status_code_from_i32 c = (if c = 1 then StatusOk else if c = 2 then StatusError else StatusUnset)"

definition span_status_of :: "proto_status option \<Rightarrow> span_status" where
  "span_status_of status =
     (case status of
        None \<Rightarrow> \<lparr>ss_code = StatusUnset, ss_message = []\<rparr>
      | Some st \<Rightarrow> \<lparr>ss_code = status_code_from_i32 (st_code st), ss_message = st_message st\<rparr>)"

definition translate_events :: "(u64 \<Rightarrow> string) \<Rightarrow> proto_event list \<Rightarrow> span_event list" where
  "translate_events fd events =
     map (\<lambda>e. \<lparr>se_time_unix_nano = ev_time_unix_nano e, se_name = ev_name e,
                se_attributes = fold_attributes fd (ev_attributes e)\<rparr>) events"

definition translate_link :: "(u64 \<Rightarrow> string) \<Rightarrow> proto_link \<Rightarrow> translation_error + span_link" where
  "translate_link fd link =
     (case require_trace_id (li_trace_id link) ''link.trace_id'' of
        Inl e \<Rightarrow> Inl e
      | Inr tid \<Rightarrow>
        (case require_span_id (li_span_id link) ''link.span_id'' of
           Inl e \<Rightarrow> Inl e
         | Inr sid \<Rightarrow> Inr \<lparr>lk_trace_id = tid, lk_span_id = sid, lk_attributes = fold_attributes fd (li_attributes link)\<rparr>))"

definition translate_links :: "(u64 \<Rightarrow> string) \<Rightarrow> proto_link list \<Rightarrow> translation_error + span_link list" where
  "translate_links fd links = collect (map (translate_link fd) links)"

definition fold_trace_resource_attributes :: "(u64 \<Rightarrow> string) \<Rightarrow> proto_resource_spans \<Rightarrow> (string, string) btree_map" where
  "fold_trace_resource_attributes fd rs =
     (case rs_resource rs of Some resource \<Rightarrow> fold_attributes fd (res_attributes resource) | None \<Rightarrow> [])"

definition translate_span ::
  "(u64 \<Rightarrow> string) \<Rightarrow> (string, string) btree_map \<Rightarrow> proto_span \<Rightarrow> translation_error + span" where
  "translate_span fd ra proto =
     (case require_trace_id (ps_trace_id proto) ''trace_id'' of
        Inl e \<Rightarrow> Inl e
      | Inr tid \<Rightarrow>
        (case require_span_id (ps_span_id proto) ''span_id'' of
           Inl e \<Rightarrow> Inl e
         | Inr sid \<Rightarrow>
           (case byte_id_8 (ps_parent_span_id proto) ''parent_span_id'' of
              Inl e \<Rightarrow> Inl e
            | Inr parent \<Rightarrow>
              (case translate_links fd (ps_links proto) of
                 Inl e \<Rightarrow> Inl e
               | Inr links \<Rightarrow>
                   Inr \<lparr>sp_trace_id = tid, sp_span_id = sid, sp_parent_span_id = parent, sp_name = ps_name proto,
                        sp_kind = span_kind_from_i32 (ps_kind proto),
                        sp_start_time_unix_nano = ps_start_time_unix_nano proto,
                        sp_end_time_unix_nano = ps_end_time_unix_nano proto,
                        sp_status = span_status_of (ps_status proto),
                        sp_attributes = fold_attributes fd (ps_attributes proto),
                        sp_resource_attributes = ra,
                        sp_events = translate_events fd (ps_events proto),
                        sp_links = links\<rparr>))))"

definition translate_traces :: "(u64 \<Rightarrow> string) \<Rightarrow> export_traces \<Rightarrow> translation_error + span list" where
  "translate_traces fd request =
     collect (concat (map (\<lambda>rs. let ra = fold_trace_resource_attributes fd rs in
        concat (map (map (translate_span fd ra)) (rs_scope_spans rs))) request))"

section \<open>Metrics\<close>

datatype translate_event = MetricPointTypeSkipped string string | MetricPointValueUnset string

text \<open>\<open>i as f64\<close> rounds the magnitude to the nearest double.\<close>

definition f64_of_i64 :: "i64 \<Rightarrow> u64" where
  "f64_of_i64 i =
     (if sint i < 0 then f64_of_ratio (nat (- sint i)) 1 OR push_bit 63 1 else f64_of_ratio (nat (sint i)) 1)"

definition number_point_value :: "number_point \<Rightarrow> u64 option" where
  "number_point_value proto =
     (case np_value proto of None \<Rightarrow> None | Some (AsDouble d) \<Rightarrow> Some d | Some (AsInt i) \<Rightarrow> Some (f64_of_i64 i))"

definition number_point_step ::
  "(u64 \<Rightarrow> string) \<Rightarrow> string \<Rightarrow> number_point \<Rightarrow> metric_point list \<times> translate_event list \<Rightarrow>
   metric_point list \<times> translate_event list" where
  "number_point_step fd metric_name proto = (\<lambda>(points, events).
     case number_point_value proto of
       Some v \<Rightarrow>
         (points @ [\<lparr>mp_time_unix_nano = np_time_unix_nano proto, mp_start_time_unix_nano = np_start_time_unix_nano proto,
                     mp_attributes = fold_attributes fd (np_attributes proto), mp_value = v\<rparr>], events)
     | None \<Rightarrow> (points, events @ [MetricPointValueUnset metric_name]))"

definition translate_number_points ::
  "(u64 \<Rightarrow> string) \<Rightarrow> string \<Rightarrow> number_point list \<Rightarrow> translate_event list \<Rightarrow> metric_point list \<times> translate_event list" where
  "translate_number_points fd metric_name data_points events =
     fold (number_point_step fd metric_name) data_points ([], events)"

fun unsupported_metric_kind :: "metric_data option \<Rightarrow> string" where
  "unsupported_metric_kind (Some (HistogramData _)) = ''histogram''"
| "unsupported_metric_kind (Some (ExponentialHistogramData _)) = ''exponential_histogram''"
| "unsupported_metric_kind (Some (SummaryData _)) = ''summary''"
| "unsupported_metric_kind (Some _) = ''supported''"
| "unsupported_metric_kind None = ''none''"

definition supported_data :: "metric_data option \<Rightarrow> (metric_kind \<times> number_point list) option" where
  "supported_data d =
     (case d of Some (GaugeData ps) \<Rightarrow> Some (Gauge, ps) | Some (SumData ps) \<Rightarrow> Some (SumKind, ps) | _ \<Rightarrow> None)"

definition translate_metric ::
  "(u64 \<Rightarrow> string) \<Rightarrow> (string, string) btree_map \<Rightarrow> proto_metric \<Rightarrow> translate_event list \<Rightarrow> metric option \<times> translate_event list" where
  "translate_metric fd ra proto events =
     (case supported_data (pm_data proto) of
        None \<Rightarrow> (None, events @ [MetricPointTypeSkipped (pm_name proto) (unsupported_metric_kind (pm_data proto))])
      | Some (kind, data_points) \<Rightarrow>
          (case translate_number_points fd (pm_name proto) data_points events of
             (points, events') \<Rightarrow>
               (Some \<lparr>mt_name = pm_name proto, mt_description = pm_description proto, mt_unit = pm_unit proto,
                      mt_kind = kind, mt_points = points, mt_resource_attributes = ra\<rparr>, events')))"

definition fold_metric_resource_attributes :: "(u64 \<Rightarrow> string) \<Rightarrow> proto_resource_metrics \<Rightarrow> (string, string) btree_map" where
  "fold_metric_resource_attributes fd rm =
     (case rm_resource rm of Some resource \<Rightarrow> fold_attributes fd (res_attributes resource) | None \<Rightarrow> [])"

definition translate_metric_step ::
  "(u64 \<Rightarrow> string) \<Rightarrow> (string, string) btree_map \<Rightarrow> proto_metric \<Rightarrow> metric list \<times> translate_event list \<Rightarrow>
   metric list \<times> translate_event list" where
  "translate_metric_step fd ra proto = (\<lambda>(metrics, events).
     case translate_metric fd ra proto events of
       (Some metric, events') \<Rightarrow> (metrics @ [metric], events')
     | (None, events') \<Rightarrow> (metrics, events'))"

definition translate_metrics :: "(u64 \<Rightarrow> string) \<Rightarrow> export_metrics \<Rightarrow> metric list \<times> translate_event list" where
  "translate_metrics fd request =
     fold (\<lambda>rm. fold (fold (translate_metric_step fd (fold_metric_resource_attributes fd rm))) (rm_scope_metrics rm))
       request ([], [])"

end
