(* ===== verification/Otlp_Harness.thy ===== *)
theory Otlp_Harness
  imports Otlp_Translate
begin

text \<open>
  The conformance harness every ingested body passes (\<open>crates/otlp-conformance-harness/src\<close>): the
  empty body, the first tag, the decoding as the asserted signal, the diagnosis of a body of another
  signal, and the classified violation. \<open>prost\<close> is a parameter: the key of the first field, the three
  message decoders, and the text of a decoding error; so is the standard library's quoting of a
  string for debugging output.
\<close>

datatype framing = HttpProtobuf | GrpcProtobuf

datatype signal_type = LogsSignal | TracesSignal | MetricsSignal

datatype byte_offset = KnownOffset nat | UnknownOffset

datatype wire_type_rule = ProtobufDecode | SignalMismatch signal_type signal_type

datatype violation_rule = EmptyInput | WireType wire_type_rule

record otlp_violation =
  ov_rule :: violation_rule
  ov_locus :: byte_offset
  ov_expected :: string
  ov_observed :: string
  ov_signal_asserted :: signal_type
  ov_framing_asserted :: framing
  ov_source :: "string option"

text \<open>A \<open>DecodeError\<close> is its text; \<open>prost_error\<close> is the text of \<open>DecodeError::new\<close>.\<close>

record prost_lib =
  prost_decode_key :: "u8 list \<Rightarrow> string + nat"
  prost_error :: "string \<Rightarrow> string"
  prost_logs :: "u8 list \<Rightarrow> string + export_logs"
  prost_traces :: "u8 list \<Rightarrow> string + export_traces"
  prost_metrics :: "u8 list \<Rightarrow> string + export_metrics"

section \<open>Violations (\<open>violation.rs\<close>)\<close>

definition matches_eof_category :: "string \<Rightarrow> bool" where
  "matches_eof_category lower =
     (str_contains lower ''buffer underflow'' \<or> str_contains lower ''unexpected end'' \<or> str_contains lower ''eof'')"

definition matches_wire_type_category :: "string \<Rightarrow> bool" where
  "matches_wire_type_category lower = str_contains lower ''wire type''"

definition matches_length_delimiter_category :: "string \<Rightarrow> bool" where
  "matches_length_delimiter_category lower =
     (str_contains lower ''length delimiter'' \<or> str_contains lower ''missing length-delimited'')"

text \<open>\<open>to_lowercase\<close> is the Unicode one; the second argument.\<close>

definition classify_prost_decode_error :: "(string \<Rightarrow> string) \<Rightarrow> string \<Rightarrow> string" where
  "classify_prost_decode_error to_lowercase raw =
     (let lower = to_lowercase raw in
      if matches_eof_category lower then ''unexpected EOF in length-delimited field''
      else if str_contains lower ''invalid varint'' then ''invalid varint''
      else if matches_wire_type_category lower then ''wire type error''
      else if matches_length_delimiter_category lower then ''missing length-delimited data''
      else raw)"

definition empty_input_violation :: "signal_type \<Rightarrow> framing \<Rightarrow> otlp_violation" where
  "empty_input_violation signal framing =
     \<lparr>ov_rule = EmptyInput, ov_locus = KnownOffset 0, ov_expected = ''non-empty OTLP body'', ov_observed = ''0 bytes'',
      ov_signal_asserted = signal, ov_framing_asserted = framing, ov_source = None\<rparr>"

definition protobuf_decode_violation ::
  "(string \<Rightarrow> string) \<Rightarrow> signal_type \<Rightarrow> framing \<Rightarrow> nat \<Rightarrow> string \<Rightarrow> otlp_violation" where
  "protobuf_decode_violation to_lowercase signal framing input_len prost_err =
     \<lparr>ov_rule = WireType ProtobufDecode, ov_locus = KnownOffset input_len,
      ov_expected = ''valid protobuf wire bytes per opentelemetry-proto descriptor'',
      ov_observed = classify_prost_decode_error to_lowercase prost_err,
      ov_signal_asserted = signal, ov_framing_asserted = framing, ov_source = Some prost_err\<rparr>"

definition signal_mismatch_violation :: "signal_type \<Rightarrow> signal_type \<Rightarrow> framing \<Rightarrow> otlp_violation" where
  "signal_mismatch_violation observed asserted framing =
     \<lparr>ov_rule = WireType (SignalMismatch observed asserted), ov_locus = KnownOffset 0,
      ov_expected = ''OTLP body matching the asserted signal'',
      ov_observed = ''OTLP body matching a different signal than asserted'',
      ov_signal_asserted = asserted, ov_framing_asserted = framing, ov_source = None\<rparr>"

fun signal_debug :: "signal_type \<Rightarrow> string" where
  "signal_debug LogsSignal = ''Logs''"
| "signal_debug TracesSignal = ''Traces''"
| "signal_debug MetricsSignal = ''Metrics''"

fun framing_debug :: "framing \<Rightarrow> string" where
  "framing_debug HttpProtobuf = ''HttpProtobuf''"
| "framing_debug GrpcProtobuf = ''GrpcProtobuf''"

fun display_rule :: "violation_rule \<Rightarrow> string" where
  "display_rule EmptyInput = ''EmptyInput''"
| "display_rule (WireType ProtobufDecode) = ''WireType::ProtobufDecode''"
| "display_rule (WireType (SignalMismatch observed asserted)) =
     ''WireType::SignalMismatch{observed='' @ signal_debug observed @ '', asserted='' @ signal_debug asserted @ ''}''"

fun display_locus :: "byte_offset \<Rightarrow> string" where
  "display_locus (KnownOffset n) = ''byte '' @ nat_str n"
| "display_locus UnknownOffset = ''unknown''"

definition violation_display :: "(string \<Rightarrow> string) \<Rightarrow> otlp_violation \<Rightarrow> string" where
  "violation_display str_debug v =
     ''otlp violation: rule='' @ display_rule (ov_rule v) @ '' signal='' @ signal_debug (ov_signal_asserted v) @
     '' framing='' @ framing_debug (ov_framing_asserted v) @ '' locus='' @ display_locus (ov_locus v) @
     '' expected='' @ str_debug (ov_expected v) @ '' observed='' @ str_debug (ov_observed v)"

section \<open>Decoding (\<open>decode.rs\<close>)\<close>

definition RESOURCE_FIELD_NUMBER :: nat where
  "RESOURCE_FIELD_NUMBER = 1"

definition first_tag_references_resource_field :: "prost_lib \<Rightarrow> u8 list \<Rightarrow> string + unit" where
  "first_tag_references_resource_field pl bytes =
     (case prost_decode_key pl bytes of
        Inl e \<Rightarrow> Inl e
      | Inr field_number \<Rightarrow>
          if field_number \<noteq> RESOURCE_FIELD_NUMBER
          then Inl (prost_error pl (''wire type error: unknown top-level field '' @ nat_str field_number))
          else Inr ())"

definition decode_strict :: "prost_lib \<Rightarrow> (u8 list \<Rightarrow> string + 'm) \<Rightarrow> u8 list \<Rightarrow> string + 'm" where
  "decode_strict pl decode bytes =
     (case first_tag_references_resource_field pl bytes of Inl e \<Rightarrow> Inl e | Inr _ \<Rightarrow> decode bytes)"

fun signal_decodes_bytes :: "prost_lib \<Rightarrow> signal_type \<Rightarrow> u8 list \<Rightarrow> bool" where
  "signal_decodes_bytes pl LogsSignal bytes = (\<not> isl (decode_strict pl (prost_logs pl) bytes))"
| "signal_decodes_bytes pl TracesSignal bytes = (\<not> isl (decode_strict pl (prost_traces pl) bytes))"
| "signal_decodes_bytes pl MetricsSignal bytes = (\<not> isl (decode_strict pl (prost_metrics pl) bytes))"

definition first_alternative_signal_that_decodes :: "prost_lib \<Rightarrow> u8 list \<Rightarrow> signal_type \<Rightarrow> signal_type option" where
  "first_alternative_signal_that_decodes pl bytes asserted =
     List.find (\<lambda>candidate. candidate \<noteq> asserted \<and> signal_decodes_bytes pl candidate bytes)
       [LogsSignal, TracesSignal, MetricsSignal]"

definition reject_with_signal_mismatch_fallback ::
  "prost_lib \<Rightarrow> (string \<Rightarrow> string) \<Rightarrow> u8 list \<Rightarrow> framing \<Rightarrow> signal_type \<Rightarrow> string \<Rightarrow> otlp_violation" where
  "reject_with_signal_mismatch_fallback pl to_lowercase bytes framing asserted prost_err =
     (case first_alternative_signal_that_decodes pl bytes asserted of
        Some observed \<Rightarrow> signal_mismatch_violation observed asserted framing
      | None \<Rightarrow> protobuf_decode_violation to_lowercase asserted framing (length bytes) prost_err)"

definition decode_logs :: "prost_lib \<Rightarrow> (string \<Rightarrow> string) \<Rightarrow> u8 list \<Rightarrow> framing \<Rightarrow> otlp_violation + export_logs" where
  "decode_logs pl to_lowercase bytes framing =
     (case decode_strict pl (prost_logs pl) bytes of
        Inr record \<Rightarrow> Inr record
      | Inl prost_err \<Rightarrow> Inl (reject_with_signal_mismatch_fallback pl to_lowercase bytes framing LogsSignal prost_err))"

definition decode_traces :: "prost_lib \<Rightarrow> (string \<Rightarrow> string) \<Rightarrow> u8 list \<Rightarrow> framing \<Rightarrow> otlp_violation + export_traces" where
  "decode_traces pl to_lowercase bytes framing =
     (case decode_strict pl (prost_traces pl) bytes of
        Inr record \<Rightarrow> Inr record
      | Inl prost_err \<Rightarrow> Inl (reject_with_signal_mismatch_fallback pl to_lowercase bytes framing TracesSignal prost_err))"

definition decode_metrics :: "prost_lib \<Rightarrow> (string \<Rightarrow> string) \<Rightarrow> u8 list \<Rightarrow> framing \<Rightarrow> otlp_violation + export_metrics" where
  "decode_metrics pl to_lowercase bytes framing =
     (case decode_strict pl (prost_metrics pl) bytes of
        Inr record \<Rightarrow> Inr record
      | Inl prost_err \<Rightarrow> Inl (reject_with_signal_mismatch_fallback pl to_lowercase bytes framing MetricsSignal prost_err))"

section \<open>Validation (\<open>validate.rs\<close>)\<close>

definition validate_logs :: "prost_lib \<Rightarrow> (string \<Rightarrow> string) \<Rightarrow> u8 list \<Rightarrow> framing \<Rightarrow> otlp_violation + export_logs" where
  "validate_logs pl to_lowercase bytes framing =
     (if bytes = [] then Inl (empty_input_violation LogsSignal framing) else decode_logs pl to_lowercase bytes framing)"

definition validate_traces :: "prost_lib \<Rightarrow> (string \<Rightarrow> string) \<Rightarrow> u8 list \<Rightarrow> framing \<Rightarrow> otlp_violation + export_traces" where
  "validate_traces pl to_lowercase bytes framing =
     (if bytes = [] then Inl (empty_input_violation TracesSignal framing) else decode_traces pl to_lowercase bytes framing)"

definition validate_metrics :: "prost_lib \<Rightarrow> (string \<Rightarrow> string) \<Rightarrow> u8 list \<Rightarrow> framing \<Rightarrow> otlp_violation + export_metrics" where
  "validate_metrics pl to_lowercase bytes framing =
     (if bytes = [] then Inl (empty_input_violation MetricsSignal framing) else decode_metrics pl to_lowercase bytes framing)"

section \<open>Diagnoses are right\<close>

text \<open>A body reads as a signal when its first field is the resource field and that signal's decoder takes it.\<close>

fun reads_as :: "prost_lib \<Rightarrow> signal_type \<Rightarrow> u8 list \<Rightarrow> bool" where
  "reads_as pl LogsSignal bytes \<longleftrightarrow> prost_decode_key pl bytes = Inr 1 \<and> (\<exists>r. prost_logs pl bytes = Inr r)"
| "reads_as pl TracesSignal bytes \<longleftrightarrow> prost_decode_key pl bytes = Inr 1 \<and> (\<exists>r. prost_traces pl bytes = Inr r)"
| "reads_as pl MetricsSignal bytes \<longleftrightarrow> prost_decode_key pl bytes = Inr 1 \<and> (\<exists>r. prost_metrics pl bytes = Inr r)"

text \<open>
  What a refusal of a body sent as \<open>signal\<close> may say: that it is empty; that it reads as another signal, and
  not as this one; or that it reads as none.
\<close>

definition right_diagnosis :: "prost_lib \<Rightarrow> signal_type \<Rightarrow> framing \<Rightarrow> u8 list \<Rightarrow> otlp_violation \<Rightarrow> bool" where
  "right_diagnosis pl signal f bytes v \<longleftrightarrow>
     ov_signal_asserted v = signal \<and> ov_framing_asserted v = f \<and>
     (case ov_rule v of
        EmptyInput \<Rightarrow> bytes = []
      | WireType (SignalMismatch observed asserted) \<Rightarrow>
          asserted = signal \<and> bytes \<noteq> [] \<and> observed \<noteq> signal \<and> reads_as pl observed bytes \<and> \<not> reads_as pl signal bytes
      | WireType ProtobufDecode \<Rightarrow> bytes \<noteq> [] \<and> (\<forall>s. \<not> reads_as pl s bytes))"

lemma decode_strict_Inr: "decode_strict pl decode bytes = Inr r \<longleftrightarrow> prost_decode_key pl bytes = Inr 1 \<and> decode bytes = Inr r"
  by (auto simp: decode_strict_def first_tag_references_resource_field_def RESOURCE_FIELD_NUMBER_def split: sum.splits)

lemma decode_strict_accepts: "\<not> isl (decode_strict pl decode bytes) \<longleftrightarrow> prost_decode_key pl bytes = Inr 1 \<and> (\<exists>r. decode bytes = Inr r)"
  using decode_strict_Inr [of pl decode bytes] by (cases "decode_strict pl decode bytes") auto

lemma decode_strict_cases:
  "case decode_strict pl decode bytes of
     Inr r \<Rightarrow> prost_decode_key pl bytes = Inr 1 \<and> decode bytes = Inr r
   | Inl e \<Rightarrow> \<not> (prost_decode_key pl bytes = Inr 1 \<and> (\<exists>r. decode bytes = Inr r))"
  using decode_strict_Inr [of pl decode bytes] decode_strict_accepts [of pl decode bytes] by (auto split: sum.splits)

lemma signal_decodes_reads: "signal_decodes_bytes pl signal bytes \<longleftrightarrow> reads_as pl signal bytes"
  by (cases signal) (simp_all add: decode_strict_accepts)

lemma alternative_signal:
  "first_alternative_signal_that_decodes pl bytes asserted = Some observed \<Longrightarrow>
     observed \<noteq> asserted \<and> reads_as pl observed bytes"
  by (auto simp: first_alternative_signal_that_decodes_def signal_decodes_reads simp del: signal_decodes_bytes.simps reads_as.simps
      split: if_splits)

lemma no_alternative_signal:
  "first_alternative_signal_that_decodes pl bytes asserted = None \<Longrightarrow> signal \<noteq> asserted \<Longrightarrow> \<not> reads_as pl signal bytes"
  by (cases signal) (auto simp: first_alternative_signal_that_decodes_def signal_decodes_reads
      simp del: signal_decodes_bytes.simps reads_as.simps split: if_splits)

lemma empty_input_right: "right_diagnosis pl signal f [] (empty_input_violation signal f)"
  by (simp add: right_diagnosis_def empty_input_violation_def)

lemma reject_right:
  assumes "bytes \<noteq> []" and "\<not> reads_as pl signal bytes"
  shows "right_diagnosis pl signal f bytes (reject_with_signal_mismatch_fallback pl lc bytes f signal e)"
proof (cases "first_alternative_signal_that_decodes pl bytes signal")
  case None
  have "\<not> reads_as pl s bytes" for s
    using no_alternative_signal [OF None, of s] assms(2) by (cases "s = signal") simp_all
  with None assms(1) show ?thesis
    by (simp add: right_diagnosis_def reject_with_signal_mismatch_fallback_def protobuf_decode_violation_def)
next
  case (Some observed)
  with alternative_signal [OF Some] assms show ?thesis
    by (simp add: right_diagnosis_def reject_with_signal_mismatch_fallback_def signal_mismatch_violation_def)
qed

lemma validate_logs_decodes:
  "validate_logs pl lc bytes f = Inr r \<Longrightarrow> bytes \<noteq> [] \<and> prost_decode_key pl bytes = Inr 1 \<and> prost_logs pl bytes = Inr r"
  by (auto simp: validate_logs_def decode_logs_def decode_strict_def first_tag_references_resource_field_def RESOURCE_FIELD_NUMBER_def
      split: if_splits sum.splits)

lemma validate_traces_decodes:
  "validate_traces pl lc bytes f = Inr r \<Longrightarrow> bytes \<noteq> [] \<and> prost_decode_key pl bytes = Inr 1 \<and> prost_traces pl bytes = Inr r"
  by (auto simp: validate_traces_def decode_traces_def decode_strict_def first_tag_references_resource_field_def RESOURCE_FIELD_NUMBER_def
      split: if_splits sum.splits)

end
