(* ===== verification/Translate_Theorems.thy ===== *)
theory Translate_Theorems
  imports Otlp_Translate
begin

text \<open>
  The translation of exports, exactly: which exports are refused, and what every record, span and
  point becomes.
\<close>

section \<open>Collecting\<close>

lemma collect_all: "collect (map Inr as) = Inr as"
  by (induction as) simp_all

lemma collect_Inr: "collect xs = Inr as \<longleftrightarrow> xs = map Inr as"
proof
  show "collect xs = Inr as \<Longrightarrow> xs = map Inr as"
  proof (induction xs arbitrary: as rule: collect.induct)
    case (3 a xs)
    from "3.prems" obtain bs where "collect xs = Inr bs" "as = a # bs"
      by (cases "collect xs") auto
    with "3.IH" [of bs] show ?case
      by simp
  qed simp_all
qed (simp add: collect_all)

lemma collect_map:
  assumes "\<And>x. x \<in> set xs \<Longrightarrow> f x = (if ok x then Inr (g x) else Inl (err x))"
  shows "(\<exists>as. collect (map f xs) = Inr as) \<longleftrightarrow> list_all ok xs" (is "?A")
    and "list_all ok xs \<Longrightarrow> collect (map f xs) = Inr (map g xs)" (is "_ \<Longrightarrow> ?B")
proof -
  have all: "map f xs = map Inr (map g xs)" if "list_all ok xs"
    using assms that by (auto simp: list_all_iff)
  then show "list_all ok xs \<Longrightarrow> ?B"
    unfolding collect_Inr .
  have "list_all ok xs" if "map f xs = map Inr as" for as
  proof -
    have "\<forall>x\<in>set xs. \<exists>a. f x = Inr a"
      using that by (metis (no_types, lifting) image_eqI image_iff list.set_map)
    with assms show ?thesis
      by (metis Inl_Inr_False list_all_iff)
  qed
  with all show ?A
    unfolding collect_Inr by blast
qed

section \<open>Attributes\<close>

lemma fold_attributes_snoc:
  "fold_attributes fd (kvs @ [kv]) = bt_insert (kv_key kv) (any_value_to_string fd (kv_value kv)) (fold_attributes fd kvs)"
  by (simp add: fold_attributes_def)

lemma fold_attributes_wf: "bt_wf (fold_attributes fd kvs)"
  by (induction kvs rule: rev_induct) (simp_all add: fold_attributes_snoc, simp add: fold_attributes_def bt_wf_def)

text \<open>The last of several attributes with a key is the one kept.\<close>

lemma fold_attributes_get:
  "map_of (fold_attributes fd kvs) k =
     map_option (\<lambda>kv. any_value_to_string fd (kv_value kv)) (List.find (\<lambda>kv. kv_key kv = k) (rev kvs))"
proof (induction kvs rule: rev_induct)
  case (snoc kv kvs)
  then show ?case
    by (simp add: fold_attributes_snoc fold_attributes_wf)
qed (simp add: fold_attributes_def)

section \<open>Logs\<close>

definition id_ok :: "nat \<Rightarrow> u8 list \<Rightarrow> bool" where
  "id_ok n bytes = (bytes = [] \<or> length bytes = n)"

definition opt_id :: "u8 list \<Rightarrow> u8 list option" where
  "opt_id bytes = (if bytes = [] then None else Some bytes)"

lemma byte_id_cases:
  "byte_id n bytes field = (if id_ok n bytes then Inr (opt_id bytes) else Inl (MalformedByteId field n (length bytes)))"
  by (auto simp: byte_id_def id_ok_def opt_id_def)

definition log_ids_ok :: "proto_log \<Rightarrow> bool" where
  "log_ids_ok p = (id_ok 16 (pl_trace_id p) \<and> id_ok 8 (pl_span_id p))"

definition log_error :: "proto_log \<Rightarrow> translation_error" where
  "log_error p =
     (if id_ok 16 (pl_trace_id p) then MalformedByteId ''span_id'' 8 (length (pl_span_id p))
      else MalformedByteId ''trace_id'' 16 (length (pl_trace_id p)))"

text \<open>The rows of an export: every record with its resource, in the order sent.\<close>

definition log_rows :: "export_logs \<Rightarrow> (proto_resource_logs \<times> proto_log) list" where
  "log_rows request = concat (map (\<lambda>rl. map (\<lambda>p. (rl, p)) (concat (rl_scope_logs rl))) request)"

text \<open>What a row is stored as.\<close>

definition stored_log :: "(u64 \<Rightarrow> string) \<Rightarrow> proto_resource_logs \<times> proto_log \<Rightarrow> log_record" where
  "stored_log fd = (\<lambda>(rl, p).
     \<lparr>observed_time_unix_nano = observed_time p, severity_number = pl_severity_number p, severity_text = pl_severity_text p,
      body = any_value_to_string fd (pl_body p), attributes = fold_attributes fd (pl_attributes p),
      resource_attributes = fold_resource_attributes fd rl, trace_id = opt_id (pl_trace_id p), span_id = opt_id (pl_span_id p)\<rparr>)"

lemma translate_record_cases:
  "translate_record fd (fold_resource_attributes fd rl) p =
     (if log_ids_ok p then Inr (stored_log fd (rl, p)) else Inl (log_error p))"
  by (simp add: translate_record_def byte_id_16_def byte_id_8_def byte_id_cases log_ids_ok_def log_error_def stored_log_def)

lemma translate_logs_rows:
  "translate_logs fd request =
     collect (map (\<lambda>row. translate_record fd (fold_resource_attributes fd (fst row)) (snd row)) (log_rows request))"
  unfolding translate_logs_def log_rows_def Let_def map_concat map_map
  by (intro arg_cong [where f = collect] arg_cong [where f = concat] map_cong refl) (simp add: comp_def map_concat)

lemmas translate_logs_all =
  collect_map [where ok = "\<lambda>row. log_ids_ok (snd row)" and g = "stored_log fd" and err = "\<lambda>row. log_error (snd row)"
    and f = "\<lambda>row. translate_record fd (fold_resource_attributes fd (fst row)) (snd row)" and xs = "log_rows request"
    for fd request, folded translate_logs_rows, simplified translate_record_cases, simplified]

lemma translate_logs_cases:
  "translate_logs fd request = Inr rs \<longleftrightarrow>
     list_all (\<lambda>row. log_ids_ok (snd row)) (log_rows request) \<and> rs = map (stored_log fd) (log_rows request)"
  using translate_logs_all [where fd = fd and request = request] by auto

section \<open>Traces\<close>

definition link_ids_ok :: "proto_link \<Rightarrow> bool" where
  "link_ids_ok l = (length (li_trace_id l) = 16 \<and> length (li_span_id l) = 8)"

definition span_ids_ok :: "proto_span \<Rightarrow> bool" where
  "span_ids_ok p =
     (length (ps_trace_id p) = 16 \<and> length (ps_span_id p) = 8 \<and> id_ok 8 (ps_parent_span_id p) \<and> list_all link_ids_ok (ps_links p))"

definition span_rows :: "export_traces \<Rightarrow> (proto_resource_spans \<times> proto_span) list" where
  "span_rows request = concat (map (\<lambda>rs. map (\<lambda>p. (rs, p)) (concat (rs_scope_spans rs))) request)"

definition stored_link :: "(u64 \<Rightarrow> string) \<Rightarrow> proto_link \<Rightarrow> span_link" where
  "stored_link fd l = \<lparr>lk_trace_id = li_trace_id l, lk_span_id = li_span_id l, lk_attributes = fold_attributes fd (li_attributes l)\<rparr>"

definition stored_span :: "(u64 \<Rightarrow> string) \<Rightarrow> proto_resource_spans \<times> proto_span \<Rightarrow> span" where
  "stored_span fd = (\<lambda>(rs, p).
     \<lparr>sp_trace_id = ps_trace_id p, sp_span_id = ps_span_id p, sp_parent_span_id = opt_id (ps_parent_span_id p), sp_name = ps_name p,
      sp_kind = span_kind_from_i32 (ps_kind p), sp_start_time_unix_nano = ps_start_time_unix_nano p,
      sp_end_time_unix_nano = ps_end_time_unix_nano p, sp_status = span_status_of (ps_status p),
      sp_attributes = fold_attributes fd (ps_attributes p), sp_resource_attributes = fold_trace_resource_attributes fd rs,
      sp_events = translate_events fd (ps_events p), sp_links = map (stored_link fd) (ps_links p)\<rparr>)"

lemma require_trace_id_cases:
  "require_trace_id bytes field = (if length bytes = 16 then Inr bytes else Inl (MalformedByteId field 16 (length bytes)))"
  by (auto simp: require_trace_id_def byte_id_16_def byte_id_def)

lemma require_span_id_cases:
  "require_span_id bytes field = (if length bytes = 8 then Inr bytes else Inl (MalformedByteId field 8 (length bytes)))"
  by (auto simp: require_span_id_def byte_id_8_def byte_id_def)

lemma translate_links_cases:
  "(\<exists>as. translate_links fd ls = Inr as) \<longleftrightarrow> list_all link_ids_ok ls"
  "list_all link_ids_ok ls \<Longrightarrow> translate_links fd ls = Inr (map (stored_link fd) ls)"
  unfolding translate_links_def
  by (rule collect_map [where g = "stored_link fd" and err = "\<lambda>l. if length (li_trace_id l) = 16 then MalformedByteId ''link.span_id'' 8 (length (li_span_id l))
      else MalformedByteId ''link.trace_id'' 16 (length (li_trace_id l))"];
      simp add: translate_link_def require_trace_id_cases require_span_id_cases link_ids_ok_def stored_link_def)+

lemma translate_span_cases:
  "(\<exists>s. translate_span fd (fold_trace_resource_attributes fd rs) p = Inr s) \<longleftrightarrow> span_ids_ok p"
  "span_ids_ok p \<Longrightarrow> translate_span fd (fold_trace_resource_attributes fd rs) p = Inr (stored_span fd (rs, p))"
proof -
  show "span_ids_ok p \<Longrightarrow> translate_span fd (fold_trace_resource_attributes fd rs) p = Inr (stored_span fd (rs, p))"
    by (simp add: translate_span_def require_trace_id_cases require_span_id_cases byte_id_8_def byte_id_cases span_ids_ok_def
        translate_links_cases(2) stored_span_def)
  then show "(\<exists>s. translate_span fd (fold_trace_resource_attributes fd rs) p = Inr s) \<longleftrightarrow> span_ids_ok p"
    using translate_links_cases(1) [of fd "ps_links p"]
    by (auto simp: translate_span_def require_trace_id_cases require_span_id_cases byte_id_8_def byte_id_cases span_ids_ok_def
        split: sum.splits if_splits)
qed

lemma translate_traces_rows:
  "translate_traces fd request =
     collect (map (\<lambda>row. translate_span fd (fold_trace_resource_attributes fd (fst row)) (snd row)) (span_rows request))"
  unfolding translate_traces_def span_rows_def Let_def map_concat map_map
  by (intro arg_cong [where f = collect] arg_cong [where f = concat] map_cong refl) (simp add: comp_def map_concat)

lemma translate_traces_cases:
  "translate_traces fd request = Inr ss \<longleftrightarrow>
     list_all (\<lambda>row. span_ids_ok (snd row)) (span_rows request) \<and> ss = map (stored_span fd) (span_rows request)"
proof -
  let ?f = "\<lambda>row. translate_span fd (fold_trace_resource_attributes fd (fst row)) (snd row)"
  have "?f row = (if span_ids_ok (snd row) then Inr (stored_span fd row) else Inl (projl (?f row)))" for row
    using translate_span_cases(1) [of fd "fst row" "snd row"] translate_span_cases(2) [of "snd row" fd "fst row"] by (cases "?f row") auto
  from collect_map [of "span_rows request" ?f, OF this] show ?thesis
    unfolding translate_traces_rows by auto
qed

section \<open>Metrics\<close>

definition metric_rows :: "export_metrics \<Rightarrow> (proto_resource_metrics \<times> proto_metric) list" where
  "metric_rows request = concat (map (\<lambda>rm. map (\<lambda>p. (rm, p)) (concat (rm_scope_metrics rm))) request)"

definition stored_point :: "(u64 \<Rightarrow> string) \<Rightarrow> number_point \<Rightarrow> metric_point" where
  "stored_point fd p =
     \<lparr>mp_time_unix_nano = np_time_unix_nano p, mp_start_time_unix_nano = np_start_time_unix_nano p,
      mp_attributes = fold_attributes fd (np_attributes p), mp_value = the (number_point_value p)\<rparr>"

definition has_value :: "number_point \<Rightarrow> bool" where
  "has_value p = (np_value p \<noteq> None)"

definition is_supported :: "proto_metric \<Rightarrow> bool" where
  "is_supported p = (supported_data (pm_data p) \<noteq> None)"

definition supported_points :: "proto_metric \<Rightarrow> number_point list" where
  "supported_points p = (case supported_data (pm_data p) of None \<Rightarrow> [] | Some (_, ps) \<Rightarrow> ps)"

definition stored_metric :: "(u64 \<Rightarrow> string) \<Rightarrow> proto_resource_metrics \<times> proto_metric \<Rightarrow> metric" where
  "stored_metric fd = (\<lambda>(rm, p).
     \<lparr>mt_name = pm_name p, mt_description = pm_description p, mt_unit = pm_unit p,
      mt_kind = fst (the (supported_data (pm_data p))), mt_points = map (stored_point fd) (filter has_value (supported_points p)),
      mt_resource_attributes = fold_metric_resource_attributes fd rm\<rparr>)"

text \<open>The warnings of a metric: one for a kind that is not stored, one for every point without a value.\<close>

definition metric_warnings :: "proto_metric \<Rightarrow> translate_event list" where
  "metric_warnings p =
     (if is_supported p then map (\<lambda>_. MetricPointValueUnset (pm_name p)) (filter (\<lambda>q. \<not> has_value q) (supported_points p))
      else [MetricPointTypeSkipped (pm_name p) (unsupported_metric_kind (pm_data p))])"

lemma number_point_value_None: "number_point_value p = None \<longleftrightarrow> \<not> has_value p"
  by (auto simp: number_point_value_def has_value_def split: option.splits number_value.splits)

lemma translate_number_points_fold:
  "fold (number_point_step fd name) ps (points, events) =
     (points @ map (stored_point fd) (filter has_value ps),
      events @ map (\<lambda>_. MetricPointValueUnset name) (filter (\<lambda>q. \<not> has_value q) ps))"
proof (induction ps arbitrary: points events)
  case (Cons p ps)
  then show ?case
    using number_point_value_None [of p] by (cases "number_point_value p") (simp_all add: number_point_step_def stored_point_def)
qed simp

lemma translate_metric_cases:
  "translate_metric fd (fold_metric_resource_attributes fd rm) p events =
     (if is_supported p then Some (stored_metric fd (rm, p)) else None, events @ metric_warnings p)"
  by (auto simp: translate_metric_def translate_number_points_def translate_number_points_fold is_supported_def
      metric_warnings_def stored_metric_def supported_points_def split: option.splits)

lemma translate_metric_scope:
  "fold (translate_metric_step fd (fold_metric_resource_attributes fd rm)) ps (metrics, events) =
     (metrics @ map (\<lambda>p. stored_metric fd (rm, p)) (filter is_supported ps), events @ concat (map metric_warnings ps))"
  by (induction ps arbitrary: metrics events) (simp_all add: translate_metric_step_def translate_metric_cases)

lemma translate_metric_resource:
  "fold (fold (translate_metric_step fd (fold_metric_resource_attributes fd rm))) scopes (metrics, events) =
     (metrics @ map (\<lambda>p. stored_metric fd (rm, p)) (filter is_supported (concat scopes)),
      events @ concat (map metric_warnings (concat scopes)))"
  by (induction scopes arbitrary: metrics events) (simp_all add: translate_metric_scope)

lemma translate_metrics_fold:
  "fold (\<lambda>rm. fold (fold (translate_metric_step fd (fold_metric_resource_attributes fd rm))) (rm_scope_metrics rm)) request
     (metrics, events) =
   (metrics @ map (stored_metric fd) (filter (\<lambda>row. is_supported (snd row)) (metric_rows request)),
    events @ concat (map (\<lambda>row. metric_warnings (snd row)) (metric_rows request)))"
  by (induction request arbitrary: metrics events)
    (simp_all add: metric_rows_def translate_metric_resource comp_def filter_map)

lemma translate_metrics_cases:
  "translate_metrics fd request =
     (map (stored_metric fd) (filter (\<lambda>row. is_supported (snd row)) (metric_rows request)),
      concat (map (\<lambda>row. metric_warnings (snd row)) (metric_rows request)))"
  by (simp add: translate_metrics_def translate_metrics_fold)

section \<open>Properties\<close>

definition data_point_count :: "proto_metric \<Rightarrow> nat" where
  "data_point_count p =
     (case pm_data p of
        Some (GaugeData ps) \<Rightarrow> length ps | Some (SumData ps) \<Rightarrow> length ps
      | Some (HistogramData n) \<Rightarrow> n | Some (ExponentialHistogramData n) \<Rightarrow> n | Some (SummaryData n) \<Rightarrow> n | None \<Rightarrow> 0)"

lemma warnings_count:
  "length (filter (\<lambda>e. \<exists>n. e = MetricPointValueUnset n) (metric_warnings p)) =
     (if is_supported p then length (supported_points p) - length (filter has_value (supported_points p)) else 0)"
  using sum_length_filter_compl [of has_value "supported_points p"]
  by (cases "is_supported p") (simp_all add: metric_warnings_def filter_map comp_def)

lemma supported_points_count: "is_supported p \<Longrightarrow> length (supported_points p) = data_point_count p"
  by (auto simp: is_supported_def supported_points_def supported_data_def data_point_count_def
      split: option.splits metric_data.splits)

lemma row_points:
  "(if is_supported p then length (filter has_value (supported_points p)) else 0) +
   length (filter (\<lambda>e. \<exists>n. e = MetricPointValueUnset n) (metric_warnings p)) +
   (if is_supported p then 0 else data_point_count p) = data_point_count p"
proof (cases "is_supported p")
  case True
  with supported_points_count [OF True] length_filter_le [of has_value "supported_points p"] show ?thesis
    by (simp add: warnings_count)
qed (simp add: warnings_count)

lemma stored_metric_points [simp]:
  "length (mt_points (stored_metric fd row)) = length (filter has_value (supported_points (snd row)))"
  by (cases row) (simp add: stored_metric_def)

text \<open>
  C26. No metric point is dropped silently. What is stored is, in order, the gauges and sums of the
  export with their points that carry a value; every other point is accounted for by a warning of
  its own or belongs to a metric of a kind that is not stored, and there is one warning for each
  such metric.
\<close>

theorem translate_metrics_accounted:
  "translate_metrics fd request = (metrics, warnings) \<Longrightarrow>
   metrics = map (stored_metric fd) (filter (\<lambda>row. is_supported (snd row)) (metric_rows request)) \<and>
   total_points metrics + length (filter (\<lambda>e. \<exists>n. e = MetricPointValueUnset n) warnings) +
     sum_list (map (\<lambda>row. if is_supported (snd row) then 0 else data_point_count (snd row)) (metric_rows request)) =
     sum_list (map (\<lambda>row. data_point_count (snd row)) (metric_rows request)) \<and>
   filter (\<lambda>e. \<exists>n k. e = MetricPointTypeSkipped n k) warnings =
     map (\<lambda>row. MetricPointTypeSkipped (pm_name (snd row)) (unsupported_metric_kind (pm_data (snd row))))
       (filter (\<lambda>row. \<not> is_supported (snd row)) (metric_rows request))"
proof -
  have points: "total_points (map (stored_metric fd) (filter (\<lambda>row. is_supported (snd row)) rows)) +
      length (filter (\<lambda>e. \<exists>n. e = MetricPointValueUnset n) (concat (map (\<lambda>row. metric_warnings (snd row)) rows))) +
      sum_list (map (\<lambda>row. if is_supported (snd row) then 0 else data_point_count (snd row)) rows) =
      sum_list (map (\<lambda>row. data_point_count (snd row)) rows)" for rows
  proof (induction rows)
    case (Cons row rows)
    then show ?case
      using row_points [of "snd row"] by (cases "is_supported (snd row)") (simp_all add: total_points_def)
  qed (simp add: total_points_def)
  have skipped: "filter (\<lambda>e. \<exists>n k. e = MetricPointTypeSkipped n k) (concat (map (\<lambda>row. metric_warnings (snd row)) rows)) =
      map (\<lambda>row. MetricPointTypeSkipped (pm_name (snd row)) (unsupported_metric_kind (pm_data (snd row))))
       (filter (\<lambda>row. \<not> is_supported (snd row)) rows)" for rows
    by (induction rows) (auto simp: metric_warnings_def)
  assume "translate_metrics fd request = (metrics, warnings)"
  then have m: "metrics = map (stored_metric fd) (filter (\<lambda>row. is_supported (snd row)) (metric_rows request))"
    and w: "warnings = concat (map (\<lambda>row. metric_warnings (snd row)) (metric_rows request))"
    by (simp_all add: translate_metrics_cases)
  show ?thesis
    unfolding m w using points [of "metric_rows request"] skipped [of "metric_rows request"] by (rule conjI [OF refl conjI])
qed

text \<open>
  Exports of logs are refused exactly when some identifier is malformed, and an accepted export is
  stored record by record in the order sent: the time is the observed one or else the event time, an
  attribute key keeps its last value, and an identifier is absent or of its exact length.
\<close>

theorem translate_logs_exact:
  "case translate_logs fd request of
     Inl _ \<Rightarrow> \<not> list_all (\<lambda>row. length (pl_trace_id (snd row)) \<in> {0, 16} \<and> length (pl_span_id (snd row)) \<in> {0, 8}) (log_rows request)
   | Inr rs \<Rightarrow>
       list_all (\<lambda>row. length (pl_trace_id (snd row)) \<in> {0, 16} \<and> length (pl_span_id (snd row)) \<in> {0, 8}) (log_rows request) \<and>
       rs = map (stored_log fd) (log_rows request) \<and>
       list_all (\<lambda>r. (case trace_id r of None \<Rightarrow> True | Some bytes \<Rightarrow> length bytes = 16) \<and>
                     (case span_id r of None \<Rightarrow> True | Some bytes \<Rightarrow> length bytes = 8) \<and>
                     bt_wf (attributes r) \<and> bt_wf (resource_attributes r)) rs \<and>
       list_all (\<lambda>(row, r). \<forall>k. map_of (attributes r) k =
          map_option (\<lambda>kv. any_value_to_string fd (kv_value kv)) (List.find (\<lambda>kv. kv_key kv = k) (rev (pl_attributes (snd row)))))
         (zip (log_rows request) rs)"
proof (cases "translate_logs fd request")
  case (Inl e)
  have "log_ids_ok p \<longleftrightarrow> length (pl_trace_id p) \<in> {0, 16} \<and> length (pl_span_id p) \<in> {0, 8}" for p
    by (auto simp: log_ids_ok_def id_ok_def)
  with Inl show ?thesis
    using translate_logs_cases [of fd request "map (stored_log fd) (log_rows request)"] by simp
next
  case (Inr rs)
  then have ok: "list_all (\<lambda>row. log_ids_ok (snd row)) (log_rows request)" and rs: "rs = map (stored_log fd) (log_rows request)"
    by (simp_all add: translate_logs_cases)
  have wf: "bt_wf (fold_resource_attributes fd rl)" for rl
    using fold_attributes_wf [of fd "[]"]
    by (simp add: fold_resource_attributes_def fold_attributes_wf split: option.splits)
  have "list_all (\<lambda>row. length (pl_trace_id (snd row)) \<in> {0, 16} \<and> length (pl_span_id (snd row)) \<in> {0, 8}) (log_rows request)"
    using ok by (auto simp: list_all_iff log_ids_ok_def id_ok_def)
  moreover have "list_all (\<lambda>r. (case trace_id r of None \<Rightarrow> True | Some bytes \<Rightarrow> length bytes = 16) \<and>
       (case span_id r of None \<Rightarrow> True | Some bytes \<Rightarrow> length bytes = 8) \<and> bt_wf (attributes r) \<and> bt_wf (resource_attributes r)) rs"
    using ok unfolding rs list_all_iff
    by (auto simp: stored_log_def opt_id_def log_ids_ok_def id_ok_def wf fold_attributes_wf)
  moreover have "list_all (\<lambda>(row, r). \<forall>k. map_of (attributes r) k =
        map_option (\<lambda>kv. any_value_to_string fd (kv_value kv)) (List.find (\<lambda>kv. kv_key kv = k) (rev (pl_attributes (snd row)))))
       (zip (log_rows request) rs)"
    unfolding rs list_all_iff zip_map2 zip_same_conv_map by (auto simp: stored_log_def fold_attributes_get)
  ultimately show ?thesis
    using rs by (simp add: Inr)
qed

text \<open>
  An integer point is stored exactly when its magnitude is below 2 to the 53: reading the stored
  double back gives the sent magnitude and sign. Above that it is rounded: two consecutive integers are
  stored as the same double.
\<close>

theorem integer_points_exact:
  "(\<bar>sint i\<bar> < 2 ^ 53 \<longrightarrow>
     f64_as_u64 (f64_of_i64 i AND mask 63) = word_of_int \<bar>sint i\<bar> \<and> (f64_sign_negative (f64_of_i64 i) \<longleftrightarrow> sint i < 0)) \<and>
   f64_of_i64 9007199254740993 = f64_of_i64 9007199254740992"
proof (intro conjI impI)
  have "f64_of_ratio 9007199254740993 1 = f64_of_ratio 9007199254740992 1"
    using int_as_f64 [of 53 9007199254740993] int_as_f64 [of 53 9007199254740992]
    by (simp add: int_significand_def round_half_even_def)
  then show "f64_of_i64 9007199254740993 = f64_of_i64 9007199254740992"
    by (simp add: f64_of_i64_def)
next
  define n where "n = nat \<bar>sint i\<bar>"
  define x where "x = f64_of_ratio n 1"
  have low: "unat x < 2 ^ 63"
    unfolding x_def by (rule f64_of_ratio_unsigned)
  then have self: "x AND mask 63 = x"
    by (simp add: less_mask_eq word_less_nat_alt)
  have clear: "push_bit 63 1 AND mask 63 = (0 :: u64)"
    by code_simp
  with self have keep: "(x OR push_bit 63 1) AND mask 63 = x"
    by (simp add: bit.conj_disj_distrib2)
  have "x AND push_bit 63 1 = (x AND mask 63) AND push_bit 63 1"
    by (simp only: self)
  also have "\<dots> = x AND (push_bit 63 1 AND mask 63)"
    by (simp only: and.assoc and.commute [of "mask 63"])
  finally have "x AND push_bit 63 1 = 0"
    by (simp only: clear and_zero_eq)
  then have "x OR push_bit 63 1 = x + push_bit 63 1"
    by (rule disjunctive_add_eq_or [symmetric])
  moreover have "unat (push_bit 63 1 :: u64) = 2 ^ 63"
    by (simp add: push_bit_eq_mult)
  ultimately have top: "unat (x OR push_bit 63 1) = unat x + 2 ^ 63"
    using low by (simp add: unat_plus_if')
  have x: "f64_of_i64 i = (if sint i < 0 then x OR push_bit 63 1 else x)"
    by (simp add: f64_of_i64_def x_def n_def abs_if)
  have magnitude: "f64_of_i64 i AND mask 63 = x"
    unfolding x by (cases "sint i < 0") (simp_all only: if_True if_False keep self)
  assume "\<bar>sint i\<bar> < 2 ^ 53"
  then have n: "n < 2 ^ 53"
    by (simp add: n_def nat_less_iff)
  have "f64_as_u64 x = word_of_nat n"
    using f64_of_ratio_exact(1) [OF n, of 1] by (simp add: x_def)
  then show "f64_as_u64 (f64_of_i64 i AND mask 63) = word_of_int \<bar>sint i\<bar>"
    using magnitude by (simp add: n_def)
  show "f64_sign_negative (f64_of_i64 i) \<longleftrightarrow> sint i < 0"
    using low top by (simp add: x f64_sign_negative_def)
qed

text \<open>
  A record with a duplicate attribute key and one with a malformed span identifier.
\<close>

definition tx_log :: "u8 list \<Rightarrow> proto_log" where
  "tx_log sid = \<lparr>pl_time_unix_nano = 7, pl_observed_time_unix_nano = 0, pl_severity_number = 9, pl_severity_text = ''INFO'',
     pl_body = Some (AnyValue (Some (StringValue ''hi''))),
     pl_attributes = [KeyValue ''k'' None, KeyValue ''k'' (Some (AnyValue (Some (BoolValue True))))],
     pl_trace_id = [], pl_span_id = sid\<rparr>"

definition tx_logs :: "u8 list \<Rightarrow> export_logs" where
  "tx_logs sid = [\<lparr>rl_resource = Some \<lparr>res_attributes = [KeyValue ''tenant.id'' (Some (AnyValue (Some (StringValue ''t''))))]\<rparr>,
     rl_scope_logs = [[tx_log sid]]\<rparr>]"

definition tx_metrics :: export_metrics where
  "tx_metrics = [\<lparr>rm_resource = None, rm_scope_metrics = [[
     \<lparr>pm_name = ''m'', pm_description = [], pm_unit = [], pm_data = Some (GaugeData
        [\<lparr>np_time_unix_nano = 1, np_start_time_unix_nano = 0, np_attributes = [], np_value = Some (AsDouble 5)\<rparr>,
         \<lparr>np_time_unix_nano = 2, np_start_time_unix_nano = 0, np_attributes = [], np_value = None\<rparr>])\<rparr>,
     \<lparr>pm_name = ''h'', pm_description = [], pm_unit = [], pm_data = Some (HistogramData 3)\<rparr>]]\<rparr>]"

theorem translate_metrics_accounted_witness:
  "\<exists>metrics warnings. translate_metrics (\<lambda>_. []) tx_metrics = (metrics, warnings) \<and> total_points metrics = 1 \<and>
     filter (\<lambda>e. \<exists>n k. e = MetricPointTypeSkipped n k) warnings = [MetricPointTypeSkipped ''h'' ''histogram'']"
proof -
  obtain metrics warnings where t: "translate_metrics (\<lambda>_. []) tx_metrics = (metrics, warnings)"
    by (cases "translate_metrics (\<lambda>_. []) tx_metrics")
  have rows: "metric_rows tx_metrics = map (\<lambda>p. (hd tx_metrics, p)) (concat (rm_scope_metrics (hd tx_metrics)))"
    by (simp add: metric_rows_def tx_metrics_def)
  have "total_points metrics = 1"
    using translate_metrics_accounted [OF t]
    unfolding rows by (simp add: tx_metrics_def is_supported_def supported_data_def total_points_def supported_points_def has_value_def)
  moreover have "filter (\<lambda>e. \<exists>n k. e = MetricPointTypeSkipped n k) warnings = [MetricPointTypeSkipped ''h'' ''histogram'']"
    using translate_metrics_accounted [OF t] unfolding rows by (simp add: tx_metrics_def is_supported_def supported_data_def)
  ultimately show ?thesis
    using t by blast
qed

theorem integer_points_exact_witness:
  "f64_as_u64 (f64_of_i64 (- 3) AND mask 63) = 3 \<and> f64_sign_negative (f64_of_i64 (- 3))"
  using integer_points_exact [of "- 3"] by simp

end
