(* ===== verification/Lumen_Durable.thy ===== *)
theory Lumen_Durable
  imports Lumen_Store
begin

text \<open>
  Durability of the file-backed log store: the states it reaches through acknowledged operations,
  what a restart and a crash give back, and where the recovery falls short of that.
\<close>

section \<open>Files that hold the state\<close>

definition lumen_durable ::
  "(lumen_wal_record \<Rightarrow> string + string) \<Rightarrow> (string \<Rightarrow> string + lumen_wal_record) \<Rightarrow>
   (string \<Rightarrow> string + lumen_snapshot_doc) \<Rightarrow> lumen_file \<Rightarrow> bool" where
  "lumen_durable to_string from_str from_reader s =
     durable_as to_string from_str from_reader (\<lambda>snap. Inr (lumen_load_snapshot snap) :: log_store_error + _) []
       lumen_live_record lumen_resort hm_get (lf_dir s) (lf_wal s) (hm_get (lf_per_tenant s))"

lemma hm_wf_load_snapshot: "hm_wf (lumen_load_snapshot snap)"
proof -
  have "hm_wf m \<Longrightarrow> hm_wf (fold (\<lambda>(k, v) m. hm_insert k v m) snap m)" for m
    by (induction snap arbitrary: m) auto
  then show ?thesis
    by (simp add: lumen_load_snapshot_def)
qed

lemma hm_wf_replay_record: "hm_wf m \<Longrightarrow> hm_wf (lumen_replay_record r m)"
  by (cases r) auto

lemma hm_wf_replay:
  "hm_wf m \<Longrightarrow> hm_wf (fst (snd (replay_wal_tolerating_torn_tail fs p (total_apply lumen_replay_record) pe b m)))"
  by (rule replay_inv) (simp_all add: hm_wf_replay_record)

lemma lumen_open_ordered:
  assumes "lumen_open_with_fsync_backend fs fr disk = (Inr s, ws)"
  shows "lumen_ordered s"
proof -
  from assms obtain w dir where "pillar_open lumen_io lumen_parse fr (\<lambda>snap. Inr (lumen_load_snapshot snap)) []
      (replay_wal_tolerating_torn_tail fs ''lumen'' (total_apply lumen_replay_record)
        (\<lambda>line err. LumenPersistenceFailed (wal_parse_reason line err)))
      lumen_resort disk = (Inr (lf_per_tenant s, w, dir), ws)"
    by (auto simp: lumen_open_with_fsync_backend_def split: prod.splits sum.splits)
  then show ?thesis
    unfolding lumen_ordered_def
    by (rule pillar_open_inv [where P = hm_wf])
      (auto simp: hm_wf_load_snapshot lumen_resort_def hm_wf_map_entries buckets_sorted_def list_all_iff
        hm_wf_replay)
qed

lemma lumen_durable_ingest:
  assumes "lumen_durable ts fs fr s" and "lumen_ingest ts env t b s = (Inr rc, s')"
    and "records b \<noteq> [] \<Longrightarrow> serde_ok ts fs (LumenWalIngest t (records b))"
  shows "lumen_durable ts fs fr s'"
proof (cases "records b = []")
  case True
  with lumen_ingest_acked [OF assms(2)] assms(1) show ?thesis
    by (simp add: lumen_durable_def)
next
  case False
  from lumen_ingest_acked [OF assms(2)] False
  have a: "append_wal ts lumen_parse lumen_io env (LumenWalIngest t (records b)) (lf_wal s) = (Inr (), lf_wal s')"
    and *: "lf_dir s' = lf_dir s" "lf_per_tenant s' = lumen_extend_sorted t (records b) (lf_per_tenant s)"
    by (simp_all add: lumen_append_wal_def)
  from lumen_pillar.durable_append [OF assms(1) [unfolded lumen_durable_def] a assms(3) [OF False]]
  show ?thesis
    by (simp add: lumen_durable_def *)
qed

lemma lumen_durable_query:
  "lumen_durable ts fs fr s \<Longrightarrow> lumen_durable ts fs fr (snd (lumen_query t rng s))"
  "lumen_durable ts fs fr s \<Longrightarrow> lumen_durable ts fs fr (snd (lumen_query_with t rng p s))"
  by (simp_all add: lumen_durable_def lumen_query_def lumen_query_with_def Let_def split: option.splits)

lemma lumen_durable_snapshot:
  assumes "lumen_ordered s" and "lumen_snapshot tw env fsync_file s = (Inr (), s')"
    and "tw (lf_per_tenant s) = Inr data" and "fr data = Inr (lf_per_tenant s)"
    and "\<And>b. fsync_file b = Inr b"
  shows "lumen_durable ts fs fr s' \<and> lf_per_tenant s' = lf_per_tenant s"
proof -
  obtain res trace where
    t: "pillar_snapshot env fsync_file (Inr data) (lf_dir s) (lf_wal s) = (res, trace)"
    by fastforce
  with assms(2,3) have "res = Inr ()" "s' = s\<lparr>lf_dir := fst (last trace), lf_wal := snd (last trace)\<rparr>"
    by (cases res; simp add: lumen_snapshot_def)+
  with t lumen_pillar.durable_snapshot [OF assms(5), of env data "lf_dir s" "lf_wal s" trace fr "lf_per_tenant s"]
    assms(1,4) show ?thesis
    by (simp add: lumen_durable_def lumen_ordered_def)
qed

lemma lumen_durable_reopen:
  assumes "lumen_durable ts fs fr s"
  shows "\<exists>s'. lumen_open_with_fsync_backend fs fr (disk_of (lf_dir s) (lf_wal s)) = (Inr s', []) \<and>
    lumen_durable ts fs fr s' \<and> lumen_ordered s' \<and> hm_get (lf_per_tenant s') = hm_get (lf_per_tenant s)"
proof -
  from lumen_pillar.durable_reopen [OF assms [unfolded lumen_durable_def], of lumen_io lumen_parse "''lumen''"
      "\<lambda>line err. LumenPersistenceFailed (wal_parse_reason line err)"]
  obtain m dir' where o: "pillar_open lumen_io lumen_parse fr (\<lambda>snap. Inr (lumen_load_snapshot snap)) []
      (replay_wal_tolerating_torn_tail fs ''lumen'' (total_apply lumen_replay_record)
        (\<lambda>line err. LumenPersistenceFailed (wal_parse_reason line err)))
      lumen_resort (disk_of (lf_dir s) (lf_wal s)) = (Inr (m, lf_wal s, dir'), [])"
    "hm_get m = hm_get (lf_per_tenant s)"
    "durable_as ts fs fr (\<lambda>snap. Inr (lumen_load_snapshot snap) :: log_store_error + _) []
       lumen_live_record lumen_resort hm_get dir' (lf_wal s) (hm_get m)"
    by blast
  then have op: "lumen_open_with_fsync_backend fs fr (disk_of (lf_dir s) (lf_wal s)) =
      (Inr \<lparr>lf_per_tenant = m, lf_wal = lf_wal s, lf_dir = dir', lf_events = []\<rparr>, [])"
    by (simp add: lumen_open_with_fsync_backend_def)
  with o lumen_open_ordered [OF op] show ?thesis
    by (simp add: lumen_durable_def)
qed

lemma lumen_durable_crash:
  assumes "lumen_durable ts fs fr s" and "lumen_ingest ts env t b s = (res, s1)" and "records b \<noteq> []"
    and "serde_ok ts fs (LumenWalIngest t (records b))"
    and "torn_unparsable (line_of ts) fs (LumenWalIngest t (records b))"
    and "crash_image (lf_wal s1) f"
  shows "\<exists>s' ws. lumen_open_with_fsync_backend fs fr (disk_of (lf_dir s1) (open_writer f (length f))) = (Inr s', ws) \<and>
    (hm_get (lf_per_tenant s') = hm_get (lf_per_tenant s) \<or>
     hm_get (lf_per_tenant s') = hm_get (lumen_extend_sorted t (records b) (lf_per_tenant s))) \<and>
    ((\<exists>rc. res = Inr rc) \<longrightarrow> ws = [] \<and>
     hm_get (lf_per_tenant s') = hm_get (lumen_extend_sorted t (records b) (lf_per_tenant s)))"
proof -
  obtain ares w where a: "append_wal ts lumen_parse lumen_io env (LumenWalIngest t (records b)) (lf_wal s) = (ares, w)"
    by fastforce
  with assms(2,3) have w: "lf_wal s1 = w" "lf_dir s1 = lf_dir s" "(\<exists>rc. res = Inr rc) \<longrightarrow> ares = Inr ()"
    by (auto simp: lumen_ingest_def lumen_append_wal_def Let_def split: sum.splits)
  from lumen_pillar.durable_crash [OF assms(1) [unfolded lumen_durable_def] a assms(6) [unfolded w(1)] assms(4,5),
      of lumen_io lumen_parse "''lumen''" "\<lambda>line err. LumenPersistenceFailed (wal_parse_reason line err)"]
  obtain m w1 dir' ws where o: "pillar_open lumen_io lumen_parse fr (\<lambda>snap. Inr (lumen_load_snapshot snap)) []
      (replay_wal_tolerating_torn_tail fs ''lumen'' (total_apply lumen_replay_record)
        (\<lambda>line err. LumenPersistenceFailed (wal_parse_reason line err)))
      lumen_resort (disk_of (lf_dir s) (open_writer f (length f))) = (Inr (m, w1, dir'), ws)"
    and m: "hm_get m = hm_get (lf_per_tenant s) \<or>
      hm_get m = hm_get (lumen_live_record (LumenWalIngest t (records b)) (lf_per_tenant s))"
    "ares = Inr () \<longrightarrow> hm_get m = hm_get (lumen_live_record (LumenWalIngest t (records b)) (lf_per_tenant s)) \<and> ws = []"
    by blast
  from o have "lumen_open_with_fsync_backend fs fr (disk_of (lf_dir s1) (open_writer f (length f))) =
      (Inr \<lparr>lf_per_tenant = m, lf_wal = w1, lf_dir = dir', lf_events = []\<rparr>, ws)"
    by (simp add: lumen_open_with_fsync_backend_def w(2))
  with m w(3) show ?thesis
    by simp
qed

section \<open>Histories\<close>

text \<open>
  The states a process reaches from an empty directory through acknowledged ingests, queries,
  successful snapshots and restarts, with the batches acknowledged so far.
\<close>

inductive lumen_history ::
  "(lumen_wal_record \<Rightarrow> string + string) \<Rightarrow> (string \<Rightarrow> string + lumen_wal_record) \<Rightarrow>
   (lumen_snapshot_doc \<Rightarrow> (string \<times> string) + string) \<Rightarrow> (string \<Rightarrow> string + lumen_snapshot_doc) \<Rightarrow>
   lumen_file \<Rightarrow> (tenant_id \<times> log_record list) list \<Rightarrow> bool"
  for ts fs tw fr where
  created: "lumen_open_with_fsync_backend fs fr
      \<lparr>sd_snapshot = Absent, sd_wal = Absent, sd_append_error = None\<rparr> = (Inr s, ws) \<Longrightarrow>
    lumen_history ts fs tw fr s []"
| ingested: "lumen_history ts fs tw fr s acked \<Longrightarrow> lumen_ingest ts env t b s = (Inr rc, s') \<Longrightarrow>
    (records b \<noteq> [] \<Longrightarrow> serde_ok ts fs (LumenWalIngest t (records b))) \<Longrightarrow>
    lumen_history ts fs tw fr s' (acked @ [(t, records b)])"
| queried: "lumen_history ts fs tw fr s acked \<Longrightarrow> lumen_history ts fs tw fr (snd (lumen_query t rng s)) acked"
| queried_with: "lumen_history ts fs tw fr s acked \<Longrightarrow>
    lumen_history ts fs tw fr (snd (lumen_query_with t rng p s)) acked"
| snapshotted: "lumen_history ts fs tw fr s acked \<Longrightarrow>
    lumen_snapshot tw env (real_fsync_file None) s = (Inr (), s') \<Longrightarrow>
    tw (lf_per_tenant s) = Inr data \<Longrightarrow> fr data = Inr (lf_per_tenant s) \<Longrightarrow>
    lumen_history ts fs tw fr s' acked"
| restarted: "lumen_history ts fs tw fr s acked \<Longrightarrow>
    lumen_open_with_fsync_backend fs fr (disk_of (lf_dir s) (lf_wal s)) = (Inr s', ws) \<Longrightarrow>
    lumen_history ts fs tw fr s' acked"

lemma records_of_append [simp]: "records_of t (xs @ ys) = records_of t xs @ records_of t ys"
  by (simp add: records_of_def)

lemma hm_get_or_cong: "hm_get m = hm_get m' \<Longrightarrow> hm_get_or d m = hm_get_or d m'"
  by (simp add: hm_get_or_def fun_eq_iff)

lemma lumen_history_inv:
  "lumen_history ts fs tw fr s acked \<Longrightarrow> lumen_durable ts fs fr s \<and> lumen_ordered s \<and>
   (\<forall>t. hm_get_or [] (lf_per_tenant s) t = sort_key observed_time_unix_nano (records_of t acked))"
proof (induction rule: lumen_history.induct)
  case (created s ws)
  from lumen_open_ordered [OF created] created show ?case
    by (auto simp: lumen_open_with_fsync_backend_def pillar_open_def lumen_durable_def durable_as_def snap_fs_of_def
        open_writer_def snapshot_base_def lumen_resort_def intro!: exI [of _ "[]"])
next
  case (ingested s acked env t b rc s')
  then have "lumen_durable ts fs fr s'"
    using lumen_durable_ingest by blast
  moreover have "(case (ts, env) of (ts, env) \<Rightarrow> lumen_ingest ts env) t b s = (Inr rc, s')"
    using ingested.hyps(2) by simp
  from lumen_file.ingest_acked [OF _ this] ingested.IH
  have "lumen_ordered s' \<and> hm_get_or [] (lf_per_tenant s') = (hm_get_or [] (lf_per_tenant s))
      (t := sort_key observed_time_unix_nano (hm_get_or [] (lf_per_tenant s) t @ records b))"
    by simp
  ultimately show ?case
    using ingested.IH by (simp add: sort_key_append_sorted_left)
next
  case (queried s acked t rng)
  then show ?case
    using lumen_durable_query(1) [of ts fs fr s t rng] lumen_file.query_result [of t rng s] by auto
next
  case (queried_with s acked t rng p)
  then show ?case
    using lumen_durable_query(2) [of ts fs fr s t rng p] lumen_file.query_with_result [of t rng p s] by auto
next
  case (snapshotted s acked env s' data)
  then show ?case
    using lumen_durable_snapshot [of s tw env "real_fsync_file None" s' data fr ts fs] real_fsync.honest
    by (auto simp: lumen_ordered_def)
next
  case (restarted s acked s' ws)
  then obtain "lumen_durable ts fs fr s'" "lumen_ordered s'" "hm_get (lf_per_tenant s') = hm_get (lf_per_tenant s)"
    using lumen_durable_reopen [of ts fs fr s] by auto
  with restarted.IH hm_get_or_cong [of "lf_per_tenant s'" "lf_per_tenant s" "[]"] show ?case
    by simp
qed

text \<open>The answer the port promises for a list of acknowledged batches.\<close>

definition lumen_answer ::
  "(tenant_id \<times> log_record list) list \<Rightarrow> tenant_id \<Rightarrow> time_range \<Rightarrow> lumen_predicate \<Rightarrow> log_record list" where
  "lumen_answer acked t rng p =
     filter (\<lambda>r. range_contains rng (observed_time_unix_nano r) \<and> lumen_matches p r)
       (sort_key observed_time_unix_nano (records_of t acked))"

lemma lumen_query_with_contents:
  "fst (lumen_query_with t rng p s) =
     Inr (filter (\<lambda>r. range_contains rng (observed_time_unix_nano r) \<and> lumen_matches p r)
       (hm_get_or [] (lf_per_tenant s) t))"
  using lumen_file.query_with_result [of t rng p s] by auto

lemma lumen_answers:
  "(\<And>t. hm_get_or [] (lf_per_tenant s) t = sort_key observed_time_unix_nano (records_of t acked)) \<Longrightarrow>
   \<forall>t rng p. fst (lumen_query_with t rng p s) = Inr (lumen_answer acked t rng p)"
  by (simp add: lumen_query_with_contents lumen_answer_def)

text \<open>
  C2. A restart loses nothing and invents nothing: after any history of acknowledged operations,
  reopening the files succeeds without a warning, and every query of every tenant is answered with
  exactly the acknowledged records that match, in time order and in ingest order among equal times.
\<close>

theorem lumen_restart_exact:
  assumes "lumen_history ts fs tw fr s acked"
  shows "\<exists>s'. lumen_open_with_fsync_backend fs fr (disk_of (lf_dir s) (lf_wal s)) = (Inr s', []) \<and>
    (\<forall>t rng p. fst (lumen_query_with t rng p s') = Inr (lumen_answer acked t rng p))"
proof -
  note inv = lumen_history_inv [OF assms]
  then obtain s' where o: "lumen_open_with_fsync_backend fs fr (disk_of (lf_dir s) (lf_wal s)) = (Inr s', [])"
    using lumen_durable_reopen by blast
  from lumen_history_inv [OF lumen_history.restarted [OF assms o]] o show ?thesis
    by (auto simp: lumen_query_with_contents lumen_answer_def)
qed

text \<open>
  C1. A crash in the middle of an ingest: whatever part of the unsynced bytes reached the disk,
  reopening succeeds and answers every query either as if the batch had never been sent or as if
  it had been ingested whole; an acknowledged batch is always there. The truncation of the log by an
  earlier snapshot counts as on the disk, although the store does not sync it: what a log that comes back
  does is \<open>lumen_snapshot_without_truncation_duplicates\<close>.
\<close>

theorem lumen_crash_atomic:
  assumes "lumen_history ts fs tw fr s acked" and "lumen_ingest ts env t b s = (res, s1)" and "records b \<noteq> []"
    and "serde_ok ts fs (LumenWalIngest t (records b))"
    and "torn_unparsable (line_of ts) fs (LumenWalIngest t (records b))"
    and "crash_image (lf_wal s1) f"
  shows "\<exists>s' ws. lumen_open_with_fsync_backend fs fr (disk_of (lf_dir s1) (open_writer f (length f))) = (Inr s', ws) \<and>
    ((\<forall>t' rng p. fst (lumen_query_with t' rng p s') = Inr (lumen_answer acked t' rng p)) \<and> isl res \<or>
     (\<forall>t' rng p. fst (lumen_query_with t' rng p s') = Inr (lumen_answer (acked @ [(t, records b)]) t' rng p)))"
proof -
  have inv: "lumen_durable ts fs fr s"
    and c: "\<And>t. hm_get_or [] (lf_per_tenant s) t = sort_key observed_time_unix_nano (records_of t acked)"
    using lumen_history_inv [OF assms(1)] by auto
  from lumen_durable_crash [OF inv assms(2-6)] obtain s' ws
    where o: "lumen_open_with_fsync_backend fs fr (disk_of (lf_dir s1) (open_writer f (length f))) = (Inr s', ws)"
    and d: "hm_get (lf_per_tenant s') = hm_get (lf_per_tenant s) \<and> isl res \<or>
      hm_get (lf_per_tenant s') = hm_get (lumen_extend_sorted t (records b) (lf_per_tenant s))"
    by (cases res) auto
  have "?thesis" if "hm_get (lf_per_tenant s') = hm_get (lf_per_tenant s)" "isl res"
    using o that(2) lumen_answers [of s' acked, unfolded hm_get_or_cong [OF that(1)], OF c] by blast
  moreover have "?thesis" if "hm_get (lf_per_tenant s') = hm_get (lumen_extend_sorted t (records b) (lf_per_tenant s))"
  proof -
    have "hm_get_or [] (lf_per_tenant s') t' = sort_key observed_time_unix_nano (records_of t' (acked @ [(t, records b)]))" for t'
      using c by (simp add: hm_get_or_cong [OF that] hm_simps sort_key_append_sorted_left)
    from lumen_answers [OF this] o show ?thesis
      by blast
  qed
  ultimately show ?thesis
    using d by blast
qed

section \<open>Where recovery falls short\<close>

text \<open>
  C3. The torn tail that recovery drops stays in the file, and the log is reopened for appending:
  the next acknowledged ingest is written onto the torn bytes, the two together end in a line
  feed, and the open after that refuses the whole store, however many intact records precede.
\<close>

theorem lumen_append_after_torn_tail_refused:
  assumes "codec_ok (line_of ts) fs rs" and "torn \<noteq> []" and "newline \<notin> set torn"
    and "fs (from_utf8_lossy torn) = Inl j0"
    and "disk = \<lparr>sd_snapshot = Absent,
           sd_wal = Present \<lparr>df_bytes = wal_image (line_of ts) rs @ torn, df_synced = n\<rparr>, sd_append_error = None\<rparr>"
    and "records b \<noteq> []" and "serde_ok ts fs (LumenWalIngest t (records b))"
    and "fs (from_utf8_lossy (torn @ line_of ts (LumenWalIngest t (records b)))) = Inl j"
    and "lumen_open_with_fsync_backend fs fr disk = (Inr s, ws)"
    and "lumen_ingest ts env t b s = (Inr rc, s')"
  shows "ws = [TornTailDropped ''lumen'' (length rs + 1) (length (from_utf8_lossy torn))] \<and>
    lumen_open_with_fsync_backend fs fr (disk_of (lf_dir s') (lf_wal s')) =
      (Inl (LumenPersistenceFailed (wal_parse_reason (length rs + 1) j)), [])"
proof -
  let ?r = "LumenWalIngest t (records b)" and ?pe = "\<lambda>line err. LumenPersistenceFailed (wal_parse_reason line err)"
  let ?img = "wal_image (line_of ts)"
  have replay: "replay_wal_tolerating_torn_tail fs ''lumen'' (total_apply lumen_replay_record) ?pe (?img rs @ torn) []
      = (Inr (), fold lumen_replay_record rs [], [TornTailDropped ''lumen'' (length rs + 1) (length (from_utf8_lossy torn))])"
    by (rule replay_torn_tail [OF assms(1) _ assms(2,3,4)]) simp
  with assms(5,9) have ws: "ws = [TornTailDropped ''lumen'' (length rs + 1) (length (from_utf8_lossy torn))]"
    and s: "lf_wal s = open_writer (?img rs @ torn) n" "sf_canonical (lf_dir s) = None"
    by (auto simp: lumen_open_with_fsync_backend_def pillar_open_def snap_fs_of_def)
  from lumen_ingest_acked [OF assms(10)] assms(6)
  have a: "append_wal ts lumen_parse lumen_io env ?r (lf_wal s) = (Inr (), lf_wal s')"
    and d: "lf_dir s' = lf_dir s"
    by (simp_all add: lumen_append_wal_def)
  have "wr_file (lf_wal s') = ?img rs @ (torn @ line_of ts ?r) @ newline # []"
    using append_wal_acked [OF a] serde_ok_line [OF assms(7)] s by (auto simp: wr_stream_def open_writer_def)
  moreover have "newline \<notin> set (torn @ line_of ts ?r)"
    using assms(3,7) by (simp add: serde_ok_def)
  from replay_corruption_refused [OF assms(1) _ _ this assms(8), of "total_apply lumen_replay_record" "[]" _ "''lumen''" ?pe "[]"]
  have "replay_wal_tolerating_torn_tail fs ''lumen'' (total_apply lumen_replay_record) ?pe
      (?img rs @ (torn @ line_of ts ?r) @ newline # []) [] =
      (Inl (?pe (length rs + 1) j), fold lumen_replay_record rs [], [])"
    using assms(2) by simp
  ultimately show ?thesis
    using ws s(2) d by (simp add: lumen_open_with_fsync_backend_def pillar_open_def disk_of_def)
qed

lemma fold_live_contents:
  "sorted (map observed_time_unix_nano (hm_get_or [] m t)) \<Longrightarrow>
   hm_get_or [] (fold lumen_live_record rs m) t = sort_key observed_time_unix_nano
     (hm_get_or [] m t @ records_of t (map (\<lambda>r. case r of LumenWalIngest t b \<Rightarrow> (t, b)) rs))"
proof (induction rs arbitrary: m)
  case (Cons r rs)
  obtain t' b where r: "r = LumenWalIngest t' b"
    by (cases r)
  show ?case
    using Cons.prems Cons.IH [of "lumen_live_record r m"]
    by (simp add: r hm_simps sort_key_append_sorted_left)
qed (simp add: sort_key_id_if_sorted)

text \<open>
  The snapshot replaces the snapshot file before it truncates the log. When the process stops
  in between (or the truncation fails), the next open loads the snapshot and then replays onto it
  the log whose records the snapshot already contains: every record acknowledged so far is
  answered twice.
\<close>

theorem lumen_snapshot_without_truncation_duplicates:
  assumes "lumen_history ts fs tw fr s acked" and "sf_canonical (lf_dir s) = None"
    and "tw (lf_per_tenant s) = Inr data" and "fr data = Inr (lf_per_tenant s)"
    and "lumen_snapshot tw env (real_fsync_file None) s = (Inl e, s1)"
    and "si_truncate_error env = Some trunc" and "sf_canonical (lf_dir s1) \<noteq> None"
  shows "\<exists>s'. lumen_open_with_fsync_backend fs fr (disk_of (lf_dir s1) (lf_wal s1)) = (Inr s', []) \<and>
    (\<forall>t rng p. fst (lumen_query_with t rng p s') = Inr (lumen_answer (acked @ acked) t rng p))"
proof -
  have dur: "lumen_durable ts fs fr s" and ord: "lumen_ordered s"
    and c: "\<And>t. hm_get_or [] (lf_per_tenant s) t = sort_key observed_time_unix_nano (records_of t acked)"
    using lumen_history_inv [OF assms(1)] by auto
  let ?m = "lf_per_tenant s" and ?recs = "map (\<lambda>r. case r of LumenWalIngest t b \<Rightarrow> (t, b))"
  from dur assms(2) obtain rs where rs: "list_all (serde_ok ts fs) rs" "wr_file (lf_wal s) = wal_image (line_of ts) rs"
    "hm_get (fold lumen_live_record rs []) = hm_get ?m" and buf: "wr_buf (lf_wal s) = []"
    by (auto simp: lumen_durable_def durable_as_def snapshot_base_def lumen_resort_def)
  obtain e' trace where t: "pillar_snapshot env (real_fsync_file None) (Inr data) (lf_dir s) (lf_wal s) = (Inl e', trace)"
    and s1: "lf_dir s1 = fst (last trace)" "lf_wal s1 = snd (last trace)"
    using assms(3,5)
    by (cases "fst (pillar_snapshot env (real_fsync_file None) (Inr data) (lf_dir s) (lf_wal s))")
      (auto simp: lumen_snapshot_def split: prod.splits)
  then obtain f where f: "sf_canonical (lf_dir s1) = Some f" "df_bytes f = data" "wr_file (lf_wal s1) = wr_file (lf_wal s)"
    using pillar_snapshot_untruncated [OF t real_fsync.honest assms(2) _ buf] assms(7) by auto
  have "hm_wf ?m \<and> buckets_sorted ?m"
    using ord by (simp add: lumen_ordered_def)
  from lumen_pillar.reopen_untruncated [where from_reader = fr and data = data, OF this assms(4) f(1,2) rs(1) f(3) [unfolded rs(2)], of lumen_io lumen_parse
      "[]" "''lumen''" "\<lambda>line err. LumenPersistenceFailed (wal_parse_reason line err)"]
  obtain s' where o: "lumen_open_with_fsync_backend fs fr (disk_of (lf_dir s1) (lf_wal s1)) = (Inr s', [])"
    and v: "hm_get (lf_per_tenant s') = hm_get (fold lumen_live_record rs ?m)"
    by (auto simp: lumen_open_with_fsync_backend_def)
  have "hm_get_or [] (lf_per_tenant s') t = sort_key observed_time_unix_nano (records_of t (acked @ acked))" for t
  proof -
    have "sort_key observed_time_unix_nano (records_of t (?recs rs)) = sort_key observed_time_unix_nano (records_of t acked)"
      using fold_live_contents [of "[]" t rs] hm_get_or_cong [OF rs(3)] c by simp
    with hm_get_or_cong [OF v] fold_live_contents [of ?m t rs] c show ?thesis
      by (simp add: sort_key_append_sorted_left)
        (metis sort_key_append_sorted_left sort_key_append_sorted_right)
  qed
  with o show ?thesis
    using lumen_answers by blast
qed

section \<open>A concrete store\<close>

text \<open>
  A serialiser that knows one record, as two bytes, and a snapshot of it; a store created in an
  empty directory, and the same store after it has ingested the record.
\<close>

definition ex_rec :: log_record where
  "ex_rec = \<lparr>observed_time_unix_nano = 7, severity_number = SEV_INFO, severity_text = ''INFO'', body = ''hello'',
     attributes = [], resource_attributes = [(''service.name'', ''api'')], trace_id = None, span_id = None\<rparr>"

definition ex_line :: string where "ex_line = ''ab''"

definition ex_to_string :: "lumen_wal_record \<Rightarrow> string + string" where
  "ex_to_string r = (if r = LumenWalIngest ''t'' [ex_rec] then Inr ex_line else Inl ''unsupported'')"

definition ex_from_str :: "string \<Rightarrow> string + lumen_wal_record" where
  "ex_from_str l = (if l = ex_line then Inr (LumenWalIngest ''t'' [ex_rec]) else Inl ''expected value'')"

definition ex_to_writer :: "lumen_snapshot_doc \<Rightarrow> (string \<times> string) + string" where
  "ex_to_writer doc = (if doc = [(''t'', [ex_rec])] then Inr ''s'' else Inl (''unsupported'', []))"

definition ex_from_reader :: "string \<Rightarrow> string + lumen_snapshot_doc" where
  "ex_from_reader b = (if b = ''s'' then Inr [(''t'', [ex_rec])] else Inl ''expected value'')"

definition ex_io :: append_io where
  "ex_io = \<lparr>io_room = 100, io_write_error = ''No space left on device'', io_fsync_error = None\<rparr>"

definition ex_batch :: log_batch where "ex_batch = \<lparr>records = [ex_rec]\<rparr>"

definition ex_store :: "string \<Rightarrow> lumen_buckets \<Rightarrow> lumen_event list \<Rightarrow> lumen_file" where
  "ex_store f m ev = \<lparr>lf_per_tenant = m, lf_wal = \<lparr>wr_file = f, wr_buf = [], wr_synced = length f\<rparr>,
     lf_dir = \<lparr>sf_canonical = None, sf_tmp = None, sf_undo = None\<rparr>, lf_events = ev\<rparr>"

definition ex_snapshot_io :: snapshot_io where
  "ex_snapshot_io = \<lparr>si_flush_room = 100, si_flush_error = [], si_snap = \<lparr>sn_open_error = None, sn_room = 100,
     sn_write_error = [], sn_rename_error = None, sn_dir_error = None\<rparr>, si_truncate_error = Some ''Permission denied''\<rparr>"

lemmas ex_defs = ex_to_string_def ex_from_str_def ex_to_writer_def ex_from_reader_def ex_io_def ex_batch_def
  ex_store_def ex_snapshot_io_def ex_line_def

lemma ex_serde:
  "serde_ok ex_to_string ex_from_str (LumenWalIngest ''t'' [ex_rec])"
  "torn_unparsable (line_of ex_to_string) ex_from_str (LumenWalIngest ''t'' [ex_rec])"
  "line_of ex_to_string (LumenWalIngest ''t'' [ex_rec]) = ex_line"
  by (simp add: serde_ok_def line_of_def ex_defs) (code_simp, simp_all add: line_of_def ex_defs, code_simp)

lemma ex_ingest:
  "lumen_ingest ex_to_string ex_io ''t'' ex_batch (ex_store f [] []) =
     (Inr \<lparr>count = 1\<rparr>, ex_store (f @ ex_line @ [newline]) [(''t'', [ex_rec])] [LumenIngest ''t'' 1])"
  by (simp add: lumen_ingest_def lumen_append_wal_def append_wal_succeeds [of _ _ ex_line] ex_defs
      lumen_extend_sorted_def Let_def)

lemma ex_created: "lumen_history ex_to_string ex_from_str ex_to_writer ex_from_reader (ex_store [] [] []) []"
  by (rule lumen_history.created [of _ _ _ "[]"])
    (simp add: lumen_open_with_fsync_backend_def pillar_open_def open_writer_def snap_fs_of_def lumen_resort_def ex_store_def)

lemma ex_history:
  "lumen_history ex_to_string ex_from_str ex_to_writer ex_from_reader
     (ex_store (ex_line @ [newline]) [(''t'', [ex_rec])] [LumenIngest ''t'' 1]) [(''t'', [ex_rec])]"
  using lumen_history.ingested [OF ex_created ex_ingest] ex_serde(1) by (simp add: ex_batch_def)

lemma ex_answer:
  "lumen_answer [(''t'', [ex_rec])] ''t'' time_range_all lumen_predicate_new = [ex_rec]"
  "lumen_answer [(''t'', [ex_rec]), (''t'', [ex_rec])] ''t'' time_range_all lumen_predicate_new = [ex_rec, ex_rec]"
  by (simp_all add: lumen_answer_def time_range_all_def range_contains_def lumen_predicate_new_def lumen_matches_def
      ex_rec_def)

theorem lumen_restart_exact_witness:
  "\<exists>s'. lumen_open_with_fsync_backend ex_from_str ex_from_reader
      (disk_of \<lparr>sf_canonical = None, sf_tmp = None, sf_undo = None\<rparr>
         \<lparr>wr_file = ''ab'' @ [newline], wr_buf = [], wr_synced = 3\<rparr>) = (Inr s', []) \<and>
    fst (lumen_query_with ''t'' time_range_all lumen_predicate_new s') = Inr [ex_rec]"
  using lumen_restart_exact [OF ex_history] ex_answer(1) by (auto simp: ex_store_def ex_line_def numeral_3_eq_3)

theorem lumen_crash_atomic_witness:
  "\<exists>s' ws. lumen_open_with_fsync_backend ex_from_str ex_from_reader
      (disk_of \<lparr>sf_canonical = None, sf_tmp = None, sf_undo = None\<rparr> (open_writer ''ab\<newline>'' 3)) = (Inr s', ws) \<and>
    fst (lumen_query_with ''t'' time_range_all lumen_predicate_new s') = Inr [ex_rec]"
  using lumen_crash_atomic [OF ex_created ex_ingest, of "''ab'' @ [newline]"] ex_answer(1) ex_serde
  by (auto simp: ex_batch_def ex_store_def ex_line_def crash_image_def numeral_3_eq_3)

theorem lumen_append_after_torn_tail_refused_witness:
  "snd (lumen_open_with_fsync_backend ex_from_str ex_from_reader
      \<lparr>sd_snapshot = Absent, sd_wal = Present \<lparr>df_bytes = ''a'', df_synced = 1\<rparr>, sd_append_error = None\<rparr>) =
      [TornTailDropped ''lumen'' 1 1] \<and>
   lumen_open_with_fsync_backend ex_from_str ex_from_reader
      (disk_of \<lparr>sf_canonical = None, sf_tmp = None, sf_undo = None\<rparr>
         \<lparr>wr_file = ''aab'' @ [newline], wr_buf = [], wr_synced = 4\<rparr>) =
      (Inl (LumenPersistenceFailed (wal_parse_reason 1 ''expected value'')), [])"
proof -
  have o: "lumen_open_with_fsync_backend ex_from_str ex_from_reader \<lparr>sd_snapshot = Absent,
      sd_wal = Present \<lparr>df_bytes = wal_image (line_of ex_to_string) [] @ ''a'', df_synced = 1\<rparr>, sd_append_error = None\<rparr>
    = (Inr (ex_store ''a'' [] []), [TornTailDropped ''lumen'' 1 1])"
    by code_simp
  have *: "ex_from_str (from_utf8_lossy ''a'') = Inl ''expected value''"
    "ex_from_str (from_utf8_lossy (''a'' @ line_of ex_to_string (LumenWalIngest ''t'' (records ex_batch)))) = Inl ''expected value''"
    by code_simp+
  have [simp]: "from_utf8_lossy ''a'' = ''a''"
    by code_simp
  show ?thesis
    using lumen_append_after_torn_tail_refused [OF _ _ _ *(1) refl _ _ *(2) o ex_ingest] ex_serde(1) o
    by (simp add: ex_batch_def ex_store_def ex_line_def eval_nat_numeral)
qed

theorem lumen_snapshot_without_truncation_duplicates_witness:
  "\<exists>s'. lumen_open_with_fsync_backend ex_from_str ex_from_reader
      (disk_of \<lparr>sf_canonical = Some \<lparr>df_bytes = ''s'', df_synced = 1\<rparr>, sf_tmp = None, sf_undo = None\<rparr>
         \<lparr>wr_file = ''ab'' @ [newline], wr_buf = [], wr_synced = 3\<rparr>) = (Inr s', []) \<and>
    fst (lumen_query_with ''t'' time_range_all lumen_predicate_new s') = Inr [ex_rec, ex_rec]"
proof -
  have "lumen_snapshot ex_to_writer ex_snapshot_io (real_fsync_file None)
      (ex_store (ex_line @ [newline]) [(''t'', [ex_rec])] [LumenIngest ''t'' 1]) =
    (Inl (lumen_io ''Permission denied''), (ex_store (ex_line @ [newline]) [(''t'', [ex_rec])] [LumenIngest ''t'' 1])
       \<lparr>lf_dir := \<lparr>sf_canonical = Some \<lparr>df_bytes = ''s'', df_synced = 1\<rparr>, sf_tmp = None, sf_undo = None\<rparr>\<rparr>)"
    by (simp add: lumen_snapshot_def pillar_snapshot_def atomic_write_snapshot_def flush_buf_def file_write_all_def
        real_fsync_file_def ex_defs Let_def)
  from lumen_snapshot_without_truncation_duplicates [where data = "''s''" and trunc = "''Permission denied''", OF ex_history _ _ _ this] ex_answer(2) show ?thesis
    by (auto simp: ex_defs numeral_3_eq_3)
qed

end
