(* ===== verification/Ray_Theorems.thy ===== *)
theory Ray_Theorems
  imports Ray_Store
begin

text \<open>
  Correctness of Ray: what an ingest does to each bucket of the two indices, the invariant that the
  indices never drift apart, and the contract of the file-backed adapter with its log and snapshot.
\<close>

section \<open>Buckets\<close>

abbreviation by_start :: "span list \<Rightarrow> span list" where
  "by_start \<equiv> sort_key sp_start_time_unix_nano"

lemma hm_get_or_push [simp]:
  "hm_get_or [] (bucket_push k s m) k' = hm_get_or [] m k' @ (if k' = k then [s] else [])"
  by (simp add: bucket_push_def)

lemma hm_get_or_bucket_sort [simp]:
  "hm_get_or [] (bucket_sort k m) k' = (if k' = k then by_start (hm_get_or [] m k) else hm_get_or [] m k')"
  by (auto simp: bucket_sort_def hm_get_or_def split: option.split)

lemma by_start_idem [simp]: "by_start (by_start xs) = by_start xs"
  by (simp add: sort_key_id_if_sorted)

lemma hm_get_or_sort_buckets:
  "hm_get_or [] (fold (\<lambda>x. bucket_sort (f x)) xs m) k = (if k \<in> f ` set xs then by_start (hm_get_or [] m k) else hm_get_or [] m k)"
  by (induction xs arbitrary: m) auto

lemma hm_get_or_sort_all [simp]: "hm_get_or [] (buckets_sort_all m) k = by_start (hm_get_or [] m k)"
  by (simp add: buckets_sort_all_def hm_get_or_def hm_get_map_entries split: option.split)

lemma hm_wf_push [simp, intro]: "hm_wf m \<Longrightarrow> hm_wf (bucket_push k s m)"
  by (simp add: bucket_push_def)

lemma hm_wf_bucket_sort [simp, intro]: "hm_wf m \<Longrightarrow> hm_wf (bucket_sort k m)"
  by (simp add: bucket_sort_def split: option.split)

lemma hm_wf_sort_buckets: "hm_wf m \<Longrightarrow> hm_wf (fold (\<lambda>x. bucket_sort (f x)) xs m)"
  by (induction xs arbitrary: m) auto

text \<open>The values stored under the keys that satisfy a condition, and what replacing one of them does.\<close>

definition values_where :: "('k \<Rightarrow> bool) \<Rightarrow> ('k, 'v list) hash_map \<Rightarrow> 'v list" where
  "values_where P m = concat (map snd (filter (\<lambda>e. P (fst e)) m))"

lemma values_where_insert:
  "hm_wf m \<Longrightarrow> mset (values_where P (hm_insert k v m)) + (if P k then mset (hm_get_or [] m k) else {#}) =
     mset (values_where P m) + (if P k then mset v else {#})"
proof (induction m)
  case (Cons e m)
  obtain k' v' where e: "e = (k', v')"
    by (cases e)
  show ?case
    using Cons hm_wf_ConsD [of k' v' m] by (auto simp: e values_where_def hm_get_or_def)
qed (simp add: values_where_def)

lemma values_where_push:
  "hm_wf m \<Longrightarrow> mset (values_where P (bucket_push k s m)) = mset (values_where P m) + (if P k then {#s#} else {#})"
  using values_where_insert [of m P k "hm_get_or [] m k @ [s]"] by (auto simp: bucket_push_def)

lemma values_where_bucket_sort:
  "hm_wf m \<Longrightarrow> mset (values_where P (bucket_sort k m)) = mset (values_where P m)"
  using values_where_insert [of m P k "by_start (hm_get_or [] m k)"]
  by (auto simp: bucket_sort_def hm_get_or_def split: option.splits if_splits)

lemma values_where_sort_buckets:
  "hm_wf m \<Longrightarrow> mset (values_where P (fold (\<lambda>x. bucket_sort (f x)) xs m)) = mset (values_where P m)"
  by (induction xs arbitrary: m) (auto simp: values_where_bucket_sort)

lemma values_where_sort_all: "mset (values_where P (buckets_sort_all m)) = mset (values_where P m)"
  by (induction m) (auto simp: values_where_def buckets_sort_all_def)

section \<open>Ingest\<close>

lemma apply_spans:
  assumes "fold (ray_apply_span t) spans (idx, touched) = (idx', touched')"
  shows "hm_get_or [] (ri_by_trace idx') (t', tid) =
      hm_get_or [] (ri_by_trace idx) (t', tid) @ (if t' = t then filter (\<lambda>s. sp_trace_id s = tid) spans else [])"
    and "hm_get_or [] (ri_by_service idx') (t', svc) = hm_get_or [] (ri_by_service idx) (t', svc) @
      (if t' = t \<and> svc \<noteq> [] then filter (\<lambda>s. span_service_name s = svc) spans else [])"
    and "set (rt_traces touched') = set (rt_traces touched) \<union> sp_trace_id ` set spans"
    and "set (rt_services touched') = set (rt_services touched) \<union> (span_service_name ` set spans - {[]})"
  using assms
  by (induction spans arbitrary: idx touched) (auto simp: ray_apply_span_def Let_def split: if_splits)

lemma apply_trace:
  "hm_get_or [] (ri_by_trace (fst (ray_apply_ingest t spans idx))) (t', tid) =
     hm_get_or [] (ri_by_trace idx) (t', tid) @ (if t' = t then filter (\<lambda>s. sp_trace_id s = tid) spans else [])"
  unfolding ray_apply_ingest_def by (rule apply_spans(1)) (rule prod.collapse [symmetric])

lemma apply_service:
  "hm_get_or [] (ri_by_service (fst (ray_apply_ingest t spans idx))) (t', svc) =
     hm_get_or [] (ri_by_service idx) (t', svc) @
       (if t' = t \<and> svc \<noteq> [] then filter (\<lambda>s. span_service_name s = svc) spans else [])"
  unfolding ray_apply_ingest_def by (rule apply_spans(2)) (rule prod.collapse [symmetric])

lemma touched_sets:
  "set (rt_traces (snd (ray_apply_ingest t spans idx))) = sp_trace_id ` set spans"
  "set (rt_services (snd (ray_apply_ingest t spans idx))) = span_service_name ` set spans - {[]}"
  using apply_spans(3,4) [OF prod.collapse [symmetric], of t spans idx "\<lparr>rt_traces = [], rt_services = []\<rparr>"]
  by (simp_all add: ray_apply_ingest_def)

lemma ingest_trace:
  "hm_get_or [] (ri_by_trace (ray_ingest_indices t spans idx)) (t', tid) =
     (if t' = t \<and> tid \<in> sp_trace_id ` set spans
      then by_start (hm_get_or [] (ri_by_trace idx) (t, tid) @ filter (\<lambda>s. sp_trace_id s = tid) spans)
      else hm_get_or [] (ri_by_trace idx) (t', tid))"
proof -
  have "filter (\<lambda>s. sp_trace_id s = tid) spans = []" if "tid \<notin> sp_trace_id ` set spans"
    using that by (auto simp: filter_empty_conv)
  then show ?thesis
    by (auto simp: ray_ingest_indices_def ray_sort_touched_def split_def hm_get_or_sort_buckets apply_trace touched_sets)
qed

lemma ingest_service:
  "hm_get_or [] (ri_by_service (ray_ingest_indices t spans idx)) (t', svc) =
     (if t' = t \<and> svc \<noteq> [] \<and> svc \<in> span_service_name ` set spans
      then by_start (hm_get_or [] (ri_by_service idx) (t, svc) @ filter (\<lambda>s. span_service_name s = svc) spans)
      else hm_get_or [] (ri_by_service idx) (t', svc))"
proof -
  have "filter (\<lambda>s. span_service_name s = svc) spans = []" if "svc \<notin> span_service_name ` set spans"
    using that by (auto simp: filter_empty_conv)
  then show ?thesis
    by (auto simp: ray_ingest_indices_def ray_sort_touched_def split_def hm_get_or_sort_buckets apply_service touched_sets)
qed

text \<open>In sorted buckets an ingest is an insertion of the batch in start order.\<close>

lemma ingest_trace_sorted:
  assumes "sorted (map sp_start_time_unix_nano (hm_get_or [] (ri_by_trace idx) (t', tid)))"
  shows "hm_get_or [] (ri_by_trace (ray_ingest_indices t spans idx)) (t', tid) =
    by_start (hm_get_or [] (ri_by_trace idx) (t', tid) @ (if t' = t then filter (\<lambda>s. sp_trace_id s = tid) spans else []))"
proof (cases "tid \<in> sp_trace_id ` set spans")
  case False
  then have "filter (\<lambda>s. sp_trace_id s = tid) spans = []"
    by (auto simp: filter_empty_conv)
  with False assms show ?thesis
    by (auto simp: ingest_trace sort_key_id_if_sorted)
qed (use assms in \<open>simp add: ingest_trace sort_key_id_if_sorted\<close>)

lemma ingest_service_sorted:
  assumes "sorted (map sp_start_time_unix_nano (hm_get_or [] (ri_by_service idx) (t', svc)))"
  shows "hm_get_or [] (ri_by_service (ray_ingest_indices t spans idx)) (t', svc) =
    by_start (hm_get_or [] (ri_by_service idx) (t', svc) @
      (if t' = t \<and> svc \<noteq> [] then filter (\<lambda>s. span_service_name s = svc) spans else []))"
proof (cases "svc \<in> span_service_name ` set spans")
  case False
  then have "filter (\<lambda>s. span_service_name s = svc) spans = []"
    by (auto simp: filter_empty_conv)
  with False assms show ?thesis
    by (auto simp: ingest_service sort_key_id_if_sorted)
qed (use assms in \<open>simp add: ingest_service sort_key_id_if_sorted\<close>)

section \<open>The indices never drift apart\<close>

definition tenant_spans :: "ray_indices \<Rightarrow> tenant_id \<Rightarrow> span list" where
  "tenant_spans idx t = values_where (\<lambda>k. fst k = t) (ri_by_trace idx)"

definition no_drift :: "ray_indices \<Rightarrow> bool" where
  "no_drift idx =
     (\<forall>t svc. mset (hm_get_or [] (ri_by_service idx) (t, svc)) =
        (if svc = [] then {#} else filter_mset (\<lambda>s. span_service_name s = svc) (mset (tenant_spans idx t))))"

definition ray_base :: "ray_indices \<Rightarrow> bool" where
  "ray_base idx =
     (hm_wf (ri_by_trace idx) \<and> no_drift idx \<and>
      (\<forall>t tid. list_all (\<lambda>s. sp_trace_id s = tid) (hm_get_or [] (ri_by_trace idx) (t, tid))))"

definition ray_sorted :: "ray_indices \<Rightarrow> bool" where
  "ray_sorted idx =
     ((\<forall>k. sorted (map sp_start_time_unix_nano (hm_get_or [] (ri_by_trace idx) k))) \<and>
      (\<forall>k. sorted (map sp_start_time_unix_nano (hm_get_or [] (ri_by_service idx) k))))"

lemma tenant_spans_apply_span:
  assumes "hm_wf (ri_by_trace idx)"
  shows "mset (tenant_spans (fst (ray_apply_span t s (idx, touched))) t') =
    mset (tenant_spans idx t') + (if t' = t then {#s#} else {#})"
  using values_where_push [OF assms, of "\<lambda>k. fst k = t'" "(t, sp_trace_id s)" s]
  by (auto simp: tenant_spans_def ray_apply_span_def Let_def)

lemma base_apply_span:
  assumes "ray_base idx"
  shows "ray_base (fst (ray_apply_span t s (idx, touched)))"
proof -
  have wf: "hm_wf (ri_by_trace idx)"
    using assms by (simp add: ray_base_def)
  have "no_drift (fst (ray_apply_span t s (idx, touched)))"
    using assms unfolding no_drift_def tenant_spans_apply_span [OF wf]
    by (auto simp: ray_base_def no_drift_def ray_apply_span_def Let_def)
  moreover have "hm_wf (ri_by_trace (fst (ray_apply_span t s (idx, touched))))"
    using wf by (auto simp: ray_apply_span_def Let_def)
  moreover have "list_all (\<lambda>s. sp_trace_id s = tid) (hm_get_or [] (ri_by_trace (fst (ray_apply_span t s (idx, touched)))) (t', tid))"
    for t' tid
    using assms by (auto simp: ray_base_def ray_apply_span_def Let_def)
  ultimately show ?thesis
    by (simp add: ray_base_def)
qed

lemma base_apply: "ray_base idx \<Longrightarrow> ray_base (fst (ray_apply_ingest t spans idx))"
proof -
  have "ray_base idx \<Longrightarrow> ray_base (fst (fold (ray_apply_span t) spans (idx, touched)))" for idx touched
  proof (induction spans arbitrary: idx touched)
    case (Cons s spans)
    then show ?case
      using Cons.IH [of "fst (ray_apply_span t s (idx, touched))" "snd (ray_apply_span t s (idx, touched))"]
      by (simp add: base_apply_span)
  qed simp
  then show "ray_base idx \<Longrightarrow> ray_base (fst (ray_apply_ingest t spans idx))"
    by (simp add: ray_apply_ingest_def)
qed

lemma base_default: "ray_base ray_indices_default"
  by (simp add: ray_base_def no_drift_def tenant_spans_def values_where_def ray_indices_default_def)

text \<open>Reordering buckets keeps the invariant.\<close>

lemma ray_base_cong:
  assumes "ray_base idx" and "hm_wf (ri_by_trace idx')"
    and "\<And>k. mset (hm_get_or [] (ri_by_trace idx') k) = mset (hm_get_or [] (ri_by_trace idx) k)"
    and "\<And>k. mset (hm_get_or [] (ri_by_service idx') k) = mset (hm_get_or [] (ri_by_service idx) k)"
    and "\<And>t. mset (tenant_spans idx' t) = mset (tenant_spans idx t)"
  shows "ray_base idx'"
proof -
  have "set (hm_get_or [] (ri_by_trace idx') k) = set (hm_get_or [] (ri_by_trace idx) k)" for k
    using assms(3) mset_eq_setD by blast
  with assms show ?thesis
    by (simp add: ray_base_def no_drift_def list_all_iff)
qed

lemma base_sort_touched:
  assumes "ray_base idx"
  shows "ray_base (ray_sort_touched t touched idx)"
  using assms
  by (intro ray_base_cong [OF assms])
    (simp_all add: ray_base_def ray_sort_touched_def tenant_spans_def hm_wf_sort_buckets values_where_sort_buckets
      hm_get_or_sort_buckets)

lemma hm_wf_sort_all: "hm_wf m \<Longrightarrow> hm_wf (buckets_sort_all m)"
  by (simp add: buckets_sort_all_def hm_wf_map_entries)

lemma base_sort_all:
  assumes "ray_base idx"
  shows "ray_base (ray_sort_all idx)"
  using assms
  by (intro ray_base_cong [OF assms])
    (simp_all add: ray_base_def ray_sort_all_def tenant_spans_def values_where_sort_all hm_wf_sort_all)

lemma base_ingest: "ray_base idx \<Longrightarrow> ray_base (ray_ingest_indices t spans idx)"
  by (simp add: ray_ingest_indices_def split_def base_sort_touched base_apply)

lemma sorted_ingest: "ray_sorted idx \<Longrightarrow> ray_sorted (ray_ingest_indices t spans idx)"
  by (auto simp: ray_sorted_def ingest_trace ingest_service)

lemma sorted_sort_all: "ray_sorted (ray_sort_all idx)"
  by (simp add: ray_sorted_def ray_sort_all_def)

lemma base_load: "ray_base (ray_load_snapshot snap)"
proof -
  have "ray_base idx \<Longrightarrow> ray_base (fold (\<lambda>b idx. fst (ray_apply_ingest (tb_tenant b) (tb_spans b) idx)) snap idx)" for idx
    by (induction snap arbitrary: idx) (auto simp: base_apply)
  then show ?thesis
    by (simp add: ray_load_snapshot_def base_default)
qed

section \<open>The file-backed adapter is durable\<close>

fun ray_live_record :: "ray_wal_record \<Rightarrow> ray_indices \<Rightarrow> ray_indices" where
  "ray_live_record (RayWalIngest tenant spans) idx = ray_ingest_indices tenant spans idx"

text \<open>
  What recovery gives back: every bucket of the trace index as it was, and every bucket of the service
  index up to the order of its spans, since a snapshot has them grouped by trace.
\<close>

definition ray_view :: "ray_indices \<Rightarrow> (tenant_id \<times> ray_trace_id \<Rightarrow> span list) \<times> (tenant_id \<times> service_name \<Rightarrow> span multiset)" where
  "ray_view idx = (hm_get_or [] (ri_by_trace idx), \<lambda>k. mset (hm_get_or [] (ri_by_service idx) k))"

lemma ray_view_eqI:
  assumes "\<And>t tid. hm_get_or [] (ri_by_trace a) (t, tid) = hm_get_or [] (ri_by_trace b) (t, tid)"
    and "\<And>t svc. mset (hm_get_or [] (ri_by_service a) (t, svc)) = mset (hm_get_or [] (ri_by_service b) (t, svc))"
  shows "ray_view a = ray_view b"
  using assms by (auto simp: ray_view_def fun_eq_iff)

lemma ray_view_eqD:
  assumes "ray_view a = ray_view b"
  shows "hm_get_or [] (ri_by_trace a) k = hm_get_or [] (ri_by_trace b) k"
    and "mset (hm_get_or [] (ri_by_service a) k') = mset (hm_get_or [] (ri_by_service b) k')"
  using arg_cong [OF assms, of "\<lambda>v. fst v k"] arg_cong [OF assms, of "\<lambda>v. snd v k'"] by (simp_all add: ray_view_def)

lemma load_buckets:
  "hm_get_or [] (ri_by_trace (fold (\<lambda>b idx. fst (ray_apply_ingest (tb_tenant b) (tb_spans b) idx)) snap idx)) (t, tid) =
     hm_get_or [] (ri_by_trace idx) (t, tid) @
     concat (map (\<lambda>b. if tb_tenant b = t then filter (\<lambda>s. sp_trace_id s = tid) (tb_spans b) else []) snap)"
  "hm_get_or [] (ri_by_service (fold (\<lambda>b idx. fst (ray_apply_ingest (tb_tenant b) (tb_spans b) idx)) snap idx)) (t, svc) =
     hm_get_or [] (ri_by_service idx) (t, svc) @
     concat (map (\<lambda>b. if tb_tenant b = t \<and> svc \<noteq> [] then filter (\<lambda>s. span_service_name s = svc) (tb_spans b) else []) snap)"
  by (induction snap arbitrary: idx) (auto simp: apply_trace apply_service)

lemma dump_trace:
  assumes "hm_wf m" and "\<And>t tid. list_all (\<lambda>s. sp_trace_id s = tid) (hm_get_or [] m (t, tid))"
  shows "concat (map (\<lambda>((t', _), spans). if t' = t then filter (\<lambda>s. sp_trace_id s = tid) spans else []) m) =
    hm_get_or [] m (t, tid)"
  using assms
proof (induction m)
  case (Cons e m)
  obtain t' tid' b where e: "e = ((t', tid'), b)"
    by (metis surj_pair)
  note wf = hm_wf_ConsD [OF Cons.prems(1) [unfolded e]]
  have b: "list_all (\<lambda>s. sp_trace_id s = tid') b"
    using Cons.prems(2) [of tid' t'] by (simp add: e hm_get_or_def)
  have "list_all (\<lambda>s. sp_trace_id s = tid) (hm_get_or [] m (t, tid))" for t tid
    using Cons.prems(2) [of tid t] wf by (auto simp: e hm_get_or_def split: if_splits)
  with Cons.IH wf have ih: "concat (map (\<lambda>((t', _), spans). if t' = t then filter (\<lambda>s. sp_trace_id s = tid) spans else []) m) =
      hm_get_or [] m (t, tid)"
    by blast
  show ?case
  proof (cases "(t', tid') = (t, tid)")
    case True
    with b have "filter (\<lambda>s. sp_trace_id s = tid) b = b"
      by (simp add: filter_id_conv list_all_iff)
    with True wf ih show ?thesis
      by (simp add: e hm_get_or_def)
  next
    case False
    with b have "t' = t \<Longrightarrow> filter (\<lambda>s. sp_trace_id s = tid) b = []"
      by (auto simp: filter_empty_conv list_all_iff)
    with False ih show ?thesis
      by (auto simp: e hm_get_or_def)
  qed
qed simp

lemma dump_service:
  "concat (map (\<lambda>((t', _), spans). if t' = t then filter P spans else []) m) = filter P (values_where (\<lambda>k. fst k = t) m)"
  by (induction m) (auto simp: values_where_def)

lemma view_load_dump:
  assumes "ray_base idx" and "ray_sorted idx"
  shows "ray_view (ray_sort_all (ray_load_snapshot (ray_dump idx))) = ray_view idx"
proof (rule ray_view_eqI)
  fix t tid
  have "hm_get_or [] (ri_by_trace (ray_load_snapshot (ray_dump idx))) (t, tid) = hm_get_or [] (ri_by_trace idx) (t, tid)"
    using assms(1) dump_trace [of "ri_by_trace idx" t tid]
    by (simp add: ray_load_snapshot_def load_buckets ray_dump_def ray_indices_default_def ray_base_def comp_def split_def
        cong: if_cong)
  with assms(2) show "hm_get_or [] (ri_by_trace (ray_sort_all (ray_load_snapshot (ray_dump idx)))) (t, tid) =
      hm_get_or [] (ri_by_trace idx) (t, tid)"
    by (simp add: ray_sort_all_def ray_sorted_def sort_key_id_if_sorted)
next
  fix t svc
  have "mset (hm_get_or [] (ri_by_service idx) (t, svc)) =
      mset (if svc = [] then [] else filter (\<lambda>s. span_service_name s = svc) (tenant_spans idx t))"
    using assms(1) by (simp add: ray_base_def no_drift_def)
  also have "\<dots> = mset (hm_get_or [] (ri_by_service (ray_load_snapshot (ray_dump idx))) (t, svc))"
    using dump_service [of t "\<lambda>s. span_service_name s = svc" "ri_by_trace idx"]
    by (auto simp: ray_load_snapshot_def load_buckets ray_dump_def ray_indices_default_def comp_def split_def tenant_spans_def
        cong: if_cong)
  finally show "mset (hm_get_or [] (ri_by_service (ray_sort_all (ray_load_snapshot (ray_dump idx)))) (t, svc)) =
      mset (hm_get_or [] (ri_by_service idx) (t, svc))"
    by (simp add: ray_sort_all_def)
qed

interpretation ray_pillar: snapshotting_pillar ray_replay_record ray_live_record ray_sort_all ray_view
  "\<lambda>idx. ray_base idx \<and> ray_sorted idx" "\<lambda>snap. Inr (ray_load_snapshot snap)" ray_dump
proof unfold_locales
  fix r idx
  show "ray_view (ray_sort_all (ray_replay_record r idx)) = ray_view (ray_live_record r (ray_sort_all idx))"
    using sorted_sort_all [of idx]
    by (cases r) (rule ray_view_eqI; simp add: ray_sorted_def ingest_trace_sorted ingest_service_sorted;
        simp add: ray_sort_all_def apply_trace apply_service sort_key_append_sorted_left)
next
  fix r and a b :: ray_indices
  assume "ray_view a = ray_view b"
  from ray_view_eqD [OF this] show "ray_view (ray_live_record r a) = ray_view (ray_live_record r b)"
    by (cases r) (rule ray_view_eqI; simp add: ingest_trace ingest_service)
next
  fix idx
  assume "ray_base idx \<and> ray_sorted idx"
  then show "\<exists>s'. Inr (ray_load_snapshot (ray_dump idx)) = Inr s' \<and> ray_view (ray_sort_all s') = ray_view idx"
    using view_load_dump by blast
qed

section \<open>The port\<close>

text \<open>The bucket of a trace is that trace's part of the tenant's spans.\<close>

lemma trace_bucket_filter:
  "ray_base idx \<Longrightarrow> hm_get_or [] (ri_by_trace idx) (t, tid) = filter (\<lambda>s. sp_trace_id s = tid) (tenant_spans idx t)"
  using dump_trace [of "ri_by_trace idx" t tid] dump_service [of t "\<lambda>s. sp_trace_id s = tid" "ri_by_trace idx"]
  by (simp add: ray_base_def tenant_spans_def)

lemma indices_count:
  assumes "ray_base idx"
  shows "count (mset (hm_get_or [] (ri_by_service idx) (t, svc))) x =
    (if svc \<noteq> [] \<and> span_service_name x = svc then count (mset (hm_get_or [] (ri_by_trace idx) (t, sp_trace_id x))) x else 0)"
proof -
  have m: "mset (hm_get_or [] (ri_by_service idx) (t, svc)) =
      (if svc = [] then {#} else filter_mset (\<lambda>s. span_service_name s = svc) (mset (tenant_spans idx t)))"
    using assms by (simp add: ray_base_def no_drift_def)
  show ?thesis
    unfolding m trace_bucket_filter [OF assms] by simp
qed

text \<open>The batches a run of ingests acknowledged, and a tenant's spans among them.\<close>

fun trace_run ::
  "('env \<Rightarrow> tenant_id \<Rightarrow> span_batch \<Rightarrow> 's \<Rightarrow> (trace_store_error + ray_receipt) \<times> 's) \<Rightarrow>
   ('env \<times> tenant_id \<times> span_batch) list \<Rightarrow> 's \<Rightarrow> (tenant_id \<times> span list) list \<times> 's" where
  "trace_run ingest [] s = ([], s)"
| "trace_run ingest ((env, tenant, batch) # ops) s =
     (case ingest env tenant batch s of
        (Inl _, s') \<Rightarrow> trace_run ingest ops s'
      | (Inr _, s') \<Rightarrow>
          (case trace_run ingest ops s' of (acked, s'') \<Rightarrow> ((tenant, sb_spans batch) # acked, s'')))"

definition spans_of :: "tenant_id \<Rightarrow> (tenant_id \<times> span list) list \<Rightarrow> span list" where
  "spans_of tenant acked = concat (map snd (filter (\<lambda>(t, _). t = tenant) acked))"

lemma spans_of_simps [simp]:
  "spans_of t [] = []"
  "spans_of t ((t', ss) # acked) = (if t' = t then ss else []) @ spans_of t acked"
  "spans_of t (xs @ ys) = spans_of t xs @ spans_of t ys"
  by (simp_all add: spans_of_def)

text \<open>
  What a client of \<open>TraceStore\<close> relies on: the buckets of the two indices, what an ingest adds to
  them, that queries read them, and that a span is found by its service as often as by its trace.
\<close>

locale trace_store =
  fixes ingest :: "'env \<Rightarrow> tenant_id \<Rightarrow> span_batch \<Rightarrow> 's \<Rightarrow> (trace_store_error + ray_receipt) \<times> 's"
    and get_trace :: "tenant_id \<Rightarrow> ray_trace_id \<Rightarrow> 's \<Rightarrow> (trace_store_error + span list) \<times> 's"
    and query :: "tenant_id \<Rightarrow> service_name \<Rightarrow> ray_time_range \<Rightarrow> 's \<Rightarrow> (trace_store_error + span list) \<times> 's"
    and query_with ::
      "tenant_id \<Rightarrow> service_name \<Rightarrow> ray_time_range \<Rightarrow> ray_predicate \<Rightarrow> 's \<Rightarrow> (trace_store_error + span list) \<times> 's"
    and traces :: "'s \<Rightarrow> tenant_id \<times> ray_trace_id \<Rightarrow> span list"
    and services :: "'s \<Rightarrow> tenant_id \<times> service_name \<Rightarrow> span list"
    and ok :: "'s \<Rightarrow> bool"
  assumes ok_sorted: "ok s \<Longrightarrow> sorted (map sp_start_time_unix_nano (traces s k)) \<and>
      sorted (map sp_start_time_unix_nano (services s k'))"
    and ok_agree: "ok s \<Longrightarrow> count (mset (services s (t, svc))) x =
      (if svc \<noteq> [] \<and> span_service_name x = svc then count (mset (traces s (t, sp_trace_id x))) x else 0)"
    and ingest_acked: "ok s \<Longrightarrow> ingest env t b s = (Inr rc, s') \<Longrightarrow> ok s' \<and> rc_count rc = length (sb_spans b) \<and>
      (\<forall>t' tid. traces s' (t', tid) =
         by_start (traces s (t', tid) @ (if t' = t then filter (\<lambda>x. sp_trace_id x = tid) (sb_spans b) else []))) \<and>
      (\<forall>t' svc. services s' (t', svc) =
         by_start (services s (t', svc) @
           (if t' = t \<and> svc \<noteq> [] then filter (\<lambda>x. span_service_name x = svc) (sb_spans b) else [])))"
    and ingest_refused: "ok s \<Longrightarrow> ingest env t b s = (Inl e, s') \<Longrightarrow>
      ok s' \<and> traces s' = traces s \<and> services s' = services s"
    and get_trace_result: "\<exists>s'. get_trace t tid s = (Inr (traces s (t, tid)), s') \<and>
      traces s' = traces s \<and> services s' = services s \<and> (ok s \<longrightarrow> ok s')"
    and query_result: "\<exists>s'. query t svc rng s =
      (Inr (filter (\<lambda>x. ray_range_contains rng (sp_start_time_unix_nano x)) (services s (t, svc))), s') \<and>
      traces s' = traces s \<and> services s' = services s \<and> (ok s \<longrightarrow> ok s')"
    and query_with_result: "\<exists>s'. query_with t svc rng p s =
      (Inr (filter (\<lambda>x. ray_range_contains rng (sp_start_time_unix_nano x) \<and> ray_matches p x) (services s (t, svc))), s') \<and>
      traces s' = traces s \<and> services s' = services s \<and> (ok s \<longrightarrow> ok s')"
begin

lemma run_contents:
  "ok s \<Longrightarrow> trace_run ingest ops s = (acked, s') \<Longrightarrow>
   ok s' \<and> traces s' (t, tid) = by_start (traces s (t, tid) @ filter (\<lambda>x. sp_trace_id x = tid) (spans_of t acked)) \<and>
   services s' (t, svc) =
     by_start (services s (t, svc) @ (if svc \<noteq> [] then filter (\<lambda>x. span_service_name x = svc) (spans_of t acked) else []))"
proof (induction ops arbitrary: s acked)
  case Nil
  then show ?case
    using ok_sorted [of s "(t, tid)" "(t, svc)"] by (auto simp: sort_key_id_if_sorted)
next
  case (Cons op ops)
  obtain env tenant batch where op: "op = (env, tenant, batch)"
    by (cases op)
  obtain res s1 where i: "ingest env tenant batch s = (res, s1)"
    by (cases "ingest env tenant batch s")
  show ?case
  proof (cases res)
    case (Inl e)
    with Cons.prems Cons.IH [of s1 acked] ingest_refused [OF Cons.prems(1), of env tenant batch e s1] i op
    show ?thesis
      by simp
  next
    case (Inr rc)
    then obtain acked' where r: "trace_run ingest ops s1 = (acked', s')" "acked = (tenant, sb_spans batch) # acked'"
      using Cons.prems(2) i op by (auto split: prod.splits)
    from Inr i have i: "ingest env tenant batch s = (Inr rc, s1)"
      by simp
    from ingest_acked [OF Cons.prems(1) i] Cons.IH [OF _ r(1)] r(2) show ?thesis
      by (simp add: sort_key_append_sorted_left)
  qed
qed

end

definition ray_ok :: "ray_indices \<Rightarrow> bool" where
  "ray_ok idx = (ray_base idx \<and> ray_sorted idx)"

lemma ray_ok_default: "ray_ok ray_indices_default"
  by (simp add: ray_ok_def base_default) (simp add: ray_sorted_def ray_indices_default_def)

lemma ray_ok_ingest: "ray_ok idx \<Longrightarrow> ray_ok (ray_ingest_indices t spans idx)"
  by (simp add: ray_ok_def base_ingest sorted_ingest)

lemma lookup_trace_or [simp]: "ray_lookup_trace t tid idx = hm_get_or [] (ri_by_trace idx) (t, tid)"
  by (simp add: ray_lookup_trace_def hm_get_or_def split: option.split)

text \<open>A missing bucket is queried like an empty one.\<close>

lemma ray_query_simps:
  "ray_mem_query t svc rng s =
     (let ms = filter (\<lambda>x. ray_range_contains rng (sp_start_time_unix_nano x)) (hm_get_or [] (ri_by_service (rm_indices s)) (t, svc))
      in (Inr ms, s\<lparr>rm_events := rm_events s @ [RayQuery t (length ms)]\<rparr>))"
  "ray_mem_query_with t svc rng p s =
     (let ms = filter (\<lambda>x. ray_range_contains rng (sp_start_time_unix_nano x) \<and> ray_matches p x)
         (hm_get_or [] (ri_by_service (rm_indices s)) (t, svc))
      in (Inr ms, s\<lparr>rm_events := rm_events s @ [RayQuery t (length ms)]\<rparr>))"
  "ray_query t svc rng f =
     (let ms = filter (\<lambda>x. ray_range_contains rng (sp_start_time_unix_nano x)) (hm_get_or [] (ri_by_service (rf_indices f)) (t, svc))
      in (Inr ms, f\<lparr>rf_events := rf_events f @ [RayQuery t (length ms)]\<rparr>))"
  "ray_query_with t svc rng p f =
     (let ms = filter (\<lambda>x. ray_range_contains rng (sp_start_time_unix_nano x) \<and> ray_matches p x)
         (hm_get_or [] (ri_by_service (rf_indices f)) (t, svc))
      in (Inr ms, f\<lparr>rf_events := rf_events f @ [RayQuery t (length ms)]\<rparr>))"
  by (simp_all add: ray_mem_query_def ray_mem_query_with_def ray_query_def ray_query_with_def hm_get_or_def Let_def
      split: option.split)

interpretation ray_mem: trace_store "\<lambda>(_ :: unit). ray_mem_ingest" ray_mem_get_trace ray_mem_query ray_mem_query_with
  "\<lambda>s. hm_get_or [] (ri_by_trace (rm_indices s))" "\<lambda>s. hm_get_or [] (ri_by_service (rm_indices s))" "\<lambda>s. ray_ok (rm_indices s)"
proof (unfold_locales, goal_cases)
  case (3 s env t b rc s')
  then have "s' = s\<lparr>rm_indices := ray_ingest_indices t (sb_spans b) (rm_indices s),
      rm_events := rm_events s @ [RayIngest t (length (sb_spans b))]\<rparr>" "rc_count rc = length (sb_spans b)"
    by (auto simp: ray_mem_ingest_def Let_def)
  with 3(1) show ?case
    by (simp add: ray_ok_ingest ingest_trace_sorted ingest_service_sorted ray_ok_def [of "rm_indices s"] ray_sorted_def)
qed (auto simp: ray_ok_def ray_sorted_def indices_count ray_mem_ingest_def ray_mem_get_trace_def ray_query_simps Let_def)

lemma ray_ingest_acked:
  assumes "ray_ingest ts env t b s = (Inr rc, s')"
  shows "rc_count rc = length (sb_spans b)" and "rf_dir s' = rf_dir s"
    and "sb_spans b = [] \<Longrightarrow> rf_wal s' = rf_wal s \<and> rf_indices s' = rf_indices s"
    and "sb_spans b \<noteq> [] \<Longrightarrow> ray_append_wal ts env (RayWalIngest t (sb_spans b)) (rf_wal s) = (Inr (), rf_wal s') \<and>
      rf_indices s' = ray_ingest_indices t (sb_spans b) (rf_indices s)"
  using assms by (auto simp: ray_ingest_def Let_def split: if_splits prod.splits sum.splits)

lemma ray_ingest_refused:
  "ray_ingest ts env t b s = (Inl e, s') \<Longrightarrow> rf_indices s' = rf_indices s \<and> rf_dir s' = rf_dir s"
  by (auto simp: ray_ingest_def Let_def split: if_splits prod.splits sum.splits)

lemma ingest_nothing: "ray_ingest_indices t [] idx = idx"
  by (simp add: ray_ingest_indices_def ray_apply_ingest_def ray_sort_touched_def)

interpretation ray_file: trace_store "\<lambda>(ts, env). ray_ingest ts env" ray_get_trace ray_query ray_query_with
  "\<lambda>s. hm_get_or [] (ri_by_trace (rf_indices s))" "\<lambda>s. hm_get_or [] (ri_by_service (rf_indices s))" "\<lambda>s. ray_ok (rf_indices s)"
proof (unfold_locales, goal_cases)
  case (3 s env t b rc s')
  then obtain ts io where i: "ray_ingest ts io t b s = (Inr rc, s')"
    by (cases env) auto
  have "rf_indices s' = ray_ingest_indices t (sb_spans b) (rf_indices s)" "rc_count rc = length (sb_spans b)"
    using ray_ingest_acked [OF i] by (cases "sb_spans b = []"; simp add: ingest_nothing)+
  with 3(1) show ?case
    by (simp add: ray_ok_ingest ingest_trace_sorted ingest_service_sorted ray_ok_def [of "rf_indices s"] ray_sorted_def)
qed (auto simp: ray_ok_def ray_sorted_def indices_count ray_get_trace_def ray_query_simps Let_def dest: ray_ingest_refused)

end
