(* ===== verification/Ray_Durable.thy ===== *)
theory Ray_Durable
  imports Ray_Theorems
begin

text \<open>
  Durability of the file-backed trace store: the states it reaches through acknowledged operations,
  what queries of them answer, and what a restart and a crash give back.
\<close>

section \<open>Files that hold the state\<close>

definition ray_durable ::
  "(ray_wal_record \<Rightarrow> string + string) \<Rightarrow> (string \<Rightarrow> string + ray_wal_record) \<Rightarrow>
   (string \<Rightarrow> string + ray_snapshot_doc) \<Rightarrow> ray_file \<Rightarrow> bool" where
  "ray_durable to_string from_str from_reader s =
     durable_as to_string from_str from_reader (\<lambda>snap. Inr (ray_load_snapshot snap) :: trace_store_error + _)
       ray_indices_default ray_live_record ray_sort_all ray_view (rf_dir s) (rf_wal s) (ray_view (rf_indices s))"

lemma base_replay_record: "ray_base idx \<Longrightarrow> ray_base (ray_replay_record r idx)"
  by (cases r) (simp add: base_apply)

lemma base_replay:
  "ray_base idx \<Longrightarrow> ray_base (fst (snd (replay_wal_tolerating_torn_tail fs p (total_apply ray_replay_record) pe b idx)))"
  by (rule replay_inv) (simp_all add: base_replay_record)

lemma ray_open_ok:
  assumes "ray_open_with_fsync_backend fs fr disk = (Inr s, ws)"
  shows "ray_ok (rf_indices s)"
proof -
  from assms obtain w dir where "pillar_open ray_io ray_parse fr (\<lambda>snap. Inr (ray_load_snapshot snap)) ray_indices_default
      (replay_wal_tolerating_torn_tail fs ''ray'' (total_apply ray_replay_record)
        (\<lambda>line err. RayPersistenceFailed (wal_parse_reason line err)))
      ray_sort_all disk = (Inr (rf_indices s, w, dir), ws)"
    by (auto simp: ray_open_with_fsync_backend_def split: prod.splits sum.splits)
  then show ?thesis
    unfolding ray_ok_def
    by (rule pillar_open_inv [where P = ray_base]) (auto simp: base_default base_load base_replay base_sort_all sorted_sort_all)
qed

lemma ray_durable_ingest:
  assumes "ray_durable ts fs fr s" and "ray_ingest ts env t b s = (Inr rc, s')"
    and "sb_spans b \<noteq> [] \<Longrightarrow> serde_ok ts fs (RayWalIngest t (sb_spans b))"
  shows "ray_durable ts fs fr s'"
proof (cases "sb_spans b = []")
  case True
  with ray_ingest_acked [OF assms(2)] assms(1) show ?thesis
    by (simp add: ray_durable_def)
next
  case False
  from ray_ingest_acked [OF assms(2)] False
  have a: "append_wal ts ray_parse ray_io env (RayWalIngest t (sb_spans b)) (rf_wal s) = (Inr (), rf_wal s')"
    and *: "rf_dir s' = rf_dir s" "rf_indices s' = ray_ingest_indices t (sb_spans b) (rf_indices s)"
    by (simp_all add: ray_append_wal_def)
  from ray_pillar.durable_append [OF assms(1) [unfolded ray_durable_def] a assms(3) [OF False]]
  show ?thesis
    by (simp add: ray_durable_def *)
qed

lemma ray_reads_keep:
  "rf_indices (snd (ray_get_trace t tid s)) = rf_indices s \<and> rf_dir (snd (ray_get_trace t tid s)) = rf_dir s \<and>
   rf_wal (snd (ray_get_trace t tid s)) = rf_wal s"
  "rf_indices (snd (ray_query t svc rng s)) = rf_indices s \<and> rf_dir (snd (ray_query t svc rng s)) = rf_dir s \<and>
   rf_wal (snd (ray_query t svc rng s)) = rf_wal s"
  "rf_indices (snd (ray_query_with t svc rng p s)) = rf_indices s \<and> rf_dir (snd (ray_query_with t svc rng p s)) = rf_dir s \<and>
   rf_wal (snd (ray_query_with t svc rng p s)) = rf_wal s"
  by (simp_all add: ray_get_trace_def ray_query_simps Let_def)

lemma ray_durable_snapshot:
  assumes "ray_ok (rf_indices s)" and "ray_snapshot tw env fsync_file s = (Inr (), s')"
    and "tw (ray_dump (rf_indices s)) = Inr data" and "fr data = Inr (ray_dump (rf_indices s))"
    and "\<And>b. fsync_file b = Inr b"
  shows "ray_durable ts fs fr s' \<and> rf_indices s' = rf_indices s"
proof -
  obtain res trace where
    t: "pillar_snapshot env fsync_file (Inr data) (rf_dir s) (rf_wal s) = (res, trace)"
    by fastforce
  with assms(2,3) have "res = Inr ()" "s' = s\<lparr>rf_dir := fst (last trace), rf_wal := snd (last trace)\<rparr>"
    by (cases res; simp add: ray_snapshot_def)+
  with t ray_pillar.durable_snapshot [OF assms(5), of env data "rf_dir s" "rf_wal s" trace fr "rf_indices s"]
    assms(1,4) show ?thesis
    by (simp add: ray_durable_def ray_ok_def)
qed

lemma ray_durable_reopen:
  assumes "ray_durable ts fs fr s"
  shows "\<exists>s'. ray_open_with_fsync_backend fs fr (disk_of (rf_dir s) (rf_wal s)) = (Inr s', []) \<and>
    ray_durable ts fs fr s' \<and> ray_ok (rf_indices s') \<and> ray_view (rf_indices s') = ray_view (rf_indices s)"
proof -
  from ray_pillar.durable_reopen [OF assms [unfolded ray_durable_def], of ray_io ray_parse "''ray''"
      "\<lambda>line err. RayPersistenceFailed (wal_parse_reason line err)"]
  obtain idx dir' where o: "pillar_open ray_io ray_parse fr (\<lambda>snap. Inr (ray_load_snapshot snap)) ray_indices_default
      (replay_wal_tolerating_torn_tail fs ''ray'' (total_apply ray_replay_record)
        (\<lambda>line err. RayPersistenceFailed (wal_parse_reason line err)))
      ray_sort_all (disk_of (rf_dir s) (rf_wal s)) = (Inr (idx, rf_wal s, dir'), [])"
    "ray_view idx = ray_view (rf_indices s)"
    "durable_as ts fs fr (\<lambda>snap. Inr (ray_load_snapshot snap) :: trace_store_error + _) ray_indices_default
       ray_live_record ray_sort_all ray_view dir' (rf_wal s) (ray_view idx)"
    by blast
  then have op: "ray_open_with_fsync_backend fs fr (disk_of (rf_dir s) (rf_wal s)) =
      (Inr \<lparr>rf_indices = idx, rf_wal = rf_wal s, rf_dir = dir', rf_events = []\<rparr>, [])"
    by (simp add: ray_open_with_fsync_backend_def)
  with o ray_open_ok [OF op] show ?thesis
    by (simp add: ray_durable_def)
qed

lemma ray_durable_crash:
  assumes "ray_durable ts fs fr s" and "ray_ingest ts env t b s = (res, s1)" and "sb_spans b \<noteq> []"
    and "serde_ok ts fs (RayWalIngest t (sb_spans b))"
    and "torn_unparsable (line_of ts) fs (RayWalIngest t (sb_spans b))"
    and "crash_image (rf_wal s1) f"
  shows "\<exists>s' ws. ray_open_with_fsync_backend fs fr (disk_of (rf_dir s1) (open_writer f (length f))) = (Inr s', ws) \<and>
    (ray_view (rf_indices s') = ray_view (rf_indices s) \<and> isl res \<or>
     ray_view (rf_indices s') = ray_view (ray_ingest_indices t (sb_spans b) (rf_indices s)))"
proof -
  obtain ares w where a: "append_wal ts ray_parse ray_io env (RayWalIngest t (sb_spans b)) (rf_wal s) = (ares, w)"
    by fastforce
  with assms(2,3) have w: "rf_wal s1 = w" "rf_dir s1 = rf_dir s" "\<not> isl res \<Longrightarrow> ares = Inr ()"
    by (auto simp: ray_ingest_def ray_append_wal_def Let_def split: sum.splits)
  from ray_pillar.durable_crash [OF assms(1) [unfolded ray_durable_def] a assms(6) [unfolded w(1)] assms(4,5),
      of ray_io ray_parse "''ray''" "\<lambda>line err. RayPersistenceFailed (wal_parse_reason line err)"]
  obtain idx w1 dir' ws where o: "pillar_open ray_io ray_parse fr (\<lambda>snap. Inr (ray_load_snapshot snap)) ray_indices_default
      (replay_wal_tolerating_torn_tail fs ''ray'' (total_apply ray_replay_record)
        (\<lambda>line err. RayPersistenceFailed (wal_parse_reason line err)))
      ray_sort_all (disk_of (rf_dir s) (open_writer f (length f))) = (Inr (idx, w1, dir'), ws)"
    and v: "ray_view idx = ray_view (rf_indices s) \<or>
      ray_view idx = ray_view (ray_live_record (RayWalIngest t (sb_spans b)) (rf_indices s))"
    "ares = Inr () \<longrightarrow> ray_view idx = ray_view (ray_live_record (RayWalIngest t (sb_spans b)) (rf_indices s)) \<and> ws = []"
    by blast
  from o have "ray_open_with_fsync_backend fs fr (disk_of (rf_dir s1) (open_writer f (length f))) =
      (Inr \<lparr>rf_indices = idx, rf_wal = w1, rf_dir = dir', rf_events = []\<rparr>, ws)"
    by (simp add: ray_open_with_fsync_backend_def w(2))
  with v w(3) show ?thesis
    by auto
qed

section \<open>Histories\<close>

text \<open>
  The states a process reaches from an empty directory through acknowledged ingests, queries,
  successful snapshots and restarts, with the batches acknowledged so far.
\<close>

inductive ray_history ::
  "(ray_wal_record \<Rightarrow> string + string) \<Rightarrow> (string \<Rightarrow> string + ray_wal_record) \<Rightarrow>
   (ray_snapshot_doc \<Rightarrow> (string \<times> string) + string) \<Rightarrow> (string \<Rightarrow> string + ray_snapshot_doc) \<Rightarrow>
   ray_file \<Rightarrow> (tenant_id \<times> span list) list \<Rightarrow> bool"
  for ts fs tw fr where
  created: "ray_open_with_fsync_backend fs fr
      \<lparr>sd_snapshot = Absent, sd_wal = Absent, sd_append_error = None\<rparr> = (Inr s, ws) \<Longrightarrow>
    ray_history ts fs tw fr s []"
| ingested: "ray_history ts fs tw fr s acked \<Longrightarrow> ray_ingest ts env t b s = (Inr rc, s') \<Longrightarrow>
    (sb_spans b \<noteq> [] \<Longrightarrow> serde_ok ts fs (RayWalIngest t (sb_spans b))) \<Longrightarrow>
    ray_history ts fs tw fr s' (acked @ [(t, sb_spans b)])"
| looked_up: "ray_history ts fs tw fr s acked \<Longrightarrow> ray_history ts fs tw fr (snd (ray_get_trace t tid s)) acked"
| queried: "ray_history ts fs tw fr s acked \<Longrightarrow> ray_history ts fs tw fr (snd (ray_query t svc rng s)) acked"
| queried_with: "ray_history ts fs tw fr s acked \<Longrightarrow>
    ray_history ts fs tw fr (snd (ray_query_with t svc rng p s)) acked"
| snapshotted: "ray_history ts fs tw fr s acked \<Longrightarrow>
    ray_snapshot tw env (real_fsync_file None) s = (Inr (), s') \<Longrightarrow>
    tw (ray_dump (rf_indices s)) = Inr data \<Longrightarrow> fr data = Inr (ray_dump (rf_indices s)) \<Longrightarrow>
    ray_history ts fs tw fr s' acked"
| restarted: "ray_history ts fs tw fr s acked \<Longrightarrow>
    ray_open_with_fsync_backend fs fr (disk_of (rf_dir s) (rf_wal s)) = (Inr s', ws) \<Longrightarrow>
    ray_history ts fs tw fr s' acked"

text \<open>
  The indices that belong to a list of acknowledged batches: a trace's spans in start order and in
  ingest order among equal starts; a service's spans in start order.
\<close>

definition ray_holds :: "(tenant_id \<times> span list) list \<Rightarrow> ray_indices \<Rightarrow> bool" where
  "ray_holds acked idx =
     (ray_ok idx \<and>
      (\<forall>t tid. hm_get_or [] (ri_by_trace idx) (t, tid) = by_start (filter (\<lambda>x. sp_trace_id x = tid) (spans_of t acked))) \<and>
      (\<forall>t svc. mset (hm_get_or [] (ri_by_service idx) (t, svc)) =
         mset (if svc = [] then [] else filter (\<lambda>x. span_service_name x = svc) (spans_of t acked))))"

lemma ray_holds_view:
  assumes "ray_holds acked idx" and "ray_view idx' = ray_view idx" and "ray_ok idx'"
  shows "ray_holds acked idx'"
  using assms(1,3) ray_view_eqD [OF assms(2)] by (simp add: ray_holds_def)

lemma ray_holds_ingest:
  assumes "ray_holds acked idx"
  shows "ray_holds (acked @ [(t, spans)]) (ray_ingest_indices t spans idx)"
proof -
  have s: "ray_ok idx" "\<And>k. sorted (map sp_start_time_unix_nano (hm_get_or [] (ri_by_trace idx) k))"
    "\<And>k. sorted (map sp_start_time_unix_nano (hm_get_or [] (ri_by_service idx) k))"
    using assms by (auto simp: ray_holds_def ray_ok_def ray_sorted_def)
  show ?thesis
    using assms unfolding ray_holds_def ingest_trace_sorted [OF s(2)] ingest_service_sorted [OF s(3)]
    by (auto simp: ray_ok_ingest [OF s(1)] sort_key_append_sorted_left)
qed

lemma ray_holds_empty: "ray_holds [] (ray_sort_all ray_indices_default)"
  by (simp add: ray_holds_def ray_ok_def base_sort_all base_default sorted_sort_all)
    (simp add: ray_sort_all_def ray_indices_default_def buckets_sort_all_def)

lemma ray_history_inv:
  "ray_history ts fs tw fr s acked \<Longrightarrow> ray_durable ts fs fr s \<and> ray_holds acked (rf_indices s)"
proof (induction rule: ray_history.induct)
  case (created s ws)
  then have "rf_indices s = ray_sort_all ray_indices_default"
    by (auto simp: ray_open_with_fsync_backend_def pillar_open_def)
  moreover have "ray_durable ts fs fr s"
    using created by (auto simp: ray_open_with_fsync_backend_def pillar_open_def ray_durable_def durable_as_def snap_fs_of_def
        open_writer_def snapshot_base_def intro!: exI [of _ "[]"])
  ultimately show ?case
    using ray_holds_empty by simp
next
  case (ingested s acked env t b rc s')
  then have "ray_durable ts fs fr s'"
    using ray_durable_ingest by blast
  moreover have "rf_indices s' = ray_ingest_indices t (sb_spans b) (rf_indices s)"
    using ray_ingest_acked [OF ingested.hyps(2)] by (cases "sb_spans b = []") (simp_all add: ingest_nothing)
  ultimately show ?case
    using ingested.IH ray_holds_ingest by simp
next
  case (snapshotted s acked env s' data)
  then show ?case
    using ray_durable_snapshot [of s tw env "real_fsync_file None" s' data fr ts fs] real_fsync.honest
    by (auto simp: ray_holds_def)
next
  case (restarted s acked s' ws)
  then obtain "ray_durable ts fs fr s'" "ray_ok (rf_indices s')" "ray_view (rf_indices s') = ray_view (rf_indices s)"
    using ray_durable_reopen [of ts fs fr s] by auto
  with restarted.IH ray_holds_view show ?case
    by blast
qed (simp_all add: ray_durable_def ray_reads_keep)

text \<open>
  A store answers for a list of acknowledged batches: a lookup gives the trace's spans in start order
  and in ingest order among equal starts; a query of a service gives, in start order, exactly its
  spans that are in range and match, and nothing for the empty service name.
\<close>

definition ray_answers :: "(tenant_id \<times> span list) list \<Rightarrow> ray_file \<Rightarrow> bool" where
  "ray_answers acked s =
     ((\<forall>t tid. fst (ray_get_trace t tid s) = Inr (by_start (filter (\<lambda>x. sp_trace_id x = tid) (spans_of t acked)))) \<and>
      (\<forall>t svc rng p. \<exists>spans. fst (ray_query_with t svc rng p s) = Inr spans \<and> sorted (map sp_start_time_unix_nano spans) \<and>
         mset spans = mset (filter (\<lambda>x. svc \<noteq> [] \<and> span_service_name x = svc \<and>
           ray_range_contains rng (sp_start_time_unix_nano x) \<and> ray_matches p x) (spans_of t acked))))"

lemma ray_holds_answers:
  assumes "ray_holds acked (rf_indices s)"
  shows "ray_answers acked s"
proof -
  let ?b = "\<lambda>t svc. hm_get_or [] (ri_by_service (rf_indices s)) (t, svc)"
  have b: "mset (?b t svc) = mset (if svc = [] then [] else filter (\<lambda>x. span_service_name x = svc) (spans_of t acked))" for t svc
    using assms by (simp add: ray_holds_def)
  have "sorted (map sp_start_time_unix_nano (filter P (?b t svc)))" for P t svc
    using assms by (simp add: ray_holds_def ray_ok_def ray_sorted_def sorted_filter)
  moreover have "mset (filter (\<lambda>x. ray_range_contains rng (sp_start_time_unix_nano x) \<and> ray_matches p x) (?b t svc)) =
      mset (filter (\<lambda>x. svc \<noteq> [] \<and> span_service_name x = svc \<and>
        ray_range_contains rng (sp_start_time_unix_nano x) \<and> ray_matches p x) (spans_of t acked))" for t svc rng p
    unfolding mset_filter b by (simp add: filter_filter_mset conj_commute conj_left_commute)
  ultimately show ?thesis
    using assms by (simp add: ray_answers_def ray_query_simps ray_get_trace_def Let_def ray_holds_def)
qed

section \<open>Properties\<close>

text \<open>
  A restart of the trace store loses nothing and invents nothing, although a snapshot keeps only
  one of the two indices: after any history of acknowledged operations, reopening the files succeeds
  without a warning, and every lookup of a trace and every query of a service is answered with
  exactly the acknowledged spans it asks for.
\<close>

theorem ray_restart_exact:
  assumes "ray_history ts fs tw fr s acked"
  shows "\<exists>s'. ray_open_with_fsync_backend fs fr (disk_of (rf_dir s) (rf_wal s)) = (Inr s', []) \<and> ray_answers acked s'"
proof -
  from ray_durable_reopen [of ts fs fr s] ray_history_inv [OF assms] obtain s'
    where o: "ray_open_with_fsync_backend fs fr (disk_of (rf_dir s) (rf_wal s)) = (Inr s', [])"
    by blast
  from ray_history_inv [OF ray_history.restarted [OF assms o]] o ray_holds_answers show ?thesis
    by blast
qed

text \<open>
  A crash in the middle of an ingest of spans: whatever part of the unsynced bytes reached the
  disk, reopening succeeds and both indices answer as if the batch had never been sent or as if it
  had been ingested whole, the latter if it was acknowledged.
\<close>

theorem ray_crash_atomic:
  assumes "ray_history ts fs tw fr s acked" and "ray_ingest ts env t b s = (res, s1)" and "sb_spans b \<noteq> []"
    and "serde_ok ts fs (RayWalIngest t (sb_spans b))"
    and "torn_unparsable (line_of ts) fs (RayWalIngest t (sb_spans b))"
    and "crash_image (rf_wal s1) f"
  shows "\<exists>s' ws. ray_open_with_fsync_backend fs fr (disk_of (rf_dir s1) (open_writer f (length f))) = (Inr s', ws) \<and>
    (ray_answers acked s' \<and> isl res \<or> ray_answers (acked @ [(t, sb_spans b)]) s')"
proof -
  note inv = ray_history_inv [OF assms(1)]
  from ray_durable_crash [OF conjunct1 [OF inv] assms(2-6)] obtain s' ws
    where o: "ray_open_with_fsync_backend fs fr (disk_of (rf_dir s1) (open_writer f (length f))) = (Inr s', ws)"
    and d: "ray_view (rf_indices s') = ray_view (rf_indices s) \<and> isl res \<or>
      ray_view (rf_indices s') = ray_view (ray_ingest_indices t (sb_spans b) (rf_indices s))"
    by blast
  have "ray_answers acked s'" if "ray_view (rf_indices s') = ray_view (rf_indices s)"
    using ray_holds_answers [OF ray_holds_view [OF conjunct2 [OF inv] that ray_open_ok [OF o]]] .
  moreover have "ray_answers (acked @ [(t, sb_spans b)]) s'"
    if "ray_view (rf_indices s') = ray_view (ray_ingest_indices t (sb_spans b) (rf_indices s))"
    using ray_holds_answers [OF ray_holds_view [OF ray_holds_ingest [OF conjunct2 [OF inv]] that ray_open_ok [OF o]]] .
  ultimately show ?thesis
    using o d by blast
qed

text \<open>
  C14. The two indices of the trace store never drift apart: after any history, restarts from
  snapshots that keep only the trace index included, every span of a named service is returned by a
  query of that service over its start time exactly as often as by the lookup of its trace, and never
  by a query of another service.
\<close>

theorem ray_indices_agree:
  assumes "ray_history ts fs tw fr s acked" and "ray_range_contains rng (sp_start_time_unix_nano x)"
    and "fst (ray_query t svc rng s) = Inr listed" and "fst (ray_get_trace t (sp_trace_id x) s) = Inr found"
  shows "count (mset listed) x = (if svc \<noteq> [] \<and> span_service_name x = svc then count (mset found) x else 0)"
proof -
  have "ray_base (rf_indices s)"
    using ray_history_inv [OF assms(1)] by (simp add: ray_holds_def ray_ok_def)
  from indices_count [OF this, of t svc x] assms(2-4) show ?thesis
    by (auto simp: ray_query_simps ray_get_trace_def Let_def)
qed

text \<open>
  The in-memory trace store and the file-backed one agree: after runs that acknowledged the same
  batches, every lookup and every query of the one is answered as by the other.
\<close>

theorem ray_adapters_agree:
  assumes "trace_run (\<lambda>_ :: unit. ray_mem_ingest) ops ray_mem_new = (acked, m)"
    and "ray_open_with_fsync_backend fs fr \<lparr>sd_snapshot = Absent, sd_wal = Absent, sd_append_error = None\<rparr> = (Inr s, ws)"
    and "trace_run (\<lambda>(ts, env). ray_ingest ts env) ops' s = (acked, s')"
  shows "fst (ray_mem_get_trace t tid m) = fst (ray_get_trace t tid s') \<and>
    fst (ray_mem_query t svc rng m) = fst (ray_query t svc rng s') \<and>
    fst (ray_mem_query_with t svc rng p m) = fst (ray_query_with t svc rng p s')"
proof -
  have i: "rf_indices s = ray_sort_all ray_indices_default"
    using assms(2) by (auto simp: ray_open_with_fsync_backend_def pillar_open_def)
  have "ray_ok (rm_indices ray_mem_new)"
    by (simp add: ray_mem_new_def ray_ok_default)
  from ray_mem.run_contents [OF this assms(1), of t tid svc] ray_file.run_contents [OF ray_open_ok [OF assms(2)] assms(3), of t tid svc]
  have "hm_get_or [] (ri_by_trace (rm_indices m)) (t, tid) = hm_get_or [] (ri_by_trace (rf_indices s')) (t, tid)"
    "hm_get_or [] (ri_by_service (rm_indices m)) (t, svc) = hm_get_or [] (ri_by_service (rf_indices s')) (t, svc)"
    by (simp_all add: i ray_mem_new_def ray_sort_all_def ray_indices_default_def buckets_sort_all_def)
  then show ?thesis
    by (simp add: ray_query_simps ray_mem_get_trace_def ray_get_trace_def Let_def)
qed

section \<open>A concrete store\<close>

text \<open>A serialiser that knows one batch of one span, as two bytes, and a store that ingested it.\<close>

definition rx_span :: span where
  "rx_span = \<lparr>sp_trace_id = replicate 16 170, sp_span_id = replicate 8 1, sp_parent_span_id = None, sp_name = ''GET /'',
     sp_kind = KindServer, sp_start_time_unix_nano = 7, sp_end_time_unix_nano = 9,
     sp_status = \<lparr>ss_code = StatusError, ss_message = []\<rparr>, sp_attributes = [],
     sp_resource_attributes = [(''service.name'', ''api'')], sp_events = [], sp_links = []\<rparr>"

definition rx_line :: string where "rx_line = ''ab''"

definition rx_to_string :: "ray_wal_record \<Rightarrow> string + string" where
  "rx_to_string r = (if r = RayWalIngest ''t'' [rx_span] then Inr rx_line else Inl ''unsupported'')"

definition rx_from_str :: "string \<Rightarrow> string + ray_wal_record" where
  "rx_from_str l = (if l = rx_line then Inr (RayWalIngest ''t'' [rx_span]) else Inl ''expected value'')"

definition rx_to_writer :: "ray_snapshot_doc \<Rightarrow> (string \<times> string) + string" where
  "rx_to_writer doc = Inl (''unsupported'', [])"

definition rx_from_reader :: "string \<Rightarrow> string + ray_snapshot_doc" where
  "rx_from_reader b = Inl ''expected value''"

definition rx_io :: append_io where
  "rx_io = \<lparr>io_room = 100, io_write_error = ''No space left on device'', io_fsync_error = None\<rparr>"

definition rx_batch :: span_batch where "rx_batch = \<lparr>sb_spans = [rx_span]\<rparr>"

definition rx_indices :: ray_indices where
  "rx_indices = \<lparr>ri_by_trace = [((''t'', replicate 16 170), [rx_span])], ri_by_service = [((''t'', ''api''), [rx_span])]\<rparr>"

definition rx_store :: "string \<Rightarrow> ray_indices \<Rightarrow> ray_event list \<Rightarrow> ray_file" where
  "rx_store f idx ev = \<lparr>rf_indices = idx, rf_wal = \<lparr>wr_file = f, wr_buf = [], wr_synced = length f\<rparr>,
     rf_dir = \<lparr>sf_canonical = None, sf_tmp = None, sf_undo = None\<rparr>, rf_events = ev\<rparr>"

abbreviation rx_full :: ray_file where
  "rx_full \<equiv> rx_store (rx_line @ [newline]) rx_indices [RayIngest ''t'' 1]"

lemmas rx_defs = rx_to_string_def rx_from_str_def rx_io_def rx_batch_def rx_store_def rx_line_def

lemma rx_span_simps: "sp_trace_id rx_span = replicate 16 170" "span_service_name rx_span = ''api''" "sp_start_time_unix_nano rx_span = 7"
  by (simp_all add: rx_span_def span_service_name_def)

lemma rx_serde:
  "serde_ok rx_to_string rx_from_str (RayWalIngest ''t'' [rx_span])"
  "torn_unparsable (line_of rx_to_string) rx_from_str (RayWalIngest ''t'' [rx_span])"
  "line_of rx_to_string (RayWalIngest ''t'' [rx_span]) = rx_line"
  by (simp add: serde_ok_def line_of_def rx_defs) (code_simp, simp_all add: line_of_def rx_defs, code_simp)

lemma rx_ingest_indices: "ray_ingest_indices ''t'' [rx_span] ray_indices_default = rx_indices"
  by (simp add: ray_ingest_indices_def ray_apply_ingest_def ray_apply_span_def ray_sort_touched_def ray_indices_default_def
      bucket_push_def bucket_sort_def rx_indices_def rx_span_simps Let_def)

lemma rx_ingest:
  "ray_ingest rx_to_string rx_io ''t'' rx_batch (rx_store f ray_indices_default []) =
     (Inr \<lparr>rc_count = 1\<rparr>, rx_store (f @ rx_line @ [newline]) rx_indices [RayIngest ''t'' 1])"
  using rx_ingest_indices
  by (simp add: ray_ingest_def ray_append_wal_def append_wal_succeeds [of _ _ rx_line] rx_defs Let_def)

lemma rx_open:
  "ray_open_with_fsync_backend rx_from_str rx_from_reader \<lparr>sd_snapshot = Absent, sd_wal = Absent, sd_append_error = None\<rparr> =
     (Inr (rx_store [] ray_indices_default []), [])"
  by (simp add: ray_open_with_fsync_backend_def pillar_open_def open_writer_def snap_fs_of_def ray_sort_all_def
      ray_indices_default_def buckets_sort_all_def rx_store_def)

lemma rx_history: "ray_history rx_to_string rx_from_str rx_to_writer rx_from_reader rx_full [(''t'', [rx_span])]"
  using ray_history.ingested [OF ray_history.created [OF rx_open] rx_ingest] rx_serde(1) by (simp add: rx_batch_def)

lemma rx_answer:
  "ray_answers [(''t'', [rx_span])] s \<Longrightarrow> fst (ray_get_trace ''t'' (replicate 16 170) s) = Inr [rx_span]"
  by (simp add: ray_answers_def rx_span_simps)

theorem ray_restart_exact_witness:
  "\<exists>s'. ray_open_with_fsync_backend rx_from_str rx_from_reader (disk_of (rf_dir rx_full) (rf_wal rx_full)) = (Inr s', []) \<and>
     fst (ray_get_trace ''t'' (replicate 16 170) s') = Inr [rx_span]"
  using ray_restart_exact [OF rx_history] rx_answer by blast

theorem ray_crash_atomic_witness:
  "\<exists>s' ws. ray_open_with_fsync_backend rx_from_str rx_from_reader
       (disk_of (rf_dir rx_full) (open_writer (rx_line @ [newline]) (length (rx_line @ [newline])))) = (Inr s', ws) \<and>
     fst (ray_get_trace ''t'' (replicate 16 170) s') = Inr [rx_span]"
proof -
  have "crash_image (rf_wal (rx_store ([] @ rx_line @ [newline]) rx_indices [RayIngest ''t'' 1])) (rx_line @ [newline])"
    by (simp add: crash_image_def rx_store_def)
  from ray_crash_atomic [OF ray_history.created [OF rx_open] rx_ingest _ _ _ this] rx_serde rx_answer show ?thesis
    by (auto simp: rx_batch_def)
qed

theorem ray_indices_agree_witness:
  "\<exists>listed found. fst (ray_query ''t'' ''api'' ray_range_all rx_full) = Inr listed \<and>
     fst (ray_get_trace ''t'' (replicate 16 170) rx_full) = Inr found \<and> count (mset listed) rx_span = 1 \<and> count (mset found) rx_span = 1"
proof -
  have "fst (ray_query ''t'' ''api'' ray_range_all rx_full) = Inr [rx_span]"
    "fst (ray_get_trace ''t'' (sp_trace_id rx_span) rx_full) = Inr [rx_span]"
    by (simp_all add: ray_query_simps ray_get_trace_def rx_store_def rx_indices_def ray_range_all_def ray_range_contains_def
        rx_span_simps hm_get_or_def Let_def)
  moreover from this have "count (mset [rx_span]) rx_span =
      (if ''api'' \<noteq> [] \<and> span_service_name rx_span = ''api'' then count (mset [rx_span]) rx_span else 0)"
    by (intro ray_indices_agree [OF rx_history]) (simp_all add: ray_range_all_def ray_range_contains_def rx_span_simps)
  ultimately show ?thesis
    by (simp add: rx_span_simps)
qed

theorem ray_adapters_agree_witness:
  "fst (ray_mem_get_trace ''t'' (replicate 16 170) (snd (ray_mem_ingest ''t'' rx_batch ray_mem_new))) =
     fst (ray_get_trace ''t'' (replicate 16 170) rx_full)"
proof -
  have m: "trace_run (\<lambda>_ :: unit. ray_mem_ingest) [((), ''t'', rx_batch)] ray_mem_new =
      ([(''t'', [rx_span])], snd (ray_mem_ingest ''t'' rx_batch ray_mem_new))"
    by (simp add: ray_mem_ingest_def rx_batch_def Let_def)
  have f: "trace_run (\<lambda>(ts, env). ray_ingest ts env) [((rx_to_string, rx_io), ''t'', rx_batch)] (rx_store [] ray_indices_default []) =
      ([(''t'', [rx_span])], rx_full)"
    using rx_ingest [of "[]"] by (simp add: rx_batch_def)
  from ray_adapters_agree [OF m rx_open f] show ?thesis
    by blast
qed

end
