(* ===== verification/Storage_Sink.thy ===== *)
theory Storage_Sink
  imports Translate_Theorems Lumen_Durable Ray_Durable Pulse_Durable
begin

text \<open>
  The storage sink (\<open>crates/aperture-storage-sink/src/lib.rs\<close>): the tenant of an export, the wired
  stores, the translation of the whole export before anything is written, the ingest, and the write
  probe. The serde functions of the stores and the rendering of doubles are the fields of
  \<open>sink_lib\<close>; the outcomes of the file operations of one call are its \<open>append_io\<close> and
  \<open>snapshot_io\<close> arguments.
\<close>

section \<open>The port (\<open>aperture/src/ports/mod.rs\<close>)\<close>

datatype otlp_sink_error = DownstreamUnavailable string | DownstreamTimeout u64 | SinkInternal string

fun otlp_sink_error_display :: "otlp_sink_error \<Rightarrow> string" where
  "otlp_sink_error_display (DownstreamUnavailable reason) = ''downstream unavailable: '' @ reason"
| "otlp_sink_error_display (DownstreamTimeout elapsed_ms) = ''downstream timeout after '' @ nat_str (unat elapsed_ms) @ '' ms''"
| "otlp_sink_error_display (SinkInternal message) = ''sink internal error: '' @ message"

datatype probe_error = ProbeUnreachable string string | ProbeRefused string nat | ProbeTimeout string u64

fun probe_error_display :: "probe_error \<Rightarrow> string" where
  "probe_error_display (ProbeUnreachable endpoint reason) = ''downstream unreachable at '' @ endpoint @ '': '' @ reason"
| "probe_error_display (ProbeRefused endpoint status) =
     ''downstream rejected probe at '' @ endpoint @ '': status '' @ nat_str status"
| "probe_error_display (ProbeTimeout endpoint elapsed_ms) =
     ''probe timed out after '' @ nat_str (unat elapsed_ms) @ '' ms against '' @ endpoint"

record 'a tenant_scoped =
  ts_tenant :: tenant_id
  ts_inner :: 'a

datatype otlp_record =
  LogsRecord "export_logs tenant_scoped" | TracesRecord "export_traces tenant_scoped" | MetricsRecord "export_metrics tenant_scoped"

section \<open>The sink\<close>

fun trace_store_error_display :: "trace_store_error \<Rightarrow> string" where
  "trace_store_error_display (RayPersistenceFailed reason) = ''persistence failed: '' @ reason"

fun metric_store_error_display :: "metric_store_error \<Rightarrow> string" where
  "metric_store_error_display (PulsePersistenceFailed reason) = ''persistence failed: '' @ reason"

record sink_lib =
  lib_display :: "u64 \<Rightarrow> string"
  lib_log_to_string :: "lumen_wal_record \<Rightarrow> string + string"
  lib_trace_to_string :: "ray_wal_record \<Rightarrow> string + string"
  lib_metric_to_string :: "pulse_wal_record \<Rightarrow> string + string"
  lib_log_to_writer :: "lumen_snapshot_doc \<Rightarrow> (string \<times> string) + string"
  lib_trace_to_writer :: "ray_snapshot_doc \<Rightarrow> (string \<times> string) + string"
  lib_metric_to_writer :: "pulse_snapshot_doc \<Rightarrow> (string \<times> string) + string"

record storage_sink =
  ss_default_tenant :: "string option"
  ss_log_store :: "lumen_file option"
  ss_trace_store :: "ray_file option"
  ss_metric_store :: "pulse_file option"
  ss_warnings :: "translate_event list"

definition with_all_stores :: "lumen_file \<Rightarrow> ray_file \<Rightarrow> pulse_file \<Rightarrow> string option \<Rightarrow> storage_sink" where
  "with_all_stores logs traces metrics default_tenant =
     \<lparr>ss_default_tenant = default_tenant, ss_log_store = Some logs, ss_trace_store = Some traces,
      ss_metric_store = Some metrics, ss_warnings = []\<rparr>"

definition with_log_store :: "lumen_file \<Rightarrow> string option \<Rightarrow> storage_sink" where
  "with_log_store logs default_tenant =
     \<lparr>ss_default_tenant = default_tenant, ss_log_store = Some logs, ss_trace_store = None,
      ss_metric_store = None, ss_warnings = []\<rparr>"

definition with_trace_store :: "ray_file \<Rightarrow> string option \<Rightarrow> storage_sink" where
  "with_trace_store traces default_tenant =
     \<lparr>ss_default_tenant = default_tenant, ss_log_store = None, ss_trace_store = Some traces,
      ss_metric_store = None, ss_warnings = []\<rparr>"

definition with_metric_store :: "pulse_file \<Rightarrow> string option \<Rightarrow> storage_sink" where
  "with_metric_store metrics default_tenant =
     \<lparr>ss_default_tenant = default_tenant, ss_log_store = None, ss_trace_store = None,
      ss_metric_store = Some metrics, ss_warnings = []\<rparr>"

definition with_log_and_trace_stores :: "lumen_file \<Rightarrow> ray_file \<Rightarrow> string option \<Rightarrow> storage_sink" where
  "with_log_and_trace_stores logs traces default_tenant =
     \<lparr>ss_default_tenant = default_tenant, ss_log_store = Some logs, ss_trace_store = Some traces,
      ss_metric_store = None, ss_warnings = []\<rparr>"

definition no_tenant_message :: string where
  "no_tenant_message = ''no tenant: record carries no tenant.id resource attribute and no default_tenant is configured; refusing per ADR-0041 Decision 2''"

text \<open>The rest of the three \<open>resolve_..tenant\<close> methods, given what the payload says.\<close>

definition tenant_or_default :: "storage_sink \<Rightarrow> string option \<Rightarrow> otlp_sink_error + tenant_id" where
  "tenant_or_default sink explicit =
     (case explicit of
        Some t \<Rightarrow> Inr t
      | None \<Rightarrow> (case ss_default_tenant sink of Some d \<Rightarrow> Inr d | None \<Rightarrow> Inl (SinkInternal no_tenant_message)))"

definition resolve_tenant :: "sink_lib \<Rightarrow> storage_sink \<Rightarrow> export_logs \<Rightarrow> otlp_sink_error + tenant_id" where
  "resolve_tenant lib sink request = tenant_or_default sink (resolve_tenant_id (lib_display lib) request)"

definition resolve_trace_tenant :: "sink_lib \<Rightarrow> storage_sink \<Rightarrow> export_traces \<Rightarrow> otlp_sink_error + tenant_id" where
  "resolve_trace_tenant lib sink request = tenant_or_default sink (resolve_trace_tenant_id (lib_display lib) request)"

definition resolve_export_metric_tenant :: "sink_lib \<Rightarrow> storage_sink \<Rightarrow> export_metrics \<Rightarrow> otlp_sink_error + tenant_id" where
  "resolve_export_metric_tenant lib sink request = tenant_or_default sink (resolve_metric_tenant_id (lib_display lib) request)"

definition require_log_store :: "storage_sink \<Rightarrow> otlp_sink_error + lumen_file" where
  "require_log_store sink =
     (case ss_log_store sink of Some s \<Rightarrow> Inr s | None \<Rightarrow> Inl (SinkInternal ''no log store wired into this StorageSink''))"

definition require_trace_store :: "storage_sink \<Rightarrow> otlp_sink_error + ray_file" where
  "require_trace_store sink =
     (case ss_trace_store sink of Some s \<Rightarrow> Inr s | None \<Rightarrow> Inl (SinkInternal ''no trace store wired into this StorageSink''))"

definition require_metric_store :: "storage_sink \<Rightarrow> otlp_sink_error + pulse_file" where
  "require_metric_store sink =
     (case ss_metric_store sink of Some s \<Rightarrow> Inr s | None \<Rightarrow> Inl (SinkInternal ''no metric store wired into this StorageSink''))"

definition sink_ingest_logs ::
  "sink_lib \<Rightarrow> append_io \<Rightarrow> tenant_id \<Rightarrow> log_record list \<Rightarrow> lumen_file \<Rightarrow> (otlp_sink_error + unit) \<times> lumen_file" where
  "sink_ingest_logs lib env tenant rs store =
     (case lumen_ingest (lib_log_to_string lib) env tenant \<lparr>records = rs\<rparr> store of
        (Inr _, store') \<Rightarrow> (Inr (), store')
      | (Inl e, store') \<Rightarrow> (Inl (SinkInternal (''lumen ingest failed: '' @ log_store_error_display e)), store'))"

definition sink_ingest_traces ::
  "sink_lib \<Rightarrow> append_io \<Rightarrow> tenant_id \<Rightarrow> span list \<Rightarrow> ray_file \<Rightarrow> (otlp_sink_error + unit) \<times> ray_file" where
  "sink_ingest_traces lib env tenant spans store =
     (case ray_ingest (lib_trace_to_string lib) env tenant \<lparr>sb_spans = spans\<rparr> store of
        (Inr _, store') \<Rightarrow> (Inr (), store')
      | (Inl e, store') \<Rightarrow> (Inl (SinkInternal (''ray ingest failed: '' @ trace_store_error_display e)), store'))"

text \<open>The receipt, with the number of refused series, is dropped.\<close>

definition sink_ingest_metrics ::
  "sink_lib \<Rightarrow> append_io \<Rightarrow> tenant_id \<Rightarrow> metric list \<Rightarrow> pulse_file \<Rightarrow> (otlp_sink_error + unit) \<times> pulse_file" where
  "sink_ingest_metrics lib env tenant metrics store =
     (case pulse_ingest max_series_per_tenant (lib_metric_to_string lib) env tenant metrics store of
        (Inr _, store') \<Rightarrow> (Inr (), store')
      | (Inl e, store') \<Rightarrow> (Inl (SinkInternal (''pulse ingest failed: '' @ metric_store_error_display e)), store'))"

definition accept_logs :: "sink_lib \<Rightarrow> append_io \<Rightarrow> export_logs \<Rightarrow> storage_sink \<Rightarrow> (otlp_sink_error + unit) \<times> storage_sink" where
  "accept_logs lib env request sink =
     (case require_log_store sink of
        Inl e \<Rightarrow> (Inl e, sink)
      | Inr store \<Rightarrow>
        (case resolve_tenant lib sink request of
           Inl e \<Rightarrow> (Inl e, sink)
         | Inr tenant \<Rightarrow>
           (case translate_logs (lib_display lib) request of
              Inl e \<Rightarrow> (Inl (SinkInternal (''log translation refused: '' @ translation_error_display e)), sink)
            | Inr rs \<Rightarrow>
              (case sink_ingest_logs lib env tenant rs store of
                 (res, store') \<Rightarrow> (res, sink\<lparr>ss_log_store := Some store'\<rparr>)))))"

definition accept_trace_export :: "sink_lib \<Rightarrow> append_io \<Rightarrow> export_traces \<Rightarrow> storage_sink \<Rightarrow> (otlp_sink_error + unit) \<times> storage_sink" where
  "accept_trace_export lib env request sink =
     (case require_trace_store sink of
        Inl e \<Rightarrow> (Inl e, sink)
      | Inr store \<Rightarrow>
        (case resolve_trace_tenant lib sink request of
           Inl e \<Rightarrow> (Inl e, sink)
         | Inr tenant \<Rightarrow>
           (case translate_traces (lib_display lib) request of
              Inl e \<Rightarrow> (Inl (SinkInternal (''trace translation refused: '' @ translation_error_display e)), sink)
            | Inr spans \<Rightarrow>
              (case sink_ingest_traces lib env tenant spans store of
                 (res, store') \<Rightarrow> (res, sink\<lparr>ss_trace_store := Some store'\<rparr>)))))"

definition accept_metrics :: "sink_lib \<Rightarrow> append_io \<Rightarrow> export_metrics \<Rightarrow> storage_sink \<Rightarrow> (otlp_sink_error + unit) \<times> storage_sink" where
  "accept_metrics lib env request sink =
     (case require_metric_store sink of
        Inl e \<Rightarrow> (Inl e, sink)
      | Inr store \<Rightarrow>
        (case resolve_export_metric_tenant lib sink request of
           Inl e \<Rightarrow> (Inl e, sink)
         | Inr tenant \<Rightarrow>
           (case translate_metrics (lib_display lib) request of
              (metrics, warnings) \<Rightarrow>
                (case sink_ingest_metrics lib env tenant metrics store of
                   (res, store') \<Rightarrow> (res, sink\<lparr>ss_metric_store := Some store', ss_warnings := ss_warnings sink @ warnings\<rparr>)))))"

text \<open>The authenticated tenant of the record is not looked at.\<close>

definition storage_sink_accept :: "sink_lib \<Rightarrow> append_io \<Rightarrow> otlp_record \<Rightarrow> storage_sink \<Rightarrow> (otlp_sink_error + unit) \<times> storage_sink" where
  "storage_sink_accept lib env r sink =
     (case r of
        LogsRecord scoped \<Rightarrow> accept_logs lib env (ts_inner scoped) sink
      | TracesRecord scoped \<Rightarrow> accept_trace_export lib env (ts_inner scoped) sink
      | MetricsRecord scoped \<Rightarrow> accept_metrics lib env (ts_inner scoped) sink)"

section \<open>The probe\<close>

definition PROBE_TENANT :: tenant_id where
  "PROBE_TENANT = ''__aperture_storage_sink_probe__''"

definition probe_record :: log_record where
  "probe_record = \<lparr>observed_time_unix_nano = 0, severity_number = SEV_UNSPECIFIED, severity_text = [],
     body = ''aperture-storage-sink probe write check'', attributes = [], resource_attributes = [], trace_id = None, span_id = None\<rparr>"

definition probe_span :: span where
  "probe_span = \<lparr>sp_trace_id = replicate 16 0, sp_span_id = replicate 8 0, sp_parent_span_id = None,
     sp_name = ''aperture-storage-sink probe write check'', sp_kind = KindInternal, sp_start_time_unix_nano = 0,
     sp_end_time_unix_nano = 0, sp_status = \<lparr>ss_code = StatusUnset, ss_message = []\<rparr>, sp_attributes = [],
     sp_resource_attributes = [], sp_events = [], sp_links = []\<rparr>"

definition probe_metric :: metric where
  "probe_metric = \<lparr>mt_name = ''aperture-storage-sink probe write check'', mt_description = [], mt_unit = [], mt_kind = Gauge,
     mt_points = [\<lparr>mp_time_unix_nano = 0, mp_start_time_unix_nano = 0, mp_attributes = [], mp_value = 0\<rparr>],
     mt_resource_attributes = []\<rparr>"

text \<open>The outcomes of the file operations of one store's probe.\<close>

record probe_io =
  pio_append :: append_io
  pio_snapshot :: snapshot_io
  pio_fsync :: fsync_fn
  pio_dir_sync :: "string option"

definition probe_log_store :: "sink_lib \<Rightarrow> probe_io \<Rightarrow> storage_sink \<Rightarrow> (probe_error + unit) \<times> storage_sink" where
  "probe_log_store lib env sink =
     (case ss_log_store sink of
        None \<Rightarrow> (Inl (ProbeUnreachable ''lumen'' ''no log store wired into this StorageSink''), sink)
      | Some store \<Rightarrow>
        (case lumen_ingest (lib_log_to_string lib) (pio_append env) PROBE_TENANT \<lparr>records = [probe_record]\<rparr> store of
           (Inl e, store') \<Rightarrow>
             (Inl (ProbeUnreachable ''lumen'' (''probe write check failed: '' @ log_store_error_display e)),
              sink\<lparr>ss_log_store := Some store'\<rparr>)
         | (Inr _, store') \<Rightarrow>
           (case lumen_snapshot (lib_log_to_writer lib) (pio_snapshot env) (pio_fsync env) store' of
              (res, store'') \<Rightarrow>
                (map_sum (\<lambda>e. ProbeUnreachable ''lumen'' (''probe snapshot check failed: '' @ log_store_error_display e)) id res,
                 sink\<lparr>ss_log_store := Some store''\<rparr>))))"

definition probe_trace_store :: "sink_lib \<Rightarrow> probe_io \<Rightarrow> storage_sink \<Rightarrow> (probe_error + unit) \<times> storage_sink" where
  "probe_trace_store lib env sink =
     (case ss_trace_store sink of
        None \<Rightarrow> (Inl (ProbeUnreachable ''ray'' ''no trace store wired into this StorageSink''), sink)
      | Some store \<Rightarrow>
        (case ray_ingest (lib_trace_to_string lib) (pio_append env) PROBE_TENANT \<lparr>sb_spans = [probe_span]\<rparr> store of
           (Inl e, store') \<Rightarrow>
             (Inl (ProbeUnreachable ''ray'' (''probe write check failed: '' @ trace_store_error_display e)),
              sink\<lparr>ss_trace_store := Some store'\<rparr>)
         | (Inr _, store') \<Rightarrow>
           (case ray_snapshot (lib_trace_to_writer lib) (pio_snapshot env) (pio_fsync env) store' of
              (res, store'') \<Rightarrow>
                (map_sum (\<lambda>e. ProbeUnreachable ''ray'' (''probe snapshot check failed: '' @ trace_store_error_display e)) id res,
                 sink\<lparr>ss_trace_store := Some store''\<rparr>))))"

definition probe_metric_store :: "sink_lib \<Rightarrow> probe_io \<Rightarrow> storage_sink \<Rightarrow> (probe_error + unit) \<times> storage_sink" where
  "probe_metric_store lib env sink =
     (case ss_metric_store sink of
        None \<Rightarrow> (Inl (ProbeUnreachable ''pulse'' ''no metric store wired into this StorageSink''), sink)
      | Some store \<Rightarrow>
        (case pulse_ingest max_series_per_tenant (lib_metric_to_string lib) (pio_append env) PROBE_TENANT [probe_metric] store of
           (Inl e, store') \<Rightarrow>
             (Inl (ProbeUnreachable ''pulse'' (''probe write check failed: '' @ metric_store_error_display e)),
              sink\<lparr>ss_metric_store := Some store'\<rparr>)
         | (Inr _, store') \<Rightarrow>
           (case pulse_snapshot (lib_metric_to_writer lib) (pio_snapshot env) (pio_dir_sync env) (pio_fsync env) store' of
              (res, store'') \<Rightarrow>
                (map_sum (\<lambda>e. ProbeUnreachable ''pulse'' (''probe snapshot check failed: '' @ metric_store_error_display e)) id res,
                 sink\<lparr>ss_metric_store := Some store''\<rparr>))))"

text \<open>Each wired store in turn, up to the first that fails; the arguments are the outcomes for each store.\<close>

definition storage_sink_probe ::
  "sink_lib \<Rightarrow> probe_io \<Rightarrow> probe_io \<Rightarrow> probe_io \<Rightarrow> storage_sink \<Rightarrow> (probe_error + unit) \<times> storage_sink" where
  "storage_sink_probe lib log_env trace_env metric_env sink =
     (case (if ss_log_store sink \<noteq> None then probe_log_store lib log_env sink else (Inr (), sink)) of
        (Inl e, sink1) \<Rightarrow> (Inl e, sink1)
      | (Inr _, sink1) \<Rightarrow>
        (case (if ss_trace_store sink1 \<noteq> None then probe_trace_store lib trace_env sink1 else (Inr (), sink1)) of
           (Inl e, sink2) \<Rightarrow> (Inl e, sink2)
         | (Inr _, sink2) \<Rightarrow>
             (if ss_metric_store sink2 \<noteq> None then probe_metric_store lib metric_env sink2 else (Inr (), sink2))))"

end
