(* ===== verification/Aperture_Gateway.thy ===== *)
theory Aperture_Gateway
  imports Otlp_Harness Storage_Sink Query_Common
begin

text \<open>
  The ingest gateway (\<open>crates/aperture/src\<close>: \<open>transport.rs\<close>, \<open>app.rs\<close>, \<open>body_size_cap.rs\<close>,
  \<open>backpressure.rs\<close>): the concurrency limit, authentication, the checks of an HTTP request, the reading
  of a body within its limit, validation by the harness, the hand-off to the sink, and the HTTP and gRPC
  answers. The sink is an argument, so the model holds for every sink; what crates outside the
  repository do is in \<open>aperture_lib\<close>.
\<close>

type_synonym u32 = "32 word"

section \<open>Limits (\<open>backpressure.rs\<close>, \<open>body_size_cap.rs\<close>)\<close>

datatype cap_transport = CapGrpc | CapHttpProtobuf

fun cap_transport_str :: "cap_transport \<Rightarrow> string" where
  "cap_transport_str CapGrpc = ''grpc''"
| "cap_transport_str CapHttpProtobuf = ''http_protobuf''"

datatype gateway_event =
  AuditLine audit_event |
  ConcurrencyCapHit cap_transport u32 u32 |
  UnsupportedMediaType string string |
  BodyTooLarge cap_transport string u32 u64 |
  RequestReceived string string nat

text \<open>A limiter: the permits not held, and the configured number.\<close>

record concurrency_limiter =
  cl_available :: nat
  cl_cap :: u32
  cl_transport :: cap_transport

definition limiter_new :: "u32 \<Rightarrow> cap_transport \<Rightarrow> concurrency_limiter" where
  "limiter_new cap transport = \<lparr>cl_available = unat cap, cl_cap = cap, cl_transport = transport\<rparr>"

definition limiter_in_flight :: "concurrency_limiter \<Rightarrow> u32" where
  "limiter_in_flight l =
     (let free = word_of_nat (cl_available l) in if free \<le> cl_cap l then cl_cap l - free else 0)"

definition limiter_try_acquire :: "concurrency_limiter \<Rightarrow> (gateway_event list + unit) \<times> concurrency_limiter" where
  "limiter_try_acquire l =
     (if 0 < cl_available l then (Inr (), l\<lparr>cl_available := cl_available l - 1\<rparr>)
      else (Inl [ConcurrencyCapHit (cl_transport l) (cl_cap l) (cl_cap l)], l))"

text \<open>Dropping the permit.\<close>

definition limiter_release :: "concurrency_limiter \<Rightarrow> concurrency_limiter" where
  "limiter_release l = l\<lparr>cl_available := cl_available l + 1\<rparr>"

definition refusal_message :: "cap_transport \<Rightarrow> u32 \<Rightarrow> string" where
  "refusal_message transport cap =
     ''aperture: '' @ (case transport of CapGrpc \<Rightarrow> ''gRPC'' | CapHttpProtobuf \<Rightarrow> ''HTTP'') @
     '' concurrency cap of '' @ nat_str (unat cap) @ '' reached on transport='' @ cap_transport_str transport"

definition active_cap :: "u32 option \<Rightarrow> u32 option" where
  "active_cap cap = (case cap of Some limit \<Rightarrow> if limit > 0 then Some limit else None | None \<Rightarrow> None)"

definition too_large_message :: "u32 \<Rightarrow> u64 \<Rightarrow> string" where
  "too_large_message limit n =
     ''aperture: body of '' @ nat_str (unat n) @ '' bytes exceeds max_recv_msg_size cap of '' @ nat_str (unat limit) @ '' bytes''"

section \<open>HTTP\<close>

record ingest_request =
  ir_authorization :: "string option"
  ir_content_type :: "string option"
  ir_content_length :: "string option"
  ir_body :: "u8 list"
  ir_body_broken :: bool

record ingest_response =
  ar_status :: nat
  ar_content_type :: "string option"
  ar_retry_after :: "string option"
  ar_www_authenticate :: "string option"
  ar_body :: string

definition text_response :: "nat \<Rightarrow> string \<Rightarrow> ingest_response" where
  "text_response status text =
     \<lparr>ar_status = status, ar_content_type = Some ''text/plain; charset=utf-8'', ar_retry_after = None,
      ar_www_authenticate = None, ar_body = text\<rparr>"

definition refuse_http :: "u32 \<Rightarrow> ingest_response" where
  "refuse_http cap = (text_response 503 (refusal_message CapHttpProtobuf cap @ [CHR 0x0A]))\<lparr>ar_retry_after := Some ''1''\<rparr>"

definition reject_http_unauthorized :: "string \<Rightarrow> ingest_response" where
  "reject_http_unauthorized reason =
     (text_response 401 (reason @ [CHR 0x0A]))\<lparr>ar_www_authenticate := Some (bearer_challenge reason)\<rparr>"

definition reject_http_too_large :: "u32 \<Rightarrow> u64 \<Rightarrow> ingest_response" where
  "reject_http_too_large limit n = text_response 413 (too_large_message limit n @ [CHR 0x0A])"

definition reject_http_default_too_large :: ingest_response where
  "reject_http_default_too_large = text_response 413 (''request body exceeds the default maximum size'' @ [CHR 0x0A])"

definition DEFAULT_HTTP_BODY_LIMIT_BYTES :: nat where
  "DEFAULT_HTTP_BODY_LIMIT_BYTES = 2 * 1024 * 1024"

text \<open>\<open>http_body_util::Limited\<close>: the whole body, unless it breaks off or is longer than the limit.\<close>

definition limited_collect :: "nat \<Rightarrow> ingest_request \<Rightarrow> u8 list option" where
  "limited_collect limit req = (if ir_body_broken req \<or> limit < length (ir_body req) then None else Some (ir_body req))"

definition collect_uncapped :: "ingest_request \<Rightarrow> ingest_response + u8 list" where
  "collect_uncapped req =
     (case limited_collect DEFAULT_HTTP_BODY_LIMIT_BYTES req of
        Some bytes \<Rightarrow> Inr bytes | None \<Rightarrow> Inl reject_http_default_too_large)"

definition declared_content_length :: "http_lib \<Rightarrow> ingest_request \<Rightarrow> nat option" where
  "declared_content_length lib req =
     (case ir_content_length req of
        None \<Rightarrow> None
      | Some raw \<Rightarrow> (case hl_to_str lib raw of None \<Rightarrow> None | Some s \<Rightarrow> parse_u64 (rust_trim s)))"

definition read_http_body_within_cap ::
  "http_lib \<Rightarrow> u32 option \<Rightarrow> ingest_request \<Rightarrow> string \<Rightarrow> (ingest_response + u8 list) \<times> gateway_event list" where
  "read_http_body_within_cap lib cap req signal =
     (case active_cap cap of
        None \<Rightarrow> (collect_uncapped req, [])
      | Some limit \<Rightarrow>
        (case (case declared_content_length lib req of
                 Some declared \<Rightarrow> if unat limit < declared then Some (word_of_nat declared) else None
               | None \<Rightarrow> None) of
           Some declared \<Rightarrow> (Inl (reject_http_too_large limit declared), [BodyTooLarge CapHttpProtobuf signal limit declared])
         | None \<Rightarrow>
           (case limited_collect (unat limit) req of
              Some bytes \<Rightarrow> (Inr bytes, [])
            | None \<Rightarrow>
                let observed = ucast limit + 1 in
                (Inl (reject_http_too_large limit observed), [BodyTooLarge CapHttpProtobuf signal limit observed]))))"

definition CONTENT_TYPE_PROTOBUF :: string where
  "CONTENT_TYPE_PROTOBUF = ''application/x-protobuf''"

definition is_protobuf_content_type :: "http_lib \<Rightarrow> ingest_request \<Rightarrow> bool" where
  "is_protobuf_content_type lib req =
     (case ir_content_type req of
        None \<Rightarrow> False
      | Some raw \<Rightarrow>
        (case hl_to_str lib raw of
           None \<Rightarrow> False
         | Some text \<Rightarrow> eq_ignore_ascii_case (rust_trim (takeWhile (\<lambda>c. c \<noteq> CHR '';'') text)) CONTENT_TYPE_PROTOBUF))"

section \<open>Authentication\<close>

text \<open>
  \<open>al_jwt\<close> is \<open>jsonwebtoken\<close>'s decoding, \<open>al_metadata_to_str\<close> tonic's reading of a metadata value,
  \<open>al_str_debug\<close> and \<open>al_to_lowercase\<close> the standard library's; the encoders are prost's.
\<close>

record aperture_lib =
  al_http :: http_lib
  al_jwt :: "string \<Rightarrow> string \<Rightarrow> jwt_error_kind + raw_claims"
  al_metadata_to_str :: "string \<Rightarrow> string option"
  al_str_debug :: "string \<Rightarrow> string"
  al_to_lowercase :: "string \<Rightarrow> string"
  al_prost :: prost_lib
  al_encode_logs :: "export_logs \<Rightarrow> u8 list"
  al_encode_traces :: "export_traces \<Rightarrow> u8 list"
  al_encode_metrics :: "export_metrics \<Rightarrow> u8 list"

definition ANONYMOUS_TENANT :: tenant_id where
  "ANONYMOUS_TENANT = ''anonymous''"

definition ingest_subject :: "string \<Rightarrow> string" where
  "ingest_subject signal = ''ingest_'' @ signal"

definition ingest_bearer_token :: "string option \<Rightarrow> string option" where
  "ingest_bearer_token raw =
     (case raw of
        None \<Rightarrow> None
      | Some raw \<Rightarrow>
        (case (if prefix ''Bearer '' raw then Some (drop 7 raw)
               else case split_once CHR '' '' raw of
                      None \<Rightarrow> None
                    | Some (scheme, rest) \<Rightarrow> if eq_ignore_ascii_case scheme ''bearer'' then Some rest else None) of
           None \<Rightarrow> None
         | Some rest \<Rightarrow> (let token = rust_trim rest in if token = [] then None else Some token)))"

definition authenticate ::
  "aperture_lib \<Rightarrow> validator option \<Rightarrow> string option \<Rightarrow> string \<Rightarrow> system_time \<Rightarrow> (string + tenant_id) \<times> gateway_event list" where
  "authenticate lib auth raw_authorization signal now =
     (case auth of
        None \<Rightarrow> (Inr ANONYMOUS_TENANT, [])
      | Some v \<Rightarrow>
        let subject = ingest_subject signal in
        (case ingest_bearer_token raw_authorization of
           None \<Rightarrow> (Inl ''missing_claim'', [AuditLine (audit_deny subject ''missing_claim'')])
         | Some token \<Rightarrow>
           (case validate_with_subject (al_jwt lib) v token now subject of
              (Inr ctx, evs) \<Rightarrow> (Inr (tc_tenant_id ctx), map AuditLine evs)
            | (Inl e, evs) \<Rightarrow> (Inl (validation_reason e), map AuditLine evs))))"

definition ingest_http_authorization :: "aperture_lib \<Rightarrow> ingest_request \<Rightarrow> string option" where
  "ingest_http_authorization lib req =
     (case ir_authorization req of None \<Rightarrow> None | Some v \<Rightarrow> hl_to_str (al_http lib) v)"

definition grpc_authorization :: "aperture_lib \<Rightarrow> string option \<Rightarrow> string option" where
  "grpc_authorization lib metadata = (case metadata of None \<Rightarrow> None | Some v \<Rightarrow> al_metadata_to_str lib v)"

section \<open>Validate and route (\<open>app.rs\<close>)\<close>

datatype transport = Grpc | HttpProtobufTransport

fun transport_cap :: "transport \<Rightarrow> cap_transport" where
  "transport_cap Grpc = CapGrpc"
| "transport_cap HttpProtobufTransport = CapHttpProtobuf"

fun framing_for_transport :: "transport \<Rightarrow> framing" where
  "framing_for_transport Grpc = GrpcProtobuf"
| "framing_for_transport HttpProtobufTransport = HttpProtobuf"

datatype ingest_outcome = Accepted | Rejected otlp_violation | SinkRefused otlp_sink_error | IngestBodyTooLarge

definition secondary_body_size_guard ::
  "u8 list \<Rightarrow> transport \<Rightarrow> string \<Rightarrow> u32 option \<Rightarrow> (ingest_outcome \<times> gateway_event list) option" where
  "secondary_body_size_guard bytes transport signal cap =
     (case active_cap cap of
        None \<Rightarrow> None
      | Some limit \<Rightarrow>
          if unat limit < length bytes
          then Some (IngestBodyTooLarge, [BodyTooLarge (transport_cap transport) signal limit (word_of_nat (length bytes))])
          else None)"

text \<open>The steps the three \<open>ingest_*\<close> functions share, given the validator of the signal and the record it makes.\<close>

definition route ::
  "(otlp_violation + otlp_record) \<Rightarrow> (otlp_record \<Rightarrow> 's \<Rightarrow> (otlp_sink_error + unit) \<times> 's) \<Rightarrow> 's \<Rightarrow> ingest_outcome \<times> 's" where
  "route validated accept sink =
     (case validated of
        Inl violation \<Rightarrow> (Rejected violation, sink)
      | Inr r \<Rightarrow>
        (case accept r sink of
           (Inr _, sink') \<Rightarrow> (Accepted, sink')
         | (Inl e, sink') \<Rightarrow> (SinkRefused e, sink')))"

definition ingest_logs ::
  "aperture_lib \<Rightarrow> (otlp_record \<Rightarrow> 's \<Rightarrow> (otlp_sink_error + unit) \<times> 's) \<Rightarrow> u8 list \<Rightarrow> transport \<Rightarrow> tenant_id \<Rightarrow> u32 option \<Rightarrow> 's \<Rightarrow>
   ingest_outcome \<times> 's \<times> gateway_event list" where
  "ingest_logs lib accept bytes transport tenant cap sink =
     (case secondary_body_size_guard bytes transport ''logs'' cap of
        Some (outcome, evs) \<Rightarrow> (outcome, sink, evs)
      | None \<Rightarrow>
        (case route (map_sum id (\<lambda>r. LogsRecord \<lparr>ts_tenant = tenant, ts_inner = r\<rparr>)
                       (validate_logs (al_prost lib) (al_to_lowercase lib) bytes (framing_for_transport transport))) accept sink of
           (outcome, sink') \<Rightarrow> (outcome, sink', [])))"

definition ingest_traces ::
  "aperture_lib \<Rightarrow> (otlp_record \<Rightarrow> 's \<Rightarrow> (otlp_sink_error + unit) \<times> 's) \<Rightarrow> u8 list \<Rightarrow> transport \<Rightarrow> tenant_id \<Rightarrow> u32 option \<Rightarrow> 's \<Rightarrow>
   ingest_outcome \<times> 's \<times> gateway_event list" where
  "ingest_traces lib accept bytes transport tenant cap sink =
     (case secondary_body_size_guard bytes transport ''traces'' cap of
        Some (outcome, evs) \<Rightarrow> (outcome, sink, evs)
      | None \<Rightarrow>
        (case route (map_sum id (\<lambda>r. TracesRecord \<lparr>ts_tenant = tenant, ts_inner = r\<rparr>)
                       (validate_traces (al_prost lib) (al_to_lowercase lib) bytes (framing_for_transport transport))) accept sink of
           (outcome, sink') \<Rightarrow> (outcome, sink', [])))"

definition ingest_metrics ::
  "aperture_lib \<Rightarrow> (otlp_record \<Rightarrow> 's \<Rightarrow> (otlp_sink_error + unit) \<times> 's) \<Rightarrow> u8 list \<Rightarrow> transport \<Rightarrow> tenant_id \<Rightarrow> u32 option \<Rightarrow> 's \<Rightarrow>
   ingest_outcome \<times> 's \<times> gateway_event list" where
  "ingest_metrics lib accept bytes transport tenant cap sink =
     (case secondary_body_size_guard bytes transport ''metrics'' cap of
        Some (outcome, evs) \<Rightarrow> (outcome, sink, evs)
      | None \<Rightarrow>
        (case route (map_sum id (\<lambda>r. MetricsRecord \<lparr>ts_tenant = tenant, ts_inner = r\<rparr>)
                       (validate_metrics (al_prost lib) (al_to_lowercase lib) bytes (framing_for_transport transport))) accept sink of
           (outcome, sink') \<Rightarrow> (outcome, sink', [])))"

section \<open>The HTTP handlers (\<open>transport.rs\<close>)\<close>

record gateway_config =
  gc_validator :: "validator option"
  gc_recv_body_cap :: "u32 option"

record 's gateway =
  gw_limiter :: concurrency_limiter
  gw_sink :: 's
  gw_events :: "gateway_event list"

definition gw_log :: "gateway_event list \<Rightarrow> 's gateway \<Rightarrow> 's gateway" where
  "gw_log evs gw = gw\<lparr>gw_events := gw_events gw @ evs\<rparr>"

definition outcome_response :: "aperture_lib \<Rightarrow> ingest_outcome \<Rightarrow> ingest_response" where
  "outcome_response lib outcome =
     (case outcome of
        Accepted \<Rightarrow>
          \<lparr>ar_status = 200, ar_content_type = Some ''application/x-protobuf'', ar_retry_after = None,
           ar_www_authenticate = None, ar_body = []\<rparr>
      | Rejected violation \<Rightarrow> text_response 400 (violation_display (al_str_debug lib) violation)
      | SinkRefused e \<Rightarrow> text_response 503 (otlp_sink_error_display e)
      | IngestBodyTooLarge \<Rightarrow>
          \<lparr>ar_status = 413, ar_content_type = None, ar_retry_after = None, ar_www_authenticate = None, ar_body = []\<rparr>)"

text \<open>
  The steps of a handler after the permit, which the three handlers share but for the name of the
  signal and the ingest function.
\<close>

definition handle_admitted ::
  "aperture_lib \<Rightarrow> gateway_config \<Rightarrow> string \<Rightarrow>
   (u8 list \<Rightarrow> transport \<Rightarrow> tenant_id \<Rightarrow> u32 option \<Rightarrow> 's \<Rightarrow> ingest_outcome \<times> 's \<times> gateway_event list) \<Rightarrow>
   system_time \<Rightarrow> ingest_request \<Rightarrow> 's gateway \<Rightarrow> ingest_response \<times> 's gateway" where
  "handle_admitted lib cfg signal ingest now req gw =
     (case authenticate lib (gc_validator cfg) (ingest_http_authorization lib req) signal now of
        (Inl reason, evs) \<Rightarrow> (reject_http_unauthorized reason, gw_log evs gw)
      | (Inr tenant, evs) \<Rightarrow>
        if \<not> is_protobuf_content_type (al_http lib) req then
          (text_response 415 (''unsupported media type; expected application/x-protobuf'' @ [CHR 0x0A]),
           gw_log (evs @ [UnsupportedMediaType signal
             (case Option.bind (ir_content_type req) (hl_to_str (al_http lib)) of Some t \<Rightarrow> t | None \<Rightarrow> [])]) gw)
        else
          (case read_http_body_within_cap (al_http lib) (gc_recv_body_cap cfg) req signal of
             (Inl response, evs') \<Rightarrow> (response, gw_log (evs @ evs') gw)
           | (Inr bytes, evs') \<Rightarrow>
             (case ingest bytes HttpProtobufTransport tenant (gc_recv_body_cap cfg) (gw_sink gw) of
                (outcome, sink', evs'') \<Rightarrow>
                  (outcome_response lib outcome,
                   gw_log (evs @ evs' @ [RequestReceived ''http_protobuf'' signal (length bytes)] @ evs'') (gw\<lparr>gw_sink := sink'\<rparr>)))))"

text \<open>The permit is held from before the rest of the handler until its response is made.\<close>

definition with_permit ::
  "('s gateway \<Rightarrow> 'r \<times> 's gateway) \<Rightarrow> 'r \<Rightarrow> 's gateway \<Rightarrow> 'r \<times> 's gateway" where
  "with_permit handle refusal gw =
     (case limiter_try_acquire (gw_limiter gw) of
        (Inl evs, l) \<Rightarrow> (refusal, gw_log evs (gw\<lparr>gw_limiter := l\<rparr>))
      | (Inr _, l) \<Rightarrow>
        (case handle (gw\<lparr>gw_limiter := l\<rparr>) of
           (response, gw') \<Rightarrow> (response, gw'\<lparr>gw_limiter := limiter_release (gw_limiter gw')\<rparr>)))"

definition handle_ingest_logs ::
  "aperture_lib \<Rightarrow> gateway_config \<Rightarrow> (otlp_record \<Rightarrow> 's \<Rightarrow> (otlp_sink_error + unit) \<times> 's) \<Rightarrow> system_time \<Rightarrow> ingest_request \<Rightarrow>
   's gateway \<Rightarrow> ingest_response \<times> 's gateway" where
  "handle_ingest_logs lib cfg accept now req gw =
     with_permit (handle_admitted lib cfg ''logs'' (ingest_logs lib accept) now req) (refuse_http (cl_cap (gw_limiter gw))) gw"

definition handle_ingest_traces ::
  "aperture_lib \<Rightarrow> gateway_config \<Rightarrow> (otlp_record \<Rightarrow> 's \<Rightarrow> (otlp_sink_error + unit) \<times> 's) \<Rightarrow> system_time \<Rightarrow> ingest_request \<Rightarrow>
   's gateway \<Rightarrow> ingest_response \<times> 's gateway" where
  "handle_ingest_traces lib cfg accept now req gw =
     with_permit (handle_admitted lib cfg ''traces'' (ingest_traces lib accept) now req) (refuse_http (cl_cap (gw_limiter gw))) gw"

definition handle_ingest_metrics ::
  "aperture_lib \<Rightarrow> gateway_config \<Rightarrow> (otlp_record \<Rightarrow> 's \<Rightarrow> (otlp_sink_error + unit) \<times> 's) \<Rightarrow> system_time \<Rightarrow> ingest_request \<Rightarrow>
   's gateway \<Rightarrow> ingest_response \<times> 's gateway" where
  "handle_ingest_metrics lib cfg accept now req gw =
     with_permit (handle_admitted lib cfg ''metrics'' (ingest_metrics lib accept) now req) (refuse_http (cl_cap (gw_limiter gw))) gw"

section \<open>The gRPC services\<close>

datatype grpc_response = GrpcOk | ResourceExhausted string | Unauthenticated string | InvalidArgument string | Unavailable string | GrpcInternal string

definition grpc_outcome :: "aperture_lib \<Rightarrow> ingest_outcome \<Rightarrow> grpc_response" where
  "grpc_outcome lib outcome =
     (case outcome of
        Accepted \<Rightarrow> GrpcOk
      | Rejected violation \<Rightarrow> InvalidArgument (violation_display (al_str_debug lib) violation)
      | IngestBodyTooLarge \<Rightarrow> ResourceExhausted ''aperture: body exceeds max_recv_msg_size cap''
      | SinkRefused e \<Rightarrow> Unavailable (otlp_sink_error_display e))"

text \<open>\<open>bytes\<close> is the re-encoded request.\<close>

definition export_admitted ::
  "aperture_lib \<Rightarrow> gateway_config \<Rightarrow> string \<Rightarrow>
   (u8 list \<Rightarrow> transport \<Rightarrow> tenant_id \<Rightarrow> u32 option \<Rightarrow> 's \<Rightarrow> ingest_outcome \<times> 's \<times> gateway_event list) \<Rightarrow>
   system_time \<Rightarrow> string option \<Rightarrow> u8 list \<Rightarrow> 's gateway \<Rightarrow> grpc_response \<times> 's gateway" where
  "export_admitted lib cfg signal ingest now authorization bytes gw =
     (case authenticate lib (gc_validator cfg) (grpc_authorization lib authorization) signal now of
        (Inl reason, evs) \<Rightarrow> (Unauthenticated reason, gw_log evs gw)
      | (Inr tenant, evs) \<Rightarrow>
        (case ingest bytes Grpc tenant (gc_recv_body_cap cfg) (gw_sink gw) of
           (outcome, sink', evs') \<Rightarrow>
             (grpc_outcome lib outcome, gw_log (evs @ [RequestReceived ''grpc'' signal (length bytes)] @ evs') (gw\<lparr>gw_sink := sink'\<rparr>))))"

definition export_grpc_logs ::
  "aperture_lib \<Rightarrow> gateway_config \<Rightarrow> (otlp_record \<Rightarrow> 's \<Rightarrow> (otlp_sink_error + unit) \<times> 's) \<Rightarrow> system_time \<Rightarrow> string option \<Rightarrow> export_logs \<Rightarrow>
   's gateway \<Rightarrow> grpc_response \<times> 's gateway" where
  "export_grpc_logs lib cfg accept now authorization request gw =
     with_permit (export_admitted lib cfg ''logs'' (ingest_logs lib accept) now authorization (al_encode_logs lib request))
       (ResourceExhausted (refusal_message CapGrpc (cl_cap (gw_limiter gw)))) gw"

definition export_grpc_traces ::
  "aperture_lib \<Rightarrow> gateway_config \<Rightarrow> (otlp_record \<Rightarrow> 's \<Rightarrow> (otlp_sink_error + unit) \<times> 's) \<Rightarrow> system_time \<Rightarrow> string option \<Rightarrow> export_traces \<Rightarrow>
   's gateway \<Rightarrow> grpc_response \<times> 's gateway" where
  "export_grpc_traces lib cfg accept now authorization request gw =
     with_permit (export_admitted lib cfg ''traces'' (ingest_traces lib accept) now authorization (al_encode_traces lib request))
       (ResourceExhausted (refusal_message CapGrpc (cl_cap (gw_limiter gw)))) gw"

definition export_grpc_metrics ::
  "aperture_lib \<Rightarrow> gateway_config \<Rightarrow> (otlp_record \<Rightarrow> 's \<Rightarrow> (otlp_sink_error + unit) \<times> 's) \<Rightarrow> system_time \<Rightarrow> string option \<Rightarrow> export_metrics \<Rightarrow>
   's gateway \<Rightarrow> grpc_response \<times> 's gateway" where
  "export_grpc_metrics lib cfg accept now authorization request gw =
     with_permit (export_admitted lib cfg ''metrics'' (ingest_metrics lib accept) now authorization (al_encode_metrics lib request))
       (ResourceExhausted (refusal_message CapGrpc (cl_cap (gw_limiter gw)))) gw"

section \<open>The gRPC body limit (\<open>body_size_cap.rs\<close>)\<close>

definition GRPC_HEADER_SIZE :: nat where
  "GRPC_HEADER_SIZE = 5"

datatype body_cap_outcome = WithinCap "u8 list" | OverCap u64 | ReadError

datatype body_frame = DataFrame "u8 list" | TrailersFrame | FrameError

definition be_length :: "u8 list \<Rightarrow> u32" where
  "be_length buf = word_rcat [buf ! 1, buf ! 2, buf ! 3, buf ! 4]"

definition grpc_prefix_verdict :: "u8 list \<Rightarrow> u32 \<Rightarrow> body_cap_outcome option" where
  "grpc_prefix_verdict buf limit =
     (if length buf < GRPC_HEADER_SIZE then None
      else if limit < be_length buf then Some (OverCap (ucast (be_length buf)))
      else None)"

text \<open>The loop over the frames of the body, with what is buffered so far.\<close>

fun collect_grpc_frames :: "u32 \<Rightarrow> u8 list \<Rightarrow> body_frame list \<Rightarrow> body_cap_outcome" where
  "collect_grpc_frames limit buf [] =
     (case grpc_prefix_verdict buf limit of Some verdict \<Rightarrow> verdict | None \<Rightarrow> WithinCap buf)"
| "collect_grpc_frames limit buf (FrameError # frames) = ReadError"
| "collect_grpc_frames limit buf (TrailersFrame # frames) = collect_grpc_frames limit buf frames"
| "collect_grpc_frames limit buf (DataFrame chunk # frames) =
     (let buf = buf @ chunk in
      case grpc_prefix_verdict buf limit of
        Some verdict \<Rightarrow> verdict
      | None \<Rightarrow>
          if unat limit + GRPC_HEADER_SIZE < length buf then OverCap (ucast limit + 1)
          else collect_grpc_frames limit buf frames)"

definition collect_grpc_body_within_cap :: "body_frame list \<Rightarrow> u32 \<Rightarrow> body_cap_outcome" where
  "collect_grpc_body_within_cap frames limit = collect_grpc_frames limit [] frames"

text \<open>The service wrapped around the generated one: \<open>inner\<close> answers a request with the given body.\<close>

definition grpc_body_cap_call ::
  "u32 option \<Rightarrow> string \<Rightarrow> (body_frame list \<Rightarrow> grpc_response) \<Rightarrow> body_frame list \<Rightarrow> grpc_response \<times> gateway_event list" where
  "grpc_body_cap_call cap signal inner frames =
     (case active_cap cap of
        None \<Rightarrow> (inner frames, [])
      | Some limit \<Rightarrow>
        (case collect_grpc_body_within_cap frames limit of
           WithinCap bytes \<Rightarrow> (inner [DataFrame bytes], [])
         | OverCap observed \<Rightarrow> (ResourceExhausted (too_large_message limit observed), [BodyTooLarge CapGrpc signal limit observed])
         | ReadError \<Rightarrow> (GrpcInternal ''aperture: failed to read request body'', [])))"

end
