(* ===== verification/Aperture_Readiness.thy ===== *)
theory Aperture_Readiness
  imports Kal_Prelude "HOL-Library.Multiset"
begin

text \<open>
  The readiness state machine of the gateway (\<open>crates/aperture/src/readiness.rs\<close>): its methods, and
  the interleavings of their atomic accesses by any number of threads. The two flags are stored with
  \<open>Release\<close> and loaded with \<open>Acquire\<close>, so a load may miss a store that is not in the
  past of its thread; an exchange that fails is a load too and may have read an older phase.
\<close>

section \<open>Readiness (\<open>readiness.rs\<close>)\<close>

datatype readiness_phase = Starting | Ready | Draining | Failed

datatype readiness_event = ListenersBound | ShutdownDrain | ServeLoopFailed

record readiness_state =
  rd_phase :: readiness_phase
  rd_grpc_bound :: bool
  rd_http_bound :: bool
  rd_events :: "readiness_event list"

definition readiness_new :: readiness_state where
  "readiness_new = \<lparr>rd_phase = Starting, rd_grpc_bound = False, rd_http_bound = False, rd_events = []\<rparr>"

definition readiness_current :: "readiness_state \<Rightarrow> readiness_phase" where
  "readiness_current r = rd_phase r"

text \<open>\<open>compare_exchange\<close> with the event of a success.\<close>

definition readiness_cas ::
  "readiness_phase \<Rightarrow> readiness_phase \<Rightarrow> readiness_event \<Rightarrow> readiness_state \<Rightarrow> bool \<times> readiness_state" where
  "readiness_cas old new ev r =
     (if rd_phase r = old then (True, r\<lparr>rd_phase := new, rd_events := rd_events r @ [ev]\<rparr>) else (False, r))"

text \<open>
  The atomic accesses of the methods. A call in progress is at one of them, and it has in its past the stores of some
  flags, or that the phase has left starting.
\<close>

datatype readiness_access =
  StoreGrpcBound | StoreHttpBound | LoadGrpcBound | LoadHttpBound | ReadyFromStarting |
  DrainFromReady | DrainFromStarting | FailFromReady | FailFromStarting

record readiness_call =
  rc_next :: readiness_access
  rc_saw_grpc :: bool
  rc_saw_http :: bool
  rc_saw_ready :: bool

text \<open>
  One access, with what is left of the call. \<open>stale\<close>: where the call may read an older value it
  does. The phase has no value older than starting, so an exchange from starting cannot fail for a stale value;
  one from ready can, if the call has not seen that the phase left starting.
\<close>

fun access_step :: "bool \<Rightarrow> readiness_call \<Rightarrow> readiness_state \<Rightarrow> readiness_state \<times> readiness_call option" where
  "access_step stale c r =
     (case rc_next c of
        StoreGrpcBound \<Rightarrow> (r\<lparr>rd_grpc_bound := True\<rparr>, Some (c\<lparr>rc_next := LoadGrpcBound, rc_saw_grpc := True\<rparr>))
      | StoreHttpBound \<Rightarrow> (r\<lparr>rd_http_bound := True\<rparr>, Some (c\<lparr>rc_next := LoadGrpcBound, rc_saw_http := True\<rparr>))
      | LoadGrpcBound \<Rightarrow>
          (r, if rd_grpc_bound r \<and> (rc_saw_grpc c \<or> \<not> stale) then Some (c\<lparr>rc_next := LoadHttpBound, rc_saw_grpc := True\<rparr>) else None)
      | LoadHttpBound \<Rightarrow>
          (r, if rd_http_bound r \<and> (rc_saw_http c \<or> \<not> stale) then Some (c\<lparr>rc_next := ReadyFromStarting, rc_saw_http := True\<rparr>) else None)
      | ReadyFromStarting \<Rightarrow> (snd (readiness_cas Starting Ready ListenersBound r), None)
      | DrainFromReady \<Rightarrow>
          (if stale \<and> \<not> rc_saw_ready c then (r, Some (c\<lparr>rc_next := DrainFromStarting\<rparr>))
           else case readiness_cas Ready Draining ShutdownDrain r of
                  (ok, r') \<Rightarrow> (r', if ok then None else Some (c\<lparr>rc_next := DrainFromStarting\<rparr>)))
      | DrainFromStarting \<Rightarrow> (snd (readiness_cas Starting Draining ShutdownDrain r), None)
      | FailFromReady \<Rightarrow>
          (if stale \<and> \<not> rc_saw_ready c then (r, Some (c\<lparr>rc_next := FailFromStarting\<rparr>))
           else case readiness_cas Ready Failed ServeLoopFailed r of
                  (ok, r') \<Rightarrow> (r', if ok then None else Some (c\<lparr>rc_next := FailFromStarting\<rparr>)))
      | FailFromStarting \<Rightarrow> (snd (readiness_cas Starting Failed ServeLoopFailed r), None))"

text \<open>The methods run without interruption.\<close>

definition recompute_ready :: "readiness_state \<Rightarrow> readiness_state" where
  "recompute_ready r =
     (if \<not> (rd_grpc_bound r \<and> rd_http_bound r) then r else snd (readiness_cas Starting Ready ListenersBound r))"

definition mark_grpc_bound :: "readiness_state \<Rightarrow> readiness_state" where
  "mark_grpc_bound r = recompute_ready (r\<lparr>rd_grpc_bound := True\<rparr>)"

definition mark_http_bound :: "readiness_state \<Rightarrow> readiness_state" where
  "mark_http_bound r = recompute_ready (r\<lparr>rd_http_bound := True\<rparr>)"

definition flip_to_draining :: "readiness_state \<Rightarrow> readiness_state" where
  "flip_to_draining r =
     (case readiness_cas Ready Draining ShutdownDrain r of
        (True, r') \<Rightarrow> r' | (False, r') \<Rightarrow> snd (readiness_cas Starting Draining ShutdownDrain r'))"

definition flip_to_failed :: "readiness_state \<Rightarrow> readiness_state" where
  "flip_to_failed r =
     (case readiness_cas Ready Failed ServeLoopFailed r of
        (True, r') \<Rightarrow> r' | (False, r') \<Rightarrow> snd (readiness_cas Starting Failed ServeLoopFailed r'))"

section \<open>Interleavings of the readiness methods\<close>

record readiness_run =
  rr_state :: readiness_state
  rr_pending :: "readiness_call multiset"
  rr_called :: "readiness_call set"

definition method_starts :: "readiness_access set" where
  "method_starts = {StoreGrpcBound, StoreHttpBound, DrainFromReady, FailFromReady}"

text \<open>A method is called by a thread that has in its past what did happen.\<close>

definition call_ok :: "readiness_call \<Rightarrow> readiness_state \<Rightarrow> bool" where
  "call_ok c r \<longleftrightarrow> (rc_saw_grpc c \<longrightarrow> rd_grpc_bound r) \<and> (rc_saw_http c \<longrightarrow> rd_http_bound r) \<and> (rc_saw_ready c \<longrightarrow> rd_phase r \<noteq> Starting)"

text \<open>A thread calls a method, or one call in progress makes its next access.\<close>

inductive readiness_step :: "readiness_run \<Rightarrow> readiness_run \<Rightarrow> bool" where
  called: "rc_next c \<in> method_starts \<Longrightarrow> call_ok c (rr_state s) \<Longrightarrow>
    readiness_step s (s\<lparr>rr_pending := add_mset c (rr_pending s), rr_called := insert c (rr_called s)\<rparr>)"
| accessed: "c \<in># rr_pending s \<Longrightarrow> access_step stale c (rr_state s) = (r', rest) \<Longrightarrow>
    readiness_step s (s\<lparr>rr_state := r',
      rr_pending := rr_pending s - {#c#} + (case rest of None \<Rightarrow> {#} | Some d \<Rightarrow> {#d#})\<rparr>)"

definition readiness_run_init :: readiness_run where
  "readiness_run_init = \<lparr>rr_state = readiness_new, rr_pending = {#}, rr_called = {}\<rparr>"

inductive readiness_reaches :: "readiness_run \<Rightarrow> bool" where
  start: "readiness_reaches readiness_run_init"
| step: "readiness_reaches s \<Longrightarrow> readiness_step s s' \<Longrightarrow> readiness_reaches s'"

text \<open>A call that says that one listener is bound, by a thread that knows that the other is.\<close>

definition second_bound :: "readiness_call \<Rightarrow> bool" where
  "second_bound c \<longleftrightarrow> rc_next c = StoreHttpBound \<and> rc_saw_grpc c \<or> rc_next c = StoreGrpcBound \<and> rc_saw_http c"

abbreviation flip :: "readiness_call \<Rightarrow> bool" where
  "flip c \<equiv> rc_next c = DrainFromReady \<or> rc_next c = FailFromReady"

text \<open>The events tell the path taken through the phases.\<close>

fun phase_path :: "readiness_phase \<Rightarrow> readiness_event list \<Rightarrow> bool" where
  "phase_path Starting evs = (evs = [])"
| "phase_path Ready evs = (evs = [ListenersBound])"
| "phase_path Draining evs = (evs = [ShutdownDrain] \<or> evs = [ListenersBound, ShutdownDrain])"
| "phase_path Failed evs = (evs = [ServeLoopFailed] \<or> evs = [ListenersBound, ServeLoopFailed])"

text \<open>What holds of each call in progress, and of the state.\<close>

definition pending_ok :: "readiness_run \<Rightarrow> readiness_call \<Rightarrow> bool" where
  "pending_ok s c \<longleftrightarrow> call_ok c (rr_state s) \<and>
     (rc_next c = LoadHttpBound \<longrightarrow> rd_grpc_bound (rr_state s)) \<and>
     (rc_next c = ReadyFromStarting \<longrightarrow> rd_grpc_bound (rr_state s) \<and> rd_http_bound (rr_state s)) \<and>
     (rc_next c \<in> {DrainFromReady, DrainFromStarting} \<longrightarrow> (\<exists>d \<in> rr_called s. rc_next d = DrainFromReady)) \<and>
     (rc_next c \<in> {FailFromReady, FailFromStarting} \<longrightarrow> (\<exists>d \<in> rr_called s. rc_next d = FailFromReady))"

definition phase_inv :: "readiness_run \<Rightarrow> bool" where
  "phase_inv s \<longleftrightarrow> phase_path (rd_phase (rr_state s)) (rd_events (rr_state s)) \<and>
     (ListenersBound \<in> set (rd_events (rr_state s)) \<longrightarrow> rd_grpc_bound (rr_state s) \<and> rd_http_bound (rr_state s)) \<and>
     (rd_phase (rr_state s) = Draining \<longrightarrow> (\<exists>d \<in> rr_called s. rc_next d = DrainFromReady)) \<and>
     (rd_phase (rr_state s) = Failed \<longrightarrow> (\<exists>d \<in> rr_called s. rc_next d = FailFromReady)) \<and>
     (\<forall>c \<in># rr_pending s. pending_ok s c)"

text \<open>What a call that has completed has seen to: it is under way, or the phase is in \<open>P\<close>.\<close>

definition seen_to :: "(readiness_call \<Rightarrow> bool) \<Rightarrow> (readiness_call \<Rightarrow> bool) \<Rightarrow> readiness_phase set \<Rightarrow> readiness_run \<Rightarrow> bool" where
  "seen_to start under_way P s \<longleftrightarrow>
     ((\<exists>c \<in> rr_called s. start c) \<longrightarrow> (\<exists>c \<in># rr_pending s. under_way c) \<or> rd_phase (rr_state s) \<in> P)"

fun promoting :: "readiness_call \<Rightarrow> bool" where
  "promoting c \<longleftrightarrow> second_bound c \<or>
     rc_next c \<in> {LoadGrpcBound, LoadHttpBound, ReadyFromStarting} \<and> rc_saw_grpc c \<and> rc_saw_http c"

fun flipping :: "readiness_call \<Rightarrow> bool" where
  "flipping c \<longleftrightarrow> rc_next c \<in> {DrainFromReady, DrainFromStarting, FailFromReady, FailFromStarting}"

definition call_inv :: "readiness_run \<Rightarrow> bool" where
  "call_inv s \<longleftrightarrow> seen_to second_bound promoting {Ready, Draining, Failed} s \<and>
     seen_to flip flipping {Ready, Draining, Failed} s \<and>
     seen_to (\<lambda>c. flip c \<and> rc_saw_ready c) (\<lambda>c. flip c \<and> rc_saw_ready c) {Draining, Failed} s"

lemma readiness_step_cases [consumes 1, case_names called accessed]:
  assumes "readiness_step s s'"
  obtains c where "rc_next c \<in> method_starts" "call_ok c (rr_state s)" "rr_state s' = rr_state s"
      "rr_pending s' = add_mset c (rr_pending s)" "rr_called s' = insert c (rr_called s)"
  | stale c M where "rr_pending s = add_mset c M" "rr_state s' = fst (access_step stale c (rr_state s))"
      "rr_pending s' = (case snd (access_step stale c (rr_state s)) of None \<Rightarrow> M | Some d \<Rightarrow> add_mset d M)"
      "rr_called s' = rr_called s"
  using assms
proof (cases rule: readiness_step.cases)
  case (called c)
  then show ?thesis
    using that(1) [of c] by simp
next
  case (accessed c stale r' rest)
  moreover from accessed(2) obtain M where "rr_pending s = add_mset c M"
    by (metis insert_DiffM)
  ultimately show ?thesis
    using that(2) [of c M stale] by (simp split: option.splits)
qed

lemma access_frame:
  "rd_grpc_bound r \<Longrightarrow> rd_grpc_bound (fst (access_step stale c r))" "rd_http_bound r \<Longrightarrow> rd_http_bound (fst (access_step stale c r))"
  "rd_phase r \<noteq> Starting \<Longrightarrow> rd_phase (fst (access_step stale c r)) \<noteq> Starting"
  "rd_phase r \<in> {Draining, Failed} \<Longrightarrow> rd_phase (fst (access_step stale c r)) = rd_phase r \<and> rd_events (fst (access_step stale c r)) = rd_events r"
  by (cases "rc_next c"; simp add: readiness_cas_def; auto)+

text \<open>What an access of a call that is under way to something makes of it.\<close>

lemma promoting_access:
  assumes "promoting c" and "call_ok c r"
  shows "rd_phase (fst (access_step stale c r)) \<in> {Ready, Draining, Failed} \<or>
    (\<exists>d. snd (access_step stale c r) = Some d \<and> promoting d)"
  using assms by (cases "rc_next c"; cases "rd_phase r") (simp_all add: second_bound_def call_ok_def readiness_cas_def)

lemma flipping_access:
  assumes "flipping c" and "call_ok c r"
  shows "rd_phase (fst (access_step stale c r)) \<in> {Ready, Draining, Failed} \<or>
    (\<exists>d. snd (access_step stale c r) = Some d \<and> flipping d)"
  using assms by (cases "rc_next c"; cases "rd_phase r") (auto simp: call_ok_def readiness_cas_def)

lemma flip_access:
  assumes "flip c \<and> rc_saw_ready c" and "call_ok c r"
  shows "rd_phase (fst (access_step stale c r)) \<in> {Draining, Failed} \<or>
    (\<exists>d. snd (access_step stale c r) = Some d \<and> flip d \<and> rc_saw_ready d)"
  using assms by (cases "rc_next c"; cases "rd_phase r") (auto simp: call_ok_def readiness_cas_def)

declare access_step.simps [simp del]

lemma phase_inv_step:
  assumes "readiness_step s s'" and inv: "phase_inv s"
  shows "phase_inv s'"
  using assms(1)
proof (cases rule: readiness_step_cases)
  case (called c)
  with inv show ?thesis
    by (auto simp: phase_inv_def pending_ok_def method_starts_def)
next
  case (accessed stale c M)
  have old: "pending_ok s' d" if "d \<in># M" for d
    using that inv accessed(1,2,4) access_frame [of "rr_state s" stale c] by (auto simp: phase_inv_def pending_ok_def call_ok_def)
  have c: "pending_ok s c"
    using inv accessed(1) by (simp add: phase_inv_def)
  have new: "pending_ok s' d" if "snd (access_step stale c (rr_state s)) = Some d" for d
    using that c accessed(2,4) by (cases "rc_next c") (auto simp: access_step.simps pending_ok_def call_ok_def readiness_cas_def split: if_splits)
  have "phase_path (rd_phase (rr_state s')) (rd_events (rr_state s')) \<and>
     (ListenersBound \<in> set (rd_events (rr_state s')) \<longrightarrow> rd_grpc_bound (rr_state s') \<and> rd_http_bound (rr_state s')) \<and>
     (rd_phase (rr_state s') = Draining \<longrightarrow> (\<exists>d \<in> rr_called s'. rc_next d = DrainFromReady)) \<and>
     (rd_phase (rr_state s') = Failed \<longrightarrow> (\<exists>d \<in> rr_called s'. rc_next d = FailFromReady))"
    using inv c accessed(2,4)
    by (cases "rc_next c"; cases "rd_phase (rr_state s)") (auto simp: access_step.simps phase_inv_def pending_ok_def readiness_cas_def)
  with old new accessed(3) show ?thesis
    by (auto simp: phase_inv_def split: option.splits)
qed

text \<open>A call keeps what it has seen to if each access of one under way leaves it under way or the phase in \<open>P\<close>.\<close>

lemma seen_to_step:
  assumes "readiness_step s s'" and "phase_inv s" and "seen_to start under_way P s"
    and "\<And>c. start c \<Longrightarrow> under_way c"
    and "\<And>stale c r. under_way c \<Longrightarrow> call_ok c r \<Longrightarrow> rd_phase (fst (access_step stale c r)) \<in> P \<or>
      (\<exists>d. snd (access_step stale c r) = Some d \<and> under_way d)"
    and "\<And>stale c r. rd_phase r \<in> P \<Longrightarrow> rd_phase (fst (access_step stale c r)) \<in> P"
  shows "seen_to start under_way P s'"
  using assms(1)
proof (cases rule: readiness_step_cases)
  case (called c)
  with assms(3,4) show ?thesis
    by (auto simp: seen_to_def)
next
  case (accessed stale c M)
  show ?thesis
  proof (cases "(\<exists>c \<in> rr_called s. start c) \<and> rd_phase (rr_state s') \<notin> P")
    case True
    then have "rd_phase (rr_state s) \<notin> P"
      using assms(6) accessed(2) by metis
    with True assms(3) obtain d where d: "d \<in># rr_pending s" "under_way d"
      by (auto simp: seen_to_def)
    moreover have "call_ok c (rr_state s)"
      using assms(2) accessed(1) by (simp add: phase_inv_def pending_ok_def)
    ultimately show ?thesis
      using assms(5) [of c "rr_state s" stale] accessed True by (cases "d = c") (auto simp: seen_to_def split: option.splits)
  qed (use accessed in \<open>auto simp: seen_to_def\<close>)
qed

lemma call_inv_step:
  assumes "readiness_step s s'" and "phase_inv s" and "call_inv s"
  shows "call_inv s'"
  unfolding call_inv_def
proof (intro conjI)
  have keeps: "rd_phase (fst (access_step stale c r)) \<in> {Ready, Draining, Failed}" if "rd_phase r \<in> {Ready, Draining, Failed}" for stale c r
    using access_frame(3) [of r stale c] that by (cases "rd_phase (fst (access_step stale c r))") auto
  show "seen_to second_bound promoting {Ready, Draining, Failed} s'"
    using assms(3) by (intro seen_to_step [OF assms(1,2)] promoting_access keeps) (simp_all add: call_inv_def)
  show "seen_to flip flipping {Ready, Draining, Failed} s'"
    using assms(3) by (intro seen_to_step [OF assms(1,2)] flipping_access keeps) (auto simp: call_inv_def)
  show "seen_to (\<lambda>c. flip c \<and> rc_saw_ready c) (\<lambda>c. flip c \<and> rc_saw_ready c) {Draining, Failed} s'"
    using assms(3) access_frame(4) by (intro seen_to_step [OF assms(1,2)] flip_access) (auto simp: call_inv_def)
qed

lemma readiness_invs: "readiness_reaches s \<Longrightarrow> phase_inv s \<and> call_inv s"
proof (induction rule: readiness_reaches.induct)
  case start
  show ?case
    by (simp add: phase_inv_def call_inv_def seen_to_def readiness_run_init_def readiness_new_def)
qed (blast intro: phase_inv_step call_inv_step)

text \<open>Run without interruption, with nothing stale, the accesses of a call are the method.\<close>

fun run_accesses :: "nat \<Rightarrow> readiness_call \<Rightarrow> readiness_state \<Rightarrow> readiness_state" where
  "run_accesses 0 c r = r"
| "run_accesses (Suc n) c r =
     (case access_step False c r of (r', None) \<Rightarrow> r' | (r', Some d) \<Rightarrow> run_accesses n d r')"

lemma run_accesses_methods:
  "rc_next c = StoreGrpcBound \<Longrightarrow> run_accesses 4 c r = mark_grpc_bound r"
  "rc_next c = StoreHttpBound \<Longrightarrow> run_accesses 4 c r = mark_http_bound r"
  "rc_next c = DrainFromReady \<Longrightarrow> run_accesses 2 c r = flip_to_draining r"
  "rc_next c = FailFromReady \<Longrightarrow> run_accesses 2 c r = flip_to_failed r"
  by (simp_all add: numeral_2_eq_2 eval_nat_numeral mark_grpc_bound_def mark_http_bound_def recompute_ready_def access_step.simps
      flip_to_draining_def flip_to_failed_def readiness_cas_def)

section \<open>Concrete runs\<close>

datatype readiness_move = Call readiness_call | Access nat bool

fun readiness_perform ::
  "readiness_move list \<Rightarrow> readiness_state \<times> readiness_call list \<times> readiness_call list \<Rightarrow>
   (readiness_state \<times> readiness_call list \<times> readiness_call list) option" where
  "readiness_perform [] s = Some s"
| "readiness_perform (Call c # ms) (r, cs, called) =
     (if rc_next c \<in> {StoreGrpcBound, StoreHttpBound, DrainFromReady, FailFromReady} \<and> call_ok c r
      then readiness_perform ms (r, c # cs, c # called) else None)"
| "readiness_perform (Access i stale # ms) (r, cs, called) =
     (if i < length cs then
        (case access_step stale (cs ! i) r of
           (r', rest) \<Rightarrow> readiness_perform ms (r', (case rest of None \<Rightarrow> [] | Some d \<Rightarrow> [d]) @ take i cs @ drop (Suc i) cs, called))
      else None)"

lemma readiness_perform_reaches:
  "readiness_perform ms (r, cs, called) = Some (r', cs', called') \<Longrightarrow>
   readiness_reaches \<lparr>rr_state = r, rr_pending = mset cs, rr_called = set called\<rparr> \<Longrightarrow>
   readiness_reaches \<lparr>rr_state = r', rr_pending = mset cs', rr_called = set called'\<rparr>"
proof (induction ms "(r, cs, called)" arbitrary: r cs called rule: readiness_perform.induct)
  case (2 c ms r cs called)
  then have "readiness_reaches \<lparr>rr_state = r, rr_pending = mset (c # cs), rr_called = set (c # called)\<rparr>"
    using readiness_reaches.step [OF 2(3) readiness_step.called [of c]]
    by (simp add: method_starts_def split: if_splits)
  with 2 show ?case
    by (simp split: if_splits)
next
  case (3 i stale ms r cs called)
  let ?s = "\<lparr>rr_state = r, rr_pending = mset cs, rr_called = set called\<rparr>"
  obtain r1 rest where a: "access_step stale (cs ! i) r = (r1, rest)"
    by fastforce
  have i: "i < length cs"
    using 3(2) by (simp split: if_splits)
  have m: "mset (take i cs @ drop (Suc i) cs) = mset cs - {#cs ! i#}"
    using arg_cong [OF id_take_nth_drop [OF i], of mset] by simp
  have "readiness_reaches \<lparr>rr_state = r1, rr_pending = mset ((case rest of None \<Rightarrow> [] | Some d \<Rightarrow> [d]) @ take i cs @ drop (Suc i) cs),
      rr_called = set called\<rparr>"
    using readiness_reaches.step [OF 3(3) readiness_step.accessed [of "cs ! i" ?s stale r1 rest]] a i m
    by (simp split: option.splits)
  with 3 a i show ?case
    by simp
qed simp

definition call_at :: "readiness_access \<Rightarrow> bool \<Rightarrow> bool \<Rightarrow> readiness_call" where
  "call_at a saw_grpc saw_ready = \<lparr>rc_next = a, rc_saw_grpc = saw_grpc, rc_saw_http = False, rc_saw_ready = saw_ready\<rparr>"

lemma readiness_runs:
  assumes "readiness_perform ms (readiness_new, [], []) = Some (r, cs, called)"
  shows "readiness_reaches \<lparr>rr_state = r, rr_pending = mset cs, rr_called = set called\<rparr>"
  using readiness_perform_reaches [OF assms] readiness_reaches.start by (simp add: readiness_run_init_def)

text \<open>The start as the code composes it, and a shutdown after it.\<close>

lemma readiness_start_run:
  "readiness_perform ([Call (call_at StoreGrpcBound False False), Access 0 False, Access 0 False, Access 0 False,
     Call (call_at StoreHttpBound True False)] @ replicate 4 (Access 0 False)) (readiness_new, [], []) =
   Some (\<lparr>rd_phase = Ready, rd_grpc_bound = True, rd_http_bound = True, rd_events = [ListenersBound]\<rparr>, [],
     [call_at StoreHttpBound True False, call_at StoreGrpcBound False False])"
  by code_simp

lemma readiness_shutdown_run:
  "readiness_perform ([Call (call_at StoreGrpcBound False False), Access 0 False, Access 0 False, Access 0 False,
     Call (call_at StoreHttpBound True False)] @ replicate 4 (Access 0 False) @
     [Call (call_at DrainFromReady True True), Access 0 True]) (readiness_new, [], []) =
   Some (\<lparr>rd_phase = Draining, rd_grpc_bound = True, rd_http_bound = True, rd_events = [ListenersBound, ShutdownDrain]\<rparr>, [],
     [call_at DrainFromReady True True, call_at StoreHttpBound True False, call_at StoreGrpcBound False False])"
  by code_simp

section \<open>Properties\<close>

text \<open>
  C27. In every interleaving of the readiness methods, with loads as stale as \<open>Release\<close> and
  \<open>Acquire\<close> allow, the phases move only forward: one starts, becomes ready only when both listeners
  are bound, and never leaves draining or failed; each transition is announced exactly once, in order. Once no
  call is in progress: if one listener was reported by a thread that knew of the other, as the code that starts
  the gateway does, and no shutdown or failure was signalled, the phase is ready; a shutdown or failure that was
  signalled has not left it starting; and one that was signalled by a thread that knew that the phase had left
  starting has made it draining or failed.
\<close>

theorem readiness_interleavings:
  assumes "readiness_reaches s"
  shows "phase_path (rd_phase (rr_state s)) (rd_events (rr_state s)) \<and>
    (rd_phase (rr_state s) = Ready \<longrightarrow> rd_grpc_bound (rr_state s) \<and> rd_http_bound (rr_state s)) \<and>
    (\<forall>s'. readiness_step s s' \<and> rd_phase (rr_state s) \<in> {Draining, Failed} \<longrightarrow>
       rd_phase (rr_state s') = rd_phase (rr_state s) \<and> rd_events (rr_state s') = rd_events (rr_state s)) \<and>
    (rr_pending s = {#} \<longrightarrow>
       ((\<exists>c \<in> rr_called s. second_bound c) \<and> (\<forall>c \<in> rr_called s. \<not> flip c) \<longrightarrow> rd_phase (rr_state s) = Ready) \<and>
       ((\<exists>c \<in> rr_called s. flip c) \<longrightarrow> rd_phase (rr_state s) \<noteq> Starting) \<and>
       ((\<exists>c \<in> rr_called s. flip c \<and> rc_saw_ready c) \<longrightarrow> rd_phase (rr_state s) \<in> {Draining, Failed}))"
proof (intro conjI)
  have p: "phase_inv s" and c: "call_inv s"
    using readiness_invs [OF assms] by auto
  show "phase_path (rd_phase (rr_state s)) (rd_events (rr_state s))"
    "rd_phase (rr_state s) = Ready \<longrightarrow> rd_grpc_bound (rr_state s) \<and> rd_http_bound (rr_state s)"
    using p by (auto simp: phase_inv_def)
  show "\<forall>s'. readiness_step s s' \<and> rd_phase (rr_state s) \<in> {Draining, Failed} \<longrightarrow>
       rd_phase (rr_state s') = rd_phase (rr_state s) \<and> rd_events (rr_state s') = rd_events (rr_state s)"
  proof (intro allI impI, elim conjE)
    fix s' assume "readiness_step s s'" and "rd_phase (rr_state s) \<in> {Draining, Failed}"
    then show "rd_phase (rr_state s') = rd_phase (rr_state s) \<and> rd_events (rr_state s') = rd_events (rr_state s)"
      using access_frame(4) by (cases rule: readiness_step_cases) metis+
  qed
  show "rr_pending s = {#} \<longrightarrow>
       ((\<exists>c \<in> rr_called s. second_bound c) \<and> (\<forall>c \<in> rr_called s. \<not> flip c) \<longrightarrow> rd_phase (rr_state s) = Ready) \<and>
       ((\<exists>c \<in> rr_called s. flip c) \<longrightarrow> rd_phase (rr_state s) \<noteq> Starting) \<and>
       ((\<exists>c \<in> rr_called s. flip c \<and> rc_saw_ready c) \<longrightarrow> rd_phase (rr_state s) \<in> {Draining, Failed})"
  proof
    assume none: "rr_pending s = {#}"
    then have "(\<exists>c \<in> rr_called s. second_bound c) \<longrightarrow> rd_phase (rr_state s) \<in> {Ready, Draining, Failed}"
      "(\<exists>c \<in> rr_called s. flip c) \<longrightarrow> rd_phase (rr_state s) \<in> {Ready, Draining, Failed}"
      "(\<exists>c \<in> rr_called s. flip c \<and> rc_saw_ready c) \<longrightarrow> rd_phase (rr_state s) \<in> {Draining, Failed}"
      using c by (simp_all add: call_inv_def seen_to_def)
    moreover have "rd_phase (rr_state s) \<in> {Draining, Failed} \<longrightarrow> (\<exists>c \<in> rr_called s. flip c)"
      using p unfolding phase_inv_def by blast
    ultimately show "((\<exists>c \<in> rr_called s. second_bound c) \<and> (\<forall>c \<in> rr_called s. \<not> flip c) \<longrightarrow> rd_phase (rr_state s) = Ready) \<and>
       ((\<exists>c \<in> rr_called s. flip c) \<longrightarrow> rd_phase (rr_state s) \<noteq> Starting) \<and>
       ((\<exists>c \<in> rr_called s. flip c \<and> rc_saw_ready c) \<longrightarrow> rd_phase (rr_state s) \<in> {Draining, Failed})"
      by (cases "rd_phase (rr_state s)") simp_all
  qed
qed

text \<open>
  Without that order the gateway may never become ready: two threads that report a listener each can miss each
  other's store, and both calls end with the phase starting.
\<close>

theorem readiness_may_stick:
  "\<exists>s. readiness_reaches s \<and> rr_pending s = {#} \<and> rc_next ` rr_called s = {StoreGrpcBound, StoreHttpBound} \<and>
     rd_grpc_bound (rr_state s) \<and> rd_http_bound (rr_state s) \<and> rd_phase (rr_state s) = Starting"
proof -
  have "readiness_perform [Call (call_at StoreGrpcBound False False), Call (call_at StoreHttpBound False False),
      Access 0 True, Access 1 True, Access 0 True, Access 0 True, Access 0 True] (readiness_new, [], []) =
    Some (\<lparr>rd_phase = Starting, rd_grpc_bound = True, rd_http_bound = True, rd_events = []\<rparr>, [],
      [call_at StoreHttpBound False False, call_at StoreGrpcBound False False])"
    by code_simp
  from readiness_runs [OF this] show ?thesis
    by (intro exI, intro conjI) (assumption, simp_all add: call_at_def insert_commute)
qed

text \<open>
  A failure can be lost: \<open>flip_to_failed\<close> looks first for ready and then for starting, and when the
  second listener is bound in between, neither exchange succeeds. Every call has completed, the failure
  has been signalled, and the gateway is ready, with no event of the failure.
\<close>

theorem readiness_failure_lost:
  "\<exists>s. readiness_reaches s \<and> rr_pending s = {#} \<and> (\<exists>c \<in> rr_called s. rc_next c = FailFromReady) \<and>
     rd_phase (rr_state s) = Ready \<and> rd_events (rr_state s) = [ListenersBound]"
proof -
  have "readiness_perform ([Call (call_at StoreGrpcBound False False), Access 0 False, Access 0 False, Access 0 False,
      Call (call_at FailFromReady True False), Access 0 False, Call (call_at StoreHttpBound True False)] @
      replicate 4 (Access 0 False) @ [Access 0 False]) (readiness_new, [], []) =
    Some (\<lparr>rd_phase = Ready, rd_grpc_bound = True, rd_http_bound = True, rd_events = [ListenersBound]\<rparr>, [],
      [call_at StoreHttpBound True False, call_at FailFromReady True False, call_at StoreGrpcBound False False])"
    by code_simp
  from readiness_runs [OF this] show ?thesis
    by (intro exI, intro conjI) (assumption, simp_all add: call_at_def)
qed

theorem readiness_interleavings_witness:
  "readiness_reaches \<lparr>rr_state = \<lparr>rd_phase = Draining, rd_grpc_bound = True, rd_http_bound = True, rd_events = [ListenersBound, ShutdownDrain]\<rparr>,
     rr_pending = {#}, rr_called = set [call_at DrainFromReady True True, call_at StoreHttpBound True False, call_at StoreGrpcBound False False]\<rparr> \<and>
   phase_path Draining [ListenersBound, ShutdownDrain] \<and>
   second_bound (call_at StoreHttpBound True False)"
proof -
  note shutdown = readiness_runs [OF readiness_shutdown_run]
  from readiness_interleavings [OF shutdown] shutdown show ?thesis
    by (simp add: second_bound_def call_at_def)
qed

end
