(* ===== verification/Aperture_Lifecycle.thy ===== *)
theory Aperture_Lifecycle
  imports Aperture_Gateway Aperture_Readiness
begin

text \<open>
  The life of a gateway (\<open>crates/aperture/src\<close>: \<open>shutdown.rs\<close>, the verdict of a serving loop and the
  probes of \<open>transport.rs\<close>, the wiring of \<open>compose.rs\<close>), and its limiter under arriving and finishing
  requests.
\<close>

section \<open>Probes (\<open>transport.rs\<close>)\<close>

definition handle_readyz :: "readiness_state \<Rightarrow> ingest_response" where
  "handle_readyz r =
     (case readiness_current r of
        Starting \<Rightarrow> text_response 503 (''starting'' @ [CHR 0x0A])
      | Ready \<Rightarrow> text_response 200 (''ready'' @ [CHR 0x0A])
      | Draining \<Rightarrow> text_response 503 (''draining'' @ [CHR 0x0A])
      | Failed \<Rightarrow> text_response 503 (''failed'' @ [CHR 0x0A]))"

definition handle_healthz :: ingest_response where
  "handle_healthz = text_response 200 (''ok'' @ [CHR 0x0A])"

section \<open>Serving loops\<close>

datatype serve_outcome = Graceful | ServeFailed

datatype lifecycle_event =
  ServeLoopFailedEvent string string |
  ShutdownInitiated string nat |
  InFlightDrained u32 |
  DrainDeadlineExceeded u32 |
  ShutdownComplete nat

definition resolve_serve_outcome ::
  "string + unit \<Rightarrow> bool \<Rightarrow> string \<Rightarrow> readiness_state \<Rightarrow> serve_outcome \<times> readiness_state \<times> lifecycle_event list" where
  "resolve_serve_outcome serve_result shutdown_requested transport r =
     (if shutdown_requested then (Graceful, r, [])
      else
        (ServeFailed, flip_to_failed r,
         [ServeLoopFailedEvent transport
            (case serve_result of Inl e \<Rightarrow> e | Inr _ \<Rightarrow> ''serving loop returned without a shutdown request'')]))"

section \<open>Shutdown (\<open>shutdown.rs\<close>)\<close>

datatype shutdown_trigger = HandleShutdown | Sigterm | Sigint

fun trigger_str :: "shutdown_trigger \<Rightarrow> string" where
  "trigger_str HandleShutdown = ''handle_shutdown''"
| "trigger_str Sigterm = ''SIGTERM''"
| "trigger_str Sigint = ''SIGINT''"

datatype drain_outcome = CleanDrain u32 | DeadlineExceeded u32 | DrainServeFailed

fun drain_exit_code :: "drain_outcome \<Rightarrow> nat" where
  "drain_exit_code (CleanDrain _) = 0"
| "drain_exit_code (DeadlineExceeded _) = 1"
| "drain_exit_code DrainServeFailed = 3"

text \<open>\<open>u32::saturating_add\<close>.\<close>

definition sum_in_flight :: "u32 \<Rightarrow> u32 \<Rightarrow> u32" where
  "sum_in_flight grpc http = (if unat grpc + unat http < 2 ^ 32 then grpc + http else - 1)"

definition serve_death_observed :: "serve_outcome \<Rightarrow> serve_outcome \<Rightarrow> bool" where
  "serve_death_observed grpc http = (grpc = ServeFailed \<or> http = ServeFailed)"

text \<open>
  What the world does during a shutdown: the limiters when it begins, and either the two serving tasks
  joined before the deadline, \<open>None\<close> a task that panicked or was cancelled, or the limiters when the
  deadline expires.
\<close>

record limiters =
  li_grpc :: concurrency_limiter
  li_http :: concurrency_limiter

datatype drain_race = Joined "serve_outcome option" "serve_outcome option" | Elapsed limiters

definition drain_verdict :: "u32 \<Rightarrow> drain_race \<Rightarrow> drain_outcome \<times> lifecycle_event list" where
  "drain_verdict initial_in_flight race =
     (case race of
        Joined grpc http \<Rightarrow>
          if serve_death_observed (case grpc of Some v \<Rightarrow> v | None \<Rightarrow> Graceful) (case http of Some v \<Rightarrow> v | None \<Rightarrow> Graceful)
          then (DrainServeFailed, [])
          else (CleanDrain initial_in_flight, [InFlightDrained initial_in_flight])
      | Elapsed now \<Rightarrow>
          let dropped_count = sum_in_flight (limiter_in_flight (li_grpc now)) (limiter_in_flight (li_http now)) in
          (DeadlineExceeded dropped_count, [DrainDeadlineExceeded dropped_count]))"

definition orchestrate_shutdown ::
  "shutdown_trigger \<Rightarrow> nat \<Rightarrow> limiters \<Rightarrow> drain_race \<Rightarrow> readiness_state \<Rightarrow>
   drain_outcome \<times> readiness_state \<times> lifecycle_event list" where
  "orchestrate_shutdown trigger drain_deadline_ms now race r =
     (let initial_in_flight = sum_in_flight (limiter_in_flight (li_grpc now)) (limiter_in_flight (li_http now));
          (outcome, evs) = drain_verdict initial_in_flight race in
      (outcome, flip_to_draining r,
       ShutdownInitiated (trigger_str trigger) drain_deadline_ms # evs @ [ShutdownComplete (drain_exit_code outcome)]))"

section \<open>Requests at a limiter\<close>

text \<open>Requests in flight, with the limiter: one arrives and is admitted or refused, or one finishes.\<close>

record limiter_run =
  lr_limiter :: concurrency_limiter
  lr_in_flight :: nat

inductive limiter_step :: "limiter_run \<Rightarrow> gateway_event list \<Rightarrow> limiter_run \<Rightarrow> bool" where
  admitted: "limiter_try_acquire (lr_limiter s) = (Inr (), l) \<Longrightarrow>
    limiter_step s [] (s\<lparr>lr_limiter := l, lr_in_flight := lr_in_flight s + 1\<rparr>)"
| refused: "limiter_try_acquire (lr_limiter s) = (Inl evs, l) \<Longrightarrow> limiter_step s evs (s\<lparr>lr_limiter := l\<rparr>)"
| finished: "0 < lr_in_flight s \<Longrightarrow>
    limiter_step s [] (s\<lparr>lr_limiter := limiter_release (lr_limiter s), lr_in_flight := lr_in_flight s - 1\<rparr>)"

inductive limiter_reaches :: "u32 \<Rightarrow> cap_transport \<Rightarrow> limiter_run \<Rightarrow> bool" for cap transport where
  start: "limiter_reaches cap transport \<lparr>lr_limiter = limiter_new cap transport, lr_in_flight = 0\<rparr>"
| step: "limiter_reaches cap transport s \<Longrightarrow> limiter_step s evs s' \<Longrightarrow> limiter_reaches cap transport s'"

inductive_simps limiter_step_iff: "limiter_step s evs s'"

lemma limiter_inv:
  "limiter_reaches cap transport s \<Longrightarrow>
     cl_available (lr_limiter s) + lr_in_flight s = unat cap \<and> cl_cap (lr_limiter s) = cap \<and> cl_transport (lr_limiter s) = transport"
proof (induction rule: limiter_reaches.induct)
  case start
  show ?case
    by (simp add: limiter_new_def)
next
  case (step s evs s')
  from step(2) show ?case
    using step.IH by (cases rule: limiter_step.cases) (auto simp: limiter_try_acquire_def limiter_release_def split: if_splits)
qed

lemma limiter_in_flight_exact:
  assumes "cl_available l + n = unat (cl_cap l)"
  shows "unat (limiter_in_flight l) = n"
proof -
  have "cl_available l \<le> unat (cl_cap l)"
    using assms by simp
  moreover from this have "unat (word_of_nat (cl_available l) :: u32) = cl_available l"
    using unsigned_less [where w = "cl_cap l" and ?'a = nat] by (simp add: unat_of_nat take_bit_nat_eq_self)
  ultimately show ?thesis
    using assms by (simp add: limiter_in_flight_def Let_def word_le_nat_alt unat_sub_if')
qed

section \<open>Properties\<close>

text \<open>
  The limit on concurrent requests is exact: however requests arrive and finish, never more than the
  configured number are in flight, the count the shutdown reads is the number in flight, and a request
  is refused only when exactly that number are, with one event that says so.
\<close>

theorem limiter_exact:
  assumes "limiter_reaches cap transport s"
  shows "lr_in_flight s \<le> unat cap \<and> unat (limiter_in_flight (lr_limiter s)) = lr_in_flight s \<and>
    (case limiter_try_acquire (lr_limiter s) of
       (Inl evs, _) \<Rightarrow> lr_in_flight s = unat cap \<and> evs = [ConcurrencyCapHit transport cap cap]
     | (Inr _, _) \<Rightarrow> lr_in_flight s < unat cap)"
  using limiter_inv [OF assms] limiter_in_flight_exact [of "lr_limiter s" "lr_in_flight s"]
  by (auto simp: limiter_try_acquire_def)

text \<open>
  The verdict of a shutdown is honest. The exit code is 0 exactly when both serving tasks ended
  without reporting a death before the deadline, a task that panicked counting as such, and then the number reported drained is the number of requests
  in flight when the shutdown began; it is 1 exactly when the deadline expired first, and then the
  number reported dropped is that of the requests still in flight; it is 3 exactly when a serving loop
  died. The verdict is announced between the two closing events, and afterwards the gateway never
  answers that it is ready.
\<close>

theorem shutdown_verdict:
  assumes "limiter_reaches cap CapGrpc grpc" and "limiter_reaches cap CapHttpProtobuf http"
    and "limiter_reaches cap CapGrpc grpc'" and "limiter_reaches cap CapHttpProtobuf http'"
    and "lr_in_flight grpc + lr_in_flight http < 2 ^ 32" and "lr_in_flight grpc' + lr_in_flight http' < 2 ^ 32"
    and "race \<in> {Joined a b, Elapsed \<lparr>li_grpc = lr_limiter grpc', li_http = lr_limiter http'\<rparr>}"
    and "orchestrate_shutdown trigger ms \<lparr>li_grpc = lr_limiter grpc, li_http = lr_limiter http\<rparr> race r = (outcome, r', evs)"
  shows "(case race of
       Joined a b \<Rightarrow>
         if Some ServeFailed \<in> {a, b} then drain_exit_code outcome = 3 \<and> evs = [ShutdownInitiated (trigger_str trigger) ms, ShutdownComplete 3]
         else drain_exit_code outcome = 0 \<and> (\<exists>n. unat n = lr_in_flight grpc + lr_in_flight http \<and>
           evs = [ShutdownInitiated (trigger_str trigger) ms, InFlightDrained n, ShutdownComplete 0])
     | Elapsed _ \<Rightarrow> drain_exit_code outcome = 1 \<and> (\<exists>n. unat n = lr_in_flight grpc' + lr_in_flight http' \<and>
           evs = [ShutdownInitiated (trigger_str trigger) ms, DrainDeadlineExceeded n, ShutdownComplete 1])) \<and>
    ar_status (handle_readyz r') = 503"
proof -
  have count: "unat (limiter_in_flight (lr_limiter s)) = lr_in_flight s" if "limiter_reaches cap t s" for t s
    using limiter_inv [OF that] by (intro limiter_in_flight_exact) simp
  have total: "unat (sum_in_flight (limiter_in_flight (lr_limiter s)) (limiter_in_flight (lr_limiter s'))) = lr_in_flight s + lr_in_flight s'"
    if "limiter_reaches cap t s" "limiter_reaches cap t' s'" "lr_in_flight s + lr_in_flight s' < 2 ^ 32" for t t' s s'
    using that(3) count [OF that(1)] count [OF that(2)] by (simp add: sum_in_flight_def unat_plus_if')
  have "ar_status (handle_readyz (flip_to_draining r)) = 503"
    by (cases "rd_phase r") (simp_all add: handle_readyz_def flip_to_draining_def readiness_cas_def readiness_current_def text_response_def)
  moreover have "r' = flip_to_draining r"
    using assms(8) by (auto simp: orchestrate_shutdown_def Let_def split: prod.splits)
  ultimately show ?thesis
    using assms(7,8) total [OF assms(1,2,5)] total [OF assms(3,4,6)]
    by (auto simp: orchestrate_shutdown_def Let_def drain_verdict_def serve_death_observed_def split: option.splits if_splits prod.splits)
qed

definition lc_run :: limiter_run where
  "lc_run = \<lparr>lr_limiter = \<lparr>cl_available = 0, cl_cap = 1, cl_transport = CapGrpc\<rparr>, lr_in_flight = 1\<rparr>"

lemma lc_reaches: "limiter_reaches 1 CapGrpc lc_run"
proof -
  have "limiter_step \<lparr>lr_limiter = limiter_new 1 CapGrpc, lr_in_flight = 0\<rparr> [] lc_run"
    using limiter_step.admitted [of "\<lparr>lr_limiter = limiter_new 1 CapGrpc, lr_in_flight = 0\<rparr>"]
    by (simp add: limiter_new_def limiter_try_acquire_def lc_run_def)
  from limiter_reaches.step [OF limiter_reaches.start this] show ?thesis .
qed

text \<open>A limit of one with one request in flight refuses the next.\<close>

theorem limiter_exact_witness:
  "lr_in_flight lc_run = 1 \<and> limiter_try_acquire (lr_limiter lc_run) = (Inl [ConcurrencyCapHit CapGrpc 1 1], lr_limiter lc_run)"
  using limiter_exact [OF lc_reaches] by (simp add: limiter_try_acquire_def lc_run_def)

text \<open>One request in flight when the deadline expires.\<close>

theorem shutdown_verdict_witness:
  "\<exists>outcome r' evs. orchestrate_shutdown Sigterm 5000
      \<lparr>li_grpc = lr_limiter lc_run, li_http = limiter_new 1 CapHttpProtobuf\<rparr>
      (Elapsed \<lparr>li_grpc = lr_limiter lc_run, li_http = limiter_new 1 CapHttpProtobuf\<rparr>) readiness_new = (outcome, r', evs) \<and>
    drain_exit_code outcome = 1 \<and> ar_status (handle_readyz r') = 503"
proof -
  obtain outcome r' evs where o: "orchestrate_shutdown Sigterm 5000
      \<lparr>li_grpc = lr_limiter lc_run, li_http = limiter_new 1 CapHttpProtobuf\<rparr>
      (Elapsed \<lparr>li_grpc = lr_limiter lc_run, li_http = limiter_new 1 CapHttpProtobuf\<rparr>) readiness_new = (outcome, r', evs)"
    by (metis prod_cases3)
  note http = limiter_reaches.start [of 1 CapHttpProtobuf]
  have "drain_exit_code outcome = 1 \<and> ar_status (handle_readyz r') = 503"
    using shutdown_verdict [OF lc_reaches http lc_reaches http, of
        "Elapsed \<lparr>li_grpc = lr_limiter lc_run, li_http = limiter_new 1 CapHttpProtobuf\<rparr>" None None Sigterm 5000 readiness_new outcome r' evs] o
    by (simp add: lc_run_def)
  with o show ?thesis
    by blast
qed

end
