(* ===== verification/Aperture_Theorems.thy ===== *)
theory Aperture_Theorems
  imports Aperture_Lifecycle
begin

text \<open>
  What the gateway admits: exactly what reaches the sink, under whose authority, and how it is answered,
  on both transports and for the three signals; and the gRPC body limit, whatever the framing.
\<close>

section \<open>The three signals together\<close>

text \<open>The record a validated body of a signal becomes.\<close>

definition validated ::
  "aperture_lib \<Rightarrow> signal_type \<Rightarrow> u8 list \<Rightarrow> framing \<Rightarrow> tenant_id \<Rightarrow> otlp_violation + otlp_record" where
  "validated lib signal bytes framing tenant =
     (case signal of
        LogsSignal \<Rightarrow> map_sum id (\<lambda>r. LogsRecord \<lparr>ts_tenant = tenant, ts_inner = r\<rparr>)
          (validate_logs (al_prost lib) (al_to_lowercase lib) bytes framing)
      | TracesSignal \<Rightarrow> map_sum id (\<lambda>r. TracesRecord \<lparr>ts_tenant = tenant, ts_inner = r\<rparr>)
          (validate_traces (al_prost lib) (al_to_lowercase lib) bytes framing)
      | MetricsSignal \<Rightarrow> map_sum id (\<lambda>r. MetricsRecord \<lparr>ts_tenant = tenant, ts_inner = r\<rparr>)
          (validate_metrics (al_prost lib) (al_to_lowercase lib) bytes framing))"

fun signal_name :: "signal_type \<Rightarrow> string" where
  "signal_name LogsSignal = ''logs''"
| "signal_name TracesSignal = ''traces''"
| "signal_name MetricsSignal = ''metrics''"

definition ingest_signal ::
  "signal_type \<Rightarrow> aperture_lib \<Rightarrow> (otlp_record \<Rightarrow> 's \<Rightarrow> (otlp_sink_error + unit) \<times> 's) \<Rightarrow> u8 list \<Rightarrow> transport \<Rightarrow> tenant_id \<Rightarrow>
   u32 option \<Rightarrow> 's \<Rightarrow> ingest_outcome \<times> 's \<times> gateway_event list" where
  "ingest_signal signal =
     (case signal of LogsSignal \<Rightarrow> ingest_logs | TracesSignal \<Rightarrow> ingest_traces | MetricsSignal \<Rightarrow> ingest_metrics)"

definition handle_ingest ::
  "signal_type \<Rightarrow> aperture_lib \<Rightarrow> gateway_config \<Rightarrow> (otlp_record \<Rightarrow> 's \<Rightarrow> (otlp_sink_error + unit) \<times> 's) \<Rightarrow> system_time \<Rightarrow>
   ingest_request \<Rightarrow> 's gateway \<Rightarrow> ingest_response \<times> 's gateway" where
  "handle_ingest signal =
     (case signal of LogsSignal \<Rightarrow> handle_ingest_logs | TracesSignal \<Rightarrow> handle_ingest_traces | MetricsSignal \<Rightarrow> handle_ingest_metrics)"

lemma ingest_signal_route:
  "ingest_signal signal lib accept bytes transport tenant cap sink =
     (case secondary_body_size_guard bytes transport (signal_name signal) cap of
        Some (outcome, evs) \<Rightarrow> (outcome, sink, evs)
      | None \<Rightarrow>
        (case route (validated lib signal bytes (framing_for_transport transport) tenant) accept sink of
           (outcome, sink') \<Rightarrow> (outcome, sink', [])))"
  by (cases signal) (simp_all add: ingest_signal_def ingest_logs_def ingest_traces_def ingest_metrics_def validated_def split: option.split)

lemma handle_ingest_permit:
  "handle_ingest signal lib cfg accept now req gw =
     with_permit (handle_admitted lib cfg (signal_name signal) (ingest_signal signal lib accept) now req)
       (refuse_http (cl_cap (gw_limiter gw))) gw"
  by (cases signal) (simp_all add: handle_ingest_def ingest_signal_def handle_ingest_logs_def handle_ingest_traces_def handle_ingest_metrics_def)

section \<open>Authentication\<close>

lemma ingest_bearer_token_same: "ingest_bearer_token = bearer_token"
  by (rule ext) (simp add: ingest_bearer_token_def bearer_token_def)

text \<open>The request carries a token that grants the tenant now.\<close>

definition token_grants :: "aperture_lib \<Rightarrow> validator \<Rightarrow> string option \<Rightarrow> system_time \<Rightarrow> tenant_id \<Rightarrow> bool" where
  "token_grants lib v authorization now tenant \<longleftrightarrow>
     (\<exists>token claims r. ingest_bearer_token authorization = Some token \<and> al_jwt lib (va_key v) token = Inr claims \<and>
        claims_grant v now claims \<lparr>tc_tenant_id = tenant, tc_role = r\<rparr>)"

lemma authenticate_cases:
  "case authenticate lib (Some v) authorization signal now of
     (Inr tenant, evs) \<Rightarrow> token_grants lib v authorization now tenant \<and>
       (\<exists>ev. evs = [AuditLine ev] \<and> ae_allow ev \<and> ae_tenant_id ev = tenant \<and> ae_subject ev = ingest_subject signal)
   | (Inl reason, evs) \<Rightarrow> (\<forall>tenant. \<not> token_grants lib v authorization now tenant) \<and>
       evs = [AuditLine (audit_deny (ingest_subject signal) reason)]"
proof (cases "ingest_bearer_token authorization")
  case None
  then show ?thesis
    by (simp add: authenticate_def Let_def token_grants_def)
next
  case (Some token)
  have iff: "validate_inner (al_jwt lib) v token now = Inr ctx \<longleftrightarrow>
      (\<exists>claims. al_jwt lib (va_key v) token = Inr claims \<and> claims_grant v now claims ctx)" for ctx
    by (rule validate_inner_iff)
  show ?thesis
  proof (cases "validate_inner (al_jwt lib) v token now")
    case (Inl e)
    have "\<not> token_grants lib v authorization now tenant" for tenant
      using iff Inl unfolding token_grants_def Some by (metis Inl_Inr_False option.inject)
    with Inl Some show ?thesis
      by (simp add: authenticate_def Let_def validate_with_subject_def)
  next
    case (Inr ctx)
    then obtain claims where "al_jwt lib (va_key v) token = Inr claims" "claims_grant v now claims ctx"
      using iff by blast
    moreover have "ctx = \<lparr>tc_tenant_id = tc_tenant_id ctx, tc_role = tc_role ctx\<rparr>"
      by simp
    ultimately have "token_grants lib v authorization now (tc_tenant_id ctx)"
      unfolding token_grants_def Some by metis
    with Inr Some show ?thesis
      by (simp add: authenticate_def Let_def validate_with_subject_def)
  qed
qed

section \<open>Reading a body\<close>

lemma read_body_cases:
  "case read_http_body_within_cap lib cap req signal of
     (Inr bytes, evs) \<Rightarrow> bytes = ir_body req \<and> evs = [] \<and> (\<forall>limit. active_cap cap = Some limit \<longrightarrow> length bytes \<le> unat limit) \<and>
       (active_cap cap = None \<longrightarrow> length bytes \<le> DEFAULT_HTTP_BODY_LIMIT_BYTES)
   | (Inl response, evs) \<Rightarrow> ar_status response = 413 \<and> list_all (\<lambda>ev. \<exists>t s l n. ev = BodyTooLarge t s l n) evs"
  by (auto simp: read_http_body_within_cap_def collect_uncapped_def limited_collect_def reject_http_default_too_large_def
      reject_http_too_large_def text_response_def Let_def split: option.splits if_splits)

lemma no_secondary_guard:
  "(\<forall>limit. active_cap cap = Some limit \<longrightarrow> length bytes \<le> unat limit) \<Longrightarrow> secondary_body_size_guard bytes transport signal cap = None"
  by (auto simp: secondary_body_size_guard_def split: option.splits)

lemma route_cases:
  "route (Inl violation) accept sink = (Rejected violation, sink)"
  "route (Inr r) accept sink =
     ((case fst (accept r sink) of Inr _ \<Rightarrow> Accepted | Inl e \<Rightarrow> SinkRefused e), snd (accept r sink))"
  by (auto simp: route_def split: prod.splits sum.splits)

section \<open>Properties\<close>

text \<open>
  What admission means: the sink was called once, with the record of the validated body under the tenant
  the token grants, and the answer is the sink's.
\<close>

definition admitted_http ::
  "aperture_lib \<Rightarrow> gateway_config \<Rightarrow> validator \<Rightarrow> signal_type \<Rightarrow> (otlp_record \<Rightarrow> 's \<Rightarrow> (otlp_sink_error + unit) \<times> 's) \<Rightarrow>
   system_time \<Rightarrow> ingest_request \<Rightarrow> 's \<Rightarrow> ingest_response \<Rightarrow> 's \<Rightarrow> bool" where
  "admitted_http lib cfg v signal accept now req sink resp sink' \<longleftrightarrow>
     is_protobuf_content_type (al_http lib) req \<and> \<not> ir_body_broken req \<and>
     (\<forall>limit. active_cap (gc_recv_body_cap cfg) = Some limit \<longrightarrow> length (ir_body req) \<le> unat limit) \<and>
     (\<exists>tenant r. token_grants lib v (ingest_http_authorization lib req) now tenant \<and>
        validated lib signal (ir_body req) HttpProtobuf tenant = Inr r \<and> sink' = snd (accept r sink) \<and>
        ar_status resp = (if isl (fst (accept r sink)) then 503 else 200))"

lemma handle_admitted_cases:
  assumes h: "handle_admitted lib cfg (signal_name signal) (ingest_signal signal lib accept) now req gw = (resp, gw')"
    and v: "gc_validator cfg = Some v"
  shows "gw_limiter gw' = gw_limiter gw \<and>
    (admitted_http lib cfg v signal accept now req (gw_sink gw) resp (gw_sink gw') \<or>
     gw_sink gw' = gw_sink gw \<and> ar_status resp \<in> {400, 413, 415} \<or>
     gw_sink gw' = gw_sink gw \<and> ar_status resp = 401 \<and> ar_www_authenticate resp \<noteq> None \<and>
       (\<forall>tenant. \<not> token_grants lib v (ingest_http_authorization lib req) now tenant)) \<and>
    (\<exists>ev evs. gw_events gw' = gw_events gw @ AuditLine ev # evs \<and> ae_allow ev = (ar_status resp \<noteq> 401) \<and>
       list_all (\<lambda>e. \<forall>a. e \<noteq> AuditLine a) evs)"
proof -
  let ?auth = "authenticate lib (gc_validator cfg) (ingest_http_authorization lib req) (signal_name signal) now"
  note auth = authenticate_cases [where lib = lib and v = v and authorization = "ingest_http_authorization lib req"
      and signal = "signal_name signal" and now = now, folded v]
  show ?thesis
  proof (cases "fst ?auth")
    case (Inl reason)
    then obtain evs where a: "?auth = (Inl reason, evs)"
      by (cases ?auth) simp
    with auth h show ?thesis
      by (auto simp: handle_admitted_def gw_log_def reject_http_unauthorized_def text_response_def audit_deny_def)
  next
    case (Inr tenant)
    then obtain evs where a: "?auth = (Inr tenant, evs)"
      by (cases ?auth) simp
    with auth obtain ev where grants: "token_grants lib v (ingest_http_authorization lib req) now tenant"
      and evs: "evs = [AuditLine ev]" "ae_allow ev"
      by auto
    show ?thesis
    proof (cases "is_protobuf_content_type (al_http lib) req")
      case False
      with h a evs show ?thesis
        by (auto simp: handle_admitted_def gw_log_def text_response_def)
    next
      case ct: True
      let ?read = "read_http_body_within_cap (al_http lib) (gc_recv_body_cap cfg) req (signal_name signal)"
      note read = read_body_cases [where lib = "al_http lib" and cap = "gc_recv_body_cap cfg" and req = req and signal = "signal_name signal"]
      show ?thesis
      proof (cases "fst ?read")
        case (Inl response)
        then obtain evs' where r: "?read = (Inl response, evs')"
          by (cases ?read) simp
        with read have "ar_status response = 413" "list_all (\<lambda>e. \<forall>a. e \<noteq> AuditLine a) evs'"
          by (auto simp: list_all_iff)
        moreover have "resp = response" "gw' = gw_log (evs @ evs') gw"
          using h a ct r by (simp_all add: handle_admitted_def)
        ultimately show ?thesis
          using evs by (auto simp: gw_log_def)
      next
        case (Inr bytes)
        then obtain evs' where r: "?read = (Inr bytes, evs')"
          by (cases ?read) simp
        with read have bytes: "bytes = ir_body req" "evs' = []"
          and cap: "\<forall>limit. active_cap (gc_recv_body_cap cfg) = Some limit \<longrightarrow> length bytes \<le> unat limit"
          by auto
        have whole: "\<not> ir_body_broken req"
          using r by (auto simp: read_http_body_within_cap_def collect_uncapped_def limited_collect_def Let_def split: option.splits if_splits)
        obtain outcome sink' where o: "route (validated lib signal bytes HttpProtobuf tenant) accept (gw_sink gw) = (outcome, sink')"
          by fastforce
        have "resp = outcome_response lib outcome \<and>
            gw' = gw_log (evs @ [RequestReceived ''http_protobuf'' (signal_name signal) (length bytes)]) (gw\<lparr>gw_sink := sink'\<rparr>)"
          using h a ct r o bytes(2) by (simp add: handle_admitted_def ingest_signal_route no_secondary_guard [OF cap])
        then have resp: "resp = outcome_response lib outcome" and gw': "gw_limiter gw' = gw_limiter gw" "gw_sink gw' = sink'"
          "gw_events gw' = gw_events gw @ AuditLine ev # [RequestReceived ''http_protobuf'' (signal_name signal) (length bytes)]"
          using evs by (simp_all add: gw_log_def)
        show ?thesis
        proof (cases "validated lib signal bytes HttpProtobuf tenant")
          case (Inl violation)
          then have "outcome = Rejected violation" "sink' = gw_sink gw"
            using o by (simp_all add: route_cases)
          then show ?thesis
            using resp gw' evs(2) by (auto simp: outcome_response_def text_response_def)
        next
          case (Inr r)
          then have o': "outcome = (case fst (accept r (gw_sink gw)) of Inr _ \<Rightarrow> Accepted | Inl e \<Rightarrow> SinkRefused e)"
            "sink' = snd (accept r (gw_sink gw))"
            using o by (simp_all add: route_cases)
          then have status: "ar_status resp = (if isl (fst (accept r (gw_sink gw))) then 503 else 200)"
            unfolding resp by (simp add: outcome_response_def text_response_def split: sum.splits)
          then have "admitted_http lib cfg v signal accept now req (gw_sink gw) resp (gw_sink gw')"
            using ct cap grants Inr o'(2) whole unfolding admitted_http_def gw' bytes(1) by blast
          then show ?thesis
            using status gw' evs(2) by auto
        qed
      qed
    qed
  qed
qed

text \<open>
  C23. Ingest over HTTP is fail closed. With authentication configured a request changes what the sink
  holds only if its token grants a tenant at that moment, its media type is protobuf, its body is whole
  and within the limit and validates as the signal of the endpoint, and then by exactly one call of the
  sink with that body under that tenant, answered by 200 or 503 as the sink accepts or refuses; every
  other request is refused with its status and leaves the sink alone. The permit is always returned,
  and unless the limit was reached exactly one decision is audited, the one taken.
\<close>

theorem gateway_http_fail_closed:
  assumes "handle_ingest signal lib cfg accept now req gw = (resp, gw')" and "gc_validator cfg = Some v"
  shows "gw_limiter gw' = gw_limiter gw \<and>
    (if cl_available (gw_limiter gw) = 0 then gw_sink gw' = gw_sink gw \<and> ar_status resp = 503 \<and> ar_retry_after resp = Some ''1''
     else
       (admitted_http lib cfg v signal accept now req (gw_sink gw) resp (gw_sink gw') \<or>
        gw_sink gw' = gw_sink gw \<and> ar_status resp \<in> {400, 413, 415} \<or>
        gw_sink gw' = gw_sink gw \<and> ar_status resp = 401 \<and> ar_www_authenticate resp \<noteq> None \<and>
          (\<forall>tenant. \<not> token_grants lib v (ingest_http_authorization lib req) now tenant)) \<and>
       (\<exists>ev evs. gw_events gw' = gw_events gw @ AuditLine ev # evs \<and> ae_allow ev = (ar_status resp \<noteq> 401) \<and>
          list_all (\<lambda>e. \<forall>a. e \<noteq> AuditLine a) evs))"
proof (cases "cl_available (gw_limiter gw) = 0")
  case True
  with assms(1) have "resp = refuse_http (cl_cap (gw_limiter gw))" "gw_limiter gw' = gw_limiter gw" "gw_sink gw' = gw_sink gw"
    by (auto simp: handle_ingest_permit with_permit_def limiter_try_acquire_def gw_log_def)
  with True show ?thesis
    by (simp add: refuse_http_def text_response_def)
next
  case False
  let ?taken = "gw\<lparr>gw_limiter := (gw_limiter gw)\<lparr>cl_available := cl_available (gw_limiter gw) - 1\<rparr>\<rparr>"
  obtain resp1 gw1 where h: "handle_admitted lib cfg (signal_name signal) (ingest_signal signal lib accept) now req ?taken = (resp1, gw1)"
    by fastforce
  with False assms(1) have r: "resp = resp1" "gw' = gw1\<lparr>gw_limiter := limiter_release (gw_limiter gw1)\<rparr>"
    by (simp_all add: handle_ingest_permit with_permit_def limiter_try_acquire_def)
  from handle_admitted_cases [OF h assms(2)] False show ?thesis
    unfolding r by (simp add: limiter_release_def)
qed

definition body_data :: "body_frame list \<Rightarrow> u8 list" where
  "body_data frames = concat (map (\<lambda>f. case f of DataFrame chunk \<Rightarrow> chunk | _ \<Rightarrow> []) frames)"

lemma prefix_verdict_append: "grpc_prefix_verdict buf limit = Some v \<Longrightarrow> grpc_prefix_verdict (buf @ rest) limit = Some v"
  by (auto simp: grpc_prefix_verdict_def be_length_def GRPC_HEADER_SIZE_def nth_append split: if_splits)

lemma collect_grpc_frames_cases:
  "length buf \<le> unat limit + GRPC_HEADER_SIZE \<Longrightarrow>
   collect_grpc_frames limit buf frames = WithinCap b \<longleftrightarrow>
     FrameError \<notin> set frames \<and> b = buf @ body_data frames \<and> length b \<le> unat limit + GRPC_HEADER_SIZE \<and> grpc_prefix_verdict b limit = None"
proof (induction limit buf frames rule: collect_grpc_frames.induct)
  case (1 limit buf)
  then show ?case
    by (auto simp: body_data_def grpc_prefix_verdict_def split: option.splits if_splits)
next
  case (4 limit buf chunk frames)
  show ?case
  proof (cases "grpc_prefix_verdict (buf @ chunk) limit")
    case (Some verdict)
    then have "verdict \<noteq> WithinCap b" "grpc_prefix_verdict (buf @ chunk @ body_data frames) limit = Some verdict"
      using prefix_verdict_append [OF Some, of "body_data frames"] by (auto simp: grpc_prefix_verdict_def split: if_splits)
    with Some show ?thesis
      by (auto simp: body_data_def)
  next
    case None
    show ?thesis
    proof (cases "unat limit + GRPC_HEADER_SIZE < length (buf @ chunk)")
      case True
      with None show ?thesis
        by (auto simp: body_data_def Let_def)
    next
      case False
      with None "4.IH" [OF refl None] show ?thesis
        by (simp add: body_data_def Let_def)
    qed
  qed
qed (simp_all add: body_data_def)

text \<open>
  C24. The gRPC body limit does not depend on how the body arrives: a body is handed on exactly when no
  frame failed, it is at most the limit and a frame header long, and the message length it declares, if
  it is long enough to declare one, is within the limit; it is then handed on unchanged.
\<close>

theorem grpc_body_cap_exact:
  "collect_grpc_body_within_cap frames limit = WithinCap b \<longleftrightarrow>
     FrameError \<notin> set frames \<and> b = body_data frames \<and> length b \<le> unat limit + GRPC_HEADER_SIZE \<and>
     (length b < GRPC_HEADER_SIZE \<or> be_length b \<le> limit)"
  unfolding collect_grpc_body_within_cap_def
  using collect_grpc_frames_cases [of "[]" limit frames b] by (auto simp: grpc_prefix_verdict_def split: if_splits)

text \<open>
  C25. The harness gives the right diagnosis of a body, whichever of the three signals it is sent as: it
  is accepted exactly if it is not empty, its first field is the resource field and it decodes as the
  asserted signal; it is called another signal's only if it decodes as that one and not as the asserted
  one; and it is called undecodable only if it decodes as none of the three.
\<close>

theorem harness_diagnosis_right:
  "(case validate_logs pl lc bytes f of
      Inr r \<Rightarrow> bytes \<noteq> [] \<and> prost_decode_key pl bytes = Inr 1 \<and> prost_logs pl bytes = Inr r
    | Inl v \<Rightarrow> right_diagnosis pl LogsSignal f bytes v) \<and>
   (case validate_traces pl lc bytes f of
      Inr r \<Rightarrow> bytes \<noteq> [] \<and> prost_decode_key pl bytes = Inr 1 \<and> prost_traces pl bytes = Inr r
    | Inl v \<Rightarrow> right_diagnosis pl TracesSignal f bytes v) \<and>
   (case validate_metrics pl lc bytes f of
      Inr r \<Rightarrow> bytes \<noteq> [] \<and> prost_decode_key pl bytes = Inr 1 \<and> prost_metrics pl bytes = Inr r
    | Inl v \<Rightarrow> right_diagnosis pl MetricsSignal f bytes v)"
  unfolding validate_logs_def validate_traces_def validate_metrics_def decode_logs_def decode_traces_def decode_metrics_def
  using decode_strict_cases [where pl = pl and bytes = bytes and decode = "prost_logs pl"] decode_strict_cases [where pl = pl and bytes = bytes and decode = "prost_traces pl"]
    decode_strict_cases [where pl = pl and bytes = bytes and decode = "prost_metrics pl"]
  by (auto simp: empty_input_right reject_right split: sum.splits)

end
