(* ===== verification/Log_Query.thy ===== *)
theory Log_Query
  imports Rust_Hex Query_Common Lumen_Durable
begin

text \<open>
  The log query API (\<open>crates/log-query-api/src/lib.rs\<close>): the parsers of the query parameters, the
  handler of \<open>GET /api/v1/logs\<close> over a \<open>LogStore\<close>, and \<open>logs_for_trace\<close>, which the trace query API
  calls. The store's two queries are arguments; the libraries are the record \<open>logs_env\<close>; a panic is
  \<open>None\<close>. The handler's clients rely on a store through the locale \<open>log_store\<close> of \<open>Lumen_Store\<close>.
\<close>

section \<open>Parameters\<close>

record logs_params =
  lp_start :: "string option"
  lp_end :: "string option"
  lp_min_severity :: "string option"
  lp_body_contains :: "string option"
  lp_body_regex :: "string option"
  lp_limit :: "string option"
  lp_offset :: "string option"
  lp_trace_id :: "string option"

definition MAX_BODY_CONTAINS_LEN :: nat where
  "MAX_BODY_CONTAINS_LEN = 1024"

definition MAX_BODY_REGEX_LEN :: nat where
  "MAX_BODY_REGEX_LEN = 1024"

definition logs_seconds_to_nanos :: "u64 \<Rightarrow> u64" where
  "logs_seconds_to_nanos seconds = saturating_mul seconds 1000000000"

definition parse_min_severity :: "string \<Rightarrow> string + severity_number" where
  "parse_min_severity raw =
     (if raw = [] then Inl ''unknown severity''
      else if eq_ignore_ascii_case raw ''TRACE'' then Inr 1
      else if eq_ignore_ascii_case raw ''DEBUG'' then Inr 5
      else if eq_ignore_ascii_case raw ''INFO'' then Inr SEV_INFO
      else if eq_ignore_ascii_case raw ''WARN'' then Inr 13
      else if eq_ignore_ascii_case raw ''ERROR'' then Inr SEV_ERROR
      else if eq_ignore_ascii_case raw ''FATAL'' then Inr 21
      else Inl ''unknown severity'')"

definition parse_body_contains :: "string \<Rightarrow> string + string" where
  "parse_body_contains raw =
     (if raw = [] then Inl ''invalid body_contains''
      else if length raw > MAX_BODY_CONTAINS_LEN then Inl ''invalid body_contains''
      else Inr raw)"

text \<open>\<open>regex_new\<close> compiles an expression to its \<open>is_match\<close>, if it compiles.\<close>

definition parse_body_regex :: "(string \<Rightarrow> (string \<Rightarrow> bool) option) \<Rightarrow> string \<Rightarrow> string + (string \<Rightarrow> bool)" where
  "parse_body_regex regex_new raw =
     (if raw = [] then Inl ''invalid body_regex''
      else if length raw > MAX_BODY_REGEX_LEN then Inl ''invalid body_regex''
      else case regex_new raw of None \<Rightarrow> Inl ''invalid body_regex'' | Some re \<Rightarrow> Inr re)"

text \<open>\<open>str::parse::<usize>\<close>: an optional plus sign and at least one digit, within 64 bits.\<close>

definition parse_usize :: "string \<Rightarrow> nat option" where
  "parse_usize s =
     (let ds = (if s \<noteq> [] \<and> hd s = CHR ''+'' then tl s else s) in
      if ds \<noteq> [] \<and> list_all is_ascii_digit ds \<and> digits_value ds < 2 ^ 64 then Some (digits_value ds) else None)"

definition parse_limit :: "string \<Rightarrow> string + nat" where
  "parse_limit raw =
     (case parse_usize raw of
        None \<Rightarrow> Inl ''invalid limit''
      | Some n \<Rightarrow>
          if n = 0 then Inl ''invalid limit'' else if n > MAX_RESULT_ROWS then Inl ''invalid limit'' else Inr n)"

definition parse_offset :: "string \<Rightarrow> string + nat" where
  "parse_offset raw = (case parse_usize raw of None \<Rightarrow> Inl ''invalid offset'' | Some n \<Rightarrow> Inr n)"

definition REASON_TRACE_ID :: string where
  "REASON_TRACE_ID = ''invalid trace_id: expected a 32-character hex string''"

definition parse_trace_id :: "string \<Rightarrow> string + u8 list" where
  "parse_trace_id raw =
     (if length raw \<noteq> 32 then Inl REASON_TRACE_ID
      else case hex_pairs 0 raw of Inl _ \<Rightarrow> Inl REASON_TRACE_ID | Inr bytes \<Rightarrow> Inr bytes)"

definition to_lowercase_hex :: "u8 list \<Rightarrow> string" where
  "to_lowercase_hex = hex_encode"

section \<open>The response\<close>

record log_view =
  lv_observed_time_unix_nano :: u64
  lv_severity_number :: severity_number
  lv_severity_text :: string
  lv_body :: string
  lv_attributes :: "(string \<times> string) list"
  lv_resource_attributes :: "(string \<times> string) list"
  lv_trace_id :: "string option"
  lv_span_id :: "string option"

definition log_view_from :: "log_record \<Rightarrow> log_view" where
  "log_view_from r =
     \<lparr>lv_observed_time_unix_nano = observed_time_unix_nano r,
      lv_severity_number = severity_number r,
      lv_severity_text = severity_text r,
      lv_body = body r,
      lv_attributes = attributes r,
      lv_resource_attributes = resource_attributes r,
      lv_trace_id = map_option to_lowercase_hex (trace_id r),
      lv_span_id = map_option to_lowercase_hex (span_id r)\<rparr>"

definition logs_for_trace ::
  "(tenant_id \<Rightarrow> time_range \<Rightarrow> 's \<Rightarrow> (log_store_error + log_record list) \<times> 's) \<Rightarrow> tenant_id \<Rightarrow> u8 list \<Rightarrow> 's \<Rightarrow>
   (log_store_error + log_view list) \<times> 's" where
  "logs_for_trace query tenant tid s =
     (case query tenant time_range_all s of
        (Inl e, s') \<Rightarrow> (Inl e, s')
      | (Inr rs, s') \<Rightarrow> (Inr (map log_view_from (filter (\<lambda>r. trace_id r = Some tid) rs)), s'))"

definition logs_success_response :: "log_record list \<Rightarrow> log_view list http_response" where
  "logs_success_response rs = ok_response (map log_view_from rs)"

section \<open>The handler\<close>

record logs_env =
  le_http :: http_lib
  le_decode :: "string \<Rightarrow> string \<Rightarrow> jwt_error_kind + raw_claims"
  le_rfc3339 :: "string \<Rightarrow> 64 word option"
  le_regex_new :: "string \<Rightarrow> (string \<Rightarrow> bool) option"

record logs_config =
  lc_tenant :: "tenant_id option"
  lc_auth :: "validator option"

record logs_request =
  lr_authorization :: "string option"
  lr_params :: logs_params
  lr_now :: system_time

definition resolve_logs_tenant ::
  "logs_env \<Rightarrow> logs_config \<Rightarrow> logs_request \<Rightarrow> (log_view list http_response + tenant_id) \<times> audit_event list" where
  "resolve_logs_tenant env cfg req =
     resolve_request_tenant_or_refuse (le_http env) (le_decode env) (lc_auth cfg) (lr_authorization req) (lc_tenant cfg)
       ''the log query'' ''log_query'' (lr_now req)"

text \<open>The window of a request: both bounds, or neither.\<close>

definition logs_window :: "logs_env \<Rightarrow> logs_params \<Rightarrow> string + time_range option" where
  "logs_window env ps =
     (case (lp_start ps, lp_end ps) of
        (Some start, Some end') \<Rightarrow>
          (case parse_time_range (le_rfc3339 env) start end' of
             Inl reason \<Rightarrow> Inl reason
           | Inr tr \<Rightarrow>
             if saturating_sub (sr_end_secs tr) (sr_start_secs tr) > MAX_WINDOW_SECONDS then Inl REASON_WINDOW_TOO_LARGE
             else Inr (Some \<lparr>start_unix_nano = logs_seconds_to_nanos (sr_start_secs tr),
                             end_unix_nano = logs_seconds_to_nanos (sr_end_secs tr)\<rparr>))
      | (None, None) \<Rightarrow> Inr None
      | _ \<Rightarrow> Inl ''a time window requires both start and end'')"

text \<open>An optional parameter: absent, refused, or parsed.\<close>

definition optional :: "(string \<Rightarrow> string + 'a) \<Rightarrow> string option \<Rightarrow> string + 'a option" where
  "optional parse raw =
     (case raw of None \<Rightarrow> Inr None | Some raw \<Rightarrow> (case parse raw of Inl reason \<Rightarrow> Inl reason | Inr x \<Rightarrow> Inr (Some x)))"

text \<open>The values the checks before the store leave in scope.\<close>

record logs_plan =
  lq_window :: "time_range option"
  lq_min_severity :: "severity_number option"
  lq_body_contains :: "string option"
  lq_body_regex :: "(string \<Rightarrow> bool) option"
  lq_limit :: "nat option"
  lq_offset :: nat
  lq_trace_id :: "u8 list option"

definition logs_check :: "logs_env \<Rightarrow> logs_params \<Rightarrow> string + logs_plan" where
  "logs_check env ps =
     (case logs_window env ps of
        Inl reason \<Rightarrow> Inl reason
      | Inr window \<Rightarrow>
        if window = None \<and> lp_trace_id ps = None then Inl ''a time window (start and end) or a trace_id is required''
        else case optional parse_min_severity (lp_min_severity ps) of
          Inl _ \<Rightarrow> Inl ''unknown severity''
        | Inr min_severity \<Rightarrow>
          (case optional parse_body_contains (lp_body_contains ps) of
             Inl reason \<Rightarrow> Inl reason
           | Inr body_contains \<Rightarrow>
             if body_contains \<noteq> None \<and> lp_body_regex ps \<noteq> None then Inl ''specify body_regex or body_contains, not both''
             else case optional (parse_body_regex (le_regex_new env)) (lp_body_regex ps) of
               Inl reason \<Rightarrow> Inl reason
             | Inr body_regex \<Rightarrow>
               (case optional parse_limit (lp_limit ps) of
                  Inl reason \<Rightarrow> Inl reason
                | Inr limit \<Rightarrow>
                  (case optional parse_offset (lp_offset ps) of
                     Inl reason \<Rightarrow> Inl reason
                   | Inr offset \<Rightarrow>
                     (case optional parse_trace_id (lp_trace_id ps) of
                        Inl reason \<Rightarrow> Inl reason
                      | Inr trace_id_filter \<Rightarrow>
                          Inr \<lparr>lq_window = window, lq_min_severity = min_severity, lq_body_contains = body_contains,
                               lq_body_regex = body_regex, lq_limit = limit,
                               lq_offset = (case offset of None \<Rightarrow> 0 | Some n \<Rightarrow> n), lq_trace_id = trace_id_filter\<rparr>)))))"

definition logs_range :: "logs_plan \<Rightarrow> time_range" where
  "logs_range plan = (case lq_window plan of None \<Rightarrow> time_range_all | Some w \<Rightarrow> w)"

text \<open>The dispatch to the store; the last arm is the \<open>unreachable!\<close> of the source.\<close>

definition logs_dispatch ::
  "(tenant_id \<Rightarrow> time_range \<Rightarrow> 's \<Rightarrow> (log_store_error + log_record list) \<times> 's) \<Rightarrow>
   (tenant_id \<Rightarrow> time_range \<Rightarrow> lumen_predicate \<Rightarrow> 's \<Rightarrow> (log_store_error + log_record list) \<times> 's) \<Rightarrow>
   tenant_id \<Rightarrow> logs_plan \<Rightarrow> 's \<Rightarrow> ((log_store_error + log_record list) \<times> 's) option" where
  "logs_dispatch query query_with tenant plan s =
     (case (lq_min_severity plan, lq_body_contains plan, lq_body_regex plan) of
        (None, None, None) \<Rightarrow> Some (query tenant (logs_range plan) s)
      | (Some min_sev, None, None) \<Rightarrow>
          Some (query_with tenant (logs_range plan) (lumen_predicate_min_severity min_sev lumen_predicate_new) s)
      | (None, Some target, None) \<Rightarrow>
          Some (query_with tenant (logs_range plan) (lumen_predicate_body_contains target lumen_predicate_new) s)
      | (None, None, Some re) \<Rightarrow>
          Some (query_with tenant (logs_range plan) (lumen_predicate_body_regex re lumen_predicate_new) s)
      | (Some min_sev, Some target, None) \<Rightarrow>
          Some (query_with tenant (logs_range plan)
            (lumen_predicate_body_contains target (lumen_predicate_min_severity min_sev lumen_predicate_new)) s)
      | (Some min_sev, None, Some re) \<Rightarrow>
          Some (query_with tenant (logs_range plan)
            (lumen_predicate_body_regex re (lumen_predicate_min_severity min_sev lumen_predicate_new)) s)
      | (_, Some _, Some _) \<Rightarrow> None)"

text \<open>\<open>usize::MAX\<close>, the limit of a request that has none.\<close>

definition usize_max :: nat where
  "usize_max = 2 ^ 64 - 1"

definition logs_page :: "logs_plan \<Rightarrow> log_record list \<Rightarrow> log_view list http_response" where
  "logs_page plan rs =
     (let kept = (case lq_trace_id plan of None \<Rightarrow> rs | Some tid \<Rightarrow> filter (\<lambda>r. trace_id r = Some tid) rs) in
      if length kept > MAX_RESULT_ROWS then error_response 400 REASON_TOO_MANY_ROWS
      else
        let limit = (case lq_limit plan of None \<Rightarrow> usize_max | Some n \<Rightarrow> n) in
        logs_success_response (take limit (drop (lq_offset plan) kept)))"

definition handle_logs ::
  "logs_env \<Rightarrow> logs_config \<Rightarrow>
   (tenant_id \<Rightarrow> time_range \<Rightarrow> 's \<Rightarrow> (log_store_error + log_record list) \<times> 's) \<Rightarrow>
   (tenant_id \<Rightarrow> time_range \<Rightarrow> lumen_predicate \<Rightarrow> 's \<Rightarrow> (log_store_error + log_record list) \<times> 's) \<Rightarrow>
   logs_request \<Rightarrow> 's \<Rightarrow> log_view list http_response option \<times> 's \<times> audit_event list" where
  "handle_logs env cfg query query_with req s =
     (case resolve_logs_tenant env cfg req of
        (Inl resp, evs) \<Rightarrow> (Some resp, s, evs)
      | (Inr tenant, evs) \<Rightarrow>
        (case logs_check env (lr_params req) of
           Inl reason \<Rightarrow> (Some (error_response 400 reason), s, evs)
         | Inr plan \<Rightarrow>
           (case logs_dispatch query query_with tenant plan s of
              None \<Rightarrow> (None, s, evs)
            | Some (Inl err, s') \<Rightarrow> (Some (error_response 500 ''the backing log store could not be read''), s', evs)
            | Some (Inr rs, s') \<Rightarrow> (Some (logs_page plan rs), s', evs))))"

end
