(* ===== verification/Log_Answers.thy ===== *)
theory Log_Answers
  imports Log_Query
begin

text \<open>
  What the log query API answers: the page of the tenant's acknowledged records a request asks for,
  whatever store implements the \<open>log_store\<close> interface, and so for the durable store after any
  history; that nothing reaches the store before every parameter is valid; that pages put together
  are the whole answer; and that identifiers are read as they are written.
\<close>

section \<open>What a request asks for\<close>

definition logs_wanted :: "logs_plan \<Rightarrow> log_record \<Rightarrow> bool" where
  "logs_wanted plan r =
     (range_contains (logs_range plan) (observed_time_unix_nano r) \<and>
      (\<forall>sev. lq_min_severity plan = Some sev \<longrightarrow> sev \<le> severity_number r) \<and>
      (\<forall>target. lq_body_contains plan = Some target \<longrightarrow> str_contains (body r) target) \<and>
      (\<forall>re. lq_body_regex plan = Some re \<longrightarrow> re (body r)) \<and>
      (\<forall>tid. lq_trace_id plan = Some tid \<longrightarrow> trace_id r = Some tid))"

definition logs_answer :: "logs_plan \<Rightarrow> log_record list \<Rightarrow> log_view list http_response" where
  "logs_answer plan rs =
     (let hits = filter (logs_wanted plan) rs; rest = drop (lq_offset plan) hits in
      if MAX_RESULT_ROWS < length hits then error_response 400 REASON_TOO_MANY_ROWS
      else ok_response (map log_view_from (case lq_limit plan of None \<Rightarrow> rest | Some n \<Rightarrow> take n rest)))"

definition logs_admitted :: "logs_env \<Rightarrow> logs_config \<Rightarrow> logs_request \<Rightarrow> tenant_id \<Rightarrow> logs_plan \<Rightarrow> bool" where
  "logs_admitted env cfg req t plan =
     (fst (resolve_logs_tenant env cfg req) = Inr t \<and> logs_check env (lr_params req) = Inr plan)"

text \<open>The check on the two body filters prunes the dispatch's last arm.\<close>

lemma logs_check_one_body_filter:
  "logs_check env ps = Inr plan \<Longrightarrow> lq_body_contains plan = None \<or> lq_body_regex plan = None"
  by (auto simp: logs_check_def optional_def split: sum.splits if_splits option.splits)

lemma logs_page_answer:
  assumes "\<And>r. logs_wanted plan r \<longleftrightarrow> P r \<and> (\<forall>tid. lq_trace_id plan = Some tid \<longrightarrow> trace_id r = Some tid)"
  shows "logs_page plan (filter P rs) = logs_answer plan rs"
proof -
  define kept where "kept = filter (logs_wanted plan) rs"
  have k: "(case lq_trace_id plan of None \<Rightarrow> filter P rs | Some tid \<Rightarrow> filter (\<lambda>r. trace_id r = Some tid) (filter P rs)) = kept"
    unfolding kept_def by (auto simp: assms conj_commute split: option.split intro!: filter_cong)
  have "length kept \<le> MAX_RESULT_ROWS \<Longrightarrow> length kept \<le> usize_max"
    by (simp add: MAX_RESULT_ROWS_def usize_max_def)
  then show ?thesis
    unfolding logs_page_def logs_answer_def Let_def k kept_def [symmetric]
    by (auto simp: logs_success_response_def split: option.split)
qed

lemma handle_logs_refused:
  assumes "\<nexists>t plan. logs_admitted env cfg req t plan"
  shows "\<exists>r evs. handle_logs env cfg query query_with req s = (Some r, s, evs) \<and> hr_status r \<in> {400, 401}"
proof (cases "resolve_logs_tenant env cfg req")
  case (Pair res evs)
  show ?thesis
  proof (cases res)
    case (Inl resp)
    with Pair have "hr_status resp = 401"
      unfolding resolve_logs_tenant_def by (intro resolve_refusal_status) simp
    with Inl Pair show ?thesis
      by (simp add: handle_logs_def)
  next
    case (Inr t)
    with Pair assms obtain reason where "logs_check env (lr_params req) = Inl reason"
      by (cases "logs_check env (lr_params req)") (auto simp: logs_admitted_def)
    with Pair Inr show ?thesis
      by (simp add: handle_logs_def error_response_def)
  qed
qed

lemma logs_dispatch_total:
  "logs_check env ps = Inr plan \<Longrightarrow> \<exists>res s'. logs_dispatch query query_with t plan s = Some (res, s')"
  by (drule logs_check_one_body_filter) (auto simp: logs_dispatch_def split: option.split)

lemma handle_logs_admitted:
  assumes "logs_admitted env cfg req t plan" and "logs_dispatch query query_with t plan s = Some (res, s')"
  shows "handle_logs env cfg query query_with req s =
    (Some (case res of Inl _ \<Rightarrow> error_response 500 ''the backing log store could not be read'' | Inr rs \<Rightarrow> logs_page plan rs),
     s', snd (resolve_logs_tenant env cfg req))"
  using assms unfolding logs_admitted_def
  by (cases "resolve_logs_tenant env cfg req") (auto simp: handle_logs_def split: sum.split)

text \<open>The dispatch is one query with the predicate of the filters that are present.\<close>

definition plan_predicate :: "logs_plan \<Rightarrow> lumen_predicate" where
  "plan_predicate plan =
     \<lparr>p_service = None, p_min_severity = lq_min_severity plan, p_body_contains = lq_body_contains plan,
      p_body_regex = lq_body_regex plan\<rparr>"

lemma logs_dispatch_eq:
  assumes "lq_body_contains plan = None \<or> lq_body_regex plan = None"
  shows "logs_dispatch query query_with t plan s =
    Some (if lumen_predicate_is_empty (plan_predicate plan) then query t (logs_range plan) s
          else query_with t (logs_range plan) (plan_predicate plan) s)"
  using assms
  by (auto simp: logs_dispatch_def plan_predicate_def lumen_predicate_is_empty_def lumen_predicate_new_def
      lumen_predicate_min_severity_def lumen_predicate_body_contains_def lumen_predicate_body_regex_def split: option.split)

lemma logs_wanted_iff:
  "logs_wanted plan r \<longleftrightarrow>
     (range_contains (logs_range plan) (observed_time_unix_nano r) \<and> lumen_matches (plan_predicate plan) r) \<and>
     (\<forall>tid. lq_trace_id plan = Some tid \<longrightarrow> trace_id r = Some tid)"
  by (auto simp: logs_wanted_def lumen_matches_def plan_predicate_def split: option.splits)

lemma empty_matches: "lumen_predicate_is_empty p \<Longrightarrow> lumen_matches p r"
  by (simp add: lumen_predicate_is_empty_def lumen_matches_def)

section \<open>Over any log store\<close>

context log_store
begin

lemma dispatch_rows:
  assumes "logs_check env ps = Inr plan"
  shows "\<exists>s'. logs_dispatch query query_with t plan s =
      Some (Inr (filter (\<lambda>r. range_contains (logs_range plan) (observed_time_unix_nano r) \<and> lumen_matches (plan_predicate plan) r)
        (contents s t)), s') \<and> contents s' = contents s"
  using query_result [of t "logs_range plan" s] query_with_result [of t "logs_range plan" "plan_predicate plan" s]
  by (auto simp: logs_dispatch_eq [OF logs_check_one_body_filter [OF assms]] empty_matches)

lemma handle_logs_answers:
  assumes "logs_admitted env cfg req t plan"
  shows "\<exists>s'. handle_logs env cfg query query_with req s =
      (Some (logs_answer plan (contents s t)), s', snd (resolve_logs_tenant env cfg req)) \<and> contents s' = contents s"
proof -
  have "logs_check env (lr_params req) = Inr plan"
    using assms by (simp add: logs_admitted_def)
  from dispatch_rows [OF this, of t s] obtain s' where d: "logs_dispatch query query_with t plan s =
      Some (Inr (filter (\<lambda>r. range_contains (logs_range plan) (observed_time_unix_nano r) \<and> lumen_matches (plan_predicate plan) r)
        (contents s t)), s')" and s': "contents s' = contents s"
    by blast
  from handle_logs_admitted [OF assms d] s' show ?thesis
    unfolding sum.case logs_page_answer [OF logs_wanted_iff] by blast
qed

end

section \<open>Pages\<close>

definition page_request :: "nat \<Rightarrow> nat \<Rightarrow> logs_request \<Rightarrow> logs_request" where
  "page_request n k req =
     req\<lparr>lr_params := (lr_params req)\<lparr>lp_limit := Some (nat_str n), lp_offset := Some (nat_str (k * n))\<rparr>\<rparr>"

lemma parse_usize_nat_str: "n < 2 ^ 64 \<Longrightarrow> parse_usize (nat_str n) = Some n"
  using nat_str_digits [of n] digits_value_nat_str [of n] digit_not [of "hd (nat_str n)"]
  by (cases "nat_str n") (auto simp: parse_usize_def Let_def)

text \<open>The limit and the offset are read after the checks on the other parameters and before the one on the trace.\<close>

definition logs_filters_checked :: "logs_env \<Rightarrow> logs_params \<Rightarrow> logs_plan \<Rightarrow> bool" where
  "logs_filters_checked env ps plan =
     (logs_window env ps = Inr (lq_window plan) \<and> (lq_window plan \<noteq> None \<or> lp_trace_id ps \<noteq> None) \<and>
      optional parse_min_severity (lp_min_severity ps) = Inr (lq_min_severity plan) \<and>
      optional parse_body_contains (lp_body_contains ps) = Inr (lq_body_contains plan) \<and>
      (lq_body_contains plan = None \<or> lp_body_regex ps = None) \<and>
      optional (parse_body_regex (le_regex_new env)) (lp_body_regex ps) = Inr (lq_body_regex plan) \<and>
      optional parse_trace_id (lp_trace_id ps) = Inr (lq_trace_id plan))"

lemma logs_check_iff:
  "logs_check env ps = Inr plan \<longleftrightarrow>
     logs_filters_checked env ps plan \<and> optional parse_limit (lp_limit ps) = Inr (lq_limit plan) \<and>
     (\<exists>off. optional parse_offset (lp_offset ps) = Inr off \<and> lq_offset plan = (case off of None \<Rightarrow> 0 | Some n \<Rightarrow> n))"
  (is "?l \<longleftrightarrow> ?r")
proof
  assume ?l
  then show ?r
    unfolding logs_check_def logs_filters_checked_def
    by (simp split: sum.splits if_splits) auto
next
  assume ?r
  then obtain off where "optional parse_offset (lp_offset ps) = Inr off" "lq_offset plan = (case off of None \<Rightarrow> 0 | Some n \<Rightarrow> n)"
    by blast
  with \<open>?r\<close> show ?l
    unfolding logs_check_def logs_filters_checked_def by (simp del: not_None_eq)
qed

lemma page_request_check:
  assumes "logs_check env ps = Inr plan" and "0 < n" "n \<le> MAX_RESULT_ROWS" "k < 2 ^ 64"
  shows "logs_check env (ps\<lparr>lp_limit := Some (nat_str n), lp_offset := Some (nat_str k)\<rparr>) =
    Inr (plan\<lparr>lq_limit := Some n, lq_offset := k\<rparr>)"
proof -
  have "parse_usize (nat_str n) = Some n" "parse_usize (nat_str k) = Some k"
    using assms(2-4) by (intro parse_usize_nat_str; simp add: MAX_RESULT_ROWS_def)+
  then have "optional parse_limit (Some (nat_str n)) = Inr (Some n)" "optional parse_offset (Some (nat_str k)) = Inr (Some k)"
    using assms(2-3) by (simp_all add: parse_limit_def parse_offset_def optional_def del: nat_str.simps)
  with assms(1) show ?thesis
    unfolding logs_check_iff logs_filters_checked_def logs_window_def by (simp del: nat_str.simps)
qed

lemma pages_concat: "0 < n \<Longrightarrow> concat (map (\<lambda>k. take n (drop (k * n) xs)) [0..<m]) = take (m * n) xs"
proof (induction m)
  case (Suc m)
  then show ?case
    by (simp add: take_add [of "m * n" n xs, symmetric] add.commute)
qed simp


lemma logs_answer_ok:
  assumes "logs_answer plan rs = ok_response vs" and "lq_limit plan = None" "lq_offset plan = 0"
  shows "vs = map log_view_from (filter (logs_wanted plan) rs) \<and> length vs \<le> MAX_RESULT_ROWS"
  using assms by (auto simp: logs_answer_def Let_def ok_response_def error_response_def split: if_splits)

lemma logs_answer_page:
  assumes "logs_answer plan rs = ok_response vs" and "lq_limit plan = None" "lq_offset plan = 0"
  shows "logs_answer (plan\<lparr>lq_limit := Some n, lq_offset := k\<rparr>) rs = ok_response (take n (drop k vs))"
proof -
  have "logs_wanted (plan\<lparr>lq_limit := Some n, lq_offset := k\<rparr>) = logs_wanted plan"
    by (simp add: logs_wanted_def logs_range_def fun_eq_iff)
  with logs_answer_ok [OF assms] show ?thesis
    by (auto simp: logs_answer_def Let_def take_map drop_map)
qed

section \<open>Properties\<close>

text \<open>
  C21. The log query over the durable store, end to end: after any history of ingests, snapshots and
  restarts, a request whose parameters are valid is answered with the page it asks for of the records
  acknowledged for its tenant that pass every filter, in time order and in ingest order among equal
  times, or with a 400 when more than 100000 match; the store is left with the same acknowledged
  records.
\<close>

theorem log_query_answer:
  assumes "lumen_history ts fs tw fr s acked" and "logs_admitted env cfg req t plan"
  shows "\<exists>s'. handle_logs env cfg lumen_query lumen_query_with req s =
      (Some (logs_answer plan (sort_key observed_time_unix_nano (records_of t acked))), s',
       snd (resolve_logs_tenant env cfg req)) \<and>
    (\<forall>t' rng p. fst (lumen_query_with t' rng p s') = Inr (lumen_answer acked t' rng p))"
proof -
  have c: "hm_get_or [] (lf_per_tenant s) t' = sort_key observed_time_unix_nano (records_of t' acked)" for t'
    using lumen_history_inv [OF assms(1)] by auto
  obtain s' where h: "handle_logs env cfg lumen_query lumen_query_with req s =
      (Some (logs_answer plan (hm_get_or [] (lf_per_tenant s) t)), s', snd (resolve_logs_tenant env cfg req))"
    and s': "hm_get_or [] (lf_per_tenant s') = hm_get_or [] (lf_per_tenant s)"
    using lumen_file.handle_logs_answers [OF assms(2), of s] by blast
  from lumen_answers [of s' acked, unfolded s', OF c] h [unfolded c] show ?thesis
    by blast
qed

text \<open>
  The log query never panics and opens the store only for a request that passed every check:
  whatever the store does and whatever the request is there is a response, and unless the tenant and
  every parameter are valid it is a 400 or a 401 and the store has not been queried.
\<close>

theorem log_query_guarded:
  "\<exists>r s' evs. handle_logs env cfg query query_with req s = (Some r, s', evs) \<and>
     ((\<exists>t plan. logs_admitted env cfg req t plan) \<or> s' = s \<and> hr_status r \<in> {400, 401})"
proof (cases "\<exists>t plan. logs_admitted env cfg req t plan")
  case True
  then obtain t plan where a: "logs_admitted env cfg req t plan"
    by blast
  then have "logs_check env (lr_params req) = Inr plan"
    by (simp add: logs_admitted_def)
  from logs_dispatch_total [OF this, of query query_with t s] obtain res s'
    where d: "logs_dispatch query query_with t plan s = Some (res, s')"
    by blast
  from handle_logs_admitted [OF a d] a show ?thesis
    by blast
next
  case False
  from handle_logs_refused [OF this, of query query_with s] show ?thesis
    by blast
qed

text \<open>
  C29. Paging loses nothing and repeats nothing: when a request without a limit is answered with a
  list, the requests for its consecutive pages of any admissible size are each answered, and their
  answers put together are that list, even when the pages are fetched one by one while other tenants
  ingest and the process restarts in between.
\<close>

theorem log_pages_partition:
  assumes "lumen_history ts fs tw fr s acked" and "logs_admitted env cfg req t plan"
    and "lp_limit (lr_params req) = None" "lp_offset (lr_params req) = None"
    and "fst (handle_logs env cfg lumen_query lumen_query_with req s) = Some (ok_response vs)"
    and "0 < n" "n \<le> MAX_RESULT_ROWS"
    and "\<And>k. lumen_history ts fs tw fr (later k) (acked' k)" "\<And>k. records_of t (acked' k) = records_of t acked"
  shows "\<exists>pages. (\<forall>k \<le> length vs div n.
        fst (handle_logs env cfg lumen_query lumen_query_with (page_request n k req) (later k)) = Some (ok_response (pages k))) \<and>
      concat (map pages [0..<Suc (length vs div n)]) = vs"
proof (intro exI conjI allI impI)
  let ?rs = "sort_key observed_time_unix_nano (records_of t acked)"
  have c: "hm_get_or [] (lf_per_tenant s) t = ?rs" "hm_get_or [] (lf_per_tenant (later k)) t = ?rs" for k
    using lumen_history_inv [OF assms(1)] lumen_history_inv [OF assms(8)] assms(9) by auto
  have p: "lq_limit plan = None" "lq_offset plan = 0"
    using assms(2-4) by (auto simp: logs_admitted_def logs_check_iff optional_def)
  have a: "logs_answer plan ?rs = ok_response vs"
    using lumen_file.handle_logs_answers [OF assms(2), of s] assms(5) by (auto simp: c)
  note len = conjunct2 [OF logs_answer_ok [OF a p]]
  show "fst (handle_logs env cfg lumen_query lumen_query_with (page_request n k req) (later k)) =
      Some (ok_response (take n (drop (k * n) vs)))" if "k \<le> length vs div n" for k
  proof -
    have "k * n \<le> length vs"
      using that by (meson div_times_less_eq_dividend le_trans mult_le_mono1)
    then have "logs_admitted env cfg (page_request n k req) t (plan\<lparr>lq_limit := Some n, lq_offset := k * n\<rparr>)"
      using assms(2) page_request_check [OF _ assms(6,7), of env "lr_params req" plan "k * n"] len
      by (simp add: logs_admitted_def page_request_def resolve_logs_tenant_def MAX_RESULT_ROWS_def del: nat_str.simps)
    from lumen_file.handle_logs_answers [OF this, of "later k"] logs_answer_page [OF a p] show ?thesis
      by (auto simp: c)
  qed
  show "concat (map (\<lambda>k. take n (drop (k * n) vs)) [0..<Suc (length vs div n)]) = vs"
    using assms(6) pages_concat [of n vs "Suc (length vs div n)"] dividend_less_times_div [of n "length vs"]
    by (simp add: algebra_simps)
qed

text \<open>
  Identifiers are read back as they are written: the trace identifier parameter accepts exactly
  the texts that are, up to letter case, the hexadecimal form the responses show of sixteen bytes,
  and gives those bytes.
\<close>

theorem trace_id_text_exact:
  "parse_trace_id raw = Inr bytes \<longleftrightarrow> length bytes = 16 \<and> eq_ignore_ascii_case raw (to_lowercase_hex bytes)"
proof -
  have "eq_ignore_ascii_case raw (to_lowercase_hex bytes) \<longleftrightarrow> map to_ascii_lowercase raw = hex_encode bytes"
    by (simp add: eq_ignore_ascii_case_def to_lowercase_hex_def hex_encode_lowercase)
  moreover have "length raw = 2 * length bytes" if "map to_ascii_lowercase raw = hex_encode bytes"
    using that by (metis length_map hex_encode_length)
  ultimately show ?thesis
    using hex_pairs_iff [of raw 0 bytes] hex_pairs_length [of 0 raw bytes]
    by (auto simp: parse_trace_id_def split: sum.splits)
qed

text \<open>
  The logs of a trace are the same by either way: a log query that gives only a trace identifier
  answers with what \<open>logs_for_trace\<close> returns from the same store in the same state, up to the limit on
  the size of an answer, and fails when it fails.
\<close>

theorem logs_by_trace_agree:
  assumes "fst (resolve_logs_tenant env cfg req) = Inr t" and "parse_trace_id raw = Inr tid"
    and "lr_params req = \<lparr>lp_start = None, lp_end = None, lp_min_severity = None, lp_body_contains = None,
      lp_body_regex = None, lp_limit = None, lp_offset = None, lp_trace_id = Some raw\<rparr>"
    and "logs_for_trace query t tid s = (res, s')"
  shows "handle_logs env cfg query query_with req s =
    (Some (case res of
       Inl _ \<Rightarrow> error_response 500 ''the backing log store could not be read''
     | Inr vs \<Rightarrow> if MAX_RESULT_ROWS < length vs then error_response 400 REASON_TOO_MANY_ROWS else ok_response vs),
     s', snd (resolve_logs_tenant env cfg req))"
proof -
  define plan where "plan = \<lparr>lq_window = None, lq_min_severity = None, lq_body_contains = None, lq_body_regex = None,
    lq_limit = None, lq_offset = 0, lq_trace_id = Some tid\<rparr>"
  have a: "logs_admitted env cfg req t plan"
    using assms(1-3) by (simp add: logs_admitted_def logs_check_def logs_window_def optional_def plan_def)
  obtain q where q: "query t time_range_all s = (q, s')"
    and res: "res = (case q of Inl e \<Rightarrow> Inl e | Inr rs \<Rightarrow> Inr (map log_view_from (filter (\<lambda>r. trace_id r = Some tid) rs)))"
    using assms(4) by (cases "query t time_range_all s") (auto simp: logs_for_trace_def split: sum.splits)
  have d: "logs_dispatch query query_with t plan s = Some (q, s')"
    by (simp add: logs_dispatch_def logs_range_def plan_def q)
  have "length rs \<le> MAX_RESULT_ROWS \<Longrightarrow> length rs \<le> usize_max" for rs :: "log_record list"
    by (simp add: MAX_RESULT_ROWS_def usize_max_def)
  then show ?thesis
    unfolding handle_logs_admitted [OF a d] res
    by (auto simp: logs_page_def plan_def Let_def logs_success_response_def split: sum.split)
qed

section \<open>A concrete request\<close>

definition lx_env :: logs_env where
  "lx_env = \<lparr>le_http = qx_lib, le_decode = qx_decode, le_rfc3339 = (\<lambda>_. None), le_regex_new = (\<lambda>_. None)\<rparr>"

definition lx_config :: logs_config where
  "lx_config = \<lparr>lc_tenant = Some ''t'', lc_auth = None\<rparr>"

definition lx_request :: "string option \<Rightarrow> string option \<Rightarrow> string option \<Rightarrow> logs_request" where
  "lx_request start end' tid = \<lparr>lr_authorization = None, lr_params = \<lparr>lp_start = start, lp_end = end', lp_min_severity = None,
     lp_body_contains = None, lp_body_regex = None, lp_limit = None, lp_offset = None, lp_trace_id = tid\<rparr>, lr_now = 0\<rparr>"

definition lx_plan :: logs_plan where
  "lx_plan = \<lparr>lq_window = Some \<lparr>start_unix_nano = 0, end_unix_nano = 60000000000\<rparr>, lq_min_severity = None,
     lq_body_contains = None, lq_body_regex = None, lq_limit = None, lq_offset = 0, lq_trace_id = None\<rparr>"

abbreviation lx_store :: lumen_file where
  "lx_store \<equiv> ex_store (ex_line @ [newline]) [(''t'', [ex_rec])] [LumenIngest ''t'' 1]"

lemma lx_resolve: "fst (resolve_logs_tenant lx_env lx_config (lx_request a b c)) = Inr ''t''"
  by (simp add: resolve_logs_tenant_def resolve_request_tenant_or_refuse_def resolve_tenant_or_refuse_def lx_config_def)

lemma lx_admitted: "logs_admitted lx_env lx_config (lx_request (Some (nat_str 0)) (Some (nat_str 60)) None) ''t'' lx_plan"
proof -
  have "parse_time_range (\<lambda>_. None) (nat_str 0) (nat_str 60) = Inr \<lparr>sr_start_secs = 0, sr_end_secs = 60\<rparr>"
    using parse_epoch_seconds_nat [of 0 "nat_str 0"] parse_epoch_seconds_nat [of 60 "nat_str 60"]
    by (simp add: parse_time_range_def del: nat_str.simps)
  then show ?thesis
    using lx_resolve
    by (simp add: logs_admitted_def logs_check_def logs_window_def optional_def lx_request_def lx_env_def lx_plan_def
        saturating_sub_def saturating_mul_def MAX_WINDOW_SECONDS_def logs_seconds_to_nanos_def del: nat_str.simps)
qed

lemma lx_answer: "logs_answer lx_plan [ex_rec] = ok_response [log_view_from ex_rec]"
  by (simp add: logs_answer_def logs_wanted_def logs_range_def range_contains_def lx_plan_def ex_rec_def MAX_RESULT_ROWS_def)

theorem log_query_answer_witness:
  "fst (handle_logs lx_env lx_config lumen_query lumen_query_with
      (lx_request (Some (nat_str 0)) (Some (nat_str 60)) None) lx_store) = Some (ok_response [log_view_from ex_rec])"
  using log_query_answer [OF ex_history lx_admitted] by (auto simp: lx_answer)

lemma lx_unpaged:
  "fst (handle_logs lx_env lx_config lumen_query lumen_query_with
      (lx_request (Some (nat_str 0)) (Some (nat_str 60)) None) lx_store) = Some (ok_response [log_view_from ex_rec])"
  using lumen_file.handle_logs_answers [OF lx_admitted, of lx_store] lx_answer by (auto simp: ex_store_def hm_get_or_def)

theorem log_pages_partition_witness:
  "\<exists>pages. (\<forall>k \<le> 1. fst (handle_logs lx_env lx_config lumen_query lumen_query_with
        (page_request 1 k (lx_request (Some (nat_str 0)) (Some (nat_str 60)) None)) lx_store) = Some (ok_response (pages k))) \<and>
      concat (map pages [0..<2]) = [log_view_from ex_rec]"
  using log_pages_partition [OF ex_history lx_admitted _ _ lx_unpaged, where n = 1, OF _ _ _ _ ex_history]
  by (simp add: lx_request_def MAX_RESULT_ROWS_def numeral_2_eq_2 del: nat_str.simps)

theorem logs_by_trace_agree_witness:
  "fst (handle_logs lx_env lx_config lumen_query lumen_query_with
      (lx_request None None (Some (to_lowercase_hex (replicate 16 171)))) lx_store) = Some (ok_response [])"
proof -
  have "parse_trace_id (to_lowercase_hex (replicate 16 171)) = Inr (replicate 16 171)"
    by (simp add: parse_trace_id_def to_lowercase_hex_def hex_pairs_encode)
  moreover have "\<exists>s'. logs_for_trace lumen_query ''t'' (replicate 16 171) lx_store = (Inr [], s')"
    by (simp add: logs_for_trace_def lumen_query_def ex_store_def ex_rec_def Let_def hm_get_or_def)
  ultimately show ?thesis
    using logs_by_trace_agree [OF lx_resolve, of "to_lowercase_hex (replicate 16 171)" "replicate 16 171" None None
        "Some (to_lowercase_hex (replicate 16 171))" lumen_query lx_store]
    by (auto simp: lx_request_def MAX_RESULT_ROWS_def)
qed

end
