(* ===== verification/Trace_Query.thy ===== *)
theory Trace_Query
  imports Ray_Durable Log_Answers
begin

text \<open>
  The trace query API (\<open>crates/trace-query-api/src/lib.rs\<close>): the listing of a service's spans with
  its filters, the lookup of a trace, and the lookup of a trace together with its logs, which reads
  the trace store and, through \<open>logs_for_trace\<close>, the log store. The stores' queries are arguments.
\<close>

section \<open>Parameters and filters\<close>

record traces_params =
  tp_service :: "string option"
  tp_start :: "string option"
  tp_end :: "string option"
  tp_error :: "string option"
  tp_attr_key :: "string option"
  tp_attr_value :: "string option"

datatype error_filter = ErrorFilterOff | OnlyFailedTraces

definition parse_error_filter :: "string option \<Rightarrow> string + error_filter" where
  "parse_error_filter raw =
     (case raw of
        None \<Rightarrow> Inr ErrorFilterOff
      | Some v \<Rightarrow>
          (let lower = map to_ascii_lowercase v in
           if lower = ''true'' then Inr OnlyFailedTraces
           else if lower = ''false'' then Inr ErrorFilterOff
           else Inl ''invalid request: error must be true or false''))"

definition retain_failed_traces :: "span list \<Rightarrow> span list" where
  "retain_failed_traces spans =
     (let failed = map sp_trace_id (filter (\<lambda>s. ss_code (sp_status s) = StatusError) spans) in
      filter (\<lambda>s. List.member failed (sp_trace_id s)) spans)"

datatype attribute_filter = AttributeFilterOff | MatchingTraces string string

definition parse_attribute_filter :: "string option \<Rightarrow> string option \<Rightarrow> string + attribute_filter" where
  "parse_attribute_filter attr_key attr_value =
     (let key = (case attr_key of None \<Rightarrow> [] | Some k \<Rightarrow> k);
          val = (case attr_value of None \<Rightarrow> [] | Some v \<Rightarrow> v) in
      if key = [] \<and> val = [] then Inr AttributeFilterOff
      else if key \<noteq> [] \<and> val \<noteq> [] then Inr (MatchingTraces key val)
      else Inl ''invalid request: attr_key and attr_value must both be present'')"

definition retain_traces_with_attribute :: "span list \<Rightarrow> string \<Rightarrow> string \<Rightarrow> span list" where
  "retain_traces_with_attribute spans key val =
     (let matching = map sp_trace_id
            (filter (\<lambda>s. case map_of (sp_attributes s) key of Some v \<Rightarrow> v = val | None \<Rightarrow> False) spans) in
      filter (\<lambda>s. List.member matching (sp_trace_id s)) spans)"

definition read_required_service :: "string option \<Rightarrow> string + service_name" where
  "read_required_service raw =
     (case raw of
        Some s \<Rightarrow> if s \<noteq> [] then Inr s else Inl ''invalid request: service is empty''
      | None \<Rightarrow> Inl ''invalid request: service is required'')"

definition traces_parse_trace_id :: "string \<Rightarrow> string + ray_trace_id" where
  "traces_parse_trace_id raw =
     (if length raw \<noteq> 32 then Inl ''invalid trace_id''
      else case hex_pairs 0 raw of Inl _ \<Rightarrow> Inl ''invalid trace_id'' | Inr bytes \<Rightarrow> Inr bytes)"

definition traces_seconds_to_nanos :: "u64 \<Rightarrow> u64" where
  "traces_seconds_to_nanos seconds = saturating_mul seconds 1000000000"

section \<open>The handlers\<close>

record traces_env =
  te_http :: http_lib
  te_decode :: "string \<Rightarrow> string \<Rightarrow> jwt_error_kind + raw_claims"
  te_rfc3339 :: "string \<Rightarrow> 64 word option"

record traces_config =
  tn_tenant :: "tenant_id option"
  tn_auth :: "validator option"

record 'p traces_request =
  tq_authorization :: "string option"
  tq_params :: 'p
  tq_now :: system_time

definition resolve_traces_tenant ::
  "traces_env \<Rightarrow> traces_config \<Rightarrow> 'p traces_request \<Rightarrow> ('b http_response + tenant_id) \<times> audit_event list" where
  "resolve_traces_tenant env cfg req =
     resolve_request_tenant_or_refuse (te_http env) (te_decode env) (tn_auth cfg) (tq_authorization req) (tn_tenant cfg)
       ''the trace query'' ''trace_query'' (tq_now req)"

record traces_plan =
  tl_service :: service_name
  tl_range :: ray_time_range
  tl_error :: error_filter
  tl_attribute :: attribute_filter

text \<open>The checks of the listing before it queries the store.\<close>

definition traces_check :: "traces_env \<Rightarrow> traces_params \<Rightarrow> string + traces_plan" where
  "traces_check env ps =
     (case read_required_service (tp_service ps) of
        Inl reason \<Rightarrow> Inl reason
      | Inr service \<Rightarrow>
        (case parse_time_range (te_rfc3339 env) (case tp_start ps of None \<Rightarrow> [] | Some s \<Rightarrow> s)
                (case tp_end ps of None \<Rightarrow> [] | Some s \<Rightarrow> s) of
           Inl reason \<Rightarrow> Inl reason
         | Inr tr \<Rightarrow>
           if saturating_sub (sr_end_secs tr) (sr_start_secs tr) > MAX_WINDOW_SECONDS then Inl REASON_WINDOW_TOO_LARGE
           else case parse_error_filter (tp_error ps) of
             Inl reason \<Rightarrow> Inl reason
           | Inr ef \<Rightarrow>
             (case parse_attribute_filter (tp_attr_key ps) (tp_attr_value ps) of
                Inl reason \<Rightarrow> Inl reason
              | Inr af \<Rightarrow>
                  Inr \<lparr>tl_service = service,
                       tl_range = \<lparr>rr_start_unix_nano = traces_seconds_to_nanos (sr_start_secs tr),
                                   rr_end_unix_nano = traces_seconds_to_nanos (sr_end_secs tr)\<rparr>,
                       tl_error = ef, tl_attribute = af\<rparr>)))"

definition traces_capped :: "span list \<Rightarrow> span list http_response" where
  "traces_capped spans =
     (if length spans > MAX_RESULT_ROWS then error_response 400 REASON_TOO_MANY_ROWS else ok_response spans)"

definition traces_filtered :: "traces_plan \<Rightarrow> span list \<Rightarrow> span list" where
  "traces_filtered plan spans =
     (let spans = (case tl_error plan of ErrorFilterOff \<Rightarrow> spans | OnlyFailedTraces \<Rightarrow> retain_failed_traces spans) in
      case tl_attribute plan of AttributeFilterOff \<Rightarrow> spans | MatchingTraces key val \<Rightarrow> retain_traces_with_attribute spans key val)"

definition handle_traces ::
  "traces_env \<Rightarrow> traces_config \<Rightarrow>
   (tenant_id \<Rightarrow> service_name \<Rightarrow> ray_time_range \<Rightarrow> 's \<Rightarrow> (trace_store_error + span list) \<times> 's) \<Rightarrow>
   traces_params traces_request \<Rightarrow> 's \<Rightarrow> span list http_response \<times> 's \<times> audit_event list" where
  "handle_traces env cfg query req s =
     (case resolve_traces_tenant env cfg req of
        (Inl resp, evs) \<Rightarrow> (resp, s, evs)
      | (Inr tenant, evs) \<Rightarrow>
        (case traces_check env (tq_params req) of
           Inl reason \<Rightarrow> (error_response 400 reason, s, evs)
         | Inr plan \<Rightarrow>
           (case query tenant (tl_service plan) (tl_range plan) s of
              (Inl _, s') \<Rightarrow> (error_response 500 ''the backing trace store could not be read'', s', evs)
            | (Inr spans, s') \<Rightarrow> (traces_capped (traces_filtered plan spans), s', evs))))"

text \<open>\<open>TracesByIdParams\<close> is its one optional parameter.\<close>

definition handle_traces_by_id ::
  "traces_env \<Rightarrow> traces_config \<Rightarrow>
   (tenant_id \<Rightarrow> ray_trace_id \<Rightarrow> 's \<Rightarrow> (trace_store_error + span list) \<times> 's) \<Rightarrow>
   string option traces_request \<Rightarrow> 's \<Rightarrow> span list http_response \<times> 's \<times> audit_event list" where
  "handle_traces_by_id env cfg get_trace req s =
     (case resolve_traces_tenant env cfg req of
        (Inl resp, evs) \<Rightarrow> (resp, s, evs)
      | (Inr tenant, evs) \<Rightarrow>
        (case tq_params req of
           None \<Rightarrow> (error_response 400 ''invalid trace_id'', s, evs)
         | Some raw \<Rightarrow>
           (case traces_parse_trace_id raw of
              Inl _ \<Rightarrow> (error_response 400 ''invalid trace_id'', s, evs)
            | Inr tid \<Rightarrow>
              (case get_trace tenant tid s of
                 (Inl _, s') \<Rightarrow> (error_response 500 ''the backing trace store could not be read'', s', evs)
               | (Inr spans, s') \<Rightarrow> (traces_capped spans, s', evs)))))"

record trace_with_logs =
  tw_trace_id :: ray_trace_id
  tw_spans :: "span list"
  tw_logs :: "log_view list"

definition handle_traces_with_logs ::
  "traces_env \<Rightarrow> traces_config \<Rightarrow>
   (tenant_id \<Rightarrow> ray_trace_id \<Rightarrow> 's \<Rightarrow> (trace_store_error + span list) \<times> 's) \<Rightarrow>
   (tenant_id \<Rightarrow> time_range \<Rightarrow> 'l \<Rightarrow> (log_store_error + log_record list) \<times> 'l) \<Rightarrow>
   string option traces_request \<Rightarrow> 's \<Rightarrow> 'l \<Rightarrow> trace_with_logs http_response \<times> 's \<times> 'l \<times> audit_event list" where
  "handle_traces_with_logs env cfg get_trace log_query req s l =
     (case resolve_traces_tenant env cfg req of
        (Inl resp, evs) \<Rightarrow> (resp, s, l, evs)
      | (Inr tenant, evs) \<Rightarrow>
        (case tq_params req of
           None \<Rightarrow> (error_response 400 ''invalid trace_id'', s, l, evs)
         | Some raw \<Rightarrow>
           (case traces_parse_trace_id raw of
              Inl _ \<Rightarrow> (error_response 400 ''invalid trace_id'', s, l, evs)
            | Inr tid \<Rightarrow>
              (case get_trace tenant tid s of
                 (Inl _, s') \<Rightarrow> (error_response 500 ''the backing trace store could not be read'', s', l, evs)
               | (Inr spans, s') \<Rightarrow>
                 (case logs_for_trace log_query tenant tid l of
                    (Inl _, l') \<Rightarrow> (error_response 500 ''the backing log store could not be read'', s', l', evs)
                  | (Inr logs, l') \<Rightarrow>
                      (ok_response \<lparr>tw_trace_id = tid, tw_spans = spans, tw_logs = logs\<rparr>, s', l', evs))))))"

section \<open>What a listing asks for\<close>

text \<open>
  The spans of a scope that belong to a failed trace, if asked, and to a trace with an attribute, if
  asked; a trace is judged by all its spans in the scope.
\<close>

definition trace_qualifies :: "traces_plan \<Rightarrow> span set \<Rightarrow> ray_trace_id \<Rightarrow> bool" where
  "trace_qualifies plan scope tid =
     ((tl_error plan = OnlyFailedTraces \<longrightarrow> (\<exists>y\<in>scope. sp_trace_id y = tid \<and> ss_code (sp_status y) = StatusError)) \<and>
      (\<forall>key val. tl_attribute plan = MatchingTraces key val \<longrightarrow>
         (\<exists>y\<in>scope. sp_trace_id y = tid \<and> map_of (sp_attributes y) key = Some val)))"

lemma retain_traces_iff:
  "filter (\<lambda>s. List.member (map sp_trace_id (filter P spans)) (sp_trace_id s)) spans =
     filter (\<lambda>x. \<exists>y\<in>set spans. sp_trace_id y = sp_trace_id x \<and> P y) spans"
  by (rule filter_cong) (auto simp: image_iff)

lemma traces_filtered_iff:
  "traces_filtered plan spans = filter (\<lambda>x. trace_qualifies plan (set spans) (sp_trace_id x)) spans"
proof -
  have a: "(case map_of (sp_attributes s) key of Some v \<Rightarrow> v = val | None \<Rightarrow> False) \<longleftrightarrow> map_of (sp_attributes s) key = Some val"
    for s key val
    by (auto split: option.split)
  show ?thesis
    unfolding traces_filtered_def retain_failed_traces_def retain_traces_with_attribute_def Let_def retain_traces_iff a
    by (cases "tl_error plan"; cases "tl_attribute plan")
      (auto simp: trace_qualifies_def image_iff intro!: filter_cong, metis)
qed

section \<open>Answers\<close>

text \<open>Whether a request has a tenant does not depend on the type of the body the handler answers with.\<close>

lemma resolve_any_body:
  fixes env :: traces_env
  assumes "fst (resolve_traces_tenant env cfg req :: ('b http_response + tenant_id) \<times> audit_event list) = Inr t"
  shows "(resolve_traces_tenant env cfg req :: ('c http_response + tenant_id) \<times> audit_event list) =
    (Inr t, snd (resolve_traces_tenant env cfg req :: ('b http_response + tenant_id) \<times> audit_event list))"
  using assms
  by (auto simp: resolve_traces_tenant_def resolve_request_tenant_or_refuse_def resolve_tenant_or_refuse_def
      split: option.splits prod.splits sum.splits)

definition traces_tenant :: "traces_env \<Rightarrow> traces_config \<Rightarrow> 'p traces_request \<Rightarrow> tenant_id \<Rightarrow> audit_event list \<Rightarrow> bool" where
  "traces_tenant env cfg req t evs =
     ((resolve_traces_tenant env cfg req :: (unit http_response + tenant_id) \<times> audit_event list) = (Inr t, evs))"

lemma traces_tenantD: "traces_tenant env cfg req t evs \<Longrightarrow> resolve_traces_tenant env cfg req = (Inr t, evs)"
  using resolve_any_body [where 'b = unit, of env cfg req t] by (simp add: traces_tenant_def)

definition listing_scope :: "(tenant_id \<times> span list) list \<Rightarrow> tenant_id \<Rightarrow> traces_plan \<Rightarrow> span list" where
  "listing_scope acked t plan =
     filter (\<lambda>x. span_service_name x = tl_service plan \<and> ray_range_contains (tl_range plan) (sp_start_time_unix_nano x))
       (spans_of t acked)"

lemma traces_check_service: "traces_check env ps = Inr plan \<Longrightarrow> tl_service plan \<noteq> []"
  by (auto simp: traces_check_def read_required_service_def split: sum.splits option.splits if_splits)

lemma handle_traces_scope:
  assumes "ray_holds acked (rf_indices s)" and "traces_tenant env cfg req t evs" and "traces_check env (tq_params req) = Inr plan"
  shows "\<exists>spans s'. handle_traces env cfg ray_query req s =
      (traces_capped (filter (\<lambda>x. trace_qualifies plan (set (listing_scope acked t plan)) (sp_trace_id x)) spans), s', evs) \<and>
    rf_indices s' = rf_indices s \<and> sorted (map sp_start_time_unix_nano spans) \<and> mset spans = mset (listing_scope acked t plan)"
proof -
  define spans where "spans = filter (\<lambda>x. ray_range_contains (tl_range plan) (sp_start_time_unix_nano x))
    (hm_get_or [] (ri_by_service (rf_indices s)) (t, tl_service plan))"
  have "mset (hm_get_or [] (ri_by_service (rf_indices s)) (t, tl_service plan)) =
      mset (filter (\<lambda>x. span_service_name x = tl_service plan) (spans_of t acked))"
    using assms(1) traces_check_service [OF assms(3)] by (simp add: ray_holds_def)
  then have m: "mset spans = mset (listing_scope acked t plan)"
    unfolding spans_def listing_scope_def mset_filter by (simp add: filter_filter_mset conj_commute)
  have "sorted (map sp_start_time_unix_nano spans)"
    using assms(1) by (simp add: spans_def ray_holds_def ray_ok_def ray_sorted_def sorted_filter)
  moreover have "handle_traces env cfg ray_query req s =
      (traces_capped (filter (\<lambda>x. trace_qualifies plan (set spans) (sp_trace_id x)) spans), snd (ray_query t (tl_service plan) (tl_range plan) s), evs)"
    by (simp add: handle_traces_def traces_tenantD [OF assms(2)] assms(3) ray_query_simps Let_def spans_def traces_filtered_iff)
  ultimately show ?thesis
    using m mset_eq_setD [OF m] by (intro exI [of _ spans]) (simp add: ray_reads_keep)
qed

text \<open>
  C30. The listing of a service's spans over the durable store, end to end: after any history, a
  request with valid parameters is answered with exactly the acknowledged spans of its tenant and
  service that start in its window and whose trace has, among those, an error span if failed traces
  are asked for and a span with the attribute if one is asked for; whole traces of the window, in
  start order; or with a 400 when there are more than 100000.
\<close>

theorem trace_query_answer:
  assumes "ray_history ts fs tw fr s acked" and "traces_tenant env cfg req t evs" and "traces_check env (tq_params req) = Inr plan"
  shows "\<exists>spans s'. handle_traces env cfg ray_query req s = (traces_capped spans, s', evs) \<and>
    sorted (map sp_start_time_unix_nano spans) \<and>
    mset spans = mset (filter (\<lambda>x. trace_qualifies plan (set (listing_scope acked t plan)) (sp_trace_id x)) (listing_scope acked t plan)) \<and>
    ray_answers acked s'"
proof -
  have inv: "ray_holds acked (rf_indices s)"
    using ray_history_inv [OF assms(1)] by blast
  let ?P = "\<lambda>x. trace_qualifies plan (set (listing_scope acked t plan)) (sp_trace_id x)"
  from handle_traces_scope [OF inv assms(2,3)] obtain spans s'
    where h: "handle_traces env cfg ray_query req s = (traces_capped (filter ?P spans), s', evs)" "rf_indices s' = rf_indices s"
    and m: "sorted (map sp_start_time_unix_nano spans)" "mset spans = mset (listing_scope acked t plan)"
    by blast
  from m have "sorted (map sp_start_time_unix_nano (filter ?P spans))" "mset (filter ?P spans) = mset (filter ?P (listing_scope acked t plan))"
    by (simp_all add: sorted_filter)
  with h inv ray_holds_answers [of acked s'] show ?thesis
    by (metis (no_types, lifting))
qed

text \<open>
  A trace and its logs in one call are what the two stores hold: after any histories of the two
  stores, the combined lookup of a trace answers with the acknowledged spans of the trace in start
  order and with the views of the acknowledged log records that carry its identifier in time order,
  the same spans as the lookup of the trace alone up to the limit of that one on its size.
\<close>

theorem trace_with_logs_joined:
  assumes "ray_history ts fs tw fr s acked" and "lumen_history ts' fs' tw' fr' l logged"
    and "traces_tenant env cfg req t evs" and "tq_params req = Some raw" and "traces_parse_trace_id raw = Inr tid"
    and "spans = by_start (filter (\<lambda>x. sp_trace_id x = tid) (spans_of t acked))"
    and "logs = filter (\<lambda>r. range_contains time_range_all (observed_time_unix_nano r) \<and> trace_id r = Some tid)
      (sort_key observed_time_unix_nano (records_of t logged))"
  shows "fst (handle_traces_with_logs env cfg ray_get_trace lumen_query req s l) =
      ok_response \<lparr>tw_trace_id = tid, tw_spans = spans, tw_logs = map log_view_from logs\<rparr> \<and>
    fst (handle_traces_by_id env cfg ray_get_trace req s) = traces_capped spans"
proof -
  have g: "ray_get_trace t tid s = (Inr spans, snd (ray_get_trace t tid s))"
    using ray_history_inv [OF assms(1)] by (simp add: ray_get_trace_def Let_def ray_holds_def assms(6))
  have c: "hm_get_or [] (lf_per_tenant l) t = sort_key observed_time_unix_nano (records_of t logged)"
    using lumen_history_inv [OF assms(2)] by blast
  from lumen_file.query_result [of t time_range_all l] obtain l' where q: "lumen_query t time_range_all l =
      (Inr (filter (\<lambda>r. range_contains time_range_all (observed_time_unix_nano r)) (sort_key observed_time_unix_nano (records_of t logged))), l')"
    unfolding c by blast
  have "logs_for_trace lumen_query t tid l = (Inr (map log_view_from logs), l')"
    by (simp add: logs_for_trace_def q assms(7) conj_commute)
  with g show ?thesis
    unfolding handle_traces_with_logs_def handle_traces_by_id_def traces_tenantD [OF assms(3)]
    by (auto simp: assms(4,5) split: prod.split)
qed

lemma traces_tenant_cases:
  obtains (tenant) t evs where "traces_tenant env cfg req t evs"
  | (refused) resp evs where "resolve_traces_tenant env cfg req = (Inl (resp :: 'c http_response), evs)" "hr_status resp = 401"
proof (cases "resolve_traces_tenant env cfg req :: ('c http_response + tenant_id) \<times> audit_event list")
  case (Pair res evs)
  show thesis
  proof (cases res)
    case (Inl resp)
    with Pair have "hr_status resp = 401"
      unfolding resolve_traces_tenant_def by (intro resolve_refusal_status) simp
    with Inl Pair refused show thesis
      by blast
  next
    case (Inr t)
    with Pair resolve_any_body [where 'b = 'c and 'c = unit, of env cfg req t] tenant show thesis
      by (simp add: traces_tenant_def)
  qed
qed

lemma handle_traces_refused:
  assumes "\<nexists>t evs plan. traces_tenant env cfg req t evs \<and> traces_check env (tq_params req) = Inr plan"
  shows "\<exists>r evs. handle_traces env cfg query req s = (r, s, evs) \<and> hr_status r \<in> {400, 401}"
proof (rule traces_tenant_cases [where 'c = "span list", of env cfg req])
  fix t evs
  assume t: "traces_tenant env cfg req t evs"
  with assms obtain reason where "traces_check env (tq_params req) = Inl reason"
    by (meson sumE)
  then show ?thesis
    by (simp add: handle_traces_def traces_tenantD [OF t] error_response_def)
qed (simp add: handle_traces_def)

lemma handle_by_id_refused:
  assumes "\<nexists>t evs raw tid. traces_tenant env cfg req t evs \<and> tq_params req = Some raw \<and> traces_parse_trace_id raw = Inr tid"
  shows "\<exists>r evs. handle_traces_by_id env cfg get_trace req s = (r, s, evs) \<and> hr_status r \<in> {400, 401}"
    and "\<exists>r evs. handle_traces_with_logs env cfg get_trace log_query req s l = (r, s, l, evs) \<and> hr_status r \<in> {400, 401}"
proof -
  have b: "tq_params req = None \<or> (\<exists>raw e. tq_params req = Some raw \<and> traces_parse_trace_id raw = Inl e)"
    if "traces_tenant env cfg req t evs" for t evs
    using that assms by (metis sumE option.exhaust)
  show "\<exists>r evs. handle_traces_by_id env cfg get_trace req s = (r, s, evs) \<and> hr_status r \<in> {400, 401}"
  proof (rule traces_tenant_cases [where 'c = "span list", of env cfg req])
    fix t evs
    assume t: "traces_tenant env cfg req t evs"
    from b [OF t] show ?thesis
      by (auto simp: handle_traces_by_id_def traces_tenantD [OF t] error_response_def)
  qed (simp add: handle_traces_by_id_def)
  show "\<exists>r evs. handle_traces_with_logs env cfg get_trace log_query req s l = (r, s, l, evs) \<and> hr_status r \<in> {400, 401}"
  proof (rule traces_tenant_cases [where 'c = trace_with_logs, of env cfg req])
    fix t evs
    assume t: "traces_tenant env cfg req t evs"
    from b [OF t] show ?thesis
      by (auto simp: handle_traces_with_logs_def traces_tenantD [OF t] error_response_def)
  qed (simp add: handle_traces_with_logs_def)
qed

text \<open>
  None of the trace endpoints touches a store for a request it refuses: without a tenant the
  answer is a 401, with a malformed parameter a 400, and in both cases both stores are as they were.
\<close>

theorem trace_query_guarded:
  "((\<exists>t evs plan. traces_tenant env cfg req t evs \<and> traces_check env (tq_params req) = Inr plan) \<or>
     (\<exists>r evs. handle_traces env cfg query req s = (r, s, evs) \<and> hr_status r \<in> {400, 401})) \<and>
   ((\<exists>t evs raw tid. traces_tenant env cfg req' t evs \<and> tq_params req' = Some raw \<and> traces_parse_trace_id raw = Inr tid) \<or>
     (\<exists>r evs. handle_traces_by_id env cfg get_trace req' s = (r, s, evs) \<and> hr_status r \<in> {400, 401}) \<and>
     (\<exists>r evs. handle_traces_with_logs env cfg get_trace log_query req' s l = (r, s, l, evs) \<and> hr_status r \<in> {400, 401}))"
proof (intro conjI disjCI)
  assume n: "\<not> (\<exists>r evs. handle_traces env cfg query req s = (r, s, evs) \<and> hr_status r \<in> {400, 401})"
  show "\<exists>t evs plan. traces_tenant env cfg req t evs \<and> traces_check env (tq_params req) = Inr plan"
    by (rule ccontr) (rule notE [OF n handle_traces_refused])
next
  assume n: "\<not> ((\<exists>r evs. handle_traces_by_id env cfg get_trace req' s = (r, s, evs) \<and> hr_status r \<in> {400, 401}) \<and>
     (\<exists>r evs. handle_traces_with_logs env cfg get_trace log_query req' s l = (r, s, l, evs) \<and> hr_status r \<in> {400, 401}))"
  show "\<exists>t evs raw tid. traces_tenant env cfg req' t evs \<and> tq_params req' = Some raw \<and> traces_parse_trace_id raw = Inr tid"
    by (rule ccontr) (rule notE [OF n conjI [OF handle_by_id_refused]])
qed

section \<open>Concrete requests\<close>

definition wx_env :: traces_env where
  "wx_env = \<lparr>te_http = qx_lib, te_decode = qx_decode, te_rfc3339 = (\<lambda>_. None)\<rparr>"

definition wx_config :: traces_config where
  "wx_config = \<lparr>tn_tenant = Some ''t'', tn_auth = None\<rparr>"

definition wx_request :: "'p \<Rightarrow> 'p traces_request" where
  "wx_request ps = \<lparr>tq_authorization = None, tq_params = ps, tq_now = 0\<rparr>"

definition wx_params :: traces_params where
  "wx_params = \<lparr>tp_service = Some ''api'', tp_start = Some (nat_str 0), tp_end = Some (nat_str 60), tp_error = Some ''TRUE'',
     tp_attr_key = None, tp_attr_value = None\<rparr>"

definition wx_plan :: traces_plan where
  "wx_plan = \<lparr>tl_service = ''api'', tl_range = \<lparr>rr_start_unix_nano = 0, rr_end_unix_nano = 60000000000\<rparr>,
     tl_error = OnlyFailedTraces, tl_attribute = AttributeFilterOff\<rparr>"

lemma wx_tenant: "traces_tenant wx_env wx_config (wx_request ps) ''t'' []"
  by (simp add: traces_tenant_def resolve_traces_tenant_def resolve_request_tenant_or_refuse_def resolve_tenant_or_refuse_def
      wx_config_def)

lemma wx_check: "traces_check wx_env (tq_params (wx_request wx_params)) = Inr wx_plan"
proof -
  have "parse_time_range (\<lambda>_. None) (nat_str 0) (nat_str 60) = Inr \<lparr>sr_start_secs = 0, sr_end_secs = 60\<rparr>"
    using parse_epoch_seconds_nat [of 0 "nat_str 0"] parse_epoch_seconds_nat [of 60 "nat_str 60"]
    by (simp add: parse_time_range_def del: nat_str.simps)
  moreover have "map to_ascii_lowercase ''TRUE'' = ''true''"
    by code_simp
  ultimately show ?thesis
    by (simp add: traces_check_def wx_env_def wx_request_def wx_params_def wx_plan_def read_required_service_def
        parse_error_filter_def parse_attribute_filter_def saturating_sub_def saturating_mul_def MAX_WINDOW_SECONDS_def
        traces_seconds_to_nanos_def del: nat_str.simps)
qed

lemma wx_scope: "listing_scope [(''t'', [rx_span])] ''t'' wx_plan = [rx_span]"
  by (simp add: listing_scope_def wx_plan_def ray_range_contains_def rx_span_simps)

lemma wx_qualifies: "trace_qualifies wx_plan {rx_span} (sp_trace_id rx_span)"
  by (simp add: trace_qualifies_def wx_plan_def rx_span_def)

theorem trace_query_answer_witness:
  "fst (handle_traces wx_env wx_config ray_query (wx_request wx_params) rx_full) = ok_response [rx_span]"
proof -
  obtain spans s' where "handle_traces wx_env wx_config ray_query (wx_request wx_params) rx_full = (traces_capped spans, s', [])"
    and "mset spans = {#rx_span#}"
    using trace_query_answer [OF rx_history wx_tenant wx_check] by (auto simp: wx_scope wx_qualifies)
  then show ?thesis
    by (simp add: traces_capped_def MAX_RESULT_ROWS_def)
qed

theorem trace_with_logs_joined_witness:
  "fst (handle_traces_with_logs wx_env wx_config ray_get_trace lumen_query
      (wx_request (Some (hex_encode (replicate 16 170)))) rx_full lx_store) =
    ok_response \<lparr>tw_trace_id = replicate 16 170, tw_spans = [rx_span], tw_logs = []\<rparr>"
proof -
  have p: "traces_parse_trace_id (hex_encode (replicate 16 170)) = Inr (replicate 16 170)"
    by (simp add: traces_parse_trace_id_def hex_pairs_encode)
  have q: "tq_params (wx_request (Some (hex_encode (replicate 16 170)))) = Some (hex_encode (replicate 16 170))"
    by (simp add: wx_request_def)
  from trace_with_logs_joined [OF rx_history ex_history wx_tenant q p refl refl] show ?thesis
    by (simp add: rx_span_simps ex_rec_def)
qed

end
