(* ===== verification/Ingest_Answers.thy ===== *)
theory Ingest_Answers
  imports Aperture_Theorems Log_Answers Trace_Query
begin

text \<open>
  The write path and the read path together: what an export the gateway answers with 200 does to the
  answers of the query APIs over the same stores, and under which tenant.
\<close>

section \<open>The sink\<close>

lemma accept_logs_acked:
  assumes "accept_logs lib env request sink = (Inr (), sink')"
  shows "\<exists>s s' t rc. ss_log_store sink = Some s \<and> resolve_tenant lib sink request = Inr t \<and>
    lumen_ingest (lib_log_to_string lib) env t \<lparr>records = map (stored_log (lib_display lib)) (log_rows request)\<rparr> s = (Inr rc, s') \<and>
    sink' = sink\<lparr>ss_log_store := Some s'\<rparr>"
proof -
  obtain s where s: "ss_log_store sink = Some s"
    using assms by (cases "ss_log_store sink") (simp_all add: accept_logs_def require_log_store_def)
  obtain t where t: "resolve_tenant lib sink request = Inr t"
    using assms s by (cases "resolve_tenant lib sink request") (simp_all add: accept_logs_def require_log_store_def)
  obtain rs where rs: "translate_logs (lib_display lib) request = Inr rs"
    using assms s t by (cases "translate_logs (lib_display lib) request") (simp_all add: accept_logs_def require_log_store_def)
  obtain res s' where i: "lumen_ingest (lib_log_to_string lib) env t \<lparr>records = rs\<rparr> s = (res, s')"
    by fastforce
  obtain rc where "res = Inr rc" "sink' = sink\<lparr>ss_log_store := Some s'\<rparr>"
    using assms s t rs i by (cases res) (auto simp: accept_logs_def require_log_store_def sink_ingest_logs_def)
  with s t i rs translate_logs_cases [of "lib_display lib" request rs] show ?thesis
    by blast
qed

lemma accept_traces_acked:
  assumes "accept_trace_export lib env request sink = (Inr (), sink')"
  shows "\<exists>s s' t rc. ss_trace_store sink = Some s \<and> resolve_trace_tenant lib sink request = Inr t \<and>
    ray_ingest (lib_trace_to_string lib) env t \<lparr>sb_spans = map (stored_span (lib_display lib)) (span_rows request)\<rparr> s = (Inr rc, s') \<and>
    sink' = sink\<lparr>ss_trace_store := Some s'\<rparr>"
proof -
  obtain s where s: "ss_trace_store sink = Some s"
    using assms by (cases "ss_trace_store sink") (simp_all add: accept_trace_export_def require_trace_store_def)
  obtain t where t: "resolve_trace_tenant lib sink request = Inr t"
    using assms s by (cases "resolve_trace_tenant lib sink request") (simp_all add: accept_trace_export_def require_trace_store_def)
  obtain rs where rs: "translate_traces (lib_display lib) request = Inr rs"
    using assms s t by (cases "translate_traces (lib_display lib) request") (simp_all add: accept_trace_export_def require_trace_store_def)
  obtain res s' where i: "ray_ingest (lib_trace_to_string lib) env t \<lparr>sb_spans = rs\<rparr> s = (res, s')"
    by fastforce
  obtain rc where "res = Inr rc" "sink' = sink\<lparr>ss_trace_store := Some s'\<rparr>"
    using assms s t rs i by (cases res) (auto simp: accept_trace_export_def require_trace_store_def sink_ingest_traces_def)
  with s t i rs translate_traces_cases [of "lib_display lib" request rs] show ?thesis
    by blast
qed

section \<open>An answer of 200\<close>

lemma handle_ingest_ok:
  assumes "handle_ingest signal lib cfg accept now req gw = (resp, gw')" and "gc_validator cfg = Some v" and "ar_status resp = 200"
  shows "admitted_http lib cfg v signal accept now req (gw_sink gw) resp (gw_sink gw')"
proof -
  let ?taken = "gw\<lparr>gw_limiter := (gw_limiter gw)\<lparr>cl_available := cl_available (gw_limiter gw) - 1\<rparr>\<rparr>"
  obtain resp1 gw1 where h: "handle_admitted lib cfg (signal_name signal) (ingest_signal signal lib accept) now req ?taken = (resp1, gw1)"
    by fastforce
  have "0 < cl_available (gw_limiter gw)"
    using assms(1,3) by (cases "cl_available (gw_limiter gw) = 0")
      (auto simp: handle_ingest_permit with_permit_def limiter_try_acquire_def refuse_http_def text_response_def)
  with h assms(1) have r: "resp = resp1" "gw_sink gw' = gw_sink gw1"
    by (auto simp: handle_ingest_permit with_permit_def limiter_try_acquire_def)
  from handle_admitted_cases [OF h assms(2)] assms(3) show ?thesis
    unfolding r by auto
qed

text \<open>What 200 means for a body of logs: the decoded export was ingested, under the tenant the sink resolves.\<close>

lemma logs_stored:
  assumes "handle_ingest LogsSignal lib cfg (storage_sink_accept sl env) now req gw = (resp, gw')"
    and "gc_validator cfg = Some v" and "ar_status resp = 200" and "prost_logs (al_prost lib) (ir_body req) = Inr request"
  shows "\<exists>s s' t rc. ss_log_store (gw_sink gw) = Some s \<and> resolve_tenant sl (gw_sink gw) request = Inr t \<and>
    lumen_ingest (lib_log_to_string sl) env t \<lparr>records = map (stored_log (lib_display sl)) (log_rows request)\<rparr> s = (Inr rc, s') \<and>
    gw_sink gw' = (gw_sink gw)\<lparr>ss_log_store := Some s'\<rparr>"
proof -
  from handle_ingest_ok [OF assms(1-3)] obtain tenant r
    where r: "validated lib LogsSignal (ir_body req) HttpProtobuf tenant = Inr r"
    and sink: "gw_sink gw' = snd (storage_sink_accept sl env r (gw_sink gw))"
    and status: "ar_status resp = (if isl (fst (storage_sink_accept sl env r (gw_sink gw))) then 503 else 200)"
    unfolding admitted_http_def by blast
  obtain request' where v: "validate_logs (al_prost lib) (al_to_lowercase lib) (ir_body req) HttpProtobuf = Inr request'"
    and "r = LogsRecord \<lparr>ts_tenant = tenant, ts_inner = request'\<rparr>"
    using r by (cases "validate_logs (al_prost lib) (al_to_lowercase lib) (ir_body req) HttpProtobuf") (auto simp: validated_def)
  with validate_logs_decodes [OF v] assms(4) have "r = LogsRecord \<lparr>ts_tenant = tenant, ts_inner = request\<rparr>"
    by simp
  with status assms(3) sink have "\<not> isl (fst (accept_logs sl env request (gw_sink gw)))"
    "gw_sink gw' = snd (accept_logs sl env request (gw_sink gw))"
    by (auto simp: storage_sink_accept_def split: if_splits)
  then have "accept_logs sl env request (gw_sink gw) = (Inr (), gw_sink gw')"
    by (metis isl_def old.unit.exhaust prod.collapse sum.collapse(2))
  from accept_logs_acked [OF this] show ?thesis
    by blast
qed

lemma traces_stored:
  assumes "handle_ingest TracesSignal lib cfg (storage_sink_accept sl env) now req gw = (resp, gw')"
    and "gc_validator cfg = Some v" and "ar_status resp = 200" and "prost_traces (al_prost lib) (ir_body req) = Inr request"
  shows "\<exists>s s' t rc. ss_trace_store (gw_sink gw) = Some s \<and> resolve_trace_tenant sl (gw_sink gw) request = Inr t \<and>
    ray_ingest (lib_trace_to_string sl) env t \<lparr>sb_spans = map (stored_span (lib_display sl)) (span_rows request)\<rparr> s = (Inr rc, s') \<and>
    gw_sink gw' = (gw_sink gw)\<lparr>ss_trace_store := Some s'\<rparr>"
proof -
  from handle_ingest_ok [OF assms(1-3)] obtain tenant r
    where r: "validated lib TracesSignal (ir_body req) HttpProtobuf tenant = Inr r"
    and sink: "gw_sink gw' = snd (storage_sink_accept sl env r (gw_sink gw))"
    and status: "ar_status resp = (if isl (fst (storage_sink_accept sl env r (gw_sink gw))) then 503 else 200)"
    unfolding admitted_http_def by blast
  obtain request' where v: "validate_traces (al_prost lib) (al_to_lowercase lib) (ir_body req) HttpProtobuf = Inr request'"
    and "r = TracesRecord \<lparr>ts_tenant = tenant, ts_inner = request'\<rparr>"
    using r by (cases "validate_traces (al_prost lib) (al_to_lowercase lib) (ir_body req) HttpProtobuf") (auto simp: validated_def)
  with validate_traces_decodes [OF v] assms(4) have "r = TracesRecord \<lparr>ts_tenant = tenant, ts_inner = request\<rparr>"
    by simp
  with status assms(3) sink have "\<not> isl (fst (accept_trace_export sl env request (gw_sink gw)))"
    "gw_sink gw' = snd (accept_trace_export sl env request (gw_sink gw))"
    by (auto simp: storage_sink_accept_def split: if_splits)
  then have "accept_trace_export sl env request (gw_sink gw) = (Inr (), gw_sink gw')"
    by (metis isl_def old.unit.exhaust prod.collapse sum.collapse(2))
  from accept_traces_acked [OF this] show ?thesis
    by blast
qed

section \<open>Properties\<close>

text \<open>
  C22. An export of logs answered with 200 can be queried: over the durable store, after any history, the
  next valid query for the tenant the sink resolves is answered with the tenant's acknowledged records
  and the stored form of every record of the export, and a query for any other tenant as if the export
  had not been sent; the new store is one of the histories, so the same holds after a restart.
\<close>

theorem export_logs_answered:
  assumes "handle_ingest LogsSignal lib cfg (storage_sink_accept sl env) now req gw = (resp, gw')"
    and "gc_validator cfg = Some v" and "ar_status resp = 200" and "prost_logs (al_prost lib) (ir_body req) = Inr request"
    and "ss_log_store (gw_sink gw) = Some s" and "lumen_history (lib_log_to_string sl) fs (lib_log_to_writer sl) fr s acked"
    and "rows = map (stored_log (lib_display sl)) (log_rows request)" and "resolve_tenant sl (gw_sink gw) request = Inr t"
    and "rows \<noteq> [] \<longrightarrow> serde_ok (lib_log_to_string sl) fs (LumenWalIngest t rows)"
    and "logs_admitted qenv qcfg qreq t' plan"
  shows "\<exists>s'. ss_log_store (gw_sink gw') = Some s' \<and>
    lumen_history (lib_log_to_string sl) fs (lib_log_to_writer sl) fr s' (acked @ [(t, rows)]) \<and>
    fst (handle_logs qenv qcfg lumen_query lumen_query_with qreq s') =
      Some (logs_answer plan (sort_key observed_time_unix_nano (records_of t' acked @ (if t' = t then rows else []))))"
proof -
  from logs_stored [OF assms(1-4)] assms(5,8) obtain s' rc
    where i: "lumen_ingest (lib_log_to_string sl) env t \<lparr>records = rows\<rparr> s = (Inr rc, s')"
    and g: "ss_log_store (gw_sink gw') = Some s'"
    unfolding assms(7) by auto
  have h: "lumen_history (lib_log_to_string sl) fs (lib_log_to_writer sl) fr s' (acked @ [(t, rows)])"
    using lumen_history.ingested [OF assms(6) i] assms(9) by simp
  then have c: "hm_get_or [] (lf_per_tenant s') t' =
      sort_key observed_time_unix_nano (records_of t' acked @ (if t' = t then rows else []))"
    using lumen_history_inv by (auto simp: eq_commute)
  from lumen_file.handle_logs_answers [OF assms(10), of s'] g h show ?thesis
    unfolding c by auto
qed

text \<open>
  The tenant of the token does not bind the write: a request whose token grants one tenant and nothing
  else, and whose export names another in its resource, is answered with 200 by appending the export to
  the other tenant's records, which that tenant's queries then return, and not to the granted one's.
\<close>

theorem token_tenant_not_enforced:
  assumes "handle_ingest LogsSignal lib cfg (storage_sink_accept sl env) now req gw = (resp, gw')"
    and "gc_validator cfg = Some v" and "ar_status resp = 200" and "prost_logs (al_prost lib) (ir_body req) = Inr request"
    and "\<forall>x. token_grants lib v (ingest_http_authorization lib req) now x \<longleftrightarrow> x = granted"
    and "resolve_tenant_id (lib_display sl) request = Some victim" and "victim \<noteq> granted"
    and "ss_log_store (gw_sink gw) = Some s" and "lumen_history (lib_log_to_string sl) fs (lib_log_to_writer sl) fr s acked"
    and "rows = map (stored_log (lib_display sl)) (log_rows request)"
    and "rows \<noteq> [] \<longrightarrow> serde_ok (lib_log_to_string sl) fs (LumenWalIngest victim rows)"
  shows "\<exists>s'. ss_log_store (gw_sink gw') = Some s' \<and>
    (\<forall>rng p. fst (lumen_query_with victim rng p s') = Inr (lumen_answer (acked @ [(victim, rows)]) victim rng p)) \<and>
    (\<forall>rng p. fst (lumen_query_with granted rng p s') = Inr (lumen_answer acked granted rng p))"
proof -
  have t: "resolve_tenant sl (gw_sink gw) request = Inr victim"
    by (simp add: resolve_tenant_def tenant_or_default_def assms(6))
  from logs_stored [OF assms(1-4)] assms(8) t obtain s' rc
    where i: "lumen_ingest (lib_log_to_string sl) env victim \<lparr>records = rows\<rparr> s = (Inr rc, s')"
    and g: "ss_log_store (gw_sink gw') = Some s'"
    unfolding assms(10) by auto
  have "lumen_history (lib_log_to_string sl) fs (lib_log_to_writer sl) fr s' (acked @ [(victim, rows)])"
    using lumen_history.ingested [OF assms(9) i] assms(11) by simp
  then have c: "hm_get_or [] (lf_per_tenant s') x = sort_key observed_time_unix_nano (records_of x (acked @ [(victim, rows)]))" for x
    using lumen_history_inv by blast
  from lumen_answers [of s' "acked @ [(victim, rows)]", OF c] g assms(7) show ?thesis
    by (auto simp: lumen_answer_def)
qed

text \<open>
  An export of spans answered with 200 can be queried: over the durable store, after any history, the
  next lookup of a trace by the tenant the sink resolves is answered with the acknowledged spans of the
  trace and those of the export, in start order, and a lookup by any other tenant without those of the
  export.
\<close>

lemma export_spans_answered:
  assumes "handle_ingest TracesSignal lib cfg (storage_sink_accept sl env) now req gw = (resp, gw')"
    and "gc_validator cfg = Some v" and "ar_status resp = 200" and "prost_traces (al_prost lib) (ir_body req) = Inr request"
    and "ss_trace_store (gw_sink gw) = Some s" and "ray_history (lib_trace_to_string sl) fs (lib_trace_to_writer sl) fr s acked"
    and "rows = map (stored_span (lib_display sl)) (span_rows request)" and "resolve_trace_tenant sl (gw_sink gw) request = Inr t"
    and "rows \<noteq> [] \<longrightarrow> serde_ok (lib_trace_to_string sl) fs (RayWalIngest t rows)"
    and "traces_tenant qenv qcfg qreq t' evs" and "tq_params qreq = Some raw" and "traces_parse_trace_id raw = Inr tid"
  shows "\<exists>s'. ss_trace_store (gw_sink gw') = Some s' \<and>
    fst (handle_traces_by_id qenv qcfg ray_get_trace qreq s') =
      traces_capped (by_start (filter (\<lambda>x. sp_trace_id x = tid) (spans_of t' acked @ (if t' = t then rows else []))))"
proof -
  from traces_stored [OF assms(1-4)] assms(5,8) obtain s' rc
    where i: "ray_ingest (lib_trace_to_string sl) env t \<lparr>sb_spans = rows\<rparr> s = (Inr rc, s')"
    and g: "ss_trace_store (gw_sink gw') = Some s'"
    unfolding assms(7) by auto
  have "ray_history (lib_trace_to_string sl) fs (lib_trace_to_writer sl) fr s' (acked @ [(t, rows)])"
    using ray_history.ingested [OF assms(6) i] assms(9) by simp
  then have "ray_get_trace t' tid s' =
      (Inr (by_start (filter (\<lambda>x. sp_trace_id x = tid) (spans_of t' (acked @ [(t, rows)])))), snd (ray_get_trace t' tid s'))"
    using ray_history_inv [of "lib_trace_to_string sl" fs "lib_trace_to_writer sl" fr s' "acked @ [(t, rows)]"]
    by (simp add: ray_get_trace_def Let_def ray_holds_def)
  with g show ?thesis
    unfolding handle_traces_by_id_def traces_tenantD [OF assms(10)]
    by (auto simp: assms(11,12) split: prod.split)
qed

section \<open>A concrete export\<close>

definition ix_export :: export_logs where
  "ix_export = [\<lparr>rl_resource = Some \<lparr>res_attributes = [KeyValue ''tenant.id'' (Some (AnyValue (Some (StringValue ''t''))))]\<rparr>,
     rl_scope_logs = [[tx_log []]]\<rparr>]"

definition ix_row :: log_record where
  "ix_row = \<lparr>observed_time_unix_nano = 7, severity_number = 9, severity_text = ''INFO'', body = ''hi'',
     attributes = [(''k'', ''true'')], resource_attributes = [(''tenant.id'', ''t'')], trace_id = None, span_id = None\<rparr>"

definition ix_to_string :: "lumen_wal_record \<Rightarrow> string + string" where
  "ix_to_string r = (if r = LumenWalIngest ''t'' [ix_row] then Inr ex_line else Inl ''unsupported'')"

definition ix_from_str :: "string \<Rightarrow> string + lumen_wal_record" where
  "ix_from_str l = (if l = ex_line then Inr (LumenWalIngest ''t'' [ix_row]) else Inl ''expected value'')"

definition ix_sl :: sink_lib where
  "ix_sl = \<lparr>lib_display = (\<lambda>_. []), lib_log_to_string = ix_to_string, lib_trace_to_string = rx_to_string,
     lib_metric_to_string = (\<lambda>_. Inl ''unsupported''), lib_log_to_writer = ex_to_writer, lib_trace_to_writer = rx_to_writer,
     lib_metric_to_writer = (\<lambda>_. Inl (''unsupported'', []))\<rparr>"

definition ix_lib :: aperture_lib where
  "ix_lib = \<lparr>al_http = qx_lib, al_jwt = qx_decode, al_metadata_to_str = Some, al_str_debug = id, al_to_lowercase = id,
     al_prost = \<lparr>prost_decode_key = (\<lambda>_. Inr 1), prost_error = id,
       prost_logs = (\<lambda>b. if b = [10] then Inr ix_export else Inl ''invalid varint''),
       prost_traces = (\<lambda>_. Inl ''invalid varint''), prost_metrics = (\<lambda>_. Inl ''invalid varint'')\<rparr>,
     al_encode_logs = (\<lambda>_. [10]), al_encode_traces = (\<lambda>_. []), al_encode_metrics = (\<lambda>_. [])\<rparr>"

definition ix_cfg :: gateway_config where
  "ix_cfg = \<lparr>gc_validator = Some qx_validator, gc_recv_body_cap = Some 100\<rparr>"

definition ix_req :: ingest_request where
  "ix_req = \<lparr>ir_authorization = Some ''Bearer tok'', ir_content_type = Some CONTENT_TYPE_PROTOBUF, ir_content_length = None,
     ir_body = [10], ir_body_broken = False\<rparr>"

definition ix_gw :: "storage_sink gateway" where
  "ix_gw = \<lparr>gw_limiter = limiter_new 1 CapHttpProtobuf, gw_sink = with_log_store (ex_store [] [] []) None, gw_events = []\<rparr>"

lemma ix_rows: "map (stored_log (\<lambda>_. [])) (log_rows ix_export) = [ix_row]"
  by code_simp

lemma ix_tenant: "resolve_tenant_id (lib_display ix_sl) ix_export = Some ''t''"
  by code_simp

lemma ix_serde: "serde_ok ix_to_string ix_from_str (LumenWalIngest ''t'' [ix_row])"
  by (simp add: serde_ok_def line_of_def ix_to_string_def ix_from_str_def ex_line_def) code_simp

lemma ix_history: "lumen_history ix_to_string ix_from_str ex_to_writer ex_from_reader (ex_store [] [] []) []"
  by (rule lumen_history.created [of _ _ _ "[]"])
    (simp add: lumen_open_with_fsync_backend_def pillar_open_def open_writer_def snap_fs_of_def lumen_resort_def ex_store_def)

lemma ix_ingest:
  "fst (lumen_ingest ix_to_string ex_io ''t'' \<lparr>records = [ix_row]\<rparr> (ex_store [] [] [])) = Inr \<lparr>count = 1\<rparr>"
  by (simp add: lumen_ingest_def lumen_append_wal_def append_wal_succeeds [of _ _ ex_line] ix_to_string_def ex_defs Let_def)

lemma ix_accept: "fst (accept_logs ix_sl ex_io ix_export (gw_sink ix_gw)) = Inr ()"
proof -
  have t: "resolve_tenant ix_sl (gw_sink ix_gw) ix_export = Inr ''t''"
    by (simp add: resolve_tenant_def tenant_or_default_def ix_tenant)
  have rows: "translate_logs (lib_display ix_sl) ix_export = Inr [ix_row]"
    by code_simp
  obtain s' where "lumen_ingest (lib_log_to_string ix_sl) ex_io ''t'' \<lparr>records = [ix_row]\<rparr> (ex_store [] [] []) = (Inr \<lparr>count = 1\<rparr>, s')"
    using ix_ingest by (cases "lumen_ingest ix_to_string ex_io ''t'' \<lparr>records = [ix_row]\<rparr> (ex_store [] [] [])") (simp add: ix_sl_def)
  with t rows show ?thesis
    by (simp add: accept_logs_def require_log_store_def sink_ingest_logs_def ix_gw_def with_log_store_def)
qed

lemma ix_bearer: "ingest_bearer_token (ingest_http_authorization ix_lib ix_req) = Some ''tok''"
  using qx_bearer by (simp add: ingest_bearer_token_same ingest_http_authorization_def http_authorization_def ix_lib_def ix_req_def)

lemma ix_grants: "token_grants ix_lib qx_validator (ingest_http_authorization ix_lib ix_req) 5000000000 x \<longleftrightarrow> x = ''acme''"
  unfolding token_grants_def ix_bearer
  by (auto simp: ix_lib_def qx_decode_def qx_validator_def claims_grant_def now_secs_def duration_since_def
      catalogue_contains_def hm_contains_def intro!: exI [of _ Viewer])

lemma ix_answered:
  "\<exists>resp gw'. handle_ingest LogsSignal ix_lib ix_cfg (storage_sink_accept ix_sl ex_io) 5000000000 ix_req ix_gw = (resp, gw') \<and>
     ar_status resp = 200"
proof -
  obtain resp gw' where h: "handle_ingest LogsSignal ix_lib ix_cfg (storage_sink_accept ix_sl ex_io) 5000000000 ix_req ix_gw = (resp, gw')"
    by fastforce
  let ?taken = "ix_gw\<lparr>gw_limiter := (gw_limiter ix_gw)\<lparr>cl_available := 0\<rparr>\<rparr>"
  obtain evs where auth: "authenticate ix_lib (Some qx_validator) (ingest_http_authorization ix_lib ix_req) ''logs'' 5000000000 = (Inr ''acme'', evs)"
    using authenticate_cases [where lib = ix_lib and v = qx_validator and authorization = "ingest_http_authorization ix_lib ix_req"
      and signal = "''logs''" and now = 5000000000]
    by (auto simp: ix_grants split: prod.splits sum.splits)
  have ct: "is_protobuf_content_type (al_http ix_lib) ix_req"
    by code_simp
  have body: "read_http_body_within_cap (al_http ix_lib) (Some 100) ix_req ''logs'' = (Inr [10], [])"
    by code_simp
  have guard: "secondary_body_size_guard [10] HttpProtobufTransport ''logs'' (Some 100) = None"
    by code_simp
  have v: "validate_logs (al_prost ix_lib) (al_to_lowercase ix_lib) [10] HttpProtobuf = Inr ix_export"
    by (simp add: validate_logs_def decode_logs_def decode_strict_def first_tag_references_resource_field_def RESOURCE_FIELD_NUMBER_def ix_lib_def)
  obtain sink' where acc: "accept_logs ix_sl ex_io ix_export (gw_sink ix_gw) = (Inr (), sink')"
    using ix_accept by (cases "accept_logs ix_sl ex_io ix_export (gw_sink ix_gw)") simp
  have "fst (handle_admitted ix_lib ix_cfg ''logs'' (ingest_logs ix_lib (storage_sink_accept ix_sl ex_io)) 5000000000 ix_req ?taken) =
      outcome_response ix_lib Accepted"
    using auth ct body guard v acc
    by (simp add: handle_admitted_def ix_cfg_def ingest_logs_def route_def storage_sink_accept_def)
  then have "resp = outcome_response ix_lib Accepted"
    using h by (auto simp: handle_ingest_def handle_ingest_logs_def with_permit_def limiter_try_acquire_def ix_gw_def limiter_new_def
        split: prod.splits)
  with h show ?thesis
    by (simp add: outcome_response_def)
qed

theorem export_logs_answered_witness:
  "\<exists>resp gw' s'. handle_ingest LogsSignal ix_lib ix_cfg (storage_sink_accept ix_sl ex_io) 5000000000 ix_req ix_gw = (resp, gw') \<and>
     ss_log_store (gw_sink gw') = Some s' \<and>
     fst (handle_logs lx_env lx_config lumen_query lumen_query_with (lx_request (Some (nat_str 0)) (Some (nat_str 60)) None) s') =
       Some (ok_response [log_view_from ix_row])"
proof -
  obtain resp gw' where h: "handle_ingest LogsSignal ix_lib ix_cfg (storage_sink_accept ix_sl ex_io) 5000000000 ix_req ix_gw = (resp, gw')"
    and ok: "ar_status resp = 200"
    using ix_answered by blast
  have v: "gc_validator ix_cfg = Some qx_validator" and p: "prost_logs (al_prost ix_lib) (ir_body ix_req) = Inr ix_export"
    and s: "ss_log_store (gw_sink ix_gw) = Some (ex_store [] [] [])"
    and r: "[ix_row] = map (stored_log (lib_display ix_sl)) (log_rows ix_export)"
    and t: "resolve_tenant ix_sl (gw_sink ix_gw) ix_export = Inr ''t''"
    using ix_rows by (simp_all add: ix_cfg_def ix_lib_def ix_req_def ix_gw_def with_log_store_def ix_sl_def resolve_tenant_def
        tenant_or_default_def ix_tenant [unfolded ix_sl_def, simplified])
  have hist: "lumen_history (lib_log_to_string ix_sl) ix_from_str (lib_log_to_writer ix_sl) ex_from_reader (ex_store [] [] []) []"
    and ser: "[ix_row] \<noteq> [] \<longrightarrow> serde_ok (lib_log_to_string ix_sl) ix_from_str (LumenWalIngest ''t'' [ix_row])"
    using ix_history ix_serde by (simp_all add: ix_sl_def)
  have "logs_answer lx_plan [ix_row] = ok_response [log_view_from ix_row]"
    by (simp add: logs_answer_def logs_wanted_def logs_range_def range_contains_def lx_plan_def ix_row_def MAX_RESULT_ROWS_def)
  with export_logs_answered [OF h v ok p s hist r t ser lx_admitted] h show ?thesis
    by auto
qed

theorem token_tenant_not_enforced_witness:
  "\<exists>resp gw' s'. handle_ingest LogsSignal ix_lib ix_cfg (storage_sink_accept ix_sl ex_io) 5000000000 ix_req ix_gw = (resp, gw') \<and>
     ss_log_store (gw_sink gw') = Some s' \<and>
     fst (lumen_query_with ''t'' time_range_all lumen_predicate_new s') = Inr [ix_row] \<and>
     fst (lumen_query_with ''acme'' time_range_all lumen_predicate_new s') = Inr []"
proof -
  obtain resp gw' where h: "handle_ingest LogsSignal ix_lib ix_cfg (storage_sink_accept ix_sl ex_io) 5000000000 ix_req ix_gw = (resp, gw')"
    and ok: "ar_status resp = 200"
    using ix_answered by blast
  have v: "gc_validator ix_cfg = Some qx_validator" and p: "prost_logs (al_prost ix_lib) (ir_body ix_req) = Inr ix_export"
    and s: "ss_log_store (gw_sink ix_gw) = Some (ex_store [] [] [])"
    and r: "[ix_row] = map (stored_log (lib_display ix_sl)) (log_rows ix_export)"
    using ix_rows by (simp_all add: ix_cfg_def ix_lib_def ix_req_def ix_gw_def with_log_store_def ix_sl_def)
  have hist: "lumen_history (lib_log_to_string ix_sl) ix_from_str (lib_log_to_writer ix_sl) ex_from_reader (ex_store [] [] []) []"
    and ser: "[ix_row] \<noteq> [] \<longrightarrow> serde_ok (lib_log_to_string ix_sl) ix_from_str (LumenWalIngest ''t'' [ix_row])"
    using ix_history ix_serde by (simp_all add: ix_sl_def)
  have g: "\<forall>x. token_grants ix_lib qx_validator (ingest_http_authorization ix_lib ix_req) 5000000000 x \<longleftrightarrow> x = ''acme''"
    by (simp add: ix_grants)
  have "lumen_answer [(''t'', [ix_row])] ''t'' time_range_all lumen_predicate_new = [ix_row]"
    by (simp add: lumen_answer_def time_range_all_def range_contains_def lumen_predicate_new_def lumen_matches_def ix_row_def)
  moreover have "lumen_answer [] ''acme'' time_range_all lumen_predicate_new = []"
    by (simp add: lumen_answer_def)
  ultimately show ?thesis
    using token_tenant_not_enforced [OF h v ok p g ix_tenant _ s hist r ser] h by auto
qed

theorem gateway_http_fail_closed_witness:
  "\<exists>resp gw'. handle_ingest LogsSignal ix_lib ix_cfg (storage_sink_accept ix_sl ex_io) 5000000000 ix_req ix_gw = (resp, gw') \<and>
     gw_limiter gw' = gw_limiter ix_gw"
proof -
  obtain resp gw' where h: "handle_ingest LogsSignal ix_lib ix_cfg (storage_sink_accept ix_sl ex_io) 5000000000 ix_req ix_gw = (resp, gw')"
    by fastforce
  have v: "gc_validator ix_cfg = Some qx_validator"
    by (simp add: ix_cfg_def)
  from gateway_http_fail_closed [OF h v] h show ?thesis
    by simp
qed

end
