(* ===== verification/Aperture_Config.thy ===== *)
theory Aperture_Config
  imports Aperture_Theorems
begin

text \<open>
  The configuration of the gateway (\<open>crates/aperture/src/config/mod.rs\<close>): the builder with its
  check, the schema of the file, and its fold into a configuration with the refusals. \<open>figment\<close>,
  which reads the file and overlays the environment, is an argument, as are the file system and the rendering of
  an address.
\<close>

section \<open>The configuration\<close>

text \<open>A socket address: its host as text, and its port.\<close>

record socket_addr =
  sa_host :: string
  sa_port :: "16 word"

datatype config_sink_kind = StubKind | ForwardingKind

record jwt_auth_config =
  ja_issuer :: string
  ja_audience :: string
  ja_secret_file :: string
  ja_catalogue_path :: string

text \<open>The builder and the configuration have the same fields. Durations are milliseconds.\<close>

record aperture_config =
  ac_grpc_bind_addr :: socket_addr
  ac_http_bind_addr :: socket_addr
  ac_sink_kind :: config_sink_kind
  ac_forwarding_endpoint :: string
  ac_forwarding_timeout_ms :: nat
  ac_max_concurrent_requests :: u32
  ac_max_recv_msg_size :: "u32 option"
  ac_drain_deadline_ms :: nat
  ac_tls_enabled :: bool
  ac_spiffe_enabled :: bool
  ac_jwt_auth :: "jwt_auth_config option"

type_synonym config_builder = aperture_config

definition config_builder_new :: config_builder where
  "config_builder_new =
     \<lparr>ac_grpc_bind_addr = \<lparr>sa_host = ''0.0.0.0'', sa_port = 4317\<rparr>, ac_http_bind_addr = \<lparr>sa_host = ''0.0.0.0'', sa_port = 4318\<rparr>,
      ac_sink_kind = StubKind, ac_forwarding_endpoint = [], ac_forwarding_timeout_ms = 5000,
      ac_max_concurrent_requests = 1024, ac_max_recv_msg_size = None, ac_drain_deadline_ms = 30000,
      ac_tls_enabled = False, ac_spiffe_enabled = False, ac_jwt_auth = None\<rparr>"

definition builder_forwarding_sink :: "string \<Rightarrow> config_builder \<Rightarrow> config_builder" where
  "builder_forwarding_sink endpoint b = b\<lparr>ac_sink_kind := ForwardingKind, ac_forwarding_endpoint := endpoint\<rparr>"

definition config_build :: "(socket_addr \<Rightarrow> string) \<Rightarrow> config_builder \<Rightarrow> string + aperture_config" where
  "config_build addr_display b =
     (if sa_port (ac_grpc_bind_addr b) \<noteq> 0 \<and> ac_grpc_bind_addr b = ac_http_bind_addr b
      then Inl (''grpc and http bind addresses must differ; both set to '' @ addr_display (ac_grpc_bind_addr b))
      else Inr b)"

section \<open>The schema of the file\<close>

record transport_arm =
  ta_bind_addr :: socket_addr
  ta_max_recv_msg_size :: "u32 option"
  ta_max_concurrent_requests :: "u32 option"

record transport_section =
  tn_grpc :: transport_arm
  tn_http :: transport_arm

record forwarding_section =
  fw_endpoint :: "string option"
  fw_timeout_ms :: "u64 option"

record sink_section =
  sk_kind :: "string option"
  sk_forwarding :: forwarding_section

record tls_section =
  tl_enabled :: bool
  tl_cert_path :: "string option"
  tl_key_path :: "string option"

record jwt_section =
  js_issuer :: "string option"
  js_audience :: "string option"
  js_secret_file :: "string option"
  js_catalogue_path :: "string option"

record spiffe_section =
  sf_enabled :: bool
  sf_workload_api_socket :: "string option"
  sf_trust_domain :: "string option"

record auth_section =
  au_spiffe :: spiffe_section
  au_jwt :: "jwt_section option"

record security_section =
  sy_tls :: tls_section
  sy_auth :: auth_section

record shutdown_section =
  sd_drain_deadline_ms :: "u64 option"

record raw_config =
  rc_transport :: transport_section
  rc_sink :: sink_section
  rc_security :: security_section
  rc_shutdown :: shutdown_section

section \<open>Loading\<close>

text \<open>
  What the loader sees of the world: the kind of error \<open>fs::metadata\<close> gives for a path, if any; what
  \<open>fs::read_to_string\<close> and \<open>fs::read\<close> return; TOML.
\<close>

record config_world =
  cw_metadata_error :: "string \<Rightarrow> string option"
  cw_read_to_string :: "string \<Rightarrow> string + string"
  cw_read :: "string \<Rightarrow> string + string"
  cw_catalogue_toml :: "string \<Rightarrow> string + raw_tenant list"
  cw_addr_display :: "socket_addr \<Rightarrow> string"
  cw_str_debug :: "string \<Rightarrow> string"

definition require_field :: "string option \<Rightarrow> string \<Rightarrow> string + string" where
  "require_field v name =
     (case v of Some x \<Rightarrow> Inr x | None \<Rightarrow> Inl (''[aperture.security.auth.jwt] is missing the required field '' @ name))"

definition unimplemented_security_knob_reason :: "bool \<Rightarrow> bool \<Rightarrow> string option" where
  "unimplemented_security_knob_reason tls_enabled spiffe_enabled =
     (let pre = ''aperture v0 implements neither transport encryption nor SPIFFE auth; refusing to start:'' in
      if \<not> tls_enabled \<and> \<not> spiffe_enabled then None
      else if tls_enabled \<and> \<not> spiffe_enabled then Some (pre @ '' tls.enabled=true is not implemented in v0'')
      else if \<not> tls_enabled then Some (pre @ '' auth.spiffe.enabled=true is not implemented in v0'')
      else Some (pre @ '' tls.enabled=true and auth.spiffe.enabled=true are not implemented in v0''))"

definition config_load_catalogue :: "config_world \<Rightarrow> string \<Rightarrow> catalogue_error + tenant_catalogue" where
  "config_load_catalogue world path = load_catalogue (cw_catalogue_toml world) path (cw_read_to_string world path)"

definition validate_jwt_auth :: "config_world \<Rightarrow> jwt_section option \<Rightarrow> string + jwt_auth_config" where
  "validate_jwt_auth world jwt =
     (case jwt of
        None \<Rightarrow> Inl (''missing [aperture.security.auth.jwt] block: ingest auth is mandatory '' @
                      ''(no off switch); configure issuer/audience/secret_file/catalogue_path'')
      | Some j \<Rightarrow>
        case require_field (js_issuer j) ''issuer'' of Inl e \<Rightarrow> Inl e | Inr issuer \<Rightarrow>
        case require_field (js_audience j) ''audience'' of Inl e \<Rightarrow> Inl e | Inr audience \<Rightarrow>
        case require_field (js_secret_file j) ''secret_file'' of Inl e \<Rightarrow> Inl e | Inr secret_file \<Rightarrow>
        case require_field (js_catalogue_path j) ''catalogue_path'' of Inl e \<Rightarrow> Inl e | Inr catalogue_path \<Rightarrow>
        case cw_metadata_error world secret_file of
          Some kind \<Rightarrow> Inl (''secret_file '' @ secret_file @ '' is unreadable: '' @ kind)
        | None \<Rightarrow>
        case config_load_catalogue world catalogue_path of
          Inl e \<Rightarrow> Inl (''catalogue_path '' @ catalogue_path @ '' could not be loaded: '' @ catalogue_error_display e)
        | Inr _ \<Rightarrow>
          Inr \<lparr>ja_issuer = issuer, ja_audience = audience, ja_secret_file = secret_file, ja_catalogue_path = catalogue_path\<rparr>)"

definition select_sink :: "config_world \<Rightarrow> sink_section \<Rightarrow> config_builder \<Rightarrow> string + config_builder" where
  "select_sink world sink b =
     (if sk_kind sink = None \<or> sk_kind sink = Some ''stub'' then Inr b
      else if sk_kind sink = Some ''forwarding'' then
        let b' = builder_forwarding_sink (case fw_endpoint (sk_forwarding sink) of Some e \<Rightarrow> e | None \<Rightarrow> []) b in
        Inr (case fw_timeout_ms (sk_forwarding sink) of Some ms \<Rightarrow> b'\<lparr>ac_forwarding_timeout_ms := unat ms\<rparr> | None \<Rightarrow> b')
      else Inl (''unknown sink kind '' @ cw_str_debug world (the (sk_kind sink)) @ ''; expected \"stub\" or \"forwarding\"''))"

definition into_config :: "config_world \<Rightarrow> raw_config \<Rightarrow> string + aperture_config" where
  "into_config world raw =
     (let b0 = config_builder_new\<lparr>ac_grpc_bind_addr := ta_bind_addr (tn_grpc (rc_transport raw)),
                                  ac_http_bind_addr := ta_bind_addr (tn_http (rc_transport raw))\<rparr>;
          b1 = (case ta_max_concurrent_requests (tn_grpc (rc_transport raw)) of
                  Some cap \<Rightarrow> b0\<lparr>ac_max_concurrent_requests := cap\<rparr> | None \<Rightarrow> b0) in
      case select_sink world (rc_sink raw) b1 of Inl e \<Rightarrow> Inl e | Inr b2 \<Rightarrow>
      let b3 = (case sd_drain_deadline_ms (rc_shutdown raw) of
                  Some ms \<Rightarrow> b2\<lparr>ac_drain_deadline_ms := unat ms\<rparr> | None \<Rightarrow> b2);
          tls_enabled = tl_enabled (sy_tls (rc_security raw));
          spiffe_enabled = sf_enabled (au_spiffe (sy_auth (rc_security raw))) in
      case unimplemented_security_knob_reason tls_enabled spiffe_enabled of Some reason \<Rightarrow> Inl reason | None \<Rightarrow>
      let b4 = b3\<lparr>ac_tls_enabled := tls_enabled, ac_spiffe_enabled := spiffe_enabled\<rparr> in
      case validate_jwt_auth world (au_jwt (sy_auth (rc_security raw))) of Inl e \<Rightarrow> Inl e | Inr jwt_auth \<Rightarrow>
      config_build (cw_addr_display world) (b4\<lparr>ac_jwt_auth := Some jwt_auth\<rparr>))"

definition from_toml_path :: "config_world \<Rightarrow> (string \<Rightarrow> string + raw_config) \<Rightarrow> string \<Rightarrow> string + aperture_config" where
  "from_toml_path world extract path =
     (case extract path of Inl e \<Rightarrow> Inl (''config parse failed: '' @ e) | Inr raw \<Rightarrow> into_config world raw)"

section \<open>What a file can configure\<close>

definition knobs_off :: "raw_config \<Rightarrow> bool" where
  "knobs_off raw \<longleftrightarrow> \<not> tl_enabled (sy_tls (rc_security raw)) \<and> \<not> sf_enabled (au_spiffe (sy_auth (rc_security raw)))"

definition jwt_complete :: "config_world \<Rightarrow> raw_config \<Rightarrow> jwt_auth_config \<Rightarrow> bool" where
  "jwt_complete world raw ja \<longleftrightarrow>
     au_jwt (sy_auth (rc_security raw)) = Some \<lparr>js_issuer = Some (ja_issuer ja), js_audience = Some (ja_audience ja),
       js_secret_file = Some (ja_secret_file ja), js_catalogue_path = Some (ja_catalogue_path ja)\<rparr> \<and>
     cw_metadata_error world (ja_secret_file ja) = None \<and> \<not> isl (config_load_catalogue world (ja_catalogue_path ja))"

definition configured :: "raw_config \<Rightarrow> jwt_auth_config \<Rightarrow> aperture_config" where
  "configured raw ja =
     (let fw = sk_kind (rc_sink raw) = Some ''forwarding''; sec = sk_forwarding (rc_sink raw) in
      \<lparr>ac_grpc_bind_addr = ta_bind_addr (tn_grpc (rc_transport raw)), ac_http_bind_addr = ta_bind_addr (tn_http (rc_transport raw)),
       ac_sink_kind = (if fw then ForwardingKind else StubKind),
       ac_forwarding_endpoint = (if fw then case fw_endpoint sec of Some e \<Rightarrow> e | None \<Rightarrow> [] else []),
       ac_forwarding_timeout_ms = (if fw then case fw_timeout_ms sec of Some ms \<Rightarrow> unat ms | None \<Rightarrow> 5000 else 5000),
       ac_max_concurrent_requests = (case ta_max_concurrent_requests (tn_grpc (rc_transport raw)) of Some cap \<Rightarrow> cap | None \<Rightarrow> 1024),
       ac_max_recv_msg_size = None,
       ac_drain_deadline_ms = (case sd_drain_deadline_ms (rc_shutdown raw) of Some ms \<Rightarrow> unat ms | None \<Rightarrow> 30000),
       ac_tls_enabled = False, ac_spiffe_enabled = False, ac_jwt_auth = Some ja\<rparr>)"

lemma validate_jwt_iff: "validate_jwt_auth world (au_jwt (sy_auth (rc_security raw))) = Inr ja \<longleftrightarrow> jwt_complete world raw ja"
proof (cases "au_jwt (sy_auth (rc_security raw))")
  case None
  then show ?thesis
    by (simp add: validate_jwt_auth_def jwt_complete_def)
next
  case (Some j)
  then show ?thesis
    by (cases j; cases ja)
      (auto simp: validate_jwt_auth_def jwt_complete_def require_field_def isl_def split: option.splits sum.splits)
qed

lemma knob_reason_None: "unimplemented_security_knob_reason tls spiffe = None \<longleftrightarrow> \<not> tls \<and> \<not> spiffe"
  by (simp add: unimplemented_security_knob_reason_def Let_def)

lemma select_sink_known: "select_sink world sink b = Inr b' \<Longrightarrow> sk_kind sink \<in> {None, Some ''stub'', Some ''forwarding''}"
  by (auto simp: select_sink_def split: if_splits)

lemma into_config_needs:
  assumes "into_config world raw = Inr cfg"
  shows "sk_kind (rc_sink raw) \<in> {None, Some ''stub'', Some ''forwarding''} \<and> knobs_off raw \<and> (\<exists>ja. jwt_complete world raw ja)"
proof -
  let ?tls = "tl_enabled (sy_tls (rc_security raw))" and ?spiffe = "sf_enabled (au_spiffe (sy_auth (rc_security raw)))"
  have "unimplemented_security_knob_reason ?tls ?spiffe = None"
    using assms by (auto simp: into_config_def Let_def split: sum.splits option.splits)
  moreover have "\<exists>b b'. select_sink world (rc_sink raw) b = Inr b'"
    using assms unfolding into_config_def Let_def by (auto split: sum.splits)
  moreover have "\<exists>ja. validate_jwt_auth world (au_jwt (sy_auth (rc_security raw))) = Inr ja"
    using assms unfolding into_config_def Let_def by (auto split: sum.splits option.splits)
  ultimately show ?thesis
    using select_sink_known knob_reason_None validate_jwt_iff unfolding knobs_off_def by blast
qed

lemma into_config_builds:
  assumes "sk_kind (rc_sink raw) \<in> {None, Some ''stub'', Some ''forwarding''}" and "knobs_off raw" and "jwt_complete world raw ja"
  shows "into_config world raw = config_build (cw_addr_display world) (configured raw ja)"
  using assms validate_jwt_iff [of world raw ja]
  by (auto simp: into_config_def Let_def knobs_off_def select_sink_def builder_forwarding_sink_def config_builder_new_def configured_def
      knob_reason_None unimplemented_security_knob_reason_def split: option.splits)

lemma config_build_iff:
  "config_build display b = Inr cfg \<longleftrightarrow> cfg = b \<and> (sa_port (ac_grpc_bind_addr b) = 0 \<or> ac_grpc_bind_addr b \<noteq> ac_http_bind_addr b)"
  by (auto simp: config_build_def)

lemma into_config_is:
  assumes "into_config world raw = Inr cfg"
  shows "\<exists>ja. jwt_complete world raw ja \<and> cfg = configured raw ja"
  using into_config_needs [OF assms] into_config_builds assms by (metis config_build_iff)

text \<open>
  What a configuration file can make of the gateway: a file is accepted exactly when the kind of its sink is
  known, it asks for neither encryption nor SPIFFE, its authentication block is complete, with a secret that is
  there and a catalogue that loads, and the two addresses differ unless their port is left open. The
  configuration then has what the file says and the defaults for the rest, with authentication always and a
  limit on bodies never: whatever the file sets as \<open>max_recv_msg_size\<close> is dropped, and so is the
  limit on concurrency of the HTTP arm.
\<close>

theorem config_file_exact:
  "into_config world raw = Inr cfg \<longleftrightarrow>
     sk_kind (rc_sink raw) \<in> {None, Some ''stub'', Some ''forwarding''} \<and> knobs_off raw \<and>
     (\<exists>ja. jwt_complete world raw ja \<and> cfg = configured raw ja) \<and>
     (sa_port (ac_grpc_bind_addr cfg) = 0 \<or> ac_grpc_bind_addr cfg \<noteq> ac_http_bind_addr cfg)"
  using into_config_needs [of world raw cfg] into_config_builds [of raw world] config_build_iff by metis

end
