(* ===== verification/Aperture_Sinks.thy ===== *)
theory Aperture_Sinks
  imports Aperture_Theorems
begin

text \<open>
  The sinks the gateway itself provides (\<open>crates/aperture/src/sinks.rs\<close>, with
  \<open>summarise_record\<close> of \<open>app.rs\<close>): the stub, which logs what it accepts, and the
  forwarding sink, which posts each export to a downstream collector, with its probe in two stages. The exchange
  of a request is \<open>reqwest\<close>'s, an argument: from the number of the request and the request to a
  status, a timeout or another failure, with the milliseconds it took.
\<close>

section \<open>Summaries (\<open>app.rs\<close>)\<close>

record record_summary =
  su_signal :: string
  su_service_name :: "string option"
  su_count :: nat

definition service_name_from_attributes :: "key_value list \<Rightarrow> string option" where
  "service_name_from_attributes kvs =
     (case find (\<lambda>kv. kv_key kv = ''service.name'') kvs of
        None \<Rightarrow> None
      | Some kv \<Rightarrow>
        (case kv_value kv of
           Some (AnyValue (Some (StringValue s))) \<Rightarrow> Some s
         | _ \<Rightarrow> None))"

definition first_service_name :: "('r \<Rightarrow> otlp_resource option) \<Rightarrow> 'r list \<Rightarrow> string option" where
  "first_service_name resource rs =
     (case rs of
        [] \<Rightarrow> None
      | r # _ \<Rightarrow> (case resource r of None \<Rightarrow> None | Some res \<Rightarrow> service_name_from_attributes (res_attributes res)))"

definition count_log_records :: "export_logs \<Rightarrow> nat" where
  "count_log_records req = sum_list (map length (concat (map rl_scope_logs req)))"

definition count_spans :: "export_traces \<Rightarrow> nat" where
  "count_spans req = sum_list (map length (concat (map rs_scope_spans req)))"

definition count_data_points :: "export_metrics \<Rightarrow> nat" where
  "count_data_points req =
     sum_list (map (\<lambda>m. case pm_data m of
         Some (GaugeData ps) \<Rightarrow> length ps
       | Some (SumData ps) \<Rightarrow> length ps
       | Some (HistogramData n) \<Rightarrow> n
       | Some (ExponentialHistogramData n) \<Rightarrow> n
       | Some (SummaryData n) \<Rightarrow> n
       | None \<Rightarrow> 0) (concat (concat (map rm_scope_metrics req))))"

fun summarise_record :: "otlp_record \<Rightarrow> record_summary" where
  "summarise_record (LogsRecord scoped) =
     \<lparr>su_signal = ''logs'', su_service_name = first_service_name rl_resource (ts_inner scoped),
      su_count = count_log_records (ts_inner scoped)\<rparr>"
| "summarise_record (TracesRecord scoped) =
     \<lparr>su_signal = ''traces'', su_service_name = first_service_name rs_resource (ts_inner scoped),
      su_count = count_spans (ts_inner scoped)\<rparr>"
| "summarise_record (MetricsRecord scoped) =
     \<lparr>su_signal = ''metrics'', su_service_name = first_service_name rm_resource (ts_inner scoped),
      su_count = count_data_points (ts_inner scoped)\<rparr>"

section \<open>The stub\<close>

text \<open>The lines the sinks log: the sink, signal, count and service name, and the downstream with its latency.\<close>

datatype sink_event =
  SinkAccepted string string nat string "(string \<times> u64) option" |
  SinkFailed string string

definition emit_sink_accepted :: "string \<Rightarrow> (string \<times> u64) option \<Rightarrow> otlp_record \<Rightarrow> sink_event" where
  "emit_sink_accepted sink downstream r =
     (let s = summarise_record r in
      SinkAccepted sink (su_signal s) (su_count s) (case su_service_name s of Some n \<Rightarrow> n | None \<Rightarrow> []) downstream)"

definition stub_accept :: "otlp_record \<Rightarrow> sink_event list \<Rightarrow> (otlp_sink_error + unit) \<times> sink_event list" where
  "stub_accept r evs = (Inr (), evs @ [emit_sink_accepted ''stub'' None r])"

section \<open>The forwarding sink\<close>

datatype http_method = MethodPost | MethodOptions

record downstream_request =
  dq_method :: http_method
  dq_url :: string
  dq_content_type :: "string option"
  dq_body :: "u8 list"
  dq_timeout_ms :: nat

datatype downstream_reply = Answered nat | TimedOut | Failed_to_send string

type_synonym downstream = "nat \<Rightarrow> downstream_request \<Rightarrow> downstream_reply \<times> u64"

definition http_success :: "nat \<Rightarrow> bool" where
  "http_success status \<longleftrightarrow> 200 \<le> status \<and> status < 300"

record forwarding_sink =
  fk_endpoint :: string
  fk_timeout_ms :: nat
  fk_sent :: "downstream_request list"
  fk_events :: "sink_event list"

definition forwarding_sink_new :: "string \<Rightarrow> nat \<Rightarrow> forwarding_sink" where
  "forwarding_sink_new endpoint timeout_ms = \<lparr>fk_endpoint = endpoint, fk_timeout_ms = timeout_ms, fk_sent = [], fk_events = []\<rparr>"

definition trim_end_slashes :: "string \<Rightarrow> string" where
  "trim_end_slashes s = rev (dropWhile (\<lambda>c. c = CHR ''/'') (rev s))"

definition url_for :: "string \<Rightarrow> string \<Rightarrow> string" where
  "url_for endpoint signal = trim_end_slashes endpoint @ ''/v1/'' @ signal"

fun signal_name_for :: "otlp_record \<Rightarrow> string" where
  "signal_name_for (LogsRecord _) = ''logs''"
| "signal_name_for (TracesRecord _) = ''traces''"
| "signal_name_for (MetricsRecord _) = ''metrics''"

fun encode_for_forwarding :: "aperture_lib \<Rightarrow> otlp_record \<Rightarrow> u8 list" where
  "encode_for_forwarding lib (LogsRecord scoped) = al_encode_logs lib (ts_inner scoped)"
| "encode_for_forwarding lib (TracesRecord scoped) = al_encode_traces lib (ts_inner scoped)"
| "encode_for_forwarding lib (MetricsRecord scoped) = al_encode_metrics lib (ts_inner scoped)"

definition downstream_send :: "downstream \<Rightarrow> downstream_request \<Rightarrow> forwarding_sink \<Rightarrow> downstream_reply \<times> u64 \<times> forwarding_sink" where
  "downstream_send net req sink =
     (case net (length (fk_sent sink)) req of (reply, elapsed_ms) \<Rightarrow> (reply, elapsed_ms, sink\<lparr>fk_sent := fk_sent sink @ [req]\<rparr>))"

definition forwarding_request :: "aperture_lib \<Rightarrow> forwarding_sink \<Rightarrow> otlp_record \<Rightarrow> downstream_request" where
  "forwarding_request lib sink r =
     \<lparr>dq_method = MethodPost, dq_url = url_for (fk_endpoint sink) (signal_name_for r),
      dq_content_type = Some ''application/x-protobuf'', dq_body = encode_for_forwarding lib r, dq_timeout_ms = fk_timeout_ms sink\<rparr>"

definition classify_accept_error :: "downstream_reply \<Rightarrow> u64 \<Rightarrow> string \<times> otlp_sink_error" where
  "classify_accept_error reply elapsed_ms =
     (case reply of
        Failed_to_send reason \<Rightarrow> (reason, DownstreamUnavailable reason)
      | _ \<Rightarrow> (''downstream timeout'', DownstreamTimeout elapsed_ms))"

definition forwarding_accept ::
  "aperture_lib \<Rightarrow> downstream \<Rightarrow> otlp_record \<Rightarrow> forwarding_sink \<Rightarrow> (otlp_sink_error + unit) \<times> forwarding_sink" where
  "forwarding_accept lib net r sink =
     (case downstream_send net (forwarding_request lib sink r) sink of
        (reply, elapsed_ms, sink') \<Rightarrow>
          (case reply of
             Answered status \<Rightarrow>
               if http_success status then
                 (Inr (), sink'\<lparr>fk_events := fk_events sink' @ [emit_sink_accepted ''forwarding'' (Some (fk_endpoint sink, elapsed_ms)) r]\<rparr>)
               else
                 let reason = ''downstream returned '' @ nat_str status in
                 (Inl (DownstreamUnavailable reason), sink'\<lparr>fk_events := fk_events sink' @ [SinkFailed (fk_endpoint sink) reason]\<rparr>)
           | _ \<Rightarrow>
               (case classify_accept_error reply elapsed_ms of
                  (reason, e) \<Rightarrow> (Inl e, sink'\<lparr>fk_events := fk_events sink' @ [SinkFailed (fk_endpoint sink) reason]\<rparr>))))"

section \<open>The probe\<close>

definition PROBE_STAGE_TIMEOUT_MS :: nat where "PROBE_STAGE_TIMEOUT_MS = 2000"

datatype probe_stage_outcome = StageSucceeded | StageFallThrough | StageFailed probe_error

definition classify_transport_error :: "string \<Rightarrow> downstream_reply \<Rightarrow> probe_error" where
  "classify_transport_error endpoint reply =
     (case reply of
        Failed_to_send reason \<Rightarrow> ProbeUnreachable endpoint reason
      | _ \<Rightarrow> ProbeTimeout endpoint (word_of_nat PROBE_STAGE_TIMEOUT_MS))"

definition classify_options_response :: "string \<Rightarrow> nat \<Rightarrow> probe_stage_outcome" where
  "classify_options_response endpoint status =
     (if status = 204 then StageSucceeded
      else if http_success status \<or> status \<in> {404, 405} then StageFallThrough
      else StageFailed (ProbeRefused endpoint status))"

definition probe_options :: "downstream \<Rightarrow> forwarding_sink \<Rightarrow> probe_stage_outcome \<times> forwarding_sink" where
  "probe_options net sink =
     (case downstream_send net \<lparr>dq_method = MethodOptions, dq_url = url_for (fk_endpoint sink) ''logs'', dq_content_type = None, dq_body = [],
             dq_timeout_ms = PROBE_STAGE_TIMEOUT_MS\<rparr> sink of
        (reply, _, sink') \<Rightarrow>
          (case reply of
             Answered status \<Rightarrow> classify_options_response (fk_endpoint sink) status
           | _ \<Rightarrow> StageFailed (classify_transport_error (fk_endpoint sink) reply),
           sink'))"

definition empty_export_logs_service_request_bytes :: "aperture_lib \<Rightarrow> u8 list" where
  "empty_export_logs_service_request_bytes lib = al_encode_logs lib []"

definition probe_degraded_post :: "aperture_lib \<Rightarrow> downstream \<Rightarrow> forwarding_sink \<Rightarrow> (probe_error + unit) \<times> forwarding_sink" where
  "probe_degraded_post lib net sink =
     (case downstream_send net \<lparr>dq_method = MethodPost, dq_url = url_for (fk_endpoint sink) ''logs'',
             dq_content_type = Some ''application/x-protobuf'', dq_body = empty_export_logs_service_request_bytes lib,
             dq_timeout_ms = PROBE_STAGE_TIMEOUT_MS\<rparr> sink of
        (reply, _, sink') \<Rightarrow>
          (case reply of
             Answered status \<Rightarrow> if http_success status then Inr () else Inl (ProbeRefused (fk_endpoint sink) status)
           | _ \<Rightarrow> Inl (classify_transport_error (fk_endpoint sink) reply),
           sink'))"

definition forwarding_probe :: "aperture_lib \<Rightarrow> downstream \<Rightarrow> forwarding_sink \<Rightarrow> (probe_error + unit) \<times> forwarding_sink" where
  "forwarding_probe lib net sink =
     (case probe_options net sink of
        (StageSucceeded, sink') \<Rightarrow> (Inr (), sink')
      | (StageFailed e, sink') \<Rightarrow> (Inl e, sink')
      | (StageFallThrough, sink') \<Rightarrow> probe_degraded_post lib net sink')"

section \<open>What is forwarded\<close>

lemma forwarding_accept_result:
  "case forwarding_accept lib net r sink of (res, sink') \<Rightarrow>
     fk_sent sink' = fk_sent sink @ [forwarding_request lib sink r] \<and> fk_endpoint sink' = fk_endpoint sink \<and>
     (\<not> isl res \<longleftrightarrow> (\<exists>status. fst (net (length (fk_sent sink)) (forwarding_request lib sink r)) = Answered status \<and> http_success status)) \<and>
     (\<exists>ev. fk_events sink' = fk_events sink @ [ev])"
  by (auto simp: forwarding_accept_def downstream_send_def classify_accept_error_def Let_def
      split: prod.splits downstream_reply.splits if_splits)

text \<open>What a handler does to the sink: at most one call, whose result is the answer.\<close>

lemma handle_admitted_sink:
  assumes "handle_admitted lib cfg (signal_name signal) (ingest_signal signal lib accept) now req gw = (resp, gw')"
  shows "gw_sink gw' = gw_sink gw \<and> ar_status resp \<in> {400, 401, 413, 415} \<or>
    (\<exists>tenant r. validated lib signal (ir_body req) HttpProtobuf tenant = Inr r \<and> gw_sink gw' = snd (accept r (gw_sink gw)) \<and>
       ar_status resp = (if isl (fst (accept r (gw_sink gw))) then 503 else 200))"
proof -
  obtain auth evs where a: "authenticate lib (gc_validator cfg) (ingest_http_authorization lib req) (signal_name signal) now = (auth, evs)"
    by fastforce
  show ?thesis
  proof (cases "\<not> isl auth \<and> is_protobuf_content_type (al_http lib) req")
    case False
    then show ?thesis
      using assms a by (cases auth)
        (auto simp: handle_admitted_def gw_log_def reject_http_unauthorized_def text_response_def)
  next
    case True
    then obtain tenant where tenant: "auth = Inr tenant"
      by (cases auth) auto
    obtain read evs' where r: "read_http_body_within_cap (al_http lib) (gc_recv_body_cap cfg) req (signal_name signal) = (read, evs')"
      by fastforce
    note body = read_body_cases [where lib = "al_http lib" and cap = "gc_recv_body_cap cfg" and req = req and signal = "signal_name signal", unfolded r]
    show ?thesis
    proof (cases read)
      case (Inl response)
      with assms a tenant True r body show ?thesis
        by (auto simp: handle_admitted_def gw_log_def)
    next
      case (Inr bytes)
      with body have bytes: "bytes = ir_body req" and cap: "\<forall>limit. active_cap (gc_recv_body_cap cfg) = Some limit \<longrightarrow> length bytes \<le> unat limit"
        by auto
      obtain outcome sink' where o: "route (validated lib signal bytes HttpProtobuf tenant) accept (gw_sink gw) = (outcome, sink')"
        by fastforce
      have resp: "resp = outcome_response lib outcome" "gw_sink gw' = sink'"
        using assms a tenant True r Inr o
        by (auto simp: handle_admitted_def gw_log_def ingest_signal_route no_secondary_guard [OF cap])
      show ?thesis
      proof (cases "validated lib signal (ir_body req) HttpProtobuf tenant")
        case (Inl rejected)
        with o bytes resp show ?thesis
          by (auto simp: route_cases outcome_response_def text_response_def)
      next
        case (Inr r)
        with o bytes resp have "gw_sink gw' = snd (accept r (gw_sink gw)) \<and> ar_status resp = (if isl (fst (accept r (gw_sink gw))) then 503 else 200)"
          by (auto simp: route_cases outcome_response_def text_response_def split: sum.splits)
        with Inr show ?thesis
          by blast
      qed
    qed
  qed
qed

lemma validated_signal: "validated lib signal bytes f tenant = Inr r \<Longrightarrow> signal_name_for r = signal_name signal"
  by (cases signal) (auto simp: validated_def map_sum_def split: sum.splits)

text \<open>
  Nothing is acknowledged that the downstream did not take: a request to a gateway that forwards is answered
  with 200 exactly when one request was sent on and answered with success, which was a post of the whole export,
  re-encoded, to the path of its signal under the configured endpoint; it is answered with 503 when what was
  sent on was not taken, or nothing was because the limit was reached; and with every other answer nothing was
  sent on. There is no second attempt.
\<close>

theorem forwarding_no_silent_loss:
  assumes "handle_ingest signal lib cfg (forwarding_accept lib net) now req gw = (resp, gw')"
  shows "(\<exists>tenant r. validated lib signal (ir_body req) HttpProtobuf tenant = Inr r \<and>
      fk_sent (gw_sink gw') = fk_sent (gw_sink gw) @
        [\<lparr>dq_method = MethodPost, dq_url = url_for (fk_endpoint (gw_sink gw)) (signal_name signal),
          dq_content_type = Some ''application/x-protobuf'', dq_body = encode_for_forwarding lib r,
          dq_timeout_ms = fk_timeout_ms (gw_sink gw)\<rparr>] \<and>
      ar_status resp = (case fst (net (length (fk_sent (gw_sink gw))) (last (fk_sent (gw_sink gw')))) of
         Answered status \<Rightarrow> if http_success status then 200 else 503 | _ \<Rightarrow> 503)) \<or>
    gw_sink gw' = gw_sink gw \<and>
      (ar_status resp \<in> {400, 401, 413, 415} \<or> ar_status resp = 503 \<and> cl_available (gw_limiter gw) = 0)"
proof (cases "cl_available (gw_limiter gw) = 0")
  case True
  with assms show ?thesis
    by (auto simp: handle_ingest_permit with_permit_def limiter_try_acquire_def gw_log_def refuse_http_def text_response_def)
next
  case False
  let ?taken = "gw\<lparr>gw_limiter := (gw_limiter gw)\<lparr>cl_available := cl_available (gw_limiter gw) - 1\<rparr>\<rparr>"
  obtain resp1 gw1 where h: "handle_admitted lib cfg (signal_name signal) (ingest_signal signal lib (forwarding_accept lib net)) now req ?taken = (resp1, gw1)"
    by fastforce
  with False assms have r: "resp = resp1" "gw_sink gw' = gw_sink gw1"
    by (auto simp: handle_ingest_permit with_permit_def limiter_try_acquire_def)
  from handle_admitted_sink [OF h] consider
    (refused) "gw_sink gw1 = gw_sink gw" "ar_status resp1 \<in> {400, 401, 413, 415}"
    | (sent) tenant r where "validated lib signal (ir_body req) HttpProtobuf tenant = Inr r"
        "gw_sink gw1 = snd (forwarding_accept lib net r (gw_sink gw))"
        "ar_status resp1 = (if isl (fst (forwarding_accept lib net r (gw_sink gw))) then 503 else 200)"
    by auto
  then show ?thesis
  proof cases
    case refused
    with r show ?thesis
      by simp
  next
    case sent
    note acc = forwarding_accept_result [where lib = lib and net = net and r = r and sink = "gw_sink gw"]
    have req: "forwarding_request lib (gw_sink gw) r =
        \<lparr>dq_method = MethodPost, dq_url = url_for (fk_endpoint (gw_sink gw)) (signal_name signal),
          dq_content_type = Some ''application/x-protobuf'', dq_body = encode_for_forwarding lib r,
          dq_timeout_ms = fk_timeout_ms (gw_sink gw)\<rparr>"
      by (simp add: forwarding_request_def validated_signal [OF sent(1)])
    have fwd: "fk_sent (gw_sink gw') = fk_sent (gw_sink gw) @ [forwarding_request lib (gw_sink gw) r]"
      using acc sent(2) r(2) by (auto split: prod.splits)
    moreover have "ar_status resp = (case fst (net (length (fk_sent (gw_sink gw))) (forwarding_request lib (gw_sink gw) r)) of
         Answered status \<Rightarrow> if http_success status then 200 else 503 | _ \<Rightarrow> 503)"
      using acc sent(3) r(1) by (auto split: prod.splits downstream_reply.splits)
    ultimately show ?thesis
      using sent(1) unfolding req by auto
  qed
qed

text \<open>
  The probe is passed exactly by a downstream that answers the preflight with 204, or answers it with another
  success, 404 or 405 and then takes an empty export; in particular one that takes preflights and refuses
  exports is found out. It sends at most these two requests.
\<close>

theorem forwarding_probe_exact:
  fixes net :: downstream
  assumes "forwarding_probe lib net sink = (res, sink')" and "n = length (fk_sent sink)"
    and "preflight = \<lparr>dq_method = MethodOptions, dq_url = url_for (fk_endpoint sink) ''logs'', dq_content_type = None, dq_body = [],
      dq_timeout_ms = 2000\<rparr>"
    and "export = \<lparr>dq_method = MethodPost, dq_url = url_for (fk_endpoint sink) ''logs'',
      dq_content_type = Some ''application/x-protobuf'', dq_body = al_encode_logs lib [], dq_timeout_ms = 2000\<rparr>"
  shows "(res = Inr () \<longleftrightarrow> fst (net n preflight) = Answered 204 \<or>
      (\<exists>s s'. fst (net n preflight) = Answered s \<and> (http_success s \<or> s \<in> {404, 405}) \<and> fst (net (n + 1) export) = Answered s' \<and> http_success s')) \<and>
    prefix (fk_sent sink') (fk_sent sink @ [preflight, export]) \<and> fk_events sink' = fk_events sink"
  using assms
  by (auto simp: forwarding_probe_def probe_options_def probe_degraded_post_def downstream_send_def classify_options_response_def
      classify_transport_error_def empty_export_logs_service_request_bytes_def PROBE_STAGE_TIMEOUT_MS_def Let_def split: prod.splits downstream_reply.splits if_splits)

end
