(* ===== verification/Aperture_Startup.thy ===== *)
theory Aperture_Startup
  imports Aperture_Config Aperture_Sinks
begin

text \<open>
  How the gateway starts and ends (\<open>crates/aperture/src\<close>: \<open>main.rs\<close>,
  \<open>compose.rs\<close>, the run loop of \<open>lib.rs\<close>, the binding of the listeners in
  \<open>transport.rs\<close>): the command line, the wiring of a sink, the validator and the limits, the events
  and the exit codes. What binding an address gives is an argument.
\<close>

section \<open>The command line (\<open>main.rs\<close>)\<close>

datatype argv_outcome = ConfigFlag "string option" | HelpShown | ArgvError string

fun parse_argv_from :: "string list \<Rightarrow> string option \<Rightarrow> argv_outcome" where
  "parse_argv_from [] config_path = ConfigFlag config_path"
| "parse_argv_from (arg # rest) config_path =
     (if arg = ''--config'' then
        (case rest of
           path # rest' \<Rightarrow>
             if config_path \<noteq> None then ArgvError ''--config given more than once''
             else parse_argv_from rest' (Some path)
         | [] \<Rightarrow> ArgvError ''--config requires a path argument'')
      else if arg = ''--help'' \<or> arg = ''-h'' then HelpShown
      else ArgvError (''unrecognised argument: '' @ arg))"

definition parse_argv :: "string list \<Rightarrow> argv_outcome" where
  "parse_argv argv = parse_argv_from (drop 1 argv) None"

section \<open>The composition (\<open>compose.rs\<close>)\<close>

datatype startup_event =
  StartupLine | HealthStartupRefused string | ListenerBound string socket_addr |
  ListenerBindFailed string socket_addr string | ReadyLine |
  ConfigValidationFailed string | ArgvErrorLine string | UsageLine | ExitedWithError string

record startup_world =
  sw_config :: config_world
  sw_downstream :: downstream
  sw_bind :: "string \<Rightarrow> socket_addr \<Rightarrow> string + socket_addr"

text \<open>\<open>Arc<dyn OtlpSink>\<close>: either sink behind the port.\<close>

datatype gateway_sink = StubWired "sink_event list" | ForwardingWired forwarding_sink

fun gateway_accept ::
  "aperture_lib \<Rightarrow> downstream \<Rightarrow> otlp_record \<Rightarrow> gateway_sink \<Rightarrow> (otlp_sink_error + unit) \<times> gateway_sink" where
  "gateway_accept lib net r (StubWired evs) = apsnd StubWired (stub_accept r evs)"
| "gateway_accept lib net r (ForwardingWired sink) = apsnd ForwardingWired (forwarding_accept lib net r sink)"

definition build_validator :: "config_world \<Rightarrow> jwt_auth_config \<Rightarrow> string + validator" where
  "build_validator world ja =
     (case cw_read world (ja_secret_file ja) of
        Inl kind \<Rightarrow> Inl (''secret_file '' @ ja_secret_file ja @ '' is unreadable: '' @ kind)
      | Inr hs256_key \<Rightarrow>
        (case config_load_catalogue world (ja_catalogue_path ja) of
           Inl e \<Rightarrow> Inl (''catalogue_path '' @ ja_catalogue_path ja @ '' could not be loaded: '' @ catalogue_error_display e)
         | Inr catalogue \<Rightarrow>
             Inr \<lparr>va_issuer = ja_issuer ja, va_audience = ja_audience ja, va_key = hs256_key, va_catalogue = catalogue\<rparr>))"

definition wire_sink :: "aperture_config \<Rightarrow> gateway_sink" where
  "wire_sink cfg =
     (case ac_sink_kind cfg of
        StubKind \<Rightarrow> StubWired []
      | ForwardingKind \<Rightarrow> ForwardingWired (forwarding_sink_new (ac_forwarding_endpoint cfg) (ac_forwarding_timeout_ms cfg)))"

definition probe_or_refuse ::
  "aperture_lib \<Rightarrow> downstream \<Rightarrow> forwarding_sink \<Rightarrow> (string + forwarding_sink) \<times> startup_event list" where
  "probe_or_refuse lib net sink =
     (case forwarding_probe lib net sink of
        (Inl e, _) \<Rightarrow> (Inl (''sink probe failed: '' @ probe_error_display e), [HealthStartupRefused (probe_error_display e)])
      | (Inr _, sink') \<Rightarrow> (Inr sink', []))"

definition spawn_grpc ::
  "startup_world \<Rightarrow> socket_addr \<Rightarrow> readiness_state \<Rightarrow> (string + socket_addr) \<times> readiness_state \<times> startup_event list" where
  "spawn_grpc world addr r =
     (case sw_bind world ''grpc'' addr of
        Inl e \<Rightarrow> (Inl e, r, [])
      | Inr bound \<Rightarrow> (Inr bound, mark_grpc_bound r, [ListenerBound ''grpc'' bound]))"

definition spawn_http ::
  "startup_world \<Rightarrow> socket_addr \<Rightarrow> readiness_state \<Rightarrow> (string + socket_addr) \<times> readiness_state \<times> startup_event list" where
  "spawn_http world addr r =
     (case sw_bind world ''http'' addr of
        Inl e \<Rightarrow> (Inl e, r, [])
      | Inr bound \<Rightarrow> (Inr bound, mark_http_bound r, [ListenerBound ''http'' bound]))"

text \<open>A running gateway: what its handlers are given, and what its shutdown needs.\<close>

record composed =
  co_sink :: gateway_sink
  co_config :: gateway_config
  co_limiters :: limiters
  co_readiness :: readiness_state
  co_drain_deadline_ms :: nat
  co_grpc_addr :: socket_addr
  co_http_addr :: socket_addr

definition select_wired ::
  "aperture_lib \<Rightarrow> startup_world \<Rightarrow> aperture_config \<Rightarrow> gateway_sink \<Rightarrow> (string + gateway_sink) \<times> startup_event list" where
  "select_wired lib world cfg sink =
     (case ac_sink_kind cfg of
        StubKind \<Rightarrow> (Inr sink, [])
      | ForwardingKind \<Rightarrow>
          apfst (map_sum id ForwardingWired)
            (probe_or_refuse lib (sw_downstream world)
              (forwarding_sink_new (ac_forwarding_endpoint cfg) (ac_forwarding_timeout_ms cfg))))"

definition configured_validator :: "startup_world \<Rightarrow> aperture_config \<Rightarrow> string + validator option" where
  "configured_validator world cfg =
     (case ac_jwt_auth cfg of Some ja \<Rightarrow> map_sum id Some (build_validator (sw_config world) ja) | None \<Rightarrow> Inr None)"

definition spawn_with_readiness ::
  "aperture_lib \<Rightarrow> startup_world \<Rightarrow> aperture_config \<Rightarrow> gateway_sink \<Rightarrow> (string + composed) \<times> startup_event list" where
  "spawn_with_readiness lib world cfg sink =
     (case select_wired lib world cfg sink of
        (Inl e, evs) \<Rightarrow> (Inl e, StartupLine # evs)
      | (Inr wired, evs) \<Rightarrow>
        (case configured_validator world cfg of
           Inl e \<Rightarrow> (Inl e, StartupLine # evs)
         | Inr validator \<Rightarrow>
           (case spawn_grpc world (ac_grpc_bind_addr cfg) readiness_new of
              (Inl e, _, evs1) \<Rightarrow>
                (Inl (''listener bind failed for grpc: '' @ e),
                 StartupLine # evs @ evs1 @ [ListenerBindFailed ''grpc'' (ac_grpc_bind_addr cfg) e])
            | (Inr grpc_addr, r1, evs1) \<Rightarrow>
              (case spawn_http world (ac_http_bind_addr cfg) r1 of
                 (Inl e, _, evs2) \<Rightarrow>
                   (Inl (''listener bind failed for http: '' @ e),
                    StartupLine # evs @ evs1 @ evs2 @ [ListenerBindFailed ''http'' (ac_http_bind_addr cfg) e])
               | (Inr http_addr, r2, evs2) \<Rightarrow>
                   (Inr \<lparr>co_sink = wired,
                         co_config = \<lparr>gc_validator = validator, gc_recv_body_cap = ac_max_recv_msg_size cfg\<rparr>,
                         co_limiters = \<lparr>li_grpc = limiter_new (ac_max_concurrent_requests cfg) CapGrpc,
                                        li_http = limiter_new (ac_max_concurrent_requests cfg) CapHttpProtobuf\<rparr>,
                         co_readiness = r2, co_drain_deadline_ms = ac_drain_deadline_ms cfg,
                         co_grpc_addr = grpc_addr, co_http_addr = http_addr\<rparr>,
                    StartupLine # evs @ evs1 @ evs2 @ [ReadyLine])))))"

section \<open>The process (\<open>main.rs\<close>, \<open>lib.rs\<close>)\<close>

text \<open>The configuration is loaded in one state of the world and the gateway composed in a later one.\<close>

definition main_config ::
  "config_world \<Rightarrow> (string \<Rightarrow> string + raw_config) \<Rightarrow> string option \<Rightarrow> string + aperture_config" where
  "main_config world extract path =
     (case path of
        Some path \<Rightarrow> from_toml_path world extract path
      | None \<Rightarrow> config_build (cw_addr_display world) config_builder_new)"

datatype process = Exits nat | Serves composed

definition aperture_main ::
  "aperture_lib \<Rightarrow> config_world \<Rightarrow> (string \<Rightarrow> string + raw_config) \<Rightarrow> startup_world \<Rightarrow> string list \<Rightarrow> process \<times> startup_event list" where
  "aperture_main lib world0 extract world argv =
     (case parse_argv argv of
        HelpShown \<Rightarrow> (Exits 0, [UsageLine])
      | ArgvError e \<Rightarrow> (Exits 2, [ArgvErrorLine e])
      | ConfigFlag path \<Rightarrow>
        (case main_config world0 extract path of
           Inl e \<Rightarrow> (Exits 2, [ConfigValidationFailed e])
         | Inr cfg \<Rightarrow>
           (case spawn_with_readiness lib world cfg (wire_sink cfg) of
              (Inl e, evs) \<Rightarrow> (Exits 1, evs @ [ExitedWithError e])
            | (Inr co, evs) \<Rightarrow> (Serves co, evs))))"

text \<open>What ends the wait: a signal, or a serving task that is joined, \<open>None\<close> with a join error.\<close>

datatype run_wait = SignalArrived shutdown_trigger | ServeJoined "serve_outcome option"

datatype run_event = RunShutdown shutdown_trigger | RunServeDeath

definition serve_join_event :: "serve_outcome option \<Rightarrow> run_event" where
  "serve_join_event joined = (case joined of Some ServeFailed \<Rightarrow> RunServeDeath | _ \<Rightarrow> RunShutdown HandleShutdown)"

fun wait_for_signal_or_serve_death :: "run_wait \<Rightarrow> run_event" where
  "wait_for_signal_or_serve_death (SignalArrived trigger) = RunShutdown trigger"
| "wait_for_signal_or_serve_death (ServeJoined joined) = serve_join_event joined"

text \<open>\<open>now\<close>, \<open>race\<close> and \<open>r\<close>: the limiters when the drain begins, how it comes out, and the readiness at the time.\<close>

definition run_exit ::
  "composed \<Rightarrow> run_wait \<Rightarrow> limiters \<Rightarrow> drain_race \<Rightarrow> readiness_state \<Rightarrow> nat \<times> readiness_state \<times> lifecycle_event list" where
  "run_exit co waited now race r =
     (case wait_for_signal_or_serve_death waited of
        RunServeDeath \<Rightarrow> (drain_exit_code DrainServeFailed, r, [])
      | RunShutdown trigger \<Rightarrow>
          apfst drain_exit_code (orchestrate_shutdown trigger (co_drain_deadline_ms co) now race r))"

section \<open>What a start amounts to\<close>

lemma readiness_after_both: "rd_phase (mark_http_bound (mark_grpc_bound readiness_new)) = Ready"
  by (simp add: mark_http_bound_def mark_grpc_bound_def recompute_ready_def readiness_cas_def readiness_new_def)

text \<open>The probe that a configuration asks for is passed.\<close>

definition probe_passed :: "aperture_lib \<Rightarrow> startup_world \<Rightarrow> aperture_config \<Rightarrow> bool" where
  "probe_passed lib world cfg \<longleftrightarrow> ac_sink_kind cfg = ForwardingKind \<longrightarrow>
     fst (forwarding_probe lib (sw_downstream world)
       (forwarding_sink_new (ac_forwarding_endpoint cfg) (ac_forwarding_timeout_ms cfg))) = Inr ()"

lemma select_wired_cases:
  "case select_wired lib world cfg sink of
     (Inr _, evs) \<Rightarrow> probe_passed lib world cfg \<and> evs = []
   | (Inl _, evs) \<Rightarrow> \<not> probe_passed lib world cfg \<and> (\<exists>e. evs = [HealthStartupRefused e])"
  by (auto simp: select_wired_def probe_passed_def probe_or_refuse_def split: config_sink_kind.split prod.split sum.split)

lemma main_config_file: "main_config world extract (Some path) = Inr cfg \<longleftrightarrow> (\<exists>raw. extract path = Inr raw \<and> into_config world raw = Inr cfg)"
  by (simp add: main_config_def from_toml_path_def split: sum.split)

lemma main_config_default: "main_config world extract None = Inr config_builder_new"
  by (simp add: main_config_def config_build_def config_builder_new_def)

lemma configured_validator_built:
  "configured_validator world cfg = Inr w \<Longrightarrow> ac_jwt_auth cfg = Some ja \<Longrightarrow> \<exists>v. w = Some v \<and> build_validator (sw_config world) ja = Inr v"
  by (auto simp: configured_validator_def map_sum_def split: sum.splits)

lemma build_validator_iff:
  "build_validator world ja = Inr v \<longleftrightarrow>
     (\<exists>key catalogue. cw_read world (ja_secret_file ja) = Inr key \<and> config_load_catalogue world (ja_catalogue_path ja) = Inr catalogue \<and>
        v = \<lparr>va_issuer = ja_issuer ja, va_audience = ja_audience ja, va_key = key, va_catalogue = catalogue\<rparr>)"
  by (auto simp: build_validator_def split: sum.splits)

lemma spawned:
  assumes "spawn_with_readiness lib world cfg sink = (Inr co, evs)"
  shows "probe_passed lib world cfg \<and> configured_validator world cfg = Inr (gc_validator (co_config co)) \<and>
    gc_recv_body_cap (co_config co) = ac_max_recv_msg_size cfg \<and> rd_phase (co_readiness co) = Ready \<and>
    sw_bind world ''grpc'' (ac_grpc_bind_addr cfg) = Inr (co_grpc_addr co) \<and>
    sw_bind world ''http'' (ac_http_bind_addr cfg) = Inr (co_http_addr co) \<and>
    evs = [StartupLine, ListenerBound ''grpc'' (co_grpc_addr co), ListenerBound ''http'' (co_http_addr co), ReadyLine]"
  using assms select_wired_cases [of lib world cfg sink]
  by (auto simp: spawn_with_readiness_def spawn_grpc_def spawn_http_def readiness_after_both split: prod.splits sum.splits)

lemma spawn_fails:
  assumes "spawn_with_readiness lib world cfg sink = (Inl e, evs)"
  shows "(\<exists>reason. evs = [StartupLine, HealthStartupRefused reason] \<and> \<not> probe_passed lib world cfg) \<or>
    evs = [StartupLine] \<and> isl (configured_validator world cfg) \<or>
    (\<exists>reason. evs = [StartupLine, ListenerBindFailed ''grpc'' (ac_grpc_bind_addr cfg) reason]) \<or>
    (\<exists>addr reason. evs = [StartupLine, ListenerBound ''grpc'' addr, ListenerBindFailed ''http'' (ac_http_bind_addr cfg) reason] \<and>
       probe_passed lib world cfg \<and> \<not> isl (configured_validator world cfg))"
  using assms select_wired_cases [of lib world cfg sink]
  by (auto simp: spawn_with_readiness_def spawn_grpc_def spawn_http_def split: prod.splits sum.splits)

lemma token_grants_unique: "token_grants lib v authorization now a \<Longrightarrow> token_grants lib v authorization now b \<Longrightarrow> a = b"
  by (auto simp: token_grants_def claims_grant_def)

lemma authenticate_iff:
  "fst (authenticate lib (Some v) authorization signal now) = Inr tenant \<longleftrightarrow> token_grants lib v authorization now tenant"
  using authenticate_cases [where lib = lib and v = v and authorization = authorization and signal = signal and now = now]
  by (auto split: prod.splits sum.splits dest: token_grants_unique)

section \<open>Properties\<close>

text \<open>
  Who is let in follows from how the binary was started. Started with a configuration file, the gateway serves
  only if the file's authentication block is complete and its secret and catalogue could be read again, and from
  then on a request is let in, as a tenant, exactly when it carries a token that grants this tenant under them.
  Started without a file, it serves on its default addresses and lets everybody in as the anonymous tenant.
  Neither way does it limit the size of a message by configuration, and when it serves it is ready.
\<close>

theorem gateway_authenticates_iff_file:
  assumes "aperture_main lib world0 extract world argv = (Serves co, evs)"
  shows "(case parse_argv argv of
      ConfigFlag (Some path) \<Rightarrow>
        (\<exists>raw ja key catalogue. extract path = Inr raw \<and> jwt_complete world0 raw ja \<and>
           cw_read (sw_config world) (ja_secret_file ja) = Inr key \<and>
           config_load_catalogue (sw_config world) (ja_catalogue_path ja) = Inr catalogue \<and>
           (\<forall>authorization signal now tenant.
              fst (authenticate lib (gc_validator (co_config co)) authorization signal now) = Inr tenant \<longleftrightarrow>
              token_grants lib \<lparr>va_issuer = ja_issuer ja, va_audience = ja_audience ja, va_key = key, va_catalogue = catalogue\<rparr>
                authorization now tenant))
    | ConfigFlag None \<Rightarrow>
        (\<forall>authorization signal now. authenticate lib (gc_validator (co_config co)) authorization signal now = (Inr ''anonymous'', [])) \<and>
        sw_bind world ''http'' \<lparr>sa_host = ''0.0.0.0'', sa_port = 4318\<rparr> = Inr (co_http_addr co)
    | _ \<Rightarrow> False) \<and>
    gc_recv_body_cap (co_config co) = None \<and> rd_phase (co_readiness co) = Ready"
proof -
  obtain path cfg where p: "parse_argv argv = ConfigFlag path" and c: "main_config world0 extract path = Inr cfg"
    and s: "spawn_with_readiness lib world cfg (wire_sink cfg) = (Inr co, evs)"
    using assms by (auto simp: aperture_main_def split: argv_outcome.splits sum.splits prod.splits)
  note sp = spawned [OF s]
  show ?thesis
  proof (cases path)
    case None
    then have "cfg = config_builder_new"
      using c main_config_default by simp
    then show ?thesis
      using sp p None by (simp add: config_builder_new_def configured_validator_def authenticate_def ANONYMOUS_TENANT_def)
  next
    case (Some path')
    with c obtain raw where raw: "extract path' = Inr raw" "into_config world0 raw = Inr cfg"
      by (auto simp: main_config_file)
    from into_config_is [OF raw(2)] obtain ja where ja: "jwt_complete world0 raw ja" "cfg = configured raw ja"
      by blast
    then have cfg: "ac_jwt_auth cfg = Some ja" "ac_max_recv_msg_size cfg = None"
      by (simp_all add: configured_def Let_def)
    then obtain v where v: "gc_validator (co_config co) = Some v" "build_validator (sw_config world) ja = Inr v"
      using sp configured_validator_built by blast
    then obtain key catalogue where k: "cw_read (sw_config world) (ja_secret_file ja) = Inr key"
        "config_load_catalogue (sw_config world) (ja_catalogue_path ja) = Inr catalogue"
      and "v = \<lparr>va_issuer = ja_issuer ja, va_audience = ja_audience ja, va_key = key, va_catalogue = catalogue\<rparr>"
      unfolding build_validator_iff by blast
    then have "\<forall>authorization signal now tenant.
        fst (authenticate lib (gc_validator (co_config co)) authorization signal now) = Inr tenant \<longleftrightarrow>
        token_grants lib \<lparr>va_issuer = ja_issuer ja, va_audience = ja_audience ja, va_key = key, va_catalogue = catalogue\<rparr>
          authorization now tenant"
      by (simp only: v(1) authenticate_iff) blast
    moreover have "gc_recv_body_cap (co_config co) = None" "rd_phase (co_readiness co) = Ready"
      using sp cfg(2) by simp_all
    ultimately show ?thesis
      unfolding p Some argv_outcome.case option.case using raw(1) ja(1) k by blast
  qed
qed

text \<open>
  The start fails closed. A listener is opened only when the configuration was accepted, the sink that it names
  has passed its probe and the validator that it asks for could be built. Otherwise the process ends without
  having opened one, and never with the code of a clean end, which only the help text has: with 2 exactly when
  the command line or the configuration is refused, which is said and nothing else done, and with 1 when the
  composition fails. It says that it is ready exactly when it serves, with both listeners bound.
\<close>

theorem gateway_start_fail_closed:
  assumes "aperture_main lib world0 extract world argv = (process, evs)"
  shows "(\<forall>name addr. ListenerBound name addr \<in> set evs \<longrightarrow>
      (\<exists>path cfg. parse_argv argv = ConfigFlag path \<and> main_config world0 extract path = Inr cfg \<and> probe_passed lib world cfg \<and>
         \<not> isl (configured_validator world cfg))) \<and>
    (case process of
       Serves co \<Rightarrow> ReadyLine \<in> set evs \<and> ListenerBound ''grpc'' (co_grpc_addr co) \<in> set evs \<and> ListenerBound ''http'' (co_http_addr co) \<in> set evs
     | Exits code \<Rightarrow> ReadyLine \<notin> set evs \<and> code \<in> {0, 1, 2} \<and> (code = 0 \<longleftrightarrow> parse_argv argv = HelpShown) \<and>
        (code = 2 \<longleftrightarrow> (\<exists>e. parse_argv argv = ArgvError e \<and> evs = [ArgvErrorLine e]) \<or>
           (\<exists>path e. parse_argv argv = ConfigFlag path \<and> main_config world0 extract path = Inl e \<and> evs = [ConfigValidationFailed e])))"
proof (cases "\<exists>path cfg. parse_argv argv = ConfigFlag path \<and> main_config world0 extract path = Inr cfg")
  case False
  then show ?thesis
    using assms by (auto simp: aperture_main_def split: argv_outcome.splits sum.splits)
next
  case True
  then obtain path cfg where c: "parse_argv argv = ConfigFlag path" "main_config world0 extract path = Inr cfg"
    by blast
  obtain res evs' where s: "spawn_with_readiness lib world cfg (wire_sink cfg) = (res, evs')"
    by fastforce
  show ?thesis
  proof (cases res)
    case (Inl e)
    with assms c s have "process = Exits 1" "evs = evs' @ [ExitedWithError e]"
      by (auto simp: aperture_main_def)
    with c spawn_fails [OF s [unfolded Inl]] show ?thesis
      by auto
  next
    case (Inr co)
    with assms c s have "process = Serves co" "evs = evs'"
      by (auto simp: aperture_main_def)
    with c spawned [OF s [unfolded Inr]] show ?thesis
      by auto
  qed
qed

section \<open>A concrete gateway\<close>

definition ax_lib :: aperture_lib where
  "ax_lib = \<lparr>al_http = \<lparr>hl_to_str = Some, hl_header_value = (\<lambda>_. True)\<rparr>, al_jwt = (\<lambda>_ _. Inl JwtInvalidToken), al_metadata_to_str = Some,
     al_str_debug = id, al_to_lowercase = id,
     al_prost = \<lparr>prost_decode_key = (\<lambda>_. Inr 1), prost_error = id, prost_logs = (\<lambda>b. if b = [10] then Inr [] else Inl ''invalid varint''),
       prost_traces = (\<lambda>_. Inl ''invalid varint''), prost_metrics = (\<lambda>_. Inl ''invalid varint'')\<rparr>,
     al_encode_logs = (\<lambda>_. [10]), al_encode_traces = (\<lambda>_. []), al_encode_metrics = (\<lambda>_. [])\<rparr>"

definition ax_world :: config_world where
  "ax_world = \<lparr>cw_metadata_error = (\<lambda>_. None), cw_read_to_string = (\<lambda>_. Inr ''tenants''), cw_read = (\<lambda>_. Inr ''key''),
     cw_catalogue_toml = (\<lambda>_. Inr [\<lparr>rt_id = ''acme'', rt_display_name = None, rt_notes = None\<rparr>]), cw_addr_display = sa_host, cw_str_debug = id\<rparr>"

definition ax_arm :: "16 word \<Rightarrow> transport_arm" where
  "ax_arm port = \<lparr>ta_bind_addr = \<lparr>sa_host = ''127.0.0.1'', sa_port = port\<rparr>, ta_max_recv_msg_size = Some 100, ta_max_concurrent_requests = Some 8\<rparr>"

definition ax_raw :: raw_config where
  "ax_raw = \<lparr>rc_transport = \<lparr>tn_grpc = ax_arm 4317, tn_http = ax_arm 4318\<rparr>,
     rc_sink = \<lparr>sk_kind = Some ''forwarding'', sk_forwarding = \<lparr>fw_endpoint = Some ''http://otel/'', fw_timeout_ms = Some 50\<rparr>\<rparr>,
     rc_security = \<lparr>sy_tls = \<lparr>tl_enabled = False, tl_cert_path = None, tl_key_path = None\<rparr>,
       sy_auth = \<lparr>au_spiffe = \<lparr>sf_enabled = False, sf_workload_api_socket = None, sf_trust_domain = None\<rparr>,
         au_jwt = Some \<lparr>js_issuer = Some ''idp'', js_audience = Some ''gw'', js_secret_file = Some ''/s'', js_catalogue_path = Some ''/c''\<rparr>\<rparr>\<rparr>,
     rc_shutdown = \<lparr>sd_drain_deadline_ms = None\<rparr>\<rparr>"

definition ax_ja :: jwt_auth_config where
  "ax_ja = \<lparr>ja_issuer = ''idp'', ja_audience = ''gw'', ja_secret_file = ''/s'', ja_catalogue_path = ''/c''\<rparr>"

definition ax_net :: downstream where
  "ax_net n req = (if dq_method req = MethodOptions then (Answered 405, 1) else (Answered 200, 1))"

definition ax_start :: startup_world where
  "ax_start = \<lparr>sw_config = ax_world, sw_downstream = ax_net, sw_bind = (\<lambda>_. Inr)\<rparr>"

definition ax_argv :: "string list" where "ax_argv = [''aperture'', ''--config'', ''/etc/aperture.toml'']"

lemma ax_complete: "jwt_complete ax_world ax_raw ja \<longleftrightarrow> ja = ax_ja"
proof -
  have "\<not> isl (config_load_catalogue ax_world ''/c'')"
    by code_simp
  then show ?thesis
    by (cases ja) (auto simp: jwt_complete_def ax_raw_def ax_ja_def, simp add: ax_world_def)
qed

theorem config_file_exact_witness:
  "into_config ax_world ax_raw = Inr (configured ax_raw ax_ja) \<and> ac_max_recv_msg_size (configured ax_raw ax_ja) = None"
proof -
  have "knobs_off ax_raw" "sk_kind (rc_sink ax_raw) = Some ''forwarding''"
    "ac_grpc_bind_addr (configured ax_raw ax_ja) \<noteq> ac_http_bind_addr (configured ax_raw ax_ja)"
    "ac_max_recv_msg_size (configured ax_raw ax_ja) = None"
    by (simp_all add: knobs_off_def configured_def ax_raw_def ax_arm_def Let_def)
  then show ?thesis
    using config_file_exact [of ax_world ax_raw "configured ax_raw ax_ja"] ax_complete by simp
qed

text \<open>Its downstream answers preflights with 405 and takes exports, so the probe is passed and the gateway serves.\<close>

lemma ax_main_config: "main_config ax_world (\<lambda>_. Inr ax_raw) (Some path) = Inr (configured ax_raw ax_ja)"
  using config_file_exact_witness by (simp add: main_config_def from_toml_path_def)

lemma ax_argv_config: "parse_argv ax_argv = ConfigFlag (Some ''/etc/aperture.toml'')"
  by (simp add: parse_argv_def ax_argv_def)

lemma ax_validator: "\<exists>v. configured_validator ax_start (configured ax_raw ax_ja) = Inr (Some v)"
proof -
  have "\<not> isl (config_load_catalogue ax_world ''/c'')"
    by code_simp
  then obtain c where "config_load_catalogue ax_world ''/c'' = Inr c"
    by (auto simp: isl_def split: sum.splits) (metis sum.exhaust)
  then show ?thesis
    by (simp add: configured_validator_def configured_def ax_start_def build_validator_def ax_ja_def Let_def) (simp add: ax_world_def)
qed

lemma ax_probe: "fst (select_wired ax_lib ax_start (configured ax_raw ax_ja) sink) \<noteq> Inl e"
  by (simp add: select_wired_def configured_def ax_raw_def Let_def probe_or_refuse_def forwarding_probe_def probe_options_def
      probe_degraded_post_def downstream_send_def classify_options_response_def ax_start_def ax_net_def http_success_def
      split: prod.splits sum.splits)

lemma ax_serves: "\<exists>co evs. aperture_main ax_lib ax_world (\<lambda>_. Inr ax_raw) ax_start ax_argv = (Serves co, evs)"
proof -
  let ?cfg = "configured ax_raw ax_ja"
  obtain v where v: "configured_validator ax_start ?cfg = Inr (Some v)"
    using ax_validator by blast
  obtain wired evs where w: "select_wired ax_lib ax_start ?cfg (wire_sink ?cfg) = (Inr wired, evs)"
    using ax_probe [of "wire_sink ?cfg"] by (metis sum.exhaust_sel prod.collapse)
  have "sw_bind ax_start name addr = Inr addr" for name addr
    by (simp add: ax_start_def)
  then show ?thesis
    by (simp add: aperture_main_def ax_argv_config ax_main_config spawn_with_readiness_def v w spawn_grpc_def spawn_http_def)
qed

theorem gateway_authenticates_iff_file_witness:
  "\<exists>co evs. aperture_main ax_lib ax_world (\<lambda>_. Inr ax_raw) ax_start ax_argv = (Serves co, evs) \<and>
    gc_recv_body_cap (co_config co) = None \<and> rd_phase (co_readiness co) = Ready"
  using ax_serves gateway_authenticates_iff_file by blast

theorem gateway_start_fail_closed_witness:
  "\<exists>co evs. aperture_main ax_lib ax_world (\<lambda>_. Inr ax_raw) ax_start ax_argv = (Serves co, evs) \<and> ReadyLine \<in> set evs"
proof -
  obtain co evs where s: "aperture_main ax_lib ax_world (\<lambda>_. Inr ax_raw) ax_start ax_argv = (Serves co, evs)"
    using ax_serves by blast
  with gateway_start_fail_closed [OF s] show ?thesis
    by auto
qed

theorem forwarding_probe_exact_witness:
  "fst (forwarding_probe ax_lib ax_net (forwarding_sink_new ''http://otel/'' 50)) = Inr ()"
  using conjunct1 [OF forwarding_probe_exact [OF prod.collapse [symmetric] refl refl refl,
      of ax_lib ax_net "forwarding_sink_new ''http://otel/'' 50"]]
  by (simp add: ax_net_def http_success_def)

definition ax_request :: ingest_request where
  "ax_request = \<lparr>ir_authorization = None, ir_content_type = Some ''application/x-protobuf'', ir_content_length = None, ir_body = [10],
     ir_body_broken = False\<rparr>"

definition ax_gateway :: "forwarding_sink gateway" where
  "ax_gateway = \<lparr>gw_limiter = limiter_new 1 CapHttpProtobuf, gw_sink = forwarding_sink_new ''http://otel/'' 50, gw_events = []\<rparr>"

theorem forwarding_no_silent_loss_witness:
  "\<exists>resp gw'. handle_ingest LogsSignal ax_lib \<lparr>gc_validator = None, gc_recv_body_cap = None\<rparr> (forwarding_accept ax_lib ax_net) 0
      ax_request ax_gateway = (resp, gw') \<and> (ar_status resp = 200 \<longrightarrow> length (fk_sent (gw_sink gw')) = 1)"
proof -
  obtain resp gw' where h: "handle_ingest LogsSignal ax_lib \<lparr>gc_validator = None, gc_recv_body_cap = None\<rparr> (forwarding_accept ax_lib ax_net) 0
      ax_request ax_gateway = (resp, gw')"
    by fastforce
  have "fk_sent (gw_sink ax_gateway) = []"
    by (simp add: ax_gateway_def forwarding_sink_new_def)
  with forwarding_no_silent_loss [OF h] h show ?thesis
    by auto
qed

end
