(* ===== verification/Sieve_Sampling.thy ===== *)
theory Sieve_Sampling
  imports Rust_Text
begin

text \<open>
  Sieve, the sampling decorator of the ingest path (\<open>crates/sieve/src\<close>): the head sampler, the
  grouping of a request's spans by trace, the decision on each trace, and the rebuilding of the
  request from the traces kept. The OTLP messages are generated from protobuf definitions: of a span
  the model has the two fields the code reads and leaves the rest, like resources and scopes,
  abstract. The hash \<open>xxh3_64\<close> and the inner sink are arguments; an \<open>f64\<close> is its 64 bits.
\<close>

section \<open>Floating-point comparison\<close>

text \<open>The bits of a number that is not NaN in the order of its values; both zeros are equal.\<close>

definition f64_key :: "u64 \<Rightarrow> int" where
  "f64_key x = (if f64_sign_negative x then - (int (unat x) - 2 ^ 63) else int (unat x))"

definition f64_lt :: "u64 \<Rightarrow> u64 \<Rightarrow> bool" where
  "f64_lt x y = (\<not> f64_is_nan x \<and> \<not> f64_is_nan y \<and> f64_key x < f64_key y)"

definition f64_le :: "u64 \<Rightarrow> u64 \<Rightarrow> bool" where
  "f64_le x y = (\<not> f64_is_nan x \<and> \<not> f64_is_nan y \<and> f64_key x \<le> f64_key y)"

definition f64_one :: u64 where
  "f64_one = word_of_nat (1023 * 2 ^ 52)"

section \<open>Messages\<close>

record 'x otlp_span =
  os_trace_id :: "u8 list"
  os_status_code :: "i32 option"
  os_rest :: 'x

record ('s, 'x) scope_spans =
  sc_scope :: 's
  sc_spans :: "'x otlp_span list"
  sc_schema_url :: string

record ('r, 's, 'x) resource_spans =
  rs_resource :: 'r
  rs_scope_spans :: "('s, 'x) scope_spans list"
  rs_schema_url :: string

type_synonym ('r, 's, 'x) trace_request = "('r, 's, 'x) resource_spans list"

section \<open>The head sampler (\<open>sampler.rs\<close>)\<close>

datatype decision = Keep | Drop

datatype sieve_config_error = RateOutOfRange u64 | RateUnparseable string | SummaryTickUnparseable string

record 'x trace_view =
  tv_trace_id :: "u8 list"
  tv_spans :: "'x otlp_span list"

record head_sampler =
  hs_rate :: u64

definition DEFAULT_NON_ERROR_TRACE_RATE :: u64 where
  "DEFAULT_NON_ERROR_TRACE_RATE = f64_of_ratio 1 10"

definition head_sampler_new :: "u64 \<Rightarrow> sieve_config_error + head_sampler" where
  "head_sampler_new rate =
     (if \<not> f64_is_finite rate \<or> \<not> (f64_le 0 rate \<and> f64_le rate f64_one) then Inl (RateOutOfRange rate)
      else Inr \<lparr>hs_rate = rate\<rparr>)"

text \<open>\<open>raw\<close> is the value of the environment variable, if it is set and is Unicode.\<close>

definition head_sampler_from_env :: "string option \<Rightarrow> sieve_config_error + head_sampler" where
  "head_sampler_from_env raw =
     (case raw of
        None \<Rightarrow> head_sampler_new DEFAULT_NON_ERROR_TRACE_RATE
      | Some v \<Rightarrow>
          (case parse_f64 (rust_trim v) of
             None \<Rightarrow> Inl (RateUnparseable v)
           | Some rate \<Rightarrow> head_sampler_new rate))"

text \<open>\<open>StatusCode::Error\<close> is 2.\<close>

definition is_error_bearing :: "'x otlp_span list \<Rightarrow> bool" where
  "is_error_bearing spans = list_ex (\<lambda>s. os_status_code s = Some 2) spans"

text \<open>
  \<open>hash as f64\<close> rounds to nearest; the division by \<open>2 ^ 64\<close> is exact and takes 64 off the exponent.
\<close>

definition mapped_to_unit_interval :: "u64 \<Rightarrow> u64" where
  "mapped_to_unit_interval hash =
     (let x = f64_of_ratio (unat hash) 1 in if x = 0 then 0 else x - word_of_nat (64 * 2 ^ 52))"

definition head_sample :: "(u8 list \<Rightarrow> u64) \<Rightarrow> head_sampler \<Rightarrow> 'x trace_view \<Rightarrow> decision" where
  "head_sample xxh3_64 sampler tr =
     (if is_error_bearing (tv_spans tr) then Keep
      else if f64_lt (mapped_to_unit_interval (xxh3_64 (tv_trace_id tr))) (hs_rate sampler) then Keep
      else Drop)"

section \<open>Grouping and filtering (\<open>decorator.rs\<close>)\<close>

text \<open>\<open><[u8; 16]>::try_from\<close>.\<close>

definition try_trace_id :: "u8 list \<Rightarrow> u8 list option" where
  "try_trace_id bytes = (if length bytes = 16 then Some bytes else None)"

definition request_spans :: "('r, 's, 'x) trace_request \<Rightarrow> 'x otlp_span list" where
  "request_spans req = concat (map (\<lambda>rs. concat (map sc_spans (rs_scope_spans rs))) req)"

definition group_span ::
  "'x otlp_span \<Rightarrow> (u8 list, 'x otlp_span list) hash_map \<Rightarrow> (u8 list, 'x otlp_span list) hash_map" where
  "group_span s groups =
     (case try_trace_id (os_trace_id s) of
        None \<Rightarrow> groups
      | Some tid \<Rightarrow> hm_insert tid (hm_get_or [] groups tid @ [s]) groups)"

definition group_spans_by_trace_id :: "('r, 's, 'x) trace_request \<Rightarrow> (u8 list, 'x otlp_span list) hash_map" where
  "group_spans_by_trace_id req = fold (\<lambda>rs. fold (\<lambda>sc. fold group_span (sc_spans sc)) (rs_scope_spans rs)) req []"

definition span_is_kept :: "u8 list list \<Rightarrow> 'x otlp_span \<Rightarrow> bool" where
  "span_is_kept kept s = (case try_trace_id (os_trace_id s) of Some tid \<Rightarrow> List.member kept tid | None \<Rightarrow> False)"

definition filter_scope_spans :: "u8 list list \<Rightarrow> ('s, 'x) scope_spans \<Rightarrow> ('s, 'x) scope_spans option" where
  "filter_scope_spans kept sc =
     (let spans = filter (span_is_kept kept) (sc_spans sc) in
      if spans = [] then None
      else Some \<lparr>sc_scope = sc_scope sc, sc_spans = spans, sc_schema_url = sc_schema_url sc\<rparr>)"

definition filter_resource_spans :: "u8 list list \<Rightarrow> ('r, 's, 'x) resource_spans \<Rightarrow> ('r, 's, 'x) resource_spans option" where
  "filter_resource_spans kept rs =
     (let scs = List.map_filter (filter_scope_spans kept) (rs_scope_spans rs) in
      if scs = [] then None
      else Some \<lparr>rs_resource = rs_resource rs, rs_scope_spans = scs, rs_schema_url = rs_schema_url rs\<rparr>)"

definition filter_request_by_trace_ids :: "u8 list list \<Rightarrow> ('r, 's, 'x) trace_request \<Rightarrow> ('r, 's, 'x) trace_request" where
  "filter_request_by_trace_ids kept req = List.map_filter (filter_resource_spans kept) req"

section \<open>The decorator\<close>

record sieve_counters =
  kept_total :: u64
  kept_error_bearing :: u64
  dropped :: u64

definition counters_new :: sieve_counters where
  "counters_new = \<lparr>kept_total = 0, kept_error_bearing = 0, dropped = 0\<rparr>"

definition record_kept_error_bearing :: "sieve_counters \<Rightarrow> sieve_counters" where
  "record_kept_error_bearing c = c\<lparr>kept_total := kept_total c + 1, kept_error_bearing := kept_error_bearing c + 1\<rparr>"

definition record_kept_sampled :: "sieve_counters \<Rightarrow> sieve_counters" where
  "record_kept_sampled c = c\<lparr>kept_total := kept_total c + 1\<rparr>"

definition record_dropped :: "sieve_counters \<Rightarrow> sieve_counters" where
  "record_dropped c = c\<lparr>dropped := dropped c + 1\<rparr>"

text \<open>The events the decorator emits for each trace.\<close>

datatype sieve_event = DebugKeptErrorBearing "u8 list" | DebugKeptSampled "u8 list" u64 | DebugDropped "u8 list" u64

record sieve_state =
  sv_counters :: sieve_counters
  sv_events :: "sieve_event list"

definition record_decision ::
  "u64 \<Rightarrow> 'x trace_view \<Rightarrow> decision \<Rightarrow> sieve_state \<Rightarrow> sieve_state" where
  "record_decision rate tr d s =
     (case d of
        Keep \<Rightarrow>
          if is_error_bearing (tv_spans tr) then
            s\<lparr>sv_counters := record_kept_error_bearing (sv_counters s),
              sv_events := sv_events s @ [DebugKeptErrorBearing (tv_trace_id tr)]\<rparr>
          else
            s\<lparr>sv_counters := record_kept_sampled (sv_counters s),
              sv_events := sv_events s @ [DebugKeptSampled (tv_trace_id tr) rate]\<rparr>
      | Drop \<Rightarrow>
          s\<lparr>sv_counters := record_dropped (sv_counters s), sv_events := sv_events s @ [DebugDropped (tv_trace_id tr) rate]\<rparr>)"

fun decide_groups ::
  "('x trace_view \<Rightarrow> decision) \<Rightarrow> u64 \<Rightarrow> (u8 list, 'x otlp_span list) hash_map \<Rightarrow> u8 list list \<Rightarrow> sieve_state \<Rightarrow>
   u8 list list \<times> sieve_state" where
  "decide_groups sample rate [] kept s = (kept, s)"
| "decide_groups sample rate ((tid, spans) # groups) kept s =
     (let tr = \<lparr>tv_trace_id = tid, tv_spans = spans\<rparr>; d = sample tr in
      decide_groups sample rate groups (if d = Keep then List.insert tid kept else kept) (record_decision rate tr d s))"

definition decide_kept_trace_ids ::
  "('x trace_view \<Rightarrow> decision) \<Rightarrow> u64 \<Rightarrow> ('r, 's, 'x) trace_request \<Rightarrow> sieve_state \<Rightarrow> u8 list list \<times> sieve_state" where
  "decide_kept_trace_ids sample rate req s = decide_groups sample rate (group_spans_by_trace_id req) [] s"

text \<open>A record for the sink: traces of a tenant, or anything else, which passes through.\<close>

datatype ('r, 's, 'x, 'o) sink_record = TracesRecord tenant_id "('r, 's, 'x) trace_request" | OtherRecord 'o

definition accept_traces ::
  "('x trace_view \<Rightarrow> decision) \<Rightarrow> u64 \<Rightarrow> (('r, 's, 'x, 'o) sink_record \<Rightarrow> 'i \<Rightarrow> ('e + unit) \<times> 'i) \<Rightarrow>
   tenant_id \<Rightarrow> ('r, 's, 'x) trace_request \<Rightarrow> sieve_state \<times> 'i \<Rightarrow> ('e + unit) \<times> sieve_state \<times> 'i" where
  "accept_traces sample rate inner tenant req = (\<lambda>(s, i).
     case decide_kept_trace_ids sample rate req s of
       (kept, s') \<Rightarrow>
         (case inner (TracesRecord tenant (filter_request_by_trace_ids kept req)) i of (res, i') \<Rightarrow> (res, s', i')))"

definition sieve_accept ::
  "('x trace_view \<Rightarrow> decision) \<Rightarrow> u64 \<Rightarrow> (('r, 's, 'x, 'o) sink_record \<Rightarrow> 'i \<Rightarrow> ('e + unit) \<times> 'i) \<Rightarrow>
   ('r, 's, 'x, 'o) sink_record \<Rightarrow> sieve_state \<times> 'i \<Rightarrow> ('e + unit) \<times> sieve_state \<times> 'i" where
  "sieve_accept sample rate inner rec = (\<lambda>(s, i).
     case rec of
       TracesRecord tenant req \<Rightarrow> accept_traces sample rate inner tenant req (s, i)
     | OtherRecord x \<Rightarrow> (case inner (OtherRecord x) i of (res, i') \<Rightarrow> (res, s, i')))"

end
