(* ===== verification/Sieve_Theorems.thy ===== *)
theory Sieve_Theorems
  imports Sieve_Sampling
begin

text \<open>
  What Sieve forwards: exactly the spans of the traces its sampler keeps, a trace judged as a whole,
  each span with its resource and scope; what its counters count; and where the rate of the head
  sampler draws the line.
\<close>

section \<open>Grouping\<close>

lemma fold_concat_map: "fold (\<lambda>x. fold f (g x)) xs s = fold f (concat (map g xs)) s"
  by (induction xs arbitrary: s) simp_all

lemma group_spans_fold: "group_spans_by_trace_id req = fold group_span (request_spans req) []"
proof -
  have "concat (map sc_spans (concat (map rs_scope_spans req))) = request_spans req"
    unfolding request_spans_def by (induction req) simp_all
  then show ?thesis
    by (simp add: group_spans_by_trace_id_def fold_concat_map)
qed

lemma trace_group_get:
  "hm_get (fold group_span spans groups) tid =
     (let new = filter (\<lambda>s. os_trace_id s = tid) spans in
      if length tid = 16 \<and> new \<noteq> [] then Some (hm_get_or [] groups tid @ new) else hm_get groups tid)"
  by (induction spans arbitrary: groups)
    (auto simp: group_span_def try_trace_id_def hm_get_or_def Let_def split: option.splits)

lemma hm_wf_group: "hm_wf groups \<Longrightarrow> hm_wf (fold group_span spans groups)"
  by (induction spans arbitrary: groups) (auto simp: group_span_def split: option.split)

text \<open>The traces of a request, and a trace as the sampler sees it.\<close>

definition request_traces :: "('r, 's, 'x) trace_request \<Rightarrow> u8 list set" where
  "request_traces req = {tid \<in> os_trace_id ` set (request_spans req). length tid = 16}"

definition whole_trace :: "('r, 's, 'x) trace_request \<Rightarrow> u8 list \<Rightarrow> 'x trace_view" where
  "whole_trace req tid = \<lparr>tv_trace_id = tid, tv_spans = filter (\<lambda>s. os_trace_id s = tid) (request_spans req)\<rparr>"

lemma groups_of_request:
  "(tid, spans) \<in> set (group_spans_by_trace_id req) \<longleftrightarrow>
     tid \<in> request_traces req \<and> spans = tv_spans (whole_trace req tid)"
proof -
  have "(tid, spans) \<in> set (group_spans_by_trace_id req) \<longleftrightarrow> hm_get (group_spans_by_trace_id req) tid = Some spans"
    by (rule hm_wf_get) (simp add: group_spans_fold hm_wf_group)
  then show ?thesis
    by (auto simp: group_spans_fold trace_group_get request_traces_def whole_trace_def Let_def filter_empty_conv image_iff)
qed

lemma distinct_groups: "distinct (map fst (group_spans_by_trace_id req))"
  using hm_wf_group [of "[]" "request_spans req"] by (simp add: group_spans_fold hm_wf_def)

lemma keys_groups: "fst ` set (group_spans_by_trace_id req) = request_traces req"
proof (rule set_eqI)
  fix tid
  have "tid \<in> fst ` set (group_spans_by_trace_id req) \<longleftrightarrow> (\<exists>spans. (tid, spans) \<in> set (group_spans_by_trace_id req))"
    by (force simp: image_iff)
  then show "tid \<in> fst ` set (group_spans_by_trace_id req) \<longleftrightarrow> tid \<in> request_traces req"
    unfolding groups_of_request by simp
qed

section \<open>Deciding\<close>

lemma decide_groups_kept:
  "set (fst (decide_groups sample rate groups kept s)) =
     set kept \<union> {tid. \<exists>spans. (tid, spans) \<in> set groups \<and> sample \<lparr>tv_trace_id = tid, tv_spans = spans\<rparr> = Keep}"
  by (induction sample rate groups kept s rule: decide_groups.induct) (auto simp: Let_def)

lemma decide_kept:
  "tid \<in> set (fst (decide_kept_trace_ids sample rate req s)) \<longleftrightarrow>
     tid \<in> request_traces req \<and> sample (whole_trace req tid) = Keep"
  by (auto simp: decide_kept_trace_ids_def decide_groups_kept groups_of_request whole_trace_def)

section \<open>Rebuilding\<close>

text \<open>The spans of a request, each with its resource and scope.\<close>

definition request_rows ::
  "('r, 's, 'x) trace_request \<Rightarrow> ('r \<times> string \<times> 's \<times> string \<times> 'x otlp_span) list" where
  "request_rows req =
     concat (map (\<lambda>rs. concat (map (\<lambda>sc. map (\<lambda>s. (rs_resource rs, rs_schema_url rs, sc_scope sc, sc_schema_url sc, s)) (sc_spans sc))
       (rs_scope_spans rs))) req)"

definition row_span :: "'r \<times> string \<times> 's \<times> string \<times> 'x otlp_span \<Rightarrow> 'x otlp_span" where
  "row_span row = snd (snd (snd (snd row)))"

lemma map_row_span: "map row_span (request_rows req) = request_spans req"
  by (simp add: request_rows_def request_spans_def row_span_def map_concat comp_def)

lemma concat_map_filter: "concat (map f (List.map_filter g xs)) = concat (map (\<lambda>x. case g x of None \<Rightarrow> [] | Some y \<Rightarrow> f y) xs)"
  by (induction xs) (auto simp: List.map_filter_def split: option.splits)

lemma map_filter_Nil_iff: "List.map_filter g xs = [] \<longleftrightarrow> (\<forall>x\<in>set xs. g x = None)"
  by (induction xs) (auto simp: List.map_filter_def split: option.splits)

lemma filter_request_rows:
  fixes req :: "('r, 's, 'x) trace_request"
  shows "request_rows (filter_request_by_trace_ids kept req) = filter (\<lambda>row. span_is_kept kept (row_span row)) (request_rows req)"
proof -
  have scope: "(case filter_scope_spans kept sc of None \<Rightarrow> [] | Some sc' \<Rightarrow> map (\<lambda>s. (r, u, sc_scope sc', sc_schema_url sc', s)) (sc_spans sc')) =
      filter (\<lambda>row. span_is_kept kept (row_span row)) (map (\<lambda>s. (r, u, sc_scope sc, sc_schema_url sc, s)) (sc_spans sc))"
    for sc :: "('s, 'x) scope_spans" and r :: 'r and u
    by (auto simp: filter_scope_spans_def filter_map comp_def row_span_def Let_def filter_empty_conv)
  have "(case filter_resource_spans kept rs of None \<Rightarrow> []
      | Some rs' \<Rightarrow> concat (map (\<lambda>sc. map (\<lambda>s. (rs_resource rs', rs_schema_url rs', sc_scope sc, sc_schema_url sc, s)) (sc_spans sc))
          (rs_scope_spans rs'))) =
      concat (map (\<lambda>sc. case filter_scope_spans kept sc of None \<Rightarrow> []
        | Some sc' \<Rightarrow> map (\<lambda>s. (rs_resource rs, rs_schema_url rs, sc_scope sc', sc_schema_url sc', s)) (sc_spans sc')) (rs_scope_spans rs))"
    for rs :: "('r, 's, 'x) resource_spans"
    by (auto simp: filter_resource_spans_def concat_map_filter Let_def map_filter_Nil_iff)
  then show ?thesis
    unfolding request_rows_def filter_request_by_trace_ids_def concat_map_filter
    by (simp add: filter_concat comp_def scope)
qed

lemma accept_forwards:
  fixes req :: "('r, 's, 'x) trace_request"
  assumes "sieve_accept sample rate inner (TracesRecord t req) (s, i) = (res, s', i')"
  shows "\<exists>fwd. inner (TracesRecord t fwd) i = (res, i') \<and>
    request_rows fwd = filter (\<lambda>row. os_trace_id (row_span row) \<in> request_traces req \<and>
      sample (whole_trace req (os_trace_id (row_span row))) = Keep) (request_rows req)"
proof -
  obtain kept where k: "decide_kept_trace_ids sample rate req s = (kept, s')"
    and i: "inner (TracesRecord t (filter_request_by_trace_ids kept req)) i = (res, i')"
    using assms by (auto simp: sieve_accept_def accept_traces_def split: prod.splits)
  have "span_is_kept kept x \<longleftrightarrow> os_trace_id x \<in> request_traces req \<and> sample (whole_trace req (os_trace_id x)) = Keep"
    for x :: "'x otlp_span"
    using decide_kept [of "os_trace_id x" sample rate req s]
    by (auto simp: k span_is_kept_def try_trace_id_def request_traces_def)
  then have "request_rows (filter_request_by_trace_ids kept req) =
      filter (\<lambda>row. os_trace_id (row_span row) \<in> request_traces req \<and>
        sample (whole_trace req (os_trace_id (row_span row))) = Keep) (request_rows req)"
    by (simp add: filter_request_rows)
  with i show ?thesis
    by blast
qed

section \<open>Counting\<close>

lemma decide_groups_counters:
  "kept_total (sv_counters (snd (decide_groups sample rate groups kept s))) = kept_total (sv_counters s) +
     of_nat (length (filter (\<lambda>(tid, spans). sample \<lparr>tv_trace_id = tid, tv_spans = spans\<rparr> = Keep) groups))"
  "kept_error_bearing (sv_counters (snd (decide_groups sample rate groups kept s))) = kept_error_bearing (sv_counters s) +
     of_nat (length (filter (\<lambda>(tid, spans). sample \<lparr>tv_trace_id = tid, tv_spans = spans\<rparr> = Keep \<and> is_error_bearing spans) groups))"
  "dropped (sv_counters (snd (decide_groups sample rate groups kept s))) = dropped (sv_counters s) +
     of_nat (length (filter (\<lambda>(tid, spans). sample \<lparr>tv_trace_id = tid, tv_spans = spans\<rparr> = Drop) groups))"
proof (induction sample rate groups kept s rule: decide_groups.induct)
  case (2 sample rate tid spans groups kept s)
  case 1
  show ?case
    using 2(1) [OF refl refl]
    by (cases "sample \<lparr>tv_trace_id = tid, tv_spans = spans\<rparr>")
      (simp_all add: Let_def record_decision_def record_kept_error_bearing_def record_kept_sampled_def record_dropped_def algebra_simps)
  case 2
  show ?case
    using "2.IH"(2) [OF refl refl]
    by (cases "sample \<lparr>tv_trace_id = tid, tv_spans = spans\<rparr>")
      (simp_all add: Let_def record_decision_def record_kept_error_bearing_def record_kept_sampled_def record_dropped_def algebra_simps)
  case 3
  show ?case
    using "2.IH"(3) [OF refl refl]
    by (cases "sample \<lparr>tv_trace_id = tid, tv_spans = spans\<rparr>")
      (simp_all add: Let_def record_decision_def record_kept_error_bearing_def record_kept_sampled_def record_dropped_def algebra_simps)
qed simp_all

lemma groups_card:
  "length (filter (\<lambda>(tid, spans). P \<lparr>tv_trace_id = tid, tv_spans = spans\<rparr>) (group_spans_by_trace_id req)) =
     card {tid \<in> request_traces req. P (whole_trace req tid)}"
proof -
  let ?g = "filter (\<lambda>(tid, spans). P \<lparr>tv_trace_id = tid, tv_spans = spans\<rparr>) (group_spans_by_trace_id req)"
  have "distinct (map fst ?g)"
    using distinct_groups [of req] by (simp add: distinct_map_filter)
  then have "length ?g = card (fst ` set ?g)"
    using distinct_card [of "map fst ?g"] by simp
  also have "fst ` set ?g = {tid. \<exists>spans. (tid, spans) \<in> set (group_spans_by_trace_id req) \<and> P \<lparr>tv_trace_id = tid, tv_spans = spans\<rparr>}"
    by (force simp: image_iff)
  also have "\<dots> = {tid \<in> request_traces req. P (whole_trace req tid)}"
    by (auto simp: groups_of_request whole_trace_def)
  finally show ?thesis .
qed

section \<open>The line the rate draws\<close>

lemma binary_exponent:
  fixes n :: nat
  assumes "0 < n"
  obtains e where "2 ^ e \<le> n" and "n < 2 ^ Suc e"
proof -
  have "2 ^ (floorlog 2 n - 1) \<le> n" "n < 2 ^ floorlog 2 n" and pos: "0 < floorlog 2 n"
    using floorlog_bounds [of n 2] assms by (auto simp: floorlog_def)
  then show thesis
    using that [of "floorlog 2 n - 1"] by simp
qed

lemma mapped_bits:
  assumes "2 ^ e \<le> unat h" and "unat h < 2 ^ Suc e"
  shows "unat (mapped_to_unit_interval h) = (e + 958) * 2 ^ 52 + int_significand e (unat h)"
proof -
  have "(2 :: nat) ^ e < 2 ^ 64"
    using assms(1) unsigned_less [of h, where ?'a = nat] by (simp add: order_le_less_trans)
  from power_less_imp_less_exp [OF _ this] have e: "e \<le> 63"
    by simp
  note m = int_significand_range [OF assms]
  let ?b = "(e + 1022) * 2 ^ 52 + int_significand e (unat h)"
  have u: "unat (word_of_nat ?b :: u64) = ?b"
    unfolding unat_of_nat using m(2) e by (intro mod_less) simp
  have "(64 * 2 ^ 52 :: nat) \<le> ?b"
    by simp
  then have "unat (word_of_nat ?b - word_of_nat (64 * 2 ^ 52) :: u64) = ?b - 64 * 2 ^ 52"
    using u by (subst unat_sub) (simp_all add: word_le_nat_alt)
  moreover have "(word_of_nat ?b :: u64) \<noteq> 0"
    using u by (metis \<open>64 * 2 ^ 52 \<le> ?b\<close> unat_0 le_zero_eq mult_is_0 power_not_zero zero_neq_numeral)
  ultimately show ?thesis
    unfolding mapped_to_unit_interval_def Let_def int_as_f64 [OF assms e] by (simp add: algebra_simps)
qed

lemma mapped_zero: "mapped_to_unit_interval 0 = 0"
  by (simp add: mapped_to_unit_interval_def f64_of_ratio_def)

lemma small_bits:
  assumes "unat x \<le> 1023 * 2 ^ 52"
  shows "\<not> f64_is_nan x" and "f64_key x = int (unat x)"
proof -
  have "unat x div 2 ^ 52 \<le> 1023"
    using assms by (simp add: div_le_mono [of _ "1023 * 2 ^ 52" "2 ^ 52", simplified])
  then have "f64_exponent x \<noteq> 2047"
    by (simp add: f64_exponent_def)
  then show "\<not> f64_is_nan x"
    by (simp add: f64_is_nan_def)
  show "f64_key x = int (unat x)"
    using assms by (simp add: f64_key_def f64_sign_negative_def)
qed

lemma mapped_le_one: "unat (mapped_to_unit_interval h) \<le> 1023 * 2 ^ 52"
proof (cases "h = 0")
  case False
  then have "0 < unat h"
    by (simp add: unat_gt_0)
  then obtain e where e: "2 ^ e \<le> unat h" "unat h < 2 ^ Suc e"
    by (rule binary_exponent)
  have "(2 :: nat) ^ e < 2 ^ 64"
    using e(1) unsigned_less [of h, where ?'a = nat] by (simp add: order_le_less_trans)
  from power_less_imp_less_exp [OF _ this] have "e \<le> 63"
    by simp
  with int_significand_range(2) [OF e] show ?thesis
    unfolding mapped_bits [OF e] by simp
qed (simp add: mapped_zero)

lemma unat_f64_one: "unat f64_one = 1023 * 2 ^ 52"
  unfolding f64_one_def unat_of_nat by (rule mod_less) simp

lemma round_top:
  assumes "n < 2 ^ 64"
  shows "round_half_even n 2048 < 2 ^ 53 \<longleftrightarrow> n < 2 ^ 64 - 1024"
proof -
  have n: "n = n div 2048 * 2048 + n mod 2048" "n mod 2048 < 2048"
    by simp_all
  consider "n div 2048 < 9007199254740991" | "n div 2048 = 9007199254740991"
    using assms by fastforce
  then show ?thesis
  proof cases
    case 1
    then have "n < 9007199254740991 * 2048"
      by (simp add: div_less_iff_less_mult)
    with 1 show ?thesis
      by (simp add: round_half_even_def Let_def)
  next
    case 2
    then show ?thesis
      using n by (auto simp: round_half_even_def Let_def)
  qed
qed

lemma mapped_lt_one: "f64_lt (mapped_to_unit_interval h) f64_one \<longleftrightarrow> unat h < 2 ^ 64 - 1024"
proof -
  have l: "f64_lt (mapped_to_unit_interval h) f64_one \<longleftrightarrow> unat (mapped_to_unit_interval h) < 1023 * 2 ^ 52"
    unfolding f64_lt_def small_bits(2) [OF mapped_le_one] small_bits(2) [OF eq_refl [OF unat_f64_one]] of_nat_less_iff unat_f64_one
    using small_bits(1) [OF mapped_le_one [of h]] small_bits(1) [OF eq_refl [OF unat_f64_one]] by simp
  have h64: "unat h < 2 ^ 64"
    using unsigned_less [of h, where ?'a = nat] by simp
  show ?thesis
  proof (cases "unat h < 2 ^ 63")
    case True
    show ?thesis
    proof (cases "h = 0")
      case False
      then have "0 < unat h"
        by (simp add: unat_gt_0)
      then obtain e where e: "2 ^ e \<le> unat h" "unat h < 2 ^ Suc e"
        by (rule binary_exponent)
      have "(2 :: nat) ^ e < 2 ^ 63"
        using e(1) True by (rule le_less_trans)
      from power_less_imp_less_exp [OF _ this] have "e \<le> 62"
        by simp
      with int_significand_range(2) [OF e] True show ?thesis
        unfolding l mapped_bits [OF e] by simp
    next
      case True
      with l show ?thesis
        by (simp add: mapped_zero)
    qed
  next
    case False
    then have e: "2 ^ 63 \<le> unat h" "unat h < 2 ^ Suc 63"
      using h64 by simp_all
    have "int_significand 63 (unat h) = round_half_even (unat h) 2048"
      by (simp add: int_significand_def)
    with round_top [OF h64] show ?thesis
      unfolding l mapped_bits [OF e] by simp
  qed
qed

section \<open>Properties\<close>

text \<open>
  C28. Sieve forwards whole traces: whatever the sampler, the request handed to the inner sink has the
  tenant it came with and exactly the spans whose trace, seen with all its spans of the request, the
  sampler keeps; each with its resource and scope, in the order they came in. Spans whose trace
  identifier is not 16 bytes long are dropped. The inner sink's answer is passed on.
\<close>

theorem sieve_forwards_kept_traces:
  assumes "sieve_accept sample rate inner (TracesRecord t req) (s, i) = (res, s', i')"
  shows "\<exists>fwd. inner (TracesRecord t fwd) i = (res, i') \<and>
    request_rows fwd = filter (\<lambda>row. length (os_trace_id (row_span row)) = 16 \<and>
      sample (whole_trace req (os_trace_id (row_span row))) = Keep) (request_rows req)"
proof -
  obtain fwd where f: "inner (TracesRecord t fwd) i = (res, i')"
    "request_rows fwd = filter (\<lambda>row. os_trace_id (row_span row) \<in> request_traces req \<and>
      sample (whole_trace req (os_trace_id (row_span row))) = Keep) (request_rows req)"
    using accept_forwards [OF assms] by blast
  have "os_trace_id (row_span row) \<in> request_traces req \<longleftrightarrow> length (os_trace_id (row_span row)) = 16"
    if "row \<in> set (request_rows req)" for row
    using that by (auto simp: request_traces_def simp flip: map_row_span)
  then have "request_rows fwd = filter (\<lambda>row. length (os_trace_id (row_span row)) = 16 \<and>
      sample (whole_trace req (os_trace_id (row_span row))) = Keep) (request_rows req)"
    unfolding f(2) by (intro filter_cong) auto
  with f(1) show ?thesis
    by blast
qed

text \<open>
  No error is sampled away: at any rate, every span of a trace with a 16-byte identifier and an
  error span in the request is forwarded, with its resource and scope and in order.
\<close>

theorem sieve_error_traces_forwarded:
  assumes "sieve_accept (head_sample xxh3_64 hs) rate inner (TracesRecord t req) (s, i) = (res, s', i')"
    and "length tid = 16" and "x \<in> set (request_spans req)" and "os_trace_id x = tid" and "os_status_code x = Some 2"
  shows "\<exists>fwd. inner (TracesRecord t fwd) i = (res, i') \<and>
    filter (\<lambda>row. os_trace_id (row_span row) = tid) (request_rows fwd) =
    filter (\<lambda>row. os_trace_id (row_span row) = tid) (request_rows req)"
proof -
  have "is_error_bearing (tv_spans (whole_trace req tid))"
    using assms(3-5) by (auto simp: is_error_bearing_def whole_trace_def list_ex_iff)
  then have "head_sample xxh3_64 hs (whole_trace req tid) = Keep"
    by (simp add: head_sample_def)
  moreover have "tid \<in> request_traces req"
    using assms(2-4) by (auto simp: request_traces_def)
  moreover obtain fwd where "inner (TracesRecord t fwd) i = (res, i')"
    "request_rows fwd = filter (\<lambda>row. os_trace_id (row_span row) \<in> request_traces req \<and>
      head_sample xxh3_64 hs (whole_trace req (os_trace_id (row_span row))) = Keep) (request_rows req)"
    using accept_forwards [OF assms(1)] by blast
  ultimately show ?thesis
    by (intro exI [of _ fwd]) (auto intro!: filter_cong)
qed

text \<open>
  The counters count traces: accepting a request adds to each the number of distinct 16-byte
  trace identifiers with that outcome, modulo \<open>2 ^ 64\<close>, so that together they count every trace once.
\<close>

theorem sieve_counts_traces:
  assumes "sieve_accept sample rate inner (TracesRecord t req) (s, i) = (res, s', i')"
  shows "kept_total (sv_counters s') =
      kept_total (sv_counters s) + of_nat (card {tid \<in> request_traces req. sample (whole_trace req tid) = Keep}) \<and>
    kept_error_bearing (sv_counters s') = kept_error_bearing (sv_counters s) +
      of_nat (card {tid \<in> request_traces req. sample (whole_trace req tid) = Keep \<and> is_error_bearing (tv_spans (whole_trace req tid))}) \<and>
    dropped (sv_counters s') =
      dropped (sv_counters s) + of_nat (card {tid \<in> request_traces req. sample (whole_trace req tid) = Drop})"
proof -
  have s': "s' = snd (decide_groups sample rate (group_spans_by_trace_id req) [] s)"
    using assms by (auto simp: sieve_accept_def accept_traces_def decide_kept_trace_ids_def split: prod.splits)
  show ?thesis
    unfolding s' decide_groups_counters
    using groups_card [of "\<lambda>tr. sample tr = Keep" req] groups_card [of "\<lambda>tr. sample tr = Drop" req]
      groups_card [of "\<lambda>tr. sample tr = Keep \<and> is_error_bearing (tv_spans tr)" req]
    by simp
qed

text \<open>
  Sampling is consistent: a trace without errors that is kept in one request is kept in every
  request, on every instance whose rate is at least as high, whichever of its spans arrive there.
\<close>

theorem sieve_sampling_consistent:
  assumes "head_sample xxh3_64 hs tr = Keep" and "\<not> is_error_bearing (tv_spans tr)"
    and "tv_trace_id tr' = tv_trace_id tr" and "f64_le (hs_rate hs) (hs_rate hs')"
  shows "head_sample xxh3_64 hs' tr' = Keep"
  using assms by (auto simp: head_sample_def f64_lt_def f64_le_def split: if_splits)

text \<open>
  The two ends of the rate: at zero every trace without errors is dropped; at one, a rate the
  sampler accepts, exactly the 1024 highest hashes are dropped, because they round up to one.
\<close>

theorem sieve_rate_ends:
  assumes "\<not> is_error_bearing (tv_spans tr)"
  shows "head_sampler_new f64_one = Inr \<lparr>hs_rate = f64_one\<rparr> \<and> head_sampler_new 0 = Inr \<lparr>hs_rate = 0\<rparr> \<and>
    head_sample xxh3_64 \<lparr>hs_rate = 0\<rparr> tr = Drop \<and>
    (head_sample xxh3_64 \<lparr>hs_rate = f64_one\<rparr> tr = Drop \<longleftrightarrow> 2 ^ 64 - 1024 \<le> unat (xxh3_64 (tv_trace_id tr)))"
proof -
  have "f64_exponent f64_one = 1023"
    by (simp add: f64_exponent_def unat_f64_one)
  then have "f64_is_finite f64_one" "f64_is_finite 0"
    by (simp_all add: f64_is_finite_def) (simp add: f64_exponent_def)
  moreover have "f64_le 0 f64_one" "f64_le f64_one f64_one" "f64_le 0 0"
    using small_bits [of f64_one] small_bits [of 0] by (simp_all add: f64_le_def unat_f64_one)
  moreover have "\<not> f64_lt (mapped_to_unit_interval h) 0" for h
    using small_bits [OF mapped_le_one [of h]] small_bits [of 0] by (simp add: f64_lt_def)
  ultimately show ?thesis
    using assms by (simp add: head_sampler_new_def head_sample_def mapped_lt_one not_less)
qed

end
