(* ===== verification/Sieve_Summary.thy ===== *)
theory Sieve_Summary
  imports Sieve_Theorems "HOL-Library.Multiset"
begin

text \<open>
  Sieve's periodic summary (\<open>aggregator.rs\<close>, \<open>observability.rs\<close>): the configuration of the tick, the
  timer task with its cancellation, and the three counters it snapshots while ingest threads record
  decisions. The counters are separate relaxed atomics, so the atomic accesses of a recording, like
  those of a snapshot, take effect in any order and interleave in any way with the others.
\<close>

section \<open>Configuration and rendering\<close>

definition DEFAULT_SUMMARY_TICK_MS :: nat where
  "DEFAULT_SUMMARY_TICK_MS = 60000"

definition parse_summary_tick_ms_from_env :: "string option \<Rightarrow> sieve_config_error + nat" where
  "parse_summary_tick_ms_from_env raw =
     (case raw of
        None \<Rightarrow> Inr DEFAULT_SUMMARY_TICK_MS
      | Some v \<Rightarrow>
          (case parse_u64 (rust_trim v) of
             None \<Rightarrow> Inl (SummaryTickUnparseable v)
           | Some parsed \<Rightarrow> if parsed = 0 then Inl (SummaryTickUnparseable v) else Inr parsed))"

text \<open>The interval \<open>SamplingSink::new\<close> gives the timer.\<close>

definition sampling_sink_interval :: "string option \<Rightarrow> nat" where
  "sampling_sink_interval raw =
     (case parse_summary_tick_ms_from_env raw of Inr ms \<Rightarrow> ms | Inl _ \<Rightarrow> DEFAULT_SUMMARY_TICK_MS)"

record sieve_summary =
  sm_kept :: u64
  sm_kept_error_bearing :: u64
  sm_kept_sampled :: u64
  sm_dropped :: u64

definition emit_summary :: "u64 \<Rightarrow> u64 \<Rightarrow> u64 \<Rightarrow> sieve_summary" where
  "emit_summary kept kept_err drops =
     \<lparr>sm_kept = kept, sm_kept_error_bearing = kept_err, sm_kept_sampled = saturating_sub kept kept_err, sm_dropped = drops\<rparr>"

definition snapshot_and_reset :: "sieve_counters \<Rightarrow> (u64 \<times> u64 \<times> u64) \<times> sieve_counters" where
  "snapshot_and_reset c = ((kept_total c, kept_error_bearing c, dropped c), counters_new)"

section \<open>Interleavings\<close>

datatype counter = KeptTotal | KeptErrorBearing | DroppedTraces

primrec read_counter :: "counter \<Rightarrow> sieve_counters \<Rightarrow> u64" where
  "read_counter KeptTotal c = kept_total c"
| "read_counter KeptErrorBearing c = kept_error_bearing c"
| "read_counter DroppedTraces c = dropped c"

primrec write_counter :: "counter \<Rightarrow> u64 \<Rightarrow> sieve_counters \<Rightarrow> sieve_counters" where
  "write_counter KeptTotal v c = c\<lparr>kept_total := v\<rparr>"
| "write_counter KeptErrorBearing v c = c\<lparr>kept_error_bearing := v\<rparr>"
| "write_counter DroppedTraces v c = c\<lparr>dropped := v\<rparr>"

text \<open>
  The state of the summary task: the increments not yet done, what the snapshot in progress has
  swapped out so far, whether one is in progress, and the summaries emitted.
\<close>

record sieve_run =
  sr_counters :: sieve_counters
  sr_pending :: "counter multiset"
  sr_swapped :: "counter \<rightharpoonup> u64"
  sr_ticking :: bool
  sr_cancelled :: bool
  sr_exited :: bool
  sr_emitted :: "sieve_summary list"

definition sieve_run_init :: "counter multiset \<Rightarrow> sieve_run" where
  "sieve_run_init work =
     \<lparr>sr_counters = counters_new, sr_pending = work, sr_swapped = Map.empty, sr_ticking = False, sr_cancelled = False,
      sr_exited = False, sr_emitted = []\<rparr>"

text \<open>
  One atomic step: an increment of a recording thread; the start of a tick, one of its three swaps, and
  the emission once it has all three; the signal of the drop, and the exit of the loop on it.
\<close>

inductive sieve_step :: "sieve_run \<Rightarrow> sieve_run \<Rightarrow> bool" where
  fetch_add: "k \<in># sr_pending s \<Longrightarrow>
    sieve_step s (s\<lparr>sr_counters := write_counter k (read_counter k (sr_counters s) + 1) (sr_counters s),
      sr_pending := sr_pending s - {#k#}\<rparr>)"
| tick: "\<not> sr_ticking s \<Longrightarrow> \<not> sr_exited s \<Longrightarrow> sieve_step s (s\<lparr>sr_ticking := True\<rparr>)"
| swap: "sr_ticking s \<Longrightarrow> sr_swapped s k = None \<Longrightarrow>
    sieve_step s (s\<lparr>sr_swapped := (sr_swapped s)(k \<mapsto> read_counter k (sr_counters s)),
      sr_counters := write_counter k 0 (sr_counters s)\<rparr>)"
| emit: "sr_ticking s \<Longrightarrow> sr_swapped s KeptTotal = Some kept \<Longrightarrow> sr_swapped s KeptErrorBearing = Some kept_err \<Longrightarrow>
    sr_swapped s DroppedTraces = Some drops \<Longrightarrow>
    sieve_step s (s\<lparr>sr_emitted := sr_emitted s @ [emit_summary kept kept_err drops], sr_swapped := Map.empty,
      sr_ticking := False\<rparr>)"
| cancel: "sieve_step s (s\<lparr>sr_cancelled := True\<rparr>)"
| exit: "sr_cancelled s \<Longrightarrow> \<not> sr_ticking s \<Longrightarrow> sieve_step s (s\<lparr>sr_exited := True\<rparr>)"

inductive sieve_reaches :: "sieve_run \<Rightarrow> sieve_run \<Rightarrow> bool" where
  start: "sieve_reaches s s"
| step: "sieve_reaches s s' \<Longrightarrow> sieve_step s' s'' \<Longrightarrow> sieve_reaches s s''"

primrec summary_of :: "counter \<Rightarrow> sieve_summary \<Rightarrow> u64" where
  "summary_of KeptTotal m = sm_kept m"
| "summary_of KeptErrorBearing m = sm_kept_error_bearing m"
| "summary_of DroppedTraces m = sm_dropped m"

text \<open>Where the increments of a counter are: in the counter, in the snapshot in progress, or in a summary.\<close>

definition accounted :: "counter \<Rightarrow> sieve_run \<Rightarrow> u64" where
  "accounted k s = read_counter k (sr_counters s) + (case sr_swapped s k of None \<Rightarrow> 0 | Some v \<Rightarrow> v) +
     sum_list (map (summary_of k) (sr_emitted s))"

lemma read_write: "read_counter k (write_counter k' v c) = (if k = k' then v else read_counter k c)"
  by (cases k; cases k'; simp)

lemma accounted_step:
  assumes "sieve_step s s'"
  shows "accounted k s' + of_nat (count (sr_pending s') k) = accounted k s + of_nat (count (sr_pending s) k)"
  using assms
proof cases
  case (fetch_add k')
  then have "count (sr_pending s) k' = Suc (count (sr_pending s - {#k'#}) k')"
    by (metis count_add_mset insert_DiffM)
  with fetch_add show ?thesis
    by (cases "k = k'") (auto simp: accounted_def read_write split: option.split)
next
  case (swap k')
  then show ?thesis
    by (cases "k = k'") (auto simp: accounted_def read_write split: option.split)
next
  case (emit kept kept_err drops)
  then show ?thesis
    by (cases k) (simp_all add: accounted_def emit_summary_def)
qed (simp_all add: accounted_def)

lemma accounted_reaches:
  "sieve_reaches s s' \<Longrightarrow> accounted k s' + of_nat (count (sr_pending s') k) = accounted k s + of_nat (count (sr_pending s) k)"
  by (induction rule: sieve_reaches.induct) (simp_all add: accounted_step)

text \<open>The loop ends between ticks and stays ended.\<close>

lemma exited_not_ticking: "sieve_reaches (sieve_run_init work) s \<Longrightarrow> sr_exited s \<longrightarrow> \<not> sr_ticking s"
proof (induction "sieve_run_init work" s rule: sieve_reaches.induct)
  case (step s' s'')
  from step(3,2) show ?case
    by cases auto
qed (simp add: sieve_run_init_def)

lemma exited_stays:
  "sieve_reaches s s' \<Longrightarrow> sr_exited s \<Longrightarrow> \<not> sr_ticking s \<Longrightarrow>
   sr_exited s' \<and> \<not> sr_ticking s' \<and> sr_emitted s' = sr_emitted s"
proof (induction rule: sieve_reaches.induct)
  case (step s s' s'')
  from step(2) step(3) [OF step(4,5)] show ?case
    by cases auto
qed simp

section \<open>Properties\<close>

text \<open>
  Summaries lose no decision and count none twice: however the increments of the ingest threads
  interleave with ticks, swaps and cancellation, for each counter what the summaries emitted so far
  say, what the snapshot in progress holds and what is still in the counter add up to the increments
  done, modulo \<open>2 ^ 64\<close>; and once cancellation has ended the loop no further summary appears.
\<close>

theorem sieve_summaries_conserve:
  assumes "sieve_reaches (sieve_run_init work) s"
  shows "accounted k s + of_nat (count (sr_pending s) k) = of_nat (count work k) \<and>
    (\<forall>s'. sr_exited s \<and> sieve_reaches s s' \<longrightarrow> sr_emitted s' = sr_emitted s)"
proof -
  have "accounted k (sieve_run_init work) = 0"
    by (cases k) (simp_all add: accounted_def sieve_run_init_def counters_new_def)
  with accounted_reaches [OF assms, of k]
  have "accounted k s + of_nat (count (sr_pending s) k) = of_nat (count work k)"
    by (simp add: sieve_run_init_def)
  moreover have "sr_emitted s' = sr_emitted s" if "sr_exited s" "sieve_reaches s s'" for s'
    using exited_stays [OF that(2,1)] exited_not_ticking [OF assms] that(1) by blast
  ultimately show ?thesis
    by blast
qed

section \<open>A race\<close>

text \<open>
  One kept trace with an error, and a tick between its two increments: the summary has more kept traces
  with errors than kept traces, and the difference it reports saturates at zero.
\<close>

definition race_run :: "nat \<Rightarrow> sieve_run" where
  "race_run n =
     \<lparr>sr_counters = \<lparr>kept_total = 0, kept_error_bearing = (if n = 2 then 1 else 0), dropped = 0\<rparr>,
      sr_pending = (if n < 2 then {#KeptTotal, KeptErrorBearing#} else {#KeptTotal#}),
      sr_swapped = (if n = 3 then [KeptErrorBearing \<mapsto> 1] else if n = 4 then [KeptErrorBearing \<mapsto> 1, KeptTotal \<mapsto> 0]
        else if n = 5 then [KeptErrorBearing \<mapsto> 1, KeptTotal \<mapsto> 0, DroppedTraces \<mapsto> 0] else Map.empty),
      sr_ticking = (0 < n \<and> n < 6), sr_cancelled = False, sr_exited = False,
      sr_emitted = (if n < 6 then [] else [emit_summary 0 1 0])\<rparr>"

lemma race_steps:
  "sieve_step (race_run 0) (race_run 1)" "sieve_step (race_run 1) (race_run 2)" "sieve_step (race_run 2) (race_run 3)"
  "sieve_step (race_run 3) (race_run 4)" "sieve_step (race_run 4) (race_run 5)" "sieve_step (race_run 5) (race_run 6)"
  using sieve_step.tick [of "race_run 0"] sieve_step.fetch_add [of KeptErrorBearing "race_run 1"]
    sieve_step.swap [of "race_run 2" KeptErrorBearing] sieve_step.swap [of "race_run 3" KeptTotal]
    sieve_step.swap [of "race_run 4" DroppedTraces] sieve_step.emit [of "race_run 5" 0 1 0]
  by (simp_all add: race_run_def)

lemma race_reached: "sieve_reaches (sieve_run_init {#KeptTotal, KeptErrorBearing#}) (race_run 6)"
proof -
  have "sieve_run_init {#KeptTotal, KeptErrorBearing#} = race_run 0"
    by (simp add: sieve_run_init_def race_run_def counters_new_def)
  then show ?thesis
    using race_steps by (metis sieve_reaches.intros)
qed

lemma sieve_summary_saturates:
  "\<exists>s m. sieve_reaches (sieve_run_init {#KeptTotal, KeptErrorBearing#}) s \<and> m \<in> set (sr_emitted s) \<and>
     sm_kept m < sm_kept_error_bearing m \<and> sm_kept_sampled m = 0"
  using race_reached by (intro exI [of _ "race_run 6"] exI [of _ "emit_summary 0 1 0"])
    (simp add: race_run_def emit_summary_def saturating_sub_def)

theorem sieve_summaries_conserve_witness:
  "accounted KeptErrorBearing (race_run 6) = 1 \<and> accounted KeptTotal (race_run 6) = 0"
  using sieve_summaries_conserve [OF race_reached, of KeptErrorBearing] sieve_summaries_conserve [OF race_reached, of KeptTotal]
  by (simp add: race_run_def)

section \<open>A concrete request\<close>

definition vx_span :: "u8 list \<Rightarrow> i32 option \<Rightarrow> nat \<Rightarrow> nat otlp_span" where
  "vx_span tid code n = \<lparr>os_trace_id = tid, os_status_code = code, os_rest = n\<rparr>"

text \<open>A failed trace of two spans, a trace without errors, and a span with a malformed identifier.\<close>

definition vx_request :: "(string, string, nat) trace_request" where
  "vx_request = [\<lparr>rs_resource = ''r'', rs_scope_spans = [\<lparr>sc_scope = ''s'', sc_spans =
     [vx_span (replicate 16 1) None 0, vx_span (replicate 16 2) None 1, vx_span (replicate 16 1) (Some 2) 2, vx_span [1] None 3],
     sc_schema_url = []\<rparr>], rs_schema_url = []\<rparr>]"

definition vx_inner :: "(string, string, nat, unit) sink_record \<Rightarrow> (string, string, nat, unit) sink_record list \<Rightarrow>
   (string + unit) \<times> (string, string, nat, unit) sink_record list" where
  "vx_inner r rs = (Inr (), rs @ [r])"

definition vx_sample :: "nat trace_view \<Rightarrow> decision" where
  "vx_sample = head_sample (\<lambda>_. 0) \<lparr>hs_rate = 0\<rparr>"

definition vx_state :: sieve_state where
  "vx_state = \<lparr>sv_counters = counters_new, sv_events = []\<rparr>"

lemma vx_spans: "request_spans vx_request =
  [vx_span (replicate 16 1) None 0, vx_span (replicate 16 2) None 1, vx_span (replicate 16 1) (Some 2) 2, vx_span [1] None 3]"
  by (simp add: request_spans_def vx_request_def)

lemma vx_rows: "request_rows vx_request = map (\<lambda>x. (''r'', [], ''s'', [], x)) (request_spans vx_request)"
  by (simp add: request_rows_def request_spans_def vx_request_def)

lemma vx_ids: "replicate 16 (1 :: u8) \<noteq> replicate 16 2" "replicate 16 (2 :: u8) \<noteq> replicate 16 1" "[1 :: u8] \<noteq> replicate 16 1"
  by (simp_all add: replicate_eq_replicate) (simp add: numeral_eq_Suc)

lemma vx_accept:
  "\<exists>res s' i'. sieve_accept vx_sample 0 vx_inner (TracesRecord ''t'' vx_request) (vx_state, []) = (res, s', i')"
  by (metis prod.exhaust)

theorem sieve_error_traces_forwarded_witness:
  "\<exists>fwd res i'. vx_inner (TracesRecord ''t'' fwd) [] = (res, i') \<and>
     length (filter (\<lambda>row. os_trace_id (row_span row) = replicate 16 1) (request_rows fwd)) = 2"
proof -
  obtain res s' i' where a: "sieve_accept vx_sample 0 vx_inner (TracesRecord ''t'' vx_request) (vx_state, []) = (res, s', i')"
    using vx_accept by blast
  have "\<exists>fwd. vx_inner (TracesRecord ''t'' fwd) [] = (res, i') \<and>
      filter (\<lambda>row. os_trace_id (row_span row) = replicate 16 1) (request_rows fwd) =
      filter (\<lambda>row. os_trace_id (row_span row) = replicate 16 1) (request_rows vx_request)"
    by (rule sieve_error_traces_forwarded [OF a [unfolded vx_sample_def], of _ "vx_span (replicate 16 1) (Some 2) 2"])
      (simp_all add: vx_spans vx_span_def)
  moreover have "length (filter (\<lambda>row. os_trace_id (row_span row) = replicate 16 1) (request_rows vx_request)) = 2"
    by (simp add: vx_rows vx_spans row_span_def vx_span_def vx_ids)
  ultimately show ?thesis
    by (elim exE conjE) (intro exI conjI, assumption, simp only:)
qed

theorem sieve_forwards_kept_traces_witness:
  "\<exists>fwd. vx_inner (TracesRecord ''t'' fwd) [] = (Inr (), [TracesRecord ''t'' fwd]) \<and>
     map row_span (request_rows fwd) = [vx_span (replicate 16 1) None 0, vx_span (replicate 16 1) (Some 2) 2]"
proof -
  obtain res s' i' where a: "sieve_accept vx_sample 0 vx_inner (TracesRecord ''t'' vx_request) (vx_state, []) = (res, s', i')"
    using vx_accept by blast
  have z: "mapped_to_unit_interval 0 = 0" "\<not> f64_lt 0 0"
    by (simp_all add: mapped_zero f64_lt_def)
  have "filter (\<lambda>row. length (os_trace_id (row_span row)) = 16 \<and>
      vx_sample (whole_trace vx_request (os_trace_id (row_span row))) = Keep) (request_rows vx_request) =
    [(''r'', [], ''s'', [], vx_span (replicate 16 1) None 0), (''r'', [], ''s'', [], vx_span (replicate 16 1) (Some 2) 2)]"
    by (simp add: vx_rows vx_spans row_span_def whole_trace_def vx_sample_def head_sample_def is_error_bearing_def z vx_span_def vx_ids)
  with sieve_forwards_kept_traces [OF a] obtain fwd where "request_rows fwd =
    [(''r'', [], ''s'', [], vx_span (replicate 16 1) None 0), (''r'', [], ''s'', [], vx_span (replicate 16 1) (Some 2) 2)]"
    by auto
  then show ?thesis
    by (intro exI [of _ fwd]) (simp add: vx_inner_def row_span_def)
qed

theorem sieve_counts_traces_witness:
  "\<exists>res s' i'. sieve_accept vx_sample 0 vx_inner (TracesRecord ''t'' vx_request) (vx_state, []) = (res, s', i') \<and>
     kept_total (sv_counters s') = of_nat (card {tid \<in> request_traces vx_request. vx_sample (whole_trace vx_request tid) = Keep})"
proof -
  obtain res s' i' where a: "sieve_accept vx_sample 0 vx_inner (TracesRecord ''t'' vx_request) (vx_state, []) = (res, s', i')"
    using vx_accept by blast
  from sieve_counts_traces [OF a] a show ?thesis
    by (simp add: vx_state_def counters_new_def)
qed

theorem sieve_sampling_consistent_witness:
  "head_sample (\<lambda>_. 0) \<lparr>hs_rate = f64_one\<rparr> \<lparr>tv_trace_id = [], tv_spans = [vx_span [] None 1]\<rparr> = Keep"
proof -
  have "f64_lt (mapped_to_unit_interval 0) f64_one" "f64_le f64_one f64_one"
    using mapped_lt_one [of 0] small_bits [of f64_one] by (simp_all add: unat_f64_one f64_le_def)
  then show ?thesis
    using sieve_sampling_consistent [of "\<lambda>_. 0" "\<lparr>hs_rate = f64_one\<rparr>" "\<lparr>tv_trace_id = [], tv_spans = []\<rparr>"
        "\<lparr>tv_trace_id = [], tv_spans = [vx_span [] None 1]\<rparr>" "\<lparr>hs_rate = f64_one\<rparr>"]
    by (simp add: head_sample_def is_error_bearing_def)
qed

theorem sieve_rate_ends_witness:
  "head_sample (\<lambda>_. 18446744073709551615) \<lparr>hs_rate = f64_one\<rparr> \<lparr>tv_trace_id = [], tv_spans = [vx_span [] None 1]\<rparr> = Drop"
  using sieve_rate_ends [of "\<lparr>tv_trace_id = [], tv_spans = [vx_span [] None 1]\<rparr>" "\<lambda>_. 18446744073709551615"]
  by (simp add: is_error_bearing_def vx_span_def)

end
