(* ===== verification/Codex_Catalogue.thy ===== *)
theory Codex_Catalogue
  imports Edit_Distance
begin

text \<open>
  Codex, the schema catalogue (\<open>crates/codex/src\<close>): the blessed attribute names, exact and by prefix,
  the validation of a list of attributes with its report, and the suggestion of a nearby name. The
  corpus of the OpenTelemetry conventions is the generated file's.
\<close>

section \<open>The corpus (\<open>generated/semconv_0_27.rs\<close>, \<open>catalogue.rs\<close>)\<close>

datatype blessed_attribute = Exact string | Prefix string

definition SEMCONV_0_27 :: "blessed_attribute list" where
  "SEMCONV_0_27 =
    [Exact ''android.os.api_level'', Exact ''aws.ecs.cluster.arn'', Exact ''aws.ecs.container.arn'',
      Exact ''aws.ecs.launchtype'', Exact ''aws.ecs.task.arn'', Exact ''aws.ecs.task.family'',
      Exact ''aws.ecs.task.id'', Exact ''aws.ecs.task.revision'', Exact ''aws.eks.cluster.arn'',
      Exact ''aws.log.group.arns'', Exact ''aws.log.group.names'', Exact ''aws.log.stream.arns'',
      Exact ''aws.log.stream.names'', Exact ''browser.brands'', Exact ''browser.language'', Exact ''browser.mobile'',
      Exact ''browser.platform'', Exact ''cloud.account.id'', Exact ''cloud.availability_zone'',
      Exact ''cloud.platform'', Exact ''cloud.provider'', Exact ''cloud.region'', Exact ''cloud.resource_id'',
      Exact ''cloudfoundry.app.id'', Exact ''cloudfoundry.app.name'', Exact ''cloudfoundry.org.id'',
      Exact ''cloudfoundry.org.name'', Exact ''cloudfoundry.process.id'', Exact ''cloudfoundry.process.type'',
      Exact ''cloudfoundry.space.id'', Exact ''cloudfoundry.space.name'', Exact ''cloudfoundry.system.id'',
      Exact ''cloudfoundry.system.instance.id'', Exact ''container.command'', Exact ''container.command_args'',
      Exact ''container.command_line'', Exact ''container.id'', Exact ''container.image.id'',
      Exact ''container.image.name'', Exact ''container.image.repo_digests'', Exact ''container.image.tags'',
      Exact ''container.label'', Exact ''container.name'', Exact ''container.runtime'',
      Exact ''deployment.environment'', Exact ''deployment.environment.name'', Exact ''device.id'',
      Exact ''device.manufacturer'', Exact ''device.model.identifier'', Exact ''device.model.name'',
      Exact ''faas.instance'', Exact ''faas.max_memory'', Exact ''faas.name'', Exact ''faas.version'',
      Exact ''gcp.cloud_run.job.execution'', Exact ''gcp.cloud_run.job.task_index'',
      Exact ''gcp.gce.instance.hostname'', Exact ''gcp.gce.instance.name'', Exact ''heroku.app.id'',
      Exact ''heroku.release.commit'', Exact ''heroku.release.creation_timestamp'', Exact ''host.arch'',
      Exact ''host.cpu.cache.l2.size'', Exact ''host.cpu.family'', Exact ''host.cpu.model.id'',
      Exact ''host.cpu.model.name'', Exact ''host.cpu.stepping'', Exact ''host.cpu.vendor.id'', Exact ''host.id'',
      Exact ''host.image.id'', Exact ''host.image.name'', Exact ''host.image.version'', Exact ''host.ip'',
      Exact ''host.mac'', Exact ''host.name'', Exact ''host.type'', Exact ''k8s.cluster.name'',
      Exact ''k8s.cluster.uid'', Exact ''k8s.container.name'', Exact ''k8s.container.restart_count'',
      Exact ''k8s.container.status.last_terminated_reason'', Exact ''k8s.cronjob.name'', Exact ''k8s.cronjob.uid'',
      Exact ''k8s.daemonset.name'', Exact ''k8s.daemonset.uid'', Exact ''k8s.deployment.name'',
      Exact ''k8s.deployment.uid'', Exact ''k8s.job.name'', Exact ''k8s.job.uid'', Exact ''k8s.namespace.name'',
      Exact ''k8s.node.name'', Exact ''k8s.node.uid'', Exact ''k8s.pod.annotation'', Exact ''k8s.pod.label'',
      Exact ''k8s.pod.name'', Exact ''k8s.pod.uid'', Exact ''k8s.replicaset.name'', Exact ''k8s.replicaset.uid'',
      Exact ''k8s.statefulset.name'', Exact ''k8s.statefulset.uid'', Exact ''oci.manifest.digest'',
      Exact ''os.build_id'', Exact ''os.description'', Exact ''os.name'', Exact ''os.type'', Exact ''os.version'',
      Exact ''otel.scope.name'', Exact ''otel.scope.version'', Exact ''process.command'',
      Exact ''process.command_args'', Exact ''process.command_line'', Exact ''process.executable.name'',
      Exact ''process.executable.path'', Exact ''process.owner'', Exact ''process.parent_pid'',
      Exact ''process.pid'', Exact ''process.runtime.description'', Exact ''process.runtime.name'',
      Exact ''process.runtime.version'', Exact ''service.instance.id'', Exact ''service.name'',
      Exact ''service.namespace'', Exact ''service.version'', Exact ''telemetry.distro.name'',
      Exact ''telemetry.distro.version'', Exact ''telemetry.sdk.language'', Exact ''telemetry.sdk.name'',
      Exact ''telemetry.sdk.version'', Exact ''user_agent.original'', Exact ''webengine.description'',
      Exact ''webengine.name'', Exact ''webengine.version'']"

definition HOUSE_ATTRIBUTES :: "blessed_attribute list" where
  "HOUSE_ATTRIBUTES = [Exact ''tenant.id'', Prefix ''feature_flag.'', Exact ''experiment.id'']"

definition ALL_ENTRIES :: "blessed_attribute list" where
  "ALL_ENTRIES = SEMCONV_0_27 @ HOUSE_ATTRIBUTES"

section \<open>Suggestions (\<open>fuzzy.rs\<close>)\<close>

definition THRESHOLD :: nat where
  "THRESHOLD = 2"

fun blessed_name :: "blessed_attribute \<Rightarrow> string" where
  "blessed_name (Exact blessed) = blessed"
| "blessed_name (Prefix blessed) = blessed"

text \<open>\<open>Iterator::min_by\<close> keeps the earlier of two equal elements.\<close>

definition candidate_less :: "string \<times> nat \<Rightarrow> string \<times> nat \<Rightarrow> bool" where
  "candidate_less x y = (snd x < snd y \<or> snd x = snd y \<and> fst x < fst y)"

fun min_by :: "('a \<Rightarrow> 'a \<Rightarrow> bool) \<Rightarrow> 'a list \<Rightarrow> 'a option" where
  "min_by lt [] = None"
| "min_by lt (x # xs) = Some (fold (\<lambda>y best. if lt y best then y else best) xs x)"

definition nearest_blessed_match :: "string \<Rightarrow> blessed_attribute list \<Rightarrow> string option" where
  "nearest_blessed_match attribute_name catalogue =
     (case min_by candidate_less (map (\<lambda>c. (c, levenshtein attribute_name c)) (map blessed_name catalogue)) of
        None \<Rightarrow> None
      | Some (name, distance) \<Rightarrow> if distance \<le> THRESHOLD then Some name else None)"

section \<open>Reports (\<open>lint.rs\<close>)\<close>

datatype violation_kind = Unknown

record lint_violation =
  vi_attribute_name :: string
  vi_kind :: violation_kind
  vi_nearest_blessed_match :: "string option"

fun violation_kind_display :: "violation_kind \<Rightarrow> string" where
  "violation_kind_display Unknown = ''Unknown''"

definition violation_line :: "lint_violation \<Rightarrow> string" where
  "violation_line v =
     (case vi_nearest_blessed_match v of
        Some suggestion \<Rightarrow>
          ''  - '' @ vi_attribute_name v @ '' ('' @ violation_kind_display (vi_kind v) @ ''; did you mean '' @ suggestion @ ''?)''
      | None \<Rightarrow> ''  - '' @ vi_attribute_name v @ '' ('' @ violation_kind_display (vi_kind v) @ ''; no close match)'')"

definition lint_report_display :: "lint_violation list \<Rightarrow> string" where
  "lint_report_display vs =
     ''schema validation failed:'' @ [CHR 0x0A] @ concat (map (\<lambda>v. violation_line v @ [CHR 0x0A]) vs)"

section \<open>Validation (\<open>catalogue.rs\<close>)\<close>

fun entry_blesses :: "string \<Rightarrow> blessed_attribute \<Rightarrow> bool" where
  "entry_blesses name (Exact blessed) = (name = blessed)"
| "entry_blesses name (Prefix blessed) = (prefix blessed name \<and> length name > length blessed)"

definition is_blessed :: "blessed_attribute list \<Rightarrow> string \<Rightarrow> bool" where
  "is_blessed entries name = list_ex (entry_blesses name) entries"

definition validate_step ::
  "blessed_attribute list \<Rightarrow> string \<times> string \<Rightarrow> lint_violation list \<Rightarrow> lint_violation list" where
  "validate_step entries = (\<lambda>(name, _) violations.
     if \<not> is_blessed entries name then
       violations @ [\<lparr>vi_attribute_name = name, vi_kind = Unknown,
         vi_nearest_blessed_match = nearest_blessed_match name entries\<rparr>]
     else violations)"

definition codex_validate :: "blessed_attribute list \<Rightarrow> (string \<times> string) list \<Rightarrow> lint_violation list + unit" where
  "codex_validate entries attributes =
     (let violations = fold (validate_step entries) attributes [] in
      if violations = [] then Inr () else Inl violations)"

section \<open>The nearest name\<close>

text \<open>\<open>closest bad names n\<close>: no name is closer to \<open>bad\<close> than \<open>n\<close>, and none as close comes before it.\<close>

definition closest :: "string \<Rightarrow> string set \<Rightarrow> string \<Rightarrow> bool" where
  "closest bad names n =
     (n \<in> names \<and> (\<forall>m\<in>names. levenshtein bad n < levenshtein bad m \<or> levenshtein bad n = levenshtein bad m \<and> n \<le> m))"

lemma fold_min:
  "fold (\<lambda>y best. if candidate_less y best then y else best) xs x \<in> set (x # xs) \<and>
   (\<forall>y\<in>set (x # xs). \<not> candidate_less y (fold (\<lambda>y best. if candidate_less y best then y else best) xs x))"
proof (induction xs rule: rev_induct)
  case (snoc y xs)
  define best where "best = fold (\<lambda>y best. if candidate_less y best then y else best) xs x"
  have trans: "candidate_less z best" if "candidate_less z y" "candidate_less y best" for z
    using that by (auto simp: candidate_less_def)
  have "best \<in> set (x # xs)" "\<forall>z\<in>set (x # xs). \<not> candidate_less z best"
    using snoc by (auto simp: best_def)
  moreover have "\<not> candidate_less y y"
    by (simp add: candidate_less_def)
  ultimately show ?case
    using trans [of x] trans by (auto simp: best_def [symmetric])
qed (simp add: candidate_less_def)

lemma nearest_cases:
  obtains (none) "names = []" | (some) n where "closest bad (set names) n"
    and "min_by candidate_less (map (\<lambda>c. (c, levenshtein bad c)) names) = Some (n, levenshtein bad n)"
proof (cases names)
  case (Cons c cs)
  define best where "best = fold (\<lambda>y best. if candidate_less y best then y else best)
    (map (\<lambda>c. (c, levenshtein bad c)) cs) (c, levenshtein bad c)"
  have "best \<in> set (map (\<lambda>c. (c, levenshtein bad c)) names)"
    "\<forall>y\<in>set (map (\<lambda>c. (c, levenshtein bad c)) names). \<not> candidate_less y best"
    using fold_min [of "map (\<lambda>c. (c, levenshtein bad c)) cs" "(c, levenshtein bad c)"] by (simp_all add: best_def Cons)
  then obtain n where n: "best = (n, levenshtein bad n)" "n \<in> set names"
    "\<forall>m\<in>set names. \<not> candidate_less (m, levenshtein bad m) (n, levenshtein bad n)"
    by auto
  then have "closest bad (set names) n"
    by (fastforce simp: closest_def candidate_less_def not_less)
  with n(1) some show thesis
    by (simp add: best_def Cons)
qed (rule none)

lemma closest_unique: "closest bad names n \<Longrightarrow> closest bad names m \<Longrightarrow> n = m"
  unfolding closest_def by (metis less_irrefl less_asym order.antisym)

lemma nearest_blessed_match_Some:
  "nearest_blessed_match bad entries = Some n \<longleftrightarrow> closest bad (blessed_name ` set entries) n \<and> levenshtein bad n \<le> 2"
proof (rule nearest_cases [where names = "map blessed_name entries" and bad = bad])
  fix m
  assume m: "closest bad (set (map blessed_name entries)) m"
    "min_by candidate_less (map (\<lambda>c. (c, levenshtein bad c)) (map blessed_name entries)) = Some (m, levenshtein bad m)"
  then show ?thesis
    using closest_unique [of bad "blessed_name ` set entries" m n] unfolding nearest_blessed_match_def m(2)
    by (auto simp: THRESHOLD_def)
qed (simp add: nearest_blessed_match_def closest_def)

lemma nearest_blessed_match_self:
  assumes "n \<in> blessed_name ` set entries"
  shows "nearest_blessed_match n entries = Some n"
proof -
  have self: "levenshtein n n = 0"
    by (simp only: levenshtein_zero)
  then have "closest n (blessed_name ` set entries) n"
    using assms levenshtein_zero [of n] by (simp add: closest_def) (metis gr0I order_refl)
  with self show ?thesis
    by (simp add: nearest_blessed_match_Some)
qed

lemma validate_fold:
  "fold (validate_step entries) attributes vs =
     vs @ map (\<lambda>name. \<lparr>vi_attribute_name = name, vi_kind = Unknown, vi_nearest_blessed_match = nearest_blessed_match name entries\<rparr>)
       (filter (\<lambda>name. \<not> is_blessed entries name) (map fst attributes))"
  by (induction attributes arbitrary: vs) (auto simp: validate_step_def)

lemma entries_exact: "Prefix p \<in> set ALL_ENTRIES \<Longrightarrow> p = ''feature_flag.''"
  by (simp add: ALL_ENTRIES_def SEMCONV_0_27_def HOUSE_ATTRIBUTES_def)

section \<open>Properties\<close>

text \<open>
  The blessed names, stated without the checks of the code: a name that is listed as such, and every
  name made of a listed prefix and something after it.
\<close>

inductive blessed :: "blessed_attribute list \<Rightarrow> string \<Rightarrow> bool" for entries where
  listed: "Exact name \<in> set entries \<Longrightarrow> blessed entries name"
| below: "Prefix namespace \<in> set entries \<Longrightarrow> rest \<noteq> [] \<Longrightarrow> blessed entries (namespace @ rest)"

inductive_simps blessed_iff: "blessed entries name"

lemma entry_blesses_iff:
  "entry_blesses name e \<longleftrightarrow> (\<exists>n. e = Exact n \<and> name = n) \<or> (\<exists>p rest. e = Prefix p \<and> rest \<noteq> [] \<and> name = p @ rest)"
  by (cases e) (auto simp: prefix_def)

lemma is_blessed_iff: "is_blessed entries name \<longleftrightarrow> blessed entries name"
  unfolding is_blessed_def list_ex_iff entry_blesses_iff blessed_iff by blast

text \<open>
  C40. Validation reports everything and nothing else: it succeeds exactly when every name is a listed
  name or a listed prefix with something after it, and otherwise reports one violation per offending
  attribute in the order given, with the entry of least edit distance, the first in byte order among
  ties, as its suggestion if that distance is at most two, and without one if it is not.
\<close>

theorem codex_validate_exact:
  "case codex_validate entries attributes of
     Inr _ \<Rightarrow> \<forall>(name, val)\<in>set attributes. blessed entries name
   | Inl violations \<Rightarrow>
       map vi_attribute_name violations = filter (\<lambda>name. \<not> blessed entries name) (map fst attributes) \<and> violations \<noteq> [] \<and>
       (\<forall>v\<in>set violations. \<forall>n. vi_nearest_blessed_match v = Some n \<longleftrightarrow>
          closest (vi_attribute_name v) (blessed_name ` set entries) n \<and> levenshtein (vi_attribute_name v) n \<le> 2)"
  unfolding codex_validate_def validate_fold Let_def is_blessed_iff
  by (auto simp: nearest_blessed_match_Some comp_def filter_empty_conv)

text \<open>
  A suggestion of an exact name is one the catalogue accepts, but a suggestion can also be a bare
  prefix, which it does not: on the shipped catalogue the bare prefix itself is refused and the report
  suggests it.
\<close>

theorem codex_suggestion_may_be_refused:
  "(\<forall>bad n. nearest_blessed_match bad ALL_ENTRIES = Some n \<and> n \<noteq> ''feature_flag.'' \<longrightarrow> is_blessed ALL_ENTRIES n) \<and>
   codex_validate ALL_ENTRIES [(''feature_flag.'', val)] =
     Inl [\<lparr>vi_attribute_name = ''feature_flag.'', vi_kind = Unknown, vi_nearest_blessed_match = Some ''feature_flag.''\<rparr>]"
proof -
  have refused: "\<not> is_blessed ALL_ENTRIES ''feature_flag.''"
    by (simp add: is_blessed_def ALL_ENTRIES_def SEMCONV_0_27_def HOUSE_ATTRIBUTES_def)
  have "nearest_blessed_match ''feature_flag.'' ALL_ENTRIES = Some ''feature_flag.''"
    by (rule nearest_blessed_match_self) (simp add: ALL_ENTRIES_def HOUSE_ATTRIBUTES_def)
  with refused have "codex_validate ALL_ENTRIES [(''feature_flag.'', val)] =
     Inl [\<lparr>vi_attribute_name = ''feature_flag.'', vi_kind = Unknown, vi_nearest_blessed_match = Some ''feature_flag.''\<rparr>]"
    by (simp add: codex_validate_def validate_step_def)
  moreover have "is_blessed ALL_ENTRIES n" 
    if near: "nearest_blessed_match bad ALL_ENTRIES = Some n" and other: "n \<noteq> ''feature_flag.''" for bad n
  proof -
    obtain e where e: "e \<in> set ALL_ENTRIES" "n = blessed_name e"
      using near by (auto simp only: nearest_blessed_match_Some closest_def image_iff)
    have exact: "e = Exact n"
    proof (cases e)
      case (Prefix p)
      with e entries_exact [of p] other show ?thesis
        by simp
    qed (simp add: e(2))
    have "Exact n \<in> set ALL_ENTRIES"
      using e(1) unfolding exact .
    then show ?thesis
      unfolding is_blessed_def list_ex_iff by (rule bexI [rotated]) simp
  qed
  ultimately show ?thesis
    by blast
qed

text \<open>
  A listed name and a name below a listed prefix pass; the bare prefix and a misspelt name are reported,
  each with its nearest entry.
\<close>

theorem codex_validate_exact_witness:
  "codex_validate [Exact ''ab'', Prefix ''p.''] [(''ab'', ''w''), (''p.'', ''x''), (''p.q'', ''y''), (''ac'', ''z'')] =
     Inl [\<lparr>vi_attribute_name = ''p.'', vi_kind = Unknown, vi_nearest_blessed_match = Some ''p.''\<rparr>,
          \<lparr>vi_attribute_name = ''ac'', vi_kind = Unknown, vi_nearest_blessed_match = Some ''ab''\<rparr>]"
proof -
  let ?entries = "[Exact ''ab'', Prefix ''p.'']"
  have lev: "levenshtein ''ac'' ''ab'' = 1" "levenshtein ''ac'' ''p.'' = 2" "levenshtein ''p.'' ''p.'' = 0" "levenshtein ''p.'' ''ab'' = 2"
    by code_simp+
  have b: "blessed ?entries ''ab''" "\<not> blessed ?entries ''p.''" "blessed ?entries ''p.q''" "\<not> blessed ?entries ''ac''"
    by (simp_all add: blessed_iff append_eq_Cons_conv)
  have "case codex_validate ?entries [(''ab'', ''w''), (''p.'', ''x''), (''p.q'', ''y''), (''ac'', ''z'')] of
     Inr _ \<Rightarrow> False
   | Inl violations \<Rightarrow> map vi_attribute_name violations = [''p.'', ''ac''] \<and>
       (\<forall>v\<in>set violations. \<forall>n. vi_nearest_blessed_match v = Some n \<longleftrightarrow>
          closest (vi_attribute_name v) {''ab'', ''p.''} n \<and> levenshtein (vi_attribute_name v) n \<le> 2)"
    using codex_validate_exact [of ?entries "[(''ab'', ''w''), (''p.'', ''x''), (''p.q'', ''y''), (''ac'', ''z'')]"]
    by (simp add: b split: sum.splits)
  then obtain v w where v: "codex_validate ?entries [(''ab'', ''w''), (''p.'', ''x''), (''p.q'', ''y''), (''ac'', ''z'')] = Inl [v, w]"
    "vi_attribute_name v = ''p.''" "vi_nearest_blessed_match v = Some ''p.''"
    "vi_attribute_name w = ''ac''" "vi_nearest_blessed_match w = Some ''ab''"
    using lev by (auto simp: closest_def split: sum.splits)
  then have "v = \<lparr>vi_attribute_name = ''p.'', vi_kind = Unknown, vi_nearest_blessed_match = Some ''p.''\<rparr>"
    "w = \<lparr>vi_attribute_name = ''ac'', vi_kind = Unknown, vi_nearest_blessed_match = Some ''ab''\<rparr>"
    by (cases v, cases "vi_kind v", simp) (cases w, cases "vi_kind w", use v(4,5) in simp)
  with v(1) show ?thesis
    by simp
qed

text \<open>
  A suggestion of the tenant attribute is accepted.
\<close>

theorem codex_suggestion_may_be_refused_witness:
  "nearest_blessed_match ''tenant.id'' ALL_ENTRIES = Some ''tenant.id'' \<and> is_blessed ALL_ENTRIES ''tenant.id''"
proof -
  have near: "nearest_blessed_match ''tenant.id'' ALL_ENTRIES = Some ''tenant.id''"
    by (rule nearest_blessed_match_self) (simp add: ALL_ENTRIES_def HOUSE_ATTRIBUTES_def)
  moreover have "''tenant.id'' \<noteq> ''feature_flag.''"
    by simp
  ultimately show ?thesis
    using codex_suggestion_may_be_refused by blast
qed

end
