(* ===== verification/Loom_Plan.thy ===== *)
theory Loom_Plan
  imports Beacon_Loader
begin

text \<open>
  Loom, the change control of the rule catalogue (\<open>crates/loom/src\<close>): validation (\<open>lib.rs\<close>) and the
  plan (\<open>plan.rs\<close>), the rule-by-rule difference between a source and a deployed catalogue. Both take
  the result of \<^const>\<open>load_rules\<close> on a directory. The text of a duration for debugging output is a
  parameter.
\<close>

section \<open>Validation (\<open>lib.rs\<close>)\<close>

fun loader_error_display :: "loader_error \<Rightarrow> string" where
  "loader_error_display (DirectoryNotReadable path message) =
     ''cannot read rule directory '' @ path_display path @ '': '' @ message"

record validate_outcome =
  vo_rules_loaded :: nat
  vo_diagnostics :: "loader_diagnostic list"
  vo_fatal :: "string option"

definition validate_exit_code :: "validate_outcome \<Rightarrow> nat" where
  "validate_exit_code outcome =
     (if vo_fatal outcome \<noteq> None then 2 else if vo_diagnostics outcome \<noteq> [] then 1 else 0)"

definition loom_validate :: "loader_error + load_outcome \<Rightarrow> validate_outcome" where
  "loom_validate loaded =
     (case loaded of
        Inr outcome \<Rightarrow> \<lparr>vo_rules_loaded = length (lo_rules outcome), vo_diagnostics = lo_diagnostics outcome, vo_fatal = None\<rparr>
      | Inl err \<Rightarrow> \<lparr>vo_rules_loaded = 0, vo_diagnostics = [], vo_fatal = Some (loader_error_display err)\<rparr>)"

section \<open>The plan (\<open>plan.rs\<close>)\<close>

record field_change =
  fc_field :: string
  fc_before :: string
  fc_after :: string

record rule_change =
  ch_name :: string
  ch_fields :: "field_change list"

record plan_outcome =
  po_added :: "string list"
  po_removed :: "string list"
  po_changed :: "rule_change list"
  po_diagnostics_from :: "loader_diagnostic list"
  po_diagnostics_to :: "loader_diagnostic list"
  po_fatal :: "string option"

definition plan_exit_code :: "plan_outcome \<Rightarrow> nat" where
  "plan_exit_code p =
     (if po_fatal p \<noteq> None then 2
      else if po_diagnostics_from p \<noteq> [] \<or> po_diagnostics_to p \<noteq> [] then 1 else 0)"

text \<open>The arrow is one character of three bytes.\<close>

definition render_field :: "field_change \<Rightarrow> string" where
  "render_field f = ''    '' @ fc_field f @ '': '' @ fc_before f @ '' '' @ [CHR 0xE2, CHR 0x86, CHR 0x92] @ '' '' @ fc_after f @ [newline]"

definition plan_render :: "bool \<Rightarrow> plan_outcome \<Rightarrow> string" where
  "plan_render include_diff p =
     concat (map (\<lambda>name. ''+ added: '' @ name @ [newline]) (po_added p)) @
     concat (map (\<lambda>name. ''- removed: '' @ name @ [newline]) (po_removed p)) @
     concat (map (\<lambda>change. ''~ changed: '' @ ch_name change @ [newline] @
       (if include_diff then concat (map render_field (ch_fields change)) else [])) (po_changed p)) @
     ''summary: '' @ nat_str (length (po_added p)) @ '' added, '' @ nat_str (length (po_removed p)) @ '' removed, '' @
     nat_str (length (po_changed p)) @ '' changed'' @ [newline]"

fun severity_label :: "severity \<Rightarrow> string" where
  "severity_label Info = ''info''"
| "severity_label Warning = ''warning''"
| "severity_label Critical = ''critical''"

definition format_labels :: "(string, string) btree_map \<Rightarrow> string" where
  "format_labels labels =
     (if labels = [] then ''{}'' else ''{'' @ str_join '', '' (map (\<lambda>(k, v). k @ ''='' @ v) labels) @ ''}'')"

definition format_inhibits :: "string list \<Rightarrow> string" where
  "format_inhibits inhibits = (if inhibits = [] then ''[]'' else ''['' @ str_join '', '' inhibits @ '']'')"

definition sinks_text :: "sink_config list \<Rightarrow> string" where
  "sinks_text sinks = ''('' @ nat_str (length sinks) @ '' sinks)''"

text \<open>One of the seven comparisons of \<open>diff_rules\<close>: the field, and how it is shown.\<close>

definition field_diff :: "string \<Rightarrow> (rule \<Rightarrow> 'a) \<Rightarrow> ('a \<Rightarrow> string) \<Rightarrow> rule \<Rightarrow> rule \<Rightarrow> field_change list" where
  "field_diff field get shown before after =
     (if get before \<noteq> get after
      then [\<lparr>fc_field = field, fc_before = shown (get before), fc_after = shown (get after)\<rparr>] else [])"

definition diff_rules :: "(duration \<Rightarrow> string) \<Rightarrow> string \<Rightarrow> rule \<Rightarrow> rule \<Rightarrow> rule_change" where
  "diff_rules debug name before after =
     \<lparr>ch_name = name,
      ch_fields =
        field_diff ''query'' r_query id before after @
        field_diff ''for_duration'' r_for_duration debug before after @
        field_diff ''interval'' r_interval debug before after @
        field_diff ''severity'' r_severity severity_label before after @
        field_diff ''labels'' r_labels format_labels before after @
        field_diff ''sinks'' r_sinks sinks_text before after @
        field_diff ''inhibits'' r_inhibits format_inhibits before after\<rparr>"

definition by_name :: "rule list \<Rightarrow> (string, rule) hash_map" where
  "by_name rules = fold (\<lambda>r. hm_insert (r_name r) r) rules []"

definition plan_side :: "loader_error + load_outcome \<Rightarrow> rule list \<times> loader_diagnostic list \<times> string option" where
  "plan_side loaded =
     (case loaded of
        Inr outcome \<Rightarrow> (lo_rules outcome, lo_diagnostics outcome, None)
      | Inl err \<Rightarrow> ([], [], Some (loader_error_display err)))"

definition plan_fatal :: "string option \<Rightarrow> string option \<Rightarrow> string option" where
  "plan_fatal fatal_from fatal_to =
     (case (fatal_from, fatal_to) of
        (Some a, Some b) \<Rightarrow> Some (''from: '' @ a @ ''; to: '' @ b)
      | (Some a, None) \<Rightarrow> Some (''from: '' @ a)
      | (None, Some b) \<Rightarrow> Some (''to: '' @ b)
      | (None, None) \<Rightarrow> None)"

definition plan :: "(duration \<Rightarrow> string) \<Rightarrow> loader_error + load_outcome \<Rightarrow> loader_error + load_outcome \<Rightarrow> plan_outcome" where
  "plan debug from_loaded to_loaded =
     (let (from_rules, from_diagnostics, fatal_from) = plan_side from_loaded;
          (to_rules, to_diagnostics, fatal_to) = plan_side to_loaded;
          fatal = plan_fatal fatal_from fatal_to in
      if fatal \<noteq> None then
        \<lparr>po_added = [], po_removed = [], po_changed = [], po_diagnostics_from = from_diagnostics,
         po_diagnostics_to = to_diagnostics, po_fatal = fatal\<rparr>
      else
        let from_map = by_name from_rules; to_map = by_name to_rules;
            changed_names = sort (filter (\<lambda>n. hm_get from_map n \<noteq> hm_get to_map n)
                              (filter (hm_contains to_map) (map fst from_map))) in
        \<lparr>po_added = sort (filter (\<lambda>n. \<not> hm_contains to_map n) (map fst from_map)),
         po_removed = sort (filter (\<lambda>n. \<not> hm_contains from_map n) (map fst to_map)),
         po_changed = map (\<lambda>n. diff_rules debug n (the (hm_get to_map n)) (the (hm_get from_map n))) changed_names,
         po_diagnostics_from = from_diagnostics, po_diagnostics_to = to_diagnostics, po_fatal = None\<rparr>)"

section \<open>Names to rules\<close>

lemma hm_wf_by_name: "hm_wf (by_name rules)"
  unfolding by_name_def by (induction rules rule: rev_induct) simp_all

lemma by_name_get: "distinct (map r_name rules) \<Longrightarrow> hm_get (by_name rules) n = Some r \<longleftrightarrow> r \<in> set rules \<and> r_name r = n"
  unfolding by_name_def by (induction rules rule: rev_induct) (auto simp: rev_image_eqI)

lemma by_name_keys: "set (map fst (by_name rules)) = r_name ` set rules"
proof -
  have "dom (hm_get (by_name rules)) = r_name ` set rules"
  proof (induction rules rule: rev_induct)
    case (snoc r rules)
    have "hm_get (by_name (rules @ [r])) = (hm_get (by_name rules))(r_name r \<mapsto> r)"
      by (simp add: by_name_def)
    then show ?case
      by (simp only: dom_fun_upd snoc) simp
  qed (simp add: by_name_def)
  then show ?thesis
    by (simp add: dom_map_of_conv_image_fst)
qed

lemma by_name_contains: "hm_contains (by_name rules) n \<longleftrightarrow> n \<in> r_name ` set rules"
  using by_name_keys [of rules] by (auto simp: hm_contains_def map_of_eq_None_iff)

text \<open>The seven fields, with the name, are the whole rule.\<close>

lemma rule_eq_iff:
  "(a::rule) = b \<longleftrightarrow> r_name a = r_name b \<and> r_query a = r_query b \<and> r_for_duration a = r_for_duration b \<and> r_interval a = r_interval b \<and>
     r_severity a = r_severity b \<and> r_labels a = r_labels b \<and> r_sinks a = r_sinks b \<and> r_inhibits a = r_inhibits b"
  by (cases a; cases b) auto

lemma diff_rules_Nil: "r_name b = r_name a \<Longrightarrow> ch_fields (diff_rules debug n b a) = [] \<longleftrightarrow> b = a"
  by (simp add: diff_rules_def field_diff_def rule_eq_iff)

text \<open>Which fields a change shows.\<close>

lemma field_diff_field: "fc_field ` set (field_diff field get shown b a) = (if get b \<noteq> get a then {field} else {})"
  by (simp add: field_diff_def)

lemma diff_rules_fields:
  "fc_field ` set (ch_fields (diff_rules debug n b a)) =
     (if r_query b \<noteq> r_query a then {''query''} else {}) \<union> (if r_for_duration b \<noteq> r_for_duration a then {''for_duration''} else {}) \<union>
     (if r_interval b \<noteq> r_interval a then {''interval''} else {}) \<union> (if r_severity b \<noteq> r_severity a then {''severity''} else {}) \<union>
     (if r_labels b \<noteq> r_labels a then {''labels''} else {}) \<union> (if r_sinks b \<noteq> r_sinks a then {''sinks''} else {}) \<union>
     (if r_inhibits b \<noteq> r_inhibits a then {''inhibits''} else {})"
  by (simp only: diff_rules_def rule_change.simps set_append image_Un field_diff_field Un_assoc)

lemma plan_loaded:
  assumes "distinct (map r_name (lo_rules a))" and "distinct (map r_name (lo_rules b))"
    and p: "p = plan debug (Inr a) (Inr b)"
  shows "po_fatal p = None" "po_diagnostics_from p = lo_diagnostics a" "po_diagnostics_to p = lo_diagnostics b"
    "sorted (po_added p)" "distinct (po_added p)" "set (po_added p) = r_name ` set (lo_rules a) - r_name ` set (lo_rules b)"
    "sorted (po_removed p)" "distinct (po_removed p)" "set (po_removed p) = r_name ` set (lo_rules b) - r_name ` set (lo_rules a)"
    "sorted (map ch_name (po_changed p))" "distinct (map ch_name (po_changed p))"
    "set (po_changed p) = {diff_rules debug (r_name x) y x | x y. x \<in> set (lo_rules a) \<and> y \<in> set (lo_rules b) \<and> r_name y = r_name x \<and> x \<noteq> y}"
proof -
  let ?f = "by_name (lo_rules a)" and ?t = "by_name (lo_rules b)"
  have d: "distinct (map fst ?f)" "distinct (map fst ?t)"
    using hm_wf_by_name by (auto simp: hm_wf_def)
  let ?names = "sort (filter (\<lambda>n. hm_get ?f n \<noteq> hm_get ?t n) (filter (hm_contains ?t) (map fst ?f)))"
  have eqs: "po_added p = sort (filter (\<lambda>n. \<not> hm_contains ?t n) (map fst ?f))"
    "po_removed p = sort (filter (\<lambda>n. \<not> hm_contains ?f n) (map fst ?t))"
    "po_changed p = map (\<lambda>n. diff_rules debug n (the (hm_get ?t n)) (the (hm_get ?f n))) ?names"
    "po_fatal p = None" "po_diagnostics_from p = lo_diagnostics a" "po_diagnostics_to p = lo_diagnostics b"
    by (simp_all add: p plan_def plan_side_def plan_fatal_def Let_def)
  show "po_fatal p = None" "po_diagnostics_from p = lo_diagnostics a" "po_diagnostics_to p = lo_diagnostics b"
    using eqs by simp_all
  show "sorted (po_added p)" "distinct (po_added p)" "sorted (po_removed p)" "distinct (po_removed p)"
    using d by (simp_all add: eqs)
  show "set (po_added p) = r_name ` set (lo_rules a) - r_name ` set (lo_rules b)"
    "set (po_removed p) = r_name ` set (lo_rules b) - r_name ` set (lo_rules a)"
    using by_name_keys [of "lo_rules a"] by_name_keys [of "lo_rules b"] by (auto simp: eqs by_name_contains)
  have names: "map ch_name (po_changed p) = ?names"
    by (simp add: eqs diff_rules_def comp_def)
  show "sorted (map ch_name (po_changed p))" "distinct (map ch_name (po_changed p))"
    unfolding names using d by simp_all
  have "n \<in> set ?names \<longleftrightarrow> (\<exists>x y. hm_get ?f n = Some x \<and> hm_get ?t n = Some y \<and> x \<noteq> y)" for n
  proof (cases "hm_get ?f n")
    case None
    then show ?thesis
      using map_of_eq_None_iff [of ?f n] by auto
  next
    case (Some x)
    then have "n \<in> set (map fst ?f)"
      using map_of_eq_None_iff [of ?f n] by auto
    with Some show ?thesis
      by (auto simp: hm_contains_def simp del: set_map)
  qed
  then have "set (po_changed p) = {diff_rules debug n y x | n x y. hm_get ?f n = Some x \<and> hm_get ?t n = Some y \<and> x \<noteq> y}"
  proof -
    assume names: "\<And>n. n \<in> set ?names \<longleftrightarrow> (\<exists>x y. hm_get ?f n = Some x \<and> hm_get ?t n = Some y \<and> x \<noteq> y)"
    have "set (po_changed p) = (\<lambda>n. diff_rules debug n (the (hm_get ?t n)) (the (hm_get ?f n))) ` {n. n \<in> set ?names}"
      unfolding eqs by (simp only: set_map Collect_mem_eq)
    also have "\<dots> = {diff_rules debug n y x | n x y. hm_get ?f n = Some x \<and> hm_get ?t n = Some y \<and> x \<noteq> y}"
      unfolding names by force
    finally show ?thesis .
  qed
  then show "set (po_changed p) = {diff_rules debug (r_name x) y x | x y. x \<in> set (lo_rules a) \<and> y \<in> set (lo_rules b) \<and> r_name y = r_name x \<and> x \<noteq> y}"
    unfolding by_name_get [OF assms(1)] by_name_get [OF assms(2)] by blast
qed

end
