(* ===== verification/Loom_Apply.thy ===== *)
theory Loom_Apply
  imports Loom_Plan
begin

text \<open>
  \<open>loom apply\<close> (\<open>crates/loom/src/apply.rs\<close>): the destination directory is made to hold the rule files of
  the source. A file system is the map from paths to contents; the outcomes of its operations are
  the fields of \<open>loom_io\<close>. Properties of the plan and of the apply, alone and one after the other.
\<close>

section \<open>Files\<close>

type_synonym disk = "(fpath, string) hash_map"

text \<open>How the writing of a file can fail; a failing write leaves the first bytes in the temporary file.\<close>

datatype write_fault =
  ParentFails string | CreateFails string | WriteFails nat string | SyncFails string | RenameFails string

record loom_io =
  li_walk_from :: "string option"
  li_mkdir :: "string option"
  li_walk_to :: "string option"
  li_missing :: string
  li_read :: "fpath \<Rightarrow> string option"
  li_write :: "fpath \<Rightarrow> write_fault option"
  li_remove :: "fpath \<Rightarrow> string option"

definition with_extension :: "fpath \<Rightarrow> string \<Rightarrow> fpath" where
  "with_extension path ext = butlast path @ [last path @ ''.'' @ ext]"

definition atomic_write :: "loom_io \<Rightarrow> fpath \<Rightarrow> string \<Rightarrow> disk \<Rightarrow> (string + unit) \<times> disk" where
  "atomic_write io dest bytes disk =
     (let tmp = with_extension dest ''tmp'' in
      case li_write io dest of
        None \<Rightarrow> (Inr (), hm_insert dest bytes (hm_remove tmp disk))
      | Some (ParentFails e) \<Rightarrow> (Inl e, disk)
      | Some (CreateFails e) \<Rightarrow> (Inl e, disk)
      | Some (WriteFails n e) \<Rightarrow> (Inl e, hm_insert tmp (take n bytes) disk)
      | Some (SyncFails e) \<Rightarrow> (Inl e, hm_insert tmp bytes disk)
      | Some (RenameFails e) \<Rightarrow> (Inl e, hm_insert tmp bytes disk))"

definition read_file :: "loom_io \<Rightarrow> fpath \<Rightarrow> disk \<Rightarrow> string + string" where
  "read_file io path disk =
     (case li_read io path of
        Some e \<Rightarrow> Inl e
      | None \<Rightarrow> (case hm_get disk path of None \<Rightarrow> Inl (li_missing io) | Some bytes \<Rightarrow> Inr bytes))"

text \<open>The paths of the rule files below a directory, relative to it, in the order of the map.\<close>

definition collect_relative_toml :: "fpath \<Rightarrow> disk \<Rightarrow> fpath list" where
  "collect_relative_toml root disk =
     sort (map (drop (length root)) (filter (\<lambda>p. strict_prefix root p \<and> extension_toml (last p)) (map fst disk)))"

section \<open>Apply\<close>

record apply_outcome =
  ao_written :: "fpath list"
  ao_removed :: "fpath list"
  ao_unchanged :: "fpath list"
  ao_diagnostics :: "loader_diagnostic list"
  ao_fatal :: "string option"

definition apply_exit_code :: "apply_outcome \<Rightarrow> nat" where
  "apply_exit_code outcome =
     (if ao_fatal outcome \<noteq> None then 2 else if ao_diagnostics outcome \<noteq> [] then 1 else 0)"

definition apply_render :: "apply_outcome \<Rightarrow> string" where
  "apply_render outcome =
     ''summary: '' @ nat_str (length (ao_written outcome)) @ '' written, '' @ nat_str (length (ao_removed outcome)) @
     '' removed, '' @ nat_str (length (ao_unchanged outcome)) @ '' unchanged'' @ [newline]"

definition refused_apply :: "loader_diagnostic list \<Rightarrow> string option \<Rightarrow> apply_outcome" where
  "refused_apply diagnostics fatal =
     \<lparr>ao_written = [], ao_removed = [], ao_unchanged = [], ao_diagnostics = diagnostics, ao_fatal = fatal\<rparr>"

text \<open>The loop over the source files: the fatal error, what was written, what was unchanged, and the disk.\<close>

fun write_loop :: "loom_io \<Rightarrow> fpath \<Rightarrow> fpath \<Rightarrow> fpath list \<Rightarrow> disk \<Rightarrow> string option \<times> fpath list \<times> fpath list \<times> disk" where
  "write_loop io from to [] disk = (None, [], [], disk)"
| "write_loop io from to (rel # rels) disk =
     (case read_file io (from @ rel) disk of
        Inl err \<Rightarrow> (Some (''read '' @ path_display (from @ rel) @ '': '' @ err), [], [], disk)
      | Inr new_bytes \<Rightarrow>
        if read_file io (to @ rel) disk = Inr new_bytes then
          (case write_loop io from to rels disk of
             (fatal, written, unchanged, disk') \<Rightarrow> (fatal, written, (to @ rel) # unchanged, disk'))
        else
          (case atomic_write io (to @ rel) new_bytes disk of
             (Inl err, disk') \<Rightarrow> (Some (''write '' @ path_display (to @ rel) @ '': '' @ err), [], [], disk')
           | (Inr _, disk') \<Rightarrow>
             (case write_loop io from to rels disk' of
                (fatal, written, unchanged, disk'') \<Rightarrow> (fatal, (to @ rel) # written, unchanged, disk''))))"

fun remove_loop :: "loom_io \<Rightarrow> fpath \<Rightarrow> fpath list \<Rightarrow> fpath list \<Rightarrow> disk \<Rightarrow> string option \<times> fpath list \<times> disk" where
  "remove_loop io to source_files [] disk = (None, [], disk)"
| "remove_loop io to source_files (rel # rels) disk =
     (if rel \<in> set source_files then remove_loop io to source_files rels disk
      else
        case li_remove io (to @ rel) of
          Some err \<Rightarrow> (Some (''remove '' @ path_display (to @ rel) @ '': '' @ err), [], disk)
        | None \<Rightarrow>
          (case remove_loop io to source_files rels (hm_remove (to @ rel) disk) of
             (fatal, removed, disk') \<Rightarrow> (fatal, (to @ rel) # removed, disk')))"

definition loom_apply :: "loom_io \<Rightarrow> loader_error + load_outcome \<Rightarrow> fpath \<Rightarrow> fpath \<Rightarrow> disk \<Rightarrow> apply_outcome \<times> disk" where
  "loom_apply io source from to disk =
     (case source of
        Inl err \<Rightarrow> (refused_apply [] (Some (''from: '' @ loader_error_display err)), disk)
      | Inr outcome \<Rightarrow>
        if lo_diagnostics outcome \<noteq> [] then (refused_apply (lo_diagnostics outcome) None, disk)
        else if li_walk_from io \<noteq> None then (refused_apply [] (Some (''from walk: '' @ the (li_walk_from io))), disk)
        else if li_mkdir io \<noteq> None then (refused_apply [] (Some (''to mkdir: '' @ the (li_mkdir io))), disk)
        else if li_walk_to io \<noteq> None then (refused_apply [] (Some (''to walk: '' @ the (li_walk_to io))), disk)
        else
          let source_files = collect_relative_toml from disk;
              dest_files = collect_relative_toml to disk;
              (fatal, written, unchanged, disk1) = write_loop io from to source_files disk in
          if fatal \<noteq> None then
            (\<lparr>ao_written = written, ao_removed = [], ao_unchanged = unchanged, ao_diagnostics = [], ao_fatal = fatal\<rparr>, disk1)
          else
            (case remove_loop io to source_files dest_files disk1 of
               (fatal', removed, disk2) \<Rightarrow>
                 (\<lparr>ao_written = written, ao_removed = removed, ao_unchanged = unchanged, ao_diagnostics = [],
                   ao_fatal = fatal'\<rparr>, disk2)))"

section \<open>Paths\<close>

text \<open>Neither directory is inside the other.\<close>

definition apart :: "fpath \<Rightarrow> fpath \<Rightarrow> bool" where
  "apart from to = (\<not> prefix from to \<and> \<not> prefix to from)"

lemma apart_paths: "apart from to \<Longrightarrow> from @ p \<noteq> to @ q"
  unfolding apart_def by (metis prefixI prefix_same_cases)

lemma collect_relative_toml_iff:
  "rel \<in> set (collect_relative_toml root disk) \<longleftrightarrow> rel \<noteq> [] \<and> extension_toml (last rel) \<and> hm_get disk (root @ rel) \<noteq> None"
proof -
  have "rel \<in> set (collect_relative_toml root disk) \<longleftrightarrow> rel \<noteq> [] \<and> extension_toml (last rel) \<and> root @ rel \<in> fst ` set disk"
    by (force simp: collect_relative_toml_def strict_prefix_def prefix_def image_iff)
  then show ?thesis
    by (auto simp: map_of_eq_None_iff)
qed

lemma tmp_not_toml: "\<not> extension_toml (last (with_extension path ''tmp''))"
  by (auto simp: with_extension_def extension_toml_def suffix_def dest!: arg_cong [where f = last])

lemma tmp_below: "rel \<noteq> [] \<Longrightarrow> with_extension (to @ rel) ext = to @ with_extension rel ext"
  by (simp add: with_extension_def butlast_append)

lemma atomic_write_frame:
  assumes "atomic_write io dest bytes disk = (res, disk')" and "p \<noteq> with_extension dest ''tmp''"
  shows "hm_get disk' p = (if p = dest \<and> res = Inr () then Some bytes else hm_get disk p)"
  using assms by (auto simp: atomic_write_def Let_def split: option.splits write_fault.splits)

section \<open>The loops\<close>

text \<open>
  Of one run of the write loop: a path keeps its contents, or is a destination and has its source's
  contents, or is a temporary file; and without an error every destination has its source's contents.
\<close>

lemma write_loop_effect:
  assumes "write_loop io from to rels disk = (fatal, written, unchanged, disk')" and "apart from to"
    and "\<forall>rel \<in> set rels. rel \<noteq> [] \<and> extension_toml (last rel)"
  shows "(\<forall>p. (\<forall>rel \<in> set rels. p \<noteq> with_extension (to @ rel) ''tmp'') \<longrightarrow>
      hm_get disk' p = hm_get disk p \<or> (\<exists>rel \<in> set rels. p = to @ rel \<and> hm_get disk' p = hm_get disk (from @ rel))) \<and>
    (fatal = None \<longrightarrow> (\<forall>rel \<in> set rels. hm_get disk' (to @ rel) = hm_get disk (from @ rel)))"
  using assms
proof (induction rels arbitrary: disk written unchanged)
  case Nil
  then show ?case
    by simp
next
  case (Cons rel rels)
  have not_tmp: "to @ q \<noteq> with_extension (to @ r) ''tmp''" if "q \<in> set (rel # rels)" "r \<in> set (rel # rels)" for q r
    using Cons.prems(3) that tmp_not_toml [of "to @ r"] by (metis last_appendR)
  have from_kept: "from @ q \<noteq> with_extension (to @ r) ''tmp''" if "r \<in> set (rel # rels)" for q r
    using Cons.prems(3) that apart_paths [OF Cons.prems(2)] by (metis tmp_below)
  show ?case
  proof (cases "read_file io (from @ rel) disk")
    case (Inl e)
    with Cons.prems(1) show ?thesis
      by auto
  next
    case (Inr new)
    then have src: "hm_get disk (from @ rel) = Some new"
      by (auto simp: read_file_def split: option.splits)
    show ?thesis
    proof (cases "read_file io (to @ rel) disk = Inr new")
      case True
      then have dst: "hm_get disk (to @ rel) = Some new"
        by (auto simp: read_file_def split: option.splits)
      obtain unchanged' where w: "write_loop io from to rels disk = (fatal, written, unchanged', disk')"
        using Cons.prems(1) Inr True by (auto split: prod.splits)
      have ih: "\<And>p. \<forall>r \<in> set rels. p \<noteq> with_extension (to @ r) ''tmp'' \<Longrightarrow>
          hm_get disk' p = hm_get disk p \<or> (\<exists>r \<in> set rels. p = to @ r \<and> hm_get disk' p = hm_get disk (from @ r))"
        "fatal = None \<Longrightarrow> \<forall>r \<in> set rels. hm_get disk' (to @ r) = hm_get disk (from @ r)"
        using Cons.IH [OF w Cons.prems(2)] Cons.prems(3) by auto
      have "hm_get disk' (to @ rel) = hm_get disk (from @ rel)"
        using ih(1) [of "to @ rel"] not_tmp src dst by auto
      with ih show ?thesis
        by (metis list.set_intros(1) list.set_intros(2) set_ConsD)
    next
      case False
      obtain res disk1 where aw: "atomic_write io (to @ rel) new disk = (res, disk1)"
        by fastforce
      have frame: "hm_get disk1 p = (if p = to @ rel \<and> res = Inr () then Some new else hm_get disk p)"
        if "p \<noteq> with_extension (to @ rel) ''tmp''" for p
        using atomic_write_frame [OF aw that] .
      show ?thesis
      proof (cases res)
        case (Inl e)
        with Cons.prems(1) Inr False aw have "disk' = disk1" "fatal \<noteq> None"
          by auto
        with Inl frame show ?thesis
          by auto
      next
        case ok: (Inr u)
        obtain written' where w: "write_loop io from to rels disk1 = (fatal, written', unchanged, disk')"
          using Cons.prems(1) Inr False aw ok by (auto split: prod.splits)
        have src1: "hm_get disk1 (from @ r) = hm_get disk (from @ r)" for r
          using frame [of "from @ r"] from_kept [of rel r] apart_paths [OF Cons.prems(2), of r rel] by simp
        have dst1: "hm_get disk1 (to @ rel) = hm_get disk (from @ rel)"
          using frame [of "to @ rel"] not_tmp ok src by simp
        have ih: "\<And>p. \<forall>r \<in> set rels. p \<noteq> with_extension (to @ r) ''tmp'' \<Longrightarrow>
            hm_get disk' p = hm_get disk1 p \<or> (\<exists>r \<in> set rels. p = to @ r \<and> hm_get disk' p = hm_get disk (from @ r))"
          "fatal = None \<Longrightarrow> \<forall>r \<in> set rels. hm_get disk' (to @ r) = hm_get disk (from @ r)"
          using Cons.IH [OF w Cons.prems(2)] Cons.prems(3) unfolding src1 by auto
        have "hm_get disk' (to @ rel) = hm_get disk (from @ rel)"
          using ih(1) [of "to @ rel"] not_tmp dst1 by auto
        moreover have "hm_get disk1 p = hm_get disk p" if "p \<noteq> with_extension (to @ rel) ''tmp''" "p \<noteq> to @ rel" for p
          using frame [OF that(1)] that(2) by simp
        ultimately show ?thesis
          using ih by (metis list.set_intros(1) list.set_intros(2) set_ConsD)
      qed
    qed
  qed
qed

lemma remove_loop_effect:
  assumes "remove_loop io to source_files rels disk = (fatal, removed, disk')"
  shows "(\<forall>p. hm_get disk' p = hm_get disk p \<or> (\<exists>rel \<in> set rels - set source_files. p = to @ rel \<and> hm_get disk' p = None)) \<and>
    (fatal = None \<longrightarrow> (\<forall>rel \<in> set rels - set source_files. hm_get disk' (to @ rel) = None))"
  using assms
proof (induction rels arbitrary: disk removed)
  case Nil
  then show ?case
    by simp
next
  case (Cons rel rels)
  show ?case
  proof (cases "rel \<in> set source_files")
    case True
    with Cons show ?thesis
      by fastforce
  next
    case False
    show ?thesis
    proof (cases "li_remove io (to @ rel)")
      case (Some e)
      with Cons.prems False show ?thesis
        by auto
    next
      case None
      obtain removed' where r: "remove_loop io to source_files rels (hm_remove (to @ rel) disk) = (fatal, removed', disk')"
        using Cons.prems False None by (auto split: prod.splits)
      have ih: "\<And>p. hm_get disk' p = (if p = to @ rel then None else hm_get disk p) \<or>
          (\<exists>r \<in> set rels - set source_files. p = to @ r \<and> hm_get disk' p = None)"
        "fatal = None \<Longrightarrow> \<forall>r \<in> set rels - set source_files. hm_get disk' (to @ r) = None"
        using Cons.IH [OF r] by auto
      from ih(1) [of "to @ rel"] have "hm_get disk' (to @ rel) = None"
        by auto
      with ih False show ?thesis
        by (metis DiffE DiffI list.set_intros(1) list.set_intros(2) set_ConsD)
    qed
  qed
qed

end
