(* ===== verification/Loom_Theorems.thy ===== *)
theory Loom_Theorems
  imports Loom_Apply
begin

text \<open>
  What the plan and the apply promise, and whether the one describes the other.
\<close>

section \<open>The plan\<close>

lemma loaded_names_distinct: "load_rules fl humantime from_str dir entries = Inr a \<Longrightarrow> distinct (map r_name (lo_rules a))"
  by (erule load_rulesE) (simp only: detect_duplicate_rules distinct_singletons)

text \<open>
  The plan is the difference of the two catalogues: of two loaded directories it names as added the
  rules only the source has, as removed those only the destination has, and as changed those both have
  with different contents, each list sorted and without repetition; a changed rule shows at least one
  field, and shows exactly the fields that differ; and it is empty exactly when the catalogues are
  equal. Its exit code is 0 exactly when neither side had a diagnostic.
\<close>

theorem loom_plan_exact:
  assumes "load_rules fl humantime from_str from from_entries = Inr a" and "load_rules fl humantime from_str to to_entries = Inr b"
    and "p = plan debug (Inr a) (Inr b)"
  shows "sorted (po_added p) \<and> distinct (po_added p) \<and> set (po_added p) = r_name ` set (lo_rules a) - r_name ` set (lo_rules b) \<and>
    sorted (po_removed p) \<and> distinct (po_removed p) \<and> set (po_removed p) = r_name ` set (lo_rules b) - r_name ` set (lo_rules a) \<and>
    sorted (map ch_name (po_changed p)) \<and> distinct (map ch_name (po_changed p)) \<and>
    (\<forall>c. c \<in> set (po_changed p) \<longleftrightarrow> (\<exists>x \<in> set (lo_rules a). \<exists>y \<in> set (lo_rules b). r_name x = r_name y \<and> x \<noteq> y \<and> c = diff_rules debug (r_name x) y x)) \<and>
    (\<forall>c \<in> set (po_changed p). ch_fields c \<noteq> []) \<and>
    (po_added p = [] \<and> po_removed p = [] \<and> po_changed p = [] \<longleftrightarrow> set (lo_rules a) = set (lo_rules b)) \<and>
    (plan_exit_code p = 0 \<longleftrightarrow> lo_diagnostics a = [] \<and> lo_diagnostics b = [])"
proof (intro conjI allI ballI)
  note d = loaded_names_distinct [OF assms(1)] loaded_names_distinct [OF assms(2)]
  note p = plan_loaded [OF d assms(3)]
  show "sorted (po_added p)" "distinct (po_added p)" "sorted (po_removed p)" "distinct (po_removed p)"
    "sorted (map ch_name (po_changed p))" "distinct (map ch_name (po_changed p))"
    "set (po_added p) = r_name ` set (lo_rules a) - r_name ` set (lo_rules b)"
    "set (po_removed p) = r_name ` set (lo_rules b) - r_name ` set (lo_rules a)"
    using p by blast+
  show iff: "c \<in> set (po_changed p) \<longleftrightarrow> (\<exists>x \<in> set (lo_rules a). \<exists>y \<in> set (lo_rules b). r_name x = r_name y \<and> x \<noteq> y \<and> c = diff_rules debug (r_name x) y x)" for c
    unfolding p(12) mem_Collect_eq by metis
  show "ch_fields c \<noteq> []" if changed: "c \<in> set (po_changed p)" for c
  proof -
    from changed obtain x y where "r_name x = r_name y" "x \<noteq> y" and c: "c = diff_rules debug (r_name x) y x"
      unfolding iff by blast
    then show ?thesis
      unfolding c using diff_rules_Nil [of y x] by metis
  qed
  show "po_added p = [] \<and> po_removed p = [] \<and> po_changed p = [] \<longleftrightarrow> set (lo_rules a) = set (lo_rules b)"
  proof
    assume empty: "po_added p = [] \<and> po_removed p = [] \<and> po_changed p = []"
    then have names: "r_name ` set (lo_rules a) = r_name ` set (lo_rules b)"
      using p(6,9) by auto
    have same: "x = y" if "x \<in> set (lo_rules a)" "y \<in> set (lo_rules b)" "r_name x = r_name y" for x y
      using iff [of "diff_rules debug (r_name x) y x"] that empty by auto
    show "set (lo_rules a) = set (lo_rules b)"
    proof (intro equalityI subsetI)
      fix x
      assume x: "x \<in> set (lo_rules a)"
      with names obtain y where "y \<in> set (lo_rules b)" "r_name x = r_name y"
        by (metis imageE imageI)
      with same x show "x \<in> set (lo_rules b)"
        by metis
    next
      fix y
      assume y: "y \<in> set (lo_rules b)"
      with names obtain x where "x \<in> set (lo_rules a)" "r_name x = r_name y"
        by (metis imageE imageI)
      with same y show "y \<in> set (lo_rules a)"
        by metis
    qed
  next
    assume eq: "set (lo_rules a) = set (lo_rules b)"
    have same: "x = y" if "x \<in> set (lo_rules a)" "y \<in> set (lo_rules b)" "r_name x = r_name y" for x y
    proof -
      have "inj_on r_name (set (lo_rules b))"
        using d(2) by (simp add: distinct_map)
      from inj_onD [where f = r_name and A = "set (lo_rules b)" and x = x and y = y, OF this that(3)] that eq show ?thesis
        by (simp only:)
    qed
    have "c \<notin> set (po_changed p)" for c
    proof
      assume "c \<in> set (po_changed p)"
      from iff [THEN iffD1, OF this] obtain x y where "x \<in> set (lo_rules a)" "y \<in> set (lo_rules b)" "r_name x = r_name y" "x \<noteq> y"
        by (elim bexE conjE)
      with same show False
        by metis
    qed
    then have "set (po_changed p) = {}"
      by (metis equals0I)
    moreover have "set (po_added p) = {}" "set (po_removed p) = {}"
      unfolding p(6,9) eq by simp_all
    ultimately show "po_added p = [] \<and> po_removed p = [] \<and> po_changed p = []"
      by (simp only: set_empty simp_thms)
  qed
  show "plan_exit_code p = 0 \<longleftrightarrow> lo_diagnostics a = [] \<and> lo_diagnostics b = []"
    using p(1-3) by (simp add: plan_exit_code_def)
qed

section \<open>The apply\<close>

lemma apply_cases:
  assumes "loom_apply io source from to disk = (out, disk')" and "apart from to"
  shows "disk' = disk \<and> ao_written out = [] \<and> ao_removed out = [] \<and> (ao_diagnostics out \<noteq> [] \<or> ao_fatal out \<noteq> None) \<or>
    (\<exists>fatal disk1. write_loop io from to (collect_relative_toml from disk) disk = (fatal, ao_written out, ao_unchanged out, disk1) \<and>
      ao_diagnostics out = [] \<and>
      (fatal \<noteq> None \<and> ao_fatal out = fatal \<and> ao_removed out = [] \<and> disk' = disk1 \<or>
       fatal = None \<and> remove_loop io to (collect_relative_toml from disk) (collect_relative_toml to disk) disk1 =
         (ao_fatal out, ao_removed out, disk')))"
proof (cases source)
  case (Inl e)
  with assms(1) show ?thesis
    by (auto simp: loom_apply_def refused_apply_def)
next
  case (Inr outcome)
  obtain fatal written unchanged disk1 where w: "write_loop io from to (collect_relative_toml from disk) disk = (fatal, written, unchanged, disk1)"
    by (metis prod_cases4)
  obtain fatal' removed disk2 where r: "remove_loop io to (collect_relative_toml from disk) (collect_relative_toml to disk) disk1 = (fatal', removed, disk2)"
    by (metis prod_cases3)
  from assms(1) Inr w r show ?thesis
    by (auto simp: loom_apply_def refused_apply_def Let_def split: if_splits)
qed

lemma source_files_ok: "\<forall>rel \<in> set (collect_relative_toml root disk). rel \<noteq> [] \<and> extension_toml (last rel)"
  by (simp add: collect_relative_toml_iff)

text \<open>The writes, and the writes followed by the removals: the source is read and every file stays whole.\<close>

lemma write_phase:
  assumes "write_loop io from to (collect_relative_toml from disk) disk = (fatal, written, unchanged, disk')" and "apart from to"
  shows "\<And>p. \<forall>rel \<in> set (collect_relative_toml from disk). p \<noteq> with_extension (to @ rel) ''tmp'' \<Longrightarrow>
      hm_get disk' p = hm_get disk p \<or>
      (\<exists>rel \<in> set (collect_relative_toml from disk). p = to @ rel \<and> hm_get disk' p = hm_get disk (from @ rel))"
    and "\<And>rel. hm_get disk' (from @ rel) = hm_get disk (from @ rel)"
    and "\<And>rel. fatal = None \<Longrightarrow> rel \<in> set (collect_relative_toml from disk) \<Longrightarrow> hm_get disk' (to @ rel) = hm_get disk (from @ rel)"
proof -
  note effect = write_loop_effect [OF assms source_files_ok]
  show eff: "hm_get disk' p = hm_get disk p \<or>
      (\<exists>rel \<in> set (collect_relative_toml from disk). p = to @ rel \<and> hm_get disk' p = hm_get disk (from @ rel))"
    if "\<forall>rel \<in> set (collect_relative_toml from disk). p \<noteq> with_extension (to @ rel) ''tmp''" for p
    using effect that by blast
  show "hm_get disk' (from @ rel) = hm_get disk (from @ rel)" for rel
    using eff [of "from @ rel"] apart_paths [OF assms(2)] tmp_below [of _ to] by (metis collect_relative_toml_iff)
  show "hm_get disk' (to @ rel) = hm_get disk (from @ rel)" if "fatal = None" "rel \<in> set (collect_relative_toml from disk)" for rel
    using effect that by blast
qed

lemma removal_phase:
  assumes w: "write_loop io from to (collect_relative_toml from disk) disk = (None, written, unchanged, disk1)"
    and r: "remove_loop io to (collect_relative_toml from disk) (collect_relative_toml to disk) disk1 = (fatal, removed, disk')"
    and apart: "apart from to"
  shows "\<And>p. \<forall>rel \<in> set (collect_relative_toml from disk). p \<noteq> with_extension (to @ rel) ''tmp'' \<Longrightarrow>
      hm_get disk' p = hm_get disk p \<or> (\<exists>rel. p = to @ rel \<and> extension_toml (last rel) \<and> hm_get disk' p = hm_get disk (from @ rel))"
    and "\<And>rel. hm_get disk' (from @ rel) = hm_get disk (from @ rel)"
    and "\<And>rel. rel \<in> set (collect_relative_toml from disk) \<Longrightarrow> hm_get disk' (to @ rel) = hm_get disk (from @ rel)"
    and "\<And>rel. fatal = None \<Longrightarrow> rel \<in> set (collect_relative_toml to disk) - set (collect_relative_toml from disk) \<Longrightarrow>
      hm_get disk' (to @ rel) = None"
proof -
  have rem: "hm_get disk' p = hm_get disk1 p \<or>
      (\<exists>rel \<in> set (collect_relative_toml to disk) - set (collect_relative_toml from disk). p = to @ rel \<and> hm_get disk' p = None)" for p
    using remove_loop_effect [OF r] by blast
  have gone: "hm_get disk (from @ rel) = None \<and> extension_toml (last rel)"
    if "rel \<in> set (collect_relative_toml to disk) - set (collect_relative_toml from disk)" for rel
    using that by (auto simp: collect_relative_toml_iff)
  show "hm_get disk' p = hm_get disk p \<or> (\<exists>rel. p = to @ rel \<and> extension_toml (last rel) \<and> hm_get disk' p = hm_get disk (from @ rel))"
    if "\<forall>rel \<in> set (collect_relative_toml from disk). p \<noteq> with_extension (to @ rel) ''tmp''" for p
    using write_phase(1) [OF w apart that] rem [of p] gone by (metis collect_relative_toml_iff)
  show "hm_get disk' (from @ rel) = hm_get disk (from @ rel)" for rel
    using write_phase(2) [OF w apart, of rel] rem [of "from @ rel"] apart_paths [OF apart] by (metis collect_relative_toml_iff)
  show "hm_get disk' (to @ rel) = hm_get disk (from @ rel)" if "rel \<in> set (collect_relative_toml from disk)" for rel
    using rem [of "to @ rel"] write_phase(3) [OF w apart refl that] that by auto
  show "hm_get disk' (to @ rel) = None"
    if "fatal = None" "rel \<in> set (collect_relative_toml to disk) - set (collect_relative_toml from disk)" for rel
    using remove_loop_effect [OF r] that by blast
qed

text \<open>
  C38. Whatever fails in the middle of an apply between directories apart from each other, every rule file
  is whole: a file is as it was, or has the contents of its counterpart in the source, or was removed
  because it has no counterpart; the source, everything else outside the destination, and every file that
  is neither a rule file nor the temporary file of one is as it was; and a rule file is removed only
  after all have been written.
\<close>

theorem loom_apply_whole_files:
  assumes "loom_apply io source from to disk = (out, disk')" and "apart from to"
  shows "(\<forall>p. (\<forall>rel. hm_get disk (from @ rel) \<noteq> None \<longrightarrow> p \<noteq> with_extension (to @ rel) ''tmp'') \<longrightarrow>
      hm_get disk' p = hm_get disk p \<or>
      (\<exists>rel. p = to @ rel \<and> extension_toml (last rel) \<and> hm_get disk' p = hm_get disk (from @ rel))) \<and>
    (\<forall>rel. hm_get disk' (from @ rel) = hm_get disk (from @ rel)) \<and>
    (ao_removed out \<noteq> [] \<longrightarrow> (\<forall>rel \<in> set (collect_relative_toml from disk). hm_get disk' (to @ rel) = hm_get disk (from @ rel)))"
proof -
  let ?src = "collect_relative_toml from disk" and ?dst = "collect_relative_toml to disk"
  have tmp: "\<forall>rel \<in> set ?src. p \<noteq> with_extension (to @ rel) ''tmp''"
    if "\<forall>rel. hm_get disk (from @ rel) \<noteq> None \<longrightarrow> p \<noteq> with_extension (to @ rel) ''tmp''" for p
    using that by (simp add: collect_relative_toml_iff)
  from apply_cases [OF assms] consider (refused) "disk' = disk" "ao_removed out = []"
    | (stopped) fatal written unchanged where "write_loop io from to ?src disk = (fatal, written, unchanged, disk')" "ao_removed out = []"
    | (finished) written unchanged disk1 fatal' where "write_loop io from to ?src disk = (None, written, unchanged, disk1)"
        "remove_loop io to ?src ?dst disk1 = (fatal', ao_removed out, disk')"
    by blast
  then show ?thesis
  proof cases
    case refused
    then show ?thesis
      by simp
  next
    case stopped
    note phase = write_phase [OF stopped(1) assms(2)]
    from phase(1) [OF tmp] phase(2) stopped(2) source_files_ok [of "from" disk] show ?thesis
      by blast
  next
    case finished
    note phase = removal_phase [OF finished assms(2)]
    from phase(1) [OF tmp] phase(2,3) show ?thesis
      by blast
  qed
qed

text \<open>Where the rule files are already those of the source, there is nothing to write and nothing to remove.\<close>

lemma nothing_to_do:
  assumes mirror: "\<And>rel. rel \<noteq> [] \<Longrightarrow> extension_toml (last rel) \<Longrightarrow> hm_get disk (to @ rel) = hm_get disk (from @ rel)"
    and io: "li_read io = (\<lambda>_. None)" "li_walk_from io = None" "li_mkdir io = None" "li_walk_to io = None"
    and clean: "lo_diagnostics source = []"
  shows "\<exists>out. loom_apply io (Inr source) from to disk = (out, disk) \<and> ao_written out = [] \<and> ao_removed out = [] \<and> ao_fatal out = None"
proof -
  let ?src = "collect_relative_toml from disk" and ?dst = "collect_relative_toml to disk"
  have writes: "\<exists>unchanged. write_loop io from to rels disk = (None, [], unchanged, disk)" if "\<forall>rel \<in> set rels. rel \<in> set ?src" for rels
    using that
  proof (induction rels)
    case (Cons rel rels)
    then obtain bytes where "hm_get disk (from @ rel) = Some bytes" "hm_get disk (to @ rel) = Some bytes"
      using mirror [of rel] by (auto simp: collect_relative_toml_iff)
    with Cons show ?case
      by (auto simp: read_file_def io)
  qed simp
  have "set ?dst \<subseteq> set ?src"
    using mirror by (auto simp: collect_relative_toml_iff)
  then have removes: "remove_loop io to ?src rels disk = (None, [], disk)" if "set rels \<subseteq> set ?dst" for rels
    using that by (induction rels) auto
  show ?thesis
    using writes [of ?src] removes [of ?dst] io clean by (auto simp: loom_apply_def)
qed

text \<open>
  C37. An apply that succeeds, with the source and the destination apart from each other, which the code
  does not check, mirrors the source: the rule files below the destination are those below the source,
  with their contents; and it is idempotent: a second one, with the files readable, writes and removes
  nothing and leaves the disk as it is.
\<close>

theorem loom_apply_mirrors:
  assumes "loom_apply io (Inr source) from to disk = (out, disk')" and "apart from to"
    and "ao_fatal out = None" and "ao_diagnostics out = []"
  shows "(\<forall>rel. rel \<noteq> [] \<and> extension_toml (last rel) \<longrightarrow>
      hm_get disk' (to @ rel) = hm_get disk (from @ rel) \<and> hm_get disk' (from @ rel) = hm_get disk (from @ rel)) \<and>
    (\<forall>io2. li_read io2 = (\<lambda>_. None) \<and> li_walk_from io2 = None \<and> li_mkdir io2 = None \<and> li_walk_to io2 = None \<longrightarrow>
      (\<exists>out2. loom_apply io2 (Inr source) from to disk' = (out2, disk') \<and> ao_written out2 = [] \<and> ao_removed out2 = [] \<and> ao_fatal out2 = None))"
proof -
  let ?src = "collect_relative_toml from disk" and ?dst = "collect_relative_toml to disk"
  obtain written unchanged disk1 where w: "write_loop io from to ?src disk = (None, written, unchanged, disk1)"
    and r: "remove_loop io to ?src ?dst disk1 = (None, ao_removed out, disk')"
    using apply_cases [OF assms(1,2)] assms(3,4) by auto
  note phase = removal_phase [OF w r assms(2)]
  have mirror: "hm_get disk' (to @ rel) = hm_get disk (from @ rel)" if rel: "rel \<noteq> []" "extension_toml (last rel)" for rel
  proof -
    consider (source) "rel \<in> set ?src" | (stale) "rel \<in> set ?dst - set ?src" | (neither) "rel \<notin> set ?src" "rel \<notin> set ?dst"
      by blast
    then show ?thesis
    proof cases
      case stale
      with phase(4) rel show ?thesis
        by (simp add: collect_relative_toml_iff)
    next
      case neither
      have "to @ rel \<noteq> with_extension (to @ q) ''tmp''" for q
        using rel tmp_not_toml [of "to @ q"] by (metis last_appendR)
      with neither rel phase(1) [of "to @ rel"] show ?thesis
        by (auto simp: collect_relative_toml_iff)
    qed (rule phase(3))
  qed
  have "lo_diagnostics source = []"
    using assms(1,4) by (auto simp: loom_apply_def refused_apply_def split: if_splits)
  then show ?thesis
    using mirror phase(2) nothing_to_do [of disk' to "from"] by auto
qed

section \<open>The plan after an apply\<close>

text \<open>
  What a file contributes, apart from its path: its own rules and its SLOs; the rules it yields at a
  path.
\<close>

definition hand_rules :: "duration_parser \<Rightarrow> 'f file_shape \<Rightarrow> string + rule list" where
  "hand_rules humantime parsed = try_map (into_rule humantime) (fs_rules parsed)"

definition slos_at :: "('f, 'b) float_ops_scheme \<Rightarrow> duration_parser \<Rightarrow> 'f file_shape \<Rightarrow> string \<Rightarrow> string + 'f slo list" where
  "slos_at fl humantime parsed path = try_map (\<lambda>raw. into_slo fl humantime raw path) (fs_slo parsed)"

lemma into_slo_path:
  "into_slo fl humantime raw q = map_sum id (\<lambda>s. s\<lparr>slo_source_path := Some q\<rparr>) (into_slo fl humantime raw p)"
  by (simp add: into_slo_def Let_def split: sum.split)

lemma try_map_map_sum: "try_map (\<lambda>x. map_sum id g (f x)) xs = map_sum id (map g) (try_map f xs)"
  by (induction xs) (auto split: sum.split simp: sum.map_comp comp_def)

lemma slos_at_path:
  "slos_at fl humantime parsed q = map_sum id (map (\<lambda>s. s\<lparr>slo_source_path := Some q\<rparr>)) (slos_at fl humantime parsed p)"
  unfolding slos_at_def by (subst into_slo_path [of _ _ _ _ p]) (rule try_map_map_sum)

lemma parse_file_at:
  "parse_file fl humantime from_str (path, Inr content) = Inr rules \<longleftrightarrow>
     (\<exists>parsed hand slos. from_str content = Inr parsed \<and> hand_rules humantime parsed = Inr hand \<and>
        slos_at fl humantime parsed (path_display path) = Inr slos \<and> rules = hand @ concat (map (synthesise_slo fl) slos))"
  by (auto simp: parse_file_def hand_rules_def slos_at_def split: sum.splits)

text \<open>A synthesised rule names its file, and nothing else of it depends on the file.\<close>

lemma synthesise_row_source:
  "hm_get (r_labels (synthesise_row fl (s\<lparr>slo_source_path := Some p\<rparr>) row)) ''slo_source'' = Some p"
  "r_name (synthesise_row fl (s\<lparr>slo_source_path := p'\<rparr>) row) = r_name (synthesise_row fl s row)"
  by (simp_all add: synthesise_row_def Let_def)

lemma synthesise_rows_at:
  assumes "p \<noteq> q" and "x \<in> set (synthesise_slo fl (s\<lparr>slo_source_path := Some p\<rparr>))"
  shows "\<exists>y \<in> set (synthesise_slo fl (s\<lparr>slo_source_path := Some q\<rparr>)). r_name y = r_name x \<and> y \<noteq> x"
proof -
  obtain row where row: "row \<in> set mwmbr_table" and x: "x = synthesise_row fl (s\<lparr>slo_source_path := Some p\<rparr>) row"
    using assms(2) by (auto simp: synthesise_slo_def)
  let ?y = "synthesise_row fl (s\<lparr>slo_source_path := Some q\<rparr>) row"
  have "?y \<in> set (synthesise_slo fl (s\<lparr>slo_source_path := Some q\<rparr>))"
    using row by (simp add: synthesise_slo_def)
  moreover have "r_name ?y = r_name x"
    unfolding x synthesise_row_source(2) ..
  moreover have "?y \<noteq> x"
    using synthesise_row_source(1) [where fl = fl and s = s and p = q and row = row]
      synthesise_row_source(1) [where fl = fl and s = s and p = p and row = row] assms(1) unfolding x by auto
  ultimately show ?thesis
    by blast
qed

lemma path_display_append: "d \<noteq> [] \<Longrightarrow> rel \<noteq> [] \<Longrightarrow> path_display (d @ rel) = path_display d @ ''/'' @ path_display rel"
proof (induction d)
  case (Cons c cs)
  then show ?case
    by (cases cs; cases rel) auto
qed simp

text \<open>A directory tree that holds the given files, by their paths below it.\<close>

definition tree_holds :: "fpath \<Rightarrow> fs_node list \<Rightarrow> (fpath \<times> string) list \<Rightarrow> bool" where
  "tree_holds dir nodes files =
     (\<exists>paths. collect_toml_files dir nodes = Inr paths \<and>
        sort_key fst paths = map (\<lambda>(rel, content). (dir @ rel, Inr content)) files \<and> list_all (\<lambda>(rel, _). rel \<noteq> []) files)"

text \<open>The names of the rules synthesised from the SLOs of the files.\<close>

definition slo_rule_names ::
  "('f, 'b) float_ops_scheme \<Rightarrow> duration_parser \<Rightarrow> (string \<Rightarrow> string + 'f file_shape) \<Rightarrow> (fpath \<times> string) list \<Rightarrow> string set" where
  "slo_rule_names fl humantime from_str files =
     {r_name r | r rel content parsed slos. (rel, content) \<in> set files \<and> from_str content = Inr parsed \<and>
        slos_at fl humantime parsed [] = Inr slos \<and> r \<in> set (concat (map (synthesise_slo fl) slos))}"

text \<open>Loading without a diagnostic.\<close>

lemma load_clean:
  assumes "load_rules fl humantime from_str dir (Inr nodes) = Inr a" and "lo_diagnostics a = []"
    and "collect_toml_files dir nodes = Inr paths"
  shows "lo_rules a = parsed_rules (parse_file fl humantime from_str) (sort_key fst paths)"
    "\<forall>f \<in> set paths. \<exists>rules. parse_file fl humantime from_str f = Inr rules"
    "duplicate_names (parsed_rules (parse_file fl humantime from_str) (sort_key fst paths)) = []"
proof -
  let ?parse = "parse_file fl humantime from_str"
  obtain diags origin where o: "a = detect_duplicate_names origin \<lparr>lo_rules = parsed_rules ?parse (sort_key fst paths), lo_diagnostics = diags\<rparr>"
    and d: "set diags = {d. \<exists>f \<in> set paths. ?parse f = Inl d}"
    by (rule load_rulesE [OF assms(1)]) (auto simp: assms(3))
  have "duplicate_names (parsed_rules ?parse (sort_key fst paths)) = []" and "diags = []"
    using assms(2) by (auto simp: o detect_duplicate_names_def fold_drop_duplicate)
  then show "lo_rules a = parsed_rules ?parse (sort_key fst paths)"
    "duplicate_names (parsed_rules ?parse (sort_key fst paths)) = []"
    by (simp_all add: o detect_duplicate_names_def)
  show "\<forall>f \<in> set paths. \<exists>rules. ?parse f = Inr rules"
  proof
    fix f
    assume "f \<in> set paths"
    with d \<open>diags = []\<close> show "\<exists>rules. ?parse f = Inr rules"
      by (cases "?parse f") auto
  qed
qed

lemma load_clean_intro:
  assumes "load_rules fl humantime from_str dir (Inr nodes) = Inr a" and "collect_toml_files dir nodes = Inr paths"
    and "\<forall>f \<in> set paths. \<exists>rules. parse_file fl humantime from_str f = Inr rules"
    and "duplicate_names (parsed_rules (parse_file fl humantime from_str) (sort_key fst paths)) = []"
  shows "lo_diagnostics a = []"
proof -
  let ?parse = "parse_file fl humantime from_str"
  obtain diags origin where o: "a = detect_duplicate_names origin \<lparr>lo_rules = parsed_rules ?parse (sort_key fst paths), lo_diagnostics = diags\<rparr>"
    and d: "set diags = {d. \<exists>f \<in> set paths. ?parse f = Inl d}"
    by (rule load_rulesE [OF assms(1)]) (auto simp: assms(2))
  have "set diags = {}"
    unfolding d using assms(3) by fastforce
  with assms(4) show ?thesis
    by (simp add: o detect_duplicate_names_def)
qed

text \<open>The same file at two paths: the same names; its own rules are equal, those of its SLOs differ.\<close>

definition file_slo_names :: "('f, 'b) float_ops_scheme \<Rightarrow> duration_parser \<Rightarrow> (string \<Rightarrow> string + 'f file_shape) \<Rightarrow> string \<Rightarrow> string set" where
  "file_slo_names fl humantime from_str content =
     {r_name r | r parsed slos. from_str content = Inr parsed \<and> slos_at fl humantime parsed [] = Inr slos \<and>
        r \<in> set (concat (map (synthesise_slo fl) slos))}"

lemma synthesise_slo_names: "map r_name (synthesise_slo fl (s\<lparr>slo_source_path := p\<rparr>)) = map r_name (synthesise_slo fl s)"
  by (simp add: synthesise_slo_def synthesise_row_source(2))

lemma slo_names_at:
  "map r_name (concat (map (synthesise_slo fl) (map (\<lambda>s. s\<lparr>slo_source_path := p\<rparr>) slos))) =
     map r_name (concat (map (synthesise_slo fl) slos))"
  by (simp add: map_concat comp_def synthesise_slo_names)

lemma same_file:
  assumes "parse_file fl humantime from_str (p, Inr content) = Inr rs"
  shows "\<exists>rs'. parse_file fl humantime from_str (q, Inr content) = Inr rs' \<and> map r_name rs' = map r_name rs \<and>
    (path_display p \<noteq> path_display q \<longrightarrow>
      (\<forall>x \<in> set rs. x \<in> set rs' \<or> r_name x \<in> file_slo_names fl humantime from_str content) \<and>
      (\<forall>n \<in> file_slo_names fl humantime from_str content. \<exists>x \<in> set rs. \<exists>y \<in> set rs'. r_name x = n \<and> r_name y = n \<and> x \<noteq> y))"
proof -
  let ?at = "\<lambda>path slos. map (\<lambda>s. s\<lparr>slo_source_path := Some (path_display path)\<rparr>) slos"
  let ?synth = "\<lambda>slos. concat (map (synthesise_slo fl) slos)"
  from assms obtain parsed hand slos' where f: "from_str content = Inr parsed" and h: "hand_rules humantime parsed = Inr hand"
    and s': "slos_at fl humantime parsed (path_display p) = Inr slos'" and rs: "rs = hand @ ?synth slos'"
    unfolding parse_file_at by blast
  obtain slos where s: "slos_at fl humantime parsed [] = Inr slos" and p: "slos' = ?at p slos"
    using s' slos_at_path [of fl humantime parsed "path_display p" "[]"]
    by (cases "slos_at fl humantime parsed []") auto
  have q: "slos_at fl humantime parsed (path_display q) = Inr (?at q slos)"
    using s slos_at_path [of fl humantime parsed "path_display q" "[]"] by simp
  define rs' where "rs' = hand @ ?synth (?at q slos)"
  have parse: "parse_file fl humantime from_str (q, Inr content) = Inr rs'"
    unfolding parse_file_at rs'_def using f h q by blast
  have names: "map r_name rs' = map r_name rs"
    unfolding rs rs'_def p map_append slo_names_at ..
  have slo: "file_slo_names fl humantime from_str content = r_name ` set (?synth slos)"
    using f s by (auto simp: file_slo_names_def)
  have differ: "(\<forall>x \<in> set rs. x \<in> set rs' \<or> r_name x \<in> file_slo_names fl humantime from_str content) \<and>
      (\<forall>n \<in> file_slo_names fl humantime from_str content. \<exists>x \<in> set rs. \<exists>y \<in> set rs'. r_name x = n \<and> r_name y = n \<and> x \<noteq> y)"
    if ne: "path_display p \<noteq> path_display q"
  proof (intro conjI ballI)
    fix x
    assume "x \<in> set rs"
    moreover have "r_name x \<in> r_name ` set (?synth slos)" if "x \<in> set (?synth (?at p slos))"
      using that arg_cong [where f = set, OF slo_names_at [of fl "Some (path_display p)" slos]] by (metis image_eqI set_map)
    ultimately show "x \<in> set rs' \<or> r_name x \<in> file_slo_names fl humantime from_str content"
      unfolding rs rs'_def p slo by auto
  next
    fix n
    assume "n \<in> file_slo_names fl humantime from_str content"
    then obtain r s where "s \<in> set slos" "r \<in> set (synthesise_slo fl s)" and n: "n = r_name r"
      unfolding slo by auto
    moreover from this have "n \<in> set (map r_name (synthesise_slo fl (s\<lparr>slo_source_path := Some (path_display p)\<rparr>)))"
      unfolding synthesise_slo_names by simp
    then obtain x where x: "x \<in> set (synthesise_slo fl (s\<lparr>slo_source_path := Some (path_display p)\<rparr>))" "r_name x = n"
      by auto
    moreover from synthesise_rows_at [OF ne x(1)] obtain y
      where "y \<in> set (synthesise_slo fl (s\<lparr>slo_source_path := Some (path_display q)\<rparr>))" "r_name y = n" "y \<noteq> x"
      unfolding x(2) by blast
    ultimately show "\<exists>x \<in> set rs. \<exists>y \<in> set rs'. r_name x = n \<and> r_name y = n \<and> x \<noteq> y"
      unfolding rs rs'_def p by (intro bexI [of _ x] bexI [of _ y]) auto
  qed
  from parse names differ show ?thesis
    by blast
qed

text \<open>
  The plan does not settle after an apply: when the destination holds the same rule files as the
  source, the plan adds and removes nothing, but reports as changed every rule synthesised from an SLO,
  and only those, because such a rule carries the path of its file in a label.
\<close>

theorem loom_plan_after_apply:
  assumes "tree_holds from fnodes files" and "tree_holds to tnodes files"
    and "load_rules fl humantime from_str from (Inr fnodes) = Inr a" and "lo_diagnostics a = []"
    and "load_rules fl humantime from_str to (Inr tnodes) = Inr b"
    and "from \<noteq> []" and "to \<noteq> []" and "path_display from \<noteq> path_display to"
  shows "lo_diagnostics b = [] \<and> po_added (plan debug (Inr a) (Inr b)) = [] \<and> po_removed (plan debug (Inr a) (Inr b)) = [] \<and>
    ch_name ` set (po_changed (plan debug (Inr a) (Inr b))) = slo_rule_names fl humantime from_str files"
proof -
  let ?parse = "parse_file fl humantime from_str"
  let ?rules = "\<lambda>dir (rel, content). (case ?parse (dir @ rel, Inr content) of Inr rs \<Rightarrow> rs | Inl _ \<Rightarrow> [])"
  obtain fp where fp: "collect_toml_files from fnodes = Inr fp" "sort_key fst fp = map (\<lambda>(rel, content). (from @ rel, Inr content)) files"
    and rel: "list_all (\<lambda>(rel, _). rel \<noteq> []) files"
    using assms(1) by (auto simp: tree_holds_def)
  obtain tp where tp: "collect_toml_files to tnodes = Inr tp" "sort_key fst tp = map (\<lambda>(rel, content). (to @ rel, Inr content)) files"
    using assms(2) by (auto simp: tree_holds_def)
  have parsed: "parsed_rules ?parse (map (\<lambda>(rel, content). (dir @ rel, Inr content)) files) = concat (map (?rules dir) files)" for dir
    unfolding parsed_rules_def map_map by (intro arg_cong [where f = concat] map_cong) auto
  note clean = load_clean [OF assms(3,4) fp(1)]
  have setp: "set fp = (\<lambda>(rel, content). (from @ rel, Inr content)) ` set files" "set tp = (\<lambda>(rel, content). (to @ rel, Inr content)) ` set files"
    using arg_cong [where f = set, OF fp(2)] arg_cong [where f = set, OF tp(2)] by simp_all
  have same: "\<exists>rs rs'. ?parse (from @ r, Inr content) = Inr rs \<and> ?parse (to @ r, Inr content) = Inr rs' \<and> map r_name rs' = map r_name rs \<and>
      (\<forall>x \<in> set rs. x \<in> set rs' \<or> r_name x \<in> file_slo_names fl humantime from_str content) \<and>
      (\<forall>n \<in> file_slo_names fl humantime from_str content. \<exists>x \<in> set rs. \<exists>y \<in> set rs'. r_name x = n \<and> r_name y = n \<and> x \<noteq> y)"
    if f: "(r, content) \<in> set files" for r content
  proof -
    obtain rs where rs: "?parse (from @ r, Inr content) = Inr rs"
      using clean(2) f unfolding setp by fastforce
    have "path_display (from @ r) \<noteq> path_display (to @ r)"
      using f rel assms(6-8) by (auto simp: path_display_append list_all_iff)
    with same_file [OF rs, of "to @ r"] rs show ?thesis
      by blast
  qed
  have names: "map r_name (concat (map (?rules to) files)) = map r_name (concat (map (?rules from) files))"
    unfolding map_concat map_map by (intro arg_cong [where f = concat] map_cong) (auto dest: same)
  have dup: "duplicate_names (parsed_rules ?parse (sort_key fst tp)) = []"
    using clean(3) duplicate_names_set [of "concat (map (?rules to) files)"] duplicate_names_set [of "concat (map (?rules from) files)"]
    unfolding fp(2) tp(2) parsed names by simp
  have ok: "\<forall>f \<in> set tp. \<exists>rules. ?parse f = Inr rules"
    unfolding setp using same by fastforce
  have diag: "lo_diagnostics b = []"
    by (rule load_clean_intro [OF assms(5) tp(1) ok dup])
  have a: "lo_rules a = concat (map (?rules from) files)"
    using clean(1) unfolding fp(2) parsed .
  have b: "lo_rules b = concat (map (?rules to) files)"
    using load_clean(1) [OF assms(5) diag tp(1)] unfolding tp(2) parsed .
  note d = loaded_names_distinct [OF assms(3)] loaded_names_distinct [OF assms(5)]
  note p = plan_loaded [OF d refl, of debug]
  have sets: "r_name ` set (lo_rules b) = r_name ` set (lo_rules a)"
    using arg_cong [where f = set, OF names] unfolding a b by simp
  have "set (po_added (plan debug (Inr a) (Inr b))) = {}" "set (po_removed (plan debug (Inr a) (Inr b))) = {}"
    unfolding p(6,9) sets by simp_all
  moreover have "ch_name ` set (po_changed (plan debug (Inr a) (Inr b))) = slo_rule_names fl humantime from_str files"
  proof (intro equalityI subsetI)
    fix n
    assume "n \<in> ch_name ` set (po_changed (plan debug (Inr a) (Inr b)))"
    then obtain x y where x: "x \<in> set (lo_rules a)" and y: "y \<in> set (lo_rules b)" "r_name y = r_name x" "x \<noteq> y" and n: "n = r_name x"
      unfolding p(12) by (auto simp: diff_rules_def)
    from x obtain r content where f: "(r, content) \<in> set files" and "x \<in> set (?rules from (r, content))"
      unfolding a by auto
    moreover from same [OF f] obtain rs rs' where rs: "?parse (from @ r, Inr content) = Inr rs" "?parse (to @ r, Inr content) = Inr rs'"
      "\<forall>x \<in> set rs. x \<in> set rs' \<or> r_name x \<in> file_slo_names fl humantime from_str content"
      by blast
    moreover have "x \<notin> set rs'"
    proof
      assume "x \<in> set rs'"
      then have "x \<in> set (lo_rules b)"
        using f rs(2) unfolding b by force
      with y d(2) show False
        by (auto simp: distinct_map dest: inj_onD)
    qed
    ultimately have "n \<in> file_slo_names fl humantime from_str content"
      by (auto simp: n)
    with f show "n \<in> slo_rule_names fl humantime from_str files"
      unfolding slo_rule_names_def file_slo_names_def mem_Collect_eq by blast
  next
    fix n
    assume "n \<in> slo_rule_names fl humantime from_str files"
    then obtain r content where f: "(r, content) \<in> set files" and n: "n \<in> file_slo_names fl humantime from_str content"
      unfolding slo_rule_names_def file_slo_names_def mem_Collect_eq by blast
    from same [OF f] n obtain rs rs' x y where "?parse (from @ r, Inr content) = Inr rs" "?parse (to @ r, Inr content) = Inr rs'"
      and x: "x \<in> set rs" "r_name x = n" and y: "y \<in> set rs'" "r_name y = n" "x \<noteq> y"
      by blast
    with f have "x \<in> set (lo_rules a)" "y \<in> set (lo_rules b)"
      unfolding a b by force+
    with x y have "diff_rules debug n y x \<in> set (po_changed (plan debug (Inr a) (Inr b)))"
      unfolding p(12) by blast
    then show "n \<in> ch_name ` set (po_changed (plan debug (Inr a) (Inr b)))"
      by (rule rev_image_eqI) (simp add: diff_rules_def)
  qed
  ultimately show ?thesis
    using diag by simp
qed

section \<open>A concrete catalogue\<close>

text \<open>A source of one file with a rule and an SLO, and a deployed copy of it.\<close>

definition lw_float_ops :: "int float_ops" where
  "lw_float_ops = sample_float_ops\<lparr>fl_one := 2\<rparr>"

definition lw_duration :: duration_parser where
  "lw_duration raw = Inr supported_budget_period"

definition lw_from_str :: "string \<Rightarrow> string + int file_shape" where
  "lw_from_str content = Inr \<lparr>fs_rules = [sample_raw_rule ''up''],
     fs_slo = [\<lparr>rl_service = ''api'', rl_good_events_query = ''good'', rl_total_events_query = ''total'', rl_target_availability = 1,
       rl_error_budget_period = ''30d'', rl_sinks = []\<rparr>]\<rparr>"

definition lw_nodes :: "fs_node list" where
  "lw_nodes = [FileNode ''a.toml'' (Inr ''x'')]"

definition lw_slo :: "string \<Rightarrow> int slo" where
  "lw_slo path = \<lparr>slo_service = ''api'', slo_good_events = ''good'', slo_total_events = ''total'', slo_target_availability = 1,
     slo_error_budget_period = supported_budget_period, slo_sinks = [], slo_source_path = Some path\<rparr>"

lemma lw_slos: "slos_at lw_float_ops lw_duration \<lparr>fs_rules = rs,
     fs_slo = [\<lparr>rl_service = ''api'', rl_good_events_query = ''good'', rl_total_events_query = ''total'', rl_target_availability = 1,
       rl_error_budget_period = ''30d'', rl_sinks = []\<rparr>]\<rparr> path = Inr [lw_slo path]"
  by (simp add: slos_at_def into_slo_def lw_float_ops_def sample_float_ops_def lw_duration_def parse_duration_def convert_sinks_def
      lw_slo_def Let_def)

definition lw_rules :: "string \<Rightarrow> rule list" where
  "lw_rules path = \<lparr>r_name = ''up'', r_query = ''up == 0'', r_for_duration = supported_budget_period,
     r_interval = supported_budget_period, r_severity = Critical, r_labels = [], r_sinks = [], r_inhibits = []\<rparr> #
     synthesise_slo lw_float_ops (lw_slo path)"

lemma lw_parse: "parse_file lw_float_ops lw_duration lw_from_str (path, Inr ''x'') = Inr (lw_rules (path_display path))"
  unfolding parse_file_at
  by (simp add: lw_from_str_def lw_slos hand_rules_def into_rule_def sample_raw_rule_def lw_duration_def parse_duration_def
      convert_sinks_def lw_rules_def)

lemma lw_names: "map r_name (lw_rules path) =
    [''up'', ''api_slo_page_1h_5m'', ''api_slo_page_6h_30m'', ''api_slo_ticket_1d_2h'', ''api_slo_ticket_3d_6h'']"
  by (simp add: lw_rules_def synthesise_slo_def mwmbr_table_def synthesise_row_def lw_slo_def Let_def)

lemma lw_files: "collect_toml_files dir lw_nodes = Inr [(dir @ [''a.toml''], Inr ''x'')]"
  by (simp add: lw_nodes_def extension_toml_def suffix_def)

lemma lw_tree: "tree_holds dir lw_nodes [([''a.toml''], ''x'')]"
  by (simp add: tree_holds_def lw_files)

lemma lw_load:
  "\<exists>a. load_rules lw_float_ops lw_duration lw_from_str dir (Inr lw_nodes) = Inr a \<and> lo_diagnostics a = [] \<and>
     lo_rules a = lw_rules (path_display (dir @ [''a.toml'']))"
proof -
  let ?rules = "lw_rules (path_display (dir @ [''a.toml'']))"
  obtain a where a: "load_rules lw_float_ops lw_duration lw_from_str dir (Inr lw_nodes) = Inr a"
    by (cases "load_step (parse_file lw_float_ops lw_duration lw_from_str) (dir @ [''a.toml''], Inr ''x'')
      (\<lparr>lo_rules = [], lo_diagnostics = []\<rparr>, [])") (simp add: load_rules_def lw_files)
  have parsed: "parsed_rules (parse_file lw_float_ops lw_duration lw_from_str) (sort_key fst [(dir @ [''a.toml''], Inr ''x'')]) = ?rules"
    by (simp add: parsed_rules_def lw_parse)
  have "n \<notin> set (duplicate_names ?rules)" for n
    unfolding duplicate_names_set lw_names by (auto split: if_splits)
  then have dup: "duplicate_names ?rules = []"
    by (metis ex_in_conv set_empty)
  have d: "lo_diagnostics a = []"
    by (rule load_clean_intro [OF a lw_files]) (simp_all only: parsed dup list.set ball_simps lw_parse, blast)
  from load_clean(1) [OF a d lw_files] a d show ?thesis
    unfolding parsed by blast
qed

text \<open>After the copy the plan reports the four rules of the SLO, and only them.\<close>

theorem loom_plan_after_apply_witness:
  "\<exists>a b. load_rules lw_float_ops lw_duration lw_from_str [''src''] (Inr lw_nodes) = Inr a \<and>
     load_rules lw_float_ops lw_duration lw_from_str [''live''] (Inr lw_nodes) = Inr b \<and>
     po_added (plan nat_str (Inr a) (Inr b)) = [] \<and> ''api_slo_page_1h_5m'' \<in> ch_name ` set (po_changed (plan nat_str (Inr a) (Inr b)))"
proof -
  obtain a b where a: "load_rules lw_float_ops lw_duration lw_from_str [''src''] (Inr lw_nodes) = Inr a" "lo_diagnostics a = []"
    and b: "load_rules lw_float_ops lw_duration lw_from_str [''live''] (Inr lw_nodes) = Inr b"
    using lw_load by blast
  have "''api_slo_page_1h_5m'' \<in> r_name ` set (synthesise_slo lw_float_ops (lw_slo []))"
    by (simp add: synthesise_slo_def mwmbr_table_def synthesise_row_def lw_slo_def Let_def)
  then have "''api_slo_page_1h_5m'' \<in> slo_rule_names lw_float_ops lw_duration lw_from_str [([''a.toml''], ''x'')]"
    unfolding slo_rule_names_def lw_from_str_def using lw_slos by (fastforce simp: image_iff)
  with loom_plan_after_apply [OF lw_tree lw_tree a b, of nat_str] a b show ?thesis
    by auto
qed

theorem loom_plan_exact_witness:
  "\<exists>a. load_rules lw_float_ops lw_duration lw_from_str [''src''] (Inr lw_nodes) = Inr a \<and>
     po_changed (plan nat_str (Inr a) (Inr a)) = [] \<and> plan_exit_code (plan nat_str (Inr a) (Inr a)) = 0"
proof -
  obtain a where a: "load_rules lw_float_ops lw_duration lw_from_str [''src''] (Inr lw_nodes) = Inr a" "lo_diagnostics a = []"
    using lw_load by blast
  from loom_plan_exact [OF a(1) a(1), where debug = nat_str, OF refl] a show ?thesis
    by simp
qed

definition lw_io :: loom_io where
  "lw_io = \<lparr>li_walk_from = None, li_mkdir = None, li_walk_to = None, li_missing = ''No such file or directory'',
     li_read = (\<lambda>_. None), li_write = (\<lambda>_. None), li_remove = (\<lambda>_. None)\<rparr>"

definition lw_disk :: disk where
  "lw_disk = [([''src'', ''a.toml''], ''x''), ([''live'', ''b.toml''], ''y''), ([''live'', ''README''], ''z'')]"

lemma lw_apply:
  "loom_apply lw_io (Inr \<lparr>lo_rules = [], lo_diagnostics = []\<rparr>) [''src''] [''live''] lw_disk =
     (\<lparr>ao_written = [[''live'', ''a.toml'']], ao_removed = [[''live'', ''b.toml'']], ao_unchanged = [], ao_diagnostics = [],
       ao_fatal = None\<rparr>,
      [([''src'', ''a.toml''], ''x''), ([''live'', ''README''], ''z''), ([''live'', ''a.toml''], ''x'')])"
  by code_simp

lemma lw_disk_get: "hm_get lw_disk [''src'', ''a.toml''] = Some ''x''" "hm_get lw_disk [''src'', ''b.toml''] = None"
  by (simp_all add: lw_disk_def)

lemma lw_apart: "apart [''src''] [''live'']"
  by (simp add: apart_def)

theorem loom_apply_mirrors_witness:
  "\<exists>disk'. snd (loom_apply lw_io (Inr \<lparr>lo_rules = [], lo_diagnostics = []\<rparr>) [''src''] [''live''] lw_disk) = disk' \<and>
     hm_get disk' [''live'', ''a.toml''] = Some ''x'' \<and> hm_get disk' [''live'', ''b.toml''] = None"
proof -
  have "[''a.toml''] \<noteq> [] \<and> extension_toml (last [''a.toml''])" "[''b.toml''] \<noteq> [] \<and> extension_toml (last [''b.toml''])"
    by code_simp+
  then show ?thesis
    using conjunct1 [OF loom_apply_mirrors [OF lw_apply lw_apart], rule_format, of "[''a.toml'']"]
      conjunct1 [OF loom_apply_mirrors [OF lw_apply lw_apart], rule_format, of "[''b.toml'']"]
    by (simp add: lw_apply lw_disk_get)
qed

theorem loom_apply_whole_files_witness:
  "hm_get (snd (loom_apply lw_io (Inr \<lparr>lo_rules = [], lo_diagnostics = []\<rparr>) [''src''] [''live''] lw_disk)) [''src'', ''a.toml''] = Some ''x''"
  using conjunct1 [OF conjunct2 [OF loom_apply_whole_files [OF lw_apply lw_apart]], rule_format, of "[''a.toml'']"]
  by (simp add: lw_apply lw_disk_get)

text \<open>
  Without the condition the claim fails: with the source a directory of the destination an apply that
  succeeds removes the source files, and a second one removes what the first has written.
\<close>

definition lw_nested :: disk where
  "lw_nested = [([''live'', ''new'', ''a.toml''], ''x'')]"

theorem loom_apply_inside_destination:
  "\<not> apart [''live'', ''new''] [''live''] \<and>
   loom_apply lw_io (Inr \<lparr>lo_rules = [], lo_diagnostics = []\<rparr>) [''live'', ''new''] [''live''] lw_nested =
     (\<lparr>ao_written = [[''live'', ''a.toml'']], ao_removed = [[''live'', ''new'', ''a.toml'']], ao_unchanged = [], ao_diagnostics = [],
       ao_fatal = None\<rparr>, [([''live'', ''a.toml''], ''x'')]) \<and>
   snd (loom_apply lw_io (Inr \<lparr>lo_rules = [], lo_diagnostics = []\<rparr>) [''live'', ''new''] [''live''] [([''live'', ''a.toml''], ''x'')]) = []"
proof (intro conjI)
  show "\<not> apart [''live'', ''new''] [''live'']"
    by (simp add: apart_def)
qed code_simp+

end
