(* ===== verification/Cli_Time.thy ===== *)
theory Cli_Time
  imports Rust_Text "HOL-Library.Signed_Division"
begin

text \<open>
  The instants of the operator CLI (\<open>crates/kaleidoscope-cli/src/lib.rs\<close>): days to dates of the
  proleptic Gregorian calendar and back, the printing of a nanosecond count, and its parser. The date
  conversions work on the machine integers of the code: \<open>i64\<close> and \<open>u64\<close> are 64-bit words, \<open>i32\<close> and
  \<open>u32\<close> 32-bit words, sums and differences wrap as in a release build, and \<open>as i32\<close> keeps the low bits.
  The digits of a text are read into numbers of at most nine digits, which fit their widths.
\<close>

section \<open>Days and dates\<close>

type_synonym i64 = "64 word"
type_synonym u32 = "32 word"

text \<open>\<open>/\<close> on \<open>i64\<close>, towards zero.\<close>

definition i64_div :: "i64 \<Rightarrow> i64 \<Rightarrow> i64" where
  "i64_div a b = word_of_int (sint a sdiv sint b)"

definition civil_from_days :: "i64 \<Rightarrow> i32 \<times> u32 \<times> u32" where
  "civil_from_days days =
     (let z = days + 719468;
          era = i64_div (if 0 \<le> sint z then z else z - 146096) 146097;
          doe = z - era * 146097;
          yoe = (doe - doe div 1460 + doe div 36524 - doe div 146096) div 365;
          y = yoe + era * 400;
          doy = doe - (365 * yoe + yoe div 4 - yoe div 100);
          mp = (5 * doy + 2) div 153;
          d = ucast (doy - (153 * mp + 2) div 5 + 1);
          m = ucast (if mp < 10 then mp + 3 else mp - 9);
          year = ucast (y + (if m \<le> 2 then 1 else 0))
      in (year, m, d))"

fun days_from_civil :: "i32 \<times> u32 \<times> u32 \<Rightarrow> i64" where
  "days_from_civil (year, m, d) =
     (let y = scast year - (if m \<le> 2 then 1 else 0);
          era = i64_div (if 0 \<le> sint y then y else y - 399) 400;
          yoe = y - era * 400;
          m_u = ucast m;
          d_u = ucast d;
          doy = (153 * (if 2 < m_u then m_u - 3 else m_u + 9) + 2) div 5 + d_u - 1;
          doe = yoe * 365 + yoe div 4 - yoe div 100 + doy
      in era * 146097 + doe - 719468)"

definition is_leap_year :: "int \<Rightarrow> bool" where
  "is_leap_year year \<longleftrightarrow> (year mod 4 = 0 \<and> year mod 100 \<noteq> 0) \<or> year mod 400 = 0"

text \<open>The unreachable last arm, a panic, is 0: the parser has checked the month.\<close>

definition days_in_month :: "int \<Rightarrow> int \<Rightarrow> int" where
  "days_in_month year month =
     (if month \<in> {1, 3, 5, 7, 8, 10, 12} then 31
      else if month \<in> {4, 6, 9, 11} then 30
      else if month = 2 then (if is_leap_year year then 29 else 28)
      else 0)"

section \<open>Printing\<close>

text \<open>\<open>{n:0w}\<close>: padded with zeros on the left to the width.\<close>

definition zero_padded :: "nat \<Rightarrow> nat \<Rightarrow> string" where
  "zero_padded w n = replicate (w - length (nat_str n)) CHR ''0'' @ nat_str n"

text \<open>No year printed is negative: the days are those of a 64-bit nanosecond count.\<close>

definition format_iso8601_utc_nanos :: "u64 \<Rightarrow> string" where
  "format_iso8601_utc_nanos ns =
     (let total_seconds = ns div 1000000000;
          nanos_of_second = ns mod 1000000000;
          total_days = total_seconds div 86400;
          secs_of_day = total_seconds mod 86400;
          hour = secs_of_day div 3600;
          minute = (secs_of_day mod 3600) div 60;
          second = secs_of_day mod 60;
          (year, month, day) = civil_from_days total_days
      in zero_padded 4 (nat (sint year)) @ ''-'' @ zero_padded 2 (unat month) @ ''-'' @ zero_padded 2 (unat day) @ ''T'' @
         zero_padded 2 (unat hour) @ '':'' @ zero_padded 2 (unat minute) @ '':'' @ zero_padded 2 (unat second) @ ''.'' @
         zero_padded 9 (unat nanos_of_second) @ ''Z'')"

section \<open>Parsing\<close>

datatype iso_parse_error =
  BadLength nat | BadPunctuation nat char char | NonDigit nat | OutOfRange string int

fun iso_error_display :: "(char \<Rightarrow> string) \<Rightarrow> iso_parse_error \<Rightarrow> string" where
  "iso_error_display debug (BadLength len) =
     ''invalid ISO 8601 length '' @ nat_str len @ '': expected 20 (no fraction) or 22..=30 (with 1..=9 fractional digits)''"
| "iso_error_display debug (BadPunctuation pos expected got) =
     ''invalid ISO 8601 punctuation at position '' @ nat_str pos @ '': expected '' @ debug expected @ '', got '' @ debug got"
| "iso_error_display debug (NonDigit pos) = ''invalid ISO 8601 non-digit at position '' @ nat_str pos"
| "iso_error_display debug (OutOfRange field v) = ''invalid ISO 8601 '' @ field @ '' out of range: '' @ nat_str (nat v)"

text \<open>The slots that must hold punctuation, in the order they are checked.\<close>

definition iso_puncts :: "nat \<Rightarrow> (nat \<times> char) list" where
  "iso_puncts len =
     [(4, CHR ''-''), (7, CHR ''-''), (10, CHR ''T''), (13, CHR '':''), (16, CHR '':'')] @
     (if len = 20 then [(19, CHR ''Z'')] else [(19, CHR ''.''), (len - 1, CHR ''Z'')])"

fun iso_punct :: "string \<Rightarrow> (nat \<times> char) list \<Rightarrow> iso_parse_error option" where
  "iso_punct bytes [] = None"
| "iso_punct bytes ((pos, expected) # ps) =
     (if bytes ! pos \<noteq> expected then Some (BadPunctuation pos expected (bytes ! pos)) else iso_punct bytes ps)"

fun iso_digits_loop :: "string \<Rightarrow> nat \<Rightarrow> nat \<Rightarrow> iso_parse_error + nat" where
  "iso_digits_loop [] pos acc = Inr acc"
| "iso_digits_loop (b # bs) pos acc =
     (if is_ascii_digit b then iso_digits_loop bs (pos + 1) (acc * 10 + (of_char b - 48)) else Inl (NonDigit pos))"

definition iso_digits :: "string \<Rightarrow> nat \<Rightarrow> nat \<Rightarrow> iso_parse_error + nat" where
  "iso_digits bytes start to_exclusive = iso_digits_loop (take (to_exclusive - start) (drop start bytes)) start 0"

text \<open>The six fields, in order, up to the first that is not a number.\<close>

fun iso_fields :: "string \<Rightarrow> (nat \<times> nat) list \<Rightarrow> iso_parse_error + int list" where
  "iso_fields bytes [] = Inr []"
| "iso_fields bytes ((start, to_exclusive) # slots) =
     (case iso_digits bytes start to_exclusive of
        Inl e \<Rightarrow> Inl e
      | Inr v \<Rightarrow> (case iso_fields bytes slots of Inl e \<Rightarrow> Inl e | Inr vs \<Rightarrow> Inr (int v # vs)))"

definition iso_slots :: "(nat \<times> nat) list" where
  "iso_slots = [(0, 4), (5, 7), (8, 10), (11, 13), (14, 16), (17, 19)]"

definition iso_range :: "int list \<Rightarrow> iso_parse_error option" where
  "iso_range fields =
     (let year = fields ! 0; month = fields ! 1; day = fields ! 2; hour = fields ! 3; minute = fields ! 4; second = fields ! 5 in
      if \<not> (1970 \<le> year \<and> year \<le> 9999) then Some (OutOfRange ''year'' year)
      else if \<not> (1 \<le> month \<and> month \<le> 12) then Some (OutOfRange ''month'' month)
      else if \<not> (1 \<le> day \<and> day \<le> days_in_month year month) then Some (OutOfRange ''day'' day)
      else if 23 < hour then Some (OutOfRange ''hour'' hour)
      else if 59 < minute then Some (OutOfRange ''minute'' minute)
      else if 59 < second then Some (OutOfRange ''second'' second)
      else None)"

definition iso_fraction :: "string \<Rightarrow> iso_parse_error + u64" where
  "iso_fraction bytes =
     (if length bytes = 20 then Inr 0
      else
        let frac_start = 20; frac_end = length bytes - 1; frac_len = frac_end - frac_start in
        case iso_digits bytes frac_start frac_end of
          Inl e \<Rightarrow> Inl e
        | Inr acc \<Rightarrow> Inr (word_of_nat acc * 10 ^ (9 - frac_len)))"

definition parse_iso8601_utc_nanos :: "string \<Rightarrow> iso_parse_error + u64" where
  "parse_iso8601_utc_nanos bytes =
     (let len = length bytes in
      if \<not> (len = 20 \<or> (22 \<le> len \<and> len \<le> 30)) then Inl (BadLength len)
      else
        case iso_punct bytes (iso_puncts len) of Some e \<Rightarrow> Inl e | None \<Rightarrow>
        case iso_fields bytes iso_slots of Inl e \<Rightarrow> Inl e | Inr fields \<Rightarrow>
        case iso_range fields of Some e \<Rightarrow> Inl e | None \<Rightarrow>
        case iso_fraction bytes of Inl e \<Rightarrow> Inl e | Inr fractional_nanos \<Rightarrow>
          let day_index = days_from_civil (word_of_int (fields ! 0), word_of_int (fields ! 1), word_of_int (fields ! 2));
              secs_of_day = fields ! 3 * 3600 + fields ! 4 * 60 + fields ! 5;
              total_seconds = day_index * 86400 + word_of_int secs_of_day :: u64
          in Inr (total_seconds * 1000000000 + fractional_nanos))"

end
