(* ===== verification/Cli_Calendar.thy ===== *)
theory Cli_Calendar
  imports Cli_Time
begin

text \<open>
  The date conversion of the CLI against the calendar: the Gregorian successor of a date, stated from
  the month lengths alone, is what the closed formulas compute day by day, in both directions.
\<close>

section \<open>The closed formulas over the integers\<close>

text \<open>What the machine arithmetic computes as long as nothing leaves its width.\<close>

type_synonym civil = "int \<times> int \<times> int"

definition civil_of_day :: "int \<Rightarrow> civil" where
  "civil_of_day day =
     (let z = day + 719468;
          era = (if 0 \<le> z then z else z - 146096) sdiv 146097;
          doe = z - era * 146097;
          yoe = (doe - doe div 1460 + doe div 36524 - doe div 146096) div 365;
          y = yoe + era * 400;
          doy = doe - (365 * yoe + yoe div 4 - yoe div 100);
          mp = (5 * doy + 2) div 153;
          d = doy - (153 * mp + 2) div 5 + 1;
          m = (if mp < 10 then mp + 3 else mp - 9)
      in (y + (if m \<le> 2 then 1 else 0), m, d))"

fun day_of_civil :: "civil \<Rightarrow> int" where
  "day_of_civil (year, m, d) =
     (let y = year - (if m \<le> 2 then 1 else 0);
          era = (if 0 \<le> y then y else y - 399) sdiv 400;
          yoe = y - era * 400;
          doy = (153 * (if 2 < m then m - 3 else m + 9) + 2) div 5 + d - 1;
          doe = yoe * 365 + yoe div 4 - yoe div 100 + doy
      in era * 146097 + doe - 719468)"

section \<open>The calendar\<close>

fun valid_date :: "civil \<Rightarrow> bool" where
  "valid_date (y, m, d) \<longleftrightarrow> 1 \<le> m \<and> m \<le> 12 \<and> 1 \<le> d \<and> d \<le> days_in_month y m"

fun next_date :: "civil \<Rightarrow> civil" where
  "next_date (y, m, d) =
     (if d < days_in_month y m then (y, m, d + 1) else if m < 12 then (y, m + 1, 1) else (y + 1, 1, 1))"

lemma twelve_months:
  "1 \<le> m \<Longrightarrow> m \<le> 12 \<Longrightarrow> m = 1 \<or> m = 2 \<or> m = 3 \<or> m = 4 \<or> m = 5 \<or> m = 6 \<or> m = 7 \<or> m = 8 \<or> m = 9 \<or> m = 10 \<or> m = 11 \<or> m = (12::int)"
  by presburger

lemma era_floor:
  "(if 0 \<le> z then z else z - 146096) sdiv 146097 = z div (146097 :: int)"
  "(if 0 \<le> y then y else y - 399) sdiv 400 = y div (400 :: int)"
  by (auto simp: signed_divide_int_def sgn_if abs_if; presburger)+

section \<open>The year within an era\<close>

text \<open>The first day of a year counted from March within its era of 400 years.\<close>

definition year_start :: "int \<Rightarrow> int" where
  "year_start y = 365 * y + y div 4 - y div 100 + y div 400"

text \<open>The years counted as centuries, groups of four and the rest.\<close>

lemma year_numerator:
  assumes "0 \<le> c" "c \<le> 3" "0 \<le> q" "q \<le> 24" "0 \<le> k" "k \<le> (3::int)" "0 \<le> doy"
    and "doy \<le> 364 \<or> (doy = 365 \<and> k = 3 \<and> (q \<le> 23 \<or> c = 3))"
    and doe: "doe = 36524 * c + 1461 * q + 365 * k + doy"
  shows "(doe - doe div 1460 + doe div 36524 - doe div 146096) div 365 = 100 * c + 4 * q + k"
proof -
  let ?r = "24 * c + q + 365 * k + doy"
  have "doe div 1460 = 25 * c + q + (if ?r < 1460 then 0 else 1)"
    by (rule int_div_pos_eq [where r = "if ?r < 1460 then ?r else ?r - 1460"]) (use assms in auto)
  moreover have "doe div 36524 - doe div 146096 = c"
  proof (cases "doe = 146096")
    case False
    have "doe div 36524 = c"
      by (rule int_div_pos_eq [where r = "doe - 36524 * c"]) (use assms False in auto)
    moreover have "doe div 146096 = 0"
      by (rule div_pos_pos_trivial) (use assms False in auto)
    ultimately show ?thesis
      by simp
  qed (use assms in auto)
  ultimately have "doe - doe div 1460 + doe div 36524 - doe div 146096 =
      365 * (100 * c + 4 * q + k) + (doy - (if ?r < 1460 then 0 else 1))"
    by (simp add: doe)
  moreover have "0 \<le> doy - (if ?r < 1460 then 0 else 1)" "doy - (if ?r < 1460 then 0 else 1) < 365"
    using assms by auto
  ultimately show ?thesis
    using int_div_pos_eq by blast
qed

lemma div_step:
  assumes "0 < (k::int)"
  shows "(y + 1) div k = y div k + (if (y + 1) mod k = 0 then 1 else 0)"
proof -
  have "k * ((y + 1) div k) + (y + 1) mod k = y + 1"
    by (rule mult_div_mod_eq)
  then have y: "y = k * ((y + 1) div k) + ((y + 1) mod k - 1)"
    by linarith
  have bounds: "0 \<le> (y + 1) mod k" "(y + 1) mod k < k"
    using assms by simp_all
  show ?thesis
  proof (cases "(y + 1) mod k = 0")
    case True
    with y have "y = k * ((y + 1) div k) - 1"
      by linarith
    then have "y = k * ((y + 1) div k - 1) + (k - 1)"
      unfolding right_diff_distrib by linarith
    from int_div_pos_eq [OF this] assms True show ?thesis
      by simp
  next
    case False
    with int_div_pos_eq [OF y] bounds show ?thesis
      by simp
  qed
qed

lemma leap_divides: "(y::int) mod 400 = 0 \<Longrightarrow> y mod 100 = 0" "(y::int) mod 100 = 0 \<Longrightarrow> y mod 4 = 0"
  using dvd_trans [of 100 400 y] dvd_trans [of 4 100 y] by (auto simp: mod_eq_0_iff_dvd)

lemma year_length: "year_start (y + 1) = year_start y + (if is_leap_year (y + 1) then 366 else 365)"
  using leap_divides [of "y + 1"] by (auto simp: year_start_def is_leap_year_def div_step)

lemma year_of_day:
  assumes "0 \<le> yoe" and "yoe < 400" and "year_start yoe \<le> doe" and "doe < year_start (yoe + 1)"
  shows "(doe - doe div 1460 + doe div 36524 - doe div 146096) div 365 = yoe"
proof -
  define c q k where "c = yoe div 100" and "q = yoe mod 100 div 4" and "k = yoe mod 4"
  have yoe: "yoe = 100 * c + 4 * q + k"
    using mult_div_mod_eq [of 100 yoe] mult_div_mod_eq [of 4 "yoe mod 100"] mod_mod_cancel [of 4 100 yoe, simplified]
    unfolding c_def q_def k_def by linarith
  have "0 \<le> yoe mod 100" "yoe mod 100 < 100"
    by simp_all
  then have bounds: "0 \<le> c" "c \<le> 3" "0 \<le> q" "q \<le> 24" "0 \<le> k" "k \<le> 3"
    using assms(1,2) unfolding c_def q_def k_def by linarith+
  have "yoe div 4 = 25 * c + q" "yoe div 100 = c" "yoe div 400 = 0"
    using assms(1,2) bounds unfolding yoe by (simp_all add: int_div_pos_eq [where r = k] int_div_pos_eq [where r = "4 * q + k"])
  then have start: "year_start yoe = 36524 * c + 1461 * q + 365 * k"
    by (simp add: year_start_def yoe)
  have leap: "k = 3 \<and> (q \<le> 23 \<or> c = 3)" if "is_leap_year (yoe + 1)"
  proof -
    have four: "(yoe + 1) mod 4 = 0"
      using that leap_divides [of "yoe + 1"] by (auto simp: is_leap_year_def)
    then have "k = 3"
      unfolding k_def by presburger
    moreover have "c = 3" if "q = 24"
    proof -
      have "yoe + 1 = 100 * (c + 1)"
        by (simp add: yoe \<open>k = 3\<close> that)
      with \<open>is_leap_year (yoe + 1)\<close> have "(100 * (c + 1)) mod 400 = 0"
        by (auto simp: is_leap_year_def)
      moreover have "c = 0 \<or> c = 1 \<or> c = 2 \<or> c = 3"
        using bounds(1,2) by linarith
      ultimately show ?thesis
        by auto
    qed
    ultimately show ?thesis
      using bounds by force
  qed
  define doy where "doy = doe - year_start yoe"
  have "0 \<le> doy" "doe = 36524 * c + 1461 * q + 365 * k + doy"
    using assms(3) start by (simp_all add: doy_def)
  moreover have "doy \<le> 364 \<or> doy = 365 \<and> k = 3 \<and> (q \<le> 23 \<or> c = 3)"
    using leap year_length [of yoe] assms(4) unfolding doy_def by (cases "is_leap_year (yoe + 1)") auto
  ultimately show ?thesis
    using year_numerator [OF bounds, of doy doe] yoe by simp
qed

lemma year_start_bounds:
  assumes "0 \<le> yoe" and "yoe < 400"
  shows "0 \<le> year_start yoe" "year_start (yoe + 1) \<le> 146097"
proof -
  have "0 \<le> yoe div 100" "yoe div 100 \<le> yoe" "0 \<le> yoe div 4" "0 \<le> yoe div 400"
    using assms by linarith+
  then show "0 \<le> year_start yoe"
    using assms unfolding year_start_def by linarith
  show "year_start (yoe + 1) \<le> 146097"
  proof (cases "yoe = 399")
    case False
    then have "(yoe + 1) div 4 \<le> 99" "0 \<le> (yoe + 1) div 100" "(yoe + 1) div 400 = 0" "yoe \<le> 398"
      using assms by simp_all
    then show ?thesis
      by (simp add: year_start_def)
  qed (simp add: year_start_def)
qed

lemma year_exists:
  assumes "0 \<le> doe" and "doe < 146097"
  shows "\<exists>yoe \<ge> 0. yoe < 400 \<and> year_start yoe \<le> doe \<and> doe < year_start (yoe + 1)"
proof -
  have "\<exists>yoe \<ge> 0. yoe < int n \<and> year_start yoe \<le> doe \<and> doe < year_start (yoe + 1)" if "doe < year_start (int n)" for n
    using that
  proof (induction n)
    case 0
    with assms show ?case
      by (simp add: year_start_def)
  next
    case (Suc n)
    show ?case
    proof (cases "doe < year_start (int n)")
      case True
      with Suc.IH obtain yoe where "0 \<le> yoe" "yoe < int n" "year_start yoe \<le> doe" "doe < year_start (yoe + 1)"
        by blast
      then show ?thesis
        by (intro exI [of _ yoe]) simp
    next
      case False
      with Suc.prems show ?thesis
        by (intro exI [of _ "int n"]) (simp add: add.commute)
    qed
  qed
  from this [of 400] assms show ?thesis
    by (simp add: year_start_def)
qed

section \<open>Both directions\<close>

text \<open>The days of a date, as the era, the year and the day of the year it falls in.\<close>

lemma civil_of_dayE:
  obtains era yoe doy where "0 \<le> yoe" "yoe < 400" "0 \<le> doy" "doy < 365 + (if is_leap_year (yoe + 1) then 1 else 0)"
    and "day + 719468 = 146097 * era + year_start yoe + doy"
    and "civil_of_day day =
      (let mp = (5 * doy + 2) div 153; m = (if mp < 10 then mp + 3 else mp - 9)
       in (yoe + era * 400 + (if m \<le> 2 then 1 else 0), m, doy - (153 * mp + 2) div 5 + 1))"
proof -
  define z where "z = day + 719468"
  define era where "era = z div 146097"
  define doe where "doe = z mod 146097"
  have z: "z = 146097 * era + doe" and doe: "0 \<le> doe" "doe < 146097"
    by (simp_all add: era_def doe_def)
  obtain yoe where yoe: "0 \<le> yoe" "yoe < 400" "year_start yoe \<le> doe" "doe < year_start (yoe + 1)"
    using year_exists [OF doe] by blast
  have start: "365 * yoe + yoe div 4 - yoe div 100 = year_start yoe"
    using yoe by (simp add: year_start_def)
  show thesis
  proof (rule that [of yoe "doe - year_start yoe" era])
    show "doe - year_start yoe < 365 + (if is_leap_year (yoe + 1) then 1 else 0)"
      using yoe year_length [of yoe] by auto
    show "day + 719468 = 146097 * era + year_start yoe + (doe - year_start yoe)"
      using z by (simp add: z_def)
    have e: "z - era * 146097 = doe"
      using z by (simp add: era_def)
    show "civil_of_day day =
        (let mp = (5 * (doe - year_start yoe) + 2) div 153; m = (if mp < 10 then mp + 3 else mp - 9)
         in (yoe + era * 400 + (if m \<le> 2 then 1 else 0), m, (doe - year_start yoe) - (153 * mp + 2) div 5 + 1))"
      unfolding civil_of_day_def z_def [symmetric] era_floor Let_def e year_of_day [OF yoe] start era_def [symmetric]
      by (rule refl)
  qed (use yoe in auto)
qed

lemma day_of_civil_march:
  assumes "0 \<le> yoe" and "yoe < 400"
  shows "day_of_civil (yoe + era * 400 + (if m \<le> 2 then 1 else 0), m, d) =
    146097 * era + year_start yoe + ((153 * (if 2 < m then m - 3 else m + 9) + 2) div 5 + d - 1) - 719468"
proof -
  have "(yoe + era * 400) div 400 = era"
    using assms by simp
  then show ?thesis
    using assms by (simp add: era_floor Let_def year_start_def)
qed

text \<open>In closed form, with the eras folded into the count of the leap years.\<close>

lemma day_of_civil_start:
  "day_of_civil (year, m, d) =
    year_start (if m \<le> 2 then year - 1 else year) + ((153 * (if 2 < m then m - 3 else m + 9) + 2) div 5 + d - 1) - 719468"
proof -
  define y where "y = (if m \<le> 2 then year - 1 else year)"
  have y: "y = y mod 400 + y div 400 * 400" "0 \<le> y mod 400" "y mod 400 < 400"
    by simp_all
  have "(x + e * 400) div 4 = x div 4 + 100 * e" "(x + e * 400) div 100 = x div 100 + 4 * e" "(x + e * 400) div 400 = x div 400 + e" for x e :: int
    using div_mult_self1 [of 4 x "100 * e"] div_mult_self1 [of 100 x "4 * e"] div_mult_self1 [of 400 x e]
    by (simp_all add: algebra_simps)
  then have "year_start (x + e * 400) = 146097 * e + year_start x" for x e
    by (simp add: year_start_def)
  then have "year_start y = 146097 * (y div 400) + year_start (y mod 400)"
    using y(1) by metis
  moreover have "y mod 400 + y div 400 * 400 + (if m \<le> 2 then 1 else 0) = year"
    by (simp add: y_def)
  ultimately show ?thesis
    using day_of_civil_march [OF y(2,3), of "y div 400" m d] unfolding y_def [symmetric] by (simp only:)
qed

declare day_of_civil.simps [simp del]

text \<open>The days of the months, from March, are consecutive runs of the days of the year.\<close>

lemma month_of_day:
  assumes "0 \<le> doy" and "doy \<le> 365" and "mp = (5 * doy + 2) div (153::int)"
  shows "0 \<le> mp" "mp \<le> 11" "(153 * mp + 2) div 5 \<le> doy" "doy < (153 * (mp + 1) + 2) div 5"
proof -
  show "0 \<le> mp" "mp \<le> 11" "(153 * mp + 2) div 5 \<le> doy"
    using assms by linarith+
  have "5 * doy + 2 = 153 * mp + (5 * doy + 2) mod 153" "(5 * doy + 2) mod 153 < 153"
    using mult_div_mod_eq [of 153 "5 * doy + 2"] unfolding assms(3) by simp_all
  then have "5 * (doy + 1) \<le> 153 * (mp + 1) + 2"
    by simp
  from zdiv_mono1 [OF this, of 5] show "doy < (153 * (mp + 1) + 2) div 5"
    by simp
qed

lemma day_of_month:
  assumes "(153 * mp + 2) div 5 \<le> doy" and "doy < (153 * (mp + 1) + 2) div (5::int)"
  shows "(5 * doy + 2) div 153 = mp"
proof (rule int_div_pos_eq [where r = "5 * doy + 2 - 153 * mp"])
  define x where "x = (153 * (mp + 1) + 2) div 5"
  have "5 * x \<le> 153 * (mp + 1) + 2"
    unfolding x_def by linarith
  moreover have "doy + 1 \<le> x"
    using assms(2) unfolding x_def by simp
  ultimately show "5 * doy + 2 - 153 * mp < 153"
    by simp
qed (use assms(1) in linarith)+

lemma leap_era: "is_leap_year (y + era * 400) = is_leap_year y"
proof -
  have "(y + era * 400) mod 4 = y mod 4" "(y + era * 400) mod 100 = y mod 100" "(y + era * 400) mod 400 = y mod 400"
    using mod_mult_self1 [of y "era * 100" 4] mod_mult_self1 [of y "era * 4" 100] mod_mult_self1 [of y era 400]
    by (simp_all add: mult.assoc)
  then show ?thesis
    by (simp add: is_leap_year_def)
qed

lemma month_days:
  assumes "1 \<le> m" and "m \<le> 12" and "mp = (if 2 < m then m - 3 else m + 9)" and "m \<noteq> 2"
  shows "days_in_month y m = (153 * (mp + 1) + 2) div 5 - (153 * mp + 2) div 5"
  using twelve_months [OF assms(1,2)] assms(3,4) by (elim disjE) (simp_all add: days_in_month_def)

lemma valid_civil_of_day: "valid_date (civil_of_day day)"
proof -
  obtain era yoe doy where yoe: "0 \<le> yoe" "yoe < 400" "0 \<le> doy" "doy < 365 + (if is_leap_year (yoe + 1) then 1 else 0)"
    and c: "civil_of_day day =
      (let mp = (5 * doy + 2) div 153; m = (if mp < 10 then mp + 3 else mp - 9)
       in (yoe + era * 400 + (if m \<le> 2 then 1 else 0), m, doy - (153 * mp + 2) div 5 + 1))"
    by (rule civil_of_dayE)
  define mp where "mp = (5 * doy + 2) div 153"
  define m where "m = (if mp < 10 then mp + 3 else mp - 9)"
  have "doy \<le> 365"
    using yoe(4) by (auto split: if_splits)
  note mp = month_of_day [OF yoe(3) this mp_def]
  have m: "1 \<le> m" "m \<le> 12" "mp = (if 2 < m then m - 3 else m + 9)"
    using mp by (auto simp: m_def)
  have "doy - (153 * mp + 2) div 5 + 1 \<le> days_in_month (yoe + era * 400 + (if m \<le> 2 then 1 else 0)) m"
  proof (cases "m = 2")
    case True
    have "is_leap_year (yoe + era * 400 + 1) = is_leap_year (yoe + 1)"
      using leap_era [of "yoe + 1" era] by (simp only: add.assoc add.commute)
    with True m yoe(4) show ?thesis
      by (auto simp: days_in_month_def)
  next
    case False
    with month_days [OF m False] mp show ?thesis
      by simp
  qed
  with m mp show ?thesis
    unfolding c Let_def mp_def [symmetric] m_def [symmetric] by simp
qed

lemma day_of_civil_of_day: "day_of_civil (civil_of_day day) = day"
proof -
  obtain era yoe doy where yoe: "0 \<le> yoe" "yoe < 400" "0 \<le> doy" "doy < 365 + (if is_leap_year (yoe + 1) then 1 else 0)"
    and day: "day + 719468 = 146097 * era + year_start yoe + doy"
    and c: "civil_of_day day =
      (let mp = (5 * doy + 2) div 153; m = (if mp < 10 then mp + 3 else mp - 9)
       in (yoe + era * 400 + (if m \<le> 2 then 1 else 0), m, doy - (153 * mp + 2) div 5 + 1))"
    by (rule civil_of_dayE)
  define mp where "mp = (5 * doy + 2) div 153"
  define m where "m = (if mp < 10 then mp + 3 else mp - 9)"
  have "doy \<le> 365"
    using yoe(4) by (auto split: if_splits)
  note mp = month_of_day [OF yoe(3) this mp_def]
  have "(if 2 < m then m - 3 else m + 9) = mp"
    using mp by (auto simp: m_def)
  with day show ?thesis
    unfolding c Let_def mp_def [symmetric] m_def [symmetric] day_of_civil_march [OF yoe(1,2)] by simp
qed

lemma civil_of_day_of_civil:
  assumes "valid_date date"
  shows "civil_of_day (day_of_civil date) = date"
proof -
  obtain year m d where date: "date = (year, m, d)"
    by (cases date)
  have m: "1 \<le> m" "m \<le> 12" and d: "1 \<le> d" "d \<le> days_in_month year m"
    using assms by (simp_all add: date)
  define y where "y = year - (if m \<le> 2 then 1 else 0)"
  define era yoe mp where "era = y div 400" and "yoe = y mod 400" and "mp = (if 2 < m then m - 3 else m + 9)"
  define doy where "doy = (153 * mp + 2) div 5 + d - 1"
  have y: "y = yoe + era * 400" and yoe: "0 \<le> yoe" "yoe < 400"
    by (simp_all add: era_def yoe_def)
  have mp: "0 \<le> mp" "mp \<le> 11" "m = (if mp < 10 then mp + 3 else mp - 9)"
    using m by (auto simp: mp_def)
  have year: "year = yoe + era * 400 + (if m \<le> 2 then 1 else 0)"
    using y by (simp add: y_def)
  have leap: "m = 2 \<Longrightarrow> is_leap_year year = is_leap_year (yoe + 1)"
    using leap_era [of "yoe + 1" era] by (simp add: year add.assoc add.commute)
  have start: "0 \<le> (153 * mp + 2) div 5"
    using mp(1) by simp
  have doy: "doy < (153 * (mp + 1) + 2) div 5 \<and> doy < 365 + (if is_leap_year (yoe + 1) then 1 else 0)"
  proof (cases "m = 2")
    case True
    with d leap have "mp = 11" "d \<le> 28 + (if is_leap_year (yoe + 1) then 1 else 0)"
      by (auto simp: mp_def days_in_month_def)
    then show ?thesis
      by (simp add: doy_def split: if_splits)
  next
    case False
    then have "mp \<le> 10"
      using m by (auto simp: mp_def)
    then have "(153 * (mp + 1) + 2) div 5 \<le> (153 * 11 + 2) div 5"
      by (intro zdiv_mono1) auto
    moreover have "doy < (153 * (mp + 1) + 2) div 5"
      using d month_days [OF m mp_def False, of year] by (simp add: doy_def)
    ultimately show ?thesis
      by simp
  qed
  have doy0: "(153 * mp + 2) div 5 \<le> doy" "0 \<le> doy"
    using d start by (simp_all add: doy_def)
  have days: "day_of_civil date = 146097 * era + year_start yoe + doy - 719468"
    unfolding date year using day_of_civil_march [OF yoe, of era m d] by (simp add: doy_def mp_def)
  define doe where "doe = year_start yoe + doy"
  have doe: "year_start yoe \<le> doe" "doe < year_start (yoe + 1)"
    using doy doy0 year_length [of yoe] by (auto simp: doe_def)
  have "0 \<le> doe" "doe < 146097"
    using doe year_start_bounds [OF yoe] by simp_all
  then have era: "(146097 * era + doe) div 146097 = era"
    by simp
  have z: "day_of_civil date + 719468 = 146097 * era + doe"
    using days by (simp add: doe_def)
  have dy: "365 * yoe + yoe div 4 - yoe div 100 = year_start yoe"
    using yoe by (simp add: year_start_def)
  have "civil_of_day (day_of_civil date) = (yoe + era * 400 + (if m \<le> 2 then 1 else 0), m, doy - (153 * mp + 2) div 5 + 1)"
    unfolding civil_of_day_def z era_floor Let_def era mult.commute [of era] add_diff_cancel_left' year_of_day [OF yoe doe] dy
    unfolding doe_def add_diff_cancel_left' day_of_month [OF doy0(1) conjunct1 [OF doy]] mp(3) [symmetric] by (rule refl)
  then show ?thesis
    using year by (simp add: date doy_def)
qed

lemma valid_next_date: "valid_date date \<Longrightarrow> valid_date (next_date date)"
  by (cases date) (auto simp: days_in_month_def)

text \<open>The successor is one day later: within a month, from a month to the next, from a year to the next.\<close>

lemma day_next_date:
  assumes "valid_date date"
  shows "day_of_civil (next_date date) = day_of_civil date + 1"
proof -
  obtain year m d where date: "date = (year, m, d)"
    by (cases date)
  have m: "1 \<le> m" "m \<le> 12" and d: "1 \<le> d" "d \<le> days_in_month year m"
    using assms by (simp_all add: date)
  have march: "\<exists>yoe era. y = yoe + era * 400 \<and> 0 \<le> yoe \<and> yoe < 400" for y :: int
    by (intro exI [of _ "y mod 400"] exI [of _ "y div 400"]) simp
  show ?thesis
  proof (cases "d < days_in_month year m")
    case True
    then show ?thesis
      by (simp add: date day_of_civil_start)
  next
    case False
    with d have last: "d = days_in_month year m"
      by simp
    consider (feb) "m = 2" | (dec) "m = 12" | (other) "m \<noteq> 2" "m < 12"
      using m by linarith
    then show ?thesis
    proof cases
      case feb
      then have d': "d = 28 + (if is_leap_year year then 1 else 0)"
        using last by (simp add: days_in_month_def)
      have "year_start year = year_start (year - 1) + (if is_leap_year year then 366 else 365)"
        using year_length [of "year - 1"] by simp
      with False feb d' show ?thesis
        by (simp add: date day_of_civil_start)
    next
      case dec
      with False last show ?thesis
        by (simp add: date day_of_civil_start days_in_month_def)
    next
      case other
      define mp where "mp = (if 2 < m then m - 3 else m + 9)"
      have "days_in_month year m = (153 * (mp + 1) + 2) div 5 - (153 * mp + 2) div 5"
        using month_days [OF m mp_def other(1)] .
      with False last other m show ?thesis
        by (auto simp: date day_of_civil_start mp_def)
    qed
  qed
qed

lemma civil_step: "civil_of_day (day + 1) = next_date (civil_of_day day)"
  using civil_of_day_of_civil [OF valid_next_date [OF valid_civil_of_day], of day]
    day_next_date [OF valid_civil_of_day, of day] by (simp add: day_of_civil_of_day)

section \<open>The machine arithmetic\<close>

text \<open>Numbers that fit their width are computed with as numbers.\<close>

lemma sint_fits: "- (2 ^ 63) \<le> x \<Longrightarrow> x < 2 ^ 63 \<Longrightarrow> sint (word_of_int x :: i64) = x"
  by (simp add: int_word_sint)

lemma uint_fits: "0 \<le> x \<Longrightarrow> x < 2 ^ 64 \<Longrightarrow> uint (word_of_int x :: u64) = x"
  by (simp add: uint_word_of_int)

lemma div_fits:
  assumes "0 \<le> a" and "a < 2 ^ 64" and "(numeral n :: int) < 2 ^ 64"
  shows "(word_of_int a :: u64) div numeral n = word_of_int (a div numeral n)"
proof -
  have "uint (numeral n :: u64) = numeral n"
    using assms(3) uint_fits [of "numeral n"] by simp
  then show ?thesis
    using uint_fits [OF assms(1,2)] by (simp add: word_div_def)
qed

lemma less_fits: "0 \<le> a \<Longrightarrow> a < 2 ^ 64 \<Longrightarrow> 0 \<le> b \<Longrightarrow> b < 2 ^ 64 \<Longrightarrow> (word_of_int a :: u64) < word_of_int b \<longleftrightarrow> a < b"
  by (simp add: word_less_def uint_fits)

lemma i64_div_fits:
  assumes "- (2 ^ 63) \<le> a" and "a < 2 ^ 63" and "- (2 ^ 63) \<le> b" and "b < 2 ^ 63"
  shows "i64_div (word_of_int a) (word_of_int b) = word_of_int (a sdiv b)"
  using assms by (simp add: i64_div_def sint_fits)

lemma sint_range: "- (2 ^ 63) \<le> sint (w :: i64)" "sint (w :: i64) < 2 ^ 63" "- (2 ^ 31) \<le> sint (v :: i32)" "sint (v :: i32) < 2 ^ 31"
  using sint_greater_eq [of w] sint_less [of w] sint_greater_eq [of v] sint_less [of v] by simp_all

lemma ucast_fits: "ucast (word_of_int x :: u64) = (word_of_int x :: u32)"
  by transfer simp

lemma u32_le_fits: "0 \<le> x \<Longrightarrow> x < 2 ^ 32 \<Longrightarrow> (word_of_int x :: u32) \<le> 2 \<longleftrightarrow> x \<le> 2"
  by (simp add: word_le_def uint_word_of_int)

lemma era_fits:
  assumes "- (2 ^ 63) + 146096 \<le> z" and "z < 2 ^ 63"
  shows "i64_div (if 0 \<le> sint (word_of_int z :: i64) then word_of_int z else word_of_int z - 146096) 146097 = word_of_int (z div 146097)"
proof -
  have "i64_div (if 0 \<le> sint (word_of_int z :: i64) then word_of_int z else word_of_int z - 146096) 146097 =
      i64_div (word_of_int (if 0 \<le> z then z else z - 146096)) (word_of_int 146097)"
    using assms by (simp add: sint_fits)
  also have "\<dots> = word_of_int ((if 0 \<le> z then z else z - 146096) sdiv 146097)"
    using assms by (intro i64_div_fits) auto
  finally show ?thesis
    by (simp only: era_floor)
qed

lemma year_fits:
  assumes "0 \<le> yoe" and "yoe < 400" and "year_start yoe \<le> doe" and "doe < year_start (yoe + 1)"
  defines "w \<equiv> word_of_int doe :: u64"
  shows "(w - w div 1460 + w div 36524 - w div 146096) div 365 = word_of_int yoe"
proof -
  have doe: "0 \<le> doe" "doe < 146097"
    using year_start_bounds [OF assms(1,2)] assms(3,4) by simp_all
  define n where "n = doe - doe div 1460 + doe div 36524 - doe div 146096"
  have w: "w - w div 1460 + w div 36524 - w div 146096 = word_of_int n"
    using doe by (simp add: w_def n_def div_fits)
  have n: "0 \<le> n" "n < 300000" "n div 365 = yoe"
    using doe year_of_day [OF assms(1-4)] unfolding n_def by linarith+
  with div_fits [of n] show ?thesis
    unfolding w by simp
qed

text \<open>The one sum that can overflow is the first; the year is cut to 32 bits.\<close>

lemma civil_from_days_exact:
  assumes "sint days + 719468 < 2 ^ 63" and "civil_of_day (sint days) = (y, m, d)"
  shows "civil_from_days days = (word_of_int y, word_of_int m, word_of_int d)"
proof -
  define z where "z = sint days + 719468"
  define doe where "doe = z mod 146097"
  have z: "- (2 ^ 63) + 146096 \<le> z" "z < 2 ^ 63" "days + 719468 = word_of_int z"
    using sint_range(1) [of days] assms(1) by (simp_all add: z_def)
  have doe: "0 \<le> doe" "doe < 146097" "z - z div 146097 * 146097 = doe"
    by (simp_all add: doe_def minus_div_mult_eq_mod)
  obtain yoe where yoe: "0 \<le> yoe" "yoe < 400" "year_start yoe \<le> doe" "doe < year_start (yoe + 1)"
    using year_exists [OF doe(1,2)] by blast
  define doy where "doy = doe - (365 * yoe + yoe div 4 - yoe div 100)"
  define mp where "mp = (5 * doy + 2) div 153"
  define mo where "mo = (if mp < 10 then mp + 3 else mp - 9)"
  have doy: "0 \<le> doy" "doy \<le> 365"
    using yoe year_length [of yoe] by (auto simp: doy_def year_start_def split: if_splits)
  note mp = month_of_day [OF doy mp_def]
  have mo: "0 \<le> mo" "mo < 2 ^ 32"
    using mp by (auto simp: mo_def)
  have ideal: "(y, m, d) = (yoe + z div 146097 * 400 + (if mo \<le> 2 then 1 else 0), mo, doy - (153 * mp + 2) div 5 + 1)"
    unfolding assms(2) [symmetric] civil_of_day_def z_def [symmetric] era_floor Let_def doe(3) year_of_day [OF yoe]
      doy_def [symmetric] mp_def [symmetric] mo_def [symmetric] by (rule refl)
  have doew: "word_of_int z - word_of_int (z div 146097) * 146097 = (word_of_int doe :: u64)"
    unfolding doe(3) [symmetric] by simp
  have doyw: "word_of_int doe - (365 * word_of_int yoe + word_of_int yoe div 4 - word_of_int yoe div 100) = (word_of_int doy :: u64)"
    using yoe by (simp add: doy_def div_fits)
  have mpw: "(5 * word_of_int doy + 2) div 153 = (word_of_int mp :: u64)"
    using doy div_fits [of "5 * doy + 2"] by (simp add: mp_def)
  have dw: "ucast (word_of_int doy - (153 * word_of_int mp + 2) div 5 + 1 :: u64) = (word_of_int (doy - (153 * mp + 2) div 5 + 1) :: u32)"
    using mp div_fits [of "153 * mp + 2"] by (simp flip: ucast_fits)
  have "(word_of_int mp :: u64) < 10 \<longleftrightarrow> mp < 10"
    using mp less_fits [of mp 10] by simp
  then have mow: "ucast (if (word_of_int mp :: u64) < 10 then word_of_int mp + 3 else word_of_int mp - 9 :: u64) = (word_of_int mo :: u32)"
    by (simp add: mo_def flip: ucast_fits)
  have yw: "ucast (word_of_int yoe + word_of_int (z div 146097) * 400 + (if (word_of_int mo :: u32) \<le> 2 then 1 else 0) :: u64) =
      (word_of_int (yoe + z div 146097 * 400 + (if mo \<le> 2 then 1 else 0)) :: u32)"
    using u32_le_fits [OF mo] by (simp flip: ucast_fits)
  show ?thesis
    using ideal unfolding civil_from_days_def Let_def z(3) era_fits [OF z(1,2)] doew year_fits [OF yoe] doyw mpw dw mow yw by simp
qed

lemma sint_scast: "scast (year :: i32) = (word_of_int (sint year) :: i64)"
  by simp

lemma floor_fits:
  assumes "- (2 ^ 63) + 399 \<le> y" and "y < 2 ^ 63"
  shows "i64_div (if 0 \<le> sint (word_of_int y :: i64) then word_of_int y else word_of_int y - 399) 400 = word_of_int (y div 400)"
proof -
  have "i64_div (if 0 \<le> sint (word_of_int y :: i64) then word_of_int y else word_of_int y - 399) 400 =
      i64_div (word_of_int (if 0 \<le> y then y else y - 399)) (word_of_int 400)"
    using assms by (simp add: sint_fits)
  also have "\<dots> = word_of_int ((if 0 \<le> y then y else y - 399) sdiv 400)"
    using assms by (intro i64_div_fits) auto
  finally show ?thesis
    by (simp only: era_floor)
qed

text \<open>No date of the calendar with a 32-bit year overflows on the way back.\<close>

lemma days_from_civil_exact:
  assumes "- (2 ^ 31) \<le> y" and "y < 2 ^ 31" and "1 \<le> m" and "m \<le> 12" and "1 \<le> d" and "d \<le> 31"
  shows "days_from_civil (word_of_int y, word_of_int m, word_of_int d) = word_of_int (day_of_civil (y, m, d))"
proof -
  define y' where "y' = y - (if m \<le> 2 then 1 else 0)"
  define yoe where "yoe = y' - y' div 400 * 400"
  define mm where "mm = (if 2 < m then m - 3 else m + 9)"
  have y': "- (2 ^ 63) + 399 \<le> y'" "y' < 2 ^ 63"
    using assms(1,2) by (auto simp: y'_def)
  have yoe: "0 \<le> yoe" "yoe < 400"
    unfolding yoe_def minus_div_mult_eq_mod by simp_all
  have "sint (word_of_int y :: i32) = y"
    using assms(1,2) by (simp add: int_word_sint)
  then have yw: "scast (word_of_int y :: i32) - (if (word_of_int m :: u32) \<le> 2 then 1 else 0) = (word_of_int y' :: i64)"
    using u32_le_fits [of m] assms(3,4) unfolding sint_scast by (simp add: y'_def)
  have mw: "ucast (word_of_int x :: u32) = (word_of_int x :: u64)" if "0 \<le> x" "x < 2 ^ 32" for x
  proof (rule word_uint_eqI)
    show "uint (ucast (word_of_int x :: u32) :: u64) = uint (word_of_int x :: u64)"
      using that by (simp add: unsigned_ucast_eq uint_word_of_int take_bit_int_eq_self)
  qed
  have mmw: "(if 2 < (word_of_int m :: u64) then word_of_int m - 3 else word_of_int m + 9) = (word_of_int mm :: u64)"
    using less_fits [of 2 m] assms(3,4) by (simp add: mm_def)
  have mm: "0 \<le> mm" "mm \<le> 11"
    using assms(3,4) by (auto simp: mm_def)
  have dw: "(153 * word_of_int mm + 2) div 5 + word_of_int d - 1 = (word_of_int ((153 * mm + 2) div 5 + d - 1) :: u64)"
    using mm div_fits [of "153 * mm + 2"] by simp
  have yoew: "word_of_int y' - word_of_int (y' div 400) * 400 = (word_of_int yoe :: u64)"
    by (simp add: yoe_def)
  have doew: "word_of_int yoe * 365 + word_of_int yoe div 4 - word_of_int yoe div 100 + word_of_int x =
      (word_of_int (yoe * 365 + yoe div 4 - yoe div 100 + x) :: u64)" for x
    using yoe by (simp add: div_fits)
  have day: "day_of_civil (y, m, d) = y' div 400 * 146097 + (yoe * 365 + yoe div 4 - yoe div 100 + ((153 * mm + 2) div 5 + d - 1)) - 719468"
    unfolding day_of_civil.simps Let_def y'_def [symmetric] era_floor yoe_def [symmetric] mm_def [symmetric] by (rule refl)
  have casts: "ucast (word_of_int m :: u32) = (word_of_int m :: u64)" "ucast (word_of_int d :: u32) = (word_of_int d :: u64)"
    using assms(3-6) by (auto intro!: mw)
  show ?thesis
    unfolding days_from_civil.simps Let_def yw floor_fits [OF y'] yoew casts mmw dw doew day by simp
qed

declare days_from_civil.simps [simp del]

section \<open>The days of the 32-bit years\<close>

lemma year_monotone: "a \<le> b \<Longrightarrow> fst (civil_of_day a) \<le> fst (civil_of_day b)"
proof (induction b rule: int_ge_induct)
  case (step b)
  have "fst date \<le> fst (next_date date)" for date
    by (cases date) simp
  with step show ?case
    using civil_step [of b] by (metis order_trans)
qed simp

definition date_of :: "i32 \<times> u32 \<times> u32 \<Rightarrow> civil" where
  "date_of = (\<lambda>(year, m, d). (sint year, uint m, uint d))"

text \<open>From the first of January of the year \<open>-2^31\<close> to the last of December of the year \<open>2^31 - 1\<close>.\<close>

definition in_years :: "i64 \<Rightarrow> bool" where
  "in_years day \<longleftrightarrow> - 784353015833 \<le> sint day \<and> sint day \<le> 784351576776"

lemma year_bounds:
  "civil_of_day (- 784353015833) = (- 2147483648, 1, 1)" "civil_of_day 784351576776 = (2147483647, 12, 31)"
  "civil_of_day (- 784353015834) = (- 2147483649, 12, 31)" "civil_of_day 784351576777 = (2147483648, 1, 1)"
  by code_simp+

lemma valid_dateD: "valid_date (y, m, d) \<Longrightarrow> 1 \<le> m \<and> m \<le> 12 \<and> 1 \<le> d \<and> d \<le> 31"
  by (auto simp: days_in_month_def split: if_splits)

lemma in_years_exact:
  assumes "in_years day"
  shows "date_of (civil_from_days day) = civil_of_day (sint day)" "days_from_civil (civil_from_days day) = day"
    "fst (civil_of_day (sint day)) \<in> {- (2 ^ 31)..<2 ^ 31}"
proof -
  obtain y m d where c: "civil_of_day (sint day) = (y, m, d)"
    by (cases "civil_of_day (sint day)")
  have e: "civil_from_days day = (word_of_int y, word_of_int m, word_of_int d)"
    using assms c by (intro civil_from_days_exact) (simp_all add: in_years_def)
  have y: "- (2 ^ 31) \<le> y" "y < 2 ^ 31"
    using year_monotone [of "- 784353015833" "sint day"] year_monotone [of "sint day" 784351576776] assms year_bounds(1,2) c
    by (simp_all add: in_years_def)
  note v = valid_dateD [OF valid_civil_of_day [of "sint day", unfolded c]]
  show "date_of (civil_from_days day) = civil_of_day (sint day)"
    using v y by (simp add: c e date_of_def int_word_sint uint_word_of_int)
  show "days_from_civil (civil_from_days day) = day"
    using days_from_civil_exact [OF y] v day_of_civil_of_day [of "sint day"] by (simp add: c e)
  show "fst (civil_of_day (sint day)) \<in> {- (2 ^ 31)..<2 ^ 31}"
    using y by (simp add: c)
qed

lemma day_in_years:
  assumes "valid_date (y, m, d)" and "- (2 ^ 31) \<le> y" and "y < 2 ^ 31"
  shows "in_years (word_of_int (day_of_civil (y, m, d)))" "sint (word_of_int (day_of_civil (y, m, d)) :: i64) = day_of_civil (y, m, d)"
proof -
  let ?n = "day_of_civil (y, m, d)"
  have c: "civil_of_day ?n = (y, m, d)"
    using assms(1) by (rule civil_of_day_of_civil)
  have "\<not> ?n \<le> - 784353015834" "\<not> 784351576777 \<le> ?n"
    using year_monotone [of ?n "- 784353015834"] year_monotone [of 784351576777 ?n] assms(2,3) c
    unfolding year_bounds(3,4) by auto
  then have "- 784353015833 \<le> ?n" "?n \<le> 784351576776"
    by linarith+
  then show "in_years (word_of_int ?n)" "sint (word_of_int ?n :: i64) = ?n"
    by (simp_all add: in_years_def sint_fits)
qed

text \<open>
  C13. The date conversion is the calendar on every day whose year fits 32 bits, at the widths of the
  code: day 0 is 1970-01-01, the date of the day after is the calendar successor of the date, forwards
  and backwards; the days of that range and the valid dates of 32-bit years correspond one to one, and
  \<open>days_from_civil\<close> is the inverse. The range is exact: the day after its last is given the year \<open>-2^31\<close>.
\<close>

theorem civil_calendar:
  "date_of (civil_from_days 0) = (1970, 1, 1) \<and>
   (\<forall>day. in_years day \<and> in_years (day + 1) \<longrightarrow> date_of (civil_from_days (day + 1)) = next_date (date_of (civil_from_days day))) \<and>
   bij_betw (\<lambda>day. date_of (civil_from_days day)) {day. in_years day} {date. valid_date date \<and> fst date \<in> {- (2 ^ 31)..<2 ^ 31}} \<and>
   (\<forall>day. in_years day \<longrightarrow> days_from_civil (civil_from_days day) = day) \<and>
   date_of (civil_from_days 784351576776) = (2 ^ 31 - 1, 12, 31) \<and> date_of (civil_from_days 784351576777) = (- (2 ^ 31), 1, 1)"
proof (intro conjI allI impI)
  show "date_of (civil_from_days 0) = (1970, 1, 1)" "date_of (civil_from_days 784351576776) = (2 ^ 31 - 1, 12, 31)"
    "date_of (civil_from_days 784351576777) = (- (2 ^ 31), 1, 1)"
    by code_simp+
  show "days_from_civil (civil_from_days day) = day" if "in_years day" for day
    by (rule in_years_exact(2) [OF that])
  show "date_of (civil_from_days (day + 1)) = next_date (date_of (civil_from_days day))" if "in_years day \<and> in_years (day + 1)" for day
  proof -
    have "sint (day + 1) = sint day + 1"
      using that sint_fits [of "sint day + 1"] by (simp add: in_years_def)
    then show ?thesis
      using that civil_step [of "sint day"] by (simp add: in_years_exact(1))
  qed
  show "bij_betw (\<lambda>day. date_of (civil_from_days day)) {day. in_years day} {date. valid_date date \<and> fst date \<in> {- (2 ^ 31)..<2 ^ 31}}"
  proof (rule bij_betw_byWitness [where f' = "\<lambda>date. word_of_int (day_of_civil date)"])
    show "\<forall>day \<in> {day. in_years day}. word_of_int (day_of_civil (date_of (civil_from_days day))) = day"
      by (simp add: in_years_exact(1) day_of_civil_of_day del: day_of_civil.simps)
    show "\<forall>date \<in> {date. valid_date date \<and> fst date \<in> {- (2 ^ 31)..<2 ^ 31}}. date_of (civil_from_days (word_of_int (day_of_civil date))) = date"
    proof
      fix date assume d: "date \<in> {date. valid_date date \<and> fst date \<in> {- (2 ^ 31)..<2 ^ 31}}"
      then have "in_years (word_of_int (day_of_civil (fst date, fst (snd date), snd (snd date))))"
        "sint (word_of_int (day_of_civil (fst date, fst (snd date), snd (snd date))) :: i64) = day_of_civil date"
        using day_in_years [of "fst date" "fst (snd date)" "snd (snd date)"] by simp_all
      then show "date_of (civil_from_days (word_of_int (day_of_civil date))) = date"
        using d civil_of_day_of_civil [of date] by (simp add: in_years_exact(1))
    qed
    show "(\<lambda>day. date_of (civil_from_days day)) ` {day. in_years day} \<subseteq> {date. valid_date date \<and> fst date \<in> {- (2 ^ 31)..<2 ^ 31}}"
      using in_years_exact(1,3) valid_civil_of_day by (simp add: image_subset_iff)
    show "(\<lambda>date. word_of_int (day_of_civil date)) ` {date. valid_date date \<and> fst date \<in> {- (2 ^ 31)..<2 ^ 31}} \<subseteq> {day. in_years day}"
    proof (rule image_subsetI)
      fix date assume "date \<in> {date. valid_date date \<and> fst date \<in> {- (2 ^ 31)..<2 ^ 31}}"
      then have "in_years (word_of_int (day_of_civil (fst date, fst (snd date), snd (snd date))))"
        by (intro day_in_years(1)) simp_all
      then show "word_of_int (day_of_civil date) \<in> {day. in_years day}"
        by simp
    qed
  qed
qed

theorem civil_calendar_witness:
  "date_of (civil_from_days 19782) = (2024, 2, 29) \<and> date_of (civil_from_days 19783) = (2024, 3, 1) \<and>
    days_from_civil (civil_from_days 19783) = 19783"
proof -
  have day: "date_of (civil_from_days 19782) = (2024, 2, 29)" "in_years 19782" "in_years (19782 + 1)" "in_years 19783"
    by code_simp+
  have "date_of (civil_from_days (19782 + 1)) = next_date (date_of (civil_from_days 19782))"
    using civil_calendar day(2,3) by blast
  moreover have "days_from_civil (civil_from_days 19783) = 19783"
    using civil_calendar day(4) by blast
  ultimately show ?thesis
    unfolding day(1) by (simp add: days_in_month_def is_leap_year_def)
qed

end
