(* ===== verification/Cli_Instants.thy ===== *)
theory Cli_Instants
  imports Cli_Calendar
begin

text \<open>
  Which texts the CLI takes for an instant and for which one, and that what it prints is read back.
\<close>

section \<open>Numbers of a fixed width\<close>

fun fixed_digits :: "nat \<Rightarrow> nat \<Rightarrow> string" where
  "fixed_digits 0 n = []"
| "fixed_digits (Suc w) n = fixed_digits w (n div 10) @ [char_of (48 + n mod 10)]"

lemma fixed_digits_zero: "fixed_digits w 0 = replicate w CHR ''0''"
proof (induction w)
  case (Suc w)
  have "char_of (48 :: nat) = CHR ''0''"
    by code_simp
  with Suc show ?case
    by (simp add: replicate_append_same)
qed simp

lemma zero_padded_fixed: "n < 10 ^ Suc w \<Longrightarrow> zero_padded (Suc w) n = fixed_digits (Suc w) n \<and> length (nat_str n) \<le> Suc w"
proof (induction w arbitrary: n)
  case 0
  then show ?case
    by (simp add: zero_padded_def nat_str.simps [of n])
next
  case (Suc w)
  show ?case
  proof (cases "n < 10")
    case True
    then show ?thesis
      by (simp add: zero_padded_def nat_str.simps [of n] fixed_digits_zero replicate_append_same)
  next
    case False
    have "n div 10 < 10 ^ Suc w"
      using Suc.prems by (simp add: div_less_iff_less_mult mult.commute)
    with Suc.IH have ih: "zero_padded (Suc w) (n div 10) = fixed_digits (Suc w) (n div 10)" "length (nat_str (n div 10)) \<le> Suc w"
      by blast+
    have "zero_padded (Suc (Suc w)) n = zero_padded (Suc w) (n div 10) @ [char_of (48 + n mod 10)]"
      using False by (simp add: zero_padded_def nat_str.simps [of n])
    with ih False show ?thesis
      by (simp add: nat_str.simps [of n])
  qed
qed

lemma fixed_digits_length [simp]: "length (fixed_digits w n) = w"
  by (induction w arbitrary: n) simp_all

lemma fixed_digits_ascii: "list_all is_ascii_digit (fixed_digits w n)"
  by (induction w arbitrary: n) (simp_all add: is_ascii_digit_def byte_in_def)

lemma fixed_digits_value: "n < 10 ^ w \<Longrightarrow> digits_value (fixed_digits w n) = n"
proof (induction w arbitrary: n)
  case 0
  then show ?case
    by (simp add: digits_value_def)
next
  case (Suc w)
  have "n div 10 < 10 ^ w"
    using Suc.prems by (simp add: div_less_iff_less_mult mult.commute)
  with Suc.IH show ?case
    by (simp add: digits_value_snoc)
qed

lemma ascii_digitE:
  assumes "is_ascii_digit c"
  obtains k where "k < 10" "c = char_of (48 + k :: nat)" "of_char c = 48 + k"
proof -
  have "48 \<le> (of_char c :: nat)" "of_char c \<le> (57 :: nat)"
    using assms by (simp_all add: is_ascii_digit_def byte_in_def)
  then show thesis
    by (intro that [of "of_char c - 48"]) simp_all
qed

lemma digits_value_fixed: "list_all is_ascii_digit ds \<Longrightarrow> fixed_digits (length ds) (digits_value ds) = ds \<and> digits_value ds < 10 ^ length ds"
proof (induction ds rule: rev_induct)
  case Nil
  then show ?case
    by (simp add: digits_value_def)
next
  case (snoc c ds)
  then obtain k where "k < 10" "c = char_of (48 + k :: nat)" "of_char c = 48 + k"
    by (auto elim: ascii_digitE)
  with snoc show ?case
    by (simp add: digits_value_snoc)
qed

lemma iso_digits_loop_Inr:
  "iso_digits_loop bs pos acc = Inr v \<longleftrightarrow> list_all is_ascii_digit bs \<and> v = fold (\<lambda>c n. 10 * n + (of_char c - 48)) bs acc"
  by (induction bs arbitrary: pos acc) (auto simp: mult.commute)

lemma iso_digits_Inr:
  "iso_digits bytes start stop = Inr v \<longleftrightarrow>
    list_all is_ascii_digit (take (stop - start) (drop start bytes)) \<and> v = digits_value (take (stop - start) (drop start bytes))"
  by (simp add: iso_digits_def iso_digits_loop_Inr digits_value_def)

section \<open>The texts of instants\<close>

definition iso_text :: "civil \<Rightarrow> int \<times> int \<times> int \<Rightarrow> string \<Rightarrow> string" where
  "iso_text date time fr =
     (let (y, mo, d) = date; (h, mi, se) = time in
      zero_padded 4 (nat y) @ ''-'' @ zero_padded 2 (nat mo) @ ''-'' @ zero_padded 2 (nat d) @ ''T'' @
      zero_padded 2 (nat h) @ '':'' @ zero_padded 2 (nat mi) @ '':'' @ zero_padded 2 (nat se) @
      (if fr = [] then [] else ''.'' @ fr) @ ''Z'')"

definition instant_of :: "civil \<Rightarrow> int \<times> int \<times> int \<Rightarrow> string \<Rightarrow> int" where
  "instant_of date time fr =
     (let (h, mi, se) = time in
      (day_of_civil date * 86400 + h * 3600 + mi * 60 + se) * 10 ^ 9 + int (digits_value fr) * 10 ^ (9 - length fr))"

text \<open>A date of four-digit years from 1970, a time of day, at most nine digits of a second.\<close>

fun iso_admitted :: "civil \<Rightarrow> int \<times> int \<times> int \<Rightarrow> string \<Rightarrow> bool" where
  "iso_admitted (y, mo, d) (h, mi, se) fr \<longleftrightarrow>
     1970 \<le> y \<and> y \<le> 9999 \<and> valid_date (y, mo, d) \<and> 0 \<le> h \<and> h \<le> 23 \<and> 0 \<le> mi \<and> mi \<le> 59 \<and> 0 \<le> se \<and> se \<le> 59 \<and>
     list_all is_ascii_digit fr \<and> length fr \<le> 9"

definition iso_denotes :: "string \<Rightarrow> int \<Rightarrow> bool" where
  "iso_denotes s n \<longleftrightarrow> (\<exists>date time fr. iso_admitted date time fr \<and> s = iso_text date time fr \<and> n = instant_of date time fr)"

text \<open>A text of the right length is its six numbers with the slots between them.\<close>

lemma piece: "drop n s = take k (drop n s) @ drop (n + k) s"
  by (metis add.commute append_take_drop_id drop_drop)

lemma slot: "n < length s \<Longrightarrow> drop n s = s ! n # drop (Suc n) s"
  by (simp add: Cons_nth_drop_Suc)

lemma iso_shape:
  assumes "20 \<le> length s"
  shows "s = take 4 s @ [s ! 4] @ take 2 (drop 5 s) @ [s ! 7] @ take 2 (drop 8 s) @ [s ! 10] @ take 2 (drop 11 s) @ [s ! 13] @
    take 2 (drop 14 s) @ [s ! 16] @ take 2 (drop 17 s) @ drop 19 s"
proof -
  have "s = take 4 s @ drop 4 s"
    by simp
  also have "drop 4 s = s ! 4 # take 2 (drop 5 s) @ drop 7 s"
    using slot [of 4 s] piece [of 5 s 2] assms by simp
  also have "drop 7 s = s ! 7 # take 2 (drop 8 s) @ drop 10 s"
    using slot [of 7 s] piece [of 8 s 2] assms by simp
  also have "drop 10 s = s ! 10 # take 2 (drop 11 s) @ drop 13 s"
    using slot [of 10 s] piece [of 11 s 2] assms by simp
  also have "drop 13 s = s ! 13 # take 2 (drop 14 s) @ drop 16 s"
    using slot [of 13 s] piece [of 14 s 2] assms by simp
  also have "drop 16 s = s ! 16 # take 2 (drop 17 s) @ drop 19 s"
    using slot [of 16 s] piece [of 17 s 2] assms by simp
  finally show ?thesis
    by simp
qed

lemma padded_piece:
  assumes "list_all is_ascii_digit ds" and "length ds = Suc w"
  shows "zero_padded (Suc w) (digits_value ds) = ds" "digits_value ds < 10 ^ Suc w"
  using digits_value_fixed [OF assms(1)] zero_padded_fixed [of "digits_value ds" w] by (simp_all add: assms(2) del: fixed_digits.simps)

lemma iso_fields_Cons_Inr:
  "iso_fields s ((start, stop) # slots) = Inr fields \<longleftrightarrow>
    (\<exists>v vs. iso_digits s start stop = Inr v \<and> iso_fields s slots = Inr vs \<and> fields = int v # vs)"
  by (auto split: sum.splits)

lemma iso_fields_Inr:
  "iso_fields s iso_slots = Inr fields \<longleftrightarrow>
     list_all is_ascii_digit (take 4 s) \<and> list_all is_ascii_digit (take 2 (drop 5 s)) \<and> list_all is_ascii_digit (take 2 (drop 8 s)) \<and>
     list_all is_ascii_digit (take 2 (drop 11 s)) \<and> list_all is_ascii_digit (take 2 (drop 14 s)) \<and> list_all is_ascii_digit (take 2 (drop 17 s)) \<and>
     fields = map (\<lambda>ds. int (digits_value ds))
       [take 4 s, take 2 (drop 5 s), take 2 (drop 8 s), take 2 (drop 11 s), take 2 (drop 14 s), take 2 (drop 17 s)]"
  unfolding iso_slots_def iso_fields_Cons_Inr by (auto simp: iso_digits_Inr)

lemma iso_punct_None: "iso_punct s ps = None \<longleftrightarrow> (\<forall>(pos, c) \<in> set ps. s ! pos = c)"
  by (induction ps) (auto split: if_splits)

declare iso_punct.simps [simp del]

text \<open>The fields that are in range are a date whose day is computed without overflow.\<close>

lemma iso_range_days:
  assumes "iso_range [y, mo, d, h, mi, se] = None"
  shows "days_from_civil (word_of_int y, word_of_int mo, word_of_int d) = word_of_int (day_of_civil (y, mo, d))"
proof -
  have "1970 \<le> y" "y \<le> 9999" "valid_date (y, mo, d)"
    using assms by (auto simp: iso_range_def Let_def split: if_splits)
  moreover from this(3) have "1 \<le> mo \<and> mo \<le> 12 \<and> 1 \<le> d \<and> d \<le> 31"
    by (rule valid_dateD)
  ultimately show ?thesis
    by (intro days_from_civil_exact) (simp_all del: valid_date.simps)
qed

text \<open>What a text that is accepted has, and what it is read as.\<close>

lemma parse_Inr:
  "parse_iso8601_utc_nanos s = Inr w \<longleftrightarrow>
    (length s = 20 \<or> 22 \<le> length s \<and> length s \<le> 30) \<and> iso_punct s (iso_puncts (length s)) = None \<and>
    (\<exists>y mo d h mi se ns. iso_fields s iso_slots = Inr [y, mo, d, h, mi, se] \<and> iso_range [y, mo, d, h, mi, se] = None \<and>
       iso_fraction s = Inr ns \<and>
       w = (word_of_int (day_of_civil (y, mo, d)) * 86400 + word_of_int (h * 3600 + mi * 60 + se)) * 1000000000 + ns)"
proof -
  have six: "iso_fields s iso_slots = Inr fields \<Longrightarrow> \<exists>y mo d h mi se. fields = [y, mo, d, h, mi, se]" for fields
    unfolding iso_fields_Inr by auto
  have nths: "[y, mo, d, h, mi, se] ! 0 = y" "[y, mo, d, h, mi, se] ! 1 = mo" "[y, mo, d, h, mi, se] ! 2 = d"
    "[y, mo, d, h, mi, se] ! 3 = h" "[y, mo, d, h, mi, se] ! 4 = mi" "[y, mo, d, h, mi, se] ! 5 = se" for y mo d h mi se :: int
    by simp_all
  show ?thesis
  proof (cases "iso_fields s iso_slots")
    case (Inr fields)
    then obtain y mo d h mi se where f: "fields = [y, mo, d, h, mi, se]"
      using six by blast
    show ?thesis
      unfolding parse_iso8601_utc_nanos_def Let_def Inr f sum.case nths
      by (auto simp: f iso_range_days split: option.splits sum.splits)
  qed (auto simp: parse_iso8601_utc_nanos_def Let_def split: option.splits)
qed

lemma iso_pieces:
  assumes "s = y4 @ ''-'' @ mo2 @ ''-'' @ d2 @ ''T'' @ h2 @ '':'' @ mi2 @ '':'' @ se2 @ rest"
    and "length y4 = 4" "length mo2 = 2" "length d2 = 2" "length h2 = 2" "length mi2 = 2" "length se2 = 2"
  shows "take 4 s = y4" "take 2 (drop 5 s) = mo2" "take 2 (drop 8 s) = d2" "take 2 (drop 11 s) = h2" "take 2 (drop 14 s) = mi2"
    "take 2 (drop 17 s) = se2" "drop 19 s = rest" "length s = 19 + length rest"
    "s ! 4 = CHR ''-''" "s ! 7 = CHR ''-''" "s ! 10 = CHR ''T''" "s ! 13 = CHR '':''" "s ! 16 = CHR '':''"
  using assms(2-) by (simp_all add: assms(1) nth_append)

text \<open>The numbers of an admitted date and time fit their slots.\<close>

lemma padded_number:
  assumes "0 \<le> v" and "v < 10 ^ Suc w"
  shows "list_all is_ascii_digit (zero_padded (Suc w) (nat v))" "length (zero_padded (Suc w) (nat v)) = Suc w"
    "int (digits_value (zero_padded (Suc w) (nat v))) = v"
proof -
  have "nat v < 10 ^ Suc w"
    using assms by (simp add: nat_less_iff)
  then have "zero_padded (Suc w) (nat v) = fixed_digits (Suc w) (nat v)" "digits_value (fixed_digits (Suc w) (nat v)) = nat v"
    using zero_padded_fixed [of "nat v" w] fixed_digits_value [of "nat v" "Suc w"] by blast+
  then show "list_all is_ascii_digit (zero_padded (Suc w) (nat v))" "length (zero_padded (Suc w) (nat v)) = Suc w"
    "int (digits_value (zero_padded (Suc w) (nat v))) = v"
    using assms fixed_digits_ascii [of "Suc w" "nat v"] fixed_digits_length [of "Suc w" "nat v"] by (simp_all del: fixed_digits.simps)
qed

lemma padded_four:
  assumes "0 \<le> v" and "v < 10000"
  shows "list_all is_ascii_digit (zero_padded 4 (nat v))" "length (zero_padded 4 (nat v)) = 4" "int (digits_value (zero_padded 4 (nat v))) = v"
  using padded_number [of v 3] assms by simp_all

lemma padded_two:
  assumes "0 \<le> v" and "v < 100"
  shows "list_all is_ascii_digit (zero_padded 2 (nat v))" "length (zero_padded 2 (nat v)) = 2" "int (digits_value (zero_padded 2 (nat v))) = v"
  using padded_number [of v 1] assms by (simp_all add: numeral_2_eq_2)

lemma iso_admitted_bounds:
  assumes "iso_admitted (y, mo, d) (h, mi, se) fr"
  shows "0 \<le> y" "y < 10000" "0 \<le> mo" "mo < 100" "0 \<le> d" "d < 100" "0 \<le> h" "h < 100" "0 \<le> mi" "mi < 100" "0 \<le> se" "se < 100"
  using assms by (auto simp: days_in_month_def split: if_splits)

lemma iso_fraction_of:
  assumes "drop 19 s = (if fr = [] then [] else ''.'' @ fr) @ ''Z''" and "length s = 20 + (if fr = [] then 0 else 1 + length fr)"
    and "list_all is_ascii_digit fr" and "length fr \<le> 9"
  shows "iso_fraction s = Inr (word_of_int (int (digits_value fr) * 10 ^ (9 - length fr)))"
proof (cases "fr = []")
  case True
  with assms(2) show ?thesis
    by (simp add: iso_fraction_def digits_value_def)
next
  case False
  have "drop 20 s = drop 1 (drop 19 s)"
    by simp
  also have "\<dots> = fr @ ''Z''"
    using False assms(1) by simp
  finally have "take (length s - 1 - 20) (drop 20 s) = fr"
    using False assms(2) by simp
  then have "iso_digits s 20 (length s - 1) = Inr (digits_value fr)" "length s \<noteq> 20" "length s - 1 - 20 = length fr"
    using False assms(2,3) by (simp_all add: iso_digits_Inr)
  then show ?thesis
    unfolding iso_fraction_def Let_def by simp
qed

lemma parse_iso_text:
  assumes "iso_admitted date time fr"
  shows "parse_iso8601_utc_nanos (iso_text date time fr) = Inr (word_of_int (instant_of date time fr))"
proof -
  obtain y mo d h mi se where dt: "date = (y, mo, d)" "time = (h, mi, se)"
    by (cases date; cases time)
  note a = assms [unfolded dt]
  note b = iso_admitted_bounds [OF a]
  define s where "s = iso_text date time fr"
  define rest where "rest = (if fr = [] then [] else ''.'' @ fr) @ ''Z''"
  have shape: "s = zero_padded 4 (nat y) @ ''-'' @ zero_padded 2 (nat mo) @ ''-'' @ zero_padded 2 (nat d) @ ''T'' @ zero_padded 2 (nat h) @
      '':'' @ zero_padded 2 (nat mi) @ '':'' @ zero_padded 2 (nat se) @ rest"
    by (simp add: s_def iso_text_def dt rest_def)
  note p = iso_pieces [OF shape padded_four(2) [OF b(1,2)] padded_two(2) [OF b(3,4)] padded_two(2) [OF b(5,6)] padded_two(2) [OF b(7,8)]
      padded_two(2) [OF b(9,10)] padded_two(2) [OF b(11,12)]]
  have fields: "iso_fields s iso_slots = Inr [y, mo, d, h, mi, se]"
    unfolding iso_fields_Inr p(1-6) using b by (simp add: padded_four padded_two)
  have range: "iso_range [y, mo, d, h, mi, se] = None"
    using a by (simp add: iso_range_def Let_def)
  have len: "length s = 20 + (if fr = [] then 0 else 1 + length fr)"
    using p(8) by (simp add: rest_def)
  have frac: "iso_fraction s = Inr (word_of_int (int (digits_value fr) * 10 ^ (9 - length fr)))"
    using iso_fraction_of [OF _ len] p(7) a by (simp add: rest_def)
  have "s ! 19 = rest ! 0"
    using p(7) len hd_drop_conv_nth [of 19 s] by (auto simp: hd_conv_nth rest_def)
  moreover have "s ! (length s - 1) = CHR ''Z''"
  proof -
    have "last s = last rest" "s \<noteq> []"
      by (simp_all add: shape rest_def)
    then show ?thesis
      by (simp add: rest_def last_conv_nth)
  qed
  ultimately have puncts: "iso_punct s (iso_puncts (length s)) = None"
    unfolding iso_punct_None iso_puncts_def using p(9-13) len by (auto simp: rest_def)
  show ?thesis
    unfolding parse_Inr s_def [symmetric]
    using fields range frac puncts len a by (intro conjI exI) (auto simp: instant_of_def dt Suc_le_eq)
qed

lemma iso_text_year:
  assumes "iso_admitted date time fr"
  shows "int (digits_value (take 4 (iso_text date time fr))) = fst date"
proof -
  obtain y mo d h mi se where dt: "date = (y, mo, d)" "time = (h, mi, se)"
    by (cases date; cases time)
  note b = iso_admitted_bounds [OF assms [unfolded dt]]
  show ?thesis
    using padded_four [OF b(1,2)] by (simp add: iso_text_def dt)
qed

text \<open>An accepted text is the text of an admitted instant.\<close>

lemma parse_shape:
  assumes "parse_iso8601_utc_nanos s = Inr w"
  obtains date time fr where "iso_admitted date time fr" "s = iso_text date time fr"
proof -
  from assms [unfolded parse_Inr] obtain y mo d h mi se ns where len: "length s = 20 \<or> 22 \<le> length s \<and> length s \<le> 30"
    and puncts: "iso_punct s (iso_puncts (length s)) = None" and fields: "iso_fields s iso_slots = Inr [y, mo, d, h, mi, se]"
    and range: "iso_range [y, mo, d, h, mi, se] = None" and fraction: "iso_fraction s = Inr ns"
    by blast
  define fr where "fr = take (length s - 21) (drop 20 s)"
  have rest: "drop 19 s = (if fr = [] then [] else ''.'' @ fr) @ ''Z'' \<and> list_all is_ascii_digit fr \<and> length fr \<le> 9"
  proof (cases "length s = 20")
    case True
    with puncts show ?thesis
      using Cons_nth_drop_Suc [of 19 s] by (simp add: iso_punct_None iso_puncts_def fr_def)
  next
    case False
    with len have l: "22 \<le> length s" "length s \<le> 30"
      by auto
    have "drop 19 s = s ! 19 # drop 20 s"
      using Cons_nth_drop_Suc [of 19 s] l by simp
    moreover have "drop 20 s = fr @ [s ! (length s - 1)]"
    proof -
      have "drop 20 s = fr @ drop (length s - 1) s"
        using piece [of 20 s "length s - 21"] l by (simp add: fr_def)
      moreover have "drop (length s - 1) s = [s ! (length s - 1)]"
        using Cons_nth_drop_Suc [of "length s - 1" s] l by simp
      ultimately show ?thesis
        by simp
    qed
    moreover have "length fr = length s - 21"
      by (simp add: fr_def)
    moreover have "list_all is_ascii_digit fr"
      using fraction False l by (auto simp: iso_fraction_def Let_def iso_digits_Inr fr_def split: sum.splits)
    ultimately show ?thesis
      using puncts l False by (auto simp: iso_punct_None iso_puncts_def)
  qed
  have long: "20 \<le> length s"
    using len by auto
  from puncts have slots: "s ! 4 = CHR ''-''" "s ! 7 = CHR ''-''" "s ! 10 = CHR ''T''" "s ! 13 = CHR '':''" "s ! 16 = CHR '':''"
    by (auto simp: iso_punct_None iso_puncts_def)
  from fields [unfolded iso_fields_Inr] have digits: "list_all is_ascii_digit (take 4 s)" "list_all is_ascii_digit (take 2 (drop 5 s))"
    "list_all is_ascii_digit (take 2 (drop 8 s))" "list_all is_ascii_digit (take 2 (drop 11 s))"
    "list_all is_ascii_digit (take 2 (drop 14 s))" "list_all is_ascii_digit (take 2 (drop 17 s))"
    and nums: "y = int (digits_value (take 4 s))" "mo = int (digits_value (take 2 (drop 5 s)))" "d = int (digits_value (take 2 (drop 8 s)))"
    "h = int (digits_value (take 2 (drop 11 s)))" "mi = int (digits_value (take 2 (drop 14 s)))" "se = int (digits_value (take 2 (drop 17 s)))"
    by auto
  have four: "zero_padded 4 (digits_value ds) = ds" if "list_all is_ascii_digit ds" "length ds = 4" for ds
    using padded_piece(1) [of ds 3] that by simp
  have two: "zero_padded 2 (digits_value ds) = ds" if "list_all is_ascii_digit ds" "length ds = 2" for ds
    using padded_piece(1) [of ds 1] that by (simp add: numeral_2_eq_2)
  show thesis
  proof (rule that [of "(y, mo, d)" "(h, mi, se)" fr])
    show "iso_admitted (y, mo, d) (h, mi, se) fr"
      using range rest nums by (auto simp: iso_range_def Let_def split: if_splits)
    have "s = take 4 s @ ''-'' @ take 2 (drop 5 s) @ ''-'' @ take 2 (drop 8 s) @ ''T'' @ take 2 (drop 11 s) @ '':'' @
        take 2 (drop 14 s) @ '':'' @ take 2 (drop 17 s) @ (if fr = [] then [] else ''.'' @ fr) @ ''Z''"
      using iso_shape [OF long] unfolding slots conjunct1 [OF rest] .
    also have "\<dots> = iso_text (y, mo, d) (h, mi, se) fr"
      using long by (simp only: iso_text_def prod.case Let_def nums nat_int four [OF digits(1)] two [OF digits(2)] two [OF digits(3)]
          two [OF digits(4)] two [OF digits(5)] two [OF digits(6)] length_take length_drop)
    finally show "s = iso_text (y, mo, d) (h, mi, se) fr" .
  qed
qed

text \<open>
  C11. The parser accepts exactly the texts of admitted instants, in a full date, time and up to nine
  digits of a second, and returns the nanoseconds since the epoch on the proleptic calendar, reduced
  to 64 bits.
\<close>

theorem cli_instants_exact:
  "parse_iso8601_utc_nanos s = Inr w \<longleftrightarrow> (\<exists>n. iso_denotes s n \<and> w = word_of_int n)"
proof
  assume parsed: "parse_iso8601_utc_nanos s = Inr w"
  then obtain date time fr where "iso_admitted date time fr" "s = iso_text date time fr"
    by (rule parse_shape)
  with parsed parse_iso_text [of date time fr] show "\<exists>n. iso_denotes s n \<and> w = word_of_int n"
    unfolding iso_denotes_def by (metis sum.inject(2))
next
  assume "\<exists>n. iso_denotes s n \<and> w = word_of_int n"
  then show "parse_iso8601_utc_nanos s = Inr w"
    unfolding iso_denotes_def by (metis parse_iso_text)
qed

lemma cli_parses: "iso_denotes s n \<Longrightarrow> parse_iso8601_utc_nanos s = Inr (word_of_int n)"
  unfolding iso_denotes_def by (metis parse_iso_text)

section \<open>What is printed is read back\<close>

lemma format_denotes:
  obtains date time fr where "iso_admitted date time fr" "format_iso8601_utc_nanos ns = iso_text date time fr"
    "uint ns = instant_of date time fr" "fst date \<le> 2554"
proof -
  define total where "total = uint ns div 10 ^ 9"
  define secs where "secs = total mod 86400"
  define time where "time = (secs div 3600, secs mod 3600 div 60, secs mod 60)"
  define nanos where "nanos = uint ns mod 10 ^ 9"
  define fr where "fr = zero_padded 9 (nat nanos)"
  define date where "date = civil_of_day (total div 86400)"
  have range: "0 \<le> uint ns" "uint ns < 2 ^ 64"
    using uint_bounded [of ns] by simp_all
  have "fst (civil_of_day 0) \<le> fst date" "fst date \<le> fst (civil_of_day 213504)"
    unfolding date_def by (rule year_monotone; use range in \<open>simp add: total_def pos_imp_zdiv_nonneg_iff\<close>)+
  moreover have "fst (civil_of_day 0) = 1970" "fst (civil_of_day 213504) = 2554"
    by code_simp+
  ultimately have year: "1970 \<le> fst date" "fst date \<le> 2554"
    by simp_all
  have nanos: "0 \<le> nanos" "nanos < 10 ^ Suc 8"
    by (simp_all add: nanos_def)
  have frac: "list_all is_ascii_digit fr" "length fr = 9" "int (digits_value fr) = nanos"
    using padded_number [OF nanos] by (simp_all add: fr_def)
  have total: "0 \<le> total" "total * 10 ^ 9 + nanos = uint ns" "total div 86400 * 86400 + secs = total"
    using range by (simp_all add: total_def secs_def nanos_def pos_imp_zdiv_nonneg_iff)
  have secs: "0 \<le> secs" "secs < 86400"
    by (simp_all add: secs_def)
  define hour where "hour = secs mod 3600"
  have hour: "0 \<le> hour" "hour < 3600" "secs div 3600 * 3600 + hour = secs"
    by (simp_all add: hour_def)
  have "secs mod 60 = hour mod 60"
    by (simp add: hour_def mod_mod_cancel)
  moreover have "hour div 60 * 60 + hour mod 60 = hour"
    by (rule div_mult_mod_eq)
  ultimately have clock: "secs div 3600 * 3600 + hour div 60 * 60 + secs mod 60 = secs"
    using hour(3) by linarith
  have clock': "secs div 3600 \<le> 23" "0 \<le> secs div 3600" "hour div 60 \<le> 59" "0 \<le> hour div 60" "secs mod 60 \<le> 59" "0 \<le> secs mod 60"
    using secs hour pos_mod_bound [of 60 secs] by (simp_all add: pos_imp_zdiv_nonneg_iff)
  obtain y mo d where date': "date = (y, mo, d)"
    by (cases date)
  have "fr \<noteq> []"
    using frac(2) by auto
  have "iso_admitted date time fr"
  proof -
    have "1970 \<le> y" "y \<le> 9999" "valid_date (y, mo, d)" "length fr \<le> 9"
      using year valid_civil_of_day [of "total div 86400"] frac(2) unfolding date_def [symmetric] date' by simp_all
    with clock' frac(1) show ?thesis
      unfolding date' time_def hour_def [symmetric] iso_admitted.simps by blast
  qed
  moreover have "format_iso8601_utc_nanos ns = iso_text date time fr"
  proof -
    define days where "days = ns div 1000000000 div 86400"
    have "uint days = total div 86400"
      by (simp add: days_def total_def uint_div)
    moreover have "0 \<le> total div 86400" "total div 86400 \<le> 213504"
      using range by (simp_all add: total_def pos_imp_zdiv_nonneg_iff)
    ultimately have "sint days = total div 86400" "in_years days"
      using sint_fits [of "uint days"] unfolding word_of_int_uint by (simp_all add: in_years_def)
    then have "date_of (civil_from_days days) = (y, mo, d)"
      by (simp add: in_years_exact(1) date' flip: date_def)
    then obtain yw mw dw where c: "civil_from_days days = (yw, mw, dw)" "sint yw = y" "unat mw = nat mo" "unat dw = nat d"
      by (cases "civil_from_days days") (auto simp: date_of_def)
    have words: "unat (ns div 1000000000 mod 86400 div 3600) = nat (secs div 3600)"
      "unat (ns div 1000000000 mod 86400 mod 3600 div 60) = nat (hour div 60)" "unat (ns div 1000000000 mod 86400 mod 60) = nat (secs mod 60)"
      "unat (ns mod 1000000000) = nat nanos"
      by (simp_all add: total_def secs_def hour_def nanos_def uint_div uint_mod flip: nat_uint_eq)
    show ?thesis
      unfolding format_iso8601_utc_nanos_def iso_text_def Let_def words time_def hour_def [symmetric] date' days_def [symmetric] c prod.case
      using \<open>fr \<noteq> []\<close> unfolding fr_def [symmetric] by simp
  qed
  moreover have "uint ns = instant_of date time fr"
    unfolding instant_of_def time_def prod.case Let_def date_def day_of_civil_of_day frac(2,3) hour_def [symmetric]
    using total(2,3) clock by simp
  ultimately show thesis
    using that year by blast
qed

lemma instant_year:
  assumes "iso_admitted (y, mo, d) time fr" and "2555 \<le> y"
  shows "2 ^ 64 \<le> instant_of (y, mo, d) time fr"
proof -
  obtain h mi se where t: "time = (h, mi, se)"
    by (cases time)
  define days where "days = day_of_civil (y, mo, d)"
  have "civil_of_day days = (y, mo, d)"
    using civil_of_day_of_civil assms(1) unfolding days_def t by auto
  moreover have "fst (civil_of_day 213504) = 2554"
    by code_simp
  ultimately have "213504 \<le> days"
    using year_monotone [of days 213504] assms(2) by (cases "days \<le> 213504") auto
  then have "213504 * 86400 \<le> days * 86400 + h * 3600 + mi * 60 + se"
    using assms(1) by (simp add: t)
  then have "213504 * 86400 * 10 ^ 9 \<le> (days * 86400 + h * 3600 + mi * 60 + se) * 10 ^ 9"
    by (intro mult_right_mono) auto
  then show ?thesis
    unfolding instant_of_def Let_def t prod.case days_def [symmetric] by (simp add: add_increasing2)
qed

text \<open>
  C12. What the CLI prints for an instant it reads back: the text printed for any of the 2^64 instants is
  accepted by the parser, which returns that instant.
\<close>

theorem cli_instant_roundtrip: "parse_iso8601_utc_nanos (format_iso8601_utc_nanos ns) = Inr ns"
proof -
  obtain date time fr where "iso_admitted date time fr" "format_iso8601_utc_nanos ns = iso_text date time fr"
    "uint ns = instant_of date time fr"
    by (rule format_denotes)
  then show ?thesis
    using parse_iso_text [of date time fr] by (metis word_of_int_uint)
qed

text \<open>
  A year from 2555 on is accepted and wraps: its instant does not fit 64 bits, the parser returns
  the instant a multiple of 2^64 nanoseconds earlier, and so printing what was parsed gives another
  text than the one that was parsed.
\<close>

theorem cli_far_future_wraps:
  assumes "iso_admitted (y, mo, d) time fr" and "2555 \<le> y"
  shows "\<exists>w. parse_iso8601_utc_nanos (iso_text (y, mo, d) time fr) = Inr w \<and>
    uint w = instant_of (y, mo, d) time fr mod 2 ^ 64 \<and> uint w < instant_of (y, mo, d) time fr \<and>
    format_iso8601_utc_nanos w \<noteq> iso_text (y, mo, d) time fr"
proof (intro exI conjI)
  let ?n = "instant_of (y, mo, d) time fr"
  note far = instant_year [OF assms]
  show "parse_iso8601_utc_nanos (iso_text (y, mo, d) time fr) = Inr (word_of_int ?n)"
    by (rule parse_iso_text [OF assms(1)])
  show "uint (word_of_int ?n :: u64) = ?n mod 2 ^ 64"
    by (simp add: uint_word_of_int)
  then show "uint (word_of_int ?n :: u64) < ?n"
    using far by (smt (verit) pos_mod_bound zero_less_power)
  obtain date' time' fr' where "iso_admitted date' time' fr'" "fst date' \<le> 2554"
    "format_iso8601_utc_nanos (word_of_int ?n) = iso_text date' time' fr'"
    using format_denotes [of "word_of_int ?n"] by metis
  then show "format_iso8601_utc_nanos (word_of_int ?n) \<noteq> iso_text (y, mo, d) time fr"
    using iso_text_year [OF assms(1)] iso_text_year [of date' time' fr'] assms(2) by auto
qed

theorem cli_far_future_wraps_witness:
  "\<exists>w. parse_iso8601_utc_nanos ''2600-01-01T00:00:00Z'' = Inr w \<and> uint w = 19880899200000000000 mod 2 ^ 64 \<and>
    format_iso8601_utc_nanos w \<noteq> ''2600-01-01T00:00:00Z''"
proof -
  have "zero_padded 4 (nat 2600) = ''2600''" "zero_padded 2 (nat 1) = ''01''" "zero_padded 2 (nat 0) = ''00''"
    by (simp add: zero_padded_def nat_str.simps, code_simp)+
  then have texts: "iso_text (2600, 1, 1) (0, 0, 0) [] = ''2600-01-01T00:00:00Z''" "instant_of (2600, 1, 1) (0, 0, 0) [] = 19880899200000000000"
    by (simp_all add: iso_text_def instant_of_def day_of_civil_start year_start_def digits_value_def)
  have far: "iso_admitted (2600, 1, 1) (0, 0, 0) []" "(2555 :: int) \<le> 2600"
    by (simp_all add: days_in_month_def)
  show ?thesis
    using cli_far_future_wraps [OF far] unfolding texts by blast
qed

end
