(* ===== verification/Cli_Commands.thy ===== *)
theory Cli_Commands
  imports Cli_Instants Lumen_Durable Cinder_Theorems
begin

text \<open>
  The operations of the operator CLI (\<open>crates/kaleidoscope-cli/src/lib.rs\<close>): each opens the log
  store or the tiering store of a data directory, or both, works on them and leaves the files
  behind. An operation takes and returns the two stores' files; what the environment does to it (failing
  calls, room on the devices, the clock) is an argument. The functions of \<open>serde_json\<close> are arguments.
\<close>

section \<open>Directory, environment and errors\<close>

record cli_disk =
  cd_lumen :: store_disk
  cd_cinder :: store_disk

record cli_serde =
  cs_lumen_to_string :: "lumen_wal_record \<Rightarrow> string + string"
  cs_lumen_from_str :: "string \<Rightarrow> string + lumen_wal_record"
  cs_lumen_from_reader :: "string \<Rightarrow> string + lumen_snapshot_doc"
  cs_cinder_to_string :: "cinder_wal_record \<Rightarrow> string + string"
  cs_cinder_from_str :: "string \<Rightarrow> string + cinder_wal_record"
  cs_cinder_from_reader :: "string \<Rightarrow> string + cinder_snapshot_doc"
  cs_record_to_string :: "log_record \<Rightarrow> string + string"
  cs_record_from_str :: "string \<Rightarrow> string + log_record"

text \<open>
  \<open>ce_lumen_io\<close>, \<open>ce_cinder_io\<close> and \<open>ce_now\<close> are indexed by the number of the append or of the reading of the
  clock; \<open>ce_drop_room\<close> is what the device takes when a store is dropped with bytes left in its buffer.
\<close>

record cli_env =
  ce_mkdir :: "string option"
  ce_otlp_open :: "string option"
  ce_lumen_io :: "nat \<Rightarrow> append_io"
  ce_cinder_io :: "nat \<Rightarrow> append_io"
  ce_now :: "nat \<Rightarrow> system_time"
  ce_drop_room :: nat
  ce_out_room :: nat
  ce_out_error :: string
  ce_out_flush :: "string option"

datatype cli_error =
  CliLumenOpen log_store_error | CliLumenIngest log_store_error | CliLumenQuery log_store_error
| CliCinderOpen migrate_error | CliCinderMigrate migrate_error | CliCinderPlace migrate_error
| CliCinderEvaluate migrate_error | CliInvalidTier string | CliInvalidDuration string string
| CliIo string | CliParseRecord nat string | CliSerialiseRecord string

fun migrate_error_display :: "(string \<Rightarrow> string) \<Rightarrow> migrate_error \<Rightarrow> string" where
  "migrate_error_display str_debug (UnknownItem tenant item) =
     ''cannot migrate unknown item '' @ str_debug item @ '' for tenant '' @ tenant"
| "migrate_error_display str_debug (CinderPersistenceFailed reason) = ''persistence failed: '' @ reason"

fun cli_error_display :: "(string \<Rightarrow> string) \<Rightarrow> cli_error \<Rightarrow> string" where
  "cli_error_display str_debug (CliLumenOpen e) = ''lumen open: '' @ log_store_error_display e"
| "cli_error_display str_debug (CliLumenIngest e) = ''lumen ingest: '' @ log_store_error_display e"
| "cli_error_display str_debug (CliLumenQuery e) = ''lumen query: '' @ log_store_error_display e"
| "cli_error_display str_debug (CliCinderOpen e) = ''cinder open: '' @ migrate_error_display str_debug e"
| "cli_error_display str_debug (CliCinderMigrate e) = ''cinder migrate: '' @ migrate_error_display str_debug e"
| "cli_error_display str_debug (CliCinderPlace e) = ''cinder place: '' @ migrate_error_display str_debug e"
| "cli_error_display str_debug (CliCinderEvaluate e) = ''cinder evaluate: '' @ migrate_error_display str_debug e"
| "cli_error_display str_debug (CliInvalidTier v) =
     ''invalid tier '' @ str_debug v @ '': expected one of hot, warm, cold''"
| "cli_error_display str_debug (CliInvalidDuration v secs_kind) =
     ''invalid duration '' @ str_debug v @ '' for '' @ secs_kind @ ''_secs: expected non-negative integer seconds''"
| "cli_error_display str_debug (CliIo e) = ''io: '' @ e"
| "cli_error_display str_debug (CliParseRecord line e) = ''parse record at line '' @ nat_str line @ '': '' @ e"
| "cli_error_display str_debug (CliSerialiseRecord e) = ''serialise record: '' @ e"

text \<open>An operation returns, returns an error, or panics.\<close>

datatype 'a cli_result = CliDone 'a | CliFailed cli_error | CliPanicked

section \<open>Opening and leaving the stores\<close>

definition cli_open_otlp :: "cli_env \<Rightarrow> string option \<Rightarrow> cli_error + unit" where
  "cli_open_otlp env otlp_log_path =
     (case (otlp_log_path, ce_otlp_open env) of
        (Some path, Some e) \<Rightarrow> Inl (CliIo e)
      | _ \<Rightarrow> Inr ())"

definition cli_open_lumen :: "cli_serde \<Rightarrow> cli_disk \<Rightarrow> cli_error + lumen_file" where
  "cli_open_lumen serde disk =
     (case fst (lumen_open_with_fsync_backend (cs_lumen_from_str serde) (cs_lumen_from_reader serde) (cd_lumen disk)) of
        Inl e \<Rightarrow> Inl (CliLumenOpen e) | Inr s \<Rightarrow> Inr s)"

definition cli_open_cinder :: "cli_serde \<Rightarrow> cli_disk \<Rightarrow> cli_error + cinder_file" where
  "cli_open_cinder serde disk =
     (case fst (cinder_open_with_fsync_backend (cs_cinder_from_str serde) (cs_cinder_from_reader serde) (cd_cinder disk)) of
        Inl e \<Rightarrow> Inl (CliCinderOpen e) | Inr s \<Rightarrow> Inr s)"

text \<open>A dropped \<open>BufWriter\<close> tries to write what it still holds.\<close>

definition dropped :: "cli_env \<Rightarrow> wal_writer \<Rightarrow> wal_writer" where
  "dropped env w = snd (snd (flush_buf (ce_drop_room env, w)))"

definition close_lumen :: "cli_env \<Rightarrow> lumen_file \<Rightarrow> cli_disk \<Rightarrow> cli_disk" where
  "close_lumen env s disk = disk\<lparr>cd_lumen := disk_of (lf_dir s) (dropped env (lf_wal s))\<rparr>"

definition close_cinder :: "cli_env \<Rightarrow> cinder_file \<Rightarrow> cli_disk \<Rightarrow> cli_disk" where
  "close_cinder env s disk = disk\<lparr>cd_cinder := disk_of (cf_dir s) (dropped env (cf_wal s))\<rparr>"

section \<open>Ingest\<close>

definition DEFAULT_BATCH_SIZE :: nat where "DEFAULT_BATCH_SIZE = 100"

record ingest_stats =
  records_ingested :: nat
  batches_flushed :: nat
  tier_items_placed :: nat

text \<open>The first phase, over the lines of the reader with their read errors.\<close>

fun cli_parse_lines :: "(string \<Rightarrow> string + log_record) \<Rightarrow> nat \<Rightarrow> (string + string) list \<Rightarrow> cli_error + log_record list" where
  "cli_parse_lines from_str idx [] = Inr []"
| "cli_parse_lines from_str idx (Inl e # rest) = Inl (CliIo e)"
| "cli_parse_lines from_str idx (Inr line # rest) =
     (if rust_trim line = [] then cli_parse_lines from_str (idx + 1) rest
      else
        case from_str line of
          Inl e \<Rightarrow> Inl (CliParseRecord (idx + 1) e)
        | Inr r \<Rightarrow>
          (case cli_parse_lines from_str (idx + 1) rest of Inl e \<Rightarrow> Inl e | Inr rs \<Rightarrow> Inr (r # rs)))"

text \<open>\<open>slice::chunks\<close>, whose panic on a size of zero is a guard of the caller.\<close>

function chunks :: "nat \<Rightarrow> 'a list \<Rightarrow> 'a list list" where
  "chunks n xs = (if n = 0 \<or> xs = [] then [] else take n xs # chunks n (drop n xs))"
  by pat_completeness auto
termination
  by (relation "measure (\<lambda>(n, xs). length xs)") auto

declare chunks.simps [simp del]

definition batch_item :: "tenant_id \<Rightarrow> nat \<Rightarrow> item_id" where
  "batch_item tenant batch_seq = tenant @ ''/batch-'' @ zero_padded 5 batch_seq"

text \<open>The second phase: \<open>flush\<close>, once per chunk.\<close>

fun cli_flush_all ::
  "cli_serde \<Rightarrow> cli_env \<Rightarrow> tenant_id \<Rightarrow> log_record list list \<Rightarrow> ingest_stats \<Rightarrow> lumen_file \<Rightarrow> cinder_file \<Rightarrow>
   (cli_error + ingest_stats) \<times> lumen_file \<times> cinder_file" where
  "cli_flush_all serde env tenant [] st lumen cinder = (Inr st, lumen, cinder)"
| "cli_flush_all serde env tenant (chunk # rest) st lumen cinder =
     (let seq = batches_flushed st in
      case lumen_ingest (cs_lumen_to_string serde) (ce_lumen_io env seq) tenant \<lparr>records = chunk\<rparr> lumen of
        (Inl e, lumen') \<Rightarrow> (Inl (CliLumenIngest e), lumen', cinder)
      | (Inr receipt, lumen') \<Rightarrow>
        (case cinder_place (cs_cinder_to_string serde) (ce_cinder_io env seq) (tenant, batch_item tenant seq) Hot (ce_now env seq) cinder of
           (Inl e, cinder') \<Rightarrow> (Inl (CliCinderPlace e), lumen', cinder')
         | (Inr _, cinder') \<Rightarrow>
           cli_flush_all serde env tenant rest
             \<lparr>records_ingested = records_ingested st + count receipt, batches_flushed = seq + 1,
              tier_items_placed = tier_items_placed st + 1\<rparr> lumen' cinder'))"

definition cli_ingest ::
  "cli_serde \<Rightarrow> cli_env \<Rightarrow> tenant_id \<Rightarrow> nat \<Rightarrow> (string + string) list \<Rightarrow> string option \<Rightarrow> cli_disk \<Rightarrow>
   ingest_stats cli_result \<times> cli_disk" where
  "cli_ingest serde env tenant batch_size lines otlp_log_path disk =
     (case ce_mkdir env of Some e \<Rightarrow> (CliFailed (CliIo e), disk) | None \<Rightarrow>
      case cli_open_otlp env otlp_log_path of Inl e \<Rightarrow> (CliFailed e, disk) | Inr _ \<Rightarrow>
      case cli_open_lumen serde disk of Inl e \<Rightarrow> (CliFailed e, disk) | Inr lumen \<Rightarrow>
      case cli_open_cinder serde disk of Inl e \<Rightarrow> (CliFailed e, close_lumen env lumen disk) | Inr cinder \<Rightarrow>
      case cli_parse_lines (cs_record_from_str serde) 0 lines of
        Inl e \<Rightarrow> (CliFailed e, close_cinder env cinder (close_lumen env lumen disk))
      | Inr validated \<Rightarrow>
        if batch_size = 0 then (CliPanicked, close_cinder env cinder (close_lumen env lumen disk))
        else
          case cli_flush_all serde env tenant (chunks batch_size validated)
                 \<lparr>records_ingested = 0, batches_flushed = 0, tier_items_placed = 0\<rparr> lumen cinder of
            (res, lumen', cinder') \<Rightarrow>
              (case res of Inl e \<Rightarrow> CliFailed e | Inr st \<Rightarrow> CliDone st,
               close_cinder env cinder' (close_lumen env lumen' disk)))"

section \<open>Output\<close>

text \<open>A writer with so much room left, and what it took.\<close>

type_synonym cli_out = "nat \<times> string"

definition cli_write :: "cli_env \<Rightarrow> string \<Rightarrow> cli_out \<Rightarrow> (cli_error + unit) \<times> cli_out" where
  "cli_write env data out =
     (case out of (room, taken) \<Rightarrow>
        if length data \<le> room then (Inr (), (room - length data, taken @ data))
        else (Inl (CliIo (ce_out_error env)), (0, taken @ take room data)))"

fun cli_write_lines :: "cli_env \<Rightarrow> string list \<Rightarrow> cli_out \<Rightarrow> (cli_error + unit) \<times> cli_out" where
  "cli_write_lines env [] out = (Inr (), out)"
| "cli_write_lines env (line # ls) out =
     (case cli_write env (line @ [newline]) out of
        (Inl e, out') \<Rightarrow> (Inl e, out')
      | (Inr _, out') \<Rightarrow> cli_write_lines env ls out')"

fun cli_write_records :: "cli_serde \<Rightarrow> cli_env \<Rightarrow> log_record list \<Rightarrow> cli_out \<Rightarrow> (cli_error + unit) \<times> cli_out" where
  "cli_write_records serde env [] out = (Inr (), out)"
| "cli_write_records serde env (r # rs) out =
     (case cs_record_to_string serde r of
        Inl e \<Rightarrow> (Inl (CliSerialiseRecord e), out)
      | Inr line \<Rightarrow>
        (case cli_write env line out of
           (Inl e, out') \<Rightarrow> (Inl e, out')
         | (Inr _, out') \<Rightarrow>
           (case cli_write env [newline] out' of
              (Inl e, out'') \<Rightarrow> (Inl e, out'')
            | (Inr _, out'') \<Rightarrow> cli_write_records serde env rs out'')))"

definition cli_flush :: "cli_env \<Rightarrow> cli_error + unit" where
  "cli_flush env = (case ce_out_flush env of Some e \<Rightarrow> Inl (CliIo e) | None \<Rightarrow> Inr ())"

text \<open>What an operation that has written to its output returns, with the bytes that were taken.\<close>

definition cli_finish :: "'a \<Rightarrow> (cli_error + unit) \<times> cli_out \<Rightarrow> 'a cli_result \<times> string" where
  "cli_finish v written = (case fst written of Inl e \<Rightarrow> CliFailed e | Inr _ \<Rightarrow> CliDone v, snd (snd written))"

definition cli_then :: "(cli_error + unit) \<times> cli_out \<Rightarrow> (cli_out \<Rightarrow> (cli_error + unit) \<times> cli_out) \<Rightarrow> (cli_error + unit) \<times> cli_out" where
  "cli_then written k = (case written of (Inl e, out) \<Rightarrow> (Inl e, out) | (Inr _, out) \<Rightarrow> k out)"

section \<open>Read and stats\<close>

definition cli_read ::
  "cli_serde \<Rightarrow> cli_env \<Rightarrow> tenant_id \<Rightarrow> string option \<Rightarrow> time_range \<Rightarrow> cli_disk \<Rightarrow> (nat cli_result \<times> string) \<times> cli_disk" where
  "cli_read serde env tenant otlp_log_path rng disk =
     (case cli_open_otlp env otlp_log_path of Inl e \<Rightarrow> ((CliFailed e, []), disk) | Inr _ \<Rightarrow>
      case cli_open_lumen serde disk of Inl e \<Rightarrow> ((CliFailed e, []), disk) | Inr lumen \<Rightarrow>
      case lumen_query tenant rng lumen of
        (Inl e, lumen') \<Rightarrow> ((CliFailed (CliLumenQuery e), []), close_lumen env lumen' disk)
      | (Inr found, lumen') \<Rightarrow>
        (cli_finish (length found)
           (cli_then (cli_write_records serde env found (ce_out_room env, [])) (\<lambda>out. (cli_flush env, out))),
         close_lumen env lumen' disk))"

text \<open>The lines both forms of \<open>stats\<close> begin with.\<close>

definition stats_lines :: "log_record list \<Rightarrow> string list" where
  "stats_lines found =
     (''records='' @ nat_str (length found)) #
     (if found = [] then []
      else [''earliest='' @ format_iso8601_utc_nanos (observed_time_unix_nano (hd found)),
            ''latest='' @ format_iso8601_utc_nanos (observed_time_unix_nano (last found))])"

definition cli_stats :: "cli_serde \<Rightarrow> cli_env \<Rightarrow> tenant_id \<Rightarrow> cli_disk \<Rightarrow> (nat cli_result \<times> string) \<times> cli_disk" where
  "cli_stats serde env tenant disk =
     (case cli_open_lumen serde disk of Inl e \<Rightarrow> ((CliFailed e, []), disk) | Inr lumen \<Rightarrow>
      case lumen_query tenant time_range_all lumen of
        (Inl e, lumen') \<Rightarrow> ((CliFailed (CliLumenQuery e), []), close_lumen env lumen' disk)
      | (Inr found, lumen') \<Rightarrow>
        (cli_finish (length found)
           (cli_then (cli_write_lines env (stats_lines found) (ce_out_room env, [])) (\<lambda>out. (cli_flush env, out))),
         close_lumen env lumen' disk))"

fun tier_lowercase :: "tier \<Rightarrow> string" where
  "tier_lowercase Hot = ''hot''"
| "tier_lowercase Warm = ''warm''"
| "tier_lowercase Cold = ''cold''"

definition tier_lines :: "tenant_id \<Rightarrow> cinder_file \<Rightarrow> string list" where
  "tier_lines tenant cinder =
     concat (map (\<lambda>tier. let placements = length (cinder_file_list_by_tier tenant tier cinder) in
       if 0 < placements then [tier_lowercase tier @ ''='' @ nat_str placements] else []) [Hot, Warm, Cold])"

text \<open>The tiering store is opened after the lines of the log store have been written.\<close>

definition cli_stats_with_tiers ::
  "cli_serde \<Rightarrow> cli_env \<Rightarrow> tenant_id \<Rightarrow> time_range \<Rightarrow> cli_disk \<Rightarrow> (nat cli_result \<times> string) \<times> cli_disk" where
  "cli_stats_with_tiers serde env tenant rng disk =
     (case cli_open_lumen serde disk of Inl e \<Rightarrow> ((CliFailed e, []), disk) | Inr lumen \<Rightarrow>
      case lumen_query tenant rng lumen of
        (Inl e, lumen') \<Rightarrow> ((CliFailed (CliLumenQuery e), []), close_lumen env lumen' disk)
      | (Inr found, lumen') \<Rightarrow>
        let disk1 = close_lumen env lumen' disk in
        case cli_write_lines env (stats_lines found) (ce_out_room env, []) of
          (Inl e, out) \<Rightarrow> ((CliFailed e, snd out), disk1)
        | (Inr _, out) \<Rightarrow>
          (case cli_open_cinder serde disk of
             Inl e \<Rightarrow> ((CliFailed e, snd out), disk1)
           | Inr cinder \<Rightarrow>
             (cli_finish (length found) (cli_then (cli_write_lines env (tier_lines tenant cinder) out) (\<lambda>out. (cli_flush env, out))),
              close_cinder env cinder disk1)))"

section \<open>The tiering commands\<close>

definition parse_tier :: "string \<Rightarrow> tier option" where
  "parse_tier s =
     (if s = ''hot'' then Some Hot else if s = ''warm'' then Some Warm else if s = ''cold'' then Some Cold else None)"

definition cli_migrate ::
  "cli_serde \<Rightarrow> cli_env \<Rightarrow> tenant_id \<Rightarrow> item_id \<Rightarrow> string \<Rightarrow> string option \<Rightarrow> cli_disk \<Rightarrow> (unit cli_result \<times> string) \<times> cli_disk" where
  "cli_migrate serde env tenant item to_tier_arg otlp_log_path disk =
     (case parse_tier to_tier_arg of None \<Rightarrow> ((CliFailed (CliInvalidTier to_tier_arg), []), disk) | Some to_tier \<Rightarrow>
      case cli_open_otlp env otlp_log_path of Inl e \<Rightarrow> ((CliFailed e, []), disk) | Inr _ \<Rightarrow>
      case cli_open_cinder serde disk of Inl e \<Rightarrow> ((CliFailed e, []), disk) | Inr cinder \<Rightarrow>
      case cinder_get_entry (tenant, item) cinder of
        None \<Rightarrow> ((CliFailed (CliCinderMigrate (UnknownItem tenant item)), []), close_cinder env cinder disk)
      | Some entry \<Rightarrow>
        case cinder_migrate (cs_cinder_to_string serde) (ce_cinder_io env 0) (tenant, item) to_tier (ce_now env 0) cinder of
          (Inl e, cinder') \<Rightarrow> ((CliFailed (CliCinderMigrate e), []), close_cinder env cinder' disk)
        | (Inr _, cinder') \<Rightarrow>
          (cli_finish () (cli_write_lines env
             [''migrated tenant='' @ tenant @ '' item='' @ item @ '' from='' @ tier_lowercase (te_tier entry) @
              '' to='' @ tier_lowercase to_tier] (ce_out_room env, [])),
           close_cinder env cinder' disk))"

definition cli_get_tier ::
  "cli_serde \<Rightarrow> cli_env \<Rightarrow> tenant_id \<Rightarrow> item_id \<Rightarrow> cli_disk \<Rightarrow> (unit cli_result \<times> string) \<times> cli_disk" where
  "cli_get_tier serde env tenant item disk =
     (case cli_open_cinder serde disk of Inl e \<Rightarrow> ((CliFailed e, []), disk) | Inr cinder \<Rightarrow>
      case cinder_get_tier (tenant, item) cinder of
        None \<Rightarrow> ((CliFailed (CliCinderMigrate (UnknownItem tenant item)), []), close_cinder env cinder disk)
      | Some tier \<Rightarrow>
        (cli_finish () (cli_write_lines env [''tier='' @ tier_lowercase tier] (ce_out_room env, [])), close_cinder env cinder disk))"

definition cli_place ::
  "cli_serde \<Rightarrow> cli_env \<Rightarrow> tenant_id \<Rightarrow> item_id \<Rightarrow> string \<Rightarrow> string option \<Rightarrow> cli_disk \<Rightarrow> (unit cli_result \<times> string) \<times> cli_disk" where
  "cli_place serde env tenant item tier_arg otlp_log_path disk =
     (case parse_tier tier_arg of None \<Rightarrow> ((CliFailed (CliInvalidTier tier_arg), []), disk) | Some tier \<Rightarrow>
      case cli_open_otlp env otlp_log_path of Inl e \<Rightarrow> ((CliFailed e, []), disk) | Inr _ \<Rightarrow>
      case cli_open_cinder serde disk of Inl e \<Rightarrow> ((CliFailed e, []), disk) | Inr cinder \<Rightarrow>
      case cinder_place (cs_cinder_to_string serde) (ce_cinder_io env 0) (tenant, item) tier (ce_now env 0) cinder of
        (Inl e, cinder') \<Rightarrow> ((CliFailed (CliCinderPlace e), []), close_cinder env cinder' disk)
      | (Inr _, cinder') \<Rightarrow>
        (cli_finish () (cli_write_lines env
           [''placed tenant='' @ tenant @ '' item='' @ item @ '' tier='' @ tier_lowercase tier] (ce_out_room env, [])),
         close_cinder env cinder' disk))"

definition cli_evaluate_policy ::
  "cli_serde \<Rightarrow> cli_env \<Rightarrow> nat \<Rightarrow> nat \<Rightarrow> string option \<Rightarrow> cli_disk \<Rightarrow> (unit cli_result \<times> string) \<times> cli_disk" where
  "cli_evaluate_policy serde env hot_to_warm_secs warm_to_cold_secs otlp_log_path disk =
     (let policy = age_based (hot_to_warm_secs * 10 ^ 9) (warm_to_cold_secs * 10 ^ 9) in
      case cli_open_otlp env otlp_log_path of Inl e \<Rightarrow> ((CliFailed e, []), disk) | Inr _ \<Rightarrow>
      case cli_open_cinder serde disk of Inl e \<Rightarrow> ((CliFailed e, []), disk) | Inr cinder \<Rightarrow>
      case cinder_evaluate_at (cs_cinder_to_string serde) (ce_cinder_io env) (ce_now env 0) policy cinder of
        (Inl e, cinder') \<Rightarrow> ((CliFailed (CliCinderEvaluate e), []), close_cinder env cinder' disk)
      | (Inr n, cinder') \<Rightarrow>
        (cli_finish () (cli_write_lines env [''evaluated migrated='' @ nat_str n] (ce_out_room env, [])),
         close_cinder env cinder' disk))"

definition cli_list_items ::
  "cli_serde \<Rightarrow> cli_env \<Rightarrow> tenant_id \<Rightarrow> string \<Rightarrow> cli_disk \<Rightarrow> (unit cli_result \<times> string) \<times> cli_disk" where
  "cli_list_items serde env tenant tier_arg disk =
     (case parse_tier tier_arg of None \<Rightarrow> ((CliFailed (CliInvalidTier tier_arg), []), disk) | Some tier \<Rightarrow>
      case cli_open_cinder serde disk of Inl e \<Rightarrow> ((CliFailed e, []), disk) | Inr cinder \<Rightarrow>
      (cli_finish () (cli_write_lines env (sort (cinder_file_list_by_tier tenant tier cinder)) (ce_out_room env, [])),
       close_cinder env cinder disk))"

end
