(* ===== verification/Cli_Main.thy ===== *)
theory Cli_Main
  imports Cli_Commands
begin

text \<open>
  The binary of the operator CLI (\<open>crates/kaleidoscope-cli/src/main.rs\<close>): the scanning of the argument
  vector, one function per subcommand from its arguments to a call of the library, and the dispatch
  with its exit codes. The file system is the map from data directories to their stores. The debug form of a
  string or character and the usage text are arguments; standard error is taken to accept what it is given.
\<close>

section \<open>Arguments\<close>

datatype run_error = UnknownFlag string | Message string | LibraryError cli_error

definition VALUE_TAKING_FLAGS :: "string list" where
  "VALUE_TAKING_FLAGS = [''--observe-otlp'', ''--since'', ''--until'']"

fun unknown_flag :: "string list \<Rightarrow> string list \<Rightarrow> string option" where
  "unknown_flag known [] = None"
| "unknown_flag known (arg # rest) =
     (if List.member known arg then
        (if List.member VALUE_TAKING_FLAGS arg then (case rest of [] \<Rightarrow> None | v # rest' \<Rightarrow> unknown_flag known rest')
         else unknown_flag known rest)
      else if prefix ''-'' arg then Some arg
      else unknown_flag known rest)"

definition reject_unknown_flags :: "string list \<Rightarrow> string list \<Rightarrow> run_error + unit" where
  "reject_unknown_flags args known =
     (case unknown_flag known (drop 2 args) of Some token \<Rightarrow> Inl (UnknownFlag token) | None \<Rightarrow> Inr ())"

definition args_get :: "string list \<Rightarrow> nat \<Rightarrow> string \<Rightarrow> run_error + string" where
  "args_get args i what = (if i < length args then Inr (args ! i) else Inl (Message (''missing '' @ what)))"

definition parse_positional :: "string list \<Rightarrow> run_error + tenant_id \<times> string" where
  "parse_positional args =
     (case args_get args 2 ''<tenant_id>'' of Inl e \<Rightarrow> Inl e | Inr tenant \<Rightarrow>
      case args_get args 3 ''<data_dir>'' of Inl e \<Rightarrow> Inl e | Inr data_dir \<Rightarrow> Inr (tenant, data_dir))"

text \<open>The argument after the first occurrence of a flag: no occurrence, nothing after it, or a value.\<close>

fun flag_value :: "string \<Rightarrow> string list \<Rightarrow> string option option" where
  "flag_value flag [] = None"
| "flag_value flag (arg # rest) =
     (if arg = flag then Some (case rest of [] \<Rightarrow> None | v # _ \<Rightarrow> Some v) else flag_value flag rest)"

definition parse_observe_otlp :: "string list \<Rightarrow> run_error + string option" where
  "parse_observe_otlp args =
     (case flag_value ''--observe-otlp'' (drop 2 args) of
        None \<Rightarrow> Inr None
      | Some None \<Rightarrow> Inl (Message ''--observe-otlp requires a path argument'')
      | Some (Some path) \<Rightarrow> Inr (Some path))"

record cli_lib =
  cl_str_debug :: "string \<Rightarrow> string"
  cl_char_debug :: "char \<Rightarrow> string"
  cl_usage :: string

definition parse_flag_iso :: "cli_lib \<Rightarrow> string list \<Rightarrow> string \<Rightarrow> run_error + u64 option" where
  "parse_flag_iso lib args flag =
     (case flag_value flag (drop 2 args) of
        None \<Rightarrow> Inr None
      | Some None \<Rightarrow> Inl (Message (flag @ '' requires an ISO 8601 UTC argument''))
      | Some (Some v) \<Rightarrow>
        (case parse_iso8601_utc_nanos v of
           Inr ns \<Rightarrow> Inr (Some ns)
         | Inl e \<Rightarrow> Inl (Message (flag @ '' '' @ cl_str_debug lib v @ '': '' @ iso_error_display (cl_char_debug lib) e))))"

definition cli_time_range :: "cli_lib \<Rightarrow> string list \<Rightarrow> run_error + time_range" where
  "cli_time_range lib args =
     (case parse_flag_iso lib args ''--since'' of Inl e \<Rightarrow> Inl e | Inr since \<Rightarrow>
      case parse_flag_iso lib args ''--until'' of Inl e \<Rightarrow> Inl e | Inr until \<Rightarrow>
      Inr \<lparr>start_unix_nano = (case since of None \<Rightarrow> 0 | Some ns \<Rightarrow> ns),
           end_unix_nano = (case until of None \<Rightarrow> - 1 | Some ns \<Rightarrow> ns)\<rparr>)"

section \<open>Subcommands\<close>

type_synonym cli_fs = "string \<Rightarrow> cli_disk"

text \<open>What a run returns, with its standard output and standard error.\<close>

record run_outcome =
  ro_result :: "run_error + unit"
  ro_stdout :: string
  ro_stderr :: string
  ro_panicked :: bool

definition run_refused :: "run_error \<Rightarrow> cli_fs \<Rightarrow> run_outcome \<times> cli_fs" where
  "run_refused e fs = (\<lparr>ro_result = Inl e, ro_stdout = [], ro_stderr = [], ro_panicked = False\<rparr>, fs)"

text \<open>A library call on a data directory: its output, and on success a line on standard error.\<close>

definition run_library ::
  "string \<Rightarrow> ('a \<Rightarrow> string) \<Rightarrow> (cli_disk \<Rightarrow> ('a cli_result \<times> string) \<times> cli_disk) \<Rightarrow> cli_fs \<Rightarrow> run_outcome \<times> cli_fs" where
  "run_library data_dir summary call fs =
     (case call (fs data_dir) of
        ((res, out), disk') \<Rightarrow>
          (case res of
             CliDone v \<Rightarrow> \<lparr>ro_result = Inr (), ro_stdout = out, ro_stderr = summary v, ro_panicked = False\<rparr>
           | CliFailed e \<Rightarrow> \<lparr>ro_result = Inl (LibraryError e), ro_stdout = out, ro_stderr = [], ro_panicked = False\<rparr>
           | CliPanicked \<Rightarrow> \<lparr>ro_result = Inr (), ro_stdout = out, ro_stderr = [], ro_panicked = True\<rparr>,
           fs(data_dir := disk')))"

definition run_ingest ::
  "cli_serde \<Rightarrow> cli_env \<Rightarrow> (string + string) list \<Rightarrow> string list \<Rightarrow> cli_fs \<Rightarrow> run_outcome \<times> cli_fs" where
  "run_ingest serde env stdin args fs =
     (case reject_unknown_flags args [''--observe-otlp''] of Inl e \<Rightarrow> run_refused e fs | Inr _ \<Rightarrow>
      case parse_positional args of Inl e \<Rightarrow> run_refused e fs | Inr (tenant, data_dir) \<Rightarrow>
      case parse_observe_otlp args of Inl e \<Rightarrow> run_refused e fs | Inr otlp_path \<Rightarrow>
      run_library data_dir
        (\<lambda>st. ''ingest ok: records='' @ nat_str (records_ingested st) @ '' batches='' @ nat_str (batches_flushed st) @
              '' tier_items='' @ nat_str (tier_items_placed st) @ [newline])
        (\<lambda>disk. case cli_ingest serde env tenant DEFAULT_BATCH_SIZE stdin otlp_path disk of (res, disk') \<Rightarrow> ((res, []), disk')) fs)"

definition run_read :: "cli_lib \<Rightarrow> cli_serde \<Rightarrow> cli_env \<Rightarrow> string list \<Rightarrow> cli_fs \<Rightarrow> run_outcome \<times> cli_fs" where
  "run_read lib serde env args fs =
     (case reject_unknown_flags args [''--observe-otlp'', ''--since'', ''--until''] of Inl e \<Rightarrow> run_refused e fs | Inr _ \<Rightarrow>
      case parse_positional args of Inl e \<Rightarrow> run_refused e fs | Inr (tenant, data_dir) \<Rightarrow>
      case parse_observe_otlp args of Inl e \<Rightarrow> run_refused e fs | Inr otlp_path \<Rightarrow>
      case cli_time_range lib args of Inl e \<Rightarrow> run_refused e fs | Inr rng \<Rightarrow>
      run_library data_dir (\<lambda>n. ''read ok: records='' @ nat_str n @ [newline]) (cli_read serde env tenant otlp_path rng) fs)"

definition run_stats :: "cli_lib \<Rightarrow> cli_serde \<Rightarrow> cli_env \<Rightarrow> string list \<Rightarrow> cli_fs \<Rightarrow> run_outcome \<times> cli_fs" where
  "run_stats lib serde env args fs =
     (case reject_unknown_flags args [''--since'', ''--until''] of Inl e \<Rightarrow> run_refused e fs | Inr _ \<Rightarrow>
      case parse_positional args of Inl e \<Rightarrow> run_refused e fs | Inr (tenant, data_dir) \<Rightarrow>
      case cli_time_range lib args of Inl e \<Rightarrow> run_refused e fs | Inr rng \<Rightarrow>
      run_library data_dir (\<lambda>n. ''stats ok: records='' @ nat_str n @ [newline]) (cli_stats_with_tiers serde env tenant rng) fs)"

definition run_migrate :: "cli_serde \<Rightarrow> cli_env \<Rightarrow> string list \<Rightarrow> cli_fs \<Rightarrow> run_outcome \<times> cli_fs" where
  "run_migrate serde env args fs =
     (case reject_unknown_flags args [''--observe-otlp''] of Inl e \<Rightarrow> run_refused e fs | Inr _ \<Rightarrow>
      case parse_positional args of Inl e \<Rightarrow> run_refused e fs | Inr (tenant, data_dir) \<Rightarrow>
      case args_get args 4 ''<item_id>'' of Inl e \<Rightarrow> run_refused e fs | Inr item_id \<Rightarrow>
      case args_get args 5 ''<to_tier>'' of Inl e \<Rightarrow> run_refused e fs | Inr to_tier \<Rightarrow>
      case parse_observe_otlp args of Inl e \<Rightarrow> run_refused e fs | Inr otlp_path \<Rightarrow>
      run_library data_dir (\<lambda>_. []) (cli_migrate serde env tenant item_id to_tier otlp_path) fs)"

definition run_evaluate_policy :: "cli_serde \<Rightarrow> cli_env \<Rightarrow> string list \<Rightarrow> cli_fs \<Rightarrow> run_outcome \<times> cli_fs" where
  "run_evaluate_policy serde env args fs =
     (case reject_unknown_flags args [''--observe-otlp''] of Inl e \<Rightarrow> run_refused e fs | Inr _ \<Rightarrow>
      case args_get args 2 ''<data_dir>'' of Inl e \<Rightarrow> run_refused e fs | Inr data_dir \<Rightarrow>
      case args_get args 3 ''<hot_to_warm_secs>'' of Inl e \<Rightarrow> run_refused e fs | Inr hot_raw \<Rightarrow>
      case args_get args 4 ''<warm_to_cold_secs>'' of Inl e \<Rightarrow> run_refused e fs | Inr warm_raw \<Rightarrow>
      case parse_u64 hot_raw of None \<Rightarrow> run_refused (LibraryError (CliInvalidDuration hot_raw ''hot_to_warm'')) fs | Some hot_secs \<Rightarrow>
      case parse_u64 warm_raw of None \<Rightarrow> run_refused (LibraryError (CliInvalidDuration warm_raw ''warm_to_cold'')) fs | Some warm_secs \<Rightarrow>
      case parse_observe_otlp args of Inl e \<Rightarrow> run_refused e fs | Inr otlp_path \<Rightarrow>
      run_library data_dir (\<lambda>_. []) (cli_evaluate_policy serde env hot_secs warm_secs otlp_path) fs)"

definition run_get_tier :: "cli_serde \<Rightarrow> cli_env \<Rightarrow> string list \<Rightarrow> cli_fs \<Rightarrow> run_outcome \<times> cli_fs" where
  "run_get_tier serde env args fs =
     (case reject_unknown_flags args [] of Inl e \<Rightarrow> run_refused e fs | Inr _ \<Rightarrow>
      case parse_positional args of Inl e \<Rightarrow> run_refused e fs | Inr (tenant, data_dir) \<Rightarrow>
      case args_get args 4 ''<item_id>'' of Inl e \<Rightarrow> run_refused e fs | Inr item_id \<Rightarrow>
      run_library data_dir (\<lambda>_. []) (cli_get_tier serde env tenant item_id) fs)"

definition run_place :: "cli_serde \<Rightarrow> cli_env \<Rightarrow> string list \<Rightarrow> cli_fs \<Rightarrow> run_outcome \<times> cli_fs" where
  "run_place serde env args fs =
     (case reject_unknown_flags args [''--observe-otlp''] of Inl e \<Rightarrow> run_refused e fs | Inr _ \<Rightarrow>
      case parse_positional args of Inl e \<Rightarrow> run_refused e fs | Inr (tenant, data_dir) \<Rightarrow>
      case args_get args 4 ''<item_id>'' of Inl e \<Rightarrow> run_refused e fs | Inr item_id \<Rightarrow>
      case args_get args 5 ''<tier>'' of Inl e \<Rightarrow> run_refused e fs | Inr tier \<Rightarrow>
      case parse_observe_otlp args of Inl e \<Rightarrow> run_refused e fs | Inr otlp_path \<Rightarrow>
      run_library data_dir (\<lambda>_. []) (cli_place serde env tenant item_id tier otlp_path) fs)"

definition run_list_items :: "cli_serde \<Rightarrow> cli_env \<Rightarrow> string list \<Rightarrow> cli_fs \<Rightarrow> run_outcome \<times> cli_fs" where
  "run_list_items serde env args fs =
     (case reject_unknown_flags args [] of Inl e \<Rightarrow> run_refused e fs | Inr _ \<Rightarrow>
      case parse_positional args of Inl e \<Rightarrow> run_refused e fs | Inr (tenant, data_dir) \<Rightarrow>
      case args_get args 4 ''<tier>'' of Inl e \<Rightarrow> run_refused e fs | Inr tier \<Rightarrow>
      run_library data_dir (\<lambda>_. []) (cli_list_items serde env tenant tier) fs)"

section \<open>Dispatch\<close>

fun run_error_display :: "cli_lib \<Rightarrow> run_error \<Rightarrow> string" where
  "run_error_display lib (UnknownFlag token) = ''unknown flag '' @ cl_str_debug lib token"
| "run_error_display lib (Message m) = m"
| "run_error_display lib (LibraryError e) = cli_error_display (cl_str_debug lib) e"

record cli_exit =
  cx_code :: nat
  cx_stdout :: string
  cx_stderr :: string

definition cli_main ::
  "cli_lib \<Rightarrow> cli_serde \<Rightarrow> cli_env \<Rightarrow> (string + string) list \<Rightarrow> string list \<Rightarrow> cli_fs \<Rightarrow> cli_exit \<times> cli_fs" where
  "cli_main lib serde env stdin args fs =
     (let sub = (if 1 < length args then Some (args ! 1) else None);
          ran = (if sub = Some ''ingest'' then Some (run_ingest serde env stdin args fs)
                 else if sub = Some ''read'' then Some (run_read lib serde env args fs)
                 else if sub = Some ''stats'' then Some (run_stats lib serde env args fs)
                 else if sub = Some ''migrate'' then Some (run_migrate serde env args fs)
                 else if sub = Some ''list-items'' then Some (run_list_items serde env args fs)
                 else if sub = Some ''place'' then Some (run_place serde env args fs)
                 else if sub = Some ''get-tier'' then Some (run_get_tier serde env args fs)
                 else if sub = Some ''evaluate-policy'' then Some (run_evaluate_policy serde env args fs)
                 else None) in
      case ran of
        None \<Rightarrow>
          (if sub = None \<or> sub = Some ''--help'' \<or> sub = Some ''-h''
           then (\<lparr>cx_code = 0, cx_stdout = [], cx_stderr = cl_usage lib\<rparr>, fs)
           else (\<lparr>cx_code = 2, cx_stdout = [],
                  cx_stderr = ''kaleidoscope-cli: unknown subcommand '' @ cl_str_debug lib (the sub) @ [newline, newline] @ cl_usage lib\<rparr>, fs))
      | Some (r, fs') \<Rightarrow>
          (if ro_panicked r then (\<lparr>cx_code = 101, cx_stdout = ro_stdout r, cx_stderr = ro_stderr r\<rparr>, fs')
           else
             case ro_result r of
               Inr _ \<Rightarrow> (\<lparr>cx_code = 0, cx_stdout = ro_stdout r, cx_stderr = ro_stderr r\<rparr>, fs')
             | Inl e \<Rightarrow>
               (\<lparr>cx_code = (case e of UnknownFlag _ \<Rightarrow> 2 | _ \<Rightarrow> 1), cx_stdout = ro_stdout r,
                 cx_stderr = ro_stderr r @ ''kaleidoscope-cli: '' @ run_error_display lib e @ [newline, newline] @
                   (case e of UnknownFlag _ \<Rightarrow> cl_usage lib | _ \<Rightarrow> [])\<rparr>, fs')))"

end
