(* ===== verification/Cli_Theorems.thy ===== *)
theory Cli_Theorems
  imports Cli_Main
begin

text \<open>
  What the operations of the CLI promise over runs of the binary: that an ingest is all or nothing up
  to its first write, that what it acknowledges is what later reads print, and where the tier entries of
  its batches end up.
\<close>

section \<open>A data directory between runs\<close>

text \<open>
  A directory holds acknowledged batches and tier entries: both stores open, durably, with these contents.
\<close>

definition cli_holds ::
  "cli_serde \<Rightarrow> cli_disk \<Rightarrow> (tenant_id \<times> log_record list) list \<Rightarrow> (tier_key \<Rightarrow> tier_entry option) \<Rightarrow> bool" where
  "cli_holds serde disk acked entries \<longleftrightarrow>
     (\<exists>lumen cinder. cli_open_lumen serde disk = Inr lumen \<and> cli_open_cinder serde disk = Inr cinder \<and>
        lumen_durable (cs_lumen_to_string serde) (cs_lumen_from_str serde) (cs_lumen_from_reader serde) lumen \<and> lumen_ordered lumen \<and>
        (\<forall>t. hm_get_or [] (lf_per_tenant lumen) t = sort_key observed_time_unix_nano (records_of t acked)) \<and>
        cinder_durable (cs_cinder_to_string serde) (cs_cinder_from_str serde) (cs_cinder_from_reader serde) cinder \<and>
        hm_get (cf_entries cinder) = entries)"

lemma dropped_clean: "wr_buf w = [] \<Longrightarrow> dropped env w = w"
  by (simp add: dropped_def flush_buf_def file_write_all_def)

lemma lumen_durable_buf: "lumen_durable ts fs fr s \<Longrightarrow> wr_buf (lf_wal s) = []"
  by (simp add: lumen_durable_def durable_as_def)

lemma cinder_durable_buf: "cinder_durable ts fs fr s \<Longrightarrow> wr_buf (cf_wal s) = []"
  by (simp add: cinder_durable_def durable_as_def)

lemma reopen_lumen:
  assumes "lumen_durable (cs_lumen_to_string serde) (cs_lumen_from_str serde) (cs_lumen_from_reader serde) lumen"
  shows "\<exists>lumen'. cli_open_lumen serde (close_lumen env lumen disk) = Inr lumen' \<and>
    lumen_durable (cs_lumen_to_string serde) (cs_lumen_from_str serde) (cs_lumen_from_reader serde) lumen' \<and> lumen_ordered lumen' \<and>
    hm_get_or [] (lf_per_tenant lumen') = hm_get_or [] (lf_per_tenant lumen)"
  using lumen_durable_reopen [OF assms] hm_get_or_cong
  by (fastforce simp: cli_open_lumen_def close_lumen_def dropped_clean lumen_durable_buf [OF assms])

lemma reopen_cinder:
  assumes "cinder_durable (cs_cinder_to_string serde) (cs_cinder_from_str serde) (cs_cinder_from_reader serde) cinder"
  shows "\<exists>cinder'. cli_open_cinder serde (close_cinder env cinder disk) = Inr cinder' \<and>
    cinder_durable (cs_cinder_to_string serde) (cs_cinder_from_str serde) (cs_cinder_from_reader serde) cinder' \<and>
    hm_get (cf_entries cinder') = hm_get (cf_entries cinder)"
  using cinder_reopen [OF assms]
  by (fastforce simp: cli_open_cinder_def close_cinder_def dropped_clean cinder_durable_buf [OF assms])

lemma close_simps [simp]:
  "cli_open_lumen serde (close_cinder env cinder disk) = cli_open_lumen serde disk"
  "cli_open_cinder serde (close_lumen env lumen disk) = cli_open_cinder serde disk"
  by (simp_all add: cli_open_lumen_def cli_open_cinder_def close_lumen_def close_cinder_def)

lemma close_commute: "close_cinder env cinder (close_lumen env' lumen disk) = close_lumen env' lumen (close_cinder env cinder disk)"
  by (simp add: close_lumen_def close_cinder_def)

text \<open>Stores left durable are found as they were left.\<close>

lemma holds_closed:
  assumes "lumen_durable (cs_lumen_to_string serde) (cs_lumen_from_str serde) (cs_lumen_from_reader serde) lumen"
    and "cinder_durable (cs_cinder_to_string serde) (cs_cinder_from_str serde) (cs_cinder_from_reader serde) cinder"
    and "\<And>t. hm_get_or [] (lf_per_tenant lumen) t = sort_key observed_time_unix_nano (records_of t acked)"
  shows "cli_holds serde (close_cinder env cinder (close_lumen env lumen disk)) acked (hm_get (cf_entries cinder))"
proof -
  obtain lumen' where l: "cli_open_lumen serde (close_lumen env lumen disk) = Inr lumen'"
    "lumen_durable (cs_lumen_to_string serde) (cs_lumen_from_str serde) (cs_lumen_from_reader serde) lumen'" "lumen_ordered lumen'"
    "hm_get_or [] (lf_per_tenant lumen') = hm_get_or [] (lf_per_tenant lumen)"
    using reopen_lumen [OF assms(1)] by blast
  obtain cinder' where c: "cli_open_cinder serde (close_cinder env cinder (close_lumen env lumen disk)) = Inr cinder'"
    "cinder_durable (cs_cinder_to_string serde) (cs_cinder_from_str serde) (cs_cinder_from_reader serde) cinder'"
    "hm_get (cf_entries cinder') = hm_get (cf_entries cinder)"
    using reopen_cinder [OF assms(2)] by blast
  show ?thesis
    unfolding cli_holds_def using l c assms(3) by (intro exI [of _ lumen'] exI [of _ cinder']) simp
qed

section \<open>The two phases of an ingest\<close>

lemma chunks_concat: "0 < n \<Longrightarrow> concat (chunks n xs) = xs"
proof (induction n xs rule: chunks.induct)
  case (1 n xs)
  then show ?case
    by (subst chunks.simps) auto
qed

lemma chunks_nonempty: "c \<in> set (chunks n xs) \<Longrightarrow> c \<noteq> []"
proof (induction n xs rule: chunks.induct)
  case (1 n xs)
  from "1.prems" have "n \<noteq> 0" "xs \<noteq> []" "c = take n xs \<or> c \<in> set (chunks n (drop n xs))"
    by (subst (asm) chunks.simps; auto split: if_splits)+
  with "1.IH" show ?case
    by auto
qed

lemma digits_value_padded: "digits_value (zero_padded w n) = n"
proof -
  have "digits_value (replicate k CHR ''0'' @ ds) = digits_value ds" for k ds
  proof -
    have "fold (\<lambda>c n. 10 * n + (of_char c - 48)) (replicate k CHR ''0'') 0 = (0 :: nat)"
      by (induction k) simp_all
    then show ?thesis
      by (simp add: digits_value_def)
  qed
  then show ?thesis
    by (simp add: zero_padded_def digits_value_nat_str)
qed

lemma batch_item_inject [simp]: "batch_item t i = batch_item t j \<longleftrightarrow> i = j"
  unfolding batch_item_def by (metis append_same_eq digits_value_padded same_append_eq)

text \<open>The entries the batches from \<open>seq\<close> on are given, whatever was there under their names.\<close>

definition placed_batches ::
  "tenant_id \<Rightarrow> (nat \<Rightarrow> system_time) \<Rightarrow> nat \<Rightarrow> nat \<Rightarrow> (tier_key \<Rightarrow> tier_entry option) \<Rightarrow> tier_key \<Rightarrow> tier_entry option" where
  "placed_batches tenant now seq n entries =
     fold (\<lambda>k m. m((tenant, batch_item tenant k) \<mapsto> \<lparr>te_tier = Hot, placed_at = now k, migrated_at = now k\<rparr>)) [seq ..< seq + n] entries"

lemma placed_batches_Suc:
  "placed_batches tenant now seq (Suc n) entries =
    placed_batches tenant now (Suc seq) n
      (entries((tenant, batch_item tenant seq) \<mapsto> \<lparr>te_tier = Hot, placed_at = now seq, migrated_at = now seq\<rparr>))"
  by (simp add: placed_batches_def upt_conv_Cons del: upt_Suc)

lemma placed_batches_at:
  "placed_batches tenant now 0 n entries (tenant, batch_item tenant k) =
    (if k < n then Some \<lparr>te_tier = Hot, placed_at = now k, migrated_at = now k\<rparr> else entries (tenant, batch_item tenant k))"
  "(\<And>k. key \<noteq> (tenant, batch_item tenant k)) \<Longrightarrow> placed_batches tenant now 0 n entries key = entries key"
  by (induction n) (auto simp: placed_batches_def)

lemma cli_flush_all_done:
  assumes "cli_flush_all serde env tenant cs st lumen cinder = (Inr st', lumen', cinder')"
    and "lumen_durable (cs_lumen_to_string serde) (cs_lumen_from_str serde) (cs_lumen_from_reader serde) lumen" and "lumen_ordered lumen"
    and "cinder_durable (cs_cinder_to_string serde) (cs_cinder_from_str serde) (cs_cinder_from_reader serde) cinder"
    and "\<And>t. hm_get_or [] (lf_per_tenant lumen) t = sort_key observed_time_unix_nano (records_of t acked)"
    and "\<forall>c \<in> set cs. c \<noteq> [] \<and> serde_ok (cs_lumen_to_string serde) (cs_lumen_from_str serde) (LumenWalIngest tenant c)"
    and "\<forall>k < batches_flushed st + length cs. serde_ok (cs_cinder_to_string serde) (cs_cinder_from_str serde)
      (CinderWalPlace tenant (batch_item tenant k) Hot (ce_now env k))"
  shows "st' = \<lparr>records_ingested = records_ingested st + length (concat cs), batches_flushed = batches_flushed st + length cs,
      tier_items_placed = tier_items_placed st + length cs\<rparr> \<and>
    lumen_durable (cs_lumen_to_string serde) (cs_lumen_from_str serde) (cs_lumen_from_reader serde) lumen' \<and> lumen_ordered lumen' \<and>
    cinder_durable (cs_cinder_to_string serde) (cs_cinder_from_str serde) (cs_cinder_from_reader serde) cinder' \<and>
    (\<forall>t. hm_get_or [] (lf_per_tenant lumen') t =
      sort_key observed_time_unix_nano (records_of t (acked @ map (\<lambda>c. (tenant, c)) cs))) \<and>
    hm_get (cf_entries cinder') = placed_batches tenant (ce_now env) (batches_flushed st) (length cs) (hm_get (cf_entries cinder))"
  using assms
proof (induction cs arbitrary: st lumen cinder acked)
  case Nil
  then show ?case
    by (simp add: placed_batches_def)
next
  case (Cons c cs)
  let ?seq = "batches_flushed st"
  let ?entry = "\<lparr>te_tier = Hot, placed_at = ce_now env ?seq, migrated_at = ce_now env ?seq\<rparr>"
  from Cons.prems(1) obtain receipt lumen1 where l: "lumen_ingest (cs_lumen_to_string serde) (ce_lumen_io env ?seq) tenant \<lparr>records = c\<rparr> lumen =
      (Inr receipt, lumen1)"
    by (auto simp: Let_def split: prod.splits sum.splits)
  with Cons.prems(1) obtain u cinder1 where p: "cinder_place (cs_cinder_to_string serde) (ce_cinder_io env ?seq)
      (tenant, batch_item tenant ?seq) Hot (ce_now env ?seq) cinder = (Inr u, cinder1)"
    by (auto simp: Let_def split: prod.splits sum.splits)
  let ?st = "\<lparr>records_ingested = records_ingested st + count receipt, batches_flushed = ?seq + 1,
      tier_items_placed = tier_items_placed st + 1\<rparr>"
  have rest: "cli_flush_all serde env tenant cs ?st lumen1 cinder1 = (Inr st', lumen', cinder')"
    using Cons.prems(1) l p by (simp add: Let_def)
  have c: "c \<noteq> []" "serde_ok (cs_lumen_to_string serde) (cs_lumen_from_str serde) (LumenWalIngest tenant c)"
    using Cons.prems(6) by auto
  note acked = lumen_ingest_acked [OF l]
  have lumen1: "lumen_durable (cs_lumen_to_string serde) (cs_lumen_from_str serde) (cs_lumen_from_reader serde) lumen1"
    using lumen_durable_ingest [OF Cons.prems(2) l] c by simp
  have "(case (cs_lumen_to_string serde, ce_lumen_io env ?seq) of (ts, env) \<Rightarrow> lumen_ingest ts env) tenant \<lparr>records = c\<rparr> lumen = (Inr receipt, lumen1)"
    using l by simp
  from lumen_file.ingest_acked [OF Cons.prems(3) this]
  have contents: "lumen_ordered lumen1" "hm_get_or [] (lf_per_tenant lumen1) = (hm_get_or [] (lf_per_tenant lumen))
      (tenant := sort_key observed_time_unix_nano (hm_get_or [] (lf_per_tenant lumen) tenant @ c))"
    by simp_all
  have bucket: "hm_get_or [] (lf_per_tenant lumen1) t = sort_key observed_time_unix_nano (records_of t (acked @ [(tenant, c)]))" for t
    using contents(2) Cons.prems(5) by (simp add: sort_key_append_sorted_left)
  from p obtain w where w: "cinder_append_wal (cs_cinder_to_string serde) (ce_cinder_io env ?seq)
      (CinderWalPlace tenant (batch_item tenant ?seq) Hot (ce_now env ?seq)) (cf_wal cinder) = (Inr (), w)"
    and cinder1: "cinder1 = cinder\<lparr>cf_wal := w, cf_entries := hm_insert (tenant, batch_item tenant ?seq) ?entry (cf_entries cinder),
      cf_events := cf_events cinder @ [CinderPlace tenant Hot]\<rparr>"
    by (auto simp: cinder_place_def Let_def split: prod.splits sum.splits)
  have cd: "cinder_durable (cs_cinder_to_string serde) (cs_cinder_from_str serde) (cs_cinder_from_reader serde) cinder1"
    by (rule cinder_durable_append [OF Cons.prems(4) w])
      (use Cons.prems(4,7) in \<open>auto simp: cinder1 cinder_durable_def\<close>)
  have "hm_get (cf_entries cinder1) = (hm_get (cf_entries cinder))((tenant, batch_item tenant ?seq) \<mapsto> ?entry)"
    by (simp add: cinder1 fun_eq_iff)
  then have entries: "placed_batches tenant (ce_now env) (Suc ?seq) (length cs) (hm_get (cf_entries cinder1)) =
      placed_batches tenant (ce_now env) ?seq (length (c # cs)) (hm_get (cf_entries cinder))"
    by (simp only: placed_batches_Suc list.size add_0_right add_Suc_right One_nat_def)
  have prems: "\<forall>c \<in> set cs. c \<noteq> [] \<and> serde_ok (cs_lumen_to_string serde) (cs_lumen_from_str serde) (LumenWalIngest tenant c)"
    "\<forall>k < batches_flushed ?st + length cs. serde_ok (cs_cinder_to_string serde) (cs_cinder_from_str serde)
      (CinderWalPlace tenant (batch_item tenant k) Hot (ce_now env k))"
    using Cons.prems(6,7) by simp_all
  show ?case
    using Cons.IH [OF rest lumen1 contents(1) cd bucket prems] acked c(1) unfolding entries [symmetric]
    by (simp add: add.assoc)
qed

section \<open>Ingest\<close>

text \<open>The codecs write and read back what an ingest of these records appends.\<close>

definition ingest_serde_ok :: "cli_serde \<Rightarrow> cli_env \<Rightarrow> tenant_id \<Rightarrow> log_record list list \<Rightarrow> bool" where
  "ingest_serde_ok serde env tenant cs \<longleftrightarrow>
     list_all (\<lambda>c. serde_ok (cs_lumen_to_string serde) (cs_lumen_from_str serde) (LumenWalIngest tenant c)) cs \<and>
     list_all (\<lambda>k. serde_ok (cs_cinder_to_string serde) (cs_cinder_from_str serde)
       (CinderWalPlace tenant (batch_item tenant k) Hot (ce_now env k))) [0 ..< length cs]"

lemma cli_ingest_done:
  assumes "cli_holds serde disk acked entries" and "cli_ingest serde env tenant n lines otlp disk = (CliDone st, disk')"
    and "cli_parse_lines (cs_record_from_str serde) 0 lines = Inr rs" and "ingest_serde_ok serde env tenant (chunks n rs)"
  shows "st = \<lparr>records_ingested = length rs, batches_flushed = length (chunks n rs), tier_items_placed = length (chunks n rs)\<rparr> \<and>
    0 < n \<and>
    cli_holds serde disk' (acked @ map (\<lambda>c. (tenant, c)) (chunks n rs)) (placed_batches tenant (ce_now env) 0 (length (chunks n rs)) entries)"
proof -
  obtain lumen cinder where o: "cli_open_lumen serde disk = Inr lumen" "cli_open_cinder serde disk = Inr cinder"
    and l: "lumen_durable (cs_lumen_to_string serde) (cs_lumen_from_str serde) (cs_lumen_from_reader serde) lumen" "lumen_ordered lumen"
    and contents: "\<And>t. hm_get_or [] (lf_per_tenant lumen) t = sort_key observed_time_unix_nano (records_of t acked)"
    and c: "cinder_durable (cs_cinder_to_string serde) (cs_cinder_from_str serde) (cs_cinder_from_reader serde) cinder"
    "hm_get (cf_entries cinder) = entries"
    using assms(1) by (auto simp: cli_holds_def)
  let ?st0 = "\<lparr>records_ingested = 0, batches_flushed = 0, tier_items_placed = 0\<rparr>"
  obtain res lumen' cinder' where f: "cli_flush_all serde env tenant (chunks n rs) ?st0 lumen cinder = (res, lumen', cinder')"
    by (metis prod_cases3)
  from assms(2,3) o f have n: "0 < n" and res: "res = Inr st" and disk': "disk' = close_cinder env cinder' (close_lumen env lumen' disk)"
    by (auto simp: cli_ingest_def split: option.splits sum.splits if_splits)
  have ok: "\<forall>c \<in> set (chunks n rs). c \<noteq> [] \<and> serde_ok (cs_lumen_to_string serde) (cs_lumen_from_str serde) (LumenWalIngest tenant c)"
    "\<forall>k < batches_flushed ?st0 + length (chunks n rs). serde_ok (cs_cinder_to_string serde) (cs_cinder_from_str serde)
      (CinderWalPlace tenant (batch_item tenant k) Hot (ce_now env k))"
    using assms(4) chunks_nonempty [of _ n rs] by (auto simp: ingest_serde_ok_def list_all_iff)
  note done_ = cli_flush_all_done [OF f [unfolded res] l c(1) contents ok]
  have "cli_holds serde disk' (acked @ map (\<lambda>c. (tenant, c)) (chunks n rs)) (hm_get (cf_entries cinder'))"
    unfolding disk' using done_ by (intro holds_closed) auto
  with done_ n c(2) chunks_concat [OF n, of rs] show ?thesis
    by simp
qed

text \<open>What a read prints of a directory.\<close>

definition read_answer :: "(tenant_id \<times> log_record list) list \<Rightarrow> tenant_id \<Rightarrow> time_range \<Rightarrow> log_record list" where
  "read_answer acked tenant rng =
     filter (\<lambda>r. range_contains rng (observed_time_unix_nano r)) (sort_key observed_time_unix_nano (records_of tenant acked))"

definition ndjson :: "cli_serde \<Rightarrow> log_record list \<Rightarrow> string" where
  "ndjson serde rs = concat (map (\<lambda>r. line_of (cs_record_to_string serde) r @ [newline]) rs)"

text \<open>The records can be serialised, and the output takes them all.\<close>

definition prints :: "cli_serde \<Rightarrow> cli_env \<Rightarrow> log_record list \<Rightarrow> bool" where
  "prints serde env rs \<longleftrightarrow> list_all (\<lambda>r. \<not> isl (cs_record_to_string serde r)) rs \<and>
     length (ndjson serde rs) \<le> ce_out_room env \<and> ce_out_flush env = None"

lemma cli_write_records_fits:
  assumes "list_all (\<lambda>r. \<not> isl (cs_record_to_string serde r)) rs" and "length (ndjson serde rs) \<le> room"
  shows "cli_write_records serde env rs (room, taken) = (Inr (), (room - length (ndjson serde rs), taken @ ndjson serde rs))"
  using assms
proof (induction rs arbitrary: room taken)
  case Nil
  then show ?case
    by (simp add: ndjson_def)
next
  case (Cons r rs)
  then obtain line where line: "cs_record_to_string serde r = Inr line"
    by (cases "cs_record_to_string serde r") auto
  with Cons.prems have "Suc (length line) + length (ndjson serde rs) \<le> room"
    by (simp add: ndjson_def line_of_def)
  with Cons line show ?case
    by (auto simp: cli_write_def ndjson_def line_of_def)
qed

lemma cli_read_holds:
  assumes "cli_holds serde disk acked entries" and "cli_open_otlp env otlp = Inr ()" and "prints serde env (read_answer acked tenant rng)"
  shows "fst (cli_read serde env tenant otlp rng disk) = (CliDone (length (read_answer acked tenant rng)), ndjson serde (read_answer acked tenant rng)) \<and>
    cli_holds serde (snd (cli_read serde env tenant otlp rng disk)) acked entries"
proof -
  obtain lumen cinder where o: "cli_open_lumen serde disk = Inr lumen" "cli_open_cinder serde disk = Inr cinder"
    and l: "lumen_durable (cs_lumen_to_string serde) (cs_lumen_from_str serde) (cs_lumen_from_reader serde) lumen" "lumen_ordered lumen"
    and contents: "\<And>t. hm_get_or [] (lf_per_tenant lumen) t = sort_key observed_time_unix_nano (records_of t acked)"
    and c: "cinder_durable (cs_cinder_to_string serde) (cs_cinder_from_str serde) (cs_cinder_from_reader serde) cinder"
    "hm_get (cf_entries cinder) = entries"
    using assms(1) by (auto simp: cli_holds_def)
  obtain lumen' where q: "lumen_query tenant rng lumen = (Inr (read_answer acked tenant rng), lumen')"
    "hm_get_or [] (lf_per_tenant lumen') = hm_get_or [] (lf_per_tenant lumen)"
    using lumen_file.query_result [of tenant rng lumen] contents by (auto simp: read_answer_def)
  have l': "lumen_durable (cs_lumen_to_string serde) (cs_lumen_from_str serde) (cs_lumen_from_reader serde) lumen'"
    using lumen_durable_query(1) [OF l(1), of tenant rng] q(1) by simp
  have out: "fst (cli_read serde env tenant otlp rng disk) = (CliDone (length (read_answer acked tenant rng)), ndjson serde (read_answer acked tenant rng))"
    "snd (cli_read serde env tenant otlp rng disk) = close_lumen env lumen' disk"
    using assms(2,3) o(1) q(1) cli_write_records_fits [of serde "read_answer acked tenant rng" "ce_out_room env" env "[]"]
    by (simp_all add: cli_read_def prints_def cli_finish_def cli_then_def cli_flush_def)
  obtain lumen'' where "cli_open_lumen serde (close_lumen env lumen' disk) = Inr lumen''"
    "lumen_durable (cs_lumen_to_string serde) (cs_lumen_from_str serde) (cs_lumen_from_reader serde) lumen''" "lumen_ordered lumen''"
    "hm_get_or [] (lf_per_tenant lumen'') = hm_get_or [] (lf_per_tenant lumen')"
    using reopen_lumen [OF l'] by blast
  then have "cli_holds serde (close_lumen env lumen' disk) acked entries"
    unfolding cli_holds_def using o(2) c q(2) contents by (intro exI [of _ lumen''] exI [of _ cinder]) simp
  with out show ?thesis
    by simp
qed

section \<open>Properties\<close>



lemma cli_parse_lines_bad:
  assumes "list_all (\<lambda>l. rust_trim l = [] \<or> \<not> isl (from_str l)) good" and "rust_trim bad \<noteq> []" and "from_str bad = Inl e"
  shows "cli_parse_lines from_str idx (map Inr good @ Inr bad # tail) = Inl (CliParseRecord (idx + length good + 1) e)"
  using assms
proof (induction good arbitrary: idx)
  case (Cons l good)
  then show ?case
    by (cases "from_str l") auto
qed simp

text \<open>
  C9. An input with a line that is not a record changes nothing: \<open>ingest\<close> fails with the number of the first such
  line, blank lines counted, however many records precede it, and the directory holds what it held.
\<close>

theorem cli_ingest_all_or_nothing:
  assumes "cli_holds serde disk acked entries" and "ce_mkdir env = None" and "cli_open_otlp env otlp = Inr ()"
    and "list_all (\<lambda>l. rust_trim l = [] \<or> \<not> isl (cs_record_from_str serde l)) good"
    and "rust_trim bad \<noteq> []" and "cs_record_from_str serde bad = Inl e"
    and "cli_ingest serde env tenant n (map Inr good @ Inr bad # tail) otlp disk = (res, disk')"
  shows "res = CliFailed (CliParseRecord (length good + 1) e) \<and> cli_holds serde disk' acked entries"
proof -
  obtain lumen cinder where o: "cli_open_lumen serde disk = Inr lumen" "cli_open_cinder serde disk = Inr cinder"
    and l: "lumen_durable (cs_lumen_to_string serde) (cs_lumen_from_str serde) (cs_lumen_from_reader serde) lumen"
    and contents: "\<And>t. hm_get_or [] (lf_per_tenant lumen) t = sort_key observed_time_unix_nano (records_of t acked)"
    and c: "cinder_durable (cs_cinder_to_string serde) (cs_cinder_from_str serde) (cs_cinder_from_reader serde) cinder"
    "hm_get (cf_entries cinder) = entries"
    using assms(1) by (auto simp: cli_holds_def)
  have "res = CliFailed (CliParseRecord (length good + 1) e)" "disk' = close_cinder env cinder (close_lumen env lumen disk)"
    using assms(2,3,7) o cli_parse_lines_bad [OF assms(4-6), of 0 tail] by (simp_all add: cli_ingest_def)
  then show ?thesis
    using holds_closed [OF l c(1) contents] c(2) by simp
qed

text \<open>
  The tier entries of separate ingests collide: the batches of every run are numbered from zero, so after two
  runs for a tenant there are as many entries as the longer of the two placed and not as both report
  together, and every batch of the second run has taken over the entry of the batch of the first with
  its number, which is hot again whatever tier it had reached.
\<close>

theorem cli_batches_collide:
  assumes "cli_holds serde disk acked entries" and "\<forall>item. entries (tenant, item) = None"
    and "cli_ingest serde env1 tenant n lines1 otlp1 disk = (CliDone st1, disk1)"
    and "cli_parse_lines (cs_record_from_str serde) 0 lines1 = Inr rs1" and "ingest_serde_ok serde env1 tenant (chunks n rs1)"
    and "cli_ingest serde env2 tenant n lines2 otlp2 disk1 = (CliDone st2, disk2)"
    and "cli_parse_lines (cs_record_from_str serde) 0 lines2 = Inr rs2" and "ingest_serde_ok serde env2 tenant (chunks n rs2)"
  shows "\<exists>acked2 entries2. cli_holds serde disk2 acked2 entries2 \<and>
    card {item. entries2 (tenant, item) \<noteq> None} = max (tier_items_placed st1) (tier_items_placed st2) \<and>
    (\<forall>k. k < tier_items_placed st2 \<longrightarrow>
       entries2 (tenant, batch_item tenant k) = Some \<lparr>te_tier = Hot, placed_at = ce_now env2 k, migrated_at = ce_now env2 k\<rparr>)"
proof -
  define entries1 where "entries1 = placed_batches tenant (ce_now env1) 0 (length (chunks n rs1)) entries"
  define entries2 where "entries2 = placed_batches tenant (ce_now env2) 0 (length (chunks n rs2)) entries1"
  define acked1 where "acked1 = acked @ map (\<lambda>c. (tenant, c)) (chunks n rs1)"
  note d1 = cli_ingest_done [OF assms(1,3,4,5), folded entries1_def acked1_def]
  note d2 = cli_ingest_done [OF conjunct2 [OF conjunct2 [OF d1]] assms(6,7,8), folded entries2_def]
  have item: "entries2 (tenant, item) \<noteq> None \<longleftrightarrow> (\<exists>k < max (length (chunks n rs1)) (length (chunks n rs2)). item = batch_item tenant k)" for item
  proof (cases "\<exists>k. item = batch_item tenant k")
    case True
    then show ?thesis
      unfolding entries2_def entries1_def using assms(2) by (auto simp: placed_batches_at(1) less_max_iff_disj split: if_splits)
  next
    case False
    then have "entries2 (tenant, item) = None"
      unfolding entries2_def entries1_def using assms(2) by (simp add: placed_batches_at(2))
    with False show ?thesis
      by blast
  qed
  have "{item. entries2 (tenant, item) \<noteq> None} = batch_item tenant ` {..< max (length (chunks n rs1)) (length (chunks n rs2))}"
    unfolding item by blast
  then have "card {item. entries2 (tenant, item) \<noteq> None} = max (length (chunks n rs1)) (length (chunks n rs2))"
    by (simp add: card_image inj_on_def)
  moreover have "entries2 (tenant, batch_item tenant k) = Some \<lparr>te_tier = Hot, placed_at = ce_now env2 k, migrated_at = ce_now env2 k\<rparr>"
    if "k < length (chunks n rs2)" for k
    using that by (simp add: entries2_def placed_batches_at(1))
  ultimately show ?thesis
    using d1 d2 by auto
qed

lemma iso_texts_are_not_flags:
  assumes "iso_denotes s n"
  shows "s \<noteq> ''--observe-otlp''" "s \<noteq> ''--since''" "s \<noteq> ''--until''"
  using cli_parses [OF assms] by (auto simp: parse_iso8601_utc_nanos_def)

text \<open>
  C10. The window of a read on the command line: \<open>read <tenant> <dir> --since a --until b\<close> prints exactly the
  acknowledged records whose time is at or after the instant of \<open>a\<close> and before that of \<open>b\<close>, where both
  instants are reduced to 64 bits: so the window is the one asked for up to the year 2554, and from 2555 on
  an end that wraps hides records inside the window asked for.
\<close>

theorem cli_read_window:
  assumes "cli_holds serde (fs dir) acked entries" and "\<not> prefix ''-'' tenant" and "\<not> prefix ''-'' dir"
    and "iso_denotes a since" and "iso_denotes b until"
    and "A = filter (\<lambda>r. since mod 2 ^ 64 \<le> uint (observed_time_unix_nano r) \<and> uint (observed_time_unix_nano r) < until mod 2 ^ 64)
      (sort_key observed_time_unix_nano (records_of tenant acked))"
    and "prints serde env A"
    and "run_read lib serde env [bin, ''read'', tenant, dir, ''--since'', a, ''--until'', b] fs = (out, fs')"
  shows "ro_result out = Inr () \<and> ro_stdout out = ndjson serde A \<and> ro_stderr out = ''read ok: records='' @ nat_str (length A) @ [newline] \<and>
    (\<forall>d. d \<noteq> dir \<longrightarrow> fs' d = fs d) \<and> cli_holds serde (fs' dir) acked entries"
proof -
  let ?args = "[bin, ''read'', tenant, dir, ''--since'', a, ''--until'', b]"
  let ?rng = "\<lparr>start_unix_nano = word_of_int since, end_unix_nano = word_of_int until\<rparr>"
  have names: "tenant \<notin> {''--observe-otlp'', ''--since'', ''--until''}" "dir \<notin> {''--observe-otlp'', ''--since'', ''--until''}"
    using assms(2,3) by auto
  note texts = iso_texts_are_not_flags [OF assms(4)] iso_texts_are_not_flags [OF assms(5)]
  have args: "reject_unknown_flags ?args [''--observe-otlp'', ''--since'', ''--until''] = Inr ()"
    "parse_positional ?args = Inr (tenant, dir)" "parse_observe_otlp ?args = Inr None"
    using assms(2,3) names texts
    by (auto simp: reject_unknown_flags_def VALUE_TAKING_FLAGS_def parse_positional_def args_get_def parse_observe_otlp_def)
  have range: "cli_time_range lib ?args = Inr ?rng"
    using names texts cli_parses [OF assms(4)] cli_parses [OF assms(5)] by (simp add: cli_time_range_def parse_flag_iso_def)
  have A: "read_answer acked tenant ?rng = A"
    unfolding assms(6) read_answer_def by (simp add: range_contains_def word_le_def word_less_def uint_word_of_int)
  have otlp: "cli_open_otlp env None = Inr ()"
    by (simp add: cli_open_otlp_def)
  note r = cli_read_holds [OF assms(1) otlp, of tenant ?rng, unfolded A, OF assms(7)]
  obtain disk' where disk': "cli_read serde env tenant None ?rng (fs dir) = ((CliDone (length A), ndjson serde A), disk')"
    "cli_holds serde disk' acked entries"
    using r by (metis prod.collapse)
  from assms(8) disk' show ?thesis
    unfolding run_read_def args range sum.case prod.case run_library_def by auto
qed

section \<open>A concrete directory\<close>

definition wx_place :: cinder_wal_record where "wx_place = CinderWalPlace ''t'' ''t/batch-00000'' Hot 0"

definition wx_serde :: cli_serde where
  "wx_serde = \<lparr>cs_lumen_to_string = ex_to_string, cs_lumen_from_str = ex_from_str, cs_lumen_from_reader = ex_from_reader,
     cs_cinder_to_string = (\<lambda>r. if r = wx_place then Inr ''pl'' else Inl ''unsupported''),
     cs_cinder_from_str = (\<lambda>l. if l = ''pl'' then Inr wx_place else Inl ''expected value''),
     cs_cinder_from_reader = (\<lambda>_. Inl ''expected value''),
     cs_record_to_string = (\<lambda>r. if r = ex_rec then Inr ''r'' else Inl ''unsupported''),
     cs_record_from_str = (\<lambda>l. if l = ''r'' then Inr ex_rec else Inl ''expected value'')\<rparr>"

definition wx_cli_env :: cli_env where
  "wx_cli_env = \<lparr>ce_mkdir = None, ce_otlp_open = None, ce_lumen_io = (\<lambda>_. ex_io), ce_cinder_io = (\<lambda>_. ex_io), ce_now = (\<lambda>_. 0),
     ce_drop_room = 0, ce_out_room = 100, ce_out_error = [], ce_out_flush = None\<rparr>"

definition wx_new :: cli_disk where
  "wx_new = \<lparr>cd_lumen = \<lparr>sd_snapshot = Absent, sd_wal = Absent, sd_append_error = None\<rparr>,
     cd_cinder = \<lparr>sd_snapshot = Absent, sd_wal = Absent, sd_append_error = None\<rparr>\<rparr>"

definition wx_left :: "string \<Rightarrow> string \<Rightarrow> cli_disk" where
  "wx_left l c = \<lparr>cd_lumen = \<lparr>sd_snapshot = Absent, sd_wal = Present \<lparr>df_bytes = l, df_synced = length l\<rparr>, sd_append_error = None\<rparr>,
     cd_cinder = \<lparr>sd_snapshot = Absent, sd_wal = Present \<lparr>df_bytes = c, df_synced = length c\<rparr>, sd_append_error = None\<rparr>\<rparr>"

lemma wx_holds: "cli_holds wx_serde wx_new [] (\<lambda>_. None)"
proof -
  have w: "open_writer [] 0 = \<lparr>wr_file = [], wr_buf = [], wr_synced = 0\<rparr>"
    by (simp add: open_writer_def)
  show ?thesis
    unfolding cli_holds_def
    by (rule exI [of _ "ex_store [] [] []"], rule exI [of _ cx_empty])
      (auto simp: cli_open_lumen_def cli_open_cinder_def lumen_open_with_fsync_backend_def cinder_open_with_fsync_backend_def
        pillar_open_def wx_new_def w snap_fs_of_def lumen_resort_def ex_store_def cx_empty_def lumen_durable_def cinder_durable_def
        durable_as_def snapshot_base_def lumen_ordered_def buckets_sorted_def hm_get_or_def intro!: exI [of _ "[]"])
qed

lemma wx_trim: "rust_trim ''r'' \<noteq> []" "rust_trim ''x'' \<noteq> []" "rust_trim [] = []"
  by (simp_all add: rust_trim_visible byte_in_def)

lemma wx_parse: "cli_parse_lines (cs_record_from_str wx_serde) 0 [Inr ''r''] = Inr [ex_rec]"
  by (simp add: wx_trim wx_serde_def)

lemma wx_item: "batch_item ''t'' 0 = ''t/batch-00000''"
  by (simp add: batch_item_def zero_padded_def nat_str.simps, code_simp)

lemma wx_chunks: "chunks 1 [ex_rec] = [[ex_rec]]"
  by (simp add: chunks.simps)

definition wx_cinder :: "string \<Rightarrow> cinder_entries \<Rightarrow> cinder_event list \<Rightarrow> cinder_file" where
  "wx_cinder f m ev = \<lparr>cf_entries = m, cf_wal = \<lparr>wr_file = f, wr_buf = [], wr_synced = length f\<rparr>,
     cf_dir = \<lparr>sf_canonical = None, sf_tmp = None, sf_undo = None\<rparr>, cf_events = ev\<rparr>"

abbreviation wx_entries :: cinder_entries where
  "wx_entries \<equiv> [((''t'', ''t/batch-00000''), \<lparr>te_tier = Hot, placed_at = 0, migrated_at = 0\<rparr>)]"

lemma wx_open:
  "cli_open_lumen wx_serde wx_new = Inr (ex_store [] [] [])"
  "cli_open_cinder wx_serde wx_new = Inr (wx_cinder [] [] [])"
  "cli_open_lumen wx_serde (wx_left (ex_line @ [newline]) (''pl'' @ [newline])) = Inr (ex_store (ex_line @ [newline]) [(''t'', [ex_rec])] [])"
  "cli_open_cinder wx_serde (wx_left (ex_line @ [newline]) (''pl'' @ [newline])) = Inr (wx_cinder (''pl'' @ [newline]) wx_entries [])"
  by code_simp+

lemma wx_lumen_ingest:
  "lumen_ingest (cs_lumen_to_string wx_serde) (ce_lumen_io wx_cli_env 0) ''t'' \<lparr>records = [ex_rec]\<rparr> (ex_store f m []) =
     (Inr \<lparr>count = 1\<rparr>, ex_store (f @ ex_line @ [newline]) (lumen_extend_sorted ''t'' [ex_rec] m) [LumenIngest ''t'' 1])"
  by (simp add: lumen_ingest_def lumen_append_wal_def append_wal_succeeds [of _ _ ex_line] ex_defs wx_serde_def wx_cli_env_def Let_def)

lemma wx_cinder_place:
  "cinder_place (cs_cinder_to_string wx_serde) (ce_cinder_io wx_cli_env 0) (''t'', ''t/batch-00000'') Hot (ce_now wx_cli_env 0) (wx_cinder f m []) =
     (Inr (), wx_cinder (f @ ''pl'' @ [newline]) (hm_insert (''t'', ''t/batch-00000'') \<lparr>te_tier = Hot, placed_at = 0, migrated_at = 0\<rparr> m)
       [CinderPlace ''t'' Hot])"
  by (simp add: cinder_place_def cinder_append_wal_def append_wal_succeeds [of _ _ "''pl''"] ex_io_def wx_serde_def wx_cli_env_def wx_place_def
      wx_cinder_def Let_def)

lemma wx_ok: "ingest_serde_ok wx_serde wx_cli_env ''t'' (chunks 1 [ex_rec])"
proof -
  have "serde_ok (cs_cinder_to_string wx_serde) (cs_cinder_from_str wx_serde) wx_place"
    by code_simp
  then show ?thesis
    using ex_serde(1) unfolding ingest_serde_ok_def wx_chunks by (simp add: wx_item wx_place_def) (simp add: wx_serde_def wx_cli_env_def)
qed

lemma wx_flushed:
  "cli_flush_all wx_serde wx_cli_env ''t'' (chunks 1 [ex_rec]) \<lparr>records_ingested = 0, batches_flushed = 0, tier_items_placed = 0\<rparr>
     (ex_store f m []) (wx_cinder g m' []) =
   (Inr \<lparr>records_ingested = 1, batches_flushed = 1, tier_items_placed = 1\<rparr>,
    ex_store (f @ ex_line @ [newline]) (lumen_extend_sorted ''t'' [ex_rec] m) [LumenIngest ''t'' 1],
    wx_cinder (g @ ''pl'' @ [newline]) (hm_insert (''t'', ''t/batch-00000'') \<lparr>te_tier = Hot, placed_at = 0, migrated_at = 0\<rparr> m')
       [CinderPlace ''t'' Hot])"
  unfolding wx_chunks cli_flush_all.simps Let_def ingest_stats.simps wx_item wx_lumen_ingest prod.case sum.case wx_cinder_place
  by simp

lemma wx_closed:
  "close_cinder wx_cli_env (wx_cinder g m' ev') (close_lumen wx_cli_env (ex_store f m ev) disk) = wx_left f g"
  by (cases disk) (simp add: close_cinder_def close_lumen_def ex_store_def wx_cinder_def dropped_clean disk_of_def wx_left_def)

lemma wx_calls: "ce_mkdir wx_cli_env = None" "cli_open_otlp wx_cli_env None = Inr ()"
  by (simp_all add: wx_cli_env_def cli_open_otlp_def)

lemma wx_ingest:
  "cli_ingest wx_serde wx_cli_env ''t'' 1 [Inr ''r''] None wx_new =
    (CliDone \<lparr>records_ingested = 1, batches_flushed = 1, tier_items_placed = 1\<rparr>, wx_left (ex_line @ [newline]) (''pl'' @ [newline]))"
  unfolding cli_ingest_def wx_calls wx_open wx_parse option.case sum.case wx_flushed prod.case wx_closed by simp

lemma wx_ingest_again:
  "cli_ingest wx_serde wx_cli_env ''t'' 1 [Inr ''r''] None (wx_left (ex_line @ [newline]) (''pl'' @ [newline])) =
    (CliDone \<lparr>records_ingested = 1, batches_flushed = 1, tier_items_placed = 1\<rparr>,
     wx_left (ex_line @ [newline] @ ex_line @ [newline]) (''pl'' @ [newline] @ ''pl'' @ [newline]))"
  unfolding cli_ingest_def wx_calls wx_open wx_parse option.case sum.case wx_flushed prod.case wx_closed by simp

lemma wx_answer:
  "read_answer [(''t'', [ex_rec])] ''t'' time_range_all = [ex_rec]" "prints wx_serde wx_cli_env [ex_rec]" "ndjson wx_serde [ex_rec] = ''r'' @ [newline]"
  by code_simp+


theorem cli_ingest_all_or_nothing_witness:
  "fst (cli_ingest wx_serde wx_cli_env ''t'' 100 [Inr ''r'', Inr [], Inr ''x'', Inr ''r''] None wx_new) =
    CliFailed (CliParseRecord 3 ''expected value'')"
proof -
  have good: "list_all (\<lambda>l. rust_trim l = [] \<or> \<not> isl (cs_record_from_str wx_serde l)) [''r'', []]" "rust_trim ''x'' \<noteq> []"
    "cs_record_from_str wx_serde ''x'' = Inl ''expected value''"
    by (simp_all add: wx_trim) (simp_all add: wx_serde_def)
  show ?thesis
    using cli_ingest_all_or_nothing [OF wx_holds wx_calls good, of "''t''" 100 "[Inr ''r'']" "fst _" "snd _", OF surjective_pairing]
    by (simp add: numeral_3_eq_3)
qed

theorem cli_batches_collide_witness:
  "\<exists>acked entries. cli_holds wx_serde (wx_left (ex_line @ [newline] @ ex_line @ [newline]) (''pl'' @ [newline] @ ''pl'' @ [newline])) acked entries \<and>
    card {item. entries (''t'', item) \<noteq> None} = 1"
  using cli_batches_collide [OF wx_holds _ wx_ingest wx_parse wx_ok wx_ingest_again wx_parse wx_ok] by fastforce

lemma wx_denotes:
  "iso_denotes ''1970-01-01T00:00:00Z'' 0" "iso_denotes ''2026-01-01T00:00:00Z'' 1767225600000000000"
proof -
  have "zero_padded 4 (nat 1970) = ''1970''" "zero_padded 4 (nat 2026) = ''2026''" "zero_padded 2 (nat 1) = ''01''" "zero_padded 2 (nat 0) = ''00''"
    by (simp add: zero_padded_def nat_str.simps, code_simp)+
  then have "iso_text (1970, 1, 1) (0, 0, 0) [] = ''1970-01-01T00:00:00Z''" "iso_text (2026, 1, 1) (0, 0, 0) [] = ''2026-01-01T00:00:00Z''"
    "instant_of (1970, 1, 1) (0, 0, 0) [] = 0" "instant_of (2026, 1, 1) (0, 0, 0) [] = 1767225600000000000"
    by (simp_all add: iso_text_def instant_of_def day_of_civil_start year_start_def digits_value_def)
  moreover have "iso_admitted (1970, 1, 1) (0, 0, 0) []" "iso_admitted (2026, 1, 1) (0, 0, 0) []"
    by (simp_all add: days_in_month_def)
  ultimately show "iso_denotes ''1970-01-01T00:00:00Z'' 0" "iso_denotes ''2026-01-01T00:00:00Z'' 1767225600000000000"
    unfolding iso_denotes_def by metis+
qed

theorem cli_read_window_witness:
  "ro_stdout (fst (run_read \<lparr>cl_str_debug = id, cl_char_debug = (\<lambda>c. [c]), cl_usage = []\<rparr> wx_serde wx_cli_env
     [''kaleidoscope-cli'', ''read'', ''t'', ''d'', ''--since'', ''1970-01-01T00:00:00Z'', ''--until'', ''2026-01-01T00:00:00Z'']
     (\<lambda>_. wx_left (ex_line @ [newline]) (''pl'' @ [newline])))) = ''r'' @ [newline]"
proof -
  have h: "cli_holds wx_serde (wx_left (ex_line @ [newline]) (''pl'' @ [newline])) [(''t'', [ex_rec])]
      (placed_batches ''t'' (ce_now wx_cli_env) 0 (length (chunks 1 [ex_rec])) (\<lambda>_. None))"
    using cli_ingest_done [OF wx_holds wx_ingest wx_parse wx_ok] by (simp add: chunks.simps)
  have A: "[ex_rec] = filter (\<lambda>r. 0 mod 2 ^ 64 \<le> uint (observed_time_unix_nano r) \<and>
      uint (observed_time_unix_nano r) < 1767225600000000000 mod 2 ^ 64) (sort_key observed_time_unix_nano (records_of ''t'' [(''t'', [ex_rec])]))"
    by (simp add: ex_rec_def)
  show ?thesis
    using cli_read_window [where fs = "\<lambda>_. wx_left (ex_line @ [newline]) (''pl'' @ [newline])" and dir = "''d''",
        OF h _ _ wx_denotes A wx_answer(2) surjective_pairing] by (simp add: wx_answer(3))
qed

end
