(* ===== verification/Strata_Store.thy ===== *)
theory Strata_Store
  imports Wal_Pillar
begin

text \<open>
  Strata, the profile store (\<open>crates/strata/src\<close>): pprof-shaped profiles, the query predicate, the
  \<open>ProfileStore\<close> port with its in-memory adapter, and the file-backed adapter, which reads its log
  strictly. Serialised records and snapshots go through \<open>serde_json\<close>, whose functions are arguments.
\<close>

section \<open>Profiles (\<open>profile.rs\<close>)\<close>

type_synonym u32_index = "32 word"
type_synonym profile_service = string

record profile_range =
  pr_start_unix_nano :: u64
  pr_end_unix_nano :: u64

definition profile_range_all :: profile_range where
  "profile_range_all = \<lparr>pr_start_unix_nano = 0, pr_end_unix_nano = - 1\<rparr>"

definition profile_range_contains :: "profile_range \<Rightarrow> u64 \<Rightarrow> bool" where
  "profile_range_contains rng t = (t \<ge> pr_start_unix_nano rng \<and> t < pr_end_unix_nano rng)"

record pprof_value_type =
  vt_type_index :: u32_index
  vt_unit_index :: u32_index

record pprof_sample_type =
  st_value_type :: pprof_value_type
  st_aggregation_temporality :: u32_index

record pprof_function =
  fn_id :: u64
  fn_name_index :: u32_index
  fn_system_name_index :: u32_index
  fn_filename_index :: u32_index
  fn_start_line :: "64 word"

record pprof_mapping =
  mg_id :: u64
  mg_memory_start :: u64
  mg_memory_limit :: u64
  mg_file_offset :: u64
  mg_filename_index :: u32_index
  mg_build_id_index :: u32_index

record pprof_location =
  lc_id :: u64
  lc_mapping_id :: u64
  lc_address :: u64
  lc_function_ids :: "u64 list"

record pprof_sample =
  sm_location_ids :: "u64 list"
  sm_values :: "64 word list"
  sm_attributes :: "(string, string) btree_map"

record profile =
  pf_time_unix_nano :: u64
  pf_duration_nanos :: u64
  pf_profile_type :: string
  pf_sample_type :: "pprof_sample_type list"
  pf_samples :: "pprof_sample list"
  pf_locations :: "pprof_location list"
  pf_functions :: "pprof_function list"
  pf_mappings :: "pprof_mapping list"
  pf_string_table :: "string list"
  pf_resource_attributes :: "(string, string) btree_map"
  pf_attributes :: "(string, string) btree_map"

definition profile_service_name :: "profile \<Rightarrow> profile_service" where
  "profile_service_name p = (case map_of (pf_resource_attributes p) ''service.name'' of Some n \<Rightarrow> n | None \<Rightarrow> [])"

record profile_batch =
  pb_profiles :: "profile list"

section \<open>Predicates (\<open>predicate.rs\<close>)\<close>

record strata_predicate =
  sy_profile_type :: "string option"

definition strata_predicate_new :: strata_predicate where
  "strata_predicate_new = \<lparr>sy_profile_type = None\<rparr>"

definition strata_predicate_profile_type :: "string \<Rightarrow> strata_predicate \<Rightarrow> strata_predicate" where
  "strata_predicate_profile_type name p = p\<lparr>sy_profile_type := Some name\<rparr>"

definition strata_matches :: "strata_predicate \<Rightarrow> profile \<Rightarrow> bool" where
  "strata_matches p prof = (case sy_profile_type p of None \<Rightarrow> True | Some target \<Rightarrow> pf_profile_type prof = target)"

definition strata_predicate_is_empty :: "strata_predicate \<Rightarrow> bool" where
  "strata_predicate_is_empty p = (sy_profile_type p = None)"

section \<open>The index (\<open>store.rs\<close>, \<open>file_backed.rs\<close>)\<close>

type_synonym strata_index = "(tenant_id \<times> profile_service, profile list) hash_map"

datatype profile_store_error = StrataPersistenceFailed string

record strata_receipt =
  sr_count :: nat

datatype strata_event = StrataIngest tenant_id nat | StrataQuery tenant_id nat

definition by_time :: "profile list \<Rightarrow> profile list" where
  "by_time = sort_key pf_time_unix_nano"

text \<open>\<open>get_mut(key)\<close> followed by \<open>sort_by_key\<close>.\<close>

definition strata_sort_bucket :: "tenant_id \<times> profile_service \<Rightarrow> strata_index \<Rightarrow> strata_index" where
  "strata_sort_bucket k m = (case hm_get m k of None \<Rightarrow> m | Some b \<Rightarrow> hm_insert k (by_time b) m)"

section \<open>The in-memory adapter (\<open>store.rs\<close>)\<close>

record strata_mem =
  sm_per_service :: strata_index
  sm_events :: "strata_event list"

definition strata_mem_new :: strata_mem where
  "strata_mem_new = \<lparr>sm_per_service = [], sm_events = []\<rparr>"

text \<open>The loop over the batch, with the services it touched; a set is a list without repetition.\<close>

fun strata_mem_push :: "tenant_id \<Rightarrow> profile list \<Rightarrow> strata_index \<times> profile_service list \<Rightarrow> strata_index \<times> profile_service list" where
  "strata_mem_push tenant [] (m, touched) = (m, touched)"
| "strata_mem_push tenant (p # ps) (m, touched) =
     (if profile_service_name p = [] then strata_mem_push tenant ps (m, touched)
      else
        let service = profile_service_name p; key = (tenant, service) in
        strata_mem_push tenant ps (hm_insert key (hm_get_or [] m key @ [p]) m, List.insert service touched))"

definition strata_mem_ingest :: "tenant_id \<Rightarrow> profile_batch \<Rightarrow> strata_mem \<Rightarrow> (profile_store_error + strata_receipt) \<times> strata_mem" where
  "strata_mem_ingest tenant batch s =
     (let n = length (pb_profiles batch) in
      case strata_mem_push tenant (pb_profiles batch) (sm_per_service s, []) of
        (m, touched) \<Rightarrow>
          (Inr \<lparr>sr_count = n\<rparr>,
           s\<lparr>sm_per_service := fold (\<lambda>service. strata_sort_bucket (tenant, service)) touched m,
             sm_events := sm_events s @ [StrataIngest tenant n]\<rparr>))"

definition strata_mem_query ::
  "tenant_id \<Rightarrow> profile_service \<Rightarrow> profile_range \<Rightarrow> strata_mem \<Rightarrow> (profile_store_error + profile list) \<times> strata_mem" where
  "strata_mem_query tenant service rng s =
     (case hm_get (sm_per_service s) (tenant, service) of
        None \<Rightarrow> (Inr [], s\<lparr>sm_events := sm_events s @ [StrataQuery tenant 0]\<rparr>)
      | Some bucket \<Rightarrow>
          let matches = filter (\<lambda>p. profile_range_contains rng (pf_time_unix_nano p)) bucket in
          (Inr matches, s\<lparr>sm_events := sm_events s @ [StrataQuery tenant (length matches)]\<rparr>))"

definition strata_mem_query_with ::
  "tenant_id \<Rightarrow> profile_service \<Rightarrow> profile_range \<Rightarrow> strata_predicate \<Rightarrow> strata_mem \<Rightarrow>
   (profile_store_error + profile list) \<times> strata_mem" where
  "strata_mem_query_with tenant service rng pred s =
     (case hm_get (sm_per_service s) (tenant, service) of
        None \<Rightarrow> (Inr [], s\<lparr>sm_events := sm_events s @ [StrataQuery tenant 0]\<rparr>)
      | Some bucket \<Rightarrow>
          let matches = filter (\<lambda>p. profile_range_contains rng (pf_time_unix_nano p) \<and> strata_matches pred p) bucket in
          (Inr matches, s\<lparr>sm_events := sm_events s @ [StrataQuery tenant (length matches)]\<rparr>))"

section \<open>The file-backed adapter (\<open>file_backed.rs\<close>)\<close>

datatype strata_wal_record = StrataWalIngest tenant_id "profile list"

record service_bucket =
  vb_tenant :: tenant_id
  vb_service :: profile_service
  vb_profiles :: "profile list"

type_synonym strata_snapshot_doc = "service_bucket list"

record strata_file =
  sf_per_service :: strata_index
  sf_wal :: wal_writer
  sf_dir :: snap_fs
  sf_events :: "strata_event list"

definition strata_io :: "string \<Rightarrow> profile_store_error" where
  "strata_io e = StrataPersistenceFailed (''io: '' @ e)"

definition strata_parse :: "string \<Rightarrow> profile_store_error" where
  "strata_parse e = StrataPersistenceFailed (''parse: '' @ e)"

definition strata_append_wal ::
  "(strata_wal_record \<Rightarrow> string + string) \<Rightarrow> append_io \<Rightarrow> strata_wal_record \<Rightarrow> wal_writer \<Rightarrow>
   (profile_store_error + unit) \<times> wal_writer" where
  "strata_append_wal to_string = append_wal to_string strata_parse strata_io"

fun strata_apply_ingest ::
  "tenant_id \<Rightarrow> profile list \<Rightarrow> strata_index \<Rightarrow> (tenant_id \<times> profile_service) list \<Rightarrow>
   strata_index \<times> (tenant_id \<times> profile_service) list" where
  "strata_apply_ingest tenant [] m touched = (m, touched)"
| "strata_apply_ingest tenant (p # ps) m touched =
     (if profile_service_name p = [] then strata_apply_ingest tenant ps m touched
      else
        let key = (tenant, profile_service_name p) in
        strata_apply_ingest tenant ps (hm_insert key (hm_get_or [] m key @ [p]) m) (List.insert key touched))"

fun strata_replay_record :: "strata_wal_record \<Rightarrow> strata_index \<Rightarrow> strata_index" where
  "strata_replay_record (StrataWalIngest tenant ps) m = fst (strata_apply_ingest tenant ps m [])"

definition strata_load_snapshot :: "strata_snapshot_doc \<Rightarrow> strata_index" where
  "strata_load_snapshot snap = fold (\<lambda>b. hm_insert (vb_tenant b, vb_service b) (vb_profiles b)) snap []"

definition strata_dump :: "strata_index \<Rightarrow> strata_snapshot_doc" where
  "strata_dump m = map (\<lambda>((tenant, service), ps). \<lparr>vb_tenant = tenant, vb_service = service, vb_profiles = ps\<rparr>) m"

definition strata_resort :: "strata_index \<Rightarrow> strata_index" where
  "strata_resort m = map (\<lambda>(k, b). (k, by_time b)) m"

definition strata_replay ::
  "(string \<Rightarrow> string + strata_wal_record) \<Rightarrow> string \<Rightarrow> strata_index \<Rightarrow>
   (profile_store_error + unit) \<times> strata_index \<times> wal_warning list" where
  "strata_replay from_str bytes m =
     (case replay_buf_lines from_str (total_apply strata_replay_record)
             (\<lambda>line e raw. StrataPersistenceFailed (wal_parse_reason line e)) strata_io 0 (buf_read_lines bytes) m of
        (res, m') \<Rightarrow> (res, m', []))"

definition strata_open_with_fsync_backend ::
  "(string \<Rightarrow> string + strata_wal_record) \<Rightarrow> (string \<Rightarrow> string + strata_snapshot_doc) \<Rightarrow> store_disk \<Rightarrow>
   profile_store_error + strata_file" where
  "strata_open_with_fsync_backend from_str from_reader disk =
     (case fst (pillar_open strata_io strata_parse from_reader (\<lambda>snap. Inr (strata_load_snapshot snap)) []
             (strata_replay from_str) strata_resort disk) of
        Inl e \<Rightarrow> Inl e
      | Inr (m, wal, dir) \<Rightarrow> Inr \<lparr>sf_per_service = m, sf_wal = wal, sf_dir = dir, sf_events = []\<rparr>)"

definition strata_snapshot ::
  "(strata_snapshot_doc \<Rightarrow> (string \<times> string) + string) \<Rightarrow> snapshot_io \<Rightarrow> fsync_fn \<Rightarrow> strata_file \<Rightarrow>
   (profile_store_error + unit) \<times> strata_file" where
  "strata_snapshot to_writer env fsync_file s =
     (case pillar_snapshot env fsync_file (to_writer (strata_dump (sf_per_service s))) (sf_dir s) (sf_wal s) of
        (res, trace) \<Rightarrow> (map_sum strata_io id res, s\<lparr>sf_dir := fst (last trace), sf_wal := snd (last trace)\<rparr>))"

definition strata_ingest_index :: "tenant_id \<Rightarrow> profile list \<Rightarrow> strata_index \<Rightarrow> strata_index" where
  "strata_ingest_index tenant ps m =
     (case strata_apply_ingest tenant ps m [] of (m', touched) \<Rightarrow> fold strata_sort_bucket touched m')"

definition strata_ingest ::
  "(strata_wal_record \<Rightarrow> string + string) \<Rightarrow> append_io \<Rightarrow> tenant_id \<Rightarrow> profile_batch \<Rightarrow> strata_file \<Rightarrow>
   (profile_store_error + strata_receipt) \<times> strata_file" where
  "strata_ingest to_string env tenant batch s =
     (if pb_profiles batch = [] then
        (Inr \<lparr>sr_count = 0\<rparr>, s\<lparr>sf_events := sf_events s @ [StrataIngest tenant 0]\<rparr>)
      else
        let n = length (pb_profiles batch) in
        case strata_append_wal to_string env (StrataWalIngest tenant (pb_profiles batch)) (sf_wal s) of
          (Inl e, w) \<Rightarrow> (Inl e, s\<lparr>sf_wal := w\<rparr>)
        | (Inr _, w) \<Rightarrow>
            (Inr \<lparr>sr_count = n\<rparr>,
             s\<lparr>sf_wal := w, sf_per_service := strata_ingest_index tenant (pb_profiles batch) (sf_per_service s),
               sf_events := sf_events s @ [StrataIngest tenant n]\<rparr>))"

definition strata_query ::
  "tenant_id \<Rightarrow> profile_service \<Rightarrow> profile_range \<Rightarrow> strata_file \<Rightarrow> (profile_store_error + profile list) \<times> strata_file" where
  "strata_query tenant service rng s =
     (case hm_get (sf_per_service s) (tenant, service) of
        None \<Rightarrow> (Inr [], s\<lparr>sf_events := sf_events s @ [StrataQuery tenant 0]\<rparr>)
      | Some bucket \<Rightarrow>
          let matches = filter (\<lambda>p. profile_range_contains rng (pf_time_unix_nano p)) bucket in
          (Inr matches, s\<lparr>sf_events := sf_events s @ [StrataQuery tenant (length matches)]\<rparr>))"

definition strata_query_with ::
  "tenant_id \<Rightarrow> profile_service \<Rightarrow> profile_range \<Rightarrow> strata_predicate \<Rightarrow> strata_file \<Rightarrow>
   (profile_store_error + profile list) \<times> strata_file" where
  "strata_query_with tenant service rng pred s =
     (case hm_get (sf_per_service s) (tenant, service) of
        None \<Rightarrow> (Inr [], s\<lparr>sf_events := sf_events s @ [StrataQuery tenant 0]\<rparr>)
      | Some bucket \<Rightarrow>
          let matches = filter (\<lambda>p. profile_range_contains rng (pf_time_unix_nano p) \<and> strata_matches pred p) bucket in
          (Inr matches, s\<lparr>sf_events := sf_events s @ [StrataQuery tenant (length matches)]\<rparr>))"

end
