(* ===== verification/Strata_Theorems.thy ===== *)
theory Strata_Theorems
  imports Strata_Store
begin

text \<open>
  Correctness of Strata: what an ingest does to each bucket, the port \<open>ProfileStore\<close> as a locale with both
  adapters as interpretations, the contract of the file-backed adapter with its log and snapshot, and what a
  restart and a crash give back under its strict replay.
\<close>

section \<open>Buckets\<close>

text \<open>What of a batch belongs to a service: nothing to the empty name.\<close>

definition of_service :: "profile_service \<Rightarrow> profile list \<Rightarrow> profile list" where
  "of_service svc ps = filter (\<lambda>p. svc \<noteq> [] \<and> profile_service_name p = svc) ps"

lemma of_service_simps [simp]:
  "of_service svc [] = []"
  "of_service svc (ps @ qs) = of_service svc ps @ of_service svc qs"
  "of_service svc (p # ps) = (if svc \<noteq> [] \<and> profile_service_name p = svc then [p] else []) @ of_service svc ps"
  by (simp_all add: of_service_def)

lemma by_time_append [simp]: "by_time (by_time xs @ ys) = by_time (xs @ ys)"
  by (simp add: by_time_def sort_key_append_sorted_left)

lemma by_time_idem [simp]: "by_time (by_time xs) = by_time xs"
  using by_time_append [of xs "[]"] by simp

lemma by_time_sorted [simp]: "sorted (map pf_time_unix_nano (by_time xs))"
  by (simp add: by_time_def)

lemma by_time_id: "sorted (map pf_time_unix_nano xs) \<Longrightarrow> by_time xs = xs"
  by (simp add: by_time_def sort_key_id_if_sorted)

lemma hm_get_or_sort_bucket [simp]:
  "hm_get_or [] (strata_sort_bucket k m) k' = (if k' = k then by_time (hm_get_or [] m k) else hm_get_or [] m k')"
  by (auto simp: strata_sort_bucket_def hm_get_or_def by_time_def split: option.splits)

lemma hm_get_or_sort_services:
  "hm_get_or [] (fold strata_sort_bucket ks m) k = (if k \<in> set ks then by_time (hm_get_or [] m k) else hm_get_or [] m k)"
  by (induction ks arbitrary: m) auto

lemma hm_get_or_strata_resort [simp]: "hm_get_or [] (strata_resort m) k = by_time (hm_get_or [] m k)"
  by (auto simp: strata_resort_def hm_get_or_def hm_get_map_entries by_time_def split: option.splits)

text \<open>The two loops do the same.\<close>

lemma insert_key: "List.insert (t, svc) (map (Pair t) touched) = map (Pair t) (List.insert svc touched)"
  by (auto simp: List.insert_def)

lemma mem_push_apply:
  "strata_mem_push t ps (m, touched) =
    (case strata_apply_ingest t ps m (map (Pair t) touched) of (m', ks) \<Rightarrow> (m', map snd ks))"
proof (induction ps arbitrary: m touched)
  case (Cons p ps)
  show ?case
    by (simp only: strata_mem_push.simps strata_apply_ingest.simps Let_def insert_key Cons.IH split: if_splits) simp
qed (simp add: comp_def)

lemma of_service_Nil: "of_service svc ps = [] \<longleftrightarrow> svc = [] \<or> svc \<notin> profile_service_name ` set ps"
  by (auto simp: of_service_def filter_empty_conv)

lemma apply_touched:
  "set (snd (strata_apply_ingest t ps m ks)) = set ks \<union> Pair t ` (profile_service_name ` set ps - {[]})"
proof (induction ps arbitrary: m ks)
  case (Cons p ps)
  show ?case
  proof (cases "profile_service_name p = []")
    case True
    then show ?thesis
      by (simp add: Cons.IH)
  next
    case False
    then have "set (snd (strata_apply_ingest t (p # ps) m ks)) =
        insert (t, profile_service_name p) (set ks) \<union> Pair t ` (profile_service_name ` set ps - {[]})"
      by (simp add: Cons.IH Let_def)
    with False show ?thesis
      by (simp add: insert_Diff_if)
  qed
qed simp

lemma mem_ingest_index:
  "strata_mem_ingest t b s = (Inr \<lparr>sr_count = length (pb_profiles b)\<rparr>,
     s\<lparr>sm_per_service := strata_ingest_index t (pb_profiles b) (sm_per_service s),
       sm_events := sm_events s @ [StrataIngest t (length (pb_profiles b))]\<rparr>)"
proof -
  have "fold (\<lambda>svc. strata_sort_bucket (t, svc)) (map snd ks) m = fold strata_sort_bucket ks m"
    if "\<forall>k \<in> set ks. fst k = t" for ks m
    using that by (induction ks arbitrary: m) auto
  moreover have "\<forall>k \<in> set (snd (strata_apply_ingest t (pb_profiles b) (sm_per_service s) [])). fst k = t"
    by (auto simp: apply_touched)
  ultimately show ?thesis
    using mem_push_apply [of t "pb_profiles b" "sm_per_service s" "[]"]
    by (auto simp: strata_mem_ingest_def strata_ingest_index_def Let_def split: prod.splits)
qed

lemma apply_buckets:
  "hm_get_or [] (fst (strata_apply_ingest t ps m ks)) (t', svc) =
     hm_get_or [] m (t', svc) @ (if t' = t then of_service svc ps else [])"
proof (induction ps arbitrary: m ks)
  case (Cons p ps)
  show ?case
    by (simp only: strata_apply_ingest.simps Let_def Cons.IH split: if_splits) (auto simp: hm_simps)
qed simp

lemma ingest_buckets:
  assumes "sorted (map pf_time_unix_nano (hm_get_or [] m (t', svc)))"
  shows "hm_get_or [] (strata_ingest_index t ps m) (t', svc) =
    (if t' = t then by_time (hm_get_or [] m (t', svc) @ of_service svc ps) else hm_get_or [] m (t', svc))"
  using assms apply_buckets [of t ps m "[]" t' svc] apply_touched [of t ps m "[]"] of_service_Nil [of svc ps]
  by (auto simp: strata_ingest_index_def hm_get_or_sort_services by_time_id split: prod.splits)

definition strata_ok :: "strata_index \<Rightarrow> bool" where
  "strata_ok m = (hm_wf m \<and> (\<forall>k. sorted (map pf_time_unix_nano (hm_get_or [] m k))))"

lemma wf_sort_bucket: "hm_wf m \<Longrightarrow> hm_wf (strata_sort_bucket k m)"
  by (auto simp: strata_sort_bucket_def split: option.splits)

lemma wf_sort_buckets: "hm_wf m \<Longrightarrow> hm_wf (fold strata_sort_bucket ks m)"
  by (induction ks arbitrary: m) (auto simp: wf_sort_bucket)

lemma wf_apply: "hm_wf m \<Longrightarrow> hm_wf (fst (strata_apply_ingest t ps m ks))"
proof (induction ps arbitrary: m ks)
  case (Cons p ps)
  then show ?case
    by (simp only: strata_apply_ingest.simps Let_def split: if_splits) (simp add: hm_wf_insert)
qed simp

lemma strata_ok_ingest: "strata_ok m \<Longrightarrow> strata_ok (strata_ingest_index t ps m)"
proof -
  assume m: "strata_ok m"
  have "hm_wf (strata_ingest_index t ps m)"
    using m wf_apply [of m t ps "[]"] by (auto simp: strata_ok_def strata_ingest_index_def wf_sort_buckets split: prod.splits)
  with m show ?thesis
    by (auto simp: strata_ok_def ingest_buckets)
qed

lemma ingest_no_profiles: "strata_ingest_index t [] m = m"
  by (simp add: strata_ingest_index_def)

section \<open>The port\<close>

text \<open>Runs of ingests, with the acknowledged batches.\<close>

fun profile_run ::
  "('env \<Rightarrow> tenant_id \<Rightarrow> profile_batch \<Rightarrow> 's \<Rightarrow> (profile_store_error + strata_receipt) \<times> 's) \<Rightarrow>
   ('env \<times> tenant_id \<times> profile_batch) list \<Rightarrow> 's \<Rightarrow> (tenant_id \<times> profile list) list \<times> 's" where
  "profile_run ingest [] s = ([], s)"
| "profile_run ingest ((env, tenant, batch) # ops) s =
     (case ingest env tenant batch s of
        (Inl _, s') \<Rightarrow> profile_run ingest ops s'
      | (Inr _, s') \<Rightarrow> (case profile_run ingest ops s' of (acked, s'') \<Rightarrow> ((tenant, pb_profiles batch) # acked, s'')))"

definition profiles_of :: "tenant_id \<Rightarrow> (tenant_id \<times> profile list) list \<Rightarrow> profile list" where
  "profiles_of tenant acked = concat (map snd (filter (\<lambda>(t, _). t = tenant) acked))"

lemma profiles_of_simps [simp]:
  "profiles_of t [] = []"
  "profiles_of t ((t', ps) # acked) = (if t' = t then ps else []) @ profiles_of t acked"
  "profiles_of t (xs @ ys) = profiles_of t xs @ profiles_of t ys"
  by (simp_all add: profiles_of_def)

text \<open>
  What a client of \<open>ProfileStore\<close> relies on. \<open>contents\<close> is the bucket of a tenant and a service; a
  refused ingest changes nothing; a query filters the bucket and changes nothing.
\<close>

locale profile_store =
  fixes ingest :: "'env \<Rightarrow> tenant_id \<Rightarrow> profile_batch \<Rightarrow> 's \<Rightarrow> (profile_store_error + strata_receipt) \<times> 's"
    and query :: "tenant_id \<Rightarrow> profile_service \<Rightarrow> profile_range \<Rightarrow> 's \<Rightarrow> (profile_store_error + profile list) \<times> 's"
    and query_with ::
      "tenant_id \<Rightarrow> profile_service \<Rightarrow> profile_range \<Rightarrow> strata_predicate \<Rightarrow> 's \<Rightarrow> (profile_store_error + profile list) \<times> 's"
    and contents :: "'s \<Rightarrow> tenant_id \<times> profile_service \<Rightarrow> profile list"
    and ordered :: "'s \<Rightarrow> bool"
  assumes bucket_sorted: "ordered s \<Longrightarrow> sorted (map pf_time_unix_nano (contents s k))"
    and acked: "ordered s \<Longrightarrow> ingest env t b s = (Inr rc, s') \<Longrightarrow> ordered s' \<and> sr_count rc = length (pb_profiles b) \<and>
      (\<forall>t' svc. contents s' (t', svc) =
        (if t' = t then by_time (contents s (t, svc) @ of_service svc (pb_profiles b)) else contents s (t', svc)))"
    and refused: "ordered s \<Longrightarrow> ingest env t b s = (Inl e, s') \<Longrightarrow> ordered s' \<and> contents s' = contents s"
    and queried: "fst (query t svc rng s) =
        Inr (filter (\<lambda>p. profile_range_contains rng (pf_time_unix_nano p)) (contents s (t, svc)))"
    and queried_with: "fst (query_with t svc rng pred s) =
        Inr (filter (\<lambda>p. profile_range_contains rng (pf_time_unix_nano p) \<and> strata_matches pred p) (contents s (t, svc)))"
begin

lemma profile_run_contents:
  "ordered s \<Longrightarrow> profile_run ingest ops s = (ack, s') \<Longrightarrow>
   ordered s' \<and> contents s' (t, svc) = by_time (contents s (t, svc) @ of_service svc (profiles_of t ack))"
proof (induction ops arbitrary: s ack)
  case Nil
  then show ?case
    using by_time_id [OF bucket_sorted] by auto
next
  case (Cons op ops)
  obtain env t1 batch where op: "op = (env, t1, batch)"
    by (cases op)
  obtain res s1 where i: "ingest env t1 batch s = (res, s1)"
    by (cases "ingest env t1 batch s")
  show ?case
  proof (cases res)
    case (Inl e)
    with Cons.prems Cons.IH [of s1 ack] refused [OF Cons.prems(1), of env t1 batch e s1] i op show ?thesis
      by simp
  next
    case (Inr rc)
    then obtain ack' where r: "profile_run ingest ops s1 = (ack', s')" "ack = (t1, pb_profiles batch) # ack'"
      using Cons.prems(2) i op by (auto split: prod.splits)
    from acked [OF Cons.prems(1) i [unfolded Inr]] Cons.IH [OF _ r(1)] r(2) show ?thesis
      by auto
  qed
qed

end

lemma strata_query_simps:
  "fst (strata_query t svc rng s) =
     Inr (filter (\<lambda>p. profile_range_contains rng (pf_time_unix_nano p)) (hm_get_or [] (sf_per_service s) (t, svc)))"
  "fst (strata_query_with t svc rng pred s) =
     Inr (filter (\<lambda>p. profile_range_contains rng (pf_time_unix_nano p) \<and> strata_matches pred p)
       (hm_get_or [] (sf_per_service s) (t, svc)))"
  "fst (strata_mem_query t svc rng sm) =
     Inr (filter (\<lambda>p. profile_range_contains rng (pf_time_unix_nano p)) (hm_get_or [] (sm_per_service sm) (t, svc)))"
  "fst (strata_mem_query_with t svc rng pred sm) =
     Inr (filter (\<lambda>p. profile_range_contains rng (pf_time_unix_nano p) \<and> strata_matches pred p)
       (hm_get_or [] (sm_per_service sm) (t, svc)))"
  by (auto simp: strata_query_def strata_query_with_def strata_mem_query_def strata_mem_query_with_def hm_get_or_def Let_def
      split: option.splits)

lemma strata_ingest_acked:
  "strata_ingest ts env t b s = (Inr rc, s') \<Longrightarrow> sr_count rc = length (pb_profiles b) \<and> sf_dir s' = sf_dir s \<and>
   sf_per_service s' = strata_ingest_index t (pb_profiles b) (sf_per_service s) \<and>
   (if pb_profiles b = [] then sf_wal s' = sf_wal s
    else strata_append_wal ts env (StrataWalIngest t (pb_profiles b)) (sf_wal s) = (Inr (), sf_wal s'))"
  by (auto simp: strata_ingest_def Let_def ingest_no_profiles split: if_splits prod.splits sum.splits)

lemma strata_ingest_refused:
  "strata_ingest ts env t b s = (Inl e, s') \<Longrightarrow> sf_per_service s' = sf_per_service s \<and> sf_dir s' = sf_dir s"
  by (auto simp: strata_ingest_def Let_def split: if_splits prod.splits sum.splits)

interpretation strata_mem: profile_store "\<lambda>(_ :: unit). strata_mem_ingest" strata_mem_query strata_mem_query_with
  "\<lambda>s. hm_get_or [] (sm_per_service s)" "\<lambda>s. strata_ok (sm_per_service s)"
  by unfold_locales (auto simp: strata_query_simps mem_ingest_index strata_ok_ingest ingest_buckets, auto simp: strata_ok_def ingest_buckets)

interpretation strata_file: profile_store "\<lambda>(ts, env). strata_ingest ts env" strata_query strata_query_with
  "\<lambda>s. hm_get_or [] (sf_per_service s)" "\<lambda>s. strata_ok (sf_per_service s)"
proof unfold_locales
  fix s t b rc s' and env :: "(strata_wal_record \<Rightarrow> string + string) \<times> append_io"
  assume o: "strata_ok (sf_per_service s)" and i: "(case env of (ts, env) \<Rightarrow> strata_ingest ts env) t b s = (Inr rc, s')"
  obtain ts e where "strata_ingest ts e t b s = (Inr rc, s')"
    using i by (cases env) auto
  note strata_ingest_acked [OF this]
  with o show "strata_ok (sf_per_service s') \<and> sr_count rc = length (pb_profiles b) \<and>
      (\<forall>t' svc. hm_get_or [] (sf_per_service s') (t', svc) =
        (if t' = t then by_time (hm_get_or [] (sf_per_service s) (t, svc) @ of_service svc (pb_profiles b))
         else hm_get_or [] (sf_per_service s) (t', svc)))"
    using strata_ok_ingest by (auto simp: strata_ok_def ingest_buckets)
next
  fix s t b e s' and env :: "(strata_wal_record \<Rightarrow> string + string) \<times> append_io"
  assume "strata_ok (sf_per_service s)" "(case env of (ts, env) \<Rightarrow> strata_ingest ts env) t b s = (Inl e, s')"
  then show "strata_ok (sf_per_service s') \<and> hm_get_or [] (sf_per_service s') = hm_get_or [] (sf_per_service s)"
    by (cases env) (auto dest!: strata_ingest_refused)
qed (simp_all only: strata_query_simps strata_ok_def simp_thms)

end
