(* ===== verification/Strata_Durable.thy ===== *)
theory Strata_Durable
  imports Strata_Theorems
begin

text \<open>
  Durability of the file-backed profile store: the states it reaches through acknowledged operations, what
  queries of them answer, what a restart gives back, and when its strict replay refuses to open after a crash.
\<close>

section \<open>The contract of the store\<close>

fun strata_live_record :: "strata_wal_record \<Rightarrow> strata_index \<Rightarrow> strata_index" where
  "strata_live_record (StrataWalIngest tenant ps) m = strata_ingest_index tenant ps m"

lemma ingest_buckets_cases:
  "hm_get_or [] (strata_ingest_index t ps m) (t', svc) =
    (if t' = t \<and> of_service svc ps \<noteq> [] then by_time (hm_get_or [] m (t', svc) @ of_service svc ps)
     else hm_get_or [] m (t', svc))"
  using apply_buckets [of t ps m "[]" t' svc] apply_touched [of t ps m "[]"] of_service_Nil [of svc ps]
  by (auto simp: strata_ingest_index_def hm_get_or_sort_services split: prod.splits)

lemma strata_load_get:
  "hm_wf m \<Longrightarrow> hm_get (strata_load_snapshot (strata_dump m)) k = hm_get m k"
proof -
  have "fold (\<lambda>b. hm_insert (vb_tenant b, vb_service b) (vb_profiles b)) (strata_dump m) m0 =
      fold (\<lambda>(k, v) m. hm_insert k v m) m m0" for m0
    by (induction m arbitrary: m0) (auto simp: strata_dump_def)
  then show "hm_wf m \<Longrightarrow> hm_get (strata_load_snapshot (strata_dump m)) k = hm_get m k"
    by (simp add: strata_load_snapshot_def fold_insert_get split: option.splits)
qed

interpretation strata_pillar: snapshotting_pillar strata_replay_record strata_live_record strata_resort "hm_get_or []"
  strata_ok "\<lambda>snap. Inr (strata_load_snapshot snap)" strata_dump
proof unfold_locales
  fix r m
  show "hm_get_or [] (strata_resort (strata_replay_record r m)) = hm_get_or [] (strata_live_record r (strata_resort m))"
    by (cases r) (auto simp: fun_eq_iff apply_buckets ingest_buckets_cases)
next
  fix r and m m' :: strata_index
  assume "hm_get_or [] m = hm_get_or [] m'"
  then show "hm_get_or [] (strata_live_record r m) = hm_get_or [] (strata_live_record r m')"
    by (cases r) (auto simp: fun_eq_iff ingest_buckets_cases)
next
  fix m
  assume "strata_ok m"
  then have "hm_get_or [] (strata_resort (strata_load_snapshot (strata_dump m))) k = hm_get_or [] m k" for k
    using strata_load_get [of m k] by_time_id [of "hm_get_or [] m k"] unfolding hm_get_or_strata_resort
    by (simp only: strata_ok_def hm_get_or_def simp_thms)
  then show "\<exists>s'. Inr (strata_load_snapshot (strata_dump m)) = Inr s' \<and>
      hm_get_or [] (strata_resort s') = hm_get_or [] m"
    by auto
qed

section \<open>Strict replay\<close>

lemma strata_replay_image:
  assumes "list_all (serde_line ts fs) rs"
  shows "strata_replay fs (wal_image (line_of ts) rs) m = (Inr (), fold strata_replay_record rs m, [])"
proof -
  have c: "codec_ok (line_of ts) fs rs" "no_cr (line_of ts) rs"
    using assms by (simp_all add: serde_line_all)
  show ?thesis
    by (simp add: strata_replay_def buf_read_lines_image [OF c] replay_buf_lines_image [OF c(1)])
qed

text \<open>A last line that has lost its line feed is a record if it is whole, and otherwise refuses the log.\<close>

lemma strata_replay_partial:
  assumes "list_all (serde_line ts fs) rs" and "part \<noteq> []" and "newline \<notin> set part"
  shows "strata_replay fs (wal_image (line_of ts) rs @ part) m =
    (if \<not> utf8_valid part then (Inl (strata_io ''stream did not contain valid UTF-8''), fold strata_replay_record rs m, [])
     else case fs part of
            Inl e \<Rightarrow> (Inl (StrataPersistenceFailed (wal_parse_reason (length rs + 1) e)), fold strata_replay_record rs m, [])
          | Inr r \<Rightarrow> (Inr (), fold strata_replay_record (rs @ [r]) m, []))"
proof -
  have c: "codec_ok (line_of ts) fs rs" "no_cr (line_of ts) rs"
    using assms(1) by (simp_all add: serde_line_all)
  show ?thesis
    using assms(2)
    by (auto simp: strata_replay_def buf_read_lines_torn [OF c assms(2,3)] replay_buf_lines_append [OF c(1)] split: sum.splits)
qed

section \<open>Files that hold the state\<close>

definition strata_durable ::
  "(strata_wal_record \<Rightarrow> string + string) \<Rightarrow> (string \<Rightarrow> string + strata_wal_record) \<Rightarrow>
   (string \<Rightarrow> string + strata_snapshot_doc) \<Rightarrow> strata_file \<Rightarrow> bool" where
  "strata_durable ts fs fr s =
     durable_as ts (refusing_cr fs) fr (\<lambda>snap. Inr (strata_load_snapshot snap) :: profile_store_error + _) []
       strata_live_record strata_resort (hm_get_or []) (sf_dir s) (sf_wal s) (hm_get_or [] (sf_per_service s))"

lemma strata_durableE:
  assumes "strata_durable ts fs fr s"
  obtains base rs where
    "snapshot_base fr (\<lambda>snap. Inr (strata_load_snapshot snap) :: profile_store_error + _) [] (sf_canonical (sf_dir s)) base"
    "list_all (serde_line ts fs) rs" "wr_file (sf_wal s) = wal_image (line_of ts) rs"
    "hm_get_or [] (fold strata_live_record rs (strata_resort base)) = hm_get_or [] (sf_per_service s)"
    "wr_buf (sf_wal s) = []" "wr_synced (sf_wal s) = length (wr_file (sf_wal s))"
  using assms unfolding strata_durable_def durable_as_def serde_ok_refusing by blast

lemma strata_durable_ingest:
  assumes "strata_durable ts fs fr s" and "strata_ingest ts env t b s = (Inr rc, s')"
    and "pb_profiles b \<noteq> [] \<Longrightarrow> serde_line ts fs (StrataWalIngest t (pb_profiles b))"
  shows "strata_durable ts fs fr s'"
proof (cases "pb_profiles b = []")
  case True
  with strata_ingest_acked [OF assms(2)] assms(1) show ?thesis
    by (simp add: strata_durable_def ingest_no_profiles)
next
  case False
  from strata_ingest_acked [OF assms(2)] False
  have a: "append_wal ts strata_parse strata_io env (StrataWalIngest t (pb_profiles b)) (sf_wal s) = (Inr (), sf_wal s')"
    and *: "sf_dir s' = sf_dir s" "sf_per_service s' = strata_ingest_index t (pb_profiles b) (sf_per_service s)"
    by (simp_all add: strata_append_wal_def)
  from strata_pillar.durable_append [OF assms(1) [unfolded strata_durable_def] a assms(3) [OF False, unfolded serde_line_iff]]
  show ?thesis
    by (simp add: strata_durable_def *)
qed

lemma strata_queries_keep:
  "sf_per_service (snd (strata_query t svc rng s)) = sf_per_service s \<and> sf_dir (snd (strata_query t svc rng s)) = sf_dir s \<and>
   sf_wal (snd (strata_query t svc rng s)) = sf_wal s"
  "sf_per_service (snd (strata_query_with t svc rng p s)) = sf_per_service s \<and>
   sf_dir (snd (strata_query_with t svc rng p s)) = sf_dir s \<and> sf_wal (snd (strata_query_with t svc rng p s)) = sf_wal s"
  by (simp_all add: strata_query_def strata_query_with_def Let_def split: option.splits)

lemma strata_durable_snapshot:
  assumes "strata_ok (sf_per_service s)" and "strata_snapshot tw env fsync_file s = (Inr (), s')"
    and "tw (strata_dump (sf_per_service s)) = Inr data" and "fr data = Inr (strata_dump (sf_per_service s))"
    and "\<And>b. fsync_file b = Inr b"
  shows "strata_durable ts fs fr s' \<and> sf_per_service s' = sf_per_service s"
proof -
  obtain res trace where
    t: "pillar_snapshot env fsync_file (Inr data) (sf_dir s) (sf_wal s) = (res, trace)"
    by fastforce
  with assms(2,3) have "res = Inr ()" "s' = s\<lparr>sf_dir := fst (last trace), sf_wal := snd (last trace)\<rparr>"
    by (cases res; simp add: strata_snapshot_def)+
  with t strata_pillar.durable_snapshot [OF assms(5), of env data "sf_dir s" "sf_wal s" trace fr "sf_per_service s"]
    assms(1,4) show ?thesis
    by (simp add: strata_durable_def)
qed

text \<open>An open of files whose log replays to something.\<close>

lemma strata_open_replayed:
  assumes "snapshot_base fr (\<lambda>snap. Inr (strata_load_snapshot snap) :: profile_store_error + _) [] (sf_canonical dir) base"
  shows "strata_open_with_fsync_backend fs fr (disk_of dir w) =
    (case strata_replay fs (wr_file w) base of
       (Inl e, _) \<Rightarrow> Inl e
     | (Inr _, m, _) \<Rightarrow> Inr \<lparr>sf_per_service = strata_resort m, sf_wal = open_writer (wr_file w) (wr_synced w),
         sf_dir = \<lparr>sf_canonical = sf_canonical dir, sf_tmp = None, sf_undo = None\<rparr>, sf_events = []\<rparr>)"
  using assms
  by (auto simp: strata_open_with_fsync_backend_def pillar_open_def disk_of_def snapshot_base_def snap_fs_of_def
      split: option.splits prod.splits sum.splits)

lemma strata_resort_ok: "hm_wf m \<Longrightarrow> strata_ok (strata_resort m)"
  by (simp add: strata_ok_def) (simp add: strata_resort_def hm_wf_def comp_def case_prod_beta)

lemma wf_replay: "hm_wf m \<Longrightarrow> hm_wf (fold strata_replay_record rs m)"
proof (induction rs arbitrary: m)
  case (Cons r rs)
  then show ?case
    by (cases r) (simp add: wf_apply)
qed simp

lemma wf_load: "hm_wf (strata_load_snapshot snap)"
proof -
  have "hm_wf m \<Longrightarrow> hm_wf (fold (\<lambda>b. hm_insert (vb_tenant b, vb_service b) (vb_profiles b)) snap m)" for m
    by (induction snap arbitrary: m) auto
  then show ?thesis
    by (simp add: strata_load_snapshot_def hm_wf_def)
qed

lemma wf_base:
  "snapshot_base fr (\<lambda>snap. Inr (strata_load_snapshot snap) :: profile_store_error + _) [] f base \<Longrightarrow> hm_wf base"
  by (auto simp: snapshot_base_def wf_load hm_wf_def [of "[]"] split: option.splits)

lemma strata_durable_reopen:
  assumes "strata_durable ts fs fr s"
  shows "\<exists>s'. strata_open_with_fsync_backend fs fr (disk_of (sf_dir s) (sf_wal s)) = Inr s' \<and> strata_durable ts fs fr s' \<and>
    strata_ok (sf_per_service s') \<and> hm_get_or [] (sf_per_service s') = hm_get_or [] (sf_per_service s)"
proof -
  from strata_durableE [OF assms] obtain base rs where
    b: "snapshot_base fr (\<lambda>snap. Inr (strata_load_snapshot snap) :: profile_store_error + _) [] (sf_canonical (sf_dir s)) base"
    and rs: "list_all (serde_line ts fs) rs" "wr_file (sf_wal s) = wal_image (line_of ts) rs"
    and v: "hm_get_or [] (fold strata_live_record rs (strata_resort base)) = hm_get_or [] (sf_per_service s)"
    and w: "wr_buf (sf_wal s) = []" "wr_synced (sf_wal s) = length (wr_file (sf_wal s))"
    by blast
  let ?s = "\<lparr>sf_per_service = strata_resort (fold strata_replay_record rs base), sf_wal = sf_wal s,
      sf_dir = \<lparr>sf_canonical = sf_canonical (sf_dir s), sf_tmp = None, sf_undo = None\<rparr>, sf_events = []\<rparr>"
  have view: "hm_get_or [] (sf_per_service ?s) = hm_get_or [] (sf_per_service s)"
    using strata_pillar.recover_fold [of rs base] v by simp
  have "open_writer (wr_file (sf_wal s)) (wr_synced (sf_wal s)) = sf_wal s"
    using w by (simp add: open_writer_def)
  then have "strata_open_with_fsync_backend fs fr (disk_of (sf_dir s) (sf_wal s)) = Inr ?s"
    by (simp add: strata_open_replayed [OF b] rs(2) strata_replay_image [OF rs(1)])
  moreover have "strata_durable ts fs fr ?s"
    unfolding strata_durable_def durable_as_def view serde_ok_refusing
    using b rs v w by auto
  moreover have "strata_ok (sf_per_service ?s)"
    by (simp add: strata_resort_ok wf_replay wf_base [OF b])
  ultimately show ?thesis
    using view by blast
qed

section \<open>Histories\<close>

text \<open>
  The states a process reaches from an empty directory through acknowledged ingests, queries,
  successful snapshots and restarts, with the batches acknowledged so far.
\<close>

inductive strata_history ::
  "(strata_wal_record \<Rightarrow> string + string) \<Rightarrow> (string \<Rightarrow> string + strata_wal_record) \<Rightarrow>
   (strata_snapshot_doc \<Rightarrow> (string \<times> string) + string) \<Rightarrow> (string \<Rightarrow> string + strata_snapshot_doc) \<Rightarrow>
   strata_file \<Rightarrow> (tenant_id \<times> profile list) list \<Rightarrow> bool"
  for ts fs tw fr where
  created: "strata_open_with_fsync_backend fs fr
      \<lparr>sd_snapshot = Absent, sd_wal = Absent, sd_append_error = None\<rparr> = Inr s \<Longrightarrow>
    strata_history ts fs tw fr s []"
| ingested: "strata_history ts fs tw fr s acked \<Longrightarrow> strata_ingest ts env t b s = (Inr rc, s') \<Longrightarrow>
    (pb_profiles b \<noteq> [] \<Longrightarrow> serde_line ts fs (StrataWalIngest t (pb_profiles b))) \<Longrightarrow>
    strata_history ts fs tw fr s' (acked @ [(t, pb_profiles b)])"
| queried: "strata_history ts fs tw fr s acked \<Longrightarrow> strata_history ts fs tw fr (snd (strata_query t svc rng s)) acked"
| queried_with: "strata_history ts fs tw fr s acked \<Longrightarrow>
    strata_history ts fs tw fr (snd (strata_query_with t svc rng p s)) acked"
| snapshotted: "strata_history ts fs tw fr s acked \<Longrightarrow>
    strata_snapshot tw env (real_fsync_file None) s = (Inr (), s') \<Longrightarrow>
    tw (strata_dump (sf_per_service s)) = Inr data \<Longrightarrow> fr data = Inr (strata_dump (sf_per_service s)) \<Longrightarrow>
    strata_history ts fs tw fr s' acked"
| restarted: "strata_history ts fs tw fr s acked \<Longrightarrow>
    strata_open_with_fsync_backend fs fr (disk_of (sf_dir s) (sf_wal s)) = Inr s' \<Longrightarrow>
    strata_history ts fs tw fr s' acked"

text \<open>The index that belongs to a list of acknowledged batches, and the answers it gives.\<close>

definition strata_holds :: "(tenant_id \<times> profile list) list \<Rightarrow> strata_index \<Rightarrow> bool" where
  "strata_holds acked m =
     (strata_ok m \<and> (\<forall>t svc. hm_get_or [] m (t, svc) = by_time (of_service svc (profiles_of t acked))))"

definition strata_answers :: "(tenant_id \<times> profile list) list \<Rightarrow> strata_file \<Rightarrow> bool" where
  "strata_answers acked s =
     (\<forall>t svc rng p. fst (strata_query_with t svc rng p s) =
        Inr (filter (\<lambda>x. profile_range_contains rng (pf_time_unix_nano x) \<and> strata_matches p x)
          (by_time (of_service svc (profiles_of t acked)))) \<and>
      fst (strata_query t svc rng s) =
        Inr (filter (\<lambda>x. profile_range_contains rng (pf_time_unix_nano x)) (by_time (of_service svc (profiles_of t acked)))))"

lemma strata_holds_answers: "strata_holds acked (sf_per_service s) \<Longrightarrow> strata_answers acked s"
  by (simp add: strata_holds_def strata_answers_def strata_query_simps)

lemma strata_holds_view:
  "strata_holds acked m \<Longrightarrow> hm_get_or [] m' = hm_get_or [] m \<Longrightarrow> strata_ok m' \<Longrightarrow> strata_holds acked m'"
  by (simp add: strata_holds_def)

lemma strata_holds_ingest: "strata_holds acked m \<Longrightarrow> strata_holds (acked @ [(t, ps)]) (strata_ingest_index t ps m)"
  by (simp add: strata_holds_def strata_ok_ingest ingest_buckets)

lemma strata_history_inv:
  "strata_history ts fs tw fr s acked \<Longrightarrow> strata_durable ts fs fr s \<and> strata_holds acked (sf_per_service s)"
proof (induction rule: strata_history.induct)
  case (created s)
  then have "sf_per_service s = []"
    by (auto simp: strata_open_with_fsync_backend_def pillar_open_def strata_resort_def)
  moreover have "strata_durable ts fs fr s"
    using created by (auto simp: strata_open_with_fsync_backend_def pillar_open_def strata_durable_def durable_as_def snap_fs_of_def
        open_writer_def snapshot_base_def intro!: exI [of _ "[]"])
  ultimately show ?case
    by (simp add: strata_holds_def strata_ok_def hm_wf_def by_time_def hm_get_or_def)
next
  case (ingested s acked env t b rc s')
  then have "strata_durable ts fs fr s'"
    using strata_durable_ingest by blast
  with ingested.IH strata_ingest_acked [OF ingested.hyps(2)] strata_holds_ingest show ?case
    by simp
next
  case (snapshotted s acked env s' data)
  then show ?case
    using strata_durable_snapshot [of s tw env "real_fsync_file None" s' data fr ts fs] real_fsync.honest
    by (auto simp: strata_holds_def)
next
  case (restarted s acked s')
  then obtain "strata_durable ts fs fr s'" "strata_ok (sf_per_service s')"
      "hm_get_or [] (sf_per_service s') = hm_get_or [] (sf_per_service s)"
    using strata_durable_reopen [of ts fs fr s] by auto
  with restarted.IH strata_holds_view show ?case
    by blast
qed (simp_all add: strata_durable_def strata_queries_keep)

section \<open>Properties\<close>

text \<open>
  C16. A restart of the profile store loses nothing and invents nothing: after any history of acknowledged
  operations, reopening the files succeeds and every query is answered, in time order, with exactly
  the acknowledged profiles of the service that are in range and match; those without a service name,
  which were counted in their receipt, answer no query.
\<close>

theorem strata_restart_exact:
  assumes "strata_history ts fs tw fr s acked"
  shows "\<exists>s'. strata_open_with_fsync_backend fs fr (disk_of (sf_dir s) (sf_wal s)) = Inr s' \<and> strata_answers acked s'"
proof -
  from strata_durable_reopen [of ts fs fr s] strata_history_inv [OF assms] obtain s'
    where o: "strata_open_with_fsync_backend fs fr (disk_of (sf_dir s) (sf_wal s)) = Inr s'"
    by blast
  from strata_history_inv [OF strata_history.restarted [OF assms o]] o strata_holds_answers show ?thesis
    by blast
qed

lemma replayed_answers:
  assumes "snapshot_base fr (\<lambda>snap. Inr (strata_load_snapshot snap) :: profile_store_error + _) [] f base"
    and "strata_holds acked m" and "hm_get_or [] (fold strata_live_record rs (strata_resort base)) = hm_get_or [] m"
    and "sf_per_service s' = strata_resort (fold strata_replay_record rs base)"
  shows "strata_answers acked s'"
proof -
  have "hm_get_or [] (sf_per_service s') = hm_get_or [] m"
    unfolding assms(4) using strata_pillar.recover_fold [of rs base] assms(3) by simp
  moreover have "strata_ok (sf_per_service s')"
    unfolding assms(4) by (intro strata_resort_ok wf_replay wf_base [OF assms(1)])
  ultimately show ?thesis
    using strata_holds_answers [OF strata_holds_view [OF assms(2)]] by blast
qed

lemma strata_open_crashed:
  assumes "snapshot_base fr (\<lambda>snap. Inr (strata_load_snapshot snap) :: profile_store_error + _) [] (sf_canonical dir) base"
  shows "strata_open_with_fsync_backend fs fr (disk_of dir (open_writer f (length f))) =
    (case strata_replay fs f base of (Inl e, _) \<Rightarrow> Inl e
     | (Inr _, m, _) \<Rightarrow> Inr \<lparr>sf_per_service = strata_resort m, sf_wal = open_writer f (length f),
         sf_dir = \<lparr>sf_canonical = sf_canonical dir, sf_tmp = None, sf_undo = None\<rparr>, sf_events = []\<rparr>)"
proof -
  have "wr_file (open_writer f (length f)) = f" "wr_synced (open_writer f (length f)) = length f"
    by (simp_all add: open_writer_def)
  then show ?thesis
    by (simp only: strata_open_replayed [OF assms])
qed

lemma strictly_shorter: "prefix p (l :: string) \<Longrightarrow> p \<noteq> l \<Longrightarrow> length p < length l"
  by (simp add: prefix_length_less strict_prefix_def)

text \<open>
  C17. A crash in the middle of an ingest of profiles, under strict replay: an acknowledged batch is there after
  it; and the store opens, with the batch whole or not at all, unless a proper part of the batch's line reached
  the disk, and in that case it does not open and every profile acknowledged before is out of reach. The
  truncation of the log by an earlier snapshot counts as on the disk, although the store does not sync it.
\<close>

theorem strata_crash_refuses:
  assumes "strata_history ts fs tw fr s acked" and "strata_ingest ts env t b s = (res, s1)" and "pb_profiles b \<noteq> []"
    and "ts (StrataWalIngest t (pb_profiles b)) = Inr line" and "serde_line ts fs (StrataWalIngest t (pb_profiles b))"
    and "\<forall>p. prefix p line \<longrightarrow> p \<noteq> [] \<longrightarrow> p \<noteq> line \<longrightarrow> isl (fs p)"
    and "crash_image (sf_wal s1) f" and "n = length (wr_file (sf_wal s))"
    and "opened = strata_open_with_fsync_backend fs fr (disk_of (sf_dir s1) (open_writer f (length f)))"
  shows "(\<not> isl res \<longrightarrow> (\<exists>s'. opened = Inr s' \<and> strata_answers (acked @ [(t, pb_profiles b)]) s')) \<and>
    (isl opened \<longleftrightarrow> n < length f \<and> length f < n + length line) \<and>
    (\<forall>s'. opened = Inr s' \<longrightarrow> strata_answers acked s' \<or> strata_answers (acked @ [(t, pb_profiles b)]) s')"
proof -
  let ?r = "StrataWalIngest t (pb_profiles b)" and ?img = "wal_image (line_of ts)"
  note inv = strata_history_inv [OF assms(1)]
  from strata_durableE [OF conjunct1 [OF inv]] obtain base rs where
    base: "snapshot_base fr (\<lambda>snap. Inr (strata_load_snapshot snap) :: profile_store_error + _) [] (sf_canonical (sf_dir s)) base"
    and rs: "list_all (serde_line ts fs) rs" "wr_file (sf_wal s) = ?img rs"
    and v: "hm_get_or [] (fold strata_live_record rs (strata_resort base)) = hm_get_or [] (sf_per_service s)"
    and w: "wr_buf (sf_wal s) = []" "wr_synced (sf_wal s) = length (wr_file (sf_wal s))"
    by blast
  obtain ares w1 where a: "append_wal ts strata_parse strata_io env ?r (sf_wal s) = (ares, w1)"
    by fastforce
  with assms(2,3) have s1: "sf_wal s1 = w1" "sf_dir s1 = sf_dir s" "\<not> isl res \<Longrightarrow> ares = Inr ()"
    by (auto simp: strata_ingest_def strata_append_wal_def Let_def split: sum.splits)
  have line: "line_of ts ?r = line" "line \<noteq> []" "newline \<notin> set line"
    using assms(4,5) by (auto simp: line_of_def serde_line_def serde_ok_def)
  from append_wal_crash [OF a w(1) assms(7) [unfolded s1(1)] assms(4) w(2)] rs(2)
  have f: "length (?img rs) \<le> length f" "prefix f (?img rs @ line @ [newline])"
    "ares = Inr () \<Longrightarrow> f = ?img rs @ line @ [newline]" and n: "n = length (?img rs)"
    using assms(8) by auto
  have rs': "list_all (serde_line ts fs) (rs @ [?r])" "?img (rs @ [?r]) = ?img rs @ line @ [newline]"
    using rs(1) assms(5) by (simp_all add: line)
  obtain part where part: "f = ?img rs @ part" "prefix part (line @ [newline])"
    using prefix_past [OF f(2,1)] by auto
  note after = replayed_answers [OF base strata_holds_ingest [OF conjunct2 [OF inv]], of "rs @ [?r]"]
    and before = replayed_answers [OF base conjunct2 [OF inv] v]
  have v': "hm_get_or [] (fold strata_live_record (rs @ [?r]) (strata_resort base)) =
      hm_get_or [] (strata_ingest_index t (pb_profiles b) (sf_per_service s))"
    using strata_pillar.live_cong [OF v, of ?r] by simp
  note opened = assms(9) [unfolded s1(2) strata_open_crashed [OF base]]
  show ?thesis
  proof (cases rule: prefix_line_cases [OF part(2)])
    case 1
    then have "f = ?img rs"
      using part(1) by simp
    with strata_replay_image [OF rs(1), of base] opened before f(3) s1(3) n line show ?thesis
      by auto
  next
    case 2
    then have "f = ?img (rs @ [?r])"
      using part(1) rs'(2) by simp
    with strata_replay_image [OF rs'(1), of base] opened after [OF v'] n rs'(2) show ?thesis
      by auto
  next
    case 3
    have "utf8_valid line" "fs line = Inr ?r"
      using assms(5) line(1) by (auto simp: serde_line_def serde_ok_def)
    with strata_replay_partial [OF rs(1) line(2,3), of base] opened after [OF v'] part(1) 3 n show ?thesis
      by auto
  next
    case 4
    then obtain e where e: "fs part = Inl e"
      using assms(6) by (auto simp: isl_def)
    have "length part < length line"
      using strictly_shorter 4(1,3) by blast
    moreover have "newline \<notin> set part"
      using 4(1) line(3) by (auto dest: set_mono_prefix)
    moreover have "isl res"
    proof (rule ccontr)
      assume "\<not> isl res"
      then have "part = line @ [newline]"
        using f(3) s1(3) part(1) by simp
      with \<open>length part < length line\<close> show False
        by simp
    qed
    ultimately show ?thesis
      using strata_replay_partial [OF rs(1) 4(2), of base] opened part(1) n e 4(2)
      by (auto split: if_splits)
  qed
qed

text \<open>
  The two profile stores agree: after runs that acknowledged the same batches, every query of the one is answered
  as by the other.
\<close>

theorem strata_adapters_agree:
  assumes "profile_run (\<lambda>(_ :: unit). strata_mem_ingest) ops strata_mem_new = (acked, m)"
    and "strata_open_with_fsync_backend fs fr \<lparr>sd_snapshot = Absent, sd_wal = Absent, sd_append_error = None\<rparr> = Inr s0"
    and "profile_run (\<lambda>(ts, env). strata_ingest ts env) ops' s0 = (acked, s)"
  shows "fst (strata_mem_query_with t svc rng p m) = fst (strata_query_with t svc rng p s) \<and>
    fst (strata_mem_query t svc rng m) = fst (strata_query t svc rng s)"
proof -
  have "sf_per_service s0 = []"
    using assms(2) by (auto simp: strata_open_with_fsync_backend_def pillar_open_def strata_resort_def)
  moreover have "strata_ok []"
    by (simp add: strata_ok_def hm_wf_def hm_get_or_def)
  ultimately show ?thesis
    using strata_mem.profile_run_contents [OF _ assms(1), of t svc] strata_file.profile_run_contents [OF _ assms(3), of t svc]
    by (simp add: strata_query_simps strata_mem_new_def)
qed

section \<open>A concrete store\<close>

definition yx_profile :: profile where
  "yx_profile = \<lparr>pf_time_unix_nano = 7, pf_duration_nanos = 1, pf_profile_type = ''cpu'', pf_sample_type = [], pf_samples = [],
     pf_locations = [], pf_functions = [], pf_mappings = [], pf_string_table = [],
     pf_resource_attributes = [(''service.name'', ''api'')], pf_attributes = []\<rparr>"

definition yx_line :: string where "yx_line = ''ab''"

definition yx_to_string :: "strata_wal_record \<Rightarrow> string + string" where
  "yx_to_string r = (if r = StrataWalIngest ''t'' [yx_profile] then Inr yx_line else Inl ''unsupported'')"

definition yx_from_str :: "string \<Rightarrow> string + strata_wal_record" where
  "yx_from_str l = (if l = yx_line then Inr (StrataWalIngest ''t'' [yx_profile]) else Inl ''expected value'')"

definition yx_io :: "nat \<Rightarrow> append_io" where
  "yx_io room = \<lparr>io_room = room, io_write_error = ''no space'', io_fsync_error = None\<rparr>"

definition yx_batch :: profile_batch where "yx_batch = \<lparr>pb_profiles = [yx_profile]\<rparr>"

definition yx_store :: "string \<Rightarrow> strata_index \<Rightarrow> strata_event list \<Rightarrow> strata_file" where
  "yx_store f m ev = \<lparr>sf_per_service = m, sf_wal = \<lparr>wr_file = f, wr_buf = [], wr_synced = length f\<rparr>,
     sf_dir = \<lparr>sf_canonical = None, sf_tmp = None, sf_undo = None\<rparr>, sf_events = ev\<rparr>"

abbreviation yx_full :: strata_file where
  "yx_full \<equiv> yx_store ''ab\<newline>'' [((''t'', ''api''), [yx_profile])] [StrataIngest ''t'' 1]"

lemmas yx_defs = yx_to_string_def yx_from_str_def yx_io_def yx_batch_def yx_store_def yx_line_def

lemma yx_service: "profile_service_name yx_profile = ''api''"
  by (simp add: profile_service_name_def yx_profile_def)

lemma yx_serde: "serde_line yx_to_string yx_from_str (StrataWalIngest ''t'' [yx_profile])"
  by (simp add: serde_line_def serde_ok_def no_cr_def line_of_def yx_defs utf8_valid_ascii)

lemma yx_ingest: "strata_ingest yx_to_string (yx_io 100) ''t'' yx_batch (yx_store [] [] []) = (Inr \<lparr>sr_count = 1\<rparr>, yx_full)"
  by (simp add: strata_ingest_def strata_append_wal_def append_wal_succeeds [of _ _ "''ab''"] yx_defs Let_def
      strata_ingest_index_def yx_service strata_sort_bucket_def by_time_def hm_get_or_def)

lemma yx_open:
  "strata_open_with_fsync_backend yx_from_str (\<lambda>_. Inl []) \<lparr>sd_snapshot = Absent, sd_wal = Absent, sd_append_error = None\<rparr> =
   Inr (yx_store [] [] [])"
  by (simp add: strata_open_with_fsync_backend_def pillar_open_def open_writer_def snap_fs_of_def strata_resort_def yx_store_def)

lemma yx_history: "strata_history yx_to_string yx_from_str (\<lambda>_. Inl ([], [])) (\<lambda>_. Inl []) yx_full [(''t'', [yx_profile])]"
  using strata_history.ingested [OF strata_history.created [OF yx_open] yx_ingest] yx_serde by (simp add: yx_batch_def)

theorem strata_restart_exact_witness:
  "\<exists>s'. strata_open_with_fsync_backend yx_from_str (\<lambda>_. Inl [])
      (disk_of \<lparr>sf_canonical = None, sf_tmp = None, sf_undo = None\<rparr> \<lparr>wr_file = ''ab\<newline>'', wr_buf = [], wr_synced = 3\<rparr>) = Inr s' \<and>
    fst (strata_query ''t'' ''api'' profile_range_all s') = Inr [yx_profile]"
  using strata_restart_exact [OF yx_history]
  by (auto simp: yx_store_def numeral_3_eq_3 strata_answers_def yx_service by_time_def profile_range_contains_def
      profile_range_all_def yx_profile_def profile_service_name_def)

lemma yx_torn:
  "strata_ingest yx_to_string (yx_io 1) ''t'' yx_batch (yx_store [] [] []) =
    (Inl (strata_io ''no space''), (yx_store [] [] [])\<lparr>sf_wal := \<lparr>wr_file = ''a'', wr_buf = ''b\<newline>'', wr_synced = 0\<rparr>\<rparr>)"
  by (simp add: strata_ingest_def strata_append_wal_def append_wal_def yx_defs Let_def buf_write_all_def flush_buf_def file_write_all_def
      buf_capacity_def)

theorem strata_crash_refuses_witness:
  "isl (strata_open_with_fsync_backend yx_from_str (\<lambda>_. Inl [])
      (disk_of \<lparr>sf_canonical = None, sf_tmp = None, sf_undo = None\<rparr> (open_writer ''a'' 1)))"
proof -
  have p: "\<forall>p. prefix p yx_line \<longrightarrow> p \<noteq> [] \<longrightarrow> p \<noteq> yx_line \<longrightarrow> isl (yx_from_str p)"
    by (simp add: yx_from_str_def)
  have r: "yx_to_string (StrataWalIngest ''t'' (pb_profiles yx_batch)) = Inr yx_line"
    "serde_line yx_to_string yx_from_str (StrataWalIngest ''t'' (pb_profiles yx_batch))" "pb_profiles yx_batch \<noteq> []"
    using yx_serde by (simp_all add: yx_to_string_def yx_batch_def)
  from strata_crash_refuses [OF strata_history.created [OF yx_open] yx_torn r(3,1,2) p, of "''a''", OF _ refl refl]
  show ?thesis
    by (simp add: yx_store_def crash_image_def yx_line_def)
qed

theorem strata_adapters_agree_witness:
  "fst (strata_mem_query ''t'' ''api'' profile_range_all (snd (strata_mem_ingest ''t'' yx_batch strata_mem_new))) =
   fst (strata_query ''t'' ''api'' profile_range_all yx_full)"
proof -
  have m: "profile_run (\<lambda>(_ :: unit). strata_mem_ingest) [((), ''t'', yx_batch)] strata_mem_new =
      ([(''t'', [yx_profile])], snd (strata_mem_ingest ''t'' yx_batch strata_mem_new))"
    by (simp add: mem_ingest_index yx_batch_def)
  have f: "profile_run (\<lambda>(ts, env). strata_ingest ts env) [((yx_to_string, yx_io 100), ''t'', yx_batch)] (yx_store [] [] []) =
      ([(''t'', [yx_profile])], yx_full)"
    by (simp add: yx_ingest) (simp add: yx_batch_def)
  from strata_adapters_agree [OF m yx_open f] show ?thesis
    by blast
qed

end
