(* ===== verification/Spec2Isabelle.thy ===== *)
theory Spec2Isabelle
  imports Cinder_Theorems Sluice_Theorems Beacon_Scenarios Pulse_Durable Query_Order Ingest_Answers Aperture_Startup Sieve_Summary Codex_Catalogue Loom_Theorems Cli_Theorems Strata_Durable
begin

text \<open>
  Kaleidoscope is an observability platform in Rust: a gateway takes OTLP exports, file-backed stores keep
  them, query APIs answer from the stores, an alerting daemon evaluates rules, and an operator CLI works on
  a data directory. This development translates the crates that carry that logic into HOL and proves
  what they promise. Paths below are relative to \<open>src/crates\<close>.

  \<^bold>\<open>How the parts interact\<close>

  \<^item> An export arrives at Aperture over HTTP or gRPC, is authenticated by Aegis, limited in size,
    checked by the conformance harness, sampled by Sieve where that is configured, and handed to the
    storage sink, which translates it and ingests it into Lumen (logs), Ray (traces) or Pulse (metrics).
  \<^item> Every file-backed store appends to a log with \<open>fsync\<close> before it touches memory, and is rebuilt at
    start from a snapshot and the log by the routines of \<open>wal-recovery\<close>. Cinder (tier placements), Sluice
    (a queue) and Beacon's rule states use the same scheme.
  \<^item> The metric, log and trace query APIs share a scaffold (tenant, window, limits, error envelope) and
    read from the stores through their ports. The operator CLI opens Lumen and Cinder directly.
  \<^item> Beacon loads a rule catalogue from a directory, drives one state machine per rule, filters the
    emissions through the inhibition resolver and posts them to sinks. Loom plans and applies changes of such a
    directory. Codex validates attribute names against the OpenTelemetry conventions.

  \<^bold>\<open>Theories and sources\<close>

  Foundations. \<open>Kal_Prelude\<close>: integer widths, byte strings, \<open>HashMap\<close> as an association list, results with a
  state, time, stable sorting, and the collections of facts the proofs draw on. \<open>Rust_Text\<close>, \<open>Rust_Hex\<close>,
  \<open>Edit_Distance\<close>: what is used of Rust's text handling, hexadecimal identifiers, and the two-row Levenshtein
  routine with its specification as a least-cost alignment.

  Durability (\<open>wal-recovery\<close> and the write path repeated in every store). \<open>Wal_Utf8\<close> (lossy decoding and line
  splitting), \<open>Wal_Recovery\<close> (tolerant and strict replay), \<open>Wal_Append\<close> (buffered writer, \<open>append_wal\<close>, crash
  images), \<open>Wal_Fsync\<close> (the \<open>FsyncBackend\<close> seam, the start-up probe, the atomic snapshot), \<open>Wal_Pillar\<close> (the
  contract between a store's replay and its live mutation, from which recovery and crash theorems follow once for
  all stores).

  Stores. \<open>Lumen_Store\<close>, \<open>Lumen_Durable\<close> (\<open>lumen\<close>); \<open>Ray_Store\<close>, \<open>Ray_Theorems\<close>, \<open>Ray_Durable\<close> (\<open>ray\<close>); \<open>Pulse_Store\<close>,
  \<open>Pulse_Theorems\<close>, \<open>Pulse_Durable\<close> (\<open>pulse\<close>); \<open>Cinder_Store\<close>, \<open>Cinder_Theorems\<close> (\<open>cinder\<close>); \<open>Sluice_Queue\<close>,
  \<open>Sluice_Theorems\<close> (\<open>sluice\<close>); \<open>Strata_Store\<close>, \<open>Strata_Theorems\<close>, \<open>Strata_Durable\<close> (\<open>strata\<close>). Each port is a locale over an abstract state, interpreted on the in-memory and on
  the file-backed adapter; the record of a store (\<open>lumen_file\<close>, \<open>cinder_file\<close>, \<open>sluice_file\<close> and so on) has the
  fields of the adapter's struct and the file and writer behind it.

  Ingest. \<open>Aegis_Tenancy\<close> (\<open>aegis\<close>); \<open>Otlp_Translate\<close>, \<open>Translate_Theorems\<close>, \<open>Storage_Sink\<close>
  (\<open>aperture-storage-sink\<close>); \<open>Otlp_Harness\<close> (\<open>otlp-conformance-harness\<close>); \<open>Aperture_Gateway\<close>, \<open>Aperture_Readiness\<close>,
  \<open>Aperture_Lifecycle\<close>, \<open>Aperture_Theorems\<close> (\<open>aperture\<close>: both transports, body limits, readiness and shutdown);
  \<open>Aperture_Config\<close>, \<open>Aperture_Sinks\<close>, \<open>Aperture_Startup\<close> (\<open>aperture\<close>: the configuration file, the stub and the
  forwarding sink, the composition, the exit codes);
  \<open>Sieve_Sampling\<close>, \<open>Sieve_Theorems\<close>, \<open>Sieve_Summary\<close> (\<open>sieve\<close>).

  Queries. \<open>Query_Common\<close> (\<open>query-http-common\<close>); \<open>Query_Selector\<close>, \<open>Query_Matrix\<close>, \<open>Query_Api\<close>, \<open>Query_Order\<close>
  (\<open>query-api\<close>); \<open>Log_Query\<close>, \<open>Log_Answers\<close> (\<open>log-query-api\<close>); \<open>Trace_Query\<close> (\<open>trace-query-api\<close>). \<open>Ingest_Answers\<close>
  composes the gateway with the query APIs.

  Alerting and catalogues. \<open>Beacon_Rules\<close>, \<open>Beacon_Alerts\<close>, \<open>Beacon_Loader\<close>, \<open>Beacon_Sinks\<close>, \<open>Beacon_State\<close> (\<open>beacon\<close>);
  \<open>Beacon_Server\<close>, \<open>Beacon_Delivery\<close>, \<open>Beacon_Scenarios\<close> (\<open>beacon-server\<close>); \<open>Loom_Plan\<close>, \<open>Loom_Apply\<close>, \<open>Loom_Theorems\<close>
  (\<open>loom\<close>); \<open>Codex_Catalogue\<close> (\<open>codex\<close>).

  Operator CLI (\<open>kaleidoscope-cli\<close>). \<open>Cli_Time\<close>, \<open>Cli_Calendar\<close>, \<open>Cli_Instants\<close> (dates and the ISO 8601 parser and
  printer), \<open>Cli_Commands\<close> (the library's operations), \<open>Cli_Main\<close> (the binary), \<open>Cli_Theorems\<close>.

  \<^bold>\<open>What the lemmas show\<close>

  \<^item> Durability: a restart gives back exactly what was acknowledged, a crash in the middle of an append at
    most the operation in flight in addition, and the circumstances in which the code falls short of it
    (an append after a torn tail, batches refused in part).
  \<^item> Stores: functional behaviour of every operation on every branch against an abstract map or reference
    ingest; conservation of messages, agreement of the two indices of Ray, bounds on the series of Pulse,
    the policy sweep of Cinder against its pointwise specification.
  \<^item> Ingest: what reaches the sink, under whose authority, how it is answered, and what a query answers
    afterwards; the exact body limits; the readiness machine under all interleavings of its
    atomic accesses, loads as stale as their ordering allows; that the start fails closed and nothing is acknowledged
    that a downstream did not take.
  \<^item> Queries: each handler answers what the specification over the acknowledged data says, nothing reaches a
    store before every parameter is valid, and the selector parser accepts exactly its grammar.
  \<^item> Alerting: the state of a rule as a function of its streak, pairing of Firing and Resolved, suppression
    while an inhibitor fires, from a first start until a reload; resumption of the states after a restart, what a
    restart and a reload lose, and that the loader loses no file silently.
  \<^item> Catalogue changes and CLI: the plan is the difference of two catalogues, the apply mirrors its source and
    leaves no file in halves, for directories apart from each other; the date conversion is the calendar
    wherever the year fits its 32 bits, instants are read exactly, and an
    acknowledged ingest is what later reads print.

  \<^bold>\<open>Parameters and hypotheses\<close>

  Libraries outside the repository are arguments: \<open>serde_json\<close>, \<open>toml\<close>, \<open>figment\<close>, \<open>humantime\<close>, \<open>regex\<close>, \<open>jsonwebtoken\<close>, \<open>reqwest\<close>,
  the \<open>http\<close> crate's header values, \<open>time\<close>'s RFC 3339 parser, \<open>prost\<close> and its generated messages, \<open>xxh3\<close>, and the
  decimal and debugging renderings of the standard library. The hypotheses on them are documented behaviour: a
  value that \<open>serde_json\<close> has written on one line is read back (\<open>serde_ok\<close>), and a proper prefix of such a line
  is not a document (\<open>torn_unparsable\<close>). The first fails for NaN and the infinities, which \<open>serde_json\<close> writes as
  \<open>null\<close>, and it can fail in the last digit of an \<open>f64\<close>; for what is then written see \<open>pulse_unreadable_batch_blocks_open\<close>. Outcomes of file operations, room on a device and the clock are
  arguments too, so every theorem holds for all of them unless it says otherwise.

  \<^bold>\<open>Conventions, bounds and fuel\<close>

  Strings are UTF-8 bytes. A \<open>u64\<close> or \<open>i64\<close> whose width matters is a word; counters that memory bounds are naturals.
  An \<open>f64\<close> is its 64 bits, with the arithmetic the code needs of it written out and formatting left as an argument. The
  iteration order of a \<open>HashMap\<close> is the order of its association list, about which no theorem assumes anything.
  Panics are values (\<open>None\<close>, or a constructor of the result). A mutex-protected operation is one step; a round
  of a Beacon rule is several, which end where the code awaits (the evaluation with its \<open>put\<close>, the resolver, each
  post), and the steps of all tasks interleave arbitrarily, so posts of different tasks have no order; a reload is
  one step. The accesses to the readiness flags and phase, and to Sieve's counters, are single steps that
  interleave; a load of a readiness flag may miss a store that is not in the past of its thread, as \<open>Release\<close> and
  \<open>Acquire\<close> allow. Loops are structural or have a measure; no definition takes fuel.

  A crash leaves of a log what was synced and any part of what was appended since (\<open>crash_image\<close>). A truncation by a
  snapshot counts as on the disk at once, although Lumen, Ray, Cinder and Strata do not sync it and Pulse syncs only the
  directory; what a log that comes back does is stated separately (\<open>lumen_snapshot_without_truncation_duplicates\<close>,
  \<open>cinder_untruncated_snapshot_harmless\<close>). Histories start in an empty directory and hold acknowledged operations,
  snapshots and restarts; an open over a torn tail, after which the next line is glued to the tail, is outside
  of them and has its own theorem (\<open>lumen_append_after_torn_tail_refused\<close>).

  \<^bold>\<open>Not modelled\<close>

  Aperture's accept loops and test-only fault injection, and the routing, log lines and composition roots of the
  query APIs: process wiring around the modelled handlers. Loom's JSON output
  and argument parsing, and the CLI's usage text and its OTLP lines. Augur: statistics over
  floating-point numbers. Spark, the runtime and gateway binaries, self-observation and the
  demo tools: wiring and third-party set-up. Prism is TypeScript.
\<close>

end
